(* ===== verification/Float64.thy ===== *)
theory Float64
  imports Complex_Main "HOL-Library.Log_Nat"
begin

text \<open>
  Go's \<open>float64\<close>. A finite value is the rational number it denotes, and every arithmetic
  operation is the exact operation followed by \<open>f64\<close>, the IEEE 754 rounding to nearest with
  ties to even at 53 bits of precision and gradual underflow at \<open>2 powi (-1074)\<close>. Go's
  constants are exact and are rounded where they become a \<open>float64\<close>, which is again \<open>f64\<close>.
  The exponent is not bounded above: overflow to an infinity is modelled where the code looks
  for it (\<open>maxFloat64\<close>), the two zeros are one value, and no NaN arises, since the code
  divides by values it has checked. Multiplications and additions are not fused.

  The lemmas are the laws every numeric argument of the development rests on: the rounding is
  monotone, odd, exact on representable values, and idempotent.
\<close>

type_synonym float64 = rat

section \<open>Rounding\<close>

definition round_even :: "rat \<Rightarrow> int" where
  "round_even x =
     (let f = \<lfloor>x\<rfloor>; d = x - of_int f
      in if d < 1 / 2 then f else if 1 / 2 < d then f + 1
         else if even f then f else f + 1)"

definition ilog2 :: "rat \<Rightarrow> int" where
  "ilog2 x =
     (let (p, q) = quotient_of x; e = bitlen p - bitlen q
      in if 2 powi e \<le> x then e else e - 1)"

definition emin :: int where
  "emin = - 1074"

definition expo :: "rat \<Rightarrow> int" where
  "expo x = max (ilog2 \<bar>x\<bar> - 52) emin"

definition f64 :: "rat \<Rightarrow> float64" where
  "f64 x = (if x = 0 then 0
            else let u = 2 powi expo x in of_int (round_even (x / u)) * u)"

definition is_f64 :: "rat \<Rightarrow> bool" where
  "is_f64 x \<longleftrightarrow> f64 x = x"

section \<open>Operations\<close>

definition fadd :: "float64 \<Rightarrow> float64 \<Rightarrow> float64" where "fadd a b = f64 (a + b)"
definition fsub :: "float64 \<Rightarrow> float64 \<Rightarrow> float64" where "fsub a b = f64 (a - b)"
definition fmul :: "float64 \<Rightarrow> float64 \<Rightarrow> float64" where "fmul a b = f64 (a * b)"
definition fdiv :: "float64 \<Rightarrow> float64 \<Rightarrow> float64" where "fdiv a b = f64 (a / b)"

definition of_int64 :: "int \<Rightarrow> float64" where "of_int64 n = f64 (of_int n)"

definition fsum :: "float64 list \<Rightarrow> float64" where
  "fsum xs = foldl fadd 0 xs"

definition math_Round :: "float64 \<Rightarrow> int" where
  "math_Round x = (if 0 \<le> x then \<lfloor>x + 1 / 2\<rfloor> else - \<lfloor>- x + 1 / 2\<rfloor>)"

definition math_Trunc :: "float64 \<Rightarrow> int" where
  "math_Trunc x = (if 0 \<le> x then \<lfloor>x\<rfloor> else - \<lfloor>- x\<rfloor>)"

definition maxFloat64 :: rat where
  "maxFloat64 = 2 ^ 1024"

lemma emin_le_m2: "emin \<le> - 2"
  by (simp add: emin_def)

section \<open>Laws of the integer rounding\<close>

lemma round_even_of_int [simp]: "round_even (of_int n) = n"
  by (simp add: round_even_def)

lemma round_even_bounds: "\<lfloor>x\<rfloor> \<le> round_even x" "round_even x \<le> \<lfloor>x\<rfloor> + 1"
  by (simp_all add: round_even_def Let_def)

lemma round_even_mono:
  assumes "x \<le> y"
  shows "round_even x \<le> round_even y"
proof (cases "\<lfloor>x\<rfloor> = \<lfloor>y\<rfloor>")
  case True
  with assms show ?thesis by (auto simp: round_even_def Let_def)
next
  case False
  with assms have "\<lfloor>x\<rfloor> + 1 \<le> \<lfloor>y\<rfloor>" using floor_mono [OF assms] by linarith
  with round_even_bounds [of x] round_even_bounds [of y] show ?thesis by linarith
qed

lemma round_even_uminus: "round_even (- x) = - round_even x"
proof (cases "x = of_int \<lfloor>x\<rfloor>")
  case True
  then show ?thesis by (metis of_int_minus round_even_of_int)
next
  case False
  define d where "d = x - of_int \<lfloor>x\<rfloor>"
  have "of_int \<lfloor>x\<rfloor> \<le> x" "x < of_int \<lfloor>x\<rfloor> + 1" by linarith+
  with False have d: "0 < d" "d < 1" unfolding d_def by linarith+
  have fl: "\<lfloor>- x\<rfloor> = - \<lfloor>x\<rfloor> - 1"
    by (rule floor_unique) (use d in \<open>auto simp: d_def\<close>)
  have dd: "- x - of_int (- \<lfloor>x\<rfloor> - 1) = 1 - d" by (simp add: d_def)
  have "round_even (- x) = (if 1 - d < 1 / 2 then - \<lfloor>x\<rfloor> - 1 else if 1 / 2 < 1 - d then - \<lfloor>x\<rfloor>
     else if even (- \<lfloor>x\<rfloor> - 1) then - \<lfloor>x\<rfloor> - 1 else - \<lfloor>x\<rfloor>)"
    unfolding round_even_def Let_def fl dd by simp
  moreover have "round_even x = (if d < 1 / 2 then \<lfloor>x\<rfloor> else if 1 / 2 < d then \<lfloor>x\<rfloor> + 1
     else if even \<lfloor>x\<rfloor> then \<lfloor>x\<rfloor> else \<lfloor>x\<rfloor> + 1)"
    unfolding round_even_def Let_def d_def by (rule refl)
  ultimately show ?thesis using d by (cases "d < 1 / 2"; cases "1 / 2 < d"; simp)
qed

section \<open>Laws of the binary exponent\<close>

lemma powi_two_mono: "(i::int) \<le> j \<Longrightarrow> (2::rat) powi i \<le> 2 powi j"
  by (simp add: power_int_increasing)

lemma powi_two_less: "((2::rat) powi i < 2 powi j) = ((i::int) < j)"
  by (meson linorder_not_le one_less_numeral_iff power_int_increasing
      power_int_strict_increasing powi_two_mono semiring_norm(76))

lemma powi_two_nonneg_int: "0 \<le> (e::int) \<Longrightarrow> (2::rat) powi e = of_int (2 ^ nat e)"
  by (simp add: power_int_def)

lemma powi_two_add: "(2::rat) powi (i + j) = 2 powi i * 2 powi j"
  by (simp add: power_int_add)

lemma powi_two_diff: "(2::rat) powi (i - j) = 2 powi i / 2 powi j"
  by (simp add: power_int_diff)

lemma powi_two_split:
  "j \<le> (k::int) \<Longrightarrow> (2::rat) powi k = of_int (2 ^ nat (k - j)) * 2 powi j"
  using powi_two_nonneg_int [of "k - j"] powi_two_diff [of k j] by (simp add: field_simps)

lemma powi_two_pos [simp]: "0 < (2::rat) powi e"
  by simp

lemma powi_two_bitlen:
  assumes "0 < (p::int)"
  shows "(2::rat) powi (bitlen p - 1) \<le> of_int p" "of_int p < (2::rat) powi bitlen p"
proof -
  have b: "0 < bitlen p" using assms bitlen_bounds [of p]
    by (metis bitlen_eq_zero_iff bitlen_nonneg linorder_not_le order_le_less)
  have "2 ^ nat (bitlen p - 1) \<le> p" "p < 2 ^ nat (bitlen p)"
    using bitlen_bounds [OF assms] by auto
  then have "(of_int (2 ^ nat (bitlen p - 1)) :: rat) \<le> of_int p"
    "(of_int p :: rat) < of_int (2 ^ nat (bitlen p))"
    by (simp_all only: of_int_le_iff of_int_less_iff)
  then show "(2::rat) powi (bitlen p - 1) \<le> of_int p" "of_int p < (2::rat) powi bitlen p"
    using b by (simp_all add: powi_two_nonneg_int)
qed

lemma ilog2_bounds:
  assumes "0 < x"
  shows "2 powi ilog2 x \<le> x" "x < 2 powi (ilog2 x + 1)"
proof -
  obtain p q where pq: "quotient_of x = (p, q)" by (cases "quotient_of x") auto
  have q: "0 < q" using quotient_of_denom_pos [OF pq] .
  have x: "x = of_int p / of_int q" using quotient_of_div [OF pq] .
  have p: "0 < p" using assms q unfolding x by (simp add: zero_less_divide_iff)
  define e where "e = bitlen p - bitlen q"
  have "x < 2 powi bitlen p / 2 powi (bitlen q - 1)"
    unfolding x using powi_two_bitlen [OF p] powi_two_bitlen [OF q] p q
    by (intro frac_less) auto
  also have "\<dots> = 2 powi (e + 1)"
    by (simp add: e_def powi_two_add powi_two_diff)
  finally have up: "x < 2 powi (e + 1)" .
  have "2 powi (e - 1) = (2 powi (bitlen p - 1) :: rat) / 2 powi bitlen q"
    by (simp add: e_def powi_two_diff)
  also have "\<dots> \<le> x"
    unfolding x using powi_two_bitlen [OF p] powi_two_bitlen [OF q] p q
    by (intro frac_le) auto
  finally have lo: "2 powi (e - 1) \<le> x" .
  have il: "ilog2 x = (if 2 powi e \<le> x then e else e - 1)"
    by (simp add: ilog2_def pq e_def)
  show "2 powi ilog2 x \<le> x" "x < 2 powi (ilog2 x + 1)"
    using up lo by (auto simp: il)
qed

lemma ilog2_ge: "0 < x \<Longrightarrow> 2 powi k \<le> x \<Longrightarrow> k \<le> ilog2 x"
  using ilog2_bounds(2) [of x] powi_two_less [of k "ilog2 x + 1"] by linarith

lemma ilog2_less: "0 < x \<Longrightarrow> x < 2 powi k \<Longrightarrow> ilog2 x < k"
  using ilog2_bounds(1) [of x] powi_two_less [of "ilog2 x" k] by linarith

lemma ilog2_mono: "0 < x \<Longrightarrow> x \<le> y \<Longrightarrow> ilog2 x \<le> ilog2 y"
  by (rule ilog2_ge) (use ilog2_bounds(1) [of x] in auto)

section \<open>Laws of the rounding\<close>

lemma expo_mono:
  assumes "0 < x" "x \<le> y"
  shows "expo x \<le> expo y"
  using ilog2_mono [OF assms] assms by (simp add: expo_def max_def)

lemma f64_0 [simp]: "f64 0 = 0"
  by (simp add: f64_def)

lemma f64_uminus: "f64 (- x) = - f64 x"
  by (simp add: f64_def expo_def Let_def round_even_uminus)

lemma f64_pos_eq: "0 < x \<Longrightarrow> f64 x = of_int (round_even (x / 2 powi expo x)) * 2 powi expo x"
  by (simp add: f64_def Let_def)

text \<open>A multiple of a power of two not below the unit in the last place rounds to itself, and it
  bounds the rounding of anything it bounds.\<close>

lemma f64_le_grid:
  assumes x: "0 < x" "x \<le> of_int m * 2 powi k" and k: "expo x \<le> k"
  shows "f64 x \<le> of_int m * 2 powi k"
proof -
  let ?u = "2 powi expo x :: rat"
  have g: "(2::rat) powi k = of_int (2 ^ nat (k - expo x)) * ?u"
    using k by (rule powi_two_split)
  have "x / ?u \<le> of_int (m * 2 ^ nat (k - expo x))"
    using x(2) unfolding g by (simp add: pos_divide_le_eq)
  then have "round_even (x / ?u) \<le> m * 2 ^ nat (k - expo x)"
    using round_even_mono round_even_of_int by metis
  then have "(of_int (round_even (x / ?u)) :: rat) \<le> of_int (m * 2 ^ nat (k - expo x))"
    by (simp only: of_int_le_iff)
  then show ?thesis unfolding f64_pos_eq [OF x(1)] g by simp
qed

lemma f64_ge_grid:
  assumes x: "0 < x" "of_int m * 2 powi k \<le> x" and k: "expo x \<le> k"
  shows "of_int m * 2 powi k \<le> f64 x"
proof -
  let ?u = "2 powi expo x :: rat"
  have g: "(2::rat) powi k = of_int (2 ^ nat (k - expo x)) * ?u"
    using k by (rule powi_two_split)
  have "of_int (m * 2 ^ nat (k - expo x)) \<le> x / ?u"
    using x(2) unfolding g by (simp add: pos_le_divide_eq)
  then have "m * 2 ^ nat (k - expo x) \<le> round_even (x / ?u)"
    using round_even_mono round_even_of_int by metis
  then have "(of_int (m * 2 ^ nat (k - expo x)) :: rat) \<le> of_int (round_even (x / ?u))"
    by (simp only: of_int_le_iff)
  then show ?thesis unfolding f64_pos_eq [OF x(1)] g by simp
qed

lemma f64_nonneg: "0 \<le> x \<Longrightarrow> 0 \<le> f64 x"
  using f64_ge_grid [of x 0 "expo x"] by (cases "x = 0") auto

lemma f64_nonpos: "x \<le> 0 \<Longrightarrow> f64 x \<le> 0"
  using f64_nonneg [of "- x"] by (simp add: f64_uminus)

lemma f64_mono_pos:
  assumes x: "0 < x" "x \<le> y"
  shows "f64 x \<le> f64 y"
proof (cases "expo x = expo y")
  case True
  have "round_even (x / 2 powi expo y) \<le> round_even (y / 2 powi expo y)"
    by (rule round_even_mono) (use x in \<open>auto intro: divide_right_mono\<close>)
  with x True show ?thesis by (simp add: f64_pos_eq)
next
  case False
  define k where "k = ilog2 y"
  from False expo_mono [OF x] have lt: "expo x < expo y" by simp
  then have ey: "expo y = k - 52" using x by (auto simp: expo_def k_def max_def split: if_splits)
  have "ilog2 x < k" using lt x by (auto simp: expo_def k_def max_def split: if_splits)
  then have "x < 2 powi k" using ilog2_bounds(2) [OF x(1)] powi_two_mono [of "ilog2 x + 1" k] by force
  then have up: "f64 x \<le> of_int 1 * 2 powi k"
    using lt ey x by (intro f64_le_grid) auto
  have "of_int 1 * 2 powi k \<le> f64 y"
    using ilog2_bounds(1) [of y] x ey by (intro f64_ge_grid) (auto simp: k_def)
  with up show ?thesis by linarith
qed

lemma f64_mono: "x \<le> y \<Longrightarrow> f64 x \<le> f64 y"
proof -
  assume le: "x \<le> y"
  consider "0 < x" | "x \<le> 0" "0 \<le> y" | "y < 0" by linarith
  then show ?thesis
  proof cases
    case 1 then show ?thesis using le by (rule f64_mono_pos)
  next
    case 2 then show ?thesis using f64_nonpos [of x] f64_nonneg [of y] by linarith
  next
    case 3 then show ?thesis using f64_mono_pos [of "- y" "- x"] le by (simp add: f64_uminus)
  qed
qed

text \<open>Values with a 53-bit significand are exact.\<close>

lemma expo_grid:
  assumes "0 < m" "m < 2 ^ 53" "emin \<le> k"
  shows "expo (of_int m * 2 powi k) \<le> k"
proof -
  have "(of_int m :: rat) < of_int (2 ^ 53)" using assms(2) by (simp only: of_int_less_iff)
  then have "of_int m * 2 powi k < (2::rat) powi (53 + k)"
    by (simp add: powi_two_add)
  then have "ilog2 (of_int m * 2 powi k) < 53 + k"
    using assms(1) by (intro ilog2_less) auto
  with assms show ?thesis by (simp add: expo_def abs_mult)
qed

lemma f64_exact:
  assumes "\<bar>m\<bar> < 2 ^ 53" "emin \<le> k"
  shows "f64 (of_int m * 2 powi k) = of_int m * 2 powi k"
proof -
  have pos: "f64 (of_int n * 2 powi k) = of_int n * 2 powi k" if n: "0 < n" "n < 2 ^ 53" for n
    using f64_le_grid [of "of_int n * 2 powi k" n k] f64_ge_grid [of "of_int n * 2 powi k" n k]
      expo_grid [OF n assms(2)] n by fastforce
  consider "0 < m" | "m = 0" | "m < 0" by linarith
  then show ?thesis
  proof cases
    case 1 then show ?thesis using pos assms by simp
  next
    case 2 then show ?thesis by simp
  next
    case 3
    then have "f64 (of_int (- m) * 2 powi k) = of_int (- m) * 2 powi k"
      by (intro pos) (use assms in auto)
    then show ?thesis using f64_uminus [of "of_int m * 2 powi k"] by simp
  qed
qed

lemma f64_of_int: "\<bar>n\<bar> < 2 ^ 53 \<Longrightarrow> f64 (of_int n) = of_int n"
  using f64_exact [of n 0] by (simp add: emin_def)

text \<open>Every result of the rounding is representable, so rounding twice is rounding once.\<close>

lemma round_even_le: "x \<le> of_int n \<Longrightarrow> round_even x \<le> n"
  using round_even_mono [of x "of_int n"] by simp

lemma f64_grid_pos:
  assumes x: "0 < x"
  shows "\<exists>m k. \<bar>m\<bar> < 2 ^ 53 \<and> emin \<le> k \<and> f64 x = of_int m * 2 powi k"
proof -
  define k where "k = expo x"
  define m where "m = round_even (x / 2 powi k)"
  have fx: "f64 x = of_int m * 2 powi k" using x by (simp add: f64_pos_eq k_def m_def)
  have k: "emin \<le> k" by (simp add: k_def expo_def)
  have "ilog2 x + 1 \<le> 53 + k" using x by (simp add: k_def expo_def max_def)
  then have "x < 2 powi (53 + k)"
    using ilog2_bounds(2) [OF x] powi_two_mono [of "ilog2 x + 1" "53 + k"] by linarith
  then have "x / 2 powi k \<le> of_int (2 ^ 53)" by (simp add: powi_two_add pos_divide_le_eq)
  then have m: "m \<le> 2 ^ 53" unfolding m_def by (rule round_even_le)
  have m0: "0 \<le> m" using round_even_mono [of 0 "x / 2 powi k"] x round_even_of_int [of 0]
    by (simp add: m_def)
  show ?thesis
  proof (cases "m = 2 ^ 53")
    case True
    then have "f64 x = of_int (2 ^ 52) * 2 powi (k + 1)" by (simp add: fx powi_two_add)
    moreover have "\<bar>2 ^ 52 :: int\<bar> < 2 ^ 53" "emin \<le> k + 1" using k by simp_all
    ultimately show ?thesis by blast
  next
    case False
    with m m0 have "\<bar>m\<bar> < 2 ^ 53" by simp
    then show ?thesis using fx k by blast
  qed
qed

lemma f64_grid: "\<exists>m k. \<bar>m\<bar> < 2 ^ 53 \<and> emin \<le> k \<and> f64 x = of_int m * 2 powi k"
proof -
  consider "0 < x" | "x = 0" | "0 < - x" by linarith
  then show ?thesis
  proof cases
    case 1 then show ?thesis by (rule f64_grid_pos)
  next
    case 2 then show ?thesis by (intro exI [of _ 0]) (simp add: emin_def)
  next
    case 3
    then obtain m k where "\<bar>m\<bar> < 2 ^ 53" "emin \<le> k" "f64 (- x) = of_int m * 2 powi k"
      using f64_grid_pos by blast
    then show ?thesis by (intro exI [of _ "- m"] exI [of _ k]) (simp add: f64_uminus)
  qed
qed

lemma f64_idem [simp]: "f64 (f64 x) = f64 x"
  using f64_grid [of x] f64_exact by metis

lemma is_f64_grid: "is_f64 x \<longleftrightarrow> (\<exists>m k. \<bar>m\<bar> < 2 ^ 53 \<and> emin \<le> k \<and> x = of_int m * 2 powi k)"
  unfolding is_f64_def using f64_grid [of x] f64_exact by metis

lemma is_f64_double: "is_f64 a \<Longrightarrow> is_f64 (2 * a)"
proof -
  assume "is_f64 a"
  then obtain m k where "\<bar>m\<bar> < 2 ^ 53" "emin \<le> k" "a = of_int m * 2 powi k"
    unfolding is_f64_grid by blast
  then show ?thesis unfolding is_f64_grid
    by (intro exI [of _ m] exI [of _ "k + 1"]) (simp add: powi_two_add)
qed

lemma is_f64_uminus [simp]: "is_f64 (- x) = is_f64 x"
  by (simp add: is_f64_def f64_uminus)

lemma is_f64_0 [simp]: "is_f64 0"
  by (simp add: is_f64_def)

text \<open>Gradual underflow: the difference of two distinct values never rounds to zero.\<close>

lemma f64_diff_eq_0:
  assumes "is_f64 a" "is_f64 b"
  shows "f64 (a - b) = 0 \<longleftrightarrow> a = b"
proof -
  have lattice: "\<exists>n. x = of_int n * 2 powi emin" if "is_f64 x" for x
  proof -
    from that obtain m k where "emin \<le> k" "x = of_int m * 2 powi k"
      unfolding is_f64_grid by blast
    then show ?thesis
      by (intro exI [of _ "m * 2 ^ nat (k - emin)"]) (simp only: powi_two_split of_int_mult mult.assoc)
  qed
  have pos: "0 < f64 (c - d)" if lt: "d < c" and fl: "is_f64 c" "is_f64 d" for c d
  proof -
    obtain i j where ij: "c = of_int i * 2 powi emin" "d = of_int j * 2 powi emin"
      using lattice [OF fl(1)] lattice [OF fl(2)] by blast
    then have "j < i" using lt by simp
    then have "(1::rat) \<le> of_int (i - j)" by simp
    then have "of_int 1 * 2 powi emin \<le> c - d"
      unfolding ij left_diff_distrib [symmetric] by (intro mult_right_mono) auto
    then have "f64 (of_int 1 * 2 powi emin) \<le> f64 (c - d)" by (rule f64_mono)
    then show ?thesis using f64_exact [of 1 emin] order_less_le_trans [OF powi_two_pos [of emin]] by simp
  qed
  show ?thesis
    using pos [of b a] pos [of a b] assms f64_uminus [of "b - a"] by (cases a b rule: linorder_cases) auto
qed

lemma is_f64_f64 [simp]: "is_f64 (f64 x)"
  by (simp add: is_f64_def)

lemma is_f64_of_int: "\<bar>n\<bar> < 2 ^ 53 \<Longrightarrow> is_f64 (of_int n)"
  by (simp add: is_f64_def f64_of_int)

lemma f64_le_f64: "is_f64 y \<Longrightarrow> x \<le> y \<Longrightarrow> f64 x \<le> y"
  using f64_mono [of x y] by (simp add: is_f64_def)

lemma f64_ge_f64: "is_f64 y \<Longrightarrow> y \<le> x \<Longrightarrow> y \<le> f64 x"
  using f64_mono [of y x] by (simp add: is_f64_def)

section \<open>Rounding error and comparison of shares\<close>

lemma round_even_error: "\<bar>of_int (round_even y) - y\<bar> \<le> 1 / 2"
proof -
  have f: "of_int \<lfloor>y\<rfloor> \<le> y" "y < of_int \<lfloor>y\<rfloor> + 1" by linarith+
  show ?thesis unfolding round_even_def Let_def abs_le_iff using f
    by (cases "y - of_int \<lfloor>y\<rfloor> < 1 / 2"; cases "1 / 2 < y - of_int \<lfloor>y\<rfloor>"; cases "even \<lfloor>y\<rfloor>")
       (simp_all; linarith)+
qed

lemma f64_error: "x \<noteq> 0 \<Longrightarrow> \<bar>f64 x - x\<bar> \<le> 2 powi expo x / 2"
proof -
  assume x: "x \<noteq> 0"
  let ?u = "2 powi expo x :: rat" and ?r = "of_int (round_even (x / 2 powi expo x)) :: rat"
  have "f64 x - x = (?r - x / ?u) * ?u" using x by (simp add: f64_def Let_def algebra_simps)
  then have "\<bar>f64 x - x\<bar> = \<bar>?r - x / ?u\<bar> * ?u" by (simp add: abs_mult)
  also have "\<dots> \<le> 1 / 2 * ?u" by (intro mult_right_mono round_even_error) auto
  finally show ?thesis by simp
qed

lemma f64_error_unit:
  assumes "0 \<le> x" "x \<le> 1"
  shows "\<bar>f64 x - x\<bar> \<le> 2 powi (- 53)"
proof (cases "x = 0")
  case True
  then show ?thesis by (simp add: power_int_def)
next
  case False
  with assms have x: "0 < x" by simp
  have "ilog2 x < 1" using x assms by (intro ilog2_less) auto
  then have "expo x \<le> - 52" using x by (simp add: expo_def emin_def)
  then have "2 powi expo x \<le> (2::rat) powi (- 52)" by (rule powi_two_mono)
  also have "\<dots> = 2 * 2 powi (- 53)" using powi_two_add [of 1 "- 53"] by simp
  finally show ?thesis using f64_error [OF False] by linarith
qed

text \<open>
  The code compares a share of a population, a quotient of two counts, with a decimal constant.
  For populations below \<open>2 ^ 52\<close> over the constant's denominator, comparing the rounded values is
  comparing the exact ones.
\<close>

lemma f64_frac_le_iff:
  assumes p: "0 \<le> p" "p \<le> t" "0 < t" and a: "0 \<le> a" "a \<le> b" "0 < b" and small: "t * b < 2 ^ 52"
  shows "f64 (of_int a / of_int b) \<le> f64 (of_int p / of_int t) \<longleftrightarrow> a * t \<le> p * (b::int)"
proof
  assume "a * t \<le> p * b"
  then have "(of_int (a * t) :: rat) \<le> of_int (p * b)" by (simp only: of_int_le_iff)
  then have "(of_int a :: rat) / of_int b \<le> of_int p / of_int t"
    using p a by (simp add: field_simps)
  then show "f64 (of_int a / of_int b) \<le> f64 (of_int p / of_int t)" by (rule f64_mono)
next
  assume le: "f64 (of_int a / of_int b) \<le> f64 (of_int p / of_int t)"
  show "a * t \<le> p * b"
  proof (rule ccontr)
    assume "\<not> a * t \<le> p * b"
    then have "1 \<le> a * t - p * b" by simp
    then have one: "(1::rat) \<le> of_int (a * t - p * b)" by (simp only: of_int_1_le_iff)
    define d where "d = (of_int a / of_int b - of_int p / of_int t :: rat)"
    have eq: "(of_int (a * t - p * b) :: rat) = d * of_int (t * b)"
      unfolding d_def using p a by (simp add: field_simps)
    have tb: "(0::rat) < of_int (t * b)" "(of_int (t * b) :: rat) < of_int (2 ^ 52)"
      using small p a by (simp_all only: of_int_less_iff of_int_0_less_iff zero_less_mult_iff simp_thms)
    have "0 < d"
    proof (rule ccontr)
      assume "\<not> 0 < d"
      then have "d * of_int (t * b) \<le> 0" using tb(1) by (intro mult_nonpos_nonneg) auto
      with one eq show False by linarith
    qed
    then have "d * of_int (t * b) < d * of_int (2 ^ 52)" using tb(2) by (intro mult_strict_left_mono)
    then have "d * of_int (t * b) < d * 2 ^ 52" by simp
    with one eq have gap: "1 < d * 2 ^ 52" by linarith
    have e: "\<bar>f64 (of_int a / of_int b) - of_int a / of_int b\<bar> \<le> 2 powi (- 53)"
      "\<bar>f64 (of_int p / of_int t) - of_int p / of_int t\<bar> \<le> 2 powi (- 53)"
      using p a by (intro f64_error_unit; simp)+
    have "d \<le> 2 * 2 powi (- 53)" using e le unfolding d_def by linarith
    then have "d * 2 ^ 52 \<le> 2 * 2 powi (- 53) * 2 ^ 52" by (intro mult_right_mono) auto
    also have "\<dots> = 1" using powi_two_add [of "- 53" 53] by simp
    finally show False using gap by simp
  qed
qed

section \<open>An interface for rounded sums\<close>

text \<open>
  What the bounds on accumulated costs and shares need of the rounding: it is monotone and
  leaves a set of grid values alone. The laws are stated once over any such rounding.
\<close>

locale rounding =
  fixes rnd :: "rat \<Rightarrow> rat" and grid :: "rat \<Rightarrow> bool"
  assumes rnd_mono: "x \<le> y \<Longrightarrow> rnd x \<le> rnd y"
    and rnd_grid: "grid x \<Longrightarrow> rnd x = x"
    and grid_zero: "grid 0"
begin

lemma rnd_nonneg: "0 \<le> x \<Longrightarrow> 0 \<le> rnd x"
  using rnd_mono [of 0 x] rnd_grid [OF grid_zero] by simp

lemma rnd_le_grid: "grid y \<Longrightarrow> x \<le> y \<Longrightarrow> rnd x \<le> y"
  using rnd_mono [of x y] rnd_grid [of y] by simp

lemma foldl_rnd_ge_start:
  "(\<And>x. x \<in> set xs \<Longrightarrow> 0 \<le> x) \<Longrightarrow> grid a \<Longrightarrow> (\<And>y. grid (rnd y)) \<Longrightarrow>
   a \<le> foldl (\<lambda>s x. rnd (s + x)) a xs"
proof (induction xs arbitrary: a)
  case Nil
  then show ?case by simp
next
  case (Cons x xs)
  have "a \<le> rnd (a + x)" using rnd_mono [of a "a + x"] rnd_grid [of a] Cons.prems by simp
  also have "\<dots> \<le> foldl (\<lambda>s x. rnd (s + x)) (rnd (a + x)) xs"
    using Cons.prems by (intro Cons.IH) auto
  finally show ?case by simp
qed

end

interpretation f64r: rounding f64 is_f64
  by unfold_locales (auto simp: f64_mono is_f64_def)

lemma fsum_nonneg: "(\<And>x. x \<in> set xs \<Longrightarrow> 0 \<le> x) \<Longrightarrow> 0 \<le> fsum xs"
  using f64r.foldl_rnd_ge_start [of xs 0] f64r.grid_zero
  by (simp add: fsum_def fadd_def [abs_def])

end
