(* ===== verification/Prelude.thy ===== *)
theory Prelude
  imports Float64 "HOL-Library.List_Lexorder" "HOL-Library.Char_ord"
    "HOL-Library.Product_Lexorder" "HOL-Library.AList" "HOL-Library.Multiset"
    "HOL-Library.Sublist"
begin

text \<open>
  What the components share. A Go string is a \<open>string\<close> (its bytes), compared byte by byte as Go
  does. A Go map is an association list with distinct keys, read with \<open>map_of\<close> and written with
  \<open>AList.update\<close> and \<open>AList.delete\<close>; ranging over it visits the list, whose order stands for the
  order Go leaves open. A value of Go's \<open>any\<close> that came from JSON is a \<open>json\<close>. Sorting by a
  \<open>less\<close> function is \<open>sort_key\<close> on a lexicographic key.
\<close>

section \<open>Types\<close>

type_synonym ('k, 'v) gomap = "('k \<times> 'v) list"

datatype json =
    JNull
  | JBool bool
  | JNum float64
  | JStr string
  | JArr "json list"
  | JObj "(string \<times> json) list"

named_theorems go_defs \<open>definitions unfolded when a closed model term is evaluated\<close>

section \<open>Strings\<close>

definition cut_prefix :: "string \<Rightarrow> string \<Rightarrow> string option" where
  "cut_prefix p s = (if take (length p) s = p then Some (drop (length p) s) else None)"

definition has_prefix :: "string \<Rightarrow> string \<Rightarrow> bool" where
  "has_prefix s p \<longleftrightarrow> take (length p) s = p"

definition has_suffix :: "string \<Rightarrow> string \<Rightarrow> bool" where
  "has_suffix s p \<longleftrightarrow> has_prefix (rev s) (rev p)"

definition trim_prefix :: "string \<Rightarrow> string \<Rightarrow> string" where
  "trim_prefix s p = (if has_prefix s p then drop (length p) s else s)"

definition trim_left :: "(char \<Rightarrow> bool) \<Rightarrow> string \<Rightarrow> string" where
  "trim_left P s = dropWhile P s"

definition trim_right :: "(char \<Rightarrow> bool) \<Rightarrow> string \<Rightarrow> string" where
  "trim_right P s = rev (dropWhile P (rev s))"

definition trim_both :: "(char \<Rightarrow> bool) \<Rightarrow> string \<Rightarrow> string" where
  "trim_both P s = trim_right P (trim_left P s)"

definition is_space :: "char \<Rightarrow> bool" where
  "is_space c \<longleftrightarrow> c \<in> set [CHR '' '', CHR 0x09, CHR 0x0A, CHR 0x0B, CHR 0x0C, CHR 0x0D]"

fun strings_Cut :: "string \<Rightarrow> string \<Rightarrow> (string \<times> string) option" where
  "strings_Cut sep s =
     (if has_prefix s sep then Some ([], drop (length sep) s)
      else case s of [] \<Rightarrow> None
        | c # cs \<Rightarrow> map_option (\<lambda>(a, b). (c # a, b)) (strings_Cut sep cs))"

fun strings_Join :: "string list \<Rightarrow> string \<Rightarrow> string" where
  "strings_Join [] sep = []"
| "strings_Join [x] sep = x"
| "strings_Join (x # y # ys) sep = x @ sep @ strings_Join (y # ys) sep"

definition digit_char :: "nat \<Rightarrow> char" where
  "digit_char d = char_of (48 + d)"

fun nat_to_string :: "nat \<Rightarrow> string" where
  "nat_to_string n =
     (if n < 10 then [digit_char n] else nat_to_string (n div 10) @ [digit_char (n mod 10)])"

declare nat_to_string.simps [simp del]
declare strings_Cut.simps [simp del]

definition Itoa :: "int \<Rightarrow> string" where
  "Itoa n = (if n < 0 then ''-'' @ nat_to_string (nat (- n)) else nat_to_string (nat n))"

fun fold_char :: "char \<Rightarrow> char" where
  "fold_char c = (let n = of_char c :: nat in if 65 \<le> n \<and> n \<le> 90 then char_of (n + 32) else c)"

definition ToLower :: "string \<Rightarrow> string" where
  "ToLower s = map fold_char s"

definition upper_char :: "char \<Rightarrow> char" where
  "upper_char c = (let n = of_char c :: nat in if 97 \<le> n \<and> n \<le> 122 then char_of (n - 32) else c)"

definition ToUpper :: "string \<Rightarrow> string" where
  "ToUpper s = map upper_char s"

definition EqualFold :: "string \<Rightarrow> string \<Rightarrow> bool" where
  "EqualFold s t \<longleftrightarrow> ToLower s = ToLower t"

definition contains_str :: "string \<Rightarrow> string \<Rightarrow> bool" where
  "contains_str s sub \<longleftrightarrow> list_ex (\<lambda>t. has_prefix t sub) (suffixes s)"

section \<open>Lists and maps\<close>

text \<open>A Go map indexed by a missing key gives the zero value of its element type.\<close>

definition lookup_default :: "'v \<Rightarrow> ('k, 'v) gomap \<Rightarrow> 'k \<Rightarrow> 'v" where
  "lookup_default z m k = (case map_of m k of None \<Rightarrow> z | Some v \<Rightarrow> v)"

definition map_incr :: "'k \<Rightarrow> ('k, int) gomap \<Rightarrow> ('k, int) gomap" where
  "map_incr k m = AList.update k (lookup_default 0 m k + 1) m"

text \<open>\<open>m[k] = append(m[k], v)\<close>\<close>

definition map_append :: "'k \<Rightarrow> 'v \<Rightarrow> ('k, 'v list) gomap \<Rightarrow> ('k, 'v list) gomap" where
  "map_append k v m = AList.update k (lookup_default [] m k @ [v]) m"

section \<open>Laws\<close>

lemma map_of_update [simp]: "map_of (AList.update k v m) = (map_of m)(k \<mapsto> v)"
  by (simp add: update_conv')

lemma map_of_delete [simp]: "map_of (AList.delete k m) = (map_of m)(k := None)"
  by (simp add: delete_conv')

lemma update_new: "k \<notin> fst ` set m \<Longrightarrow> AList.update k v m = m @ [(k, v)]"
  by (induction m) auto

lemma lookup_default_incr:
  "lookup_default 0 (map_incr k m) x = lookup_default 0 m x + (if x = k then 1 else 0)"
  by (simp add: lookup_default_def map_incr_def)

lemma lookup_default_append:
  "lookup_default [] (map_append k v m) x = lookup_default [] m x @ (if x = k then [v] else [])"
  by (simp add: lookup_default_def map_append_def)

lemma distinct_map_incr [simp]: "distinct (map fst m) \<Longrightarrow> distinct (map fst (map_incr k m))"
  by (simp add: map_incr_def distinct_update)

lemma distinct_map_append [simp]: "distinct (map fst m) \<Longrightarrow> distinct (map fst (map_append k v m))"
  by (simp add: map_append_def distinct_update)

lemma dom_keys_incr [simp]: "fst ` set (map_incr k m) = insert k (fst ` set m)"
  by (simp add: map_incr_def dom_update dom_map_of_conv_image_fst [symmetric])

lemma dom_keys_append [simp]: "fst ` set (map_append k v m) = insert k (fst ` set m)"
  by (simp add: map_append_def dom_update dom_map_of_conv_image_fst [symmetric])

lemma has_prefix_append [simp]: "has_prefix (p @ s) p"
  by (simp add: has_prefix_def)

lemma has_prefix_iff: "has_prefix s p \<longleftrightarrow> (\<exists>t. s = p @ t)"
  unfolding has_prefix_def by (metis append_eq_conv_conj append_take_drop_id)

lemma dropWhile_rev_hd: "dropWhile P s \<noteq> [] \<Longrightarrow> \<not> P (hd (dropWhile P s))"
  by (rule hd_dropWhile) auto

lemma set_trim_both: "set (trim_both P s) \<subseteq> set s"
  by (auto simp: trim_both_def trim_left_def trim_right_def dest!: set_dropWhileD)

lemma nat_to_string_nonempty [simp]: "nat_to_string n \<noteq> []"
  by (subst nat_to_string.simps) simp

end
