(* ===== verification/Util.thy ===== *)
theory Util
  imports Prelude
begin

text \<open>
  The package \<open>internal/util\<close>: the numeric conversion and the median every detector uses
  (num.go), name and severity helpers (text.go) and the finding fingerprint (fingerprint.go).
  The hash is a parameter: what is shown of a fingerprint holds for every hash function.
\<close>

section \<open>num.go\<close>

definition util_Float64 :: "json \<Rightarrow> float64 option" where
  "util_Float64 v = (case v of JNum n \<Rightarrow> Some n | _ \<Rightarrow> None)"

definition Median :: "float64 list \<Rightarrow> float64" where
  "Median vals =
     (let n = length vals; sorted = sort vals
      in if n = 0 then 0
         else if n mod 2 = 0 then fdiv (fadd (sorted ! (n div 2 - 1)) (sorted ! (n div 2))) 2
         else sorted ! (n div 2))"

section \<open>text.go\<close>

definition maxNameLen :: nat where
  "maxNameLen = 253"

definition unnamed :: string where
  "unnamed = ''unnamed''"

definition Plural :: "int \<Rightarrow> string" where
  "Plural n = (if n = 1 then '''' else ''s'')"

definition dns_char :: "char \<Rightarrow> bool" where
  "dns_char c \<longleftrightarrow> (let n = of_char c :: nat in
     (97 \<le> n \<and> n \<le> 122) \<or> (48 \<le> n \<and> n \<le> 57) \<or> n = 46 \<or> n = 45)"

definition alnum_char :: "char \<Rightarrow> bool" where
  "alnum_char c \<longleftrightarrow> (let n = of_char c :: nat in (97 \<le> n \<and> n \<le> 122) \<or> (48 \<le> n \<and> n \<le> 57))"

definition dash_dot :: "char \<Rightarrow> bool" where
  "dash_dot c \<longleftrightarrow> c = CHR ''-'' \<or> c = CHR ''.''"

text \<open>\<open>ReplaceAllString\<close> with a pattern that matches maximal runs of the characters in \<open>P\<close>.\<close>

function replace_runs :: "(char \<Rightarrow> bool) \<Rightarrow> string \<Rightarrow> string \<Rightarrow> string" where
  "replace_runs P r [] = []"
| "replace_runs P r (c # cs) =
     (if P c then r @ replace_runs P r (dropWhile P cs) else c # replace_runs P r cs)"
  by pat_completeness auto
termination
  by (relation "measure (\<lambda>(P, r, s). length s)") (auto simp: le_imp_less_Suc length_dropWhile_le)

text \<open>The pattern of two or more dashes: a run of at least two becomes one dash, and a single
  dash stays, so each run of dashes becomes one dash.\<close>

definition collapse_dashes :: "string \<Rightarrow> string" where
  "collapse_dashes s = replace_runs (\<lambda>c. c = CHR ''-'') ''-'' s"

definition SanitizeName :: "string \<Rightarrow> string" where
  "SanitizeName name =
     (let cleaned = replace_runs (\<lambda>c. \<not> dns_char c) ''-'' (ToLower name);
          cleaned = collapse_dashes cleaned;
          cleaned = trim_both dash_dot cleaned;
          cleaned = (if length cleaned > maxNameLen
                     then trim_right dash_dot (take maxNameLen cleaned) else cleaned)
      in if cleaned = [] then unnamed else cleaned)"

definition SeverityRank :: "string \<Rightarrow> int" where
  "SeverityRank s =
     (if s = ''critical'' then 3 else if s = ''warning'' then 2
      else if s = ''info'' then 1 else 0)"

definition SeverityAtLeast :: "string \<Rightarrow> string \<Rightarrow> bool" where
  "SeverityAtLeast got want \<longleftrightarrow> SeverityRank got \<ge> SeverityRank want"

section \<open>fingerprint.go\<close>

definition hex_digit :: "nat \<Rightarrow> char" where
  "hex_digit d = (if d < 10 then char_of (48 + d) else char_of (87 + d))"

definition hex_encode :: "string \<Rightarrow> string" where
  "hex_encode bs =
     concat (map (\<lambda>c. let n = of_char c :: nat in [hex_digit (n div 16), hex_digit (n mod 16)]) bs)"

definition fingerprint_message :: "string \<Rightarrow> string \<Rightarrow> string \<Rightarrow> string" where
  "fingerprint_message cluster scanner rule =
     cluster @ [CHR 0x00] @ scanner @ [CHR 0x00] @ rule"

definition Fingerprint :: "(string \<Rightarrow> string) \<Rightarrow> string \<Rightarrow> string \<Rightarrow> string \<Rightarrow> string" where
  "Fingerprint sha256 cluster scanner rule =
     hex_encode (sha256 (fingerprint_message cluster scanner rule))"

section \<open>Lemmas on the median\<close>

lemma Median_mset:
  assumes "mset xs = mset ys"
  shows "Median xs = Median ys"
proof -
  have "sort xs = sort ys" using assms by (metis mset_sort properties_for_sort sorted_sort)
  moreover have "length xs = length ys" using assms by (rule mset_eq_length)
  ultimately show ?thesis by (simp add: Median_def Let_def)
qed

text \<open>The sorted neighbours that bound the median.\<close>

lemma Median_between:
  assumes "vals \<noteq> []" "\<forall>v \<in> set vals. is_f64 v"
  defines "s \<equiv> sort vals" and "n \<equiv> length vals"
  shows "s ! ((n - 1) div 2) \<le> Median vals" "Median vals \<le> s ! (n div 2)"
proof -
  have n: "0 < n" "length s = n" using assms(1) by (simp_all add: n_def s_def)
  have f: "is_f64 (s ! i)" if "i < n" for i
    using that assms(2) n nth_mem [of i s] by (simp add: s_def)
  have le: "s ! ((n - 1) div 2) \<le> s ! (n div 2)"
    using n by (intro sorted_nth_mono) (auto simp: s_def)
  have "s ! ((n - 1) div 2) \<le> Median vals \<and> Median vals \<le> s ! (n div 2)"
  proof (cases "n mod 2 = 0")
    case True
    then have i: "(n - 1) div 2 = n div 2 - 1" using n by presburger
    let ?a = "s ! (n div 2 - 1)" and ?b = "s ! (n div 2)"
    have ab: "is_f64 ?a" "is_f64 ?b" using f n True by auto
    have M: "Median vals = fdiv (fadd ?a ?b) 2"
      using True n by (simp add: Median_def s_def n_def Let_def)
    have "2 * ?a \<le> fadd ?a ?b" "fadd ?a ?b \<le> 2 * ?b"
      using le i ab by (auto simp: fadd_def intro!: f64_ge_f64 f64_le_f64 is_f64_double)
    then have "?a \<le> fadd ?a ?b / 2" "fadd ?a ?b / 2 \<le> ?b" by simp_all
    then show ?thesis using ab M i by (simp add: fdiv_def f64_ge_f64 f64_le_f64)
  next
    case False
    then have "(n - 1) div 2 = n div 2" by presburger
    then show ?thesis using False n by (simp add: Median_def s_def n_def Let_def)
  qed
  then show "s ! ((n - 1) div 2) \<le> Median vals" "Median vals \<le> s ! (n div 2)" by simp_all
qed

section \<open>Lemmas on names\<close>

text \<open>The shape of a Kubernetes object name: nothing outside the DNS-1123 set, no two dashes in a
  row, alphanumeric at both ends, within the length limit.\<close>

definition no_double_dash :: "string \<Rightarrow> bool" where
  "no_double_dash s \<longleftrightarrow> successively (\<lambda>a b. \<not> (a = CHR ''-'' \<and> b = CHR ''-'')) s"

definition dns_name :: "string \<Rightarrow> bool" where
  "dns_name s \<longleftrightarrow> s \<noteq> [] \<and> length s \<le> maxNameLen \<and> list_all dns_char s \<and> no_double_dash s
     \<and> \<not> dash_dot (hd s) \<and> \<not> dash_dot (last s)"

lemma set_replace_runs: "set (replace_runs P r s) \<subseteq> set r \<union> {c \<in> set s. \<not> P c}"
proof (induction P r s rule: replace_runs.induct)
  case (2 P r c cs)
  then show ?case using set_dropWhileD [of _ P cs] by (cases "P c") (fastforce dest: set_dropWhileD)+
qed simp

lemma replace_runs_none: "list_all (\<lambda>c. \<not> P c) s \<Longrightarrow> replace_runs P r s = s"
  by (induction s) auto

lemma hd_replace_runs_dropWhile:
  "replace_runs P r (dropWhile P s) \<noteq> [] \<Longrightarrow> \<not> P (hd (replace_runs P r (dropWhile P s)))"
proof (induction s)
  case (Cons c s)
  then show ?case by (cases "P c") auto
qed simp

lemma collapse_no_double_dash: "no_double_dash (collapse_dashes s)"
  unfolding collapse_dashes_def no_double_dash_def
proof (induction "\<lambda>c. c = CHR ''-''" "''-''" s rule: replace_runs.induct)
  case (2 c cs)
  let ?D = "\<lambda>c. c = CHR ''-''"
  show ?case
  proof (cases "?D c")
    case True
    with 2 hd_replace_runs_dropWhile [of ?D "''-''" cs] show ?thesis
      by (auto simp: successively_Cons)
  next
    case False
    with 2 show ?thesis by (auto simp: successively_Cons)
  qed
qed simp

lemma collapse_id: "no_double_dash s \<Longrightarrow> collapse_dashes s = s"
  unfolding collapse_dashes_def no_double_dash_def
proof (induction s)
  case (Cons c s)
  have s: "successively (\<lambda>a b. \<not> (a = CHR ''-'' \<and> b = CHR ''-'')) s"
    using Cons.prems by (auto simp: successively_Cons)
  have "c = CHR ''-'' \<Longrightarrow> dropWhile (\<lambda>c. c = CHR ''-'') s = s"
    using Cons.prems by (cases s) (auto simp: successively_Cons)
  then show ?case using Cons.IH [OF s] by simp
qed simp

lemma no_double_dash_infix: "no_double_dash (a @ s @ b) \<Longrightarrow> no_double_dash s"
  by (simp add: no_double_dash_def successively_append_iff)

lemma trim_left_infix: "\<exists>a. s = a @ trim_left P s"
  unfolding trim_left_def by (metis takeWhile_dropWhile_id)

lemma trim_right_infix: "\<exists>b. s = trim_right P s @ b"
  unfolding trim_right_def by (metis rev_append rev_rev_ident takeWhile_dropWhile_id)

lemma trim_right_take_infix: "\<exists>b. s = trim_right P (take n s) @ b"
  using trim_right_infix [of "take n s" P] by (metis append.assoc append_take_drop_id)

lemma trim_both_infix: "\<exists>a b. s = a @ trim_both P s @ b"
  unfolding trim_both_def using trim_left_infix [of s P] trim_right_infix [of "trim_left P s" P] by metis

lemma last_trim_right: "trim_right P s \<noteq> [] \<Longrightarrow> \<not> P (last (trim_right P s))"
  unfolding trim_right_def by (simp add: last_rev hd_dropWhile)

lemma hd_trim_left: "trim_left P s \<noteq> [] \<Longrightarrow> \<not> P (hd (trim_left P s))"
  unfolding trim_left_def by (simp add: hd_dropWhile)

lemma hd_prefix: "s = t @ b \<Longrightarrow> t \<noteq> [] \<Longrightarrow> hd t = hd s"
  by simp

lemma hd_trim_both: "trim_both P s \<noteq> [] \<Longrightarrow> \<not> P (hd (trim_both P s))"
proof -
  assume ne: "trim_both P s \<noteq> []"
  obtain b where b: "trim_left P s = trim_both P s @ b"
    unfolding trim_both_def using trim_right_infix by blast
  then have "hd (trim_left P s) = hd (trim_both P s)" "trim_left P s \<noteq> []" using ne by auto
  then show ?thesis using hd_trim_left [of P s] by simp
qed

lemma trim_both_id: "s \<noteq> [] \<Longrightarrow> \<not> P (hd s) \<Longrightarrow> \<not> P (last s) \<Longrightarrow> trim_both P s = s"
  using dropWhile_eq_self_iff [of P s] dropWhile_eq_self_iff [of P "rev s"]
  by (simp add: trim_both_def trim_left_def trim_right_def hd_rev)

lemma dns_char_lower: "dns_char c \<Longrightarrow> fold_char c = c"
  by (auto simp: dns_char_def Let_def)

lemma dns_char_dash: "dns_char CHR ''-''"
  by (simp add: dns_char_def)

lemma sanitize_dns_name_aux:
  assumes "list_all dns_char s" "no_double_dash s"
  shows "let t = trim_both dash_dot s;
             u = (if length t > maxNameLen then trim_right dash_dot (take maxNameLen t) else t)
         in u \<noteq> [] \<longrightarrow> dns_name u"
proof -
  define t where "t = trim_both dash_dot s"
  define u where "u = (if length t > maxNameLen then trim_right dash_dot (take maxNameLen t) else t)"
  obtain a b where ab: "s = a @ t @ b" using trim_both_infix t_def by blast
  have "\<exists>c. t = u @ c" unfolding u_def using trim_right_take_infix [of t dash_dot maxNameLen] by auto
  then obtain c where c: "t = u @ c" ..
  have "dns_name u" if ne: "u \<noteq> []"
  proof -
    have "length u \<le> maxNameLen"
      using trim_right_infix [of "take maxNameLen t" dash_dot]
      by (auto simp: u_def) (metis length_append length_take le_add1 min.cobounded2 order_trans)
    moreover have "list_all dns_char u" using assms(1) by (simp add: ab c)
    moreover have "no_double_dash u"
      using assms(2) no_double_dash_infix [of a u "c @ b"] by (simp add: ab c)
    moreover have "hd u = hd t" "t \<noteq> []" using ne by (simp_all add: c)
    then have "\<not> dash_dot (hd u)" using hd_trim_both [of dash_dot s] by (simp add: t_def)
    moreover have "\<not> dash_dot (last u)"
      using ne last_trim_right [of dash_dot] by (auto simp: u_def t_def trim_both_def)
    ultimately show ?thesis using ne by (simp add: dns_name_def)
  qed
  then show ?thesis unfolding Let_def u_def t_def by blast
qed

lemma sanitized_is_dns_name: "dns_name (SanitizeName name)"
proof -
  let ?s1 = "replace_runs (\<lambda>c. \<not> dns_char c) ''-'' (ToLower name)"
  let ?s = "collapse_dashes ?s1"
  have "set ?s1 \<subseteq> Collect dns_char"
    using set_replace_runs [of "\<lambda>c. \<not> dns_char c" "''-''" "ToLower name"] dns_char_dash by auto
  then have "set ?s \<subseteq> Collect dns_char"
    using set_replace_runs [of "\<lambda>c. c = CHR ''-''" "''-''" ?s1] dns_char_dash
    by (auto simp: collapse_dashes_def)
  then have "list_all dns_char ?s" by (auto simp: list_all_iff)
  then have "let t = trim_both dash_dot ?s;
             u = (if length t > maxNameLen then trim_right dash_dot (take maxNameLen t) else t)
         in u \<noteq> [] \<longrightarrow> dns_name u"
    using collapse_no_double_dash by (rule sanitize_dns_name_aux)
  moreover have "dns_name unnamed" by code_simp
  ultimately show ?thesis by (simp add: SanitizeName_def Let_def)
qed

lemma dns_name_fixed:
  assumes "dns_name s"
  shows "SanitizeName s = s"
proof -
  have d: "list_all dns_char s" "s \<noteq> []" "length s \<le> maxNameLen" "no_double_dash s"
    "\<not> dash_dot (hd s)" "\<not> dash_dot (last s)" using assms by (simp_all add: dns_name_def)
  have "ToLower s = s" using d(1) dns_char_lower
    by (auto simp: ToLower_def list_all_iff intro!: map_idI simp del: fold_char.simps)
  moreover have "replace_runs (\<lambda>c. \<not> dns_char c) ''-'' s = s"
    using d(1) by (intro replace_runs_none) simp
  ultimately show ?thesis
    using d by (simp add: SanitizeName_def Let_def collapse_id trim_both_id)
qed

text \<open>Whatever the input, \<open>SanitizeName\<close> returns a legal Kubernetes object name: non-empty,
  at most 253 characters, only DNS-1123 characters, no two dashes in a row, and an alphanumeric
  character at both ends.\<close>

lemma SanitizeName_dns: "dns_name (SanitizeName name)"
  by (rule sanitized_is_dns_name)

text \<open>\<open>SanitizeName\<close> is idempotent, so a name that was sanitized once keeps its identity
  when it passes through a second component that sanitizes it again.\<close>

lemma SanitizeName_idem: "SanitizeName (SanitizeName name) = SanitizeName name"
  by (rule dns_name_fixed) (rule sanitized_is_dns_name)

section \<open>Lemmas on fingerprints\<close>

lemma hex_digit_inj: "d < 16 \<Longrightarrow> e < 16 \<Longrightarrow> hex_digit d = hex_digit e \<Longrightarrow> d = e"
proof -
  assume a: "d < 16" "e < 16" "hex_digit d = hex_digit e"
  then have "(of_char (hex_digit d) :: nat) = of_char (hex_digit e)" by simp
  with a(1,2) show ?thesis by (auto simp: hex_digit_def split: if_splits)
qed

lemma hex_encode_inj: "hex_encode xs = hex_encode ys \<Longrightarrow> xs = ys"
proof (induction xs arbitrary: ys)
  case Nil
  then show ?case by (cases ys) (auto simp: hex_encode_def Let_def)
next
  case (Cons x xs)
  then obtain y ys' where ys: "ys = y # ys'" by (cases ys) (auto simp: hex_encode_def Let_def)
  let ?n = "of_char x :: nat" and ?k = "of_char y :: nat"
  have eq: "hex_digit (?n div 16) = hex_digit (?k div 16)" "hex_digit (?n mod 16) = hex_digit (?k mod 16)"
    "hex_encode xs = hex_encode ys'"
    using Cons.prems by (simp_all add: ys hex_encode_def Let_def)
  have "?n < 256" "?k < 256" by simp_all
  then have "?n div 16 < 16" "?k div 16 < 16" by (simp_all add: div_less_iff_less_mult)
  then have "?n div 16 = ?k div 16" "?n mod 16 = ?k mod 16"
    using eq(1,2) hex_digit_inj [of "?n div 16" "?k div 16"] hex_digit_inj [of "?n mod 16" "?k mod 16"] by simp_all
  then have "?n = ?k" by (metis div_mult_mod_eq)
  then show ?case using Cons.IH [OF eq(3)] by (simp add: ys)
qed

lemma append_sep_inj:
  "x \<notin> set a \<Longrightarrow> x \<notin> set b \<Longrightarrow> a @ x # s = b @ x # t \<Longrightarrow> a = b \<and> s = t"
proof (induction a arbitrary: b)
  case Nil
  then show ?case by (cases b) auto
next
  case (Cons y a)
  then show ?case by (cases b) auto
qed

lemma fingerprint_message_inj:
  assumes "CHR 0x00 \<notin> set c \<union> set s" "CHR 0x00 \<notin> set c' \<union> set s'"
    and "fingerprint_message c s r = fingerprint_message c' s' r'"
  shows "c = c' \<and> s = s' \<and> r = r'"
proof -
  have "c = c' \<and> s @ [CHR 0x00] @ r = s' @ [CHR 0x00] @ r'"
    using assms by (intro append_sep_inj) (auto simp: fingerprint_message_def)
  then show ?thesis using assms append_sep_inj [of "CHR 0x00" s s' r r'] by auto
qed

text \<open>A fingerprint identifies a finding: two findings whose cluster and scanner names hold no
  NUL byte have the same fingerprint only when they have the same cluster, scanner and rule, or
  when the two distinct byte strings that were hashed collide under the hash. The separators
  leave no other way to confuse two findings.\<close>

lemma Fingerprint_identifies:
  assumes "CHR 0x00 \<notin> set c \<union> set s" "CHR 0x00 \<notin> set c' \<union> set s'"
    and "Fingerprint sha256 c s r = Fingerprint sha256 c' s' r'"
  shows "(c = c' \<and> s = s' \<and> r = r') \<or>
     (fingerprint_message c s r \<noteq> fingerprint_message c' s' r' \<and>
      sha256 (fingerprint_message c s r) = sha256 (fingerprint_message c' s' r'))"
  using assms fingerprint_message_inj [of c s c' s' r r'] hex_encode_inj by (auto simp: Fingerprint_def)

lemma Fingerprint_identifies_instance:
  "Fingerprint (take 6) ''prod-1'' ''certs'' ''certs/expiring-7d'' =
     Fingerprint (take 6) ''prod-1'' ''events'' ''events/warning-volume'' \<and>
   fingerprint_message ''prod-1'' ''certs'' ''certs/expiring-7d'' \<noteq>
     fingerprint_message ''prod-1'' ''events'' ''events/warning-volume'' \<and>
   take 6 (fingerprint_message ''prod-1'' ''certs'' ''certs/expiring-7d'') =
     take 6 (fingerprint_message ''prod-1'' ''events'' ''events/warning-volume'')"
proof -
  have "Fingerprint (take 6) ''prod-1'' ''certs'' ''certs/expiring-7d'' =
     Fingerprint (take 6) ''prod-1'' ''events'' ''events/warning-volume''"
    by (simp add: Fingerprint_def fingerprint_message_def)
  then show ?thesis
    using Fingerprint_identifies [of "''prod-1''" "''certs''" "''prod-1''" "''events''" "take 6"
      "''certs/expiring-7d''" "''events/warning-volume''"] by auto
qed

section \<open>Lemmas on severities\<close>

lemma SeverityRank_range: "0 \<le> SeverityRank s" "SeverityRank s \<le> 3"
  by (simp_all add: SeverityRank_def)

lemma SeverityRank_simps [simp]:
  "SeverityRank ''critical'' = 3" "SeverityRank ''warning'' = 2" "SeverityRank ''info'' = 1"
  by (simp_all add: SeverityRank_def)

end
