(* ===== verification/Field_Registry.thy ===== *)
theory Field_Registry
  imports Util
begin

text \<open>
  The field registry of \<open>internal/report/fields.go\<close> and the severities it declares
  (\<open>severity.go\<close>). The table is transcribed entry by entry; \<open>lookupField\<close> and the views derived
  from it (severity sets, trend fields, set projections, gated scanners) are the code's. The
  lemmas show that the views agree with the table, that a field has one entry, and that the
  redundancy relation has no cycle, which the removal of redundant findings rests on.
\<close>

section \<open>Severities, polarities and field specifications\<close>

definition SeverityInfo :: string where "SeverityInfo = ''info''"
definition SeverityWarning :: string where "SeverityWarning = ''warning''"
definition SeverityCritical :: string where "SeverityCritical = ''critical''"

datatype Polarity = PolarityNone | UpIsBad | DownIsBad

record FieldRef =
  fr_Scanner :: string
  fr_Field :: string

type_synonym jobject = "(string \<times> json) list"

record setProjection =
  sp_From :: string
  sp_To :: string
  sp_Member :: "jobject \<Rightarrow> string"
  sp_SkipEmpty :: bool
  sp_Build :: "(string \<Rightarrow> jobject) option"

record fieldSpec =
  fs_Ref :: FieldRef
  fs_Severity :: string
  fs_Polarity :: Polarity
  fs_RedundantWith :: "FieldRef list"
  fs_CountedBy :: string
  fs_Trend :: bool
  fs_Projection :: "setProjection option"
  fs_AvailabilityGated :: bool

definition ref :: "string \<Rightarrow> string \<Rightarrow> FieldRef" where
  "ref scanner field = \<lparr>fr_Scanner = scanner, fr_Field = field\<rparr>"

text \<open>A specification with only its reference set; every other member has Go's zero value.\<close>

definition spec :: "string \<Rightarrow> string \<Rightarrow> fieldSpec" where
  "spec scanner field =
     \<lparr>fs_Ref = ref scanner field, fs_Severity = '''', fs_Polarity = PolarityNone,
      fs_RedundantWith = [], fs_CountedBy = '''', fs_Trend = False, fs_Projection = None,
      fs_AvailabilityGated = False\<rparr>"

definition json_string :: "json option \<Rightarrow> string" where
  "json_string v = (case v of Some (JStr s) \<Rightarrow> s | _ \<Rightarrow> '''')"

definition memberOf :: "string list \<Rightarrow> jobject \<Rightarrow> string" where
  "memberOf keys item =
     (let parts = map (\<lambda>k. json_string (map_of item k)) keys
      in if list_ex (\<lambda>s. s = '''') parts then '''' else strings_Join parts ''/'')"

text \<open>\<open>strings.SplitN\<close> with a positive limit.\<close>

fun SplitN :: "string \<Rightarrow> string \<Rightarrow> nat \<Rightarrow> string list" where
  "SplitN s sep 0 = []"
| "SplitN s sep (Suc 0) = [s]"
| "SplitN s sep (Suc (Suc n)) =
     (case strings_Cut sep s of None \<Rightarrow> [s] | Some (a, b) \<Rightarrow> a # SplitN b sep (Suc n))"

definition memberObject :: "string list \<Rightarrow> string \<Rightarrow> jobject" where
  "memberObject keys member =
     (let parts = SplitN member ''/'' (length keys)
      in foldl (\<lambda>obj (i, k). if i < length parts then AList.update k (JStr (parts ! i)) obj else obj)
           [] (zip [0..<length keys] keys))"

definition gitVersion :: "FieldRef list" where
  "gitVersion = [ref ''version'' ''git_version'']"

section \<open>The table\<close>

definition metricsSpecs :: "fieldSpec list" where
  "metricsSpecs =
    [(spec ''metrics'' ''avg_cpu_percent'')\<lparr>fs_Severity := SeverityWarning,
        fs_Polarity := UpIsBad,
        fs_Trend := True\<rparr>,
     (spec ''metrics'' ''avg_memory_percent'')\<lparr>fs_Severity := SeverityWarning,
        fs_Polarity := UpIsBad,
        fs_Trend := True\<rparr>,
     (spec ''metrics'' ''max_cpu_percent'')\<lparr>fs_Severity := SeverityWarning,
        fs_Polarity := UpIsBad,
        fs_Trend := True\<rparr>,
     (spec ''metrics'' ''max_memory_percent'')\<lparr>fs_Severity := SeverityWarning,
        fs_Polarity := UpIsBad,
        fs_Trend := True\<rparr>,
     spec ''metrics'' ''node_count'',
     (spec ''metrics'' ''nodes_with_usage'')\<lparr>fs_RedundantWith := [ref ''metrics'' ''node_count'']\<rparr>]"

definition nodeHealthSpecs :: "fieldSpec list" where
  "nodeHealthSpecs =
    [(spec ''node-health'' ''unhealthy_nodes'')\<lparr>fs_Severity := SeverityCritical,
        fs_Polarity := UpIsBad,
        fs_RedundantWith := [ref ''node-health'' ''memory_pressure_nodes'', ref ''node-health'' ''disk_pressure_nodes'', ref ''node-health'' ''pid_pressure_nodes'', ref ''node-health'' ''not_ready_nodes''],
        fs_Trend := True\<rparr>,
     (spec ''node-health'' ''memory_pressure_nodes'')\<lparr>fs_Severity := SeverityCritical,
        fs_Polarity := UpIsBad,
        fs_CountedBy := ''node-health/memory-pressure'',
        fs_Trend := True\<rparr>,
     (spec ''node-health'' ''not_ready_nodes'')\<lparr>fs_Severity := SeverityCritical,
        fs_Polarity := UpIsBad,
        fs_CountedBy := ''node-health/not-ready'',
        fs_Trend := True\<rparr>,
     (spec ''node-health'' ''disk_pressure_nodes'')\<lparr>fs_Severity := SeverityWarning,
        fs_Polarity := UpIsBad,
        fs_CountedBy := ''node-health/disk-pressure''\<rparr>,
     (spec ''node-health'' ''pid_pressure_nodes'')\<lparr>fs_Severity := SeverityWarning,
        fs_Polarity := UpIsBad\<rparr>,
     (spec ''node-health'' ''unschedulable_nodes'')\<lparr>fs_Severity := SeverityWarning,
        fs_Polarity := UpIsBad\<rparr>]"

definition eventCertSpecs :: "fieldSpec list" where
  "eventCertSpecs =
    [(spec ''events'' ''warning_events'')\<lparr>fs_Polarity := UpIsBad,
        fs_CountedBy := ''events/warning-volume'',
        fs_Trend := True\<rparr>,
     (spec ''certs'' ''critical'')\<lparr>fs_Polarity := UpIsBad,
        fs_CountedBy := ''certs/expiring-7d''\<rparr>,
     (spec ''certs'' ''warning'')\<lparr>fs_Polarity := UpIsBad,
        fs_CountedBy := ''certs/expiring-30d''\<rparr>,
     (spec ''certs'' ''soonest_days'')\<lparr>fs_Polarity := DownIsBad,
        fs_RedundantWith := [ref ''certs'' ''warning'', ref ''certs'' ''critical'']\<rparr>]"

definition securitySpecs :: "fieldSpec list" where
  "securitySpecs =
    [(spec ''security'' ''enforced_count'')\<lparr>fs_Severity := SeverityCritical,
        fs_Polarity := DownIsBad\<rparr>,
     (spec ''security'' ''unenforced_count'')\<lparr>fs_Severity := SeverityCritical,
        fs_Polarity := UpIsBad,
        fs_CountedBy := ''security/psa-unenforced'',
        fs_Trend := True\<rparr>,
     spec ''network-policies'' ''count'',
     (spec ''network-policies'' ''namespaces_without_policies'')\<lparr>fs_Severity := SeverityCritical,
        fs_Polarity := UpIsBad,
        fs_CountedBy := ''network-policies/no-policy'',
        fs_Trend := True\<rparr>]"

definition resourceSpecs :: "fieldSpec list" where
  "resourceSpecs =
    [(spec ''resources'' ''unschedulable_nodes'')\<lparr>fs_Severity := SeverityWarning,
        fs_Polarity := UpIsBad,
        fs_Trend := True\<rparr>,
     (spec ''resources'' ''node_count'')\<lparr>fs_Severity := SeverityWarning\<rparr>,
     (spec ''resources'' ''ready_nodes'')\<lparr>fs_Severity := SeverityWarning,
        fs_Polarity := DownIsBad\<rparr>]"

definition workloadSecuritySpecs :: "fieldSpec list" where
  "workloadSecuritySpecs =
    [(spec ''workload-security'' ''privileged_containers'')\<lparr>fs_Severity := SeverityCritical,
        fs_Polarity := UpIsBad,
        fs_CountedBy := ''workload-security/privileged''\<rparr>,
     (spec ''workload-security'' ''host_network_pods'')\<lparr>fs_Severity := SeverityCritical,
        fs_Polarity := UpIsBad,
        fs_CountedBy := ''workload-security/host-namespaces''\<rparr>,
     (spec ''workload-security'' ''host_pid_pods'')\<lparr>fs_Severity := SeverityCritical,
        fs_Polarity := UpIsBad,
        fs_CountedBy := ''workload-security/host-namespaces''\<rparr>,
     (spec ''workload-security'' ''run_as_root_containers'')\<lparr>fs_Severity := SeverityWarning,
        fs_Polarity := UpIsBad,
        fs_CountedBy := ''workload-security/run-as-root''\<rparr>,
     (spec ''workload-security'' ''run_as_non_root_containers'')\<lparr>fs_Polarity := DownIsBad,
        fs_RedundantWith := [ref ''workload-security'' ''baseline_containers'']\<rparr>,
     spec ''workload-security'' ''run_as_unknown_containers'',
     spec ''workload-security'' ''total_pods'',
     (spec ''workload-security'' ''baseline_containers'')\<lparr>fs_RedundantWith := [ref ''workload-security'' ''total_pods'']\<rparr>,
     (spec ''workload-security'' ''capability_additions'')\<lparr>fs_Severity := SeverityWarning,
        fs_Polarity := UpIsBad,
        fs_CountedBy := ''workload-security/capability-add''\<rparr>,
     (spec ''workload-security'' ''allow_privilege_escalation'')\<lparr>fs_Severity := SeverityWarning,
        fs_Polarity := UpIsBad\<rparr>]"

definition rbacAuditSpecs :: "fieldSpec list" where
  "rbacAuditSpecs =
    [(spec ''rbac-audit'' ''cluster_admin_bindings'')\<lparr>fs_Severity := SeverityCritical,
        fs_Polarity := UpIsBad,
        fs_CountedBy := ''rbac-audit/cluster-admin-binding''\<rparr>,
     (spec ''rbac-audit'' ''wildcard_rules'')\<lparr>fs_Severity := SeverityCritical,
        fs_Polarity := UpIsBad,
        fs_CountedBy := ''rbac-audit/wildcard-rule''\<rparr>,
     (spec ''rbac-audit'' ''default_sa_bindings'')\<lparr>fs_Severity := SeverityWarning,
        fs_Polarity := UpIsBad,
        fs_CountedBy := ''rbac-audit/default-sa-binding''\<rparr>]"

definition versionSpecs :: "fieldSpec list" where
  "versionSpecs =
    [(spec ''version'' ''git_version'')\<lparr>fs_Severity := SeverityWarning\<rparr>,
     (spec ''version'' ''minor'')\<lparr>fs_Severity := SeverityWarning,
        fs_RedundantWith := gitVersion\<rparr>,
     (spec ''deprecated-apis'' ''server_version'')\<lparr>fs_RedundantWith := gitVersion\<rparr>,
     (spec ''cluster-info'' ''kubelet_versions'')\<lparr>fs_RedundantWith := gitVersion\<rparr>,
     (spec ''deprecated-apis'' ''total_instances'')\<lparr>fs_CountedBy := ''deprecated-apis/in-use''\<rparr>]"

definition inventorySpecs :: "fieldSpec list" where
  "inventorySpecs =
    [(spec ''namespaces'' ''count'')\<lparr>fs_Severity := SeverityWarning\<rparr>,
     (spec ''services'' ''count'')\<lparr>fs_Severity := SeverityWarning\<rparr>,
     (spec ''services'' ''service_names'')\<lparr>fs_Projection := Some \<lparr>sp_From = ''services'', sp_To = '''', sp_Member = memberOf [''namespace'', ''name''],
        sp_SkipEmpty = False, sp_Build = Some (memberObject [''namespace'', ''name''])\<rparr>\<rparr>,
     spec ''ingresses'' ''count'',
     (spec ''ingresses'' ''ingress_classes'')\<lparr>fs_Projection := Some \<lparr>sp_From = ''ingresses'', sp_To = '''', sp_Member = memberOf [''ingress_class_name''],
        sp_SkipEmpty = True, sp_Build = None\<rparr>\<rparr>,
     spec ''crds'' ''count'',
     (spec ''crds'' ''crd_names'')\<lparr>fs_Severity := SeverityWarning,
        fs_Projection := Some \<lparr>sp_From = ''crds'', sp_To = '''', sp_Member = memberOf [''name''],
        sp_SkipEmpty = False, sp_Build = Some (memberObject [''name''])\<rparr>\<rparr>]"

definition rbacQuotaSpecs :: "fieldSpec list" where
  "rbacQuotaSpecs =
    [(spec ''rbac'' ''cluster_role_count'')\<lparr>fs_Severity := SeverityWarning\<rparr>,
     (spec ''rbac'' ''cluster_role_binding_count'')\<lparr>fs_Severity := SeverityWarning\<rparr>,
     (spec ''resource-quotas'' ''quota_count'')\<lparr>fs_Severity := SeverityWarning,
        fs_Polarity := DownIsBad\<rparr>,
     (spec ''resource-quotas'' ''namespaces_with_quotas'')\<lparr>fs_Severity := SeverityWarning,
        fs_Polarity := DownIsBad,
        fs_CountedBy := ''resource-quotas/no-quota''\<rparr>]"

definition imageSpecs :: "fieldSpec list" where
  "imageSpecs =
    [(spec ''image-audit'' ''latest_tag'')\<lparr>fs_Severity := SeverityWarning,
        fs_Polarity := UpIsBad,
        fs_CountedBy := ''image-audit/latest-tag''\<rparr>,
     (spec ''image-audit'' ''no_digest'')\<lparr>fs_Severity := SeverityWarning,
        fs_Polarity := UpIsBad,
        fs_CountedBy := ''image-audit/no-digest''\<rparr>]"

definition gatedSpecs :: "fieldSpec list" where
  "gatedSpecs =
    [(spec ''vulnerabilities'' ''critical'')\<lparr>fs_Severity := SeverityWarning,
        fs_Polarity := UpIsBad,
        fs_CountedBy := ''vulnerabilities/critical-present'',
        fs_AvailabilityGated := True\<rparr>,
     (spec ''policy-reports'' ''total_fail'')\<lparr>fs_Severity := SeverityWarning,
        fs_Polarity := UpIsBad,
        fs_AvailabilityGated := True\<rparr>]"

definition coverageSpecs :: "fieldSpec list" where
  "coverageSpecs =
    [(spec ''workload-coverage'' ''missing_pdb'')\<lparr>fs_Polarity := UpIsBad,
        fs_CountedBy := ''workload-coverage/missing-pdb''\<rparr>,
     (spec ''workload-coverage'' ''missing_hpa'')\<lparr>fs_Polarity := UpIsBad,
        fs_CountedBy := ''workload-coverage/missing-hpa''\<rparr>,
     (spec ''admission'' ''unhealthy_webhooks'')\<lparr>fs_Polarity := UpIsBad,
        fs_CountedBy := ''admission/no-healthy-endpoints''\<rparr>,
     spec ''version'' ''major'']"

definition fieldSpecs :: "fieldSpec list" where
  "fieldSpecs =
     metricsSpecs @ nodeHealthSpecs @ eventCertSpecs @ securitySpecs @ resourceSpecs @
      workloadSecuritySpecs @ rbacAuditSpecs @ versionSpecs @
      inventorySpecs @ rbacQuotaSpecs @ imageSpecs @ gatedSpecs @ coverageSpecs"

section \<open>Views of the table\<close>

record trendField =
  tf_Scanner :: string
  tf_Field :: string
  tf_UpIsBad :: bool

definition lookupField :: "string \<Rightarrow> string \<Rightarrow> fieldSpec option" where
  "lookupField scanner field =
     find (\<lambda>s. fr_Scanner (fs_Ref s) = scanner \<and> fr_Field (fs_Ref s) = field) fieldSpecs"

text \<open>The first result of the Go function: the zero specification when none is declared.\<close>

definition fieldSpec_of :: "string \<Rightarrow> string \<Rightarrow> fieldSpec" where
  "fieldSpec_of scanner field =
     (case lookupField scanner field of Some s \<Rightarrow> s | None \<Rightarrow> spec '''' '''')"

definition DeclaredField :: "string \<Rightarrow> string \<Rightarrow> bool" where
  "DeclaredField scanner field \<longleftrightarrow> lookupField scanner field \<noteq> None"

definition severityFields :: "string \<Rightarrow> (string, string list) gomap" where
  "severityFields sev =
     foldl (\<lambda>out s. if fs_Severity s \<noteq> sev then out
                    else map_append (fr_Scanner (fs_Ref s)) (fr_Field (fs_Ref s)) out) [] fieldSpecs"

definition trackedFields :: "trendField list" where
  "trackedFields =
     map (\<lambda>s. \<lparr>tf_Scanner = fr_Scanner (fs_Ref s), tf_Field = fr_Field (fs_Ref s),
                tf_UpIsBad = (fs_Polarity s = UpIsBad)\<rparr>) (filter fs_Trend fieldSpecs)"

definition projections :: "(string, setProjection) gomap" where
  "projections =
     foldl (\<lambda>out s. case fs_Projection s of None \<Rightarrow> out
              | Some p \<Rightarrow> AList.update (fr_Scanner (fs_Ref s)) (p\<lparr>sp_To := fr_Field (fs_Ref s)\<rparr>) out)
       [] fieldSpecs"

definition gatedScanners :: "string list" where
  "gatedScanners = remdups (map (\<lambda>s. fr_Scanner (fs_Ref s)) (filter fs_AvailabilityGated fieldSpecs))"

definition criticalFields :: "(string, string list) gomap" where
  "criticalFields = severityFields SeverityCritical"

definition warningFields :: "(string, string list) gomap" where
  "warningFields = severityFields SeverityWarning"

section \<open>severity.go\<close>

definition classifySeverity :: "string \<Rightarrow> string \<Rightarrow> string" where
  "classifySeverity scannerName field =
     (if field \<in> set (lookup_default [] criticalFields scannerName) then SeverityCritical
      else if field \<in> set (lookup_default [] warningFields scannerName) then SeverityWarning
      else SeverityInfo)"

definition numericSeverity :: "string \<Rightarrow> string \<Rightarrow> float64 \<Rightarrow> string \<times> bool" where
  "numericSeverity scannerName field delta =
     (let p = fs_Polarity (fieldSpec_of scannerName field)
      in if (p = UpIsBad \<and> delta < 0) \<or> (p = DownIsBad \<and> 0 < delta) then (SeverityInfo, True)
         else (classifySeverity scannerName field, False))"

text \<open>\<open>fmt.Sscanf\<close> with \<open>%d\<close>: skip blanks (a newline is an error), an optional sign, at least one
  digit, in the range of \<open>int\<close>.\<close>

definition is_digit :: "char \<Rightarrow> bool" where
  "is_digit c \<longleftrightarrow> (let n = of_char c :: nat in 48 \<le> n \<and> n \<le> 57)"

definition digits_value :: "string \<Rightarrow> int" where
  "digits_value ds = foldl (\<lambda>a c. 10 * a + (int (of_char c) - 48)) 0 ds"

definition scan_int :: "string \<Rightarrow> (int \<times> string) option" where
  "scan_int s =
     (let s = dropWhile (\<lambda>c. is_space c \<and> c \<noteq> CHR 0x0A) s;
          neg = (s \<noteq> [] \<and> hd s = CHR ''-'');
          s = (if s \<noteq> [] \<and> (hd s = CHR ''-'' \<or> hd s = CHR ''+'') then tl s else s);
          ds = takeWhile is_digit s;
          v = (if neg then - digits_value ds else digits_value ds)
      in if ds = [] \<or> v < - (2 ^ 63) \<or> 2 ^ 63 \<le> v then None
         else Some (v, dropWhile is_digit s))"

definition scan_dot :: "string \<Rightarrow> string option" where
  "scan_dot s = cut_prefix ''.'' s"

definition parseSemver :: "string \<Rightarrow> (int \<times> int \<times> int) option" where
  "parseSemver v =
     (let s = trim_prefix v ''v'';
          core = takeWhile (\<lambda>r. r \<noteq> CHR ''-'' \<and> r \<noteq> CHR ''+'') s
      in case scan_int core of None \<Rightarrow> None | Some (major, s1) \<Rightarrow>
         (case scan_dot s1 of None \<Rightarrow> None | Some s2 \<Rightarrow>
         (case scan_int s2 of None \<Rightarrow> None | Some (minor, s3) \<Rightarrow>
         (case scan_dot s3 of None \<Rightarrow> None | Some s4 \<Rightarrow>
         (case scan_int s4 of None \<Rightarrow> None | Some (patch, _) \<Rightarrow> Some (major, minor, patch))))))"

record skewState =
  sk_min :: int
  sk_max :: int
  sk_patches :: "(int \<times> int \<times> int) list"

definition skew_step :: "skewState \<Rightarrow> string \<Rightarrow> skewState" where
  "skew_step st v =
     (case parseSemver v of None \<Rightarrow> st
      | Some (major, minor, patch) \<Rightarrow>
          \<lparr>sk_min = (if sk_min st = - 1 \<or> minor < sk_min st then minor else sk_min st),
           sk_max = (if sk_max st = - 1 \<or> sk_max st < minor then minor else sk_max st),
           sk_patches = List.insert (major, minor, patch) (sk_patches st)\<rparr>)"

definition versionSkewSeverity :: "string list \<Rightarrow> string" where
  "versionSkewSeverity versions =
     (if length versions < 2 then SeverityInfo
      else let st = foldl skew_step \<lparr>sk_min = - 1, sk_max = - 1, sk_patches = []\<rparr> versions
           in if length (sk_patches st) \<le> 1 then SeverityInfo
              else if 2 \<le> sk_max st - sk_min st then SeverityCritical
              else if sk_max st \<noteq> sk_min st then SeverityWarning
              else SeverityInfo)"

section \<open>Lemmas on the table\<close>

lemma field_refs_distinct: "distinct (map fs_Ref fieldSpecs)"
  by code_simp

lemma field_severities:
  "list_all (\<lambda>s. fs_Severity s \<in> set ['''', SeverityWarning, SeverityCritical]) fieldSpecs"
  by code_simp

lemma fs_Ref_eq_iff: "fs_Ref s = ref a b \<longleftrightarrow> fr_Scanner (fs_Ref s) = a \<and> fr_Field (fs_Ref s) = b"
  by (cases "fs_Ref s") (simp add: ref_def)

lemma lookupField_Some_iff:
  "lookupField a b = Some s \<longleftrightarrow> s \<in> set fieldSpecs \<and> fs_Ref s = ref a b"
proof
  assume "lookupField a b = Some s"
  then show "s \<in> set fieldSpecs \<and> fs_Ref s = ref a b"
    by (auto simp: lookupField_def find_Some_iff fs_Ref_eq_iff)
next
  assume s: "s \<in> set fieldSpecs \<and> fs_Ref s = ref a b"
  then have "lookupField a b \<noteq> None" by (auto simp: lookupField_def find_None_iff fs_Ref_eq_iff)
  then obtain t where t: "lookupField a b = Some t" by auto
  then have "t \<in> set fieldSpecs" "fs_Ref t = ref a b"
    by (auto simp: lookupField_def find_Some_iff fs_Ref_eq_iff)
  with s have "t = s" using field_refs_distinct inj_onD [of fs_Ref "set fieldSpecs" t s]
    by (auto simp: distinct_map)
  with t show "lookupField a b = Some s" by simp
qed

lemma severityFields_fold:
  "set (lookup_default [] (foldl (\<lambda>out s. if fs_Severity s \<noteq> sev then out
       else map_append (fr_Scanner (fs_Ref s)) (fr_Field (fs_Ref s)) out) m specs) a) =
   set (lookup_default [] m a) \<union>
     {fr_Field (fs_Ref s) | s. s \<in> set specs \<and> fs_Severity s = sev \<and> fr_Scanner (fs_Ref s) = a}"
  by (induction specs arbitrary: m) (auto simp: lookup_default_append)

lemma severityFields_iff:
  "b \<in> set (lookup_default [] (severityFields sev) a) \<longleftrightarrow>
     (\<exists>s \<in> set fieldSpecs. fs_Severity s = sev \<and> fs_Ref s = ref a b)"
  unfolding severityFields_def severityFields_fold
  by (auto simp: lookup_default_def fs_Ref_eq_iff)

text \<open>The two severity tables the detectors read agree with the registry: the severity they
  give a field is the one its entry declares, and info when the entry declares none or there is
  no entry. So a field has one severity, whichever view a caller reads.\<close>

lemma classifySeverity_declared:
  "classifySeverity a b =
     (case lookupField a b of None \<Rightarrow> SeverityInfo
      | Some s \<Rightarrow> if fs_Severity s = '''' then SeverityInfo else fs_Severity s)"
proof (cases "lookupField a b")
  case None
  then have "\<not> (\<exists>s \<in> set fieldSpecs. fs_Severity s = sev \<and> fs_Ref s = ref a b)" for sev
    using lookupField_Some_iff [of a b] by force
  then show ?thesis using None
    by (simp add: classifySeverity_def criticalFields_def warningFields_def severityFields_iff)
next
  case (Some s)
  then have s: "s \<in> set fieldSpecs" "fs_Ref s = ref a b" using lookupField_Some_iff by auto
  have uniq: "(\<exists>t \<in> set fieldSpecs. fs_Severity t = sev \<and> fs_Ref t = ref a b) \<longleftrightarrow> fs_Severity s = sev" for sev
    using lookupField_Some_iff [of a b] Some s by force
  have "fs_Severity s \<in> set ['''', SeverityWarning, SeverityCritical]"
    using field_severities s(1) unfolding list_all_iff by blast
  then show ?thesis using Some
    by (auto simp: classifySeverity_def criticalFields_def warningFields_def severityFields_iff uniq
        SeverityInfo_def SeverityWarning_def SeverityCritical_def)
qed

lemma classifySeverity_cases:
  "classifySeverity a b \<in> {SeverityInfo, SeverityWarning, SeverityCritical}"
  by (simp add: classifySeverity_def)

text \<open>The redundancy relation is acyclic: a field's level drops along every edge.\<close>

definition restating :: "(FieldRef \<times> nat) list" where
  "restating =
     [(ref ''metrics'' ''nodes_with_usage'', 1), (ref ''node-health'' ''unhealthy_nodes'', 1),
      (ref ''certs'' ''soonest_days'', 1), (ref ''workload-security'' ''run_as_non_root_containers'', 2),
      (ref ''workload-security'' ''baseline_containers'', 1), (ref ''version'' ''minor'', 1),
      (ref ''deprecated-apis'' ''server_version'', 1), (ref ''cluster-info'' ''kubelet_versions'', 1)]"

definition redundancy_depth :: "FieldRef \<Rightarrow> nat" where
  "redundancy_depth r = lookup_default 0 restating r"

lemma redundancy_depth_table:
  "list_all (\<lambda>s. list_all (\<lambda>t. redundancy_depth t < redundancy_depth (fs_Ref s))
     (fs_RedundantWith s)) fieldSpecs"
  by code_simp

lemma redundancy_depth_less:
  assumes "t \<in> set (fs_RedundantWith (fieldSpec_of a b))"
  shows "redundancy_depth t < redundancy_depth (ref a b)"
proof (cases "lookupField a b")
  case None
  then show ?thesis using assms by (simp add: fieldSpec_of_def spec_def)
next
  case (Some s)
  then have "s \<in> set fieldSpecs" "fs_Ref s = ref a b" using lookupField_Some_iff by auto
  then show ?thesis using redundancy_depth_table assms Some
    by (auto simp: list_all_iff fieldSpec_of_def)
qed

section \<open>Lemmas on severities\<close>

lemma numericSeverity_favorable:
  "snd (numericSeverity a b d) \<Longrightarrow> fst (numericSeverity a b d) = SeverityInfo"
  by (auto simp: numericSeverity_def Let_def split: if_splits)

lemma numericSeverity_cases:
  "fst (numericSeverity a b d) \<in> {SeverityInfo, classifySeverity a b}"
  by (simp add: numericSeverity_def Let_def)

text \<open>The state after a prefix of the versions: the extremes of the minors seen so far and the set
  of distinct triples, for versions whose minors are not negative.\<close>

lemma skew_fold:
  assumes "\<And>v t. v \<in> set vs \<Longrightarrow> parseSemver v = Some t \<Longrightarrow> 0 \<le> fst (snd t)"
    and "st = foldl skew_step \<lparr>sk_min = - 1, sk_max = - 1, sk_patches = []\<rparr> vs"
  defines "ts \<equiv> List.map_filter parseSemver vs"
  shows "set (sk_patches st) = set ts \<and> distinct (sk_patches st) \<and>
    (if ts = [] then sk_min st = - 1 \<and> sk_max st = - 1
     else sk_min st = Min ((fst \<circ> snd) ` set ts) \<and> sk_max st = Max ((fst \<circ> snd) ` set ts))"
  using assms(1,2) unfolding ts_def
proof (induction vs arbitrary: st rule: rev_induct)
  case Nil
  then show ?case by (simp add: List.map_filter_def)
next
  case (snoc v vs)
  define st0 where "st0 = foldl skew_step \<lparr>sk_min = - 1, sk_max = - 1, sk_patches = []\<rparr> vs"
  let ?ts = "List.map_filter parseSemver vs" and ?M = "\<lambda>xs. (fst \<circ> snd) ` set xs"
  have IH: "set (sk_patches st0) = set ?ts \<and> distinct (sk_patches st0) \<and>
    (if ?ts = [] then sk_min st0 = - 1 \<and> sk_max st0 = - 1
     else sk_min st0 = Min (?M ?ts) \<and> sk_max st0 = Max (?M ?ts))"
    using snoc.prems(1) by (intro snoc.IH) (auto simp: st0_def)
  have st: "st = skew_step st0 v" using snoc.prems(2) by (simp add: st0_def)
  show ?case
  proof (cases "parseSemver v")
    case None
    then show ?thesis using IH by (simp add: st skew_step_def List.map_filter_def)
  next
    case (Some t)
    obtain a m p where t: "t = (a, m, p)" by (cases t) auto
    have m: "0 \<le> m" using snoc.prems(1) [of v t] Some t by simp
    have nonneg: "0 \<le> Min (?M ?ts)" "0 \<le> Max (?M ?ts)" if ne: "?ts \<noteq> []"
    proof -
      have all: "\<forall>x \<in> ?M ?ts. 0 \<le> x" using snoc.prems(1) by (force simp: List.map_filter_def)
      then show "0 \<le> Min (?M ?ts)" using ne by (auto simp: Min_ge_iff)
      have "Max (?M ?ts) \<in> ?M ?ts" using ne by (intro Max_in) auto
      then show "0 \<le> Max (?M ?ts)" using all by blast
    qed
    have app: "List.map_filter parseSemver (vs @ [v]) = ?ts @ [t]"
      using Some by (simp add: List.map_filter_def t)
    have pat: "set (sk_patches st) = insert t (set ?ts)" "distinct (sk_patches st)"
      using IH Some t by (simp_all add: st skew_step_def distinct_insert)
    have mn: "sk_min st = (if sk_min st0 = - 1 \<or> m < sk_min st0 then m else sk_min st0)"
      "sk_max st = (if sk_max st0 = - 1 \<or> sk_max st0 < m then m else sk_max st0)"
      using Some t by (simp_all add: st skew_step_def)
    have "sk_min st = Min (insert m (?M ?ts)) \<and> sk_max st = Max (insert m (?M ?ts))"
    proof (cases "?ts = []")
      case True
      then show ?thesis using IH mn by simp
    next
      case False
      then have "?M ?ts \<noteq> {}" "finite (?M ?ts)" by simp_all
      then have "Min (insert m (?M ?ts)) = min m (Min (?M ?ts))" "Max (insert m (?M ?ts)) = max m (Max (?M ?ts))"
        using Min_insert [of "?M ?ts" m] Max_insert [of "?M ?ts" m] by simp_all
      then show ?thesis using IH False mn nonneg [OF False] by (auto simp only: min_def max_def split: if_splits)
    qed
    moreover have "?M (?ts @ [t]) = insert m (?M ?ts)" by (simp add: t)
    ultimately show ?thesis using pat unfolding app by simp
  qed
qed

text \<open>The version skew of a fleet: strings that do not parse are ignored, fewer than two
  distinct versions are info, and otherwise the severity is critical when the largest and the
  smallest minor differ by two or more, warning when they differ by one, and info when only
  patches differ. The order the clusters report in does not matter.\<close>

lemma versionSkewSeverity_spec:
  assumes "\<And>v t. v \<in> set vs \<Longrightarrow> parseSemver v = Some t \<Longrightarrow> 0 \<le> fst (snd t)"
  shows "versionSkewSeverity vs =
    (let ts = set (List.map_filter parseSemver vs); minors = (fst \<circ> snd) ` ts
     in if card ts \<le> 1 then SeverityInfo
        else if Max minors - Min minors \<ge> 2 then SeverityCritical
        else if Max minors - Min minors = 1 then SeverityWarning
        else SeverityInfo)"
proof -
  define st where "st = foldl skew_step \<lparr>sk_min = - 1, sk_max = - 1, sk_patches = []\<rparr> vs"
  let ?l = "List.map_filter parseSemver vs"
  have inv: "set (sk_patches st) = set ?l \<and> distinct (sk_patches st) \<and>
    (if ?l = [] then sk_min st = - 1 \<and> sk_max st = - 1
     else sk_min st = Min ((fst \<circ> snd) ` set ?l) \<and> sk_max st = Max ((fst \<circ> snd) ` set ?l))"
    using assms st_def by (rule skew_fold)
  have len: "length (sk_patches st) = card (set ?l)" using inv by (metis distinct_card)
  have few: "card (set ?l) \<le> 1" if "length vs < 2"
    using that card_length [of ?l] by (cases vs) (auto simp: List.map_filter_def split: option.splits)
  show ?thesis
  proof (cases "card (set ?l) \<le> 1")
    case True
    then show ?thesis by (simp add: versionSkewSeverity_def st_def [symmetric] len Let_def)
  next
    case False
    then have ne: "?l \<noteq> []" and n: "\<not> length vs < 2" using few by auto
    have mm: "Min ((fst \<circ> snd) ` set ?l) \<le> Max ((fst \<circ> snd) ` set ?l)"
      using ne by (intro Max_ge Min_in) auto
    have "versionSkewSeverity vs = (if 2 \<le> sk_max st - sk_min st then SeverityCritical
              else if sk_max st \<noteq> sk_min st then SeverityWarning else SeverityInfo)"
      using False n by (simp add: versionSkewSeverity_def st_def [symmetric] len Let_def)
    moreover have "sk_min st = Min ((fst \<circ> snd) ` set ?l)" "sk_max st = Max ((fst \<circ> snd) ` set ?l)"
      using inv ne by simp_all
    ultimately show ?thesis using False mm by (auto simp: Let_def)
  qed
qed

lemma skew_sample_parses:
  "map parseSemver [''v1.31.2'', ''1.29.0-gke.500'', ''nightly'', ''v1.30.9+k3s1''] =
     [Some (1, 31, 2), Some (1, 29, 0), None, Some (1, 30, 9)]"
  by code_simp

lemma versionSkewSeverity_spec_instance:
  "versionSkewSeverity [''v1.31.2'', ''1.29.0-gke.500'', ''nightly'', ''v1.30.9+k3s1''] = SeverityCritical"
proof -
  let ?vs = "[''v1.31.2'', ''1.29.0-gke.500'', ''nightly'', ''v1.30.9+k3s1'']"
  have p: "0 \<le> fst (snd t)" if "v \<in> set ?vs" "parseSemver v = Some t" for v t
    using that skew_sample_parses by auto
  have l: "List.map_filter parseSemver ?vs = [(1, 31, 2), (1, 29, 0), (1, 30, 9)]"
    using skew_sample_parses by (simp add: List.map_filter_def)
  have "versionSkewSeverity ?vs =
    (let ts = set (List.map_filter parseSemver ?vs); minors = (fst \<circ> snd) ` ts
     in if card ts \<le> 1 then SeverityInfo
        else if Max minors - Min minors \<ge> 2 then SeverityCritical
        else if Max minors - Min minors = 1 then SeverityWarning else SeverityInfo)"
    by (rule versionSkewSeverity_spec) (rule p)
  then show ?thesis unfolding l by simp
qed

end
