(* ===== verification/Report_Types.thy ===== *)
theory Report_Types
  imports Field_Registry
begin

text \<open>
  The data of \<open>internal/report\<close>, struct by struct, and the scanner result types of
  \<open>internal/scanner\<close>. A scanner payload, Go's \<open>any\<close>, is the JSON value it converts to. A pointer
  that may be nil is an \<open>option\<close>; section pointers, which the code never leaves nil, are plain.
\<close>

section \<open>internal/scanner\<close>

type_synonym State = string

definition StateOK :: State where "StateOK = ''''"
definition StateDegraded :: State where "StateDegraded = ''degraded''"
definition StateErrored :: State where "StateErrored = ''errored''"
definition StateUnavailable :: State where "StateUnavailable = ''unavailable''"

lemmas state_defs = StateOK_def StateDegraded_def StateErrored_def StateUnavailable_def

record Result =
  res_Scanner :: string
  res_State :: State
  res_Reason :: string
  res_Data :: json

definition Blind :: "Result \<Rightarrow> bool" where
  "Blind r \<longleftrightarrow> res_State r = StateErrored"

type_synonym results = "(string, (string, Result) gomap) gomap"

definition Names :: "results \<Rightarrow> string list" where
  "Names results = sort (remdups (concat (map (\<lambda>(_, scanners). map fst scanners) results)))"

section \<open>Norms, outliers and distributions\<close>

definition NormKindNumeric :: string where "NormKindNumeric = ''numeric''"
definition NormKindString :: string where "NormKindString = ''string''"
definition NormKindSet :: string where "NormKindSet = ''set''"
definition NormScopeFleet :: string where "NormScopeFleet = ''fleet''"

lemmas kind_defs = NormKindNumeric_def NormKindString_def NormKindSet_def

record NormBasis =
  nb_Scope :: string
  nb_Field :: string
  nb_Kind :: string
  nb_Median :: float64
  nb_MAD :: float64
  nb_Mode :: string
  nb_ModeShare :: float64
  nb_Consensus :: "string list"
  nb_Missing :: "string list"
  nb_SampleSize :: int
  nb_Threshold :: float64
  nb_Value :: string
  nb_Z :: float64
  nb_LimitedSample :: bool
  nb_Exact :: bool
  nb_NoWhatIf :: string

record OutlierResult =
  o_Cluster :: string
  o_Field :: string
  o_Value :: string
  o_FleetNorm :: string
  o_Deviation :: float64
  o_Scanner :: string
  o_Severity :: string
  o_Scope :: string
  o_Kind :: string
  o_Median :: float64
  o_MAD :: float64
  o_Mode :: string
  o_ModeShare :: float64
  o_Consensus :: "string list"
  o_Missing :: "string list"
  o_SampleSize :: int
  o_Threshold :: float64
  o_Z :: float64
  o_ExplainedBy :: string
  o_LimitedSample :: bool
  o_Exact :: bool
  o_Favorable :: bool

text \<open>The zero value a composite literal starts from.\<close>

definition OutlierResult0 :: OutlierResult where
  "OutlierResult0 =
     \<lparr>o_Cluster = '''', o_Field = '''', o_Value = '''', o_FleetNorm = '''', o_Deviation = 0,
      o_Scanner = '''', o_Severity = '''', o_Scope = '''', o_Kind = '''', o_Median = 0, o_MAD = 0,
      o_Mode = '''', o_ModeShare = 0, o_Consensus = [], o_Missing = [], o_SampleSize = 0,
      o_Threshold = 0, o_Z = 0, o_ExplainedBy = '''', o_LimitedSample = False, o_Exact = False,
      o_Favorable = False\<rparr>"

record ClusterValue =
  cv_Cluster :: string
  cv_Number :: "float64 option"
  cv_Text :: string
  cv_Size :: int
  cv_Missing :: "string list"
  cv_Z :: float64
  cv_Outlier :: bool
  cv_Explained :: string

definition ClusterValue0 :: ClusterValue where
  "ClusterValue0 =
     \<lparr>cv_Cluster = '''', cv_Number = None, cv_Text = '''', cv_Size = 0, cv_Missing = [],
      cv_Z = 0, cv_Outlier = False, cv_Explained = ''''\<rparr>"

record Distribution =
  d_Scope :: string
  d_Scanner :: string
  d_Field :: string
  d_Kind :: string
  d_Values :: "ClusterValue list"
  d_Median :: float64
  d_MAD :: float64
  d_Band :: float64
  d_Threshold :: float64
  d_Mode :: string
  d_ModeShare :: float64
  d_Consensus :: "string list"
  d_SampleSize :: int
  d_Exact :: bool
  d_LimitedSample :: bool
  d_Mass :: float64

definition Distribution0 :: Distribution where
  "Distribution0 =
     \<lparr>d_Scope = '''', d_Scanner = '''', d_Field = '''', d_Kind = '''', d_Values = [], d_Median = 0,
      d_MAD = 0, d_Band = 0, d_Threshold = 0, d_Mode = '''', d_ModeShare = 0, d_Consensus = [],
      d_SampleSize = 0, d_Exact = False, d_LimitedSample = False, d_Mass = 0\<rparr>"

section \<open>Findings and cluster health\<close>

record Remediation =
  rm_Command :: string
  rm_YAML :: string
  rm_RunbookURL :: string

record ClusterMark =
  m_Cluster :: string
  m_Severity :: string

record Finding =
  f_Title :: string
  f_Description :: string
  f_Severity :: string
  f_Cluster :: string
  f_Scanner :: string
  f_Rule :: string
  f_Fingerprint :: string
  f_Acked :: bool
  f_Affected :: "string list"
  f_Remediation :: "Remediation option"
  f_Norm :: "NormBasis option"
  f_Marks :: "ClusterMark list"

definition Finding0 :: Finding where
  "Finding0 =
     \<lparr>f_Title = '''', f_Description = '''', f_Severity = '''', f_Cluster = '''', f_Scanner = '''',
      f_Rule = '''', f_Fingerprint = '''', f_Acked = False, f_Affected = [], f_Remediation = None,
      f_Norm = None, f_Marks = []\<rparr>"

record ClusterHealth =
  h_Name :: string
  h_Status :: string
  h_FindingCounts :: "(string, int) gomap"
  h_KubernetesVersion :: string
  h_NodeCount :: int
  h_HealthyNodes :: int
  h_AvgCPU :: float64
  h_AvgMemory :: float64
  h_WarningEvents :: int
  h_NamespaceCount :: int
  h_DegradedScanners :: int
  h_BlindScanners :: int

section \<open>Scores\<close>

record FleetCoverage =
  c_ExpectedRuns :: int
  c_ObservedRuns :: int
  c_BlindRuns :: int
  c_BlindClusters :: int
  c_Fraction :: float64

record FleetScoreDriver =
  dr_Reason :: string
  dr_Impact :: int

record FleetScore =
  s_Score :: int
  s_Grade :: string
  s_Graded :: bool
  s_Coverage :: FleetCoverage
  s_Headline :: string
  s_Drivers :: "FleetScoreDriver list"
  s_SampleSize :: int
  s_Dimensions :: int
  s_ExcludedClusters :: int

record ScoreTerm =
  t_Term :: string
  t_Reason :: string
  t_Count :: int
  t_Raw :: float64
  t_Cap :: float64
  t_Cost :: float64

record ScoreEntry =
  e_Term :: string
  e_Rule :: string
  e_Cluster :: string
  e_Raw :: float64
  e_Cost :: float64

record ScoreAttribution =
  a_Terms :: "ScoreTerm list"
  a_Entries :: "ScoreEntry list"
  a_Total :: float64
  a_ByCluster :: "(string, float64) gomap"
  a_ByRule :: "(string, float64) gomap"

section \<open>The report\<close>

record Divergence =
  dv_Field :: string
  dv_Values :: "(string, string) gomap"

record SectionReport =
  sec_Uniform :: bool
  sec_PerCluster :: "(string, json) gomap"
  sec_Divergences :: "Divergence list"

record ScannerStatus =
  ss_Cluster :: string
  ss_Scanner :: string
  ss_State :: string
  ss_Reason :: string

record CohortSummary =
  co_Name :: string
  co_Source :: string
  co_Clusters :: "string list"
  co_Outliers :: "OutlierResult list"

record Summary =
  sm_ClusterCount :: int
  sm_ScannerCount :: int
  sm_UniformCount :: int
  sm_DivergentCount :: int
  sm_TotalDivergences :: int
  sm_CriticalCount :: int
  sm_WarningCount :: int

record Category =
  cat_Name :: string
  cat_Scanners :: "string list"

record Incident =
  in_Cluster :: string
  in_Title :: string
  in_Theme :: string
  in_Severity :: string
  in_Summary :: string
  in_Findings :: "string list"

record CapacityAnalysis =
  ca_Cluster :: string
  ca_CPUUtilization :: "float64 option"
  ca_MemoryUtilization :: "float64 option"
  ca_HasMemoryPressure :: bool
  ca_HasDiskPressure :: bool
  ca_HasOOMEvents :: bool
  ca_HasSchedulingFailures :: bool
  ca_NodeCount :: int
  ca_HealthyNodes :: int
  ca_HeadroomCPU :: "float64 option"
  ca_HeadroomMemory :: "float64 option"
  ca_Status :: string
  ca_Recommendation :: string
  ca_NodesNeededForTarget :: int
  ca_GroupDeviation :: string

record Brief =
  br_Headline :: string
  br_Lines :: "string list"

text \<open>\<open>runKey\<close> is the pair of scanner and cluster; the table
  \<open>runs\<close> is \<open>None\<close> in a report decoded from JSON, where the unexported field is nil.\<close>

type_synonym runKey = "string \<times> string"

record Report =
  r_Timestamp :: string
  r_Clusters :: "string list"
  r_Categories :: "Category list"
  r_Sections :: "(string, SectionReport) gomap"
  r_Summary :: Summary
  r_Findings :: "Finding list"
  r_ClusterHealths :: "ClusterHealth list"
  r_Outliers :: "OutlierResult list"
  r_Distributions :: "Distribution list"
  r_DeviationMass :: "(string, float64) gomap"
  r_ScoreAttribution :: "ScoreAttribution option"
  r_Capacity :: "CapacityAnalysis list"
  r_FleetScore :: FleetScore
  r_Cohorts :: "CohortSummary list"
  r_Degraded :: "ScannerStatus list"
  r_Incidents :: "Incident list"
  r_Brief :: Brief
  r_Notes :: "string list"
  r_runs :: "(runKey, State) gomap option"

record BuildOptions =
  bo_OutlierThreshold :: float64
  bo_Groups :: "(string, string list) gomap"
  bo_ClusterTags :: "(string, string) gomap"
  bo_Timestamp :: string

definition Report0 :: Report where
  "Report0 =
     \<lparr>r_Timestamp = '''', r_Clusters = [], r_Categories = [], r_Sections = [],
      r_Summary = \<lparr>sm_ClusterCount = 0, sm_ScannerCount = 0, sm_UniformCount = 0,
        sm_DivergentCount = 0, sm_TotalDivergences = 0, sm_CriticalCount = 0, sm_WarningCount = 0\<rparr>,
      r_Findings = [], r_ClusterHealths = [], r_Outliers = [], r_Distributions = [],
      r_DeviationMass = [], r_ScoreAttribution = None, r_Capacity = [],
      r_FleetScore = \<lparr>s_Score = 0, s_Grade = '''', s_Graded = False,
        s_Coverage = \<lparr>c_ExpectedRuns = 0, c_ObservedRuns = 0, c_BlindRuns = 0,
          c_BlindClusters = 0, c_Fraction = 0\<rparr>,
        s_Headline = '''', s_Drivers = [], s_SampleSize = 0, s_Dimensions = 0,
        s_ExcludedClusters = 0\<rparr>,
      r_Cohorts = [], r_Degraded = [], r_Incidents = [],
      r_Brief = \<lparr>br_Headline = '''', br_Lines = []\<rparr>, r_Notes = [], r_runs = None\<rparr>"

end
