(* ===== verification/Score_Attribution.thy ===== *)
theory Score_Attribution
  imports Report_Types
begin

text \<open>
  \<open>internal/report/score_attribution.go\<close> and the weights of \<open>score.go\<close>: the cost ledger behind the
  fleet score. Costs are float64, every sum and product rounded as the code rounds it. The lemmas
  show that the finding terms charge exactly the capped price of their count, that no entry is
  charged more than its raw cost, and that the ledger never holds a term that costs nothing.
\<close>

section \<open>Weights and terms\<close>

definition scorePerCritical :: float64 where "scorePerCritical = 6"
definition scorePerWarning :: float64 where "scorePerWarning = 3 / 2"
definition scorePerInfo :: float64 where "scorePerInfo = 1 / 4"
definition scoreCriticalCap :: float64 where "scoreCriticalCap = 36"
definition scoreWarningCap :: float64 where "scoreWarningCap = 24"
definition scoreInfoCap :: float64 where "scoreInfoCap = 5"
definition scoreCriticalFleet :: float64 where "scoreCriticalFleet = 20"
definition scoreDegradedFleet :: float64 where "scoreDegradedFleet = 10"
definition scoreVersionCritSev :: float64 where "scoreVersionCritSev = 10"
definition scoreVersionWarnSev :: float64 where "scoreVersionWarnSev = 3"
definition scoreWorstNodeCap :: float64 where "scoreWorstNodeCap = 10"

definition TermCriticalFindings :: string where "TermCriticalFindings = ''critical-findings''"
definition TermWarningFindings :: string where "TermWarningFindings = ''warning-findings''"
definition TermInfoFindings :: string where "TermInfoFindings = ''info-findings''"
definition TermCriticalClusters :: string where "TermCriticalClusters = ''critical-clusters''"
definition TermDegradedClusters :: string where "TermDegradedClusters = ''degraded-clusters''"
definition TermVersionSkew :: string where "TermVersionSkew = ''version-skew''"
definition TermWorstNode :: string where "TermWorstNode = ''worst-node''"

lemmas weight_defs = scorePerCritical_def scorePerWarning_def scorePerInfo_def scoreCriticalCap_def
  scoreWarningCap_def scoreInfoCap_def scoreCriticalFleet_def scoreDegradedFleet_def
  scoreVersionCritSev_def scoreVersionWarnSev_def scoreWorstNodeCap_def

definition ScoreAttribution0 :: ScoreAttribution where
  "ScoreAttribution0 = \<lparr>a_Terms = [], a_Entries = [], a_Total = 0, a_ByCluster = [], a_ByRule = []\<rparr>"

definition ScoreEntry0 :: ScoreEntry where
  "ScoreEntry0 = \<lparr>e_Term = '''', e_Rule = '''', e_Cluster = '''', e_Raw = 0, e_Cost = 0\<rparr>"

section \<open>The ledger\<close>

definition addTerm ::
  "ScoreAttribution \<Rightarrow> string \<Rightarrow> string \<Rightarrow> int \<Rightarrow> float64 \<Rightarrow> ScoreEntry list \<Rightarrow> ScoreAttribution" where
  "addTerm a tm reason cnt limit entries =
     (let raw = fsum (map e_Raw entries)
      in if raw \<le> 0 then a
         else let cost = (if limit > 0 then min raw limit else raw);
                  scale = fdiv cost raw
              in a\<lparr>a_Terms := a_Terms a @ [\<lparr>t_Term = tm, t_Reason = reason, t_Count = cnt, t_Raw = raw,
                                            t_Cap = limit, t_Cost = cost\<rparr>],
                   a_Entries := a_Entries a @
                     map (\<lambda>e. e\<lparr>e_Term := tm, e_Cost := fmul (e_Raw e) scale\<rparr>) entries\<rparr>)"

record severityTerm =
  st_term :: string
  st_severity :: string
  st_label :: string
  st_per :: float64
  st_limit :: float64

definition severityTerms :: "severityTerm list" where
  "severityTerms =
     [\<lparr>st_term = TermCriticalFindings, st_severity = SeverityCritical, st_label = ''critical'',
       st_per = scorePerCritical, st_limit = scoreCriticalCap\<rparr>,
      \<lparr>st_term = TermWarningFindings, st_severity = SeverityWarning, st_label = ''warning'',
       st_per = scorePerWarning, st_limit = scoreWarningCap\<rparr>,
      \<lparr>st_term = TermInfoFindings, st_severity = SeverityInfo, st_label = ''info'',
       st_per = scorePerInfo, st_limit = scoreInfoCap\<rparr>]"

text \<open>The index map of the code sends a rule and cluster pair to its entry; here the entry is found
  by the pair, which no two entries share.\<close>

fun charge :: "float64 \<Rightarrow> string \<Rightarrow> string \<Rightarrow> ScoreEntry list \<Rightarrow> ScoreEntry list" where
  "charge per rule cluster [] = [ScoreEntry0\<lparr>e_Rule := rule, e_Cluster := cluster, e_Raw := fadd 0 per\<rparr>]"
| "charge per rule cluster (e # es) =
     (if e_Rule e = rule \<and> e_Cluster e = cluster then e\<lparr>e_Raw := fadd (e_Raw e) per\<rparr> # es
      else e # charge per rule cluster es)"

definition charge_finding :: "severityTerm \<Rightarrow> ScoreEntry list \<Rightarrow> Finding \<Rightarrow> ScoreEntry list" where
  "charge_finding sev entries f =
     (if f_Severity f \<noteq> st_severity sev then entries
      else charge (st_per sev) (f_Rule f) (f_Cluster f) entries)"

definition finding_entries :: "severityTerm \<Rightarrow> Finding list \<Rightarrow> ScoreEntry list" where
  "finding_entries sev findings = foldl (charge_finding sev) [] findings"

definition severity_count :: "string \<Rightarrow> Finding list \<Rightarrow> int" where
  "severity_count sev findings = int (length (filter (\<lambda>f. f_Severity f = sev) findings))"

definition addSeverityTerm :: "Finding list \<Rightarrow> ScoreAttribution \<Rightarrow> severityTerm \<Rightarrow> ScoreAttribution" where
  "addSeverityTerm findings a sev =
     (let cnt = severity_count (st_severity sev) findings;
          reason = Itoa cnt @ '' '' @ st_label sev @ '' finding'' @ Plural cnt
      in addTerm a (st_term sev) reason cnt (st_limit sev) (finding_entries sev findings))"

definition addFindingTerms :: "Finding list \<Rightarrow> ScoreAttribution \<Rightarrow> ScoreAttribution" where
  "addFindingTerms findings a = foldl (addSeverityTerm findings) a severityTerms"

definition status_entries :: "string list \<Rightarrow> float64 \<Rightarrow> ClusterHealth list \<Rightarrow> ScoreEntry list" where
  "status_entries statuses raw healths =
     map (\<lambda>h. ScoreEntry0\<lparr>e_Cluster := h_Name h, e_Raw := raw\<rparr>)
       (filter (\<lambda>h. h_Status h \<in> set statuses) healths)"

definition addClusterHealthTerms :: "ClusterHealth list \<Rightarrow> ScoreAttribution \<Rightarrow> ScoreAttribution" where
  "addClusterHealthTerms healths a =
     (if healths = [] then a
      else let total = int (length healths);
               crit = status_entries [''critical''] (fdiv scoreCriticalFleet (of_int64 total)) healths;
               deg = status_entries [''degraded'', ''strained''] (fdiv scoreDegradedFleet (of_int64 total)) healths;
               of_total = '' of '' @ Itoa total @ '' cluster'' @ Plural total
           in addTerm
                (addTerm a TermCriticalClusters (Itoa (int (length crit)) @ of_total @ '' critical'')
                   (int (length crit)) 0 crit)
                TermDegradedClusters (Itoa (int (length deg)) @ of_total @ '' degraded'')
                (int (length deg)) 0 deg)"

definition addVersionSkewTerm :: "ClusterHealth list \<Rightarrow> ScoreAttribution \<Rightarrow> ScoreAttribution" where
  "addVersionSkewTerm healths a =
     (if length healths < 2 then a
      else let versions = filter (\<lambda>v. v \<noteq> '''') (map h_KubernetesVersion healths);
               sev = versionSkewSeverity versions;
               entry = (\<lambda>raw. [ScoreEntry0\<lparr>e_Rule := ''version/skew'', e_Raw := raw\<rparr>])
           in if sev = SeverityCritical
              then addTerm a TermVersionSkew ''Kubernetes version skew exceeds one minor'' 1 0
                     (entry scoreVersionCritSev)
              else if sev = SeverityWarning
              then addTerm a TermVersionSkew ''Kubernetes version skew across the fleet'' 1 0
                     (entry scoreVersionWarnSev)
              else a)"

definition unhealthy_fraction :: "ClusterHealth \<Rightarrow> float64" where
  "unhealthy_fraction h = fdiv (of_int64 (h_NodeCount h - h_HealthyNodes h)) (of_int64 (h_NodeCount h))"

definition worse_node :: "float64 \<times> string \<Rightarrow> ClusterHealth \<Rightarrow> float64 \<times> string" where
  "worse_node worst h =
     (if h_NodeCount h \<le> 0 \<or> h_NodeCount h - h_HealthyNodes h \<le> 0 then worst
      else if unhealthy_fraction h > fst worst then (unhealthy_fraction h, h_Name h)
      else worst)"

definition worst_node :: "ClusterHealth list \<Rightarrow> float64 \<times> string" where
  "worst_node healths = foldl worse_node (0, '''') healths"

definition addWorstNodeTerm :: "ClusterHealth list \<Rightarrow> ScoreAttribution \<Rightarrow> ScoreAttribution" where
  "addWorstNodeTerm healths a =
     (case worst_node healths of (worstFrac, worstCluster) \<Rightarrow>
        if worstFrac = 0 then a
        else addTerm a TermWorstNode
               (worstCluster @ '' has '' @ Itoa (math_Round (fmul worstFrac 100)) @ ''% unhealthy nodes'')
               1 0 [ScoreEntry0\<lparr>e_Cluster := worstCluster, e_Raw := fmul scoreWorstNodeCap worstFrac\<rparr>])"

definition add_cost :: "string \<Rightarrow> float64 \<Rightarrow> (string, float64) gomap \<Rightarrow> (string, float64) gomap" where
  "add_cost k cost m = (if k = '''' then m else AList.update k (fadd (lookup_default 0 m k) cost) m)"

definition computeScoreAttribution :: "Report \<Rightarrow> ScoreAttribution" where
  "computeScoreAttribution r =
     (let a = addWorstNodeTerm (r_ClusterHealths r)
                (addVersionSkewTerm (r_ClusterHealths r)
                  (addClusterHealthTerms (r_ClusterHealths r)
                    (addFindingTerms (r_Findings r) ScoreAttribution0)))
      in a\<lparr>a_Total := foldl (\<lambda>total t. fadd total (t_Cost t)) (a_Total a) (a_Terms a),
           a_ByCluster := foldl (\<lambda>m e. add_cost (e_Cluster e) (e_Cost e) m) [] (a_Entries a),
           a_ByRule := foldl (\<lambda>m e. add_cost (e_Rule e) (e_Cost e) m) [] (a_Entries a)\<rparr>)"

definition Drivers :: "ScoreAttribution \<Rightarrow> FleetScoreDriver list" where
  "Drivers a =
     take 3 (sort_key (\<lambda>d. - dr_Impact d)
       (map (\<lambda>t. \<lparr>dr_Reason = t_Reason t, dr_Impact = math_Round (t_Cost t)\<rparr>) (a_Terms a)))"

section \<open>Well-formed ledgers\<close>

definition term_ok :: "ScoreTerm \<Rightarrow> bool" where
  "term_ok t \<longleftrightarrow> 0 < t_Cost t \<and> t_Cost t \<le> t_Raw t \<and> (0 < t_Cap t \<longrightarrow> t_Cost t \<le> t_Cap t)"

definition entry_ok :: "ScoreEntry \<Rightarrow> bool" where
  "entry_ok e \<longleftrightarrow> 0 \<le> e_Cost e \<and> e_Cost e \<le> e_Raw e"

definition raw_ok :: "ScoreEntry \<Rightarrow> bool" where
  "raw_ok e \<longleftrightarrow> 0 \<le> e_Raw e \<and> is_f64 (e_Raw e)"

definition ledger_ok :: "ScoreAttribution \<Rightarrow> bool" where
  "ledger_ok a \<longleftrightarrow> (\<forall>t \<in> set (a_Terms a). term_ok t) \<and> (\<forall>e \<in> set (a_Entries a). entry_ok e)"

lemma scaled_cost_le:
  assumes "0 \<le> raw" "is_f64 raw" "0 \<le> cost" "cost \<le> whole" "0 < whole"
  shows "0 \<le> fmul raw (fdiv cost whole)" "fmul raw (fdiv cost whole) \<le> raw"
proof -
  have "0 \<le> fdiv cost whole" using assms by (simp add: fdiv_def f64_nonneg)
  moreover have "fdiv cost whole \<le> 1"
    unfolding fdiv_def using assms is_f64_of_int [of 1] by (intro f64_le_f64) auto
  ultimately show "0 \<le> fmul raw (fdiv cost whole)" "fmul raw (fdiv cost whole) \<le> raw"
    unfolding fmul_def using assms by (auto intro!: f64_nonneg f64_le_f64 mult_left_le)
qed

lemma addTerm_ledger_ok:
  assumes a: "ledger_ok a" and es: "list_all raw_ok entries"
  shows "ledger_ok (addTerm a tm reason cnt limit entries)"
proof (cases "fsum (map e_Raw entries) \<le> 0")
  case True
  then show ?thesis using a by (simp add: addTerm_def Let_def)
next
  case False
  define raw where "raw = fsum (map e_Raw entries)"
  define cost where "cost = (if limit > 0 then min raw limit else raw)"
  have raw: "0 < raw" using False by (simp add: raw_def)
  have cost: "0 < cost" "cost \<le> raw" "0 < limit \<Longrightarrow> cost \<le> limit" using raw by (auto simp: cost_def)
  have ent: "entry_ok (e\<lparr>e_Term := tm, e_Cost := fmul (e_Raw e) (fdiv cost raw)\<rparr>)" if "e \<in> set entries" for e
    using scaled_cost_le [of "e_Raw e" cost raw] es that raw cost
    by (auto simp: entry_ok_def raw_ok_def list_all_iff)
  show ?thesis
    using a False raw cost ent
    by (auto simp: ledger_ok_def addTerm_def Let_def raw_def [symmetric] cost_def [symmetric] term_ok_def)
qed

lemma charge_raw_ok: "list_all raw_ok es \<Longrightarrow> 0 \<le> per \<Longrightarrow> list_all raw_ok (charge per rule cluster es)"
  by (induction es) (auto simp: raw_ok_def fadd_def f64_nonneg)

lemma finding_entries_raw_ok:
  assumes "0 \<le> st_per sev"
  shows "list_all raw_ok (finding_entries sev fs)"
proof -
  have "list_all raw_ok (foldl (charge_finding sev) es fs)" if "list_all raw_ok es" for es
    using that
  proof (induction fs arbitrary: es)
    case (Cons f fs)
    then have "list_all raw_ok (charge_finding sev es f)"
      using assms by (simp add: charge_finding_def charge_raw_ok)
    with Cons.IH show ?case by simp
  qed simp
  then show ?thesis unfolding finding_entries_def by simp
qed

lemma severityTerms_nonneg: "sev \<in> set severityTerms \<Longrightarrow> 0 \<le> st_per sev"
  by (auto simp: severityTerms_def weight_defs)

lemma addFindingTerms_ok: "ledger_ok a \<Longrightarrow> ledger_ok (addFindingTerms fs a)"
proof -
  have "ledger_ok a \<Longrightarrow> \<forall>sev \<in> set sevs. 0 \<le> st_per sev \<Longrightarrow> ledger_ok (foldl (addSeverityTerm fs) a sevs)" for sevs
    by (induction sevs arbitrary: a)
       (simp_all add: addSeverityTerm_def Let_def addTerm_ledger_ok finding_entries_raw_ok)
  then show "ledger_ok a \<Longrightarrow> ?thesis" unfolding addFindingTerms_def using severityTerms_nonneg by blast
qed

lemma status_entries_raw_ok:
  "0 \<le> raw \<and> is_f64 raw \<Longrightarrow> list_all raw_ok (status_entries ss raw hs)"
  by (auto simp: status_entries_def raw_ok_def list_all_iff)

lemma share_ok: "0 \<le> x \<Longrightarrow> 0 \<le> n \<Longrightarrow> 0 \<le> fdiv x (of_int64 n) \<and> is_f64 (fdiv x (of_int64 n))"
  by (simp add: fdiv_def of_int64_def f64_nonneg)

lemma addClusterHealthTerms_ok: "ledger_ok a \<Longrightarrow> ledger_ok (addClusterHealthTerms hs a)"
  unfolding addClusterHealthTerms_def Let_def
  by (cases "hs = []") (simp_all add: weight_defs share_ok addTerm_ledger_ok status_entries_raw_ok)

lemma addVersionSkewTerm_ok: "ledger_ok a \<Longrightarrow> ledger_ok (addVersionSkewTerm hs a)"
  unfolding addVersionSkewTerm_def
  using is_f64_of_int [of 10] is_f64_of_int [of 3]
  by (auto simp: Let_def weight_defs raw_ok_def intro!: addTerm_ledger_ok)

lemma worst_node_fold: "0 \<le> fst p \<Longrightarrow> fst p \<le> fst (foldl worse_node p hs)"
proof (induction hs arbitrary: p)
  case (Cons h hs)
  have "fst p \<le> fst (worse_node p h)" by (simp add: worse_node_def)
  with Cons.prems Cons.IH [of "worse_node p h"] show ?case by simp
qed simp

lemma worst_node_nonneg: "0 \<le> fst (worst_node hs)"
  unfolding worst_node_def using worst_node_fold [of "(0, '''')" hs] by simp

lemma addWorstNodeTerm_ok: "ledger_ok a \<Longrightarrow> ledger_ok (addWorstNodeTerm hs a)"
  unfolding addWorstNodeTerm_def using worst_node_nonneg [of hs]
  by (auto simp: weight_defs raw_ok_def fmul_def f64_nonneg split: prod.splits intro!: addTerm_ledger_ok)

lemma ledger_ok_empty: "ledger_ok ScoreAttribution0"
  by (simp add: ledger_ok_def ScoreAttribution0_def)

lemma computeScoreAttribution_ok: "ledger_ok (computeScoreAttribution r)"
proof -
  have upd: "ledger_ok a \<Longrightarrow> ledger_ok (a\<lparr>a_Total := x, a_ByCluster := y, a_ByRule := z\<rparr>)" for a x y z
    by (simp add: ledger_ok_def)
  show ?thesis unfolding computeScoreAttribution_def Let_def
    by (intro upd addWorstNodeTerm_ok addVersionSkewTerm_ok addClusterHealthTerms_ok
        addFindingTerms_ok ledger_ok_empty)
qed

section \<open>The finding terms are exact\<close>

text \<open>Multiples of a price add without rounding while they stay below the last exact multiple.\<close>

lemma exact_price:
  assumes "per = of_int m / 4" "0 \<le> m" "m \<le> 24" "k \<le> 2 ^ 48"
  shows "is_f64 (of_nat k * per)"
proof -
  have "m * int k \<le> 24 * 2 ^ 48" using assms by (intro mult_mono) auto
  then have "\<bar>int k * m\<bar> < 2 ^ 53" using assms by (simp add: abs_mult mult.commute)
  moreover have "of_nat k * per = of_int (int k * m) * 2 powi (- 2)"
    using assms(1) by (simp add: power_int_minus divide_simps)
  ultimately show ?thesis unfolding is_f64_def by (metis f64_exact emin_le_m2)
qed

lemma fadd_price:
  "is_f64 (of_nat (i + j) * per) \<Longrightarrow> fadd (of_nat i * per) (of_nat j * per) = of_nat (i + j) * per"
  by (simp add: fadd_def is_f64_def algebra_simps)

lemma fsum_price:
  assumes "\<And>k. k \<le> K \<Longrightarrow> is_f64 (of_nat k * per)"
  shows "i + sum_list ks \<le> K \<Longrightarrow>
    foldl fadd (of_nat i * per) (map (\<lambda>k. of_nat k * per) ks) = of_nat (i + sum_list ks) * per"
proof (induction ks arbitrary: i)
  case (Cons k ks)
  then have "fadd (of_nat i * per) (of_nat k * per) = of_nat (i + k) * per"
    by (intro fadd_price assms) (use Cons.prems in simp)
  with Cons.IH [of "i + k"] Cons.prems show ?case by (simp add: add.assoc)
qed simp

lemma charge_price:
  assumes "\<And>k. k \<le> K \<Longrightarrow> is_f64 (of_nat k * per)"
    and "map e_Raw es = map (\<lambda>k. of_nat k * per) ks" "sum_list ks < K"
  shows "\<exists>ks'. map e_Raw (charge per rule cluster es) = map (\<lambda>k. of_nat k * per) ks' \<and> sum_list ks' = Suc (sum_list ks)"
  using assms(2,3)
proof (induction es arbitrary: ks)
  case Nil
  then have "fadd 0 per = of_nat 1 * per" using fadd_price [of 0 1 per] assms(1) [of 1] by simp
  with Nil show ?case by (intro exI [of _ "[1]"]) simp
next
  case (Cons e es)
  then obtain k ks0 where ks: "ks = k # ks0" "e_Raw e = of_nat k * per" "map e_Raw es = map (\<lambda>k. of_nat k * per) ks0"
    by (cases ks) auto
  show ?case
  proof (cases "e_Rule e = rule \<and> e_Cluster e = cluster")
    case True
    have "fadd (of_nat k * per) (of_nat 1 * per) = of_nat (k + 1) * per"
      by (intro fadd_price assms(1)) (use Cons.prems ks in simp)
    with True ks show ?thesis by (intro exI [of _ "Suc k # ks0"]) simp
  next
    case False
    from Cons.IH [OF ks(3)] Cons.prems ks obtain ks' where
      "map e_Raw (charge per rule cluster es) = map (\<lambda>k. of_nat k * per) ks'" "sum_list ks' = Suc (sum_list ks0)"
      by auto
    with False ks show ?thesis by (intro exI [of _ "k # ks'"]) auto
  qed
qed

lemma finding_entries_price:
  assumes ex: "\<And>k. k \<le> K \<Longrightarrow> is_f64 (of_nat k * st_per sev)" and len: "length fs \<le> K"
  shows "\<exists>ks. map e_Raw (finding_entries sev fs) = map (\<lambda>k. of_nat k * st_per sev) ks
     \<and> sum_list ks = length (filter (\<lambda>f. f_Severity f = st_severity sev) fs)"
  using len unfolding finding_entries_def
proof (induction fs rule: rev_induct)
  case (snoc f fs)
  then obtain ks where ks: "map e_Raw (foldl (charge_finding sev) [] fs) = map (\<lambda>k. of_nat k * st_per sev) ks"
    "sum_list ks = length (filter (\<lambda>f. f_Severity f = st_severity sev) fs)" by auto
  have "sum_list ks < K" unfolding ks(2) by (rule le_less_trans [OF length_filter_le]) (use snoc.prems in simp)
  note step = charge_price [OF ex ks(1) this, of "f_Rule f" "f_Cluster f"]
  show ?case
  proof (cases "f_Severity f = st_severity sev")
    case True
    then have "foldl (charge_finding sev) [] (fs @ [f]) =
        charge (st_per sev) (f_Rule f) (f_Cluster f) (foldl (charge_finding sev) [] fs)"
      by (simp add: charge_finding_def [of _ _ f])
    with step True ks(2) show ?thesis by simp
  next
    case False
    then have "foldl (charge_finding sev) [] (fs @ [f]) = foldl (charge_finding sev) [] fs"
      by (simp add: charge_finding_def [of _ _ f])
    with ks False show ?thesis by auto
  qed
qed simp

lemma finding_raw:
  assumes "\<And>k. k \<le> K \<Longrightarrow> is_f64 (of_nat k * st_per sev)" "length fs \<le> K"
  shows "fsum (map e_Raw (finding_entries sev fs)) = of_int (severity_count (st_severity sev) fs) * st_per sev"
proof -
  from finding_entries_price [OF assms] obtain ks where
    ks: "map e_Raw (finding_entries sev fs) = map (\<lambda>k. of_nat k * st_per sev) ks"
    "sum_list ks = length (filter (\<lambda>f. f_Severity f = st_severity sev) fs)" by blast
  have "sum_list ks \<le> K" unfolding ks(2) by (rule order_trans [OF length_filter_le]) (rule assms(2))
  with fsum_price [OF assms(1), of K 0 ks] show ?thesis
    unfolding ks(1) fsum_def severity_count_def ks(2) [symmetric] by simp
qed

definition priced_term :: "severityTerm \<Rightarrow> Finding list \<Rightarrow> string \<times> int \<times> float64 \<times> float64" where
  "priced_term sev fs =
     (let n = severity_count (st_severity sev) fs
      in (st_term sev, n, of_int n * st_per sev, min (of_int n * st_per sev) (st_limit sev)))"

lemma severity_count_nonneg [simp]: "0 \<le> severity_count s fs"
  by (simp add: severity_count_def)

lemma addSeverityTerm_terms:
  assumes "\<And>k. k \<le> K \<Longrightarrow> is_f64 (of_nat k * st_per sev)" "length fs \<le> K" "0 < st_per sev" "0 < st_limit sev"
  shows "map (\<lambda>t. (t_Term t, t_Count t, t_Raw t, t_Cost t)) (a_Terms (addSeverityTerm fs a sev)) =
     map (\<lambda>t. (t_Term t, t_Count t, t_Raw t, t_Cost t)) (a_Terms a)
       @ filter (\<lambda>(_, n, _). 0 < n) [priced_term sev fs]"
proof -
  have nonneg: "0 \<le> severity_count (st_severity sev) fs" by simp
  then have "severity_count (st_severity sev) fs = 0 \<or> 0 < severity_count (st_severity sev) fs" by linarith
  moreover have "\<not> of_int (severity_count (st_severity sev) fs) * st_per sev \<le> 0" if "0 < severity_count (st_severity sev) fs"
    using assms(3) that by (simp add: not_le)
  moreover have "fsum (map e_Raw (finding_entries sev fs)) = of_int (severity_count (st_severity sev) fs) * st_per sev"
    by (rule finding_raw) (use assms in auto)
  ultimately show ?thesis
    unfolding addSeverityTerm_def addTerm_def Let_def priced_term_def
    using assms(4) by auto
qed

lemma addSeverityTerms_terms:
  assumes "length fs \<le> K"
  shows "\<forall>sev \<in> set sevs. 0 < st_per sev \<and> 0 < st_limit sev \<and> (\<forall>k \<le> K. is_f64 (of_nat k * st_per sev)) \<Longrightarrow>
    map (\<lambda>t. (t_Term t, t_Count t, t_Raw t, t_Cost t)) (a_Terms (foldl (addSeverityTerm fs) a sevs)) =
    map (\<lambda>t. (t_Term t, t_Count t, t_Raw t, t_Cost t)) (a_Terms a)
      @ filter (\<lambda>(_, n, _). 0 < n) (map (\<lambda>sev. priced_term sev fs) sevs)"
proof (induction sevs arbitrary: a)
  case (Cons sev sevs)
  then have "map (\<lambda>t. (t_Term t, t_Count t, t_Raw t, t_Cost t)) (a_Terms (addSeverityTerm fs a sev)) =
     map (\<lambda>t. (t_Term t, t_Count t, t_Raw t, t_Cost t)) (a_Terms a)
       @ filter (\<lambda>(_, n, _). 0 < n) [priced_term sev fs]"
    by (intro addSeverityTerm_terms [OF _ assms]) auto
  with Cons.IH [of "addSeverityTerm fs a sev"] Cons.prems show ?case by simp
qed simp

lemma finding_terms_exact:
  assumes "length fs \<le> 2 ^ 48"
  shows "map (\<lambda>t. (t_Term t, t_Count t, t_Raw t, t_Cost t)) (a_Terms (addFindingTerms fs ScoreAttribution0)) =
    (let c = severity_count SeverityCritical fs; w = severity_count SeverityWarning fs;
         i = severity_count SeverityInfo fs
     in filter (\<lambda>(_, n, _). 0 < n)
          [(TermCriticalFindings, c, of_int c * 6, min (of_int c * 6) 36),
           (TermWarningFindings, w, of_int w * (3 / 2), min (of_int w * (3 / 2)) 24),
           (TermInfoFindings, i, of_int i * (1 / 4), min (of_int i * (1 / 4)) 5)])"
proof -
  have ex: "is_f64 (of_nat k * 6)" "is_f64 (of_nat k * (3 / 2))" "is_f64 (of_nat k * (1 / 4))" if "k \<le> 2 ^ 48" for k
    using exact_price [of 6 24 k] exact_price [of "3 / 2" 6 k] exact_price [of "1 / 4" 1 k] that by simp_all
  have "map (\<lambda>t. (t_Term t, t_Count t, t_Raw t, t_Cost t)) (a_Terms (addFindingTerms fs ScoreAttribution0)) =
      filter (\<lambda>(_, n, _). 0 < n) (map (\<lambda>sev. priced_term sev fs) severityTerms)"
    unfolding addFindingTerms_def
    by (subst addSeverityTerms_terms [OF assms])
       (use ex in \<open>auto simp: severityTerms_def weight_defs ScoreAttribution0_def\<close>)
  then show ?thesis
    by (simp add: severityTerms_def priced_term_def Let_def weight_defs)
qed


section \<open>Drivers\<close>

lemma sorted_take_drop:
  "sorted xs \<Longrightarrow> x \<in> set (take n xs) \<Longrightarrow> y \<in> set (drop n xs) \<Longrightarrow> x \<le> y"
  by (metis append_take_drop_id sorted_append)

lemma sort_key_take_drop:
  assumes "x \<in> set (take n (sort_key f xs))" "y \<in> set (drop n (sort_key f xs))"
  shows "f x \<le> f y"
proof -
  have "sorted (map f (sort_key f xs))" by simp
  moreover have "f x \<in> set (take n (map f (sort_key f xs)))" "f y \<in> set (drop n (map f (sort_key f xs)))"
    using assms by (auto simp: take_map drop_map)
  ultimately show ?thesis by (rule sorted_take_drop)
qed

section \<open>Properties\<close>

text \<open>The finding terms of the ledger are exact: a severity with findings has one term, whose raw
  cost is the price times the number of findings of that severity and whose cost is the smaller of
  that and the cap, with no rounding error, whatever rules and clusters the findings are spread over;
  a severity without findings has no term.\<close>

lemma addFindingTerms_exact:
  assumes "length fs \<le> 2 ^ 48"
  shows "map (\<lambda>t. (t_Term t, t_Count t, t_Raw t, t_Cost t)) (a_Terms (addFindingTerms fs ScoreAttribution0)) =
    (let c = severity_count SeverityCritical fs; w = severity_count SeverityWarning fs;
         i = severity_count SeverityInfo fs
     in filter (\<lambda>(_, n, _). 0 < n)
          [(TermCriticalFindings, c, of_int c * 6, min (of_int c * 6) 36),
           (TermWarningFindings, w, of_int w * (3 / 2), min (of_int w * (3 / 2)) 24),
           (TermInfoFindings, i, of_int i * (1 / 4), min (of_int i * (1 / 4)) 5)])"
  by (rule finding_terms_exact [OF assms])

lemma addFindingTerms_exact_instance:
  "let fs = replicate 7 (Finding0\<lparr>f_Severity := SeverityCritical\<rparr>)
   in length fs \<le> 2 ^ 48 \<and>
      map (\<lambda>t. (t_Term t, t_Count t, t_Raw t, t_Cost t)) (a_Terms (addFindingTerms fs ScoreAttribution0)) =
        [(TermCriticalFindings, 7, 42, 36)]"
proof -
  let ?fs = "replicate 7 (Finding0\<lparr>f_Severity := SeverityCritical\<rparr>)"
  have "length ?fs \<le> 2 ^ 48" by simp
  moreover have "severity_count SeverityCritical ?fs = 7" "severity_count SeverityWarning ?fs = 0"
    "severity_count SeverityInfo ?fs = 0" by code_simp+
  ultimately show ?thesis using addFindingTerms_exact [of ?fs] by (simp add: Let_def)
qed

text \<open>Every ledger is well formed: a term always removes a positive number of points, never more
  than its raw cost and never more than its cap, and an entry is charged between nothing and its raw
  cost.\<close>

lemma computeScoreAttribution_well_formed:
  "list_all (\<lambda>t. 0 < t_Cost t \<and> t_Cost t \<le> t_Raw t \<and> (t_Cap t \<le> 0 \<or> t_Cost t \<le> t_Cap t))
     (a_Terms (computeScoreAttribution r)) \<and>
   list_all (\<lambda>e. 0 \<le> e_Cost e \<and> e_Cost e \<le> e_Raw e) (a_Entries (computeScoreAttribution r))"
  using computeScoreAttribution_ok [of r]
  by (auto simp: ledger_ok_def term_ok_def entry_ok_def list_all_iff)

text \<open>The drivers are the three costliest terms: they are in descending order of rounded cost, and
  every term left out costs no more than each of them.\<close>

lemma Drivers_top:
  "\<exists>rest. mset (Drivers a @ rest) =
       mset (map (\<lambda>t. \<lparr>dr_Reason = t_Reason t, dr_Impact = math_Round (t_Cost t)\<rparr>) (a_Terms a))
     \<and> length (Drivers a) = min 3 (length (a_Terms a))
     \<and> sorted_wrt (\<lambda>x y. dr_Impact y \<le> dr_Impact x) (Drivers a)
     \<and> list_all (\<lambda>d. list_all (\<lambda>d'. dr_Impact d' \<le> dr_Impact d) rest) (Drivers a)"
proof -
  define ds where "ds = map (\<lambda>t. \<lparr>dr_Reason = t_Reason t, dr_Impact = math_Round (t_Cost t)\<rparr>) (a_Terms a)"
  define s where "s = sort_key (\<lambda>d. - dr_Impact d) ds"
  have D: "Drivers a = take 3 s" by (simp add: Drivers_def s_def ds_def)
  have "mset (take 3 s @ drop 3 s) = mset ds" by (simp add: s_def)
  moreover have "length (take 3 s) = min 3 (length (a_Terms a))" by (simp add: s_def ds_def min.commute)
  moreover have "sorted (map (\<lambda>d. - dr_Impact d) s)" by (simp add: s_def)
  then have "sorted_wrt (\<lambda>x y. dr_Impact y \<le> dr_Impact x) s" by (simp add: sorted_wrt_map)
  then have "sorted_wrt (\<lambda>x y. dr_Impact y \<le> dr_Impact x) (take 3 s)" by (rule sorted_wrt_take)
  moreover have "list_all (\<lambda>d. list_all (\<lambda>d'. dr_Impact d' \<le> dr_Impact d) (drop 3 s)) (take 3 s)"
    unfolding list_all_iff s_def using sort_key_take_drop [where f = "\<lambda>d. - dr_Impact d"] by fastforce
  ultimately show ?thesis unfolding D ds_def by blast
qed



end
