(* ===== verification/Go_Fmt.thy ===== *)
theory Go_Fmt
  imports Util
begin

text \<open>
  The formatting verbs of Go's \<open>fmt\<close> that the analysis relies on: \<open>%d\<close> (\<open>Itoa\<close>), \<open>%.0f\<close>,
  \<open>%.1f\<close>, and \<open>%v\<close> of a value decoded from JSON. \<open>%v\<close> of a float64 is the shortest decimal that
  reads back as the same float64, in exponent form when the exponent is below -4 or at least 6.
\<close>

section \<open>Fixed precision\<close>

definition fmt_fixed1 :: "float64 \<Rightarrow> string" where
  "fmt_fixed1 x =
     (let d = nat (round_even (\<bar>x\<bar> * 10))
      in (if x < 0 then ''-'' else '''') @ nat_to_string (d div 10) @ ''.'' @ [digit_char (d mod 10)])"

definition fmt_fixed0 :: "float64 \<Rightarrow> string" where
  "fmt_fixed0 x = (if x < 0 then ''-'' else '''') @ nat_to_string (nat (round_even \<bar>x\<bar>))"

definition formatNum :: "float64 \<Rightarrow> string" where
  "formatNum n = (if n = of_int (math_Trunc n) then fmt_fixed0 n else fmt_fixed1 n)"

section \<open>The shortest decimal of a float64\<close>

text \<open>\<open>ilog10 x\<close> is the exponent of the leading decimal digit of a positive \<open>x\<close>.\<close>

function ilog10_up :: "rat \<Rightarrow> nat \<Rightarrow> int" where
  "ilog10_up x n = (if n = 0 \<or> x < 10 then 0 else 1 + ilog10_up (x / 10) (n - 1))"
  by pat_completeness auto
termination by (relation "measure snd") auto

function ilog10_down :: "rat \<Rightarrow> nat \<Rightarrow> int" where
  "ilog10_down x n = (if n = 0 \<or> x \<ge> 1 then 0 else ilog10_down (x * 10) (n - 1) - 1)"
  by pat_completeness auto
termination by (relation "measure snd") auto

declare ilog10_up.simps [simp del] ilog10_down.simps [simp del]

definition ilog10 :: "rat \<Rightarrow> int" where
  "ilog10 x = (if x \<ge> 1 then ilog10_up x 400 else ilog10_down x 400)"

text \<open>The closest decimal with \<open>n\<close> digits that reads back as \<open>x\<close>, as its digits and the exponent of
  their last place; more digits are tried until one does, and 17 always do.\<close>

definition decimal_value :: "nat \<Rightarrow> int \<Rightarrow> rat" where
  "decimal_value d e = of_nat d * 10 powi e"

definition decimal_candidate :: "rat \<Rightarrow> int \<Rightarrow> nat option" where
  "decimal_candidate x e =
     (let q = x / 10 powi e; lo = nat \<lfloor>q\<rfloor>; hi = lo + 1; near = nat (round_even q);
          far = (if near = lo then hi else lo)
      in if f64 (decimal_value near e) = x then Some near
         else if f64 (decimal_value far e) = x then Some far else None)"

fun shortest_from :: "rat \<Rightarrow> int \<Rightarrow> nat \<Rightarrow> nat \<Rightarrow> nat \<times> int" where
  "shortest_from x lead n 0 = (nat (round_even (x / 10 powi (lead - int n + 1))), lead - int n + 1)"
| "shortest_from x lead n (Suc k) =
     (let e = lead - int n + 1
      in case decimal_candidate x e of Some d \<Rightarrow> (d, e) | None \<Rightarrow> shortest_from x lead (n + 1) k)"

definition shortest_decimal :: "rat \<Rightarrow> nat \<times> int" where
  "shortest_decimal x = shortest_from x (ilog10 x) 1 17"

definition strip_zeros :: "string \<Rightarrow> string" where
  "strip_zeros s = trim_right (\<lambda>c. c = CHR ''0'') s"

definition fmt_g :: "float64 \<Rightarrow> string" where
  "fmt_g x =
     (if x = 0 then ''0''
      else let (d, e) = shortest_decimal \<bar>x\<bar>;
               ds = nat_to_string d;
               ex = int (length ds) - 1 + e;
               sig = strip_zeros ds;
               sign = (if x < 0 then ''-'' else '''')
           in if ex < -4 \<or> ex \<ge> 6 then
                let m = take 1 sig @ (if length sig > 1 then ''.'' @ drop 1 sig else '''');
                    a = nat_to_string (nat \<bar>ex\<bar>)
                in sign @ m @ ''e'' @ (if ex < 0 then ''-'' else ''+'')
                     @ (if length a < 2 then ''0'' else '''') @ a
              else if ex < 0 then sign @ ''0.'' @ replicate (nat (- ex - 1)) (CHR ''0'') @ sig
              else if int (length sig) \<le> ex + 1
                then sign @ sig @ replicate (nat (ex + 1) - length sig) (CHR ''0'')
              else sign @ take (nat (ex + 1)) sig @ ''.'' @ drop (nat (ex + 1)) sig)"

section \<open>Values decoded from JSON\<close>

text \<open>A map prints its keys sorted. The keys of a decoded object are distinct.\<close>

fun fmt_v :: "json \<Rightarrow> string" where
  "fmt_v JNull = ''<nil>''"
| "fmt_v (JBool b) = (if b then ''true'' else ''false'')"
| "fmt_v (JNum x) = fmt_g x"
| "fmt_v (JStr s) = s"
| "fmt_v (JArr js) = ''['' @ strings_Join (map fmt_v js) '' '' @ '']''"
| "fmt_v (JObj m) =
     ''map['' @ strings_Join (map (\<lambda>(k, s). k @ '':'' @ s)
        (sort_key fst (map (\<lambda>(k, j). (k, fmt_v j)) m))) '' '' @ '']''"

text \<open>\<open>%v\<close> of a map element that may be missing: the missing element is nil.\<close>

definition fmt_opt :: "json option \<Rightarrow> string" where
  "fmt_opt v = (case v of None \<Rightarrow> ''<nil>'' | Some j \<Rightarrow> fmt_v j)"

section \<open>Laws\<close>

lemma digit_char_inj: "a < 10 \<Longrightarrow> b < 10 \<Longrightarrow> digit_char a = digit_char b \<longleftrightarrow> a = b"
proof
  assume "a < 10" "b < 10" "digit_char a = digit_char b"
  then have "of_char (char_of (48 + a) :: char) = (of_char (char_of (48 + b) :: char) :: nat)"
    by (simp add: digit_char_def)
  with \<open>a < 10\<close> \<open>b < 10\<close> show "a = b" by simp
qed simp

lemma nat_to_string_inj: "nat_to_string m = nat_to_string n \<Longrightarrow> m = n"
proof (induction m arbitrary: n rule: nat_to_string.induct)
  case (1 m)
  have m: "nat_to_string m = (if m < 10 then [digit_char m] else nat_to_string (m div 10) @ [digit_char (m mod 10)])"
    by (rule nat_to_string.simps)
  have n: "nat_to_string n = (if n < 10 then [digit_char n] else nat_to_string (n div 10) @ [digit_char (n mod 10)])"
    by (rule nat_to_string.simps)
  show ?case
  proof (cases "m < 10")
    case True
    with "1.prems" m n show ?thesis
      by (auto simp: digit_char_inj nat_to_string_nonempty [symmetric] split: if_splits)
  next
    case False
    with "1.prems" m n have "n \<ge> 10" by (auto simp: nat_to_string_nonempty [symmetric] split: if_splits)
    with False "1.prems" m n
    have "nat_to_string (m div 10) = nat_to_string (n div 10)" "digit_char (m mod 10) = digit_char (n mod 10)"
      by auto
    with "1.IH" [OF False] have "m div 10 = n div 10" "m mod 10 = n mod 10"
      by (auto simp: digit_char_inj)
    then show ?thesis by (metis div_mult_mod_eq)
  qed
qed

lemma nat_to_string_digits: "c \<in> set (nat_to_string n) \<Longrightarrow> \<exists>d < 10. c = digit_char d"
proof (induction n rule: nat_to_string.induct)
  case (1 n)
  from "1.prems" have "c \<in> set (if n < 10 then [digit_char n] else nat_to_string (n div 10) @ [digit_char (n mod 10)])"
    by (subst (asm) nat_to_string.simps)
  then consider "n < 10" "c = digit_char n" | "\<not> n < 10" "c \<in> set (nat_to_string (n div 10))"
    | "\<not> n < 10" "c = digit_char (n mod 10)" by (auto split: if_splits)
  then show ?case
  proof cases
    case 2
    with "1.IH" show ?thesis by blast
  qed (auto intro: exI [of _ n] exI [of _ "n mod 10"])
qed

end
