(* ===== verification/Observe.thy ===== *)
theory Observe
  imports Report_Types Go_Fmt
begin

text \<open>
  \<open>internal/report/observe.go\<close>: how a report answers whether a scanner field was measured on a
  cluster. A report keeps the payload of every run that saw its cluster and an entry in \<open>Degraded\<close>
  for every run that was not clean; the state of a run is derived from the two.
\<close>

section \<open>Definitions\<close>

datatype observation = unobserved | partial | observed

definition observation_rank :: "observation \<Rightarrow> nat" where
  "observation_rank obs = (case obs of unobserved \<Rightarrow> 0 | partial \<Rightarrow> 1 | observed \<Rightarrow> 2)"

definition partialScanNote :: string where
  "partialScanNote = '' (partial scan)''"

definition index_sections :: "(string, SectionReport) gomap \<Rightarrow> (runKey, State) gomap" where
  "index_sections secs =
     fold (\<lambda>(name, sec) runs. fold (\<lambda>(cluster, _). AList.update (name, cluster) StateOK)
             (sec_PerCluster sec) runs) secs []"

definition index_degraded :: "ScannerStatus list \<Rightarrow> (runKey, State) gomap \<Rightarrow> (runKey, State) gomap" where
  "index_degraded ds runs =
     fold (\<lambda>d. AList.update (ss_Scanner d, ss_Cluster d) (ss_State d)) ds runs"

definition indexRuns :: "Report \<Rightarrow> (runKey, State) gomap" where
  "indexRuns r = index_degraded (r_Degraded r) (index_sections (r_Sections r))"

definition runState :: "Report \<Rightarrow> string \<Rightarrow> string \<Rightarrow> State option" where
  "runState r scannerName cluster =
     map_of (case r_runs r of Some runs \<Rightarrow> runs | None \<Rightarrow> indexRuns r) (scannerName, cluster)"

definition genericMap :: "json \<Rightarrow> jobject option" where
  "genericMap data = (case data of JObj m \<Rightarrow> Some m | _ \<Rightarrow> None)"

definition clusterView :: "Report \<Rightarrow> string \<Rightarrow> string \<Rightarrow> jobject \<times> observation" where
  "clusterView r scannerName cluster =
     (case runState r scannerName cluster of
        None \<Rightarrow> ([], unobserved)
      | Some st \<Rightarrow>
          if st = StateErrored then ([], unobserved)
          else case map_of (r_Sections r) scannerName of
            None \<Rightarrow> ([], unobserved)
          | Some sec \<Rightarrow> (case map_of (sec_PerCluster sec) cluster of
                None \<Rightarrow> ([], unobserved)
              | Some data \<Rightarrow> (case genericMap data of
                    None \<Rightarrow> ([], unobserved)
                  | Some m \<Rightarrow> (m, if st = StateDegraded then partial else observed))))"

text \<open>A missing map element is nil, which \<open>util.Float64\<close> and the string assertion reject.\<close>

definition observe :: "Report \<Rightarrow> string \<Rightarrow> string \<Rightarrow> string \<Rightarrow> float64 \<times> observation" where
  "observe r scannerName cluster field =
     (case clusterView r scannerName cluster of (m, obs) \<Rightarrow>
        if obs = unobserved then (0, unobserved)
        else case Option.bind (map_of m field) util_Float64 of
          None \<Rightarrow> (0, unobserved)
        | Some v \<Rightarrow> (v, obs))"

definition observeInt :: "Report \<Rightarrow> string \<Rightarrow> string \<Rightarrow> string \<Rightarrow> int \<times> observation" where
  "observeInt r scannerName cluster field =
     (case observe r scannerName cluster field of (v, obs) \<Rightarrow> (math_Trunc v, obs))"

definition observeString :: "Report \<Rightarrow> string \<Rightarrow> string \<Rightarrow> string \<Rightarrow> string \<times> observation" where
  "observeString r scannerName cluster field =
     (case clusterView r scannerName cluster of (m, obs) \<Rightarrow>
        if obs = unobserved then ('''', unobserved)
        else case map_of m field of
          Some (JStr s) \<Rightarrow> (s, obs)
        | _ \<Rightarrow> ('''', unobserved))"

definition seen :: "observation \<Rightarrow> bool" where
  "seen obs \<longleftrightarrow> obs \<noteq> unobserved"

definition note_of :: "observation \<Rightarrow> string" where
  "note_of obs = (if obs = partial then partialScanNote else '''')"

definition runNote :: "Report \<Rightarrow> string \<Rightarrow> string \<Rightarrow> string" where
  "runNote r scannerName cluster =
     (if runState r scannerName cluster = Some StateDegraded then partialScanNote else '''')"

definition appendSentence :: "string \<Rightarrow> string \<Rightarrow> bool \<Rightarrow> string" where
  "appendSentence desc sentence part =
     (let noted = has_suffix desc partialScanNote;
          base = (if noted then take (length desc - length partialScanNote) desc else desc);
          out = trim_both is_space (base @ '' '' @ sentence)
      in if noted \<or> part then out @ partialScanNote else out)"

definition weakest :: "observation list \<Rightarrow> observation" where
  "weakest obs =
     fold (\<lambda>ob out. if observation_rank ob < observation_rank out then ob else out) obs observed"

section \<open>The run table\<close>

lemma index_per_cluster:
  "map_of (fold (\<lambda>(c, _). AList.update (n, c) StateOK) m runs) (s, cl) =
     (if s = n \<and> cl \<in> fst ` set m then Some StateOK else map_of runs (s, cl))"
  by (induction m arbitrary: runs) (auto simp: image_iff)

lemma index_sections_fold:
  "map_of (fold (\<lambda>(name, sec) runs. fold (\<lambda>(cluster, _). AList.update (name, cluster) StateOK)
             (sec_PerCluster sec) runs) secs runs) (s, cl) =
     (if \<exists>sec. (s, sec) \<in> set secs \<and> cl \<in> fst ` set (sec_PerCluster sec) then Some StateOK
      else map_of runs (s, cl))"
proof (induction secs arbitrary: runs)
  case (Cons p secs)
  obtain n sec where p: "p = (n, sec)" by fastforce
  show ?case unfolding p by (simp add: Cons.IH index_per_cluster) auto
qed simp

lemma index_degraded_map_of:
  "map_of (index_degraded ds runs) (s, cl) =
     (case find (\<lambda>d. ss_Scanner d = s \<and> ss_Cluster d = cl) (rev ds) of
        Some d \<Rightarrow> Some (ss_State d) | None \<Rightarrow> map_of runs (s, cl))"
  unfolding index_degraded_def
  by (induction ds rule: rev_induct) auto

lemma index_sections_map_of:
  "map_of (index_sections secs) (s, cl) =
     (if \<exists>sec. (s, sec) \<in> set secs \<and> cl \<in> fst ` set (sec_PerCluster sec) then Some StateOK else None)"
  unfolding index_sections_def by (simp add: index_sections_fold)

text \<open>The table Build stores is the one a decoded report derives.\<close>

definition runs_consistent :: "Report \<Rightarrow> bool" where
  "runs_consistent r \<longleftrightarrow> r_runs r = None \<or> r_runs r = Some (indexRuns r)"

lemma runState_indexRuns:
  "runs_consistent r \<Longrightarrow> runState r s cl = map_of (indexRuns r) (s, cl)"
  by (auto simp: runState_def runs_consistent_def)

section \<open>What an observation means\<close>

lemma clusterView_seen:
  "clusterView r s cl = (m, obs) \<and> seen obs \<longleftrightarrow>
     (\<exists>st sec. runState r s cl = Some st \<and> st \<noteq> StateErrored \<and> map_of (r_Sections r) s = Some sec
        \<and> map_of (sec_PerCluster sec) cl = Some (JObj m)
        \<and> obs = (if st = StateDegraded then partial else observed))"
  unfolding clusterView_def seen_def genericMap_def
  by (auto split: option.splits json.splits if_splits)

lemma observe_seen:
  "observe r s cl f = (v, obs) \<and> seen obs \<longleftrightarrow>
     (\<exists>m j. clusterView r s cl = (m, obs) \<and> seen obs \<and> map_of m f = Some j \<and> util_Float64 j = Some v)"
  unfolding observe_def seen_def
  by (cases "clusterView r s cl") (auto split: option.splits if_splits simp: bind_eq_Some_conv)

lemma observation_rank_simps [simp]:
  "observation_rank unobserved = 0" "observation_rank partial = 1" "observation_rank observed = 2"
  by (simp_all add: observation_rank_def)

lemma weakest_eq:
  "weakest obs =
     (if unobserved \<in> set obs then unobserved else if partial \<in> set obs then partial else observed)"
proof -
  have "fold (\<lambda>ob out. if observation_rank ob < observation_rank out then ob else out) obs z =
      (if unobserved \<in> insert z (set obs) then unobserved
       else if partial \<in> insert z (set obs) then partial else observed)" for z
  proof (induction obs arbitrary: z)
    case Nil
    show ?case by (cases z) auto
  next
    case (Cons a obs)
    show ?case by (cases a; cases z) (auto simp: Cons.IH)
  qed
  from this [of observed] show ?thesis by (simp add: weakest_def)
qed

end
