(* ===== verification/Flat.thy ===== *)
theory Flat
  imports Observe
begin

text \<open>
  The flattened view of a section that the comparison and the outlier detectors read
  (\<open>outlier.go\<close>: \<open>flattenSection\<close>, \<open>prepareFlat\<close>, \<open>boundDegraded\<close>, \<open>collectFields\<close> and the two
  type tests). A cluster whose payload is not an object has an empty map, as Go's nil map reads.
\<close>

section \<open>Definitions\<close>

type_synonym flat = "(string, jobject) gomap"

definition flattenSection :: "string list \<Rightarrow> SectionReport \<Rightarrow> flat" where
  "flattenSection clusters sec =
     fold (\<lambda>c flat. case map_of (sec_PerCluster sec) c of
              None \<Rightarrow> flat
            | Some data \<Rightarrow> AList.update c (case genericMap data of Some m \<Rightarrow> m | None \<Rightarrow> []) flat)
       clusters []"

definition json_items :: "json \<Rightarrow> json list" where
  "json_items v = (case v of JArr xs \<Rightarrow> xs | _ \<Rightarrow> [])"

definition add_member :: "setProjection \<Rightarrow> string list \<Rightarrow> json \<Rightarrow> string list" where
  "add_member p members item =
     (case item of
        JObj obj \<Rightarrow> (let name = sp_Member p obj
                    in if name = '''' \<or> name \<in> set members then members else members @ [name])
      | _ \<Rightarrow> members)"

definition project_members :: "setProjection \<Rightarrow> json list \<Rightarrow> string list" where
  "project_members p raw = foldl (add_member p) [] raw"

definition project_set :: "setProjection \<Rightarrow> jobject \<Rightarrow> jobject" where
  "project_set p m =
     (case map_of m (sp_From p) of
        None \<Rightarrow> m
      | Some v \<Rightarrow> (let members = project_members p (json_items v)
                  in if members = [] \<and> sp_SkipEmpty p then m
                     else AList.update (sp_To p) (JArr (map JStr members)) m))"

definition json_number :: "json \<Rightarrow> bool" where
  "json_number v = (case v of JNum _ \<Rightarrow> True | _ \<Rightarrow> False)"

definition gate_available :: "jobject \<Rightarrow> jobject" where
  "gate_available m =
     (if map_of m ''available'' = Some (JBool True) then m
      else filter (\<lambda>(k, v). \<not> json_number v) m)"

definition prepareFlat :: "string \<Rightarrow> flat \<Rightarrow> flat" where
  "prepareFlat scannerName flat =
     (let projected = (case map_of projections scannerName of
                         None \<Rightarrow> flat
                       | Some p \<Rightarrow> map (\<lambda>(c, m). (c, project_set p m)) flat)
      in if scannerName \<in> set gatedScanners
         then map (\<lambda>(c, m). (c, gate_available m)) projected else projected)"

definition lowerBound :: "string \<Rightarrow> string \<Rightarrow> json \<Rightarrow> bool" where
  "lowerBound scannerName field v =
     (case v of JNum n \<Rightarrow> n > 0 \<and> fs_Polarity (fieldSpec_of scannerName field) = UpIsBad
      | _ \<Rightarrow> False)"

definition boundDegraded :: "string \<Rightarrow> flat \<Rightarrow> (runKey, State) gomap \<Rightarrow> flat" where
  "boundDegraded scannerName flat runs =
     map (\<lambda>(cluster, m).
            (cluster, if map_of runs (scannerName, cluster) = Some StateDegraded
                      then filter (\<lambda>(field, v). lowerBound scannerName field v) m else m)) flat"

definition collectFields :: "flat \<Rightarrow> string list" where
  "collectFields flat = sort (remdups (concat (map (\<lambda>(_, m). map fst m) flat)))"

text \<open>The value a detector reads: absent cluster, absent field and null all read as nothing.\<close>

definition flat_get :: "flat \<Rightarrow> string \<Rightarrow> string \<Rightarrow> json option" where
  "flat_get flat c field = map_of (lookup_default [] flat c) field"

definition flat_value :: "flat \<Rightarrow> string \<Rightarrow> string \<Rightarrow> json option" where
  "flat_value flat c field =
     (case flat_get flat c field of None \<Rightarrow> None | Some JNull \<Rightarrow> None | Some v \<Rightarrow> Some v)"

fun all_of_type :: "(json \<Rightarrow> bool) \<Rightarrow> json option list \<Rightarrow> bool \<Rightarrow> bool" where
  "all_of_type T [] saw = saw"
| "all_of_type T (None # vs) saw = all_of_type T vs saw"
| "all_of_type T (Some v # vs) saw = (T v \<and> all_of_type T vs True)"

definition isNumericInFlat :: "string list \<Rightarrow> flat \<Rightarrow> string \<Rightarrow> bool" where
  "isNumericInFlat clusters flat field =
     all_of_type json_number (map (\<lambda>c. flat_value flat c field) clusters) False"

definition json_array :: "json \<Rightarrow> bool" where
  "json_array v = (case v of JArr _ \<Rightarrow> True | _ \<Rightarrow> False)"

definition isArrayInFlat :: "string list \<Rightarrow> flat \<Rightarrow> string \<Rightarrow> bool" where
  "isArrayInFlat clusters flat field =
     all_of_type json_array (map (\<lambda>c. flat_value flat c field) clusters) False"

section \<open>Laws\<close>

lemma all_of_type_iff:
  "all_of_type T vs saw \<longleftrightarrow> (\<forall>v. Some v \<in> set vs \<longrightarrow> T v) \<and> (saw \<or> (\<exists>v. Some v \<in> set vs))"
  by (induction T vs saw rule: all_of_type.induct) auto

lemma json_number_iff: "json_number v \<longleftrightarrow> (\<exists>n. v = JNum n)"
  by (cases v) (auto simp: json_number_def)

lemma json_array_iff: "json_array v \<longleftrightarrow> (\<exists>xs. v = JArr xs)"
  by (cases v) (auto simp: json_array_def)

lemma Some_in_map: "Some v \<in> set (map g cs) \<longleftrightarrow> (\<exists>c \<in> set cs. g c = Some v)"
  by (auto simp: image_iff) metis

lemma isNumericInFlat_iff:
  "isNumericInFlat clusters flat field \<longleftrightarrow>
     (\<exists>c \<in> set clusters. flat_value flat c field \<noteq> None) \<and>
     (\<forall>c \<in> set clusters. \<forall>v. flat_value flat c field = Some v \<longrightarrow> (\<exists>n. v = JNum n))"
  unfolding isNumericInFlat_def all_of_type_iff json_number_iff Some_in_map by blast

lemma isArrayInFlat_iff:
  "isArrayInFlat clusters flat field \<longleftrightarrow>
     (\<exists>c \<in> set clusters. flat_value flat c field \<noteq> None) \<and>
     (\<forall>c \<in> set clusters. \<forall>v. flat_value flat c field = Some v \<longrightarrow> (\<exists>xs. v = JArr xs))"
  unfolding isArrayInFlat_def all_of_type_iff json_array_iff Some_in_map by blast

lemma flattenSection_fold:
  "map_of (fold (\<lambda>c flat. case map_of pc c of
              None \<Rightarrow> flat
            | Some data \<Rightarrow> AList.update c (case genericMap data of Some m \<Rightarrow> m | None \<Rightarrow> []) flat)
       cs flat) c =
     (case map_of pc c of
        Some data \<Rightarrow> if c \<in> set cs then Some (case genericMap data of Some m \<Rightarrow> m | None \<Rightarrow> [])
                    else map_of flat c
      | None \<Rightarrow> map_of flat c)"
  by (induction cs arbitrary: flat) (auto split: option.splits)

lemma map_of_flattenSection:
  "map_of (flattenSection clusters sec) c =
     (if c \<in> set clusters
      then map_option (\<lambda>data. case genericMap data of Some m \<Rightarrow> m | None \<Rightarrow> []) (map_of (sec_PerCluster sec) c)
      else None)"
  unfolding flattenSection_def flattenSection_fold by (auto split: option.splits)

lemma map_of_boundDegraded:
  "map_of (boundDegraded s flat runs) c =
     map_option (\<lambda>m. if map_of runs (s, c) = Some StateDegraded
                      then filter (\<lambda>(field, v). lowerBound s field v) m else m) (map_of flat c)"
  unfolding boundDegraded_def by (induction flat) auto

lemma map_of_filter_value:
  "distinct (map fst m) \<Longrightarrow>
     map_of (filter P m) k = (case map_of m k of Some v \<Rightarrow> if P (k, v) then Some v else None | None \<Rightarrow> None)"
proof (induction m)
  case (Cons a m)
  obtain k' v' where a: "a = (k', v')" by fastforce
  from Cons.prems a have nin: "k' \<notin> fst ` set m" and d: "distinct (map fst m)" by auto
  from nin have none: "map_of m k' = None" by (simp add: map_of_eq_None_iff)
  from nin have none2: "map_of (filter P m) k' = None" by (auto simp: map_of_eq_None_iff)
  show ?case unfolding a using Cons.IH [OF d] none none2 by (auto split: option.splits)
qed simp

lemma boundDegraded_get:
  assumes "distinct (map fst (lookup_default [] flat c))"
  shows "flat_get (boundDegraded s flat runs) c field =
     (case flat_get flat c field of
        None \<Rightarrow> None
      | Some v \<Rightarrow> if map_of runs (s, c) = Some StateDegraded \<and> \<not> lowerBound s field v then None else Some v)"
  using assms unfolding flat_get_def lookup_default_def map_of_boundDegraded
  by (auto simp: map_of_filter_value split: option.splits)

lemma add_member_set:
  "set (add_member p ms item) = set ms \<union> ({sp_Member p obj | obj. item = JObj obj} - {''''})"
  by (cases item) (auto simp: add_member_def Let_def)

lemma add_member_distinct: "distinct ms \<Longrightarrow> distinct (add_member p ms item)"
  by (cases item) (auto simp: add_member_def Let_def)

lemma project_members_fold:
  "distinct ms \<Longrightarrow> distinct (foldl (add_member p) ms raw)"
  "set (foldl (add_member p) ms raw) = set ms \<union> ({sp_Member p obj | obj. JObj obj \<in> set raw} - {''''})"
  by (induction raw arbitrary: ms) (auto simp: add_member_distinct add_member_set)

lemma project_members:
  "distinct (project_members p raw)"
  "set (project_members p raw) = {sp_Member p obj | obj. JObj obj \<in> set raw} - {''''}"
  unfolding project_members_def by (simp_all add: project_members_fold)

lemma collectFields_iff: "f \<in> set (collectFields flat) \<longleftrightarrow> (\<exists>(c, m) \<in> set flat. f \<in> fst ` set m)"
  by (auto simp: collectFields_def)

lemma collectFields_sorted [simp]: "sorted (collectFields flat)" "distinct (collectFields flat)"
  by (simp_all add: collectFields_def)

end
