(* ===== verification/Section_Compare.thy ===== *)
theory Section_Compare
  imports Flat
begin

text \<open>
  \<open>internal/report/compare.go\<close> and the section loop of \<open>Build\<close> in \<open>report.go\<close>: how the scanner
  results of a fleet become sections, which runs are listed as degraded, and which fields of a
  section diverge. A payload is the JSON value of its encoding, so two encodings are equal
  exactly when the values are.
\<close>

section \<open>compare.go\<close>

definition setFields :: "string list" where
  "setFields = [''names'', ''hosts'', ''policy_types'', ''versions'']"

definition identityScanners :: "string list" where
  "identityScanners = [''geo'']"

definition skipFields :: "string list" where
  "skipFields =
     [''nodes'', ''services'', ''ingresses'', ''policies'',
      ''roles'', ''bindings'', ''quotas'', ''limit_ranges'',
      ''namespaces'', ''crds'', ''labels'', ''conditions'',
      ''top_images'', ''top_failures'', ''by_source'']"

text \<open>The scan state of the string and numeric comparisons: the rendered values, the reference
  value once one was read, and whether every value matched it.\<close>

definition compareStringField :: "string list \<Rightarrow> flat \<Rightarrow> string \<Rightarrow> Divergence option" where
  "compareStringField clusters flat field =
     (let (values, r, uniform) =
        foldl (\<lambda>(values, r, uniform) cluster.
            case map_of flat cluster of
              None \<Rightarrow> (AList.update cluster ''<missing>'' values, r, False)
            | Some m \<Rightarrow>
                (let v = fmt_opt (map_of m field); values' = AList.update cluster v values
                 in case r of None \<Rightarrow> (values', Some v, uniform)
                    | Some r0 \<Rightarrow> (values', r, uniform \<and> v = r0)))
          ([], None, True) clusters
      in if uniform then None else Some \<lparr>dv_Field = field, dv_Values = values\<rparr>)"

definition num_bounds :: "string list \<Rightarrow> (string, float64) gomap \<Rightarrow> (float64 \<times> float64) option" where
  "num_bounds clusters nums =
     foldl (\<lambda>acc cluster.
        case map_of nums cluster of
          None \<Rightarrow> acc
        | Some n \<Rightarrow> (case acc of None \<Rightarrow> Some (n, n) | Some (lo, hi) \<Rightarrow> Some (min lo n, max hi n)))
       None clusters"

definition annotateNumeric ::
  "string list \<Rightarrow> (string, float64) gomap \<Rightarrow> (string, string) gomap \<Rightarrow> (string, string) gomap" where
  "annotateNumeric clusters nums values =
     (case num_bounds clusters nums of
        None \<Rightarrow> values
      | Some (lo, hi) \<Rightarrow>
          if hi = lo then values
          else foldl (\<lambda>values cluster.
                 case map_of nums cluster of
                   None \<Rightarrow> values
                 | Some n \<Rightarrow>
                     if n = hi then AList.update cluster (lookup_default '''' values cluster @ '' [highest]'') values
                     else if n = lo then AList.update cluster (lookup_default '''' values cluster @ '' [lowest]'') values
                     else values) values clusters)"

definition field_number :: "jobject \<Rightarrow> string \<Rightarrow> float64" where
  "field_number m field =
     (case Option.bind (map_of m field) util_Float64 of Some x \<Rightarrow> x | None \<Rightarrow> 0)"

record numeric_scan =
  ns_values :: "(string, string) gomap"
  ns_nums :: "(string, float64) gomap"
  ns_ref :: "float64 option"
  ns_uniform :: bool

definition numeric_step :: "flat \<Rightarrow> string \<Rightarrow> numeric_scan \<Rightarrow> string \<Rightarrow> numeric_scan" where
  "numeric_step flat field st cluster =
     (case map_of flat cluster of
        None \<Rightarrow> st\<lparr>ns_values := AList.update cluster ''<missing>'' (ns_values st), ns_uniform := False\<rparr>
      | Some m \<Rightarrow>
          (let n = field_number m field;
               st' = st\<lparr>ns_nums := AList.update cluster n (ns_nums st),
                        ns_values := AList.update cluster (formatNum n) (ns_values st)\<rparr>
           in case ns_ref st of
                None \<Rightarrow> st'\<lparr>ns_ref := Some n\<rparr>
              | Some r0 \<Rightarrow> st'\<lparr>ns_uniform := (ns_uniform st \<and> n = r0)\<rparr>))"

definition compareNumericField :: "string list \<Rightarrow> flat \<Rightarrow> string \<Rightarrow> Divergence option" where
  "compareNumericField clusters flat field =
     (let st = foldl (numeric_step flat field)
                 \<lparr>ns_values = [], ns_nums = [], ns_ref = None, ns_uniform = True\<rparr> clusters
      in if ns_uniform st then None
         else Some \<lparr>dv_Field = field, dv_Values = annotateNumeric clusters (ns_nums st) (ns_values st)\<rparr>)"

definition cluster_set :: "jobject \<Rightarrow> string \<Rightarrow> string list" where
  "cluster_set m field =
     (case map_of m field of Some (JArr arr) \<Rightarrow> remdups (map fmt_v arr) | _ \<Rightarrow> [])"

definition compareSetField :: "string list \<Rightarrow> flat \<Rightarrow> string \<Rightarrow> Divergence option" where
  "compareSetField clusters flat field =
     (let clusterSets =
            foldl (\<lambda>sets cluster. case map_of flat cluster of
                     None \<Rightarrow> sets | Some m \<Rightarrow> AList.update cluster (cluster_set m field) sets) [] clusters;
          union = remdups (concat (map snd clusterSets))
      in if list_all (\<lambda>(_, s). length s = length union) clusterSets then None
         else Some \<lparr>dv_Field = field, dv_Values =
           foldl (\<lambda>values cluster.
             let s = lookup_default [] clusterSets cluster;
                 present = sort (filter (\<lambda>i. i \<in> set s) union);
                 missing = sort (filter (\<lambda>i. i \<notin> set s) union)
             in AList.update cluster
                  (Itoa (int (length present)) @ '' items''
                    @ (if missing = [] then '''' else '', missing: '' @ strings_Join missing '', ''))
                  values) [] clusters\<rparr>)"

text \<open>\<open>json.Unmarshal\<close> into a map accepts an object and null.\<close>

definition unmarshalMap :: "json \<Rightarrow> jobject option" where
  "unmarshalMap j = (case j of JObj m \<Rightarrow> Some m | JNull \<Rightarrow> Some [] | _ \<Rightarrow> None)"

definition findDivergences :: "string list \<Rightarrow> (string, json) gomap \<Rightarrow> Divergence list" where
  "findDivergences clusters encoded =
     (let flat = List.map_filter (\<lambda>(c, j). map_option (Pair c) (unmarshalMap j)) encoded;
          fields = filter (\<lambda>f. f \<notin> set skipFields) (collectFields flat)
      in List.map_filter (\<lambda>field.
           if field \<in> set setFields then compareSetField clusters flat field
           else if isNumericInFlat clusters flat field then compareNumericField clusters flat field
           else compareStringField clusters flat field) fields)"

definition compare :: "string list \<Rightarrow> (string, json) gomap \<Rightarrow> SectionReport" where
  "compare clusters perCluster =
     (let uniform = (case map snd perCluster of [] \<Rightarrow> True | j # js \<Rightarrow> list_all (\<lambda>j'. j' = j) js)
      in if length perCluster \<le> 1 \<or> uniform
         then \<lparr>sec_Uniform = True, sec_PerCluster = perCluster, sec_Divergences = []\<rparr>
         else \<lparr>sec_Uniform = False, sec_PerCluster = perCluster,
               sec_Divergences = findDivergences clusters perCluster\<rparr>)"

section \<open>The section loop of Build\<close>

definition sortScannerStatuses :: "ScannerStatus list \<Rightarrow> ScannerStatus list" where
  "sortScannerStatuses s = sort_key (\<lambda>d. (ss_Cluster d, ss_Scanner d)) s"

definition scan_one ::
  "results \<Rightarrow> string \<Rightarrow> ScannerStatus list \<times> (string, json) gomap \<Rightarrow> string
     \<Rightarrow> ScannerStatus list \<times> (string, json) gomap" where
  "scan_one results name = (\<lambda>(degraded, perCluster) cluster.
     case map_of (lookup_default [] results cluster) name of
       None \<Rightarrow> (degraded, perCluster)
     | Some res \<Rightarrow>
         (if res_State res \<noteq> StateOK
          then degraded @ [\<lparr>ss_Cluster = cluster, ss_Scanner = name, ss_State = res_State res,
                            ss_Reason = res_Reason res\<rparr>]
          else degraded,
          if Blind res then perCluster else AList.update cluster (res_Data res) perCluster))"

definition build_section ::
  "string list \<Rightarrow> results \<Rightarrow> ScannerStatus list \<times> (string, SectionReport) gomap \<Rightarrow> string
     \<Rightarrow> ScannerStatus list \<times> (string, SectionReport) gomap" where
  "build_section clusters results = (\<lambda>(degraded, sections) name.
     (let (degraded', perCluster) = foldl (scan_one results name) (degraded, []) clusters;
          section = compare clusters perCluster;
          section' = (if name \<in> set identityScanners
                      then section\<lparr>sec_Uniform := True, sec_Divergences := []\<rparr> else section)
      in (degraded', AList.update name section' sections)))"

definition buildSections :: "string list \<Rightarrow> results \<Rightarrow> Report \<Rightarrow> Report" where
  "buildSections clusters results r =
     (let (degraded, sections) = foldl (build_section clusters results) ([], []) (Names results);
          r' = r\<lparr>r_Clusters := clusters, r_Sections := sections,
                  r_Degraded := sortScannerStatuses degraded\<rparr>
      in r'\<lparr>r_runs := Some (indexRuns r')\<rparr>)"

section \<open>The rest of report.go's helpers\<close>

definition Categories :: "Category list" where
  "Categories =
     [\<lparr>cat_Name = ''Cluster Info'', cat_Scanners = [''version'', ''namespaces'', ''crds'', ''deprecated-apis'', ''geo'']\<rparr>,
      \<lparr>cat_Name = ''Workloads'', cat_Scanners = [''services'', ''ingresses'', ''image-audit'', ''workload-coverage'']\<rparr>,
      \<lparr>cat_Name = ''Health & Resources'', cat_Scanners =
        [''node-health'', ''metrics'', ''resources'', ''resource-quotas'', ''cluster-info'']\<rparr>,
      \<lparr>cat_Name = ''Security & Access'', cat_Scanners =
        [''workload-security'', ''rbac-audit'', ''rbac'', ''security'', ''network-policies'',
         ''vulnerabilities'', ''policy-reports'', ''certs'', ''admission'']\<rparr>,
      \<lparr>cat_Name = ''Events & Logs'', cat_Scanners = [''events'']\<rparr>]"

definition CategoryOf :: "string \<Rightarrow> string" where
  "CategoryOf scanner =
     (case find (\<lambda>c. scanner \<in> set (cat_Scanners c)) Categories of
        Some c \<Rightarrow> cat_Name c | None \<Rightarrow> ''Other'')"

definition buildCategories :: "string list \<Rightarrow> Category list" where
  "buildCategories scanned =
     filter (\<lambda>c. cat_Scanners c \<noteq> [])
       (map (\<lambda>c. c\<lparr>cat_Scanners := filter (\<lambda>s. s \<in> set scanned) (cat_Scanners c)\<rparr>) Categories)"

definition buildSummary :: "string list \<Rightarrow> (string, SectionReport) gomap \<Rightarrow> Summary" where
  "buildSummary clusters sections =
     \<lparr>sm_ClusterCount = int (length clusters), sm_ScannerCount = int (length sections),
      sm_UniformCount = int (length (filter (\<lambda>(_, sec). sec_Uniform sec) sections)),
      sm_DivergentCount = int (length (filter (\<lambda>(_, sec). \<not> sec_Uniform sec) sections)),
      sm_TotalDivergences = sum_list (map (\<lambda>(_, sec). int (length (sec_Divergences sec))) sections),
      sm_CriticalCount = 0, sm_WarningCount = 0\<rparr>"

definition countFindings :: "Summary \<Rightarrow> Finding list \<Rightarrow> Summary" where
  "countFindings s findings =
     s\<lparr>sm_CriticalCount := int (length (filter (\<lambda>f. f_Severity f = SeverityCritical) findings)),
       sm_WarningCount := int (length (filter (\<lambda>f. f_Severity f = SeverityWarning) findings))\<rparr>"

definition DegradedByCluster :: "Report \<Rightarrow> (string, int) gomap" where
  "DegradedByCluster r = foldl (\<lambda>out d. map_incr (ss_Cluster d) out) [] (r_Degraded r)"

definition GroupFindingsByCluster :: "Finding list \<Rightarrow> (string, Finding list) gomap" where
  "GroupFindingsByCluster findings =
     foldl (\<lambda>out f. map_append (if f_Cluster f = '''' then ''fleet'' else f_Cluster f) f out) [] findings"

section \<open>Built sections\<close>

lemma find_SomeD: "find P xs = Some x \<Longrightarrow> x \<in> set xs \<and> P x"
  by (induction xs) (auto split: if_splits)

definition result_of :: "results \<Rightarrow> string \<Rightarrow> string \<Rightarrow> Result option" where
  "result_of results cluster name = map_of (lookup_default [] results cluster) name"

lemma scan_fold_payload:
  "map_of (snd (foldl (scan_one results name) acc cs)) c =
     (if c \<in> set cs then
        (case result_of results c name of
           Some res \<Rightarrow> if Blind res then map_of (snd acc) c else Some (res_Data res)
         | None \<Rightarrow> map_of (snd acc) c)
      else map_of (snd acc) c)"
proof (induction cs arbitrary: acc)
  case (Cons a cs)
  have step: "map_of (snd (scan_one results name acc a)) c =
      (if c = a then
        (case result_of results c name of
           Some res \<Rightarrow> if Blind res then map_of (snd acc) c else Some (res_Data res)
         | None \<Rightarrow> map_of (snd acc) c)
      else map_of (snd acc) c)" for c
    by (cases acc) (auto simp: scan_one_def result_of_def split: option.splits)
  show ?case by (auto simp: Cons.IH step split: option.splits)
qed simp

lemma scan_fold_degraded:
  "set (fst (foldl (scan_one results name) acc cs)) = set (fst acc) \<union>
     {\<lparr>ss_Cluster = c, ss_Scanner = name, ss_State = res_State res, ss_Reason = res_Reason res\<rparr> | c res.
        c \<in> set cs \<and> result_of results c name = Some res \<and> res_State res \<noteq> StateOK}"
proof (induction cs arbitrary: acc)
  case (Cons a cs)
  have step: "set (fst (scan_one results name acc a)) = set (fst acc) \<union>
     {\<lparr>ss_Cluster = a, ss_Scanner = name, ss_State = res_State res, ss_Reason = res_Reason res\<rparr> | res.
        result_of results a name = Some res \<and> res_State res \<noteq> StateOK}"
    by (cases acc) (auto simp: scan_one_def result_of_def split: option.splits)
  show ?case by (simp add: Cons.IH step) blast
qed simp

lemma compare_PerCluster [simp]: "sec_PerCluster (compare clusters pc) = pc"
  by (simp add: compare_def Let_def)

lemma section_fold:
  "set (fst (foldl (build_section clusters results) acc names)) = set (fst acc) \<union>
     {\<lparr>ss_Cluster = c, ss_Scanner = n, ss_State = res_State res, ss_Reason = res_Reason res\<rparr> | c n res.
        n \<in> set names \<and> c \<in> set clusters \<and> result_of results c n = Some res \<and> res_State res \<noteq> StateOK}"
  "map_option sec_PerCluster (map_of (snd (foldl (build_section clusters results) acc names)) s) =
     (if s \<in> set names then Some (snd (foldl (scan_one results s) ([], []) clusters))
      else map_option sec_PerCluster (map_of (snd acc) s))"
proof (induction names arbitrary: acc)
  case (Cons a names)
  have pay: "snd (foldl (scan_one results a) (d, p) cs) = snd (foldl (scan_one results a) ([], p) cs)" for d p cs
  proof (induction cs arbitrary: d p)
    case (Cons x cs)
    obtain d1 p1 d2 where e: "scan_one results a (d, p) x = (d1, p1)" "scan_one results a ([], p) x = (d2, p1)"
      by (cases "map_of (lookup_default [] results x) a") (auto simp: scan_one_def)
    show ?case using Cons.IH [of d1 p1] Cons.IH [of d2 p1] by (simp add: e)
  qed simp
  have stepd: "set (fst (build_section clusters results acc a)) = set (fst acc) \<union>
     {\<lparr>ss_Cluster = c, ss_Scanner = a, ss_State = res_State res, ss_Reason = res_Reason res\<rparr> | c res.
        c \<in> set clusters \<and> result_of results c a = Some res \<and> res_State res \<noteq> StateOK}" for acc
    using scan_fold_degraded [of results a "(fst acc, [])" clusters]
    by (cases acc) (simp add: build_section_def Let_def case_prod_beta)
  have steps: "map_option sec_PerCluster (map_of (snd (build_section clusters results acc a)) s) =
     (if s = a then Some (snd (foldl (scan_one results s) ([], []) clusters))
      else map_option sec_PerCluster (map_of (snd acc) s))" for s acc
    using pay [of "fst acc" "[]" clusters]
    by (cases acc) (auto simp: build_section_def Let_def case_prod_beta)
  { case 1 show ?case unfolding foldl_Cons Cons.IH(1) stepd by auto
  next case 2 show ?case by (simp add: Cons.IH(2) steps) }
qed simp_all

lemma section_fold_distinct:
  "distinct (map fst (snd acc)) \<Longrightarrow>
   distinct (map fst (snd (foldl (build_section clusters results) acc names)))"
proof (induction names arbitrary: acc)
  case (Cons a names)
  then have "distinct (map fst (snd (build_section clusters results acc a)))"
    by (simp add: build_section_def Let_def case_prod_beta distinct_update)
  then show ?case by (simp add: Cons.IH)
qed simp

lemma Names_iff: "name \<in> set (Names results) \<longleftrightarrow> (\<exists>(c, m) \<in> set results. name \<in> fst ` set m)"
  by (auto simp: Names_def)

lemma result_of_Names: "result_of results c n = Some res \<Longrightarrow> n \<in> set (Names results)"
proof -
  assume "result_of results c n = Some res"
  then obtain m where "(c, m) \<in> set results" "(n, res) \<in> set m"
    unfolding result_of_def lookup_default_def by (auto split: option.splits dest!: map_of_SomeD)
  then have "n \<in> fst ` set m" by force
  with \<open>(c, m) \<in> set results\<close> show ?thesis unfolding Names_iff by blast
qed

lemma buildSections_simps:
  "r_Clusters (buildSections clusters results r) = clusters"
  "r_Sections (buildSections clusters results r) = snd (foldl (build_section clusters results) ([], []) (Names results))"
  "r_Degraded (buildSections clusters results r) =
     sortScannerStatuses (fst (foldl (build_section clusters results) ([], []) (Names results)))"
  "r_runs (buildSections clusters results r) = Some (indexRuns (buildSections clusters results r))"
  by (simp_all add: buildSections_def Let_def case_prod_beta indexRuns_def)

lemma built_degraded:
  "set (r_Degraded (buildSections clusters results r)) =
     {\<lparr>ss_Cluster = c, ss_Scanner = n, ss_State = res_State res, ss_Reason = res_Reason res\<rparr> | c n res.
        c \<in> set clusters \<and> result_of results c n = Some res \<and> res_State res \<noteq> StateOK}"
  unfolding buildSections_simps sortScannerStatuses_def set_sort section_fold
  using result_of_Names by fastforce

lemma built_payload:
  "map_option sec_PerCluster (map_of (r_Sections (buildSections clusters results r)) s) =
     (if s \<in> set (Names results) then Some (snd (foldl (scan_one results s) ([], []) clusters)) else None)"
  unfolding buildSections_simps section_fold by simp

lemma built_payload_at:
  assumes "map_of (r_Sections (buildSections clusters results r)) s = Some sec"
  shows "map_of (sec_PerCluster sec) c =
     (case result_of results c s of
        Some res \<Rightarrow> if c \<in> set clusters \<and> \<not> Blind res then Some (res_Data res) else None
      | None \<Rightarrow> None)"
proof -
  from assms built_payload [of clusters results r s]
  have "sec_PerCluster sec = snd (foldl (scan_one results s) ([], []) clusters)"
    by (auto split: if_splits)
  then show ?thesis by (simp add: scan_fold_payload split: option.splits)
qed

lemma built_distinct: "distinct (map fst (r_Sections (buildSections clusters results r)))"
  unfolding buildSections_simps by (rule section_fold_distinct) simp

lemma built_runState:
  "runState (buildSections clusters results r) s c =
     (if c \<in> set clusters then map_option res_State (result_of results c s) else None)"
proof -
  let ?R = "buildSections clusters results r"
  have deg: "find (\<lambda>d. ss_Scanner d = s \<and> ss_Cluster d = c) (rev (r_Degraded ?R)) = Some d \<Longrightarrow>
      c \<in> set clusters \<and> (\<exists>res. result_of results c s = Some res \<and> res_State res \<noteq> StateOK \<and> ss_State d = res_State res)" for d
  proof -
    assume "find (\<lambda>d. ss_Scanner d = s \<and> ss_Cluster d = c) (rev (r_Degraded ?R)) = Some d"
    then have "d \<in> set (r_Degraded ?R)" "ss_Scanner d = s" "ss_Cluster d = c"
      by (auto dest: find_SomeD)
    then show ?thesis unfolding built_degraded by auto
  qed
  have nodeg: "find (\<lambda>d. ss_Scanner d = s \<and> ss_Cluster d = c) (rev (r_Degraded ?R)) = None \<Longrightarrow>
      c \<in> set clusters \<Longrightarrow> result_of results c s = Some res \<Longrightarrow> res_State res = StateOK" for res
    unfolding find_None_iff set_rev built_degraded by force
  have ok: "(\<exists>sec. (s, sec) \<in> set (r_Sections ?R) \<and> c \<in> fst ` set (sec_PerCluster sec)) \<longleftrightarrow>
      c \<in> set clusters \<and> (\<exists>res. result_of results c s = Some res \<and> \<not> Blind res)"
  proof
    assume "\<exists>sec. (s, sec) \<in> set (r_Sections ?R) \<and> c \<in> fst ` set (sec_PerCluster sec)"
    then obtain sec where sec: "map_of (r_Sections ?R) s = Some sec" "map_of (sec_PerCluster sec) c \<noteq> None"
      using built_distinct [of clusters results r] by (auto simp: map_of_eq_None_iff)
    then show "c \<in> set clusters \<and> (\<exists>res. result_of results c s = Some res \<and> \<not> Blind res)"
      unfolding built_payload_at [OF sec(1)] by (auto split: option.splits if_splits)
  next
    assume res: "c \<in> set clusters \<and> (\<exists>res. result_of results c s = Some res \<and> \<not> Blind res)"
    then have "s \<in> set (Names results)" using result_of_Names by blast
    then obtain sec where sec: "map_of (r_Sections ?R) s = Some sec"
      using built_payload [of clusters results r s] by auto
    with res have "map_of (sec_PerCluster sec) c \<noteq> None" unfolding built_payload_at [OF sec] by auto
    then have "c \<in> fst ` set (sec_PerCluster sec)" by (simp add: map_of_eq_None_iff)
    with sec show "\<exists>sec. (s, sec) \<in> set (r_Sections ?R) \<and> c \<in> fst ` set (sec_PerCluster sec)"
      by (auto dest: map_of_SomeD)
  qed
  show ?thesis
    unfolding runState_def buildSections_simps(4) option.case indexRuns_def index_degraded_map_of
      index_sections_map_of ok
    using deg nodeg by (auto split: option.splits simp: Blind_def state_defs)
qed

section \<open>Divergences\<close>

definition flat_number :: "flat \<Rightarrow> string \<Rightarrow> string \<Rightarrow> float64 option" where
  "flat_number flat field c = map_option (\<lambda>m. field_number m field) (map_of flat c)"

definition numbers_of :: "(string \<Rightarrow> float64 option) \<Rightarrow> string list \<Rightarrow> float64 set" where
  "numbers_of num cs = {n. \<exists>c \<in> set cs. num c = Some n}"

lemma numbers_of_simps:
  "numbers_of num [] = {}"
  "numbers_of num (cs @ [c]) = numbers_of num cs \<union> set_option (num c)"
  by (auto simp: numbers_of_def)

lemma finite_numbers_of [simp]: "finite (numbers_of num cs)"
proof -
  have "numbers_of num cs \<subseteq> (\<lambda>c. the (num c)) ` set cs" by (force simp: numbers_of_def)
  then show ?thesis by (rule finite_subset) simp
qed

lemma num_bounds_eq:
  "num_bounds cs nums =
     (if numbers_of (map_of nums) cs = {} then None
      else Some (Min (numbers_of (map_of nums) cs), Max (numbers_of (map_of nums) cs)))"
proof (induction cs rule: rev_induct)
  case Nil
  show ?case by (simp add: num_bounds_def numbers_of_simps)
next
  case (snoc c cs)
  have "num_bounds (cs @ [c]) nums =
     (case map_of nums c of
          None \<Rightarrow> num_bounds cs nums
        | Some n \<Rightarrow> (case num_bounds cs nums of None \<Rightarrow> Some (n, n) | Some (lo, hi) \<Rightarrow> Some (min lo n, max hi n)))"
    unfolding num_bounds_def by simp
  then show ?case unfolding snoc.IH numbers_of_simps
    by (cases "map_of nums c") (auto simp: min.commute max.commute)
qed

lemma annotate_fold:
  assumes "distinct cs"
  shows "map_of (foldl (\<lambda>values cluster.
                 case map_of nums cluster of
                   None \<Rightarrow> values
                 | Some n \<Rightarrow>
                     if n = hi then AList.update cluster (lookup_default '''' values cluster @ '' [highest]'') values
                     else if n = lo then AList.update cluster (lookup_default '''' values cluster @ '' [lowest]'') values
                     else values) values cs) c =
     (if c \<in> set cs \<and> map_of nums c = Some hi then Some (lookup_default '''' values c @ '' [highest]'')
      else if c \<in> set cs \<and> map_of nums c = Some lo then Some (lookup_default '''' values c @ '' [lowest]'')
      else map_of values c)"
  using assms
proof (induction cs rule: rev_induct)
  case (snoc x cs)
  then show ?case by (cases "map_of nums x") (auto simp: lookup_default_def)
qed simp

definition numeric_inv :: "flat \<Rightarrow> string \<Rightarrow> string list \<Rightarrow> numeric_scan \<Rightarrow> bool" where
  "numeric_inv flat field cs st \<longleftrightarrow>
     (\<forall>c. map_of (ns_nums st) c = (if c \<in> set cs then flat_number flat field c else None)) \<and>
     (\<forall>c. map_of (ns_values st) c = (if c \<in> set cs then Some (case flat_number flat field c of
         None \<Rightarrow> ''<missing>'' | Some n \<Rightarrow> formatNum n) else None)) \<and>
     (ns_ref st = None \<longleftrightarrow> numbers_of (flat_number flat field) cs = {}) \<and>
     set_option (ns_ref st) \<subseteq> numbers_of (flat_number flat field) cs \<and>
     (ns_uniform st \<longleftrightarrow> (\<forall>c \<in> set cs. flat_number flat field c \<noteq> None) \<and>
        numbers_of (flat_number flat field) cs \<subseteq> set_option (ns_ref st))"

lemma numeric_inv_step:
  assumes "numeric_inv flat field cs st"
  shows "numeric_inv flat field (cs @ [x]) (numeric_step flat field st x)"
proof (cases "map_of flat x")
  case None
  then have "flat_number flat field x = None" by (simp add: flat_number_def)
  with None assms show ?thesis by (simp add: numeric_inv_def numeric_step_def numbers_of_simps)
next
  case (Some m)
  then have x: "flat_number flat field x = Some (field_number m field)" by (simp add: flat_number_def)
  show ?thesis
  proof (cases "ns_ref st")
    case None
    with Some x assms show ?thesis
      by (auto simp: numeric_inv_def numeric_step_def numbers_of_simps Let_def)
  next
    case (Some r0)
    with \<open>map_of flat x = Some m\<close> x assms show ?thesis
      by (auto simp: numeric_inv_def numeric_step_def numbers_of_simps Let_def)
  qed
qed

lemma numeric_inv_fold:
  "numeric_inv flat field cs (foldl (numeric_step flat field)
     \<lparr>ns_values = [], ns_nums = [], ns_ref = None, ns_uniform = True\<rparr> cs)"
proof (induction cs rule: rev_induct)
  case Nil
  show ?case by (simp add: numeric_inv_def numbers_of_simps)
qed (simp add: numeric_inv_step)

lemma numbers_of_cong:
  "(\<And>c. c \<in> set cs \<Longrightarrow> num c = num' c) \<Longrightarrow> numbers_of num cs = numbers_of num' cs"
  by (auto simp: numbers_of_def)

lemma compareNumericField_values:
  assumes "distinct cs" "c \<in> set cs" "compareNumericField cs flat field = Some d"
  defines "N \<equiv> numbers_of (flat_number flat field) cs"
  shows "map_of (dv_Values d) c = Some (case flat_number flat field c of
       None \<Rightarrow> ''<missing>''
     | Some n \<Rightarrow> formatNum n @ (if Max N = Min N then '''' else if n = Max N then '' [highest]''
                                else if n = Min N then '' [lowest]'' else ''''))"
proof -
  define st where "st = foldl (numeric_step flat field)
     \<lparr>ns_values = [], ns_nums = [], ns_ref = None, ns_uniform = True\<rparr> cs"
  have inv: "numeric_inv flat field cs st" unfolding st_def by (rule numeric_inv_fold)
  then have nums: "map_of (ns_nums st) c = flat_number flat field c"
    and vals: "map_of (ns_values st) c = Some (case flat_number flat field c of
       None \<Rightarrow> ''<missing>'' | Some n \<Rightarrow> formatNum n)"
    using assms(2) by (simp_all add: numeric_inv_def)
  have N: "numbers_of (map_of (ns_nums st)) cs = N"
    unfolding N_def by (rule numbers_of_cong) (use inv in \<open>simp add: numeric_inv_def\<close>)
  have d: "dv_Values d = annotateNumeric cs (ns_nums st) (ns_values st)"
    using assms(3) by (auto simp: compareNumericField_def st_def [symmetric] Let_def split: if_splits)
  have "N \<noteq> {}" if "flat_number flat field c = Some n" for n
    using that assms(2) by (auto simp: N_def numbers_of_def)
  then show ?thesis
    unfolding d annotateNumeric_def num_bounds_eq N using assms(1,2) nums vals
    by (auto simp: annotate_fold lookup_default_def split: option.splits)
qed

lemma compareNumericField_None:
  "compareNumericField cs flat field = None \<longleftrightarrow>
     (\<forall>c \<in> set cs. flat_number flat field c \<noteq> None) \<and>
     (\<forall>a \<in> set cs. \<forall>b \<in> set cs. flat_number flat field a = flat_number flat field b)"
proof -
  define st where "st = foldl (numeric_step flat field)
     \<lparr>ns_values = [], ns_nums = [], ns_ref = None, ns_uniform = True\<rparr> cs"
  have inv: "numeric_inv flat field cs st" unfolding st_def by (rule numeric_inv_fold)
  have "compareNumericField cs flat field = None \<longleftrightarrow> ns_uniform st"
    by (simp add: compareNumericField_def st_def [symmetric] Let_def)
  also have "\<dots> \<longleftrightarrow> (\<forall>c \<in> set cs. flat_number flat field c \<noteq> None) \<and>
      numbers_of (flat_number flat field) cs \<subseteq> set_option (ns_ref st)"
    using inv by (simp add: numeric_inv_def)
  also have "\<dots> \<longleftrightarrow> (\<forall>c \<in> set cs. flat_number flat field c \<noteq> None) \<and>
      (\<forall>a \<in> set cs. \<forall>b \<in> set cs. flat_number flat field a = flat_number flat field b)"
  proof (cases "ns_ref st")
    case None
    with inv have "numbers_of (flat_number flat field) cs = {}" by (simp add: numeric_inv_def)
    then show ?thesis by (auto simp: numbers_of_def)
  next
    case (Some r0)
    with inv obtain c0 where "c0 \<in> set cs" "flat_number flat field c0 = Some r0"
      by (auto simp: numeric_inv_def numbers_of_def)
    moreover have "numbers_of (flat_number flat field) cs \<subseteq> set_option (ns_ref st) \<longleftrightarrow>
        (\<forall>c \<in> set cs. \<forall>n. flat_number flat field c = Some n \<longrightarrow> n = r0)"
      unfolding Some by (auto simp: numbers_of_def)
    ultimately show ?thesis by (metis not_None_eq option.inject)
  qed
  finally show ?thesis .
qed

lemma compareNumericField_None_iff:
  "compareNumericField cs flat field = None \<longleftrightarrow> (\<exists>n. \<forall>c \<in> set cs. flat_number flat field c = Some n)"
proof (cases cs)
  case Nil
  then show ?thesis by (simp add: compareNumericField_None)
next
  case (Cons a cs')
  show ?thesis unfolding compareNumericField_None
  proof (intro iffI conjI)
    assume *: "(\<forall>c \<in> set cs. flat_number flat field c \<noteq> None) \<and>
      (\<forall>a \<in> set cs. \<forall>b \<in> set cs. flat_number flat field a = flat_number flat field b)"
    with Cons obtain n where "flat_number flat field a = Some n" by auto
    moreover have "a \<in> set cs" using Cons by simp
    ultimately show "\<exists>n. \<forall>c \<in> set cs. flat_number flat field c = Some n" using * by metis
  qed auto
qed

text \<open>A numeric field of a section diverges exactly when some listed cluster has no payload or two
  clusters hold different numbers. The divergence then has an entry for every cluster: the cluster
  without a payload is marked missing, every other one shows its number, and the tags are on exactly
  the clusters that hold the largest and the smallest number of a field whose numbers differ.\<close>

lemma compareNumericField_spec:
  assumes "distinct cs"
  shows "(case compareNumericField cs flat field of
     None \<Rightarrow> (\<exists>n. \<forall>c \<in> set cs. flat_number flat field c = Some n)
   | Some d \<Rightarrow>
       \<not> (\<exists>n. \<forall>c \<in> set cs. flat_number flat field c = Some n) \<and> dv_Field d = field \<and>
       (let N = {n. \<exists>c \<in> set cs. flat_number flat field c = Some n}
        in \<forall>c \<in> set cs. map_of (dv_Values d) c = Some (case flat_number flat field c of
              None \<Rightarrow> ''<missing>''
            | Some n \<Rightarrow> formatNum n @ (if Max N = Min N then '''' else if n = Max N then '' [highest]''
                                       else if n = Min N then '' [lowest]'' else ''''))))"
proof (cases "compareNumericField cs flat field")
  case None
  from None [unfolded compareNumericField_None_iff] show ?thesis unfolding None option.case .
next
  case (Some d)
  have 1: "\<not> (\<exists>n. \<forall>c \<in> set cs. flat_number flat field c = Some n)"
    using Some compareNumericField_None_iff [of cs flat field] by simp
  have 2: "dv_Field d = field"
    using Some by (auto simp: compareNumericField_def Let_def split: if_splits)
  note 3 = compareNumericField_values [OF assms _ Some, unfolded numbers_of_def]
  show ?thesis
    unfolding Some option.case Let_def by (intro conjI ballI 1 2 3)
qed

lemma compareNumericField_spec_instance:
  "distinct [''a'', ''b''] \<and>
   (case compareNumericField [''a'', ''b''] [(''a'', [(''n'', JNum 1)]), (''b'', [(''n'', JNum 2)])] ''n'' of
      None \<Rightarrow> False
    | Some d \<Rightarrow> map_of (dv_Values d) ''a'' = Some ''1 [lowest]'' \<and> map_of (dv_Values d) ''b'' = Some ''2 [highest]'')"
proof -
  let ?cs = "[''a'', ''b'']" and ?flat = "[(''a'', [(''n'', JNum 1)]), (''b'', [(''n'', JNum 2)])]"
  have num: "flat_number ?flat ''n'' ''a'' = Some 1" "flat_number ?flat ''n'' ''b'' = Some 2" by code_simp+
  have N: "{n. \<exists>c \<in> set ?cs. flat_number ?flat ''n'' c = Some n} = {1, 2}"
    using num by auto
  have fmt: "formatNum 1 = ''1''" "formatNum 2 = ''2''" by code_simp+
  have dist: "distinct [''a'', ''b'']" by simp
  show ?thesis
    using compareNumericField_spec [OF dist, of ?flat "''n''"] num fmt dist
    unfolding N by (auto split: option.splits)
qed


lemma built_reading:
  "observe (buildSections clusters results r) s c f =
     (case (if c \<in> set clusters then result_of results c s else None) of
        None \<Rightarrow> (0, unobserved)
      | Some res \<Rightarrow>
          (case res_Data res of
             JObj m \<Rightarrow>
               (case map_of m f of
                  Some (JNum v) \<Rightarrow>
                    if res_State res = StateErrored then (0, unobserved)
                    else (v, if res_State res = StateDegraded then partial else observed)
                | _ \<Rightarrow> (0, unobserved))
           | _ \<Rightarrow> (0, unobserved)))"
proof -
  let ?R = "buildSections clusters results r"
  have sec: "result_of results c s = Some res \<Longrightarrow> \<exists>sec. map_of (r_Sections ?R) s = Some sec" for res
    using built_payload [of clusters results r s] result_of_Names [of results c s res] by auto
  show ?thesis
  proof (cases "if c \<in> set clusters then result_of results c s else None")
    case None
    then have "runState ?R s c = None" by (auto simp: built_runState split: if_splits)
    with None show ?thesis by (simp add: observe_def clusterView_def)
  next
    case (Some res)
    then have c: "c \<in> set clusters" and res: "result_of results c s = Some res" by (auto split: if_splits)
    from sec [OF res] obtain sec where sec: "map_of (r_Sections ?R) s = Some sec" by blast
    have run: "runState ?R s c = Some (res_State res)" using c res by (simp add: built_runState)
    have pay: "map_of (sec_PerCluster sec) c = (if Blind res then None else Some (res_Data res))"
      unfolding built_payload_at [OF sec] using c res by simp
    show ?thesis
      unfolding Some observe_def clusterView_def run option.case sec pay
      by (auto simp: Blind_def genericMap_def util_Float64_def split: json.splits option.splits)
  qed
qed

text \<open>C6. Reading a field from a built report gives the value the cluster's scanner measured, and
  says how far to trust it: partial when that run was degraded, observed when it was not. A run that
  errored, a scanner that never ran on the cluster, a cluster the report does not list and a payload
  without the number all read as unobserved, never as a measured zero.\<close>

theorem built_observe:
  "observe (buildSections clusters results r) s c f =
     (case (if c \<in> set clusters then result_of results c s else None) of
        None \<Rightarrow> (0, unobserved)
      | Some res \<Rightarrow>
          (case res_Data res of
             JObj m \<Rightarrow>
               (case map_of m f of
                  Some (JNum v) \<Rightarrow>
                    if res_State res = StateErrored then (0, unobserved)
                    else (v, if res_State res = StateDegraded then partial else observed)
                | _ \<Rightarrow> (0, unobserved))
           | _ \<Rightarrow> (0, unobserved)))"
  by (rule built_reading)

end
