(* ===== verification/Fleet_Score.thy ===== *)
theory Fleet_Score
  imports Score_Attribution Section_Compare
begin

text \<open>
  \<open>internal/report/score.go\<close> and \<open>cluster_score.go\<close>: the fleet score, the coverage behind it and the
  score of one cluster. A fleet score is 100 less the ledger's total, and is graded only when the
  scanner runs cover the fleet.
\<close>

section \<open>Coverage\<close>

definition minCoverageFraction :: float64 where
  "minCoverageFraction = f64 (4 / 5)"

definition expectedScanners :: "Report \<Rightarrow> string list" where
  "expectedScanners r = sort (remdups (map fst (r_Sections r) @ map ss_Scanner (r_Degraded r)))"

definition clusterRunCounts :: "Report \<Rightarrow> string \<Rightarrow> string list \<Rightarrow> int \<times> int" where
  "clusterRunCounts r cluster scanners =
     foldl (\<lambda>(obs, blind) name.
        case runState r name cluster of
          None \<Rightarrow> (obs, blind + 1)
        | Some st \<Rightarrow> if st = StateErrored then (obs, blind + 1)
                     else if st = StateOK \<or> st = StateUnavailable then (obs + 1, blind)
                     else (obs, blind)) (0, 0) scanners"

definition cover_cluster :: "Report \<Rightarrow> string list \<Rightarrow> FleetCoverage \<Rightarrow> string \<Rightarrow> FleetCoverage" where
  "cover_cluster r scanners c cluster =
     (case clusterRunCounts r cluster scanners of (obs, blind) \<Rightarrow>
        c\<lparr>c_ExpectedRuns := c_ExpectedRuns c + int (length scanners),
          c_ObservedRuns := c_ObservedRuns c + obs, c_BlindRuns := c_BlindRuns c + blind,
          c_BlindClusters := (if obs = 0 then c_BlindClusters c + 1 else c_BlindClusters c)\<rparr>)"

definition fleetCoverage :: "Report \<Rightarrow> FleetCoverage" where
  "fleetCoverage r =
     (let c = foldl (cover_cluster r (expectedScanners r))
                \<lparr>c_ExpectedRuns = 0, c_ObservedRuns = 0, c_BlindRuns = 0, c_BlindClusters = 0, c_Fraction = 0\<rparr>
                (r_Clusters r)
      in if c_ExpectedRuns c > 0
         then c\<lparr>c_Fraction := fdiv (of_int64 (c_ObservedRuns c)) (of_int64 (c_ExpectedRuns c))\<rparr> else c)"

definition clearsFloor :: "FleetCoverage \<Rightarrow> bool" where
  "clearsFloor c \<longleftrightarrow>
     \<not> c_BlindClusters c > 0 \<and> (c_ExpectedRuns c = 0 \<or> c_Fraction c \<ge> minCoverageFraction)"

definition partialRuns :: "FleetCoverage \<Rightarrow> int" where
  "partialRuns c = c_ExpectedRuns c - c_ObservedRuns c - c_BlindRuns c"

definition wasWere :: "int \<Rightarrow> string" where
  "wasWere n = (if n = 1 then ''was'' else ''were'')"

definition coverageSentence :: "FleetCoverage \<Rightarrow> int \<Rightarrow> string" where
  "coverageSentence c clusters =
     (let part = partialRuns c;
          finish = (\<lambda>s. s @ (if c_BlindClusters c > 0
              then '', and '' @ Itoa (c_BlindClusters c) @ '' of '' @ Itoa clusters @ '' cluster''
                     @ Plural clusters @ '' had no complete scanner run'' else '''') @ ''.'')
      in if c_ExpectedRuns c = 0 \<and> c_BlindClusters c = 0 then ''''
         else if c_ExpectedRuns c = 0
         then ''No scanner ran on '' @ Itoa (c_BlindClusters c) @ '' listed cluster'' @ Plural (c_BlindClusters c) @ ''.''
         else if c_BlindRuns c > 0 \<and> part > 0
         then finish (Itoa (c_BlindRuns c) @ '' of '' @ Itoa (c_ExpectedRuns c)
                @ '' scanner runs did not observe the fleet and '' @ Itoa part @ '' '' @ wasWere part @ '' partial'')
         else if c_BlindRuns c > 0
         then finish (Itoa (c_BlindRuns c) @ '' of '' @ Itoa (c_ExpectedRuns c)
                @ '' scanner runs did not observe the fleet'')
         else if part > 0
         then finish (Itoa part @ '' of '' @ Itoa (c_ExpectedRuns c) @ '' scanner runs '' @ wasWere part @ '' partial'')
         else '''')"

section \<open>The fleet score\<close>

definition scoreProvenance :: "Report \<Rightarrow> int \<times> int \<times> int" where
  "scoreProvenance r =
     (let live = filter (\<lambda>(_, sec). sec_PerCluster sec \<noteq> []) (r_Sections r);
          contributed = concat (map (\<lambda>(_, sec). map fst (sec_PerCluster sec)) live);
          sample = int (length (filter (\<lambda>c. c \<in> set contributed) (r_Clusters r)))
      in (sample, int (length live), int (length (r_Clusters r)) - sample))"

definition grade :: "int \<Rightarrow> string" where
  "grade score =
     (if score \<ge> 90 then ''A'' else if score \<ge> 80 then ''B'' else if score \<ge> 70 then ''C''
      else if score \<ge> 60 then ''D'' else ''F'')"

definition scoreBand :: "int \<Rightarrow> int \<Rightarrow> bool \<Rightarrow> string" where
  "scoreBand score clusters unobs =
     Itoa clusters @ '' cluster'' @ Plural clusters @
       (if score \<ge> 95 \<and> unobs then '', nothing flagged in what was observed.''
        else if score \<ge> 95 then '', no meaningful drift.''
        else if score \<ge> 85 then '', light drift worth a glance.''
        else if score \<ge> 70 then '', real drift to investigate.''
        else if score \<ge> 50 then '', significant drift across the fleet.''
        else '', fleet health is degraded.'')"

definition headline :: "FleetScore \<Rightarrow> int \<Rightarrow> string" where
  "headline fs clusters =
     (let cov = coverageSentence (s_Coverage fs) clusters
      in if \<not> s_Graded fs
         then ''Not enough data: '' @ cov @ '' Observed-only score '' @ Itoa (s_Score fs) @ ''.''
         else let band = scoreBand (s_Score fs) clusters (cov \<noteq> '''')
              in if cov = '''' then band else band @ '' '' @ cov)"

definition score_of_total :: "float64 \<Rightarrow> int" where
  "score_of_total t = math_Round (max (fsub 100 t) 0)"

definition scoreWithAttribution :: "Report \<Rightarrow> FleetScore \<times> ScoreAttribution" where
  "scoreWithAttribution r =
     (let a = computeScoreAttribution r;
          score = score_of_total (a_Total a);
          (sample, dims, excluded) = scoreProvenance r;
          cov = fleetCoverage r;
          graded = clearsFloor cov;
          fs = \<lparr>s_Score = score, s_Grade = (if graded then grade score else ''''), s_Graded = graded,
                s_Coverage = cov, s_Headline = '''', s_Drivers = Drivers a, s_SampleSize = sample,
                s_Dimensions = dims, s_ExcludedClusters = excluded\<rparr>
      in (fs\<lparr>s_Headline := headline fs (int (length (r_Clusters r)))\<rparr>, a))"

definition Rescore :: "Report \<Rightarrow> Report" where
  "Rescore r =
     (let r' = r\<lparr>r_Summary := countFindings (r_Summary r) (r_Findings r)\<rparr>;
          (fs, a) = scoreWithAttribution r'
      in r'\<lparr>r_FleetScore := fs, r_ScoreAttribution := Some a\<rparr>)"

section \<open>The score of one cluster\<close>

record ClusterScore =
  cs_Cluster :: string
  cs_Score :: int
  cs_Grade :: string
  cs_Headline :: string

definition clusterScorePerCritical :: float64 where "clusterScorePerCritical = 8"
definition clusterScorePerWarning :: float64 where "clusterScorePerWarning = 2"
definition clusterScoreCriticalCap :: float64 where "clusterScoreCriticalCap = 40"
definition clusterScoreWarningCap :: float64 where "clusterScoreWarningCap = 24"
definition clusterScoreCritStatus :: float64 where "clusterScoreCritStatus = 20"
definition clusterScoreDegradedStatus :: float64 where "clusterScoreDegradedStatus = 10"
definition clusterScoreBusyStatus :: float64 where "clusterScoreBusyStatus = 3"
definition clusterScoreNodeFracMax :: float64 where "clusterScoreNodeFracMax = 15"
definition clusterScoreHighUtil :: float64 where "clusterScoreHighUtil = 5"
definition clusterScoreHighUtilGate :: float64 where "clusterScoreHighUtilGate = 85"

lemmas cluster_weight_defs = clusterScorePerCritical_def clusterScorePerWarning_def
  clusterScoreCriticalCap_def clusterScoreWarningCap_def clusterScoreCritStatus_def
  clusterScoreDegradedStatus_def clusterScoreBusyStatus_def clusterScoreNodeFracMax_def
  clusterScoreHighUtil_def clusterScoreHighUtilGate_def

definition count_severity :: "string \<Rightarrow> (string, int) gomap \<Rightarrow> (string, int) gomap" where
  "count_severity severity counts =
     (if severity \<in> {SeverityCritical, SeverityWarning, SeverityInfo} then map_incr severity counts
      else counts)"

definition clusterSeverityCounts :: "string \<Rightarrow> Finding list \<Rightarrow> (string, int) gomap" where
  "clusterSeverityCounts cluster findings =
     foldl (\<lambda>counts f.
        foldl (\<lambda>counts m. if m_Cluster m = cluster then count_severity (m_Severity m) counts else counts)
          (if f_Cluster f = cluster then count_severity (f_Severity f) counts else counts) (f_Marks f))
       [(SeverityCritical, 0), (SeverityWarning, 0), (SeverityInfo, 0)] findings"

definition ClusterCharges :: "string \<Rightarrow> Finding list \<Rightarrow> int \<times> int" where
  "ClusterCharges cluster findings =
     (let counts = clusterSeverityCounts cluster findings
      in (lookup_default 0 counts SeverityCritical, lookup_default 0 counts SeverityWarning))"

definition clusterHeadline :: "int \<Rightarrow> int \<Rightarrow> int \<Rightarrow> string" where
  "clusterHeadline score critical warning =
     (if score \<ge> 95 then ''Healthy. No meaningful drift.''
      else if score \<ge> 85 then ''Mostly healthy. '' @ Itoa warning @ '' warning'' @ Plural warning @ '' to triage.''
      else if score \<ge> 70 then ''Drift building. '' @ Itoa critical @ '' critical, '' @ Itoa warning @ '' warning.''
      else if score \<ge> 50 then ''Significant drift. '' @ Itoa critical @ '' critical, '' @ Itoa warning @ '' warning.''
      else ''Degraded. '' @ Itoa critical @ '' critical finding'' @ Plural critical @ ''.'')"

definition status_cost :: "string \<Rightarrow> float64 option" where
  "status_cost status =
     (if status = ''critical'' then Some clusterScoreCritStatus
      else if status \<in> {''degraded'', ''strained'', ''unknown''} then Some clusterScoreDegradedStatus
      else if status = ''busy'' then Some clusterScoreBusyStatus else None)"

definition fadd_opt :: "float64 \<Rightarrow> float64 option \<Rightarrow> float64" where
  "fadd_opt x y = (case y of None \<Rightarrow> x | Some v \<Rightarrow> fadd x v)"

definition cluster_cost :: "ClusterHealth \<Rightarrow> int \<Rightarrow> int \<Rightarrow> float64" where
  "cluster_cost h crit warn =
     (let c1 = fadd 0 (min (fmul (of_int64 crit) clusterScorePerCritical) clusterScoreCriticalCap);
          c2 = fadd c1 (min (fmul (of_int64 warn) clusterScorePerWarning) clusterScoreWarningCap);
          c3 = fadd_opt c2 (status_cost (h_Status h));
          unhealthy = h_NodeCount h - h_HealthyNodes h;
          c4 = (if h_NodeCount h > 0 \<and> unhealthy > 0
                then fadd c3 (fmul clusterScoreNodeFracMax
                       (fdiv (of_int64 unhealthy) (of_int64 (h_NodeCount h)))) else c3);
          c5 = (if h_AvgCPU h \<ge> clusterScoreHighUtilGate then fadd c4 clusterScoreHighUtil else c4)
      in if h_AvgMemory h \<ge> clusterScoreHighUtilGate then fadd c5 clusterScoreHighUtil else c5)"

definition ComputeClusterScore :: "ClusterHealth \<Rightarrow> Finding list \<Rightarrow> ClusterScore" where
  "ComputeClusterScore h findings =
     (let (crit, warn) = ClusterCharges (h_Name h) findings;
          score = math_Round (max 0 (fsub 100 (cluster_cost h crit warn)))
      in \<lparr>cs_Cluster = h_Name h, cs_Score = score, cs_Grade = grade score,
          cs_Headline = (if h_Status h = ''unknown''
             then ''Unknown. '' @ Itoa (h_BlindScanners h) @ '' scanner run'' @ Plural (h_BlindScanners h)
                    @ '' did not observe this cluster.''
             else clusterHeadline score crit warn)\<rparr>)"

definition ComputeClusterScores :: "Report \<Rightarrow> ClusterScore list" where
  "ComputeClusterScores r = map (\<lambda>h. ComputeClusterScore h (r_Findings r)) (r_ClusterHealths r)"

section \<open>Laws of the coverage\<close>

definition run_observed :: "Report \<Rightarrow> string \<Rightarrow> string \<Rightarrow> bool" where
  "run_observed r cluster name \<longleftrightarrow> runState r name cluster \<in> {Some StateOK, Some StateUnavailable}"

definition run_blind :: "Report \<Rightarrow> string \<Rightarrow> string \<Rightarrow> bool" where
  "run_blind r cluster name \<longleftrightarrow> runState r name cluster \<in> {None, Some StateErrored}"

lemma clusterRunCounts_eq:
  "clusterRunCounts r cluster scanners =
     (int (length (filter (run_observed r cluster) scanners)), int (length (filter (run_blind r cluster) scanners)))"
proof -
  have ne: "StateErrored \<noteq> StateOK" "StateErrored \<noteq> StateUnavailable" by (simp_all add: state_defs)
  have "foldl (\<lambda>(obs, blind) name.
        case runState r name cluster of
          None \<Rightarrow> (obs, blind + 1)
        | Some st \<Rightarrow> if st = StateErrored then (obs, blind + 1)
                     else if st = StateOK \<or> st = StateUnavailable then (obs + 1, blind)
                     else (obs, blind)) (a, b) scanners =
     (a + int (length (filter (run_observed r cluster) scanners)), b + int (length (filter (run_blind r cluster) scanners)))" for a b
  proof (induction scanners arbitrary: a b)
    case (Cons n scanners)
    show ?case using ne
      by (cases "runState r n cluster") (auto simp: Cons.IH run_observed_def run_blind_def)
  qed simp
  from this [of 0 0] show ?thesis unfolding clusterRunCounts_def by simp
qed

definition coverage_spec :: "Report \<Rightarrow> string list \<Rightarrow> string list \<Rightarrow> FleetCoverage" where
  "coverage_spec r scanners cs =
     \<lparr>c_ExpectedRuns = int (length cs * length scanners),
      c_ObservedRuns = int (length (filter (\<lambda>(c, n). run_observed r c n) (List.product cs scanners))),
      c_BlindRuns = int (length (filter (\<lambda>(c, n). run_blind r c n) (List.product cs scanners))),
      c_BlindClusters = int (length (filter (\<lambda>c. \<not> list_ex (run_observed r c) scanners) cs)),
      c_Fraction = 0\<rparr>"

lemma filter_product_snoc:
  "length (filter (\<lambda>(c, n). P c n) (List.product (cs @ [x]) ns)) =
   length (filter (\<lambda>(c, n). P c n) (List.product cs ns)) + length (filter (P x) ns)"
proof -
  have "List.product (cs @ [x]) ns = List.product cs ns @ map (Pair x) ns"
    by (induction cs) simp_all
  then show ?thesis by (simp add: filter_map o_def)
qed

lemma cover_fold:
  "foldl (cover_cluster r scanners)
     \<lparr>c_ExpectedRuns = 0, c_ObservedRuns = 0, c_BlindRuns = 0, c_BlindClusters = 0, c_Fraction = 0\<rparr> cs
   = coverage_spec r scanners cs"
proof (induction cs rule: rev_induct)
  case Nil
  show ?case by (simp add: coverage_spec_def)
next
  case (snoc x cs)
  have none: "filter (run_observed r x) scanners = [] \<longleftrightarrow> \<not> list_ex (run_observed r x) scanners"
    by (auto simp: list_ex_iff filter_empty_conv)
  show ?case
    unfolding foldl_append foldl_Cons foldl_Nil snoc.IH
    by (simp add: cover_cluster_def clusterRunCounts_eq coverage_spec_def filter_product_snoc none)
qed

lemma fleetCoverage_eq:
  "fleetCoverage r = (let c = coverage_spec r (expectedScanners r) (r_Clusters r)
     in if c_ExpectedRuns c > 0
        then c\<lparr>c_Fraction := fdiv (of_int64 (c_ObservedRuns c)) (of_int64 (c_ExpectedRuns c))\<rparr> else c)"
  unfolding fleetCoverage_def cover_fold ..

lemma clearsFloor_iff:
  fixes r :: Report
  defines "scanners \<equiv> expectedScanners r"
  defines "runs \<equiv> List.product (r_Clusters r) scanners"
  assumes small: "length runs * 5 < 2 ^ 52"
  shows "clearsFloor (fleetCoverage r) \<longleftrightarrow>
    (\<forall>c \<in> set (r_Clusters r). \<exists>n \<in> set scanners. run_observed r c n) \<and>
    4 * length runs \<le> 5 * length (filter (\<lambda>(c, n). run_observed r c n) runs)"
proof -
  define t where "t = int (length runs)"
  define p where "p = int (length (filter (\<lambda>(c, n). run_observed r c n) runs))"
  have pt: "0 \<le> p" "p \<le> t" by (simp_all add: p_def t_def)
  have spec: "c_ExpectedRuns (fleetCoverage r) = t" "c_ObservedRuns (fleetCoverage r) = p"
    "c_BlindClusters (fleetCoverage r) = int (length (filter (\<lambda>c. \<not> list_ex (run_observed r c) scanners) (r_Clusters r)))"
    "0 < t \<Longrightarrow> c_Fraction (fleetCoverage r) = fdiv (of_int64 p) (of_int64 t)"
    unfolding fleetCoverage_eq Let_def scanners_def [symmetric]
    by (simp_all add: coverage_spec_def t_def p_def runs_def)
  have "int (length runs * 5) < int (2 ^ 52)" using small by (simp only: of_nat_less_iff)
  then have t5: "t * 5 < 2 ^ 52" by (simp add: t_def)
  have exact: "of_int64 p = of_int p" "of_int64 t = of_int t"
    unfolding of_int64_def using pt t5 by (simp_all add: f64_of_int)
  have blind: "\<not> c_BlindClusters (fleetCoverage r) > 0 \<longleftrightarrow>
      (\<forall>c \<in> set (r_Clusters r). \<exists>n \<in> set scanners. run_observed r c n)"
    unfolding spec by (auto simp: filter_empty_conv list_ex_iff)
  show ?thesis
  proof (cases "t = 0")
    case True
    then show ?thesis unfolding clearsFloor_def blind spec(1) using pt by (simp add: t_def p_def)
  next
    case False
    with pt have t0: "0 < t" by linarith
    have "minCoverageFraction \<le> c_Fraction (fleetCoverage r) \<longleftrightarrow> 4 * t \<le> p * 5"
      unfolding spec(4) [OF t0] minCoverageFraction_def fdiv_def exact
      using f64_frac_le_iff [of p t 4 5] pt t0 t5 by simp
    with False show ?thesis unfolding clearsFloor_def blind spec(1) by (auto simp: t_def p_def)
  qed
qed



section \<open>Laws of the scores\<close>

lemma math_Round_bounds: "0 \<le> x \<Longrightarrow> x \<le> of_int n \<Longrightarrow> 0 \<le> math_Round x \<and> math_Round x \<le> n"
proof -
  assume x: "0 \<le> x" "x \<le> of_int n"
  then have "\<lfloor>x + 1 / 2\<rfloor> \<le> \<lfloor>of_int n + 1 / (2::rat)\<rfloor>" by (intro floor_mono) simp
  moreover have "\<lfloor>of_int n + 1 / (2::rat)\<rfloor> = n" by linarith
  moreover have "0 \<le> \<lfloor>x + 1 / 2\<rfloor>" using x by linarith
  ultimately show ?thesis using x by (simp add: math_Round_def)
qed

lemma math_Round_mono: "0 \<le> x \<Longrightarrow> x \<le> y \<Longrightarrow> math_Round x \<le> math_Round y"
  by (simp add: math_Round_def floor_mono)

lemma math_Round_of_int [simp]: "0 \<le> n \<Longrightarrow> math_Round (of_int n) = n"
proof -
  assume "0 \<le> n"
  moreover have "\<lfloor>of_int n + 1 / (2::rat)\<rfloor> = n" by linarith
  ultimately show ?thesis by (simp add: math_Round_def)
qed

lemma score_round:
  assumes "0 \<le> cost"
  shows "0 \<le> math_Round (max (fsub 100 cost) 0)" "math_Round (max (fsub 100 cost) 0) \<le> 100"
proof -
  have "fsub 100 cost \<le> 100"
    unfolding fsub_def using assms is_f64_of_int [of 100] by (intro f64_le_f64) auto
  then show "0 \<le> math_Round (max (fsub 100 cost) 0)" "math_Round (max (fsub 100 cost) 0) \<le> 100"
    using math_Round_bounds [of "max (fsub 100 cost) 0" 100] by auto
qed

lemma foldl_fadd_nonneg:
  "0 \<le> z \<Longrightarrow> (\<And>t. t \<in> set ts \<Longrightarrow> 0 \<le> g t) \<Longrightarrow> 0 \<le> foldl (\<lambda>s t. fadd s (g t)) z ts"
  by (induction ts arbitrary: z) (simp_all add: fadd_def f64_nonneg)

lemma addTerm_total [simp]: "a_Total (addTerm a tm reason cnt limit es) = a_Total a"
  by (simp add: addTerm_def Let_def)

lemma addSeverityTerm_total [simp]: "a_Total (addSeverityTerm fs a sev) = a_Total a"
  by (simp add: addSeverityTerm_def Let_def)

lemma addFindingTerms_total [simp]: "a_Total (addFindingTerms fs a) = a_Total a"
proof -
  have "a_Total (foldl (addSeverityTerm fs) a sevs) = a_Total a" for sevs
    by (induction sevs arbitrary: a) simp_all
  then show ?thesis by (simp add: addFindingTerms_def)
qed

lemma ledger_total_start:
  "a_Total (addWorstNodeTerm hs (addVersionSkewTerm hs (addClusterHealthTerms hs (addFindingTerms fs ScoreAttribution0)))) = 0"
  by (simp add: addWorstNodeTerm_def addVersionSkewTerm_def addClusterHealthTerms_def Let_def
      ScoreAttribution0_def split: prod.splits)

lemma total_eq:
  "a_Total (computeScoreAttribution r) = foldl (\<lambda>s t. fadd s (t_Cost t)) 0 (a_Terms (computeScoreAttribution r))"
  unfolding computeScoreAttribution_def Let_def by (simp add: ledger_total_start)

lemma total_nonneg: "0 \<le> a_Total (computeScoreAttribution r)"
  unfolding total_eq using computeScoreAttribution_ok [of r]
  by (intro foldl_fadd_nonneg) (auto simp: ledger_ok_def term_ok_def intro: less_imp_le)

lemma scoreWithAttribution_simps:
  "s_Score (fst (scoreWithAttribution r)) = score_of_total (a_Total (computeScoreAttribution r))"
  "s_Graded (fst (scoreWithAttribution r)) = clearsFloor (fleetCoverage r)"
  "s_Grade (fst (scoreWithAttribution r)) =
     (if clearsFloor (fleetCoverage r) then grade (score_of_total (a_Total (computeScoreAttribution r))) else '''')"
  "s_Drivers (fst (scoreWithAttribution r)) = Drivers (computeScoreAttribution r)"
  "s_Coverage (fst (scoreWithAttribution r)) = fleetCoverage r"
  "snd (scoreWithAttribution r) = computeScoreAttribution r"
  by (simp_all add: scoreWithAttribution_def Let_def split: prod.splits)

section \<open>Properties of the fleet score\<close>

text \<open>The fleet score of any report lies between 0 and 100, it carries a letter grade exactly when it
  is graded, and the grade is the band the score falls in.\<close>

lemma fleet_score_range:
  "let fs = fst (scoreWithAttribution r)
   in 0 \<le> s_Score fs \<and> s_Score fs \<le> 100 \<and>
      (s_Graded fs = (s_Grade fs \<noteq> '''')) \<and>
      (s_Grade fs = ''A'') = (s_Graded fs \<and> 90 \<le> s_Score fs) \<and>
      (s_Grade fs = ''F'') = (s_Graded fs \<and> s_Score fs < 60)"
  unfolding Let_def scoreWithAttribution_simps
  using score_round [OF total_nonneg [of r]] by (simp add: score_of_total_def grade_def)

text \<open>A fleet score is graded exactly when every listed cluster has a scanner run that observed it
  and at least four fifths of the expected runs were observed. The comparison is made on a rounded
  quotient and still decides the exact integer inequality.\<close>

lemma graded_iff_covered:
  assumes "length (r_Clusters r) * length (expectedScanners r) * 5 < 2 ^ 52"
  shows "s_Graded (fst (scoreWithAttribution r)) \<longleftrightarrow>
    list_all (\<lambda>c. list_ex (\<lambda>n. runState r n c \<in> {Some StateOK, Some StateUnavailable}) (expectedScanners r)) (r_Clusters r) \<and>
    4 * (length (r_Clusters r) * length (expectedScanners r)) \<le>
      5 * length (filter (\<lambda>(c, n). runState r n c \<in> {Some StateOK, Some StateUnavailable})
            (List.product (r_Clusters r) (expectedScanners r)))"
  unfolding scoreWithAttribution_simps
  using assms clearsFloor_iff [of r, unfolded run_observed_def]
  by (simp add: list_all_iff list_ex_iff)

lemma graded_iff_covered_instance:
  "let r = Report0\<lparr>r_Clusters := [''a'', ''b''],
        r_Sections := [(''version'', \<lparr>sec_Uniform = True, sec_PerCluster = [(''a'', JNull), (''b'', JNull)],
                                      sec_Divergences = []\<rparr>)]\<rparr>
   in length (r_Clusters r) * length (expectedScanners r) * 5 < 2 ^ 52 \<and>
      s_Graded (fst (scoreWithAttribution r))"
proof -
  let ?r = "Report0\<lparr>r_Clusters := [''a'', ''b''],
        r_Sections := [(''version'', \<lparr>sec_Uniform = True, sec_PerCluster = [(''a'', JNull), (''b'', JNull)],
                                      sec_Divergences = []\<rparr>)]\<rparr>"
  have c: "r_Clusters ?r = [''a'', ''b'']" and n: "expectedScanners ?r = [''version'']"
    by (simp add: Report0_def) code_simp
  have s: "runState ?r ''version'' ''a'' = Some StateOK" "runState ?r ''version'' ''b'' = Some StateOK" by code_simp+
  have small: "length (r_Clusters ?r) * length (expectedScanners ?r) * 5 < 2 ^ 52" unfolding c n by simp
  have "s_Graded (fst (scoreWithAttribution ?r))"
    using graded_iff_covered [OF small] unfolding c n by (simp add: s)
  with small show ?thesis by (simp add: Let_def)
qed



section \<open>Findings alone\<close>

text \<open>Cluster health that charges nothing: no bad status, no version skew, no unhealthy node.\<close>

definition quiet_health :: "ClusterHealth list \<Rightarrow> bool" where
  "quiet_health hs \<longleftrightarrow>
     list_all (\<lambda>h. h_Status h \<notin> {''critical'', ''degraded'', ''strained''} \<and> h_NodeCount h \<le> h_HealthyNodes h) hs \<and>
     versionSkewSeverity (filter (\<lambda>v. v \<noteq> '''') (map h_KubernetesVersion hs)) = SeverityInfo"

lemma addTerm_empty [simp]: "addTerm a tm reason cnt limit [] = a"
  by (simp add: addTerm_def fsum_def)

lemma quiet_worst_node: "list_all (\<lambda>h. h_NodeCount h \<le> h_HealthyNodes h) hs \<Longrightarrow> foldl worse_node p hs = p"
  by (induction hs) (auto simp: worse_node_def)

lemma severity_neq: "SeverityInfo \<noteq> SeverityCritical" "SeverityInfo \<noteq> SeverityWarning" "SeverityWarning \<noteq> SeverityCritical"
  by (simp_all add: SeverityInfo_def SeverityWarning_def SeverityCritical_def)

lemma quiet_ledger:
  assumes "quiet_health (r_ClusterHealths r)"
  shows "a_Terms (computeScoreAttribution r) = a_Terms (addFindingTerms (r_Findings r) ScoreAttribution0)"
proof -
  let ?hs = "r_ClusterHealths r"
  have st: "status_entries [''critical''] x ?hs = []" "status_entries [''degraded'', ''strained''] x ?hs = []" for x
    using assms by (auto simp: quiet_health_def status_entries_def filter_empty_conv list_all_iff)
  have "addClusterHealthTerms ?hs a = a" for a
    unfolding addClusterHealthTerms_def Let_def st by simp
  moreover have "addVersionSkewTerm ?hs a = a" for a
    using assms severity_neq by (simp add: addVersionSkewTerm_def quiet_health_def Let_def)
  moreover have "worst_node ?hs = (0, '''')"
    unfolding worst_node_def using assms by (intro quiet_worst_node) (auto simp: quiet_health_def list_all_iff)
  then have "addWorstNodeTerm ?hs a = a" for a by (simp add: addWorstNodeTerm_def)
  ultimately show ?thesis by (simp add: computeScoreAttribution_def Let_def)
qed

lemma quarter_exact: "\<bar>m\<bar> < 2 ^ 53 \<Longrightarrow> f64 (of_int m / 4) = of_int m / 4"
  using f64_exact [of m "- 2"] emin_le_m2 by (simp add: power_int_minus divide_simps)

lemma quarters_sum:
  assumes "\<forall>m \<in> set ms. 0 \<le> m" "0 \<le> z" "z + sum_list ms < 2 ^ 53"
  shows "foldl fadd (of_int z / 4) (map (\<lambda>m. of_int m / 4) ms) = of_int (z + sum_list ms) / 4"
  using assms
proof (induction ms arbitrary: z)
  case (Cons m ms)
  have "0 \<le> sum_list ms" using Cons.prems by (intro sum_list_nonneg) auto
  then have "fadd (of_int z / 4) (of_int m / 4) = of_int (z + m) / 4"
    using quarter_exact [of "z + m"] Cons.prems by (simp add: fadd_def add_divide_distrib)
  then have "foldl fadd (of_int z / 4) (map (\<lambda>m. of_int m / 4) (m # ms)) =
      foldl fadd (of_int (z + m) / 4) (map (\<lambda>m. of_int m / 4) ms)"
    by (simp only: list.map foldl_Cons)
  also have "\<dots> = of_int (z + m + sum_list ms) / 4" using Cons.prems by (intro Cons.IH) auto
  finally show ?case by (simp add: add.assoc)
qed simp

lemma sum_list_filter_pos: "\<forall>m \<in> set ms. 0 \<le> m \<Longrightarrow> sum_list (filter (\<lambda>m. 0 < m) ms) = sum_list (ms :: int list)"
  by (induction ms) auto

definition finding_cost :: "Finding list \<Rightarrow> int list" where
  "finding_cost fs =
     [min (severity_count SeverityCritical fs * 24) 144, min (severity_count SeverityWarning fs * 6) 96,
      min (severity_count SeverityInfo fs) 20]"

lemma finding_total:
  assumes "length fs \<le> 2 ^ 48"
  shows "foldl (\<lambda>s t. fadd s (t_Cost t)) 0 (a_Terms (addFindingTerms fs ScoreAttribution0)) = of_int (sum_list (finding_cost fs)) / 4"
proof -
  let ?c = "severity_count SeverityCritical fs" and ?w = "severity_count SeverityWarning fs"
  let ?i = "severity_count SeverityInfo fs"
  have "map t_Cost (a_Terms (addFindingTerms fs ScoreAttribution0)) =
     map (snd \<circ> snd \<circ> snd) (map (\<lambda>t. (t_Term t, t_Count t, t_Raw t, t_Cost t)) (a_Terms (addFindingTerms fs ScoreAttribution0)))"
    by simp
  also have "\<dots> = map (snd \<circ> snd \<circ> snd) (filter (\<lambda>(_, n, _). 0 < n)
          [(TermCriticalFindings, ?c, rat_of_int ?c * 6, min (of_int ?c * 6) 36),
           (TermWarningFindings, ?w, rat_of_int ?w * (3 / 2), min (of_int ?w * (3 / 2)) 24),
           (TermInfoFindings, ?i, rat_of_int ?i * (1 / 4), min (of_int ?i * (1 / 4)) 5)])"
    unfolding finding_terms_exact [OF assms] Let_def ..
  also have "\<dots> = map (\<lambda>m. of_int m / 4) (filter (\<lambda>m. 0 < m) (finding_cost fs))"
    by (auto simp: finding_cost_def min_def)
  finally have costs: "map t_Cost (a_Terms (addFindingTerms fs ScoreAttribution0)) =
      map (\<lambda>m. of_int m / 4) (filter (\<lambda>m. 0 < m) (finding_cost fs))" .
  have sum: "sum_list (filter (\<lambda>m. 0 < m) (finding_cost fs)) = sum_list (finding_cost fs)"
    by (rule sum_list_filter_pos) (simp add: finding_cost_def)
  have "sum_list (finding_cost fs) < 2 ^ 53" by (simp add: finding_cost_def)
  then have "foldl fadd (of_int 0 / 4) (map t_Cost (a_Terms (addFindingTerms fs ScoreAttribution0))) =
      of_int (0 + sum_list (filter (\<lambda>m. 0 < m) (finding_cost fs))) / 4"
    unfolding costs by (intro quarters_sum) (auto simp: sum)
  then show ?thesis unfolding sum by (simp add: foldl_map)
qed



text \<open>When no cluster's health costs anything, the score is 100 less the exact capped price of the
  findings, rounded: volume alone never takes it below 35, and a fleet with nothing but warnings,
  however many, scores at least 76.\<close>

lemma findings_only_score:
  assumes "length (r_Findings r) \<le> 2 ^ 48" "quiet_health (r_ClusterHealths r)"
  shows "let c = severity_count SeverityCritical (r_Findings r);
             w = severity_count SeverityWarning (r_Findings r);
             i = severity_count SeverityInfo (r_Findings r);
             score = s_Score (fst (scoreWithAttribution r))
         in score = math_Round (100 - (min (6 * of_int c) 36 + min (3 / 2 * of_int w) 24 + min (1 / 4 * of_int i) 5))
            \<and> 35 \<le> score \<and> (c > 0 \<or> i > 0 \<or> 76 \<le> score)"
proof -
  define c w i where "c = severity_count SeverityCritical (r_Findings r)"
    and "w = severity_count SeverityWarning (r_Findings r)"
    and "i = severity_count SeverityInfo (r_Findings r)"
  have n: "0 \<le> c" "0 \<le> w" "0 \<le> i" by (simp_all add: c_def w_def i_def)
  define q where "q = sum_list (finding_cost (r_Findings r))"
  have q: "q = min (c * 24) 144 + (min (w * 6) 96 + min i 20)"
    by (simp add: q_def finding_cost_def c_def w_def i_def)
  have qb: "0 \<le> q" "q \<le> 260" using n by (simp_all add: q)
  have total: "a_Total (computeScoreAttribution r) = of_int q / 4"
    unfolding total_eq quiet_ledger [OF assms(2)] q_def by (rule finding_total [OF assms(1)])
  have sub: "fsub 100 (of_int q / 4) = of_int (400 - q) / 4"
    using quarter_exact [of "400 - q"] qb by (simp add: fsub_def diff_divide_distrib)
  have price: "(of_int q / 4 :: rat) = min (6 * of_int c) 36 + min (3 / 2 * of_int w) 24 + min (1 / 4 * of_int i) 5"
    unfolding q by (auto simp: min_def)
  have score: "s_Score (fst (scoreWithAttribution r)) = math_Round (of_int (400 - q) / 4)"
    unfolding scoreWithAttribution_simps score_of_total_def total sub using qb by (simp add: max_def)
  have "35 \<le> math_Round (of_int (400 - q) / 4)"
    using math_Round_mono [of "of_int 35" "of_int (400 - q) / 4"] qb by (simp add: math_Round_of_int [of 35, simplified])
  moreover have "76 \<le> math_Round (of_int (400 - q) / 4)" if "\<not> c > 0" "\<not> i > 0"
    using math_Round_mono [of "of_int 76" "of_int (400 - q) / 4"] qb that n q
    by (simp add: math_Round_of_int [of 76, simplified])
  moreover have "math_Round (of_int (400 - q) / 4) = math_Round (100 - of_int q / 4)"
    by (simp add: diff_divide_distrib)
  ultimately show ?thesis
    unfolding Let_def c_def [symmetric] w_def [symmetric] i_def [symmetric] score price by blast
qed

lemma findings_only_score_instance:
  "let r = Report0\<lparr>r_Findings := replicate 20 (Finding0\<lparr>f_Severity := SeverityWarning\<rparr>)\<rparr>
   in length (r_Findings r) \<le> 2 ^ 48 \<and> quiet_health (r_ClusterHealths r) \<and>
      s_Score (fst (scoreWithAttribution r)) = 76"
proof -
  let ?r = "Report0\<lparr>r_Findings := replicate 20 (Finding0\<lparr>f_Severity := SeverityWarning\<rparr>)\<rparr>"
  have len: "length (r_Findings ?r) \<le> 2 ^ 48" by simp
  have quiet: "quiet_health (r_ClusterHealths ?r)" by code_simp
  have cnt: "severity_count SeverityCritical (r_Findings ?r) = 0"
    "severity_count SeverityWarning (r_Findings ?r) = 20"
    "severity_count SeverityInfo (r_Findings ?r) = 0" by code_simp+
  have rnd: "math_Round 76 = 76" using math_Round_of_int [of 76] by simp
  show ?thesis
    using findings_only_score [OF len quiet] len quiet unfolding Let_def cnt by (simp add: rnd)
qed

section \<open>Properties of the cluster score\<close>

lemma count_severity_lookup:
  "s \<in> {SeverityCritical, SeverityWarning, SeverityInfo} \<Longrightarrow>
   lookup_default 0 (count_severity sev counts) s = lookup_default 0 counts s + (if sev = s then 1 else 0)"
  by (auto simp: count_severity_def lookup_default_incr)

lemma marks_fold:
  "s \<in> {SeverityCritical, SeverityWarning, SeverityInfo} \<Longrightarrow>
   lookup_default 0 (foldl (\<lambda>counts m. if m_Cluster m = cluster then count_severity (m_Severity m) counts else counts)
       counts ms) s =
   lookup_default 0 counts s + int (length (filter (\<lambda>m. m_Cluster m = cluster \<and> m_Severity m = s) ms))"
  by (induction ms arbitrary: counts) (auto simp: count_severity_lookup)

lemma severity_counts_fold:
  "s \<in> {SeverityCritical, SeverityWarning, SeverityInfo} \<Longrightarrow>
   lookup_default 0 (foldl (\<lambda>counts f.
        foldl (\<lambda>counts m. if m_Cluster m = cluster then count_severity (m_Severity m) counts else counts)
          (if f_Cluster f = cluster then count_severity (f_Severity f) counts else counts) (f_Marks f))
       counts fs) s =
   lookup_default 0 counts s
     + int (length (filter (\<lambda>f. f_Cluster f = cluster \<and> f_Severity f = s) fs))
     + int (length (filter (\<lambda>m. m_Cluster m = cluster \<and> m_Severity m = s) (concat (map f_Marks fs))))"
proof (induction fs arbitrary: counts)
  case (Cons f fs)
  show ?case unfolding foldl_Cons Cons.IH [OF Cons.prems] marks_fold [OF Cons.prems]
    by (auto simp: count_severity_lookup [OF Cons.prems])
qed simp

lemma clusterSeverityCounts_eq:
  assumes "s \<in> {SeverityCritical, SeverityWarning, SeverityInfo}"
  shows "lookup_default 0 (clusterSeverityCounts cluster fs) s =
     int (length (filter (\<lambda>f. f_Cluster f = cluster \<and> f_Severity f = s) fs))
     + int (length (filter (\<lambda>m. m_Cluster m = cluster \<and> m_Severity m = s) (concat (map f_Marks fs))))"
proof -
  have "lookup_default 0 [(SeverityCritical, 0), (SeverityWarning, 0), (SeverityInfo, 0)] s = (0::int)"
    by (simp add: lookup_default_def)
  then show ?thesis unfolding clusterSeverityCounts_def severity_counts_fold [OF assms] by simp
qed

lemma ClusterCharges_nonneg: "ClusterCharges c fs = (crit, warn) \<Longrightarrow> 0 \<le> crit \<and> 0 \<le> warn"
  by (auto simp: ClusterCharges_def Let_def clusterSeverityCounts_eq)

lemma fadd_ge: "0 \<le> y \<Longrightarrow> is_f64 x \<Longrightarrow> x \<le> fadd x y"
  unfolding fadd_def by (intro f64_ge_f64) auto

lemma fadd_f64 [simp]: "is_f64 (fadd x y)"
  by (simp add: fadd_def)

lemma cluster_cost_ge:
  assumes "0 \<le> crit" "0 \<le> warn"
  shows "(case status_cost (h_Status h) of None \<Rightarrow> 0 | Some v \<Rightarrow> v) \<le> cluster_cost h crit warn"
proof -
  define c1 where "c1 = fadd 0 (min (fmul (of_int64 crit) clusterScorePerCritical) clusterScoreCriticalCap)"
  define c2 where "c2 = fadd c1 (min (fmul (of_int64 warn) clusterScorePerWarning) clusterScoreWarningCap)"
  define c3 where "c3 = fadd_opt c2 (status_cost (h_Status h))"
  have "0 \<le> c1" unfolding c1_def fadd_def fmul_def of_int64_def cluster_weight_defs
    using assms by (intro f64_nonneg) (auto intro!: f64_nonneg mult_nonneg_nonneg)
  moreover have "0 \<le> min (fmul (of_int64 warn) clusterScorePerWarning) clusterScoreWarningCap"
    unfolding fmul_def of_int64_def cluster_weight_defs
    using assms by (auto intro!: f64_nonneg mult_nonneg_nonneg)
  ultimately have c2: "0 \<le> c2" "is_f64 c2" by (auto simp: c2_def fadd_def intro!: f64_nonneg)
  have "v = 20 \<or> v = 10 \<or> v = 3" if "status_cost (h_Status h) = Some v" for v
    using that by (auto simp: status_cost_def cluster_weight_defs split: if_splits)
  then have f: "is_f64 v" if "status_cost (h_Status h) = Some v" for v
    using that is_f64_of_int [of 20] is_f64_of_int [of 10] is_f64_of_int [of 3] by fastforce
  have c3: "(case status_cost (h_Status h) of None \<Rightarrow> 0 | Some v \<Rightarrow> v) \<le> c3" "is_f64 c3"
    using c2 f by (auto simp: c3_def fadd_opt_def fadd_def intro!: f64_ge_f64 split: option.splits)
  have frac: "0 \<le> fmul clusterScoreNodeFracMax (fdiv (of_int64 u) (of_int64 m))" if "0 < u" "0 < m" for u m
    unfolding fmul_def fdiv_def of_int64_def cluster_weight_defs
    using that by (auto intro!: f64_nonneg mult_nonneg_nonneg divide_nonneg_nonneg)
  have hi: "0 \<le> clusterScoreHighUtil" by (simp add: cluster_weight_defs)
  show ?thesis
    unfolding cluster_cost_def Let_def c1_def [symmetric] c2_def [symmetric] c3_def [symmetric]
    using c3 frac [of "h_NodeCount h - h_HealthyNodes h" "h_NodeCount h"] hi
    by (auto intro!: order_trans [OF _ fadd_ge])
qed

text \<open>A cluster pays for exactly its own findings and the marks fleet findings put on it, its score
  lies between 0 and 100, and its status alone already bounds it: a critical cluster never scores
  above 80, a degraded, strained or unknown one never above 90.\<close>

lemma cluster_score_spec:
  "let cs = ComputeClusterScore h fs; name = h_Name h;
       charged = (\<lambda>s. int (length (filter (\<lambda>f. f_Cluster f = name \<and> f_Severity f = s) fs))
                 + int (length (filter (\<lambda>m. m_Cluster m = name \<and> m_Severity m = s) (concat (map f_Marks fs)))))
   in ClusterCharges name fs = (charged SeverityCritical, charged SeverityWarning) \<and>
      0 \<le> cs_Score cs \<and> cs_Score cs \<le> 100 \<and>
      cs_Score cs \<le> (if h_Status h = ''critical'' then 80
                     else if h_Status h \<in> {''degraded'', ''strained'', ''unknown''} then 90 else 100)"
proof -
  obtain crit warn where ch: "ClusterCharges (h_Name h) fs = (crit, warn)" by fastforce
  define cost where "cost = cluster_cost h crit warn"
  have ge: "(case status_cost (h_Status h) of None \<Rightarrow> 0 | Some v \<Rightarrow> v) \<le> cost"
    unfolding cost_def using ClusterCharges_nonneg [OF ch] by (intro cluster_cost_ge) auto
  have score: "cs_Score (ComputeClusterScore h fs) = math_Round (max (fsub 100 cost) 0)"
    by (simp add: ComputeClusterScore_def ch cost_def max.commute Let_def)
  have "0 \<le> cost" using ge by (auto simp: status_cost_def cluster_weight_defs split: if_splits)
  note rng = score_round [OF this]
  have bound: "math_Round (max (fsub 100 cost) 0) \<le> n" if "of_int (100 - n) \<le> cost" "0 \<le> n" "n \<le> 100" for n
  proof -
    have "fsub 100 cost \<le> of_int n" unfolding fsub_def
      using that is_f64_of_int [of n] by (intro f64_le_f64) auto
    then show ?thesis using that math_Round_bounds [of "max (fsub 100 cost) 0" n] by auto
  qed
  have "cs_Score (ComputeClusterScore h fs) \<le> (if h_Status h = ''critical'' then 80
                     else if h_Status h \<in> {''degraded'', ''strained'', ''unknown''} then 90 else 100)"
    unfolding score using rng bound [of 80] bound [of 90] ge
    by (auto simp: status_cost_def cluster_weight_defs)
  then show ?thesis
    using rng unfolding Let_def score
    by (simp add: ClusterCharges_def Let_def clusterSeverityCounts_eq)
qed



end
