(* ===== verification/Norm_Detect.thy ===== *)
theory Norm_Detect
  imports Section_Compare
begin

text \<open>
  \<open>internal/report/distribution.go\<close> and the detectors of \<open>outlier.go\<close>: the populations fleet norms are
  drawn from, the numeric (MAD), string (mode) and set (consensus) detectors, and the pass that runs
  them over every field of a report. A population is the list of clusters that hold the field with
  their value, in report order; a Go map keyed by cluster visits each of them once.
\<close>

section \<open>Constants\<close>

definition minMADSample :: nat where "minMADSample = 8"
definition minStringModeMass :: float64 where "minStringModeMass = f64 (3 / 5)"
definition maxReportedDeviation :: float64 where "maxReportedDeviation = 1000000"
definition minSetConsensusShare :: float64 where "minSetConsensusShare = f64 (3 / 5)"
definition madScale :: float64 where "madScale = f64 (6745 / 10000)"
definition maxMassZ :: float64 where "maxMassZ = 10"

section \<open>distribution.go\<close>

definition valueMass :: "Distribution \<Rightarrow> ClusterValue \<Rightarrow> float64" where
  "valueMass d v = (if d_Exact d \<and> cv_Outlier v then maxMassZ else min \<bar>cv_Z v\<bar> maxMassZ)"

definition massOf :: "Distribution \<Rightarrow> float64" where
  "massOf d = foldl (\<lambda>mass v. fadd mass (valueMass d v)) 0 (d_Values d)"

definition markOutliers :: "Distribution \<Rightarrow> OutlierResult list \<Rightarrow> bool \<Rightarrow> Distribution" where
  "markOutliers d outliers z =
     (let byCluster = map_of (rev (map (\<lambda>x. (o_Cluster x, x)) outliers))
      in d\<lparr>d_Values := map (\<lambda>v. case byCluster (cv_Cluster v) of
              None \<Rightarrow> v
            | Some x \<Rightarrow> (let v' = v\<lparr>cv_Outlier := True\<rparr> in if z then v'\<lparr>cv_Z := o_Z x\<rparr> else v')) (d_Values d)\<rparr>)"

definition deviationMass ::
  "Distribution list \<Rightarrow> (Distribution \<Rightarrow> ClusterValue \<Rightarrow> float64) \<Rightarrow> (string, float64) gomap" where
  "deviationMass dists normZ =
     foldl (\<lambda>out d.
        if d_Scope d \<noteq> NormScopeFleet then out
        else foldl (\<lambda>out v. let m = min \<bar>normZ d v\<bar> maxMassZ
               in if m = 0 then out
                  else AList.update (cv_Cluster v) (fadd (lookup_default 0 out (cv_Cluster v)) m) out)
               out (d_Values d)) [] dists"

definition sortDistributions :: "Distribution list \<Rightarrow> Distribution list" where
  "sortDistributions dists =
     sort_key (\<lambda>d. (d_Scope d \<noteq> NormScopeFleet, d_Scope d, - d_Mass d, d_Scanner d, d_Field d)) dists"

section \<open>Populations\<close>

definition number_pop :: "string list \<Rightarrow> flat \<Rightarrow> string \<Rightarrow> (string \<times> float64) list" where
  "number_pop clusters flat field =
     List.map_filter (\<lambda>c. map_option (Pair c) (Option.bind (flat_get flat c field) util_Float64)) clusters"

definition text_pop :: "string list \<Rightarrow> flat \<Rightarrow> string \<Rightarrow> (string \<times> string) list" where
  "text_pop clusters flat field =
     List.map_filter (\<lambda>c. map_option (\<lambda>raw. (c, fmt_v raw)) (flat_value flat c field)) clusters"

definition set_pop :: "string list \<Rightarrow> flat \<Rightarrow> string \<Rightarrow> (string \<times> string list) list" where
  "set_pop clusters flat field =
     List.map_filter (\<lambda>c. map_option (\<lambda>v. (c, map fmt_v (json_items v))) (flat_get flat c field)) clusters"

section \<open>The numeric detector\<close>

definition computeMAD :: "float64 list \<Rightarrow> float64 \<Rightarrow> float64" where
  "computeMAD vals median = Median (map (\<lambda>v. \<bar>fsub v median\<bar>) vals)"

text \<open>A quotient of at least the largest power of two overflows to an infinity.\<close>

definition cappedZ :: "float64 \<Rightarrow> float64" where
  "cappedZ z = (if \<bar>z\<bar> \<ge> maxFloat64 then (if z < 0 then - maxReportedDeviation else maxReportedDeviation) else z)"

definition modified_z :: "float64 \<Rightarrow> float64 \<Rightarrow> float64 \<Rightarrow> float64" where
  "modified_z v median mad = fdiv (fmul madScale (fsub v median)) mad"

definition exact_outlier ::
  "string \<Rightarrow> string \<Rightarrow> float64 \<Rightarrow> float64 \<Rightarrow> nat \<Rightarrow> string \<times> float64 \<Rightarrow> OutlierResult" where
  "exact_outlier scannerName field median share n = (\<lambda>(c, v).
     case numericSeverity scannerName field (fsub v median) of (sev, favorable) \<Rightarrow>
       OutlierResult0\<lparr>o_Cluster := c, o_Field := field, o_Value := formatNum v, o_FleetNorm := formatNum median,
         o_Scanner := scannerName, o_Severity := sev, o_Favorable := favorable, o_Kind := NormKindNumeric,
         o_Median := median, o_ModeShare := share, o_SampleSize := int n, o_Threshold := minStringModeMass,
         o_Exact := True\<rparr>)"

definition exactOutliers ::
  "(string \<times> float64) list \<Rightarrow> float64 \<Rightarrow> string \<Rightarrow> string \<Rightarrow> Distribution \<Rightarrow> OutlierResult list \<times> Distribution" where
  "exactOutliers pop median field scannerName dst =
     (let atMedian = length (filter (\<lambda>(_, v). v = median) pop);
          share = fdiv (of_int64 (int atMedian)) (of_int64 (int (length pop)));
          dst1 = dst\<lparr>d_Exact := True, d_ModeShare := share, d_Threshold := minStringModeMass\<rparr>
      in if share < minStringModeMass then ([], dst1)
         else let outliers = map (exact_outlier scannerName field median share (length pop))
                               (filter (\<lambda>(_, v). v \<noteq> median) pop);
                  dst2 = markOutliers dst1 outliers False
              in (outliers, dst2\<lparr>d_Mass := massOf dst2\<rparr>))"

definition mad_outlier ::
  "string \<Rightarrow> string \<Rightarrow> float64 \<Rightarrow> float64 \<Rightarrow> float64 \<Rightarrow> nat \<Rightarrow> string \<times> float64 \<Rightarrow> OutlierResult" where
  "mad_outlier scannerName field threshold median mad n = (\<lambda>(c, v).
     case numericSeverity scannerName field (fsub v median) of (sev, favorable) \<Rightarrow>
       let zScore = cappedZ (modified_z v median mad)
       in OutlierResult0\<lparr>o_Cluster := c, o_Field := field, o_Value := formatNum v, o_FleetNorm := formatNum median,
            o_Deviation := \<bar>zScore\<bar>, o_Scanner := scannerName, o_Severity := sev, o_Favorable := favorable,
            o_Kind := NormKindNumeric, o_Median := median, o_MAD := mad, o_SampleSize := int n,
            o_Threshold := threshold, o_Z := zScore\<rparr>)"

definition number_value :: "float64 \<Rightarrow> float64 \<Rightarrow> string \<times> float64 \<Rightarrow> ClusterValue" where
  "number_value median mad = (\<lambda>(c, v).
     ClusterValue0\<lparr>cv_Cluster := c, cv_Number := Some v,
                   cv_Z := (if mad \<noteq> 0 then cappedZ (modified_z v median mad) else 0)\<rparr>)"

definition detectNumericOutliers ::
  "string list \<Rightarrow> flat \<Rightarrow> string \<Rightarrow> string \<Rightarrow> float64 \<Rightarrow> OutlierResult list \<times> Distribution option" where
  "detectNumericOutliers clusters flat field scannerName threshold =
     (let pop = number_pop clusters flat field; vals = map snd pop
      in if length vals < minMADSample then ([], None)
         else let median = Median vals; mad = computeMAD vals median;
                  dst = Distribution0\<lparr>d_Kind := NormKindNumeric, d_Values := map (number_value median mad) pop,
                           d_Median := median, d_MAD := mad, d_Threshold := threshold,
                           d_SampleSize := int (length vals)\<rparr>
              in if mad = 0
                 then (case exactOutliers pop median field scannerName dst of (os, d) \<Rightarrow> (os, Some d))
                 else let dst1 = dst\<lparr>d_Band := fdiv (fmul threshold mad) madScale\<rparr>;
                          outliers = map (mad_outlier scannerName field threshold median mad (length vals))
                            (filter (\<lambda>(_, v). \<bar>cappedZ (modified_z v median mad)\<bar> > threshold) (remdups pop));
                          dst2 = markOutliers dst1 outliers False
                      in (outliers, Some (dst2\<lparr>d_Mass := massOf dst2\<rparr>)))"

section \<open>The string detector\<close>

definition count_values :: "string list \<Rightarrow> (string, int) gomap" where
  "count_values vs = fold map_incr vs []"

definition dominant_step :: "string \<times> int \<Rightarrow> string \<times> int \<Rightarrow> string \<times> int" where
  "dominant_step = (\<lambda>(mode, best) (v, n). if n > best \<or> (n = best \<and> v < mode) then (v, n) else (mode, best))"

definition dominantString :: "(string, int) gomap \<Rightarrow> string" where
  "dominantString counts = fst (foldl dominant_step ('''', 0) counts)"

definition string_outlier ::
  "string \<Rightarrow> string \<Rightarrow> string \<Rightarrow> float64 \<Rightarrow> nat \<Rightarrow> string \<times> string \<Rightarrow> OutlierResult" where
  "string_outlier scannerName field mode share n = (\<lambda>(c, v).
     OutlierResult0\<lparr>o_Cluster := c, o_Field := field, o_Value := v, o_FleetNorm := mode, o_Scanner := scannerName,
       o_Severity := classifySeverity scannerName field, o_Kind := NormKindString, o_Mode := mode,
       o_ModeShare := share, o_SampleSize := int n, o_Threshold := minStringModeMass\<rparr>)"

definition detectStringOutliers ::
  "string list \<Rightarrow> flat \<Rightarrow> string \<Rightarrow> string \<Rightarrow> OutlierResult list \<times> Distribution option" where
  "detectStringOutliers clusters flat field scannerName =
     (let pop = text_pop clusters flat field; clusterVals = remdups pop;
          counts = count_values (map snd pop)
      in if length counts \<le> 1 \<or> clusterVals = [] then ([], None)
         else let mode = dominantString counts;
                  share = fdiv (of_int64 (lookup_default 0 counts mode)) (of_int64 (int (length clusterVals)));
                  dst = Distribution0\<lparr>d_Kind := NormKindString,
                           d_Values := map (\<lambda>(c, v). ClusterValue0\<lparr>cv_Cluster := c, cv_Text := v\<rparr>) pop,
                           d_Threshold := minStringModeMass, d_Mode := mode, d_ModeShare := share,
                           d_SampleSize := int (length clusterVals)\<rparr>
              in if mode = '''' \<or> share < minStringModeMass then ([], Some dst)
                 else let outliers = map (string_outlier scannerName field mode share (length clusterVals))
                            (filter (\<lambda>(_, v). v \<noteq> mode) clusterVals)
                      in (outliers, Some (markOutliers dst outliers False)))"

section \<open>The set detector\<close>

definition consensus_count :: "nat \<Rightarrow> int" where
  "consensus_count n = \<lceil>fmul (of_int64 (int n)) minSetConsensusShare\<rceil>"

definition consensus_of :: "(string \<times> string list) list \<Rightarrow> string list" where
  "consensus_of pop =
     (let itemCounts = count_values (concat (map snd pop))
      in sort (map fst (filter (\<lambda>(_, cnt). cnt \<ge> consensus_count (length (remdups (map fst pop)))) itemCounts)))"

definition missing_of :: "string list \<Rightarrow> string list \<Rightarrow> string list" where
  "missing_of consensus items = filter (\<lambda>i. i \<notin> set items) consensus"

definition set_outlier :: "string \<Rightarrow> string \<Rightarrow> string list \<Rightarrow> nat \<Rightarrow> string \<times> string list \<Rightarrow> OutlierResult" where
  "set_outlier scannerName field consensus n = (\<lambda>(c, items).
     let missing = missing_of consensus items
     in OutlierResult0\<lparr>o_Cluster := c, o_Field := field,
          o_Value := ''missing '' @ Itoa (int (length missing)) @ '': ['' @ strings_Join missing '' '' @ '']'',
          o_FleetNorm := Itoa (int (length consensus)) @ '' consensus items'', o_Scanner := scannerName,
          o_Severity := classifySeverity scannerName field, o_Kind := NormKindSet, o_Consensus := consensus,
          o_Missing := missing, o_SampleSize := int n, o_Threshold := minSetConsensusShare\<rparr>)"

definition set_value :: "string list \<Rightarrow> string \<times> string list \<Rightarrow> ClusterValue" where
  "set_value consensus = (\<lambda>(c, items).
     ClusterValue0\<lparr>cv_Cluster := c, cv_Size := int (length (remdups items)),
       cv_Missing := missing_of consensus items, cv_Outlier := (missing_of consensus items \<noteq> [])\<rparr>)"

definition detectSetOutliers ::
  "string list \<Rightarrow> flat \<Rightarrow> string \<Rightarrow> string \<Rightarrow> OutlierResult list \<times> Distribution option" where
  "detectSetOutliers clusters flat field scannerName =
     (let pop = set_pop clusters flat field; n = length (remdups (map fst pop))
      in if pop = [] then ([], None)
         else let consensus = consensus_of pop
              in (map (set_outlier scannerName field consensus n)
                    (filter (\<lambda>(_, items). missing_of consensus items \<noteq> []) pop),
                  Some (Distribution0\<lparr>d_Kind := NormKindSet, d_Values := map (set_value consensus) pop,
                    d_Threshold := minSetConsensusShare, d_Consensus := consensus, d_SampleSize := int n\<rparr>)))"

section \<open>The pass over a report\<close>

definition sortOutliers :: "OutlierResult list \<Rightarrow> OutlierResult list" where
  "sortOutliers outliers =
     sort_key (\<lambda>x. (- SeverityRank (o_Severity x), o_Scanner x, o_Cluster x, o_Field x)) outliers"

text \<open>The fields a pass visits, each with the flattened section it belongs to.\<close>

definition walkFields :: "Report \<Rightarrow> string list \<Rightarrow> nat \<Rightarrow> (string \<times> string \<times> flat) list" where
  "walkFields r clusters minPerCluster =
     (let runs = (case r_runs r of Some runs \<Rightarrow> runs | None \<Rightarrow> indexRuns r)
      in concat (map (\<lambda>(scannerName, sec).
           if sec_Uniform sec \<or> length (sec_PerCluster sec) < minPerCluster then []
           else let flat = boundDegraded scannerName (prepareFlat scannerName (flattenSection clusters sec)) runs
                in map (\<lambda>field. (scannerName, field, flat))
                     (filter (\<lambda>f. f \<notin> set skipFields) (collectFields flat))) (r_Sections r)))"

definition detect_field ::
  "string list \<Rightarrow> float64 \<Rightarrow> string \<times> string \<times> flat \<Rightarrow> OutlierResult list \<times> Distribution option" where
  "detect_field clusters threshold = (\<lambda>(scannerName, field, flat).
     case (if isNumericInFlat clusters flat field
           then detectNumericOutliers clusters flat field scannerName threshold
           else if isArrayInFlat clusters flat field
           then detectSetOutliers clusters flat field scannerName
           else detectStringOutliers clusters flat field scannerName) of
       (found, dst) \<Rightarrow> (found, map_option (\<lambda>d. d\<lparr>d_Scanner := scannerName, d_Field := field\<rparr>) dst))"

definition detectOutliers ::
  "Report \<Rightarrow> string list \<Rightarrow> float64 \<Rightarrow> string \<Rightarrow> OutlierResult list \<times> Distribution list" where
  "detectOutliers r clusters threshold scope =
     (let found = map (detect_field clusters threshold) (walkFields r clusters minMADSample);
          outliers = concat (map fst found); dists = List.map_filter snd found
      in (sortOutliers (map (\<lambda>x. x\<lparr>o_Scope := scope\<rparr>) outliers),
          sortDistributions (map (\<lambda>d. d\<lparr>d_Scope := scope\<rparr>) dists)))"

definition WhatIfRefusal :: "string \<Rightarrow> string \<Rightarrow> string" where
  "WhatIfRefusal scanner field =
     (case map_of projections scanner of
        None \<Rightarrow> ''''
      | Some p \<Rightarrow>
          if sp_To p \<noteq> field \<or> sp_Build p \<noteq> None then ''''
          else scanner @ ''/'' @ field @ '' is derived from the '' @ sp_From p
            @ '' list, so projecting a fix would mean inventing entries in it.'')"

definition Basis :: "OutlierResult \<Rightarrow> NormBasis" where
  "Basis x =
     \<lparr>nb_Scope = o_Scope x, nb_Field = o_Field x, nb_Kind = o_Kind x, nb_Median = o_Median x, nb_MAD = o_MAD x,
      nb_Mode = o_Mode x, nb_ModeShare = o_ModeShare x, nb_Consensus = o_Consensus x,
      nb_Missing = o_Missing x, nb_SampleSize = o_SampleSize x, nb_Threshold = o_Threshold x,
      nb_Value = o_Value x, nb_Z = o_Z x, nb_LimitedSample = o_LimitedSample x, nb_Exact = o_Exact x,
      nb_NoWhatIf = WhatIfRefusal (o_Scanner x) (o_Field x)\<rparr>"

section \<open>Laws of populations and marks\<close>

lemma map_filter_keys:
  "map fst (List.map_filter (\<lambda>c. map_option (\<lambda>v. (c, g v)) (h c)) cs) = filter (\<lambda>c. h c \<noteq> None) cs"
  by (induction cs) (auto simp: map_filter_simps split: option.splits)

lemma pop_keys:
  "map fst (number_pop cs flat f) = filter (\<lambda>c. Option.bind (flat_get flat c f) util_Float64 \<noteq> None) cs"
  "map fst (text_pop cs flat f) = filter (\<lambda>c. flat_value flat c f \<noteq> None) cs"
  "map fst (set_pop cs flat f) = filter (\<lambda>c. flat_get flat c f \<noteq> None) cs"
  unfolding number_pop_def text_pop_def set_pop_def
  using map_filter_keys [of "\<lambda>v. v" "\<lambda>c. Option.bind (flat_get flat c f) util_Float64" cs]
    map_filter_keys [of fmt_v "\<lambda>c. flat_value flat c f" cs]
    map_filter_keys [of "\<lambda>v. map fmt_v (json_items v)" "\<lambda>c. flat_get flat c f" cs] by simp_all

lemma pop_distinct:
  assumes "distinct cs"
  shows "distinct (map fst (number_pop cs flat f))" "distinct (map fst (text_pop cs flat f))"
    "distinct (map fst (set_pop cs flat f))"
  unfolding pop_keys using assms by simp_all

lemma pop_remdups:
  assumes "distinct cs"
  shows "remdups (number_pop cs flat f) = number_pop cs flat f" "remdups (text_pop cs flat f) = text_pop cs flat f"
    "remdups (map fst (set_pop cs flat f)) = map fst (set_pop cs flat f)"
  using pop_distinct [OF assms, of flat f] by (simp_all add: distinct_map)

lemma filter_keys:
  "distinct (map fst pop) \<Longrightarrow>
   filter (\<lambda>c. c \<in> fst ` set (filter P pop)) (map fst pop) = map fst (filter P pop)"
proof -
  assume d: "distinct (map fst pop)"
  have "filter (\<lambda>c. c \<in> fst ` set (filter P pop)) (map fst pop) =
      map fst (filter (\<lambda>x. fst x \<in> fst ` set (filter P pop)) pop)" by (simp add: filter_map o_def)
  also have "filter (\<lambda>x. fst x \<in> fst ` set (filter P pop)) pop = filter P pop"
    using d by (intro filter_cong) (auto simp: distinct_map dest: inj_onD)
  finally show ?thesis .
qed

definition flagged_clusters :: "Distribution \<Rightarrow> string list" where
  "flagged_clusters d = map cv_Cluster (filter cv_Outlier (d_Values d))"

lemma mark_value:
  "map_of (rev (map (\<lambda>x. (o_Cluster x, x)) xs)) c = None \<longleftrightarrow> c \<notin> o_Cluster ` set xs"
  by (auto simp: map_of_eq_None_iff image_iff)

lemma markOutliers_keys [simp]: "map cv_Cluster (d_Values (markOutliers d xs z)) = map cv_Cluster (d_Values d)"
  by (auto simp: markOutliers_def Let_def split: option.splits)

lemma markOutliers_flagged:
  assumes "\<forall>v \<in> set (d_Values d). \<not> cv_Outlier v"
  shows "flagged_clusters (markOutliers d xs z) = filter (\<lambda>c. c \<in> o_Cluster ` set xs) (map cv_Cluster (d_Values d))"
proof -
  let ?g = "\<lambda>v. case map_of (rev (map (\<lambda>x. (o_Cluster x, x)) xs)) (cv_Cluster v) of
      None \<Rightarrow> v | Some x \<Rightarrow> (let v' = v\<lparr>cv_Outlier := True\<rparr> in if z then v'\<lparr>cv_Z := o_Z x\<rparr> else v')"
  have g: "cv_Cluster (?g v) = cv_Cluster v" for v by (auto simp: Let_def split: option.splits)
  have o: "cv_Outlier (?g v) = (cv_Outlier v \<or> cv_Cluster v \<in> o_Cluster ` set xs)" for v
    using mark_value [of xs "cv_Cluster v"] by (auto simp: Let_def split: option.splits)
  have "flagged_clusters (markOutliers d xs z) = map cv_Cluster (filter (\<lambda>v. cv_Outlier (?g v)) (d_Values d))"
    unfolding flagged_clusters_def markOutliers_def by (simp add: filter_map o_def g)
  also have "filter (\<lambda>v. cv_Outlier (?g v)) (d_Values d) = filter (\<lambda>v. cv_Cluster v \<in> o_Cluster ` set xs) (d_Values d)"
    using assms o by (intro filter_cong) auto
  finally show ?thesis by (simp add: filter_map o_def)
qed

lemma markOutliers_simps [simp]:
  "d_Kind (markOutliers d xs z) = d_Kind d" "d_SampleSize (markOutliers d xs z) = d_SampleSize d"
  "d_Exact (markOutliers d xs z) = d_Exact d" "d_Median (markOutliers d xs z) = d_Median d"
  "d_MAD (markOutliers d xs z) = d_MAD d"
  by (simp_all add: markOutliers_def Let_def)

lemma flagged_mass [simp]: "flagged_clusters (d\<lparr>d_Mass := m\<rparr>) = flagged_clusters d"
  by (simp add: flagged_clusters_def)

lemma outlier_simps [simp]:
  "o_Cluster (exact_outlier s f m sh n p) = fst p" "o_Cluster (mad_outlier s f t m d n p) = fst p"
  "o_Cluster (string_outlier s f md sh n q) = fst q" "o_Cluster (set_outlier s f cons n w) = fst w"
  "o_Field (exact_outlier s f m sh n p) = f" "o_Field (mad_outlier s f t m d n p) = f"
  "o_Field (string_outlier s f md sh n q) = f" "o_Field (set_outlier s f cons n w) = f"
  "o_Scanner (exact_outlier s f m sh n p) = s" "o_Scanner (mad_outlier s f t m d n p) = s"
  "o_Scanner (string_outlier s f md sh n q) = s" "o_Scanner (set_outlier s f cons n w) = s"
  "o_Kind (exact_outlier s f m sh n p) = NormKindNumeric" "o_Kind (mad_outlier s f t m d n p) = NormKindNumeric"
  "o_Kind (string_outlier s f md sh n q) = NormKindString" "o_Kind (set_outlier s f cons n w) = NormKindSet"
  by (simp_all add: exact_outlier_def mad_outlier_def string_outlier_def set_outlier_def Let_def split: prod.splits)

lemma number_value_simps [simp]:
  "cv_Cluster (number_value m d p) = fst p" "\<not> cv_Outlier (number_value m d p)"
  "cv_Cluster (set_value cons w) = fst w"
  "cv_Outlier (set_value cons w) = (missing_of cons (snd w) \<noteq> [])"
  by (simp_all add: number_value_def set_value_def ClusterValue0_def split: prod.splits)



section \<open>What each detector flags\<close>

definition at_median :: "float64 list \<Rightarrow> nat" where
  "at_median vals = length (filter (\<lambda>v. v = Median vals) vals)"

definition median_share :: "float64 list \<Rightarrow> float64" where
  "median_share vals = fdiv (of_int64 (int (at_median vals))) (of_int64 (int (length vals)))"

definition numeric_flag :: "float64 list \<Rightarrow> float64 \<Rightarrow> float64 \<Rightarrow> bool" where
  "numeric_flag vals threshold v =
     (let median = Median vals; mad = computeMAD vals median
      in if mad = 0 then v \<noteq> median \<and> minStringModeMass \<le> median_share vals
         else \<bar>cappedZ (modified_z v median mad)\<bar> > threshold)"

lemma numeric_small: "length (number_pop cs flat f) < minMADSample \<Longrightarrow> detectNumericOutliers cs flat f s t = ([], None)"
  by (simp add: detectNumericOutliers_def Let_def)

lemma filter_pairs: "filter (\<lambda>(_, v). P v) pop = filter (\<lambda>x. P (snd x)) pop"
  by (rule filter_cong) auto

lemma filter_snd_pairs: "length (filter (\<lambda>(_, v). P v) pop) = length (filter P (map snd pop))"
  unfolding filter_pairs by (simp add: filter_map o_def)

lemma value_keys [simp]:
  "map (cv_Cluster \<circ> number_value m d) pop = map fst pop"
  "map (cv_Cluster \<circ> set_value cons) pops = map fst pops"
  by (simp_all add: o_def)

lemma numeric_found:
  fixes cs :: "string list" and flat :: flat and f s :: string and t :: float64
  assumes dist: "distinct cs" and n: "minMADSample \<le> length (number_pop cs flat f)"
  defines "pop \<equiv> number_pop cs flat f"
  defines "hit \<equiv> filter (\<lambda>p. numeric_flag (map snd pop) t (snd p)) pop"
  shows "\<exists>d. snd (detectNumericOutliers cs flat f s t) = Some d
     \<and> map o_Cluster (fst (detectNumericOutliers cs flat f s t)) = map fst hit
     \<and> flagged_clusters d = map fst hit \<and> map cv_Cluster (d_Values d) = map fst pop
     \<and> d_Kind d = NormKindNumeric
     \<and> list_all (\<lambda>x. o_Field x = f \<and> o_Scanner x = s \<and> o_Kind x = NormKindNumeric)
         (fst (detectNumericOutliers cs flat f s t))"
proof -
  define vals where "vals = map snd pop"
  define median where "median = Median vals"
  define mad where "mad = computeMAD vals median"
  have keys: "distinct (map fst pop)" unfolding pop_def by (rule pop_distinct [OF dist])
  have rd: "remdups pop = pop" unfolding pop_def by (rule pop_remdups [OF dist])
  have hitP: "filter (\<lambda>c. c \<in> fst ` set hit) (map fst pop) = map fst hit"
    unfolding hit_def by (rule filter_keys [OF keys])
  have n': "\<not> length (map snd pop) < minMADSample" using n by (simp add: pop_def)
  let ?d = "Distribution0\<lparr>d_Kind := NormKindNumeric, d_Values := map (number_value median mad) pop,
                           d_Median := median, d_MAD := mad, d_Threshold := t,
                           d_SampleSize := int (length vals)\<rparr>"
  have D: "detectNumericOutliers cs flat f s t =
      (if mad = 0 then (case exactOutliers pop median f s ?d of (os, d) \<Rightarrow> (os, Some d))
       else let outliers = map (mad_outlier s f t median mad (length vals))
                            (filter (\<lambda>(_, v). \<bar>cappedZ (modified_z v median mad)\<bar> > t) pop);
                dst2 = markOutliers (?d\<lparr>d_Band := fdiv (fmul t mad) madScale\<rparr>) outliers False
            in (outliers, Some (dst2\<lparr>d_Mass := massOf dst2\<rparr>)))"
    unfolding detectNumericOutliers_def Let_def pop_def [symmetric] rd if_not_P [OF n']
    by (simp only: vals_def [symmetric] median_def [symmetric] mad_def [symmetric])
  have hit: "hit = filter (\<lambda>p. if mad = 0 then snd p \<noteq> median \<and> minStringModeMass \<le> median_share vals
      else \<bar>cappedZ (modified_z (snd p) median mad)\<bar> > t) pop"
    by (simp add: hit_def numeric_flag_def vals_def [symmetric] median_def [symmetric] mad_def [symmetric] Let_def)
  show ?thesis
  proof (cases "mad = 0")
    case False
    then have os: "hit = filter (\<lambda>(_, v). \<bar>cappedZ (modified_z v median mad)\<bar> > t) pop"
      by (simp add: hit filter_pairs)
    show ?thesis unfolding D if_not_P [OF False] Let_def os [symmetric]
      by (simp add: markOutliers_flagged hitP list_all_iff image_image)
  next
    case True
    have sh: "fdiv (of_int64 (int (length (filter (\<lambda>(_, v). v = median) pop)))) (of_int64 (int (length pop))) = median_share vals"
      by (simp add: median_share_def at_median_def vals_def [symmetric] median_def filter_snd_pairs)
         (simp add: vals_def)
    show ?thesis
    proof (cases "median_share vals < minStringModeMass")
      case low: True
      then have "hit = []" using True by (simp add: hit filter_empty_conv)
      then show ?thesis
        unfolding D if_P [OF True] exactOutliers_def Let_def sh if_P [OF low]
        by (simp add: flagged_clusters_def filter_empty_conv)
    next
      case high: False
      then have os: "hit = filter (\<lambda>(_, v). v \<noteq> median) pop" using True
        by (simp add: hit filter_pairs not_less)
      show ?thesis
        unfolding D if_P [OF True] exactOutliers_def Let_def sh if_not_P [OF high] os [symmetric]
        by (simp add: markOutliers_flagged hitP list_all_iff image_image)
    qed
  qed
qed



definition string_share :: "string list \<Rightarrow> float64" where
  "string_share vs = fdiv (of_int64 (lookup_default 0 (count_values vs) (dominantString (count_values vs))))
                          (of_int64 (int (length vs)))"

definition string_flag :: "string list \<Rightarrow> string \<Rightarrow> bool" where
  "string_flag vs v \<longleftrightarrow> v \<noteq> dominantString (count_values vs) \<and> dominantString (count_values vs) \<noteq> '''' \<and>
     minStringModeMass \<le> string_share vs"

lemma string_none:
  "length (count_values (map snd (text_pop cs flat f))) \<le> 1 \<or> text_pop cs flat f = [] \<Longrightarrow>
   detectStringOutliers cs flat f s = ([], None)"
  by (auto simp: detectStringOutliers_def Let_def)

lemma string_found:
  fixes cs :: "string list" and flat :: flat and f s :: string
  assumes dist: "distinct cs" and n: "1 < length (count_values (map snd (text_pop cs flat f)))" "text_pop cs flat f \<noteq> []"
  defines "pop \<equiv> text_pop cs flat f"
  defines "hit \<equiv> filter (\<lambda>p. string_flag (map snd pop) (snd p)) pop"
  shows "\<exists>d. snd (detectStringOutliers cs flat f s) = Some d
     \<and> map o_Cluster (fst (detectStringOutliers cs flat f s)) = map fst hit
     \<and> flagged_clusters d = map fst hit \<and> map cv_Cluster (d_Values d) = map fst pop
     \<and> d_Kind d = NormKindString
     \<and> list_all (\<lambda>x. o_Field x = f \<and> o_Scanner x = s \<and> o_Kind x = NormKindString)
         (fst (detectStringOutliers cs flat f s))"
proof -
  define counts where "counts = count_values (map snd pop)"
  define mode where "mode = dominantString counts"
  have keys: "distinct (map fst pop)" unfolding pop_def by (rule pop_distinct [OF dist])
  have rd: "remdups pop = pop" unfolding pop_def by (rule pop_remdups [OF dist])
  have hitP: "filter (\<lambda>c. c \<in> fst ` set hit) (map fst pop) = map fst hit"
    unfolding hit_def by (rule filter_keys [OF keys])
  have n': "\<not> (length counts \<le> 1 \<or> pop = [])" using n by (simp add: pop_def counts_def)
  have sh: "fdiv (of_int64 (lookup_default 0 counts mode)) (of_int64 (int (length pop))) = string_share (map snd pop)"
    by (simp add: string_share_def counts_def mode_def)
  let ?d = "Distribution0\<lparr>d_Kind := NormKindString,
                           d_Values := map (\<lambda>(c, v). ClusterValue0\<lparr>cv_Cluster := c, cv_Text := v\<rparr>) pop,
                           d_Threshold := minStringModeMass, d_Mode := mode, d_ModeShare := string_share (map snd pop),
                           d_SampleSize := int (length pop)\<rparr>"
  have D: "detectStringOutliers cs flat f s =
     (if mode = '''' \<or> string_share (map snd pop) < minStringModeMass then ([], Some ?d)
      else let outliers = map (string_outlier s f mode (string_share (map snd pop)) (length pop))
                            (filter (\<lambda>(_, v). v \<noteq> mode) pop)
           in (outliers, Some (markOutliers ?d outliers False)))"
    unfolding detectStringOutliers_def Let_def pop_def [symmetric] counts_def [symmetric] rd if_not_P [OF n']
    by (simp only: mode_def [symmetric] sh)
  have vk: "map (cv_Cluster \<circ> (\<lambda>(c, v). ClusterValue0\<lparr>cv_Cluster := c, cv_Text := v\<rparr>)) pop = map fst pop"
    by (auto simp: o_def)
  have nv: "\<forall>v \<in> set (d_Values ?d). \<not> cv_Outlier v" by (auto simp: ClusterValue0_def)
  show ?thesis
  proof (cases "mode = '''' \<or> string_share (map snd pop) < minStringModeMass")
    case True
    then have "hit = []"
      by (auto simp: hit_def filter_empty_conv string_flag_def counts_def [symmetric] mode_def [symmetric])
    moreover have "flagged_clusters ?d = []" using nv unfolding flagged_clusters_def filter_empty_conv map_is_Nil_conv .
    ultimately show ?thesis unfolding D if_P [OF True] by (simp add: vk)
  next
    case False
    then have os: "hit = filter (\<lambda>(_, v). v \<noteq> mode) pop"
      by (simp add: hit_def string_flag_def counts_def [symmetric] mode_def [symmetric] filter_pairs not_less)
    show ?thesis unfolding D if_not_P [OF False] Let_def os [symmetric]
      by (simp add: markOutliers_flagged [OF nv] hitP list_all_iff image_image vk)
  qed
qed

lemma set_none: "set_pop cs flat f = [] \<Longrightarrow> detectSetOutliers cs flat f s = ([], None)"
  by (simp add: detectSetOutliers_def Let_def)

lemma set_found:
  fixes cs :: "string list" and flat :: flat and f s :: string
  assumes dist: "distinct cs" and n: "set_pop cs flat f \<noteq> []"
  defines "pop \<equiv> set_pop cs flat f"
  defines "hit \<equiv> filter (\<lambda>p. missing_of (consensus_of pop) (snd p) \<noteq> []) pop"
  shows "\<exists>d. snd (detectSetOutliers cs flat f s) = Some d
     \<and> map o_Cluster (fst (detectSetOutliers cs flat f s)) = map fst hit
     \<and> flagged_clusters d = map fst hit \<and> map cv_Cluster (d_Values d) = map fst pop
     \<and> d_Kind d = NormKindSet
     \<and> list_all (\<lambda>x. o_Field x = f \<and> o_Scanner x = s \<and> o_Kind x = NormKindSet)
         (fst (detectSetOutliers cs flat f s))"
proof -
  have os: "hit = filter (\<lambda>(_, items). missing_of (consensus_of pop) items \<noteq> []) pop"
    by (simp add: hit_def filter_pairs)
  show ?thesis
    unfolding detectSetOutliers_def Let_def pop_def [symmetric] if_not_P [OF n [folded pop_def]] os [symmetric]
    by (simp add: list_all_iff flagged_clusters_def filter_map o_def hit_def [symmetric])
qed

section \<open>The contract of a detector\<close>

lemma subseq_distinct: "subseq xs ys \<Longrightarrow> distinct ys \<Longrightarrow> distinct xs"
  by (auto simp: subseq_conv_nths)

lemma subseq_subset: "subseq xs ys \<Longrightarrow> set xs \<subseteq> set ys"
  by (auto simp: subseq_conv_nths dest: in_set_nthsD)

text \<open>What the pass relies on: a detector that has no population reports nothing, its results are stamped
  with the field, the scanner and its kind, and the clusters it reports are the ones its distribution
  marks, in population order, each once.\<close>

locale norm_detector =
  fixes detect :: "string list \<Rightarrow> flat \<Rightarrow> string \<Rightarrow> string \<Rightarrow> OutlierResult list \<times> Distribution option"
    and kind :: string
  assumes no_population: "snd (detect cs flat f s) = None \<Longrightarrow> fst (detect cs flat f s) = []"
    and stamped: "distinct cs \<Longrightarrow> list_all (\<lambda>x. o_Field x = f \<and> o_Scanner x = s \<and> o_Kind x = kind) (fst (detect cs flat f s))"
    and marked: "distinct cs \<Longrightarrow> snd (detect cs flat f s) = Some d \<Longrightarrow>
        map o_Cluster (fst (detect cs flat f s)) = flagged_clusters d"
    and population: "distinct cs \<Longrightarrow> snd (detect cs flat f s) = Some d \<Longrightarrow>
        d_Kind d = kind \<and> subseq (map cv_Cluster (d_Values d)) cs"
begin

lemma flagged_in_population:
  assumes "distinct cs" "snd (detect cs flat f s) = Some d"
  shows "subseq (map o_Cluster (fst (detect cs flat f s))) (map cv_Cluster (d_Values d))"
  unfolding marked [OF assms] flagged_clusters_def
  by (intro subseq_map subseq_filter_left)

lemma flagged_distinct:
  assumes "distinct cs"
  shows "distinct (map o_Cluster (fst (detect cs flat f s)))"
proof (cases "snd (detect cs flat f s)")
  case None
  then show ?thesis by (simp add: no_population)
next
  case (Some d)
  have "subseq (map o_Cluster (fst (detect cs flat f s))) cs"
    using flagged_in_population [OF assms Some] population [OF assms Some] by (blast intro: subseq_order.trans)
  from subseq_distinct [OF this assms] show ?thesis .
qed

lemma flagged_known:
  assumes "distinct cs" "x \<in> set (fst (detect cs flat f s))"
  shows "o_Cluster x \<in> set cs"
proof (cases "snd (detect cs flat f s)")
  case None
  then show ?thesis using assms(2) no_population by fastforce
next
  case (Some d)
  have "subseq (map o_Cluster (fst (detect cs flat f s))) cs"
    using flagged_in_population [OF assms(1) Some] population [OF assms(1) Some] by (blast intro: subseq_order.trans)
  from subseq_subset [OF this] show ?thesis using assms(2) by auto
qed

end

interpretation numeric: norm_detector "\<lambda>cs flat f s. detectNumericOutliers cs flat f s t" NormKindNumeric for t
proof unfold_locales
  fix cs flat f s and d :: Distribution
  have small: "\<not> minMADSample \<le> length (number_pop cs flat f) \<Longrightarrow> detectNumericOutliers cs flat f s t = ([], None)"
    by (simp add: numeric_small)
  have few: "snd (detectNumericOutliers cs flat f s t) = None \<longleftrightarrow> \<not> minMADSample \<le> length (number_pop cs flat f)"
    by (simp add: detectNumericOutliers_def Let_def split: prod.splits)
  show "snd (detectNumericOutliers cs flat f s t) = None \<Longrightarrow> fst (detectNumericOutliers cs flat f s t) = []"
    using few small by simp
  assume cs: "distinct cs"
  note found = numeric_found [OF cs, of flat f s t]
  show "list_all (\<lambda>x. o_Field x = f \<and> o_Scanner x = s \<and> o_Kind x = NormKindNumeric) (fst (detectNumericOutliers cs flat f s t))"
    using found small by (cases "minMADSample \<le> length (number_pop cs flat f)") auto
  assume d: "snd (detectNumericOutliers cs flat f s t) = Some d"
  then have n: "minMADSample \<le> length (number_pop cs flat f)" using few by auto
  from found [OF n] d show "map o_Cluster (fst (detectNumericOutliers cs flat f s t)) = flagged_clusters d" by auto
  from found [OF n] d show "d_Kind d = NormKindNumeric \<and> subseq (map cv_Cluster (d_Values d)) cs"
    by (auto simp: pop_keys)
qed

interpretation str: norm_detector detectStringOutliers NormKindString
proof unfold_locales
  fix cs flat f s and d :: Distribution
  let ?big = "1 < length (count_values (map snd (text_pop cs flat f))) \<and> text_pop cs flat f \<noteq> []"
  have small: "\<not> ?big \<Longrightarrow> detectStringOutliers cs flat f s = ([], None)"
    by (intro string_none) auto
  have few: "snd (detectStringOutliers cs flat f s) = None \<longleftrightarrow> \<not> ?big"
    by (auto simp: detectStringOutliers_def Let_def)
  show "snd (detectStringOutliers cs flat f s) = None \<Longrightarrow> fst (detectStringOutliers cs flat f s) = []"
    using few small by simp
  assume cs: "distinct cs"
  note found = string_found [OF cs, of flat f s]
  show "list_all (\<lambda>x. o_Field x = f \<and> o_Scanner x = s \<and> o_Kind x = NormKindString) (fst (detectStringOutliers cs flat f s))"
    using found small by (cases ?big) auto
  assume d: "snd (detectStringOutliers cs flat f s) = Some d"
  then have n: ?big using few by auto
  from found n d show "map o_Cluster (fst (detectStringOutliers cs flat f s)) = flagged_clusters d" by auto
  from found n d show "d_Kind d = NormKindString \<and> subseq (map cv_Cluster (d_Values d)) cs"
    by (auto simp: pop_keys)
qed

interpretation sets: norm_detector detectSetOutliers NormKindSet
proof unfold_locales
  fix cs flat f s and d :: Distribution
  have few: "snd (detectSetOutliers cs flat f s) = None \<longleftrightarrow> set_pop cs flat f = []"
    by (simp add: detectSetOutliers_def Let_def)
  show "snd (detectSetOutliers cs flat f s) = None \<Longrightarrow> fst (detectSetOutliers cs flat f s) = []"
    using few set_none [of cs flat f s] by simp
  assume cs: "distinct cs"
  note found = set_found [OF cs, of flat f s]
  show "list_all (\<lambda>x. o_Field x = f \<and> o_Scanner x = s \<and> o_Kind x = NormKindSet) (fst (detectSetOutliers cs flat f s))"
    using found set_none [of cs flat f s] by (cases "set_pop cs flat f = []") auto
  assume d: "snd (detectSetOutliers cs flat f s) = Some d"
  then have n: "set_pop cs flat f \<noteq> []" using few by auto
  from found [OF n] d show "map o_Cluster (fst (detectSetOutliers cs flat f s)) = flagged_clusters d" by auto
  from found [OF n] d show "d_Kind d = NormKindSet \<and> subseq (map cv_Cluster (d_Values d)) cs"
    by (auto simp: pop_keys)
qed

end
