(* ===== verification/Norm_Laws.thy ===== *)
theory Norm_Laws
  imports Norm_Detect
begin

text \<open>
  What the fleet norms promise: the numeric detector flags a minority however extreme its values are,
  the exact rule of a field without spread, the string and set detectors and the order of the results
  do not depend on the order a map is visited in, and the outliers of a pass are the marks of its
  distributions. Shares and cutoffs computed in float64 decide the exact integer inequalities.
\<close>

section \<open>Medians split a population\<close>

lemma above_median:
  assumes "\<forall>v \<in> set vals. is_f64 v"
  shows "2 * length (filter (\<lambda>v. Median vals < v) vals) \<le> length vals"
proof (cases "vals = []")
  case False
  define s where "s = sort vals"
  define n where "n = length vals"
  define k where "k = (n - 1) div 2 + 1"
  have n0: "0 < n" "length s = n" using False by (auto simp: n_def s_def)
  then have "k \<le> n" "2 * (n - k) \<le> n" unfolding k_def by presburger+
  note n = n0 this
  have sorted: "sorted s" by (simp add: s_def)
  have low: "x \<le> Median vals" if "x \<in> set (take k s)" for x
  proof -
    from that obtain i where i: "i < k" "i < n" "x = s ! i" using n by (auto simp: in_set_conv_nth)
    have "x \<le> s ! ((n - 1) div 2)"
      unfolding i(3) using sorted i n by (intro sorted_nth_mono) (auto simp: k_def)
    also have "\<dots> \<le> Median vals" using Median_between(1) [OF False assms] by (simp add: s_def n_def)
    finally show ?thesis .
  qed
  have "mset (filter (\<lambda>v. Median vals < v) vals) = mset (filter (\<lambda>v. Median vals < v) s)"
    by (simp add: s_def)
  then have "length (filter (\<lambda>v. Median vals < v) vals) = length (filter (\<lambda>v. Median vals < v) (take k s @ drop k s))"
    by (metis append_take_drop_id mset_eq_length)
  also have "\<dots> = length (filter (\<lambda>v. Median vals < v) (drop k s))"
    unfolding filter_append using low by (simp add: filter_False not_less)
  also have "\<dots> \<le> n - k" using n by (metis length_drop length_filter_le)
  finally show ?thesis using n(4) by (simp add: n_def)
qed simp

lemma abs_f64: "\<bar>f64 x\<bar> = f64 \<bar>x\<bar>"
  by (cases "0 \<le> x") (auto simp: abs_of_neg abs_of_nonneg f64_nonneg f64_uminus not_le f64_nonpos)

lemma abs_fsub_f64 [simp]: "is_f64 \<bar>fsub a b\<bar>"
  by (simp add: fsub_def abs_f64)

lemma madScale_bounds: "0 \<le> madScale" "madScale \<le> 1"
proof -
  show "0 \<le> madScale" by (simp add: madScale_def f64_nonneg)
  show "madScale \<le> 1" unfolding madScale_def using is_f64_of_int [of 1] by (intro f64_le_f64) auto
qed

lemma modified_z_le:
  assumes "\<bar>fsub v m\<bar> \<le> mad" "0 < mad" "is_f64 mad"
  shows "\<bar>modified_z v m mad\<bar> \<le> 1"
proof -
  have "\<bar>fmul madScale (fsub v m)\<bar> \<le> \<bar>fsub v m\<bar>"
    unfolding fmul_def abs_f64 abs_mult using madScale_bounds
    by (intro f64_le_f64) (auto intro: mult_left_le_one_le)
  with assms have "\<bar>fmul madScale (fsub v m) / mad\<bar> \<le> 1" by simp
  then show ?thesis unfolding modified_z_def fdiv_def abs_f64 using is_f64_of_int [of 1]
    by (intro f64_le_f64) auto
qed

lemma cappedZ_small: "\<bar>z\<bar> \<le> 1 \<Longrightarrow> cappedZ z = z"
  by (auto simp: cappedZ_def maxFloat64_def)

lemma computeMAD_nonneg: "0 \<le> computeMAD vals m"
proof (cases "vals = []")
  case True
  then show ?thesis by (simp add: computeMAD_def Median_def)
next
  case False
  let ?d = "map (\<lambda>v. \<bar>fsub v m\<bar>) vals"
  have ne: "?d \<noteq> []" and f: "\<forall>v \<in> set ?d. is_f64 v" using False by auto
  have "sort ?d ! ((length ?d - 1) div 2) \<in> set (sort ?d)"
    using False by (intro nth_mem) (simp add: div_less_dividend le_less_trans [OF div_le_dividend])
  then have "0 \<le> sort ?d ! ((length ?d - 1) div 2)" by auto
  then show ?thesis using Median_between(1) [OF ne f] unfolding computeMAD_def by linarith
qed

lemma Median_f64: "vals \<noteq> [] \<Longrightarrow> \<forall>v \<in> set vals. is_f64 v \<Longrightarrow> is_f64 (Median vals)"
proof -
  assume a: "vals \<noteq> []" "\<forall>v \<in> set vals. is_f64 v"
  have "sort vals ! (length vals div 2) \<in> set (sort vals)" using a(1) by (intro nth_mem) auto
  then show ?thesis using a by (auto simp: Median_def Let_def fdiv_def)
qed

lemma computeMAD_f64: "vals \<noteq> [] \<Longrightarrow> is_f64 (computeMAD vals m)"
  unfolding computeMAD_def by (rule Median_f64) auto

lemma share_ge_iff:
  assumes "p \<le> n" "0 < n" "n * 5 < 2 ^ 52"
  shows "f64 (3 / 5) \<le> fdiv (of_int64 (int p)) (of_int64 (int n)) \<longleftrightarrow> 3 * n \<le> 5 * p"
proof -
  have s: "int n * 5 < 2 ^ 52" using assms(3) by (metis of_nat_less_iff of_nat_mult of_nat_numeral of_nat_power)
  have "of_int64 (int p) = of_int (int p)" "of_int64 (int n) = of_int (int n)"
    unfolding of_int64_def using assms s by (intro f64_of_int; simp)+
  then have "fdiv (of_int64 (int p)) (of_int64 (int n)) = f64 (of_int (int p) / of_int (int n))"
    by (simp only: fdiv_def)
  moreover have "f64 (of_int 3 / of_int 5) \<le> f64 (of_int (int p) / of_int (int n)) \<longleftrightarrow> 3 * int n \<le> int p * 5"
    using assms s by (intro f64_frac_le_iff) auto
  ultimately show ?thesis by simp linarith
qed

lemma length_filter_not: "length (filter (\<lambda>x. \<not> P x) xs) = length xs - length (filter P xs)"
  using sum_length_filter_compl [of P xs] by linarith

lemma length_filter_mono: "(\<And>x. P x \<Longrightarrow> Q x) \<Longrightarrow> length (filter P xs) \<le> length (filter Q xs)"
  by (induction xs) (auto intro: le_SucI)

lemma numeric_minority:
  assumes f: "\<forall>v \<in> set vals. is_f64 v" and t: "1 \<le> t" and n: "length vals * 5 < 2 ^ 52"
  shows "2 * length (filter (numeric_flag vals t) vals) \<le> length vals"
proof (cases "vals = []")
  case False
  define m where "m = Median vals"
  define mad where "mad = computeMAD vals m"
  show ?thesis
  proof (cases "mad = 0")
    case True
    then have flag: "numeric_flag vals t = (\<lambda>v. v \<noteq> m \<and> minStringModeMass \<le> median_share vals)"
      by (auto simp: numeric_flag_def m_def [symmetric] mad_def [symmetric] Let_def)
    have "length (filter (\<lambda>v. v \<noteq> m) vals) = length vals - at_median vals"
      by (simp add: at_median_def m_def length_filter_not)
    moreover have "minStringModeMass \<le> median_share vals \<longleftrightarrow> 3 * length vals \<le> 5 * at_median vals"
      unfolding minStringModeMass_def median_share_def using False n
      by (intro share_ge_iff) (auto simp: at_median_def)
    ultimately show ?thesis unfolding flag by (cases "minStringModeMass \<le> median_share vals") auto
  next
    case mad: False
    then have pos: "0 < mad" using computeMAD_nonneg [of vals m] by (simp add: mad_def)
    have mf: "is_f64 mad" unfolding mad_def using False by (rule computeMAD_f64)
    let ?dev = "\<lambda>v. \<bar>fsub v m\<bar>"
    have "mad < ?dev v" if "numeric_flag vals t v" for v
    proof (rule ccontr)
      assume "\<not> mad < ?dev v"
      then have "\<bar>modified_z v m mad\<bar> \<le> 1" using pos mf by (intro modified_z_le) auto
      then have "\<bar>cappedZ (modified_z v m mad)\<bar> \<le> t" using t by (simp add: cappedZ_small)
      then show False using that mad by (simp add: numeric_flag_def m_def [symmetric] mad_def [symmetric] Let_def)
    qed
    then have "length (filter (numeric_flag vals t) vals) \<le> length (filter (\<lambda>v. mad < ?dev v) vals)"
      by (rule length_filter_mono)
    also have "\<dots> = length (filter (\<lambda>d. Median (map ?dev vals) < d) (map ?dev vals))"
      by (simp add: filter_map o_def mad_def computeMAD_def)
    finally show ?thesis using above_median [of "map ?dev vals"] by simp
  qed
qed simp

section \<open>Properties of the numeric detector\<close>

lemma set_map_filter_iff: "y \<in> set (List.map_filter g xs) \<longleftrightarrow> (\<exists>x \<in> set xs. g x = Some y)"
  by (induction xs) (auto simp: map_filter_simps split: option.splits)

lemma util_Float64_Some: "util_Float64 j = Some v \<longleftrightarrow> j = JNum v"
  by (cases j) (auto simp: util_Float64_def)

lemma number_pop_iff: "(c, v) \<in> set (number_pop cs flat f) \<longleftrightarrow> c \<in> set cs \<and> flat_get flat c f = Some (JNum v)"
  unfolding number_pop_def set_map_filter_iff by (auto simp: bind_eq_Some_conv util_Float64_Some)

lemma pop_vals_in: "v \<in> set (map snd (number_pop cs flat f)) \<Longrightarrow> \<exists>c \<in> set cs. flat_get flat c f = Some (JNum v)"
  by (auto simp: number_pop_iff)


definition sample_flat :: "float64 list \<Rightarrow> string list \<times> flat" where
  "sample_flat vs =
     (map (\<lambda>i. nat_to_string i) [0..<length vs],
      map (\<lambda>(i, v). (nat_to_string i, [(''n'', JNum v)])) (zip [0..<length vs] vs))"


text \<open>C15. The numeric detector is robust: whatever the values, with a threshold of at least one it never
  reports more than half of the population, so deviant clusters cannot turn the normal ones into
  outliers.\<close>

theorem detectNumericOutliers_minority:
  assumes "distinct cs" "1 \<le> t" "length cs * 5 < 2 ^ 52"
    and "\<forall>c \<in> set cs. \<forall>v. flat_get flat c f = Some (JNum v) \<longrightarrow> is_f64 v"
  shows "2 * length (fst (detectNumericOutliers cs flat f s t)) \<le> length (number_pop cs flat f)"
proof (cases "minMADSample \<le> length (number_pop cs flat f)")
  case False
  then show ?thesis by (simp add: numeric_small)
next
  case True
  define vals where "vals = map snd (number_pop cs flat f)"
  have "length vals \<le> length cs"
    unfolding vals_def by (metis pop_keys(1) length_filter_le length_map)
  then have small: "length vals * 5 < 2 ^ 52" using assms(3) by simp
  have f64: "\<forall>v \<in> set vals. is_f64 v"
    unfolding vals_def using pop_vals_in assms(4) by blast
  from numeric_found [OF assms(1) True, of s t]
  have "length (fst (detectNumericOutliers cs flat f s t)) =
      length (filter (\<lambda>p. numeric_flag vals t (snd p)) (number_pop cs flat f))"
    unfolding vals_def by (metis length_map)
  also have "\<dots> = length (filter (numeric_flag vals t) vals)"
    by (simp add: vals_def filter_map o_def)
  finally show ?thesis using numeric_minority [OF f64 assms(2) small] by (simp add: vals_def)
qed

theorem detectNumericOutliers_minority_witness:
  "let (cs, flat) = sample_flat [1, 2, 1, 2, 1, 2, 1, 2, 900, 800]
   in (\<forall>c \<in> set cs. \<forall>v. flat_get flat c ''n'' = Some (JNum v) \<longrightarrow> is_f64 v) \<and>
      2 * length (fst (detectNumericOutliers cs flat ''n'' ''metrics'' (7 / 2))) \<le> 10"
proof -
  let ?s = "sample_flat [1, 2, 1, 2, 1, 2, 1, 2, 900, 800]"
  have d: "distinct (fst ?s)" by code_simp
  have l: "length (fst ?s) * 5 < 2 ^ 52" by (simp add: sample_flat_def)
  have "list_all (\<lambda>c. case flat_get (snd ?s) c ''n'' of Some (JNum v) \<Rightarrow> is_f64 v | _ \<Rightarrow> True) (fst ?s)" by code_simp
  then have f: "\<forall>c \<in> set (fst ?s). \<forall>v. flat_get (snd ?s) c ''n'' = Some (JNum v) \<longrightarrow> is_f64 v"
    by (fastforce simp: list_all_iff)
  have n: "length (number_pop (fst ?s) (snd ?s) ''n'') = 10" by code_simp
  have "2 * length (fst (detectNumericOutliers (fst ?s) (snd ?s) ''n'' ''metrics'' (7 / 2))) \<le> 10"
    using detectNumericOutliers_minority [OF d _ l f, of "7 / 2" "''metrics''"] n by simp
  with f show ?thesis by (simp add: case_prod_beta)
qed



section \<open>Counting values\<close>

lemma fold_incr_lookup:
  "lookup_default 0 (fold map_incr vs m) v = lookup_default 0 m v + int (count_list vs v)"
  by (induction vs arbitrary: m) (simp_all add: lookup_default_incr)

lemma count_values_lookup [simp]: "lookup_default 0 (count_values vs) v = int (count_list vs v)"
  unfolding count_values_def fold_incr_lookup by (simp add: lookup_default_def)

lemma fold_incr_distinct: "distinct (map fst m) \<Longrightarrow> distinct (map fst (fold map_incr vs m))"
  by (induction vs arbitrary: m) simp_all

lemma count_values_distinct [simp]: "distinct (map fst (count_values vs))"
  unfolding count_values_def by (rule fold_incr_distinct) simp

lemma count_values_keys [simp]: "fst ` set (count_values vs) = set vs"
proof -
  have "fst ` set (fold map_incr vs m) = fst ` set m \<union> set vs" for m :: "(string, int) gomap"
    by (induction vs arbitrary: m) auto
  from this [of "[]"] show ?thesis by (simp add: count_values_def)
qed

lemma count_values_iff: "(v, n) \<in> set (count_values vs) \<longleftrightarrow> v \<in> set vs \<and> n = int (count_list vs v)"
proof -
  have "(v, n) \<in> set (count_values vs) \<longleftrightarrow> map_of (count_values vs) v = Some n" by (simp add: map_of_eq_Some_iff)
  also have "\<dots> \<longleftrightarrow> v \<in> set vs \<and> n = int (count_list vs v)"
  proof -
    have "map_of (count_values vs) v \<noteq> None \<longleftrightarrow> v \<in> set vs"
      by (metis count_values_keys map_of_eq_None_iff)
    then show ?thesis using count_values_lookup [of vs v]
      by (cases "map_of (count_values vs) v") (auto simp: lookup_default_def simp del: count_values_lookup map_of_eq_Some_iff)
  qed
  finally show ?thesis .
qed

lemma length_count_values: "length (count_values vs) = card (set vs)"
  by (metis count_values_distinct count_values_keys distinct_card length_map list.set_map)

text \<open>The scan keeps the value with the larger count, the smaller string among equal counts.\<close>

definition beats :: "string \<times> int \<Rightarrow> string \<times> int \<Rightarrow> bool" where
  "beats x y \<longleftrightarrow> snd y < snd x \<or> (snd y = snd x \<and> fst x \<le> fst y)"

lemma dominant_fold:
  "foldl dominant_step acc xs \<in> insert acc (set xs) \<and> (\<forall>y \<in> insert acc (set xs). beats (foldl dominant_step acc xs) y)"
proof (induction xs rule: rev_induct)
  case Nil
  show ?case by (simp add: beats_def)
next
  case (snoc x xs)
  define r where "r = foldl dominant_step acc xs"
  from snoc.IH have IH: "r \<in> insert acc (set xs)" "\<forall>y \<in> insert acc (set xs). beats r y" by (simp_all add: r_def)
  show ?case
  proof (cases "dominant_step r x = x")
    case True
    then have "beats x r" by (cases r; cases x) (auto simp: dominant_step_def beats_def split: if_splits)
    with IH have "\<forall>y \<in> insert acc (set xs). beats x y" by (fastforce simp: beats_def)
    moreover have "beats x x" by (simp add: beats_def)
    ultimately show ?thesis using True by (simp add: r_def [symmetric])
  next
    case False
    then have "dominant_step r x = r" "beats r x"
      by (cases r; cases x; auto simp: dominant_step_def beats_def not_less split: if_splits)+
    with IH show ?thesis by (auto simp: r_def [symmetric])
  qed
qed

lemma dominantString_counts:
  assumes "vs \<noteq> []"
  shows "dominantString (count_values vs) \<in> set vs"
    and "v \<in> set vs \<Longrightarrow> count_list vs v \<le> count_list vs (dominantString (count_values vs))"
    and "v \<in> set vs \<Longrightarrow> count_list vs v = count_list vs (dominantString (count_values vs)) \<Longrightarrow>
         dominantString (count_values vs) \<le> v"
proof -
  define r where "r = foldl dominant_step ('''', 0) (count_values vs)"
  have r: "r \<in> insert ('''', 0) (set (count_values vs))" "\<forall>y \<in> insert ('''', 0) (set (count_values vs)). beats r y"
    using dominant_fold [of "('''', 0)" "count_values vs"] by (simp_all add: r_def)
  have D: "dominantString (count_values vs) = fst r" by (simp add: dominantString_def r_def)
  obtain w where w: "w \<in> set vs" using assms by (cases vs) auto
  then have "(w, int (count_list vs w)) \<in> set (count_values vs)" by (simp add: count_values_iff)
  with r have b: "beats r (w, int (count_list vs w))" by blast
  moreover have "0 < count_list vs w" using w by (metis count_list_0_iff gr0I)
  ultimately have "r \<noteq> ('''', 0)" by (auto simp: beats_def)
  with r have "r \<in> set (count_values vs)" by blast
  then have rc: "fst r \<in> set vs" "snd r = int (count_list vs (fst r))"
    by (metis count_values_iff prod.collapse)+
  show "dominantString (count_values vs) \<in> set vs" using rc D by simp
  show "count_list vs v \<le> count_list vs (dominantString (count_values vs))" if "v \<in> set vs"
  proof -
    have "beats r (v, int (count_list vs v))" using r(2) that by (simp add: count_values_iff)
    then show ?thesis using rc D by (auto simp: beats_def)
  qed
  show "dominantString (count_values vs) \<le> v"
    if "v \<in> set vs" "count_list vs v = count_list vs (dominantString (count_values vs))"
  proof -
    have "beats r (v, int (count_list vs v))" using r(2) that by (simp add: count_values_iff)
    then show ?thesis using rc D that by (auto simp: beats_def)
  qed
qed

lemma count_list_two: "a \<noteq> b \<Longrightarrow> count_list vs a + count_list vs b \<le> length vs"
  by (induction vs) auto

lemma majority_dominant:
  assumes "vs \<noteq> []" "length vs < 2 * count_list vs mode"
  shows "dominantString (count_values vs) = mode"
proof (rule ccontr)
  assume ne: "dominantString (count_values vs) \<noteq> mode"
  have "mode \<in> set vs" using assms(2) by (metis count_notin mult_0_right not_less_zero)
  then have "count_list vs mode \<le> count_list vs (dominantString (count_values vs))"
    using dominantString_counts(2) [OF assms(1)] by blast
  then show False using count_list_two [OF ne, of vs] assms(2) by linarith
qed



section \<open>Properties of the string detector\<close>

lemma string_flag_iff:
  assumes "vs \<noteq> []" "length vs * 5 < 2 ^ 52"
  shows "string_flag vs v \<longleftrightarrow> (\<exists>mode. mode \<noteq> '''' \<and> mode \<noteq> v \<and> 3 * length vs \<le> 5 * count_list vs mode)"
proof -
  let ?m = "dominantString (count_values vs)"
  have share: "minStringModeMass \<le> string_share vs \<longleftrightarrow> 3 * length vs \<le> 5 * count_list vs ?m"
    unfolding minStringModeMass_def string_share_def count_values_lookup
    using assms by (intro share_ge_iff count_le_length) auto
  have uniq: "mode = ?m" if "3 * length vs \<le> 5 * count_list vs mode" for mode
  proof -
    have "0 < length vs" using assms(1) by simp
    then have "length vs < 2 * count_list vs mode" using that by linarith
    then show ?thesis using majority_dominant [OF assms(1)] by simp
  qed
  show ?thesis unfolding string_flag_def share using uniq by metis
qed

lemma filter_count_le: "\<not> Q m \<Longrightarrow> length (filter Q vs) + count_list vs m \<le> length vs"
  by (induction vs) auto

lemma text_pop_length: "length (text_pop cs flat f) \<le> length cs"
  by (metis pop_keys(2) length_filter_le length_map)

lemma string_flag_none:
  assumes "card (set vs) \<le> 1"
  shows "\<not> (\<exists>mode. mode \<noteq> '''' \<and> mode \<noteq> v \<and> 3 * length vs \<le> 5 * count_list vs mode) \<or> v \<notin> set vs"
proof (cases "v \<in> set vs")
  case True
  then have "set vs = {v}" using assms by (metis List.finite_set card_1_singletonE card_0_eq empty_iff le_antisym less_one not_less singletonD)
  then have "count_list vs mode = 0" if "mode \<noteq> v" for mode using that by (simp add: count_list_0_iff)
  moreover have "vs \<noteq> []" using True by auto
  ultimately show ?thesis by fastforce
qed simp

text \<open>A string field flags a cluster exactly when some non-empty value other than its own is held by
  at least three fifths of the population. There is at most one such value, so no cluster is flagged
  in a tied or near-tied population, and at most two fifths of the population ever are.\<close>

lemma detectStringOutliers_spec:
  assumes "distinct cs" "length cs * 5 < 2 ^ 52"
  shows "let pop = text_pop cs flat f; vs = map snd pop; found = fst (detectStringOutliers cs flat f s)
         in map o_Cluster found =
              map fst (filter (\<lambda>p. \<exists>mode. mode \<noteq> '''' \<and> mode \<noteq> snd p \<and> 3 * length vs \<le> 5 * count_list vs mode) pop)
            \<and> 5 * length found \<le> 2 * length pop"
proof -
  define pop where "pop = text_pop cs flat f"
  define vs where "vs = map snd pop"
  define Q where "Q = (\<lambda>v. \<exists>mode. mode \<noteq> '''' \<and> mode \<noteq> v \<and> 3 * length vs \<le> 5 * count_list vs mode)"
  define found where "found = fst (detectStringOutliers cs flat f s)"
  have small: "length vs * 5 < 2 ^ 52"
    using text_pop_length [of cs flat f] assms(2) by (simp add: vs_def pop_def)
  have hits: "map o_Cluster found = map fst (filter (\<lambda>p. Q (snd p)) pop)"
  proof (cases "1 < length (count_values vs) \<and> pop \<noteq> []")
    case True
    then have "string_flag vs = Q"
      using string_flag_iff [OF _ small] by (intro ext) (simp add: Q_def vs_def)
    then show ?thesis
      using True string_found [OF assms(1), of flat f s] unfolding found_def vs_def pop_def by auto
  next
    case False
    have card: "card (set vs) \<le> 1"
    proof (cases "pop = []")
      case True
      then show ?thesis by (simp add: vs_def)
    next
      case ne: False
      with False show ?thesis by (simp add: length_count_values)
    qed
    have "\<not> Q v" if "v \<in> set vs" for v using string_flag_none [OF card, of v] that unfolding Q_def by blast
    then have "filter (\<lambda>p. Q (snd p)) pop = []" by (auto simp: filter_empty_conv vs_def)
    moreover have "found = []"
      using False string_none [of cs flat f s] unfolding found_def vs_def pop_def by auto
    ultimately show ?thesis by simp
  qed
  then have "length found = length (filter (\<lambda>p. Q (snd p)) pop)" by (metis length_map)
  then have "length found = length (filter Q vs)" by (simp add: vs_def filter_map o_def)
  moreover have "5 * length (filter Q vs) \<le> 2 * length vs"
  proof (cases "\<exists>v \<in> set vs. Q v")
    case True
    then obtain mode where m: "3 * length vs \<le> 5 * count_list vs mode" unfolding Q_def by blast
    have pos: "0 < length vs" using True by (cases vs) auto
    have "\<not> Q mode"
    proof
      assume "Q mode"
      then obtain mode' where "mode' \<noteq> mode" "3 * length vs \<le> 5 * count_list vs mode'" unfolding Q_def by blast
      with count_list_two [of mode' mode vs] m pos show False by linarith
    qed
    then have "length (filter Q vs) + count_list vs mode \<le> length vs" by (rule filter_count_le)
    then show ?thesis using m by linarith
  next
    case False
    then have "filter Q vs = []" by (simp add: filter_empty_conv)
    then show ?thesis by simp
  qed
  moreover have "length vs = length pop" by (simp add: vs_def)
  ultimately have "5 * length found \<le> 2 * length pop" by simp
  with hits show ?thesis
    unfolding Let_def found_def [symmetric] pop_def [symmetric] vs_def [symmetric] Q_def by blast
qed



lemma detectStringOutliers_spec_instance:
  "let cs = [''a'', ''b'', ''c'', ''d'']; obj = (\<lambda>v. [(''os'', JStr v)]);
       flat = [(''a'', obj ''x''), (''b'', obj ''x''), (''c'', obj ''y''), (''d'', obj ''x'')]
   in distinct cs \<and> length cs * 5 < 2 ^ 52 \<and>
      map o_Cluster (fst (detectStringOutliers cs flat ''os'' ''version'')) = [''c'']"
proof -
  let ?cs = "[''a'', ''b'', ''c'', ''d'']" and ?obj = "\<lambda>v. [(''os'', JStr v)]"
  let ?flat = "[(''a'', ?obj ''x''), (''b'', ?obj ''x''), (''c'', ?obj ''y''), (''d'', ?obj ''x'')]"
  have d: "distinct ?cs" by simp
  have l: "length ?cs * 5 < 2 ^ 52" by simp
  have pop: "text_pop ?cs ?flat ''os'' = [(''a'', ''x''), (''b'', ''x''), (''c'', ''y''), (''d'', ''x'')]" by code_simp
  have Q: "(\<exists>mode::string. mode \<noteq> '''' \<and> mode \<noteq> v \<and> 3 * length [''x'', ''x'', ''y'', ''x''] \<le> 5 * count_list [''x'', ''x'', ''y'', ''x''] mode) = (v \<noteq> ''x'')" for v
    by (auto split: if_splits)
  have "map o_Cluster (fst (detectStringOutliers ?cs ?flat ''os'' ''version'')) =
      map fst (filter (\<lambda>p. snd p \<noteq> ''x'') [(''a'', ''x''), (''b'', ''x''), (''c'', ''y''), (''d'', ''x'')])"
    using detectStringOutliers_spec [OF d l, of ?flat "''os''" "''version''"]
    unfolding pop Let_def list.map snd_conv Q by (rule conjunct1)
  then show ?thesis unfolding Let_def using d l by simp
qed

section \<open>Properties of the set detector\<close>

text \<open>Three fifths is a little above its float64, and the product with a population size still rounds
  to the right side of every integer.\<close>

lemma three_fifths: "f64 (3 / 5) = 5404319552844595 / 2 ^ 53"
  by code_simp

lemma round_even_near:
  assumes "\<bar>y - of_int n\<bar> < 1 / 2"
  shows "round_even y = n"
proof -
  have "\<bar>of_int (round_even y) - of_int n :: rat\<bar> < 1"
    using round_even_error [of y] assms by linarith
  then show ?thesis by linarith
qed

lemma f64_near_int:
  fixes k :: int
  assumes k: "0 < k" "k < 2 ^ 50" and x: "x = of_int (3 * k) - of_int k / 2 ^ 53"
  shows "f64 x = of_int (3 * k)"
proof -
  have x0: "0 < x" unfolding x using k by (simp add: field_simps)
  have xle: "x \<le> of_int (3 * k)" unfolding x using k by simp
  have up: "f64 x \<le> of_int (3 * k)"
    using k xle by (intro f64_le_f64 is_f64_of_int) auto
  define e where "e = ilog2 x"
  have e: "2 powi e \<le> x" "x < 2 powi (e + 1)" using ilog2_bounds [OF x0] by (simp_all add: e_def)
  have e0: "0 \<le> e" unfolding e_def
  proof (rule ilog2_ge [OF x0])
    show "2 powi 0 \<le> x" unfolding x using k by (simp add: field_simps)
  qed
  have "x < 2 powi 52" unfolding x using k by (simp add: field_simps)
  then have e52: "e < 52" unfolding e_def by (rule ilog2_less [OF x0])
  have ex: "expo x = e - 52" using e0 x0 by (simp add: expo_def e_def emin_def)
  have "of_int k < (2::rat) powi e"
  proof -
    have "of_int k * 2 < x" unfolding x using k by (simp add: field_simps)
    also have "x < 2 * 2 powi e" using e(2) by (simp add: powi_two_add)
    finally show ?thesis by simp
  qed
  moreover have "of_int (3 * k) - x = of_int k / 2 ^ 53" by (simp add: x)
  moreover have "(2::rat) powi (e - 52) = 2 powi e / 2 ^ 52" by (simp add: powi_two_diff)
  ultimately have err: "of_int (3 * k) - x < 2 powi expo x / 2"
    unfolding ex by simp
  have lo: "of_int (3 * k) - 2 powi expo x / 2 < x" using err by linarith
  show ?thesis
  proof -
    have grid: "of_int (3 * k) = of_int (3 * k * 2 ^ nat (52 - e)) * (2::rat) powi (e - 52)"
      using e52 by (simp add: power_int_def powi_two_diff field_simps flip: power_add)
    define N where "N = 3 * k * 2 ^ nat (52 - e)"
    have q: "x / 2 powi expo x \<le> of_int N" "of_int N - 1 / 2 < x / 2 powi expo x"
    proof -
      have g: "of_int (3 * k) = of_int N * (2::rat) powi expo x" using grid by (simp add: N_def ex)
      show "x / 2 powi expo x \<le> of_int N" using xle g by (simp add: divide_le_eq)
      show "of_int N - 1 / 2 < x / 2 powi expo x" using lo g by (simp add: less_divide_eq algebra_simps)
    qed
    then have "\<bar>x / 2 powi expo x - of_int N\<bar> < 1 / 2" by (simp add: abs_if)
    then have "round_even (x / 2 powi expo x) = N" by (rule round_even_near)
    then show ?thesis using x0 grid by (simp add: f64_pos_eq N_def ex)
  qed
qed

lemma consensus_count_eq:
  assumes "n < 2 ^ 49"
  shows "consensus_count n = int ((3 * n + 4) div 5)"
proof -
  have nz: "int n < 2 ^ 49" using assms by (metis of_nat_less_iff of_nat_numeral of_nat_power)
  have n64: "of_int64 (int n) = of_int (int n)" unfolding of_int64_def using nz by (intro f64_of_int) simp
  define x where "x = of_int (int n) * (5404319552844595 / 2 ^ 53 :: rat)"
  have C: "consensus_count n = \<lceil>f64 x\<rceil>"
    by (simp only: consensus_count_def minSetConsensusShare_def three_fifths fmul_def n64 x_def)
  have x: "x = of_int (3 * int n) / 5 - of_int (int n) / (5 * 2 ^ 53)" unfolding x_def by (simp add: field_simps)
  show ?thesis
  proof (cases "5 dvd n")
    case True
    then obtain k where k: "n = 5 * k" by blast
    show ?thesis
    proof (cases "k = 0")
      case True
      then show ?thesis using C k x by simp
    next
      case False
      have "x = of_int (3 * int k) - of_int (int k) / 2 ^ 53" unfolding x k by (simp add: field_simps)
      then have "f64 x = of_int (3 * int k)" using False nz k by (intro f64_near_int) auto
      then have "consensus_count n = 3 * int k" unfolding C by (simp only: ceiling_of_int)
      moreover have "(3 * n + 4) div 5 = 3 * k" unfolding k by presburger
      ultimately show ?thesis by simp
    qed
  next
    case False
    define lo where "lo = int (3 * n div 5)"
    have bounds: "5 * lo + 1 \<le> 3 * int n" "3 * int n \<le> 5 * lo + 4" "0 \<le> lo" "int ((3 * n + 4) div 5) = lo + 1"
      using False unfolding lo_def by presburger+
    have r: "5 * rat_of_int lo + 1 \<le> 3 * rat_of_int (int n)" "3 * rat_of_int (int n) \<le> 5 * rat_of_int lo + 4"
      using bounds by linarith+
    have "rat_of_int (int n) < rat_of_int (2 ^ 49)" using nz by (simp only: of_int_less_iff)
    then have small: "rat_of_int (int n) < 2 ^ 49" by simp
    have "of_int (8 * lo + 1) * 2 powi (- 3) \<le> x"
    proof -
      have "of_int (8 * lo + 1) * 2 powi (- 3) = rat_of_int lo + 1 / 8" by (simp add: power_int_minus divide_simps)
      moreover have "rat_of_int (int n) / (5 * 2 ^ 53) \<le> 1 / 80" using small by (simp add: field_simps)
      ultimately show ?thesis unfolding x using r by (simp add: field_simps)
    qed
    moreover have "is_f64 (of_int (8 * lo + 1) * 2 powi (- 3))"
    proof -
      have "\<bar>8 * lo + 1\<bar> < 2 ^ 53" using bounds nz by simp
      moreover have "emin \<le> - 3" by (simp add: emin_def)
      ultimately show ?thesis unfolding is_f64_def by (rule f64_exact)
    qed
    ultimately have low: "rat_of_int lo + 1 / 8 \<le> f64 x"
      using f64_ge_f64 [of "of_int (8 * lo + 1) * 2 powi (- 3)" x] by (simp add: power_int_minus divide_simps)
    have up: "f64 x \<le> of_int (lo + 1)"
    proof (intro f64_le_f64 is_f64_of_int)
      show "\<bar>lo + 1\<bar> < 2 ^ 53" using bounds nz by simp
      show "x \<le> of_int (lo + 1)" unfolding x using r by (simp add: field_simps)
    qed
    have "\<lceil>f64 x\<rceil> = lo + 1" using low up by (intro ceiling_unique) auto
    then show ?thesis using C bounds by simp
  qed
qed

definition holders :: "(string \<times> string list) list \<Rightarrow> string \<Rightarrow> nat" where
  "holders pop i = length (filter (\<lambda>p. i \<in> set (snd p)) pop)"

lemma distinct_count_in: "distinct xs \<Longrightarrow> count_list xs i = (if i \<in> set xs then 1 else 0)"
  by (induction xs) auto

lemma holders_count:
  "\<forall>p \<in> set pop. distinct (snd p) \<Longrightarrow> count_list (concat (map snd pop)) i = holders pop i"
  by (induction pop) (auto simp: holders_def count_list_append distinct_count_in count_notin)

lemma consensus_of_iff:
  assumes "\<forall>p \<in> set pop. distinct (snd p)" "distinct (map fst pop)" "pop \<noteq> []" "length pop < 2 ^ 49"
  shows "i \<in> set (consensus_of pop) \<longleftrightarrow> 3 * length pop \<le> 5 * holders pop i"
proof -
  have n: "length (remdups (map fst pop)) = length pop" using assms(2) by (metis distinct_remdups_id length_map)
  have "i \<in> set (consensus_of pop) \<longleftrightarrow>
      i \<in> set (concat (map snd pop)) \<and> consensus_count (length pop) \<le> int (count_list (concat (map snd pop)) i)"
    unfolding consensus_of_def Let_def n by (force simp: count_values_iff image_iff)
  also have "\<dots> \<longleftrightarrow> i \<in> set (concat (map snd pop)) \<and> 3 * length pop \<le> 5 * holders pop i"
    unfolding holders_count [OF assms(1)] consensus_count_eq [OF assms(4)] by auto
  also have "\<dots> \<longleftrightarrow> 3 * length pop \<le> 5 * holders pop i"
  proof -
    have "i \<in> set (concat (map snd pop))" if "3 * length pop \<le> 5 * holders pop i"
    proof -
      have "holders pop i \<noteq> 0" using that assms(3) by (cases pop) auto
      then show ?thesis by (auto simp: holders_def filter_empty_conv)
    qed
    then show ?thesis by blast
  qed
  finally show ?thesis .
qed

text \<open>The set detector measures every cluster against the members that at least three fifths of the
  population hold, exactly: each reported cluster lacks a member of that consensus and its result
  lists all the consensus members it lacks and nothing else, sorted; each cluster of the population
  that lacks none is not reported. A cluster's own list is taken to hold no member twice.\<close>

lemma detectSetOutliers_spec:
  assumes "distinct cs" "length cs < 2 ^ 49"
    and "\<forall>p \<in> set (set_pop cs flat f). distinct (snd p)"
  shows "let pop = set_pop cs flat f; found = fst (detectSetOutliers cs flat f s);
             lacks = (\<lambda>items. {i. 3 * length pop \<le> 5 * length (filter (\<lambda>p. i \<in> set (snd p)) pop) \<and> i \<notin> set items})
         in map o_Cluster found = map fst (filter (\<lambda>p. lacks (snd p) \<noteq> {}) pop) \<and>
            list_all2 (\<lambda>x p. set (o_Missing x) = lacks (snd p) \<and> sorted (o_Missing x) \<and> distinct (o_Missing x))
              found (filter (\<lambda>p. lacks (snd p) \<noteq> {}) pop)"
proof (cases "set_pop cs flat f = []")
  case True
  then show ?thesis by (simp add: set_none)
next
  case False
  define pop where "pop = set_pop cs flat f"
  define cons where "cons = consensus_of pop"
  define lacks where "lacks items = {i. 3 * length pop \<le> 5 * length (filter (\<lambda>p. i \<in> set (snd p)) pop) \<and> i \<notin> set items}"
    for items
  have len: "length pop < 2 ^ 49"
    using assms(2) unfolding pop_def by (metis le_less_trans length_filter_le length_map pop_keys(3))
  have "i \<in> set cons \<longleftrightarrow> 3 * length pop \<le> 5 * length (filter (\<lambda>p. i \<in> set (snd p)) pop)" for i
    unfolding cons_def using consensus_of_iff [of pop i] assms pop_distinct(3) [OF assms(1)] False len
    by (simp add: pop_def holders_def)
  then have miss: "set (missing_of cons items) = lacks items" for items
    by (auto simp: missing_of_def lacks_def)
  have "sorted cons" "distinct cons"
    unfolding cons_def consensus_of_def Let_def by (simp_all add: distinct_map_filter)
  then have sd: "sorted (missing_of cons items)" "distinct (missing_of cons items)" for items
    by (simp_all add: missing_of_def sorted_wrt_filter)
  have hit: "filter (\<lambda>(_, items). missing_of cons items \<noteq> []) pop = filter (\<lambda>p. lacks (snd p) \<noteq> {}) pop"
    unfolding filter_pairs by (intro filter_cong) (auto simp: miss [symmetric])
  have found: "fst (detectSetOutliers cs flat f s) =
      map (set_outlier s f cons (length (remdups (map fst pop)))) (filter (\<lambda>p. lacks (snd p) \<noteq> {}) pop)"
    using False by (simp add: detectSetOutliers_def Let_def pop_def [symmetric] cons_def [symmetric] hit)
  have om: "o_Missing (set_outlier s f cons n p) = missing_of cons (snd p)" for n p
    by (simp add: set_outlier_def Let_def split: prod.splits)
  show ?thesis
    unfolding Let_def found pop_def [symmetric] lacks_def [symmetric]
    by (simp add: list_all2_map1 om miss sd list_all2_same o_def)
qed



lemma detectSetOutliers_spec_instance:
  "let cs = [''a'', ''b'', ''c'']; obj = (\<lambda>xs. [(''names'', JArr (map JStr xs))]);
       flat = [(''a'', obj [''x'', ''y'']), (''b'', obj [''y'', ''x'']), (''c'', obj [''x'', ''z''])]
   in distinct cs \<and> length cs < 2 ^ 49 \<and> (\<forall>p \<in> set (set_pop cs flat ''names''). distinct (snd p)) \<and>
      map o_Cluster (fst (detectSetOutliers cs flat ''names'' ''crds'')) = [''c'']"
proof -
  let ?cs = "[''a'', ''b'', ''c'']" and ?obj = "\<lambda>xs. [(''names'', JArr (map JStr xs))]"
  let ?flat = "[(''a'', ?obj [''x'', ''y'']), (''b'', ?obj [''y'', ''x'']), (''c'', ?obj [''x'', ''z''])]"
  have d: "distinct ?cs" by simp
  have l: "length ?cs < 2 ^ 49" by simp
  have pop: "set_pop ?cs ?flat ''names'' = [(''a'', [''x'', ''y'']), (''b'', [''y'', ''x'']), (''c'', [''x'', ''z''])]"
    by code_simp
  have p: "\<forall>p \<in> set (set_pop ?cs ?flat ''names''). distinct (snd p)" unfolding pop by simp
  have lacks: "{i. 3 * length [(''a'', [''x'', ''y'']), (''b'', [''y'', ''x'']), (''c'', [''x'', ''z''])]
        \<le> 5 * length (filter (\<lambda>p. i \<in> set (snd p)) [(''a'', [''x'', ''y'']), (''b'', [''y'', ''x'']), (''c'', [''x'', ''z''])])
        \<and> i \<notin> set items} = {''x'', ''y''} - set items" for items
    by (auto split: if_splits)
  have "map o_Cluster (fst (detectSetOutliers ?cs ?flat ''names'' ''crds'')) =
      map fst (filter (\<lambda>p. {''x'', ''y''} - set (snd p) \<noteq> {}) [(''a'', [''x'', ''y'']), (''b'', [''y'', ''x'']), (''c'', [''x'', ''z''])])"
    using detectSetOutliers_spec [OF d l p, of "''crds''"] unfolding pop Let_def lacks by (rule conjunct1)
  then have "map o_Cluster (fst (detectSetOutliers ?cs ?flat ''names'' ''crds'')) = [''c'']" by simp
  then show ?thesis unfolding Let_def using d l p by blast
qed

section \<open>Properties of the pass\<close>

lemma sortOutliers_mset [simp]: "mset (sortOutliers xs) = mset xs"
  by (simp add: sortOutliers_def)

lemma sortDistributions_mset [simp]: "mset (sortDistributions xs) = mset xs"
  by (simp add: sortDistributions_def)

definition outlier_key :: "OutlierResult \<Rightarrow> string \<times> string \<times> string" where
  "outlier_key x = (o_Scanner x, o_Field x, o_Cluster x)"

definition marked_keys :: "Distribution \<Rightarrow> (string \<times> string \<times> string) list" where
  "marked_keys d = map (\<lambda>c. (d_Scanner d, d_Field d, c)) (flagged_clusters d)"

lemma detect_field_keys:
  assumes "distinct cs"
  shows "map outlier_key (fst (detect_field cs t (s, f, flat))) =
     (case snd (detect_field cs t (s, f, flat)) of None \<Rightarrow> [] | Some d \<Rightarrow> marked_keys d)"
proof -
  have *: "map outlier_key (fst R) = (case map_option (\<lambda>d. d\<lparr>d_Scanner := s, d_Field := f\<rparr>) (snd R) of None \<Rightarrow> [] | Some d \<Rightarrow> marked_keys d)"
    if "snd R = None \<Longrightarrow> fst R = []" "list_all (\<lambda>x. o_Field x = f \<and> o_Scanner x = s \<and> o_Kind x = k) (fst R)"
      "\<And>d. snd R = Some d \<Longrightarrow> map o_Cluster (fst R) = flagged_clusters d" for R :: "OutlierResult list \<times> Distribution option" and k
  proof (cases "snd R")
    case None
    then show ?thesis using that(1) by simp
  next
    case (Some d)
    have "map outlier_key (fst R) = map (\<lambda>c. (s, f, c)) (map o_Cluster (fst R))"
      using that(2) by (auto simp: outlier_key_def list_all_iff)
    then show ?thesis using Some that(3) [OF Some]
      by (simp add: marked_keys_def flagged_clusters_def)
  qed
  let ?keys = "\<lambda>R. map outlier_key (fst R) =
    (case map_option (\<lambda>d. d\<lparr>d_Scanner := s, d_Field := f\<rparr>) (snd R) of None \<Rightarrow> [] | Some d \<Rightarrow> marked_keys d)"
  have n: "?keys (detectNumericOutliers cs flat f s t)"
    by (rule * [where k = NormKindNumeric])
       (rule numeric.no_population, assumption, rule numeric.stamped [OF assms], rule numeric.marked [OF assms], assumption)
  have st: "?keys (detectStringOutliers cs flat f s)"
    by (rule * [where k = NormKindString])
       (rule str.no_population, assumption, rule str.stamped [OF assms], rule str.marked [OF assms], assumption)
  have se: "?keys (detectSetOutliers cs flat f s)"
    by (rule * [where k = NormKindSet])
       (rule sets.no_population, assumption, rule sets.stamped [OF assms], rule sets.marked [OF assms], assumption)
  show ?thesis
    unfolding detect_field_def prod.case
    using n st se by (simp add: case_prod_beta)
qed


lemma concat_map_option:
  "concat (map (\<lambda>x. case g x of None \<Rightarrow> [] | Some d \<Rightarrow> h d) xs) = concat (map h (List.map_filter g xs))"
  by (induction xs) (auto simp: map_filter_simps split: option.splits)

lemma detect_pass_keys:
  assumes "distinct cs"
  shows "map outlier_key (concat (map fst (map (detect_field cs t) ws))) =
     concat (map marked_keys (List.map_filter snd (map (detect_field cs t) ws)))"
proof -
  have "map outlier_key (fst (detect_field cs t w)) =
      (case snd (detect_field cs t w) of None \<Rightarrow> [] | Some d \<Rightarrow> marked_keys d)" for w
    using detect_field_keys [OF assms, of t "fst w" "fst (snd w)" "snd (snd w)"] by simp
  then have "map outlier_key (concat (map fst (map (detect_field cs t) ws))) =
      concat (map (\<lambda>x. case snd x of None \<Rightarrow> [] | Some d \<Rightarrow> marked_keys d) (map (detect_field cs t) ws))"
    by (simp add: map_concat o_def)
  then show ?thesis unfolding concat_map_option .
qed

lemma scope_keys [simp]:
  "outlier_key (x\<lparr>o_Scope := sc\<rparr>) = outlier_key x" "marked_keys (d\<lparr>d_Scope := sc\<rparr>) = marked_keys d"
  by (simp_all add: outlier_key_def marked_keys_def flagged_clusters_def)

text \<open>The pass over a report loses nothing and invents nothing: taken with their multiplicity, the
  scanner, field and cluster of the outliers it returns are those of the values its distributions
  mark. Every result carries the scope the norm was drawn over, and the outliers are ordered by
  severity, then scanner, cluster and field.\<close>

lemma detectOutliers_marks:
  assumes "distinct cs"
  shows "case detectOutliers r cs t scope of (outliers, dists) \<Rightarrow>
     mset (map (\<lambda>x. (o_Scanner x, o_Field x, o_Cluster x)) outliers) =
       mset (concat (map (\<lambda>d. map (\<lambda>v. (d_Scanner d, d_Field d, cv_Cluster v)) (filter cv_Outlier (d_Values d))) dists)) \<and>
     list_all (\<lambda>x. o_Scope x = scope) outliers \<and> list_all (\<lambda>d. d_Scope d = scope) dists \<and>
     sorted (map (\<lambda>x. (- SeverityRank (o_Severity x), o_Scanner x, o_Cluster x, o_Field x)) outliers)"
proof -
  define found where "found = map (detect_field cs t) (walkFields r cs minMADSample)"
  define xs where "xs = map (\<lambda>x. x\<lparr>o_Scope := scope\<rparr>) (concat (map fst found))"
  define ds where "ds = map (\<lambda>d. d\<lparr>d_Scope := scope\<rparr>) (List.map_filter snd found)"
  have R: "detectOutliers r cs t scope = (sortOutliers xs, sortDistributions ds)"
    by (simp add: detectOutliers_def found_def xs_def ds_def Let_def)
  have mk: "marked_keys = (\<lambda>d. map (\<lambda>v. (d_Scanner d, d_Field d, cv_Cluster v)) (filter cv_Outlier (d_Values d)))"
    by (auto simp: marked_keys_def flagged_clusters_def fun_eq_iff)
  have ok: "outlier_key = (\<lambda>x. (o_Scanner x, o_Field x, o_Cluster x))" by (auto simp: outlier_key_def)
  have "map outlier_key xs = concat (map marked_keys ds)"
    using detect_pass_keys [OF assms, of t "walkFields r cs minMADSample"]
    by (simp add: xs_def ds_def found_def [symmetric] o_def)
  moreover have "mset (map outlier_key (sortOutliers xs)) = mset (map outlier_key xs)" by simp
  moreover have "mset (concat (map marked_keys (sortDistributions ds))) = mset (concat (map marked_keys ds))"
    unfolding mset_concat sum_mset_sum_list [symmetric] mset_map sortDistributions_mset ..
  ultimately have keys: "mset (map outlier_key (sortOutliers xs)) = mset (concat (map marked_keys (sortDistributions ds)))"
    by simp
  have "set (sortOutliers xs) = set xs" "set (sortDistributions ds) = set ds"
    by (metis set_mset_mset sortOutliers_mset) (metis set_mset_mset sortDistributions_mset)
  then have "list_all (\<lambda>x. o_Scope x = scope) (sortOutliers xs)" "list_all (\<lambda>d. d_Scope d = scope) (sortDistributions ds)"
    by (auto simp: list_all_iff xs_def ds_def)
  moreover have "sorted (map (\<lambda>x. (- SeverityRank (o_Severity x), o_Scanner x, o_Cluster x, o_Field x)) (sortOutliers xs))"
    by (simp add: sortOutliers_def)
  ultimately show ?thesis using keys unfolding R prod.case mk ok by blast
qed

definition sample_report :: Report where
  "sample_report =
     (let (cs, flat) = sample_flat [1, 1, 1, 1, 1, 1, 1, 9]
      in Report0\<lparr>r_Clusters := cs, r_Sections := [(''probe'', \<lparr>sec_Uniform = False,
           sec_PerCluster = map (\<lambda>(c, m). (c, JObj m)) flat, sec_Divergences = []\<rparr>)]\<rparr>)"

lemma detectOutliers_marks_instance:
  "distinct (r_Clusters sample_report) \<and>
   (case detectOutliers sample_report (r_Clusters sample_report) (7 / 2) ''fleet'' of (outliers, dists) \<Rightarrow>
      map (\<lambda>x. (o_Scanner x, o_Field x, o_Cluster x)) outliers = [(''probe'', ''n'', ''7'')] \<and>
      mset (concat (map (\<lambda>d. map (\<lambda>v. (d_Scanner d, d_Field d, cv_Cluster v)) (filter cv_Outlier (d_Values d))) dists)) =
        {# (''probe'', ''n'', ''7'') #})"
proof -
  have d: "distinct (r_Clusters sample_report)" by code_simp
  have "map (\<lambda>x. (o_Scanner x, o_Field x, o_Cluster x))
      (fst (detectOutliers sample_report (r_Clusters sample_report) (7 / 2) ''fleet'')) = [(''probe'', ''n'', ''7'')]" by code_simp
  moreover from detectOutliers_marks [OF d, where r = sample_report and t = "7 / 2" and scope = "''fleet''"]
  have "mset (map (\<lambda>x. (o_Scanner x, o_Field x, o_Cluster x))
        (fst (detectOutliers sample_report (r_Clusters sample_report) (7 / 2) ''fleet''))) =
      mset (concat (map (\<lambda>d. map (\<lambda>v. (d_Scanner d, d_Field d, cv_Cluster v)) (filter cv_Outlier (d_Values d)))
        (snd (detectOutliers sample_report (r_Clusters sample_report) (7 / 2) ''fleet''))))"
    unfolding case_prod_beta by (rule conjunct1)
  ultimately show ?thesis using d unfolding case_prod_beta by (metis mset_single_iff_right mset.simps(1,2) add_mset_add_single)
qed

end
