(* ===== verification/Majority.thy ===== *)
theory Majority
  imports Norm_Laws Fleet_Score
begin

text \<open>
  \<open>internal/report/smallfleet.go\<close>: the leave-one-out majority diff, the outlier detector of a
  population of three to seven clusters. A cluster is reported only when it alone stands apart from
  peers that agree.
\<close>

section \<open>Definitions\<close>

definition minMajoritySample :: nat where "minMajoritySample = 3"

definition withinBand :: "float64 list \<Rightarrow> float64 \<Rightarrow> float64 \<Rightarrow> bool" where
  "withinBand vals m d = list_all (\<lambda>v. \<not> \<bar>fsub v m\<bar> > d) vals"

definition others :: "'a list \<Rightarrow> nat \<Rightarrow> 'a list" where
  "others vals i = take i vals @ drop (i + 1) vals"

definition majority_candidate :: "(string \<times> float64) list \<Rightarrow> float64 \<Rightarrow> nat \<Rightarrow> OutlierResult option" where
  "majority_candidate pop threshold i =
     (let vals = map snd pop; v = vals ! i; rest = others vals i; m = Median rest; d = computeMAD rest m;
          z = (if d = 0 then 0 else modified_z v m d);
          x = OutlierResult0\<lparr>o_Cluster := fst (pop ! i), o_Value := formatNum v, o_FleetNorm := formatNum m,
                o_Deviation := \<bar>z\<bar>, o_Kind := NormKindNumeric, o_Median := m, o_MAD := d,
                o_SampleSize := int (length vals), o_Threshold := threshold, o_Z := z, o_Exact := (d = 0)\<rparr>
      in if \<not> withinBand rest m d \<or> v = m \<or> (d \<noteq> 0 \<and> \<bar>z\<bar> \<le> threshold) then None
         else Some (if d = 0
           then x\<lparr>o_ModeShare := fdiv (of_int64 (int (length vals) - 1)) (of_int64 (int (length vals)))\<rparr> else x))"

text \<open>The loop keeps the first candidate and gives up on the second.\<close>

fun pick_one :: "'a option \<Rightarrow> 'a option list \<Rightarrow> 'a option" where
  "pick_one found [] = found"
| "pick_one found (None # xs) = pick_one found xs"
| "pick_one found (Some x # xs) = (if found \<noteq> None then None else pick_one (Some x) xs)"

definition majorityNumericOutlier :: "string list \<Rightarrow> flat \<Rightarrow> string \<Rightarrow> float64 \<Rightarrow> OutlierResult option" where
  "majorityNumericOutlier clusters flat field threshold =
     (let pop = number_pop clusters flat field
      in if length pop < minMajoritySample \<or> length pop \<ge> minMADSample then None
         else pick_one None (map (majority_candidate pop threshold) [0..<length pop]))"

definition majorityNumericDistribution :: "string list \<Rightarrow> flat \<Rightarrow> string \<Rightarrow> float64 \<Rightarrow> Distribution option" where
  "majorityNumericDistribution clusters flat field threshold =
     (let pop = number_pop clusters flat field; vals = map snd pop
      in if length vals < minMajoritySample \<or> length vals \<ge> minMADSample then None
         else let m = Median vals; d = computeMAD vals m;
                  dst = Distribution0\<lparr>d_Kind := NormKindNumeric, d_Values := map (number_value m d) pop,
                          d_Median := m, d_MAD := d, d_Threshold := threshold,
                          d_SampleSize := int (length vals), d_LimitedSample := True\<rparr>
              in if d = 0 then Some (dst\<lparr>d_Exact := True, d_ModeShare := median_share vals\<rparr>)
                 else Some (dst\<lparr>d_Band := fdiv (fmul threshold d) madScale\<rparr>))"

definition majorityStringDistribution :: "string list \<Rightarrow> flat \<Rightarrow> string \<Rightarrow> Distribution option" where
  "majorityStringDistribution clusters flat field =
     (let pop = text_pop clusters flat field; counts = count_values (map snd pop); n = int (length pop)
      in if length pop < minMajoritySample \<or> length pop \<ge> minMADSample \<or> length counts < 2 then None
         else let mode = dominantString counts
              in Some (Distribution0\<lparr>d_Kind := NormKindString,
                   d_Values := map (\<lambda>(c, v). ClusterValue0\<lparr>cv_Cluster := c, cv_Text := v\<rparr>) pop,
                   d_Threshold := fdiv (of_int64 (n - 1)) (of_int64 n), d_Mode := mode,
                   d_ModeShare := fdiv (of_int64 (lookup_default 0 counts mode)) (of_int64 n),
                   d_SampleSize := n, d_LimitedSample := True\<rparr>))"

definition majorityStringOutlier :: "string list \<Rightarrow> flat \<Rightarrow> string \<Rightarrow> OutlierResult option" where
  "majorityStringOutlier clusters flat field =
     (let pop = text_pop clusters flat field; counts = count_values (map snd pop); n = int (length pop);
          mode = dominantString counts; share = fdiv (of_int64 (n - 1)) (of_int64 n)
      in if length pop < minMajoritySample \<or> length pop \<ge> minMADSample \<or> length counts \<noteq> 2 then None
         else if lookup_default 0 counts mode \<noteq> n - 1 then None
         else map_option (\<lambda>(c, v). OutlierResult0\<lparr>o_Cluster := c, o_Value := v, o_FleetNorm := mode,
                o_Kind := NormKindString, o_Mode := mode, o_ModeShare := share, o_SampleSize := n,
                o_Threshold := share\<rparr>) (find (\<lambda>(_, v). v \<noteq> mode) pop))"

text \<open>\<open>strconv.ParseFloat\<close> on the texts \<open>formatNum\<close> writes: an optional sign, digits, and at most one
  fraction. \<open>ParseFloat\<close> is its first result, zero on an error.\<close>

definition parse_decimal :: "string \<Rightarrow> float64 option" where
  "parse_decimal s =
     (let neg = has_prefix s ''-''; body = (if neg then drop 1 s else s);
          whole = takeWhile is_digit body; rest = dropWhile is_digit body;
          frac = (if has_prefix rest ''.'' then drop 1 rest else '''');
          ok = (whole \<noteq> '''' \<and> list_all is_digit frac \<and> (rest = '''' \<or> has_prefix rest ''.''));
          v = f64 (of_int (digits_value (whole @ frac)) / 10 ^ length frac)
      in if \<not> ok then None else Some (if neg then - v else v))"

definition ParseFloat :: "string \<Rightarrow> float64" where
  "ParseFloat s = (case parse_decimal s of None \<Rightarrow> 0 | Some v \<Rightarrow> v)"

definition limit_severity :: "string \<Rightarrow> string \<Rightarrow> string \<Rightarrow> OutlierResult \<Rightarrow> OutlierResult" where
  "limit_severity scannerName field scope x =
     (let x1 = x\<lparr>o_Field := field, o_Scanner := scannerName, o_Scope := scope, o_LimitedSample := True,
                 o_Severity := classifySeverity scannerName field\<rparr>;
          x2 = (if o_Kind x1 = NormKindNumeric
                then (case numericSeverity scannerName field (fsub (ParseFloat (o_Value x1)) (o_Median x1)) of
                        (sev, favorable) \<Rightarrow> x1\<lparr>o_Severity := sev, o_Favorable := favorable\<rparr>) else x1)
      in if o_Severity x2 = SeverityCritical then x2\<lparr>o_Severity := SeverityWarning\<rparr> else x2)"

definition majority_field ::
  "string list \<Rightarrow> float64 \<Rightarrow> string \<Rightarrow> string \<times> string \<times> flat \<Rightarrow> OutlierResult option \<times> Distribution option" where
  "majority_field clusters threshold scope = (\<lambda>(scannerName, field, flat).
     if isNumericInFlat clusters flat field \<or> \<not> isArrayInFlat clusters flat field
     then let (x, dst) = (if isNumericInFlat clusters flat field
                then (majorityNumericOutlier clusters flat field threshold,
                      majorityNumericDistribution clusters flat field threshold)
                else (majorityStringOutlier clusters flat field, majorityStringDistribution clusters flat field))
          in (map_option (limit_severity scannerName field scope) x,
              map_option (\<lambda>d. let d1 = d\<lparr>d_Scanner := scannerName, d_Field := field, d_Scope := scope\<rparr>;
                                  d2 = (case x of None \<Rightarrow> d1 | Some y \<Rightarrow> markOutliers d1 [y] True)
                              in d2\<lparr>d_Mass := massOf d2\<rparr>) dst)
     else (None, None))"

definition detectMajorityOutliers ::
  "Report \<Rightarrow> string list \<Rightarrow> float64 \<Rightarrow> string \<Rightarrow> OutlierResult list \<times> Distribution list" where
  "detectMajorityOutliers r clusters threshold scope =
     (let found = map (majority_field clusters threshold scope) (walkFields r clusters 0)
      in (sortOutliers (List.map_filter fst found), sortDistributions (List.map_filter snd found)))"

section \<open>Laws\<close>

lemma pick_one_found: "pick_one (Some x) xs = (if list_all (\<lambda>y. y = None) xs then Some x else None)"
  by (induction "Some x" xs rule: pick_one.induct) auto

lemma pick_one_iff:
  "pick_one None xs = Some x \<longleftrightarrow> (\<exists>ys zs. xs = ys @ Some x # zs \<and> list_all (\<lambda>y. y = None) (ys @ zs))"
proof (induction "None :: 'a option" xs rule: pick_one.induct)
  case (2 xs)
  show ?case
  proof
    assume "pick_one None (None # xs) = Some x"
    then obtain ys zs where "xs = ys @ Some x # zs" "list_all (\<lambda>y. y = None) (ys @ zs)" using 2 by auto
    then show "\<exists>ys zs. None # xs = ys @ Some x # zs \<and> list_all (\<lambda>y. y = None) (ys @ zs)"
      by (intro exI [of _ "None # ys"] exI [of _ zs]) simp
  next
    assume "\<exists>ys zs. None # xs = ys @ Some x # zs \<and> list_all (\<lambda>y. y = None) (ys @ zs)"
    then obtain ys zs where "None # xs = ys @ Some x # zs" "list_all (\<lambda>y. y = None) (ys @ zs)" by blast
    then show "pick_one None (None # xs) = Some x" using 2 by (cases ys) auto
  qed
next
  case (3 y xs)
  show ?case
  proof
    assume "pick_one None (Some y # xs) = Some x"
    then have "list_all (\<lambda>y. y = None) xs" "y = x" by (auto simp: pick_one_found split: if_splits)
    then show "\<exists>ys zs. Some y # xs = ys @ Some x # zs \<and> list_all (\<lambda>y. y = None) (ys @ zs)"
      by (intro exI [of _ "[]"] exI [of _ xs]) simp
  next
    assume "\<exists>ys zs. Some y # xs = ys @ Some x # zs \<and> list_all (\<lambda>y. y = None) (ys @ zs)"
    then obtain ys zs where "Some y # xs = ys @ Some x # zs" "list_all (\<lambda>y. y = None) (ys @ zs)" by blast
    then show "pick_one None (Some y # xs) = Some x" by (cases ys) (auto simp: pick_one_found)
  qed
qed simp

lemma pick_one_index:
  "pick_one None (map g [0..<n]) = Some x \<longleftrightarrow> (\<exists>i < n. g i = Some x \<and> (\<forall>j < n. j \<noteq> i \<longrightarrow> g j = None))"
proof
  assume "pick_one None (map g [0..<n]) = Some x"
  then obtain ys zs where s: "map g [0..<n] = ys @ Some x # zs" "list_all (\<lambda>y. y = None) (ys @ zs)"
    unfolding pick_one_iff by blast
  have len: "length ys + Suc (length zs) = n" using arg_cong [OF s(1), of length] by simp
  have nth: "g i = (ys @ Some x # zs) ! i" if "i < n" for i using that s(1) by (metis add_0 diff_zero length_upt nth_map nth_upt)
  have "g (length ys) = Some x" using nth [of "length ys"] len by simp
  moreover have "g j = None" if "j < n" "j \<noteq> length ys" for j
  proof (cases "j < length ys")
    case True
    then show ?thesis using nth [OF that(1)] s(2) by (simp add: nth_append list_all_iff)
  next
    case False
    then have "g j = zs ! (j - length ys - 1)" "j - length ys - 1 < length zs"
      using nth [OF that(1)] that len by (auto simp: nth_append nth_Cons')
    then show ?thesis using s(2) by (simp add: list_all_iff)
  qed
  ultimately show "\<exists>i < n. g i = Some x \<and> (\<forall>j < n. j \<noteq> i \<longrightarrow> g j = None)" using len
    by (intro exI [of _ "length ys"]) auto
next
  assume "\<exists>i < n. g i = Some x \<and> (\<forall>j < n. j \<noteq> i \<longrightarrow> g j = None)"
  then obtain i where i: "i < n" "g i = Some x" "\<forall>j < n. j \<noteq> i \<longrightarrow> g j = None" by blast
  have "[0..<n] = [0..<i] @ i # [Suc i..<n]" 
    using i(1) upt_add_eq_append [of 0 i "n - i"] upt_conv_Cons [of i n] by simp
  then have "map g [0..<n] = map g [0..<i] @ Some x # map g [Suc i..<n]" using i(2) by simp
  moreover have "list_all (\<lambda>y. y = None) (map g [0..<i] @ map g [Suc i..<n])" using i by (auto simp: list_all_iff)
  ultimately show "pick_one None (map g [0..<n]) = Some x" unfolding pick_one_iff by blast
qed

lemma majority_candidate_Some:
  "majority_candidate pop t i = Some x \<Longrightarrow>
     (let rest = others (map snd pop) i; m = Median rest; d = computeMAD rest m
      in o_Cluster x = fst (pop ! i) \<and> o_Median x = m \<and> o_MAD x = d \<and> o_Exact x = (d = 0) \<and>
         withinBand rest m d \<and> map snd pop ! i \<noteq> m \<and> (d \<noteq> 0 \<longrightarrow> t < \<bar>modified_z (map snd pop ! i) m d\<bar>))"
  by (auto simp: majority_candidate_def Let_def split: if_splits)

lemma majority_candidate_None_iff:
  "majority_candidate pop t i = None \<longleftrightarrow>
     (let rest = others (map snd pop) i; m = Median rest; d = computeMAD rest m
      in \<not> withinBand rest m d \<or> map snd pop ! i = m \<or> (d \<noteq> 0 \<and> \<bar>modified_z (map snd pop ! i) m d\<bar> \<le> t))"
  by (auto simp: majority_candidate_def Let_def)

lemma set_others: "i < length xs \<Longrightarrow> set (others xs i) = {xs ! j | j. j < length xs \<and> j \<noteq> i}"
proof -
  assume i: "i < length xs"
  have "set (drop (i + 1) xs) = {xs ! j | j. i < j \<and> j < length xs}"
  proof -
    have "x \<in> set (drop (i + 1) xs) \<longleftrightarrow> (\<exists>j. i < j \<and> j < length xs \<and> x = xs ! j)" for x
    proof
      assume "x \<in> set (drop (i + 1) xs)"
      then obtain k where "k < length xs - (i + 1)" "x = xs ! (i + 1 + k)" by (auto simp: in_set_conv_nth)
      then show "\<exists>j. i < j \<and> j < length xs \<and> x = xs ! j" by (intro exI [of _ "i + 1 + k"]) auto
    next
      assume "\<exists>j. i < j \<and> j < length xs \<and> x = xs ! j"
      then obtain j where j: "i < j" "j < length xs" "x = xs ! j" by blast
      then have "x = drop (i + 1) xs ! (j - (i + 1))" "j - (i + 1) < length (drop (i + 1) xs)" by auto
      then show "x \<in> set (drop (i + 1) xs)" using nth_mem by metis
    qed
    then show ?thesis by blast
  qed
  moreover have "set (take i xs) = {xs ! j | j. j < i}" 
    using i nth_image [of i xs] by (force simp: image_iff)
  ultimately show ?thesis using i unfolding others_def set_append by (auto simp: nat_neq_iff)
qed

text \<open>The cluster at an index stands apart from peers that agree.\<close>

definition stands_apart :: "float64 list \<Rightarrow> float64 \<Rightarrow> nat \<Rightarrow> bool" where
  "stands_apart vals t i \<longleftrightarrow>
     (let rest = others vals i; m = Median rest; d = computeMAD rest m
      in withinBand rest m d \<and> vals ! i \<noteq> m \<and> (d = 0 \<or> t < \<bar>modified_z (vals ! i) m d\<bar>))"

lemma stands_apart_candidate: "stands_apart (map snd pop) t i \<longleftrightarrow> majority_candidate pop t i \<noteq> None"
  unfolding majority_candidate_None_iff stands_apart_def Let_def by auto

lemma majority_pick:
  "pick_one None (map (majority_candidate pop t) [0..<n]) = Some x \<longleftrightarrow>
     (\<exists>i < n. majority_candidate pop t i = Some x \<and> (\<forall>j < n. j \<noteq> i \<longrightarrow> \<not> stands_apart (map snd pop) t j))"
  unfolding pick_one_index stands_apart_candidate by simp

lemma majority_unique:
  "(\<exists>!i. i < n \<and> stands_apart (map snd pop) t i) \<longleftrightarrow> pick_one None (map (majority_candidate pop t) [0..<n]) \<noteq> None"
proof
  assume "\<exists>!i. i < n \<and> stands_apart (map snd pop) t i"
  then obtain i where i: "i < n" "stands_apart (map snd pop) t i" "\<forall>j < n. j \<noteq> i \<longrightarrow> \<not> stands_apart (map snd pop) t j" by blast
  then obtain x where "majority_candidate pop t i = Some x" unfolding stands_apart_candidate by blast
  with i have "pick_one None (map (majority_candidate pop t) [0..<n]) = Some x" unfolding majority_pick by blast
  then show "pick_one None (map (majority_candidate pop t) [0..<n]) \<noteq> None" by simp
next
  assume "pick_one None (map (majority_candidate pop t) [0..<n]) \<noteq> None"
  then obtain x where "pick_one None (map (majority_candidate pop t) [0..<n]) = Some x" by blast
  then show "\<exists>!i. i < n \<and> stands_apart (map snd pop) t i"
    unfolding majority_pick stands_apart_candidate by (metis option.distinct(1))
qed

lemma majority_exact:
  assumes i: "i < length pop" and x: "majority_candidate pop t i = Some x" "o_Exact x" and f: "list_all is_f64 (map snd pop)"
  shows "list_all (\<lambda>w. w = o_Median x) (others (map snd pop) i)"
proof -
  let ?vals = "map snd pop" and ?rest = "others (map snd pop) i"
  have c: "o_Median x = Median ?rest" "computeMAD ?rest (Median ?rest) = 0" "withinBand ?rest (Median ?rest) 0"
    using majority_candidate_Some [OF x(1)] x(2) by (auto simp: Let_def)
  have fr: "\<forall>v \<in> set ?rest. is_f64 v"
    using f unfolding list_all_iff others_def set_append by (blast dest: in_set_takeD in_set_dropD)
  have "v = Median ?rest" if v: "v \<in> set ?rest" for v
  proof -
    have "fsub v (Median ?rest) = 0" using c(3) v by (auto simp: withinBand_def list_all_iff not_less)
    moreover have "is_f64 (Median ?rest)" using fr v by (intro Median_f64) auto
    ultimately show ?thesis using f64_diff_eq_0 fr v unfolding fsub_def by blast
  qed
  then show ?thesis using c(1) by (simp add: list_all_iff)
qed

text \<open>In a population of three to seven values the majority diff reports a cluster exactly when it
  is the only one that stands apart: the other clusters all lie within their MAD of their median, and
  the cluster is off that median by more than the threshold, or at all when the others have no spread.
  Outside that range, or with two such clusters, nothing is reported. When the reported norm is exact,
  every other cluster holds the same value.\<close>

lemma majorityNumericOutlier_spec:
  "let pop = number_pop cs flat f; vals = map snd pop; n = length pop
   in case majorityNumericOutlier cs flat f t of
        None \<Rightarrow> n < 3 \<or> 8 \<le> n \<or> \<not> (\<exists>!i. i < n \<and> stands_apart vals t i)
      | Some x \<Rightarrow> 3 \<le> n \<and> n < 8 \<and> (\<exists>!i. i < n \<and> stands_apart vals t i) \<and>
          (\<exists>i. i < n \<and> stands_apart vals t i \<and> o_Cluster x = fst (pop ! i) \<and>
             (o_Exact x \<longrightarrow> list_all is_f64 vals \<longrightarrow> list_all (\<lambda>w. w = o_Median x) (others vals i)))"
proof -
  define pop where "pop = number_pop cs flat f"
  define n where "n = length pop"
  have M: "majorityNumericOutlier cs flat f t =
      (if n < 3 \<or> 8 \<le> n then None else pick_one None (map (majority_candidate pop t) [0..<n]))"
    by (simp add: majorityNumericOutlier_def pop_def [symmetric] n_def minMajoritySample_def minMADSample_def Let_def)
  show ?thesis
  proof (cases "majorityNumericOutlier cs flat f t")
    case None
    then have "n < 3 \<or> 8 \<le> n \<or> \<not> (\<exists>!i. i < n \<and> stands_apart (map snd pop) t i)"
      unfolding majority_unique using M by (auto split: if_splits)
    then show ?thesis unfolding None Let_def pop_def [symmetric] n_def [symmetric] option.case .
  next
    case (Some x)
    then have n: "3 \<le> n" "n < 8" and p: "pick_one None (map (majority_candidate pop t) [0..<n]) = Some x"
      using M by (auto split: if_splits)
    from p obtain i where i: "i < n" "majority_candidate pop t i = Some x" unfolding majority_pick by blast
    have "stands_apart (map snd pop) t i" using i stands_apart_candidate by simp
    moreover have "o_Cluster x = fst (pop ! i)" using majority_candidate_Some [OF i(2)] by (simp add: Let_def)
    moreover have "\<exists>!i. i < n \<and> stands_apart (map snd pop) t i" unfolding majority_unique p by simp
    moreover have "o_Exact x \<longrightarrow> list_all is_f64 (map snd pop) \<longrightarrow> list_all (\<lambda>w. w = o_Median x) (others (map snd pop) i)"
      using majority_exact i by (auto simp: n_def)
    ultimately show ?thesis
      unfolding Some Let_def pop_def [symmetric] n_def [symmetric] option.case using n i(1) by blast
  qed
qed

lemma majorityNumericOutlier_spec_instance:
  "let (cs, flat) = sample_flat [5, 5, 5, 9]; vals = map snd (number_pop cs flat ''n'')
   in list_all is_f64 vals \<and>
      (\<exists>x i. majorityNumericOutlier cs flat ''n'' (7 / 2) = Some x \<and> o_Exact x \<and> stands_apart vals (7 / 2) i
        \<and> list_all (\<lambda>w. w = o_Median x) (others vals i))"
proof -
  let ?cs = "fst (sample_flat [5, 5, 5, 9])" and ?flat = "snd (sample_flat [5, 5, 5, 9])"
  have ev: "map_option (\<lambda>x. (o_Cluster x, o_Exact x, o_Median x)) (majorityNumericOutlier ?cs ?flat ''n'' (7 / 2)) =
      Some (''3'', True, 5)" by code_simp
  then obtain x where x: "majorityNumericOutlier ?cs ?flat ''n'' (7 / 2) = Some x" "o_Exact x" by auto
  have f: "list_all is_f64 (map snd (number_pop ?cs ?flat ''n''))" by code_simp
  show ?thesis
    using majorityNumericOutlier_spec [of ?cs ?flat "''n''" "7 / 2"] f x(2)
    unfolding Let_def x(1) option.case case_prod_beta by blast
qed

text \<open>Every result of the majority diff is marked as a limited sample, carries the scope, and is never
  critical: a population too small for MAD cannot raise more than a warning.\<close>

lemma detectMajorityOutliers_capped:
  "list_all (\<lambda>x. o_LimitedSample x \<and> o_Scope x = scope \<and> o_Severity x \<in> {SeverityInfo, SeverityWarning})
     (fst (detectMajorityOutliers r cs t scope))"
proof -
  have sev: "classifySeverity s f \<in> {SeverityInfo, SeverityWarning, SeverityCritical}" for s f
    by (simp add: classifySeverity_def)
  have lim: "o_LimitedSample (limit_severity s f sc x) \<and> o_Scope (limit_severity s f sc x) = sc \<and>
      o_Severity (limit_severity s f sc x) \<in> {SeverityInfo, SeverityWarning}" for s f sc x
    using sev [of s f] by (auto simp: limit_severity_def numericSeverity_def Let_def severity_neq split: prod.splits)
  have fld: "o_LimitedSample x \<and> o_Scope x = scope \<and> o_Severity x \<in> {SeverityInfo, SeverityWarning}"
    if "fst (majority_field cs t scope w) = Some x" for w x
  proof -
    obtain s f flat where w: "w = (s, f, flat)" by (cases w)
    from that obtain y where "x = limit_severity s f scope y"
      unfolding majority_field_def w by (auto simp: case_prod_beta Let_def split: if_splits)
    then show ?thesis using lim by simp
  qed
  have "set (sortOutliers xs) = set xs" for xs by (metis set_mset_mset sortOutliers_mset)
  then show ?thesis
    unfolding detectMajorityOutliers_def Let_def fst_conv list_all_iff
    by (auto simp: set_map_filter_iff dest: fld)
qed

lemma find_append_None: "find P xs = None \<Longrightarrow> find P (xs @ ys) = find P ys"
  by (induction xs) (auto split: if_splits)

text \<open>A string field of three to seven clusters reports a cluster exactly when all the others hold one
  and the same value and it holds another; the result names that value as the norm.\<close>

lemma majorityStringOutlier_spec:
  assumes "distinct cs"
  shows "let pop = text_pop cs flat f
         in (\<exists>x. majorityStringOutlier cs flat f = Some x \<and> o_Cluster x = c \<and> o_Value x = v \<and> o_Mode x = w) \<longleftrightarrow>
            3 \<le> length pop \<and> length pop < 8 \<and> v \<noteq> w \<and>
            (\<exists>ps qs. pop = ps @ (c, v) # qs \<and> list_all (\<lambda>p. snd p = w) (ps @ qs))"
proof -
  define pop where "pop = text_pop cs flat f"
  define vs where "vs = map snd pop"
  define mode where "mode = dominantString (count_values vs)"
  let ?n = "length pop"
  let ?split = "\<lambda>c v w. \<exists>ps qs. pop = ps @ (c, v) # qs \<and> list_all (\<lambda>p. snd p = w) (ps @ qs)"
  have keys: "distinct (map fst pop)" unfolding pop_def by (rule pop_distinct [OF assms])
  have lc: "length (count_values vs) = card (set vs)" by (rule length_count_values)
  have R: "(\<exists>x. majorityStringOutlier cs flat f = Some x \<and> o_Cluster x = c \<and> o_Value x = v \<and> o_Mode x = w) \<longleftrightarrow>
      3 \<le> ?n \<and> ?n < 8 \<and> card (set vs) = 2 \<and> int (count_list vs mode) = int ?n - 1 \<and> w = mode \<and>
      find (\<lambda>(_, v). v \<noteq> mode) pop = Some (c, v)"
    by (auto simp: majorityStringOutlier_def pop_def [symmetric] vs_def [symmetric] mode_def [symmetric] Let_def
        minMajoritySample_def minMADSample_def lc not_less)
  show ?thesis
    unfolding Let_def pop_def [symmetric] R
  proof
    assume A: "3 \<le> ?n \<and> ?n < 8 \<and> card (set vs) = 2 \<and> int (count_list vs mode) = int ?n - 1 \<and> w = mode \<and>
      find (\<lambda>(_, v). v \<noteq> mode) pop = Some (c, v)"
    then have "(c, v) \<in> set pop" "v \<noteq> mode" using find_SomeD [of "\<lambda>(_, v). v \<noteq> mode" pop "(c, v)"] by auto
    then obtain ps qs where pq: "pop = ps @ (c, v) # qs" by (meson split_list)
    have "length (filter (\<lambda>u. u \<noteq> mode) us) + count_list us mode = length us" for us :: "string list"
      by (induction us) auto
    from this [of vs] have "length (filter (\<lambda>u. u \<noteq> mode) vs) + count_list vs mode = ?n" by (simp add: vs_def)
    then have "length (filter (\<lambda>u. u \<noteq> mode) vs) = 1" using A by linarith
    then have "filter (\<lambda>p. snd p \<noteq> mode) (ps @ qs) = []"
      using \<open>v \<noteq> mode\<close> by (simp add: vs_def pq filter_map o_def)
    then have "list_all (\<lambda>p. snd p = w) (ps @ qs)" using A by (simp add: list_all_iff filter_empty_conv del: filter_append)
    then show "3 \<le> ?n \<and> ?n < 8 \<and> v \<noteq> w \<and> ?split c v w" using A pq \<open>v \<noteq> mode\<close> by blast
  next
    assume B: "3 \<le> ?n \<and> ?n < 8 \<and> v \<noteq> w \<and> ?split c v w"
    then obtain ps qs where pq: "pop = ps @ (c, v) # qs" "list_all (\<lambda>p. snd p = w) (ps @ qs)" by blast
    have map_w: "map snd ps = replicate (length ps) w" "map snd qs = replicate (length qs) w"
      using pq(2) by (auto simp: list_all_iff intro!: replicate_eqI)
    have vs: "vs = replicate (length ps) w @ v # replicate (length qs) w" by (simp add: vs_def pq map_w)
    have rep: "count_list (replicate k w) w = k" for k by (induction k) auto
    have cw: "count_list vs w = length ps + length qs" using B by (simp add: vs count_list_append rep)
    have n: "?n = length ps + length qs + 1" by (simp add: pq)
    have mode: "mode = w" unfolding mode_def
    proof (rule majority_dominant)
      show "vs \<noteq> []" by (simp add: vs)
      have "length vs = ?n" by (simp add: vs_def)
      then show "length vs < 2 * count_list vs w" using B n cw by linarith
    qed
    have "count_list vs w \<noteq> 0" using B n cw by linarith
    then have "w \<in> set vs" using count_notin by metis
    moreover have "set vs \<subseteq> {v, w}" "v \<in> set vs" by (auto simp: vs)
    ultimately have "set vs = {v, w}" by blast
    then have "card (set vs) = 2" using B by simp
    moreover have "find (\<lambda>(_, v). v \<noteq> mode) pop = Some (c, v)"
    proof -
      have "find (\<lambda>(_, v). v \<noteq> mode) ps = None" using pq(2) mode by (force simp: find_None_iff list_all_iff)
      then show ?thesis using B mode by (simp add: pq find_append_None)
    qed
    ultimately show "3 \<le> ?n \<and> ?n < 8 \<and> card (set vs) = 2 \<and> int (count_list vs mode) = int ?n - 1 \<and> w = mode \<and>
      find (\<lambda>(_, v). v \<noteq> mode) pop = Some (c, v)" using B cw n mode by simp
  qed
qed

lemma majorityStringOutlier_spec_instance:
  "let cs = [''a'', ''b'', ''c'']; obj = (\<lambda>v. [(''os'', JStr v)]);
       flat = [(''a'', obj ''x''), (''b'', obj ''y''), (''c'', obj ''x'')]
   in distinct cs \<and> (\<exists>x. majorityStringOutlier cs flat ''os'' = Some x \<and> o_Cluster x = ''b'' \<and> o_Value x = ''y'' \<and> o_Mode x = ''x'')"
proof -
  let ?cs = "[''a'', ''b'', ''c'']" and ?obj = "\<lambda>v. [(''os'', JStr v)]"
  let ?flat = "[(''a'', ?obj ''x''), (''b'', ?obj ''y''), (''c'', ?obj ''x'')]"
  have d: "distinct ?cs" by simp
  have pop: "text_pop ?cs ?flat ''os'' = [(''a'', ''x'')] @ (''b'', ''y'') # [(''c'', ''x'')]" by code_simp
  have "\<exists>x. majorityStringOutlier ?cs ?flat ''os'' = Some x \<and> o_Cluster x = ''b'' \<and> o_Value x = ''y'' \<and> o_Mode x = ''x''"
    unfolding majorityStringOutlier_spec [OF d, unfolded Let_def, of ?flat "''os''"] pop
    by (intro conjI exI [of _ "[(''a'', ''x'')]"] exI [of _ "[(''c'', ''x'')]"]) simp_all
  then show ?thesis unfolding Let_def using d by blast
qed



end
