(* ===== verification/Rules.thy ===== *)
theory Rules
  imports Majority
begin

text \<open>
  \<open>internal/report/rules.go\<close>: the rule every finding carries, its label, its fingerprint, and the
  sentences that state how far a cluster sits from a norm. The lemmas show that a rule determines
  the check that produced it, which acknowledgements and persistence rely on, and that the count an
  exact norm quotes is the true one although it is recovered from a float64 share.
\<close>

section \<open>Formatting\<close>

text \<open>\<open>%q\<close>: the escapes of \<open>strconv.Quote\<close>. Bytes from 0x80 on are taken to belong to printable
  runes, which are kept.\<close>

definition quote_char :: "char \<Rightarrow> string" where
  "quote_char c =
     (let n = of_char c :: nat
      in if n = 34 then [CHR 0x5C, CHR 0x22] else if n = 92 then [CHR 0x5C, CHR 0x5C]
         else if n = 7 then [CHR 0x5C, CHR ''a''] else if n = 8 then [CHR 0x5C, CHR ''b'']
         else if n = 9 then [CHR 0x5C, CHR ''t''] else if n = 10 then [CHR 0x5C, CHR ''n'']
         else if n = 11 then [CHR 0x5C, CHR ''v''] else if n = 12 then [CHR 0x5C, CHR ''f'']
         else if n = 13 then [CHR 0x5C, CHR ''r'']
         else if n < 32 \<or> n = 127 then [CHR 0x5C, CHR ''x'', hex_digit (n div 16), hex_digit (n mod 16)]
         else [c])"

definition quote :: "string \<Rightarrow> string" where
  "quote s = [CHR 0x22] @ concat (map quote_char s) @ [CHR 0x22]"

definition fmt_strings :: "string list \<Rightarrow> string" where
  "fmt_strings xs = ''['' @ strings_Join xs '' '' @ '']''"

text \<open>\<open>strings.ReplaceAll\<close> of one character by another.\<close>

definition replace_char :: "char \<Rightarrow> char \<Rightarrow> string \<Rightarrow> string" where
  "replace_char a b s = map (\<lambda>c. if c = a then b else c) s"

section \<open>Definitions\<close>

definition ruleOutlierPrefix :: string where "ruleOutlierPrefix = ''outlier-''"
definition ruleCohortOutlierPrefix :: string where "ruleCohortOutlierPrefix = ''cohort-outlier-''"
definition ruleTrendPrefix :: string where "ruleTrendPrefix = ''trend-''"
definition ruleSelfDriftPrefix :: string where "ruleSelfDriftPrefix = ''self-drift-''"

definition ruleTitles :: "(string, string) gomap" where
  "ruleTitles =
    [(''version/skew'', ''Kubernetes version skew across the fleet''),
     (''namespaces/non-system-count-varies'', ''Non-system namespace count varies across the fleet''),
     (''rbac/config-differs'', ''RBAC configuration differs across clusters''),
     (''node-health/memory-pressure'', ''Nodes under memory pressure''),
     (''node-health/disk-pressure'', ''Nodes under disk pressure''),
     (''node-health/not-ready'', ''Nodes not ready''),
     (''metrics/capacity-critical'', ''Cluster capacity is critical''),
     (''metrics/capacity-degraded'', ''Cluster capacity is degraded''),
     (''metrics/capacity-busy'', ''Cluster is busy but healthy''),
     (''metrics/group-deviation'', ''Utilization deviates from group peers''),
     (''security/psa-unenforced'', ''Namespaces without Pod Security enforcement''),
     (''network-policies/no-policy'', ''Namespaces with no network policies''),
     (''resource-quotas/no-quota'', ''No resource quotas defined''),
     (''events/warning-volume'', ''Warning events in the last hour''),
     (''workload-security/privileged'', ''Privileged containers''),
     (''workload-security/host-namespaces'', ''Pods using host namespaces''),
     (''workload-security/run-as-root'', ''Containers explicitly running as root''),
     (''workload-security/capability-add'', ''Containers with added Linux capabilities''),
     (''rbac-audit/cluster-admin-binding'', ''Non-system cluster-admin bindings''),
     (''rbac-audit/wildcard-rule'', ''RBAC rules with wildcard permissions''),
     (''rbac-audit/default-sa-binding'', ''Bindings that grant a default service account''),
     (''image-audit/latest-tag'', ''Containers using :latest or no tag''),
     (''image-audit/no-digest'', ''Containers without digest pins''),
     (''image-audit/bad-deploy'', ''Bad-deploy signals''),
     (''certs/expiring-7d'', ''Certificates expiring in fewer than 7 days''),
     (''certs/expiring-30d'', ''Certificates expiring within 30 days''),
     (''deprecated-apis/in-use'', ''Deprecated API versions in use''),
     (''workload-coverage/missing-pdb'', ''Replicated workloads without a PodDisruptionBudget''),
     (''workload-coverage/missing-hpa'', ''Replicated workloads without a HorizontalPodAutoscaler''),
     (''admission/no-healthy-endpoints'', ''Admission webhooks with no healthy endpoints''),
     (''admission/ca-expiring'', ''Admission webhook CA bundles expiring soon''),
     (''cluster-info/node-platform-drift'', ''Node-level platform drift''),
     (''cohort/wrong-cohort'', ''Cluster may be in the wrong cohort''),
     (''vulnerabilities/critical-present'', ''Images with critical vulnerabilities''),
     (''crds/missing-consensus'', ''Missing CRDs most of the fleet has''),
     (''crds/cohort-missing-consensus'', ''Missing CRDs most of its cohort has''),
     (''services/missing-consensus'', ''Missing services most of the fleet runs''),
     (''services/cohort-missing-consensus'', ''Missing services most of its cohort runs''),
     (''ingresses/missing-consensus'', ''Missing ingress classes most of the fleet uses''),
     (''ingresses/cohort-missing-consensus'', ''Missing ingress classes most of its cohort uses''),
     (''vulnerabilities/critical-outlier'', ''Critical vulnerability count deviates from the fleet norm''),
     (''vulnerabilities/cohort-critical-outlier'', ''Critical vulnerability count deviates from its cohort''),
     (''vulnerabilities/high-outlier'', ''High vulnerability count deviates from the fleet norm''),
     (''vulnerabilities/cohort-high-outlier'', ''High vulnerability count deviates from its cohort''),
     (''policy-reports/fail-outlier'', ''Policy failure count deviates from the fleet norm''),
     (''policy-reports/cohort-fail-outlier'', ''Policy failure count deviates from its cohort'')]"

definition namedOutlierRules :: "(string, string) gomap" where
  "namedOutlierRules =
    [(''crds/crd_names'', ''missing-consensus''),
     (''services/service_names'', ''missing-consensus''),
     (''ingresses/ingress_classes'', ''missing-consensus''),
     (''vulnerabilities/critical'', ''critical-outlier''),
     (''vulnerabilities/high'', ''high-outlier''),
     (''policy-reports/total_fail'', ''fail-outlier'')]"

definition fieldRule :: "string \<Rightarrow> string \<Rightarrow> string \<Rightarrow> string" where
  "fieldRule scannerName pre field =
     scannerName @ ''/'' @ pre @ replace_char CHR ''_'' CHR ''-'' field"

definition outlierRule :: "string \<Rightarrow> string \<Rightarrow> bool \<Rightarrow> string" where
  "outlierRule scannerName field cohort =
     (case map_of namedOutlierRules (scannerName @ ''/'' @ field) of
        Some slug \<Rightarrow> if cohort then scannerName @ ''/cohort-'' @ slug else scannerName @ ''/'' @ slug
      | None \<Rightarrow> if cohort then fieldRule scannerName ruleCohortOutlierPrefix field
                else fieldRule scannerName ruleOutlierPrefix field)"

text \<open>The text around the field in the label of a field-derived rule, in the order the prefixes are
  tried.\<close>

definition prefix_labels :: "(string \<times> string \<times> string) list" where
  "prefix_labels =
     [(ruleCohortOutlierPrefix, ''Deviates from its cohort on '', ''''),
      (ruleOutlierPrefix, ''Deviates from the fleet norm on '', ''''),
      (ruleSelfDriftPrefix, '''', '' broke from its own baseline''),
      (ruleTrendPrefix, '''', '' is trending'')]"

definition RuleTitle :: "string \<Rightarrow> string" where
  "RuleTitle rule =
     (case map_of ruleTitles rule of Some t \<Rightarrow> t
      | None \<Rightarrow> (case strings_Cut ''/'' rule of None \<Rightarrow> rule
        | Some (_, slug) \<Rightarrow>
            (case find (\<lambda>(p, _). cut_prefix p slug \<noteq> None) prefix_labels of None \<Rightarrow> rule
             | Some (p, before, after) \<Rightarrow>
                 before @ replace_char CHR ''-'' CHR ''_'' (drop (length p) slug) @ after)))"

definition FindingFingerprint :: "(string \<Rightarrow> string) \<Rightarrow> Finding \<Rightarrow> string" where
  "FindingFingerprint sha256 f = Fingerprint sha256 (f_Cluster f) (f_Scanner f) (f_Rule f)"

definition stampFingerprints :: "(string \<Rightarrow> string) \<Rightarrow> Finding list \<Rightarrow> Finding list" where
  "stampFingerprints sha256 fs = map (\<lambda>f. f\<lparr>f_Fingerprint := FindingFingerprint sha256 f\<rparr>) fs"

definition scannerInspect :: "(string, string) gomap" where
  "scannerInspect =
    [(''version'', ''version''),
     (''namespaces'', ''get namespaces''),
     (''crds'', ''get crds''),
     (''services'', ''get services -A''),
     (''ingresses'', ''get ingress -A''),
     (''resources'', ''get nodes -o wide''),
     (''rbac'', ''get clusterroles,clusterrolebindings''),
     (''security'', ''get namespaces -L pod-security.kubernetes.io/enforce''),
     (''network-policies'', ''get networkpolicies -A''),
     (''resource-quotas'', ''get resourcequotas,limitranges -A''),
     (''node-health'', ''get nodes''),
     (''metrics'', ''top nodes''),
     (''events'', ''get events -A --field-selector type=Warning --sort-by=.lastTimestamp''),
     (''workload-security'', ''get pods -A -o wide''),
     (''rbac-audit'', ''get clusterrolebindings -o wide''),
     (''image-audit'', ''get pods -A -o custom-columns=NAMESPACE:.metadata.namespace,POD:.metadata.name,IMAGES:.spec.containers[*].image''),
     (''certs'', ''get secrets -A --field-selector type=kubernetes.io/tls''),
     (''deprecated-apis'', ''get --raw /metrics''),
     (''workload-coverage'', ''get pdb,hpa -A''),
     (''cluster-info'', ''get nodes -o wide''),
     (''admission'', ''get validatingwebhookconfigurations,mutatingwebhookconfigurations''),
     (''geo'', ''get nodes -L topology.kubernetes.io/region,topology.kubernetes.io/zone''),
     (''vulnerabilities'', ''get vulnerabilityreports -A''),
     (''policy-reports'', ''get policyreports -A'')]"

definition exactNormPhrase :: "float64 \<Rightarrow> int \<Rightarrow> string \<Rightarrow> string \<Rightarrow> string" where
  "exactNormPhrase share n nrm scope =
     (let k = math_Round (fmul share (of_int64 n))
      in if k = n - 1 then ''every other cluster in '' @ scope @ '' reports exactly '' @ nrm
         else Itoa k @ '' of '' @ Itoa n @ '' clusters in '' @ scope @ '' report exactly '' @ nrm)"

text \<open>A value that does not parse leaves the numeric case for the last sentence.\<close>

definition normGap :: "OutlierResult \<Rightarrow> string \<Rightarrow> string" where
  "normGap x scope =
     (let last_case = o_Field x @ '' is '' @ quote (o_Value x) @ '' here, the '' @ scope
            @ '' norm is '' @ quote (o_FleetNorm x)
      in if o_Exact x then o_Field x @ '' is '' @ o_Value x @ '' here, ''
           @ exactNormPhrase (o_ModeShare x) (o_SampleSize x) (o_FleetNorm x) (''the '' @ scope)
         else if o_Kind x = NormKindNumeric then
           (case parse_decimal (o_Value x) of None \<Rightarrow> last_case
            | Some v \<Rightarrow> o_Field x @ '' is '' @ o_Value x @ '' here, '' @ formatNum \<bar>fsub v (o_Median x)\<bar>
                @ '' '' @ (if v < o_Median x then ''below'' else ''above'') @ '' the '' @ scope
                @ '' median of '' @ formatNum (o_Median x))
         else if o_Kind x = NormKindSet then
           o_Field x @ '' is missing '' @ Itoa (int (length (o_Missing x))) @ '': ''
             @ fmt_strings (o_Missing x) @ '' of the '' @ scope @ [CHR 0x27] @ ''s ''
             @ Itoa (int (length (o_Consensus x))) @ '' consensus items''
         else last_case)"

definition normRemediation :: "OutlierResult \<Rightarrow> string \<Rightarrow> Remediation" where
  "normRemediation x scope =
     (let inspect = (case map_of scannerInspect (o_Scanner x) of Some i \<Rightarrow> i | None \<Rightarrow> ''get all -A'')
      in \<lparr>rm_Command = ''# '' @ normGap x scope @ [CHR 0x0A] @ ''kubectl --context '' @ o_Cluster x
            @ '' '' @ inspect, rm_YAML = '''', rm_RunbookURL = ''''\<rparr>)"

section \<open>A rule determines its check\<close>
lemma replace_char_inj:
  "b \<notin> set s \<Longrightarrow> b \<notin> set t \<Longrightarrow> replace_char a b s = replace_char a b t \<Longrightarrow> s = t"
proof (induction s arbitrary: t)
  case Nil
  then show ?case by (simp add: replace_char_def)
next
  case (Cons c s)
  then obtain d t' where t: "t = d # t'" by (cases t) (simp_all add: replace_char_def)
  have "c = d" using Cons.prems by (auto simp: t replace_char_def split: if_splits)
  moreover have "s = t'" using Cons.prems by (intro Cons.IH) (simp_all add: t replace_char_def)
  ultimately show ?case by (simp add: t)
qed

text \<open>The named rules as triples of scanner, field and slug.\<close>

definition named_triples :: "(string \<times> string \<times> string) list" where
  "named_triples =
     [(''crds'', ''crd_names'', ''missing-consensus''), (''services'', ''service_names'', ''missing-consensus''),
      (''ingresses'', ''ingress_classes'', ''missing-consensus''),
      (''vulnerabilities'', ''critical'', ''critical-outlier''), (''vulnerabilities'', ''high'', ''high-outlier''),
      (''policy-reports'', ''total_fail'', ''fail-outlier'')]"

lemma named_triples_table:
  "namedOutlierRules = map (\<lambda>(s, f, slug). (s @ ''/'' @ f, slug)) named_triples"
  by code_simp

lemma named_triples_scanners: "list_all (\<lambda>(s, _). CHR ''/'' \<notin> set s) named_triples"
  by code_simp

lemma named_triples_distinct: "distinct (map (\<lambda>(s, _, slug). (s, slug)) named_triples)"
  by code_simp

lemma named_slugs:
  "list_all (\<lambda>(_, _, slug). \<not> has_prefix slug ''outlier-'' \<and> \<not> has_prefix slug ''cohort-'') named_triples"
  by code_simp

lemma named_triple:
  assumes "map_of namedOutlierRules (s @ ''/'' @ f) = Some slug" "CHR ''/'' \<notin> set s"
  shows "(s, f, slug) \<in> set named_triples"
proof -
  have "(s @ ''/'' @ f, slug) \<in> set namedOutlierRules" using assms(1) by (rule map_of_SomeD)
  then obtain s' f' where t: "(s', f', slug) \<in> set named_triples" "s @ ''/'' @ f = s' @ ''/'' @ f'"
    by (auto simp: named_triples_table)
  moreover have "CHR ''/'' \<notin> set s'" using t(1) named_triples_scanners by (auto simp: list_all_iff)
  ultimately show ?thesis using append_sep_inj [of "CHR ''/''" s s' f f'] assms(2) by auto
qed

text \<open>The part of an outlier rule after the scanner: a slug of the table or a field-derived one.\<close>

definition outlier_slug :: "string \<Rightarrow> string \<Rightarrow> bool \<Rightarrow> string" where
  "outlier_slug s f cohort =
     (if cohort then ''cohort-'' else '''') @
     (case map_of namedOutlierRules (s @ ''/'' @ f) of Some slug \<Rightarrow> slug
      | None \<Rightarrow> ''outlier-'' @ replace_char CHR ''_'' CHR ''-'' f)"

lemma outlierRule_slug: "outlierRule s f cohort = s @ ''/'' @ outlier_slug s f cohort"
  by (simp add: outlierRule_def outlier_slug_def fieldRule_def ruleCohortOutlierPrefix_def
      ruleOutlierPrefix_def split: option.split)

lemma outlier_slug_inj:
  assumes s: "CHR ''/'' \<notin> set s" and f: "CHR ''-'' \<notin> set f" "CHR ''-'' \<notin> set f'"
    and eq: "outlier_slug s f c = outlier_slug s f' c'"
  shows "f = f' \<and> c = c'"
proof -
  define core where "core f = (case map_of namedOutlierRules (s @ ''/'' @ f) of Some slug \<Rightarrow> slug
      | None \<Rightarrow> ''outlier-'' @ replace_char CHR ''_'' CHR ''-'' f)" for f
  have slug: "outlier_slug s f c = (if c then ''cohort-'' else '''') @ core f" for f c
    by (simp add: outlier_slug_def core_def)
  have no_cohort: "\<not> has_prefix (core f) ''cohort-''" for f
    using named_triple [OF _ s, of f] named_slugs
    by (auto simp: core_def has_prefix_def list_all_iff split: option.split)
  have c: "c = c'"
  proof (rule ccontr)
    assume "c \<noteq> c'"
    then show False using eq no_cohort [of f] no_cohort [of f']
      has_prefix_append [of "''cohort-''" "core f"] has_prefix_append [of "''cohort-''" "core f'"]
      by (cases c; cases c') (auto simp del: has_prefix_append simp: slug)
  qed
  then have core: "core f = core f'" using eq by (simp add: slug)
  have "f = f'"
  proof (cases "map_of namedOutlierRules (s @ ''/'' @ f)")
    case None
    then have o: "core f = ''outlier-'' @ replace_char CHR ''_'' CHR ''-'' f" by (simp add: core_def)
    have "map_of namedOutlierRules (s @ ''/'' @ f') = None"
    proof (rule ccontr)
      assume "map_of namedOutlierRules (s @ ''/'' @ f') \<noteq> None"
      then obtain slug where m: "map_of namedOutlierRules (s @ ''/'' @ f') = Some slug" by blast
      then have "core f' = slug" by (simp add: core_def)
      then have "has_prefix slug ''outlier-''" using core o by (metis has_prefix_append)
      then show False using named_triple [OF m s] named_slugs by (auto simp: list_all_iff)
    qed
    then have "replace_char CHR ''_'' CHR ''-'' f = replace_char CHR ''_'' CHR ''-'' f'"
      using core o by (simp add: core_def)
    then show ?thesis using f replace_char_inj by blast
  next
    case (Some slug)
    then have t: "(s, f, slug) \<in> set named_triples" "core f = slug"
      using named_triple [OF _ s] by (simp_all add: core_def)
    then have "\<not> has_prefix slug ''outlier-''" using named_slugs by (auto simp: list_all_iff)
    then have "map_of namedOutlierRules (s @ ''/'' @ f') = Some slug"
    proof (cases "map_of namedOutlierRules (s @ ''/'' @ f')")
      case None
      then have "core f' = ''outlier-'' @ replace_char CHR ''_'' CHR ''-'' f'" by (simp add: core_def)
      then have "has_prefix slug ''outlier-''" using core t(2) by (metis has_prefix_append)
      with \<open>\<not> has_prefix slug ''outlier-''\<close> show ?thesis by contradiction
    next
      case (Some slug')
      then have "core f' = slug'" by (simp add: core_def)
      with core t(2) Some show ?thesis by simp
    qed
    then have "(s, f', slug) \<in> set named_triples" by (rule named_triple [OF _ s])
    then show ?thesis using t(1) named_triples_distinct by (auto simp: distinct_map inj_on_def)
  qed
  with c show ?thesis by simp
qed

text \<open>A rule determines the check behind it: two fleet-relative or cohort-relative findings
  carry the same rule only when their scanners, their fields and their kind (fleet or cohort) are
  the same, for all scanner names without a slash and field names without a hyphen, as every
  registered name is. The fingerprint of a finding hashes its rule, so acknowledging one deviation
  never silences another.\<close>

lemma outlierRule_identifies:
  assumes "CHR ''/'' \<notin> set s" "CHR ''/'' \<notin> set s'" "CHR ''-'' \<notin> set f" "CHR ''-'' \<notin> set f'"
    and "outlierRule s f c = outlierRule s' f' c'"
  shows "s = s' \<and> f = f' \<and> c = c'"
proof -
  have "s = s' \<and> outlier_slug s f c = outlier_slug s' f' c'"
    using append_sep_inj [of "CHR ''/''" s s' "outlier_slug s f c" "outlier_slug s' f' c'"] assms
    by (simp add: outlierRule_slug)
  then show ?thesis using outlier_slug_inj [OF assms(1,3,4)] by auto
qed

lemma outlierRule_identifies_instance:
  "outlierRule ''vulnerabilities'' ''critical'' True \<noteq> outlierRule ''vulnerabilities'' ''high'' True"
  using outlierRule_identifies [of "''vulnerabilities''" "''vulnerabilities''" "''critical''" "''high''" True True]
  by auto

lemma registered_names:
  "list_all (\<lambda>s. CHR ''/'' \<notin> set (fr_Scanner (fs_Ref s)) \<and> CHR ''-'' \<notin> set (fr_Field (fs_Ref s))) fieldSpecs"
  by code_simp

section \<open>The count behind an exact norm\<close>

lemma share_round_trip:
  assumes "0 \<le> k" "k \<le> n" "0 < n" "n < 2 ^ 50"
  shows "math_Round (fmul (fdiv (of_int64 k) (of_int64 n)) (of_int64 n)) = k"
proof -
  have ints: "of_int64 k = of_int k" "of_int64 n = of_int n"
    using assms by (simp_all add: of_int64_def f64_of_int)
  define x :: rat where "x = of_int k / of_int n"
  have x: "0 \<le> x" "x \<le> 1" "x * of_int n = of_int k" using assms by (simp_all add: x_def divide_le_eq)
  have "\<bar>f64 x - x\<bar> * of_int n \<le> 2 powi (- 53) * of_int n"
    using f64_error_unit [OF x(1,2)] assms by (intro mult_right_mono) simp_all
  also have "\<dots> \<le> 2 powi (- 53) * 2 ^ 50"
  proof (rule mult_left_mono)
    show "(of_int n :: rat) \<le> 2 ^ 50" using assms(4) by (metis less_imp_le of_int_le_iff of_int_numeral of_int_power)
  qed simp
  also have "\<dots> \<le> 1 / 4" by code_simp
  finally have "\<bar>(f64 x - x) * of_int n\<bar> \<le> 1 / 4" using assms by (simp add: abs_mult)
  then have "(f64 x - x) * of_int n \<le> 1 / 4" "- ((f64 x - x) * of_int n) \<le> 1 / 4"
    by (metis abs_le_iff)+
  then have p: "of_int (4 * k - 1) / 4 \<le> f64 x * of_int n" "f64 x * of_int n \<le> of_int (4 * k + 1) / 4"
    using x(3) by (simp_all add: left_diff_distrib)
  have grid: "f64 (of_int (4 * k - 1) / 4) = of_int (4 * k - 1) / 4" "f64 (of_int (4 * k + 1) / 4) = of_int (4 * k + 1) / 4"
    using assms by (intro quarter_exact; simp)+
  have "of_int (4 * k - 1) / 4 \<le> f64 (f64 x * of_int n)" "f64 (f64 x * of_int n) \<le> of_int (4 * k + 1) / 4"
    using f64_mono [OF p(1)] f64_mono [OF p(2)] grid by simp_all
  moreover have "0 \<le> f64 (f64 x * of_int n)" using x(1) assms by (intro f64_nonneg mult_nonneg_nonneg) simp_all
  ultimately have "math_Round (f64 (f64 x * of_int n)) = k"
    unfolding math_Round_def by (simp add: floor_eq_iff)
  then show ?thesis by (simp add: fmul_def fdiv_def ints x_def)
qed

text \<open>The sentence of an exact norm quotes the true count: when \<open>k\<close> of the \<open>n\<close> clusters hold
  the norm, the share kept as a float64 multiplies and rounds back to \<open>k\<close>, so the sentence says
  every other cluster exactly when one cluster differs, for every population below \<open>2 ^ 50\<close>.\<close>

lemma exactNormPhrase_count:
  assumes "0 \<le> k" "k \<le> n" "0 < n" "n < 2 ^ 50"
  shows "exactNormPhrase (fdiv (of_int64 k) (of_int64 n)) n nrm scope =
    (if k = n - 1 then ''every other cluster in '' @ scope @ '' reports exactly '' @ nrm
     else Itoa k @ '' of '' @ Itoa n @ '' clusters in '' @ scope @ '' report exactly '' @ nrm)"
  by (simp add: exactNormPhrase_def share_round_trip [OF assms])

lemma exactNormPhrase_count_instance:
  "exactNormPhrase (fdiv (of_int64 9) (of_int64 11)) 11 ''0'' ''the fleet'' =
     ''9 of 11 clusters in the fleet report exactly 0''"
proof -
  have i: "Itoa 9 = ''9''" "Itoa 11 = ''11''" by code_simp+
  show ?thesis using exactNormPhrase_count [of 9 11 "''0''" "''the fleet''"] by (simp add: i)
qed



end
