(* ===== verification/Capacity.thy ===== *)
theory Capacity
  imports Fleet_Score Rules
begin

text \<open>
  The capacity analysis of \<open>internal/report/capacity.go\<close>, which correlates utilisation, pressure,
  node and event signals of each cluster. The groups are a map; the order of the list stands for the
  order in which Go ranges over it.
\<close>

section \<open>Reading a payload\<close>

text \<open>The type assertions of a decoded JSON object: the zero value stands for a missing member and
  for one of another type.\<close>

definition str_at :: "string \<Rightarrow> jobject \<Rightarrow> string" where
  "str_at k m = (case map_of m k of Some (JStr s) \<Rightarrow> s | _ \<Rightarrow> '''')"

definition bool_at :: "string \<Rightarrow> jobject \<Rightarrow> bool" where
  "bool_at k m = (case map_of m k of Some (JBool b) \<Rightarrow> b | _ \<Rightarrow> False)"

definition num_at :: "string \<Rightarrow> jobject \<Rightarrow> float64" where
  "num_at k m = (case Option.bind (map_of m k) util_Float64 of Some v \<Rightarrow> v | None \<Rightarrow> 0)"

definition int_at :: "string \<Rightarrow> jobject \<Rightarrow> int" where
  "int_at k m = math_Trunc (num_at k m)"

definition arr_at :: "string \<Rightarrow> jobject \<Rightarrow> json list" where
  "arr_at k m = (case map_of m k of Some (JArr xs) \<Rightarrow> xs | _ \<Rightarrow> [])"

definition objs_at :: "string \<Rightarrow> jobject \<Rightarrow> jobject list" where
  "objs_at k m = List.map_filter (\<lambda>v. case v of JObj m \<Rightarrow> Some m | _ \<Rightarrow> None) (arr_at k m)"

definition strs_at :: "string \<Rightarrow> jobject \<Rightarrow> string list" where
  "strs_at k m = List.map_filter (\<lambda>v. case v of JStr s \<Rightarrow> Some s | _ \<Rightarrow> None) (arr_at k m)"

section \<open>Signals\<close>

definition capacityCritical :: string where "capacityCritical = ''critical''"
definition capacityStrained :: string where "capacityStrained = ''strained''"
definition capacityBusy :: string where "capacityBusy = ''busy''"
definition capacityHealthy :: string where "capacityHealthy = ''healthy''"
definition capacityUnknown :: string where "capacityUnknown = ''unknown''"

lemmas capacity_defs =
  capacityCritical_def capacityStrained_def capacityBusy_def capacityHealthy_def capacityUnknown_def

record clusterSignals =
  sg_utilObs :: observation
  sg_utilGap :: string
  sg_cpuPct :: float64
  sg_memPct :: float64
  sg_nodeCount :: int
  sg_healthyNodes :: int
  sg_memPressure :: int
  sg_diskPressure :: int
  sg_notReady :: int
  sg_oomEvents :: bool
  sg_schedFail :: bool

definition utilizationGap :: "Report \<Rightarrow> string \<Rightarrow> string" where
  "utilizationGap r cluster =
     (case runState r ''metrics'' cluster of
        None \<Rightarrow> ''the metrics scanner did not run on this cluster, so headroom cannot be assessed.''
      | Some st \<Rightarrow>
          if st = StateErrored then ''the node metrics read failed, so headroom cannot be assessed. ''
            @ ''Check that the scanner can list nodes in metrics.k8s.io.''
          else if st = StateUnavailable then ''the cluster does not serve the metrics.k8s.io API. ''
            @ ''Install metrics-server to measure headroom.''
          else ''no node'' @ [CHR 0x27] @ ''s usage resolved to a percentage of its allocatable capacity, ''
            @ ''so headroom cannot be assessed. Check that the scanner can list nodes.'')"

definition hasEventReason :: "Report \<Rightarrow> string \<Rightarrow> string \<Rightarrow> bool" where
  "hasEventReason r cluster reason =
     (case clusterView r ''events'' cluster of (m, obs) \<Rightarrow>
        seen obs \<and> list_ex (\<lambda>rm. map_of rm ''reason'' = Some (JStr reason)) (objs_at ''top_warning_reasons'' m))"

definition cluster_signals :: "Report \<Rightarrow> string \<Rightarrow> clusterSignals" where
  "cluster_signals r cluster =
     (let (cpu, cpuObs) = observe r ''metrics'' cluster ''avg_cpu_percent'';
          (mem, memObs) = observe r ''metrics'' cluster ''avg_memory_percent'';
          obs = weakest [cpuObs, memObs];
          node = (\<lambda>field. fst (observeInt r ''node-health'' cluster field))
      in \<lparr>sg_utilObs = obs, sg_utilGap = (if seen obs then '''' else utilizationGap r cluster),
          sg_cpuPct = (if seen obs then cpu else 0), sg_memPct = (if seen obs then mem else 0),
          sg_nodeCount = node ''node_count'', sg_healthyNodes = node ''healthy_nodes'',
          sg_memPressure = node ''memory_pressure_nodes'', sg_diskPressure = node ''disk_pressure_nodes'',
          sg_notReady = node ''not_ready_nodes'',
          sg_oomEvents = hasEventReason r cluster ''OOMKilling'',
          sg_schedFail = hasEventReason r cluster ''FailedScheduling''\<rparr>)"

definition extractAllSignals :: "Report \<Rightarrow> (string, clusterSignals) gomap" where
  "extractAllSignals r =
     fold (\<lambda>cluster out. AList.update cluster (cluster_signals r cluster) out) (r_Clusters r) []"

section \<open>Assessment\<close>

definition assessStatus :: "clusterSignals \<Rightarrow> string" where
  "assessStatus sig =
     (let s = seen (sg_utilObs sig);
          hasPressure = sg_memPressure sig > 0 \<or> sg_diskPressure sig > 0;
          hasFailures = sg_oomEvents sig \<or> sg_schedFail sig;
          highUtil = s \<and> (sg_memPct sig > 85 \<or> sg_cpuPct sig > 85);
          elevatedUtil = s \<and> (sg_memPct sig > 70 \<or> sg_cpuPct sig > 70)
      in if hasPressure \<and> hasFailures then capacityCritical
         else if sg_notReady sig > 0 \<and> highUtil then capacityCritical
         else if hasPressure \<and> highUtil then capacityCritical
         else if hasPressure \<or> hasFailures then capacityStrained
         else if highUtil then capacityStrained
         else if elevatedUtil then capacityBusy
         else if \<not> s then capacityUnknown
         else capacityHealthy)"

definition math_Ceil :: "float64 \<Rightarrow> int" where
  "math_Ceil x = \<lceil>x\<rceil>"

definition nodesNeeded :: "clusterSignals \<Rightarrow> float64 \<Rightarrow> int" where
  "nodesNeeded sig targetPct =
     (if \<not> seen (sg_utilObs sig) \<or> sg_nodeCount sig = 0 \<or> sg_memPct sig \<le> targetPct then 0
      else let usedUnits = fmul (fdiv (sg_memPct sig) 100) (of_int64 (sg_nodeCount sig));
               needed = fdiv usedUnits (fdiv targetPct 100)
           in max (math_Ceil needed - sg_nodeCount sig) 1)"

definition memClause :: "clusterSignals \<Rightarrow> string" where
  "memClause sig =
     (if \<not> seen (sg_utilObs sig) then '''' else '' while average memory is '' @ fmt_fixed0 (sg_memPct sig) @ ''%'')"

definition pctText :: "float64 option \<Rightarrow> string" where
  "pctText p = (case p of None \<Rightarrow> ''unknown'' | Some x \<Rightarrow> fmt_fixed0 x @ ''%'')"

definition recommend :: "clusterSignals \<Rightarrow> string \<Rightarrow> string" where
  "recommend sig status =
     (let needed = nodesNeeded sig 70; s = seen (sg_utilObs sig);
          mem = fmt_fixed0 (sg_memPct sig); cpu = fmt_fixed0 (sg_cpuPct sig)
      in if status = capacityUnknown then ''Utilization is unknown: '' @ sg_utilGap sig
         else if status = capacityCritical then
           (if sg_oomEvents sig \<and> sg_memPressure sig > 0 \<and> needed = 0 then
              ''Cluster is actively OOM-killing pods with '' @ Itoa (sg_memPressure sig)
              @ '' node(s) under memory pressure'' @ memClause sig @ ''. ''
              @ ''The load is uneven: set memory limits and rebalance the workloads on those nodes.''
            else if sg_oomEvents sig \<and> sg_memPressure sig > 0 then
              ''Cluster is actively OOM-killing pods with '' @ Itoa (sg_memPressure sig)
              @ '' node(s) under memory pressure. Add '' @ Itoa needed
              @ '' node(s) to bring memory below 70% or increase per-node memory.''
            else if sg_memPressure sig > 0 \<and> needed = 0 then
              Itoa (sg_memPressure sig) @ '' of '' @ Itoa (sg_nodeCount sig) @ '' nodes report MemoryPressure''
              @ memClause sig @ ''. The load is uneven: rebalance or evict low-priority workloads on those nodes.''
            else if sg_memPressure sig > 0 then
              Itoa (sg_memPressure sig) @ '' of '' @ Itoa (sg_nodeCount sig) @ '' nodes report MemoryPressure. Add ''
              @ Itoa needed @ '' node(s) to relieve pressure or evict low-priority workloads.''
            else if sg_notReady sig > 0 \<and> \<not> s then
              Itoa (sg_notReady sig) @ '' node(s) are not Ready. Investigate node conditions before scaling.''
            else if sg_notReady sig > 0 then
              Itoa (sg_notReady sig) @ '' node(s) are not Ready. Investigate node conditions before scaling. ''
              @ ''Remaining nodes are overloaded at '' @ mem @ ''% memory.''
            else if needed = 0 then
              ''Resource exhaustion detected. Check node conditions and events before scaling.''
            else ''Resource exhaustion detected. Add '' @ Itoa needed @ '' node(s) to bring utilization below 70%.'')
         else if status = capacityStrained then
           (if sg_schedFail sig \<and> needed = 0 then
              ''FailedScheduling events show pods that do not fit'' @ memClause sig @ ''. ''
              @ ''Check pod requests, node selectors, taints, and affinity before adding nodes.''
            else if sg_schedFail sig then
              ''FailedScheduling events indicate insufficient capacity. Add '' @ Itoa needed
              @ '' node(s) or reduce workload resource requests.''
            else if \<not> s then
              ''Nodes report pressure or failure events, but utilization is unknown: '' @ sg_utilGap sig
            else if sg_memPct sig > 85 then
              ''Memory at '' @ mem @ ''% with no pressure yet, but little headroom remains. Consider adding ''
              @ Itoa needed @ '' node(s) proactively.''
            else if needed = 0 then
              ''Utilization is elevated (CPU '' @ cpu @ ''%, memory '' @ mem @ ''%). Monitor closely.''
            else ''Utilization is elevated (CPU '' @ cpu @ ''%, memory '' @ mem @ ''%). Monitor closely. ''
              @ Itoa needed @ '' additional node(s) would bring usage below 70%.'')
         else if status = capacityBusy then
           ''Cluster is running at CPU '' @ cpu @ ''%, memory '' @ mem @ ''% with no pressure conditions. ''
           @ ''This is healthy but has limited headroom ('' @ fmt_fixed0 (fsub 100 (sg_memPct sig)) @ ''% memory free). ''
           @ ''If traffic is expected to grow, consider adding capacity proactively.''
         else ''Cluster is healthy with '' @ fmt_fixed0 (fsub 100 (sg_cpuPct sig)) @ ''% CPU and ''
           @ fmt_fixed0 (fsub 100 (sg_memPct sig)) @ ''% memory headroom.'')"

section \<open>Peers\<close>

definition deviation_part :: "string \<Rightarrow> string \<Rightarrow> float64 \<Rightarrow> float64 \<Rightarrow> float64 \<Rightarrow> string" where
  "deviation_part label groupName diff mine peers =
     (if \<bar>diff\<bar> \<ge> 10 then label @ '' is '' @ fmt_fixed0 \<bar>diff\<bar> @ ''% points ''
        @ (if diff < 0 then ''lower'' else ''higher'') @ '' than the group '' @ quote groupName @ '' median (''
        @ fmt_fixed0 mine @ ''% vs '' @ fmt_fixed0 peers @ ''%).''
      else '''')"

definition groupComparison ::
  "string \<Rightarrow> string \<Rightarrow> string list \<Rightarrow> (string, clusterSignals) gomap \<Rightarrow> string" where
  "groupComparison cluster groupName peers signals =
     (case map_of signals cluster of
        None \<Rightarrow> ''''
      | Some sig \<Rightarrow>
          let others = filter (\<lambda>s. seen (sg_utilObs s))
                (List.map_filter (map_of signals) (filter (\<lambda>p. p \<noteq> cluster) peers))
          in if \<not> seen (sg_utilObs sig) \<or> others = [] then ''''
             else let mem = Median (map sg_memPct others); cpu = Median (map sg_cpuPct others);
                      memDiff = fsub (sg_memPct sig) mem; cpuDiff = fsub (sg_cpuPct sig) cpu
                  in if \<bar>memDiff\<bar> < 10 \<and> \<bar>cpuDiff\<bar> < 10 then
                       ''Within normal range for group '' @ quote groupName @ '' (peer median: CPU ''
                       @ fmt_fixed0 cpu @ ''%, memory '' @ fmt_fixed0 mem @ ''%).''
                     else (if \<bar>memDiff\<bar> \<ge> 10
                           then deviation_part ''Memory'' groupName memDiff (sg_memPct sig) mem @ '' '' else '''')
                          @ deviation_part ''CPU'' groupName cpuDiff (sg_cpuPct sig) cpu)"

text \<open>The groups of a cluster, in the order the map is ranged over, once for each time it is listed.\<close>

definition clusterGroups :: "(string, string list) gomap \<Rightarrow> string \<Rightarrow> string list" where
  "clusterGroups groups cluster =
     concat (map (\<lambda>(gName, members). map (\<lambda>_. gName) (filter (\<lambda>c. c = cluster) members)) groups)"

definition group_deviation ::
  "(string, string list) gomap \<Rightarrow> (string, clusterSignals) gomap \<Rightarrow> string \<Rightarrow> string" where
  "group_deviation groups signals cluster =
     (case find (\<lambda>g. 2 \<le> length (lookup_default [] groups g)) (clusterGroups groups cluster) of
        None \<Rightarrow> ''''
      | Some g \<Rightarrow> groupComparison cluster g (lookup_default [] groups g) signals)"

definition capacity_of ::
  "(string, string list) gomap \<Rightarrow> (string, clusterSignals) gomap \<Rightarrow> string \<Rightarrow> clusterSignals \<Rightarrow> CapacityAnalysis" where
  "capacity_of groups signals cluster sig =
     (let s = seen (sg_utilObs sig); status = assessStatus sig; when_seen = (\<lambda>x. if s then Some x else None)
      in \<lparr>ca_Cluster = cluster, ca_CPUUtilization = when_seen (sg_cpuPct sig),
          ca_MemoryUtilization = when_seen (sg_memPct sig),
          ca_HasMemoryPressure = (sg_memPressure sig > 0), ca_HasDiskPressure = (sg_diskPressure sig > 0),
          ca_HasOOMEvents = sg_oomEvents sig, ca_HasSchedulingFailures = sg_schedFail sig,
          ca_NodeCount = sg_nodeCount sig, ca_HealthyNodes = sg_healthyNodes sig,
          ca_HeadroomCPU = when_seen (fsub 100 (sg_cpuPct sig)),
          ca_HeadroomMemory = when_seen (fsub 100 (sg_memPct sig)),
          ca_Status = status, ca_Recommendation = recommend sig status @ note_of (sg_utilObs sig),
          ca_NodesNeededForTarget = nodesNeeded sig 70,
          ca_GroupDeviation = group_deviation groups signals cluster\<rparr>)"

definition status_order :: "string \<Rightarrow> nat" where
  "status_order status =
     lookup_default 0 [(capacityCritical, 0), (capacityStrained, 1), (capacityBusy, 2), (capacityUnknown, 3),
       (capacityHealthy, 4)] status"

text \<open>\<open>sort.Slice\<close> leaves the order of clusters of equal status open; here it is that of the report.\<close>

definition analyzeCapacity :: "Report \<Rightarrow> (string, string list) gomap \<Rightarrow> CapacityAnalysis list" where
  "analyzeCapacity r groups =
     (let signals = extractAllSignals r
      in sort_key (\<lambda>ca. status_order (ca_Status ca))
           (List.map_filter (\<lambda>cluster. map_option (capacity_of groups signals cluster) (map_of signals cluster))
              (r_Clusters r)))"

end
