(* ===== verification/Redundancy.thy ===== *)
theory Redundancy
  imports Rules
begin

text \<open>
  \<open>dropRedundant\<close> of \<open>internal/report/findings.go\<close>: the pass that removes a norm finding whose fact
  another finding on the cluster already states. The lemmas show that an absolute finding is never
  removed, that a removed finding always leaves one of at least its severity on its cluster, and
  that a norm finding which survives is not already counted by an absolute rule.
\<close>

section \<open>Definitions\<close>

definition scopeNoun :: "string \<Rightarrow> string" where
  "scopeNoun scope = (if scope = NormScopeFleet then ''the fleet'' else ''cohort '' @ quote scope)"

definition normSentence :: "string \<Rightarrow> NormBasis \<Rightarrow> string" where
  "normSentence cluster n =
     (let scope = scopeNoun (nb_Scope n)
      in if nb_Kind n = NormKindNumeric \<and> nb_Exact n then
           nb_Field n @ '' is '' @ nb_Value n @ '' on '' @ cluster @ '', where ''
             @ exactNormPhrase (nb_ModeShare n) (nb_SampleSize n) (formatNum (nb_Median n)) scope @ ''.''
         else if nb_Kind n = NormKindNumeric then
           nb_Field n @ '' is '' @ nb_Value n @ '' on '' @ cluster @ '', against a median of ''
             @ formatNum (nb_Median n) @ '' across '' @ Itoa (nb_SampleSize n) @ '' clusters in '' @ scope @ ''.''
         else if nb_Kind n = NormKindString then
           nb_Field n @ '' is '' @ quote (nb_Value n) @ '' on '' @ cluster @ '', against '' @ quote (nb_Mode n)
             @ '' held by '' @ fmt_fixed0 (fmul (nb_ModeShare n) 100) @ ''% of '' @ scope @ ''.''
         else if nb_Kind n = NormKindSet then
           nb_Field n @ '' on '' @ cluster @ '' lacks '' @ Itoa (int (length (nb_Missing n))) @ '' of the ''
             @ Itoa (int (length (nb_Consensus n))) @ '' members '' @ scope @ '' holds in common.''
         else '''')"

definition scopeMembers :: "Report \<Rightarrow> (string, string list) gomap" where
  "scopeMembers r =
     foldl (\<lambda>members c. AList.update (co_Name c) (co_Clusters c) members)
       [(NormScopeFleet, r_Clusters r)] (r_Cohorts r)"

type_synonym clusterRule = "string \<times> string"
type_synonym clusterField = "string \<times> FieldRef"
type_synonym scopedField = "string \<times> FieldRef \<times> string"

text \<open>The four maps the first loop of \<open>dropRedundant\<close> builds. A finding is named by its position.\<close>

record finding_index =
  ix_absolute :: "(clusterRule, nat) gomap"
  ix_firedOn :: "(string, string list) gomap"
  ix_norm :: "(clusterField, nat) gomap"
  ix_normIn :: "(scopedField, bool) gomap"

definition norm_field :: "Finding \<Rightarrow> NormBasis \<Rightarrow> FieldRef" where
  "norm_field f n = ref (f_Scanner f) (nb_Field n)"

definition index_finding :: "finding_index \<Rightarrow> nat \<times> Finding \<Rightarrow> finding_index" where
  "index_finding ix p =
     (case p of (i, f) \<Rightarrow>
        case f_Norm f of
          None \<Rightarrow>
            (if map_of (ix_absolute ix) (f_Cluster f, f_Rule f) = None
             then ix\<lparr>ix_absolute := AList.update (f_Cluster f, f_Rule f) i (ix_absolute ix),
                     ix_firedOn := map_append (f_Rule f) (f_Cluster f) (ix_firedOn ix)\<rparr>
             else ix)
        | Some n \<Rightarrow>
            ix\<lparr>ix_norm := AList.update (f_Cluster f, norm_field f n) i (ix_norm ix),
               ix_normIn := AList.update (f_Cluster f, norm_field f n, nb_Scope n) True (ix_normIn ix)\<rparr>)"

definition index_findings :: "Finding list \<Rightarrow> finding_index" where
  "index_findings fs =
     foldl index_finding \<lparr>ix_absolute = [], ix_firedOn = [], ix_norm = [], ix_normIn = []\<rparr>
       (List.enumerate 0 fs)"

definition singles :: "finding_index \<Rightarrow> (string, string list) gomap \<Rightarrow> string \<Rightarrow> FieldRef \<Rightarrow> string \<Rightarrow> bool" where
  "singles ix members rule field scope =
     (case map_of members scope of
        None \<Rightarrow> False
      | Some population \<Rightarrow>
          list_all (\<lambda>cluster. cluster \<notin> set population
                      \<or> lookup_default False (ix_normIn ix) (cluster, field, scope))
            (lookup_default [] (ix_firedOn ix) rule))"

definition counting :: "finding_index \<Rightarrow> (string, string list) gomap \<Rightarrow> string \<Rightarrow> FieldRef \<Rightarrow> string \<Rightarrow> nat option" where
  "counting ix members cluster field scope =
     (case lookupField (fr_Scanner field) (fr_Field field) of
        None \<Rightarrow> None
      | Some sp \<Rightarrow>
          if fs_CountedBy sp = '''' then None
          else case map_of (ix_absolute ix) (cluster, fs_CountedBy sp) of
            None \<Rightarrow> None
          | Some j \<Rightarrow> if singles ix members (fs_CountedBy sp) field scope then Some j else None)"

abbreviation rank_of :: "Finding \<Rightarrow> int" where
  "rank_of f \<equiv> SeverityRank (f_Severity f)"

definition absorb_norm :: "Finding \<Rightarrow> Finding \<Rightarrow> NormBasis \<Rightarrow> Finding" where
  "absorb_norm g f n =
     (if f_Norm g = None
      then g\<lparr>f_Norm := Some n, f_Description := appendSentence (f_Description g)
               (normSentence (f_Cluster f) n) (has_suffix (f_Description f) partialScanNote)\<rparr>
      else g)"

text \<open>The second loop: a norm finding whose field an absolute finding counts.\<close>

definition drop_counted ::
  "finding_index \<Rightarrow> (string, string list) gomap \<Rightarrow> bool list \<Rightarrow> bool list \<times> Finding list \<Rightarrow> nat
    \<Rightarrow> bool list \<times> Finding list" where
  "drop_counted ix members isNorm st i =
     (case st of (dropped, fs) \<Rightarrow>
        case f_Norm (fs ! i) of
          None \<Rightarrow> st
        | Some n \<Rightarrow>
            if \<not> isNorm ! i then st
            else case counting ix members (f_Cluster (fs ! i)) (norm_field (fs ! i) n) (nb_Scope n) of
              None \<Rightarrow> st
            | Some j \<Rightarrow>
                if rank_of (fs ! j) < rank_of (fs ! i) then st
                else (dropped[i := True], fs[j := absorb_norm (fs ! j) (fs ! i) n]))"

text \<open>The third loop: its inner loop over the fields a norm finding restates, then the loop itself.\<close>

fun restate_loop ::
  "finding_index \<Rightarrow> (string, string list) gomap \<Rightarrow> Finding list \<Rightarrow> nat \<Rightarrow> string \<Rightarrow> FieldRef list
    \<Rightarrow> bool list \<Rightarrow> bool list" where
  "restate_loop ix members fs i scope [] dropped = dropped"
| "restate_loop ix members fs i scope (target # targets) dropped =
     (let cluster = f_Cluster (fs ! i); rank = rank_of (fs ! i);
          counted = counting ix members cluster target scope
      in if (case counted of Some j \<Rightarrow> rank_of (fs ! j) \<ge> rank | None \<Rightarrow> False) then dropped[i := True]
         else case map_of (ix_norm ix) (cluster, target) of
           None \<Rightarrow> restate_loop ix members fs i scope targets dropped
         | Some j \<Rightarrow>
             if rank_of (fs ! j) \<ge> rank then dropped[i := True]
             else restate_loop ix members fs i scope targets
                    (if counted = None then dropped[j := True] else dropped))"

definition drop_restated ::
  "finding_index \<Rightarrow> (string, string list) gomap \<Rightarrow> bool list \<Rightarrow> Finding list \<Rightarrow> bool list \<Rightarrow> nat
    \<Rightarrow> bool list" where
  "drop_restated ix members isNorm fs dropped i =
     (case f_Norm (fs ! i) of
        None \<Rightarrow> dropped
      | Some n \<Rightarrow>
          if \<not> isNorm ! i \<or> dropped ! i then dropped
          else restate_loop ix members fs i (nb_Scope n)
                 (fs_RedundantWith (fieldSpec_of (f_Scanner (fs ! i)) (nb_Field n))) dropped)"

text \<open>The flags and the findings after the three loops.\<close>

definition judge :: "Finding list \<Rightarrow> (string, string list) gomap \<Rightarrow> bool list \<times> Finding list" where
  "judge findings members =
     (let ix = index_findings findings; isNorm = map (\<lambda>f. f_Norm f \<noteq> None) findings;
          (dropped, fs) = foldl (drop_counted ix members isNorm)
             (replicate (length findings) False, findings) [0..<length findings]
      in (foldl (drop_restated ix members isNorm fs) dropped [0..<length findings], fs))"

definition dropRedundant :: "Finding list \<Rightarrow> (string, string list) gomap \<Rightarrow> Finding list" where
  "dropRedundant findings members =
     (case judge findings members of (dropped, fs) \<Rightarrow>
        map snd (filter (\<lambda>(d, _). \<not> d) (zip dropped fs)))"

section \<open>The index\<close>

definition is_absolute :: "Finding \<Rightarrow> bool" where
  "is_absolute f \<longleftrightarrow> f_Norm f = None"

text \<open>\<open>index_ok\<close>: every position the index names is that of a finding that matches its key.\<close>

definition index_ok :: "Finding list \<Rightarrow> finding_index \<Rightarrow> bool" where
  "index_ok fs ix \<longleftrightarrow>
     (\<forall>c rule j. map_of (ix_absolute ix) (c, rule) = Some j \<longrightarrow>
        j < length fs \<and> is_absolute (fs ! j) \<and> f_Cluster (fs ! j) = c \<and> f_Rule (fs ! j) = rule) \<and>
     (\<forall>c t j. map_of (ix_norm ix) (c, t) = Some j \<longrightarrow>
        j < length fs \<and> f_Cluster (fs ! j) = c \<and>
        (\<exists>n. f_Norm (fs ! j) = Some n \<and> norm_field (fs ! j) n = t))"

lemma index_ok_extend:
  assumes "index_ok fs ix"
  shows "index_ok (fs @ [f]) (index_finding ix (length fs, f))"
  using assms unfolding index_ok_def index_finding_def is_absolute_def
  by (auto simp: nth_append less_Suc_eq split: option.split)

lemma index_findings_snoc:
  "index_findings (fs @ [f]) = index_finding (index_findings fs) (length fs, f)"
  by (simp add: index_findings_def enumerate_append_eq)

lemma index_findings_ok: "index_ok fs (index_findings fs)"
proof (induction fs rule: rev_induct)
  case Nil
  show ?case by (simp add: index_ok_def index_findings_def)
next
  case (snoc f fs)
  then show ?case by (simp add: index_findings_snoc index_ok_extend)
qed
lemma counting_absolute:
  assumes "index_ok fs ix" "counting ix members c t scope = Some j"
  shows "j < length fs \<and> is_absolute (fs ! j) \<and> f_Cluster (fs ! j) = c"
  using assms unfolding counting_def index_ok_def by (auto split: option.splits if_splits)

section \<open>What a flag says\<close>

text \<open>The level of a norm finding in the redundancy relation.\<close>

definition level :: "Finding \<Rightarrow> nat" where
  "level f = (case f_Norm f of None \<Rightarrow> 0 | Some n \<Rightarrow> redundancy_depth (norm_field f n))"

text \<open>\<open>outranked fs i\<close>: another finding on the cluster of finding \<open>i\<close> is absolute and at least as
  severe, or is a norm finding that is more severe, or as severe and at a lower level.\<close>

definition outranked :: "Finding list \<Rightarrow> nat \<Rightarrow> bool" where
  "outranked fs i \<longleftrightarrow>
     (\<exists>j < length fs. f_Cluster (fs ! j) = f_Cluster (fs ! i) \<and>
        (is_absolute (fs ! j) \<and> rank_of (fs ! j) \<ge> rank_of (fs ! i) \<or>
         rank_of (fs ! j) > rank_of (fs ! i) \<or>
         rank_of (fs ! j) \<ge> rank_of (fs ! i) \<and> level (fs ! j) < level (fs ! i)))"

definition flags_ok :: "Finding list \<Rightarrow> bool list \<Rightarrow> bool" where
  "flags_ok fs dropped \<longleftrightarrow>
     length dropped = length fs \<and>
     (\<forall>i < length fs. dropped ! i \<longrightarrow> \<not> is_absolute (fs ! i) \<and> outranked fs i)"

text \<open>What the passes may change of a finding: an absolute finding may take a norm and a sentence.\<close>

definition bare :: "Finding \<Rightarrow> Finding" where
  "bare f = f\<lparr>f_Norm := None, f_Description := ''''\<rparr>"

definition same_findings :: "Finding list \<Rightarrow> Finding list \<Rightarrow> bool" where
  "same_findings fs fs' \<longleftrightarrow>
     length fs' = length fs \<and>
     (\<forall>i < length fs. bare (fs' ! i) = bare (fs ! i) \<and> (\<not> is_absolute (fs ! i) \<longrightarrow> fs' ! i = fs ! i))"

lemma bare_eq:
  "bare f = bare g \<Longrightarrow> f_Cluster f = f_Cluster g \<and> f_Severity f = f_Severity g \<and> f_Scanner f = f_Scanner g
     \<and> f_Rule f = f_Rule g"
  by (cases f, cases g) (simp add: bare_def)

lemma bare_absorb [simp]: "bare (absorb_norm g f n) = bare g"
  by (simp add: absorb_norm_def bare_def)

lemma same_findings_refl [simp]: "same_findings fs fs"
  by (simp add: same_findings_def)

lemma same_findings_at:
  assumes "same_findings fs fs'" "i < length fs"
  shows "f_Cluster (fs' ! i) = f_Cluster (fs ! i)" "rank_of (fs' ! i) = rank_of (fs ! i)"
    "f_Scanner (fs' ! i) = f_Scanner (fs ! i)"
  using assms bare_eq [of "fs' ! i" "fs ! i"] by (auto simp: same_findings_def)

lemma same_findings_norm:
  assumes "same_findings fs fs'" "i < length fs" "\<not> is_absolute (fs ! i)"
  shows "fs' ! i = fs ! i"
  using assms by (simp add: same_findings_def)

lemma flags_ok_update:
  assumes "flags_ok fs dropped" "\<not> is_absolute (fs ! i)" "outranked fs i"
  shows "flags_ok fs (dropped[i := True])"
  using assms by (cases "i < length fs") (auto simp: flags_ok_def nth_list_update split: if_splits)

lemma outranked_absolute:
  assumes "index_ok fs ix" "counting ix members (f_Cluster (fs ! i)) t scope = Some j"
    and "rank_of (fs ! j) \<ge> rank_of (fs ! i)"
  shows "outranked fs i"
  using counting_absolute [OF assms(1,2)] assms(3) unfolding outranked_def by blast

lemma drop_counted_ok:
  assumes ix: "index_ok fs0 ix" and i: "i < length fs0"
    and st: "flags_ok fs0 dropped" "same_findings fs0 fs"
    and step: "drop_counted ix members (map (\<lambda>f. f_Norm f \<noteq> None) fs0) (dropped, fs) i = (dropped', fs')"
  shows "flags_ok fs0 dropped' \<and> same_findings fs0 fs'"
proof (cases "is_absolute (fs0 ! i)")
  case True
  then show ?thesis using step st i by (simp add: drop_counted_def is_absolute_def split: option.splits)
next
  case False
  then obtain n where n: "f_Norm (fs0 ! i) = Some n" by (auto simp: is_absolute_def)
  have same: "fs ! i = fs0 ! i" using st(2) i False by (rule same_findings_norm)
  show ?thesis
  proof (cases "counting ix members (f_Cluster (fs0 ! i)) (norm_field (fs0 ! i) n) (nb_Scope n)")
    case None
    then show ?thesis using step st i n by (simp add: drop_counted_def same)
  next
    case (Some j)
    then have jj: "j < length fs0" "is_absolute (fs0 ! j)" using counting_absolute [OF ix] by simp_all
    have rj: "rank_of (fs ! j) = rank_of (fs0 ! j)" using st(2) jj(1) by (rule same_findings_at)
    have "same_findings fs0 (fs[j := absorb_norm (fs ! j) (fs0 ! i) n])"
      using st(2) jj unfolding same_findings_def by (auto simp: nth_list_update)
    moreover have "flags_ok fs0 (dropped[i := True])" if "rank_of (fs0 ! j) \<ge> rank_of (fs0 ! i)"
      using flags_ok_update [OF st(1) False] outranked_absolute [OF ix Some that] by simp
    ultimately show ?thesis using step st i n Some
      by (auto simp: drop_counted_def same rj split: if_splits)
  qed
qed

lemma drop_counted_fold:
  assumes "index_ok fs0 ix" "\<forall>i \<in> set is. i < length fs0" "flags_ok fs0 dropped" "same_findings fs0 fs"
    and "foldl (drop_counted ix members (map (\<lambda>f. f_Norm f \<noteq> None) fs0)) (dropped, fs) is = (dropped', fs')"
  shows "flags_ok fs0 dropped' \<and> same_findings fs0 fs'"
  using assms(2-)
proof (induction "is" arbitrary: dropped fs)
  case (Cons i is')
  obtain d g where st: "drop_counted ix members (map (\<lambda>f. f_Norm f \<noteq> None) fs0) (dropped, fs) i = (d, g)"
    by fastforce
  then have "flags_ok fs0 d \<and> same_findings fs0 g"
    using drop_counted_ok [OF assms(1)] Cons.prems by (meson list.set_intros(1))
  then show ?case using Cons.IH [of d g] Cons.prems st by simp
qed simp

lemma restate_loop_ok:
  assumes ix: "index_ok fs0 ix" and st: "same_findings fs0 fs" and i: "i < length fs0"
    and n: "f_Norm (fs0 ! i) = Some n"
  shows "flags_ok fs0 dropped \<Longrightarrow> \<forall>t \<in> set targets. redundancy_depth t < redundancy_depth (norm_field (fs0 ! i) n) \<Longrightarrow>
    flags_ok fs0 (restate_loop ix members fs i scope targets dropped)"
proof (induction targets arbitrary: dropped)
  case (Cons t targets)
  have ni: "\<not> is_absolute (fs0 ! i)" using n by (simp add: is_absolute_def)
  have same: "fs ! i = fs0 ! i" using st i ni by (rule same_findings_norm)
  let ?c = "counting ix members (f_Cluster (fs0 ! i)) t scope"
  have counted: "outranked fs0 i" if "?c = Some j" "rank_of (fs ! j) \<ge> rank_of (fs0 ! i)" for j
    using outranked_absolute [OF ix that(1)] that same_findings_at(2) [OF st] counting_absolute [OF ix that(1)]
    by simp
  show ?case
  proof (cases "case ?c of Some j \<Rightarrow> rank_of (fs ! j) \<ge> rank_of (fs0 ! i) | None \<Rightarrow> False")
    case True
    then have "outranked fs0 i" using counted by (auto split: option.splits)
    then show ?thesis using True flags_ok_update [OF Cons.prems(1) ni] by (simp add: same Let_def)
  next
    case uncounted: False
    show ?thesis
    proof (cases "map_of (ix_norm ix) (f_Cluster (fs0 ! i), t)")
      case None
      then show ?thesis using uncounted Cons.prems Cons.IH by (simp add: same Let_def)
    next
      case (Some j)
      then obtain m where j: "j < length fs0" "f_Cluster (fs0 ! j) = f_Cluster (fs0 ! i)"
        "f_Norm (fs0 ! j) = Some m" "norm_field (fs0 ! j) m = t"
        using ix unfolding index_ok_def by blast
      have rj: "rank_of (fs ! j) = rank_of (fs0 ! j)" using st j(1) by (rule same_findings_at)
      have lv: "level (fs0 ! j) < level (fs0 ! i)" using Cons.prems(2) j n by (simp add: level_def)
      show ?thesis
      proof (cases "rank_of (fs0 ! j) \<ge> rank_of (fs0 ! i)")
        case True
        then have "outranked fs0 i" using j lv unfolding outranked_def by blast
        then show ?thesis using uncounted Some True flags_ok_update [OF Cons.prems(1) ni]
          by (simp add: same rj Let_def)
      next
        case False
        then have "outranked fs0 j" using i j(2) unfolding outranked_def by (metis not_le)
        then have "flags_ok fs0 (dropped[j := True])"
          using flags_ok_update [OF Cons.prems(1)] j(3) by (simp add: is_absolute_def)
        then show ?thesis using uncounted Some False Cons.prems Cons.IH by (simp add: same rj Let_def)
      qed
    qed
  qed
qed simp

lemma drop_restated_ok:
  assumes "index_ok fs0 ix" "same_findings fs0 fs" "i < length fs0" "flags_ok fs0 dropped"
  shows "flags_ok fs0 (drop_restated ix members (map (\<lambda>f. f_Norm f \<noteq> None) fs0) fs dropped i)"
proof (cases "is_absolute (fs0 ! i)")
  case True
  then show ?thesis using assms by (simp add: drop_restated_def is_absolute_def split: option.split)
next
  case False
  then obtain n where n: "f_Norm (fs0 ! i) = Some n" by (auto simp: is_absolute_def)
  have "fs ! i = fs0 ! i" using assms(2,3) False by (rule same_findings_norm)
  moreover have "\<forall>t \<in> set (fs_RedundantWith (fieldSpec_of (f_Scanner (fs0 ! i)) (nb_Field n))).
      redundancy_depth t < redundancy_depth (norm_field (fs0 ! i) n)"
    using redundancy_depth_less by (simp add: norm_field_def)
  ultimately show ?thesis using restate_loop_ok [OF assms(1-3) n assms(4)] assms(4) n
    by (simp add: drop_restated_def)
qed

lemma judge_ok:
  assumes "judge fs0 members = (dropped, fs)"
  shows "flags_ok fs0 dropped \<and> same_findings fs0 fs"
proof -
  let ?ix = "index_findings fs0" and ?norm = "map (\<lambda>f. f_Norm f \<noteq> None) fs0"
  obtain d where one: "foldl (drop_counted ?ix members ?norm) (replicate (length fs0) False, fs0) [0..<length fs0] = (d, fs)"
    and two: "dropped = foldl (drop_restated ?ix members ?norm fs) d [0..<length fs0]"
    using assms by (auto simp: judge_def Let_def split: prod.splits)
  have st: "flags_ok fs0 d \<and> same_findings fs0 fs"
    using one by (intro drop_counted_fold [OF index_findings_ok]) (auto simp: flags_ok_def)
  have "flags_ok fs0 (foldl (drop_restated ?ix members ?norm fs) d is)" if "\<forall>i \<in> set is. i < length fs0" for "is"
    using that by (induction "is" rule: rev_induct) (use st drop_restated_ok [OF index_findings_ok] in auto)
  then show ?thesis using st by (simp add: two)
qed


section \<open>What is kept\<close>

lemma subseq_unflagged:
  assumes "length flags = length xs" "\<forall>i < length xs. flags ! i \<longrightarrow> \<not> P (xs ! i)"
  shows "subseq (filter P xs) (map snd (filter (\<lambda>(d, _). \<not> d) (zip flags xs)))"
  using assms
proof (induction flags xs rule: list_induct2)
  case (Cons d flags x xs)
  have h: "d \<longrightarrow> \<not> P x" using Cons.prems by force
  have t: "\<forall>i < length xs. flags ! i \<longrightarrow> \<not> P (xs ! i)" using Cons.prems by force
  show ?case using Cons.IH [OF t] h by auto
qed simp

lemma kept_bare:
  assumes "judge fs members = (dropped, fs')"
  shows "map bare (dropRedundant fs members) = map bare (map snd (filter (\<lambda>(d, _). \<not> d) (zip dropped fs)))"
proof -
  have same: "same_findings fs fs'" using judge_ok [OF assms] by simp
  then have m: "map bare fs' = map bare fs"
    by (intro nth_equalityI) (simp_all add: same_findings_def)
  have push: "map bare (map snd (filter (\<lambda>(d, _). \<not> d) (zip ds xs))) =
      map snd (filter (\<lambda>(d, _). \<not> d) (zip ds (map bare xs)))" for ds xs
    by (simp add: zip_map2 filter_map comp_def case_prod_beta')
  show ?thesis unfolding dropRedundant_def assms prod.case push m ..
qed

lemma kept_absolute:
  "subseq (map bare (filter is_absolute fs)) (map bare (dropRedundant fs members)) \<and>
   subseq (map bare (dropRedundant fs members)) (map bare fs)"
proof -
  obtain dropped fs' where j: "judge fs members = (dropped, fs')" by fastforce
  have ok: "flags_ok fs dropped" using judge_ok [OF j] by simp
  let ?kept = "map snd (filter (\<lambda>(d, _). \<not> d) (zip dropped fs))"
  have "subseq (filter is_absolute fs) ?kept"
    using ok by (intro subseq_unflagged) (simp_all add: flags_ok_def)
  moreover have "subseq ?kept fs"
  proof -
    have "subseq ?kept (map snd (zip dropped fs))" by (intro subseq_map subseq_filter_left)
    then show ?thesis using ok by (simp add: flags_ok_def)
  qed
  ultimately show ?thesis unfolding kept_bare [OF j] by (blast intro: subseq_map)
qed

text \<open>Dropping redundant findings never removes, duplicates or reorders an absolute finding, and
  changes of a finding nothing but its norm and description: the absolute findings are a
  subsequence of the result, and the result is a subsequence of the findings.\<close>

lemma dropRedundant_keeps_absolute:
  "subseq (map bare (filter is_absolute fs)) (map bare (dropRedundant fs members)) \<and>
   subseq (map bare (dropRedundant fs members)) (map bare fs)"
  by (rule kept_absolute)

lemma unflagged_kept:
  assumes "judge fs members = (dropped, fs')" "i < length fs" "\<not> dropped ! i"
  shows "fs' ! i \<in> set (dropRedundant fs members)"
proof -
  have "(dropped ! i, fs' ! i) \<in> set (zip dropped fs')"
    using judge_ok [OF assms(1)] assms(2) by (auto simp: set_zip flags_ok_def same_findings_def)
  then show ?thesis using assms(3) by (force simp: dropRedundant_def assms(1))
qed

lemma kept_cover:
  assumes j: "judge fs members = (dropped, fs')" and i: "i < length fs"
  shows "\<exists>k < length fs. \<not> dropped ! k \<and> f_Cluster (fs ! k) = f_Cluster (fs ! i) \<and> rank_of (fs ! k) \<ge> rank_of (fs ! i)"
  using i
proof (induction "(nat (3 - rank_of (fs ! i)), level (fs ! i))" arbitrary: i
    rule: wf_induct_rule [OF wf_lex_prod [OF wf_less_than wf_less_than]])
  case 1
  have ok: "flags_ok fs dropped" using judge_ok [OF j] by simp
  show ?case
  proof (cases "dropped ! i")
    case True
    then obtain k where k: "k < length fs" "f_Cluster (fs ! k) = f_Cluster (fs ! i)"
      and why: "is_absolute (fs ! k) \<and> rank_of (fs ! k) \<ge> rank_of (fs ! i) \<or> rank_of (fs ! k) > rank_of (fs ! i)
        \<or> rank_of (fs ! k) \<ge> rank_of (fs ! i) \<and> level (fs ! k) < level (fs ! i)"
      using ok "1.prems" unfolding flags_ok_def outranked_def by blast
    have r: "rank_of (fs ! k) \<ge> rank_of (fs ! i)" using why by linarith
    show ?thesis
    proof (cases "is_absolute (fs ! k)")
      case True
      then have "\<not> dropped ! k" using ok k by (auto simp: flags_ok_def)
      then show ?thesis using k r by blast
    next
      case False
      have "((nat (3 - rank_of (fs ! k)), level (fs ! k)), (nat (3 - rank_of (fs ! i)), level (fs ! i)))
          \<in> less_than <*lex*> less_than"
        using why False SeverityRank_range [of "f_Severity (fs ! i)"] SeverityRank_range [of "f_Severity (fs ! k)"]
        by auto
      from "1.hyps" [OF this k(1)] obtain l where "l < length fs" "\<not> dropped ! l"
        "f_Cluster (fs ! l) = f_Cluster (fs ! k)" "rank_of (fs ! l) \<ge> rank_of (fs ! k)" by blast
      then show ?thesis using k(2) r by (intro exI [of _ l]) simp
    qed
  qed (use "1.prems" in blast)
qed

lemma kept_covers:
  "list_all (\<lambda>f. list_ex (\<lambda>g. f_Cluster g = f_Cluster f \<and> SeverityRank (f_Severity g) \<ge> SeverityRank (f_Severity f))
     (dropRedundant fs members)) fs"
proof -
  obtain dropped fs' where j: "judge fs members = (dropped, fs')" by fastforce
  have same: "same_findings fs fs'" using judge_ok [OF j] by simp
  have "\<exists>g \<in> set (dropRedundant fs members). f_Cluster g = f_Cluster (fs ! i) \<and> rank_of g \<ge> rank_of (fs ! i)"
    if i: "i < length fs" for i
  proof -
    obtain k where "k < length fs" "\<not> dropped ! k" "f_Cluster (fs ! k) = f_Cluster (fs ! i)"
      "rank_of (fs ! k) \<ge> rank_of (fs ! i)" using kept_cover [OF j i] by blast
    then show ?thesis using unflagged_kept [OF j] same_findings_at [OF same] by (metis (no_types, lifting))
  qed
  then show ?thesis by (auto simp: list_all_iff list_ex_iff in_set_conv_nth)
qed

text \<open>C32. Dropping redundant findings never lowers what a cluster is told: for every finding there is
  one left on the same cluster that is at least as severe. The chain of findings that justify a
  removal ends because the redundancy relation of the field registry has no cycle.\<close>

theorem dropRedundant_covers:
  "list_all (\<lambda>f. list_ex (\<lambda>g. f_Cluster g = f_Cluster f \<and> SeverityRank (f_Severity g) \<ge> SeverityRank (f_Severity f))
     (dropRedundant fs members)) fs"
  by (rule kept_covers)


section \<open>One fact is counted once\<close>

text \<open>The index read as facts about the list.\<close>

definition fired :: "Finding list \<Rightarrow> string \<Rightarrow> string \<Rightarrow> bool" where
  "fired fs cluster rule = list_ex (\<lambda>g. is_absolute g \<and> f_Cluster g = cluster \<and> f_Rule g = rule) fs"

definition off_norm :: "Finding list \<Rightarrow> string \<Rightarrow> FieldRef \<Rightarrow> string \<Rightarrow> bool" where
  "off_norm fs cluster field scope =
     list_ex (\<lambda>g. case f_Norm g of None \<Rightarrow> False
        | Some n \<Rightarrow> f_Cluster g = cluster \<and> norm_field g n = field \<and> nb_Scope n = scope) fs"

definition index_complete :: "Finding list \<Rightarrow> finding_index \<Rightarrow> bool" where
  "index_complete fs ix \<longleftrightarrow>
     (\<forall>c rule. map_of (ix_absolute ix) (c, rule) \<noteq> None \<longleftrightarrow> fired fs c rule) \<and>
     (\<forall>c rule. c \<in> set (lookup_default [] (ix_firedOn ix) rule) \<longleftrightarrow> fired fs c rule) \<and>
     (\<forall>c t scope. lookup_default False (ix_normIn ix) (c, t, scope) \<longleftrightarrow> off_norm fs c t scope)"

lemma index_complete_extend:
  assumes "index_complete fs ix"
  shows "index_complete (fs @ [f]) (index_finding ix (length fs, f))"
proof (cases "f_Norm f")
  case None
  show ?thesis
  proof (cases "fired fs (f_Cluster f) (f_Rule f)")
    case True
    have "map_of (ix_absolute ix) (f_Cluster f, f_Rule f) \<noteq> None"
      using assms True unfolding index_complete_def by blast
    then have "index_finding ix (length fs, f) = ix" by (auto simp: index_finding_def None)
    moreover have "fired (fs @ [f]) c rule = fired fs c rule" for c rule
      using True by (auto simp: fired_def)
    moreover have "off_norm (fs @ [f]) = off_norm fs" by (simp add: off_norm_def None fun_eq_iff)
    ultimately show ?thesis using assms by (simp add: index_complete_def)
  next
    case False
    then have "map_of (ix_absolute ix) (f_Cluster f, f_Rule f) = None"
      using assms unfolding index_complete_def by blast
    then have ix: "index_finding ix (length fs, f) =
        ix\<lparr>ix_absolute := AList.update (f_Cluster f, f_Rule f) (length fs) (ix_absolute ix),
           ix_firedOn := map_append (f_Rule f) (f_Cluster f) (ix_firedOn ix)\<rparr>"
      by (simp add: index_finding_def None)
    have fr: "fired (fs @ [f]) c rule \<longleftrightarrow> fired fs c rule \<or> (c = f_Cluster f \<and> rule = f_Rule f)" for c rule
      using None by (auto simp: fired_def is_absolute_def)
    have "off_norm (fs @ [f]) = off_norm fs" by (simp add: off_norm_def None fun_eq_iff)
    then show ?thesis using assms unfolding index_complete_def ix fr
      by (simp add: lookup_default_append) blast
  qed
next
  case (Some n)
  have "fired (fs @ [f]) = fired fs" by (simp add: fired_def Some is_absolute_def fun_eq_iff)
  moreover have "off_norm (fs @ [f]) c t scope \<longleftrightarrow>
      off_norm fs c t scope \<or> (c = f_Cluster f \<and> t = norm_field f n \<and> scope = nb_Scope n)" for c t scope
    by (auto simp: off_norm_def Some)
  ultimately show ?thesis using assms
    by (auto simp: index_complete_def index_finding_def Some lookup_default_def)
qed

lemma index_findings_complete: "index_complete fs (index_findings fs)"
proof (induction fs rule: rev_induct)
  case Nil
  show ?case by (simp add: index_complete_def index_findings_def fired_def off_norm_def lookup_default_def)
next
  case (snoc f fs)
  then show ?case by (simp add: index_findings_snoc index_complete_extend)
qed

text \<open>An absolute rule singles a field out in a scope: wherever it fired inside the scope, the
  cluster is off the norm.\<close>

definition singled_out :: "Finding list \<Rightarrow> (string, string list) gomap \<Rightarrow> string \<Rightarrow> FieldRef \<Rightarrow> string \<Rightarrow> bool" where
  "singled_out fs members rule field scope \<longleftrightarrow>
     (case map_of members scope of None \<Rightarrow> False
      | Some population \<Rightarrow> list_all (\<lambda>c. fired fs c rule \<longrightarrow> off_norm fs c field scope) population)"

lemma singles_iff: "singles (index_findings fs) members rule field scope = singled_out fs members rule field scope"
  using index_findings_complete [of fs] unfolding index_complete_def singles_def singled_out_def
  by (auto simp: list_all_iff split: option.split)

lemma counting_iff:
  "counting (index_findings fs) members cluster (ref s f) scope \<noteq> None \<longleftrightarrow>
     fs_CountedBy (fieldSpec_of s f) \<noteq> '''' \<and> fired fs cluster (fs_CountedBy (fieldSpec_of s f)) \<and>
     singled_out fs members (fs_CountedBy (fieldSpec_of s f)) (ref s f) scope"
proof -
  have "fired fs cluster rule \<longleftrightarrow> map_of (ix_absolute (index_findings fs)) (cluster, rule) \<noteq> None" for rule
    using index_findings_complete [of fs] unfolding index_complete_def by blast
  then show ?thesis
    by (auto simp: counting_def fieldSpec_of_def spec_def singles_iff ref_def split: option.split)
qed

lemma counting_rule:
  assumes "counting (index_findings fs) members cluster (ref s f) scope = Some j"
  shows "j < length fs \<and> is_absolute (fs ! j) \<and> f_Cluster (fs ! j) = cluster
    \<and> f_Rule (fs ! j) = fs_CountedBy (fieldSpec_of s f)"
proof -
  obtain sp where "lookupField s f = Some sp"
    "map_of (ix_absolute (index_findings fs)) (cluster, fs_CountedBy sp) = Some j"
    using assms by (auto simp: counting_def ref_def split: option.splits if_splits)
  then show ?thesis using index_findings_ok [of fs] unfolding index_ok_def by (simp add: fieldSpec_of_def)
qed

text \<open>A flag, once set, stays set.\<close>

definition flag_le :: "bool list \<Rightarrow> bool list \<Rightarrow> bool" where
  "flag_le ds es \<longleftrightarrow> list_all2 (\<longrightarrow>) ds es"

lemma flag_le_refl [simp]: "flag_le ds ds"
  by (simp add: flag_le_def list_all2_refl)

lemma flag_le_update [simp]: "flag_le ds (ds[i := True])"
  by (cases "i < length ds") (simp_all add: flag_le_def list_all2_conv_all_nth nth_list_update)

lemma flag_le_trans [trans]: "flag_le a b \<Longrightarrow> flag_le b c \<Longrightarrow> flag_le a c"
  by (auto simp: flag_le_def list_all2_conv_all_nth)

lemma flag_leD: "flag_le ds es \<Longrightarrow> i < length ds \<Longrightarrow> ds ! i \<Longrightarrow> es ! i"
  by (auto simp: flag_le_def list_all2_conv_all_nth)

lemma restate_loop_le: "flag_le ds (restate_loop ix members fs i scope ts ds)"
proof (induction ts arbitrary: ds)
  case (Cons t ts)
  have "flag_le ds (restate_loop ix members fs i scope ts (ds[j := True]))" for j
    using flag_le_update Cons.IH by (rule flag_le_trans)
  then show ?case using Cons.IH by (auto simp: Let_def split: option.split)
qed simp

lemma drop_restated_le: "flag_le ds (foldl (drop_restated ix members isNorm fs) ds is)"
proof (induction "is" arbitrary: ds)
  case (Cons i is')
  have "flag_le ds (drop_restated ix members isNorm fs ds i)"
    by (simp add: drop_restated_def restate_loop_le split: option.split)
  then show ?case using Cons.IH flag_le_trans by fastforce
qed simp

lemma drop_counted_le: "flag_le (fst st) (fst (foldl (drop_counted ix members isNorm) st is))"
proof (induction "is" arbitrary: st)
  case (Cons i is')
  have "flag_le (fst st) (fst (drop_counted ix members isNorm st i))"
    by (auto simp: drop_counted_def split: option.split prod.split)
  then show ?case using Cons.IH flag_le_trans by fastforce
qed simp


text \<open>A norm, once set, stays set.\<close>

definition norm_le :: "Finding list \<Rightarrow> Finding list \<Rightarrow> bool" where
  "norm_le fs gs \<longleftrightarrow> list_all2 (\<lambda>f g. f_Norm f \<noteq> None \<longrightarrow> f_Norm g \<noteq> None) fs gs"

lemma norm_le_refl: "norm_le fs fs"
  by (simp add: norm_le_def list_all2_refl)

lemma norm_le_trans: "norm_le a b \<Longrightarrow> norm_le b c \<Longrightarrow> norm_le a c"
  by (auto simp: norm_le_def list_all2_conv_all_nth)

lemma absorb_norm_some [simp]: "f_Norm (absorb_norm g f n) = Some (case f_Norm g of None \<Rightarrow> n | Some m \<Rightarrow> m)"
  by (auto simp: absorb_norm_def split: option.split)

lemma norm_le_absorb: "norm_le fs (fs[j := absorb_norm g f n])"
  by (cases "j < length fs") (auto simp: norm_le_def list_all2_conv_all_nth nth_list_update)

lemma drop_counted_norm_le: "norm_le (snd st) (snd (foldl (drop_counted ix members isNorm) st is))"
proof (induction "is" arbitrary: st)
  case (Cons i is')
  have "norm_le (snd st) (snd (drop_counted ix members isNorm st i))"
    by (auto simp: drop_counted_def norm_le_refl norm_le_absorb split: option.split prod.split)
  then show ?case using Cons.IH norm_le_trans by fastforce
qed (simp add: norm_le_refl)

lemma judge_counted:
  assumes j: "judge fs members = (dropped, fs')" and i: "i < length fs" and n: "f_Norm (fs ! i) = Some n"
    and c: "counting (index_findings fs) members (f_Cluster (fs ! i)) (norm_field (fs ! i) n) (nb_Scope n) = Some k"
    and r: "rank_of (fs ! k) \<ge> rank_of (fs ! i)"
  shows "dropped ! i \<and> f_Norm (fs' ! k) \<noteq> None"
proof -
  let ?step = "drop_counted (index_findings fs) members (map (\<lambda>f. f_Norm f \<noteq> None) fs)"
  let ?start = "(replicate (length fs) False, fs)"
  obtain d1 g1 where one: "foldl ?step ?start [0..<i] = (d1, g1)" by fastforce
  obtain d2 g2 where two: "?step (d1, g1) i = (d2, g2)" by fastforce
  obtain d3 where three: "foldl ?step (d2, g2) [Suc i..<length fs] = (d3, fs')"
    and last: "flag_le d3 dropped"
  proof -
    have "[0..<length fs] = [0..<i] @ i # [Suc i..<length fs]"
      using i upt_add_eq_append [of 0 i "length fs - i"] by (simp add: upt_conv_Cons)
    then have "foldl ?step ?start [0..<length fs] = foldl ?step (d2, g2) [Suc i..<length fs]"
      using one two by simp
    then show ?thesis using that j drop_restated_le unfolding judge_def Let_def
      by (auto split: prod.splits)
  qed
  have ok: "flags_ok fs d1 \<and> same_findings fs g1"
    using one i by (intro drop_counted_fold [OF index_findings_ok]) (auto simp: flags_ok_def)
  then have same: "g1 ! i = fs ! i" using i n by (intro same_findings_norm) (auto simp: is_absolute_def)
  have k: "k < length fs" using counting_absolute [OF index_findings_ok c] by simp
  then have rk: "rank_of (g1 ! k) = rank_of (fs ! k)" using ok same_findings_at(2) by blast
  have new: "d2 = d1[i := True]" "g2 = g1[k := absorb_norm (g1 ! k) (fs ! i) n]"
    using two n c r i by (simp_all add: drop_counted_def same rk)
  have len: "length d1 = length fs" "length g1 = length fs"
    using ok by (simp_all add: flags_ok_def same_findings_def)
  have le: "flag_le d2 d3"
    using drop_counted_le [of "(d2, g2)" "index_findings fs" members "map (\<lambda>f. f_Norm f \<noteq> None) fs" "[Suc i..<length fs]"]
    unfolding three by simp
  have "d2 ! i" "length d2 = length fs" using i len by (simp_all add: new(1))
  then have "d3 ! i" "length d3 = length fs" using le i flag_leD [OF le, of i]
    by (simp_all add: flag_le_def list_all2_conv_all_nth)
  then have "dropped ! i" using flag_leD [OF last, of i] i by simp
  moreover have nle: "norm_le g2 fs'"
    using drop_counted_norm_le [of "(d2, g2)" "index_findings fs" members "map (\<lambda>f. f_Norm f \<noteq> None) fs" "[Suc i..<length fs]"]
    unfolding three by simp
  have "f_Norm (g2 ! k) \<noteq> None" "k < length g2" using k len by (simp_all add: new(2))
  then have "f_Norm (fs' ! k) \<noteq> None" using nle unfolding norm_le_def list_all2_conv_all_nth by blast
  ultimately show ?thesis by simp
qed

lemma kept_position:
  assumes "judge fs members = (dropped, fs')" "g \<in> set (dropRedundant fs members)"
  obtains i where "i < length fs" "\<not> dropped ! i" "fs' ! i = g"
proof -
  obtain d where d: "(d, g) \<in> set (zip dropped fs')" "\<not> d"
    using assms(2) by (auto simp: dropRedundant_def assms(1))
  then obtain i where "i < length dropped" "dropped ! i = d" "fs' ! i = g" by (auto simp: set_zip)
  with d that judge_ok [OF assms(1)] show ?thesis by (simp add: flags_ok_def)
qed

lemma same_findings_rule: "same_findings fs fs' \<Longrightarrow> i < length fs \<Longrightarrow> f_Rule (fs' ! i) = f_Rule (fs ! i)"
  using bare_eq [of "fs' ! i" "fs ! i"] by (simp add: same_findings_def)

text \<open>A deviation an absolute rule already states is counted once: a norm finding goes when the
  rule that counts its field fired on the cluster, singles the clusters off the norm out within the
  scope of the norm, and reports the cluster at least as severely. The absolute finding stays and
  carries a norm. Rules of norm findings and of absolute findings differ.\<close>

lemma dropRedundant_counted_once:
  assumes f: "f \<in> set fs" "f_Norm f = Some n"
    and rule: "rule = fs_CountedBy (fieldSpec_of (f_Scanner f) (nb_Field n))" "rule \<noteq> ''''"
    and single: "fired fs (f_Cluster f) rule" "singled_out fs members rule (norm_field f n) (nb_Scope n)"
    and severe: "list_all (\<lambda>g. is_absolute g \<and> f_Cluster g = f_Cluster f \<and> f_Rule g = rule \<longrightarrow>
        SeverityRank (f_Severity g) \<ge> SeverityRank (f_Severity f)) fs"
    and apart: "list_all (\<lambda>g. is_absolute g \<longrightarrow> f_Rule g \<noteq> f_Rule f) fs"
  shows "f \<notin> set (dropRedundant fs members) \<and>
    list_ex (\<lambda>g. f_Cluster g = f_Cluster f \<and> f_Rule g = rule \<and> f_Norm g \<noteq> None) (dropRedundant fs members)"
proof -
  obtain dropped fs' where j: "judge fs members = (dropped, fs')" by fastforce
  have ok: "flags_ok fs dropped" "same_findings fs fs'" using judge_ok [OF j] by simp_all
  have "counting (index_findings fs) members (f_Cluster f) (norm_field f n) (nb_Scope n) \<noteq> None"
    unfolding norm_field_def counting_iff using rule single by (simp add: norm_field_def)
  then obtain k where k: "counting (index_findings fs) members (f_Cluster f) (norm_field f n) (nb_Scope n) = Some k"
    by blast
  have kk: "k < length fs" "is_absolute (fs ! k)" "f_Cluster (fs ! k) = f_Cluster f" "f_Rule (fs ! k) = rule"
    using counting_rule [OF k [unfolded norm_field_def]] rule(1) by simp_all
  have r: "rank_of (fs ! k) \<ge> rank_of f" using severe kk nth_mem [OF kk(1)] unfolding list_all_iff by blast
  have gone: "dropped ! i" "f_Norm (fs' ! k) \<noteq> None" if "i < length fs" "fs ! i = f" for i
    using judge_counted [OF j that(1), of n k] f(2) k r that(2) by simp_all
  have "f \<notin> set (dropRedundant fs members)"
  proof
    assume "f \<in> set (dropRedundant fs members)"
    then obtain i where i: "i < length fs" "\<not> dropped ! i" "fs' ! i = f" by (rule kept_position [OF j])
    show False
    proof (cases "is_absolute (fs ! i)")
      case True
      have "f_Rule (fs ! i) = f_Rule f" using same_findings_rule [OF ok(2) i(1)] i(3) by simp
      then show False using apart True nth_mem [OF i(1)] unfolding list_all_iff by blast
    next
      case False
      then have "fs ! i = f" using same_findings_norm [OF ok(2) i(1)] i(3) by simp
      then show False using gone(1) i by blast
    qed
  qed
  moreover have "fs' ! k \<in> set (dropRedundant fs members)"
    using unflagged_kept [OF j kk(1)] ok(1) kk(1,2) unfolding flags_ok_def by blast
  moreover have "f_Cluster (fs' ! k) = f_Cluster f" "f_Rule (fs' ! k) = rule"
    using same_findings_rule [OF ok(2) kk(1)] same_findings_at(1) [OF ok(2) kk(1)] kk by simp_all
  moreover have "f_Norm (fs' ! k) \<noteq> None" using gone(2) f(1) by (metis in_set_conv_nth)
  ultimately show ?thesis unfolding list_ex_iff by blast
qed


definition sample_norm :: NormBasis where
  "sample_norm =
     \<lparr>nb_Scope = ''fleet'', nb_Field = ''memory_pressure_nodes'', nb_Kind = ''numeric'', nb_Median = 0,
      nb_MAD = 0, nb_Mode = '''', nb_ModeShare = 1 / 2, nb_Consensus = [], nb_Missing = [],
      nb_SampleSize = 2, nb_Threshold = 0, nb_Value = ''2'', nb_Z = 0, nb_LimitedSample = False,
      nb_Exact = True, nb_NoWhatIf = ''''\<rparr>"

definition sample_norm_finding :: Finding where
  "sample_norm_finding = Finding0\<lparr>f_Cluster := ''prod-1'', f_Scanner := ''node-health'',
     f_Rule := ''node-health/outlier-memory-pressure-nodes'', f_Severity := SeverityCritical,
     f_Norm := Some sample_norm\<rparr>"

definition sample_rule_finding :: Finding where
  "sample_rule_finding = Finding0\<lparr>f_Cluster := ''prod-1'', f_Scanner := ''node-health'',
     f_Rule := ''node-health/memory-pressure'', f_Severity := SeverityCritical\<rparr>"

lemma sample_counted_by:
  "fs_CountedBy (fieldSpec_of (f_Scanner sample_norm_finding) (nb_Field sample_norm)) = ''node-health/memory-pressure''"
  by code_simp

lemma dropRedundant_counted_once_instance:
  "sample_norm_finding \<notin> set (dropRedundant [sample_norm_finding, sample_rule_finding]
     [(''fleet'', [''prod-1'', ''prod-2''])])"
proof -
  let ?fs = "[sample_norm_finding, sample_rule_finding]" and ?rule = "''node-health/memory-pressure''"
  have a: "\<not> is_absolute sample_norm_finding" "is_absolute sample_rule_finding"
    by (simp_all add: is_absolute_def sample_norm_finding_def sample_rule_finding_def Finding0_def)
  have f: "fired ?fs (f_Cluster sample_norm_finding) ?rule" by code_simp
  have s: "singled_out ?fs [(''fleet'', [''prod-1'', ''prod-2''])] ?rule
      (norm_field sample_norm_finding sample_norm) (nb_Scope sample_norm)" by code_simp
  show ?thesis
    using dropRedundant_counted_once [of sample_norm_finding ?fs sample_norm ?rule, OF _ _ _ _ f s] a sample_counted_by
    by (simp add: sample_norm_finding_def sample_rule_finding_def)
qed



end
