(* ===== verification/Findings.thy ===== *)
theory Findings
  imports Redundancy
begin

text \<open>
  The rest of \<open>internal/report/findings.go\<close>: findings from outliers, the ordering of findings, the
  health summary of each cluster, and the fusion of findings into incidents
  (\<open>internal/report/incident.go\<close>). The lemmas show what the status of a cluster says and when an
  incident is raised.
\<close>

section \<open>Findings from outliers\<close>

definition scannerLabels :: "(string, string) gomap" where
  "scannerLabels =
    [(''version'', ''Kubernetes Version''),
     (''namespaces'', ''Namespaces''),
     (''crds'', ''Custom Resource Definitions''),
     (''services'', ''Services''),
     (''ingresses'', ''Ingress Resources''),
     (''resources'', ''Node Resources''),
     (''rbac'', ''RBAC Configuration''),
     (''security'', ''Pod Security Standards''),
     (''network-policies'', ''Network Policies''),
     (''resource-quotas'', ''Resource Quotas and Limits''),
     (''node-health'', ''Node Health''),
     (''metrics'', ''Resource Utilization''),
     (''events'', ''Cluster Events''),
     (''workload-security'', ''Workload Security''),
     (''rbac-audit'', ''RBAC Audit''),
     (''image-audit'', ''Image Hygiene''),
     (''certs'', ''Certificate Expiry''),
     (''deprecated-apis'', ''Deprecated APIs''),
     (''workload-coverage'', ''PDB/HPA Coverage''),
     (''cluster-info'', ''Node OS/Kernel Drift''),
     (''admission'', ''Admission Webhooks''),
     (''geo'', ''Geographic Location''),
     (''vulnerabilities'', ''Image Vulnerabilities''),
     (''policy-reports'', ''Policy Reports'')]"

definition outlierTitle :: "OutlierResult \<Rightarrow> string \<Rightarrow> string \<Rightarrow> string" where
  "outlierTitle x better nrm =
     (if o_Favorable x then o_Cluster x @ '' is better than '' @ better @ '' on '' @ o_Field x
      else o_Cluster x @ '' deviates from '' @ nrm @ '' on '' @ o_Field x)"

definition favorableNote :: "OutlierResult \<Rightarrow> string" where
  "favorableNote x =
     (if \<not> o_Favorable x then ''''
      else '' '' @ (if fs_Polarity (fieldSpec_of (o_Scanner x) (o_Field x)) = DownIsBad then ''Higher'' else ''Lower'')
        @ '' is better for this field, so this is not a regression. If the cluster''
        @ '' differs by design, tag it into a cohort.'')"

definition outlierKey :: "string \<Rightarrow> string \<Rightarrow> string \<Rightarrow> string" where
  "outlierKey cluster field scanner = cluster @ [CHR 0x00] @ field @ [CHR 0x00] @ scanner"

definition outlier_finding :: "Report \<Rightarrow> OutlierResult \<Rightarrow> Finding" where
  "outlier_finding r x =
     Finding0\<lparr>f_Rule := outlierRule (o_Scanner x) (o_Field x) False,
       f_Title := outlierTitle x ''the fleet norm'' ''fleet norm'',
       f_Description := o_Cluster x @ '' reports '' @ o_Field x @ ''='' @ o_Value x
         @ '' while the fleet norm is '' @ o_FleetNorm x @ '' (scanner: ''
         @ lookup_default '''' scannerLabels (o_Scanner x) @ '').'' @ favorableNote x
         @ runNote r (o_Scanner x) (o_Cluster x),
       f_Severity := o_Severity x, f_Cluster := o_Cluster x, f_Scanner := o_Scanner x,
       f_Affected := [o_Field x], f_Remediation := Some (normRemediation x NormScopeFleet),
       f_Norm := Some (Basis x)\<rparr>"

definition outlierFindings :: "Report \<Rightarrow> Finding list" where
  "outlierFindings r = map (outlier_finding r) (filter (\<lambda>x. o_ExplainedBy x = '''') (r_Outliers r))"

definition cohort_finding :: "Report \<Rightarrow> CohortSummary \<Rightarrow> OutlierResult \<Rightarrow> Finding" where
  "cohort_finding r c x =
     Finding0\<lparr>f_Rule := outlierRule (o_Scanner x) (o_Field x) True,
       f_Title := outlierTitle x ''its cohort norm'' ''its cohort'',
       f_Description := ''Within cohort '' @ quote (co_Name c) @ '', '' @ o_Cluster x @ '' reports ''
         @ o_Field x @ ''='' @ o_Value x @ '' while the cohort norm is '' @ o_FleetNorm x
         @ '' (scanner: '' @ lookup_default '''' scannerLabels (o_Scanner x) @ '').''
         @ favorableNote x @ runNote r (o_Scanner x) (o_Cluster x),
       f_Severity := o_Severity x, f_Cluster := o_Cluster x, f_Scanner := o_Scanner x,
       f_Affected := [o_Field x],
       f_Remediation := Some (normRemediation x (''cohort '' @ quote (co_Name c))),
       f_Norm := Some (Basis x)\<rparr>"

text \<open>Without cohorts the Go function returns before it builds the set of fleet outliers, with the
  same empty result.\<close>

definition cohortOutlierFindings :: "Report \<Rightarrow> Finding list" where
  "cohortOutlierFindings r =
     (let fleet = map (\<lambda>x. outlierKey (o_Cluster x) (o_Field x) (o_Scanner x)) (r_Outliers r)
      in concat (map (\<lambda>c. map (cohort_finding r c)
           (filter (\<lambda>x. outlierKey (o_Cluster x) (o_Field x) (o_Scanner x) \<notin> set fleet) (co_Outliers c)))
         (r_Cohorts r)))"

definition sortFindings :: "Finding list \<Rightarrow> Finding list" where
  "sortFindings fs = sort_key (\<lambda>f. - SeverityRank (f_Severity f)) fs"

definition maxAffected :: nat where "maxAffected = 10"

definition capList :: "string list \<Rightarrow> string list" where
  "capList items =
     (if length items \<le> maxAffected then items
      else take maxAffected items @ [''...and '' @ Itoa (int (length items - maxAffected)) @ '' more''])"

section \<open>Cluster health\<close>

definition health_status :: "(string, int) gomap \<Rightarrow> int \<Rightarrow> string" where
  "health_status counts blind =
     (let status = (if lookup_default 0 counts SeverityCritical > 0 then ''critical''
                    else if lookup_default 0 counts SeverityWarning > 0 then ''degraded'' else ''healthy'')
      in if status = ''healthy'' \<and> blind > 0 then ''unknown'' else status)"

definition cluster_health :: "Report \<Rightarrow> Finding list \<Rightarrow> string \<Rightarrow> ClusterHealth" where
  "cluster_health r findings cluster =
     (let counts = clusterSeverityCounts cluster findings;
          blind = snd (clusterRunCounts r cluster (expectedScanners r))
      in \<lparr>h_Name = cluster, h_Status = health_status counts blind, h_FindingCounts = counts,
          h_KubernetesVersion = fst (observeString r ''version'' cluster ''git_version''),
          h_NodeCount = fst (observeInt r ''node-health'' cluster ''node_count''),
          h_HealthyNodes = fst (observeInt r ''node-health'' cluster ''healthy_nodes''),
          h_AvgCPU = fst (observe r ''metrics'' cluster ''avg_cpu_percent''),
          h_AvgMemory = fst (observe r ''metrics'' cluster ''avg_memory_percent''),
          h_WarningEvents = fst (observeInt r ''events'' cluster ''warning_events''),
          h_NamespaceCount = fst (observeInt r ''namespaces'' cluster ''count''),
          h_DegradedScanners = lookup_default 0 (DegradedByCluster r) cluster,
          h_BlindScanners = blind\<rparr>)"

definition generateClusterHealth :: "Report \<Rightarrow> Finding list \<Rightarrow> ClusterHealth list" where
  "generateClusterHealth r findings = map (cluster_health r findings) (r_Clusters r)"

section \<open>Incidents\<close>

definition incidentThemes :: "(string, string) gomap" where
  "incidentThemes =
    [(''admission'', ''admission-control''),
     (''certs'', ''admission-control''),
     (''deprecated-apis'', ''admission-control''),
     (''node-health'', ''node-pressure''),
     (''metrics'', ''node-pressure''),
     (''events'', ''node-pressure''),
     (''workload-security'', ''security-posture''),
     (''rbac-audit'', ''security-posture''),
     (''security'', ''security-posture''),
     (''network-policies'', ''security-posture''),
     (''image-audit'', ''security-posture'')]"

definition incidentTitles :: "(string, string) gomap" where
  "incidentTitles =
    [(''admission-control'', ''admission path degraded''),
     (''node-pressure'', ''resource exhaustion''),
     (''security-posture'', ''security posture gaps'')]"

definition incidentSummaries :: "(string, string) gomap" where
  "incidentSummaries =
    [(''admission-control'', ''Certificate, webhook, and deprecated-API problems overlap on this cluster and point at a failing admission path. A broken admission webhook can cascade into rejected or unvalidated workloads.''),
     (''node-pressure'', ''Node pressure, elevated utilization, and a warning-event spike overlap on this cluster and point at resource exhaustion. Pods risk eviction and OOM kills.''),
     (''security-posture'', ''Workload-security, RBAC, network-policy, and image gaps overlap on this cluster and widen its attack surface at the same time.'')]"

definition maxSeverityOf :: "Finding list \<Rightarrow> string" where
  "maxSeverityOf fs =
     foldl (\<lambda>best f. if SeverityRank (f_Severity f) > SeverityRank best then f_Severity f else best)
       SeverityInfo fs"

definition group_incident ::
  "(string \<times> string, Finding list) gomap \<Rightarrow> Finding \<Rightarrow> (string \<times> string, Finding list) gomap" where
  "group_incident groups f =
     (case map_of incidentThemes (f_Scanner f) of
        None \<Rightarrow> groups
      | Some theme \<Rightarrow>
          if f_Cluster f = '''' \<or> f_Cluster f = ''fleet'' then groups
          else map_append (f_Cluster f, theme) f groups)"

definition incident_of :: "(string \<times> string) \<times> Finding list \<Rightarrow> Incident" where
  "incident_of g =
     (case g of ((cluster, theme), fs) \<Rightarrow>
        \<lparr>in_Cluster = cluster,
         in_Title = cluster @ '': '' @ lookup_default '''' incidentTitles theme @ '' (''
           @ Itoa (int (length fs)) @ '' signals)'',
         in_Theme = theme, in_Severity = maxSeverityOf fs,
         in_Summary = lookup_default '''' incidentSummaries theme,
         in_Findings = sort (map f_Title fs)\<rparr>)"

definition fuseIncidents :: "Finding list \<Rightarrow> Incident list" where
  "fuseIncidents findings =
     sort_key (\<lambda>i. (- SeverityRank (in_Severity i), in_Cluster i, in_Theme i))
       (map incident_of (filter (\<lambda>(_, fs). length fs \<ge> 2) (foldl group_incident [] findings)))"

section \<open>The status of a cluster\<close>

text \<open>The findings that bear on a cluster: its own and the marks fleet findings put on it.\<close>

definition bearing :: "string \<Rightarrow> Finding list \<Rightarrow> string \<Rightarrow> bool" where
  "bearing cluster fs severity \<longleftrightarrow>
     list_ex (\<lambda>f. (f_Cluster f = cluster \<and> f_Severity f = severity)
       \<or> list_ex (\<lambda>m. m_Cluster m = cluster \<and> m_Severity m = severity) (f_Marks f)) fs"

lemma counts_pos_iff:
  assumes "s \<in> {SeverityCritical, SeverityWarning, SeverityInfo}"
  shows "lookup_default 0 (clusterSeverityCounts cluster fs) s > 0 \<longleftrightarrow> bearing cluster fs s"
proof -
  have "lookup_default 0 (clusterSeverityCounts cluster fs) s > 0 \<longleftrightarrow>
      filter (\<lambda>f. f_Cluster f = cluster \<and> f_Severity f = s) fs \<noteq> [] \<or>
      filter (\<lambda>m. m_Cluster m = cluster \<and> m_Severity m = s) (concat (map f_Marks fs)) \<noteq> []"
    unfolding clusterSeverityCounts_eq [OF assms] by (simp only: length_greater_0_conv [symmetric]) linarith
  also have "\<dots> \<longleftrightarrow> bearing cluster fs s"
    unfolding bearing_def list_ex_iff filter_empty_conv by auto
  finally show ?thesis .
qed

text \<open>C33. What the status of a cluster says: critical when a critical finding or mark bears on it,
  degraded when only a warning does, unknown when neither does but an expected scanner run did not
  observe the cluster, and healthy only when every expected run reached it.\<close>

theorem cluster_status_spec:
  "map (\<lambda>h. (h_Name h, h_Status h)) (generateClusterHealth r fs) =
   map (\<lambda>c. (c, if bearing c fs SeverityCritical then ''critical''
                else if bearing c fs SeverityWarning then ''degraded''
                else if list_ex (run_blind r c) (expectedScanners r) then ''unknown''
                else ''healthy'')) (r_Clusters r)"
proof -
  have "filter (run_blind r c) (expectedScanners r) \<noteq> [] \<longleftrightarrow> list_ex (run_blind r c) (expectedScanners r)" for c
    by (auto simp: list_ex_iff filter_empty_conv)
  then show ?thesis
    by (simp add: generateClusterHealth_def cluster_health_def health_status_def Let_def counts_pos_iff
        clusterRunCounts_eq)
qed

lemma bearing_bare: "bearing c fs s = bearing c (map bare fs) s"
proof -
  have "f_Cluster (bare f) = f_Cluster f" "f_Severity (bare f) = f_Severity f" "f_Marks (bare f) = f_Marks f" for f
    by (simp_all add: bare_def)
  then show ?thesis by (simp add: bearing_def list_ex_iff)
qed

lemma bearing_mono: "set (map bare fs) \<subseteq> set (map bare gs) \<Longrightarrow> bearing c fs s \<Longrightarrow> bearing c gs s"
  unfolding bearing_bare [of c fs] bearing_bare [of c gs] unfolding bearing_def list_ex_iff by blast

lemma subseq_set: "subseq xs ys \<Longrightarrow> set xs \<subseteq> set ys"
  by (auto dest: list_emb_set)

lemma kept_sets:
  "set (map bare (dropRedundant fs members)) \<subseteq> set (map bare fs)"
  "set (map bare (filter is_absolute fs)) \<subseteq> set (map bare (dropRedundant fs members))"
  using kept_absolute [of fs members] subseq_set by blast+

lemma severity_by_rank:
  assumes "s \<in> {SeverityCritical, SeverityWarning, SeverityInfo}"
  shows "SeverityRank s \<ge> SeverityRank SeverityCritical \<longleftrightarrow> s = SeverityCritical"
    "SeverityRank s \<ge> SeverityRank SeverityWarning \<longleftrightarrow> s = SeverityCritical \<or> s = SeverityWarning"
  using assms by (auto simp: SeverityCritical_def SeverityWarning_def SeverityInfo_def SeverityRank_def)

text \<open>\<open>worst_bearing\<close> is the part of a status the findings decide.\<close>

definition worst_bearing :: "string \<Rightarrow> Finding list \<Rightarrow> bool \<times> bool" where
  "worst_bearing c fs =
     (bearing c fs SeverityCritical, bearing c fs SeverityCritical \<or> bearing c fs SeverityWarning)"

lemma bearing_kept:
  assumes sev: "\<And>f. f \<in> set fs \<Longrightarrow> f_Severity f \<in> {SeverityCritical, SeverityWarning, SeverityInfo}"
    and marks: "\<And>f. f \<in> set fs \<Longrightarrow> f_Norm f \<noteq> None \<Longrightarrow> f_Marks f = []"
    and b: "bearing c fs s"
  obtains "bearing c (dropRedundant fs members) s"
  | g where "g \<in> set (dropRedundant fs members)" "f_Cluster g = c" "SeverityRank (f_Severity g) \<ge> SeverityRank s"
      "f_Severity g \<in> {SeverityCritical, SeverityWarning, SeverityInfo}"
proof -
  let ?kept = "dropRedundant fs members"
  note sub = kept_sets [of fs members]
  obtain f where f: "f \<in> set fs" "(f_Cluster f = c \<and> f_Severity f = s) \<or>
      list_ex (\<lambda>m. m_Cluster m = c \<and> m_Severity m = s) (f_Marks f)"
    using b by (auto simp: bearing_def list_ex_iff)
  show thesis
  proof (cases "is_absolute f")
    case True
    then have "bearing c (filter is_absolute fs) s" using f by (auto simp: bearing_def list_ex_iff)
    then show ?thesis using that(1) bearing_mono [OF sub(2)] by blast
  next
    case False
    then have own: "f_Cluster f = c" "f_Severity f = s" using f marks [OF f(1)] by (auto simp: is_absolute_def)
    obtain g where g: "g \<in> set ?kept" "f_Cluster g = c" "SeverityRank (f_Severity g) \<ge> SeverityRank s"
      using kept_covers [of fs members] f(1) own by (auto simp: list_all_iff list_ex_iff)
    then have "bare g \<in> set (map bare fs)" using sub(1) by auto
    then obtain g0 where "g0 \<in> set fs" "bare g0 = bare g" by auto
    then have "f_Severity g \<in> {SeverityCritical, SeverityWarning, SeverityInfo}" using sev bare_eq by metis
    then show ?thesis using that(2) g by blast
  qed
qed

lemma worst_bearing_kept:
  assumes sev: "\<And>f. f \<in> set fs \<Longrightarrow> f_Severity f \<in> {SeverityCritical, SeverityWarning, SeverityInfo}"
    and marks: "\<And>f. f \<in> set fs \<Longrightarrow> f_Norm f \<noteq> None \<Longrightarrow> f_Marks f = []"
  shows "worst_bearing c (dropRedundant fs members) = worst_bearing c fs"
proof -
  let ?kept = "dropRedundant fs members"
  have down: "bearing c ?kept s \<Longrightarrow> bearing c fs s" for s
    using bearing_mono [OF kept_sets(1)] .
  have own: "bearing c ?kept (f_Severity g)" if "g \<in> set ?kept" "f_Cluster g = c" for g
    using that by (auto simp: bearing_def list_ex_iff)
  have crit: "bearing c ?kept SeverityCritical" if "bearing c fs SeverityCritical"
    using sev marks that by (rule bearing_kept [where members = members]) (use own severity_by_rank(1) in metis)+
  have warn: "bearing c ?kept SeverityCritical \<or> bearing c ?kept SeverityWarning" if "bearing c fs SeverityWarning"
    using sev marks that by (rule bearing_kept [where members = members]) (use own severity_by_rank(2) in metis)+
  show ?thesis using down crit warn by (auto simp: worst_bearing_def)
qed

lemma status_worst:
  "h_Status (cluster_health r fs c) =
     (if fst (worst_bearing c fs) then ''critical'' else if snd (worst_bearing c fs) then ''degraded''
      else if snd (clusterRunCounts r c (expectedScanners r)) > 0 then ''unknown'' else ''healthy'')"
  by (simp add: cluster_health_def health_status_def Let_def worst_bearing_def counts_pos_iff)

text \<open>Dropping redundant findings leaves the status of every cluster as it was: a view that reads
  the status sees the same whether a fact is stated once or twice. Severities are the three of the
  report, and only fleet findings, which carry no norm, put marks on clusters.\<close>

lemma dropRedundant_status:
  assumes "list_all (\<lambda>f. f_Severity f \<in> {SeverityCritical, SeverityWarning, SeverityInfo}) fs"
    and "list_all (\<lambda>f. f_Norm f \<noteq> None \<longrightarrow> f_Marks f = []) fs"
  shows "map h_Status (generateClusterHealth r (dropRedundant fs members)) =
    map h_Status (generateClusterHealth r fs)"
proof -
  have "worst_bearing c (dropRedundant fs members) = worst_bearing c fs" for c
    using assms by (intro worst_bearing_kept) (auto simp: list_all_iff)
  then show ?thesis by (simp add: generateClusterHealth_def status_worst)
qed

lemma dropRedundant_status_instance:
  "map h_Status (generateClusterHealth (Report0\<lparr>r_Clusters := [''prod-1'', ''prod-2'']\<rparr>)
     (dropRedundant [sample_norm_finding, sample_rule_finding] [(''fleet'', [''prod-1'', ''prod-2''])])) =
   [''critical'', ''healthy'']"
proof -
  let ?r = "Report0\<lparr>r_Clusters := [''prod-1'', ''prod-2'']\<rparr>"
  have "map h_Status (generateClusterHealth ?r [sample_norm_finding, sample_rule_finding]) = [''critical'', ''healthy'']"
    by code_simp
  then show ?thesis
    using dropRedundant_status [of "[sample_norm_finding, sample_rule_finding]" ?r "[(''fleet'', [''prod-1'', ''prod-2''])]"]
    by (simp add: sample_norm_finding_def sample_rule_finding_def Finding0_def)
qed

section \<open>What an incident is\<close>

definition shares_theme :: "string \<times> string \<Rightarrow> Finding \<Rightarrow> bool" where
  "shares_theme k f \<longleftrightarrow> fst k \<notin> {'''', ''fleet''} \<and> f_Cluster f = fst k
     \<and> map_of incidentThemes (f_Scanner f) = Some (snd k)"

lemma incident_groups:
  "distinct (map fst (foldl group_incident [] fs)) \<and>
   map_of (foldl group_incident [] fs) k =
     (let members = filter (shares_theme k) fs in if members = [] then None else Some members)"
proof (induction fs arbitrary: k rule: rev_induct)
  case (snoc f fs)
  let ?g = "foldl group_incident [] fs"
  show ?case
  proof (cases "\<exists>theme. map_of incidentThemes (f_Scanner f) = Some theme \<and> f_Cluster f \<notin> {'''', ''fleet''}")
    case True
    then obtain theme where t: "map_of incidentThemes (f_Scanner f) = Some theme" "f_Cluster f \<notin> {'''', ''fleet''}"
      by blast
    then have "foldl group_incident [] (fs @ [f]) = map_append (f_Cluster f, theme) f ?g"
      by (simp add: group_incident_def)
    moreover have "shares_theme k f \<longleftrightarrow> k = (f_Cluster f, theme)" using t by (auto simp: shares_theme_def)
    ultimately show ?thesis using snoc.IH [of k]
      by (auto simp: map_append_def lookup_default_def distinct_update Let_def)
  next
    case False
    then have "foldl group_incident [] (fs @ [f]) = ?g" by (auto simp: group_incident_def split: option.split)
    moreover have "\<not> shares_theme k f" using False by (auto simp: shares_theme_def)
    ultimately show ?thesis using snoc.IH [of k] by simp
  qed
qed (simp add: Let_def)

lemma maxSeverityOf_rank:
  "SeverityRank (maxSeverityOf fs) = Max (insert (SeverityRank SeverityInfo) ((\<lambda>f. SeverityRank (f_Severity f)) ` set fs))"
proof (induction fs rule: rev_induct)
  case (snoc f fs)
  have "SeverityRank (maxSeverityOf (fs @ [f])) = max (SeverityRank (f_Severity f)) (SeverityRank (maxSeverityOf fs))"
    by (simp add: maxSeverityOf_def)
  also have "\<dots> = Max (insert (SeverityRank (f_Severity f)) (insert (SeverityRank SeverityInfo) ((\<lambda>f. SeverityRank (f_Severity f)) ` set fs)))"
    unfolding snoc.IH by (rule Max_insert [symmetric]) simp_all
  finally show ?case by (simp add: insert_commute)
qed (simp add: maxSeverityOf_def)

text \<open>The incidents of a scan: exactly one for each cluster and root-cause theme that at least two
  of the cluster's findings share, built from all of them in their order; no incident names the
  fleet or no cluster. Each is as severe as its most severe member (at least info), and they are
  listed by severity, cluster and theme.\<close>

lemma fuseIncidents_spec:
  "mset (map (\<lambda>i. (in_Cluster i, in_Theme i)) (fuseIncidents fs)) =
     mset_set {k. 2 \<le> length (filter (shares_theme k) fs)} \<and>
   set (fuseIncidents fs) = (\<lambda>k. incident_of (k, filter (shares_theme k) fs)) ` {k. 2 \<le> length (filter (shares_theme k) fs)} \<and>
   list_all (\<lambda>i. SeverityRank (in_Severity i) =
     Max (insert (SeverityRank SeverityInfo)
       ((\<lambda>f. SeverityRank (f_Severity f)) ` set (filter (shares_theme (in_Cluster i, in_Theme i)) fs)))) (fuseIncidents fs) \<and>
   sorted (map (\<lambda>i. (- SeverityRank (in_Severity i), in_Cluster i, in_Theme i)) (fuseIncidents fs))"
proof -
  define gs where "gs = filter (\<lambda>(_, ms). length ms \<ge> 2) (foldl group_incident [] fs)"
  let ?K = "{k. 2 \<le> length (filter (shares_theme k) fs)}"
  have d: "distinct (map fst (foldl group_incident [] fs))" using incident_groups by blast
  have mem: "(k, ms) \<in> set gs \<longleftrightarrow> k \<in> ?K \<and> ms = filter (shares_theme k) fs" for k ms
  proof -
    have "(k, ms) \<in> set gs \<longleftrightarrow> map_of (foldl group_incident [] fs) k = Some ms \<and> 2 \<le> length ms"
      using d by (auto simp: gs_def)
    also have "\<dots> \<longleftrightarrow> k \<in> ?K \<and> ms = filter (shares_theme k) fs"
      using incident_groups [of fs k] by (auto simp: Let_def)
    finally show ?thesis .
  qed
  have gs: "set gs = (\<lambda>k. (k, filter (shares_theme k) fs)) ` ?K" using mem by auto
  then have keys: "fst ` set gs = ?K" by (simp add: image_image)
  have dk: "distinct (map fst gs)" unfolding gs_def using d by (simp add: distinct_map_filter)
  have key: "(in_Cluster (incident_of g), in_Theme (incident_of g)) = fst g" for g
    by (simp add: incident_of_def split: prod.split)
  have ms: "mset (map (\<lambda>i. (in_Cluster i, in_Theme i)) (fuseIncidents fs)) = mset (map fst gs)"
    by (simp add: fuseIncidents_def gs_def [symmetric] image_mset.compositionality comp_def key)
  have st: "set (fuseIncidents fs) = incident_of ` set gs" by (simp add: fuseIncidents_def gs_def)
  have sev: "SeverityRank (in_Severity (incident_of (k, ms))) =
      Max (insert (SeverityRank SeverityInfo) ((\<lambda>f. SeverityRank (f_Severity f)) ` set ms))" for k ms
    by (cases k) (simp add: incident_of_def maxSeverityOf_rank)
  have "mset (map fst gs) = mset_set ?K" using dk keys by (metis mset_set_set set_map)
  moreover have "set (fuseIncidents fs) = (\<lambda>k. incident_of (k, filter (shares_theme k) fs)) ` ?K"
    by (simp add: st gs image_image)
  moreover have "list_all (\<lambda>i. SeverityRank (in_Severity i) =
     Max (insert (SeverityRank SeverityInfo)
       ((\<lambda>f. SeverityRank (f_Severity f)) ` set (filter (shares_theme (in_Cluster i, in_Theme i)) fs)))) (fuseIncidents fs)"
    unfolding list_all_iff st gs by (auto simp only: key sev image_iff fst_conv)
  moreover have "sorted (map (\<lambda>i. (- SeverityRank (in_Severity i), in_Cluster i, in_Theme i)) (fuseIncidents fs))"
    unfolding fuseIncidents_def by (rule sorted_sort_key)
  ultimately show ?thesis unfolding ms by blast
qed

end
