(* ===== verification/Checks_Health.thy ===== *)
theory Checks_Health
  imports Capacity Findings
begin

text \<open>
  The checks of \<open>internal/report/findings_health.go\<close>: node conditions, capacity, quotas and warning
  events. A check runs over the clusters of the report in order when the report has its section.
\<close>

section \<open>Building findings\<close>

definition check_clusters :: "Report \<Rightarrow> string \<Rightarrow> (string \<Rightarrow> Finding list) \<Rightarrow> Finding list" where
  "check_clusters r scannerName check =
     (case map_of (r_Sections r) scannerName of
        None \<Rightarrow> []
      | Some sec \<Rightarrow> concat (map check (r_Clusters r)))"

definition report_when :: "bool \<Rightarrow> Finding \<Rightarrow> Finding list" where
  "report_when hit f = (if hit then [f] else [])"

definition alert :: "string \<Rightarrow> string \<Rightarrow> string \<Rightarrow> string \<Rightarrow> string \<Rightarrow> string \<Rightarrow> Finding" where
  "alert scannerName cluster rule sev title desc =
     Finding0\<lparr>f_Rule := rule, f_Title := title, f_Description := desc, f_Severity := sev,
       f_Cluster := cluster, f_Scanner := scannerName\<rparr>"

definition affecting :: "string list \<Rightarrow> Finding \<Rightarrow> Finding" where
  "affecting xs f = f\<lparr>f_Affected := xs\<rparr>"

definition by_command :: "string \<Rightarrow> Finding \<Rightarrow> Finding" where
  "by_command cmd f = f\<lparr>f_Remediation := Some \<lparr>rm_Command = cmd, rm_YAML = '''', rm_RunbookURL = ''''\<rparr>\<rparr>"

definition by_yaml :: "string \<Rightarrow> Finding \<Rightarrow> Finding" where
  "by_yaml yaml f = f\<lparr>f_Remediation := Some \<lparr>rm_Command = '''', rm_YAML = yaml, rm_RunbookURL = ''''\<rparr>\<rparr>"

definition unlines :: "string list \<Rightarrow> string" where
  "unlines ls = concat (map (\<lambda>l. l @ [CHR 0x0A]) ls)"

definition percent_of :: "int \<Rightarrow> int \<Rightarrow> float64" where
  "percent_of n total_n = fmul (fdiv (of_int64 n) (of_int64 total_n)) 100"

section \<open>Nodes\<close>

record nodeView =
  nv_Name :: string
  nv_Ready :: bool
  nv_Conditions :: "string list"

definition condition_of :: "json \<Rightarrow> string option" where
  "condition_of c =
     (case c of
        JStr s \<Rightarrow> Some s
      | JObj m \<Rightarrow> if str_at ''type'' m \<noteq> '''' \<and> str_at ''status'' m = ''True'' then Some (str_at ''type'' m) else None
      | _ \<Rightarrow> None)"

definition node_view :: "jobject \<Rightarrow> nodeView" where
  "node_view nm =
     \<lparr>nv_Name = str_at ''name'' nm, nv_Ready = bool_at ''ready'' nm,
      nv_Conditions = List.map_filter condition_of (arr_at ''conditions'' nm)\<rparr>"

definition extractNodeNames :: "Report \<Rightarrow> string \<Rightarrow> string \<Rightarrow> nodeView list" where
  "extractNodeNames r cluster scannerName =
     (case clusterView r scannerName cluster of (m, obs) \<Rightarrow>
        if \<not> seen obs then [] else map node_view (objs_at ''nodes'' m))"

definition byCondition :: "nodeView list \<Rightarrow> string \<Rightarrow> string list" where
  "byCondition ns condition = sort (map nv_Name (filter (\<lambda>n. condition \<in> set (nv_Conditions n)) ns))"

definition notReady :: "nodeView list \<Rightarrow> string list" where
  "notReady ns = sort (map nv_Name (filter (\<lambda>n. \<not> nv_Ready n) ns))"

definition describe_nodes :: "string \<Rightarrow> string list \<Rightarrow> Finding \<Rightarrow> Finding" where
  "describe_nodes cluster affected f =
     by_command (''kubectl --context '' @ cluster @ '' describe node '' @ strings_Join affected '' '') (affecting affected f)"

definition node_findings :: "Report \<Rightarrow> string \<Rightarrow> Finding list" where
  "node_findings r cluster =
     (let nodes = extractNodeNames r cluster ''node-health'';
          (memPressure, memObs) = observeInt r ''node-health'' cluster ''memory_pressure_nodes'';
          (diskPressure, diskObs) = observeInt r ''node-health'' cluster ''disk_pressure_nodes'';
          (unready, unreadyObs) = observeInt r ''node-health'' cluster ''not_ready_nodes'';
          count = fst (observeInt r ''node-health'' cluster ''node_count'');
          finding = alert ''node-health'' cluster
      in report_when (seen memObs \<and> memPressure > 0)
           (describe_nodes cluster (byCondition nodes ''MemoryPressure'')
             (finding ''node-health/memory-pressure'' SeverityCritical
               (cluster @ '' has '' @ Itoa memPressure @ '' node(s) under memory pressure'')
               (Itoa memPressure @ '' of '' @ Itoa count @ '' nodes report MemoryPressure=True. ''
                @ ''Pods on these nodes risk OOM kills and the scheduler will avoid them.'' @ note_of memObs)))
       @ report_when (seen diskObs \<and> diskPressure > 0)
           (describe_nodes cluster (byCondition nodes ''DiskPressure'')
             (finding ''node-health/disk-pressure'' SeverityWarning
               (cluster @ '' has '' @ Itoa diskPressure @ '' node(s) under disk pressure'')
               (Itoa diskPressure @ '' of '' @ Itoa count @ '' nodes report DiskPressure=True. ''
                @ ''Pods may be evicted to free disk space.'' @ note_of diskObs)))
       @ report_when (seen unreadyObs \<and> unready > 0)
           (describe_nodes cluster (notReady nodes)
             (finding ''node-health/not-ready'' SeverityCritical
               (cluster @ '' has '' @ Itoa unready @ '' node(s) not ready'')
               (Itoa unready @ '' of '' @ Itoa count @ '' nodes are not reporting Ready=True. ''
                @ ''Workloads cannot be scheduled to these nodes.'' @ note_of unreadyObs))))"

definition nodeHealthFindings :: "Report \<Rightarrow> Finding list" where
  "nodeHealthFindings r = check_clusters r ''node-health'' (node_findings r)"

section \<open>Capacity\<close>

definition capacity_findings :: "CapacityAnalysis \<Rightarrow> Finding list" where
  "capacity_findings ca =
     (let cluster = ca_Cluster ca; finding = alert ''metrics'' cluster
      in (if ca_Status ca = capacityCritical then
            [finding ''metrics/capacity-critical'' SeverityCritical (cluster @ '' is in critical state'') (ca_Recommendation ca)]
          else if ca_Status ca = capacityStrained then
            [finding ''metrics/capacity-degraded'' SeverityWarning (cluster @ '' is degraded'') (ca_Recommendation ca)]
          else if ca_Status ca = capacityBusy then
            [finding ''metrics/capacity-busy'' SeverityInfo
               (cluster @ '' is busy but healthy (CPU '' @ pctText (ca_CPUUtilization ca) @ '', memory ''
                @ pctText (ca_MemoryUtilization ca) @ '')'') (ca_Recommendation ca)]
          else [])
       @ report_when (ca_GroupDeviation ca \<noteq> '''' \<and> \<not> has_prefix (ca_GroupDeviation ca) ''Within normal range'')
           (by_command (''# '' @ trim_both is_space (ca_GroupDeviation ca) @ [CHR 0x0A] @ ''kubectl --context '' @ cluster @ '' top nodes'')
             (finding ''metrics/group-deviation'' SeverityWarning (cluster @ '' deviates from group peers'')
               (ca_GroupDeviation ca))))"

definition capacityFindings :: "Report \<Rightarrow> Finding list" where
  "capacityFindings r = concat (map capacity_findings (r_Capacity r))"

section \<open>Quotas\<close>

definition defaultResourceQuotaYAML :: string where
  "defaultResourceQuotaYAML = unlines
     [''apiVersion: v1'', ''kind: ResourceQuota'', ''metadata:'', ''  name: default-quota'',
      ''  namespace: REPLACE_WITH_NAMESPACE'', ''spec:'', ''  hard:'', ''    requests.cpu: '' @ quote ''4'',
      ''    requests.memory: 8Gi'', ''    limits.cpu: '' @ quote ''8'', ''    limits.memory: 16Gi'',
      ''    pods: '' @ quote ''100'']"

definition quota_findings :: "Report \<Rightarrow> string \<Rightarrow> Finding list" where
  "quota_findings r cluster =
     (let (quotas, quotaObs) = observeInt r ''resource-quotas'' cluster ''namespaces_with_quotas'';
          (nsCount, nsObs) = observeInt r ''namespaces'' cluster ''count''
      in report_when (quotaObs = observed \<and> seen nsObs \<and> nsCount > 0 \<and> quotas = 0)
           (by_yaml defaultResourceQuotaYAML
             (alert ''resource-quotas'' cluster ''resource-quotas/no-quota'' SeverityWarning
               (cluster @ '' has no resource quotas defined'')
               (''No namespaces have ResourceQuota objects. ''
                @ ''There are no limits on resource consumption per namespace.'' @ note_of nsObs))))"

definition quotaFindings :: "Report \<Rightarrow> Finding list" where
  "quotaFindings r = check_clusters r ''resource-quotas'' (quota_findings r)"

section \<open>Events\<close>

definition topEventReasons :: "Report \<Rightarrow> string \<Rightarrow> nat \<Rightarrow> string list" where
  "topEventReasons r cluster n =
     (case clusterView r ''events'' cluster of (m, obs) \<Rightarrow>
        if \<not> seen obs then []
        else take n (map (\<lambda>e. str_at ''reason'' e @ '' ('' @ Itoa (int_at ''count'' e) @ '')'')
               (filter (\<lambda>e. str_at ''reason'' e \<noteq> '''') (objs_at ''top_warning_reasons'' m))))"

definition event_severity :: "float64 \<Rightarrow> int \<Rightarrow> string" where
  "event_severity perNode warningCount =
     (if perNode > 20 \<or> warningCount > 1000 then SeverityCritical
      else if perNode > 5 \<or> warningCount > 200 then SeverityWarning else SeverityInfo)"

definition event_findings :: "Report \<Rightarrow> string \<Rightarrow> Finding list" where
  "event_findings r cluster =
     (let (warningCount, eventsObs) = observeInt r ''events'' cluster ''warning_events'';
          (nodes, nodesObs) = observeInt r ''node-health'' cluster ''node_count'';
          perNode = (if seen nodesObs then fdiv (of_int64 warningCount) (of_int64 (max nodes 1)) else 0);
          topReasons = topEventReasons r cluster 3;
          counted = (if seen nodesObs
            then Itoa warningCount @ '' warning events in the last hour across '' @ Itoa (max nodes 1)
              @ '' node(s) ('' @ fmt_fixed1 perNode @ '' per node).''
            else Itoa warningCount @ '' warning events in the last hour. ''
              @ ''The node count was not observed, so no per-node rate.'');
          desc = counted @ (if topReasons = [] then ''''
                            else '' Top reasons: '' @ strings_Join topReasons '', '' @ ''.'') @ note_of eventsObs
      in report_when (seen eventsObs \<and> warningCount \<noteq> 0)
           (by_command (''kubectl --context '' @ cluster
              @ '' get events --field-selector type=Warning --sort-by=.lastTimestamp -A | tail -50'')
             (affecting topReasons
               (alert ''events'' cluster ''events/warning-volume'' (event_severity perNode warningCount)
                 (cluster @ '' has '' @ Itoa warningCount @ '' warning event(s) in the last hour'') desc))))"

definition eventFindings :: "Report \<Rightarrow> Finding list" where
  "eventFindings r = check_clusters r ''events'' (event_findings r)"

end
