(* ===== verification/Checks_Security.thy ===== *)
theory Checks_Security
  imports Checks_Health
begin

text \<open>
  The checks of \<open>internal/report/findings_security.go\<close>: Pod Security enforcement, network policies,
  workload security, RBAC, certificates, vulnerabilities and admission webhooks.
\<close>

section \<open>Pod Security enforcement\<close>

definition levelPrivileged :: string where "levelPrivileged = ''privileged''"

definition Enforced :: "string \<Rightarrow> bool" where
  "Enforced lv \<longleftrightarrow> lv \<noteq> '''' \<and> lv \<noteq> levelPrivileged"

text \<open>The names with no enforce label and the names that enforce privileged.\<close>

definition unenforcedNamespaces :: "Report \<Rightarrow> string \<Rightarrow> string list \<times> string list" where
  "unenforcedNamespaces r cluster =
     (case clusterView r ''security'' cluster of (m, obs) \<Rightarrow>
        if \<not> seen obs then ([], [])
        else let bare = filter (\<lambda>e. str_at ''namespace'' e \<noteq> '''' \<and> \<not> Enforced (str_at ''enforce'' e)) (objs_at ''namespaces'' m)
             in (map (str_at ''namespace'') (filter (\<lambda>e. str_at ''enforce'' e = '''') bare),
                 map (str_at ''namespace'') (filter (\<lambda>e. str_at ''enforce'' e \<noteq> '''') bare)))"

definition security_findings :: "Report \<Rightarrow> string \<Rightarrow> Finding list" where
  "security_findings r cluster =
     (let listObs = snd (clusterView r ''security'' cluster);
          (unlabeled, privileged) = unenforcedNamespaces r cluster;
          (count, totalObs) = observeInt r ''security'' cluster ''namespace_count'';
          n = int (length unlabeled);
          allUnlabeled = (seen totalObs \<and> count > 0 \<and> n = count);
          known = (seen totalObs \<and> count \<ge> n); pct = percent_of n count;
          share = (if known then Itoa n @ '' of '' @ Itoa count @ '' namespaces ('' @ fmt_fixed0 pct @ ''%)''
                   else Itoa n @ '' namespaces'');
          sev = (if known \<and> pct > 50 then SeverityCritical else SeverityWarning);
          desc = share @ '' have no Pod Security Standards enforce label. ''
            @ ''Pods in these namespaces can run with any privileges.''
            @ (if privileged = [] then '''' else '' '' @ Itoa (int (length privileged))
                 @ '' more namespace(s) enforce only privileged, so they are listed but not charged.'')
      in report_when (\<not> (\<not> seen listObs \<or> n = 0 \<or> (allUnlabeled \<and> weakest [listObs, totalObs] \<noteq> observed)))
           (by_command (''kubectl --context '' @ cluster @ '' label namespace ''
              @ strings_Join (take maxAffected unlabeled) '' ''
              @ '' pod-security.kubernetes.io/enforce=baseline --overwrite'')
             (affecting (capList (unlabeled @ privileged))
               (alert ''security'' cluster ''security/psa-unenforced'' sev
                 (cluster @ '' has '' @ Itoa n @ '' namespace(s) without Pod Security enforcement'')
                 (desc @ note_of (weakest [listObs, totalObs]))))))"

definition securityFindings :: "Report \<Rightarrow> Finding list" where
  "securityFindings r = check_clusters r ''security'' (security_findings r)"

section \<open>Network policies\<close>

definition defaultDenyNetworkPolicyYAML :: string where
  "defaultDenyNetworkPolicyYAML = unlines
     [''apiVersion: networking.k8s.io/v1'', ''kind: NetworkPolicy'', ''metadata:'', ''  name: default-deny'',
      ''  namespace: REPLACE_WITH_NAMESPACE'', ''spec:'', ''  podSelector: {}'', ''  policyTypes:'',
      ''    - Ingress'', ''    - Egress'']"

definition network_findings :: "Report \<Rightarrow> string \<Rightarrow> Finding list" where
  "network_findings r cluster =
     (let (without, withoutObs) = observeInt r ''network-policies'' cluster ''namespaces_without_policies''
      in report_when (withoutObs = observed \<and> without > 0)
           (by_yaml defaultDenyNetworkPolicyYAML
             (alert ''network-policies'' cluster ''network-policies/no-policy'' SeverityWarning
               (cluster @ '' has '' @ Itoa without @ '' namespace(s) with no network policies'')
               (Itoa without @ '' namespaces have no NetworkPolicy resources. ''
                @ ''All pod-to-pod traffic is allowed in these namespaces.''))))"

definition networkFindings :: "Report \<Rightarrow> Finding list" where
  "networkFindings r = check_clusters r ''network-policies'' (network_findings r)"

section \<open>Workload security\<close>

record highRiskPod =
  hr_Name :: string
  hr_Risks :: "string list"

definition risk_place :: "jobject \<Rightarrow> string" where
  "risk_place e = str_at ''namespace'' e @ ''/'' @ str_at ''pod'' e @ ''/'' @ str_at ''container'' e"

definition highRiskPods :: "Report \<Rightarrow> string \<Rightarrow> highRiskPod list" where
  "highRiskPods r cluster =
     (case clusterView r ''workload-security'' cluster of (m, obs) \<Rightarrow>
        if \<not> seen obs then []
        else map (\<lambda>e. \<lparr>hr_Name = risk_place e, hr_Risks = strs_at ''risks'' e\<rparr>) (objs_at ''high_risk_pods'' m))"

definition filterRiskNames :: "highRiskPod list \<Rightarrow> string \<Rightarrow> string list" where
  "filterRiskNames pods tag =
     capList (map hr_Name (filter (\<lambda>p. list_ex (\<lambda>t. has_prefix t tag) (hr_Risks p)) pods))"

definition dedup :: "string list \<Rightarrow> string list" where
  "dedup s = foldl (\<lambda>out v. if v \<in> set out then out else out @ [v]) [] s"

definition workload_findings :: "Report \<Rightarrow> string \<Rightarrow> Finding list" where
  "workload_findings r cluster =
     (let risks = highRiskPods r cluster; field = observeInt r ''workload-security'' cluster;
          (privCount, privObs) = field ''privileged_containers'';
          (hostNet, hostNetObs) = field ''host_network_pods'';
          (hostPID, hostPIDObs) = field ''host_pid_pods'';
          (rootCount, rootObs) = field ''run_as_root_containers'';
          (capAdd, capObs) = field ''capability_additions'';
          (pods, podsObs) = field ''total_pods'';
          pct = percent_of rootCount pods;
          finding = alert ''workload-security'' cluster
      in report_when (seen privObs \<and> privCount > 0)
           (by_command (''kubectl --context '' @ cluster @ '' get pods -A -o json | jq -r '' @ [CHR 0x27]
              @ ''.items[] | select(.spec.containers[].securityContext.privileged==true) | .metadata.namespace + ''
              @ quote ''/'' @ '' + .metadata.name'' @ [CHR 0x27])
             (affecting (filterRiskNames risks ''privileged'')
               (finding ''workload-security/privileged'' SeverityCritical
                 (cluster @ '' has '' @ Itoa privCount @ '' privileged container(s)'')
                 (''Privileged containers have full host access. Review whether these workloads genuinely require it. Total pods: ''
                  @ Itoa pods @ ''.'' @ note_of privObs))))
       @ report_when (seen hostNetObs \<and> seen hostPIDObs \<and> (hostNet > 0 \<or> hostPID > 0))
           (affecting (dedup (filterRiskNames risks ''host-network'' @ filterRiskNames risks ''host-pid''))
             (finding ''workload-security/host-namespaces'' SeverityWarning
               (cluster @ '' has pods using host namespaces (network: '' @ Itoa hostNet @ '', PID: '' @ Itoa hostPID @ '')'')
               (''Pods sharing the host network or PID namespace can see and interact with other processes and traffic on the node.''
                @ note_of (weakest [hostNetObs, hostPIDObs]))))
       @ report_when (seen rootObs \<and> seen podsObs \<and> rootCount > 0 \<and> pods > 0)
           (finding ''workload-security/run-as-root'' (if pct > 50 then SeverityWarning else SeverityInfo)
             (cluster @ '' has '' @ Itoa rootCount @ '' container(s) explicitly running as root ('' @ fmt_fixed0 pct @ ''%)'')
             (''These containers have an effective runAsUser of 0, set on the container or inherited from the pod. ''
              @ ''Container escape vulnerabilities have higher impact when the workload is root.''
              @ note_of (weakest [rootObs, podsObs])))
       @ report_when (seen capObs \<and> capAdd > 0)
           (affecting (filterRiskNames risks ''capabilities-add'')
             (finding ''workload-security/capability-add'' SeverityWarning
               (cluster @ '' has '' @ Itoa capAdd @ '' container(s) with added Linux capabilities'')
               (''Containers requesting capabilities such as NET_ADMIN or SYS_PTRACE have elevated kernel access beyond the default set.''
                @ note_of capObs))))"

definition workloadSecFindings :: "Report \<Rightarrow> Finding list" where
  "workloadSecFindings r = check_clusters r ''workload-security'' (workload_findings r)"

section \<open>RBAC\<close>

record riskBinding =
  rb_Name :: string
  rb_Kind :: string
  rb_Namespace :: string
  rb_Risks :: "string list"

definition riskBindings :: "Report \<Rightarrow> string \<Rightarrow> riskBinding list" where
  "riskBindings r cluster =
     (case clusterView r ''rbac-audit'' cluster of (m, obs) \<Rightarrow>
        if \<not> seen obs then []
        else map (\<lambda>e. \<lparr>rb_Name = str_at ''name'' e, rb_Kind = str_at ''kind'' e,
                      rb_Namespace = str_at ''namespace'' e, rb_Risks = strs_at ''risks'' e\<rparr>)
               (objs_at ''risk_bindings'' m))"

definition filterBindingsByRisk :: "riskBinding list \<Rightarrow> string \<Rightarrow> string list" where
  "filterBindingsByRisk bs risk = capList (map rb_Name (filter (\<lambda>b. risk \<in> set (rb_Risks b)) bs))"

definition rbac_audit_findings :: "Report \<Rightarrow> string \<Rightarrow> Finding list" where
  "rbac_audit_findings r cluster =
     (let risk = riskBindings r cluster; field = observeInt r ''rbac-audit'' cluster;
          (adminBindings, adminObs) = field ''cluster_admin_bindings'';
          (wildcardRules, wildcardObs) = field ''wildcard_rules'';
          (defaultSA, defaultObs) = field ''default_sa_bindings'';
          admins = filterBindingsByRisk risk ''cluster-admin-to-non-system'';
          finding = alert ''rbac-audit'' cluster
      in report_when (seen adminObs \<and> adminBindings > 0)
           (by_command (''kubectl --context '' @ cluster @ '' get clusterrolebinding '' @ strings_Join admins '' '' @ '' -o yaml'')
             (affecting admins
               (finding ''rbac-audit/cluster-admin-binding'' SeverityCritical
                 (cluster @ '' has '' @ Itoa adminBindings @ '' non-system cluster-admin binding(s)'')
                 (''ClusterRoleBindings granting cluster-admin to non-system principals give unrestricted access to every resource in the cluster.''
                  @ note_of adminObs))))
       @ report_when (seen wildcardObs \<and> wildcardRules > 0)
           (finding ''rbac-audit/wildcard-rule'' SeverityWarning
             (cluster @ '' has '' @ Itoa wildcardRules @ '' RBAC rule(s) with wildcard permissions'')
             (''Rules using '' @ [CHR 0x27] @ ''*'' @ [CHR 0x27]
              @ '' for verbs, resources, or apiGroups grant broader access than most workloads need.'' @ note_of wildcardObs))
       @ report_when (seen defaultObs \<and> defaultSA > 0)
           (affecting (filterBindingsByRisk risk ''grants-to-default-sa'')
             (finding ''rbac-audit/default-sa-binding'' SeverityWarning
               (cluster @ '' has '' @ Itoa defaultSA @ '' binding(s) granting permissions to a default service account'')
               (''The default service account is used by any pod that does not specify a different one. ''
                @ ''Granting it permissions means all unattributed workloads inherit them.'' @ note_of defaultObs))))"

definition rbacAuditFindings :: "Report \<Rightarrow> Finding list" where
  "rbacAuditFindings r = check_clusters r ''rbac-audit'' (rbac_audit_findings r)"

section \<open>Certificates\<close>

definition cert_label :: "jobject \<Rightarrow> string" where
  "cert_label e =
     (let name = str_at ''name'' e; ns = str_at ''namespace'' e; kind = str_at ''kind'' e;
          placed = (if ns \<noteq> '''' then ns @ ''/'' @ name else name)
      in (if kind \<noteq> '''' then kind @ '' '' @ placed else placed) @ '' ('' @ Itoa (int_at ''days_remaining'' e) @ '' days)'')"

definition cert_findings :: "Report \<Rightarrow> string \<Rightarrow> Finding list" where
  "cert_findings r cluster =
     (case clusterView r ''certs'' cluster of (m, obs) \<Rightarrow>
        let days = int_at ''days_remaining''; certs = objs_at ''certs'' m;
            critical = map cert_label (filter (\<lambda>e. days e < 7) certs);
            warning = map cert_label (filter (\<lambda>e. \<not> days e < 7 \<and> days e < 30) certs);
            finding = alert ''certs'' cluster
        in if \<not> seen obs then []
           else report_when (length critical > 0)
               (by_command (''kubectl --context '' @ cluster @ '' get secret -A --field-selector type=kubernetes.io/tls'')
                 (affecting (capList critical)
                   (finding ''certs/expiring-7d'' SeverityCritical
                     (cluster @ '' has '' @ Itoa (int (length critical)) @ '' certificate(s) expiring in fewer than 7 days'')
                     (''These TLS certificates will expire imminently. Renew them before they break webhooks, ingress, or metrics endpoints.''
                      @ note_of obs))))
             @ report_when (length warning > 0)
               (affecting (capList warning)
                 (finding ''certs/expiring-30d'' SeverityWarning
                   (cluster @ '' has '' @ Itoa (int (length warning)) @ '' certificate(s) expiring within 30 days'')
                   (''Schedule renewals now to avoid expiry-driven outages.'' @ note_of obs))))"

definition certFindings :: "Report \<Rightarrow> Finding list" where
  "certFindings r = check_clusters r ''certs'' (cert_findings r)"

section \<open>Vulnerabilities\<close>

definition vulnerability_findings :: "flat \<Rightarrow> string \<Rightarrow> Finding list" where
  "vulnerability_findings flat cluster =
     (let m = lookup_default [] flat cluster; critical = int_at ''critical'' m;
          images = map (\<lambda>img. str_at ''image'' img @ '' ('' @ Itoa (int_at ''critical'' img) @ '' critical)'')
                     (filter (\<lambda>img. num_at ''critical'' img > 0) (objs_at ''top_images'' m))
      in report_when (bool_at ''available'' m \<and> \<not> critical \<le> 0)
           (by_command (''kubectl --context '' @ cluster @ '' '' @ lookup_default '''' scannerInspect ''vulnerabilities'')
             (affecting (capList images)
               (alert ''vulnerabilities'' cluster ''vulnerabilities/critical-present'' SeverityInfo
                 (cluster @ '' runs images with '' @ Itoa critical @ '' critical vulnerabilities'')
                 (''The cluster'' @ [CHR 0x27] @ ''s vulnerability reports list critical CVEs in running images. ''
                  @ ''Rebuild or upgrade the images and redeploy.'')))))"

definition vulnerabilityFindings :: "Report \<Rightarrow> Finding list" where
  "vulnerabilityFindings r =
     (case map_of (r_Sections r) ''vulnerabilities'' of
        None \<Rightarrow> []
      | Some sec \<Rightarrow> concat (map (vulnerability_findings (flattenSection (r_Clusters r) sec)) (r_Clusters r)))"

section \<open>Admission webhooks\<close>

definition webhook_label :: "jobject \<Rightarrow> string" where
  "webhook_label e = str_at ''configuration'' e @ ''/'' @ str_at ''webhook'' e"

definition webhook_findings :: "Report \<Rightarrow> string \<Rightarrow> Finding list" where
  "webhook_findings r cluster =
     (case clusterView r ''admission'' cluster of (m, obs) \<Rightarrow>
        let hooks = objs_at ''webhooks'' m; svc = str_at ''service''; caDays = int_at ''ca_bundle_days_remaining'';
            down = filter (\<lambda>e. \<not> bool_at ''endpoints_healthy'' e \<and> \<not> bool_at ''endpoints_unknown'' e \<and> svc e \<noteq> '''') hooks;
            unhealthy = map (\<lambda>e. webhook_label e @ '' (service '' @ svc e @ '', failurePolicy=''
                               @ str_at ''failure_policy'' e @ '')'') down;
            expiring = map (\<lambda>e. webhook_label e @ '' (CA expires in '' @ Itoa (caDays e) @ '' days)'')
                         (filter (\<lambda>e. caDays e \<ge> 0 \<and> caDays e < 30) hooks);
            firstSvc = (case down of [] \<Rightarrow> '''' | e # _ \<Rightarrow> svc e);
            cmd = (case strings_Cut ''/'' firstSvc of
                     None \<Rightarrow> ''kubectl --context '' @ cluster @ '' get endpoints -A''
                   | Some (ns, name) \<Rightarrow> ''kubectl --context '' @ cluster @ '' -n '' @ ns @ '' get endpoints '' @ name);
            finding = alert ''admission'' cluster
        in if \<not> seen obs then []
           else report_when (length unhealthy > 0)
               (by_command cmd
                 (affecting (capList unhealthy)
                   (finding ''admission/no-healthy-endpoints'' SeverityCritical
                     (cluster @ '' has '' @ Itoa (int (length unhealthy)) @ '' admission webhook(s) with no healthy endpoints'')
                     (''When failurePolicy=Fail, every API request matching these webhooks will be rejected. ''
                      @ ''Even with failurePolicy=Ignore, mutations and validations are silently skipped.'' @ note_of obs))))
             @ report_when (length expiring > 0)
               (affecting (capList expiring)
                 (finding ''admission/ca-expiring'' SeverityWarning
                   (cluster @ '' has '' @ Itoa (int (length expiring)) @ '' admission webhook(s) with CA bundles expiring soon'')
                   (''When a webhook CA bundle expires, the apiserver refuses to talk to the webhook. ''
                    @ ''Renew or rotate before the listed deadlines.'' @ note_of obs))))"

definition admissionFindings :: "Report \<Rightarrow> Finding list" where
  "admissionFindings r = check_clusters r ''admission'' (webhook_findings r)"

end
