(* ===== verification/Checks_Workloads.thy ===== *)
theory Checks_Workloads
  imports Checks_Security
begin

text \<open>
  The checks of \<open>internal/report/findings_workloads.go\<close>: images, disruption and scaling coverage, and
  the composite check that a namespace shows image, event and workload risks at once.
\<close>

section \<open>Images\<close>

record imageRisk =
  ir_Image :: string
  ir_Where :: string
  ir_Risks :: "string list"

definition imageRisks :: "Report \<Rightarrow> string \<Rightarrow> imageRisk list" where
  "imageRisks r cluster =
     (case clusterView r ''image-audit'' cluster of (m, obs) \<Rightarrow>
        if \<not> seen obs then []
        else map (\<lambda>e. \<lparr>ir_Image = str_at ''image'' e, ir_Where = risk_place e, ir_Risks = strs_at ''risks'' e\<rparr>)
               (objs_at ''image_risks'' m))"

definition filterImagesByRisk :: "imageRisk list \<Rightarrow> string \<Rightarrow> string list" where
  "filterImagesByRisk images risk =
     capList (map (\<lambda>ir. ir_Image ir @ '' @ '' @ ir_Where ir) (filter (\<lambda>ir. risk \<in> set (ir_Risks ir)) images))"

definition image_findings :: "Report \<Rightarrow> string \<Rightarrow> Finding list" where
  "image_findings r cluster =
     (let risks = imageRisks r cluster; field = observeInt r ''image-audit'' cluster;
          (latestTag, latestObs) = field ''latest_tag'';
          (noDigest, noDigestObs) = field ''no_digest'';
          (containers, containersObs) = field ''total_containers'';
          digestObs = weakest [noDigestObs, containersObs];
          pct = percent_of noDigest containers;
          finding = alert ''image-audit'' cluster
      in report_when (seen latestObs \<and> latestTag > 0)
           (affecting (filterImagesByRisk risks ''latest-tag'')
             (finding ''image-audit/latest-tag'' SeverityWarning
               (cluster @ '' has '' @ Itoa latestTag @ '' container(s) using :latest or no tag'')
               (''Out of '' @ Itoa containers @ '' containers, '' @ Itoa latestTag @ '' use :latest or omit a tag. ''
                @ ''Without a pinned tag, rollbacks and audits are unreliable.''
                @ note_of (weakest [latestObs, containersObs]))))
       @ report_when (seen digestObs \<and> noDigest > 0 \<and> containers > 0)
           (finding ''image-audit/no-digest'' (if pct > 80 then SeverityWarning else SeverityInfo)
             (cluster @ '' has '' @ Itoa noDigest @ '' container(s) without digest pins ('' @ fmt_fixed0 pct @ ''%)'')
             (''Images without @sha256: digest pins can change content without changing the tag. ''
              @ ''Pinning digests ensures reproducible deployments.'' @ note_of digestObs)))"

definition imageAuditFindings :: "Report \<Rightarrow> Finding list" where
  "imageAuditFindings r = check_clusters r ''image-audit'' (image_findings r)"

section \<open>Disruption and scaling\<close>

definition defaultPDBYAML :: string where
  "defaultPDBYAML = unlines
     [''apiVersion: policy/v1'', ''kind: PodDisruptionBudget'', ''metadata:'', ''  name: REPLACE_WITH_WORKLOAD'',
      ''  namespace: REPLACE_WITH_NAMESPACE'', ''spec:'', ''  minAvailable: 1'', ''  selector:'',
      ''    matchLabels:'', ''      app: REPLACE_WITH_APP_LABEL'']"

definition gap_label :: "jobject \<Rightarrow> string" where
  "gap_label e = str_at ''kind'' e @ '' '' @ str_at ''namespace'' e @ ''/'' @ str_at ''name'' e"

definition coverage_findings :: "Report \<Rightarrow> string \<Rightarrow> Finding list" where
  "coverage_findings r cluster =
     (case clusterView r ''workload-coverage'' cluster of (m, obs) \<Rightarrow>
        let gaps = objs_at ''gaps'' m;
            missingPDB = map gap_label (filter (\<lambda>e. \<not> bool_at ''has_pdb'' e) gaps);
            missingHPA = map gap_label (filter (\<lambda>e. \<not> bool_at ''has_hpa'' e) gaps);
            finding = alert ''workload-coverage'' cluster
        in if obs \<noteq> observed then []
           else report_when (length missingPDB > 0)
               (by_yaml defaultPDBYAML
                 (affecting (capList missingPDB)
                   (finding ''workload-coverage/missing-pdb'' SeverityWarning
                     (cluster @ '' has '' @ Itoa (int (length missingPDB)) @ '' replicated workload(s) without a PodDisruptionBudget'')
                     (''Voluntary disruptions (node drain, kubectl drain, autoscaler) can take all replicas of these workloads down simultaneously.''))))
             @ report_when (length missingHPA > 0)
               (affecting (capList missingHPA)
                 (finding ''workload-coverage/missing-hpa'' SeverityInfo
                   (cluster @ '' has '' @ Itoa (int (length missingHPA)) @ '' replicated workload(s) without a HorizontalPodAutoscaler'')
                   (''These workloads cannot scale with load. ''
                    @ ''If they are CPU- or memory-bound, expect throttling or OOMKills under traffic spikes.''))))"

definition coverageFindings :: "Report \<Rightarrow> Finding list" where
  "coverageFindings r = check_clusters r ''workload-coverage'' (coverage_findings r)"

section \<open>Bad deploys\<close>

definition badReasons :: "string list" where
  "badReasons = [''Failed'', ''BackOff'', ''CrashLoopBackOff'', ''FailedScheduling'', ''Killing'', ''Pulling'',
     ''FailedCreatePodSandBox'']"

definition place_namespace :: "string \<Rightarrow> string" where
  "place_namespace place = (case SplitN place ''/'' 2 of [] \<Rightarrow> '''' | ns # _ \<Rightarrow> ns)"

text \<open>A set of strings, a Go map without values, is the list of its members.\<close>

definition namespacesWithImageRisk :: "Report \<Rightarrow> string \<Rightarrow> string list" where
  "namespacesWithImageRisk r cluster =
     filter (\<lambda>ns. ns \<noteq> '''') (map (\<lambda>ir. place_namespace (ir_Where ir)) (imageRisks r cluster))"

definition namespacesWithEventReasons :: "Report \<Rightarrow> string \<Rightarrow> string list \<Rightarrow> string list" where
  "namespacesWithEventReasons r cluster reasons =
     (case clusterView r ''events'' cluster of (m, obs) \<Rightarrow>
        if \<not> seen obs then []
        else map (str_at ''namespace'')
               (filter (\<lambda>e. str_at ''reason'' e \<in> set reasons \<and> str_at ''namespace'' e \<noteq> '''') (objs_at ''recent_warnings'' m)))"

definition namespacesWithWorkloadRisk :: "Report \<Rightarrow> string \<Rightarrow> string list" where
  "namespacesWithWorkloadRisk r cluster =
     filter (\<lambda>ns. ns \<noteq> '''') (map (\<lambda>p. place_namespace (hr_Name p)) (highRiskPods r cluster))"

definition bad_deploy_findings :: "Report \<Rightarrow> string \<Rightarrow> Finding list" where
  "bad_deploy_findings r cluster =
     (let evNS = namespacesWithEventReasons r cluster badReasons;
          wsNS = namespacesWithWorkloadRisk r cluster;
          names = sort (remdups (filter (\<lambda>ns. ns \<in> set evNS \<and> ns \<in> set wsNS) (namespacesWithImageRisk r cluster)))
      in report_when (length names \<noteq> 0)
           (by_command (''kubectl --context '' @ cluster @ '' -n '' @ hd names @ '' get pods,events --sort-by=.lastTimestamp'')
             (affecting names
               (alert ''image-audit'' cluster ''image-audit/bad-deploy'' SeverityCritical
                 (cluster @ '' shows bad-deploy signals in '' @ Itoa (int (length names)) @ '' namespace(s)'')
                 (''Image risks (mutable tags or no-digest), failure-related warning events, and workload-security risks ''
                  @ ''all overlap on the same namespace. ''
                  @ ''This pattern matches a recently rolled-out workload that is failing.'')))))"

definition compositeBadDeployFindings :: "Report \<Rightarrow> Finding list" where
  "compositeBadDeployFindings r =
     (if map_of (r_Sections r) ''image-audit'' = None \<or> map_of (r_Sections r) ''events'' = None then []
      else concat (map (bad_deploy_findings r) (r_Clusters r)))"

end
