(* ===== verification/Checks_Cluster.thy ===== *)
theory Checks_Cluster
  imports Checks_Health
begin

text \<open>
  The checks of \<open>internal/report/findings_cluster.go\<close>: version skew, namespace counts, RBAC drift,
  deprecated APIs and drift between the nodes of a cluster.
\<close>

section \<open>Versions\<close>

text \<open>The versions of the clusters that report one, an association list in report order.\<close>

definition cluster_versions :: "Report \<Rightarrow> (string, string) gomap" where
  "cluster_versions r =
     fold (\<lambda>cluster versions.
        case observeString r ''version'' cluster ''git_version'' of
          (v, obs) \<Rightarrow> if seen obs then AList.update cluster v versions else versions) (r_Clusters r) []"

definition unique_versions :: "Report \<Rightarrow> string list" where
  "unique_versions r =
     foldl (\<lambda>unique cluster.
        case observeString r ''version'' cluster ''git_version'' of
          (v, obs) \<Rightarrow> if seen obs \<and> v \<noteq> '''' \<and> v \<notin> set unique then unique @ [v] else unique) [] (r_Clusters r)"

definition version_counts :: "string list \<Rightarrow> (string, string) gomap \<Rightarrow> (string, int) gomap" where
  "version_counts clusters versions =
     foldl (\<lambda>counts c. case lookup_default '''' versions c of [] \<Rightarrow> counts | v \<Rightarrow> map_incr v counts) [] clusters"

text \<open>One round of the loop that ranges over the counts: the majority, its count, whether it is tied.\<close>

definition majority_step :: "string \<times> int \<times> bool \<Rightarrow> string \<times> int \<Rightarrow> string \<times> int \<times> bool" where
  "majority_step best vn =
     (let (majority, most, tied) = best; (v, n) = vn
      in if n > most then (v, n, False) else if n = most then (majority, most, True) else best)"

text \<open>\<open>counts\<close> is a map that Go ranges over in any order; \<open>order\<close> gives that order.\<close>

definition version_majority :: "((string, int) gomap \<Rightarrow> (string, int) gomap) \<Rightarrow> (string, int) gomap \<Rightarrow> string option" where
  "version_majority order counts =
     (case foldl majority_step ('''', 0, False) (order counts) of
        (majority, _, tied) \<Rightarrow> if tied \<or> majority = '''' then None else Some majority)"

definition version_mark :: "string \<Rightarrow> (string, string) gomap \<Rightarrow> string \<Rightarrow> ClusterMark option" where
  "version_mark majority versions c =
     (let v = lookup_default '''' versions c; sev = versionSkewSeverity [majority, v]
      in if v = '''' \<or> v = majority \<or> sev = SeverityInfo then None
         else Some \<lparr>m_Cluster = c, m_Severity = sev\<rparr>)"

definition versionMarks ::
  "((string, int) gomap \<Rightarrow> (string, int) gomap) \<Rightarrow> string list \<Rightarrow> (string, string) gomap \<Rightarrow> string \<times> ClusterMark list" where
  "versionMarks order clusters versions =
     (case version_majority order (version_counts clusters versions) of
        None \<Rightarrow> ('''', [])
      | Some majority \<Rightarrow>
          (majority, sort_key m_Cluster (List.map_filter (version_mark majority versions) clusters)))"

definition versionFindings :: "((string, int) gomap \<Rightarrow> (string, int) gomap) \<Rightarrow> Report \<Rightarrow> Finding list" where
  "versionFindings order r =
     (case map_of (r_Sections r) ''version'' of
        None \<Rightarrow> []
      | Some sec \<Rightarrow>
          let versions = cluster_versions r; unique = unique_versions r; sev = versionSkewSeverity unique
          in if sec_Uniform sec \<or> length unique < 2 \<or> sev = SeverityInfo then []
             else let sorted_unique = sort unique;
                      affected = sort (map (\<lambda>c. c @ ''='' @ lookup_default '''' versions c)
                                   (filter (\<lambda>c. lookup_default '''' versions c \<noteq> '''') (r_Clusters r)));
                      (majority, marks) = versionMarks order (r_Clusters r) versions;
                      desc = ''Fleet runs '' @ Itoa (int (length sorted_unique)) @ '' distinct versions: ''
                        @ strings_Join sorted_unique '', '' @ ''.''
                        @ (if marks = [] then ''''
                           else '' Off the majority version '' @ majority @ '': ''
                             @ strings_Join (map m_Cluster marks) '', '' @ ''.'')
                  in [by_command ''kubectl version''
                       ((affecting affected
                          (alert ''version'' ''fleet'' ''version/skew'' sev ''Kubernetes version skew across fleet'' desc))
                        \<lparr>f_Marks := marks\<rparr>)])"

section \<open>Namespaces\<close>

definition systemNamespacePrefixes :: "string list" where
  "systemNamespacePrefixes =
     [''kube-'', ''gke-'', ''eks-'', ''aks-'', ''cattle-'', ''istio-'', ''linkerd-'', ''cert-manager'', ''monitoring'',
      ''logging'', ''velero'', ''prometheus'']"

definition systemNamespaceExact :: "string list" where
  "systemNamespaceExact = [''default'', ''kube-system'', ''kube-public'', ''kube-node-lease'']"

definition isSystemNamespace :: "string \<Rightarrow> bool" where
  "isSystemNamespace name \<longleftrightarrow>
     name \<in> set systemNamespaceExact \<or> list_ex (has_prefix name) systemNamespacePrefixes"

definition countNonSystemNamespaces :: "Report \<Rightarrow> string \<Rightarrow> int \<times> observation" where
  "countNonSystemNamespaces r cluster =
     (case clusterView r ''namespaces'' cluster of (m, obs) \<Rightarrow>
        if \<not> seen obs then (0, unobserved)
        else case map_of m ''namespaces'' of
               Some (JArr raw) \<Rightarrow>
                 (int (length (filter (\<lambda>e. \<not> isSystemNamespace (str_at ''name'' e)) (objs_at ''namespaces'' m))), obs)
             | _ \<Rightarrow> (case Option.bind (map_of m ''count'') util_Float64 of
                       None \<Rightarrow> (0, unobserved)
                     | Some c \<Rightarrow> (math_Trunc c, obs)))"

definition namespace_counts :: "Report \<Rightarrow> (string, int) gomap" where
  "namespace_counts r =
     fold (\<lambda>cluster counts.
        case countNonSystemNamespaces r cluster of
          (n, obs) \<Rightarrow> if seen obs then AList.update cluster n counts else counts) (r_Clusters r) []"

record spread =
  sp_min :: "(string \<times> int) option"
  sp_max :: "(string \<times> int) option"

definition spread_step :: "spread \<Rightarrow> string \<times> int \<Rightarrow> spread" where
  "spread_step s cn =
     \<lparr>sp_min = (case sp_min s of None \<Rightarrow> Some cn | Some m \<Rightarrow> Some (if snd cn < snd m then cn else m)),
      sp_max = (case sp_max s of None \<Rightarrow> Some cn | Some m \<Rightarrow> Some (if snd cn > snd m then cn else m))\<rparr>"

definition namespaceFindings :: "((string, int) gomap \<Rightarrow> (string, int) gomap) \<Rightarrow> Report \<Rightarrow> Finding list" where
  "namespaceFindings order r =
     (let counts = namespace_counts r
      in if map_of (r_Sections r) ''namespaces'' = None \<or> length counts < 2 then []
         else case foldl spread_step \<lparr>sp_min = None, sp_max = None\<rparr> (order counts) of s \<Rightarrow>
           (case (sp_min s, sp_max s) of
              (Some (minC, minVal), Some (maxC, maxVal)) \<Rightarrow>
                report_when (\<not> maxVal - minVal \<le> 1)
                  (affecting [minC, maxC]
                    (alert ''namespaces'' ''fleet'' ''namespaces/non-system-count-varies'' SeverityWarning
                      ''Non-system namespace count varies across the fleet''
                      (minC @ '' has '' @ Itoa minVal @ '' non-system namespaces while '' @ maxC @ '' has '' @ Itoa maxVal
                       @ ''. Cloud and add-on namespaces are excluded from this comparison.'')))
            | _ \<Rightarrow> []))"

section \<open>RBAC drift\<close>

definition rbacFindings :: "Report \<Rightarrow> Finding list" where
  "rbacFindings r =
     (case map_of (r_Sections r) ''rbac'' of
        None \<Rightarrow> []
      | Some sec \<Rightarrow> report_when (\<not> sec_Uniform sec)
          (alert ''rbac'' ''fleet'' ''rbac/config-differs'' SeverityWarning ''RBAC configuration differs across clusters''
            (''ClusterRoles, Roles, or their bindings differ between clusters. ''
             @ ''See the rbac-audit findings for named offenders.'')))"

section \<open>Deprecated APIs\<close>

definition deprecated_label :: "jobject \<Rightarrow> string" where
  "deprecated_label e =
     str_at ''api_version'' e @ '' '' @ str_at ''kind'' e @ '' ('' @ Itoa (int_at ''instance_count'' e)
     @ '' instances, removed in '' @ str_at ''removed_in'' e @ '')''"

definition deprecated_findings :: "Report \<Rightarrow> string \<Rightarrow> Finding list" where
  "deprecated_findings r cluster =
     (case clusterView r ''deprecated-apis'' cluster of (m, obs) \<Rightarrow>
        let raw = arr_at ''deprecated'' m
        in report_when (seen obs \<and> length raw \<noteq> 0)
             (by_command (''kubectl --context '' @ cluster
                @ '' get --raw /metrics 2>/dev/null | grep apiserver_requested_deprecated_apis'')
               (affecting (capList (map deprecated_label (objs_at ''deprecated'' m)))
                 (alert ''deprecated-apis'' cluster ''deprecated-apis/in-use'' SeverityWarning
                   (cluster @ '' uses '' @ Itoa (int (length raw)) @ '' deprecated API version(s)'')
                   (''These API versions have been deprecated or removed in newer Kubernetes minor releases. ''
                    @ ''Migrate before the next upgrade or workloads will fail.'' @ note_of obs)))))"

definition deprecatedAPIFindings :: "Report \<Rightarrow> Finding list" where
  "deprecatedAPIFindings r = check_clusters r ''deprecated-apis'' (deprecated_findings r)"

section \<open>Node platforms\<close>

definition platform_details :: "jobject \<Rightarrow> string list" where
  "platform_details m =
     map (\<lambda>k. k @ '': '' @ strings_Join (strs_at k m) '', '')
       (filter (\<lambda>k. length (arr_at k m) > 1)
          [''os_images'', ''kernel_versions'', ''runtime_versions'', ''kubelet_versions''])"

definition info_findings :: "Report \<Rightarrow> string \<Rightarrow> Finding list" where
  "info_findings r cluster =
     (case clusterView r ''cluster-info'' cluster of (m, obs) \<Rightarrow>
        report_when (seen obs \<and> bool_at ''has_drift'' m)
          (by_command (''kubectl --context '' @ cluster @ '' get nodes -o wide'')
            (affecting (platform_details m)
              (alert ''cluster-info'' cluster ''cluster-info/node-platform-drift'' SeverityWarning
                (cluster @ '' has node-level platform drift'')
                (''Different nodes report different platform identities. ''
                 @ ''Common cause: rolling node-pool replacement, stale AMI, or partially-completed upgrade.''
                 @ note_of obs)))))"

definition clusterInfoFindings :: "Report \<Rightarrow> Finding list" where
  "clusterInfoFindings r = check_clusters r ''cluster-info'' (info_findings r)"

end
