(* ===== verification/Cohort_Assign.thy ===== *)
theory Cohort_Assign
  imports Report_Types Go_Fmt
begin

text \<open>
  \<open>internal/cohort\<close>: the partition of a fleet into cohorts by tag and by average-linkage clustering
  (\<open>cohort.go\<close>, \<open>agglomerate.go\<close>). The loop that folds small groups away ranges over a Go map and
  takes the first of several equally small groups, so the order is a parameter: \<open>visit m\<close> lists the
  entries of \<open>m\<close> in the order that ranging over it visits them. Loops that are not bounded by a
  counter are partial functions; the theorems show that they return, that the cohorts are a
  partition of the fleet, and that no small cohort is left, in every order of visits.
\<close>

section \<open>Definitions\<close>

record Cohort =
  ch_Name :: string
  ch_Source :: string
  ch_Clusters :: "string list"

record ClusterProfile =
  cp_Name :: string
  cp_Features :: "float64 list"
  cp_Tag :: string

record Options =
  op_MinClusters :: int
  op_MinCohortSize :: int
  op_MaxCohorts :: int

definition SourceTagged :: string where "SourceTagged = ''tagged''"
definition SourceAuto :: string where "SourceAuto = ''auto''"
definition SourceFleet :: string where "SourceFleet = ''fleet''"

definition defaultMinClusters :: int where "defaultMinClusters = 6"
definition defaultMinCohortSize :: int where "defaultMinCohortSize = 3"
definition defaultMaxCohorts :: int where "defaultMaxCohorts = 8"

text \<open>\<open>math.Sqrt\<close>, correctly rounded: the integer square root of the scaled argument has at least 59
  bits, so half a unit more than it rounds like the irrational root above it.\<close>

function isqrt :: "int \<Rightarrow> int" where
  "isqrt n = (if n \<le> 0 then 0 else let r = 2 * isqrt (n div 4) in if (r + 1) * (r + 1) \<le> n then r + 1 else r)"
  by pat_completeness auto
termination by (relation "measure nat") auto

declare isqrt.simps [simp del]

definition math_Sqrt :: "float64 \<Rightarrow> float64" where
  "math_Sqrt x =
     (if x \<le> 0 then 0
      else let k = 60 - ilog2 x div 2; y = x * 4 powi k; s = isqrt \<lfloor>y\<rfloor>
           in f64 ((of_int s + (if of_int s * of_int s = y then 0 else 1 / 2)) / 2 powi k))"

definition math_MaxFloat64 :: float64 where
  "math_MaxFloat64 = 2 ^ 1024 - 2 ^ 971"

lemma math_MaxFloat64_code [code]: "math_MaxFloat64 = 179769313486231570814527423731704356798070567525844996598917476803157260780028538760589558632766878171540458953514382464234321326889464182768467546703537516986049910576551282076245490090389328944075868508455133942304583236903222948165808559332123348274797826204144723168738177180919299881250404026184124858368"
  by (simp add: math_MaxFloat64_def)

definition euclidean :: "float64 list \<Rightarrow> float64 list \<Rightarrow> float64" where
  "euclidean a b =
     math_Sqrt (foldl (\<lambda>acc i.
        let diff = fsub (if i < length a then a ! i else 0) (if i < length b then b ! i else 0)
        in fadd acc (fmul diff diff)) 0 [0..<max (length b) (length a)])"

definition pairwiseDistances :: "ClusterProfile list \<Rightarrow> float64 list list" where
  "pairwiseDistances profiles =
     (let n = length profiles
      in map (\<lambda>i. map (\<lambda>j. if i = j then 0
           else euclidean (cp_Features (profiles ! min i j)) (cp_Features (profiles ! max i j))) [0..<n]) [0..<n])"

record merge =
  mg_a :: nat
  mg_b :: nat
  mg_dist :: float64

text \<open>The state of \<open>buildDendrogram\<close>. The indices \<open>a\<close> and \<open>b\<close> of the search start at -1, here \<open>None\<close>.\<close>

record dendro =
  dn_active :: "bool list"
  dn_size :: "int list"
  dn_d :: "(nat, (nat, float64) gomap) gomap"

definition closer :: "bool list \<Rightarrow> nat \<Rightarrow> (nat \<times> nat) option \<times> float64 \<Rightarrow> nat \<times> float64 \<Rightarrow> (nat \<times> nat) option \<times> float64" where
  "closer active i st p =
     (case (st, p) of ((found, best), (j, v)) \<Rightarrow>
        if j \<le> i \<or> \<not> active ! j then st
        else if v < best \<or> (v = best \<and> (case found of None \<Rightarrow> False | Some (a, b) \<Rightarrow> i < a \<or> (i = a \<and> j < b)))
          then (Some (i, j), v) else st)"

definition closest_pair :: "dendro \<Rightarrow> (nat \<times> nat) option \<times> float64" where
  "closest_pair st =
     foldl (\<lambda>acc i. if \<not> dn_active st ! i then acc
                    else foldl (closer (dn_active st) i) acc (lookup_default [] (dn_d st) i))
       (None, math_MaxFloat64) [0..<length (dn_active st)]"

definition link_average :: "dendro \<Rightarrow> nat \<Rightarrow> nat \<Rightarrow> nat \<Rightarrow> (nat, (nat, float64) gomap) gomap \<Rightarrow> nat
    \<Rightarrow> (nat, (nat, float64) gomap) gomap" where
  "link_average st a b newID d i =
     (if \<not> dn_active st ! i \<or> i = newID then d
      else let da = lookup_default 0 (lookup_default [] d a) i;
               db = lookup_default 0 (lookup_default [] d b) i;
               merged = fdiv (fadd (fmul da (of_int64 (dn_size st ! a))) (fmul db (of_int64 (dn_size st ! b))))
                          (of_int64 (dn_size st ! a + dn_size st ! b));
               d1 = AList.update newID (AList.update i merged (lookup_default [] d newID)) d
           in AList.update i (AList.update newID merged (lookup_default [] d1 i)) d1)"

definition drop_merged :: "nat \<Rightarrow> nat \<Rightarrow> (nat, (nat, float64) gomap) gomap \<Rightarrow> (nat, (nat, float64) gomap) gomap" where
  "drop_merged a b d =
     map (\<lambda>(k, m). (k, AList.delete b (AList.delete a m))) (AList.delete b (AList.delete a d))"

definition merge_pair :: "nat \<Rightarrow> nat \<Rightarrow> nat \<Rightarrow> dendro \<Rightarrow> dendro" where
  "merge_pair a b newID st =
     (let st1 = st\<lparr>dn_active := (dn_active st)[a := False, b := False, newID := True],
                    dn_size := (dn_size st)[newID := dn_size st ! a + dn_size st ! b]\<rparr>;
          d1 = AList.update newID [] (dn_d st)
      in st1\<lparr>dn_d := drop_merged a b (foldl (link_average st1 a b newID) d1 [0..<length (dn_active st1)])\<rparr>)"

text \<open>The loop over the steps, \<open>left\<close> of which remain; it stops early when no pair is found.\<close>

fun merge_loop :: "nat \<Rightarrow> nat \<Rightarrow> nat \<Rightarrow> dendro \<Rightarrow> merge list" where
  "merge_loop n step 0 st = []"
| "merge_loop n step (Suc left) st =
     (case closest_pair st of
        (None, _) \<Rightarrow> []
      | (Some (a, b), best) \<Rightarrow>
          \<lparr>mg_a = a, mg_b = b, mg_dist = best\<rparr> # merge_loop n (step + 1) left (merge_pair a b (n + step) st))"

definition buildDendrogram :: "nat \<Rightarrow> float64 list list \<Rightarrow> merge list" where
  "buildDendrogram n dist_matrix =
     merge_loop n 0 (n - 1)
       \<lparr>dn_active = replicate n True @ replicate (n - 1) False,
        dn_size = replicate n 1 @ replicate (n - 1) 0,
        dn_d = map (\<lambda>i. (i, map (\<lambda>j. (j, dist_matrix ! i ! j)) (filter (\<lambda>j. i \<noteq> j) [0..<n]))) [0..<n]\<rparr>"

definition gap_step :: "merge list \<Rightarrow> int \<Rightarrow> int \<times> float64 \<Rightarrow> nat \<Rightarrow> int \<times> float64" where
  "gap_step merges upper st i =
     (case st of (bestK, bestGap) \<Rightarrow>
        let k = int (length merges) - int i + 1; gap = fsub (mg_dist (merges ! i)) (mg_dist (merges ! (i - 1)))
        in if k < 2 \<or> k > upper then st else if gap > bestGap then (k, gap) else st)"

definition chooseK :: "merge list \<Rightarrow> int \<Rightarrow> int \<Rightarrow> int" where
  "chooseK merges maxK n =
     (if length merges < 2 then 1
      else let upper = min maxK (n - 1)
           in if upper < 2 then 2 else fst (foldl (gap_step merges upper) (2, - 1) [1..<length merges]))"

text \<open>The walk to the root of a point. An index outside the array would panic: no result.\<close>

partial_function (option) find_root :: "nat list \<Rightarrow> nat \<Rightarrow> nat option" where
  "find_root parent x =
     (if x \<ge> length parent then None
      else if parent ! x = x then Some x else find_root parent (parent ! x))"

declare find_root.simps [code]

definition replay :: "nat \<Rightarrow> merge list \<Rightarrow> nat list \<Rightarrow> nat \<Rightarrow> nat list" where
  "replay n merges parent i = parent[mg_a (merges ! i) := n + i, mg_b (merges ! i) := n + i]"

definition group_of :: "nat \<Rightarrow> (nat, nat) gomap \<Rightarrow> nat \<times> (nat, nat) gomap" where
  "group_of r ids = (case map_of ids r of Some g \<Rightarrow> (g, ids) | None \<Rightarrow> (length ids, AList.update r (length ids) ids))"

definition root_step :: "nat list \<Rightarrow> (nat list \<times> (nat, nat) gomap) option \<Rightarrow> nat \<Rightarrow> (nat list \<times> (nat, nat) gomap) option" where
  "root_step parent st i =
     Option.bind st (\<lambda>(groups, roots). map_option (\<lambda>r.
        case group_of r roots of (g, roots') \<Rightarrow> (groups @ [g], roots')) (find_root parent i))"

definition cutDendrogram :: "merge list \<Rightarrow> nat \<Rightarrow> int \<Rightarrow> nat list option" where
  "cutDendrogram merges n k =
     (if k \<le> 1 \<or> merges = [] then Some (replicate n 0)
      else let stop = nat (max (int (length merges) - (k - 1)) 0);
               parent = foldl (replay n merges) [0..<2 * n - 1] [0..<stop]
           in map_option fst (foldl (root_step parent) (Some ([], [])) [0..<n]))"

definition agglomerate :: "ClusterProfile list \<Rightarrow> int \<Rightarrow> nat list option" where
  "agglomerate profiles maxK =
     (let n = length profiles
      in if n = 0 then Some [] else if n = 1 then Some [0]
         else let maxK' = (if maxK < 2 then 2 else maxK);
                  merges = buildDendrogram n (pairwiseDistances profiles)
              in cutDendrogram merges n (chooseK merges maxK' (int n)))"

section \<open>Folding small groups\<close>

type_synonym visit = "(nat, int) gomap \<Rightarrow> (nat, int) gomap"

definition closer_group ::
  "ClusterProfile list \<Rightarrow> nat list \<Rightarrow> nat \<Rightarrow> nat option \<times> float64 \<Rightarrow> nat \<times> nat \<Rightarrow> nat option \<times> float64" where
  "closer_group profiles groups small st p =
     (case (st, p) of ((best, bestDist), (i, j)) \<Rightarrow>
        if groups ! i \<noteq> small \<or> groups ! j = small then st
        else let d = euclidean (cp_Features (profiles ! i)) (cp_Features (profiles ! j))
             in if d < bestDist then (Some (groups ! j), d) else st)"

definition closestGroup :: "ClusterProfile list \<Rightarrow> nat list \<Rightarrow> nat \<Rightarrow> nat option" where
  "closestGroup profiles groups small =
     fst (foldl (closer_group profiles groups small) (None, math_MaxFloat64)
       (List.product [0..<length groups] [0..<length groups]))"

definition smaller_count :: "nat option \<times> int \<Rightarrow> nat \<times> int \<Rightarrow> nat option \<times> int" where
  "smaller_count st p = (if snd p < snd st then (Some (fst p), snd p) else st)"

definition smallest_group :: "(nat, int) gomap \<Rightarrow> int \<Rightarrow> nat option" where
  "smallest_group entries minSize = fst (foldl smaller_count (None, minSize) entries)"

partial_function (option) fold_small ::
  "visit \<Rightarrow> ClusterProfile list \<Rightarrow> int \<Rightarrow> nat list \<Rightarrow> (nat, int) gomap \<Rightarrow> nat list option" where
  "fold_small visit profiles minSize groups counts =
     (case smallest_group (visit counts) minSize of
        None \<Rightarrow> Some groups
      | Some small \<Rightarrow>
          if length counts \<le> 1 then Some groups
          else case closestGroup profiles groups small of
            None \<Rightarrow> Some groups
          | Some target \<Rightarrow>
              fold_small visit profiles minSize (map (\<lambda>g. if g = small then target else g) groups)
                (AList.delete small (AList.update target
                   (lookup_default 0 counts target + lookup_default 0 counts small) counts)))"

declare fold_small.simps [code]

definition renumber_step :: "nat list \<times> (nat, nat) gomap \<Rightarrow> nat \<Rightarrow> nat list \<times> (nat, nat) gomap" where
  "renumber_step st g = (case st of (out, remap) \<Rightarrow> case group_of g remap of (i, remap') \<Rightarrow> (out @ [i], remap'))"

definition renumber :: "nat list \<Rightarrow> nat list" where
  "renumber groups = fst (foldl renumber_step ([], []) groups)"

definition mergeSmallCohorts :: "visit \<Rightarrow> nat list \<Rightarrow> ClusterProfile list \<Rightarrow> int \<Rightarrow> nat list option" where
  "mergeSmallCohorts visit groups profiles minSize =
     (if minSize \<le> 1 then Some groups
      else map_option renumber (fold_small visit profiles minSize groups (foldl (\<lambda>m g. map_incr g m) [] groups)))"

section \<open>Assignment\<close>

definition splitByTag :: "ClusterProfile list \<Rightarrow> ClusterProfile list \<times> ClusterProfile list" where
  "splitByTag profiles = (filter (\<lambda>p. cp_Tag p \<noteq> '''') profiles, filter (\<lambda>p. cp_Tag p = '''') profiles)"

definition taggedCohorts :: "ClusterProfile list \<Rightarrow> Cohort list" where
  "taggedCohorts profiles =
     map (\<lambda>(tag, members). \<lparr>ch_Name = tag, ch_Source = SourceTagged, ch_Clusters = members\<rparr>)
       (foldl (\<lambda>m p. map_append (cp_Tag p) (cp_Name p) m) [] profiles)"

text \<open>The members of each group in order, sorted, then the groups by their first member.\<close>

definition nameAutoCohorts :: "nat list \<Rightarrow> ClusterProfile list \<Rightarrow> Cohort list" where
  "nameAutoCohorts groups profiles =
     (let byGroup = foldl (\<lambda>m (g, p). map_append g (cp_Name p) m) [] (zip groups profiles);
          buckets = sort_key hd (map (\<lambda>(_, members). sort members) byGroup)
      in map (\<lambda>(i, members). \<lparr>ch_Name = ''auto-'' @ Itoa (int i + 1), ch_Source = SourceAuto, ch_Clusters = members\<rparr>)
           (List.enumerate 0 buckets))"

definition autoCohorts :: "visit \<Rightarrow> ClusterProfile list \<Rightarrow> Options \<Rightarrow> Cohort list option" where
  "autoCohorts visit profiles opts =
     Option.bind (agglomerate profiles (op_MaxCohorts opts)) (\<lambda>groups.
       map_option (\<lambda>groups. nameAutoCohorts groups profiles)
         (mergeSmallCohorts visit groups profiles (op_MinCohortSize opts)))"

definition finalize :: "Cohort list \<Rightarrow> Cohort list" where
  "finalize cohorts =
     sort_key (\<lambda>c. (ch_Source c, ch_Name c)) (map (\<lambda>c. c\<lparr>ch_Clusters := sort (ch_Clusters c)\<rparr>) cohorts)"

definition with_defaults :: "Options \<Rightarrow> Options" where
  "with_defaults opts =
     opts\<lparr>op_MinClusters := (if op_MinClusters opts = 0 then defaultMinClusters else op_MinClusters opts),
          op_MinCohortSize := (if op_MinCohortSize opts = 0 then defaultMinCohortSize else op_MinCohortSize opts),
          op_MaxCohorts := (if op_MaxCohorts opts = 0 then defaultMaxCohorts else op_MaxCohorts opts)\<rparr>"

definition Assign :: "visit \<Rightarrow> ClusterProfile list \<Rightarrow> Options \<Rightarrow> Cohort list option" where
  "Assign visit profiles options =
     (let opts = with_defaults options; (tagged, untagged) = splitByTag profiles; cohorts = taggedCohorts tagged
      in if untagged = [] then Some (finalize cohorts)
         else if int (length untagged) < op_MinClusters opts then
           Some (finalize (cohorts @ [\<lparr>ch_Name = ''fleet'', ch_Source = SourceFleet, ch_Clusters = map cp_Name untagged\<rparr>]))
         else map_option (\<lambda>auto. finalize (cohorts @ auto)) (autoCohorts visit untagged opts))"
section \<open>The dendrogram\<close>

definition dendro_ok :: "nat \<Rightarrow> nat \<Rightarrow> dendro \<Rightarrow> bool" where
  "dendro_ok n m st \<longleftrightarrow>
     length (dn_active st) = 2 * n - 1 \<and> (\<forall>j < 2 * n - 1. dn_active st ! j \<longrightarrow> j < m) \<and>
     (\<forall>(i, row) \<in> set (dn_d st). \<forall>(j, v) \<in> set row. j < m)"

definition pair_below :: "nat \<Rightarrow> (nat \<times> nat) option \<times> float64 \<Rightarrow> bool" where
  "pair_below m acc \<longleftrightarrow> (\<forall>a b. fst acc = Some (a, b) \<longrightarrow> a < m \<and> b < m)"

lemma closer_fold:
  assumes "\<forall>(j, v) \<in> set row. j < m" "i < m" "pair_below m acc"
  shows "pair_below m (foldl (closer active i) acc row)"
  using assms
proof (induction row arbitrary: acc)
  case (Cons p row)
  have "fst (closer active i acc p) = fst acc \<or> fst (closer active i acc p) = Some (i, fst p)"
    by (cases acc, cases p) (simp add: closer_def)
  then have "pair_below m (closer active i acc p)" using Cons.prems by (auto simp: pair_below_def)
  then show ?case using Cons by simp
qed simp

lemma lookup_row: "row = lookup_default [] d i \<Longrightarrow> p \<in> set row \<Longrightarrow> \<exists>k. (k, row) \<in> set d"
  by (auto simp: lookup_default_def split: option.splits dest: map_of_SomeD)

lemma closest_pair_bound:
  assumes "dendro_ok n m st" "closest_pair st = (Some (a, b), best)"
  shows "a < m \<and> b < m"
proof -
  have rows: "\<forall>(j, v) \<in> set (lookup_default [] (dn_d st) i). j < m" for i
    using assms(1) lookup_row unfolding dendro_ok_def by fastforce
  have "pair_below m (foldl (\<lambda>acc i. if \<not> dn_active st ! i then acc
        else foldl (closer (dn_active st) i) acc (lookup_default [] (dn_d st) i)) acc is)"
    if "\<forall>i \<in> set is. i < 2 * n - 1" "pair_below m acc" for acc "is"
    using that
  proof (induction "is" arbitrary: acc)
    case (Cons i is')
    have "dn_active st ! i \<Longrightarrow> i < m" using Cons.prems(1) assms(1) by (simp add: dendro_ok_def)
    then show ?case using Cons closer_fold [OF rows, of i acc] by auto
  qed simp
  from this [of "[0..<length (dn_active st)]" "(None, math_MaxFloat64)"] show ?thesis
    using assms by (simp add: closest_pair_def dendro_ok_def pair_below_def)
qed

definition rows_below :: "nat \<Rightarrow> (nat, (nat, float64) gomap) gomap \<Rightarrow> bool" where
  "rows_below m d \<longleftrightarrow> (\<forall>(i, row) \<in> set d. \<forall>(j, v) \<in> set row. j < m)"

lemma set_AList_update: "p \<in> set (AList.update k v m) \<Longrightarrow> p = (k, v) \<or> p \<in> set m"
  by (induction m) (auto split: if_splits)

lemma nth_cleared: "xs[a := False] ! j \<Longrightarrow> j < length xs \<Longrightarrow> xs ! j"
  by (cases "a = j") simp_all

lemma set_AList_delete: "p \<in> set (AList.delete k m) \<Longrightarrow> p \<in> set m"
  by (simp add: AList.delete_eq)

lemma rows_below_update:
  assumes "rows_below m d" "j < m"
  shows "rows_below m (AList.update i (AList.update j v (lookup_default [] d k)) d)"
proof -
  have "\<forall>(j, v) \<in> set (lookup_default [] d k). j < m"
    using assms(1) lookup_row [of "lookup_default [] d k" d k] unfolding rows_below_def by fastforce
  then show ?thesis using assms unfolding rows_below_def by (fastforce dest!: set_AList_update)
qed

lemma rows_belowI: "(\<And>i row j v. (i, row) \<in> set d \<Longrightarrow> (j, v) \<in> set row \<Longrightarrow> j < m) \<Longrightarrow> rows_below m d"
  by (auto simp: rows_below_def)

lemma rows_belowD: "rows_below m d \<Longrightarrow> (i, row) \<in> set d \<Longrightarrow> (j, v) \<in> set row \<Longrightarrow> j < m"
  by (auto simp: rows_below_def)

lemma rows_below_drop: "rows_below m d \<Longrightarrow> rows_below m (drop_merged a b d)"
  by (rule rows_belowI) (auto simp: drop_merged_def dest!: set_AList_delete intro: rows_belowD)

lemma rows_below_new: "rows_below m d \<Longrightarrow> rows_below (Suc m) (AList.update k [] d)"
  by (rule rows_belowI) (auto dest!: set_AList_update dest: rows_belowD intro: less_SucI)

lemma rows_below_link:
  assumes "rows_below m d" "newID < m" "dn_active st ! i \<Longrightarrow> i < m"
  shows "rows_below m (link_average st a b newID d i)"
  using assms by (auto simp: link_average_def Let_def intro: rows_below_update)

lemma merge_pair_ok:
  assumes "dendro_ok n m st" "m < 2 * n - 1"
  shows "dendro_ok n (Suc m) (merge_pair a b m st)"
proof -
  define st1 where "st1 = st\<lparr>dn_active := (dn_active st)[a := False, b := False, m := True],
      dn_size := (dn_size st)[m := dn_size st ! a + dn_size st ! b]\<rparr>"
  have len: "length (dn_active st1) = 2 * n - 1" using assms(1) by (simp add: st1_def dendro_ok_def)
  have act: "j < Suc m" if "j < 2 * n - 1" "dn_active st1 ! j" for j
  proof (cases "j = m")
    case False
    then have on: "(dn_active st)[a := False, b := False] ! j" using that(2) by (simp add: st1_def)
    have l: "length (dn_active st) = 2 * n - 1" using assms(1) by (simp add: dendro_ok_def)
    have "(dn_active st)[a := False] ! j" using on by (rule nth_cleared) (use l that(1) in simp)
    then have "dn_active st ! j" by (rule nth_cleared) (use l that(1) in simp)
    then have "j < m" using assms(1) that(1) unfolding dendro_ok_def by blast
    then show ?thesis by simp
  qed simp
  have start: "rows_below (Suc m) (AList.update m [] (dn_d st))"
    using assms(1) by (intro rows_below_new) (simp add: dendro_ok_def rows_below_def)
  have "rows_below (Suc m) (foldl (link_average st1 a b m) d is)" if "rows_below (Suc m) d" "\<forall>i \<in> set is. i < 2 * n - 1" for d "is"
    using that
  proof (induction "is" arbitrary: d)
    case (Cons i is')
    have "rows_below (Suc m) (link_average st1 a b m d i)"
      by (rule rows_below_link) (use Cons.prems act in simp_all)
    then show ?case using Cons by simp
  qed simp
  from this [OF start, of "[0..<length (dn_active st1)]"] len
  have "rows_below (Suc m) (foldl (link_average st1 a b m) (AList.update m [] (dn_d st)) [0..<length (dn_active st1)])" by simp
  moreover have "dn_d (merge_pair a b m st) =
      drop_merged a b (foldl (link_average st1 a b m) (AList.update m [] (dn_d st)) [0..<length (dn_active st1)])"
    by (simp add: merge_pair_def Let_def st1_def)
  ultimately have "rows_below (Suc m) (dn_d (merge_pair a b m st))" using rows_below_drop by metis
  moreover have "dn_active (merge_pair a b m st) = dn_active st1" by (simp add: merge_pair_def Let_def st1_def)
  ultimately show ?thesis using len act unfolding dendro_ok_def rows_below_def [symmetric] by simp
qed

lemma merge_loop_bound:
  assumes "dendro_ok n (n + step) st" "step + left \<le> n - 1"
  shows "length (merge_loop n step left st) \<le> left \<and>
    (\<forall>i < length (merge_loop n step left st). mg_a (merge_loop n step left st ! i) < n + step + i
       \<and> mg_b (merge_loop n step left st ! i) < n + step + i)"
  using assms
proof (induction left arbitrary: step st)
  case (Suc left)
  show ?case
  proof (cases "fst (closest_pair st)")
    case None
    then show ?thesis by (auto split: prod.split)
  next
    case (Some p)
    obtain a b best where p: "closest_pair st = (Some (a, b), best)" using Some by (metis prod.collapse)
    let ?rest = "merge_loop n (step + 1) left (merge_pair a b (n + step) st)"
    have ab: "a < n + step \<and> b < n + step" using closest_pair_bound [OF Suc.prems(1) p] .
    have "dendro_ok n (n + (step + 1)) (merge_pair a b (n + step) st)"
      using merge_pair_ok [OF Suc.prems(1)] Suc.prems(2) by simp
    from Suc.IH [OF this] have "length ?rest \<le> left"
      "\<forall>i < length ?rest. mg_a (?rest ! i) < n + (step + 1) + i \<and> mg_b (?rest ! i) < n + (step + 1) + i"
      using Suc.prems(2) by simp_all
    then show ?thesis using ab by (auto simp: p nth_Cons less_Suc_eq_0_disj split: nat.split)
  qed
qed simp

lemma buildDendrogram_bound:
  assumes "0 < n"
  shows "length (buildDendrogram n dm) \<le> n - 1 \<and>
    (\<forall>i < length (buildDendrogram n dm). mg_a (buildDendrogram n dm ! i) < n + i \<and> mg_b (buildDendrogram n dm ! i) < n + i)"
proof -
  have "dendro_ok n (n + 0) \<lparr>dn_active = replicate n True @ replicate (n - 1) False,
        dn_size = replicate n 1 @ replicate (n - 1) 0,
        dn_d = map (\<lambda>i. (i, map (\<lambda>j. (j, dm ! i ! j)) (filter (\<lambda>j. i \<noteq> j) [0..<n]))) [0..<n]\<rparr>"
    using assms by (auto simp: dendro_ok_def nth_append split: if_splits)
  from merge_loop_bound [OF this, of "n - 1"] show ?thesis by (simp add: buildDendrogram_def)
qed

section \<open>The walk to the root ends\<close>

definition climbing :: "nat list \<Rightarrow> bool" where
  "climbing parent \<longleftrightarrow> (\<forall>x < length parent. parent ! x = x \<or> (x < parent ! x \<and> parent ! x < length parent))"

lemma find_root_ends:
  assumes "climbing parent" "x < length parent"
  shows "\<exists>r. find_root parent x = Some r"
  using assms(2)
proof (induction "length parent - x" arbitrary: x rule: less_induct)
  case less
  show ?case
  proof (cases "parent ! x = x")
    case True
    then show ?thesis using less.prems by (simp add: find_root.simps)
  next
    case False
    then have "x < parent ! x" "parent ! x < length parent" using assms(1) less.prems by (auto simp: climbing_def)
    then show ?thesis using less False by (subst find_root.simps) simp
  qed
qed

lemma replay_climbing:
  assumes "climbing parent" "length parent = 2 * n - 1" "n + i < 2 * n - 1"
    and "mg_a (merges ! i) < n + i" "mg_b (merges ! i) < n + i"
  shows "climbing (replay n merges parent i) \<and> length (replay n merges parent i) = 2 * n - 1"
  using assms by (auto simp: climbing_def replay_def nth_list_update)

lemma replay_fold:
  assumes "length merges \<le> n - 1" "\<forall>i < length merges. mg_a (merges ! i) < n + i \<and> mg_b (merges ! i) < n + i"
  shows "stop \<le> length merges \<Longrightarrow> climbing (foldl (replay n merges) [0..<2 * n - 1] [0..<stop]) \<and>
    length (foldl (replay n merges) [0..<2 * n - 1] [0..<stop]) = 2 * n - 1"
proof (induction stop)
  case (Suc stop)
  then show ?case using assms replay_climbing [of "foldl (replay n merges) [0..<2 * n - 1] [0..<stop]" n stop merges] by simp
qed (simp add: climbing_def)

lemma root_steps:
  assumes "climbing parent" "\<forall>i \<in> set is. i < length parent"
  shows "\<exists>gs roots'. foldl (root_step parent) (Some (groups, roots)) is = Some (groups @ gs, roots') \<and> length gs = length is"
  using assms(2)
proof (induction "is" arbitrary: groups roots)
  case (Cons i is')
  obtain r where r: "find_root parent i = Some r" using find_root_ends [OF assms(1)] Cons.prems by auto
  obtain g roots1 where g: "group_of r roots = (g, roots1)" by fastforce
  have "foldl (root_step parent) (Some (groups, roots)) (i # is') = foldl (root_step parent) (Some (groups @ [g], roots1)) is'"
    by (simp add: root_step_def r g)
  then show ?case using Cons.IH [of "groups @ [g]" roots1] Cons.prems by auto
qed simp

lemma agglomerate_returns: "\<exists>groups. agglomerate profiles maxK = Some groups \<and> length groups = length profiles"
proof -
  have cut: "\<exists>groups. cutDendrogram (buildDendrogram n dm) n k = Some groups \<and> length groups = n" if "0 < n" for n dm k
  proof (cases "k \<le> 1 \<or> buildDendrogram n dm = []")
    case True
    then show ?thesis by (auto simp: cutDendrogram_def)
  next
    case False
    let ?m = "buildDendrogram n dm"
    let ?stop = "nat (max (int (length ?m) - (k - 1)) 0)"
    let ?parent = "foldl (replay n ?m) [0..<2 * n - 1] [0..<?stop]"
    have p: "climbing ?parent" "length ?parent = 2 * n - 1"
      using replay_fold [of ?m n ?stop] buildDendrogram_bound [OF that, of dm] False by auto
    have "\<exists>gs roots'. foldl (root_step ?parent) (Some ([], [])) [0..<n] = Some ([] @ gs, roots') \<and> length gs = length [0..<n]"
      using that p(2) by (intro root_steps p(1)) auto
    then show ?thesis using False unfolding cutDendrogram_def Let_def by auto
  qed
  consider "length profiles = 0" | "length profiles = 1" | "length profiles > 1" by linarith
  then show ?thesis using cut [of "length profiles"] by cases (auto simp: agglomerate_def Let_def length_Suc_conv)
qed


section \<open>Folding small groups ends\<close>

definition tally_ok :: "nat list \<Rightarrow> (nat, int) gomap \<Rightarrow> bool" where
  "tally_ok groups counts \<longleftrightarrow> distinct (map fst counts) \<and> fst ` set counts = set groups \<and>
     (\<forall>g. lookup_default 0 counts g = int (count_list groups g))"

lemma tally_ok_start: "tally_ok groups (foldl (\<lambda>m g. map_incr g m) [] groups)"
proof (induction groups rule: rev_induct)
  case Nil
  show ?case by (simp add: tally_ok_def lookup_default_def)
next
  case (snoc g gs)
  then show ?case by (auto simp: tally_ok_def lookup_default_incr)
qed

lemma tally_length: "tally_ok groups counts \<Longrightarrow> length counts = card (set groups)"
  by (metis distinct_card length_map set_map tally_ok_def)

lemma smallest_group_None:
  assumes "smallest_group entries minSize = None" "(g, c) \<in> set entries"
  shows "minSize \<le> c"
proof -
  have keep: "fst (foldl smaller_count (Some x, y) es) \<noteq> None" for x y es
    by (induction es arbitrary: x y) (auto simp: smaller_count_def)
  have "fst (foldl smaller_count (None, b) es) = None \<Longrightarrow> (g, c) \<in> set es \<Longrightarrow> b \<le> c" for b es
  proof (induction es)
    case (Cons p es)
    show ?case
    proof (cases "snd p < b")
      case True
      then have "fst (foldl smaller_count (None, b) (p # es)) = fst (foldl smaller_count (Some (fst p), snd p) es)"
        by (simp add: smaller_count_def)
      then show ?thesis using Cons.prems(1) keep by metis
    next
      case False
      then show ?thesis using Cons by (auto simp: smaller_count_def)
    qed
  qed simp
  then show ?thesis using assms by (simp add: smallest_group_def)
qed

text \<open>A search that keeps its candidate or takes the current element ends with one of them.\<close>

lemma fold_choice:
  assumes step: "\<And>st p. fst (step st p) = fst st \<or> (Q p \<and> fst (step st p) = Some (f p))"
  shows "fst (foldl step st ps) = fst st \<or> (\<exists>p \<in> set ps. Q p \<and> fst (foldl step st ps) = Some (f p))"
proof (induction ps arbitrary: st)
  case (Cons p ps)
  from Cons.IH [of "step st p"] step [of st p] show ?case unfolding foldl_Cons by (metis list.set_intros)
qed simp

lemma smallest_group_Some:
  assumes "smallest_group entries minSize = Some g"
  shows "g \<in> fst ` set entries"
proof -
  have "fst (foldl smaller_count (None, minSize) entries) = fst (None :: nat option, minSize) \<or>
      (\<exists>p \<in> set entries. True \<and> fst (foldl smaller_count (None, minSize) entries) = Some (fst p))"
    by (rule fold_choice) (simp add: smaller_count_def)
  then show ?thesis using assms by (auto simp: smallest_group_def)
qed

lemma closer_group_fst:
  "fst (closer_group profiles groups small st p) = fst st \<or>
   (groups ! snd p \<noteq> small \<and> fst (closer_group profiles groups small st p) = Some (groups ! snd p))"
  by (cases st, cases p) (simp add: closer_group_def Let_def)

lemma closestGroup_Some:
  assumes "closestGroup profiles groups small = Some target"
  shows "target \<in> set groups \<and> target \<noteq> small"
proof -
  have "fst (foldl (closer_group profiles groups small) (None, math_MaxFloat64) ps) = fst (None :: nat option, math_MaxFloat64) \<or>
      (\<exists>p \<in> set ps. groups ! snd p \<noteq> small \<and>
         fst (foldl (closer_group profiles groups small) (None, math_MaxFloat64) ps) = Some (groups ! snd p))" for ps
    by (rule fold_choice) (rule closer_group_fst)
  from this [of "List.product [0..<length groups] [0..<length groups]"]
  show ?thesis using assms by (auto simp: closestGroup_def)
qed

text \<open>With finite distances there always is a nearest other group.\<close>

definition finite_distances :: "ClusterProfile list \<Rightarrow> bool" where
  "finite_distances profiles =
     list_all (\<lambda>p. list_all (\<lambda>q. euclidean (cp_Features p) (cp_Features q) < math_MaxFloat64) profiles) profiles"

lemma closestGroup_exists:
  assumes fin: "finite_distances profiles" and len: "length groups = length profiles"
    and small: "small \<in> set groups" and other: "g \<in> set groups" "g \<noteq> small"
  shows "closestGroup profiles groups small \<noteq> None"
proof -
  obtain i j where i: "i < length groups" "groups ! i = small" and j: "j < length groups" "groups ! j = g"
    using small other(1) by (metis in_set_conv_nth)
  have keep: "fst (foldl (closer_group profiles groups small) (Some x, d) ps) \<noteq> None" for x d ps
    by (induction ps arbitrary: x d) (auto simp: closer_group_def Let_def split: prod.split)
  have "fst (foldl (closer_group profiles groups small) (None, math_MaxFloat64) ps) \<noteq> None" if "(i, j) \<in> set ps" for ps
    using that
  proof (induction ps)
    case (Cons p ps)
    show ?case
    proof (cases "p = (i, j)")
      case True
      have "euclidean (cp_Features (profiles ! i)) (cp_Features (profiles ! j)) < math_MaxFloat64"
        using fin i(1) j(1) len by (simp add: finite_distances_def list_all_length)
      then have "closer_group profiles groups small (None, math_MaxFloat64) p =
          (Some g, euclidean (cp_Features (profiles ! i)) (cp_Features (profiles ! j)))"
        by (simp add: True closer_group_def i j other(2) Let_def)
      then show ?thesis using keep by simp
    next
      case False
      show ?thesis
      proof (cases "closer_group profiles groups small (None, math_MaxFloat64) p = (None, math_MaxFloat64)")
        case True
        then show ?thesis using Cons False by simp
      next
        case False
        then have "fst (closer_group profiles groups small (None, math_MaxFloat64) p) \<noteq> None"
          by (cases p) (auto simp: closer_group_def Let_def split: if_splits)
        then obtain x d where "closer_group profiles groups small (None, math_MaxFloat64) p = (Some x, d)"
          by (metis not_None_eq prod.collapse)
        then show ?thesis using keep by simp
      qed
    qed
  qed simp
  from this [of "List.product [0..<length groups] [0..<length groups]"] show ?thesis
    using i(1) j(1) by (simp add: closestGroup_def)
qed

lemma count_list_relabel:
  assumes "t \<noteq> s"
  shows "count_list (map (\<lambda>g. if g = s then t else g) gs) g =
    (if g = t then count_list gs t + count_list gs s else if g = s then 0 else count_list gs g)"
  using assms by (induction gs) auto

lemma tally_ok_fold:
  assumes "tally_ok groups counts" "t \<in> set groups" "s \<in> set groups" "t \<noteq> s"
  shows "tally_ok (map (\<lambda>g. if g = s then t else g) groups)
    (AList.delete s (AList.update t (lookup_default 0 counts t + lookup_default 0 counts s) counts))"
proof -
  have "fst ` set (AList.delete s (AList.update t v counts)) = set (map (\<lambda>g. if g = s then t else g) groups)" for v
    using assms by (auto simp: delete_keys dom_update tally_ok_def simp flip: dom_map_of_conv_image_fst)
  moreover have "distinct (map fst (AList.delete s (AList.update t v counts)))" for v
    using assms(1) by (simp add: tally_ok_def distinct_delete distinct_update)
  ultimately show ?thesis using assms
    by (simp add: tally_ok_def lookup_default_def count_list_relabel)
qed



text \<open>What the loop leaves behind: no group below the size, or a single group, or a group without a
  neighbour.\<close>

definition settled :: "ClusterProfile list \<Rightarrow> int \<Rightarrow> nat list \<Rightarrow> bool" where
  "settled profiles minSize groups \<longleftrightarrow>
     (\<forall>g \<in> set groups. minSize \<le> int (count_list groups g)) \<or> card (set groups) \<le> 1 \<or>
     (\<exists>g \<in> set groups. closestGroup profiles groups g = None)"

lemma fold_small_returns:
  assumes visit: "\<And>m. mset (visit m) = mset m" and tally: "tally_ok groups counts"
  shows "\<exists>out. fold_small visit profiles minSize groups counts = Some out \<and> length out = length groups
    \<and> settled profiles minSize out"
  using tally
proof (induction "card (set groups)" arbitrary: groups counts rule: less_induct)
  case less
  have vs: "set (visit counts) = set counts" using visit by (metis set_mset_mset)
  note ends = fold_small.simps [of visit profiles minSize groups counts]
  show ?case
  proof (cases "smallest_group (visit counts) minSize")
    case None
    have "minSize \<le> int (count_list groups g)" if "g \<in> set groups" for g
    proof -
      have "g \<in> fst ` set counts" using less.prems that by (simp add: tally_ok_def)
      then obtain c where c: "(g, c) \<in> set counts" by auto
      then have "map_of counts g = Some c" using less.prems by (simp add: tally_ok_def)
      then have "lookup_default 0 counts g = c" by (simp add: lookup_default_def)
      then have "c = int (count_list groups g)" using less.prems by (simp add: tally_ok_def)
      then show ?thesis using smallest_group_None [OF None] c vs by auto
    qed
    then show ?thesis using None ends by (simp add: settled_def)
  next
    case (Some small)
    have "small \<in> fst ` set counts" using smallest_group_Some [OF Some] vs by simp
    then have sm: "small \<in> set groups" using less.prems by (simp add: tally_ok_def)
    show ?thesis
    proof (cases "length counts \<le> 1")
      case True
      then show ?thesis using Some ends tally_length [OF less.prems] by (simp add: settled_def)
    next
      case many: False
      show ?thesis
      proof (cases "closestGroup profiles groups small")
        case None
        then show ?thesis using Some many ends sm by (auto simp: settled_def)
      next
        case t: (Some target)
        note tt = closestGroup_Some [OF t]
        let ?gs = "map (\<lambda>g. if g = small then target else g) groups"
        have "set ?gs \<subseteq> set groups - {small}" using tt by auto
        then have "card (set ?gs) \<le> card (set groups - {small})" by (intro card_mono) simp_all
        also have "\<dots> < card (set groups)" using sm by (intro card_Diff1_less) simp_all
        finally have "\<exists>out. fold_small visit profiles minSize ?gs
            (AList.delete small (AList.update target (lookup_default 0 counts target + lookup_default 0 counts small) counts)) = Some out
            \<and> length out = length ?gs \<and> settled profiles minSize out"
          using tally_ok_fold [OF less.prems, of target small] tt sm by (intro less.hyps) simp_all
        then show ?thesis using Some many t ends by simp
      qed
    qed
  qed
qed

lemma settled_sizes:
  assumes "settled profiles minSize groups" "finite_distances profiles" "length groups = length profiles"
    and "card (set groups) > 1" "g \<in> set groups"
  shows "minSize \<le> int (count_list groups g)"
proof (rule ccontr)
  assume "\<not> minSize \<le> int (count_list groups g)"
  then obtain s where s: "s \<in> set groups" "closestGroup profiles groups s = None"
    using assms by (auto simp: settled_def)
  have "\<not> set groups \<subseteq> {s}" using assms(4) card_mono [of "{s}" "set groups"] by auto
  then obtain h where "h \<in> set groups" "h \<noteq> s" by blast
  then show False using closestGroup_exists [OF assms(2,3) s(1)] s(2) by blast
qed

section \<open>Renumbering keeps the groups apart\<close>

definition dense :: "(nat, nat) gomap \<Rightarrow> bool" where
  "dense m \<longleftrightarrow> distinct (map fst m) \<and> map snd m = [0..<length m]"

lemma dense_inj: "dense m \<Longrightarrow> map_of m a = Some i \<Longrightarrow> map_of m b = Some i \<Longrightarrow> a = b"
proof -
  assume d: "dense m" and a: "map_of m a = Some i" and b: "map_of m b = Some i"
  have "distinct (map snd m)" using d by (simp add: dense_def)
  moreover have "(a, i) \<in> set m" "(b, i) \<in> set m" using a b by (auto dest: map_of_SomeD)
  ultimately show "a = b" using inj_onD [of snd "set m" "(a, i)" "(b, i)"] by (simp add: distinct_map)
qed

lemma group_of_dense:
  assumes "dense m" "group_of r m = (g, m')"
  shows "dense m' \<and> map_of m' r = Some g \<and> (\<forall>x i. map_of m x = Some i \<longrightarrow> map_of m' x = Some i)"
proof (cases "map_of m r")
  case None
  then have new: "r \<notin> fst ` set m" by (simp add: map_of_eq_None_iff)
  note upd = update_new [OF new]
  show ?thesis using assms None new by (auto simp: group_of_def dense_def upd map_add_def split: option.split)
next
  case (Some i)
  then show ?thesis using assms by (auto simp: group_of_def)
qed

lemma renumber_fold:
  assumes "dense m" "out = map (\<lambda>g. the (map_of m g)) done" "set done \<subseteq> dom (map_of m)"
    and "foldl renumber_step (out, m) gs = (out', m')"
  shows "dense m' \<and> out' = map (\<lambda>g. the (map_of m' g)) (done @ gs) \<and> set (done @ gs) \<subseteq> dom (map_of m')"
  using assms
proof (induction gs arbitrary: m out "done")
  case (Cons g gs)
  obtain i m1 where g: "group_of g m = (i, m1)" by fastforce
  note dg = group_of_dense [OF Cons.prems(1) g]
  have "map (\<lambda>g. the (map_of m g)) done = map (\<lambda>g. the (map_of m1 g)) done" "set done \<subseteq> dom (map_of m1)"
    using Cons.prems(3) dg by (auto simp: dom_def subset_iff)
  then show ?case using Cons.IH [of m1 "out @ [i]" "done @ [g]"] Cons.prems dg g by (auto simp: renumber_step_def)
qed simp

lemma renumber_inj: "\<exists>f. renumber groups = map f groups \<and> inj_on f (set groups)"
proof -
  obtain out m where r: "foldl renumber_step ([], []) groups = (out, m)" by fastforce
  have "dense m \<and> out = map (\<lambda>g. the (map_of m g)) ([] @ groups) \<and> set ([] @ groups) \<subseteq> dom (map_of m)"
    by (rule renumber_fold [OF _ _ _ r]) (simp_all add: dense_def)
  then have d: "dense m" and out: "out = map (\<lambda>g. the (map_of m g)) groups" and sub: "set groups \<subseteq> dom (map_of m)"
    by simp_all
  have "inj_on (\<lambda>g. the (map_of m g)) (set groups)"
  proof (rule inj_onI)
    fix x y assume "x \<in> set groups" "y \<in> set groups" "the (map_of m x) = the (map_of m y)"
    moreover from this sub obtain i j where "map_of m x = Some i" "map_of m y = Some j" by blast
    ultimately show "x = y" using dense_inj [OF d, of x i y] by simp
  qed
  then show ?thesis using out r by (auto simp: renumber_def)
qed

lemma mergeSmallCohorts_returns:
  assumes "\<And>m. mset (visit m) = mset m" "length groups = length profiles"
  shows "\<exists>out. mergeSmallCohorts visit groups profiles minSize = Some out \<and> length out = length profiles \<and>
    (finite_distances profiles \<longrightarrow> card (set out) > 1 \<longrightarrow> (\<forall>g \<in> set out. minSize \<le> int (count_list out g)))"
proof (cases "minSize \<le> 1")
  case True
  have "1 \<le> int (count_list groups g)" if "g \<in> set groups" for g
    using that count_list_0_iff [of groups g] by (cases "count_list groups g") auto
  then show ?thesis using True assms(2) by (auto simp: mergeSmallCohorts_def intro: order_trans)
next
  case False
  obtain out where out: "fold_small visit profiles minSize groups (foldl (\<lambda>m g. map_incr g m) [] groups) = Some out"
    "length out = length groups" "settled profiles minSize out"
    using fold_small_returns [OF assms(1) tally_ok_start] by blast
  obtain f where f: "renumber out = map f out" "inj_on f (set out)" using renumber_inj by blast
  have "minSize \<le> int (count_list (map f out) g)"
    if fin: "finite_distances profiles" "card (set (map f out)) > 1" and g: "g \<in> set (map f out)" for g
  proof -
    obtain h where h: "h \<in> set out" "g = f h" using g by auto
    have "card (set out) > 1" using fin(2) f(2) by (simp add: card_image)
    then have "minSize \<le> int (count_list out h)"
      using settled_sizes [OF out(3) fin(1)] out(2) assms(2) h(1) by simp
    also have "count_list out h \<le> count_list (map f out) g"
      unfolding h(2) by (induction out) auto
    finally show ?thesis by simp
  qed
  then show ?thesis using False out f(1) assms(2) by (auto simp: mergeSmallCohorts_def)
qed

section \<open>The cohorts are a partition\<close>

lemma mset_map_append:
  "mset (concat (map snd (map_append k v m))) = add_mset v (mset (concat (map snd m)))"
proof (induction m)
  case Nil
  show ?case by (simp add: map_append_def lookup_default_def)
next
  case (Cons p m)
  then show ?case by (cases p) (auto simp: map_append_def lookup_default_def)
qed

lemma mset_group_fold:
  "mset (concat (map snd (foldl (\<lambda>m p. map_append (key p) (val p) m) m ps))) =
     mset (concat (map snd m)) + mset (map val ps)"
  by (induction ps arbitrary: m) (simp_all add: mset_map_append)

lemma group_fold_lookup:
  "distinct (map fst m) \<Longrightarrow>
   distinct (map fst (foldl (\<lambda>m p. map_append (key p) (val p) m) m ps)) \<and>
   fst ` set (foldl (\<lambda>m p. map_append (key p) (val p) m) m ps) = fst ` set m \<union> key ` set ps \<and>
   lookup_default [] (foldl (\<lambda>m p. map_append (key p) (val p) m) m ps) k =
     lookup_default [] m k @ map val (filter (\<lambda>p. key p = k) ps)"
proof (induction ps arbitrary: m)
  case (Cons p ps)
  then show ?case using Cons.IH [of "map_append (key p) (val p) m"] by (auto simp: lookup_default_append)
qed simp

lemma mset_concat_sort: "mset (concat (sort_key f xss)) = mset (concat xss)"
proof -
  have "mset (map mset (sort_key f xss)) = mset (map mset xss)" by simp
  then show ?thesis unfolding mset_concat by (metis sum_mset_sum_list)
qed

lemma mset_concat_map_sort: "mset (concat (map (\<lambda>c. sort (h c)) cs)) = mset (concat (map h cs))"
  by (induction cs) simp_all

lemma mset_finalize: "mset (concat (map ch_Clusters (finalize cohorts))) = mset (concat (map ch_Clusters cohorts))"
proof -
  have "mset (concat (map ch_Clusters (sort_key k xs))) = mset (concat (map ch_Clusters xs))" for k :: "Cohort \<Rightarrow> string \<times> string" and xs
    by (simp add: mset_concat) (metis mset_map mset_sort sum_mset_sum_list)
  then show ?thesis by (simp add: finalize_def comp_def mset_concat_map_sort)
qed

lemma auto_names:
  "map ch_Clusters (nameAutoCohorts groups profiles) =
     sort_key hd (map (\<lambda>(_, members). sort members)
       (foldl (\<lambda>m p. map_append (fst p) (cp_Name (snd p)) m) [] (zip groups profiles)))"
  unfolding nameAutoCohorts_def Let_def by (simp add: case_prod_beta' comp_def)

lemma auto_partition:
  assumes "length groups = length profiles"
  shows "mset (concat (map ch_Clusters (nameAutoCohorts groups profiles))) = mset (map cp_Name profiles)"
proof -
  let ?by = "foldl (\<lambda>m p. map_append (fst p) (cp_Name (snd p)) m) [] (zip groups profiles)"
  have "mset (concat (map ch_Clusters (nameAutoCohorts groups profiles))) = mset (concat (map (\<lambda>c. sort (snd c)) ?by))"
    unfolding auto_names mset_concat_sort by (simp add: case_prod_beta')
  also have "\<dots> = mset (concat (map snd ?by))" by (rule mset_concat_map_sort)
  also have "\<dots> = mset (map (\<lambda>p. cp_Name (snd p)) (zip groups profiles))" by (simp add: mset_group_fold)
  also have "map (\<lambda>p. cp_Name (snd p)) (zip groups profiles) = map cp_Name (map snd (zip groups profiles))" by simp
  also have "\<dots> = map cp_Name profiles" using assms by simp
  finally show ?thesis .
qed

lemma auto_members:
  assumes "length groups = length profiles" "c \<in> set (nameAutoCohorts groups profiles)"
  shows "\<exists>g \<in> set groups. length (ch_Clusters c) = count_list groups g"
proof -
  let ?by = "foldl (\<lambda>m p. map_append (fst p) (cp_Name (snd p)) m) [] (zip groups profiles)"
  have "ch_Clusters c \<in> set (map ch_Clusters (nameAutoCohorts groups profiles))" using assms(2) by simp
  then obtain g ms where g: "(g, ms) \<in> set ?by" "ch_Clusters c = sort ms" unfolding auto_names by auto
  note laws = group_fold_lookup [of "[]" "\<lambda>p. fst p" "\<lambda>p. cp_Name (snd p)" "zip groups profiles" g]
  have "map_of ?by g = Some ms" using laws g(1) by simp
  then have "lookup_default [] ?by g = ms" by (simp only: lookup_default_def option.case)
  then have "ms = map (\<lambda>p. cp_Name (snd p)) (filter (\<lambda>p. fst p = g) (zip groups profiles))"
    using laws by (simp add: lookup_default_def [of "[]" "[]"])
  moreover have "length (filter (\<lambda>p. fst p = g) (zip groups profiles)) = count_list groups g"
  proof -
    have "length (filter (\<lambda>p. fst p = g) (zip gs ps)) = count_list gs g" if "length gs = length ps" for gs and ps :: "ClusterProfile list"
      using that by (induction gs ps rule: list_induct2) auto
    then show ?thesis using assms(1) by simp
  qed
  moreover have "g \<in> set groups"
  proof -
    have "g \<in> fst ` set ?by" using g(1) by force
    then have "g \<in> fst ` set (zip groups profiles)" using laws by simp
    then show ?thesis by (auto dest: set_zip_leftD)
  qed
  ultimately show ?thesis using g(2) by auto
qed

lemma auto_count:
  assumes "length groups = length profiles"
  shows "length (nameAutoCohorts groups profiles) = card (set groups)"
proof -
  let ?by = "foldl (\<lambda>m p. map_append (fst p) (cp_Name (snd p)) m) [] (zip groups profiles)"
  note laws = group_fold_lookup [of "[]" "\<lambda>p. fst p" "\<lambda>p. cp_Name (snd p)" "zip groups profiles"]
  have "length (nameAutoCohorts groups profiles) = length (map ch_Clusters (nameAutoCohorts groups profiles))" by simp
  also have "\<dots> = length ?by" unfolding auto_names by simp
  also have "\<dots> = card (fst ` set ?by)" using distinct_card [of "map fst ?by"] laws by simp
  also have "fst ` set ?by = set (map fst (zip groups profiles))" using laws by simp
  also have "\<dots> = set groups" using assms by simp
  finally show ?thesis .
qed

lemma tagged_partition: "mset (concat (map ch_Clusters (taggedCohorts profiles))) = mset (map cp_Name profiles)"
proof -
  have "map ch_Clusters (taggedCohorts profiles) = map snd (foldl (\<lambda>m p. map_append (cp_Tag p) (cp_Name p) m) [] profiles)"
    by (simp add: taggedCohorts_def case_prod_beta' comp_def)
  then show ?thesis by (simp add: mset_group_fold)
qed

lemma tagged_cohort:
  assumes "c \<in> set (taggedCohorts profiles)"
  shows "ch_Source c = SourceTagged \<and> ch_Clusters c = map cp_Name (filter (\<lambda>p. cp_Tag p = ch_Name c) profiles)
    \<and> ch_Clusters c \<noteq> []"
proof -
  let ?by = "foldl (\<lambda>m p. map_append (cp_Tag p) (cp_Name p) m) [] profiles"
  obtain ms where c: "(ch_Name c, ms) \<in> set ?by" "ch_Clusters c = ms" "ch_Source c = SourceTagged"
    using assms by (auto simp: taggedCohorts_def)
  note laws = group_fold_lookup [of "[]" cp_Tag cp_Name profiles "ch_Name c"]
  have "map_of ?by (ch_Name c) = Some ms" using laws c(1) by simp
  then have "lookup_default [] ?by (ch_Name c) = ms" by (simp only: lookup_default_def option.case)
  then have "ms = map cp_Name (filter (\<lambda>p. cp_Tag p = ch_Name c) profiles)"
    using laws by (simp add: lookup_default_def [of "[]" "[]"])
  moreover have "ch_Name c \<in> cp_Tag ` set profiles" using laws c(1) by force
  ultimately show ?thesis using c by (auto simp: filter_empty_conv)
qed

lemma split_names: "mset (map cp_Name (filter P ps)) + mset (map cp_Name (filter (\<lambda>p. \<not> P p) ps)) = mset (map cp_Name ps)"
  by (induction ps) auto

lemma autoCohorts_returns:
  assumes "\<And>m. mset (visit m) = mset m"
  obtains groups where "autoCohorts visit profiles opts = Some (nameAutoCohorts groups profiles)"
    "length groups = length profiles"
    "finite_distances profiles \<Longrightarrow> card (set groups) > 1 \<Longrightarrow>
       \<forall>g \<in> set groups. op_MinCohortSize opts \<le> int (count_list groups g)"
proof -
  obtain gs where gs: "agglomerate profiles (op_MaxCohorts opts) = Some gs" "length gs = length profiles"
    using agglomerate_returns by blast
  obtain out where out: "mergeSmallCohorts visit gs profiles (op_MinCohortSize opts) = Some out" "length out = length profiles"
    "finite_distances profiles \<longrightarrow> card (set out) > 1 \<longrightarrow> (\<forall>g \<in> set out. op_MinCohortSize opts \<le> int (count_list out g))"
    using mergeSmallCohorts_returns [OF assms gs(2)] by blast
  show thesis by (rule that [of out]) (use gs out in \<open>auto simp: autoCohorts_def\<close>)
qed

lemma nameAuto_source: "c \<in> set (nameAutoCohorts groups profiles) \<Longrightarrow> ch_Source c = SourceAuto"
  by (auto simp: nameAutoCohorts_def Let_def)

lemma set_finalize: "c \<in> set (finalize cohorts) \<longleftrightarrow> (\<exists>c0 \<in> set cohorts. c = c0\<lparr>ch_Clusters := sort (ch_Clusters c0)\<rparr>)"
  by (auto simp: finalize_def)

lemma Assign_returns:
  assumes visit: "\<And>m. mset (visit m) = mset m"
  shows "\<exists>cohorts. Assign visit profiles opts = Some cohorts \<and>
    mset (concat (map ch_Clusters cohorts)) = mset (map cp_Name profiles) \<and>
    list_all (\<lambda>c. ch_Source c = ''tagged'' \<longrightarrow>
      ch_Name c \<noteq> '''' \<and> ch_Clusters c = sort (map cp_Name (filter (\<lambda>p. cp_Tag p = ch_Name c) profiles))) cohorts"
proof -
  define tg where "tg = filter (\<lambda>p. cp_Tag p \<noteq> '''') profiles"
  define un where "un = filter (\<lambda>p. cp_Tag p = '''') profiles"
  have split: "mset (map cp_Name tg) + mset (map cp_Name un) = mset (map cp_Name profiles)"
    using split_names [of "\<lambda>p. cp_Tag p \<noteq> ''''" profiles] by (simp add: tg_def un_def)
  have tags: "list_all (\<lambda>c. ch_Source c = ''tagged'' \<longrightarrow>
      ch_Name c \<noteq> '''' \<and> ch_Clusters c = sort (map cp_Name (filter (\<lambda>p. cp_Tag p = ch_Name c) profiles)))
      (finalize (taggedCohorts tg @ more))" if "\<And>c. c \<in> set more \<Longrightarrow> ch_Source c \<noteq> ''tagged''" for more
  proof -
    have "ch_Name c \<noteq> '''' \<and> ch_Clusters c = map cp_Name (filter (\<lambda>p. cp_Tag p = ch_Name c) profiles)"
      if c: "c \<in> set (taggedCohorts tg)" for c
    proof -
      note tc = tagged_cohort [OF c]
      then obtain p where "p \<in> set tg" "cp_Tag p = ch_Name c" by (auto simp: filter_empty_conv)
      then have "ch_Name c \<noteq> ''''" by (auto simp: tg_def)
      moreover from this have "filter (\<lambda>p. cp_Tag p = ch_Name c) tg = filter (\<lambda>p. cp_Tag p = ch_Name c) profiles"
        by (auto simp: tg_def intro: filter_cong)
      ultimately show ?thesis using tc by simp
    qed
    then show ?thesis using that by (auto simp: list_all_iff set_finalize)
  qed
  have un0: "mset (map cp_Name un) = {#}" if "un = []" using that by simp
  consider "un = []" | "un \<noteq> []" "int (length un) < op_MinClusters (with_defaults opts)"
    | "un \<noteq> []" "\<not> int (length un) < op_MinClusters (with_defaults opts)" by blast
  then show ?thesis
  proof cases
    case 1
    then have "Assign visit profiles opts = Some (finalize (taggedCohorts tg))"
      by (simp add: Assign_def splitByTag_def Let_def tg_def un_def)
    then show ?thesis using tags [of "[]"] split un0 [OF 1] by (simp add: mset_finalize tagged_partition)
  next
    case 2
    let ?fleet = "\<lparr>ch_Name = ''fleet'', ch_Source = SourceFleet, ch_Clusters = map cp_Name un\<rparr>"
    have "Assign visit profiles opts = Some (finalize (taggedCohorts tg @ [?fleet]))"
      using 2 by (simp add: Assign_def splitByTag_def Let_def tg_def un_def)
    then show ?thesis using tags [of "[?fleet]"] split
      by (simp add: mset_finalize tagged_partition SourceFleet_def)
  next
    case 3
    obtain groups where g: "autoCohorts visit un (with_defaults opts) = Some (nameAutoCohorts groups un)"
      "length groups = length un" using autoCohorts_returns [OF visit] by metis
    have "Assign visit profiles opts = Some (finalize (taggedCohorts tg @ nameAutoCohorts groups un))"
      using 3 g(1) by (simp add: Assign_def splitByTag_def Let_def tg_def un_def)
    moreover have "list_all (\<lambda>c. ch_Source c = ''tagged'' \<longrightarrow>
      ch_Name c \<noteq> '''' \<and> ch_Clusters c = sort (map cp_Name (filter (\<lambda>p. cp_Tag p = ch_Name c) profiles)))
      (finalize (taggedCohorts tg @ nameAutoCohorts groups un))"
      by (rule tags) (auto dest: nameAuto_source simp: SourceAuto_def)
    ultimately show ?thesis using split auto_partition [OF g(2)]
      by (simp add: mset_finalize tagged_partition)
  qed
qed

text \<open>C35. Assigning cohorts always returns, in whatever order Go ranges over its maps, and the cohorts
  partition the fleet: every cluster appears in exactly one of them. Each cohort from a tag holds
  exactly the clusters with that tag.\<close>

theorem Assign_partition:
  assumes visit: "\<And>m. mset (visit m) = mset m"
  shows "\<exists>cohorts. Assign visit profiles opts = Some cohorts \<and>
    mset (concat (map ch_Clusters cohorts)) = mset (map cp_Name profiles) \<and>
    list_all (\<lambda>c. ch_Source c = ''tagged'' \<longrightarrow>
      ch_Name c \<noteq> '''' \<and> ch_Clusters c = sort (map cp_Name (filter (\<lambda>p. cp_Tag p = ch_Name c) profiles))) cohorts"
  using visit by (rule Assign_returns)

text \<open>No small cohort is left among those found by clustering: when the clusters without a tag
  fall into more than one cohort, each of these holds at least the minimum number of clusters, for
  feature vectors whose distances are finite.\<close>

lemma Assign_min_size:
  assumes visit: "\<And>m. mset (visit m) = mset m"
    and fin: "finite_distances (filter (\<lambda>p. cp_Tag p = '''') profiles)"
    and ret: "Assign visit profiles opts = Some cohorts"
    and many: "length (filter (\<lambda>c. ch_Source c = ''auto'') cohorts) > 1"
  shows "list_all (\<lambda>c. ch_Source c = ''auto'' \<longrightarrow>
    (if op_MinCohortSize opts = 0 then 3 else op_MinCohortSize opts) \<le> int (length (ch_Clusters c))) cohorts"
proof -
  define tg where "tg = filter (\<lambda>p. cp_Tag p \<noteq> '''') profiles"
  define un where "un = filter (\<lambda>p. cp_Tag p = '''') profiles"
  let ?opts = "with_defaults opts"
  obtain groups where g: "autoCohorts visit un ?opts = Some (nameAutoCohorts groups un)" "length groups = length un"
    "card (set groups) > 1 \<Longrightarrow> \<forall>g \<in> set groups. op_MinCohortSize ?opts \<le> int (count_list groups g)"
    using autoCohorts_returns [OF visit, of un ?opts] fin [folded un_def] by metis
  have "\<exists>c \<in> set cohorts. ch_Source c = SourceAuto" using many by (cases "filter (\<lambda>c. ch_Source c = ''auto'') cohorts")
      (auto simp: SourceAuto_def filter_eq_Cons_iff)
  then have co: "cohorts = finalize (taggedCohorts tg @ nameAutoCohorts groups un)"
    using ret g(1) tagged_cohort
    by (auto simp: Assign_def splitByTag_def Let_def tg_def un_def set_finalize SourceAuto_def SourceTagged_def SourceFleet_def
        split: if_splits)
  have "mset (map ch_Source cohorts) = mset (map ch_Source (taggedCohorts tg @ nameAutoCohorts groups un))"
    by (simp add: co finalize_def comp_def image_mset.compositionality)
  then have "size (filter_mset (\<lambda>s. s = ''auto'') (mset (map ch_Source cohorts))) =
      size (filter_mset (\<lambda>s. s = ''auto'') (mset (map ch_Source (taggedCohorts tg @ nameAutoCohorts groups un))))" by simp
  moreover have "filter (\<lambda>s. s = ''auto'') (map ch_Source (taggedCohorts tg)) = []"
    using tagged_cohort by (auto simp: filter_empty_conv SourceTagged_def)
  ultimately have "length (filter (\<lambda>c. ch_Source c = ''auto'') cohorts) \<le> length (nameAutoCohorts groups un)"
    by (simp add: filter_map comp_def flip: mset_filter mset_map)
  then have "card (set groups) > 1" using many auto_count [OF g(2)] by simp
  then have "op_MinCohortSize ?opts \<le> int (length (ch_Clusters c))" if "c \<in> set (nameAutoCohorts groups un)" for c
    using auto_members [OF g(2) that] g(3) by auto
  then show ?thesis using tagged_cohort
    by (auto simp: list_all_iff co set_finalize with_defaults_def defaultMinCohortSize_def SourceTagged_def)
qed

section \<open>Concrete fleets\<close>

lemma isqrt_bounds:
  "0 \<le> n \<Longrightarrow> 0 \<le> isqrt n \<and> isqrt n * isqrt n \<le> n \<and> n < (isqrt n + 1) * (isqrt n + 1)"
proof (induction n rule: isqrt.induct)
  case (1 n)
  show ?case
  proof (cases "n = 0")
    case True
    then show ?thesis by (simp add: isqrt.simps)
  next
    case False
    define r where "r = isqrt (n div 4)"
    have IH: "0 \<le> r" "r * r \<le> n div 4" "n div 4 < (r + 1) * (r + 1)" using 1 False by (simp_all add: r_def)
    have "n div 4 + 1 \<le> (r + 1) * (r + 1)" using IH(3) by simp
    then have hi: "n < 4 * ((r + 1) * (r + 1))" by linarith
    have lo: "4 * (r * r) \<le> n" using IH(2) by linarith
    have e: "isqrt n = (if (2 * r + 1) * (2 * r + 1) \<le> n then 2 * r + 1 else 2 * r)"
      using 1 False by (subst isqrt.simps) (simp add: r_def Let_def)
    show ?thesis using IH(1) hi lo unfolding e by (auto simp: algebra_simps)
  qed
qed

lemma isqrt_square:
  assumes "0 \<le> m"
  shows "isqrt (m * m) = m"
proof -
  have b: "0 \<le> isqrt (m * m)" "isqrt (m * m) * isqrt (m * m) \<le> m * m" "m * m < (isqrt (m * m) + 1) * (isqrt (m * m) + 1)"
    using isqrt_bounds [of "m * m"] by simp_all
  have "isqrt (m * m) \<le> m" using b(2) assms by (metis abs_le_square_iff abs_of_nonneg b(1) power2_eq_square)
  moreover have "m < isqrt (m * m) + 1"
    using b(3) b(1) assms by (smt (verit) mult_mono)
  ultimately show ?thesis by simp
qed

text \<open>The square root is exact on squares.\<close>

lemma math_Sqrt_square:
  assumes "0 \<le> k" "k < 2 ^ 26"
  shows "math_Sqrt (of_int (k * k)) = of_int k"
proof (cases "k = 0")
  case True
  then show ?thesis by (simp add: math_Sqrt_def)
next
  case False
  then have kk: "0 < k * k" using assms(1) by simp
  have "k * k < 2 ^ 26 * 2 ^ 26" using assms False by (intro mult_strict_mono) simp_all
  then have "ilog2 (of_int (k * k)) < 52"
    using kk by (intro ilog2_less) (simp_all add: powi_two_nonneg_int flip: of_int_mult)
  then have e: "0 \<le> 60 - ilog2 (of_int (k * k)) div 2" by presburger
  define t where "t = nat (60 - ilog2 (of_int (k * k)) div 2)"
  have t: "60 - ilog2 (of_int (k * k)) div 2 = int t" using e by (simp add: t_def)
  have four: "(4::rat) ^ t = 2 ^ t * 2 ^ t" by (simp flip: power_mult_distrib)
  have y: "(of_int (k * k) :: rat) * 4 powi int t = of_int ((k * 2 ^ t) * (k * 2 ^ t))"
    by (simp add: four)
  have s: "isqrt (k * 2 ^ t * (k * 2 ^ t)) = k * 2 ^ t"
    using assms(1) by (intro isqrt_square) simp
  have pos: "\<not> (of_int (k * k) :: rat) \<le> 0" using kk by (simp del: of_int_mult)
  have "math_Sqrt (of_int (k * k)) = f64 (of_int (k * 2 ^ t) / 2 powi int t)"
    using pos y 
    by (simp only: math_Sqrt_def t Let_def s floor_of_int if_False simp_thms if_True of_int_mult [of "k * 2 ^ t" "k * 2 ^ t", symmetric] add_0_right)
  also have "\<dots> = f64 (of_int k)" by simp
  also have "\<dots> = of_int k" using assms by (intro f64_of_int) simp
  finally show ?thesis .
qed

lemma euclidean_line:
  assumes "\<bar>a - b\<bar> < 2 ^ 26"
  shows "euclidean [of_int a] [of_int b] = of_int \<bar>a - b\<bar>"
proof -
  let ?d = "a - b"
  have "?d * ?d = \<bar>?d\<bar> * \<bar>?d\<bar>" by simp
  also have "\<dots> < 2 ^ 26 * 2 ^ 26" using assms by (intro mult_strict_mono') simp_all
  finally have dd: "\<bar>?d * ?d\<bar> < 2 ^ 53" by simp
  have "fsub (of_int a) (of_int b) = of_int ?d"
    using f64_of_int [of ?d] assms by (simp add: fsub_def)
  moreover have "fmul (of_int ?d) (of_int ?d) = of_int (?d * ?d)" "fadd 0 (of_int (?d * ?d)) = of_int (?d * ?d)"
    using f64_of_int [OF dd] by (simp_all add: fmul_def fadd_def)
  ultimately have "euclidean [of_int a] [of_int b] = math_Sqrt (of_int (?d * ?d))"
    by (simp add: euclidean_def Let_def del: of_int_mult)
  also have "?d * ?d = \<bar>?d\<bar> * \<bar>?d\<bar>" by simp
  finally show ?thesis using math_Sqrt_square [of "\<bar>?d\<bar>"] assms by simp
qed

definition at_point :: "string \<Rightarrow> int \<Rightarrow> ClusterProfile" where
  "at_point name x = \<lparr>cp_Name = name, cp_Features = [of_int x], cp_Tag = ''''\<rparr>"

lemma at_point_simps [simp]:
  "cp_Features (at_point name x) = [of_int x]" "cp_Name (at_point name x) = name" "cp_Tag (at_point name x) = ''''"
  by (simp_all add: at_point_def)

text \<open>The cohorts depend on the order in which Go ranges over the group sizes: of three groups at 0,
  10 and 19 on a line the first two are equally small, and folding one or the other first leaves
  two groups or one.\<close>

definition line_profiles :: "ClusterProfile list" where
  "line_profiles = map (at_point ''c'') [0, 10, 19, 19]"

lemma on_line:
  "euclidean [0] [10] = 10" "euclidean [0] [19] = 19" "euclidean [10] [0] = 10" "euclidean [10] [19] = 9"
  using euclidean_line [of 0 10] euclidean_line [of 0 19] euclidean_line [of 10 0] euclidean_line [of 10 19]
  by simp_all

lemma closest_on_line:
  "closestGroup line_profiles [0, 3, 2, 2] 0 = Some 3"
  "closestGroup line_profiles [0, 3, 2, 2] 3 = Some 2"
  "closestGroup line_profiles [0, 2, 2, 2] 0 = Some 2"
  by (simp_all add: closestGroup_def product_concat_map upt_rec closer_group_def line_profiles_def
      on_line Let_def math_MaxFloat64_code)

lemma mergeSmall_depends_on_order:
  "mergeSmallCohorts id [0, 3, 2, 2] line_profiles 2 = Some [0, 0, 1, 1]"
  "mergeSmallCohorts rev [0, 3, 2, 2] line_profiles 2 = Some [0, 0, 0, 0]"
proof -
  have start: "map_incr 2 (map_incr 2 (map_incr 3 (map_incr (0 :: nat) []))) = [(0, 1), (3, 1), (2, 2)]"
    by (simp add: map_incr_def lookup_default_def)
  have "fold_small id line_profiles 2 [0, 3, 2, 2] [(0, 1), (3, 1), (2, 2)] =
      fold_small id line_profiles 2 [3, 3, 2, 2] [(3, 2), (2, 2)]"
    by (subst fold_small.simps) (simp add: smallest_group_def smaller_count_def closest_on_line lookup_default_def)
  also have "\<dots> = Some [3, 3, 2, 2]"
    by (subst fold_small.simps) (simp add: smallest_group_def smaller_count_def)
  finally show "mergeSmallCohorts id [0, 3, 2, 2] line_profiles 2 = Some [0, 0, 1, 1]"
    by (simp add: mergeSmallCohorts_def start renumber_def renumber_step_def group_of_def)
  have "fold_small rev line_profiles 2 [0, 3, 2, 2] [(0, 1), (3, 1), (2, 2)] =
      fold_small rev line_profiles 2 [0, 2, 2, 2] [(0, 1), (2, 3)]"
    by (subst fold_small.simps) (simp add: smallest_group_def smaller_count_def closest_on_line lookup_default_def)
  also have "\<dots> = fold_small rev line_profiles 2 [2, 2, 2, 2] [(2, 4)]"
    by (subst fold_small.simps) (simp add: smallest_group_def smaller_count_def closest_on_line lookup_default_def)
  also have "\<dots> = Some [2, 2, 2, 2]"
    by (subst fold_small.simps) (simp add: smallest_group_def smaller_count_def)
  finally show "mergeSmallCohorts rev [0, 3, 2, 2] line_profiles 2 = Some [0, 0, 0, 0]"
    by (simp add: mergeSmallCohorts_def start renumber_def renumber_step_def group_of_def)
qed

text \<open>Four clusters with the same features still fall into three groups.\<close>

definition same_profiles :: "ClusterProfile list" where
  "same_profiles = map (\<lambda>n. at_point n 0) [''a'', ''b'', ''c'', ''d'']"

lemma agglomerate_same: "agglomerate same_profiles 8 = Some [0, 0, 1, 2]"
  by code_simp

definition small_options :: Options where
  "small_options = \<lparr>op_MinClusters = 3, op_MinCohortSize = 1, op_MaxCohorts = 0\<rparr>"

lemma same_cohorts:
  "map_option (map (\<lambda>c. (ch_Source c, ch_Clusters c))) (Assign id same_profiles small_options) =
     Some [(''auto'', [''a'', ''b'']), (''auto'', [''c'']), (''auto'', [''d''])]"
  by code_simp

theorem Assign_partition_witness:
  "\<exists>cohorts. Assign rev line_profiles small_options = Some cohorts \<and>
     mset (concat (map ch_Clusters cohorts)) = replicate_mset 4 ''c''"
  using Assign_partition [of rev line_profiles small_options]
  by (auto simp: line_profiles_def numeral_eq_Suc)

lemma Assign_min_size_instance:
  "\<exists>cohorts. Assign id same_profiles small_options = Some cohorts \<and>
     list_all (\<lambda>c. 1 \<le> int (length (ch_Clusters c))) cohorts"
proof -
  obtain cohorts where c: "Assign id same_profiles small_options = Some cohorts"
    and m: "map (\<lambda>c. (ch_Source c, ch_Clusters c)) cohorts = [(''auto'', [''a'', ''b'']), (''auto'', [''c'']), (''auto'', [''d''])]"
    using same_cohorts by auto
  then obtain c1 c2 c3 where cs: "cohorts = [c1, c2, c3]" "ch_Source c1 = ''auto''" "ch_Source c2 = ''auto''" "ch_Source c3 = ''auto''"
    by auto
  have fin: "finite_distances (filter (\<lambda>p. cp_Tag p = '''') same_profiles)"
    using euclidean_line [of 0 0] by (simp add: finite_distances_def same_profiles_def math_MaxFloat64_code)
  have "list_all (\<lambda>c. ch_Source c = ''auto'' \<longrightarrow>
      (if op_MinCohortSize small_options = 0 then 3 else op_MinCohortSize small_options) \<le> int (length (ch_Clusters c))) cohorts"
    by (rule Assign_min_size [OF _ fin c]) (simp_all add: cs)
  then show ?thesis using c cs by (simp add: small_options_def)
qed

end
