(* ===== verification/Cohort_Norms.thy ===== *)
theory Cohort_Norms
  imports Majority Cohort_Assign Rules
begin

text \<open>
  Cohorts within a report: the feature vectors of \<open>internal/cohort/profile.go\<close>, the cohorts and their
  own outliers (\<open>internal/report/cohorts.go\<close>), the norms of tagged cohorts that explain fleet outliers
  (\<open>internal/report/explain.go\<close>) and the detection of wrong tags (\<open>internal/report/miscohort.go\<close>).
  The feature matrix is a list of columns; Go stores it by rows.
\<close>

section \<open>Feature vectors\<close>

definition minorVersionExtractor :: "json \<Rightarrow> float64 option" where
  "minorVersionExtractor v =
     (case util_Float64 v of
        Some n \<Rightarrow> Some n
      | None \<Rightarrow> (case v of
          JStr s \<Rightarrow> (let digits = trim_right (\<lambda>c. c = CHR ''+'') s
                    in if digits = '''' \<or> \<not> list_all is_digit digits \<or> digits_value digits \<ge> 2 ^ 64 then None
                       else Some (of_int64 (digits_value digits)))
        | _ \<Rightarrow> None))"

record featureSpec =
  fe_name :: string
  fe_scanner :: string
  fe_field :: string
  fe_extract :: "json \<Rightarrow> float64 option"

definition feature :: "string \<Rightarrow> string \<Rightarrow> string \<Rightarrow> (json \<Rightarrow> float64 option) \<Rightarrow> featureSpec" where
  "feature name scannerName field extract =
     \<lparr>fe_name = name, fe_scanner = scannerName, fe_field = field, fe_extract = extract\<rparr>"

definition featureSpecs :: "featureSpec list" where
  "featureSpecs =
     [feature ''node_count'' ''resources'' ''node_count'' util_Float64,
      feature ''namespace_count'' ''namespaces'' ''count'' util_Float64,
      feature ''service_count'' ''services'' ''count'' util_Float64,
      feature ''ingress_count'' ''ingresses'' ''count'' util_Float64,
      feature ''cluster_role_count'' ''rbac'' ''cluster_role_count'' util_Float64,
      feature ''crd_count'' ''crds'' ''count'' util_Float64,
      feature ''avg_cpu_percent'' ''metrics'' ''avg_cpu_percent'' util_Float64,
      feature ''avg_memory_percent'' ''metrics'' ''avg_memory_percent'' util_Float64,
      feature ''enforced_count'' ''security'' ''enforced_count'' util_Float64,
      feature ''network_policy_count'' ''network-policies'' ''count'' util_Float64,
      feature ''quota_count'' ''resource-quotas'' ''quota_count'' util_Float64,
      feature ''minor_version'' ''version'' ''minor'' minorVersionExtractor]"

definition extractField :: "json \<Rightarrow> string \<Rightarrow> (json \<Rightarrow> float64 option) \<Rightarrow> float64 option" where
  "extractField data field extract =
     (case genericMap data of None \<Rightarrow> None | Some m \<Rightarrow> Option.bind (map_of m field) extract)"

definition feature_column :: "string list \<Rightarrow> (string, SectionReport) gomap \<Rightarrow> featureSpec \<Rightarrow> float64 option list" where
  "feature_column clusters sections f =
     map (\<lambda>c. Option.bind (map_of sections (fe_scanner f))
               (\<lambda>sec. Option.bind (map_of (sec_PerCluster sec) c) (\<lambda>data. extractField data (fe_field f) (fe_extract f))))
       clusters"

definition impute_column :: "float64 option list \<Rightarrow> float64 list" where
  "impute_column col =
     (let obs = List.map_filter id col; fill = (if obs = [] then 0 else Median obs)
      in map (\<lambda>v. case v of Some x \<Rightarrow> x | None \<Rightarrow> fill) col)"

definition normalize_column :: "float64 list \<Rightarrow> float64 list" where
  "normalize_column col =
     (let minV = Min (set col); span = fsub (Max (set col)) minV
      in map (\<lambda>x. if span = 0 then 0 else fdiv (fsub x minV) span) col)"

definition Profiles :: "string list \<Rightarrow> (string, SectionReport) gomap \<Rightarrow> (string, string) gomap \<Rightarrow> ClusterProfile list" where
  "Profiles clusters sections tags =
     (let cols = map (\<lambda>f. normalize_column (impute_column (feature_column clusters sections f))) featureSpecs
      in map (\<lambda>(i, name). \<lparr>cp_Name = name, cp_Features = map (\<lambda>col. col ! i) cols, cp_Tag = lookup_default '''' tags name\<rparr>)
           (List.enumerate 0 clusters))"

section \<open>Cohorts of a report\<close>

definition default_options :: Options where
  "default_options = \<lparr>op_MinClusters = 0, op_MinCohortSize = 0, op_MaxCohorts = 0\<rparr>"

definition cohort_outliers :: "Report \<Rightarrow> float64 \<Rightarrow> Cohort \<Rightarrow> OutlierResult list \<times> Distribution list" where
  "cohort_outliers r threshold g =
     (if length (ch_Clusters g) \<ge> minMADSample then detectOutliers r (ch_Clusters g) threshold (ch_Name g)
      else if length (ch_Clusters g) \<ge> minMajoritySample then detectMajorityOutliers r (ch_Clusters g) threshold (ch_Name g)
      else ([], []))"

definition cohort_summary :: "Report \<Rightarrow> float64 \<Rightarrow> Cohort \<Rightarrow> CohortSummary" where
  "cohort_summary r threshold g =
     \<lparr>co_Name = ch_Name g, co_Source = ch_Source g, co_Clusters = ch_Clusters g,
      co_Outliers = fst (cohort_outliers r threshold g)\<rparr>"

text \<open>\<open>visit\<close> is the order in which Go ranges over a map of the assignment.\<close>

definition buildCohorts ::
  "visit \<Rightarrow> Report \<Rightarrow> (string, string) gomap \<Rightarrow> float64 \<Rightarrow> (CohortSummary list \<times> Distribution list) option" where
  "buildCohorts visit r tags threshold =
     (if r_Clusters r = [] then Some ([], [])
      else map_option
        (\<lambda>groups. (map (cohort_summary r threshold) groups, concat (map (\<lambda>g. snd (cohort_outliers r threshold g)) groups)))
        (Assign visit (Profiles (r_Clusters r) (r_Sections r) tags) default_options))"

section \<open>Explained outliers\<close>

definition pairAgrees :: "OutlierResult \<Rightarrow> OutlierResult \<Rightarrow> bool" where
  "pairAgrees a b =
     (if o_Kind a = NormKindNumeric then
        (if o_Exact a \<or> o_Exact b then o_Exact a \<and> o_Exact b \<and> o_Value a = o_Value b
         else (o_Z a < 0) = (o_Z b < 0) \<and> o_Z a \<noteq> 0 \<and> o_Z b \<noteq> 0)
      else if o_Kind a = NormKindSet then o_Missing a = o_Missing b
      else o_Value a = o_Value b)"

definition withinNorm :: "Distribution \<Rightarrow> ClusterValue \<Rightarrow> bool" where
  "withinNorm d v =
     (if d_Kind d = NormKindNumeric then
        (case cv_Number v of
           None \<Rightarrow> False
         | Some x \<Rightarrow> if d_MAD d = 0 then x = d_Median d else \<bar>fsub x (d_Median d)\<bar> \<le> d_Band d)
      else if d_Kind d = NormKindSet then \<not> cv_Outlier v \<and> cv_Missing v = []
      else d_Mode d \<noteq> '''' \<and> cv_Text v = d_Mode d)"

text \<open>Maps built in a loop hold the last value of a key. A key is a scope, a scanner, a field and a
  cluster.\<close>

definition tagged_clusters :: "CohortSummary list \<Rightarrow> string \<Rightarrow> string option" where
  "tagged_clusters cohorts =
     map_of (rev (concat (map (\<lambda>c. map (\<lambda>cl. (cl, co_Name c)) (co_Clusters c))
       (filter (\<lambda>c. co_Source c = SourceTagged) cohorts))))"

definition cohort_values ::
  "(Distribution \<Rightarrow> ClusterValue \<Rightarrow> 'a) \<Rightarrow> Distribution list \<Rightarrow> string \<times> string \<times> string \<times> string \<Rightarrow> 'a option" where
  "cohort_values f dists =
     map_of (rev (concat (map (\<lambda>d. map (\<lambda>v. ((d_Scope d, d_Scanner d, d_Field d, cv_Cluster v), f d v)) (d_Values d)) dists)))"

definition cohort_partner :: "string list \<Rightarrow> CohortSummary list \<Rightarrow> string \<Rightarrow> (string \<times> string) option" where
  "cohort_partner normed cohorts =
     map_of (rev (concat (map (\<lambda>c. case co_Clusters c of
          [a, b] \<Rightarrow> [(a, (b, co_Name c)), (b, (a, co_Name c))]
        | _ \<Rightarrow> [])
       (filter (\<lambda>c. co_Source c = SourceTagged \<and> co_Name c \<notin> set normed) cohorts))))"

definition single_notes :: "string list \<Rightarrow> CohortSummary list \<Rightarrow> string list" where
  "single_notes normed cohorts =
     map (\<lambda>c. ''Cohort '' @ co_Name c @ '' has one cluster, so it holds no outlier.'')
       (filter (\<lambda>c. co_Source c = SourceTagged \<and> co_Name c \<notin> set normed \<and> length (co_Clusters c) = 1) cohorts)"

definition held_pair :: "OutlierResult list \<Rightarrow> (string \<Rightarrow> (string \<times> string) option) \<Rightarrow> OutlierResult \<Rightarrow> string option" where
  "held_pair outliers partner x =
     (case partner (o_Cluster x) of
        None \<Rightarrow> None
      | Some (other, coh) \<Rightarrow>
          if o_Scope x \<noteq> NormScopeFleet then None
          else case find (\<lambda>y. o_Scope y = NormScopeFleet \<and> o_Scanner y = o_Scanner x \<and> o_Field y = o_Field x \<and> o_Cluster y = other)
                      (rev outliers) of
                 None \<Rightarrow> None
               | Some y \<Rightarrow> if pairAgrees x y then Some coh else None)"

definition held_by_norm :: "CohortSummary list \<Rightarrow> Distribution list \<Rightarrow> OutlierResult \<Rightarrow> string option" where
  "held_by_norm cohorts dists x =
     (case tagged_clusters cohorts (o_Cluster x) of
        None \<Rightarrow> None
      | Some coh \<Rightarrow>
          if cohort_values withinNorm dists (coh, o_Scanner x, o_Field x, o_Cluster x) = Some True then Some coh else None)"

definition explained_keys ::
  "(OutlierResult \<Rightarrow> string option) \<Rightarrow> OutlierResult list \<Rightarrow> ((string \<times> string \<times> string) \<times> string) list" where
  "explained_keys explain outliers =
     List.map_filter (\<lambda>x. map_option (Pair (o_Scanner x, o_Field x, o_Cluster x)) (explain x)) outliers"

definition cohort_norm_z ::
  "CohortSummary list \<Rightarrow> Distribution list \<Rightarrow> Distribution \<Rightarrow> ClusterValue \<Rightarrow> float64" where
  "cohort_norm_z cohorts dists d v =
     (case tagged_clusters cohorts (cv_Cluster v) of
        None \<Rightarrow> valueMass d v
      | Some coh \<Rightarrow> (case cohort_values valueMass dists (coh, d_Scanner d, d_Field d, cv_Cluster v) of
          Some z \<Rightarrow> z | None \<Rightarrow> valueMass d v))"

definition explain_distribution ::
  "(string \<times> string \<times> string \<Rightarrow> string option) \<Rightarrow> (Distribution \<Rightarrow> ClusterValue \<Rightarrow> float64) \<Rightarrow> Distribution \<Rightarrow> Distribution" where
  "explain_distribution explained normZ d =
     (if d_Scope d \<noteq> NormScopeFleet then d
      else let values' = map (\<lambda>v. case explained (d_Scanner d, d_Field d, cv_Cluster v) of
                            Some coh \<Rightarrow> v\<lparr>cv_Explained := coh\<rparr> | None \<Rightarrow> v) (d_Values d)
           in d\<lparr>d_Values := values', d_Mass := foldl (\<lambda>mass v. fadd mass (normZ d v)) 0 values'\<rparr>)"

definition applyCohortNorms :: "Report \<Rightarrow> Distribution list \<Rightarrow> Report" where
  "applyCohortNorms r cohortDists =
     (let by_norm = held_by_norm (r_Cohorts r) cohortDists;
          by_pair = held_pair (r_Outliers r) (cohort_partner (map d_Scope cohortDists) (r_Cohorts r));
          explained = map_of (rev (explained_keys by_norm (r_Outliers r) @ explained_keys by_pair (r_Outliers r)));
          normZ = cohort_norm_z (r_Cohorts r) cohortDists;
          dists = map (explain_distribution explained normZ) (r_Distributions r)
      in r\<lparr>r_Outliers := map (\<lambda>x. case by_pair x of
               Some coh \<Rightarrow> x\<lparr>o_ExplainedBy := coh\<rparr>
             | None \<Rightarrow> (case by_norm x of Some coh \<Rightarrow> x\<lparr>o_ExplainedBy := coh\<rparr> | None \<Rightarrow> x)) (r_Outliers r),
           r_Distributions := dists, r_DeviationMass := deviationMass dists normZ,
           r_Notes := r_Notes r @ single_notes (map d_Scope cohortDists) (r_Cohorts r)\<rparr>)"

section \<open>Wrong tags\<close>

definition minMisCohortFleet :: nat where "minMisCohortFleet = 8"
definition minTagPopulation :: int where "minTagPopulation = 3"
definition DefaultTagKey :: string where "DefaultTagKey = ''cohort''"

record MisCohortFinding =
  mc_Cluster :: string
  mc_TaggedAs :: string
  mc_ProfileMatches :: string

definition argmax_step :: "string \<times> int \<Rightarrow> string \<times> int \<Rightarrow> string \<times> int" where
  "argmax_step best kv =
     (if snd kv > snd best \<or> snd kv = snd best \<and> fst kv < fst best then kv else best)"

definition argmax :: "(string, int) gomap \<Rightarrow> string" where
  "argmax counts = fst (foldl argmax_step ('''', -1) counts)"

definition tag_population :: "(string, string) gomap \<Rightarrow> (string, int) gomap" where
  "tag_population tags = foldl (\<lambda>m (_, t). if t \<noteq> '''' then map_incr t m else m) [] tags"

definition home_counts :: "(string, string) gomap \<Rightarrow> (string, string) gomap \<Rightarrow> string \<Rightarrow> (string, int) gomap" where
  "home_counts clusterAuto tags tag =
     foldl (\<lambda>m (cluster, ctag). if ctag \<noteq> tag then m else map_incr (lookup_default '''' clusterAuto cluster) m) [] tags"

definition dominant_cohorts :: "(string, string) gomap \<Rightarrow> (string, string) gomap \<Rightarrow> (string, string) gomap" where
  "dominant_cohorts clusterAuto tags =
     map (\<lambda>(tag, _). (tag, argmax (home_counts clusterAuto tags tag)))
       (filter (\<lambda>(_, pop). \<not> pop < minTagPopulation) (tag_population tags))"

definition mis_cohort :: "(string, string) gomap \<Rightarrow> (string, string) gomap \<Rightarrow> string \<times> string \<Rightarrow> MisCohortFinding option" where
  "mis_cohort clusterAuto dominant ct =
     (let (cluster, tag) = ct; mine = lookup_default '''' clusterAuto cluster;
          candidates = map fst (filter (\<lambda>(other, home). other \<noteq> tag \<and> home = mine) dominant)
      in if tag = '''' then None
         else case map_of dominant tag of
                None \<Rightarrow> None
              | Some home \<Rightarrow>
                  if mine = '''' \<or> mine = home then None
                  else Some \<lparr>mc_Cluster = cluster, mc_TaggedAs = tag,
                             mc_ProfileMatches = (if candidates = [] then '''' else hd (sort candidates))\<rparr>)"

definition auto_of :: "Cohort list \<Rightarrow> (string, string) gomap" where
  "auto_of cohorts =
     fold (\<lambda>c m. fold (\<lambda>cl. AList.update cl (ch_Name c)) (ch_Clusters c) m) cohorts []"

definition detectMisCohort :: "visit \<Rightarrow> Report \<Rightarrow> (string, string) gomap \<Rightarrow> MisCohortFinding list option" where
  "detectMisCohort visit r tags =
     (if length (r_Clusters r) < minMisCohortFleet \<or> length tags = 0 then Some []
      else map_option
        (\<lambda>auto. let clusterAuto = auto_of auto; dominant = dominant_cohorts clusterAuto tags
                in sort_key mc_Cluster (List.map_filter (mis_cohort clusterAuto dominant) tags))
        (Assign visit (Profiles (r_Clusters r) (r_Sections r) []) default_options))"

definition mis_cohort_finding :: "MisCohortFinding \<Rightarrow> Finding" where
  "mis_cohort_finding m =
     Finding0\<lparr>f_Rule := ''cohort/wrong-cohort'', f_Title := ''Cluster may be in the wrong cohort'',
       f_Description := ''Cluster '' @ quote (mc_Cluster m) @ '' is tagged '' @ DefaultTagKey @ ''='' @ quote (mc_TaggedAs m)
         @ (if mc_ProfileMatches m = ''''
            then '', but its scanner profile does not match the rest of the '' @ quote (mc_TaggedAs m) @ '' cohort.''
            else '', but its scanner profile clusters with the '' @ quote (mc_ProfileMatches m) @ '' population.''),
       f_Severity := SeverityWarning, f_Cluster := mc_Cluster m, f_Scanner := ''cohort'', f_Affected := [mc_Cluster m]\<rparr>"

definition misCohortFindings :: "visit \<Rightarrow> Report \<Rightarrow> (string, string) gomap \<Rightarrow> Finding list option" where
  "misCohortFindings visit r tags = map_option (map mis_cohort_finding) (detectMisCohort visit r tags)"

end
