(* ===== verification/Brief.thy ===== *)
theory Brief
  imports Fleet_Score Redundancy Section_Compare
begin

text \<open>
  The executive summary of \<open>internal/report/brief.go\<close>, written from a finished report. The strength of
  a norm is \<open>None\<close> where Go has an infinity: it ranks above every number.
\<close>

definition countFindingsBySeverity :: "Finding list \<Rightarrow> string \<Rightarrow> int" where
  "countFindingsBySeverity findings sev = int (length (filter (\<lambda>f. f_Severity f = sev) findings))"

definition normStrength :: "NormBasis \<Rightarrow> float64 option" where
  "normStrength n = (if nb_Exact n then None else Some \<bar>nb_Z n\<bar>)"

definition stronger :: "float64 option \<Rightarrow> float64 option \<Rightarrow> bool" where
  "stronger a b \<longleftrightarrow> (case b of None \<Rightarrow> False | Some y \<Rightarrow> (case a of None \<Rightarrow> True | Some x \<Rightarrow> x > y))"

text \<open>One round of the search for the strongest norm; the best so far is a finding with its norm.\<close>

definition best_norm_step :: "(Finding \<times> NormBasis) option \<Rightarrow> Finding \<Rightarrow> (Finding \<times> NormBasis) option" where
  "best_norm_step best f =
     (case f_Norm f of
        None \<Rightarrow> best
      | Some n \<Rightarrow> (case best of
          None \<Rightarrow> Some (f, n)
        | Some (g, m) \<Rightarrow>
            if SeverityRank (f_Severity f) > SeverityRank (f_Severity g)
               \<or> f_Severity f = f_Severity g \<and> stronger (normStrength n) (normStrength m)
            then Some (f, n) else best))"

definition norm_sentence :: "Finding \<times> NormBasis \<Rightarrow> string" where
  "norm_sentence best =
     (let (f, n) = best; field = nb_Field n;
          scope = (if nb_Scope n \<noteq> NormScopeFleet then ''the cohort '' @ quote (nb_Scope n) else ''a fleet'');
          lead = ''Largest deviation: '' @ f_Cluster f @ '' '' @ field
      in if nb_Kind n = NormKindNumeric \<and> nb_Exact n then
           lead @ '' is '' @ nb_Value n @ '', where ''
           @ exactNormPhrase (nb_ModeShare n) (nb_SampleSize n) (formatNum (nb_Median n)) (scopeNoun (nb_Scope n)) @ ''.''
         else if nb_Kind n = NormKindNumeric then
           lead @ '' is '' @ nb_Value n @ '' vs '' @ scope @ '' median of '' @ formatNum (nb_Median n) @ '' across ''
           @ Itoa (nb_SampleSize n) @ '' clusters.''
         else if nb_Kind n = NormKindString then
           lead @ '' is '' @ quote (nb_Value n) @ '' vs '' @ scope @ '' mode of '' @ quote (nb_Mode n) @ '' held by ''
           @ fmt_fixed0 (fmul (nb_ModeShare n) 100) @ ''% of '' @ Itoa (nb_SampleSize n) @ '' clusters.''
         else if nb_Kind n = NormKindSet then
           lead @ '' lacks '' @ Itoa (int (length (nb_Missing n))) @ '' of the '' @ Itoa (int (length (nb_Consensus n)))
           @ '' members '' @ scopeNoun (nb_Scope n) @ '' holds in common across '' @ Itoa (nb_SampleSize n) @ '' clusters.''
         else '''')"

definition normLine :: "Finding list \<Rightarrow> string" where
  "normLine findings =
     (case foldl best_norm_step None findings of None \<Rightarrow> '''' | Some best \<Rightarrow> norm_sentence best)"

definition topFixes :: "Finding list \<Rightarrow> nat \<Rightarrow> string list" where
  "topFixes findings n =
     take n (map (\<lambda>f. f_Title f @ (case f_Remediation f of
                Some rm \<Rightarrow> if rm_Command rm \<noteq> '''' then '' ('' @ rm_Command rm @ '')'' else ''''
              | None \<Rightarrow> ''''))
       (filter (\<lambda>f. f_Severity f \<noteq> SeverityInfo) findings))"

definition line_when :: "bool \<Rightarrow> string \<Rightarrow> string list" where
  "line_when c line = (if c then [line] else [])"

definition generateBrief :: "Report \<Rightarrow> Brief" where
  "generateBrief r =
     (let crit = countFindingsBySeverity (r_Findings r) SeverityCritical;
          warn = countFindingsBySeverity (r_Findings r) SeverityWarning;
          fs = r_FleetScore r; coverage = coverageSentence (s_Coverage fs) (int (length (r_Clusters r)));
          tail = '' from '' @ Itoa (s_SampleSize fs) @ '' clusters across '' @ Itoa (s_Dimensions fs) @ '' dimensions. ''
            @ Itoa crit @ '' critical and '' @ Itoa warn @ '' warning findings across ''
            @ Itoa (int (length (r_Incidents r))) @ '' incidents.'';
          norm_line = normLine (r_Findings r);
          cohortOutliers = length (filter (\<lambda>f. case f_Norm f of None \<Rightarrow> False | Some n \<Rightarrow> nb_Scope n \<noteq> NormScopeFleet)
                             (r_Findings r))
      in \<lparr>br_Headline =
            (if s_Graded fs then ''Fleet score '' @ Itoa (s_Score fs) @ '' ('' @ s_Grade fs @ '')'' @ tail
             else ''Not enough data: '' @ coverage),
          br_Lines =
            line_when (\<not> s_Graded fs) (''Observed-only score '' @ Itoa (s_Score fs) @ tail)
            @ line_when (norm_line \<noteq> '''') norm_line
            @ line_when (s_Graded fs \<and> s_ExcludedClusters fs > 0)
                (Itoa (s_ExcludedClusters fs) @ '' cluster(s) excluded from the score for insufficient data.'')
            @ (case r_Incidents r of [] \<Rightarrow> [] | i # _ \<Rightarrow> [''Worst incident: '' @ in_Title i @ ''.''])
            @ line_when (cohortOutliers > 0)
                (Itoa (int cohortOutliers) @ '' cluster metric(s) drifted from their cohort baseline.'')
            @ (if s_Graded fs \<and> coverage \<noteq> '''' then [coverage]
               else line_when (s_Graded fs \<and> length (r_Degraded r) > 0)
                 (''Coverage is partial: '' @ Itoa (int (length (r_Degraded r))) @ '' scanner run(s) degraded on ''
                  @ Itoa (int (length (DegradedByCluster r))) @ '' cluster(s).''))
            @ map (\<lambda>fix. ''Fix: '' @ fix) (topFixes (r_Findings r) 2)
            @ line_when (length (r_Findings r) = 0) ''No findings. The fleet is consistent.''\<rparr>)"

end
