(* ===== verification/Build.thy ===== *)
theory Build
  imports Checks_Workloads Checks_Cluster Cohort_Norms Brief
begin

text \<open>
  \<open>generateFindings\<close> of \<open>internal/report/findings.go\<close> and \<open>Build\<close> of \<open>internal/report/report.go\<close>: a
  report from the results of the scanners. The orders in which Go ranges over the maps of the pass,
  where its result can depend on one, and SHA-256 are parameters; the time stamp is a text.
\<close>

section \<open>All findings\<close>

record map_orders =
  mo_versions :: "(string, int) gomap \<Rightarrow> (string, int) gomap"
  mo_namespaces :: "(string, int) gomap \<Rightarrow> (string, int) gomap"
  mo_groups :: visit

definition pairwiseFleetLimit :: nat where "pairwiseFleetLimit = 20"

definition collectFindings :: "map_orders \<Rightarrow> Report \<Rightarrow> Finding list" where
  "collectFindings orders r =
     outlierFindings r
     @ (if length (r_Outliers r) = 0 \<or> length (r_Clusters r) \<le> pairwiseFleetLimit
        then versionFindings (mo_versions orders) r @ namespaceFindings (mo_namespaces orders) r @ rbacFindings r else [])
     @ cohortOutlierFindings r @ nodeHealthFindings r @ capacityFindings r @ securityFindings r
     @ workloadSecFindings r @ rbacAuditFindings r @ imageAuditFindings r @ networkFindings r @ quotaFindings r
     @ eventFindings r @ certFindings r @ vulnerabilityFindings r @ deprecatedAPIFindings r @ coverageFindings r
     @ admissionFindings r @ clusterInfoFindings r @ compositeBadDeployFindings r"

definition generateFindings :: "(string \<Rightarrow> string) \<Rightarrow> map_orders \<Rightarrow> Report \<Rightarrow> Finding list" where
  "generateFindings sha256 orders r =
     stampFingerprints sha256 (sortFindings (dropRedundant (collectFindings orders r) (scopeMembers r)))"

section \<open>Building a report\<close>

definition with_threshold :: "BuildOptions \<Rightarrow> float64" where
  "with_threshold opt = (if bo_OutlierThreshold opt = 0 then 7 / 2 else bo_OutlierThreshold opt)"

definition fleet_outliers :: "float64 \<Rightarrow> Report \<Rightarrow> Report" where
  "fleet_outliers threshold r =
     (let clusters = r_Clusters r; n = length clusters
      in if n \<ge> minMADSample then
           (case detectOutliers r clusters threshold NormScopeFleet of
              (outliers, dists) \<Rightarrow> r\<lparr>r_Outliers := outliers, r_Distributions := dists\<rparr>)
         else if n \<ge> minMajoritySample then
           (case detectMajorityOutliers r clusters threshold NormScopeFleet of
              (outliers, dists) \<Rightarrow> r\<lparr>r_Outliers := outliers, r_Distributions := dists\<rparr>)
         else r\<lparr>r_Notes := r_Notes r @
           [''Fleet-relative outlier detection needs at least '' @ Itoa (int minMajoritySample)
            @ '' clusters; this report has '' @ Itoa (int n) @ ''.'']\<rparr>)"

definition fleet_norms ::
  "visit \<Rightarrow> BuildOptions \<Rightarrow> Report \<Rightarrow> Report option" where
  "fleet_norms visit opt r =
     map_option (\<lambda>(cohorts, cohortDists).
         let r1 = applyCohortNorms (r\<lparr>r_Cohorts := cohorts\<rparr>) cohortDists
         in r1\<lparr>r_Distributions := sortDistributions (r_Distributions r1 @ cohortDists)\<rparr>)
       (buildCohorts visit r (bo_ClusterTags opt) (with_threshold opt))"

definition judge_report :: "(string \<Rightarrow> string) \<Rightarrow> map_orders \<Rightarrow> Finding list \<Rightarrow> Report \<Rightarrow> Report" where
  "judge_report sha256 orders mis r =
     (let findings = sortFindings (generateFindings sha256 orders r @ stampFingerprints sha256 mis);
          r1 = r\<lparr>r_Findings := findings, r_Incidents := fuseIncidents findings\<rparr>;
          r2 = Rescore (r1\<lparr>r_ClusterHealths := generateClusterHealth r1 findings\<rparr>)
      in r2\<lparr>r_Brief := generateBrief r2\<rparr>)"

definition scanned_report :: "BuildOptions \<Rightarrow> string list \<Rightarrow> results \<Rightarrow> Report" where
  "scanned_report opt clusters results =
     (let r = buildSections clusters results (Report0\<lparr>r_Timestamp := bo_Timestamp opt, r_Clusters := clusters\<rparr>);
          r1 = fleet_outliers (with_threshold opt)
                 (r\<lparr>r_Categories := buildCategories (Names results), r_Summary := buildSummary clusters (r_Sections r)\<rparr>)
      in r1\<lparr>r_Capacity := analyzeCapacity r1 (bo_Groups opt)\<rparr>)"

definition Build ::
  "(string \<Rightarrow> string) \<Rightarrow> map_orders \<Rightarrow> BuildOptions \<Rightarrow> string list \<Rightarrow> results \<Rightarrow> Report option" where
  "Build sha256 orders opt clusters results =
     Option.bind (fleet_norms (mo_groups orders) opt (scanned_report opt clusters results)) (\<lambda>r.
       map_option (\<lambda>mis. judge_report sha256 orders mis r) (misCohortFindings (mo_groups orders) r (bo_ClusterTags opt)))"

end
