(* ===== verification/Check_Laws.thy ===== *)
theory Check_Laws
  imports Build
begin

text \<open>
  What the checks promise: whom a finding is about, with which rule and severity, and that a run that
  did not observe its cluster raises none.
\<close>

section \<open>Sound findings\<close>

definition severity_ok :: "string \<Rightarrow> bool" where
  "severity_ok sev \<longleftrightarrow> sev \<in> {SeverityCritical, SeverityWarning, SeverityInfo}"

lemma severity_ok_simps [intro, simp]:
  "severity_ok SeverityCritical" "severity_ok SeverityWarning" "severity_ok SeverityInfo"
  by (simp_all add: severity_ok_def)

lemma severity_ok_if [intro]: "severity_ok a \<Longrightarrow> severity_ok b \<Longrightarrow> severity_ok (if c then a else b)"
  by simp

text \<open>The findings of a check on a cluster: of its scanner, on that cluster, with one of its rules, and
  only when the run saw the cluster.\<close>

definition check_finding :: "Report \<Rightarrow> string \<Rightarrow> string \<Rightarrow> string list \<Rightarrow> Finding \<Rightarrow> bool" where
  "check_finding r scannerName cluster rules f \<longleftrightarrow>
     f_Scanner f = scannerName \<and> f_Cluster f = cluster \<and> f_Rule f \<in> set rules \<and>
     has_prefix (f_Rule f) (scannerName @ ''/'') \<and> severity_ok (f_Severity f) \<and>
     f_Norm f = None \<and> f_Marks f = [] \<and> seen (snd (clusterView r scannerName cluster))"

named_theorems check_intro \<open>how the findings of a check are put together\<close>

lemma check_alert [check_intro]:
  "rule \<in> set rules \<Longrightarrow> has_prefix rule (s @ ''/'') \<Longrightarrow> severity_ok sev \<Longrightarrow> seen (snd (clusterView r s c)) \<Longrightarrow>
    check_finding r s c rules (alert s c rule sev title desc)"
  by (simp add: check_finding_def alert_def Finding0_def)

lemma check_affecting [check_intro]: "check_finding r s c rules f \<Longrightarrow> check_finding r s c rules (affecting xs f)"
  by (simp add: check_finding_def affecting_def)

lemma check_by_command [check_intro]: "check_finding r s c rules f \<Longrightarrow> check_finding r s c rules (by_command cmd f)"
  by (simp add: check_finding_def by_command_def)

lemma check_by_yaml [check_intro]: "check_finding r s c rules f \<Longrightarrow> check_finding r s c rules (by_yaml yaml f)"
  by (simp add: check_finding_def by_yaml_def)

lemma check_describe_nodes [check_intro]:
  "check_finding r s c rules f \<Longrightarrow> check_finding r s c rules (describe_nodes cluster affected f)"
  by (simp add: describe_nodes_def check_by_command check_affecting)

lemma check_report_when [check_intro]: "(b \<Longrightarrow> P f) \<Longrightarrow> list_all P (report_when b f)"
  by (simp add: report_when_def)

lemma check_append [check_intro]: "list_all P xs \<Longrightarrow> list_all P ys \<Longrightarrow> list_all P (xs @ ys)"
  by simp

lemma check_if [check_intro]: "(b \<Longrightarrow> list_all P xs) \<Longrightarrow> (\<not> b \<Longrightarrow> list_all P ys) \<Longrightarrow> list_all P (if b then xs else ys)"
  by simp

lemma check_Nil [check_intro]: "list_all P []"
  by simp

lemma seen_observed [simp]: "seen observed" "seen partial" "\<not> seen unobserved"
  by (simp_all add: seen_def)

lemma observeInt_view: "seen (snd (observeInt r s c f)) \<Longrightarrow> snd (observeInt r s c f) = snd (clusterView r s c)"
  by (auto simp: observeInt_def observe_def seen_def split: prod.splits option.splits if_splits)

lemma observeInt_seen: "seen (snd (observeInt r s c f)) \<Longrightarrow> seen (snd (clusterView r s c))"
  using observeInt_view by metis

lemma observeInt_observed: "snd (observeInt r s c f) = observed \<Longrightarrow> seen (snd (clusterView r s c))"
  by (rule observeInt_seen [where f = f]) simp

lemma weakest_seen: "seen (weakest obs) \<Longrightarrow> ob \<in> set obs \<Longrightarrow> seen ob"
  by (auto simp: weakest_eq seen_def split: if_splits)

lemma observed_seen: "obs = observed \<Longrightarrow> seen obs"
  by simp

section \<open>Check by check\<close>

lemma node_findings_ok:
  "list_all (check_finding r ''node-health'' c
      [''node-health/memory-pressure'', ''node-health/disk-pressure'', ''node-health/not-ready'']) (node_findings r c)"
  unfolding node_findings_def Let_def split_beta
  by (intro check_intro severity_ok_simps) (auto simp: has_prefix_def dest: observeInt_seen)

lemma quota_findings_ok:
  "list_all (check_finding r ''resource-quotas'' c [''resource-quotas/no-quota'']) (quota_findings r c)"
  unfolding quota_findings_def Let_def split_beta
  by (intro check_intro severity_ok_simps) (auto simp: has_prefix_def dest: observeInt_observed)

lemma event_findings_ok:
  "list_all (check_finding r ''events'' c [''events/warning-volume'']) (event_findings r c)"
  unfolding event_findings_def Let_def split_beta event_severity_def
  by (intro check_intro severity_ok_simps severity_ok_if) (auto simp: has_prefix_def dest: observeInt_seen)

lemma security_findings_ok:
  "list_all (check_finding r ''security'' c [''security/psa-unenforced'']) (security_findings r c)"
  unfolding security_findings_def Let_def split_beta
  by (intro check_intro severity_ok_simps severity_ok_if) (auto simp: has_prefix_def)

lemma network_findings_ok:
  "list_all (check_finding r ''network-policies'' c [''network-policies/no-policy'']) (network_findings r c)"
  unfolding network_findings_def Let_def split_beta
  by (intro check_intro severity_ok_simps) (auto simp: has_prefix_def dest: observeInt_observed)

lemma workload_findings_ok:
  "list_all (check_finding r ''workload-security'' c
      [''workload-security/privileged'', ''workload-security/host-namespaces'', ''workload-security/run-as-root'',
       ''workload-security/capability-add'']) (workload_findings r c)"
  unfolding workload_findings_def Let_def split_beta
  by (intro check_intro severity_ok_simps severity_ok_if) (auto simp: has_prefix_def dest: observeInt_seen)

lemma rbac_audit_findings_ok:
  "list_all (check_finding r ''rbac-audit'' c
      [''rbac-audit/cluster-admin-binding'', ''rbac-audit/wildcard-rule'', ''rbac-audit/default-sa-binding''])
     (rbac_audit_findings r c)"
  unfolding rbac_audit_findings_def Let_def split_beta
  by (intro check_intro severity_ok_simps) (auto simp: has_prefix_def dest: observeInt_seen)

lemma cert_findings_ok:
  "list_all (check_finding r ''certs'' c [''certs/expiring-7d'', ''certs/expiring-30d'']) (cert_findings r c)"
  unfolding cert_findings_def Let_def split_beta
  by (intro check_intro severity_ok_simps) (auto simp: has_prefix_def)

lemma webhook_findings_ok:
  "list_all (check_finding r ''admission'' c [''admission/no-healthy-endpoints'', ''admission/ca-expiring''])
     (webhook_findings r c)"
  unfolding webhook_findings_def Let_def split_beta
  by (intro check_intro severity_ok_simps) (auto simp: has_prefix_def)

lemma deprecated_findings_ok:
  "list_all (check_finding r ''deprecated-apis'' c [''deprecated-apis/in-use'']) (deprecated_findings r c)"
  unfolding deprecated_findings_def Let_def split_beta
  by (intro check_intro severity_ok_simps) (auto simp: has_prefix_def)

lemma info_findings_ok:
  "list_all (check_finding r ''cluster-info'' c [''cluster-info/node-platform-drift'']) (info_findings r c)"
  unfolding info_findings_def Let_def split_beta
  by (intro check_intro severity_ok_simps) (auto simp: has_prefix_def)

lemma image_findings_ok:
  "list_all (check_finding r ''image-audit'' c [''image-audit/latest-tag'', ''image-audit/no-digest'']) (image_findings r c)"
  unfolding image_findings_def Let_def split_beta
  by (intro check_intro severity_ok_simps severity_ok_if) (auto simp: has_prefix_def dest: observeInt_seen weakest_seen)

lemma coverage_findings_ok:
  "list_all (check_finding r ''workload-coverage'' c [''workload-coverage/missing-pdb'', ''workload-coverage/missing-hpa''])
     (coverage_findings r c)"
  unfolding coverage_findings_def Let_def split_beta
  by (intro check_intro severity_ok_simps) (auto simp: has_prefix_def seen_def)

lemma imageRisks_seen: "imageRisks r c \<noteq> [] \<Longrightarrow> seen (snd (clusterView r ''image-audit'' c))"
  by (auto simp: imageRisks_def split: prod.splits if_splits)

lemma bad_deploy_findings_ok:
  "list_all (check_finding r ''image-audit'' c [''image-audit/bad-deploy'']) (bad_deploy_findings r c)"
proof -
  have "seen (snd (clusterView r ''image-audit'' c))"
    if "length (sort (remdups (filter P (namespacesWithImageRisk r c)))) \<noteq> 0" for P
    using that imageRisks_seen by (cases "imageRisks r c = []") (auto simp: namespacesWithImageRisk_def)
  then show ?thesis
    unfolding bad_deploy_findings_def Let_def split_beta
    by (intro check_intro severity_ok_simps) (auto simp: has_prefix_def)
qed

lemma check_clusters_ok:
  "(\<And>c. list_all (P c) (check c)) \<Longrightarrow> list_all (\<lambda>f. \<exists>c \<in> set (r_Clusters r). P c f) (check_clusters r s check)"
  by (auto simp: check_clusters_def list_all_iff split: option.splits)


end
