(* ===== verification/Build_Laws.thy ===== *)
theory Build_Laws
  imports Check_Laws
begin

text \<open>
  What a built report promises: it always returns, its findings are well formed, every finding on a
  cluster rests on a run that observed the cluster, and its parts agree.
\<close>

section \<open>Well-formed findings\<close>

definition mark_ok :: "string list \<Rightarrow> ClusterMark \<Rightarrow> bool" where
  "mark_ok clusters m \<longleftrightarrow> m_Cluster m \<in> set clusters \<and> severity_ok (m_Severity m)"

definition finding_ok :: "string list \<Rightarrow> Finding \<Rightarrow> bool" where
  "finding_ok clusters f \<longleftrightarrow>
     severity_ok (f_Severity f) \<and> (f_Cluster f \<in> set clusters \<or> f_Cluster f = ''fleet'') \<and>
     has_prefix (f_Rule f) (f_Scanner f @ ''/'') \<and> list_all (mark_ok clusters) (f_Marks f)"

text \<open>The rules of findings on the fleet, on capacity, which node and event signals decide where no
  utilisation was observed, and on tags.\<close>

definition derived_rules :: "string list" where
  "derived_rules =
     [''version/skew'', ''namespaces/non-system-count-varies'', ''rbac/config-differs'',
      ''metrics/capacity-critical'', ''metrics/capacity-degraded'', ''cohort/wrong-cohort'']"

definition held_data :: "Report \<Rightarrow> string \<Rightarrow> string \<Rightarrow> bool" where
  "held_data r s c \<longleftrightarrow> (\<exists>sec. map_of (r_Sections r) s = Some sec \<and> map_of (sec_PerCluster sec) c \<noteq> None)"

definition grounded :: "Report \<Rightarrow> Finding \<Rightarrow> bool" where
  "grounded r f \<longleftrightarrow> f_Rule f \<in> set derived_rules \<or> f_Cluster f \<in> set (r_Clusters r) \<and> held_data r (f_Scanner f) (f_Cluster f)"

definition sound :: "Report \<Rightarrow> Finding \<Rightarrow> bool" where
  "sound r f \<longleftrightarrow> finding_ok (r_Clusters r) f \<and> grounded r f"

lemma seen_held: "seen (snd (clusterView r s c)) \<Longrightarrow> held_data r s c"
  by (auto simp: held_data_def clusterView_def split: option.splits if_splits)

lemma check_sound: "c \<in> set (r_Clusters r) \<Longrightarrow> check_finding r s c rules f \<Longrightarrow> sound r f"
  by (auto simp: sound_def finding_ok_def grounded_def check_finding_def seen_held)

lemma checks_sound:
  assumes "\<And>c. list_all (check_finding r s c rules) (check c)"
  shows "list_all (sound r) (check_clusters r t check)"
  using check_clusters_ok [of "\<lambda>c. check_finding r s c rules" check r t] assms check_sound
  by (auto simp: list_all_iff)

lemma domain_checks_sound:
  "list_all (sound r) (nodeHealthFindings r)" "list_all (sound r) (quotaFindings r)"
  "list_all (sound r) (eventFindings r)" "list_all (sound r) (securityFindings r)"
  "list_all (sound r) (networkFindings r)" "list_all (sound r) (workloadSecFindings r)"
  "list_all (sound r) (rbacAuditFindings r)" "list_all (sound r) (certFindings r)"
  "list_all (sound r) (admissionFindings r)" "list_all (sound r) (deprecatedAPIFindings r)"
  "list_all (sound r) (clusterInfoFindings r)" "list_all (sound r) (imageAuditFindings r)"
  "list_all (sound r) (coverageFindings r)"
  unfolding nodeHealthFindings_def quotaFindings_def eventFindings_def securityFindings_def networkFindings_def
    workloadSecFindings_def rbacAuditFindings_def certFindings_def admissionFindings_def deprecatedAPIFindings_def
    clusterInfoFindings_def imageAuditFindings_def coverageFindings_def
  by (rule checks_sound, rule node_findings_ok quota_findings_ok event_findings_ok security_findings_ok
      network_findings_ok workload_findings_ok rbac_audit_findings_ok cert_findings_ok webhook_findings_ok
      deprecated_findings_ok info_findings_ok image_findings_ok coverage_findings_ok)+

lemma bad_deploy_sound: "list_all (sound r) (compositeBadDeployFindings r)"
  using bad_deploy_findings_ok check_sound
  by (fastforce simp: compositeBadDeployFindings_def list_all_iff)

lemma flatten_key: "map_of (flattenSection cs sec) c \<noteq> None \<Longrightarrow> c \<in> set cs \<and> map_of (sec_PerCluster sec) c \<noteq> None"
proof -
  have "map_of (fold (\<lambda>c flat. case map_of (sec_PerCluster sec) c of None \<Rightarrow> flat
          | Some data \<Rightarrow> AList.update c (case genericMap data of Some m \<Rightarrow> m | None \<Rightarrow> []) flat) cs flat) c \<noteq> None \<Longrightarrow>
      map_of flat c \<noteq> None \<or> c \<in> set cs \<and> map_of (sec_PerCluster sec) c \<noteq> None" for flat
    by (induction cs arbitrary: flat) (force split: option.splits if_splits)+
  from this [of "[]"] show "map_of (flattenSection cs sec) c \<noteq> None \<Longrightarrow> ?thesis" by (simp add: flattenSection_def)
qed

lemma vulnerability_sound: "list_all (sound r) (vulnerabilityFindings r)"
proof (cases "map_of (r_Sections r) ''vulnerabilities''")
  case (Some sec)
  have "list_all (\<lambda>f. f_Scanner f = ''vulnerabilities'' \<and> f_Cluster f = c \<and> f_Rule f = ''vulnerabilities/critical-present'' \<and>
      f_Severity f = SeverityInfo \<and> f_Marks f = [] \<and> map_of flat c \<noteq> None) (vulnerability_findings flat c)" for flat c
    by (cases "map_of flat c") (simp_all add: vulnerability_findings_def Let_def report_when_def by_command_def affecting_def
        alert_def Finding0_def bool_at_def lookup_default_def del: append.simps)
  then show ?thesis using Some flatten_key [of "r_Clusters r" sec]
    by (fastforce simp: vulnerabilityFindings_def list_all_iff sound_def finding_ok_def grounded_def held_data_def has_prefix_def)
qed (simp add: vulnerabilityFindings_def)

lemma rbac_sound: "list_all (sound r) (rbacFindings r)"
  by (auto simp: rbacFindings_def report_when_def alert_def Finding0_def sound_def finding_ok_def grounded_def
      derived_rules_def has_prefix_def split: option.splits)

section \<open>Findings on the fleet\<close>

lemma versionSkewSeverity_ok: "severity_ok (versionSkewSeverity vs)"
  by (simp add: versionSkewSeverity_def Let_def)

lemma version_marks_ok: "list_all (mark_ok clusters) (snd (versionMarks order clusters versions))"
  by (auto simp: versionMarks_def version_mark_def list_all_iff mark_ok_def set_map_filter_iff Let_def
      versionSkewSeverity_ok split: option.splits if_splits)

lemma version_sound: "list_all (sound r) (versionFindings order r)"
  using version_marks_ok [of "r_Clusters r" order "cluster_versions r"]
  by (auto simp: versionFindings_def Let_def split_beta sound_def finding_ok_def grounded_def derived_rules_def
      by_command_def affecting_def alert_def Finding0_def has_prefix_def versionSkewSeverity_ok split: option.splits)

lemma namespace_sound: "list_all (sound r) (namespaceFindings order r)"
  by (auto simp: namespaceFindings_def Let_def report_when_def affecting_def alert_def Finding0_def sound_def
      finding_ok_def grounded_def derived_rules_def has_prefix_def split: option.splits)

section \<open>Findings from outliers\<close>

definition outlier_ok :: "Report \<Rightarrow> OutlierResult \<Rightarrow> bool" where
  "outlier_ok r x \<longleftrightarrow>
     severity_ok (o_Severity x) \<and> o_Cluster x \<in> set (r_Clusters r) \<and> held_data r (o_Scanner x) (o_Cluster x)"

lemma classifySeverity_ok [simp]: "severity_ok (classifySeverity s f)"
  by (simp add: classifySeverity_def)

lemma numericSeverity_ok [simp]: "severity_ok (fst (numericSeverity s f delta))"
  by (simp add: numericSeverity_def Let_def)

definition drawn :: "string list \<Rightarrow> flat \<Rightarrow> string \<Rightarrow> OutlierResult \<Rightarrow> bool" where
  "drawn cs flat s x \<longleftrightarrow>
     severity_ok (o_Severity x) \<and> o_Scanner x = s \<and> o_Cluster x \<in> set cs \<and> map_of flat (o_Cluster x) \<noteq> None"

lemma outlier_severities [simp]:
  "severity_ok (o_Severity (exact_outlier s f m sh n p))" "severity_ok (o_Severity (mad_outlier s f t m d n p))"
  "severity_ok (o_Severity (string_outlier s f md sh n q))" "severity_ok (o_Severity (set_outlier s f cons n w))"
  using numericSeverity_ok [of s f "fsub (snd p) m"]
  by (cases p; cases q; cases w; cases "numericSeverity s f (fsub (snd p) m)";
      simp add: exact_outlier_def mad_outlier_def string_outlier_def set_outlier_def Let_def)+

lemma flat_get_held: "flat_get flat c f = Some v \<Longrightarrow> map_of flat c \<noteq> None"
  by (auto simp: flat_get_def lookup_default_def split: option.splits)

lemma flat_value_held: "flat_value flat c f = Some v \<Longrightarrow> map_of flat c \<noteq> None"
  using flat_get_held by (fastforce simp: flat_value_def split: option.splits)

lemma pop_held:
  "p \<in> set (number_pop cs flat f) \<Longrightarrow> fst p \<in> set cs \<and> map_of flat (fst p) \<noteq> None"
  "q \<in> set (text_pop cs flat f) \<Longrightarrow> fst q \<in> set cs \<and> map_of flat (fst q) \<noteq> None"
  "w \<in> set (set_pop cs flat f) \<Longrightarrow> fst w \<in> set cs \<and> map_of flat (fst w) \<noteq> None"
  using flat_get_held [of flat _ f] flat_value_held [of flat _ f]
  by (fastforce simp: number_pop_def text_pop_def set_pop_def set_map_filter_iff bind_eq_Some_conv)+

lemma numeric_drawn: "list_all (drawn cs flat s) (fst (detectNumericOutliers cs flat f s t))"
  using pop_held(1) [of _ cs flat f]
  by (auto simp: detectNumericOutliers_def exactOutliers_def Let_def drawn_def list_all_iff split: prod.splits)

lemma string_drawn: "list_all (drawn cs flat s) (fst (detectStringOutliers cs flat f s))"
  using pop_held(2) [of _ cs flat f] by (auto simp: detectStringOutliers_def Let_def drawn_def list_all_iff)

lemma set_drawn: "list_all (drawn cs flat s) (fst (detectSetOutliers cs flat f s))"
  using pop_held(3) [of _ cs flat f] by (auto simp: detectSetOutliers_def Let_def drawn_def list_all_iff)

lemma field_drawn: "list_all (drawn cs flat s) (fst (detect_field cs t (s, f, flat)))"
  using numeric_drawn [of cs flat s f t] string_drawn [of cs flat s f] set_drawn [of cs flat s f]
  by (simp add: detect_field_def split_beta)

lemma candidate_cluster: "majority_candidate pop t i = Some x \<Longrightarrow> o_Cluster x = fst (pop ! i)"
  using majority_candidate_Some [of pop t i x] by (simp add: Let_def)

lemma majority_numeric_drawn:
  assumes "majorityNumericOutlier cs flat f t = Some x"
  shows "o_Cluster x \<in> set cs \<and> map_of flat (o_Cluster x) \<noteq> None"
proof -
  let ?pop = "number_pop cs flat f"
  have "pick_one None (map (majority_candidate ?pop t) [0..<length ?pop]) = Some x"
    using assms by (simp add: majorityNumericOutlier_def Let_def split: if_splits)
  then obtain i where "i < length ?pop" "majority_candidate ?pop t i = Some x" unfolding pick_one_index by blast
  then have "\<exists>p \<in> set ?pop. o_Cluster x = fst p" using candidate_cluster nth_mem by metis
  then show ?thesis using pop_held(1) by metis
qed

lemma majority_string_drawn:
  assumes "majorityStringOutlier cs flat f = Some x"
  shows "o_Cluster x \<in> set cs \<and> map_of flat (o_Cluster x) \<noteq> None"
proof -
  have "\<exists>q \<in> set (text_pop cs flat f). o_Cluster x = fst q"
    using assms by (auto simp: majorityStringOutlier_def Let_def find_Some_iff split: if_splits) (metis fst_conv nth_mem)
  then show ?thesis using pop_held(2) by metis
qed

lemma limit_severity_simps [simp]:
  "o_Cluster (limit_severity s f scope x) = o_Cluster x" "o_Scanner (limit_severity s f scope x) = s"
  "severity_ok (o_Severity (limit_severity s f scope x))"
  using numericSeverity_ok [of s f "fsub (ParseFloat (o_Value x)) (o_Median x)"]
  by (cases "numericSeverity s f (fsub (ParseFloat (o_Value x)) (o_Median x))"; simp add: limit_severity_def Let_def)+

lemma majority_drawn: "fst (majority_field cs t scope (s, f, flat)) = Some x \<Longrightarrow> drawn cs flat s x"
  using majority_numeric_drawn [of cs flat f t] majority_string_drawn [of cs flat f]
  by (auto simp: majority_field_def drawn_def Let_def split: if_splits)

lemma walked_flat:
  assumes "(s, f, flat) \<in> set (walkFields r cs n)" "map_of flat c \<noteq> None" "distinct (map fst (r_Sections r))"
  shows "held_data r s c"
proof -
  obtain sec runs where sec: "(s, sec) \<in> set (r_Sections r)"
    and flat: "flat = boundDegraded s (prepareFlat s (flattenSection cs sec)) runs"
    using assms(1) by (auto simp: walkFields_def Let_def split: if_splits)
  have keys: "map fst (prepareFlat s g) = map fst g" for g
    by (simp add: prepareFlat_def Let_def o_def split_beta split: option.split)
  have prep: "map_of (prepareFlat s g) c \<noteq> None \<Longrightarrow> map_of g c \<noteq> None" for g
    using keys [of g] by (simp only: map_of_eq_None_iff set_map [symmetric]) simp
  have "map_of (sec_PerCluster sec) c \<noteq> None"
    using assms(2) prep flatten_key [of cs sec c] by (auto simp: flat map_of_boundDegraded)
  then show ?thesis using map_of_is_SomeI [OF assms(3) sec] by (auto simp: held_data_def)
qed

lemma walked_ok:
  assumes d: "distinct (map fst (r_Sections r))" and cs: "set cs \<subseteq> set (r_Clusters r)"
    and w: "(s, f, flat) \<in> set (walkFields r cs n)" and x: "drawn cs flat s x"
  shows "outlier_ok r x"
  using walked_flat [OF w _ d, of "o_Cluster x"] cs x by (auto simp: drawn_def outlier_ok_def)

lemma outlier_ok_scope [simp]: "outlier_ok r (x\<lparr>o_Scope := scope\<rparr>) = outlier_ok r x"
  by (simp add: outlier_ok_def)

lemma outlier_ok_explained [simp]: "outlier_ok r (x\<lparr>o_ExplainedBy := c\<rparr>) = outlier_ok r x"
  by (simp add: outlier_ok_def)

lemma sort_list_all [simp]: "list_all P (sortOutliers xs) = list_all P xs"
  by (simp add: sortOutliers_def list_all_iff)

lemma detected_ok:
  assumes d: "distinct (map fst (r_Sections r))" and cs: "set cs \<subseteq> set (r_Clusters r)"
  shows "list_all (outlier_ok r) (fst (detectOutliers r cs t scope))"
    "list_all (outlier_ok r) (fst (detectMajorityOutliers r cs t scope))"
proof -
  have "outlier_ok r x" if w: "(s, f, flat) \<in> set (walkFields r cs minMADSample)"
    and x: "x \<in> set (fst (detect_field cs t (s, f, flat)))" for x s f flat
    using field_drawn [of cs flat s t f] x walked_ok [OF d cs w] by (auto simp: list_all_iff)
  then show "list_all (outlier_ok r) (fst (detectOutliers r cs t scope))"
    by (force simp: detectOutliers_def Let_def list_all_iff sortOutliers_def)
  have "outlier_ok r x" if w: "(s, f, flat) \<in> set (walkFields r cs 0)"
    and x: "fst (majority_field cs t scope (s, f, flat)) = Some x" for x s f flat
    using majority_drawn [OF x] walked_ok [OF d cs w] by blast
  then show "list_all (outlier_ok r) (fst (detectMajorityOutliers r cs t scope))"
    by (force simp: detectMajorityOutliers_def Let_def list_all_iff sortOutliers_def set_map_filter_iff)
qed

lemma outlierRule_prefix [simp]: "has_prefix (outlierRule s f c) (s @ ''/'')"
  using has_prefix_append [of "s @ ''/''" "outlier_slug s f c"] by (simp add: outlierRule_slug)

lemma outlier_finding_sound: "outlier_ok r x \<Longrightarrow> sound r (outlier_finding r x)"
  by (auto simp: outlier_ok_def outlier_finding_def Finding0_def sound_def finding_ok_def grounded_def)

lemma cohort_finding_sound: "outlier_ok r x \<Longrightarrow> sound r (cohort_finding r c x)"
  by (auto simp: outlier_ok_def cohort_finding_def Finding0_def sound_def finding_ok_def grounded_def)

lemma outlier_findings_sound: "list_all (outlier_ok r) (r_Outliers r) \<Longrightarrow> list_all (sound r) (outlierFindings r)"
  by (auto simp: outlierFindings_def list_all_iff outlier_finding_sound)

lemma cohort_findings_sound:
  "list_all (\<lambda>c. list_all (outlier_ok r) (co_Outliers c)) (r_Cohorts r) \<Longrightarrow> list_all (sound r) (cohortOutlierFindings r)"
  by (auto simp: cohortOutlierFindings_def Let_def list_all_iff cohort_finding_sound)

section \<open>Capacity\<close>

definition capacity_ok :: "Report \<Rightarrow> CapacityAnalysis \<Rightarrow> bool" where
  "capacity_ok r ca \<longleftrightarrow>
     ca_Cluster ca \<in> set (r_Clusters r) \<and>
     (ca_Status ca = capacityBusy \<or> ca_Status ca = capacityHealthy \<or> ca_GroupDeviation ca \<noteq> '''' \<longrightarrow>
       seen (snd (clusterView r ''metrics'' (ca_Cluster ca))))"

lemma observe_view_seen: "seen (snd (observe r s c f)) \<Longrightarrow> seen (snd (clusterView r s c))"
  by (auto simp: observe_def seen_def split: prod.splits option.splits if_splits)

lemma signals_seen: "seen (sg_utilObs (cluster_signals r c)) \<Longrightarrow> seen (snd (clusterView r ''metrics'' c))"
  using weakest_seen observe_view_seen
  by (auto simp: cluster_signals_def Let_def split: prod.splits) (metis list.set_intros(1) snd_conv)

lemma signals_of:
  "map_of (extractAllSignals r) c = (if c \<in> set (r_Clusters r) then Some (cluster_signals r c) else None)"
proof -
  have "map_of (fold (\<lambda>cluster out. AList.update cluster (cluster_signals r cluster) out) cs out) c =
      (if c \<in> set cs then Some (cluster_signals r c) else map_of out c)" for cs out
    by (induction cs arbitrary: out) auto
  then show ?thesis by (simp add: extractAllSignals_def)
qed

lemmas capacity_statuses = capacityCritical_def capacityStrained_def capacityBusy_def capacityHealthy_def capacityUnknown_def

lemma status_seen:
  "assessStatus sig = capacityBusy \<or> assessStatus sig = capacityHealthy \<Longrightarrow> seen (sg_utilObs sig)"
  by (auto simp: assessStatus_def Let_def capacity_statuses split: if_splits)

lemma comparison_seen:
  "groupComparison c g peers signals \<noteq> '''' \<Longrightarrow> \<exists>sig. map_of signals c = Some sig \<and> seen (sg_utilObs sig)"
  by (auto simp: groupComparison_def Let_def split: option.splits if_splits)

lemma deviation_seen:
  assumes "group_deviation groups (extractAllSignals r) c \<noteq> ''''"
  shows "seen (snd (clusterView r ''metrics'' c))"
proof -
  obtain g peers where "groupComparison c g peers (extractAllSignals r) \<noteq> ''''"
    using assms by (auto simp: group_deviation_def split: option.splits)
  from comparison_seen [OF this] show ?thesis by (auto simp: signals_of intro: signals_seen split: if_splits)
qed

lemma capacity_of_ok:
  "c \<in> set (r_Clusters r) \<Longrightarrow> capacity_ok r (capacity_of groups (extractAllSignals r) c (cluster_signals r c))"
  using status_seen [of "cluster_signals r c"] signals_seen [of r c] deviation_seen [of groups r c]
  by (simp add: capacity_ok_def capacity_of_def Let_def)

lemma analysed_ok: "list_all (capacity_ok r) (analyzeCapacity r groups)"
  by (auto simp: analyzeCapacity_def Let_def list_all_iff set_map_filter_iff signals_of capacity_of_ok split: if_splits)

lemma capacity_finding_sound: "capacity_ok r ca \<Longrightarrow> list_all (sound r) (capacity_findings ca)"
  using seen_held [of r "''metrics''" "ca_Cluster ca"]
  by (auto simp: capacity_ok_def capacity_findings_def Let_def report_when_def by_command_def alert_def Finding0_def
      sound_def finding_ok_def grounded_def derived_rules_def has_prefix_def)

lemma capacity_sound: "list_all (capacity_ok r) (r_Capacity r) \<Longrightarrow> list_all (sound r) (capacityFindings r)"
  using capacity_finding_sound by (fastforce simp: capacityFindings_def list_all_iff)

section \<open>Every finding of the pass\<close>

definition norms_ok :: "Report \<Rightarrow> bool" where
  "norms_ok r \<longleftrightarrow>
     list_all (outlier_ok r) (r_Outliers r) \<and> list_all (\<lambda>c. list_all (outlier_ok r) (co_Outliers c)) (r_Cohorts r) \<and>
     list_all (capacity_ok r) (r_Capacity r)"

lemma collected_sound: "norms_ok r \<Longrightarrow> list_all (sound r) (collectFindings orders r)"
  by (simp add: collectFindings_def norms_ok_def outlier_findings_sound cohort_findings_sound capacity_sound
      version_sound namespace_sound rbac_sound domain_checks_sound vulnerability_sound bad_deploy_sound)

lemma sound_bare: "sound r (bare f) = sound r f"
  by (simp add: sound_def finding_ok_def grounded_def bare_def)

lemma sound_stamped: "sound r (f\<lparr>f_Fingerprint := p\<rparr>) = sound r f"
  by (simp add: sound_def finding_ok_def grounded_def)

lemma list_all_bare: "list_all (sound r) (map bare fs) = list_all (sound r) fs"
  by (simp add: list_all_iff sound_bare)

lemma kept_sound: "list_all (sound r) fs \<Longrightarrow> list_all (sound r) (dropRedundant fs members)"
  using kept_sets(1) [of fs members] list_all_bare by (metis list_all_iff subsetD)

lemma stamped_sound: "list_all (sound r) (stampFingerprints h fs) = list_all (sound r) fs"
  by (simp add: stampFingerprints_def list_all_iff sound_stamped)

lemma sorted_sound [simp]: "list_all P (sortFindings fs) = list_all P fs"
  by (simp add: sortFindings_def list_all_iff)

lemma generated_sound: "norms_ok r \<Longrightarrow> list_all (sound r) (generateFindings h orders r)"
  by (simp add: generateFindings_def stamped_sound kept_sound collected_sound)

section \<open>The scan stays\<close>

text \<open>The later passes of \<open>Build\<close> leave what was scanned alone.\<close>

definition scan_of :: "Report \<Rightarrow> string list \<times> (string, SectionReport) gomap \<times> ScannerStatus list \<times> (runKey, State) gomap option" where
  "scan_of r = (r_Clusters r, r_Sections r, r_Degraded r, r_runs r)"

lemma scan_parts:
  assumes "scan_of r' = scan_of r"
  shows "r_Clusters r' = r_Clusters r" "r_Sections r' = r_Sections r" "r_Degraded r' = r_Degraded r" "r_runs r' = r_runs r"
  using assms by (simp_all add: scan_of_def)

lemma scan_same:
  assumes "scan_of r' = scan_of r"
  shows "runState r' = runState r" "clusterView r' = clusterView r" "held_data r' = held_data r"
    "outlier_ok r' = outlier_ok r" "capacity_ok r' = capacity_ok r" "sound r' = sound r"
proof -
  note p = scan_parts [OF assms]
  have "indexRuns r' = indexRuns r" by (simp add: indexRuns_def p)
  then show run: "runState r' = runState r" by (intro ext) (simp add: runState_def p cong: option.case_cong)
  show view: "clusterView r' = clusterView r" by (intro ext) (simp only: clusterView_def run p)
  show held: "held_data r' = held_data r" by (intro ext) (simp add: held_data_def p)
  show "outlier_ok r' = outlier_ok r" by (intro ext) (simp add: outlier_ok_def held p)
  show "capacity_ok r' = capacity_ok r" by (intro ext) (simp add: capacity_ok_def view p)
  show "sound r' = sound r" by (intro ext) (simp add: sound_def grounded_def held p)
qed

text \<open>The report \<open>built\<close> by the section loop, before the first judgement.\<close>

definition sectioned :: "BuildOptions \<Rightarrow> string list \<Rightarrow> results \<Rightarrow> Report" where
  "sectioned opt clusters results =
     buildSections clusters results (Report0\<lparr>r_Timestamp := bo_Timestamp opt, r_Clusters := clusters\<rparr>)"

lemma fleet_outliers_scan: "scan_of (fleet_outliers t r) = scan_of r"
  by (simp add: fleet_outliers_def Let_def scan_of_def split: prod.splits)

lemma fleet_outliers_ok:
  assumes "distinct (map fst (r_Sections r))" "r_Outliers r = []"
  shows "list_all (outlier_ok r) (r_Outliers (fleet_outliers t r))"
  using detected_ok [OF assms(1), of "r_Clusters r" t NormScopeFleet] assms(2)
  by (auto simp: fleet_outliers_def Let_def split: prod.splits)

lemma fleet_outliers_rest:
  "r_Cohorts (fleet_outliers t r) = r_Cohorts r" "r_Capacity (fleet_outliers t r) = r_Capacity r"
  "r_Summary (fleet_outliers t r) = r_Summary r" "r_Categories (fleet_outliers t r) = r_Categories r"
  "r_Timestamp (fleet_outliers t r) = r_Timestamp r"
  by (simp_all add: fleet_outliers_def Let_def split: prod.splits)

lemma scanned_scan: "scan_of (scanned_report opt clusters results) = scan_of (sectioned opt clusters results)"
  using fleet_outliers_scan [unfolded scan_of_def]
  by (simp add: scanned_report_def Let_def scan_of_def sectioned_def)

lemma sectioned_rest:
  "r_Outliers (sectioned opt clusters results) = []" "r_Cohorts (sectioned opt clusters results) = []"
  "r_Clusters (sectioned opt clusters results) = clusters"
  by (simp_all add: sectioned_def buildSections_def Report0_def Let_def split_beta)

lemma scanned_norms: "norms_ok (scanned_report opt clusters results)"
proof -
  let ?s = "sectioned opt clusters results"
  let ?r = "?s\<lparr>r_Categories := buildCategories (Names results), r_Summary := buildSummary clusters (r_Sections ?s)\<rparr>"
  have sc: "scan_of ?r = scan_of ?s" by (simp add: scan_of_def)
  have d: "distinct (map fst (r_Sections ?r))" by (simp add: sectioned_def built_distinct)
  have o: "list_all (outlier_ok ?r) (r_Outliers (fleet_outliers (with_threshold opt) ?r))"
    by (rule fleet_outliers_ok [OF d]) (simp add: sectioned_rest)
  have R: "scanned_report opt clusters results = (let r1 = fleet_outliers (with_threshold opt) ?r
      in r1\<lparr>r_Capacity := analyzeCapacity r1 (bo_Groups opt)\<rparr>)"
    by (simp add: scanned_report_def sectioned_def Let_def)
  let ?f = "fleet_outliers (with_threshold opt) ?r"
  have f: "scan_of ?f = scan_of ?r" by (rule fleet_outliers_scan)
  have c: "capacity_ok (?f\<lparr>r_Capacity := X\<rparr>) = capacity_ok ?f" "outlier_ok (?f\<lparr>r_Capacity := X\<rparr>) = outlier_ok ?f" for X
    by (rule scan_same, simp add: scan_of_def)+
  show ?thesis
    unfolding R Let_def norms_ok_def
    using o analysed_ok [of ?f "bo_Groups opt"] scan_same(4) [OF f]
    by (simp add: c fleet_outliers_rest sectioned_rest)
qed

section \<open>The cohorts\<close>

lemma profile_names: "map cp_Name (Profiles clusters sections tags) = clusters"
  by (simp add: Profiles_def Let_def split_beta o_def)

lemma assigned_members:
  assumes "\<And>m. mset (visit m) = mset m" "Assign visit (Profiles clusters sections tags) opts = Some groups" "g \<in> set groups"
  shows "set (ch_Clusters g) \<subseteq> set clusters"
proof -
  have "mset (concat (map ch_Clusters groups)) = mset clusters"
    using Assign_returns [OF assms(1), where profiles = "Profiles clusters sections tags" and opts = opts] assms(2)
    by (auto simp: profile_names)
  then have "set (concat (map ch_Clusters groups)) = set clusters" by (metis set_mset_mset)
  then show ?thesis using assms(3) by auto
qed

lemma cohort_outliers_ok:
  assumes "distinct (map fst (r_Sections r))" "set (ch_Clusters g) \<subseteq> set (r_Clusters r)"
  shows "list_all (outlier_ok r) (fst (cohort_outliers r t g))"
  using detected_ok [OF assms, of t "ch_Name g"] by (simp add: cohort_outliers_def)

lemma cohorts_ok:
  assumes visit: "\<And>m. mset (visit m) = mset m" and d: "distinct (map fst (r_Sections r))"
    and b: "buildCohorts visit r tags t = Some (cohorts, dists)"
  shows "list_all (\<lambda>c. list_all (outlier_ok r) (co_Outliers c)) cohorts"
proof (cases "r_Clusters r = []")
  case True
  then show ?thesis using b by (simp add: buildCohorts_def)
next
  case False
  then obtain groups where g: "Assign visit (Profiles (r_Clusters r) (r_Sections r) tags) default_options = Some groups"
    "cohorts = map (cohort_summary r t) groups" using b by (auto simp: buildCohorts_def)
  have "list_all (outlier_ok r) (fst (cohort_outliers r t x))" if "x \<in> set groups" for x
    using assigned_members [OF visit g(1) that] by (rule cohort_outliers_ok [OF d])
  then show ?thesis by (simp add: g(2) list_all_iff cohort_summary_def)
qed

lemma cohorts_return:
  assumes "\<And>m. mset (visit m) = mset m"
  shows "\<exists>cohorts dists. buildCohorts visit r tags t = Some (cohorts, dists)"
  using Assign_returns [OF assms, where profiles = "Profiles (r_Clusters r) (r_Sections r) tags" and opts = default_options]
  by (auto simp: buildCohorts_def)

lemma applied_norms:
  "scan_of (applyCohortNorms r dists) = scan_of r" "r_Cohorts (applyCohortNorms r dists) = r_Cohorts r"
  "r_Capacity (applyCohortNorms r dists) = r_Capacity r"
  "list_all (outlier_ok r) (r_Outliers (applyCohortNorms r dists)) = list_all (outlier_ok r) (r_Outliers r)"
  by (auto simp: applyCohortNorms_def Let_def scan_of_def list_all_iff split: option.splits)

lemma fleet_norms_ok:
  assumes visit: "\<And>m. mset (visit m) = mset m" and d: "distinct (map fst (r_Sections r))" and n: "norms_ok r"
    and b: "fleet_norms visit opt r = Some R"
  shows "scan_of R = scan_of r \<and> norms_ok R"
proof -
  obtain cohorts dists where c: "buildCohorts visit r (bo_ClusterTags opt) (with_threshold opt) = Some (cohorts, dists)"
    using cohorts_return [OF visit, of r "bo_ClusterTags opt" "with_threshold opt"] by blast
  let ?r = "r\<lparr>r_Cohorts := cohorts\<rparr>" and ?a = "applyCohortNorms (r\<lparr>r_Cohorts := cohorts\<rparr>) dists"
  have R: "R = ?a\<lparr>r_Distributions := sortDistributions (r_Distributions ?a @ dists)\<rparr>"
    using b by (simp add: fleet_norms_def c Let_def)
  have s: "scan_of ?r = scan_of r" "scan_of R = scan_of ?r" "scan_of ?a = scan_of ?r"
    using applied_norms(1) [of ?r dists] by (simp_all add: R scan_of_def)
  have a: "outlier_ok ?a = outlier_ok r" "outlier_ok R = outlier_ok r" "capacity_ok R = capacity_ok r" "outlier_ok ?r = outlier_ok r"
    using scan_same(4) [OF s(3)] scan_same(4,5) [OF s(2)] scan_same(4,5) [OF s(1)] by simp_all
  have "norms_ok R"
    using n cohorts_ok [OF visit d c] applied_norms(4) [of ?r dists]
    unfolding norms_ok_def a by (simp add: a applied_norms R)
  then show ?thesis using s by simp
qed

lemma auto_of_members:
  assumes "map_of (auto_of groups) c \<noteq> None"
  shows "\<exists>g \<in> set groups. c \<in> set (ch_Clusters g)"
proof -
  have inner: "map_of (fold (\<lambda>cl. AList.update cl n) cs m) c \<noteq> None \<Longrightarrow> map_of m c \<noteq> None \<or> c \<in> set cs" for n cs and m :: "(string, string) gomap"
    by (induction cs arbitrary: m) (fastforce simp: update_conv' split: if_splits)+
  have "map_of (fold (\<lambda>g m. fold (\<lambda>cl. AList.update cl (ch_Name g)) (ch_Clusters g) m) groups m) c \<noteq> None \<Longrightarrow>
      map_of m c \<noteq> None \<or> (\<exists>g \<in> set groups. c \<in> set (ch_Clusters g))" for m
    by (induction groups arbitrary: m) (use inner in fastforce)+
  then show ?thesis using assms by (fastforce simp: auto_of_def)
qed

lemma mis_cohort_member: "mis_cohort auto dominant ct = Some m \<Longrightarrow> map_of auto (mc_Cluster m) \<noteq> None"
  by (auto simp: mis_cohort_def Let_def lookup_default_def split: prod.splits option.splits if_splits)

lemma mis_sound:
  assumes visit: "\<And>m. mset (visit m) = mset m" and m: "misCohortFindings visit r tags = Some mis"
  shows "list_all (sound r) mis"
proof -
  have "mc_Cluster x \<in> set (r_Clusters r)" if d: "detectMisCohort visit r tags = Some xs" and x: "x \<in> set xs" for xs x
  proof (cases "length (r_Clusters r) < minMisCohortFleet \<or> length tags = 0")
    case True
    then show ?thesis using d x by (simp add: detectMisCohort_def)
  next
    case False
    then obtain groups dominant where g: "Assign visit (Profiles (r_Clusters r) (r_Sections r) []) default_options = Some groups"
      "x \<in> set (List.map_filter (mis_cohort (auto_of groups) dominant) tags)"
      using d x by (auto simp: detectMisCohort_def Let_def)
    then obtain ct where "mis_cohort (auto_of groups) dominant ct = Some x" by (auto simp: set_map_filter_iff)
    then show ?thesis using auto_of_members mis_cohort_member assigned_members [OF visit g(1)] by blast
  qed
  then show ?thesis using m
    by (auto simp: misCohortFindings_def list_all_iff mis_cohort_finding_def Finding0_def sound_def finding_ok_def
        grounded_def derived_rules_def has_prefix_def)
qed

lemma mis_return:
  assumes "\<And>m. mset (visit m) = mset m"
  shows "\<exists>mis. misCohortFindings visit r tags = Some mis"
  using Assign_returns [OF assms, where profiles = "Profiles (r_Clusters r) (r_Sections r) []" and opts = default_options]
  by (auto simp: misCohortFindings_def detectMisCohort_def Let_def)

section \<open>The built report\<close>

text \<open>The steps of \<open>Build\<close>: the report before judgement and the findings on tags.\<close>

lemma built_parts:
  assumes "Build h orders opt clusters results = Some r"
  obtains R mis where "fleet_norms (mo_groups orders) opt (scanned_report opt clusters results) = Some R"
    "misCohortFindings (mo_groups orders) R (bo_ClusterTags opt) = Some mis" "r = judge_report h orders mis R"
  using assms by (auto simp: Build_def bind_eq_Some_conv)

lemma judged_parts:
  "scan_of (judge_report h orders mis R) = scan_of R"
  "r_Findings (judge_report h orders mis R) = sortFindings (generateFindings h orders R @ stampFingerprints h mis)"
  "r_Incidents (judge_report h orders mis R) = fuseIncidents (r_Findings (judge_report h orders mis R))"
  by (simp_all add: judge_report_def Rescore_def Let_def scan_of_def split_beta)

lemma built_scan:
  assumes visit: "\<And>m. mset (mo_groups orders m) = mset m" and b: "Build h orders opt clusters results = Some r"
  shows "scan_of r = scan_of (sectioned opt clusters results) \<and> list_all (sound r) (r_Findings r)"
proof -
  let ?s = "scanned_report opt clusters results" and ?b = "sectioned opt clusters results"
  obtain R mis where R: "fleet_norms (mo_groups orders) opt ?s = Some R"
    "misCohortFindings (mo_groups orders) R (bo_ClusterTags opt) = Some mis" "r = judge_report h orders mis R"
    using b by (rule built_parts)
  have sb: "scan_of ?s = scan_of ?b" by (rule scanned_scan)
  have d: "distinct (map fst (r_Sections ?s))" using scan_parts(2) [OF sb] by (simp add: sectioned_def built_distinct)
  have n: "scan_of R = scan_of ?s" "norms_ok R" using fleet_norms_ok [OF visit d scanned_norms R(1)] by simp_all
  have r: "scan_of r = scan_of R" by (simp add: R(3) judged_parts)
  have "list_all (sound R) (r_Findings r)"
    using generated_sound [OF n(2)] mis_sound [OF visit R(2)] by (simp add: R(3) judged_parts stamped_sound)
  then show ?thesis using scan_same(6) [OF r] r n(1) sb by simp
qed

lemma built_returns:
  assumes "\<And>m. mset (mo_groups orders m) = mset m"
  shows "\<exists>r. Build h orders opt clusters results = Some r"
proof -
  let ?s = "scanned_report opt clusters results"
  obtain R where "fleet_norms (mo_groups orders) opt ?s = Some R"
    using cohorts_return [OF assms, of ?s "bo_ClusterTags opt" "with_threshold opt"] by (auto simp: fleet_norms_def)
  then show ?thesis using mis_return [OF assms, of R "bo_ClusterTags opt"] by (auto simp: Build_def)
qed

lemma sectioned_held:
  assumes "held_data (sectioned opt clusters results) s c"
  shows "\<exists>res. result_of results c s = Some res \<and> \<not> Blind res"
  using assms by (auto simp: held_data_def sectioned_def built_payload_at split: option.splits if_splits)

lemma stamped_fingerprint:
  "list_all (\<lambda>f. f_Fingerprint f = FindingFingerprint h f) (stampFingerprints h fs)"
  by (simp add: stampFingerprints_def FindingFingerprint_def list_all_iff)

lemma clusters_health:
  assumes "scan_of r' = scan_of r"
  shows "generateClusterHealth r' = generateClusterHealth r" "fleetCoverage r' = fleetCoverage r"
    "scoreProvenance r' = scoreProvenance r"
proof -
  note p = scan_parts [OF assms] and s = scan_same(1,2) [OF assms]
  have e: "expectedScanners r' = expectedScanners r" by (simp add: expectedScanners_def p)
  have c: "clusterRunCounts r' = clusterRunCounts r" by (intro ext) (simp add: clusterRunCounts_def s)
  have "cluster_health r' fs c = cluster_health r fs c" for fs c
    by (simp add: cluster_health_def Let_def observe_def observeInt_def observeString_def DegradedByCluster_def e s p
        clusterRunCounts_def)
  then show "generateClusterHealth r' = generateClusterHealth r" by (intro ext) (simp add: generateClusterHealth_def p)
  have "cover_cluster r' names = cover_cluster r names" for names by (intro ext) (simp add: cover_cluster_def c)
  then show "fleetCoverage r' = fleetCoverage r" by (simp add: fleetCoverage_def e p)
  show "scoreProvenance r' = scoreProvenance r" by (simp add: scoreProvenance_def p)
qed

lemma score_same:
  assumes "scan_of r' = scan_of r" "r_Findings r' = r_Findings r" "r_ClusterHealths r' = r_ClusterHealths r"
  shows "scoreWithAttribution r' = scoreWithAttribution r"
proof -
  have "computeScoreAttribution r' = computeScoreAttribution r" by (simp add: computeScoreAttribution_def assms)
  then show ?thesis
    using clusters_health [OF assms(1)] scan_parts(1) [OF assms(1)] by (simp add: scoreWithAttribution_def Let_def)
qed

lemma rescored:
  assumes "scan_of r' = scan_of (Rescore r)" "r_Findings r' = r_Findings r" "r_ClusterHealths r' = r_ClusterHealths r"
    "r_FleetScore r' = r_FleetScore (Rescore r)" "r_ScoreAttribution r' = r_ScoreAttribution (Rescore r)"
    "r_Summary r' = r_Summary (Rescore r)"
  shows "Rescore r' = r'"
proof -
  let ?c = "\<lambda>r. r\<lparr>r_Summary := countFindings (r_Summary r) (r_Findings r)\<rparr>"
  have s: "scan_of (Rescore r) = scan_of r" by (simp add: Rescore_def Let_def scan_of_def split_beta)
  have "scoreWithAttribution (?c r') = scoreWithAttribution (?c r)"
    using assms(1-3) s by (intro score_same) (simp_all add: scan_of_def)
  moreover have "r_Summary r' = countFindings (r_Summary r) (r_Findings r)"
    "r_FleetScore r' = fst (scoreWithAttribution (?c r))" "r_ScoreAttribution r' = Some (snd (scoreWithAttribution (?c r)))"
    using assms(4-6) by (simp_all add: Rescore_def Let_def split_beta)
  ultimately show ?thesis
    using assms(2) by (cases r') (simp add: Rescore_def Let_def split_beta countFindings_def)
qed

lemma brief_same:
  assumes "scan_of r' = scan_of r" "r_Findings r' = r_Findings r" "r_FleetScore r' = r_FleetScore r" "r_Incidents r' = r_Incidents r"
  shows "generateBrief r' = generateBrief r"
  using scan_parts [OF assms(1)] assms(2-4) by (simp add: generateBrief_def Let_def DegradedByCluster_def)

lemma judged_settled:
  assumes r_def: "r = judge_report h orders mis R"
  shows "Rescore r = r" "r_ClusterHealths r = generateClusterHealth r (r_Findings r)"
    "r_Incidents r = fuseIncidents (r_Findings r)" "r_Brief r = generateBrief r"
proof -
  let ?fs = "sortFindings (generateFindings h orders R @ stampFingerprints h mis)"
  define r1 where "r1 = R\<lparr>r_Findings := ?fs, r_Incidents := fuseIncidents ?fs\<rparr>"
  define r2 where "r2 = r1\<lparr>r_ClusterHealths := generateClusterHealth r1 ?fs\<rparr>"
  have r: "r = (Rescore r2)\<lparr>r_Brief := generateBrief (Rescore r2)\<rparr>"
    by (simp add: r_def judge_report_def Let_def r1_def r2_def)
  have same: "scan_of r = scan_of (Rescore r2)" "scan_of (Rescore r2) = scan_of r2" "scan_of r2 = scan_of r1"
    by (simp_all add: r r2_def Rescore_def Let_def scan_of_def split_beta)
  have keep: "r_Findings (Rescore r2) = ?fs" "r_Incidents (Rescore r2) = fuseIncidents ?fs"
    "r_ClusterHealths (Rescore r2) = generateClusterHealth r1 ?fs"
    by (simp_all add: r2_def r1_def Rescore_def Let_def split_beta)
  show "Rescore r = r"
    using same(1) by (rule rescored) (simp_all add: r keep, simp_all add: r2_def r1_def)
  show "r_ClusterHealths r = generateClusterHealth r (r_Findings r)"
    using clusters_health(1) [OF same(1)] clusters_health(1) [OF same(2)] clusters_health(1) [OF same(3)]
    by (simp add: r keep)
  show "r_Incidents r = fuseIncidents (r_Findings r)" by (simp add: r keep)
  show "r_Brief r = generateBrief r" using brief_same [OF same(1)] by (simp add: r)
qed

text \<open>C5. Building a report always returns, for every fleet, every set of results and whatever order Go
  ranges over the maps of its clusterings, and the report lists the clusters it was asked for.\<close>

theorem Build_returns:
  assumes "\<And>m. mset (mo_groups orders m) = mset m"
  shows "\<exists>r. Build sha256 orders opt clusters results = Some r \<and> r_Clusters r = clusters"
  using built_returns [OF assms] built_scan [OF assms] scan_parts(1) sectioned_rest(3) by metis

text \<open>C4. Every finding of a built report is well formed: its severity is one of the three, its cluster is
  one of the report or the fleet, its rule is named after its scanner, its marks lie on clusters of the
  report with a severity of the three, and its fingerprint is that of its cluster, scanner and rule. The health summaries name
  the clusters in order.\<close>

theorem Build_well_formed:
  assumes "\<And>m. mset (mo_groups orders m) = mset m" "Build sha256 orders opt clusters results = Some r"
  shows "list_all (\<lambda>f. finding_ok clusters f \<and> f_Fingerprint f = FindingFingerprint sha256 f) (r_Findings r) \<and>
    map h_Name (r_ClusterHealths r) = clusters"
proof -
  obtain R mis where R: "r = judge_report sha256 orders mis R" using assms(2) by (rule built_parts)
  have c: "r_Clusters r = clusters" using built_scan [OF assms] scan_parts(1) sectioned_rest(3) by metis
  have "list_all (\<lambda>f. f_Fingerprint f = FindingFingerprint sha256 f) (r_Findings r)"
    using stamped_fingerprint by (simp add: R judged_parts generateFindings_def)
  moreover have "map h_Name (r_ClusterHealths r) = clusters"
    unfolding judged_settled(2) [OF R] generateClusterHealth_def
    by (simp add: o_def cluster_health_def Let_def c)
  ultimately show ?thesis using built_scan [OF assms] by (auto simp: list_all_iff sound_def c)
qed

text \<open>C1. A scan that failed reports nothing: every finding of a built report, other than those on the fleet
  as a whole, on capacity under observed pressure and on wrong tags, is on a cluster of the fleet that has
  a result of the finding's scanner, and that result did not error. What no scanner saw is never turned
  into an alarm about the cluster.\<close>

theorem Build_unobserved_silent:
  assumes "\<And>m. mset (mo_groups orders m) = mset m" "Build sha256 orders opt clusters results = Some r"
  shows "list_all (\<lambda>f. f_Rule f \<in> set derived_rules \<or>
      f_Cluster f \<in> set clusters \<and>
      (\<exists>res. result_of results (f_Cluster f) (f_Scanner f) = Some res \<and> \<not> Blind res)) (r_Findings r)"
proof -
  note b = built_scan [OF assms]
  then have p: "held_data r = held_data (sectioned opt clusters results)" "r_Clusters r = clusters"
    using scan_same(3) scan_parts(1) sectioned_rest(3) by metis+
  show ?thesis using b sectioned_held [of opt clusters results] by (auto simp: list_all_iff sound_def grounded_def p)
qed

text \<open>C3. A built report is settled: its findings are sorted from the worst down, and counting, scoring,
  fusing incidents, summarising health and writing the brief again from what it holds give what it
  already says. So a report that is stored and scored again later keeps its score.\<close>

theorem Build_settled:
  assumes "Build sha256 orders opt clusters results = Some r"
  shows "sorted (map (\<lambda>f. - SeverityRank (f_Severity f)) (r_Findings r)) \<and> Rescore r = r \<and>
    r_ClusterHealths r = generateClusterHealth r (r_Findings r) \<and>
    r_Incidents r = fuseIncidents (r_Findings r) \<and> r_Brief r = generateBrief r"
proof -
  obtain R mis where R: "r = judge_report sha256 orders mis R" using assms by (rule built_parts)
  then have "sorted (map (\<lambda>f. - SeverityRank (f_Severity f)) (r_Findings r))"
    by (simp add: judged_parts sortFindings_def)
  then show ?thesis using judged_settled [OF R] by simp
qed

section \<open>A fact that reaches the report\<close>

lemma reported:
  assumes "f \<in> set (collectFindings orders R)" "f_Norm f = None"
  shows "list_ex (\<lambda>g. f_Rule g = f_Rule f \<and> f_Cluster g = f_Cluster f \<and> f_Severity g = f_Severity f)
    (r_Findings (judge_report h orders mis R))"
proof -
  let ?kept = "dropRedundant (collectFindings orders R) (scopeMembers R)"
  have "bare f \<in> set (map bare ?kept)"
    using kept_sets(2) [of "collectFindings orders R" "scopeMembers R"] assms by (auto simp: is_absolute_def)
  then obtain g where g: "g \<in> set ?kept" "bare g = bare f" by auto
  then have "f_Rule g = f_Rule f \<and> f_Cluster g = f_Cluster f \<and> f_Severity g = f_Severity f" using bare_eq by blast
  moreover have "g\<lparr>f_Fingerprint := FindingFingerprint h g\<rparr> \<in> set (r_Findings (judge_report h orders mis R))"
    using g(1) by (simp add: judged_parts generateFindings_def stampFingerprints_def sortFindings_def)
  ultimately show ?thesis unfolding list_ex_iff by (rule_tac bexI) simp_all
qed

lemma sectioned_run:
  assumes "c \<in> set clusters" "result_of results c s = Some res" "\<not> Blind res" "res_Data res = JObj m"
    "map_of m f = Some (JNum v)"
  shows "observeInt (sectioned opt clusters results) s c f =
     (math_Trunc v, if res_State res = StateDegraded then partial else observed)"
    "map_of (r_Sections (sectioned opt clusters results)) s \<noteq> None"
proof -
  show "observeInt (sectioned opt clusters results) s c f =
     (math_Trunc v, if res_State res = StateDegraded then partial else observed)"
    using assms by (simp add: observeInt_def sectioned_def built_reading Blind_def)
  show "map_of (r_Sections (sectioned opt clusters results)) s \<noteq> None"
    using built_payload [of clusters results "Report0\<lparr>r_Timestamp := bo_Timestamp opt, r_Clusters := clusters\<rparr>" s]
      result_of_Names [OF assms(2)] by (auto simp: sectioned_def)
qed

lemma scan_observe:
  assumes "scan_of r' = scan_of r"
  shows "observeInt r' = observeInt r"
  by (intro ext) (simp add: observeInt_def observe_def scan_same(2) [OF assms])

lemma critical_status:
  assumes "c \<in> set (r_Clusters r)" "list_ex (\<lambda>f. f_Cluster f = c \<and> f_Severity f = SeverityCritical) fs"
  shows "list_ex (\<lambda>h. h_Name h = c \<and> h_Status h = ''critical'') (generateClusterHealth r fs)"
proof -
  have "bearing c fs SeverityCritical" using assms(2) by (auto simp: bearing_def list_ex_iff)
  then have "lookup_default 0 (clusterSeverityCounts c fs) SeverityCritical > 0" by (simp add: counts_pos_iff)
  then have "h_Name (cluster_health r fs c) = c \<and> h_Status (cluster_health r fs c) = ''critical''"
    by (simp add: cluster_health_def Let_def health_status_def)
  then show ?thesis using assms(1) by (auto simp: generateClusterHealth_def list_ex_iff)
qed

text \<open>Nodes that are not ready always reach the reader: when the node scanner of a cluster of the fleet
  returns a payload, whole or partial, that counts one or more, the built report holds a critical finding of
  that rule on the cluster, whatever the norms, the cohorts and the other findings say, and the health
  summary of the cluster is critical.\<close>

lemma Build_reports_unready:
  assumes visit: "\<And>m. mset (mo_groups orders m) = mset m" and b: "Build sha256 orders opt clusters results = Some r"
    and c: "c \<in> set clusters" and res: "result_of results c ''node-health'' = Some res" "\<not> Blind res"
    and m: "res_Data res = JObj m" "map_of m ''not_ready_nodes'' = Some (JNum v)" "1 \<le> v"
  shows "list_ex (\<lambda>f. f_Rule f = ''node-health/not-ready'' \<and> f_Cluster f = c \<and> f_Severity f = SeverityCritical) (r_Findings r) \<and>
    list_ex (\<lambda>h. h_Name h = c \<and> h_Status h = ''critical'') (r_ClusterHealths r)"
proof -
  obtain R mis where R: "r = judge_report sha256 orders mis R" using b by (rule built_parts)
  let ?b = "sectioned opt clusters results"
  have s: "scan_of R = scan_of ?b" using built_scan [OF visit b] judged_parts(1) [of sha256 orders mis R] R by simp
  have rc: "r_Clusters R = clusters" "r_Clusters r = clusters"
    using scan_parts(1) [OF s] built_scan [OF visit b] scan_parts(1) sectioned_rest(3) by metis+
  note run = sectioned_run [OF c res m(1,2), of opt]
  have "math_Trunc v > 0" using m(3) by (simp add: math_Trunc_def)
  moreover have "seen (snd (observeInt R ''node-health'' c ''not_ready_nodes''))"
    by (simp add: scan_observe [OF s] run)
  moreover have "fst (observeInt R ''node-health'' c ''not_ready_nodes'') = math_Trunc v"
    by (simp add: scan_observe [OF s] run)
  ultimately have "\<exists>f \<in> set (node_findings R c). f_Rule f = ''node-health/not-ready'' \<and> f_Cluster f = c \<and>
      f_Severity f = SeverityCritical \<and> f_Norm f = None"
    by (simp add: node_findings_def Let_def split_beta report_when_def describe_nodes_def by_command_def affecting_def
        alert_def Finding0_def del: append.simps)
  then obtain f where f: "f \<in> set (node_findings R c)" "f_Rule f = ''node-health/not-ready''" "f_Cluster f = c"
      "f_Severity f = SeverityCritical" "f_Norm f = None" by blast
  have "f \<in> set (nodeHealthFindings R)"
    using f(1) c run(2) scan_parts(2) [OF s] rc by (auto simp: nodeHealthFindings_def check_clusters_def)
  then have "f \<in> set (collectFindings orders R)" by (simp add: collectFindings_def)
  from reported [OF this f(5), of sha256 mis]
  have "list_ex (\<lambda>g. f_Rule g = ''node-health/not-ready'' \<and> f_Cluster g = c \<and> f_Severity g = SeverityCritical) (r_Findings r)"
    by (simp add: R f(2-4))
  moreover from this have "list_ex (\<lambda>g. f_Cluster g = c \<and> f_Severity g = SeverityCritical) (r_Findings r)"
    by (auto simp: list_ex_iff)
  ultimately show ?thesis
    using critical_status [of c r "r_Findings r"] c rc judged_settled(2) [OF R] by simp
qed

section \<open>A fleet of two\<close>

definition plain_options :: BuildOptions where
  "plain_options = \<lparr>bo_OutlierThreshold = 0, bo_Groups = [], bo_ClusterTags = [], bo_Timestamp = ''''\<rparr>"

definition map_orders0 :: map_orders where
  "map_orders0 = \<lparr>mo_versions = id, mo_namespaces = rev, mo_groups = rev\<rparr>"

definition node_result :: "State \<Rightarrow> int \<Rightarrow> Result" where
  "node_result st unready =
     \<lparr>res_Scanner = ''node-health'', res_State = st, res_Reason = '''',
      res_Data = JObj [(''node_count'', JNum 3), (''not_ready_nodes'', JNum (of_int unready))]\<rparr>"

definition two_results :: results where
  "two_results =
     [(''east'', [(''node-health'', node_result StateOK 2)]), (''west'', [(''node-health'', node_result StateErrored 1)])]"

lemma two_visits: "mset (mo_groups map_orders0 m) = mset m"
  by (simp add: map_orders0_def)

lemma two_built: "\<exists>r. Build h map_orders0 plain_options [''east'', ''west''] two_results = Some r"
  using two_visits by (rule built_returns)

theorem Build_returns_witness:
  "\<exists>r. Build id map_orders0 plain_options [''east'', ''west''] two_results = Some r \<and> r_Clusters r = [''east'', ''west'']"
  using two_visits by (rule Build_returns)

theorem Build_well_formed_witness:
  "\<exists>r. Build id map_orders0 plain_options [''east'', ''west''] two_results = Some r \<and>
    map h_Name (r_ClusterHealths r) = [''east'', ''west'']"
  using two_built [of id] Build_well_formed [OF two_visits] by blast

theorem Build_unobserved_silent_witness:
  "\<exists>r. Build id map_orders0 plain_options [''east'', ''west''] two_results = Some r \<and>
    list_all (\<lambda>f. f_Rule f \<noteq> ''node-health/not-ready'' \<or> f_Cluster f = ''east'') (r_Findings r)"
proof -
  obtain r where b: "Build id map_orders0 plain_options [''east'', ''west''] two_results = Some r"
    using two_built by blast
  have blind: "\<not> (\<exists>res. result_of two_results ''west'' s = Some res \<and> \<not> Blind res)" for s
    by (simp add: result_of_def two_results_def lookup_default_def node_result_def Blind_def)
  have "f_Cluster f = ''east''" if "f \<in> set (r_Findings r)" "f_Rule f = ''node-health/not-ready''" for f
    using Build_unobserved_silent [OF two_visits b] that blind [of "f_Scanner f"]
    by (auto simp: list_all_iff derived_rules_def)
  then show ?thesis using b by (auto simp: list_all_iff)
qed

theorem Build_settled_witness:
  "\<exists>r. Build id map_orders0 plain_options [''east'', ''west''] two_results = Some r \<and> Rescore r = r"
  using two_built [of id] Build_settled by blast

lemma Build_reports_unready_instance:
  "\<exists>r. Build id map_orders0 plain_options [''east'', ''west''] two_results = Some r \<and>
    list_ex (\<lambda>h. h_Name h = ''east'' \<and> h_Status h = ''critical'') (r_ClusterHealths r)"
proof -
  obtain r where b: "Build id map_orders0 plain_options [''east'', ''west''] two_results = Some r"
    using two_built by blast
  have "result_of two_results ''east'' ''node-health'' = Some (node_result StateOK 2)" "\<not> Blind (node_result StateOK 2)"
    by (simp_all add: result_of_def two_results_def lookup_default_def node_result_def Blind_def state_defs)
  then show ?thesis
    using Build_reports_unready [OF two_visits b, of "''east''" "node_result StateOK 2"] b
    by (simp add: node_result_def)
qed

end
