(* ===== verification/Scanner_Coverage.thy ===== *)
theory Scanner_Coverage
  imports Report_Types
begin

text \<open>
  The read accounting of \<open>internal/scanner/errors.go\<close>. A scanner makes several API reads, records
  each with \<open>Observe\<close> or \<open>Require\<close>, and \<open>Finish\<close> folds them into the state of its result. An error
  is the answers of the Kubernetes error predicates on it, which are not part of the repository,
  and its message. The lemmas relate the final state to the reads that were recorded.
\<close>

section \<open>Errors and their classification\<close>

record apiError =
  ae_IsNotFound :: bool
  ae_IsNoMatchError :: bool
  ae_IsForbidden :: bool
  ae_IsUnauthorized :: bool
  ae_Canceled :: bool
  ae_DeadlineExceeded :: bool
  ae_IsTimeout :: bool
  ae_IsServerTimeout :: bool
  ae_IsTooManyRequests :: bool
  ae_IsResourceExpired :: bool
  ae_IsInternalError :: bool
  ae_IsServiceUnavailable :: bool
  ae_IsUnexpectedServerError :: bool
  ae_Error :: string

definition ErrScan :: string where "ErrScan = ''scan failed''"

definition error_label :: "apiError \<Rightarrow> string" where
  "error_label err =
     (if ae_IsForbidden err then ''forbidden''
      else if ae_IsUnauthorized err then ''unauthorized''
      else if ae_Canceled err then ''canceled''
      else if ae_DeadlineExceeded err \<or> ae_IsTimeout err \<or> ae_IsServerTimeout err then ''timed out''
      else if ae_IsTooManyRequests err then ''throttled''
      else if ae_IsResourceExpired err then ''list expired''
      else if ae_IsInternalError err \<or> ae_IsServiceUnavailable err \<or> ae_IsUnexpectedServerError err
        then ''server error''
      else ''api error'')"

definition ClassifyError :: "apiError option \<Rightarrow> State \<times> string" where
  "ClassifyError e =
     (case e of None \<Rightarrow> (StateOK, '''')
      | Some err \<Rightarrow>
          if ae_IsNotFound err \<or> ae_IsNoMatchError err
          then (StateUnavailable, ''not served: '' @ ae_Error err)
          else (StateErrored, error_label err @ '': '' @ ae_Error err))"

section \<open>Coverage\<close>

record readFailure =
  rf_state :: State
  rf_reason :: string
  rf_err :: apiError
  rf_required :: bool

record Coverage =
  cov_ok :: int
  cov_failures :: "readFailure list"

definition Coverage0 :: Coverage where
  "Coverage0 = \<lparr>cov_ok = 0, cov_failures = []\<rparr>"

definition Observe :: "Coverage \<Rightarrow> string \<Rightarrow> apiError option \<Rightarrow> Coverage \<times> bool" where
  "Observe c what e =
     (case e of None \<Rightarrow> (c\<lparr>cov_ok := cov_ok c + 1\<rparr>, True)
      | Some err \<Rightarrow>
          let (state, reason) = ClassifyError e
          in (c\<lparr>cov_failures := cov_failures c @
                 [\<lparr>rf_state = state, rf_reason = what @ '': '' @ reason, rf_err = err,
                   rf_required = False\<rparr>]\<rparr>, False))"

definition Require :: "Coverage \<Rightarrow> string \<Rightarrow> apiError option \<Rightarrow> Coverage \<times> bool" where
  "Require c what e =
     (case Observe c what e of
        (c', True) \<Rightarrow> (c', True)
      | (c', False) \<Rightarrow>
          (c'\<lparr>cov_failures := (cov_failures c')[length (cov_failures c') - 1 :=
                (last (cov_failures c'))\<lparr>rf_required := True\<rparr>]\<rparr>, False))"

record coverageError =
  ce_msg :: string
  ce_errs :: "apiError list"

definition finish_flags :: "readFailure list \<Rightarrow> bool \<times> bool" where
  "finish_flags fs =
     foldl (\<lambda>(allUnavailable, blind) f.
       if rf_state f \<noteq> StateUnavailable then (False, blind \<or> rf_required f)
       else (allUnavailable, blind)) (True, False) fs"

definition Finish :: "Coverage \<Rightarrow> string \<Rightarrow> json \<Rightarrow> Result \<times> coverageError option" where
  "Finish c name data =
     (let reasons = map rf_reason (cov_failures c);
          errs = map rf_err (cov_failures c);
          (allUnavailable, blind) = finish_flags (cov_failures c);
          reason = strings_Join reasons ''; '';
          res = (\<lambda>st rs d. \<lparr>res_Scanner = name, res_State = st, res_Reason = rs, res_Data = d\<rparr>);
          failed = (res StateErrored reason JNull,
                    Some \<lparr>ce_msg = ErrScan @ '': '' @ name @ '': '' @ reason, ce_errs = errs\<rparr>)
      in if blind then failed
         else if cov_failures c = [] \<or> (allUnavailable \<and> cov_ok c > 0) then (res StateOK '''' data, None)
         else if allUnavailable then (res StateUnavailable reason data, None)
         else if cov_ok c > 0 then (res StateDegraded reason data, None)
         else failed)"

section \<open>A scanner's reads\<close>

text \<open>A scanner as the sequence of reads it records: what was read, whether the result needs it,
  and the error if it failed.\<close>

datatype read = Read string bool "apiError option"

fun read_step :: "Coverage \<Rightarrow> read \<Rightarrow> Coverage" where
  "read_step c (Read what required e) =
     (if required then fst (Require c what e) else fst (Observe c what e))"

definition run_reads :: "read list \<Rightarrow> Coverage" where
  "run_reads rs = foldl read_step Coverage0 rs"

fun read_failed :: "read \<Rightarrow> bool" where
  "read_failed (Read _ _ e) = (e \<noteq> None)"

fun read_required :: "read \<Rightarrow> bool" where
  "read_required (Read _ req _) = req"

text \<open>A failure that is not just an unserved type: a denied, timed out or otherwise failed read.\<close>

fun read_denied :: "read \<Rightarrow> bool" where
  "read_denied (Read _ _ None) = False"
| "read_denied (Read _ _ (Some err)) = (\<not> ae_IsNotFound err \<and> \<not> ae_IsNoMatchError err)"

section \<open>Lemmas\<close>

lemma finish_flags_acc:
  "foldl (\<lambda>(allUnavailable, blind) f.
       if rf_state f \<noteq> StateUnavailable then (False, blind \<or> rf_required f)
       else (allUnavailable, blind)) (a, b) fs =
   (a \<and> list_all (\<lambda>f. rf_state f = StateUnavailable) fs,
    b \<or> list_ex (\<lambda>f. rf_state f \<noteq> StateUnavailable \<and> rf_required f) fs)"
  by (induction fs arbitrary: a b) auto

lemma finish_flags_eq:
  "finish_flags fs =
     (list_all (\<lambda>f. rf_state f = StateUnavailable) fs,
      list_ex (\<lambda>f. rf_state f \<noteq> StateUnavailable \<and> rf_required f) fs)"
  by (simp add: finish_flags_def finish_flags_acc)

lemma ClassifyError_Unavailable:
  "fst (ClassifyError (Some err)) = StateUnavailable \<longleftrightarrow> ae_IsNotFound err \<or> ae_IsNoMatchError err"
  by (simp add: ClassifyError_def state_defs)

text \<open>What a failed read leaves in the failure list.\<close>

fun failure_of :: "read \<Rightarrow> readFailure option" where
  "failure_of (Read what req None) = None"
| "failure_of (Read what req (Some err)) =
     Some \<lparr>rf_state = fst (ClassifyError (Some err)),
           rf_reason = what @ '': '' @ snd (ClassifyError (Some err)), rf_err = err, rf_required = req\<rparr>"

lemma read_step_failures:
  "cov_failures (read_step c r) = cov_failures c @ (case failure_of r of None \<Rightarrow> [] | Some f \<Rightarrow> [f])"
  by (cases r rule: failure_of.cases)
     (auto simp: Require_def Observe_def Let_def split: prod.splits)

lemma read_step_ok: "cov_ok (read_step c r) = cov_ok c + (if read_failed r then 0 else 1)"
  by (cases r rule: failure_of.cases)
     (auto simp: Require_def Observe_def Let_def split: prod.splits)

lemma foldl_read_failures:
  "cov_failures (foldl read_step c rs) = cov_failures c @ List.map_filter failure_of rs"
  by (induction rs arbitrary: c)
     (auto simp: read_step_failures List.map_filter_simps split: option.splits)

lemma foldl_read_ok:
  "cov_ok (foldl read_step c rs) = cov_ok c + int (length (filter (\<lambda>r. \<not> read_failed r) rs))"
  by (induction rs arbitrary: c) (auto simp: read_step_ok)

lemma run_reads_failures: "cov_failures (run_reads rs) = List.map_filter failure_of rs"
  by (simp add: run_reads_def foldl_read_failures Coverage0_def)

lemma run_reads_ok: "cov_ok (run_reads rs) = int (length (filter (\<lambda>r. \<not> read_failed r) rs))"
  by (simp add: run_reads_def foldl_read_ok Coverage0_def)

lemma failure_of_props:
  "failure_of r = Some f \<Longrightarrow>
     read_failed r \<and> rf_required f = read_required r \<and>
     (rf_state f \<noteq> StateUnavailable) = read_denied r"
  by (cases r rule: failure_of.cases) (auto simp: ClassifyError_Unavailable)

lemma failure_of_None: "failure_of r = None \<longleftrightarrow> \<not> read_failed r"
  by (cases r rule: failure_of.cases) auto

lemma read_denied_failed: "read_denied r \<Longrightarrow> read_failed r"
  by (cases r rule: read_denied.cases) auto

lemma map_filter_ex:
  "(\<exists>f \<in> set (List.map_filter failure_of rs). P f) \<longleftrightarrow> (\<exists>r \<in> set rs. \<exists>f. failure_of r = Some f \<and> P f)"
  by (force simp: List.map_filter_def)

lemma reads_any_denied:
  "list_all (\<lambda>f. rf_state f = StateUnavailable) (cov_failures (run_reads rs)) \<longleftrightarrow>
     \<not> (\<exists>r \<in> set rs. read_denied r)"
proof -
  have "(\<exists>f \<in> set (cov_failures (run_reads rs)). rf_state f \<noteq> StateUnavailable) \<longleftrightarrow> (\<exists>r \<in> set rs. read_denied r)"
    unfolding run_reads_failures map_filter_ex
    by (metis failure_of_None failure_of_props not_None_eq read_denied_failed)
  then show ?thesis by (auto simp: list_all_iff)
qed

lemma reads_any_required_denied:
  "list_ex (\<lambda>f. rf_state f \<noteq> StateUnavailable \<and> rf_required f) (cov_failures (run_reads rs)) \<longleftrightarrow>
     (\<exists>r \<in> set rs. read_denied r \<and> read_required r)"
  unfolding run_reads_failures list_ex_iff map_filter_ex
  by (metis failure_of_None failure_of_props not_None_eq read_denied_failed)

lemma reads_no_failures:
  "cov_failures (run_reads rs) = [] \<longleftrightarrow> \<not> (\<exists>r \<in> set rs. read_failed r)"
  unfolding run_reads_failures by (auto simp: List.map_filter_def filter_empty_conv failure_of_None)

lemma reads_some_ok: "cov_ok (run_reads rs) > 0 \<longleftrightarrow> (\<exists>r \<in> set rs. \<not> read_failed r)"
  by (auto simp: run_reads_ok filter_empty_conv)

text \<open>The state of a scanner's result says exactly what its reads saw. Errored: a read the
  result needs was denied or failed, or no read succeeded and one of them was denied or failed.
  Degraded: otherwise, some read was denied or failed. Unavailable: every read answered, none
  succeeded, and there was a read. OK: the rest. An errored result carries no data and comes with
  an error; every other result carries the data and no error.\<close>

lemma Finish_state:
  "let R = Finish (run_reads rs) name data;
       denied = (\<exists>r \<in> set rs. read_denied r);
       required_denied = (\<exists>r \<in> set rs. read_denied r \<and> read_required r);
       succeeded = (\<exists>r \<in> set rs. \<not> read_failed r)
   in res_State (fst R) =
        (if required_denied \<or> (denied \<and> \<not> succeeded) then StateErrored
         else if denied then StateDegraded
         else if rs \<noteq> [] \<and> \<not> succeeded then StateUnavailable
         else StateOK)
      \<and> res_Data (fst R) = (if Blind (fst R) then JNull else data)
      \<and> (snd R = None) = (\<not> Blind (fst R))"
proof -
  define denied where "denied \<longleftrightarrow> (\<exists>r \<in> set rs. read_denied r)"
  define required_denied where "required_denied \<longleftrightarrow> (\<exists>r \<in> set rs. read_denied r \<and> read_required r)"
  define succeeded where "succeeded \<longleftrightarrow> (\<exists>r \<in> set rs. \<not> read_failed r)"
  define R where "R = Finish (run_reads rs) name data"
  have fl: "finish_flags (cov_failures (run_reads rs)) = (\<not> denied, required_denied)"
    unfolding finish_flags_eq reads_any_denied reads_any_required_denied
    by (simp add: denied_def required_denied_def)
  have nf: "cov_failures (run_reads rs) = [] \<longleftrightarrow> \<not> (\<exists>r \<in> set rs. read_failed r)"
    by (rule reads_no_failures)
  have ok: "cov_ok (run_reads rs) > 0 \<longleftrightarrow> succeeded" unfolding succeeded_def by (rule reads_some_ok)
  have rd: "required_denied \<Longrightarrow> denied" by (auto simp: denied_def required_denied_def)
  have df: "denied \<Longrightarrow> \<exists>r \<in> set rs. read_failed r" using read_denied_failed by (auto simp: denied_def)
  have ns: "\<not> succeeded \<Longrightarrow> rs \<noteq> [] \<Longrightarrow> \<exists>r \<in> set rs. read_failed r"
    by (cases rs) (auto simp: succeeded_def)
  note F = R_def Finish_def Let_def fl prod.case ok nf
  have "res_State (fst R) =
      (if required_denied \<or> (denied \<and> \<not> succeeded) then StateErrored
       else if denied then StateDegraded
       else if rs \<noteq> [] \<and> \<not> succeeded then StateUnavailable
       else StateOK)"
    unfolding F using rd df ns by (auto simp: succeeded_def)
  moreover have "res_Data (fst R) = (if Blind (fst R) then JNull else data)"
    unfolding F Blind_def by (simp add: state_defs)
  moreover have "(snd R = None) = (\<not> Blind (fst R))"
    unfolding F Blind_def by (simp add: state_defs)
  ultimately show ?thesis
    unfolding Let_def R_def denied_def required_denied_def succeeded_def by blast
qed

end
