(* ===== verification/Paging.thy ===== *)
theory Paging
  imports Scanner_Coverage
begin

text \<open>
  Listing the objects of a cluster, \<open>internal/scanner/paging.go\<close>. The API server is a parameter: it
  is asked with the options of a page, may change its own state, and answers with an error or with
  the items of the page and the token of the next one. \<open>ListAll\<close> follows the tokens; nothing makes a
  server end its list, so the loop is partial, and not returning is the value \<open>None\<close>. The lemmas say
  which items it returns: those of one complete pass over the pages, never of two.
\<close>

section \<open>Requests and answers\<close>

record ListOptions =
  lo_Limit :: int
  lo_Continue :: string
  lo_ResourceVersion :: string
  lo_ResourceVersionMatch :: string
  lo_FieldSelector :: string
  lo_LabelSelector :: string

definition ListOptions0 :: ListOptions where
  "ListOptions0 = \<lparr>lo_Limit = 0, lo_Continue = '''', lo_ResourceVersion = '''',
     lo_ResourceVersionMatch = '''', lo_FieldSelector = '''', lo_LabelSelector = ''''\<rparr>"

definition CacheReadOptions :: ListOptions where
  "CacheReadOptions = ListOptions0\<lparr>lo_ResourceVersion := ''0'', lo_ResourceVersionMatch := ''NotOlderThan''\<rparr>"

definition DefaultListLimit :: int where "DefaultListLimit = 500"

text \<open>The items of a page and its continue token, empty on the last page.\<close>

type_synonym 'a listPage = "'a list \<times> string"

text \<open>An error made by the scanner itself, of which no predicate of the API holds.\<close>

definition plainError :: "string \<Rightarrow> apiError" where
  "plainError msg = \<lparr>ae_IsNotFound = False, ae_IsNoMatchError = False, ae_IsForbidden = False,
     ae_IsUnauthorized = False, ae_Canceled = False, ae_DeadlineExceeded = False, ae_IsTimeout = False,
     ae_IsServerTimeout = False, ae_IsTooManyRequests = False, ae_IsResourceExpired = False,
     ae_IsInternalError = False, ae_IsServiceUnavailable = False, ae_IsUnexpectedServerError = False,
     ae_Error = msg\<rparr>"

definition repeatedToken :: "nat \<Rightarrow> apiError" where
  "repeatedToken n = plainError (''list: server repeated continue token after '' @ Itoa (int n) @ '' items'')"

definition nextPage :: "ListOptions \<Rightarrow> string \<Rightarrow> ListOptions" where
  "nextPage opts token = opts\<lparr>lo_Continue := token, lo_ResourceVersion := '''', lo_ResourceVersionMatch := ''''\<rparr>"

definition withLimit :: "ListOptions \<Rightarrow> ListOptions" where
  "withLimit opts = (if lo_Limit opts = 0 then opts\<lparr>lo_Limit := DefaultListLimit\<rparr> else opts)"

section \<open>The loop\<close>

type_synonym ('s, 'a) lister = "'s \<Rightarrow> ListOptions \<Rightarrow> 's \<times> (apiError + 'a listPage)"

definition restartable :: "ListOptions \<Rightarrow> bool \<Rightarrow> apiError \<Rightarrow> bool" where
  "restartable page restarted err \<longleftrightarrow> lo_Continue page \<noteq> '''' \<and> \<not> restarted \<and> ae_IsResourceExpired err"

partial_function (option) list_loop ::
  "('s, 'a) lister \<Rightarrow> ListOptions \<Rightarrow> 's \<Rightarrow> 'a list \<Rightarrow> ListOptions \<Rightarrow> bool \<Rightarrow> ('s \<times> (apiError + 'a list)) option" where
  "list_loop ask opts s out page restarted =
     (case ask s page of
        (s', Inl err) \<Rightarrow>
          if restartable page restarted err then list_loop ask opts s' [] opts True
          else Some (s', Inl err)
      | (s', Inr (items, token)) \<Rightarrow>
          if token = '''' then Some (s', Inr (out @ items))
          else if token = lo_Continue page then Some (s', Inl (repeatedToken (length (out @ items))))
          else list_loop ask opts s' (out @ items) (nextPage opts token) restarted)"

definition ListAll :: "('s, 'a) lister \<Rightarrow> ListOptions \<Rightarrow> 's \<Rightarrow> ('s \<times> (apiError + 'a list)) option" where
  "ListAll ask opts s = list_loop ask (withLimit opts) s [] (withLimit opts) False"

section \<open>One pass over the pages\<close>

text \<open>How a pass from a page on ends: with all items served, with an error on some page, or with a
  server that repeats the token it was just given.\<close>

datatype 'a ended = Served "'a list" | Cut ListOptions apiError | Stuck nat

fun ahead :: "'a list \<Rightarrow> 'a ended \<Rightarrow> 'a ended" where
  "ahead items (Served rest) = Served (items @ rest)"
| "ahead items (Cut page err) = Cut page err"
| "ahead items (Stuck n) = Stuck (length items + n)"

inductive pass :: "('s, 'a) lister \<Rightarrow> ListOptions \<Rightarrow> 's \<Rightarrow> ListOptions \<Rightarrow> 'a ended \<Rightarrow> 's \<Rightarrow> bool"
  for ask opts where
  pass_cut: "ask s page = (s', Inl err) \<Longrightarrow> pass ask opts s page (Cut page err) s'"
| pass_last: "ask s page = (s', Inr (items, '''')) \<Longrightarrow> pass ask opts s page (Served items) s'"
| pass_stuck: "\<lbrakk>ask s page = (s', Inr (items, lo_Continue page)); lo_Continue page \<noteq> ''''\<rbrakk> \<Longrightarrow>
     pass ask opts s page (Stuck (length items)) s'"
| pass_more: "\<lbrakk>ask s page = (s', Inr (items, token)); token \<noteq> ''''; token \<noteq> lo_Continue page;
     pass ask opts s' (nextPage opts token) e s''\<rbrakk> \<Longrightarrow> pass ask opts s page (ahead items e) s''"

fun outcome :: "'a ended \<Rightarrow> apiError + 'a list" where
  "outcome (Served items) = Inr items"
| "outcome (Cut page err) = Inl err"
| "outcome (Stuck n) = Inl (repeatedToken n)"

fun expired :: "'a ended \<Rightarrow> bool" where
  "expired (Cut page err) \<longleftrightarrow> lo_Continue page \<noteq> '''' \<and> ae_IsResourceExpired err"
| "expired e \<longleftrightarrow> False"

lemma ahead_ahead [simp]: "ahead xs (ahead ys e) = ahead (xs @ ys) e"
  by (cases e) simp_all

lemma ahead_none [simp]: "ahead [] e = e"
  by (cases e) simp_all

lemma expired_ahead [simp]: "expired (ahead xs e) = expired e"
  by (cases e) simp_all

text \<open>A pass determines the loop, and every run of the loop is a pass, or an expired pass and then
  another from the first page.\<close>

lemma list_loop_pass:
  "pass ask opts s page e s' \<Longrightarrow>
     list_loop ask opts s out page restarted =
       (if \<not> restarted \<and> expired e then list_loop ask opts s' [] opts True
        else Some (s', outcome (ahead out e)))"
proof (induction arbitrary: out rule: pass.induct)
  case (pass_cut s page s' err)
  then show ?case by (subst list_loop.simps) (auto simp: restartable_def)
next
  case (pass_last s page s' items)
  then show ?case by (subst list_loop.simps) simp
next
  case (pass_stuck s page s' items)
  then show ?case by (subst list_loop.simps) simp
next
  case (pass_more s page s' items token e s'')
  then show ?case by (subst list_loop.simps) simp
qed

lemma list_loop_returned:
  assumes "list_loop ask opts s out page restarted = Some r"
  shows "\<exists>e s'. pass ask opts s page e s'"
  using assms
proof (induction ask opts s out page restarted r rule: list_loop.raw_induct [rotated, consumes 1, case_names step])
  case (step loop ask opts s out page restarted r)
  obtain s1 answer where asked: "ask s page = (s1, answer)" by force
  show ?case
  proof (cases answer)
    case (Inl err)
    then show ?thesis using pass_cut [of ask s page s1 err] asked by auto
  next
    case (Inr answered)
    obtain items token where a: "answered = (items, token)" by force
    then have asks: "ask s page = (s1, Inr (items, token))" by (simp add: asked Inr)
    consider "token = ''''" | "token \<noteq> ''''" "token = lo_Continue page" | "token \<noteq> ''''" "token \<noteq> lo_Continue page"
      by blast
    then show ?thesis
    proof cases
      case 1
      then show ?thesis using pass_last [of ask s page s1 items] asks by auto
    next
      case 2
      then show ?thesis using pass_stuck [of ask s page s1 items] asks by auto
    next
      case 3
      then have "loop ask opts s1 (out @ items) (nextPage opts token) restarted = Some r"
        using step(2) asks by simp
      then obtain e s' where "pass ask opts s1 (nextPage opts token) e s'" using step(1) by blast
      then show ?thesis using pass.pass_more [of ask s page s1 items token opts e s'] asks 3 by blast
    qed
  qed
qed

lemma list_loop_iff:
  "list_loop ask opts s out page restarted = Some (s', r) \<longleftrightarrow>
     (\<exists>e s1. pass ask opts s page e s1 \<and>
        (if \<not> restarted \<and> expired e then list_loop ask opts s1 [] opts True = Some (s', r)
         else s' = s1 \<and> r = outcome (ahead out e)))"
  (is "?L \<longleftrightarrow> ?R")
proof
  assume returned: ?L
  obtain e s1 where p: "pass ask opts s page e s1" using list_loop_returned [OF returned] by blast
  from list_loop_pass [OF p, of out restarted] returned
  have "if \<not> restarted \<and> expired e then list_loop ask opts s1 [] opts True = Some (s', r)
        else s' = s1 \<and> r = outcome (ahead out e)" by (auto split: if_splits)
  with p show ?R by blast
next
  assume ?R
  then obtain e s1 where p: "pass ask opts s page e s1" and r: "if \<not> restarted \<and> expired e
      then list_loop ask opts s1 [] opts True = Some (s', r) else s' = s1 \<and> r = outcome (ahead out e)" by blast
  from list_loop_pass [OF p, of out restarted] r show ?L by (auto split: if_splits)
qed

section \<open>What a listing returns\<close>

text \<open>A listing returns exactly when its pass over the pages ends; it then returns what that pass saw:
  the items of all pages in order, the error of the page that failed, or the complaint about a
  repeated token. A pass cut by an expired token after the first page is repeated once from the first
  page, and what it had read is dropped, so no item of it is returned twice.\<close>

lemma ListAll_outcome:
  "ListAll ask opts s = Some (s', r) \<longleftrightarrow>
     (\<exists>e s1. pass ask (withLimit opts) s (withLimit opts) e s1 \<and>
        (if expired e then \<exists>e2. pass ask (withLimit opts) s1 (withLimit opts) e2 s' \<and> r = outcome e2
         else s' = s1 \<and> r = outcome e))"
proof -
  have again: "list_loop ask o1 s1 [] o1 True = Some (s', r) \<longleftrightarrow> (\<exists>e2. pass ask o1 s1 o1 e2 s' \<and> r = outcome e2)"
    for s1 o1 by (auto simp: list_loop_iff)
  show ?thesis unfolding ListAll_def list_loop_iff [of _ _ _ _ _ False] again by simp
qed

text \<open>Only these requests are made: the first page, and pages by token, which carry the caller's
  selectors and limit and no resource version. What the server would answer to others is irrelevant.\<close>

definition listing_request :: "ListOptions \<Rightarrow> ListOptions \<Rightarrow> bool" where
  "listing_request opts page \<longleftrightarrow>
     page = withLimit opts \<or>
     lo_Limit page = lo_Limit (withLimit opts) \<and> lo_Limit page \<noteq> 0 \<and> lo_Continue page \<noteq> '''' \<and>
     lo_ResourceVersion page = '''' \<and> lo_ResourceVersionMatch page = '''' \<and>
     lo_FieldSelector page = lo_FieldSelector opts \<and> lo_LabelSelector page = lo_LabelSelector opts"

lemma listing_request_next: "token \<noteq> '''' \<Longrightarrow> listing_request opts (nextPage (withLimit opts) token)"
  by (simp add: listing_request_def nextPage_def withLimit_def DefaultListLimit_def)

lemma pass_requests:
  "pass ask (withLimit opts) s page e s' \<Longrightarrow> listing_request opts page \<Longrightarrow>
     (\<And>t q. listing_request opts q \<Longrightarrow> ask t q = ask' t q) \<Longrightarrow> pass ask' (withLimit opts) s page e s'"
proof (induction rule: pass.induct)
  case (pass_more s page s' items token e s'')
  then have "pass ask' (withLimit opts) s' (nextPage (withLimit opts) token) e s''"
    using listing_request_next by blast
  then show ?case using pass_more pass.pass_more [of ask' s page s' items token "withLimit opts" e s'']
    by metis
qed (metis pass.intros)+

lemma ListAll_requests:
  assumes "\<And>t q. listing_request opts q \<Longrightarrow> ask t q = ask' t q"
  shows "ListAll ask opts s = ListAll ask' opts s"
proof -
  have first: "listing_request opts (withLimit opts)" by (simp add: listing_request_def)
  have "pass ask (withLimit opts) t (withLimit opts) e t' = pass ask' (withLimit opts) t (withLimit opts) e t'" for t e t'
    using pass_requests [OF _ first] assms by metis
  then have "ListAll ask opts s = Some v \<longleftrightarrow> ListAll ask' opts s = Some v" for v
    by (cases v) (simp only: ListAll_outcome)
  then show ?thesis by (metis not_Some_eq)
qed

section \<open>When a listing returns\<close>

text \<open>With a server whose tokens lead forward, each page leaving less to list than the one before, a
  listing returns. A server that alternates between two tokens keeps it busy for ever: the check for
  a repeated token sees only the token it has just sent.\<close>

lemma pass_ends:
  fixes left :: "'s \<Rightarrow> string \<Rightarrow> nat"
  assumes forward: "\<And>t q t' items token. ask t q = (t', Inr (items, token)) \<Longrightarrow> token \<noteq> '''' \<Longrightarrow>
    left t' token < left t (lo_Continue q)"
  shows "\<exists>e s'. pass ask opts s page e s'"
proof (induction "left s (lo_Continue page)" arbitrary: s page rule: less_induct)
  case less
  obtain s1 answer where asked: "ask s page = (s1, answer)" by force
  show ?case
  proof (cases answer)
    case (Inl err)
    then show ?thesis using pass_cut [of ask s page s1 err] asked by auto
  next
    case (Inr answered)
    obtain items token where "answered = (items, token)" by force
    then have asks: "ask s page = (s1, Inr (items, token))" by (simp add: asked Inr)
    show ?thesis
    proof (cases "token = ''''")
      case True
      then show ?thesis using pass_last [of ask s page s1 items] asks by auto
    next
      case False
      from forward [OF asks False] less [of s1 "nextPage opts token"]
      obtain e s' where "pass ask opts s1 (nextPage opts token) e s'" by (auto simp: nextPage_def)
      then show ?thesis
        using pass.pass_more [of ask s page s1 items token opts e s'] pass_stuck [of ask s page s1 items] asks False
        by (cases "token = lo_Continue page") auto
    qed
  qed
qed

lemma ListAll_returns:
  fixes left :: "'s \<Rightarrow> string \<Rightarrow> nat"
  assumes "\<And>t q t' items token. ask t q = (t', Inr (items, token)) \<Longrightarrow> token \<noteq> '''' \<Longrightarrow>
    left t' token < left t (lo_Continue q)"
  shows "\<exists>s' r. ListAll ask opts s = Some (s', r)"
proof -
  have ends: "\<exists>e s'. pass ask o1 t q e s'" for o1 t q
    using assms by (rule pass_ends [of ask left])
  obtain e s1 where p: "pass ask (withLimit opts) s (withLimit opts) e s1" using ends by blast
  obtain e2 s2 where "pass ask (withLimit opts) s1 (withLimit opts) e2 s2" using ends by blast
  with p have "ListAll ask opts s = Some (if expired e then (s2, outcome e2) else (s1, outcome e))"
    by (cases "expired e") (auto simp: ListAll_outcome)
  then show ?thesis by (cases "if expired e then (s2, outcome e2) else (s1, outcome e)") auto
qed

definition alternating :: "(unit, nat) lister" where
  "alternating s page = (s, Inr ([], if lo_Continue page = ''a'' then ''b'' else ''a''))"

lemma alternating_never_returns: "ListAll alternating opts () = None"
proof -
  have "\<not> pass alternating o1 s page e s'" for o1 s page e s'
  proof
    assume "pass alternating o1 s page e s'"
    then show False
      by (induction rule: pass.induct) (auto simp: alternating_def split: if_splits)
  qed
  then have "ListAll alternating opts () \<noteq> Some r" for r
    by (cases r) (simp add: ListAll_outcome)
  then show ?thesis by (cases "ListAll alternating opts ()") auto
qed

text \<open>C31. A listing returns exactly when a pass over the pages of the server ends, and returns what that
  one pass saw: the items of all pages in order, the error of the page that failed, or the complaint about a
  repeated token. A pass whose token expired after the first page is repeated once, from the first page, and
  nothing it read is returned; a second expiry is an error like any other.\<close>

theorem ListAll_one_pass:
  "ListAll ask opts s = Some (s', r) \<longleftrightarrow>
     (\<exists>e s1. pass ask (withLimit opts) s (withLimit opts) e s1 \<and>
        (if expired e then \<exists>e2. pass ask (withLimit opts) s1 (withLimit opts) e2 s' \<and> r = outcome e2
         else s' = s1 \<and> r = outcome e))"
  by (rule ListAll_outcome)

end
