(* ===== verification/Podsec.thy ===== *)
theory Podsec
  imports Prelude
begin

text \<open>
  Pod and container security settings with Kubernetes precedence, \<open>internal/podsec/podsec.go\<close>. The
  pod and container records hold the fields of the Kubernetes API types that the program reads; a
  pointer field is an option. A container setting wins over the pod's.
\<close>

section \<open>API types\<close>

record Capabilities =
  cap_Add :: "string list"
  cap_Drop :: "string list"

record SecurityContext =
  sc_RunAsNonRoot :: "bool option"
  sc_RunAsUser :: "int option"
  sc_Privileged :: "bool option"
  sc_AllowPrivilegeEscalation :: "bool option"
  sc_ReadOnlyRootFilesystem :: "bool option"
  sc_Capabilities :: "Capabilities option"
  sc_SeccompProfile :: "string option"

record PodSecurityContext =
  psc_RunAsNonRoot :: "bool option"
  psc_RunAsUser :: "int option"
  psc_SeccompProfile :: "string option"

record Container =
  ct_Name :: string
  ct_Image :: string
  ct_SecurityContext :: "SecurityContext option"

record Pod =
  pod_Namespace :: string
  pod_Name :: string
  pod_Annotations :: "(string, string) gomap"
  pod_SecurityContext :: "PodSecurityContext option"
  pod_InitContainers :: "Container list"
  pod_Containers :: "Container list"
  pod_EphemeralContainers :: "Container list"
  pod_ServiceAccountName :: string
  pod_HostNetwork :: bool
  pod_HostPID :: bool
  pod_HostIPC :: bool
  pod_HostPathVolumes :: "bool list"

datatype Status = Root | NonRoot | Unknown

section \<open>Effective settings\<close>

definition podContext :: "Pod option \<Rightarrow> PodSecurityContext option" where
  "podContext pod = Option.bind pod pod_SecurityContext"

definition effective :: "'a option \<Rightarrow> 'a option \<Rightarrow> 'a option" where
  "effective container pod = (case container of Some x \<Rightarrow> Some x | None \<Rightarrow> pod)"

definition RunAsNonRoot :: "Pod option \<Rightarrow> Container \<Rightarrow> bool \<times> bool" where
  "RunAsNonRoot pod c =
     (case effective (Option.bind (ct_SecurityContext c) sc_RunAsNonRoot) (Option.bind (podContext pod) psc_RunAsNonRoot) of
        Some b \<Rightarrow> (b, True)
      | None \<Rightarrow> (False, False))"

definition RunAsUser :: "Pod option \<Rightarrow> Container \<Rightarrow> int \<times> bool" where
  "RunAsUser pod c =
     (case effective (Option.bind (ct_SecurityContext c) sc_RunAsUser) (Option.bind (podContext pod) psc_RunAsUser) of
        Some uid \<Rightarrow> (uid, True)
      | None \<Rightarrow> (0, False))"

definition RootStatus :: "Pod option \<Rightarrow> Container \<Rightarrow> Status" where
  "RootStatus pod c =
     (let (uid, uidSet) = RunAsUser pod c
      in if uidSet \<and> uid = 0 then Root
         else if fst (RunAsNonRoot pod c) then NonRoot
         else if uidSet \<and> uid > 0 then NonRoot
         else Unknown)"

definition AllowsPrivilegeEscalation :: "Container \<Rightarrow> bool" where
  "AllowsPrivilegeEscalation c =
     (case ct_SecurityContext c of
        None \<Rightarrow> True
      | Some sc \<Rightarrow>
          (case sc_AllowPrivilegeEscalation sc of
             None \<Rightarrow> True
           | Some allow \<Rightarrow>
               if sc_Privileged sc = Some True then True
               else if (case sc_Capabilities sc of
                          None \<Rightarrow> False
                        | Some caps \<Rightarrow> list_ex (\<lambda>add. let name = trim_prefix (ToUpper add) ''CAP_''
                            in name = ''SYS_ADMIN'' \<or> name = ''ALL'') (cap_Add caps))
               then True
               else allow))"

definition ReadOnlyRootFS :: "Container \<Rightarrow> bool" where
  "ReadOnlyRootFS c = (Option.bind (ct_SecurityContext c) sc_ReadOnlyRootFilesystem = Some True)"

definition DropsAllCapabilities :: "Container \<Rightarrow> bool" where
  "DropsAllCapabilities c =
     (case Option.bind (ct_SecurityContext c) sc_Capabilities of
        None \<Rightarrow> False
      | Some caps \<Rightarrow> list_ex (\<lambda>drop. EqualFold drop ''ALL'') (cap_Drop caps))"

definition SeccompConfined :: "Pod option \<Rightarrow> Container \<Rightarrow> bool" where
  "SeccompConfined pod c =
     (case effective (Option.bind (ct_SecurityContext c) sc_SeccompProfile)
             (Option.bind (podContext pod) psc_SeccompProfile) of
        None \<Rightarrow> False
      | Some profile \<Rightarrow> profile \<in> set [''RuntimeDefault'', ''Localhost''])"

definition Containers :: "Pod option \<Rightarrow> bool \<Rightarrow> Container list" where
  "Containers pod includeEphemeral =
     (case pod of
        None \<Rightarrow> []
      | Some p \<Rightarrow> pod_InitContainers p @ pod_Containers p @ (if includeEphemeral then pod_EphemeralContainers p else []))"

section \<open>Laws\<close>

lemma effective_simps [simp]:
  "effective (Some x) p = Some x" "effective None p = p"
  by (simp_all add: effective_def)

text \<open>When a container counts as non-root: its effective user is not root, and is either positive or
  barred from being root.\<close>

lemma RootStatus_NonRoot:
  "RootStatus pod c = NonRoot \<longleftrightarrow>
     RunAsUser pod c \<noteq> (0, True) \<and> (fst (RunAsNonRoot pod c) \<or> (\<exists>uid > 0. RunAsUser pod c = (uid, True)))"
  by (auto simp: RootStatus_def Let_def split: prod.splits)

text \<open>Only an explicit denial on an unprivileged container without the two capabilities keeps it from
  gaining privileges.\<close>

lemma AllowsPrivilegeEscalation_False:
  "\<not> AllowsPrivilegeEscalation c \<longleftrightarrow>
     (\<exists>sc. ct_SecurityContext c = Some sc \<and> sc_AllowPrivilegeEscalation sc = Some False \<and>
        sc_Privileged sc \<noteq> Some True \<and>
        (\<forall>caps add. sc_Capabilities sc = Some caps \<longrightarrow> add \<in> set (cap_Add caps) \<longrightarrow>
           trim_prefix (ToUpper add) ''CAP_'' \<notin> {''SYS_ADMIN'', ''ALL''}))"
  by (auto simp: AllowsPrivilegeEscalation_def list_ex_iff Let_def split: option.splits if_splits)

lemma Containers_ephemeral:
  "Containers pod True = Containers pod False @ (case pod of None \<Rightarrow> [] | Some p \<Rightarrow> pod_EphemeralContainers p)"
  by (auto simp: Containers_def split: option.splits)

end
