(* ===== verification/Workload_Sec.thy ===== *)
theory Workload_Sec
  imports Podsec Scanner_Coverage Go_Fmt
begin

text \<open>
  The workload-security scanner, \<open>internal/scanner/workloadsec/workloadsec.go\<close>, from the list of pods
  on: the counts it keeps over the containers of every pod, and the worst containers it lists. The
  API read itself is the read it records in its coverage.
\<close>

section \<open>Data\<close>

record PodRisk =
  pr_Namespace :: string
  pr_Pod :: string
  pr_Container :: string
  pr_Risks :: "string list"

record Data =
  ws_TotalPods :: int
  ws_PrivilegedContainers :: int
  ws_HostNetworkPods :: int
  ws_HostPIDPods :: int
  ws_HostIPCPods :: int
  ws_HostPathVolumes :: int
  ws_BaselineContainers :: int
  ws_RunAsRootContainers :: int
  ws_RunAsNonRootContainers :: int
  ws_RunAsUnknownContainers :: int
  ws_CapabilityAdditions :: int
  ws_MissingCapabilityDropAll :: int
  ws_AllowPrivilegeEscalation :: int
  ws_MissingSeccompProfile :: int
  ws_NoReadOnlyRoot :: int
  ws_DefaultServiceAccountPods :: int
  ws_HighRiskPods :: "PodRisk list"

definition Data0 :: Data where
  "Data0 = \<lparr>ws_TotalPods = 0, ws_PrivilegedContainers = 0, ws_HostNetworkPods = 0, ws_HostPIDPods = 0,
     ws_HostIPCPods = 0, ws_HostPathVolumes = 0, ws_BaselineContainers = 0, ws_RunAsRootContainers = 0,
     ws_RunAsNonRootContainers = 0, ws_RunAsUnknownContainers = 0, ws_CapabilityAdditions = 0,
     ws_MissingCapabilityDropAll = 0, ws_AllowPrivilegeEscalation = 0, ws_MissingSeccompProfile = 0,
     ws_NoReadOnlyRoot = 0, ws_DefaultServiceAccountPods = 0, ws_HighRiskPods = []\<rparr>"

section \<open>Counting\<close>

definition bump :: "bool \<Rightarrow> int \<Rightarrow> int" where
  "bump b n = (if b then n + 1 else n)"

definition is_privileged :: "Container \<Rightarrow> bool" where
  "is_privileged c = (Option.bind (ct_SecurityContext c) sc_Privileged = Some True)"

definition added_capabilities :: "Container \<Rightarrow> string list" where
  "added_capabilities c = (case Option.bind (ct_SecurityContext c) sc_Capabilities of None \<Rightarrow> [] | Some caps \<Rightarrow> cap_Add caps)"

definition container_risks :: "Pod \<Rightarrow> Container \<Rightarrow> string list" where
  "container_risks pod c =
     (if is_privileged c then [''privileged''] else []) @
     (if RootStatus (Some pod) c = Root then [''runs-as-root''] else []) @
     (if added_capabilities c \<noteq> [] then [''capabilities-add:['' @ strings_Join (added_capabilities c) '' '' @ '']''] else []) @
     (if AllowsPrivilegeEscalation c then [''allow-privilege-escalation''] else []) @
     (if \<not> ReadOnlyRootFS c then [''writable-root-fs''] else []) @
     (if pod_HostNetwork pod then [''host-network''] else []) @
     (if pod_HostPID pod then [''host-pid''] else []) @
     (if pod_HostIPC pod then [''host-ipc''] else [])"

definition is_high_risk :: "Pod \<Rightarrow> Container \<Rightarrow> bool" where
  "is_high_risk pod c \<longleftrightarrow>
     is_privileged c \<or> pod_HostNetwork pod \<or> pod_HostPID pod \<or> pod_HostIPC pod \<or>
     added_capabilities c \<noteq> [] \<or> AllowsPrivilegeEscalation c"

definition count_container :: "Pod \<Rightarrow> Data \<Rightarrow> bool \<times> Container \<Rightarrow> Data" where
  "count_container pod d ic =
     (let (inBaseline, c) = ic; status = RootStatus (Some pod) c
      in d\<lparr>ws_PrivilegedContainers := bump (is_privileged c) (ws_PrivilegedContainers d),
           ws_RunAsRootContainers := bump (inBaseline \<and> status = Root) (ws_RunAsRootContainers d),
           ws_RunAsNonRootContainers := bump (inBaseline \<and> status = NonRoot) (ws_RunAsNonRootContainers d),
           ws_RunAsUnknownContainers := bump (inBaseline \<and> status = Unknown) (ws_RunAsUnknownContainers d),
           ws_CapabilityAdditions := bump (added_capabilities c \<noteq> []) (ws_CapabilityAdditions d),
           ws_MissingCapabilityDropAll := bump (\<not> DropsAllCapabilities c) (ws_MissingCapabilityDropAll d),
           ws_AllowPrivilegeEscalation := bump (inBaseline \<and> AllowsPrivilegeEscalation c) (ws_AllowPrivilegeEscalation d),
           ws_MissingSeccompProfile := bump (\<not> SeccompConfined (Some pod) c) (ws_MissingSeccompProfile d),
           ws_NoReadOnlyRoot := bump (inBaseline \<and> \<not> ReadOnlyRootFS c) (ws_NoReadOnlyRoot d),
           ws_HighRiskPods := (if is_high_risk pod c
             then ws_HighRiskPods d @ [\<lparr>pr_Namespace = pod_Namespace pod, pr_Pod = pod_Name pod,
                    pr_Container = ct_Name c, pr_Risks = container_risks pod c\<rparr>]
             else ws_HighRiskPods d)\<rparr>)"

definition hasHostPath :: "Pod \<Rightarrow> bool" where
  "hasHostPath pod = list_ex (\<lambda>v. v) (pod_HostPathVolumes pod)"

definition default_account :: "Pod \<Rightarrow> bool" where
  "default_account pod \<longleftrightarrow> pod_ServiceAccountName pod = '''' \<or> pod_ServiceAccountName pod = ''default''"

text \<open>The containers of a pod, each with whether its index lies among the init and regular ones.\<close>

definition indexed_containers :: "Pod \<Rightarrow> (bool \<times> Container) list" where
  "indexed_containers pod =
     (let baseline = length (pod_InitContainers pod) + length (pod_Containers pod)
      in map (\<lambda>(j, c). (j < baseline, c)) (enumerate 0 (Containers (Some pod) True)))"

definition count_pod :: "Data \<Rightarrow> Pod \<Rightarrow> Data" where
  "count_pod d pod =
     foldl (count_container pod)
       (d\<lparr>ws_HostNetworkPods := bump (pod_HostNetwork pod) (ws_HostNetworkPods d),
          ws_HostPIDPods := bump (pod_HostPID pod) (ws_HostPIDPods d),
          ws_HostIPCPods := bump (pod_HostIPC pod) (ws_HostIPCPods d),
          ws_HostPathVolumes := bump (hasHostPath pod) (ws_HostPathVolumes d),
          ws_DefaultServiceAccountPods := bump (default_account pod) (ws_DefaultServiceAccountPods d),
          ws_BaselineContainers := ws_BaselineContainers d
            + int (length (pod_InitContainers pod) + length (pod_Containers pod))\<rparr>)
       (indexed_containers pod)"

text \<open>\<open>TopN\<close> with \<open>comparePodRisks\<close>: a stable sort by risk count, most first, then by name.\<close>

definition risk_key :: "PodRisk \<Rightarrow> int \<times> string \<times> string \<times> string" where
  "risk_key r = (- int (length (pr_Risks r)), pr_Namespace r, pr_Pod r, pr_Container r)"

definition TopN :: "'a list \<Rightarrow> nat \<Rightarrow> ('a \<Rightarrow> 'k :: linorder) \<Rightarrow> 'a list" where
  "TopN items n key = take n (sort_key key items)"

definition scan_pods :: "Pod list \<Rightarrow> Data" where
  "scan_pods pods =
     (let d = foldl count_pod (Data0\<lparr>ws_TotalPods := int (length pods)\<rparr>) pods
      in d\<lparr>ws_HighRiskPods := TopN (ws_HighRiskPods d) 50 risk_key\<rparr>)"

text \<open>The payload as JSON, with the names of the struct tags.\<close>

definition risk_json :: "PodRisk \<Rightarrow> json" where
  "risk_json r = JObj [(''namespace'', JStr (pr_Namespace r)), (''pod'', JStr (pr_Pod r)),
     (''container'', JStr (pr_Container r)), (''risks'', JArr (map JStr (pr_Risks r)))]"

definition data_json :: "Data \<Rightarrow> json" where
  "data_json d = JObj
     [(''total_pods'', JNum (of_int64 (ws_TotalPods d))),
      (''privileged_containers'', JNum (of_int64 (ws_PrivilegedContainers d))),
      (''host_network_pods'', JNum (of_int64 (ws_HostNetworkPods d))),
      (''host_pid_pods'', JNum (of_int64 (ws_HostPIDPods d))),
      (''host_ipc_pods'', JNum (of_int64 (ws_HostIPCPods d))),
      (''host_path_volumes'', JNum (of_int64 (ws_HostPathVolumes d))),
      (''baseline_containers'', JNum (of_int64 (ws_BaselineContainers d))),
      (''run_as_root_containers'', JNum (of_int64 (ws_RunAsRootContainers d))),
      (''run_as_non_root_containers'', JNum (of_int64 (ws_RunAsNonRootContainers d))),
      (''run_as_unknown_containers'', JNum (of_int64 (ws_RunAsUnknownContainers d))),
      (''capability_additions'', JNum (of_int64 (ws_CapabilityAdditions d))),
      (''missing_capability_drop_all'', JNum (of_int64 (ws_MissingCapabilityDropAll d))),
      (''allow_privilege_escalation'', JNum (of_int64 (ws_AllowPrivilegeEscalation d))),
      (''missing_seccomp_profile'', JNum (of_int64 (ws_MissingSeccompProfile d))),
      (''no_read_only_root'', JNum (of_int64 (ws_NoReadOnlyRoot d))),
      (''default_service_account_pods'', JNum (of_int64 (ws_DefaultServiceAccountPods d))),
      (''high_risk_pods'', (if ws_HighRiskPods d = [] then JNull else JArr (map risk_json (ws_HighRiskPods d))))]"

text \<open>The scanner: when the pods cannot be read it finishes without data.\<close>

definition scan_workloads :: "apiError + Pod list \<Rightarrow> Result \<times> coverageError option" where
  "scan_workloads listing =
     (case listing of
        Inl err \<Rightarrow> Finish (fst (Observe Coverage0 ''pods'' (Some err))) ''workload-security'' JNull
      | Inr pods \<Rightarrow> Finish (fst (Observe Coverage0 ''pods'' None)) ''workload-security'' (data_json (scan_pods pods)))"

section \<open>What the counts are\<close>

text \<open>The containers admission sees, with their pods.\<close>

definition baseline_containers :: "Pod list \<Rightarrow> (Pod \<times> Container) list" where
  "baseline_containers pods = concat (map (\<lambda>p. map (Pair p) (Containers (Some p) False)) pods)"

definition all_containers :: "Pod list \<Rightarrow> (Pod \<times> Container) list" where
  "all_containers pods = concat (map (\<lambda>p. map (Pair p) (Containers (Some p) True)) pods)"

definition tally :: "('a \<Rightarrow> bool) \<Rightarrow> 'a list \<Rightarrow> int" where
  "tally P xs = int (length (filter P xs))"

lemma bump_eq: "bump b n = n + of_bool b"
  by (simp add: bump_def)

lemma tally_simps [simp]:
  "tally P [] = 0" "tally P (x # xs) = of_bool (P x) + tally P xs" "tally P (xs @ ys) = tally P xs + tally P ys"
  by (simp_all add: tally_def)

lemma tally_map [simp]: "tally P (map f xs) = tally (P \<circ> f) xs"
  by (simp add: tally_def filter_map)

lemma tally_false: "(\<And>x. x \<in> set xs \<Longrightarrow> \<not> P x) \<Longrightarrow> tally P xs = 0"
  by (simp add: tally_def filter_False)

lemma tally_nonneg: "0 \<le> tally P xs" "tally P xs \<le> int (length xs)"
  by (simp_all add: tally_def)

lemma indexed_containers_eq:
  "indexed_containers pod =
     map (Pair True) (Containers (Some pod) False) @ map (Pair False) (pod_EphemeralContainers pod)"
proof -
  have "map (\<lambda>(j, c). (j < n + length xs, c)) (enumerate n (xs @ ys)) = map (Pair True) xs @ map (Pair False) ys"
    for n and xs ys :: "Container list"
  proof (induction xs arbitrary: n)
    case Nil
    have "map (\<lambda>(j, c). (j < n, c)) (enumerate m ys) = map (Pair False) ys" if "n \<le> m" for m
      using that by (induction ys arbitrary: m) auto
    then show ?case by simp
  next
    case (Cons x xs)
    from Cons.IH [of "Suc n"] show ?case by simp
  qed
  from this [of 0 "pod_InitContainers pod @ pod_Containers pod" "pod_EphemeralContainers pod"]
  show ?thesis by (simp add: indexed_containers_def Containers_def)
qed

lemma count_containers:
  "ws_RunAsRootContainers (foldl (count_container pod) d ics) =
     ws_RunAsRootContainers d + tally (\<lambda>(b, c). b \<and> RootStatus (Some pod) c = Root) ics"
  "ws_RunAsNonRootContainers (foldl (count_container pod) d ics) =
     ws_RunAsNonRootContainers d + tally (\<lambda>(b, c). b \<and> RootStatus (Some pod) c = NonRoot) ics"
  "ws_RunAsUnknownContainers (foldl (count_container pod) d ics) =
     ws_RunAsUnknownContainers d + tally (\<lambda>(b, c). b \<and> RootStatus (Some pod) c = Unknown) ics"
  "ws_AllowPrivilegeEscalation (foldl (count_container pod) d ics) =
     ws_AllowPrivilegeEscalation d + tally (\<lambda>(b, c). b \<and> AllowsPrivilegeEscalation c) ics"
  "ws_NoReadOnlyRoot (foldl (count_container pod) d ics) =
     ws_NoReadOnlyRoot d + tally (\<lambda>(b, c). b \<and> \<not> ReadOnlyRootFS c) ics"
  "ws_BaselineContainers (foldl (count_container pod) d ics) = ws_BaselineContainers d"
  "ws_DefaultServiceAccountPods (foldl (count_container pod) d ics) = ws_DefaultServiceAccountPods d"
  "ws_TotalPods (foldl (count_container pod) d ics) = ws_TotalPods d"
  "ws_HighRiskPods (foldl (count_container pod) d ics) = ws_HighRiskPods d @
     map (\<lambda>(b, c). \<lparr>pr_Namespace = pod_Namespace pod, pr_Pod = pod_Name pod, pr_Container = ct_Name c,
       pr_Risks = container_risks pod c\<rparr>) (filter (\<lambda>(b, c). is_high_risk pod c) ics)"
  by (induction ics arbitrary: d) (simp_all add: count_container_def Let_def split_beta bump_eq)

lemma tally_indexed:
  "tally (\<lambda>(b, c). b \<and> P c) (indexed_containers pod) = tally P (Containers (Some pod) False)"
  by (simp add: indexed_containers_eq comp_def tally_false)

lemma length_Containers [simp]:
  "length (Containers (Some p) False) = length (pod_InitContainers p) + length (pod_Containers p)"
  by (simp add: Containers_def)

lemma count_pods:
  "ws_RunAsRootContainers (foldl count_pod d pods) =
     ws_RunAsRootContainers d + tally (\<lambda>(p, c). RootStatus (Some p) c = Root) (baseline_containers pods)"
  "ws_RunAsNonRootContainers (foldl count_pod d pods) =
     ws_RunAsNonRootContainers d + tally (\<lambda>(p, c). RootStatus (Some p) c = NonRoot) (baseline_containers pods)"
  "ws_RunAsUnknownContainers (foldl count_pod d pods) =
     ws_RunAsUnknownContainers d + tally (\<lambda>(p, c). RootStatus (Some p) c = Unknown) (baseline_containers pods)"
  "ws_AllowPrivilegeEscalation (foldl count_pod d pods) =
     ws_AllowPrivilegeEscalation d + tally (\<lambda>(p, c). AllowsPrivilegeEscalation c) (baseline_containers pods)"
  "ws_NoReadOnlyRoot (foldl count_pod d pods) =
     ws_NoReadOnlyRoot d + tally (\<lambda>(p, c). \<not> ReadOnlyRootFS c) (baseline_containers pods)"
  "ws_BaselineContainers (foldl count_pod d pods) = ws_BaselineContainers d + int (length (baseline_containers pods))"
  "ws_DefaultServiceAccountPods (foldl count_pod d pods) = ws_DefaultServiceAccountPods d + tally default_account pods"
  "ws_TotalPods (foldl count_pod d pods) = ws_TotalPods d"
  by (induction pods arbitrary: d)
    (simp_all add: count_pod_def count_containers tally_indexed baseline_containers_def comp_def bump_eq)

lemma count_pods_risks:
  "ws_HighRiskPods (foldl count_pod d pods) = ws_HighRiskPods d @
     map (\<lambda>(p, c). \<lparr>pr_Namespace = pod_Namespace p, pr_Pod = pod_Name p, pr_Container = ct_Name c,
       pr_Risks = container_risks p c\<rparr>) (filter (\<lambda>(p, c). is_high_risk p c) (all_containers pods))"
  by (induction pods arbitrary: d)
    (simp_all add: count_pod_def count_containers indexed_containers_eq all_containers_def Containers_def
      filter_map comp_def)

text \<open>The first of a sorted list leave nothing behind that sorts before them.\<close>

lemma TopN_spec:
  "length (TopN xs n key) \<le> n \<and> sorted (map key (TopN xs n key)) \<and>
   (\<exists>rest. mset (TopN xs n key @ rest) = mset xs \<and>
      list_all (\<lambda>r. list_all (\<lambda>l. key l \<le> key r) (TopN xs n key)) rest)"
proof -
  obtain ys where ys: "ys = sort_key key xs" "mset ys = mset xs" "sorted (map key ys)" by simp
  have "sorted (map key (take n ys) @ map key (drop n ys))"
    using ys(3) by (simp flip: map_append)
  then have "sorted (map key (take n ys))" "\<forall>l \<in> set (take n ys). \<forall>r \<in> set (drop n ys). key l \<le> key r"
    unfolding sorted_append by auto
  moreover have "mset (take n ys @ drop n ys) = mset xs" by (simp only: append_take_drop_id ys(2))
  ultimately show ?thesis unfolding TopN_def ys(1) [symmetric]
    by (intro conjI exI [of _ "drop n ys"]) (simp_all add: list_all_iff)
qed

text \<open>Every baseline container counts once as root, non-root or unknown.\<close>

lemma tally_status:
  "tally (\<lambda>(p, c). f p c = Root) xs + tally (\<lambda>(p, c). f p c = NonRoot) xs + tally (\<lambda>(p, c). f p c = Unknown) xs =
     int (length xs)"
proof (induction xs)
  case (Cons x xs)
  then show ?case by (cases "f (fst x) (snd x)") (auto split: prod.splits)
qed simp

text \<open>The workload-security scanner counts exactly the containers admission sees: over the init and
  regular containers of all pods, those that are non-root, root or unsettled, which add up, those
  that may gain privileges and those without a read-only root; the list of the worst holds at most
  fifty, most risks first, and no container left out has more risks than one listed.\<close>

lemma scan_pods_spec:
  "let d = scan_pods pods; base = baseline_containers pods; count = (\<lambda>P. int (length (filter (\<lambda>(p, c). P p c) base)))
   in ws_TotalPods d = int (length pods) \<and>
      ws_BaselineContainers d = int (length base) \<and>
      ws_RunAsNonRootContainers d = count (\<lambda>p c. RootStatus (Some p) c = NonRoot) \<and>
      ws_RunAsRootContainers d + ws_RunAsNonRootContainers d + ws_RunAsUnknownContainers d = int (length base) \<and>
      ws_AllowPrivilegeEscalation d = count (\<lambda>p c. AllowsPrivilegeEscalation c) \<and>
      ws_NoReadOnlyRoot d = count (\<lambda>p c. \<not> ReadOnlyRootFS c) \<and>
      ws_DefaultServiceAccountPods d = int (length (filter default_account pods)) \<and>
      length (ws_HighRiskPods d) \<le> 50 \<and> sorted (map risk_key (ws_HighRiskPods d)) \<and>
      (\<exists>rest. mset (ws_HighRiskPods d @ rest) =
         image_mset (\<lambda>(p, c). \<lparr>pr_Namespace = pod_Namespace p, pr_Pod = pod_Name p, pr_Container = ct_Name c,
           pr_Risks = container_risks p c\<rparr>) (filter_mset (\<lambda>(p, c). is_high_risk p c) (mset (all_containers pods))) \<and>
         list_all (\<lambda>r. list_all (\<lambda>l. risk_key l \<le> risk_key r) (ws_HighRiskPods d)) rest)"
proof -
  let ?risks = "map (\<lambda>(p, c). \<lparr>pr_Namespace = pod_Namespace p, pr_Pod = pod_Name p, pr_Container = ct_Name c,
       pr_Risks = container_risks p c\<rparr>) (filter (\<lambda>(p, c). is_high_risk p c) (all_containers pods))"
  have top: "ws_HighRiskPods (scan_pods pods) = TopN ?risks 50 risk_key"
    by (simp add: scan_pods_def Let_def count_pods_risks Data0_def)
  have "image_mset (\<lambda>(p, c). \<lparr>pr_Namespace = pod_Namespace p, pr_Pod = pod_Name p, pr_Container = ct_Name c,
      pr_Risks = container_risks p c\<rparr>) (filter_mset (\<lambda>(p, c). is_high_risk p c) (mset (all_containers pods))) = mset ?risks"
    by (simp only: mset_map mset_filter)
  then show ?thesis
    unfolding Let_def top
    using tally_status [of "\<lambda>p c. RootStatus (Some p) c" "baseline_containers pods"] TopN_spec [of ?risks 50 risk_key]
    by (simp add: scan_pods_def Let_def count_pods Data0_def tally_def)
qed

end
