(* ===== verification/Scan_Nodes.thy ===== *)
theory Scan_Nodes
  imports Paging Workload_Sec
begin

text \<open>
  The scanners that read the nodes of a cluster, from the listed objects to the result: conditions
  (\<open>internal/scanner/nodehealth\<close>), capacity (\<open>resources\<close>), platform (\<open>clusterinfo\<close>), utilization
  (\<open>metrics\<close>) and the version of the server (\<open>version\<close>). Each is a definition of the listings it
  reads, that is of what \<open>ListAll\<close> returned for them. Kubernetes quantities are records of what the
  code asks of them. A list sorted by name is sorted stably here; names are unique within a cluster.
\<close>

section \<open>Reads and payloads\<close>

text \<open>What \<open>ListAll\<close> returned, and the idiom \<open>if !cov.Observe(what, err) { list = nil }\<close>.\<close>

type_synonym 'a listing = "apiError + 'a list"

definition listing_error :: "'a listing \<Rightarrow> apiError option" where
  "listing_error l = (case l of Inl err \<Rightarrow> Some err | Inr _ \<Rightarrow> None)"

definition listing_items :: "'a listing \<Rightarrow> 'a list" where
  "listing_items l = (case l of Inl _ \<Rightarrow> [] | Inr items \<Rightarrow> items)"

definition noted :: "Coverage \<Rightarrow> string \<Rightarrow> 'a listing \<Rightarrow> Coverage" where
  "noted cov what l = fst (Observe cov what (listing_error l))"

definition needed :: "Coverage \<Rightarrow> string \<Rightarrow> 'a listing \<Rightarrow> Coverage" where
  "needed cov what l = fst (Require cov what (listing_error l))"

definition json_nat :: "nat \<Rightarrow> json" where "json_nat n = JNum (of_int64 (int n))"

text \<open>A slice that was only appended to: nil, and \<open>null\<close> in JSON, when nothing was.\<close>

definition json_slice :: "('a \<Rightarrow> json) \<Rightarrow> 'a list \<Rightarrow> json" where
  "json_slice f xs = (if xs = [] then JNull else JArr (map f xs))"

text \<open>Members marked \<open>omitempty\<close>.\<close>

definition omit_empty :: "string \<Rightarrow> string \<Rightarrow> (string \<times> json) list" where
  "omit_empty k v = (if v = '''' then [] else [(k, JStr v)])"

text \<open>\<open>encoding/json\<close> writes the keys of a map in order.\<close>

definition json_map :: "('v \<Rightarrow> json) \<Rightarrow> (string, 'v) gomap \<Rightarrow> json" where
  "json_map f m = JObj (map (\<lambda>(k, v). (k, f v)) (sort_key fst m))"

section \<open>Nodes\<close>

record Quantity =
  q_Value :: int
  q_MilliValue :: int
  q_String :: string

definition Quantity0 :: Quantity where
  "Quantity0 = \<lparr>q_Value = 0, q_MilliValue = 0, q_String = ''0''\<rparr>"

record NodeCondition =
  nc_Type :: string
  nc_Status :: string
  nc_Reason :: string
  nc_Message :: string

record NodeSystemInfo =
  ni_OSImage :: string
  ni_KernelVersion :: string
  ni_ContainerRuntimeVersion :: string
  ni_KubeletVersion :: string
  ni_KubeProxyVersion :: string

record Node =
  nd_Name :: string
  nd_Unschedulable :: bool
  nd_Conditions :: "NodeCondition list"
  nd_NodeInfo :: NodeSystemInfo
  nd_Allocatable :: "(string, Quantity) gomap"
  nd_Capacity :: "(string, Quantity) gomap"

definition quantity :: "(string, Quantity) gomap \<Rightarrow> string \<Rightarrow> Quantity" where
  "quantity m k = lookup_default Quantity0 m k"

section \<open>Conditions\<close>

record NodeHealth =
  nh_Name :: string
  nh_Ready :: bool
  nh_MemoryPressure :: bool
  nh_DiskPressure :: bool
  nh_PIDPressure :: bool
  nh_NetworkUnavailable :: bool
  nh_Unschedulable :: bool
  nh_Conditions :: "NodeCondition list"

definition note_condition :: "NodeHealth \<Rightarrow> NodeCondition \<Rightarrow> NodeHealth" where
  "note_condition nh c =
     (let nh = nh\<lparr>nh_Conditions := nh_Conditions nh @ [c]\<rparr>; isTrue = (nc_Status c = ''True'')
      in if nc_Type c = ''Ready'' then nh\<lparr>nh_Ready := isTrue\<rparr>
         else if nc_Type c = ''MemoryPressure'' then nh\<lparr>nh_MemoryPressure := isTrue\<rparr>
         else if nc_Type c = ''DiskPressure'' then nh\<lparr>nh_DiskPressure := isTrue\<rparr>
         else if nc_Type c = ''PIDPressure'' then nh\<lparr>nh_PIDPressure := isTrue\<rparr>
         else if nc_Type c = ''NetworkUnavailable'' then nh\<lparr>nh_NetworkUnavailable := isTrue\<rparr>
         else nh)"

definition node_health :: "Node \<Rightarrow> NodeHealth" where
  "node_health n =
     foldl note_condition
       \<lparr>nh_Name = nd_Name n, nh_Ready = False, nh_MemoryPressure = False, nh_DiskPressure = False,
        nh_PIDPressure = False, nh_NetworkUnavailable = False, nh_Unschedulable = nd_Unschedulable n,
        nh_Conditions = []\<rparr> (nd_Conditions n)"

record HealthData =
  hd_NodeCount :: int
  hd_HealthyNodes :: int
  hd_UnhealthyNodes :: int
  hd_MemoryPressureNodes :: int
  hd_DiskPressureNodes :: int
  hd_PIDPressureNodes :: int
  hd_NotReadyNodes :: int
  hd_UnschedulableNodes :: int
  hd_Nodes :: "NodeHealth list"

definition HealthData0 :: HealthData where
  "HealthData0 = \<lparr>hd_NodeCount = 0, hd_HealthyNodes = 0, hd_UnhealthyNodes = 0, hd_MemoryPressureNodes = 0,
     hd_DiskPressureNodes = 0, hd_PIDPressureNodes = 0, hd_NotReadyNodes = 0, hd_UnschedulableNodes = 0,
     hd_Nodes = []\<rparr>"

definition healthy :: "NodeHealth \<Rightarrow> bool" where
  "healthy nh \<longleftrightarrow> nh_Ready nh \<and> \<not> nh_MemoryPressure nh \<and> \<not> nh_DiskPressure nh \<and> \<not> nh_PIDPressure nh \<and>
     \<not> nh_NetworkUnavailable nh"

definition count_node :: "HealthData \<Rightarrow> Node \<Rightarrow> HealthData" where
  "count_node d n =
     (let nh = node_health n
      in d\<lparr>hd_UnschedulableNodes := bump (nd_Unschedulable n) (hd_UnschedulableNodes d),
           hd_NotReadyNodes := bump (\<not> nh_Ready nh) (hd_NotReadyNodes d),
           hd_MemoryPressureNodes := bump (nh_MemoryPressure nh) (hd_MemoryPressureNodes d),
           hd_DiskPressureNodes := bump (nh_DiskPressure nh) (hd_DiskPressureNodes d),
           hd_PIDPressureNodes := bump (nh_PIDPressure nh) (hd_PIDPressureNodes d),
           hd_HealthyNodes := bump (healthy nh) (hd_HealthyNodes d),
           hd_UnhealthyNodes := bump (\<not> healthy nh) (hd_UnhealthyNodes d),
           hd_Nodes := hd_Nodes d @ [nh]\<rparr>)"

definition health_data :: "Node list \<Rightarrow> HealthData" where
  "health_data nodes =
     (let d = foldl count_node (HealthData0\<lparr>hd_NodeCount := int (length nodes)\<rparr>) nodes
      in d\<lparr>hd_Nodes := sort_key nh_Name (hd_Nodes d)\<rparr>)"

definition condition_json :: "NodeCondition \<Rightarrow> json" where
  "condition_json c = JObj ([(''type'', JStr (nc_Type c)), (''status'', JStr (nc_Status c))] @
     omit_empty ''reason'' (nc_Reason c) @ omit_empty ''message'' (nc_Message c))"

definition node_health_json :: "NodeHealth \<Rightarrow> json" where
  "node_health_json nh = JObj
     [(''name'', JStr (nh_Name nh)), (''ready'', JBool (nh_Ready nh)),
      (''memory_pressure'', JBool (nh_MemoryPressure nh)), (''disk_pressure'', JBool (nh_DiskPressure nh)),
      (''pid_pressure'', JBool (nh_PIDPressure nh)), (''network_unavailable'', JBool (nh_NetworkUnavailable nh)),
      (''unschedulable'', JBool (nh_Unschedulable nh)), (''conditions'', json_slice condition_json (nh_Conditions nh))]"

definition health_json :: "HealthData \<Rightarrow> json" where
  "health_json d = JObj
     [(''node_count'', JNum (of_int64 (hd_NodeCount d))),
      (''healthy_nodes'', JNum (of_int64 (hd_HealthyNodes d))),
      (''unhealthy_nodes'', JNum (of_int64 (hd_UnhealthyNodes d))),
      (''memory_pressure_nodes'', JNum (of_int64 (hd_MemoryPressureNodes d))),
      (''disk_pressure_nodes'', JNum (of_int64 (hd_DiskPressureNodes d))),
      (''pid_pressure_nodes'', JNum (of_int64 (hd_PIDPressureNodes d))),
      (''not_ready_nodes'', JNum (of_int64 (hd_NotReadyNodes d))),
      (''unschedulable_nodes'', JNum (of_int64 (hd_UnschedulableNodes d))),
      (''nodes'', json_slice node_health_json (hd_Nodes d))]"

definition scan_node_health :: "Node listing \<Rightarrow> Result \<times> coverageError option" where
  "scan_node_health nodes =
     Finish (noted Coverage0 ''nodes'' nodes) ''node-health'' (health_json (health_data (listing_items nodes)))"

section \<open>Capacity\<close>

definition wrap64 :: "int \<Rightarrow> int" where
  "wrap64 n = (n + 2 ^ 63) mod 2 ^ 64 - 2 ^ 63"

definition formatBytes :: "int \<Rightarrow> string" where
  "formatBytes b =
     (let gi = 1024 * 1024 * 1024; mi = 1024 * 1024
      in if b \<ge> gi then fmt_fixed1 (fdiv (of_int64 b) (of_int64 gi)) @ ''Gi''
         else fmt_fixed1 (fdiv (of_int64 b) (of_int64 mi)) @ ''Mi'')"

record NodeCapacity =
  np_Name :: string
  np_AllocatableCPU :: string
  np_AllocatableMemory :: string
  np_CapacityCPU :: string
  np_CapacityMemory :: string
  np_Conditions :: "(string, string) gomap"
  np_Unschedulable :: bool

record ResourceData =
  rd_NodeCount :: int
  rd_ReadyNodes :: int
  rd_UnschedulableNodes :: int
  rd_TotalAllocatableCPU :: string
  rd_TotalAllocatableMemory :: string
  rd_Nodes :: "NodeCapacity list"

definition capacity_of :: "Node \<Rightarrow> NodeCapacity" where
  "capacity_of n =
     \<lparr>np_Name = nd_Name n,
      np_AllocatableCPU = q_String (quantity (nd_Allocatable n) ''cpu''),
      np_AllocatableMemory = q_String (quantity (nd_Allocatable n) ''memory''),
      np_CapacityCPU = q_String (quantity (nd_Capacity n) ''cpu''),
      np_CapacityMemory = q_String (quantity (nd_Capacity n) ''memory''),
      np_Conditions = foldl (\<lambda>m c. AList.update (nc_Type c) (nc_Status c) m) [] (nd_Conditions n),
      np_Unschedulable = nd_Unschedulable n\<rparr>"

text \<open>The data with the two running sums, in millicores and bytes.\<close>

definition add_capacity :: "ResourceData \<times> int \<times> int \<Rightarrow> Node \<Rightarrow> ResourceData \<times> int \<times> int" where
  "add_capacity acc n =
     (let (d, milli, bytes) = acc
      in (d\<lparr>rd_ReadyNodes := foldl (\<lambda>k c. bump (nc_Type c = ''Ready'' \<and> nc_Status c = ''True'') k)
               (rd_ReadyNodes d) (nd_Conditions n),
            rd_UnschedulableNodes := bump (nd_Unschedulable n) (rd_UnschedulableNodes d),
            rd_Nodes := rd_Nodes d @ [capacity_of n]\<rparr>,
          wrap64 (milli + q_MilliValue (quantity (nd_Allocatable n) ''cpu'')),
          wrap64 (bytes + q_Value (quantity (nd_Allocatable n) ''memory''))))"

definition resource_data :: "Node list \<Rightarrow> ResourceData" where
  "resource_data nodes =
     (let (d, milli, bytes) = foldl add_capacity
        (\<lparr>rd_NodeCount = int (length nodes), rd_ReadyNodes = 0, rd_UnschedulableNodes = 0,
          rd_TotalAllocatableCPU = '''', rd_TotalAllocatableMemory = '''', rd_Nodes = []\<rparr>, 0, 0) nodes
      in d\<lparr>rd_Nodes := sort_key np_Name (rd_Nodes d), rd_TotalAllocatableCPU := Itoa milli @ ''m'',
           rd_TotalAllocatableMemory := formatBytes bytes\<rparr>)"

definition node_capacity_json :: "NodeCapacity \<Rightarrow> json" where
  "node_capacity_json n = JObj
     [(''name'', JStr (np_Name n)), (''allocatable_cpu'', JStr (np_AllocatableCPU n)),
      (''allocatable_memory'', JStr (np_AllocatableMemory n)), (''capacity_cpu'', JStr (np_CapacityCPU n)),
      (''capacity_memory'', JStr (np_CapacityMemory n)), (''conditions'', json_map JStr (np_Conditions n)),
      (''unschedulable'', JBool (np_Unschedulable n))]"

definition resource_json :: "ResourceData \<Rightarrow> json" where
  "resource_json d = JObj
     [(''node_count'', JNum (of_int64 (rd_NodeCount d))), (''ready_nodes'', JNum (of_int64 (rd_ReadyNodes d))),
      (''unschedulable_nodes'', JNum (of_int64 (rd_UnschedulableNodes d))),
      (''total_allocatable_cpu'', JStr (rd_TotalAllocatableCPU d)),
      (''total_allocatable_memory'', JStr (rd_TotalAllocatableMemory d)),
      (''nodes'', json_slice node_capacity_json (rd_Nodes d))]"

definition scan_resources :: "Node listing \<Rightarrow> Result \<times> coverageError option" where
  "scan_resources nodes =
     Finish (noted Coverage0 ''nodes'' nodes) ''resources'' (resource_json (resource_data (listing_items nodes)))"

section \<open>Platform\<close>

text \<open>\<open>uniqueStringSet\<close>: the distinct strings added, whose order \<open>sortedSlice\<close> fixes.\<close>

definition set_add :: "string list \<Rightarrow> string \<Rightarrow> string list" where
  "set_add s v = (if v = '''' \<or> v \<in> set s then s else s @ [v])"

definition sortedSlice :: "string list \<Rightarrow> string list" where "sortedSlice s = sort s"

record NodePlatform =
  npl_Name :: string
  npl_Info :: NodeSystemInfo

record PlatformData =
  pd_NodeCount :: int
  pd_OSImages :: "string list"
  pd_KernelVersions :: "string list"
  pd_RuntimeVersions :: "string list"
  pd_KubeletVersions :: "string list"
  pd_HasDrift :: bool
  pd_Nodes :: "NodePlatform list"

definition distinct_over :: "(NodeSystemInfo \<Rightarrow> string) \<Rightarrow> Node list \<Rightarrow> string list" where
  "distinct_over f nodes = sortedSlice (foldl (\<lambda>s n. set_add s (f (nd_NodeInfo n))) [] nodes)"

definition platform_data :: "Node list \<Rightarrow> PlatformData" where
  "platform_data nodes =
     (let images = distinct_over ni_OSImage nodes; kernels = distinct_over ni_KernelVersion nodes;
          runtimes = distinct_over ni_ContainerRuntimeVersion nodes; kubelets = distinct_over ni_KubeletVersion nodes
      in \<lparr>pd_NodeCount = int (length nodes), pd_OSImages = images, pd_KernelVersions = kernels,
          pd_RuntimeVersions = runtimes, pd_KubeletVersions = kubelets,
          pd_HasDrift = (length images > 1 \<or> length kernels > 1 \<or> length runtimes > 1 \<or> length kubelets > 1),
          pd_Nodes = take 200 (sort_key npl_Name (map (\<lambda>n. \<lparr>npl_Name = nd_Name n, npl_Info = nd_NodeInfo n\<rparr>) nodes))\<rparr>)"

definition node_platform_json :: "NodePlatform \<Rightarrow> json" where
  "node_platform_json n = JObj
     [(''name'', JStr (npl_Name n)), (''os_image'', JStr (ni_OSImage (npl_Info n))),
      (''kernel_version'', JStr (ni_KernelVersion (npl_Info n))),
      (''container_runtime_version'', JStr (ni_ContainerRuntimeVersion (npl_Info n))),
      (''kubelet_version'', JStr (ni_KubeletVersion (npl_Info n))),
      (''kube_proxy_version'', JStr (ni_KubeProxyVersion (npl_Info n)))]"

definition platform_json :: "PlatformData \<Rightarrow> json" where
  "platform_json d = JObj
     [(''node_count'', JNum (of_int64 (pd_NodeCount d))), (''os_images'', JArr (map JStr (pd_OSImages d))),
      (''kernel_versions'', JArr (map JStr (pd_KernelVersions d))),
      (''runtime_versions'', JArr (map JStr (pd_RuntimeVersions d))),
      (''kubelet_versions'', JArr (map JStr (pd_KubeletVersions d))), (''has_drift'', JBool (pd_HasDrift d)),
      (''nodes'', json_slice node_platform_json (pd_Nodes d))]"

definition scan_clusterinfo :: "Node listing \<Rightarrow> Result \<times> coverageError option" where
  "scan_clusterinfo nodes =
     Finish (noted Coverage0 ''nodes'' nodes) ''cluster-info'' (platform_json (platform_data (listing_items nodes)))"

text \<open>The version scanner asks discovery once and fails with it; its result is not folded by a coverage.\<close>

record VersionInfo =
  vi_Major :: string
  vi_Minor :: string
  vi_GitVersion :: string
  vi_Platform :: string

definition scan_version :: "string + VersionInfo \<Rightarrow> string + Result" where
  "scan_version answer =
     (case answer of
        Inl e \<Rightarrow> Inl (ErrScan @ '': version: '' @ e)
      | Inr info \<Rightarrow> Inr \<lparr>res_Scanner = ''version'', res_State = StateOK, res_Reason = '''',
          res_Data = JObj [(''major'', JStr (vi_Major info)), (''minor'', JStr (vi_Minor info)),
            (''git_version'', JStr (vi_GitVersion info)), (''platform'', JStr (vi_Platform info))]\<rparr>)"

section \<open>Utilization\<close>

record NodeMetrics =
  nm_Name :: string
  nm_CPUUsage :: string
  nm_MemoryUsage :: string
  nm_CPUPercent :: float64
  nm_MemoryPercent :: float64

text \<open>\<open>obj[k].(map[string]any)\<close> and \<open>obj[k].(string)\<close> of an unstructured object; \<open>ParseQuantity\<close> is a
  parameter.\<close>

definition sub_object :: "string \<Rightarrow> (string \<times> json) list \<Rightarrow> (string \<times> json) list option" where
  "sub_object k m = (case map_of m k of Some (JObj o1) \<Rightarrow> Some o1 | _ \<Rightarrow> None)"

definition used_percent :: "int \<Rightarrow> int \<Rightarrow> float64 \<Rightarrow> float64" where
  "used_percent used avail unknown =
     (if used > 0 then fmul (fdiv (of_int64 used) (of_int64 avail)) 100 else unknown)"

definition extractNodeMetrics ::
  "(string \<Rightarrow> Quantity option) \<Rightarrow> (string \<times> json) list \<Rightarrow> (string, int \<times> int) gomap \<Rightarrow> NodeMetrics" where
  "extractNodeMetrics parse obj alloc =
     (let nm = \<lparr>nm_Name = (case sub_object ''metadata'' obj of None \<Rightarrow> '''' | Some meta \<Rightarrow> json_string (map_of meta ''name'')),
                nm_CPUUsage = '''', nm_MemoryUsage = '''', nm_CPUPercent = - 1, nm_MemoryPercent = - 1\<rparr>
      in case sub_object ''usage'' obj of
           None \<Rightarrow> nm
         | Some usage \<Rightarrow>
             let nm = nm\<lparr>nm_CPUUsage := json_string (map_of usage ''cpu''),
                         nm_MemoryUsage := json_string (map_of usage ''memory'')\<rparr>
             in case map_of alloc (nm_Name nm) of
                  None \<Rightarrow> nm
                | Some (milli, bytes) \<Rightarrow>
                    if milli \<le> 0 \<or> bytes \<le> 0 then nm
                    else nm\<lparr>nm_CPUPercent := (case parse (nm_CPUUsage nm) of None \<Rightarrow> - 1
                                | Some q \<Rightarrow> used_percent (q_MilliValue q) milli (- 1)),
                            nm_MemoryPercent := (case parse (nm_MemoryUsage nm) of None \<Rightarrow> - 1
                                | Some q \<Rightarrow> used_percent (q_Value q) bytes (- 1))\<rparr>)"

record Usage =
  us_Nodes :: int
  us_TotalCPU :: float64
  us_TotalMem :: float64
  us_MaxCPU :: float64
  us_MaxMem :: float64
  us_MaxCPUNode :: string
  us_MaxMemoryNode :: string

definition resolved :: "NodeMetrics \<Rightarrow> bool" where
  "resolved nm \<longleftrightarrow> \<not> (nm_CPUPercent nm < 0 \<or> nm_MemoryPercent nm < 0)"

definition add_usage :: "Usage \<Rightarrow> NodeMetrics \<Rightarrow> Usage" where
  "add_usage u nm =
     (if \<not> resolved nm then u
      else
        let first = (us_Nodes u + 1 = 1);
            u = u\<lparr>us_Nodes := us_Nodes u + 1, us_TotalCPU := fadd (us_TotalCPU u) (nm_CPUPercent nm),
                  us_TotalMem := fadd (us_TotalMem u) (nm_MemoryPercent nm)\<rparr>;
            u = (if first \<or> nm_CPUPercent nm > us_MaxCPU u
                 then u\<lparr>us_MaxCPU := nm_CPUPercent nm, us_MaxCPUNode := nm_Name nm\<rparr> else u)
        in if first \<or> nm_MemoryPercent nm > us_MaxMem u
           then u\<lparr>us_MaxMem := nm_MemoryPercent nm, us_MaxMemoryNode := nm_Name nm\<rparr> else u)"

definition aggregate :: "NodeMetrics list \<Rightarrow> Usage" where
  "aggregate nodes = foldl add_usage
     \<lparr>us_Nodes = 0, us_TotalCPU = 0, us_TotalMem = 0, us_MaxCPU = 0, us_MaxMem = 0, us_MaxCPUNode = '''',
      us_MaxMemoryNode = ''''\<rparr> nodes"

definition usage_members :: "Usage \<Rightarrow> (string \<times> json) list" where
  "usage_members u =
     (if us_Nodes u = 0 then []
      else [(''avg_cpu_percent'', JNum (fdiv (us_TotalCPU u) (of_int64 (us_Nodes u)))),
            (''avg_memory_percent'', JNum (fdiv (us_TotalMem u) (of_int64 (us_Nodes u)))),
            (''max_cpu_percent'', JNum (us_MaxCPU u)), (''max_memory_percent'', JNum (us_MaxMem u))])"

definition node_metrics_json :: "NodeMetrics \<Rightarrow> json" where
  "node_metrics_json nm = JObj
     [(''name'', JStr (nm_Name nm)), (''cpu_usage'', JStr (nm_CPUUsage nm)), (''memory_usage'', JStr (nm_MemoryUsage nm)),
      (''cpu_percent'', JNum (nm_CPUPercent nm)), (''memory_percent'', JNum (nm_MemoryPercent nm))]"

definition metrics_json :: "NodeMetrics list \<Rightarrow> json" where
  "metrics_json nodes =
     (let u = aggregate nodes
      in JObj ([(''available'', JBool True), (''node_count'', json_nat (length nodes)),
                (''nodes_with_usage'', JNum (of_int64 (us_Nodes u)))] @ usage_members u @
               omit_empty ''max_cpu_node'' (us_MaxCPUNode u) @ omit_empty ''max_memory_node'' (us_MaxMemoryNode u) @
               [(''nodes'', json_slice node_metrics_json (sort_key nm_Name nodes))]))"

definition no_metrics :: json where
  "no_metrics = JObj [(''available'', JBool False), (''node_count'', JNum 0), (''nodes_with_usage'', JNum 0),
     (''nodes'', JNull)]"

definition allocatable_of :: "Node list \<Rightarrow> (string, int \<times> int) gomap" where
  "allocatable_of nodes =
     foldl (\<lambda>m n. AList.update (nd_Name n)
       (q_MilliValue (quantity (nd_Allocatable n) ''cpu''), q_Value (quantity (nd_Allocatable n) ''memory'')) m) [] nodes"

definition scan_metrics ::
  "(string \<Rightarrow> Quantity option) \<Rightarrow> bool \<Rightarrow> (string \<times> json) list listing \<Rightarrow> Node listing \<Rightarrow>
     Result \<times> coverageError option" where
  "scan_metrics parse dynamic items nodes =
     (if \<not> dynamic
      then (\<lparr>res_Scanner = ''metrics'', res_State = StateErrored, res_Reason = ''no dynamic client'', res_Data = JNull\<rparr>,
            Some \<lparr>ce_msg = ErrScan @ '': metrics: no dynamic client'', ce_errs = []\<rparr>)
      else
        let cov = noted Coverage0 ''node metrics'' items
        in case items of
             Inl err \<Rightarrow> Finish cov ''metrics'' no_metrics
           | Inr objs \<Rightarrow>
               Finish (noted cov ''nodes'' nodes) ''metrics''
                 (metrics_json (map (\<lambda>obj. extractNodeMetrics parse obj (allocatable_of (listing_items nodes))) objs)))"

section \<open>What the counts are\<close>

text \<open>A node is ready when its last \<open>Ready\<close> condition is true; one without the condition is not.\<close>

definition last_status :: "string \<Rightarrow> Node \<Rightarrow> string option" where
  "last_status kind n =
     (case filter (\<lambda>c. nc_Type c = kind) (nd_Conditions n) of [] \<Rightarrow> None | cs \<Rightarrow> Some (nc_Status (last cs)))"

lemma last_status_snoc:
  "last_status kind (n\<lparr>nd_Conditions := cs @ [c]\<rparr>) =
     (if nc_Type c = kind then Some (nc_Status c) else last_status kind (n\<lparr>nd_Conditions := cs\<rparr>))"
proof -
  have "(case ys @ [c] of [] \<Rightarrow> None | cs \<Rightarrow> Some (nc_Status (last cs))) = Some (nc_Status c)" for ys
    by (cases ys) simp_all
  then show ?thesis by (simp add: last_status_def)
qed

definition health_from :: "Node \<Rightarrow> NodeCondition list \<Rightarrow> NodeHealth" where
  "health_from n cs = node_health (n\<lparr>nd_Conditions := cs\<rparr>)"

lemma node_health_fields:
  "nh_Ready (health_from n cs) = (last_status ''Ready'' (n\<lparr>nd_Conditions := cs\<rparr>) = Some ''True'')"
  "nh_MemoryPressure (health_from n cs) = (last_status ''MemoryPressure'' (n\<lparr>nd_Conditions := cs\<rparr>) = Some ''True'')"
  "nh_DiskPressure (health_from n cs) = (last_status ''DiskPressure'' (n\<lparr>nd_Conditions := cs\<rparr>) = Some ''True'')"
  "nh_PIDPressure (health_from n cs) = (last_status ''PIDPressure'' (n\<lparr>nd_Conditions := cs\<rparr>) = Some ''True'')"
  "nh_NetworkUnavailable (health_from n cs) = (last_status ''NetworkUnavailable'' (n\<lparr>nd_Conditions := cs\<rparr>) = Some ''True'')"
proof (induction cs rule: rev_induct)
  case Nil
  {
    case 1 show ?case by (simp add: health_from_def node_health_def last_status_def)
  next
    case 2 show ?case by (simp add: health_from_def node_health_def last_status_def)
  next
    case 3 show ?case by (simp add: health_from_def node_health_def last_status_def)
  next
    case 4 show ?case by (simp add: health_from_def node_health_def last_status_def)
  next
    case 5 show ?case by (simp add: health_from_def node_health_def last_status_def)
  }
next
  case (snoc c cs)
  have step: "health_from n (cs @ [c]) = note_condition (health_from n cs) c"
    by (simp add: health_from_def node_health_def)
  note IH = snoc.IH
  {
    case 1 show ?case using IH(1) by (auto simp: step last_status_snoc note_condition_def Let_def)
  next
    case 2 show ?case using IH(2) by (auto simp: step last_status_snoc note_condition_def Let_def)
  next
    case 3 show ?case using IH(3) by (auto simp: step last_status_snoc note_condition_def Let_def)
  next
    case 4 show ?case using IH(4) by (auto simp: step last_status_snoc note_condition_def Let_def)
  next
    case 5 show ?case using IH(5) by (auto simp: step last_status_snoc note_condition_def Let_def)
  }
qed

lemma node_health_status:
  "nh_Ready (node_health n) = (last_status ''Ready'' n = Some ''True'')"
  "nh_MemoryPressure (node_health n) = (last_status ''MemoryPressure'' n = Some ''True'')"
  "nh_DiskPressure (node_health n) = (last_status ''DiskPressure'' n = Some ''True'')"
  "nh_PIDPressure (node_health n) = (last_status ''PIDPressure'' n = Some ''True'')"
  "nh_NetworkUnavailable (node_health n) = (last_status ''NetworkUnavailable'' n = Some ''True'')"
  using node_health_fields [of n "nd_Conditions n"] by (simp_all add: health_from_def)

lemma count_nodes:
  "hd_NodeCount (foldl count_node d nodes) = hd_NodeCount d"
  "hd_HealthyNodes (foldl count_node d nodes) = hd_HealthyNodes d + tally (\<lambda>n. healthy (node_health n)) nodes"
  "hd_UnhealthyNodes (foldl count_node d nodes) = hd_UnhealthyNodes d + tally (\<lambda>n. \<not> healthy (node_health n)) nodes"
  "hd_MemoryPressureNodes (foldl count_node d nodes) =
     hd_MemoryPressureNodes d + tally (\<lambda>n. nh_MemoryPressure (node_health n)) nodes"
  "hd_DiskPressureNodes (foldl count_node d nodes) =
     hd_DiskPressureNodes d + tally (\<lambda>n. nh_DiskPressure (node_health n)) nodes"
  "hd_PIDPressureNodes (foldl count_node d nodes) =
     hd_PIDPressureNodes d + tally (\<lambda>n. nh_PIDPressure (node_health n)) nodes"
  "hd_NotReadyNodes (foldl count_node d nodes) =
     hd_NotReadyNodes d + tally (\<lambda>n. \<not> nh_Ready (node_health n)) nodes"
  "hd_UnschedulableNodes (foldl count_node d nodes) = hd_UnschedulableNodes d + tally nd_Unschedulable nodes"
  "hd_Nodes (foldl count_node d nodes) = hd_Nodes d @ map node_health nodes"
  by (induction nodes arbitrary: d) (simp_all add: count_node_def Let_def bump_eq)

lemma health_data_counts:
  "hd_NodeCount (health_data nodes) = int (length nodes)"
  "hd_HealthyNodes (health_data nodes) = tally (\<lambda>n. healthy (node_health n)) nodes"
  "hd_UnhealthyNodes (health_data nodes) = tally (\<lambda>n. \<not> healthy (node_health n)) nodes"
  "hd_NotReadyNodes (health_data nodes) = tally (\<lambda>n. last_status ''Ready'' n \<noteq> Some ''True'') nodes"
  "hd_Nodes (health_data nodes) = sort_key nh_Name (map node_health nodes)"
  by (simp_all add: health_data_def Let_def count_nodes HealthData0_def node_health_status)

lemma tally_split: "tally P xs + tally (\<lambda>x. \<not> P x) xs = int (length xs)"
  by (induction xs) auto

lemma tally_positive: "0 < tally P xs \<longleftrightarrow> list_ex P xs"
  by (auto simp: tally_def list_ex_iff filter_empty_conv)

lemma health_partition:
  "hd_HealthyNodes (health_data nodes) + hd_UnhealthyNodes (health_data nodes) = hd_NodeCount (health_data nodes)"
  "hd_NotReadyNodes (health_data nodes) \<le> hd_UnhealthyNodes (health_data nodes)"
proof -
  show "hd_HealthyNodes (health_data nodes) + hd_UnhealthyNodes (health_data nodes) = hd_NodeCount (health_data nodes)"
    by (simp add: health_data_counts tally_split)
  have "tally (\<lambda>n. last_status ''Ready'' n \<noteq> Some ''True'') nodes \<le> tally (\<lambda>n. \<not> healthy (node_health n)) nodes"
    by (induction nodes) (auto simp: healthy_def node_health_status)
  then show "hd_NotReadyNodes (health_data nodes) \<le> hd_UnhealthyNodes (health_data nodes)"
    by (simp add: health_data_counts)
qed

text \<open>What the result of the scanner says of the nodes, when they could be listed.\<close>

lemma scan_node_health_ok:
  "scan_node_health (Inr nodes) =
     (\<lparr>res_Scanner = ''node-health'', res_State = StateOK, res_Reason = '''', res_Data = health_json (health_data nodes)\<rparr>, None)"
  by (simp add: scan_node_health_def noted_def listing_error_def listing_items_def Observe_def Coverage0_def
      Finish_def finish_flags_def)

section \<open>Platform and utilization\<close>

lemma set_add_fold:
  "distinct s \<Longrightarrow> distinct (foldl (\<lambda>s n. set_add s (f n)) s nodes) \<and>
     set (foldl (\<lambda>s n. set_add s (f n)) s nodes) = set s \<union> (f ` set nodes - {''''})"
  by (induction nodes arbitrary: s) (auto simp: set_add_def)

lemma distinct_over_set:
  "set (distinct_over f nodes) = (\<lambda>n. f (nd_NodeInfo n)) ` set nodes - {''''}" "distinct (distinct_over f nodes)"
  using set_add_fold [of "[]" "\<lambda>n. f (nd_NodeInfo n)" nodes]
  by (simp_all add: distinct_over_def sortedSlice_def distinct_sort)

lemma several_iff: "distinct xs \<Longrightarrow> 1 < length xs \<longleftrightarrow> (\<exists>x \<in> set xs. \<exists>y \<in> set xs. x \<noteq> y)"
proof (cases xs rule: remdups_adj.cases)
  case (3 x y zs)
  assume "distinct xs"
  then show ?thesis using 3 by auto
qed auto

text \<open>Two nodes that both report a value and report different ones are what drift means.\<close>

definition differ_in :: "(NodeSystemInfo \<Rightarrow> string) \<Rightarrow> Node list \<Rightarrow> bool" where
  "differ_in f nodes \<longleftrightarrow>
     (\<exists>m \<in> set nodes. \<exists>n \<in> set nodes. f (nd_NodeInfo m) \<noteq> '''' \<and> f (nd_NodeInfo n) \<noteq> '''' \<and>
        f (nd_NodeInfo m) \<noteq> f (nd_NodeInfo n))"

lemma distinct_over_differ: "Suc 0 < length (distinct_over f nodes) \<longleftrightarrow> differ_in f nodes"
  using several_iff [OF distinct_over_set(2), of f nodes]
  by (auto simp: distinct_over_set(1) differ_in_def)

lemma platform_drift:
  "pd_HasDrift (platform_data nodes) \<longleftrightarrow>
     differ_in ni_OSImage nodes \<or> differ_in ni_KernelVersion nodes \<or>
     differ_in ni_ContainerRuntimeVersion nodes \<or> differ_in ni_KubeletVersion nodes"
  by (simp add: platform_data_def Let_def distinct_over_differ)

definition usage_inv :: "NodeMetrics list \<Rightarrow> Usage \<Rightarrow> bool" where
  "usage_inv nodes u \<longleftrightarrow>
     us_Nodes u = tally resolved nodes \<and>
     (\<forall>nm \<in> set nodes. resolved nm \<longrightarrow> nm_CPUPercent nm \<le> us_MaxCPU u \<and> nm_MemoryPercent nm \<le> us_MaxMem u) \<and>
     (us_Nodes u \<noteq> 0 \<longrightarrow>
        (\<exists>nm \<in> set nodes. resolved nm \<and> nm_CPUPercent nm = us_MaxCPU u \<and> nm_Name nm = us_MaxCPUNode u) \<and>
        (\<exists>nm \<in> set nodes. resolved nm \<and> nm_MemoryPercent nm = us_MaxMem u \<and> nm_Name nm = us_MaxMemoryNode u))"

lemma usage_inv_step: "usage_inv nodes u \<Longrightarrow> usage_inv (nodes @ [nm]) (add_usage u nm)"
  using tally_nonneg(1) [of resolved nodes] tally_positive [of resolved nodes]
  by (fastforce simp: usage_inv_def add_usage_def Let_def list_ex_iff)

text \<open>The utilization of a cluster covers exactly the nodes whose usage resolved; each maximum is that
  of a node that is named, and nothing is said when no node resolved.\<close>

lemma aggregate_inv: "usage_inv nodes (aggregate nodes)"
proof (induction nodes rule: rev_induct)
  case Nil
  show ?case by (simp add: usage_inv_def aggregate_def)
next
  case (snoc nm nodes)
  have "aggregate (nodes @ [nm]) = add_usage (aggregate nodes) nm" by (simp add: aggregate_def)
  then show ?case using usage_inv_step [OF snoc] by simp
qed

lemma no_usage_no_members: "usage_members (aggregate nodes) = [] \<longleftrightarrow> \<not> list_ex resolved nodes"
  using aggregate_inv [of nodes] tally_positive [of resolved nodes] tally_nonneg(1) [of resolved nodes]
  by (auto simp: usage_members_def usage_inv_def)

end
