(* ===== verification/Scan_Namespaces.thy ===== *)
theory Scan_Namespaces
  imports Scan_Nodes
begin

text \<open>
  The scanners that inventory the namespaced configuration of a cluster, from the listed objects to
  the result: namespaces, their Pod Security labels (\<open>security\<close>), network policies, resource quotas
  and limit ranges, services, ingresses, custom resource definitions, and roles and bindings
  (\<open>rbac\<close>), under \<open>internal/scanner\<close>. An object is the record of the fields the code reads. Lists
  sorted with \<open>sort.Slice\<close> are sorted stably; but for \<open>rbac\<close> their keys are unique in a cluster.
\<close>

section \<open>Objects\<close>

record ObjectMeta =
  om_Namespace :: string
  om_Name :: string
  om_Labels :: "(string, string) gomap"

definition meta_key :: "ObjectMeta \<Rightarrow> string \<times> string" where
  "meta_key m = (om_Namespace m, om_Name m)"

text \<open>A set of namespaces kept as the keys of a map, of which only the number is read.\<close>

definition namespaces_of :: "('a \<Rightarrow> ObjectMeta) \<Rightarrow> 'a list \<Rightarrow> string list" where
  "namespaces_of f objs = remdups (map (\<lambda>x. om_Namespace (f x)) objs)"

section \<open>Namespaces\<close>

definition namespace_labels :: "ObjectMeta list \<Rightarrow> (string, (string, string) gomap) gomap" where
  "namespace_labels nss =
     foldl (\<lambda>m ns. if om_Labels ns \<noteq> [] then AList.update (om_Name ns) (om_Labels ns) m else m) [] nss"

definition namespace_json :: "ObjectMeta list \<Rightarrow> json" where
  "namespace_json nss =
     (let labels = namespace_labels nss
      in JObj ([(''count'', json_nat (length nss)), (''names'', JArr (map JStr (sort (map om_Name nss))))] @
           (if labels = [] then [] else [(''labels'', json_map (json_map JStr) labels)])))"

definition scan_namespaces :: "ObjectMeta listing \<Rightarrow> Result \<times> coverageError option" where
  "scan_namespaces nss =
     Finish (noted Coverage0 ''namespaces'' nss) ''namespaces'' (namespace_json (listing_items nss))"

section \<open>Pod Security labels\<close>

definition labelEnforce :: string where "labelEnforce = ''pod-security.kubernetes.io/enforce''"
definition labelEnforceVer :: string where "labelEnforceVer = ''pod-security.kubernetes.io/enforce-version''"
definition labelAudit :: string where "labelAudit = ''pod-security.kubernetes.io/audit''"
definition labelAuditVer :: string where "labelAuditVer = ''pod-security.kubernetes.io/audit-version''"
definition labelWarn :: string where "labelWarn = ''pod-security.kubernetes.io/warn''"
definition labelWarnVer :: string where "labelWarnVer = ''pod-security.kubernetes.io/warn-version''"
definition levelPrivileged :: string where "levelPrivileged = ''privileged''"

record NamespaceSecurity =
  nsec_Namespace :: string
  nsec_Enforce :: string
  nsec_EnforceVersion :: string
  nsec_Audit :: string
  nsec_AuditVersion :: string
  nsec_Warn :: string
  nsec_WarnVersion :: string

record SecurityData =
  sd_NamespaceCount :: int
  sd_EnforcedCount :: int
  sd_UnenforcedCount :: int
  sd_LevelDistribution :: "(string, int) gomap"
  sd_Namespaces :: "NamespaceSecurity list"

definition Enforced :: "string \<Rightarrow> bool" where
  "Enforced level \<longleftrightarrow> level \<noteq> '''' \<and> level \<noteq> levelPrivileged"

definition namespace_security :: "ObjectMeta \<Rightarrow> NamespaceSecurity" where
  "namespace_security ns =
     (let label = lookup_default '''' (om_Labels ns)
      in \<lparr>nsec_Namespace = om_Name ns, nsec_Enforce = label labelEnforce, nsec_EnforceVersion = label labelEnforceVer,
          nsec_Audit = label labelAudit, nsec_AuditVersion = label labelAuditVer, nsec_Warn = label labelWarn,
          nsec_WarnVersion = label labelWarnVer\<rparr>)"

definition level_name :: "NamespaceSecurity \<Rightarrow> string" where
  "level_name s = (if nsec_Enforce s \<noteq> '''' then nsec_Enforce s else ''none'')"

definition count_namespace :: "SecurityData \<Rightarrow> ObjectMeta \<Rightarrow> SecurityData" where
  "count_namespace d ns =
     (let s = namespace_security ns
      in d\<lparr>sd_EnforcedCount := bump (Enforced (nsec_Enforce s)) (sd_EnforcedCount d),
           sd_UnenforcedCount := bump (\<not> Enforced (nsec_Enforce s)) (sd_UnenforcedCount d),
           sd_LevelDistribution := map_incr (level_name s) (sd_LevelDistribution d),
           sd_Namespaces := sd_Namespaces d @ [s]\<rparr>)"

definition security_data :: "ObjectMeta list \<Rightarrow> SecurityData" where
  "security_data nss =
     (let d = foldl count_namespace
        \<lparr>sd_NamespaceCount = int (length nss), sd_EnforcedCount = 0, sd_UnenforcedCount = 0,
         sd_LevelDistribution = [], sd_Namespaces = []\<rparr> nss
      in d\<lparr>sd_Namespaces := sort_key nsec_Namespace (sd_Namespaces d)\<rparr>)"

definition namespace_security_json :: "NamespaceSecurity \<Rightarrow> json" where
  "namespace_security_json s = JObj ((''namespace'', JStr (nsec_Namespace s)) #
     omit_empty ''enforce'' (nsec_Enforce s) @ omit_empty ''enforce_version'' (nsec_EnforceVersion s) @
     omit_empty ''audit'' (nsec_Audit s) @ omit_empty ''audit_version'' (nsec_AuditVersion s) @
     omit_empty ''warn'' (nsec_Warn s) @ omit_empty ''warn_version'' (nsec_WarnVersion s))"

definition security_json :: "SecurityData \<Rightarrow> json" where
  "security_json d = JObj
     [(''namespace_count'', JNum (of_int64 (sd_NamespaceCount d))),
      (''enforced_count'', JNum (of_int64 (sd_EnforcedCount d))),
      (''unenforced_count'', JNum (of_int64 (sd_UnenforcedCount d))),
      (''level_distribution'', json_map (\<lambda>n. JNum (of_int64 n)) (sd_LevelDistribution d)),
      (''namespaces'', json_slice namespace_security_json (sd_Namespaces d))]"

definition scan_security :: "ObjectMeta listing \<Rightarrow> Result \<times> coverageError option" where
  "scan_security nss =
     Finish (noted Coverage0 ''namespaces'' nss) ''security'' (security_json (security_data (listing_items nss)))"

section \<open>Network policies\<close>

record NetworkPolicy =
  np_Meta :: ObjectMeta
  np_PolicyTypes :: "string list"
  np_Ingress :: nat
  np_Egress :: nat

definition policy_info_json :: "NetworkPolicy \<Rightarrow> json" where
  "policy_info_json p = JObj
     [(''namespace'', JStr (om_Namespace (np_Meta p))), (''name'', JStr (om_Name (np_Meta p))),
      (''policy_types'', JArr (map JStr (np_PolicyTypes p))), (''ingress_rule_count'', json_nat (np_Ingress p)),
      (''egress_rule_count'', json_nat (np_Egress p))]"

definition namespaces_without :: "NetworkPolicy list \<Rightarrow> ObjectMeta list \<Rightarrow> int" where
  "namespaces_without policies nss = int (length nss) - int (length (namespaces_of np_Meta policies))"

definition policies_json :: "NetworkPolicy list \<Rightarrow> ObjectMeta list \<Rightarrow> json" where
  "policies_json policies nss = JObj
     [(''count'', json_nat (length policies)),
      (''namespaces_with_policies'', json_nat (length (namespaces_of np_Meta policies))),
      (''namespaces_without_policies'', JNum (of_int64 (namespaces_without policies nss))),
      (''policies'', JArr (map policy_info_json (sort_key (\<lambda>p. meta_key (np_Meta p)) policies)))]"

definition scan_networkpolicies :: "NetworkPolicy listing \<Rightarrow> ObjectMeta listing \<Rightarrow> Result \<times> coverageError option" where
  "scan_networkpolicies policies nss =
     Finish (needed (needed Coverage0 ''network policies'' policies) ''namespaces'' nss) ''network-policies''
       (policies_json (listing_items policies) (listing_items nss))"

section \<open>Quotas and limit ranges\<close>

record ResourceQuota =
  rq_Meta :: ObjectMeta
  rq_Hard :: "(string, Quantity) gomap"
  rq_Used :: "(string, Quantity) gomap"

record LimitRange =
  lr_Meta :: ObjectMeta
  lr_Limits :: nat

definition quota_json :: "ResourceQuota \<Rightarrow> json" where
  "quota_json q = JObj
     [(''namespace'', JStr (om_Namespace (rq_Meta q))), (''name'', JStr (om_Name (rq_Meta q))),
      (''hard'', json_map (\<lambda>v. JStr (q_String v)) (rq_Hard q)), (''used'', json_map (\<lambda>v. JStr (q_String v)) (rq_Used q))]"

definition limit_range_json :: "LimitRange \<Rightarrow> json" where
  "limit_range_json l = JObj
     [(''namespace'', JStr (om_Namespace (lr_Meta l))), (''name'', JStr (om_Name (lr_Meta l))),
      (''item_count'', json_nat (lr_Limits l))]"

definition quotas_json :: "ResourceQuota list \<Rightarrow> LimitRange list \<Rightarrow> json" where
  "quotas_json quotas ranges = JObj
     [(''quota_count'', json_nat (length quotas)), (''limit_range_count'', json_nat (length ranges)),
      (''namespaces_with_quotas'', json_nat (length (namespaces_of rq_Meta quotas))),
      (''quotas'', JArr (map quota_json (sort_key (\<lambda>q. meta_key (rq_Meta q)) quotas))),
      (''limit_ranges'', JArr (map limit_range_json (sort_key (\<lambda>l. meta_key (lr_Meta l)) ranges)))]"

definition scan_quotas :: "ResourceQuota listing \<Rightarrow> LimitRange listing \<Rightarrow> Result \<times> coverageError option" where
  "scan_quotas quotas ranges =
     Finish (needed (needed Coverage0 ''resource quotas'' quotas) ''limit ranges'' ranges) ''resource-quotas''
       (quotas_json (listing_items quotas) (listing_items ranges))"

section \<open>Services, ingresses and custom resource definitions\<close>

record ServicePort =
  sp_Name :: string
  sp_Port :: int
  sp_Protocol :: string

record Service =
  svc_Meta :: ObjectMeta
  svc_Type :: string
  svc_Ports :: "ServicePort list"

definition port_json :: "ServicePort \<Rightarrow> json" where
  "port_json p = JObj (omit_empty ''name'' (sp_Name p) @
     [(''port'', JNum (of_int64 (sp_Port p))), (''protocol'', JStr (sp_Protocol p))])"

definition service_json :: "Service \<Rightarrow> json" where
  "service_json s = JObj ([(''namespace'', JStr (om_Namespace (svc_Meta s))), (''name'', JStr (om_Name (svc_Meta s))),
     (''type'', JStr (svc_Type s))] @
     (if svc_Ports s = [] then [] else [(''ports'', JArr (map port_json (svc_Ports s)))]))"

definition services_json :: "Service list \<Rightarrow> json" where
  "services_json svcs = JObj
     [(''count'', json_nat (length svcs)),
      (''services'', JArr (map service_json (sort_key (\<lambda>s. meta_key (svc_Meta s)) svcs)))]"

definition scan_services :: "Service listing \<Rightarrow> Result \<times> coverageError option" where
  "scan_services svcs =
     Finish (noted Coverage0 ''services'' svcs) ''services'' (services_json (listing_items svcs))"

record Ingress =
  ing_Meta :: ObjectMeta
  ing_ClassName :: "string option"
  ing_RuleHosts :: "string list"
  ing_TLS :: nat

definition ingress_json :: "Ingress \<Rightarrow> json" where
  "ingress_json i =
     (let hosts = filter (\<lambda>h. h \<noteq> '''') (ing_RuleHosts i)
      in JObj ([(''namespace'', JStr (om_Namespace (ing_Meta i))), (''name'', JStr (om_Name (ing_Meta i)))] @
           omit_empty ''ingress_class_name'' (case ing_ClassName i of None \<Rightarrow> '''' | Some c \<Rightarrow> c) @
           (if hosts = [] then [] else [(''hosts'', JArr (map JStr hosts))]) @
           [(''tls'', JBool (ing_TLS i > 0))]))"

definition ingresses_json :: "Ingress list \<Rightarrow> json" where
  "ingresses_json ings = JObj
     [(''count'', json_nat (length ings)),
      (''ingresses'', JArr (map ingress_json (sort_key (\<lambda>i. meta_key (ing_Meta i)) ings)))]"

definition scan_ingresses :: "Ingress listing \<Rightarrow> Result \<times> coverageError option" where
  "scan_ingresses ings =
     Finish (noted Coverage0 ''ingresses'' ings) ''ingresses'' (ingresses_json (listing_items ings))"

record CRDInfo =
  crd_Name :: string
  crd_Group :: string
  crd_Versions :: "string list"
  crd_Scope :: string

definition version_name :: "json \<Rightarrow> string option" where
  "version_name v = (case v of JObj m \<Rightarrow> (case map_of m ''name'' of Some (JStr n) \<Rightarrow> Some n | _ \<Rightarrow> None) | _ \<Rightarrow> None)"

definition extractCRDInfo :: "(string \<times> json) list \<Rightarrow> CRDInfo" where
  "extractCRDInfo obj =
     (let info = \<lparr>crd_Name = (case sub_object ''metadata'' obj of None \<Rightarrow> '''' | Some meta \<Rightarrow> json_string (map_of meta ''name'')),
                  crd_Group = '''', crd_Versions = [], crd_Scope = ''''\<rparr>
      in case sub_object ''spec'' obj of
           None \<Rightarrow> info
         | Some sp \<Rightarrow> info\<lparr>crd_Group := json_string (map_of sp ''group''), crd_Scope := json_string (map_of sp ''scope''),
             crd_Versions := (case map_of sp ''versions'' of Some (JArr vs) \<Rightarrow> List.map_filter version_name vs | _ \<Rightarrow> [])\<rparr>)"

definition crd_json :: "CRDInfo \<Rightarrow> json" where
  "crd_json c = JObj [(''name'', JStr (crd_Name c)), (''group'', JStr (crd_Group c)),
     (''versions'', json_slice JStr (crd_Versions c)), (''scope'', JStr (crd_Scope c))]"

definition crds_json :: "(string \<times> json) list list \<Rightarrow> json" where
  "crds_json objs = JObj [(''count'', json_nat (length objs)),
     (''crds'', JArr (map crd_json (sort_key crd_Name (map extractCRDInfo objs))))]"

definition scan_crds :: "bool \<Rightarrow> (string \<times> json) list listing \<Rightarrow> Result \<times> coverageError option" where
  "scan_crds dynamic objs =
     (if \<not> dynamic
      then (\<lparr>res_Scanner = ''crds'', res_State = StateOK, res_Reason = '''', res_Data = JNull\<rparr>,
            Some \<lparr>ce_msg = ErrScan @ '': crds: dynamic client unavailable'', ce_errs = []\<rparr>)
      else Finish (noted Coverage0 ''custom resource definitions'' objs) ''crds'' (crds_json (listing_items objs)))"

section \<open>Roles and bindings\<close>

text \<open>\<open>sort.Slice\<close> leaves open how roles of one kind and name, in different namespaces, are ordered;
  here they keep the order they were listed in.\<close>

record PolicyRule =
  pl_Verbs :: "string list"
  pl_Resources :: "string list"
  pl_APIGroups :: "string list"

record Role =
  ro_Meta :: ObjectMeta
  ro_Rules :: "PolicyRule list"

record Subject =
  sj_Kind :: string
  sj_Namespace :: string
  sj_Name :: string

record Binding =
  bi_Meta :: ObjectMeta
  bi_RoleRefKind :: string
  bi_RoleRef :: string
  bi_Subjects :: "Subject list"

record RoleInfo =
  ri_Kind :: string
  ri_Namespace :: string
  ri_Name :: string
  ri_RuleCount :: nat

record BindingInfo =
  bn_Kind :: string
  bn_Namespace :: string
  bn_Name :: string
  bn_RoleRef :: string
  bn_SubjectCount :: nat

definition role_info :: "string \<Rightarrow> bool \<Rightarrow> Role \<Rightarrow> RoleInfo" where
  "role_info kind namespaced r =
     \<lparr>ri_Kind = kind, ri_Namespace = (if namespaced then om_Namespace (ro_Meta r) else ''''),
      ri_Name = om_Name (ro_Meta r), ri_RuleCount = length (ro_Rules r)\<rparr>"

definition binding_info :: "string \<Rightarrow> bool \<Rightarrow> Binding \<Rightarrow> BindingInfo" where
  "binding_info kind namespaced b =
     \<lparr>bn_Kind = kind, bn_Namespace = (if namespaced then om_Namespace (bi_Meta b) else ''''),
      bn_Name = om_Name (bi_Meta b), bn_RoleRef = bi_RoleRef b, bn_SubjectCount = length (bi_Subjects b)\<rparr>"

definition role_json :: "RoleInfo \<Rightarrow> json" where
  "role_json r = JObj ([(''kind'', JStr (ri_Kind r))] @ omit_empty ''namespace'' (ri_Namespace r) @
     [(''name'', JStr (ri_Name r)), (''rule_count'', json_nat (ri_RuleCount r))])"

definition binding_json :: "BindingInfo \<Rightarrow> json" where
  "binding_json b = JObj ([(''kind'', JStr (bn_Kind b))] @ omit_empty ''namespace'' (bn_Namespace b) @
     [(''name'', JStr (bn_Name b)), (''role_ref'', JStr (bn_RoleRef b)), (''subject_count'', json_nat (bn_SubjectCount b))])"

definition rbac_json :: "Role list \<Rightarrow> Role list \<Rightarrow> Binding list \<Rightarrow> Binding list \<Rightarrow> json" where
  "rbac_json crs rs crbs rbs =
     (let roles = map (role_info ''ClusterRole'' False) crs @ map (role_info ''Role'' True) rs;
          bindings = map (binding_info ''ClusterRoleBinding'' False) crbs @ map (binding_info ''RoleBinding'' True) rbs
      in JObj [(''cluster_role_count'', json_nat (length crs)), (''role_count'', json_nat (length rs)),
               (''cluster_role_binding_count'', json_nat (length crbs)), (''role_binding_count'', json_nat (length rbs)),
               (''roles'', json_slice role_json (sort_key (\<lambda>r. (ri_Kind r, ri_Name r)) roles)),
               (''bindings'', json_slice binding_json (sort_key (\<lambda>b. (bn_Kind b, bn_Name b)) bindings))])"

definition scan_rbac ::
  "Role listing \<Rightarrow> Role listing \<Rightarrow> Binding listing \<Rightarrow> Binding listing \<Rightarrow> Result \<times> coverageError option" where
  "scan_rbac crs rs crbs rbs =
     Finish (needed (needed (needed (needed Coverage0 ''cluster roles'' crs) ''roles'' rs)
         ''cluster role bindings'' crbs) ''role bindings'' rbs) ''rbac''
       (rbac_json (listing_items crs) (listing_items rs) (listing_items crbs) (listing_items rbs))"

section \<open>What the inventories say\<close>

lemma lookup_default_Nil [simp]: "lookup_default d [] k = d"
  by (simp add: lookup_default_def)

lemma count_namespaces:
  "sd_NamespaceCount (foldl count_namespace d nss) = sd_NamespaceCount d"
  "sd_EnforcedCount (foldl count_namespace d nss) =
     sd_EnforcedCount d + tally (\<lambda>ns. Enforced (lookup_default '''' (om_Labels ns) labelEnforce)) nss"
  "sd_UnenforcedCount (foldl count_namespace d nss) =
     sd_UnenforcedCount d + tally (\<lambda>ns. \<not> Enforced (lookup_default '''' (om_Labels ns) labelEnforce)) nss"
  "sd_Namespaces (foldl count_namespace d nss) = sd_Namespaces d @ map namespace_security nss"
  "lookup_default 0 (sd_LevelDistribution (foldl count_namespace d nss)) l =
     lookup_default 0 (sd_LevelDistribution d) l + tally (\<lambda>ns. level_name (namespace_security ns) = l) nss"
  by (induction nss arbitrary: d)
    (simp_all add: count_namespace_def Let_def bump_eq namespace_security_def lookup_default_incr)

text \<open>A namespace counts as enforced when its label names a level other than privileged; every namespace
  is counted once, and the distribution counts each level.\<close>

lemma security_data_counts:
  "sd_EnforcedCount (security_data nss) = tally (\<lambda>ns. Enforced (lookup_default '''' (om_Labels ns) labelEnforce)) nss"
  "sd_EnforcedCount (security_data nss) + sd_UnenforcedCount (security_data nss) = sd_NamespaceCount (security_data nss)"
  "lookup_default 0 (sd_LevelDistribution (security_data nss)) l =
     tally (\<lambda>ns. level_name (namespace_security ns) = l) nss"
proof -
  show "sd_EnforcedCount (security_data nss) = tally (\<lambda>ns. Enforced (lookup_default '''' (om_Labels ns) labelEnforce)) nss"
    by (simp add: security_data_def Let_def count_namespaces)
  have "sd_EnforcedCount (security_data nss) =
      tally (\<lambda>ns. Enforced (lookup_default '''' (om_Labels ns) labelEnforce)) nss"
    "sd_UnenforcedCount (security_data nss) =
      tally (\<lambda>ns. \<not> Enforced (lookup_default '''' (om_Labels ns) labelEnforce)) nss"
    "sd_NamespaceCount (security_data nss) = int (length nss)"
    by (simp_all add: security_data_def Let_def count_namespaces)
  then show "sd_EnforcedCount (security_data nss) + sd_UnenforcedCount (security_data nss) =
      sd_NamespaceCount (security_data nss)" by (simp add: tally_split)
  show "lookup_default 0 (sd_LevelDistribution (security_data nss)) l =
     tally (\<lambda>ns. level_name (namespace_security ns) = l) nss"
    by (simp add: security_data_def Let_def count_namespaces)
qed

text \<open>Namespaces without a policy are counted by subtraction: the number is right when every policy is in
  a listed namespace and names are unique, and below it by one for each namespace that holds a policy and
  was not listed, down to negative numbers.\<close>

lemma namespaces_without_covered:
  assumes "distinct (map om_Name nss)" "om_Namespace ` np_Meta ` set policies \<subseteq> om_Name ` set nss"
  shows "namespaces_without policies nss =
    tally (\<lambda>ns. om_Name ns \<notin> om_Namespace ` np_Meta ` set policies) nss"
proof -
  let ?P = "om_Namespace ` np_Meta ` set policies"
  have held: "length (namespaces_of np_Meta policies) = card ?P"
    by (simp add: namespaces_of_def length_remdups_card_conv image_image)
  let ?in = "filter (\<lambda>ns. om_Name ns \<in> ?P) nss"
  have "?P = om_Name ` set nss \<inter> ?P" using assms(2) by (rule Int_absorb1 [symmetric])
  also have "\<dots> = set (map om_Name ?in)" unfolding set_map set_filter by (rule set_eqI) (simp only: Int_iff image_iff Bex_def mem_Collect_eq, metis)
  finally have "?P = set (map om_Name ?in)" .
  then have "card ?P = card (set (map om_Name ?in))" by (rule arg_cong)
  also have "\<dots> = length ?in" using assms(1) distinct_card [OF distinct_map_filter, of om_Name nss] by simp
  finally have "int (card ?P) = tally (\<lambda>ns. om_Name ns \<in> ?P) nss" by (simp add: tally_def)
  with tally_split [of "\<lambda>ns. om_Name ns \<in> ?P" nss] held show ?thesis by (simp add: namespaces_without_def)
qed

lemma namespaces_without_negative:
  "namespaces_without [\<lparr>np_Meta = \<lparr>om_Namespace = ''gone'', om_Name = ''deny'', om_Labels = []\<rparr>,
     np_PolicyTypes = [], np_Ingress = 0, np_Egress = 0\<rparr>] [] = - 1"
  by (simp add: namespaces_without_def namespaces_of_def)

end
