(* ===== verification/Refinement.thy ===== *)
theory Refinement
  imports Prelude
begin

text \<open>
  Components that answer requests. A component is a function from its state and a request to its
  new state and its answer. A component refines another when a relation between their states is
  kept by every request and makes their answers equal; then no sequence of requests tells them
  apart. Requests carry the time at which they are made, which does not go back.
\<close>

fun answers :: "('s \<Rightarrow> 'i \<Rightarrow> 's \<times> 'o) \<Rightarrow> 's \<Rightarrow> 'i list \<Rightarrow> 'o list" where
  "answers step s [] = []"
| "answers step s (i # is) = snd (step s i) # answers step (fst (step s i)) is"

fun after :: "('s \<Rightarrow> 'i \<Rightarrow> 's \<times> 'o) \<Rightarrow> 's \<Rightarrow> 'i list \<Rightarrow> 's" where
  "after step s [] = s"
| "after step s (i # is) = after step (fst (step s i)) is"

lemma answers_append [simp]: "answers step s (is @ js) = answers step s is @ answers step (after step s is) js"
  by (induction "is" arbitrary: s) auto

lemma after_append [simp]: "after step s (is @ js) = after step (after step s is) js"
  by (induction "is" arbitrary: s) auto

lemma length_answers [simp]: "length (answers step s is) = length is"
  by (induction "is" arbitrary: s) auto

locale clocked_refinement =
  fixes step :: "'s \<Rightarrow> 'i \<Rightarrow> 's \<times> 'o"
    and spec :: "'a \<Rightarrow> 'i \<Rightarrow> 'a \<times> 'o"
    and tick :: "'i \<Rightarrow> int"
    and rel :: "int \<Rightarrow> 's \<Rightarrow> 'a \<Rightarrow> bool"
  assumes same_answer: "rel t s a \<Longrightarrow> t \<le> tick i \<Longrightarrow> snd (step s i) = snd (spec a i)"
    and keeps_rel: "rel t s a \<Longrightarrow> t \<le> tick i \<Longrightarrow> rel (tick i) (fst (step s i)) (fst (spec a i))"
begin

lemma related_after:
  "rel t s a \<Longrightarrow> sorted (t # map tick is) \<Longrightarrow> rel (last (t # map tick is)) (after step s is) (after spec a is)"
proof (induction "is" arbitrary: t s a)
  case (Cons i "is")
  have "rel (tick i) (fst (step s i)) (fst (spec a i))" using keeps_rel Cons.prems by simp
  from Cons.IH [OF this] Cons.prems show ?case by simp
qed simp

lemma indistinguishable:
  "rel t s a \<Longrightarrow> sorted (t # map tick is) \<Longrightarrow> answers step s is = answers spec a is"
proof (induction "is" arbitrary: t s a)
  case (Cons i "is")
  have "rel (tick i) (fst (step s i)) (fst (spec a i))" using keeps_rel Cons.prems by simp
  from Cons.IH [OF this] same_answer [of t s a i] Cons.prems show ?case by simp
qed simp

end

text \<open>
  Components whose operations interleave. Their steps are a relation between states labelled with
  events; a run is a sequence of steps, and an invariant relates the state to the events that led
  to it.
\<close>

inductive runs :: "('s \<Rightarrow> 'e \<Rightarrow> 's \<Rightarrow> bool) \<Rightarrow> 's \<Rightarrow> 'e list \<Rightarrow> 's \<Rightarrow> bool"
  for step :: "'s \<Rightarrow> 'e \<Rightarrow> 's \<Rightarrow> bool" and start :: 's where
  runs_start: "runs step start [] start"
| runs_step: "runs step start es s \<Longrightarrow> step s e t \<Longrightarrow> runs step start (es @ [e]) t"

locale history_invariant =
  fixes step :: "'s \<Rightarrow> 'e \<Rightarrow> 's \<Rightarrow> bool" and inv :: "'e list \<Rightarrow> 's \<Rightarrow> bool"
  assumes keeps: "inv es s \<Longrightarrow> step s e t \<Longrightarrow> inv (es @ [e]) t"
begin

lemma inv_runs:
  assumes "runs step start es s" "inv [] start"
  shows "inv es s"
  using assms by (induction rule: runs.induct) (auto intro: keeps)

end

end
