(* ===== verification/RateLimit.thy ===== *)
theory RateLimit
  imports Refinement "HOL-Library.Signed_Division"
begin

text \<open>
  The token buckets of \<open>internal/server/ratelimit.go\<close>: the limiter's state, \<open>allow\<close>, the sweep that
  evicts idle buckets, and the middleware. Times are nanoseconds, and the clock the limiter reads
  is part of each request. The abstract limiter keeps one bucket per client and class for ever; the
  code's limiter evicts, and no sequence of requests tells the two apart.
\<close>

section \<open>Durations\<close>

text \<open>\<open>time.Sub\<close> saturates at the bounds of an \<open>int64\<close>; \<open>Seconds\<close> adds whole and fractional seconds.\<close>

definition time_Sub :: "int \<Rightarrow> int \<Rightarrow> int" where
  "time_Sub t u = max (- (2 ^ 63)) (min (2 ^ 63 - 1) (t - u))"

definition time_Seconds :: "int \<Rightarrow> float64" where
  "time_Seconds d = fadd (of_int64 (d sdiv 1000000000)) (fdiv (of_int64 (d smod 1000000000)) 1000000000)"

definition zero_time :: int where "zero_time = - 62135596800 * 1000000000"

section \<open>The limiter\<close>

definition bucketIdleTTL :: int where "bucketIdleTTL = 10 * 60 * 1000000000"
definition bucketSweepInterval :: int where "bucketSweepInterval = 60 * 1000000000"

record tokenBucket =
  tb_tokens :: float64
  tb_lastRefill :: int

record rateLimiter =
  rl_buckets :: "(string, tokenBucket) gomap"
  rl_lastSweep :: int
  rl_readRPM :: int
  rl_writeRPM :: int

definition newRateLimiter :: "int \<Rightarrow> int \<Rightarrow> rateLimiter" where
  "newRateLimiter readRPM writeRPM =
     \<lparr>rl_buckets = [], rl_lastSweep = zero_time, rl_readRPM = readRPM, rl_writeRPM = writeRPM\<rparr>"

definition sweep :: "int \<Rightarrow> rateLimiter \<Rightarrow> rateLimiter" where
  "sweep now r =
     (if time_Sub now (rl_lastSweep r) < bucketSweepInterval then r
      else r\<lparr>rl_lastSweep := now,
             rl_buckets := filter (\<lambda>(k, b). \<not> time_Sub now (tb_lastRefill b) > bucketIdleTTL) (rl_buckets r)\<rparr>)"

definition refill :: "int \<Rightarrow> int \<Rightarrow> tokenBucket \<Rightarrow> tokenBucket" where
  "refill limit now b =
     (let elapsed = time_Seconds (time_Sub now (tb_lastRefill b))
      in if elapsed > 0
         then \<lparr>tb_tokens = min (fadd (tb_tokens b) (fdiv (fmul elapsed (of_int64 limit)) 60)) (of_int64 limit),
               tb_lastRefill = now\<rparr>
         else b)"

definition spend :: "tokenBucket \<Rightarrow> tokenBucket \<times> float64 \<times> bool" where
  "spend b =
     (if tb_tokens b < 1 then (b, tb_tokens b, False)
      else let b' = b\<lparr>tb_tokens := fsub (tb_tokens b) 1\<rparr> in (b', tb_tokens b', True))"

definition limit_of :: "rateLimiter \<Rightarrow> bool \<Rightarrow> int" where
  "limit_of r write = (if write then rl_writeRPM r else rl_readRPM r)"

definition class_of :: "bool \<Rightarrow> string" where
  "class_of write = (if write then ''|w'' else ''|r'')"

definition allow :: "rateLimiter \<Rightarrow> string \<times> bool \<times> int \<Rightarrow> rateLimiter \<times> float64 \<times> bool" where
  "allow r req =
     (let (key, write, now) = req; limit = limit_of r write
      in if limit \<le> 0 then (r, -1, True)
         else let r' = sweep now r;
                  key' = key @ class_of write;
                  b = (case map_of (rl_buckets r') key' of
                         Some b \<Rightarrow> b
                       | None \<Rightarrow> \<lparr>tb_tokens = of_int64 limit, tb_lastRefill = now\<rparr>);
                  (b', answer) = spend (refill limit now b)
              in (r'\<lparr>rl_buckets := AList.update key' b' (rl_buckets r')\<rparr>, answer))"

definition size_of :: "rateLimiter \<Rightarrow> int" where
  "size_of r = int (length (rl_buckets r))"

section \<open>The middleware\<close>

definition requiresWrite :: "string \<Rightarrow> bool" where
  "requiresWrite method \<longleftrightarrow> method \<notin> set [''GET'', ''HEAD'', ''OPTIONS'']"

definition formatRemaining :: "float64 \<Rightarrow> string" where
  "formatRemaining tokens = Itoa (max (math_Trunc tokens) 0)"

text \<open>What the middleware does with a request: refuse it, or pass it on with a header. A server
  without a limiter passes everything on.\<close>

datatype throttled =
    TooManyRequests
  | Passed "string option"

definition rateLimitMiddleware ::
  "rateLimiter option \<Rightarrow> string \<Rightarrow> string \<Rightarrow> int \<Rightarrow> rateLimiter option \<times> throttled" where
  "rateLimitMiddleware limiter key method now =
     (case limiter of
        None \<Rightarrow> (None, Passed None)
      | Some r \<Rightarrow>
          let (r', remaining, ok) = allow r (key, requiresWrite method, now)
          in (Some r',
              if \<not> ok then TooManyRequests
              else Passed (if remaining \<ge> 0 then Some (formatRemaining remaining) else None)))"

section \<open>The abstract limiter\<close>

text \<open>One bucket per client and class; a client that has none has a full one.\<close>

type_synonym ideal = "string \<times> bool \<Rightarrow> tokenBucket option"

definition ideal_allow :: "(bool \<Rightarrow> int) \<Rightarrow> ideal \<Rightarrow> string \<times> bool \<times> int \<Rightarrow> ideal \<times> float64 \<times> bool" where
  "ideal_allow limits m req =
     (let (key, write, now) = req; limit = limits write
      in if limit \<le> 0 then (m, -1, True)
         else let b = (case m (key, write) of Some b \<Rightarrow> refill limit now b
                       | None \<Rightarrow> \<lparr>tb_tokens = of_int64 limit, tb_lastRefill = now\<rparr>);
                  (b', answer) = spend b
              in (m((key, write) \<mapsto> b'), answer))"


section \<open>Refilling\<close>

lemma signed_div_nonneg:
  "0 \<le> d \<Longrightarrow> d sdiv 1000000000 = (d :: int) div 1000000000"
  "0 \<le> d \<Longrightarrow> d smod 1000000000 = (d :: int) mod 1000000000"
  by (cases "d = 0"; simp add: signed_divide_int_def signed_modulo_int_def)+

lemma time_Seconds_nonneg: "0 \<le> d \<Longrightarrow> 0 \<le> time_Seconds d"
  by (simp add: time_Seconds_def fadd_def fdiv_def of_int64_def signed_div_nonneg f64_nonneg)

lemma time_Seconds_0 [simp]: "time_Seconds 0 = 0"
  by (simp add: time_Seconds_def fadd_def fdiv_def of_int64_def)

lemma time_Sub_self [simp]: "time_Sub t t = 0"
  by (simp add: time_Sub_def)

lemma time_Sub_gt: "c < time_Sub t u \<Longrightarrow> - (2 ^ 63) \<le> c \<Longrightarrow> c < t - u"
  by (auto simp: time_Sub_def)

lemma time_Seconds_minute:
  assumes "60 * 1000000000 \<le> d"
  shows "60 \<le> time_Seconds d"
proof -
  have d: "0 \<le> d" "60 \<le> d div 1000000000" using assms by linarith+
  have "f64 (of_int 60) \<le> of_int64 (d sdiv 1000000000)"
    using d by (simp add: of_int64_def f64_mono signed_div_nonneg)
  moreover have "f64 (of_int 60) = 60" using f64_of_int [of 60] by simp
  moreover have "0 \<le> fdiv (of_int64 (d smod 1000000000)) 1000000000"
    using d(1) by (simp add: fdiv_def of_int64_def f64_nonneg signed_div_nonneg)
  ultimately have "f64 60 \<le> time_Seconds d" unfolding time_Seconds_def fadd_def by (intro f64_mono) simp
  then show ?thesis using f64_of_int [of 60] by simp
qed

text \<open>A bucket that has not been touched for a minute is full.\<close>

lemma refill_minute:
  assumes "0 < limit" "limit < 2 ^ 47" "0 \<le> tb_tokens b" "60 * 1000000000 \<le> now - tb_lastRefill b"
  shows "refill limit now b = \<lparr>tb_tokens = of_int64 limit, tb_lastRefill = now\<rparr>"
proof -
  let ?e = "time_Seconds (time_Sub now (tb_lastRefill b))"
  have e: "60 \<le> ?e" using assms(4) by (intro time_Seconds_minute) (simp add: time_Sub_def)
  have lim: "of_int64 limit = of_int limit" using assms(1,2) by (simp add: of_int64_def f64_of_int)
  have "f64 (of_int (60 * limit)) \<le> fmul ?e (of_int64 limit)"
    unfolding fmul_def lim using e assms(1) by (intro f64_mono) (simp add: mult_right_mono)
  moreover have "f64 (of_int (60 * limit)) = of_int (60 * limit)" using assms(1,2) by (intro f64_of_int) simp
  ultimately have m: "60 * of_int limit \<le> fmul ?e (of_int64 limit)" by simp
  have "f64 (of_int limit) \<le> fdiv (fmul ?e (of_int64 limit)) 60"
    unfolding fdiv_def using m by (intro f64_mono) simp
  then have "f64 (of_int limit) \<le> fadd (tb_tokens b) (fdiv (fmul ?e (of_int64 limit)) 60)"
    unfolding fadd_def using assms(1-3) f64_of_int [of limit] by (intro f64_mono) simp
  then show ?thesis using e by (simp add: refill_def Let_def min_def of_int64_def)
qed

lemma refill_fresh [simp]: "refill limit now \<lparr>tb_tokens = n, tb_lastRefill = now\<rparr> = \<lparr>tb_tokens = n, tb_lastRefill = now\<rparr>"
  by (simp add: refill_def)

text \<open>Tokens stay between zero and the limit.\<close>

definition bucket_ok :: "int \<Rightarrow> tokenBucket \<Rightarrow> bool" where
  "bucket_ok limit b \<longleftrightarrow> 0 \<le> tb_tokens b \<and> tb_tokens b \<le> of_int64 limit"

lemma of_int64_nonneg: "0 \<le> n \<Longrightarrow> 0 \<le> of_int64 n"
  by (simp add: of_int64_def f64_nonneg)

lemma of_int64_idem: "f64 (of_int64 n) = of_int64 n"
  by (simp add: of_int64_def)

lemma bucket_ok_fresh: "0 < limit \<Longrightarrow> bucket_ok limit \<lparr>tb_tokens = of_int64 limit, tb_lastRefill = now\<rparr>"
  by (simp add: bucket_ok_def of_int64_nonneg)

lemma bucket_ok_refill: "0 < limit \<Longrightarrow> bucket_ok limit b \<Longrightarrow> bucket_ok limit (refill limit now b)"
  by (auto simp: bucket_ok_def refill_def Let_def min_def of_int64_nonneg fadd_def fdiv_def fmul_def f64_nonneg)

lemma bucket_ok_spend: "bucket_ok limit b \<Longrightarrow> bucket_ok limit (fst (spend b))"
proof -
  assume ok: "bucket_ok limit b"
  have "f64 (tb_tokens b - 1) \<le> f64 (of_int64 limit)" using ok by (intro f64_mono) (simp add: bucket_ok_def)
  then show ?thesis using ok
    by (auto simp: bucket_ok_def spend_def Let_def fsub_def f64_nonneg of_int64_idem)
qed

section \<open>Eviction cannot be observed\<close>

lemma class_inj [simp]: "key @ class_of w = key' @ class_of w' \<longleftrightarrow> key = key' \<and> w = w'"
  by (auto simp: class_of_def)

definition agree :: "(bool \<Rightarrow> int) \<Rightarrow> int \<Rightarrow> rateLimiter \<Rightarrow> ideal \<Rightarrow> bool" where
  "agree limits t r m \<longleftrightarrow>
     limit_of r = limits \<and> distinct (map fst (rl_buckets r)) \<and>
     (\<forall>key w b. map_of (rl_buckets r) (key @ class_of w) = Some b \<longrightarrow> m (key, w) = Some b) \<and>
     (\<forall>key w b. m (key, w) = Some b \<longrightarrow> bucket_ok (limits w) b \<and>
        (map_of (rl_buckets r) (key @ class_of w) = None \<longrightarrow> 60 * 1000000000 \<le> t - tb_lastRefill b))"

lemma agreeD:
  assumes "agree limits t r m"
  shows "limit_of r = limits" "distinct (map fst (rl_buckets r))"
    and "map_of (rl_buckets r) (key @ class_of w) = Some b \<Longrightarrow> m (key, w) = Some b"
    and "m (key, w) = Some b \<Longrightarrow> bucket_ok (limits w) b"
    and "m (key, w) = Some b \<Longrightarrow> map_of (rl_buckets r) (key @ class_of w) = None \<Longrightarrow> 60 * 1000000000 \<le> t - tb_lastRefill b"
  using assms by (simp_all add: agree_def)

lemma agree_later: "agree limits t r m \<Longrightarrow> t \<le> now \<Longrightarrow> agree limits now r m"
  unfolding agree_def by fastforce

lemma map_of_filter_distinct:
  "distinct (map fst m) \<Longrightarrow>
     map_of (filter P m) k = (case map_of m k of None \<Rightarrow> None | Some v \<Rightarrow> if P (k, v) then Some v else None)"
  by (induction m) (auto simp: map_of_eq_None_iff split: option.splits)

lemma limit_of_sweep [simp]: "limit_of (sweep now r) = limit_of r"
  by (auto simp: limit_of_def sweep_def)

lemma limit_of_buckets [simp]: "limit_of (r\<lparr>rl_buckets := bs\<rparr>) = limit_of r"
  by (auto simp: limit_of_def)

lemma map_of_sweep:
  assumes "distinct (map fst (rl_buckets r))"
  shows "map_of (rl_buckets (sweep now r)) k = map_of (rl_buckets r) k \<or>
    (\<exists>b. map_of (rl_buckets r) k = Some b \<and> map_of (rl_buckets (sweep now r)) k = None \<and>
      60 * 1000000000 \<le> now - tb_lastRefill b)"
proof -
  have "60 * 1000000000 \<le> now - tb_lastRefill b" if "bucketIdleTTL < time_Sub now (tb_lastRefill b)" for b
    using time_Sub_gt [OF that] by (simp add: bucketIdleTTL_def)
  then show ?thesis using assms by (auto simp: sweep_def map_of_filter_distinct split: option.splits)
qed

lemma distinct_sweep: "distinct (map fst (rl_buckets r)) \<Longrightarrow> distinct (map fst (rl_buckets (sweep now r)))"
  by (simp add: sweep_def distinct_map_filter)

lemma agree_sweep:
  assumes "agree limits now r m"
  shows "agree limits now (sweep now r) m"
proof -
  have d: "distinct (map fst (rl_buckets r))" using assms by (simp add: agree_def)
  have sw: "map_of (rl_buckets (sweep now r)) (key @ class_of w) = map_of (rl_buckets r) (key @ class_of w) \<or>
      (\<exists>b. map_of (rl_buckets r) (key @ class_of w) = Some b \<and>
        map_of (rl_buckets (sweep now r)) (key @ class_of w) = None \<and> 60 * 1000000000 \<le> now - tb_lastRefill b)" for key w
    by (rule map_of_sweep [OF d])
  have found: "m (key, w) = Some b" if "map_of (rl_buckets (sweep now r)) (key @ class_of w) = Some b" for key w b
    using sw [of key w] that assms by (auto simp: agree_def)
  have idle: "60 * 1000000000 \<le> now - tb_lastRefill b"
    if "m (key, w) = Some b" "map_of (rl_buckets (sweep now r)) (key @ class_of w) = None" for key w b
    using sw [of key w] that assms unfolding agree_def by (metis option.inject)
  have lim: "limit_of r = limits" and ok: "m (key, w) = Some b \<Longrightarrow> bucket_ok (limits w) b" for key w b
    using assms by (auto simp: agree_def)
  show ?thesis using distinct_sweep [OF d] found idle lim ok unfolding agree_def by simp
qed

text \<open>The two limiters find buckets that are alike once they are refilled.\<close>

lemma agree_bucket:
  assumes "agree limits now r m" "0 < limits w" "limits w < 2 ^ 47"
  shows "refill (limits w) now
      (case map_of (rl_buckets r) (key @ class_of w) of
         Some b \<Rightarrow> b | None \<Rightarrow> \<lparr>tb_tokens = of_int64 (limits w), tb_lastRefill = now\<rparr>) =
    (case m (key, w) of Some b \<Rightarrow> refill (limits w) now b
       | None \<Rightarrow> \<lparr>tb_tokens = of_int64 (limits w), tb_lastRefill = now\<rparr>)"
proof (cases "map_of (rl_buckets r) (key @ class_of w)")
  case None
  then have "bucket_ok (limits w) b \<and> 60 * 1000000000 \<le> now - tb_lastRefill b" if "m (key, w) = Some b" for b
    using assms(1) that by (auto simp: agree_def)
  then show ?thesis using None refill_minute [OF assms(2,3)] by (auto simp: bucket_ok_def split: option.splits)
qed (use assms(1) in \<open>auto simp: agree_def\<close>)

lemma agree_store:
  assumes "agree limits now r m" "bucket_ok (limits w) b"
  shows "agree limits now (r\<lparr>rl_buckets := AList.update (key @ class_of w) b (rl_buckets r)\<rparr>) (m((key, w) \<mapsto> b))"
proof -
  let ?bs = "AList.update (key @ class_of w) b (rl_buckets r)"
  have find: "map_of ?bs (k @ class_of v) = (if (k, v) = (key, w) then Some b else map_of (rl_buckets r) (k @ class_of v))" for k v
    by simp
  have 1: "limit_of r = limits" "distinct (map fst ?bs)" using assms(1) by (simp_all add: agree_def distinct_update)
  have 2: "(m((key, w) \<mapsto> b)) (k, v) = Some c" if "map_of ?bs (k @ class_of v) = Some c" for k v c
  proof (cases "(k, v) = (key, w)")
    case False
    from agreeD(3) [OF assms(1) that [unfolded find if_not_P [OF False]]] show ?thesis unfolding fun_upd_other [OF False] .
  qed (use that find in simp)
  have 3: "bucket_ok (limits v) c \<and> (map_of ?bs (k @ class_of v) = None \<longrightarrow> 60 * 1000000000 \<le> now - tb_lastRefill c)"
    if "(m((key, w) \<mapsto> b)) (k, v) = Some c" for k v c
  proof (cases "(k, v) = (key, w)")
    case False
    from that have "m (k, v) = Some c" unfolding fun_upd_other [OF False] .
    then show ?thesis using agreeD(4,5) [OF assms(1), of k v c] unfolding find if_not_P [OF False] by blast
  qed (use that find assms(2) in simp)
  show ?thesis unfolding agree_def limit_of_buckets using 1 2 3 by simp
qed

lemma allow_agree:
  assumes "agree limits t r m" "t \<le> now" "\<And>w. limits w < 2 ^ 47"
  shows "snd (allow r (key, w, now)) = snd (ideal_allow limits m (key, w, now))"
    and "agree limits now (fst (allow r (key, w, now))) (fst (ideal_allow limits m (key, w, now)))"
proof -
  have lim: "limit_of r w = limits w" using assms(1) by (simp add: agree_def)
  have ag: "agree limits now (sweep now r) m" by (rule agree_sweep [OF agree_later [OF assms(1,2)]])
  define b where "b = (case m (key, w) of Some b \<Rightarrow> refill (limits w) now b
      | None \<Rightarrow> \<lparr>tb_tokens = of_int64 (limits w), tb_lastRefill = now\<rparr>)"
  have spec: "ideal_allow limits m (key, w, now) =
      (if limits w \<le> 0 then (m, -1, True) else (m((key, w) \<mapsto> fst (spend b)), snd (spend b)))"
    by (simp add: ideal_allow_def b_def Let_def split_beta cong: option.case_cong)
  have impl: "allow r (key, w, now) =
      (if limits w \<le> 0 then (r, -1, True)
       else ((sweep now r)\<lparr>rl_buckets := AList.update (key @ class_of w) (fst (spend b)) (rl_buckets (sweep now r))\<rparr>, snd (spend b)))"
  proof (cases "0 < limits w")
    case True
    note eq = agree_bucket [OF ag True assms(3), of key, folded b_def]
    show ?thesis using True by (simp add: allow_def lim Let_def split_beta eq cong: option.case_cong)
  qed (simp add: allow_def lim)
  have ok: "bucket_ok (limits w) b" if "0 < limits w"
    using agreeD(4) [OF ag, of key w] that bucket_ok_fresh bucket_ok_refill by (simp add: b_def split: option.splits)
  show "snd (allow r (key, w, now)) = snd (ideal_allow limits m (key, w, now))"
    by (simp add: impl spec)
  show "agree limits now (fst (allow r (key, w, now))) (fst (ideal_allow limits m (key, w, now)))"
    using agree_later [OF assms(1,2)] agree_store [OF ag bucket_ok_spend [OF ok]] by (simp add: impl spec)
qed

lemma agree_new: "agree (limit_of (newRateLimiter rd wr)) t (newRateLimiter rd wr) Map.empty"
  by (simp add: agree_def newRateLimiter_def)

section \<open>The limiter as a component\<close>

text \<open>The relation of the two limiters, for budgets small enough that a minute's refill is exact.\<close>

definition limiter_agree :: "int \<Rightarrow> rateLimiter \<Rightarrow> (bool \<Rightarrow> int) \<times> ideal \<Rightarrow> bool" where
  "limiter_agree t r a \<longleftrightarrow> agree (fst a) t r (snd a) \<and> (\<forall>w. fst a w < 2 ^ 47)"

definition ideal_step ::
  "(bool \<Rightarrow> int) \<times> ideal \<Rightarrow> string \<times> bool \<times> int \<Rightarrow> ((bool \<Rightarrow> int) \<times> ideal) \<times> float64 \<times> bool" where
  "ideal_step a req = (let (m, answer) = ideal_allow (fst a) (snd a) req in ((fst a, m), answer))"

lemma ideal_step_simps [simp]:
  "fst (fst (ideal_step a req)) = fst a"
  "snd (fst (ideal_step a req)) = fst (ideal_allow (fst a) (snd a) req)"
  "snd (ideal_step a req) = snd (ideal_allow (fst a) (snd a) req)"
  by (simp_all add: ideal_step_def Let_def split_beta)

interpretation limiter: clocked_refinement allow ideal_step "\<lambda>(key, write, now). now" limiter_agree
proof
  fix t r a and i :: "string \<times> bool \<times> int"
  assume rel: "limiter_agree t r a" and later: "t \<le> (case i of (key, write, now) \<Rightarrow> now)"
  obtain key w now where i: "i = (key, w, now)" by (cases i)
  have ag: "agree (fst a) t r (snd a)" and small: "\<And>w. fst a w < 2 ^ 47" and now: "t \<le> now"
    using rel later i by (auto simp: limiter_agree_def)
  note step = allow_agree [OF ag now small, of key w]
  show "snd (allow r i) = snd (ideal_step a i)" using step(1) by (simp add: i)
  show "limiter_agree (case i of (key, write, now) \<Rightarrow> now) (fst (allow r i)) (fst (ideal_step a i))"
    using step(2) small by (simp add: i limiter_agree_def)
qed

lemma limiter_start:
  assumes "rd < 2 ^ 47" "wr < 2 ^ 47"
  shows "limiter_agree t (newRateLimiter rd wr) (\<lambda>w. if w then wr else rd, Map.empty)"
proof -
  have "limit_of (newRateLimiter rd wr) = (\<lambda>w. if w then wr else rd)"
    by (auto simp: limit_of_def newRateLimiter_def)
  then show ?thesis using agree_new [of rd wr t] assms by (simp add: limiter_agree_def)
qed

text \<open>C37. Evicting idle buckets cannot be observed: whatever requests arrive, in the order of the
  clock, the limiter answers each exactly as a limiter that keeps one bucket per client and class
  for ever.\<close>

theorem allow_refines:
  assumes "rd < 2 ^ 47" "wr < 2 ^ 47" "sorted (map (\<lambda>(key, write, now). now) reqs)"
  shows "answers allow (newRateLimiter rd wr) reqs =
    answers ideal_step (\<lambda>w. if w then wr else rd, Map.empty) reqs"
proof (cases reqs)
  case (Cons q rest)
  obtain now where now: "now = (case q of (key, write, t) \<Rightarrow> t)" by simp
  show ?thesis
    by (rule limiter.indistinguishable [OF limiter_start [OF assms(1,2), of now]])
      (use assms(3) Cons now in \<open>auto simp: split_beta\<close>)
qed simp

section \<open>Budgets\<close>

definition burst_answers :: "int \<Rightarrow> nat \<Rightarrow> (float64 \<times> bool) list" where
  "burst_answers k n = map (\<lambda>i. if int i < k then (of_int (k - 1 - int i), True) else (0, False)) [0..<n]"

lemma burst_answers_Suc: "0 \<le> k \<Longrightarrow>
  burst_answers k (Suc n) = (if 0 < k then (of_int (k - 1), True) else (0, False)) # burst_answers (max 0 (k - 1)) n"
  unfolding burst_answers_def upt_conv_Cons [OF zero_less_Suc] map_Suc_upt [symmetric]
  by (auto simp: comp_def algebra_simps max_def)

text \<open>The bucket a client holds was last refilled when the client made a request.\<close>

lemma ideal_limits [simp]: "fst (after ideal_step a reqs) = fst a"
  by (induction reqs arbitrary: a) simp_all

lemma spend_lastRefill [simp]: "tb_lastRefill (fst (spend b)) = tb_lastRefill b"
  by (simp add: spend_def Let_def)

lemma refill_lastRefill: "tb_lastRefill (refill limit now b) \<in> {now, tb_lastRefill b}"
  by (simp add: refill_def Let_def)

lemma ideal_lastRefill:
  "snd (after ideal_step a reqs) (key, w) = Some b \<Longrightarrow>
     (key, w, tb_lastRefill b) \<in> set reqs \<or> (\<exists>b'. snd a (key, w) = Some b' \<and> tb_lastRefill b' = tb_lastRefill b)"
proof (induction reqs arbitrary: a)
  case (Cons q reqs)
  obtain key' w' now where q: "q = (key', w', now)" by (cases q)
  have "(key, w, tb_lastRefill b) = q \<or> (\<exists>b''. snd a (key, w) = Some b'' \<and> tb_lastRefill b'' = tb_lastRefill b)"
    if "snd (fst (ideal_step a q)) (key, w) = Some b'" "tb_lastRefill b' = tb_lastRefill b" for b'
    using that refill_lastRefill [of "fst a w" now]
    by (auto simp: q ideal_allow_def Let_def split_beta split: if_splits option.splits) metis+
  then show ?case using Cons.IH [of "fst (ideal_step a q)"] Cons.prems by auto
qed simp

lemma ideal_step_spend:
  "fst a w > 0 \<Longrightarrow> m (key, w) = Some b \<Longrightarrow> refill (fst a w) now b = b \<Longrightarrow>
     ideal_step (fst a, m) (key, w, now) = ((fst a, m((key, w) \<mapsto> fst (spend b))), snd (spend b))"
  by (simp add: ideal_step_def ideal_allow_def Let_def split_beta)

lemma spend_int:
  assumes "0 \<le> k" "k < 2 ^ 47"
  shows "spend \<lparr>tb_tokens = of_int k, tb_lastRefill = now\<rparr> =
    (\<lparr>tb_tokens = of_int (max 0 (k - 1)), tb_lastRefill = now\<rparr>,
     if 0 < k then (of_int (k - 1), True) else (0, False))"
  using f64_of_int [of "k - 1"] assms by (auto simp: spend_def Let_def fsub_def)

lemma ideal_burst:
  "\<lbrakk>0 < fst a w; 0 \<le> k; k < 2 ^ 47; m (key, w) = Some \<lparr>tb_tokens = of_int k, tb_lastRefill = now\<rparr>\<rbrakk> \<Longrightarrow>
   answers ideal_step (fst a, m) (replicate n (key, w, now)) = burst_answers k n"
proof (induction n arbitrary: k m)
  case 0
  then show ?case by (simp add: burst_answers_def)
next
  case (Suc n)
  let ?m = "m((key, w) \<mapsto> \<lparr>tb_tokens = of_int (max 0 (k - 1)), tb_lastRefill = now\<rparr>)"
  have "ideal_step (fst a, m) (key, w, now) = ((fst a, ?m), if 0 < k then (of_int (k - 1), True) else (0, False))"
    using ideal_step_spend [of a w m key _ now, OF Suc.prems(1,4) refill_fresh] by (simp only: spend_int [OF Suc.prems(2,3)] fst_conv snd_conv)
  moreover have "answers ideal_step (fst a, ?m) (replicate n (key, w, now)) = burst_answers (max 0 (k - 1)) n"
    using Suc.prems by (intro Suc.IH) auto
  ultimately show ?case using burst_answers_Suc [OF Suc.prems(2)] by simp
qed

lemma ideal_idle_burst:
  assumes "0 < fst a w" "fst a w < 2 ^ 47"
    and "\<And>b. snd a (key, w) = Some b \<Longrightarrow> 0 \<le> tb_tokens b \<and> 60 * 1000000000 \<le> now - tb_lastRefill b"
  shows "answers ideal_step a (replicate n (key, w, now)) = burst_answers (fst a w) n"
proof (cases n)
  case 0
  then show ?thesis by (simp add: burst_answers_def)
next
  case (Suc k)
  let ?b = "\<lparr>tb_tokens = of_int (fst a w), tb_lastRefill = now\<rparr>"
  have full: "of_int64 (fst a w) = of_int (fst a w)" using assms(1,2) by (simp add: of_int64_def f64_of_int)
  have "ideal_step a (key, w, now) = ideal_step (fst a, (snd a)((key, w) \<mapsto> ?b)) (key, w, now)"
    using refill_minute [OF assms(1,2)] assms(1,3)
    by (auto simp: ideal_step_def ideal_allow_def Let_def split_beta full split: option.splits)
  then have "answers ideal_step a (replicate n (key, w, now)) =
      answers ideal_step (fst a, (snd a)((key, w) \<mapsto> ?b)) (replicate n (key, w, now))"
    by (simp add: Suc)
  also have "\<dots> = burst_answers (fst a w) n" using assms(1,2) by (intro ideal_burst) simp_all
  finally show ?thesis .
qed

lemma sorted_start:
  assumes "sorted (xs @ [now :: int])"
  shows "sorted (hd (xs @ [now]) # xs)" "last (hd (xs @ [now]) # xs) \<le> now"
  using assms by (cases xs; force simp: sorted_append)+

text \<open>A client that waits is served: after any history of requests, a client that has made none of
  a class for a minute has its full budget of that class, and of a burst of requests at one moment
  exactly the first \<open>limit\<close> are admitted, whatever the other clients do.\<close>

lemma allow_burst:
  fixes key :: string and w :: bool
  assumes "rd < 2 ^ 47" "wr < 2 ^ 47" and limit: "limit = (if w then wr else rd)" "0 < limit"
    and clock: "sorted (map (\<lambda>(key, w, now). now) reqs @ [now])"
    and idle: "\<And>t. (key, w, t) \<in> set reqs \<Longrightarrow> t + 60 * 1000000000 \<le> now"
  shows "answers allow (after allow (newRateLimiter rd wr) reqs) (replicate n (key, w, now)) =
    map (\<lambda>i. if int i < limit then (of_int (limit - 1 - int i), True) else (0, False)) [0..<n]"
proof -
  let ?time = "\<lambda>(key, w, now). now"
  define t where "t = hd (map ?time reqs @ [now])"
  define lims where "lims = (\<lambda>w. if w then wr else rd)"
  define a where "a = after ideal_step (lims, Map.empty) reqs"
  have sorted: "sorted (t # map ?time reqs)" and last: "last (t # map ?time reqs) \<le> now"
    using sorted_start [OF clock] by (simp_all only: t_def)
  have rel: "limiter_agree (last (t # map ?time reqs)) (after allow (newRateLimiter rd wr) reqs) a"
    unfolding a_def lims_def by (rule limiter.related_after [OF limiter_start [OF assms(1,2)] sorted])
  have "answers allow (after allow (newRateLimiter rd wr) reqs) (replicate n (key, w, now)) =
      answers ideal_step a (replicate n (key, w, now))"
    by (rule limiter.indistinguishable [OF rel]) (use last in \<open>auto simp: sorted_replicate map_replicate\<close>)
  also have "\<dots> = burst_answers (fst a w) n"
  proof (rule ideal_idle_burst)
    show "0 < fst a w" "fst a w < 2 ^ 47" using assms(1-4) by (simp_all add: a_def lims_def)
    fix b
    assume b: "snd a (key, w) = Some b"
    then have "(key, w, tb_lastRefill b) \<in> set reqs"
      using ideal_lastRefill [of "(lims, Map.empty)" reqs key w b] by (simp add: a_def)
    moreover have "bucket_ok (fst a w) b" using rel b agreeD(4) by (auto simp: limiter_agree_def)
    ultimately show "0 \<le> tb_tokens b \<and> 60 * 1000000000 \<le> now - tb_lastRefill b"
      using idle by (force simp: bucket_ok_def)
  qed
  also have "fst a w = limit" by (simp add: a_def lims_def limit(1))
  finally show ?thesis by (simp add: burst_answers_def)
qed

lemma allow_burst_instance:
  "answers allow (after allow (newRateLimiter 60 2) [(''b'', True, 0), (''a'', True, 5), (''b'', False, 100000000000)])
     (replicate 3 (''a'', True, 100000000000)) = [(1, True), (0, True), (0, False)]"
  using allow_burst [of 60 2 2 True "[(''b'', True, 0), (''a'', True, 5), (''b'', False, 100000000000)]" 100000000000 "''a''" 3]
  by (simp add: upt_rec)

theorem allow_refines_witness:
  "answers allow (newRateLimiter 1 0) [(''a'', False, 0), (''a'', False, 0), (''a'', True, 0)] =
     [(0, True), (0, False), (-1, True)]"
proof -
  have "answers allow (newRateLimiter 1 0) [(''a'', False, 0), (''a'', False, 0), (''a'', True, 0)] =
      answers ideal_step (\<lambda>w. if w then 0 else 1, Map.empty) [(''a'', False, 0), (''a'', False, 0), (''a'', True, 0)]"
    by (rule allow_refines) simp_all
  also have "\<dots> = [(0, True), (0, False), (-1, True)]"
    using f64_of_int [of 1] by (simp add: ideal_step_def ideal_allow_def spend_def of_int64_def fsub_def Let_def)
  finally show ?thesis .
qed

section \<open>The answer of the middleware\<close>

text \<open>The header never promises a request that the bucket does not hold.\<close>

lemma rateLimitMiddleware_spec:
  assumes "allow r (key, requiresWrite method, now) = (r', remaining, ok)"
  shows "rateLimitMiddleware (Some r) key method now =
    (Some r', if \<not> ok then TooManyRequests
       else Passed (if remaining \<ge> 0 then Some (Itoa \<lfloor>remaining\<rfloor>) else None))"
  using assms by (simp add: rateLimitMiddleware_def formatRemaining_def math_Trunc_def)

end
