(* ===== verification/Trends.thy ===== *)
theory Trends
  imports Cohort_Assign RateLimit Findings Norm_Laws
begin

text \<open>
  \<open>internal/report/trend.go\<close>, \<open>trend_findings.go\<close> and \<open>changepoint.go\<close>: the direction of a metric over
  a window of scans, the break of a metric with its own past, and the findings drawn from both. A time
  is a number of nanoseconds. \<open>sort.Slice\<close> leaves the order of points of equal time open; it is taken
  as stable.
\<close>

section \<open>Series\<close>

datatype TrendDirection = TrendStable | TrendImproving | TrendWorsening

definition direction_text :: "TrendDirection \<Rightarrow> string" where
  "direction_text d = (case d of TrendStable \<Rightarrow> ''stable'' | TrendImproving \<Rightarrow> ''improving'' | TrendWorsening \<Rightarrow> ''worsening'')"

record TrendPoint =
  tp_Timestamp :: int
  tp_ScanID :: string
  tp_Value :: float64

record ScanMeta =
  mt_ID :: string
  mt_Timestamp :: int

record ClusterTrend =
  ct_Cluster :: string
  ct_Scanner :: string
  ct_Field :: string
  ct_Points :: "TrendPoint list"
  ct_Direction :: TrendDirection
  ct_Confidence :: string
  ct_RSquared :: float64

record FleetTrend =
  ft_Scanner :: string
  ft_Field :: string
  ft_Direction :: TrendDirection
  ft_Points :: "TrendPoint list"
  ft_Confidence :: string
  ft_RSquared :: float64

type_synonym field_maps = "(string, jobject) gomap"

text \<open>The second result names the scanners whose payload is not an object.\<close>

definition FieldMaps :: "(string, Result) gomap \<Rightarrow> field_maps \<times> string list" where
  "FieldMaps results =
     (List.map_filter (\<lambda>(name, res). map_option (Pair name) (unmarshalMap (res_Data res))) results,
      map fst (filter (\<lambda>(_, res). unmarshalMap (res_Data res) = None) results))"

definition series_value :: "(string, field_maps) gomap \<Rightarrow> string \<Rightarrow> string \<Rightarrow> ScanMeta \<Rightarrow> TrendPoint option" where
  "series_value resultsByScan scanner field scan =
     map_option (\<lambda>v. \<lparr>tp_Timestamp = mt_Timestamp scan, tp_ScanID = mt_ID scan, tp_Value = v\<rparr>)
       (Option.bind (map_of resultsByScan (mt_ID scan)) (\<lambda>scanResults.
          Option.bind (map_of scanResults scanner) (\<lambda>data. Option.bind (map_of data field) util_Float64)))"

definition seriesFor :: "string \<Rightarrow> string \<Rightarrow> ScanMeta list \<Rightarrow> (string, field_maps) gomap \<Rightarrow> TrendPoint list" where
  "seriesFor scanner field scans resultsByScan =
     sort_key tp_Timestamp (List.map_filter (series_value resultsByScan scanner field) scans)"

section \<open>The direction of a series\<close>

definition minTrendSample :: nat where "minTrendSample = 5"
definition minTrendR2 :: float64 where "minTrendR2 = 1 / 4"
definition minTrendT :: float64 where "minTrendT = 2"

record trendFit =
  tr_Direction :: TrendDirection
  tr_Confidence :: string
  tr_RSquared :: float64

record fit_sums =
  fs_X :: float64
  fs_Y :: float64
  fs_XY :: float64
  fs_XX :: float64

definition add_point :: "fit_sums \<Rightarrow> float64 \<times> float64 \<Rightarrow> fit_sums" where
  "add_point s p =
     (let (x, y) = p in
      \<lparr>fs_X = fadd (fs_X s) x, fs_Y = fadd (fs_Y s) y, fs_XY = fadd (fs_XY s) (fmul x y), fs_XX = fadd (fs_XX s) (fmul x x)\<rparr>)"

definition square :: "float64 \<Rightarrow> float64" where "square x = fmul x x"

definition residuals :: "float64 \<Rightarrow> float64 \<Rightarrow> float64 \<Rightarrow> float64 \<times> float64 \<Rightarrow> float64 \<times> float64 \<Rightarrow> float64 \<times> float64" where
  "residuals slope intercept mean acc p =
     (let (x, y) = p; fitVal = fadd intercept (fmul slope x)
      in (fadd (fst acc) (square (fsub y fitVal)), fadd (snd acc) (square (fsub y mean))))"

definition maxFloat :: "TrendPoint list \<Rightarrow> float64" where
  "maxFloat points = (case map tp_Value points of [] \<Rightarrow> 0 | v # vs \<Rightarrow> foldl max v vs)"

definition minFloat :: "TrendPoint list \<Rightarrow> float64" where
  "minFloat points = (case map tp_Value points of [] \<Rightarrow> 0 | v # vs \<Rightarrow> foldl min v vs)"

text \<open>The standard error of the slope divides by a difference that can round to zero or below, and takes
  the root of the quotient: the float is then infinite or not a number.\<close>

datatype std_err = Finite float64 | Infinite | Undefined

definition slope_std_err :: "float64 \<Rightarrow> fit_sums \<Rightarrow> float64 \<Rightarrow> std_err" where
  "slope_std_err n s ssRes =
     (let varRes = fdiv ssRes (fsub n 2); den = fsub (fs_XX s) (fdiv (fmul (fs_X s) (fs_X s)) n)
      in if den = 0 then (if varRes = 0 then Undefined else Infinite)
         else let q = fdiv varRes den in if q < 0 then Undefined else Finite (math_Sqrt q))"

text \<open>Whether the t-statistic of the slope reaches the limit. A standard error that is not positive,
  which not-a-number is not, makes it infinite for any slope; an infinite one makes it zero.\<close>

definition slope_significant :: "std_err \<Rightarrow> float64 \<Rightarrow> bool" where
  "slope_significant e slope =
     (case e of
        Finite x \<Rightarrow> if x > 0 then \<not> \<bar>fdiv slope x\<bar> < minTrendT else slope \<noteq> 0
      | Infinite \<Rightarrow> False
      | Undefined \<Rightarrow> slope \<noteq> 0)"

record fit_measure =
  fm_slope :: float64
  fm_r2 :: float64
  fm_scale :: float64
  fm_range :: float64
  fm_points :: float64
  fm_significant :: bool

definition tiny :: float64 where "tiny = f64 (1 / 10 ^ 9)"

definition measure_fit :: "TrendPoint list \<Rightarrow> fit_measure option" where
  "measure_fit points =
     (let x0 = tp_Timestamp (hd points); n = of_int64 (int (length points));
          xs = map (\<lambda>p. time_Seconds (time_Sub (tp_Timestamp p) x0)) points;
          xys = zip xs (map tp_Value points);
          s = foldl add_point \<lparr>fs_X = 0, fs_Y = 0, fs_XY = 0, fs_XX = 0\<rparr> xys;
          denom = fsub (fmul n (fs_XX s)) (fmul (fs_X s) (fs_X s));
          slope = fdiv (fsub (fmul n (fs_XY s)) (fmul (fs_X s) (fs_Y s))) denom;
          intercept = fdiv (fsub (fs_Y s) (fmul slope (fs_X s))) n;
          mean = fdiv (fs_Y s) n;
          (ssRes, ssTot) = foldl (residuals slope intercept mean) (0, 0) xys
      in if denom = 0 then None
         else Some \<lparr>fm_slope = slope, fm_r2 = (if ssTot > 0 then fsub 1 (fdiv ssRes ssTot) else 0),
           fm_scale = (if \<bar>mean\<bar> < tiny then max \<bar>maxFloat points\<bar> \<bar>minFloat points\<bar> else \<bar>mean\<bar>),
           fm_range = fsub (last xs) (hd xs), fm_points = n,
           fm_significant = slope_significant (slope_std_err n s ssRes) slope\<rparr>)"

definition relative_slope :: "fit_measure \<Rightarrow> float64" where
  "relative_slope m = fdiv (fmul (fm_slope m) (fdiv (fm_range m) (fsub (fm_points m) 1))) (fm_scale m)"

definition stable_fit :: "string \<Rightarrow> float64 \<Rightarrow> trendFit" where
  "stable_fit conf r2 = \<lparr>tr_Direction = TrendStable, tr_Confidence = conf, tr_RSquared = r2\<rparr>"

definition fitDirection :: "TrendPoint list \<Rightarrow> bool \<Rightarrow> trendFit" where
  "fitDirection points upIsBad =
     (if length points < minTrendSample then stable_fit ''low'' 0
      else case measure_fit points of
        None \<Rightarrow> stable_fit ''low'' 0
      | Some m \<Rightarrow>
          if fm_scale m < tiny then stable_fit ''high'' (fm_r2 m)
          else if fm_range m = 0 then stable_fit ''low'' (fm_r2 m)
          else if \<bar>relative_slope m\<bar> < f64 (1 / 20) \<or> fm_r2 m < minTrendR2 \<or> \<not> fm_significant m
          then stable_fit ''low'' (fm_r2 m)
          else \<lparr>tr_Direction = (if (fm_slope m > 0) = upIsBad then TrendWorsening else TrendImproving),
                tr_Confidence = ''high'', tr_RSquared = fm_r2 m\<rparr>)"

section \<open>Trends\<close>

definition cluster_trend :: "string \<Rightarrow> ScanMeta list \<Rightarrow> (string, field_maps) gomap \<Rightarrow> trendField \<Rightarrow> ClusterTrend option" where
  "cluster_trend cluster scans resultsByScan tf =
     (let points = seriesFor (tf_Scanner tf) (tf_Field tf) scans resultsByScan; fit = fitDirection points (tf_UpIsBad tf)
      in if length points < minTrendSample then None
         else Some \<lparr>ct_Cluster = cluster, ct_Scanner = tf_Scanner tf, ct_Field = tf_Field tf, ct_Points = points,
                    ct_Direction = tr_Direction fit, ct_Confidence = tr_Confidence fit, ct_RSquared = tr_RSquared fit\<rparr>)"

definition ComputeClusterTrends :: "string \<Rightarrow> ScanMeta list \<Rightarrow> (string, field_maps) gomap \<Rightarrow> ClusterTrend list" where
  "ComputeClusterTrends cluster scans resultsByScan =
     List.map_filter (cluster_trend cluster scans resultsByScan) trackedFields"

text \<open>Two encodings are equal exactly when the values are, so the values stand for them.\<close>

definition unique_values :: "(string, (string, json) gomap) gomap \<Rightarrow> string \<Rightarrow> string \<Rightarrow> json list" where
  "unique_values scanResults scannerName field =
     remdups (List.map_filter (\<lambda>(_, clusterData).
        Option.bind (map_of clusterData scannerName) (\<lambda>v. Option.bind (genericMap v) (\<lambda>m. map_of m field))) scanResults)"

definition computeUniquenessOverTime ::
  "ScanMeta list \<Rightarrow> (string, (string, (string, json) gomap) gomap) gomap \<Rightarrow> string \<Rightarrow> string \<Rightarrow> FleetTrend" where
  "computeUniquenessOverTime scans allResults scannerName field =
     (let point = (\<lambda>scan. Option.bind (map_of allResults (mt_ID scan)) (\<lambda>scanResults.
            let unique = unique_values scanResults scannerName field
            in if length unique > 0
               then Some \<lparr>tp_Timestamp = mt_Timestamp scan, tp_ScanID = mt_ID scan,
                          tp_Value = of_int64 (int (length unique))\<rparr> else None));
          points = sort_key tp_Timestamp (List.map_filter point scans); fit = fitDirection points True
      in if length points \<ge> minTrendSample
         then \<lparr>ft_Scanner = scannerName, ft_Field = field, ft_Direction = tr_Direction fit, ft_Points = points,
               ft_Confidence = tr_Confidence fit, ft_RSquared = tr_RSquared fit\<rparr>
         else \<lparr>ft_Scanner = scannerName, ft_Field = field, ft_Direction = TrendStable, ft_Points = points,
               ft_Confidence = '''', ft_RSquared = 0\<rparr>)"

definition ComputeFleetTrends ::
  "ScanMeta list \<Rightarrow> (string, (string, (string, json) gomap) gomap) gomap \<Rightarrow> FleetTrend list" where
  "ComputeFleetTrends scans allResults =
     (let versionTrend = computeUniquenessOverTime scans allResults ''version'' ''git_version''
      in if length (ft_Points versionTrend) \<ge> 2 then [versionTrend] else [])"

section \<open>Breaks with the past\<close>

definition minSelfDriftBaseline :: nat where "minSelfDriftBaseline = 5"
definition minSelfDriftSample :: nat where "minSelfDriftSample = minSelfDriftBaseline + 1"
definition selfDriftThreshold :: float64 where "selfDriftThreshold = 7 / 2"
definition minSelfDriftRelStep :: float64 where "minSelfDriftRelStep = 1 / 2"

record SelfDrift =
  sd_Cluster :: string
  sd_Scanner :: string
  sd_Field :: string
  sd_Baseline :: float64
  sd_Latest :: float64
  sd_Deviation :: float64
  sd_ChangedAt :: int
  sd_Direction :: TrendDirection
  sd_Severity :: string

definition meanFloat :: "float64 list \<Rightarrow> float64" where
  "meanFloat vals = (if vals = [] then 0 else fdiv (foldl fadd 0 vals) (of_int64 (int (length vals))))"

definition split_score :: "float64 list \<Rightarrow> nat \<Rightarrow> float64" where
  "split_score vals k =
     (let n = length vals;
          weight = math_Sqrt (fdiv (of_int64 (int (k * (n - k)))) (of_int64 (int n)))
      in fmul weight \<bar>fsub (meanFloat (drop k vals)) (meanFloat (take k vals))\<bar>)"

definition better_split :: "float64 list \<Rightarrow> nat \<times> float64 \<Rightarrow> nat \<Rightarrow> nat \<times> float64" where
  "better_split vals best k = (if split_score vals k > snd best then (k, split_score vals k) else best)"

definition changePointIndex :: "float64 list \<Rightarrow> nat" where
  "changePointIndex vals =
     (let n = length vals
      in if n < minSelfDriftSample then n else fst (foldl (better_split vals) (n, - 1) [minSelfDriftBaseline..<n]))"

text \<open>How far the recent mean is from the baseline, when that is far enough.\<close>

definition self_deviation :: "float64 list \<Rightarrow> float64 \<Rightarrow> float64 option" where
  "self_deviation baseline recentMean =
     (let med = Median baseline; mad = computeMAD baseline med; z = modified_z recentMean med mad;
          rel = fdiv \<bar>fsub recentMean med\<bar> (max \<bar>med\<bar> 1)
      in if mad > 0 then (if \<bar>z\<bar> < selfDriftThreshold then None else Some \<bar>z\<bar>)
         else if rel < minSelfDriftRelStep then None else Some rel)"

definition self_drift_of :: "string \<Rightarrow> trendField \<Rightarrow> TrendPoint list \<Rightarrow> nat \<Rightarrow> float64 \<Rightarrow> float64 \<Rightarrow> float64 \<Rightarrow> SelfDrift" where
  "self_drift_of cluster tf points k med recentMean deviation =
     (let direction = (if (recentMean > med) = tf_UpIsBad tf then TrendWorsening else TrendImproving)
      in \<lparr>sd_Cluster = cluster, sd_Scanner = tf_Scanner tf, sd_Field = tf_Field tf, sd_Baseline = med,
          sd_Latest = recentMean, sd_Deviation = deviation, sd_ChangedAt = tp_Timestamp (points ! k),
          sd_Direction = direction,
          sd_Severity = (if direction = TrendWorsening then SeverityWarning else SeverityInfo)\<rparr>)"

definition self_drift :: "string \<Rightarrow> ScanMeta list \<Rightarrow> (string, field_maps) gomap \<Rightarrow> trendField \<Rightarrow> SelfDrift option" where
  "self_drift cluster scans resultsByScan tf =
     (let points = seriesFor (tf_Scanner tf) (tf_Field tf) scans resultsByScan; vals = map tp_Value points;
          k = changePointIndex vals; med = Median (take k vals); recentMean = meanFloat (drop k vals)
      in if length points < minSelfDriftSample \<or> k < minSelfDriftBaseline \<or> k \<ge> length vals then None
         else map_option (self_drift_of cluster tf points k med recentMean) (self_deviation (take k vals) recentMean))"

definition DetectSelfDrift :: "string \<Rightarrow> ScanMeta list \<Rightarrow> (string, field_maps) gomap \<Rightarrow> SelfDrift list" where
  "DetectSelfDrift cluster scans resultsByScan =
     sort_key (\<lambda>d. (sd_Scanner d, sd_Field d))
       (List.map_filter (self_drift cluster scans resultsByScan) trackedFields)"

section \<open>Findings\<close>

definition scanner_label :: "string \<Rightarrow> string" where
  "scanner_label scanner =
     (let label = lookup_default '''' scannerLabels scanner in if label = '''' then scanner else label)"

definition trend_severity :: "TrendDirection \<Rightarrow> string" where
  "trend_severity d = (if d = TrendWorsening then SeverityWarning else SeverityInfo)"

definition cluster_trend_finding :: "ClusterTrend \<Rightarrow> Finding" where
  "cluster_trend_finding ct =
     Finding0\<lparr>f_Rule := fieldRule (ct_Scanner ct) ruleTrendPrefix (ct_Field ct),
       f_Title := ct_Cluster ct @ '': '' @ scanner_label (ct_Scanner ct) @ '' '' @ ct_Field ct @ '' is ''
         @ direction_text (ct_Direction ct),
       f_Description := ct_Field ct @ '' on '' @ ct_Cluster ct @ '' changed from ''
         @ fmt_fixed1 (tp_Value (hd (ct_Points ct))) @ '' to '' @ fmt_fixed1 (tp_Value (last (ct_Points ct)))
         @ '' over '' @ Itoa (int (length (ct_Points ct))) @ '' scans.'',
       f_Severity := trend_severity (ct_Direction ct), f_Cluster := ct_Cluster ct, f_Scanner := ct_Scanner ct\<rparr>"

definition fleet_trend_finding :: "FleetTrend \<Rightarrow> Finding" where
  "fleet_trend_finding ft =
     Finding0\<lparr>f_Rule := fieldRule (ft_Scanner ft) ruleTrendPrefix (ft_Field ft),
       f_Title := ''Fleet '' @ scanner_label (ft_Scanner ft) @ '' drift is '' @ direction_text (ft_Direction ft),
       f_Description := ''Unique values for '' @ ft_Field ft @ '' changed from ''
         @ fmt_fixed0 (tp_Value (hd (ft_Points ft))) @ '' to '' @ fmt_fixed0 (tp_Value (last (ft_Points ft)))
         @ '' over '' @ Itoa (int (length (ft_Points ft))) @ '' scans.'',
       f_Severity := trend_severity (ft_Direction ft), f_Cluster := ''fleet'', f_Scanner := ft_Scanner ft\<rparr>"

definition GenerateTrendFindings :: "(string \<Rightarrow> string) \<Rightarrow> ClusterTrend list \<Rightarrow> FleetTrend list \<Rightarrow> Finding list" where
  "GenerateTrendFindings sha256 clusterTrends fleetTrends =
     stampFingerprints sha256
       (map cluster_trend_finding (filter (\<lambda>ct. ct_Direction ct \<noteq> TrendStable \<and> 2 \<le> length (ct_Points ct)) clusterTrends)
        @ map fleet_trend_finding (filter (\<lambda>ft. ft_Direction ft \<noteq> TrendStable \<and> 2 \<le> length (ft_Points ft)) fleetTrends))"

text \<open>\<open>format_date\<close> is \<open>Time.Format\<close> with the layout of a day.\<close>

definition self_drift_finding :: "(int \<Rightarrow> string) \<Rightarrow> SelfDrift \<Rightarrow> Finding" where
  "self_drift_finding format_date d =
     Finding0\<lparr>f_Rule := fieldRule (sd_Scanner d) ruleSelfDriftPrefix (sd_Field d),
       f_Title := sd_Cluster d @ '': '' @ scanner_label (sd_Scanner d) @ '' '' @ sd_Field d @ '' broke from its own baseline'',
       f_Description := sd_Field d @ '' on '' @ sd_Cluster d @ '' ''
         @ (if sd_Latest d < sd_Baseline d then ''fell'' else ''rose'') @ '' from a baseline of ''
         @ fmt_fixed1 (sd_Baseline d) @ '' to '' @ fmt_fixed1 (sd_Latest d)
         @ '', diverging from its own history around '' @ format_date (sd_ChangedAt d) @ ''.'',
       f_Severity := sd_Severity d, f_Cluster := sd_Cluster d, f_Scanner := sd_Scanner d, f_Affected := [sd_Field d]\<rparr>"

definition SelfDriftFindings :: "(string \<Rightarrow> string) \<Rightarrow> (int \<Rightarrow> string) \<Rightarrow> SelfDrift list \<Rightarrow> Finding list" where
  "SelfDriftFindings sha256 format_date drifts = stampFingerprints sha256 (map (self_drift_finding format_date) drifts)"

section \<open>Laws\<close>

text \<open>A direction is only ever named with high confidence, on five points or more and on a fit that
  explains a quarter of the variance.\<close>

lemma fit_committed:
  "tr_Direction (fitDirection points b) = TrendStable \<or>
    (minTrendSample \<le> length points \<and> tr_Confidence (fitDirection points b) = ''high'' \<and>
     minTrendR2 \<le> tr_RSquared (fitDirection points b))"
  by (cases "measure_fit points") (simp_all add: fitDirection_def stable_fit_def not_less)

definition mirrored :: "TrendDirection \<Rightarrow> TrendDirection" where
  "mirrored d = (case d of TrendStable \<Rightarrow> TrendStable | TrendImproving \<Rightarrow> TrendWorsening | TrendWorsening \<Rightarrow> TrendImproving)"

lemma fit_polarity:
  "fitDirection points (\<not> b) = (fitDirection points b)\<lparr>tr_Direction := mirrored (tr_Direction (fitDirection points b))\<rparr>"
  by (cases "measure_fit points") (simp_all add: fitDirection_def stable_fit_def mirrored_def)

lemma math_Sqrt_nonneg: "0 \<le> math_Sqrt x"
proof -
  have "0 \<le> f64 ((of_int (isqrt \<lfloor>y\<rfloor>) + (if b then 0 else 1 / 2)) / 2 powi k)" if "0 \<le> y" for y :: rat and b and k :: int
    using isqrt_bounds [of "\<lfloor>y\<rfloor>"] that by (intro f64_nonneg divide_nonneg_pos add_nonneg_nonneg) simp_all
  then show ?thesis by (simp add: math_Sqrt_def Let_def)
qed

lemma split_score_nonneg: "0 \<le> split_score vals k"
  using math_Sqrt_nonneg by (simp add: split_score_def Let_def fmul_def f64_nonneg)

definition best_split :: "float64 list \<Rightarrow> nat list \<Rightarrow> nat \<Rightarrow> bool" where
  "best_split vals ks k \<longleftrightarrow> k \<in> set ks \<and>
     (\<forall>j \<in> set ks. split_score vals j \<le> split_score vals k \<and> (j < k \<longrightarrow> split_score vals j < split_score vals k))"

lemma best_split_snoc:
  assumes "best_split vals ks b" "\<forall>j \<in> set ks. j < k"
  shows "best_split vals (ks @ [k]) (if split_score vals k > split_score vals b then k else b)"
proof -
  have b: "b \<in> set ks" "\<And>j. j \<in> set ks \<Longrightarrow> split_score vals j \<le> split_score vals b"
    "\<And>j. j \<in> set ks \<Longrightarrow> j < b \<Longrightarrow> split_score vals j < split_score vals b"
    using assms(1) by (auto simp: best_split_def)
  then have "b < k" using assms(2) by blast
  show ?thesis
  proof (cases "split_score vals k > split_score vals b")
    case True
    then have "split_score vals j < split_score vals k" if "j \<in> set ks" for j using b(2) [OF that] by (rule le_less_trans [rotated])
    then show ?thesis using True by (auto simp: best_split_def less_imp_le)
  next
    case False
    then show ?thesis using b \<open>b < k\<close> by (auto simp: best_split_def)
  qed
qed

lemma better_split_fold:
  assumes "ks \<noteq> []" "sorted_wrt (<) ks"
  shows "\<exists>k. foldl (better_split vals) (m, - 1) ks = (k, split_score vals k) \<and> best_split vals ks k"
  using assms
proof (induction ks rule: rev_nonempty_induct)
  case (single k)
  show ?case using split_score_nonneg [of vals k] by (simp add: better_split_def best_split_def)
next
  case (snoc k ks)
  then obtain b where b: "foldl (better_split vals) (m, - 1) ks = (b, split_score vals b)" "best_split vals ks b"
    by (auto simp: sorted_wrt_append)
  have "\<forall>j \<in> set ks. j < k" using snoc.prems by (simp add: sorted_wrt_append)
  from best_split_snoc [OF b(2) this] have step: "best_split vals (ks @ [k]) (if split_score vals k > split_score vals b then k else b)" .
  have "foldl (better_split vals) (m, - 1) (ks @ [k]) = better_split vals (b, split_score vals b) k" by (simp add: b(1))
  also have "\<dots> = (if split_score vals k > split_score vals b then (k, split_score vals k) else (b, split_score vals b))"
    by (simp add: better_split_def)
  finally have fold: "foldl (better_split vals) (m, - 1) (ks @ [k]) =
      (if split_score vals k > split_score vals b then (k, split_score vals k) else (b, split_score vals b))" .
  show ?case unfolding fold using step by (cases "split_score vals k > split_score vals b") simp_all
qed

text \<open>The change point is the first of the splits that score best, and leaves a baseline of five.\<close>

lemma changePointIndex_best:
  assumes "minSelfDriftSample \<le> length vals"
  shows "best_split vals [minSelfDriftBaseline..<length vals] (changePointIndex vals)"
proof -
  let ?ks = "[minSelfDriftBaseline..<length vals]"
  have "?ks \<noteq> []" "sorted_wrt (<) ?ks" using assms by (auto simp: minSelfDriftSample_def)
  from better_split_fold [OF this, of vals "length vals"] show ?thesis
    using assms by (auto simp: changePointIndex_def Let_def)
qed

lemma modified_z_0: "modified_z m m d = 0"
  by (simp add: modified_z_def fsub_def fmul_def fdiv_def)

lemma self_deviation_moved: "self_deviation baseline recentMean = Some x \<Longrightarrow> recentMean \<noteq> Median baseline"
  by (auto simp: self_deviation_def Let_def modified_z_0 selfDriftThreshold_def minSelfDriftRelStep_def fsub_def fdiv_def
      split: if_splits)

text \<open>What a self-drift says of the series behind it.\<close>

definition drift_explained :: "trendField \<Rightarrow> TrendPoint list \<Rightarrow> SelfDrift \<Rightarrow> bool" where
  "drift_explained tf points d =
     (let vals = map tp_Value points; k = changePointIndex vals
      in sd_Scanner d = tf_Scanner tf \<and> sd_Field d = tf_Field tf \<and>
         minSelfDriftBaseline \<le> k \<and> k < length points \<and>
         list_all (\<lambda>j. split_score vals j \<le> split_score vals k) [minSelfDriftBaseline..<length vals] \<and>
         sd_ChangedAt d = tp_Timestamp (points ! k) \<and> sd_Baseline d = Median (take k vals) \<and>
         sd_Latest d = meanFloat (drop k vals) \<and> sd_Latest d \<noteq> sd_Baseline d \<and>
         sd_Direction d = (if (sd_Latest d > sd_Baseline d) = tf_UpIsBad tf then TrendWorsening else TrendImproving) \<and>
         sd_Severity d = (if sd_Direction d = TrendWorsening then SeverityWarning else SeverityInfo))"

lemma self_drift_explained:
  assumes "self_drift cluster scans resultsByScan tf = Some d"
  shows "sd_Cluster d = cluster \<and> drift_explained tf (seriesFor (tf_Scanner tf) (tf_Field tf) scans resultsByScan) d"
proof -
  define points where "points = seriesFor (tf_Scanner tf) (tf_Field tf) scans resultsByScan"
  define vals where "vals = map tp_Value points"
  define k where "k = changePointIndex vals"
  obtain deviation where n: "minSelfDriftSample \<le> length points"
    and dev: "self_deviation (take k vals) (meanFloat (drop k vals)) = Some deviation"
    and d: "d = self_drift_of cluster tf points k (Median (take k vals)) (meanFloat (drop k vals)) deviation"
    using assms unfolding self_drift_def Let_def points_def [symmetric] vals_def [symmetric] k_def [symmetric]
    by (auto split: if_splits)
  have k: "best_split vals [minSelfDriftBaseline..<length vals] k"
    unfolding k_def using n by (intro changePointIndex_best) (simp add: vals_def)
  then have "minSelfDriftBaseline \<le> k" "k < length points"
    "list_all (\<lambda>j. split_score vals j \<le> split_score vals k) [minSelfDriftBaseline..<length vals]"
    by (auto simp: best_split_def list_all_iff vals_def)
  moreover have "meanFloat (drop k vals) \<noteq> Median (take k vals)" using dev by (rule self_deviation_moved)
  ultimately show ?thesis
    unfolding drift_explained_def Let_def points_def [symmetric] vals_def [symmetric] k_def [symmetric]
    by (simp add: d self_drift_of_def Let_def)
qed


text \<open>Trend findings are drawn from the series that move and from those only: one warning for each that
  worsens, one note for each that improves, in order, and none for a stable or a one-point series.\<close>

lemma trend_findings_severity:
  "map f_Severity (GenerateTrendFindings sha256 cts fts) =
     map trend_severity (filter (\<lambda>d. d \<noteq> TrendStable)
       (map ct_Direction (filter (\<lambda>ct. 2 \<le> length (ct_Points ct)) cts)
        @ map ft_Direction (filter (\<lambda>ft. 2 \<le> length (ft_Points ft)) fts)))"
  by (simp add: GenerateTrendFindings_def stampFingerprints_def cluster_trend_finding_def fleet_trend_finding_def
      filter_map o_def conj_commute)

end
