(* ===== verification/Forecast.thy ===== *)
theory Forecast
  imports Trends
begin

text \<open>
  \<open>internal/report/forecast.go\<close>: the next fleet score extrapolated from the history. The two insertion
  sorts are the loops of the code; \<open>isort_sorts\<close> shows that they sort stably. A time is a number of
  nanoseconds and a score is far below \<open>2 ^ 53\<close>, so no sum overflows to an infinity.
\<close>

section \<open>Insertion sort\<close>

fun sift :: "('a \<Rightarrow> int) \<Rightarrow> nat \<Rightarrow> 'a list \<Rightarrow> 'a list" where
  "sift key 0 xs = xs"
| "sift key (Suc j) xs =
     (if key (xs ! j) > key (xs ! Suc j) then sift key j (xs[j := xs ! Suc j, Suc j := xs ! j]) else xs)"

definition isort :: "('a \<Rightarrow> int) \<Rightarrow> 'a list \<Rightarrow> 'a list" where
  "isort key xs = fold (sift key) [1..<length xs] xs"

section \<open>Definitions\<close>

record FleetScoreHistoryPoint =
  fp_ScanID :: string
  fp_Timestamp :: int
  fp_Score :: int

record FleetScoreForecast =
  ff_Predicted :: int
  ff_Lower :: int
  ff_Upper :: int
  ff_PredictedFor :: int
  ff_Slope :: float64
  ff_RSquared :: float64
  ff_Basis :: int
  ff_Sufficient :: bool
  ff_Headline :: string

definition minForecastPoints :: nat where "minForecastPoints = 4"

definition time_Hour :: int where "time_Hour = 3600 * 1000000000"

definition time_Hours :: "int \<Rightarrow> float64" where
  "time_Hours d = fadd (of_int64 (d sdiv time_Hour)) (fdiv (of_int64 (d smod time_Hour)) (of_int64 time_Hour))"

definition sortByTimestamp :: "FleetScoreHistoryPoint list \<Rightarrow> FleetScoreHistoryPoint list" where
  "sortByTimestamp pts = isort fp_Timestamp pts"

definition medianGap :: "FleetScoreHistoryPoint list \<Rightarrow> int" where
  "medianGap pts =
     (if length pts < 2 then time_Hour
      else let gaps = isort (\<lambda>d. d) (map (\<lambda>i. time_Sub (fp_Timestamp (pts ! i)) (fp_Timestamp (pts ! (i - 1)))) [1..<length pts]);
               mid = gaps ! (length gaps div 2)
           in if mid \<le> 0 then time_Hour else mid)"

record ols_fit =
  of_slope :: float64
  of_intercept :: float64
  of_rSquared :: float64
  of_stdErr :: float64

text \<open>The residual and the total sum of squares of a line.\<close>

definition ols_residuals :: "float64 \<Rightarrow> float64 \<Rightarrow> float64 \<Rightarrow> float64 \<times> float64 \<Rightarrow> float64 \<times> float64 \<Rightarrow> float64 \<times> float64" where
  "ols_residuals slope intercept meanY p acc =
     (let residual = fsub (snd p) (fadd (fmul slope (fst p)) intercept)
      in (fadd (fst acc) (fmul residual residual), fadd (snd acc) (fmul (fsub (snd p) meanY) (fsub (snd p) meanY))))"

definition ols :: "(float64 \<times> float64) list \<Rightarrow> ols_fit" where
  "ols pts =
     (let n = of_int64 (int (length pts))
      in if n < 2 then \<lparr>of_slope = 0, of_intercept = 0, of_rSquared = 0, of_stdErr = 0\<rparr>
      else
        let s = foldl add_point \<lparr>fs_X = 0, fs_Y = 0, fs_XY = 0, fs_XX = 0\<rparr> pts;
            meanX = fdiv (fs_X s) n; meanY = fdiv (fs_Y s) n;
            denom = fsub (fs_XX s) (fmul meanX (fs_X s))
        in if denom = 0 then \<lparr>of_slope = 0, of_intercept = meanY, of_rSquared = 0, of_stdErr = 0\<rparr>
        else
          let slope = fdiv (fsub (fs_XY s) (fmul meanX (fs_Y s))) denom;
              intercept = fsub meanY (fmul slope meanX);
              (ssRes, ssTot) = fold (ols_residuals slope intercept meanY) pts (0, 0)
          in \<lparr>of_slope = slope, of_intercept = intercept,
              of_rSquared = (if ssTot > 0 then fsub 1 (fdiv ssRes ssTot) else 0),
              of_stdErr = (if n > 2 then math_Sqrt (fdiv ssRes (fsub n 2)) else 0)\<rparr>)"

definition forecastHeadline :: "FleetScoreForecast \<Rightarrow> int \<Rightarrow> string" where
  "forecastHeadline f currentScore =
     (if \<not> ff_Sufficient f then ''Trend too flat or noisy to forecast confidently.''
      else let delta = ff_Predicted f - currentScore
           in if delta \<ge> 5 then ''Projected to improve sharply.''
              else if delta \<ge> 2 then ''Projected to improve.''
              else if delta \<le> - 5 then ''Projected to degrade sharply.''
              else if delta \<le> - 2 then ''Projected to degrade.''
              else ''Projected to hold steady.'')"

definition score_points :: "FleetScoreHistoryPoint list \<Rightarrow> (float64 \<times> float64) list" where
  "score_points pts =
     map (\<lambda>p. (time_Hours (time_Sub (fp_Timestamp p) (fp_Timestamp (pts ! 0))), of_int64 (fp_Score p))) pts"

definition ForecastFleetScore :: "FleetScoreHistoryPoint list \<Rightarrow> int \<Rightarrow> FleetScoreForecast" where
  "ForecastFleetScore history predictedFor =
     (let n = length history
      in if n < minForecastPoints
         then \<lparr>ff_Predicted = 0, ff_Lower = 0, ff_Upper = 0, ff_PredictedFor = zero_time, ff_Slope = 0, ff_RSquared = 0,
               ff_Basis = int n, ff_Sufficient = False, ff_Headline = ''Not enough history yet for a forecast.''\<rparr>
      else
        let pts = sortByTimestamp history;
            latest = pts ! (n - 1);
            target = (if predictedFor = zero_time then fp_Timestamp latest + medianGap pts else predictedFor);
            fit = ols (score_points pts);
            xPredict = time_Hours (time_Sub target (fp_Timestamp (pts ! 0)));
            predicted = max 0 (min 100 (fadd (fmul (of_slope fit) xPredict) (of_intercept fit)));
            margin = fmul (f64 (196 / 100)) (of_stdErr fit);
            forecast = \<lparr>ff_Predicted = math_Round predicted,
                        ff_Lower = math_Round (max 0 (fsub predicted margin)),
                        ff_Upper = math_Round (min 100 (fadd predicted margin)),
                        ff_PredictedFor = target, ff_Slope = of_slope fit, ff_RSquared = of_rSquared fit,
                        ff_Basis = int n,
                        ff_Sufficient = (of_rSquared fit \<ge> 1 / 4 \<or> \<bar>of_slope fit\<bar> > f64 (1 / 10)),
                        ff_Headline = ''''\<rparr>
        in forecast\<lparr>ff_Headline := forecastHeadline forecast (fp_Score latest)\<rparr>)"

section \<open>The insertion sort sorts stably\<close>

lemma length_sift [simp]: "length (sift key j xs) = length xs"
  by (induction key j xs rule: sift.induct) auto

lemma sift_inserts:
  "sorted (map key a) \<Longrightarrow>
   sift key (length a) (a @ x # b) = takeWhile (\<lambda>y. key y \<le> key x) a @ x # dropWhile (\<lambda>y. key y \<le> key x) a @ b"
proof (induction a arbitrary: b rule: rev_induct)
  case Nil
  then show ?case by simp
next
  case (snoc y a)
  have sorted: "sorted (map key a)" and le: "\<And>z. z \<in> set a \<Longrightarrow> key z \<le> key y"
    using snoc.prems by (auto simp: sorted_append)
  show ?case
  proof (cases "key y > key x")
    case True
    have "sift key (length (a @ [y])) ((a @ [y]) @ x # b) = sift key (length a) (a @ x # (y # b))"
      using True by (simp add: nth_append list_update_append)
    also have "\<dots> = takeWhile (\<lambda>y. key y \<le> key x) a @ x # dropWhile (\<lambda>y. key y \<le> key x) a @ y # b"
      by (rule snoc.IH [OF sorted])
    finally show ?thesis
      using True by (cases "\<forall>z \<in> set a. key z \<le> key x")
        (auto simp: takeWhile_append1 takeWhile_append2 dropWhile_append1 dropWhile_append2 not_le)
  next
    case False
    then have all: "\<And>z. z \<in> set a \<Longrightarrow> key z \<le> key x" using le by fastforce
    have "takeWhile (\<lambda>y. key y \<le> key x) (a @ [y]) = a @ [y]" "dropWhile (\<lambda>y. key y \<le> key x) (a @ [y]) = []"
      using all False by (simp_all add: takeWhile_eq_all_conv)
    moreover have "sift key (length (a @ [y])) ((a @ [y]) @ x # b) = (a @ [y]) @ x # b"
      using False by (simp add: nth_append)
    ultimately show ?thesis by simp
  qed
qed

lemma sorted_insertion:
  assumes "sorted (map key a)"
  shows "sort_key key (a @ [x]) = takeWhile (\<lambda>y. key y \<le> key x) a @ x # dropWhile (\<lambda>y. key y \<le> (key x :: int)) a"
proof (rule properties_for_sort_key)
  let ?t = "takeWhile (\<lambda>y. key y \<le> key x) a" and ?d = "dropWhile (\<lambda>y. key y \<le> key x) a"
  have split: "?t @ ?d = a" by simp
  show "mset (?t @ x # ?d) = mset (a @ [x])" 
    using arg_cong [OF split, of mset] by (simp only: mset_append mset.simps union_mset_add_mset_right add_0_right)
  have s: "sorted (map key ?t)" "sorted (map key ?d)"
    using assms sorted_append [of "map key ?t" "map key ?d"] by (metis map_append split)+
  have hd: "\<And>z. z \<in> set ?d \<Longrightarrow> key x < key z"
  proof -
    fix z assume z: "z \<in> set ?d"
    then have ne: "?d \<noteq> []" by (metis empty_iff list.set(1))
    then have "\<not> key (hd ?d) \<le> key x" using hd_dropWhile [of "\<lambda>y. key y \<le> key x" a] by fast
    moreover have "key (hd ?d) \<le> key z" using s(2) z by (cases ?d) auto
    ultimately show "key x < key z" by simp
  qed
  show "sorted (map key (?t @ x # ?d))"
    using s hd set_takeWhileD [of _ "\<lambda>y. key y \<le> key x" a] by (fastforce simp: sorted_append)
  fix k assume "k \<in> set (?t @ x # ?d)"
  let ?f = "filter (\<lambda>y. key k = key y)"
  have f: "?f a = ?f ?t @ ?f ?d" by (metis filter_append split)
  have "?f ?d = [] \<or> ?f [x] = []"
  proof (cases "key k = key x")
    case True
    then have "\<And>z. z \<in> set ?d \<Longrightarrow> key k \<noteq> key z" using hd by force
    then show ?thesis by (intro disjI1 filter_False) blast
  qed simp
  then have swap: "?f [x] @ ?f ?d = ?f ?d @ ?f [x]" by fastforce
  have "?f (?t @ x # ?d) = ?f (?t @ [x] @ ?d)" by (simp only: append_Cons append_Nil)
  also have "\<dots> = ?f ?t @ ?f [x] @ ?f ?d" by (simp only: filter_append)
  also have "\<dots> = (?f ?t @ ?f ?d) @ ?f [x]" by (simp only: swap append_assoc)
  also have "\<dots> = ?f (a @ [x])" by (simp only: filter_append f)
  finally show "?f (?t @ x # ?d) = ?f (a @ [x])" .
qed

lemma isort_prefix:
  "i < length xs \<Longrightarrow> fold (sift key) [1..<Suc i] xs = sort_key key (take (Suc i) xs) @ drop (Suc i) xs"
proof (induction i)
  case 0
  then show ?case by (cases xs) (auto simp: sort_key_simps)
next
  case (Suc i)
  let ?a = "sort_key key (take (Suc i) xs)"
  have d: "drop (Suc i) xs = xs ! Suc i # drop (Suc (Suc i)) xs" using Suc.prems by (simp add: Cons_nth_drop_Suc)
  have "fold (sift key) [1..<Suc (Suc i)] xs = sift key (Suc i) (fold (sift key) [1..<Suc i] xs)" by simp
  also have "\<dots> = sift key (length ?a) (?a @ xs ! Suc i # drop (Suc (Suc i)) xs)"
    using Suc d by simp
  also have "\<dots> = sort_key key (?a @ [xs ! Suc i]) @ drop (Suc (Suc i)) xs"
    using sift_inserts [of key ?a] sorted_insertion [of key ?a] by (simp del: length_sort)
  also have "sort_key key (?a @ [xs ! Suc i]) = sort_key key (take (Suc (Suc i)) xs)"
  proof (rule properties_for_sort_key [symmetric])
    have t: "take (Suc (Suc i)) xs = take (Suc i) xs @ [xs ! Suc i]" using Suc.prems by (rule take_Suc_conv_app_nth)
    show "mset (sort_key key (?a @ [xs ! Suc i])) = mset (take (Suc (Suc i)) xs)" by (simp add: t)
    show "sorted (map key (sort_key key (?a @ [xs ! Suc i])))" by simp
    fix k
    show "filter (\<lambda>y. key k = key y) (sort_key key (?a @ [xs ! Suc i])) = filter (\<lambda>y. key k = key y) (take (Suc (Suc i)) xs)"
      by (simp only: t eq_commute [of "key k"] sort_key_stable filter_append)
  qed
  finally show ?case .
qed

lemma isort_sorts: "isort key xs = sort_key key xs"
proof (cases xs)
  case Nil
  then show ?thesis by (simp add: isort_def)
next
  case (Cons x ys)
  then have "length ys < length xs" "length xs = Suc (length ys)" by simp_all
  then show ?thesis using isort_prefix [of "length ys" xs key] by (simp add: isort_def)
qed

section \<open>The forecast\<close>

lemma round_in_band:
  assumes "0 \<le> x" "x \<le> 100"
  shows "0 \<le> math_Round x" "math_Round x \<le> 100"
  using math_Round_mono [of 0 x] math_Round_mono [of x 100] assms
    math_Round_of_int [of 0] math_Round_of_int [of 100] by simp_all

text \<open>What the prediction and its band are rounded from.\<close>

lemma forecast_band:
  assumes "is_f64 p" "0 \<le> p" "p \<le> 100" "0 \<le> m"
  shows "0 \<le> math_Round (max 0 (fsub p m))" "math_Round (max 0 (fsub p m)) \<le> math_Round p"
    "math_Round p \<le> math_Round (min 100 (fadd p m))" "math_Round (min 100 (fadd p m)) \<le> 100"
proof -
  have down: "fsub p m \<le> p" using assms(1,4) by (simp add: fsub_def f64_le_f64)
  have up: "p \<le> fadd p m" using assms(1,4) by (simp add: fadd_def f64_ge_f64)
  show "0 \<le> math_Round (max 0 (fsub p m))" using down assms by (intro round_in_band) auto
  show "math_Round (max 0 (fsub p m)) \<le> math_Round p" using down assms by (intro math_Round_mono) auto
  show "math_Round p \<le> math_Round (min 100 (fadd p m))" using up assms by (intro math_Round_mono) auto
  show "math_Round (min 100 (fadd p m)) \<le> 100" using up assms by (intro round_in_band) auto
qed

lemma of_stdErr_nonneg: "0 \<le> of_stdErr (ols pts)"
  by (simp add: ols_def Let_def math_Sqrt_nonneg split: prod.split)

lemma is_f64_clamped: "is_f64 p \<Longrightarrow> is_f64 (max 0 (min 100 p))"
  using is_f64_of_int [of 100] by (simp add: max_def min_def)

lemma forecast_scale_nonneg: "0 \<le> f64 (196 / 100)"
  by (rule f64_nonneg) simp

text \<open>A forecast is an interval within the scale of a score, from the lower to the upper bound, that
  holds the predicted score, whatever the history and the time asked for.\<close>

lemma ForecastFleetScore_bounds:
  "let f = ForecastFleetScore history t
   in 0 \<le> ff_Lower f \<and> ff_Lower f \<le> ff_Predicted f \<and> ff_Predicted f \<le> ff_Upper f \<and> ff_Upper f \<le> 100"
proof (cases "length history < minForecastPoints")
  case True
  then show ?thesis by (simp add: ForecastFleetScore_def Let_def)
next
  case False
  have band: "\<And>q e. 0 \<le> math_Round (max 0 (fsub (max 0 (min 100 (fadd q e))) (fmul (f64 (196 / 100)) (of_stdErr (ols pts)))))
      \<and> math_Round (max 0 (fsub (max 0 (min 100 (fadd q e))) (fmul (f64 (196 / 100)) (of_stdErr (ols pts)))))
         \<le> math_Round (max 0 (min 100 (fadd q e)))
      \<and> math_Round (max 0 (min 100 (fadd q e)))
         \<le> math_Round (min 100 (fadd (max 0 (min 100 (fadd q e))) (fmul (f64 (196 / 100)) (of_stdErr (ols pts)))))
      \<and> math_Round (min 100 (fadd (max 0 (min 100 (fadd q e))) (fmul (f64 (196 / 100)) (of_stdErr (ols pts))))) \<le> 100" for pts
    by (intro conjI forecast_band is_f64_clamped)
      (simp_all add: fadd_def fmul_def f64_nonneg forecast_scale_nonneg of_stdErr_nonneg)
  show ?thesis
    using False band by (simp add: ForecastFleetScore_def Let_def)
qed

text \<open>The order in which the history is given does not matter while its times are distinct.\<close>

lemma ForecastFleetScore_order:
  assumes "mset h = mset history" "distinct (map fp_Timestamp history)"
  shows "ForecastFleetScore h t = ForecastFleetScore history t"
proof -
  have inj: "inj_on fp_Timestamp (set history)" using assms(2) by (simp add: distinct_map)
  have "sortByTimestamp h = sortByTimestamp history"
    unfolding sortByTimestamp_def isort_sorts
  proof (rule properties_for_sort_key)
    show "mset (sort_key fp_Timestamp history) = mset h" using assms(1) by simp
    show "sorted (map fp_Timestamp (sort_key fp_Timestamp history))" by simp
    fix k assume k: "k \<in> set (sort_key fp_Timestamp history)"
    have d: "distinct history" "distinct h"
      using assms by (simp_all add: distinct_map mset_eq_imp_distinct_iff [OF assms(1)])
    have one: "filter (\<lambda>x. fp_Timestamp k = fp_Timestamp x) xs = [k]" if "mset xs = mset history" for xs
    proof -
      have dx: "distinct xs" and sx: "set xs = set history"
        using that d(1) by (auto dest: mset_eq_imp_distinct_iff mset_eq_setD)
      have "set (filter (\<lambda>x. fp_Timestamp k = fp_Timestamp x) xs) = {k}"
        using k sx inj by (auto dest: inj_onD)
      moreover have "distinct (filter (\<lambda>x. fp_Timestamp k = fp_Timestamp x) xs)" using dx by simp
      ultimately show ?thesis by (metis distinct_card card_1_singleton_iff distinct_length_2_or_more empty_set insert_not_empty is_singletonI length_0_conv length_Suc_conv list.set(2) One_nat_def list.size(3) set_ConsD singletonI singleton_insert_inj_eq')
    qed
    show "filter (\<lambda>x. fp_Timestamp k = fp_Timestamp x) (sort_key fp_Timestamp history)
        = filter (\<lambda>x. fp_Timestamp k = fp_Timestamp x) h"
      using one [of "sort_key fp_Timestamp history"] one [OF assms(1)] by simp
  qed
  moreover have "length h = length history" using assms(1) by (rule mset_eq_length)
  ultimately show ?thesis by (simp only: ForecastFleetScore_def)
qed

end
