(* ===== verification/Scan_Audit.thy ===== *)
theory Scan_Audit
  imports Scan_Namespaces RateLimit Forecast
begin

text \<open>
  The scanners that audit a cluster, from the listed objects to the result: over-permissive bindings
  (\<open>internal/scanner/rbacaudit\<close>), expiring certificates (\<open>certs\<close>), admission webhooks (\<open>admission\<close>)
  and the disruption budgets and autoscalers of replicated workloads (\<open>workloadcoverage\<close>). The PEM and
  X.509 decoders and the label selectors of Kubernetes are parameters.
\<close>

section \<open>Bindings\<close>

definition systemPrefixes :: "string list" where "systemPrefixes = [''system:'', ''kubeadm:'']"
definition systemBindingLabel :: string where "systemBindingLabel = ''kubernetes.io/bootstrapping''"
definition openSubjects :: "string list" where "openSubjects = [''system:unauthenticated'', ''system:anonymous'']"

record RiskBinding =
  rb_Kind :: string
  rb_Name :: string
  rb_Namespace :: string
  rb_RoleRef :: string
  rb_Subjects :: "string list"
  rb_Risks :: "string list"

record AuditData =
  ad_WildcardRules :: int
  ad_ClusterAdminBindings :: int
  ad_DefaultSABindings :: int
  ad_AutomountTokenPods :: int
  ad_RoleBindingsAudited :: int
  ad_RiskBindings :: "RiskBinding list"

definition AuditData0 :: AuditData where
  "AuditData0 = \<lparr>ad_WildcardRules = 0, ad_ClusterAdminBindings = 0, ad_DefaultSABindings = 0,
     ad_AutomountTokenPods = 0, ad_RoleBindingsAudited = 0, ad_RiskBindings = []\<rparr>"

definition isSystemBinding :: "ObjectMeta \<Rightarrow> Subject list \<Rightarrow> bool" where
  "isSystemBinding meta subjects \<longleftrightarrow>
     \<not> list_ex (\<lambda>s. sj_Name s \<in> set openSubjects) subjects \<and>
     (map_of (om_Labels meta) systemBindingLabel \<noteq> None \<or> list_ex (has_prefix (om_Name meta)) systemPrefixes)"

definition ruleHasWildcard :: "string list \<Rightarrow> bool" where
  "ruleHasWildcard items \<longleftrightarrow> ''*'' \<in> set items"

definition wildcard_rule :: "PolicyRule \<Rightarrow> bool" where
  "wildcard_rule r \<longleftrightarrow> ruleHasWildcard (pl_Verbs r) \<or> ruleHasWildcard (pl_Resources r) \<or> ruleHasWildcard (pl_APIGroups r)"

text \<open>The number of wildcard rules of the cluster roles, and the names of the roles that hold one.\<close>

definition count_wildcards :: "Role list \<Rightarrow> int \<times> string set" where
  "count_wildcards roles =
     foldl (\<lambda>acc cr. foldl (\<lambda>(n, names) rule. if wildcard_rule rule then (n + 1, insert (om_Name (ro_Meta cr)) names) else (n, names))
       acc (ro_Rules cr)) (0, {}) roles"

definition subject_text :: "Subject \<Rightarrow> string" where
  "subject_text s = sj_Kind s @ '':'' @ sj_Namespace s @ ''/'' @ sj_Name s"

definition to_default_sa :: "Binding \<Rightarrow> bool" where
  "to_default_sa b = list_ex (\<lambda>s. sj_Kind s = ''ServiceAccount'' \<and> sj_Name s = ''default'') (bi_Subjects b)"

definition to_cluster_admin :: "Binding \<Rightarrow> bool" where
  "to_cluster_admin b \<longleftrightarrow> bi_RoleRef b = ''cluster-admin'' \<and> \<not> isSystemBinding (bi_Meta b) (bi_Subjects b)"

definition binding_risks :: "string set \<Rightarrow> Binding \<Rightarrow> string list" where
  "binding_risks wild b =
     (if to_cluster_admin b then [''cluster-admin-to-non-system''] else []) @
     (if to_default_sa b then [''grants-to-default-sa''] else []) @
     (if bi_RoleRef b \<in> wild \<and> \<not> isSystemBinding (bi_Meta b) (bi_Subjects b) then [''wildcard-role''] else [])"

definition risk_binding :: "string \<Rightarrow> bool \<Rightarrow> string set \<Rightarrow> Binding \<Rightarrow> RiskBinding" where
  "risk_binding kind namespaced wild b =
     \<lparr>rb_Kind = kind, rb_Name = om_Name (bi_Meta b),
      rb_Namespace = (if namespaced then om_Namespace (bi_Meta b) else ''''), rb_RoleRef = bi_RoleRef b,
      rb_Subjects = map subject_text (bi_Subjects b), rb_Risks = binding_risks wild b\<rparr>"

definition audit_binding :: "string \<Rightarrow> bool \<Rightarrow> string set \<Rightarrow> AuditData \<Rightarrow> Binding \<Rightarrow> AuditData" where
  "audit_binding kind namespaced wild d b =
     d\<lparr>ad_ClusterAdminBindings := bump (to_cluster_admin b) (ad_ClusterAdminBindings d),
       ad_DefaultSABindings := bump (to_default_sa b) (ad_DefaultSABindings d),
       ad_RiskBindings := ad_RiskBindings d @
         (if binding_risks wild b = [] then [] else [risk_binding kind namespaced wild b])\<rparr>"

text \<open>A pod here is the value of its \<open>automountServiceAccountToken\<close>.\<close>

definition automounts :: "bool option \<Rightarrow> bool" where "automounts p \<longleftrightarrow> p \<noteq> Some False"

definition risk_binding_key :: "RiskBinding \<Rightarrow> int \<times> string \<times> string \<times> string" where
  "risk_binding_key r = (- int (length (rb_Risks r)), rb_Kind r, rb_Namespace r, rb_Name r)"

definition audit_data :: "Role list \<Rightarrow> Binding list \<Rightarrow> Binding list \<Rightarrow> bool option list \<Rightarrow> AuditData" where
  "audit_data crs crbs rbs pods =
     (let (wildcards, wild) = count_wildcards crs;
          d = foldl (audit_binding ''ClusterRoleBinding'' False wild) (AuditData0\<lparr>ad_WildcardRules := wildcards\<rparr>) crbs;
          d = foldl (audit_binding ''RoleBinding'' True wild) (d\<lparr>ad_RoleBindingsAudited := int (length rbs)\<rparr>) rbs;
          d = d\<lparr>ad_AutomountTokenPods := int (length (filter automounts pods))\<rparr>
      in d\<lparr>ad_RiskBindings := TopN (ad_RiskBindings d) 30 risk_binding_key\<rparr>)"

definition risk_binding_json :: "RiskBinding \<Rightarrow> json" where
  "risk_binding_json r = JObj ([(''kind'', JStr (rb_Kind r)), (''name'', JStr (rb_Name r))] @
     omit_empty ''namespace'' (rb_Namespace r) @
     [(''role_ref'', JStr (rb_RoleRef r)), (''subjects'', JArr (map JStr (rb_Subjects r))),
      (''risks'', JArr (map JStr (rb_Risks r)))])"

definition audit_json :: "AuditData \<Rightarrow> json" where
  "audit_json d = JObj
     [(''wildcard_rules'', JNum (of_int64 (ad_WildcardRules d))),
      (''cluster_admin_bindings'', JNum (of_int64 (ad_ClusterAdminBindings d))),
      (''default_sa_bindings'', JNum (of_int64 (ad_DefaultSABindings d))),
      (''automount_token_pods'', JNum (of_int64 (ad_AutomountTokenPods d))),
      (''role_bindings_audited'', JNum (of_int64 (ad_RoleBindingsAudited d))),
      (''risk_bindings'', json_slice risk_binding_json (ad_RiskBindings d))]"

definition scan_rbac_audit ::
  "Role listing \<Rightarrow> Binding listing \<Rightarrow> Binding listing \<Rightarrow> bool option listing \<Rightarrow> Result \<times> coverageError option" where
  "scan_rbac_audit crs crbs rbs pods =
     Finish (noted (noted (needed (needed Coverage0 ''cluster roles'' crs) ''cluster role bindings'' crbs)
         ''role bindings'' rbs) ''pods'' pods) ''rbac-audit''
       (audit_json (audit_data (listing_items crs) (listing_items crbs) (listing_items rbs) (listing_items pods)))"

section \<open>Certificates\<close>

record certificate =
  x_CommonName :: string
  x_NotAfter :: int

text \<open>\<open>pem.Decode\<close> returns the type and the bytes of the next block and the rest of its input,
  \<open>x509.ParseCertificate\<close> a certificate or an error. Each block consumes input, so the length of the
  input is enough fuel.\<close>

record decoders =
  dc_pem :: "string \<Rightarrow> (string \<times> string \<times> string) option"
  dc_x509 :: "string \<Rightarrow> certificate option"

fun pem_loop :: "decoders \<Rightarrow> nat \<Rightarrow> string \<Rightarrow> certificate list" where
  "pem_loop dc 0 b = []"
| "pem_loop dc (Suc n) b =
     (if b = '''' then []
      else case dc_pem dc b of
        None \<Rightarrow> []
      | Some (kind, bytes, rest) \<Rightarrow>
          (if kind \<noteq> ''CERTIFICATE'' then []
           else case dc_x509 dc bytes of None \<Rightarrow> [] | Some cert \<Rightarrow> [cert]) @ pem_loop dc n rest)"

definition parsePEM :: "decoders \<Rightarrow> string \<Rightarrow> certificate list" where
  "parsePEM dc b = pem_loop dc (length b) b"

text \<open>\<open>int(t.Sub(now).Hours() / 24)\<close>, which rounds towards zero.\<close>

definition days_until :: "int \<Rightarrow> int \<Rightarrow> int" where
  "days_until now t = math_Trunc (fdiv (time_Hours (time_Sub t now)) 24)"

record Cert =
  ce_Name :: string
  ce_Namespace :: string
  ce_Kind :: string
  ce_Subject :: string
  ce_NotAfter :: int
  ce_DaysRemaining :: int

record CertData =
  cd_TotalCerts :: int
  cd_Critical :: int
  cd_Warning :: int
  cd_Info :: int
  cd_Soonest :: int
  cd_Certs :: "Cert list"

record Secret =
  se_Meta :: ObjectMeta
  se_Type :: string
  se_Data :: "(string, string) gomap"

record webhookService =
  ws_Namespace :: string
  ws_Name :: string

record WebhookEntry =
  we_Name :: string
  we_Service :: "webhookService option"
  we_URL :: "string option"
  we_CABundle :: string
  we_FailurePolicy :: "string option"

record WebhookConfiguration =
  wc_Name :: string
  wc_Webhooks :: "WebhookEntry list"

definition criticalDays :: int where "criticalDays = 7"
definition warningDays :: int where "warningDays = 30"
definition infoDays :: int where "infoDays = 90"

definition cert_record :: "int \<Rightarrow> string \<Rightarrow> string \<Rightarrow> string \<Rightarrow> certificate \<Rightarrow> Cert" where
  "cert_record now name ns kind c =
     \<lparr>ce_Name = name, ce_Namespace = ns, ce_Kind = kind, ce_Subject = x_CommonName c, ce_NotAfter = x_NotAfter c,
      ce_DaysRemaining = days_until now (x_NotAfter c)\<rparr>"

definition secret_certs :: "decoders \<Rightarrow> int \<Rightarrow> Secret \<Rightarrow> Cert list" where
  "secret_certs dc now s =
     (if se_Type s \<noteq> ''kubernetes.io/tls'' then []
      else case map_of (se_Data s) ''tls.crt'' of
             None \<Rightarrow> []
           | Some crt \<Rightarrow> map (cert_record now (om_Name (se_Meta s)) (om_Namespace (se_Meta s)) ''Secret'') (parsePEM dc crt))"

definition webhook_cas :: "decoders \<Rightarrow> int \<Rightarrow> string \<Rightarrow> WebhookConfiguration \<Rightarrow> Cert list" where
  "webhook_cas dc now kind wc =
     concat (map (\<lambda>wh. map (cert_record now (wc_Name wc @ ''/'' @ we_Name wh) '''' kind) (parsePEM dc (we_CABundle wh)))
       (wc_Webhooks wc))"

definition soonest_step :: "int \<Rightarrow> int \<Rightarrow> int" where
  "soonest_step s d = (if s = - 1 \<or> d < s then d else s)"

definition count_cert :: "CertData \<Rightarrow> Cert \<Rightarrow> CertData" where
  "count_cert d c =
     (let n = ce_DaysRemaining c;
          d = (if n < criticalDays then d\<lparr>cd_Critical := cd_Critical d + 1\<rparr>
               else if n < warningDays then d\<lparr>cd_Warning := cd_Warning d + 1\<rparr>
               else if n < infoDays then d\<lparr>cd_Info := cd_Info d + 1\<rparr> else d)
      in d\<lparr>cd_Soonest := soonest_step (cd_Soonest d) n\<rparr>)"

definition cert_key :: "Cert \<Rightarrow> int \<times> string \<times> string \<times> string" where
  "cert_key c = (ce_DaysRemaining c, ce_Namespace c, ce_Name c, ce_Kind c)"

definition cert_data :: "Cert list \<Rightarrow> CertData" where
  "cert_data certs =
     foldl count_cert
       \<lparr>cd_TotalCerts = int (length certs), cd_Critical = 0, cd_Warning = 0, cd_Info = 0, cd_Soonest = - 1,
        cd_Certs = TopN certs 100 cert_key\<rparr> certs"

text \<open>Times are written by a parameter.\<close>

definition cert_json :: "(int \<Rightarrow> string) \<Rightarrow> Cert \<Rightarrow> json" where
  "cert_json stamp c = JObj ([(''name'', JStr (ce_Name c))] @ omit_empty ''namespace'' (ce_Namespace c) @
     [(''kind'', JStr (ce_Kind c))] @ omit_empty ''subject'' (ce_Subject c) @
     [(''not_after'', JStr (stamp (ce_NotAfter c))), (''days_remaining'', JNum (of_int64 (ce_DaysRemaining c)))])"

definition certs_json :: "(int \<Rightarrow> string) \<Rightarrow> CertData \<Rightarrow> json" where
  "certs_json stamp d = JObj
     [(''total_certs'', JNum (of_int64 (cd_TotalCerts d))), (''critical'', JNum (of_int64 (cd_Critical d))),
      (''warning'', JNum (of_int64 (cd_Warning d))), (''info'', JNum (of_int64 (cd_Info d))),
      (''soonest_days'', JNum (of_int64 (cd_Soonest d))), (''certs'', json_slice (cert_json stamp) (cd_Certs d))]"

definition tlsSecretSelector :: string where "tlsSecretSelector = ''type=kubernetes.io/tls''"

definition all_certs :: "decoders \<Rightarrow> int \<Rightarrow> Secret list \<Rightarrow> WebhookConfiguration list \<Rightarrow> WebhookConfiguration list \<Rightarrow> Cert list" where
  "all_certs dc now secrets mwh vwh =
     concat (map (secret_certs dc now) secrets) @
     concat (map (webhook_cas dc now ''MutatingWebhookConfiguration'') mwh) @
     concat (map (webhook_cas dc now ''ValidatingWebhookConfiguration'') vwh)"

definition scan_certs ::
  "decoders \<Rightarrow> (int \<Rightarrow> string) \<Rightarrow> int \<Rightarrow> Secret listing \<Rightarrow> WebhookConfiguration listing \<Rightarrow> WebhookConfiguration listing \<Rightarrow>
     Result \<times> coverageError option" where
  "scan_certs dc stamp now secrets mwh vwh =
     Finish (noted (noted (noted Coverage0 ''secrets'' secrets) ''mutating webhook configurations'' mwh)
         ''validating webhook configurations'' vwh) ''certs''
       (certs_json stamp (cert_data (all_certs dc now (listing_items secrets) (listing_items mwh) (listing_items vwh))))"

section \<open>Admission webhooks\<close>

definition caExpirySoonDays :: int where "caExpirySoonDays = 30"

record Webhook =
  wh_Configuration :: string
  wh_Webhook :: string
  wh_Type :: string
  wh_Service :: string
  wh_URL :: string
  wh_EndpointsHealthy :: bool
  wh_FailurePolicy :: string
  wh_CABundleNotAfter :: int
  wh_CABundleDaysRemaining :: int
  wh_EndpointsUnknown :: bool

text \<open>The answer of the API to a read of endpoints: an error or the addresses of each subset.\<close>

type_synonym endpoints = "string \<Rightarrow> string \<Rightarrow> apiError + nat list"

definition endpointsHealthy :: "endpoints \<Rightarrow> string \<Rightarrow> string \<Rightarrow> bool \<times> apiError option" where
  "endpointsHealthy read ns name =
     (case read ns name of
        Inl err \<Rightarrow> if ae_IsNotFound err then (False, None) else (False, Some err)
      | Inr subsets \<Rightarrow> (list_ex (\<lambda>n. n > 0) subsets, None))"

definition earliestExpiry :: "decoders \<Rightarrow> string \<Rightarrow> int option" where
  "earliestExpiry dc bundle =
     foldl (\<lambda>e c. case e of None \<Rightarrow> Some (x_NotAfter c) | Some t \<Rightarrow> Some (if x_NotAfter c < t then x_NotAfter c else t))
       None (parsePEM dc bundle)"

definition buildWebhook ::
  "decoders \<Rightarrow> endpoints \<Rightarrow> int \<Rightarrow> string \<Rightarrow> string \<Rightarrow> Coverage \<Rightarrow> WebhookEntry \<Rightarrow> Webhook \<times> Coverage" where
  "buildWebhook dc read now cfg kind cov we =
     (let w = \<lparr>wh_Configuration = cfg, wh_Webhook = we_Name we, wh_Type = kind, wh_Service = '''', wh_URL = '''',
               wh_EndpointsHealthy = False,
               wh_FailurePolicy = (case we_FailurePolicy we of None \<Rightarrow> '''' | Some p \<Rightarrow> p),
               wh_CABundleNotAfter = zero_time, wh_CABundleDaysRemaining = - 1, wh_EndpointsUnknown = False\<rparr>;
          (w, cov) = (case we_Service we of
              None \<Rightarrow> (w, cov)
            | Some s \<Rightarrow>
                let service = ws_Namespace s @ ''/'' @ ws_Name s;
                    (healthy, err) = endpointsHealthy read (ws_Namespace s) (ws_Name s);
                    (cov, ok) = Observe cov (''endpoints '' @ service) err
                in (w\<lparr>wh_Service := service, wh_EndpointsUnknown := \<not> ok, wh_EndpointsHealthy := healthy\<rparr>, cov));
          w = (case we_URL we of None \<Rightarrow> w | Some u \<Rightarrow> w\<lparr>wh_URL := u\<rparr>);
          w = (case earliestExpiry dc (we_CABundle we) of
              None \<Rightarrow> w
            | Some t \<Rightarrow> w\<lparr>wh_CABundleNotAfter := t, wh_CABundleDaysRemaining := days_until now t\<rparr>)
      in (w, cov))"

definition build_configurations ::
  "decoders \<Rightarrow> endpoints \<Rightarrow> int \<Rightarrow> string \<Rightarrow> WebhookConfiguration list \<Rightarrow> Webhook list \<times> Coverage \<Rightarrow> Webhook list \<times> Coverage" where
  "build_configurations dc read now kind cfgs acc =
     foldl (\<lambda>acc cfg. foldl (\<lambda>(ws, cov) we. let (w, cov) = buildWebhook dc read now (wc_Name cfg) kind cov we
         in (ws @ [w], cov)) acc (wc_Webhooks cfg)) acc cfgs"

definition is_unhealthy :: "Webhook \<Rightarrow> bool" where
  "is_unhealthy w \<longleftrightarrow> wh_Service w \<noteq> '''' \<and> \<not> wh_EndpointsUnknown w \<and> \<not> wh_EndpointsHealthy w"

definition is_expiring :: "Webhook \<Rightarrow> bool" where
  "is_expiring w \<longleftrightarrow> wh_CABundleDaysRemaining w \<ge> 0 \<and> wh_CABundleDaysRemaining w < caExpirySoonDays"

definition webhook_json :: "(int \<Rightarrow> string) \<Rightarrow> Webhook \<Rightarrow> json" where
  "webhook_json stamp w = JObj ([(''configuration'', JStr (wh_Configuration w)), (''webhook'', JStr (wh_Webhook w)),
      (''type'', JStr (wh_Type w))] @ omit_empty ''service'' (wh_Service w) @ omit_empty ''url'' (wh_URL w) @
     [(''endpoints_healthy'', JBool (wh_EndpointsHealthy w)), (''failure_policy'', JStr (wh_FailurePolicy w)),
      (''ca_bundle_not_after'', JStr (stamp (wh_CABundleNotAfter w))),
      (''ca_bundle_days_remaining'', JNum (of_int64 (wh_CABundleDaysRemaining w)))] @
     (if wh_EndpointsUnknown w then [(''endpoints_unknown'', JBool True)] else []))"

definition webhooks_json :: "(int \<Rightarrow> string) \<Rightarrow> Webhook list \<Rightarrow> json" where
  "webhooks_json stamp ws = JObj
     [(''total_webhooks'', json_nat (length ws)), (''unhealthy_webhooks'', json_nat (length (filter is_unhealthy ws))),
      (''expiring_ca_bundles'', json_nat (length (filter is_expiring ws))),
      (''fail_closed_webhooks'', json_nat (length (filter (\<lambda>w. wh_FailurePolicy w = ''Fail'') ws))),
      (''webhooks'', json_slice (webhook_json stamp) (TopN ws 100 (\<lambda>w. (wh_Configuration w, wh_Webhook w))))]"

definition scan_admission ::
  "decoders \<Rightarrow> endpoints \<Rightarrow> (int \<Rightarrow> string) \<Rightarrow> int \<Rightarrow> WebhookConfiguration listing \<Rightarrow> WebhookConfiguration listing \<Rightarrow>
     Result \<times> coverageError option" where
  "scan_admission dc read stamp now mwh vwh =
     (let cov = noted Coverage0 ''mutating webhook list'' mwh;
          (ws, cov) = build_configurations dc read now ''Mutating'' (listing_items mwh) ([], cov);
          cov = noted cov ''validating webhook list'' vwh;
          (ws, cov) = build_configurations dc read now ''Validating'' (listing_items vwh) (ws, cov)
      in Finish cov ''admission'' (webhooks_json stamp ws))"

section \<open>Disruption budgets and autoscalers\<close>

text \<open>A budget with its selector, of a type of Kubernetes, and a workload with the labels of its pods;
  \<open>selects\<close> is what \<open>LabelSelectorAsSelector\<close> and \<open>Matches\<close> answer, \<open>None\<close> for a malformed selector.\<close>

record 'sel Budget =
  pdb_Namespace :: string
  pdb_Selector :: "'sel option"

record Autoscaler =
  hpa_Namespace :: string
  hpa_TargetKind :: string
  hpa_TargetName :: string

record Workload =
  wl_Meta :: ObjectMeta
  wl_Replicas :: "int option"
  wl_PodLabels :: "(string, string) gomap"

record WorkloadGap =
  wg_Kind :: string
  wg_Namespace :: string
  wg_Name :: string
  wg_Replicas :: int
  wg_HasPDB :: bool
  wg_HasHPA :: bool

record CoverageData =
  cvd_TotalReplicated :: int
  cvd_MissingPDB :: int
  cvd_MissingHPA :: int
  cvd_Gaps :: "WorkloadGap list"

definition pdbMatches ::
  "('sel \<Rightarrow> (string, string) gomap \<Rightarrow> bool option) \<Rightarrow> 'sel Budget list \<Rightarrow> string \<Rightarrow> (string, string) gomap \<Rightarrow> bool" where
  "pdbMatches selects pdbs ns labels =
     list_ex (\<lambda>b. pdb_Namespace b = ns \<and>
       (case pdb_Selector b of None \<Rightarrow> False | Some sel \<Rightarrow> selects sel labels = Some True)) pdbs"

definition hpa_targets :: "Autoscaler list \<Rightarrow> (string \<times> string \<times> string) set" where
  "hpa_targets hpas = set (map (\<lambda>h. (hpa_Namespace h, hpa_TargetKind h, hpa_TargetName h)) hpas)"

definition replicas_of :: "Workload \<Rightarrow> int" where
  "replicas_of w = (case wl_Replicas w of None \<Rightarrow> 1 | Some n \<Rightarrow> n)"

text \<open>What is known of the two kinds of protection: a failed read counts every workload as protected.\<close>

definition workload_gap ::
  "('sel \<Rightarrow> (string, string) gomap \<Rightarrow> bool option) \<Rightarrow> 'sel Budget listing \<Rightarrow> Autoscaler listing \<Rightarrow> string \<Rightarrow> Workload \<Rightarrow> WorkloadGap" where
  "workload_gap selects pdbs hpas kind w =
     (let ns = om_Namespace (wl_Meta w)
      in \<lparr>wg_Kind = kind, wg_Namespace = ns, wg_Name = om_Name (wl_Meta w), wg_Replicas = replicas_of w,
          wg_HasPDB = (listing_error pdbs \<noteq> None \<or> pdbMatches selects (listing_items pdbs) ns (wl_PodLabels w)),
          wg_HasHPA = (listing_error hpas \<noteq> None \<or> (ns, kind, om_Name (wl_Meta w)) \<in> hpa_targets (listing_items hpas))\<rparr>)"

definition count_workload ::
  "('sel \<Rightarrow> (string, string) gomap \<Rightarrow> bool option) \<Rightarrow> 'sel Budget listing \<Rightarrow> Autoscaler listing \<Rightarrow> string \<Rightarrow>
     CoverageData \<Rightarrow> Workload \<Rightarrow> CoverageData" where
  "count_workload selects pdbs hpas kind d w =
     (if replicas_of w \<le> 1 then d
      else let wc = workload_gap selects pdbs hpas kind w
           in d\<lparr>cvd_TotalReplicated := cvd_TotalReplicated d + 1,
                cvd_MissingPDB := bump (\<not> wg_HasPDB wc) (cvd_MissingPDB d),
                cvd_MissingHPA := bump (\<not> wg_HasHPA wc) (cvd_MissingHPA d),
                cvd_Gaps := cvd_Gaps d @ (if \<not> wg_HasPDB wc \<or> \<not> wg_HasHPA wc then [wc] else [])\<rparr>)"

definition coverage_data ::
  "('sel \<Rightarrow> (string, string) gomap \<Rightarrow> bool option) \<Rightarrow> 'sel Budget listing \<Rightarrow> Autoscaler listing \<Rightarrow> Workload list \<Rightarrow>
     Workload list \<Rightarrow> CoverageData" where
  "coverage_data selects pdbs hpas deployments sets =
     (let d = foldl (count_workload selects pdbs hpas ''Deployment'')
        \<lparr>cvd_TotalReplicated = 0, cvd_MissingPDB = 0, cvd_MissingHPA = 0, cvd_Gaps = []\<rparr> deployments;
          d = foldl (count_workload selects pdbs hpas ''StatefulSet'') d sets
      in d\<lparr>cvd_Gaps := take 100 (sort_key (\<lambda>g. (wg_Namespace g, wg_Name g)) (cvd_Gaps d))\<rparr>)"

definition gap_json :: "WorkloadGap \<Rightarrow> json" where
  "gap_json g = JObj [(''kind'', JStr (wg_Kind g)), (''namespace'', JStr (wg_Namespace g)), (''name'', JStr (wg_Name g)),
     (''replicas'', JNum (of_int64 (wg_Replicas g))), (''has_pdb'', JBool (wg_HasPDB g)), (''has_hpa'', JBool (wg_HasHPA g))]"

definition coverage_json :: "CoverageData \<Rightarrow> json" where
  "coverage_json d = JObj
     [(''total_replicated'', JNum (of_int64 (cvd_TotalReplicated d))), (''missing_pdb'', JNum (of_int64 (cvd_MissingPDB d))),
      (''missing_hpa'', JNum (of_int64 (cvd_MissingHPA d))), (''gaps'', json_slice gap_json (cvd_Gaps d))]"

definition scan_workload_coverage ::
  "('sel \<Rightarrow> (string, string) gomap \<Rightarrow> bool option) \<Rightarrow> 'sel Budget listing \<Rightarrow> Autoscaler listing \<Rightarrow> Workload listing \<Rightarrow>
     Workload listing \<Rightarrow> Result \<times> coverageError option" where
  "scan_workload_coverage selects pdbs hpas deployments sets =
     Finish (noted (noted (noted (noted Coverage0 ''pod disruption budgets'' pdbs) ''horizontal pod autoscalers'' hpas)
         ''deployments'' deployments) ''statefulsets'' sets) ''workload-coverage''
       (coverage_json (coverage_data selects pdbs hpas (listing_items deployments) (listing_items sets)))"

section \<open>What the audits report\<close>

lemma count_wildcards_eq:
  "count_wildcards roles =
     (tally wildcard_rule (concat (map ro_Rules roles)),
      {om_Name (ro_Meta r) | r. r \<in> set roles \<and> list_ex wildcard_rule (ro_Rules r)})"
proof -
  have inner: "foldl (\<lambda>(n, names) rule. if wildcard_rule rule then (n + 1, insert x names) else (n, names)) (k, s) rules =
      (k + tally wildcard_rule rules, if list_ex wildcard_rule rules then insert x s else s)" for k s x rules
    by (induction rules arbitrary: k s) auto
  have "foldl (\<lambda>acc cr. foldl (\<lambda>(n, names) rule. if wildcard_rule rule then (n + 1, insert (om_Name (ro_Meta cr)) names) else (n, names))
       acc (ro_Rules cr)) (k, s) roles =
     (k + tally wildcard_rule (concat (map ro_Rules roles)),
      s \<union> {om_Name (ro_Meta r) | r. r \<in> set roles \<and> list_ex wildcard_rule (ro_Rules r)})" for k s
    by (induction roles arbitrary: k s) (auto simp: inner)
  from this [of 0 "{}"] show ?thesis by (simp add: count_wildcards_def)
qed

lemma audit_bindings:
  "ad_ClusterAdminBindings (foldl (audit_binding kind nsd wild) d bs) = ad_ClusterAdminBindings d + tally to_cluster_admin bs"
  "ad_DefaultSABindings (foldl (audit_binding kind nsd wild) d bs) = ad_DefaultSABindings d + tally to_default_sa bs"
  "ad_WildcardRules (foldl (audit_binding kind nsd wild) d bs) = ad_WildcardRules d"
  "ad_RoleBindingsAudited (foldl (audit_binding kind nsd wild) d bs) = ad_RoleBindingsAudited d"
  "ad_RiskBindings (foldl (audit_binding kind nsd wild) d bs) =
     ad_RiskBindings d @ map (risk_binding kind nsd wild) (filter (\<lambda>b. binding_risks wild b \<noteq> []) bs)"
  by (induction bs arbitrary: d) (simp_all add: audit_binding_def bump_eq)

text \<open>The counters of the audit: every binding counts once however many subjects it has, and a binding
  to an anonymous or unauthenticated subject is never excused as a system binding.\<close>

lemma audit_counts:
  "ad_ClusterAdminBindings (audit_data crs crbs rbs pods) = tally to_cluster_admin crbs + tally to_cluster_admin rbs"
  "ad_DefaultSABindings (audit_data crs crbs rbs pods) = tally to_default_sa crbs + tally to_default_sa rbs"
  "ad_WildcardRules (audit_data crs crbs rbs pods) = tally wildcard_rule (concat (map ro_Rules crs))"
  by (simp_all add: audit_data_def Let_def split_beta audit_bindings AuditData0_def count_wildcards_eq)

lemma open_binding_counted:
  assumes "bi_RoleRef b = ''cluster-admin''" "s \<in> set (bi_Subjects b)" "sj_Name s \<in> set openSubjects"
  shows "to_cluster_admin b"
  using assms by (auto simp: to_cluster_admin_def isSystemBinding_def list_ex_iff)

text \<open>A role binding is matched with the cluster roles by name alone: one to a harmless namespaced role
  that has the name of a wildcard cluster role is reported for a wildcard role.\<close>

lemma wildcard_by_name:
  assumes "bi_RoleRefKind b = ''Role''" "\<not> isSystemBinding (bi_Meta b) (bi_Subjects b)"
    "list_ex (\<lambda>cr. om_Name (ro_Meta cr) = bi_RoleRef b \<and> list_ex wildcard_rule (ro_Rules cr)) crs"
  shows "''wildcard-role'' \<in> set (binding_risks (snd (count_wildcards crs)) b)"
proof -
  have "\<exists>r. bi_RoleRef b = om_Name (ro_Meta r) \<and> r \<in> set crs \<and> list_ex wildcard_rule (ro_Rules r)"
    using assms(3) unfolding list_ex_iff by metis
  then show ?thesis using assms(2) by (simp add: binding_risks_def count_wildcards_eq)
qed

text \<open>The soonest expiry is the least number of days, unless a certificate expired between one and two
  days ago: its -1 reads as no certificate yet, and the next one overwrites it.\<close>

lemma count_certs_soonest:
  "cd_Soonest (foldl count_cert d certs) = foldl soonest_step (cd_Soonest d) (map ce_DaysRemaining certs)"
  by (induction certs arbitrary: d) (simp_all add: count_cert_def Let_def)

lemma soonest_fold:
  "- 1 \<notin> set ds \<Longrightarrow> s \<noteq> - 1 \<Longrightarrow> foldl soonest_step s ds = Min (insert s (set ds))"
proof -
  assume "- 1 \<notin> set ds" "s \<noteq> - 1"
  then have "foldl soonest_step s ds = foldl min s ds"
    by (induction ds arbitrary: s) (auto simp: soonest_step_def min_def)
  also have "\<dots> = fold min ds s" by (simp add: foldl_conv_fold min.commute)
  also have "\<dots> = Min (set (s # ds))" by (rule Min.set_eq_fold [symmetric])
  finally show ?thesis by simp
qed

lemma soonest_expired_lost: "foldl soonest_step (- 1) [- 1, 40] = 40"
  by (simp add: soonest_step_def)

text \<open>A bundle that expired more than a day ago does not count as expiring.\<close>

lemma expired_bundle_not_expiring: "wh_CABundleDaysRemaining w < 0 \<Longrightarrow> \<not> is_expiring w"
  by (simp add: is_expiring_def)

text \<open>The loop over a bundle, when every block consumes input, is the recursion over what is left.\<close>

lemma pem_loop_enough:
  assumes "\<And>b kind bytes rest. dc_pem dc b = Some (kind, bytes, rest) \<Longrightarrow> length rest < length b"
  shows "length b \<le> n \<Longrightarrow> pem_loop dc n b = parsePEM dc b"
proof (induction "length b" arbitrary: b n rule: less_induct)
  case less
  show ?case
  proof (cases b)
    case Nil
    then show ?thesis by (cases n) (simp_all add: parsePEM_def)
  next
    case (Cons x xs)
    then obtain m where n: "n = Suc m" "length xs \<le> m" using less.prems by (cases n) auto
    show ?thesis
    proof (cases "dc_pem dc b")
      case None
      then show ?thesis using Cons n by (simp add: parsePEM_def)
    next
      case (Some block)
      obtain kind bytes rest where block: "block = (kind, bytes, rest)" by (cases block)
      then have "length rest < length b" using assms Some by blast
      then have "pem_loop dc m rest = parsePEM dc rest" "pem_loop dc (length xs) rest = parsePEM dc rest"
        using less.hyps [of rest m] less.hyps [of rest "length xs"] n Cons by simp_all
      then show ?thesis using Some block Cons n by (simp add: parsePEM_def)
    qed
  qed
qed

lemma count_workloads:
  "cvd_TotalReplicated (foldl (count_workload sel pdbs hpas kind) d ws) =
     cvd_TotalReplicated d + tally (\<lambda>w. 1 < replicas_of w) ws"
  "cvd_MissingPDB (foldl (count_workload sel pdbs hpas kind) d ws) =
     cvd_MissingPDB d + tally (\<lambda>w. 1 < replicas_of w \<and> \<not> wg_HasPDB (workload_gap sel pdbs hpas kind w)) ws"
  "cvd_MissingHPA (foldl (count_workload sel pdbs hpas kind) d ws) =
     cvd_MissingHPA d + tally (\<lambda>w. 1 < replicas_of w \<and> \<not> wg_HasHPA (workload_gap sel pdbs hpas kind w)) ws"
  by (induction ws arbitrary: d) (auto simp: count_workload_def Let_def bump_eq)

text \<open>A failed read of the budgets or of the autoscalers reports nothing as missing; otherwise a
  replicated workload misses its budget exactly when no budget of its namespace selects its pods.\<close>

lemma missing_pdb:
  "cvd_MissingPDB (coverage_data sel pdbs hpas deployments sets) =
     (case pdbs of Inl _ \<Rightarrow> 0
      | Inr bs \<Rightarrow> tally (\<lambda>w. 1 < replicas_of w \<and> \<not> pdbMatches sel bs (om_Namespace (wl_Meta w)) (wl_PodLabels w))
          (deployments @ sets))"
  by (cases pdbs)
    (simp_all add: coverage_data_def Let_def count_workloads workload_gap_def listing_error_def listing_items_def tally_false)

lemma missing_hpa_unread:
  "cvd_MissingHPA (coverage_data sel pdbs (Inl err) deployments sets) = 0"
  by (simp add: coverage_data_def Let_def count_workloads workload_gap_def listing_error_def tally_false)

end
