(* ===== verification/Scan_Custom.thy ===== *)
theory Scan_Custom
  imports Scan_Audit
begin

text \<open>
  The scanners that fold custom and heterogeneous objects into counts, from the listed objects to the
  result: Trivy's vulnerability reports (\<open>internal/scanner/vulnerabilities\<close>), the policy reports of
  other tools (\<open>policyreportingest\<close>), deprecated APIs (\<open>deprecatedapis\<close>), warning events (\<open>events\<close>) and
  image references (\<open>imageaudit\<close>). Where the code ranges over a map before it sorts, the order it finds
  the keys in is a parameter, because its comparison leaves ties open.
\<close>

section \<open>Unstructured objects\<close>

definition nested :: "string list \<Rightarrow> json \<Rightarrow> json option" where
  "nested ks v = foldl (\<lambda>o1 k. case o1 of Some (JObj m) \<Rightarrow> map_of m k | _ \<Rightarrow> None) (Some v) ks"

definition nested_string :: "string list \<Rightarrow> json \<Rightarrow> string" where
  "nested_string ks v = json_string (nested ks v)"

text \<open>\<open>NestedMap\<close> of a path that does not lead to an object is nil, which reads as empty.\<close>

definition nested_map :: "string list \<Rightarrow> json \<Rightarrow> (string \<times> json) list" where
  "nested_map ks v = (case nested ks v of Some (JObj m) \<Rightarrow> m | _ \<Rightarrow> [])"

definition object_label :: "json \<Rightarrow> string \<Rightarrow> string" where
  "object_label obj k = nested_string [''metadata'', ''labels'', k] obj"

text \<open>A number of JSON read as an int; counts are far below the bounds of either.\<close>

definition intFromAny :: "json option \<Rightarrow> int" where
  "intFromAny v = (case v of Some (JNum x) \<Rightarrow> math_Trunc x | _ \<Rightarrow> 0)"

section \<open>Vulnerability reports\<close>

record VulnerableImage =
  vi_Namespace :: string
  vi_Workload :: string
  vi_Image :: string
  vi_Critical :: int
  vi_High :: int
  vi_Medium :: int
  vi_Low :: int

record VulnerabilityData =
  vd_Available :: bool
  vd_Reports :: int
  vd_Critical :: int
  vd_High :: int
  vd_Medium :: int
  vd_Low :: int
  vd_Unknown :: int

type_synonym seenImages = "(string, VulnerableImage) gomap"

definition image_total :: "VulnerableImage \<Rightarrow> int" where
  "image_total v = vi_Critical v + vi_High v + vi_Medium v + vi_Low v"

definition report_workload :: "json \<Rightarrow> string" where
  "report_workload obj =
     (let w = object_label obj ''trivy-operator.resource.name''
      in if w = '''' then nested_string [''metadata'', ''name''] obj else w)"

definition report_image :: "json \<Rightarrow> string" where
  "report_image obj =
     (let image = nested_string [''report'', ''artifact'', ''repository''] obj;
          tag = nested_string [''report'', ''artifact'', ''tag''] obj;
          image = (if image = '''' then object_label obj ''trivy-operator.container.name'' else image)
      in if tag \<noteq> '''' then image @ '':'' @ tag else image)"

definition image_key :: "json \<Rightarrow> string" where
  "image_key obj = nested_string [''metadata'', ''namespace''] obj @ ''/'' @ report_workload obj @ ''/'' @ report_image obj"

definition severity_count :: "json \<Rightarrow> string \<Rightarrow> int" where
  "severity_count obj k = intFromAny (map_of (nested_map [''report'', ''summary''] obj) k)"

definition parseReport :: "VulnerabilityData \<times> seenImages \<Rightarrow> json \<Rightarrow> VulnerabilityData \<times> seenImages" where
  "parseReport acc obj =
     (let (d, imgs) = acc;
          critical = severity_count obj ''criticalCount''; high = severity_count obj ''highCount'';
          medium = severity_count obj ''mediumCount''; low = severity_count obj ''lowCount'';
          unknown = severity_count obj ''unknownCount'';
          entry = lookup_default
            \<lparr>vi_Namespace = nested_string [''metadata'', ''namespace''] obj, vi_Workload = report_workload obj,
             vi_Image = report_image obj, vi_Critical = 0, vi_High = 0, vi_Medium = 0, vi_Low = 0\<rparr> imgs (image_key obj)
      in (d\<lparr>vd_Critical := vd_Critical d + critical, vd_High := vd_High d + high, vd_Medium := vd_Medium d + medium,
            vd_Low := vd_Low d + low, vd_Unknown := vd_Unknown d + unknown\<rparr>,
          AList.update (image_key obj)
            (entry\<lparr>vi_Critical := vi_Critical entry + critical, vi_High := vi_High entry + high,
                   vi_Medium := vi_Medium entry + medium, vi_Low := vi_Low entry + low\<rparr>) imgs))"

definition worst_images :: "VulnerableImage list \<Rightarrow> VulnerableImage list" where
  "worst_images vs = sort_key (\<lambda>v. (- image_total v, - vi_Critical v)) vs"

text \<open>\<open>visit\<close> is the order in which the map is ranged over; \<open>sort.Slice\<close> is taken as stable.\<close>

definition topImages :: "(seenImages \<Rightarrow> seenImages) \<Rightarrow> seenImages \<Rightarrow> nat \<Rightarrow> VulnerableImage list" where
  "topImages visit imgs limit = take limit (worst_images (map snd (visit imgs)))"

definition vulnerable_json :: "VulnerableImage \<Rightarrow> json" where
  "vulnerable_json v = JObj
     [(''namespace'', JStr (vi_Namespace v)), (''workload'', JStr (vi_Workload v)), (''image'', JStr (vi_Image v)),
      (''critical'', JNum (of_int64 (vi_Critical v))), (''high'', JNum (of_int64 (vi_High v))),
      (''medium'', JNum (of_int64 (vi_Medium v))), (''low'', JNum (of_int64 (vi_Low v)))]"

definition vulnerability_data :: "bool \<Rightarrow> json list \<Rightarrow> VulnerabilityData \<times> seenImages" where
  "vulnerability_data available objs =
     foldl parseReport
       (\<lparr>vd_Available = available, vd_Reports = int (length objs), vd_Critical = 0, vd_High = 0, vd_Medium = 0,
         vd_Low = 0, vd_Unknown = 0\<rparr>, []) objs"

definition vulnerabilities_json :: "(seenImages \<Rightarrow> seenImages) \<Rightarrow> VulnerabilityData \<times> seenImages \<Rightarrow> json" where
  "vulnerabilities_json visit acc =
     (let (d, imgs) = acc
      in JObj [(''available'', JBool (vd_Available d)), (''reports'', JNum (of_int64 (vd_Reports d))),
               (''critical'', JNum (of_int64 (vd_Critical d))), (''high'', JNum (of_int64 (vd_High d))),
               (''medium'', JNum (of_int64 (vd_Medium d))), (''low'', JNum (of_int64 (vd_Low d))),
               (''unknown'', JNum (of_int64 (vd_Unknown d))),
               (''top_images'', json_slice vulnerable_json (topImages visit imgs 20))])"

definition scan_vulnerabilities :: "(seenImages \<Rightarrow> seenImages) \<Rightarrow> json listing \<Rightarrow> Result \<times> coverageError option" where
  "scan_vulnerabilities visit reports =
     Finish (noted Coverage0 ''vulnerability reports'' reports) ''vulnerabilities''
       (vulnerabilities_json visit (vulnerability_data (listing_error reports = None) (listing_items reports)))"

section \<open>Policy reports\<close>

record sourceTally =
  st_Source :: string
  st_Pass :: int
  st_Fail :: int
  st_Warn :: int
  st_Error :: int
  st_Skip :: int

record PolicyFailure =
  pf_Source :: string
  pf_Policy :: string
  pf_Rule :: string
  pf_Fail :: int
  pf_Warn :: int
  pf_Severity :: string

record PolicyData =
  pyd_TotalFail :: int
  pyd_TotalWarn :: int
  pyd_TotalError :: int
  pyd_BySource :: "(string, sourceTally) gomap"
  pyd_TopMap :: "(string, PolicyFailure) gomap"

definition severityRank :: "string \<Rightarrow> int" where
  "severityRank s =
     (let s = ToLower s
      in if s = ''critical'' then 4 else if s = ''high'' then 3 else if s = ''medium'' then 2
         else if s = ''low'' then 1 else 0)"

definition stringField :: "(string \<times> json) list \<Rightarrow> string \<Rightarrow> string" where
  "stringField row k = json_string (map_of row k)"

definition updateTop ::
  "(string, PolicyFailure) gomap \<Rightarrow> string \<Rightarrow> string \<Rightarrow> string \<Rightarrow> string \<Rightarrow> string \<Rightarrow> (string, PolicyFailure) gomap" where
  "updateTop m source policy rule severity result =
     (if policy = '''' then m
      else
        let key = source @ ''|'' @ policy @ ''|'' @ rule;
            entry = lookup_default
              \<lparr>pf_Source = source, pf_Policy = policy, pf_Rule = rule, pf_Fail = 0, pf_Warn = 0, pf_Severity = severity\<rparr> m key;
            entry = (if result = ''fail'' then entry\<lparr>pf_Fail := pf_Fail entry + 1\<rparr>
                     else if result = ''warn'' then entry\<lparr>pf_Warn := pf_Warn entry + 1\<rparr> else entry);
            entry = (if severityRank severity > severityRank (pf_Severity entry)
                     then entry\<lparr>pf_Severity := severity\<rparr> else entry)
        in AList.update key entry m)"

definition count_result :: "string \<Rightarrow> sourceTally \<Rightarrow> sourceTally" where
  "count_result result ts =
     (if result = ''pass'' then ts\<lparr>st_Pass := st_Pass ts + 1\<rparr>
      else if result = ''fail'' then ts\<lparr>st_Fail := st_Fail ts + 1\<rparr>
      else if result = ''warn'' then ts\<lparr>st_Warn := st_Warn ts + 1\<rparr>
      else if result = ''error'' then ts\<lparr>st_Error := st_Error ts + 1\<rparr>
      else if result = ''skip'' then ts\<lparr>st_Skip := st_Skip ts + 1\<rparr> else ts)"

definition ingest_row :: "PolicyData \<Rightarrow> json \<Rightarrow> PolicyData" where
  "ingest_row d raw =
     (case raw of
        JObj row \<Rightarrow>
          let source = (if stringField row ''source'' = '''' then ''other'' else stringField row ''source'');
              policy = stringField row ''policy''; rule = stringField row ''rule'';
              result = stringField row ''result''; severity = stringField row ''severity'';
              ts = lookup_default \<lparr>st_Source = source, st_Pass = 0, st_Fail = 0, st_Warn = 0, st_Error = 0, st_Skip = 0\<rparr>
                (pyd_BySource d) source;
              d = d\<lparr>pyd_BySource := AList.update source (count_result result ts) (pyd_BySource d)\<rparr>
          in if result = ''fail''
             then d\<lparr>pyd_TotalFail := pyd_TotalFail d + 1,
                    pyd_TopMap := updateTop (pyd_TopMap d) source policy rule severity ''fail''\<rparr>
             else if result = ''warn''
             then d\<lparr>pyd_TotalWarn := pyd_TotalWarn d + 1,
                    pyd_TopMap := updateTop (pyd_TopMap d) source policy rule severity ''warn''\<rparr>
             else if result = ''error'' then d\<lparr>pyd_TotalError := pyd_TotalError d + 1\<rparr>
             else d
      | _ \<Rightarrow> d)"

definition ingestReport :: "PolicyData \<Rightarrow> json \<Rightarrow> PolicyData" where
  "ingestReport d obj = foldl ingest_row d (case nested [''results''] obj of Some (JArr rows) \<Rightarrow> rows | _ \<Rightarrow> [])"

definition finalizeSourceTallies :: "(string, sourceTally) gomap \<Rightarrow> sourceTally list" where
  "finalizeSourceTallies m = sort_key (\<lambda>t. (- st_Fail t, st_Source t)) (map snd m)"

definition failure_key :: "PolicyFailure \<Rightarrow> int \<times> int \<times> int" where
  "failure_key p = (- pf_Fail p, - pf_Warn p, - severityRank (pf_Severity p))"

definition finalizeTopFailures ::
  "((string, PolicyFailure) gomap \<Rightarrow> (string, PolicyFailure) gomap) \<Rightarrow> (string, PolicyFailure) gomap \<Rightarrow> nat \<Rightarrow> PolicyFailure list" where
  "finalizeTopFailures visit m limit = take limit (sort_key failure_key (map snd (visit m)))"

definition tally_json :: "sourceTally \<Rightarrow> json" where
  "tally_json t = JObj
     [(''source'', JStr (st_Source t)), (''pass'', JNum (of_int64 (st_Pass t))), (''fail'', JNum (of_int64 (st_Fail t))),
      (''warn'', JNum (of_int64 (st_Warn t))), (''error'', JNum (of_int64 (st_Error t))), (''skip'', JNum (of_int64 (st_Skip t)))]"

definition failure_json :: "PolicyFailure \<Rightarrow> json" where
  "failure_json p = JObj ([(''source'', JStr (pf_Source p)), (''policy'', JStr (pf_Policy p))] @ omit_empty ''rule'' (pf_Rule p) @
     [(''fail'', JNum (of_int64 (pf_Fail p))), (''warn'', JNum (of_int64 (pf_Warn p)))] @ omit_empty ''severity'' (pf_Severity p))"

definition policy_data :: "json list \<Rightarrow> json list \<Rightarrow> PolicyData" where
  "policy_data reports clusterReports =
     foldl ingestReport (foldl ingestReport
       \<lparr>pyd_TotalFail = 0, pyd_TotalWarn = 0, pyd_TotalError = 0, pyd_BySource = [], pyd_TopMap = []\<rparr> reports) clusterReports"

definition scan_policy_reports ::
  "((string, PolicyFailure) gomap \<Rightarrow> (string, PolicyFailure) gomap) \<Rightarrow> json listing \<Rightarrow> json listing \<Rightarrow>
     Result \<times> coverageError option" where
  "scan_policy_reports visit reports clusterReports =
     (let d = policy_data (listing_items reports) (listing_items clusterReports)
      in Finish (noted (noted Coverage0 ''policy reports'' reports) ''cluster policy reports'' clusterReports) ''policy-reports''
           (JObj [(''available'', JBool (listing_error reports = None \<or> listing_error clusterReports = None)),
                  (''reports'', json_nat (length (listing_items reports))),
                  (''cluster_reports'', json_nat (length (listing_items clusterReports))),
                  (''total_fail'', JNum (of_int64 (pyd_TotalFail d))), (''total_warn'', JNum (of_int64 (pyd_TotalWarn d))),
                  (''total_error'', JNum (of_int64 (pyd_TotalError d))),
                  (''by_source'', JArr (map tally_json (finalizeSourceTallies (pyd_BySource d)))),
                  (''top_failures'', JArr (map failure_json (finalizeTopFailures visit (pyd_TopMap d) 20)))]))"

section \<open>Deprecated APIs\<close>

record deprecation =
  dp_Group :: string
  dp_Version :: string
  dp_Kind :: string
  dp_Replacement :: string
  dp_RemovedIn :: string

definition deprecation_of :: "string \<Rightarrow> string \<Rightarrow> string \<Rightarrow> string \<Rightarrow> string \<Rightarrow> deprecation" where
  "deprecation_of g v k rep removed =
     \<lparr>dp_Group = g, dp_Version = v, dp_Kind = k, dp_Replacement = rep, dp_RemovedIn = removed\<rparr>"

definition removals :: "deprecation list" where
  "removals =
     [deprecation_of ''extensions'' ''v1beta1'' ''Ingress'' ''networking.k8s.io/v1 Ingress'' ''1.22'',
      deprecation_of ''networking.k8s.io'' ''v1beta1'' ''Ingress'' ''networking.k8s.io/v1 Ingress'' ''1.22'',
      deprecation_of ''extensions'' ''v1beta1'' ''PodSecurityPolicy'' ''PodSecurity admission (PSS)'' ''1.25'',
      deprecation_of ''policy'' ''v1beta1'' ''PodSecurityPolicy'' ''PodSecurity admission (PSS)'' ''1.25'',
      deprecation_of ''policy'' ''v1beta1'' ''PodDisruptionBudget'' ''policy/v1 PodDisruptionBudget'' ''1.25'',
      deprecation_of ''batch'' ''v1beta1'' ''CronJob'' ''batch/v1 CronJob'' ''1.25'',
      deprecation_of ''discovery.k8s.io'' ''v1beta1'' ''EndpointSlice'' ''discovery.k8s.io/v1 EndpointSlice'' ''1.25'',
      deprecation_of ''events.k8s.io'' ''v1beta1'' ''Event'' ''events.k8s.io/v1 Event'' ''1.25'',
      deprecation_of ''autoscaling'' ''v2beta1'' ''HorizontalPodAutoscaler'' ''autoscaling/v2 HorizontalPodAutoscaler'' ''1.25'',
      deprecation_of ''autoscaling'' ''v2beta2'' ''HorizontalPodAutoscaler'' ''autoscaling/v2 HorizontalPodAutoscaler'' ''1.26'',
      deprecation_of ''flowcontrol.apiserver.k8s.io'' ''v1beta1'' ''FlowSchema'' ''flowcontrol.apiserver.k8s.io/v1 FlowSchema'' ''1.26'',
      deprecation_of ''flowcontrol.apiserver.k8s.io'' ''v1beta2'' ''FlowSchema'' ''flowcontrol.apiserver.k8s.io/v1 FlowSchema'' ''1.29'',
      deprecation_of ''storage.k8s.io'' ''v1beta1'' ''CSIStorageCapacity'' ''storage.k8s.io/v1 CSIStorageCapacity'' ''1.27'',
      deprecation_of ''node.k8s.io'' ''v1beta1'' ''RuntimeClass'' ''node.k8s.io/v1 RuntimeClass'' ''1.25'',
      deprecation_of ''admissionregistration.k8s.io'' ''v1beta1'' ''MutatingWebhookConfiguration'' ''admissionregistration.k8s.io/v1 MutatingWebhookConfiguration'' ''1.22'',
      deprecation_of ''admissionregistration.k8s.io'' ''v1beta1'' ''ValidatingWebhookConfiguration'' ''admissionregistration.k8s.io/v1 ValidatingWebhookConfiguration'' ''1.22'',
      deprecation_of ''rbac.authorization.k8s.io'' ''v1beta1'' ''Role'' ''rbac.authorization.k8s.io/v1 Role'' ''1.22'',
      deprecation_of ''apiextensions.k8s.io'' ''v1beta1'' ''CustomResourceDefinition'' ''apiextensions.k8s.io/v1 CustomResourceDefinition'' ''1.22'']"

record Deprecated =
  de_APIVersion :: string
  de_Kind :: string
  de_Replacement :: string
  de_RemovedIn :: string
  de_InstanceCount :: int
  de_Forbidden :: bool

definition trim_suffix :: "string \<Rightarrow> string \<Rightarrow> string" where
  "trim_suffix s suf = (if has_suffix s suf then take (length s - length suf) s else s)"

definition lowercasePlural :: "string \<Rightarrow> string" where
  "lowercasePlural kind =
     (let s = ToLower kind
      in if has_suffix s ''s'' then s @ ''es''
         else if has_suffix s ''y'' then trim_suffix s ''y'' @ ''ies''
         else s @ ''s'')"

definition group_version :: "deprecation \<Rightarrow> string" where
  "group_version rm = (if dp_Group rm \<noteq> '''' then dp_Group rm @ ''/'' @ dp_Version rm else dp_Version rm)"

text \<open>A probe lists a resource by group, version and plural; it answers with an error, and whether that is
  a method the resource does not support, or with the number of objects, at most a thousand.\<close>

type_synonym probe = "string \<Rightarrow> string \<Rightarrow> string \<Rightarrow> (bool \<times> apiError) + nat"

definition is_served :: "string list \<Rightarrow> deprecation \<Rightarrow> bool" where
  "is_served served rm \<longleftrightarrow> group_version rm \<in> set served \<or> (dp_Group rm = '''' \<and> ''v1'' \<in> set served)"

definition probe_removal ::
  "probe \<Rightarrow> string list \<Rightarrow> Coverage \<times> Deprecated list \<times> int \<Rightarrow> deprecation \<Rightarrow> Coverage \<times> Deprecated list \<times> int" where
  "probe_removal probe_list served acc rm =
     (if \<not> is_served served rm then acc
      else
        let (cov, found, instances) = acc;
            entry = \<lparr>de_APIVersion = group_version rm, de_Kind = dp_Kind rm, de_Replacement = dp_Replacement rm,
                     de_RemovedIn = dp_RemovedIn rm, de_InstanceCount = 0, de_Forbidden = False\<rparr>;
            what = group_version rm @ '' '' @ dp_Kind rm
        in case probe_list (dp_Group rm) (dp_Version rm) (lowercasePlural (dp_Kind rm)) of
             Inl (unsupported, err) \<Rightarrow>
               if ae_IsNotFound err \<or> unsupported then acc
               else (fst (Observe cov what (Some err)),
                     found @ (if ae_IsForbidden err then [entry\<lparr>de_Forbidden := True\<rparr>] else []), instances)
           | Inr n \<Rightarrow>
               (fst (Observe cov what None),
                found @ (if n = 0 then [] else [entry\<lparr>de_InstanceCount := int n\<rparr>]), instances + int n))"

definition deprecated_json :: "Deprecated \<Rightarrow> json" where
  "deprecated_json d = JObj ([(''api_version'', JStr (de_APIVersion d)), (''kind'', JStr (de_Kind d)),
     (''replacement'', JStr (de_Replacement d)), (''removed_in'', JStr (de_RemovedIn d)),
     (''instance_count'', JNum (of_int64 (de_InstanceCount d)))] @
     (if de_Forbidden d then [(''forbidden'', JBool True)] else []))"

definition apis_json :: "string \<Rightarrow> Deprecated list \<Rightarrow> int \<Rightarrow> json" where
  "apis_json version found instances = JObj (omit_empty ''server_version'' version @
     [(''deprecated'', json_slice deprecated_json (sort_key (\<lambda>d. (de_RemovedIn d, de_APIVersion d)) found)),
      (''total_instances'', JNum (of_int64 instances))])"

text \<open>The groups discovery serves, each with its versions, or an error; the version is read first and
  its failure ignored.\<close>

definition served_versions :: "(string \<times> string list) list \<Rightarrow> string list" where
  "served_versions groups = concat (map (\<lambda>(g, vs). map (\<lambda>v. g @ ''/'' @ v) vs) groups)"

definition scan_deprecated ::
  "probe \<Rightarrow> string option \<Rightarrow> bool \<Rightarrow> apiError + (string \<times> string list) list \<Rightarrow> Result \<times> coverageError option" where
  "scan_deprecated probe_list version dynamic discovery =
     (let ver = (case version of None \<Rightarrow> '''' | Some v \<Rightarrow> v)
      in if \<not> dynamic
         then (\<lparr>res_Scanner = ''deprecated-apis'', res_State = StateOK, res_Reason = '''', res_Data = JNull\<rparr>,
               Some \<lparr>ce_msg = ErrScan @ '': deprecated-apis: dynamic client unavailable'', ce_errs = []\<rparr>)
         else case discovery of
           Inl err \<Rightarrow> Finish (fst (Observe Coverage0 ''server groups'' (Some err))) ''deprecated-apis'' (apis_json ver [] 0)
         | Inr groups \<Rightarrow>
             let (cov, found, instances) = foldl (probe_removal probe_list (served_versions groups)) (Coverage0, [], 0) removals
             in Finish cov ''deprecated-apis'' (apis_json ver found instances))"

section \<open>Warning events\<close>

definition warningWindow :: int where "warningWindow = time_Hour"
definition maxRecentWarnings :: nat where "maxRecentWarnings = 50"

record KubeEvent =
  kv_Namespace :: string
  kv_ObjectName :: string
  kv_ObjectKind :: string
  kv_Reason :: string
  kv_Message :: string
  kv_Type :: string
  kv_Count :: int
  kv_FirstTimestamp :: int
  kv_LastTimestamp :: int
  kv_CreationTimestamp :: int

record EventInfo =
  ei_Namespace :: string
  ei_InvolvedObject :: string
  ei_Kind :: string
  ei_Reason :: string
  ei_Message :: string
  ei_Type :: string
  ei_Count :: int
  ei_FirstSeen :: string
  ei_LastSeen :: string

definition wrap32 :: "int \<Rightarrow> int" where
  "wrap32 n = (n + 2 ^ 31) mod 2 ^ 32 - 2 ^ 31"

definition truncateMessage :: "string \<Rightarrow> nat \<Rightarrow> string" where
  "truncateMessage msg maxLen = (if length msg \<le> maxLen then msg else take (maxLen - 3) msg @ ''...'')"

definition last_seen :: "KubeEvent \<Rightarrow> int" where
  "last_seen ev = (if kv_LastTimestamp ev = zero_time then kv_CreationTimestamp ev else kv_LastTimestamp ev)"

definition first_seen :: "KubeEvent \<Rightarrow> int" where
  "first_seen ev = (if kv_FirstTimestamp ev = zero_time then kv_CreationTimestamp ev else kv_FirstTimestamp ev)"

definition event_count :: "KubeEvent \<Rightarrow> int" where
  "event_count ev = (if kv_Count ev = 0 then 1 else kv_Count ev)"

definition event_info :: "(int \<Rightarrow> string) \<Rightarrow> KubeEvent \<Rightarrow> EventInfo" where
  "event_info stamp ev =
     \<lparr>ei_Namespace = kv_Namespace ev, ei_InvolvedObject = kv_ObjectName ev, ei_Kind = kv_ObjectKind ev,
      ei_Reason = kv_Reason ev, ei_Message = truncateMessage (kv_Message ev) 500, ei_Type = kv_Type ev,
      ei_Count = event_count ev, ei_FirstSeen = stamp (first_seen ev), ei_LastSeen = stamp (last_seen ev)\<rparr>"

text \<open>The reasons with their occurrences, of 32 bits, and their events.\<close>

definition count_reason :: "(string, int \<times> int) gomap \<Rightarrow> KubeEvent \<Rightarrow> (string, int \<times> int) gomap" where
  "count_reason m ev =
     (let (occ, events) = lookup_default (0, 0) m (kv_Reason ev)
      in AList.update (kv_Reason ev) (wrap32 (occ + event_count ev), events + 1) m)"

text \<open>Newest first, then by name: a stable descending sort after an ascending one. Times are compared as
  they are written.\<close>

definition recentWarnings :: "EventInfo list \<Rightarrow> EventInfo list" where
  "recentWarnings ws =
     take maxRecentWarnings (rev (sort_key ei_LastSeen (rev
       (sort_key (\<lambda>e. (ei_Namespace e, ei_Kind e, ei_InvolvedObject e, ei_Reason e, ei_Message e)) ws))))"

definition topReasons :: "(string, int \<times> int) gomap \<Rightarrow> (string \<times> int \<times> int) list" where
  "topReasons m = TopN m 10 (\<lambda>(reason, occ, events). (- occ, reason))"

definition event_json :: "EventInfo \<Rightarrow> json" where
  "event_json e = JObj
     [(''namespace'', JStr (ei_Namespace e)), (''involved_object'', JStr (ei_InvolvedObject e)), (''kind'', JStr (ei_Kind e)),
      (''reason'', JStr (ei_Reason e)), (''message'', JStr (ei_Message e)), (''type'', JStr (ei_Type e)),
      (''count'', JNum (of_int64 (ei_Count e))), (''first_seen'', JStr (ei_FirstSeen e)), (''last_seen'', JStr (ei_LastSeen e))]"

definition reason_json :: "string \<times> int \<times> int \<Rightarrow> json" where
  "reason_json r = (case r of (reason, occ, events) \<Rightarrow> JObj
     [(''reason'', JStr reason), (''count'', JNum (of_int64 occ)), (''event_count'', JNum (of_int64 events))])"

definition recent_events :: "int \<Rightarrow> KubeEvent list \<Rightarrow> KubeEvent list" where
  "recent_events now evs = filter (\<lambda>ev. \<not> last_seen ev < now - warningWindow) evs"

definition events_json :: "(int \<Rightarrow> string) \<Rightarrow> int \<Rightarrow> KubeEvent list \<Rightarrow> json" where
  "events_json stamp now evs =
     (let kept = recent_events now evs
      in JObj [(''warning_events'', json_nat (length kept)),
               (''top_warning_reasons'', json_slice reason_json (topReasons (foldl count_reason [] kept))),
               (''recent_warnings'', json_slice event_json (recentWarnings (map (event_info stamp) kept))),
               (''window_seconds'', JNum 3600)])"

definition scan_events :: "(int \<Rightarrow> string) \<Rightarrow> int \<Rightarrow> KubeEvent listing \<Rightarrow> Result \<times> coverageError option" where
  "scan_events stamp now evs =
     Finish (noted Coverage0 ''events'' evs) ''events'' (events_json stamp now (listing_items evs))"

section \<open>Image references\<close>

record ImageRisk =
  ir_Namespace :: string
  ir_Pod :: string
  ir_Container :: string
  ir_Image :: string
  ir_Risks :: "string list"

record ImageData =
  im_TotalContainers :: int
  im_LatestTag :: int
  im_NoDigest :: int
  im_Images :: "string list"
  im_ImageRisks :: "ImageRisk list"

text \<open>A pod with its containers, init containers first, each with its name and image.\<close>

record ImagePod =
  ip_Namespace :: string
  ip_Name :: string
  ip_Init :: "(string \<times> string) list"
  ip_Containers :: "(string \<times> string) list"

definition before_digest :: "string \<Rightarrow> string" where
  "before_digest img = takeWhile (\<lambda>c. c \<noteq> CHR ''@'') img"

text \<open>From the last slash on, or all of it.\<close>

definition after_slash :: "string \<Rightarrow> string" where
  "after_slash img = rev (takeWhile (\<lambda>c. c \<noteq> CHR ''/'') (rev img))"

definition isLatestOrNoTag :: "string \<Rightarrow> bool" where
  "isLatestOrNoTag img =
     (let img = before_digest img
      in has_suffix img '':latest'' \<or> CHR '':'' \<notin> set (after_slash img))"

definition image_hygiene :: "string \<Rightarrow> string list" where
  "image_hygiene img =
     (if isLatestOrNoTag img then [''latest-or-no-tag''] else []) @
     (if \<not> contains_str img ''@sha256:'' then [''no-digest-pin''] else [])"

definition count_image :: "ImagePod \<Rightarrow> ImageData \<Rightarrow> string \<times> string \<Rightarrow> ImageData" where
  "count_image pod d c =
     (let (name, img) = c
      in d\<lparr>im_TotalContainers := im_TotalContainers d + 1,
           im_Images := List.insert img (im_Images d),
           im_LatestTag := bump (isLatestOrNoTag img) (im_LatestTag d),
           im_NoDigest := bump (\<not> contains_str img ''@sha256:'') (im_NoDigest d),
           im_ImageRisks := im_ImageRisks d @
             (if image_hygiene img = [] then []
              else [\<lparr>ir_Namespace = ip_Namespace pod, ir_Pod = ip_Name pod, ir_Container = name, ir_Image = img,
                     ir_Risks = image_hygiene img\<rparr>])\<rparr>)"

definition image_data :: "ImagePod list \<Rightarrow> ImageData" where
  "image_data pods =
     foldl (\<lambda>d pod. foldl (count_image pod) d (ip_Init pod @ ip_Containers pod))
       \<lparr>im_TotalContainers = 0, im_LatestTag = 0, im_NoDigest = 0, im_Images = [], im_ImageRisks = []\<rparr> pods"

definition image_risk_key :: "ImageRisk \<Rightarrow> int \<times> string \<times> string \<times> string \<times> string" where
  "image_risk_key r = (- int (length (ir_Risks r)), ir_Image r, ir_Namespace r, ir_Pod r, ir_Container r)"

text \<open>What probing the registries found for each image: an error, or the time the image was created,
  the zero time when the registry does not say.\<close>

record probeMetrics =
  pm_Probed :: int
  pm_Failed :: int
  pm_Oldest :: int
  pm_TotalAge :: int
  pm_Aged :: int

definition whole_days :: "int \<Rightarrow> int" where
  "whole_days d = math_Trunc (fdiv (time_Hours d) 24)"

definition probe_step :: "int \<Rightarrow> probeMetrics \<Rightarrow> string + int \<Rightarrow> probeMetrics" where
  "probe_step now m r =
     (case r of
        Inl err \<Rightarrow> m\<lparr>pm_Failed := pm_Failed m + 1\<rparr>
      | Inr created \<Rightarrow>
          let m = m\<lparr>pm_Probed := pm_Probed m + 1\<rparr>
          in if created = zero_time then m
             else let age = time_Sub now created
                  in m\<lparr>pm_TotalAge := wrap64 (pm_TotalAge m + age), pm_Aged := pm_Aged m + 1,
                       pm_Oldest := (if whole_days age > pm_Oldest m then whole_days age else pm_Oldest m)\<rparr>)"

definition fillProbeMetrics :: "int \<Rightarrow> (string + int) list \<Rightarrow> probeMetrics" where
  "fillProbeMetrics now rs =
     foldl (probe_step now) \<lparr>pm_Probed = 0, pm_Failed = 0, pm_Oldest = 0, pm_TotalAge = 0, pm_Aged = 0\<rparr> rs"

definition average_days :: "probeMetrics \<Rightarrow> int" where
  "average_days m = (if pm_Aged m > 0 then whole_days (pm_TotalAge m sdiv pm_Aged m) else 0)"

definition image_risk_json :: "ImageRisk \<Rightarrow> json" where
  "image_risk_json r = JObj [(''namespace'', JStr (ir_Namespace r)), (''pod'', JStr (ir_Pod r)),
     (''container'', JStr (ir_Container r)), (''image'', JStr (ir_Image r)), (''risks'', JArr (map JStr (ir_Risks r)))]"

definition images_json :: "ImageData \<Rightarrow> probeMetrics \<Rightarrow> json" where
  "images_json d m = JObj
     [(''total_containers'', JNum (of_int64 (im_TotalContainers d))), (''latest_tag'', JNum (of_int64 (im_LatestTag d))),
      (''no_digest'', JNum (of_int64 (im_NoDigest d))), (''unique_images'', json_nat (length (im_Images d))),
      (''image_risks'', json_slice image_risk_json (TopN (im_ImageRisks d) 50 image_risk_key)),
      (''images_probed'', JNum (of_int64 (pm_Probed m))), (''images_failed'', JNum (of_int64 (pm_Failed m))),
      (''oldest_image_age_days'', JNum (of_int64 (pm_Oldest m))), (''avg_image_age_days'', JNum (of_int64 (average_days m)))]"

text \<open>With probing off, no registry is asked.\<close>

definition scan_images :: "(string list \<Rightarrow> (string + int) list) option \<Rightarrow> int \<Rightarrow> ImagePod listing \<Rightarrow> Result \<times> coverageError option" where
  "scan_images prober now pods =
     (let cov = noted Coverage0 ''pods'' pods; d = image_data (listing_items pods);
          probed = (case prober of None \<Rightarrow> [] | Some p \<Rightarrow> if listing_error pods = None then p (im_Images d) else [])
      in Finish cov ''image-audit'' (images_json d (fillProbeMetrics now probed)))"

section \<open>What the counts are\<close>

lemma parse_reports:
  "vd_Critical (fst (foldl parseReport acc objs)) =
     vd_Critical (fst acc) + sum_list (map (\<lambda>o1. severity_count o1 ''criticalCount'') objs)"
  "vd_Reports (fst (foldl parseReport acc objs)) = vd_Reports (fst acc)"
  by (induction objs arbitrary: acc) (simp_all add: parseReport_def Let_def split_beta)

definition critical_sum :: "seenImages \<Rightarrow> int" where
  "critical_sum m = sum_list (map (\<lambda>kv. vi_Critical (snd kv)) m)"

lemma critical_sum_update:
  "distinct (map fst m) \<Longrightarrow>
     critical_sum (AList.update k v m) = critical_sum m + vi_Critical v - (case map_of m k of None \<Rightarrow> 0 | Some w \<Rightarrow> vi_Critical w)"
proof (induction m)
  case (Cons kv m)
  show ?case
  proof (cases "fst kv = k")
    case True
    then have "map_of m k = None" using Cons.prems by (auto simp: map_of_eq_None_iff)
    then show ?thesis using True by (cases kv) (simp add: critical_sum_def)
  next
    case False
    then show ?thesis using Cons by (cases kv) (auto simp: critical_sum_def)
  qed
qed (simp add: critical_sum_def)

text \<open>The critical findings of a cluster are those of its images: every report is counted once for the
  cluster and once for its image, whatever images share a key.\<close>

lemma vulnerabilities_attributed:
  "vd_Critical (fst (vulnerability_data av objs)) = critical_sum (snd (vulnerability_data av objs))"
proof -
  have step: "distinct (map fst (snd (parseReport acc obj))) \<and>
      vd_Critical (fst (parseReport acc obj)) = critical_sum (snd (parseReport acc obj))"
    if "distinct (map fst (snd acc))" "vd_Critical (fst acc) = critical_sum (snd acc)" for acc obj
    using that
    by (auto simp: parseReport_def Let_def split_beta critical_sum_update lookup_default_def distinct_update
        split: option.splits)
  have "distinct (map fst (snd (foldl parseReport acc objs))) \<and>
      vd_Critical (fst (foldl parseReport acc objs)) = critical_sum (snd (foldl parseReport acc objs))"
    if "distinct (map fst (snd acc))" "vd_Critical (fst acc) = critical_sum (snd acc)" for acc
    using that
  proof (induction objs arbitrary: acc)
    case (Cons obj objs)
    show ?case using Cons.IH [of "parseReport acc obj"] step [OF Cons.prems] by simp
  qed simp
  from this [of "(\<lparr>vd_Available = av, vd_Reports = int (length objs), vd_Critical = 0, vd_High = 0, vd_Medium = 0,
         vd_Low = 0, vd_Unknown = 0\<rparr>, [])"] show ?thesis
    by (simp add: vulnerability_data_def critical_sum_def)
qed

text \<open>The images listed are worst first, and with more than twenty the cut may fall inside a tie: two
  orders of the same map then list different images.\<close>

lemma worst_images_sorted:
  "sorted (map (\<lambda>v. (- image_total v, - vi_Critical v)) (worst_images vs))" "mset (worst_images vs) = mset vs"
  by (simp_all add: worst_images_def)

definition tied_image :: "string \<Rightarrow> VulnerableImage" where
  "tied_image w = \<lparr>vi_Namespace = ''ns'', vi_Workload = w, vi_Image = ''img'', vi_Critical = 1, vi_High = 0,
     vi_Medium = 0, vi_Low = 0\<rparr>"

lemma topImages_depends_on_order:
  "topImages (\<lambda>m. m) [(''a'', tied_image ''a''), (''b'', tied_image ''b'')] 1 \<noteq>
   topImages rev [(''a'', tied_image ''a''), (''b'', tied_image ''b'')] 1"
  by (simp add: topImages_def worst_images_def tied_image_def image_total_def)

text \<open>An image is flagged as latest exactly when it names no tag or the tag latest, whatever its digest.\<close>

lemma before_digest_pinned: "CHR ''@'' \<notin> set name \<Longrightarrow> before_digest (name @ CHR ''@'' # digest) = name"
  by (simp add: before_digest_def takeWhile_append takeWhile_eq_all_conv)

lemma pinned_by_tag: "CHR ''@'' \<notin> set name \<Longrightarrow> isLatestOrNoTag (name @ CHR ''@'' # digest) = isLatestOrNoTag name"
proof -
  assume "CHR ''@'' \<notin> set name"
  then have "before_digest name = name" by (auto simp: before_digest_def takeWhile_eq_all_conv)
  then show ?thesis by (simp add: isLatestOrNoTag_def before_digest_pinned \<open>CHR ''@'' \<notin> set name\<close>)
qed

lemma image_examples:
  "isLatestOrNoTag ''nginx''" "isLatestOrNoTag ''nginx:latest''" "\<not> isLatestOrNoTag ''nginx:1.25''"
  "isLatestOrNoTag ''registry:5000/nginx''"
  by (simp_all add: isLatestOrNoTag_def before_digest_def after_slash_def has_suffix_def has_prefix_def cut_prefix_def)

text \<open>A version is reported only when the server serves it and it holds objects, or may not be listed.\<close>

lemma probe_found:
  assumes "d \<in> set (fst (snd (foldl (probe_removal p served) (cov, found, k) rms)))"
  shows "d \<in> set found \<or> (\<exists>rm \<in> set rms. is_served served rm \<and> de_APIVersion d = group_version rm \<and>
     de_Kind d = dp_Kind rm \<and> (0 < de_InstanceCount d \<or> de_Forbidden d))"
  using assms
proof (induction rms arbitrary: cov found k)
  case (Cons rm rms)
  obtain cov' found' k' where s: "probe_removal p served (cov, found, k) rm = (cov', found', k')"
    by (metis prod_cases3)
  then have "d \<in> set found' \<Longrightarrow> d \<in> set found \<or> (is_served served rm \<and> de_APIVersion d = group_version rm \<and>
     de_Kind d = dp_Kind rm \<and> (0 < de_InstanceCount d \<or> de_Forbidden d))"
    by (auto simp: probe_removal_def Let_def split: if_splits sum.splits prod.splits)
  with Cons.IH [of cov' found' k'] Cons.prems s show ?case by auto
qed simp

end
