(* ===== verification/Scanners.thy ===== *)
theory Scanners
  imports Build_Laws Scan_Custom
begin

text \<open>
  The registry of scanners (\<open>internal/scanner/registry.go\<close>), the deadline of a run
  (\<open>scan_timeout.go\<close>), and what the scanners promise of the report they feed: from the pages of a
  list to the finding a reader sees.
\<close>

section \<open>The registry\<close>

type_synonym 'sc Registry = "(string, 'sc) gomap"

definition NewRegistry :: "'sc Registry" where "NewRegistry = []"

text \<open>Registering a name twice panics, which is \<open>None\<close>.\<close>

definition Register :: "'sc Registry \<Rightarrow> string \<Rightarrow> 'sc \<Rightarrow> 'sc Registry option" where
  "Register r name s = (case map_of r name of Some _ \<Rightarrow> None | None \<Rightarrow> Some (AList.update name s r))"

definition registry_get :: "'sc Registry \<Rightarrow> string \<Rightarrow> 'sc option" where
  "registry_get r name = map_of r name"

definition registry_names :: "'sc Registry \<Rightarrow> string list" where
  "registry_names r = sort (map fst r)"

fun register_all :: "'sc Registry \<Rightarrow> (string \<times> 'sc) list \<Rightarrow> 'sc Registry option" where
  "register_all r [] = Some r"
| "register_all r ((name, s) # rest) = Option.bind (Register r name s) (\<lambda>r'. register_all r' rest)"

text \<open>The deadline of a run, when there is one.\<close>

definition DefaultScanTimeout :: int where "DefaultScanTimeout = 60 * 1000000000"

definition RunWithTimeout :: "(int option \<Rightarrow> 'r) \<Rightarrow> int \<Rightarrow> int \<Rightarrow> 'r" where
  "RunWithTimeout scan now timeout = (if timeout \<le> 0 then scan None else scan (Some (now + timeout)))"

lemma Register_get:
  "Register r name s = Some r' \<Longrightarrow>
     registry_get r' k = (if k = name then Some s else registry_get r k)"
  by (auto simp: Register_def registry_get_def split: option.splits)

lemma register_all_spec:
  "distinct (map fst r) \<Longrightarrow>
     (register_all r xs = None \<longleftrightarrow> \<not> distinct (map fst (r @ xs))) \<and>
     (\<forall>r'. register_all r xs = Some r' \<longrightarrow> r' = r @ xs)"
proof (induction xs arbitrary: r)
  case (Cons x xs)
  obtain name s where x: "x = (name, s)" by force
  show ?case
  proof (cases "name \<in> fst ` set r")
    case True
    then show ?thesis by (auto simp: x Register_def map_of_eq_None_iff split: option.splits)
  next
    case False
    then have "Register r name s = Some (r @ [(name, s)])"
      by (simp add: Register_def update_new map_of_eq_None_iff split: option.splits)
    moreover have "distinct (map fst (r @ [(name, s)]))" using Cons.prems False by auto
    ultimately show ?thesis using Cons.IH [of "r @ [(name, s)]"] by (simp add: x)
  qed
qed simp

lemma registry_names_sorted:
  assumes "register_all NewRegistry xs = Some r"
  shows "sorted (registry_names r)" "distinct (registry_names r)" "set (registry_names r) = fst ` set xs"
  using assms register_all_spec [of NewRegistry xs] by (auto simp: registry_names_def NewRegistry_def)

section \<open>From the pages of a list to a finding\<close>

lemma of_int64_pos: "1 \<le> n \<Longrightarrow> 1 \<le> of_int64 n"
proof -
  assume "1 \<le> n"
  then have "f64 (of_int 1) \<le> f64 (of_int n)" by (intro f64_mono) simp
  then show "1 \<le> of_int64 n" using f64_of_int [of 1] by (simp add: of_int64_def)
qed

text \<open>The state and the payload of the node scanner on any listing.\<close>

lemma scan_node_health_not_blind:
  assumes "nodes = Inr ns"
  shows "\<not> Blind (fst (scan_node_health nodes))"
    "res_Data (fst (scan_node_health nodes)) = health_json (health_data ns)"
  by (simp_all add: assms scan_node_health_ok Blind_def state_defs)

lemma health_json_not_ready:
  "list_ex (\<lambda>n. last_status ''Ready'' n \<noteq> Some ''True'') ns \<Longrightarrow>
     \<exists>m v. health_json (health_data ns) = JObj m \<and> map_of m ''not_ready_nodes'' = Some (JNum v) \<and> 1 \<le> v"
  using tally_positive [of "\<lambda>n. last_status ''Ready'' n \<noteq> Some ''True''" ns]
    of_int64_pos [of "tally (\<lambda>n. last_status ''Ready'' n \<noteq> Some ''True'') ns"]
  by (simp add: health_json_def health_data_counts)

lemma listed_unready_reported:
  assumes visit: "\<And>m. mset (mo_groups orders m) = mset m"
    and b: "Build sha256 orders opt clusters results = Some r"
    and c: "c \<in> set clusters"
    and listed: "ListAll ask CacheReadOptions s = Some (s', Inr nodes)"
    and scanned: "result_of results c ''node-health'' = Some (fst (scan_node_health (Inr nodes)))"
    and unready: "list_ex (\<lambda>n. last_status ''Ready'' n \<noteq> Some ''True'') nodes"
  shows "list_ex (\<lambda>f. f_Rule f = ''node-health/not-ready'' \<and> f_Cluster f = c \<and> f_Severity f = SeverityCritical) (r_Findings r) \<and>
    list_ex (\<lambda>h. h_Name h = c \<and> h_Status h = ''critical'') (r_ClusterHealths r)"
proof -
  obtain m v where m: "health_json (health_data nodes) = JObj m" "map_of m ''not_ready_nodes'' = Some (JNum v)" "1 \<le> v"
    using health_json_not_ready [OF unready] by blast
  note res = scan_node_health_not_blind [OF refl, of nodes]
  show ?thesis using Build_reports_unready [OF visit b c scanned res(1) _ m(2,3)] res(2) m(1) by simp
qed

text \<open>An API server with two pages, whose second page holds a node without a \<open>Ready\<close> condition.\<close>

definition plain_node :: "string \<Rightarrow> NodeCondition list \<Rightarrow> Node" where
  "plain_node name cs = \<lparr>nd_Name = name, nd_Unschedulable = False, nd_Conditions = cs,
     nd_NodeInfo = \<lparr>ni_OSImage = '''', ni_KernelVersion = '''', ni_ContainerRuntimeVersion = '''',
       ni_KubeletVersion = '''', ni_KubeProxyVersion = ''''\<rparr>, nd_Allocatable = [], nd_Capacity = []\<rparr>"

definition ready_node :: Node where
  "ready_node = plain_node ''n1'' [\<lparr>nc_Type = ''Ready'', nc_Status = ''True'', nc_Reason = '''', nc_Message = ''''\<rparr>]"

definition two_pages :: "(unit, Node) lister" where
  "two_pages s page =
     (s, Inr (if lo_Continue page = '''' then ([ready_node], ''next'') else ([plain_node ''n2'' []], '''')))"

definition scanned_results :: results where
  "scanned_results = [(''east'', [(''node-health'', fst (scan_node_health (Inr [ready_node, plain_node ''n2'' []])))])]"

lemma two_pages_listed: "ListAll two_pages CacheReadOptions () = Some ((), Inr [ready_node, plain_node ''n2'' []])"
  by (simp add: ListAll_def list_loop.simps two_pages_def CacheReadOptions_def ListOptions0_def withLimit_def
      nextPage_def DefaultListLimit_def)



end
