(* ===== verification/Persistence.thy ===== *)
theory Persistence
  imports Rules
begin

text \<open>
  \<open>internal/report/persistence.go\<close>: how often each finding recurred over a window of scans. The
  theorem shows that presence, streak and class are what the window says, the float comparison with
  the class thresholds included.
\<close>

section \<open>Definitions\<close>

definition PersistenceChronic :: string where "PersistenceChronic = ''chronic''"
definition PersistenceIntermittent :: string where "PersistenceIntermittent = ''intermittent''"
definition PersistenceTransient :: string where "PersistenceTransient = ''transient''"

definition chronicFraction :: float64 where "chronicFraction = f64 (7 / 10)"
definition transientFraction :: float64 where "transientFraction = f64 (3 / 10)"

record FindingPersistence =
  fp_Fingerprint :: string
  fp_Cluster :: string
  fp_Scanner :: string
  fp_Rule :: string
  fp_Title :: string
  fp_Severity :: string
  fp_Present :: int
  fp_Total :: int
  fp_Fraction :: float64
  fp_Streak :: int
  fp_Class :: string
  fp_Acked :: bool

record agg =
  ag_cluster :: string
  ag_scanner :: string
  ag_rule :: string
  ag_title :: string
  ag_severity :: string
  ag_present :: int

definition persistenceClass :: "float64 \<Rightarrow> string" where
  "persistenceClass fraction =
     (if fraction \<ge> chronicFraction then PersistenceChronic
      else if fraction \<le> transientFraction then PersistenceTransient
      else PersistenceIntermittent)"

definition has_fingerprint :: "(string \<Rightarrow> string) \<Rightarrow> string \<Rightarrow> Finding list \<Rightarrow> bool" where
  "has_fingerprint sha256 fp scan = list_ex (\<lambda>f. FindingFingerprint sha256 f = fp) scan"

fun streak_loop :: "(string \<Rightarrow> string) \<Rightarrow> string \<Rightarrow> Finding list list \<Rightarrow> int" where
  "streak_loop sha256 fp [] = 0"
| "streak_loop sha256 fp (scan # older) =
     (if has_fingerprint sha256 fp scan then 1 + streak_loop sha256 fp older else 0)"

definition recentStreak :: "(string \<Rightarrow> string) \<Rightarrow> Finding list list \<Rightarrow> string \<Rightarrow> int" where
  "recentStreak sha256 series fp = streak_loop sha256 fp (rev series)"

type_synonym window = "(string, agg) gomap \<times> string list"

text \<open>One finding of a scan: the fingerprints of the scan so far, the aggregates and their order.\<close>

definition count_finding :: "(string \<Rightarrow> string) \<Rightarrow> string list \<times> window \<Rightarrow> Finding \<Rightarrow> string list \<times> window" where
  "count_finding sha256 st f =
     (case st of (inScan, sofar, order) \<Rightarrow>
        let fp = FindingFingerprint sha256 f
        in if fp \<in> set inScan then st
           else let a = (case map_of sofar fp of
                           Some a \<Rightarrow> a
                         | None \<Rightarrow> \<lparr>ag_cluster = f_Cluster f, ag_scanner = f_Scanner f, ag_rule = f_Rule f,
                                    ag_title = '''', ag_severity = '''', ag_present = 0\<rparr>);
                    a = a\<lparr>ag_present := ag_present a + 1, ag_severity := f_Severity f, ag_title := f_Title f\<rparr>
                in (fp # inScan, AList.update fp a sofar,
                    if map_of sofar fp = None then order @ [fp] else order))"

definition count_scan :: "(string \<Rightarrow> string) \<Rightarrow> window \<Rightarrow> Finding list \<Rightarrow> window" where
  "count_scan sha256 w scan = snd (foldl (count_finding sha256) ([], w) scan)"

definition persistence_of ::
  "(string \<Rightarrow> string) \<Rightarrow> Finding list list \<Rightarrow> (string \<Rightarrow> bool) \<Rightarrow> string \<Rightarrow> agg \<Rightarrow> FindingPersistence" where
  "persistence_of sha256 series acked fp a =
     (let total = int (length series); frac = fdiv (of_int64 (ag_present a)) (of_int64 total)
      in \<lparr>fp_Fingerprint = fp, fp_Cluster = ag_cluster a, fp_Scanner = ag_scanner a, fp_Rule = ag_rule a,
          fp_Title = ag_title a, fp_Severity = ag_severity a, fp_Present = ag_present a, fp_Total = total,
          fp_Fraction = frac, fp_Streak = recentStreak sha256 series fp,
          fp_Class = persistenceClass frac, fp_Acked = acked fp\<rparr>)"

definition persistence_key :: "FindingPersistence \<Rightarrow> rat \<times> int \<times> string \<times> string" where
  "persistence_key p = (- fp_Fraction p, - SeverityRank (fp_Severity p), fp_Cluster p, fp_Title p)"

text \<open>Every fingerprint of the order has an aggregate, so the lookup never fails.\<close>

definition ComputePersistence ::
  "(string \<Rightarrow> string) \<Rightarrow> Finding list list \<Rightarrow> (string \<Rightarrow> bool) \<Rightarrow> FindingPersistence list" where
  "ComputePersistence sha256 series acked =
     (if series = [] then []
      else case foldl (count_scan sha256) ([], []) series of (sofar, order) \<Rightarrow>
        sort_key persistence_key
          (List.map_filter (\<lambda>fp. map_option (persistence_of sha256 series acked fp) (map_of sofar fp)) order))"

section \<open>Laws\<close>

abbreviation prints :: "(string \<Rightarrow> string) \<Rightarrow> Finding list \<Rightarrow> string set" where
  "prints sha256 scan \<equiv> FindingFingerprint sha256 ` set scan"

definition presence :: "(string, agg) gomap \<Rightarrow> string \<Rightarrow> int" where
  "presence sofar fp = (case map_of sofar fp of None \<Rightarrow> 0 | Some a \<Rightarrow> ag_present a)"

definition ordered :: "window \<Rightarrow> bool" where
  "ordered w \<longleftrightarrow> distinct (snd w) \<and> set (snd w) = dom (map_of (fst w))"

lemma has_fingerprint_iff: "has_fingerprint sha256 fp scan \<longleftrightarrow> fp \<in> prints sha256 scan"
  by (auto simp: has_fingerprint_def list_ex_iff)

lemma count_finding_laws:
  assumes "count_finding sha256 (ins, w) f = (ins', w')" "ordered w"
  shows "ordered w' \<and> set ins' = insert (FindingFingerprint sha256 f) (set ins) \<and>
    set (snd w') = set (snd w) \<union> ({FindingFingerprint sha256 f} - set ins) \<and>
    presence (fst w') fp = presence (fst w) fp + (if fp = FindingFingerprint sha256 f \<and> fp \<notin> set ins then 1 else 0)"
  using assms by (cases w) (auto simp: count_finding_def Let_def ordered_def presence_def split: if_splits option.splits)

lemma count_findings_laws:
  assumes "foldl (count_finding sha256) (ins, w) scan = (ins', w')" "ordered w"
  shows "ordered w' \<and> set ins' = set ins \<union> prints sha256 scan \<and>
    set (snd w') = set (snd w) \<union> (prints sha256 scan - set ins) \<and>
    presence (fst w') fp = presence (fst w) fp + (if fp \<in> prints sha256 scan - set ins then 1 else 0)"
  using assms
proof (induction scan arbitrary: ins w)
  case (Cons f scan)
  obtain ins1 w1 where st: "count_finding sha256 (ins, w) f = (ins1, w1)" by (meson surj_pair)
  note one = count_finding_laws [OF st Cons.prems(2), of fp]
  have "foldl (count_finding sha256) (ins1, w1) scan = (ins', w')" using Cons.prems(1) st by simp
  note two = Cons.IH [OF this] 
  show ?case using one two by (auto simp: Un_commute)
qed auto

lemma count_scan_laws:
  assumes "ordered w"
  shows "ordered (count_scan sha256 w scan)"
    "set (snd (count_scan sha256 w scan)) = set (snd w) \<union> prints sha256 scan"
    "presence (fst (count_scan sha256 w scan)) fp = presence (fst w) fp + (if has_fingerprint sha256 fp scan then 1 else 0)"
proof -
  obtain ins' w' where st: "foldl (count_finding sha256) ([], w) scan = (ins', w')" by (meson surj_pair)
  note laws = count_findings_laws [OF st assms, of fp]
  show "ordered (count_scan sha256 w scan)"
    "set (snd (count_scan sha256 w scan)) = set (snd w) \<union> prints sha256 scan"
    "presence (fst (count_scan sha256 w scan)) fp = presence (fst w) fp + (if has_fingerprint sha256 fp scan then 1 else 0)"
    using laws by (simp_all add: count_scan_def st has_fingerprint_iff)
qed

lemma window_laws:
  "ordered (foldl (count_scan sha256) ([], []) series) \<and>
   set (snd (foldl (count_scan sha256) ([], []) series)) = (\<Union>scan \<in> set series. prints sha256 scan) \<and>
   presence (fst (foldl (count_scan sha256) ([], []) series)) fp =
     int (length (filter (has_fingerprint sha256 fp) series))"
proof (induction series rule: rev_induct)
  case Nil
  show ?case by (simp add: ordered_def presence_def)
next
  case (snoc scan series)
  let ?w = "foldl (count_scan sha256) ([], []) series"
  have "ordered ?w" using snoc by blast
  from count_scan_laws [OF this, of sha256 scan] show ?case using snoc by auto
qed

lemma streak_takeWhile: "streak_loop sha256 fp scans = int (length (takeWhile (has_fingerprint sha256 fp) scans))"
  by (induction scans) simp_all

lemma streak_le_present:
  "recentStreak sha256 series fp \<le> int (length (filter (has_fingerprint sha256 fp) series))"
proof -
  have "length (takeWhile P xs) \<le> length (filter P xs)" for P and xs :: "Finding list list"
    by (induction xs) auto
  from this [of "has_fingerprint sha256 fp" "rev series"] show ?thesis
    by (simp add: recentStreak_def streak_takeWhile rev_filter [symmetric])
qed

lemma persistenceClass_exact:
  assumes "0 \<le> p" "p \<le> t" "0 < t" "t * 10 < 2 ^ 52"
  shows "persistenceClass (fdiv (of_int64 p) (of_int64 t)) =
    (if 7 * t \<le> 10 * p then PersistenceChronic else if 10 * p \<le> 3 * t then PersistenceTransient
     else PersistenceIntermittent)"
proof -
  have exact: "of_int64 p = of_int p" "of_int64 t = of_int t"
    unfolding of_int64_def using assms by (simp_all add: f64_of_int)
  have hi: "chronicFraction \<le> f64 (of_int p / of_int t) \<longleftrightarrow> 7 * t \<le> p * 10"
    unfolding chronicFraction_def using f64_frac_le_iff [of p t 7 10] assms by simp
  have lo: "f64 (of_int p / of_int t) \<le> transientFraction \<longleftrightarrow> p * 10 \<le> 3 * t"
    unfolding transientFraction_def using f64_frac_le_iff [of 3 10 p t] assms by simp
  show ?thesis unfolding persistenceClass_def fdiv_def exact hi lo by (simp add: mult.commute)
qed

text \<open>C34. Over a window of scans every distinct fingerprint gets one summary. It counts each scan that
  holds the fingerprint once, however often the scan repeats it; its streak is the run of most
  recent scans that hold it and never exceeds the count; and its class is chronic from seven tenths
  of the window on, transient up to three tenths, intermittent between, decided exactly although
  the code compares float64 fractions. The summaries are sorted.\<close>

theorem ComputePersistence_spec:
  assumes "length series * 10 < 2 ^ 52"
  shows "let out = ComputePersistence sha256 series acked in
    mset (map fp_Fingerprint out) = mset_set (\<Union>scan \<in> set series. FindingFingerprint sha256 ` set scan) \<and>
    list_all (\<lambda>p.
      fp_Present p = int (length (filter (has_fingerprint sha256 (fp_Fingerprint p)) series)) \<and>
      fp_Total p = int (length series) \<and>
      fp_Streak p = int (length (takeWhile (has_fingerprint sha256 (fp_Fingerprint p)) (rev series))) \<and>
      fp_Streak p \<le> fp_Present p \<and> fp_Acked p = acked (fp_Fingerprint p) \<and>
      fp_Class p = (if 7 * fp_Total p \<le> 10 * fp_Present p then ''chronic''
                    else if 10 * fp_Present p \<le> 3 * fp_Total p then ''transient'' else ''intermittent'')) out \<and>
    sorted (map persistence_key out)"
proof (cases "series = []")
  case True
  then show ?thesis by (simp add: ComputePersistence_def)
next
  case False
  define out where "out = ComputePersistence sha256 series acked"
  obtain sofar order where w: "foldl (count_scan sha256) ([], []) series = (sofar, order)" by fastforce
  have laws: "ordered (sofar, order)" "set order = (\<Union>scan \<in> set series. prints sha256 scan)"
    and pres: "presence sofar fp = int (length (filter (has_fingerprint sha256 fp) series))" for fp
    using window_laws [of sha256 series] by (simp_all add: w)
  have total: "map_of sofar fp \<noteq> None" if "fp \<in> set order" for fp
    using laws(1) that by (auto simp: ordered_def)
  define summary where "summary fp = persistence_of sha256 series acked fp (the (map_of sofar fp))" for fp
  have "List.map_filter (\<lambda>fp. map_option (persistence_of sha256 series acked fp) (map_of sofar fp)) order = map summary order"
    using total by (force simp: List.map_filter_def summary_def filter_id_conv)
  then have out: "out = sort_key persistence_key (map summary order)"
    using False by (simp add: out_def ComputePersistence_def w)
  have "map fp_Fingerprint (map summary order) = order"
    by (simp add: summary_def persistence_of_def Let_def comp_def)
  then have "mset (map fp_Fingerprint out) = mset order" unfolding out by (metis mset_map mset_sort)
  also have "mset order = mset_set (set order)" using laws(1) unfolding ordered_def by (metis mset_set_set snd_conv)
  finally have one: "mset (map fp_Fingerprint out) = mset_set (\<Union>scan \<in> set series. prints sha256 scan)"
    unfolding laws(2) .
  have t: "0 < int (length series)" "int (length series) * 10 < 2 ^ 52" using False assms(1) by simp_all
  have each: "fp_Fingerprint (summary fp) = fp" "fp_Present (summary fp) = presence sofar fp"
    "fp_Total (summary fp) = int (length series)" "fp_Acked (summary fp) = acked fp"
    "fp_Streak (summary fp) = recentStreak sha256 series fp"
    "fp_Class (summary fp) = persistenceClass (fdiv (of_int64 (presence sofar fp)) (of_int64 (int (length series))))"
    if "fp \<in> set order" for fp
    using total [OF that] by (auto simp: summary_def persistence_of_def Let_def presence_def)
  have bound: "0 \<le> presence sofar fp" "presence sofar fp \<le> int (length series)" for fp
    by (simp_all add: pres)
  have "list_all (\<lambda>p.
      fp_Present p = int (length (filter (has_fingerprint sha256 (fp_Fingerprint p)) series)) \<and>
      fp_Total p = int (length series) \<and>
      fp_Streak p = int (length (takeWhile (has_fingerprint sha256 (fp_Fingerprint p)) (rev series))) \<and>
      fp_Streak p \<le> fp_Present p \<and> fp_Acked p = acked (fp_Fingerprint p) \<and>
      fp_Class p = (if 7 * fp_Total p \<le> 10 * fp_Present p then ''chronic''
                    else if 10 * fp_Present p \<le> 3 * fp_Total p then ''transient'' else ''intermittent'')) out"
    unfolding list_all_iff out set_sort set_map
  proof (rule ballI, elim imageE)
    fix p fp assume fp: "fp \<in> set order" and p: "p = summary fp"
    show "fp_Present p = int (length (filter (has_fingerprint sha256 (fp_Fingerprint p)) series)) \<and>
      fp_Total p = int (length series) \<and>
      fp_Streak p = int (length (takeWhile (has_fingerprint sha256 (fp_Fingerprint p)) (rev series))) \<and>
      fp_Streak p \<le> fp_Present p \<and> fp_Acked p = acked (fp_Fingerprint p) \<and>
      fp_Class p = (if 7 * fp_Total p \<le> 10 * fp_Present p then ''chronic''
                    else if 10 * fp_Present p \<le> 3 * fp_Total p then ''transient'' else ''intermittent'')"
      unfolding p each [OF fp] persistenceClass_exact [OF bound t]
      using streak_le_present [of sha256 series fp]
      by (simp add: pres recentStreak_def streak_takeWhile PersistenceChronic_def PersistenceTransient_def
          PersistenceIntermittent_def)
  qed
  then show ?thesis using one unfolding Let_def out_def [symmetric] by (simp add: out)
qed

text \<open>Three scans over one finding, with a hash that keeps its input.\<close>

definition sample_series :: "Finding list list" where
  "sample_series =
     (let f = Finding0\<lparr>f_Cluster := ''a'', f_Scanner := ''s'', f_Rule := ''s/r'', f_Title := ''t'', f_Severity := ''warning''\<rparr>
      in [[], [f, f], [f]])"

theorem ComputePersistence_spec_witness:
  "map (\<lambda>p. (fp_Present p, fp_Streak p, fp_Class p)) (ComputePersistence (\<lambda>s. s) sample_series (\<lambda>_. False)) =
     [(2, 2, ''intermittent'')]"
proof -
  let ?out = "ComputePersistence (\<lambda>s. s) sample_series (\<lambda>_. False)" and ?fp = "Fingerprint (\<lambda>s. s) ''a'' ''s'' ''s/r''"
  have fps: "(\<Union>scan \<in> set sample_series. FindingFingerprint (\<lambda>s. s) ` set scan) = {?fp}"
    by (simp add: sample_series_def Let_def FindingFingerprint_def)
  have len: "length sample_series = 3" by (simp add: sample_series_def Let_def)
  have spec: "let out = ?out in
    mset (map fp_Fingerprint out) = mset_set (\<Union>scan \<in> set sample_series. FindingFingerprint (\<lambda>s. s) ` set scan) \<and>
    list_all (\<lambda>p.
      fp_Present p = int (length (filter (has_fingerprint (\<lambda>s. s) (fp_Fingerprint p)) sample_series)) \<and>
      fp_Total p = int (length sample_series) \<and>
      fp_Streak p = int (length (takeWhile (has_fingerprint (\<lambda>s. s) (fp_Fingerprint p)) (rev sample_series))) \<and>
      fp_Streak p \<le> fp_Present p \<and> fp_Acked p = False \<and>
      fp_Class p = (if 7 * fp_Total p \<le> 10 * fp_Present p then ''chronic''
                    else if 10 * fp_Present p \<le> 3 * fp_Total p then ''transient'' else ''intermittent'')) out \<and>
    sorted (map persistence_key out)"
    by (rule ComputePersistence_spec) (simp add: len)
  then have "mset (map fp_Fingerprint ?out) = {#?fp#}" by (simp add: Let_def fps)
  then have m: "map fp_Fingerprint ?out = [?fp]" by (metis mset_single_iff_right mset_single_iff)
  then obtain p where p: "?out = [p]" "fp_Fingerprint p = ?fp" by (cases ?out) auto
  have "map (has_fingerprint (\<lambda>s. s) ?fp) sample_series = [False, True, True]"
    by (simp add: sample_series_def Let_def has_fingerprint_def FindingFingerprint_def)
  then have "filter (has_fingerprint (\<lambda>s. s) ?fp) sample_series = drop 1 sample_series"
    "takeWhile (has_fingerprint (\<lambda>s. s) ?fp) (rev sample_series) = rev (drop 1 sample_series)"
    by (simp_all add: sample_series_def Let_def)
  then show ?thesis using spec p by (simp add: Let_def len)
qed

end
