(* ===== verification/Seal.thy ===== *)
theory Seal
  imports Report_Types Go_Fmt
begin

text \<open>
  \<open>internal/seal\<close>: the signed manifest of an export bundle and its verification. A bundle is a map
  from paths to contents; an archive is the list of entries the tar reader yields. The hash and the
  MAC of Go's \<open>crypto\<close> packages are parameters, \<open>sha256\<close> and \<open>hmac_sha256 key data\<close>: what is
  shown holds for all functions, or for all that return 32 bytes. The theorems show that a sealed
  bundle verifies, that an accepted manifest pins the names and digests of every file, which error
  each defect gives, and that an archive survives being written and read back.
\<close>

section \<open>Signatures\<close>

type_synonym files = "(string, string) gomap"

datatype seal_error =
    ErrMissingKey
  | ErrMalformed
  | ErrMismatch
  | ErrManifest string
  | ErrContents "string list"
  | ErrUnsealed
  | ErrBundle string
  | ErrCopy string

definition Prefix :: string where "Prefix = ''sha256=''"
definition ManifestFile :: string where "ManifestFile = ''MANIFEST''"
definition FileName :: string where "FileName = ''MANIFEST.sig''"
definition sha256_Size :: nat where "sha256_Size = 32"

definition Sign :: "(string \<Rightarrow> string \<Rightarrow> string) \<Rightarrow> string \<Rightarrow> string \<Rightarrow> seal_error + string" where
  "Sign hmac_sha256 data key =
     (if key = '''' then Inl ErrMissingKey else Inr (Prefix @ hex_encode (hmac_sha256 key data)))"

text \<open>A reader is what reading it to the end gives: its bytes, or an error.\<close>

definition SignReader :: "(string \<Rightarrow> string \<Rightarrow> string) \<Rightarrow> string + string \<Rightarrow> string \<Rightarrow> seal_error + string" where
  "SignReader hmac_sha256 r key =
     (if key = '''' then Inl ErrMissingKey
      else case r of Inl e \<Rightarrow> Inl (ErrCopy e) | Inr data \<Rightarrow> Inr (Prefix @ hex_encode (hmac_sha256 key data)))"

text \<open>\<open>hex.DecodeString\<close>: digits of either case, in pairs.\<close>

definition hex_value :: "char \<Rightarrow> nat option" where
  "hex_value c =
     (let n = of_char c :: nat
      in if 48 \<le> n \<and> n \<le> 57 then Some (n - 48)
         else if 97 \<le> n \<and> n \<le> 102 then Some (n - 87)
         else if 65 \<le> n \<and> n \<le> 70 then Some (n - 55) else None)"

fun hex_decode :: "string \<Rightarrow> string option" where
  "hex_decode [] = Some []"
| "hex_decode [c] = None"
| "hex_decode (a # b # cs) =
     (case (hex_value a, hex_value b) of
        (Some x, Some y) \<Rightarrow> map_option (\<lambda>rest. char_of (16 * x + y) # rest) (hex_decode cs)
      | _ \<Rightarrow> None)"

definition decodeSignature :: "string \<Rightarrow> seal_error + string" where
  "decodeSignature signature =
     (let s = trim_both is_space signature
      in if \<not> has_prefix s Prefix then Inl ErrMalformed
         else case hex_decode (trim_prefix s Prefix) of
           None \<Rightarrow> Inl ErrMalformed
         | Some raw \<Rightarrow> if length raw \<noteq> sha256_Size then Inl ErrMalformed else Inr raw)"

text \<open>\<open>None\<close> is Go's nil error.\<close>

definition Verify :: "(string \<Rightarrow> string \<Rightarrow> string) \<Rightarrow> string \<Rightarrow> string \<Rightarrow> string \<Rightarrow> seal_error option" where
  "Verify hmac_sha256 data signature key =
     (if key = '''' then Some ErrMissingKey
      else case decodeSignature signature of
        Inl e \<Rightarrow> Some e
      | Inr provided \<Rightarrow> if hmac_sha256 key data \<noteq> provided then Some ErrMismatch else None)"

definition VerifyReader ::
  "(string \<Rightarrow> string \<Rightarrow> string) \<Rightarrow> string + string \<Rightarrow> string \<Rightarrow> string \<Rightarrow> seal_error option" where
  "VerifyReader hmac_sha256 r signature key =
     (if key = '''' then Some ErrMissingKey
      else case decodeSignature signature of
        Inl e \<Rightarrow> Some e
      | Inr provided \<Rightarrow>
          (case r of Inl e \<Rightarrow> Some (ErrCopy e)
           | Inr data \<Rightarrow> if hmac_sha256 key data \<noteq> provided then Some ErrMismatch else None))"

section \<open>The manifest\<close>

definition newline :: char where "newline = CHR 0x0A"

definition manifest_line :: "(string \<Rightarrow> string) \<Rightarrow> files \<Rightarrow> string \<Rightarrow> string" where
  "manifest_line sha256 files name =
     hex_encode (sha256 (lookup_default '''' files name)) @ ''  '' @ name @ [newline]"

definition sealed_names :: "files \<Rightarrow> string list" where
  "sealed_names files = sort (filter (\<lambda>n. n \<noteq> ManifestFile \<and> n \<noteq> FileName) (map fst files))"

definition Manifest :: "(string \<Rightarrow> string) \<Rightarrow> files \<Rightarrow> string" where
  "Manifest sha256 files = concat (map (manifest_line sha256 files) (sealed_names files))"

text \<open>\<open>bufio.Scanner\<close> with its default line splitter: lines end at a newline, a final carriage return
  goes, a last line needs no newline, and a line of 65536 bytes or more stops the scan with an
  error. The result is the lines scanned and whether the scan was cut short.\<close>

definition maxScanTokenSize :: nat where "maxScanTokenSize = 65536"

definition drop_cr :: "string \<Rightarrow> string" where
  "drop_cr s = (if s \<noteq> '''' \<and> last s = CHR 0x0D then butlast s else s)"

function scan_lines :: "string \<Rightarrow> string list \<times> bool" where
  "scan_lines s =
     (if s = [] then ([], False)
      else let line = takeWhile (\<lambda>c. c \<noteq> newline) s; rest = dropWhile (\<lambda>c. c \<noteq> newline) s
           in if length line \<ge> maxScanTokenSize then ([], True)
              else (case scan_lines (drop 1 rest) of (ls, bad) \<Rightarrow> (drop_cr line # ls, bad)))"
  by pat_completeness auto
termination
proof (relation "measure length", goal_cases)
  case (2 s line rest)
  have "length (drop 1 (dropWhile (\<lambda>c. c \<noteq> newline) s)) < length s"
    using 2(1) length_dropWhile_le [of "\<lambda>c. c \<noteq> newline" s] by (cases s) (auto simp: le_imp_less_Suc)
  then show ?case by (simp add: 2)
qed simp

declare scan_lines.simps [simp del]

text \<open>The loop over the lines stops at the first one it rejects.\<close>

fun list_manifest :: "string list \<Rightarrow> files \<Rightarrow> seal_error + files" where
  "list_manifest [] listed = Inr listed"
| "list_manifest (line # ls) listed =
     (case strings_Cut ''  '' line of
        None \<Rightarrow> Inl (ErrManifest line)
      | Some (digest, name) \<Rightarrow>
          if name = '''' \<or> length digest \<noteq> 2 * sha256_Size then Inl (ErrManifest line)
          else if map_of listed name \<noteq> None then Inl (ErrManifest (name @ '' listed twice''))
          else list_manifest ls (AList.update name digest listed))"

definition entry_problem :: "(string \<Rightarrow> string) \<Rightarrow> files \<Rightarrow> string \<times> string \<Rightarrow> string option" where
  "entry_problem sha256 files e =
     (case e of (name, want) \<Rightarrow>
        case map_of files name of
          None \<Rightarrow> Some (''missing '' @ name)
        | Some data \<Rightarrow> if hex_encode (sha256 data) \<noteq> want then Some (''altered '' @ name) else None)"

definition unlisted_names :: "files \<Rightarrow> files \<Rightarrow> string list" where
  "unlisted_names listed files =
     filter (\<lambda>name. map_of listed name = None \<and> name \<noteq> ManifestFile \<and> name \<noteq> FileName) (map fst files)"

definition content_problems :: "(string \<Rightarrow> string) \<Rightarrow> files \<Rightarrow> files \<Rightarrow> string list" where
  "content_problems sha256 listed files =
     sort (List.map_filter (entry_problem sha256 files) listed
       @ map (\<lambda>name. ''unlisted '' @ name) (unlisted_names listed files))"

definition CheckManifest :: "(string \<Rightarrow> string) \<Rightarrow> string \<Rightarrow> files \<Rightarrow> seal_error option" where
  "CheckManifest sha256 manifest files =
     (case scan_lines manifest of (ls, too_long) \<Rightarrow>
        case list_manifest ls [] of
          Inl e \<Rightarrow> Some e
        | Inr listed \<Rightarrow>
            if too_long then Some (ErrManifest ''token too long'')
            else let problems = content_problems sha256 listed files
                 in if problems \<noteq> [] then Some (ErrContents problems) else None)"

section \<open>The bundle\<close>

definition Bundle ::
  "(string \<Rightarrow> string) \<Rightarrow> (string \<Rightarrow> string \<Rightarrow> string) \<Rightarrow> files \<Rightarrow> string \<Rightarrow> seal_error + string \<times> files" where
  "Bundle sha256 hmac_sha256 files key =
     (let manifest = Manifest sha256 files
      in case Sign hmac_sha256 manifest key of
           Inl e \<Rightarrow> Inl e
         | Inr sig \<Rightarrow> Inr (sig, AList.update FileName (sig @ [newline]) (AList.update ManifestFile manifest files)))"

definition VerifyBundle ::
  "(string \<Rightarrow> string) \<Rightarrow> (string \<Rightarrow> string \<Rightarrow> string) \<Rightarrow> files \<Rightarrow> string \<Rightarrow> seal_error option" where
  "VerifyBundle sha256 hmac_sha256 files key =
     (case (map_of files ManifestFile, map_of files FileName) of
        (Some manifest, Some sig) \<Rightarrow>
          (case Verify hmac_sha256 manifest sig key of
             Some e \<Rightarrow> Some e
           | None \<Rightarrow> CheckManifest sha256 manifest files)
      | _ \<Rightarrow> Some ErrUnsealed)"
section \<open>The archive\<close>

text \<open>Package \<open>path\<close>: lexical cleaning of a slash-separated path.\<close>

fun split_slash :: "string \<Rightarrow> string list" where
  "split_slash [] = [[]]"
| "split_slash (c # cs) =
     (if c = CHR ''/'' then [] # split_slash cs
      else case split_slash cs of [] \<Rightarrow> [[c]] | e # es \<Rightarrow> (c # e) # es)"

definition push_element :: "bool \<Rightarrow> string list \<Rightarrow> string \<Rightarrow> string list" where
  "push_element rooted out e =
     (if e = '''' \<or> e = ''.'' then out
      else if e = ''..'' then
        (if out \<noteq> [] \<and> last out \<noteq> ''..'' then butlast out else if rooted then out else out @ [e])
      else out @ [e])"

definition path_IsAbs :: "string \<Rightarrow> bool" where
  "path_IsAbs p = has_prefix p ''/''"

definition path_Clean :: "string \<Rightarrow> string" where
  "path_Clean p =
     (let out = (if path_IsAbs p then ''/'' else '''') @ strings_Join (foldl (push_element (path_IsAbs p)) [] (split_slash p)) ''/''
      in if out = '''' then ''.'' else out)"

definition path_Join :: "string list \<Rightarrow> string" where
  "path_Join es = (let es' = filter (\<lambda>e. e \<noteq> '''') es in if es' = [] then '''' else path_Clean (strings_Join es' ''/''))"

datatype tar_type = TypeReg | TypeDir | TypeOther

text \<open>An entry as the tar reader yields it. Reading its data may fail. Mode, size, time and format are
  the same for every entry \<open>WriteBundle\<close> writes and are not read.\<close>

record tar_entry =
  te_Name :: string
  te_Type :: tar_type
  te_Data :: "string + string"

definition WriteBundle :: "string \<Rightarrow> files \<Rightarrow> tar_entry list" where
  "WriteBundle rootdir files =
     map (\<lambda>name. \<lparr>te_Name = path_Join [rootdir, name], te_Type = TypeReg, te_Data = Inr (lookup_default '''' files name)\<rparr>)
       (sort (map fst files))"

text \<open>What \<open>ReadBundle\<close> accepts of one entry: its root directory and its path below it.\<close>

definition entry_path :: "tar_entry \<Rightarrow> seal_error + string \<times> string" where
  "entry_path e =
     (let name = te_Name e; clean = path_Clean name
      in if te_Type e \<noteq> TypeReg then Inl (ErrBundle (name @ '' is not a regular file''))
         else if clean \<noteq> name \<or> path_IsAbs clean \<or> has_prefix clean ''../'' \<or> clean = ''..''
           then Inl (ErrBundle (''unsafe path '' @ name))
         else case strings_Cut ''/'' clean of
           None \<Rightarrow> Inl (ErrBundle (name @ '' is outside the bundle root''))
         | Some tr \<Rightarrow> Inr tr)"

fun read_entries :: "(string + tar_entry) list \<Rightarrow> string \<Rightarrow> files \<Rightarrow> seal_error + string \<times> files" where
  "read_entries [] rootdir files = (if rootdir = '''' then Inl (ErrBundle ''no files'') else Inr (rootdir, files))"
| "read_entries (Inl err # es) rootdir files = Inl (ErrBundle (''tar: '' @ err))"
| "read_entries (Inr e # es) rootdir files =
     (if te_Type e = TypeDir then read_entries es rootdir files
      else case entry_path e of
        Inl err \<Rightarrow> Inl err
      | Inr (t, rel) \<Rightarrow>
          if rootdir \<noteq> '''' \<and> t \<noteq> rootdir then Inl (ErrBundle (''entries under both '' @ rootdir @ '' and '' @ t))
          else if map_of files rel \<noteq> None then Inl (ErrBundle (rel @ '' appears twice''))
          else case te_Data e of
            Inl err \<Rightarrow> Inl (ErrBundle (''read '' @ te_Name e @ '': '' @ err))
          | Inr data \<Rightarrow> read_entries es t (AList.update rel data files))"

text \<open>The archive: an error of the gzip reader, or the entries and errors the tar reader yields.\<close>

definition ReadBundle :: "string + (string + tar_entry) list \<Rightarrow> seal_error + string \<times> files" where
  "ReadBundle r =
     (case r of Inl err \<Rightarrow> Inl (ErrBundle (''gzip: '' @ err)) | Inr es \<Rightarrow> read_entries es '''' [])"

section \<open>Reading back what was written\<close>

lemma hex_value_digit: "d < 16 \<Longrightarrow> hex_value (hex_digit d) = Some d"
  by (cases "d < 10") (simp_all add: hex_value_def hex_digit_def Let_def)

lemma hex_encode_Nil [simp]: "hex_encode [] = []"
  by (simp add: hex_encode_def)

lemma hex_encode_Cons:
  "hex_encode (c # s) = hex_digit (of_char c div 16) # hex_digit (of_char c mod 16) # hex_encode s"
  by (simp add: hex_encode_def Let_def)

lemma hex_halves: "of_char (c :: char) div 16 < (16::nat)" "of_char (c :: char) mod 16 < (16::nat)"
proof -
  have "of_char c < (256::nat)" by simp
  then show "of_char c div 16 < (16::nat)" by (intro less_mult_imp_div_less) simp
qed simp

lemma hex_decode_encode [simp]: "hex_decode (hex_encode s) = Some s"
proof (induction s)
  case (Cons c s)
  have "char_of (16 * (of_char c div 16) + of_char c mod (16::nat)) = c"
    by (simp only: mult_div_mod_eq char_of_char)
  then show ?case using Cons.IH hex_halves [of c] by (simp add: hex_encode_Cons hex_value_digit)
qed simp

lemma length_hex_encode [simp]: "length (hex_encode s) = 2 * length s"
  by (induction s) (simp_all add: hex_encode_Cons)

lemma hex_encode_chars: "c \<in> set (hex_encode s) \<Longrightarrow> hex_value c \<noteq> None"
proof (induction s)
  case (Cons x s)
  then show ?case using hex_halves [of x] by (auto simp: hex_encode_Cons hex_value_digit)
qed simp

lemma hex_no_space: "is_space c \<Longrightarrow> hex_value c = None" "hex_value newline = None" "hex_value CHR '' '' = None"
  by (auto simp: is_space_def hex_value_def newline_def)

lemma decodeSignature_Sign:
  assumes "length mac = sha256_Size"
  shows "decodeSignature ((Prefix @ hex_encode mac) @ [newline]) = Inr mac"
proof -
  let ?s = "Prefix @ hex_encode mac"
  have "\<not> is_space c" if "c \<in> set ?s" for c
  proof (cases "c \<in> set Prefix")
    case True
    then show ?thesis by (auto simp: Prefix_def is_space_def)
  next
    case False
    then show ?thesis using that hex_encode_chars [of c mac] hex_no_space(1) by auto
  qed
  then have "trim_left is_space (?s @ [newline]) = ?s @ [newline]" "trim_right is_space (?s @ [newline]) = ?s"
    by (auto simp: trim_left_def trim_right_def Prefix_def newline_def is_space_def dropWhile_eq_self_iff hd_append hd_rev)
  then have "trim_both is_space (?s @ [newline]) = ?s" by (simp add: trim_both_def)
  then show ?thesis using assms by (simp add: decodeSignature_def trim_prefix_def has_prefix_def)
qed

lemma scan_lines_good:
  assumes "list_all (\<lambda>l. newline \<notin> set l \<and> length l < maxScanTokenSize) ls"
  shows "scan_lines (concat (map (\<lambda>l. l @ [newline]) ls)) = (map drop_cr ls, False)"
  using assms
proof (induction ls)
  case Nil
  show ?case by (simp add: scan_lines.simps)
next
  case (Cons l ls)
  let ?tail = "concat (map (\<lambda>l. l @ [newline]) ls)"
  have "takeWhile (\<lambda>c. c \<noteq> newline) (l @ newline # ?tail) = l" "dropWhile (\<lambda>c. c \<noteq> newline) (l @ newline # ?tail) = newline # ?tail"
    using Cons.prems by (simp_all add: takeWhile_append dropWhile_append)
  then show ?case using Cons by (subst scan_lines.simps) (simp add: Let_def)
qed

lemma strings_Cut_at:
  assumes "CHR '' '' \<notin> set a"
  shows "strings_Cut ''  '' (a @ ''  '' @ b) = Some (a, b)"
  using assms
proof (induction a)
  case Nil
  show ?case by (subst strings_Cut.simps) (simp add: has_prefix_def)
next
  case (Cons c a)
  then show ?case by (subst strings_Cut.simps) (auto simp: has_prefix_def)
qed

lemma hex_encode_clean: "newline \<notin> set (hex_encode s)" "CHR '' '' \<notin> set (hex_encode s)"
  using hex_encode_chars [of newline s] hex_encode_chars [of "CHR '' ''" s] hex_no_space by auto

text \<open>A manifest as the list of its entries, and the lines that state them.\<close>

definition entry_line :: "string \<times> string \<Rightarrow> string" where
  "entry_line e = snd e @ ''  '' @ fst e"

definition good_entry :: "string \<times> string \<Rightarrow> bool" where
  "good_entry e \<longleftrightarrow> fst e \<noteq> '''' \<and> length (snd e) = 2 * sha256_Size \<and> CHR '' '' \<notin> set (snd e)"

lemma list_manifest_entries:
  assumes "list_all good_entry es" "distinct (map fst listed @ map fst es)"
  shows "list_manifest (map entry_line es) listed = Inr (listed @ es)"
  using assms
proof (induction es arbitrary: listed)
  case (Cons e es)
  obtain name digest where e: "e = (name, digest)" by fastforce
  have new: "name \<notin> fst ` set listed" using Cons.prems(2) e by auto
  then have "map_of listed name = None" by (simp add: map_of_eq_None_iff)
  moreover have "strings_Cut ''  '' (entry_line e) = Some (digest, name)"
    unfolding entry_line_def e fst_conv snd_conv using Cons.prems(1) by (intro strings_Cut_at) (simp add: good_entry_def e)
  ultimately have "list_manifest (map entry_line (e # es)) listed = list_manifest (map entry_line es) (listed @ [e])"
    using Cons.prems(1) by (simp add: good_entry_def e update_new [OF new])
  then show ?case using Cons.IH [of "listed @ [e]"] Cons.prems by simp
qed simp

text \<open>Names a manifest can carry: not empty, on one line, and short enough for one scan.\<close>

definition good_name :: "string \<Rightarrow> bool" where
  "good_name n \<longleftrightarrow> n \<noteq> '''' \<and> newline \<notin> set n \<and> last n \<noteq> CHR 0x0D \<and> length n + 66 < maxScanTokenSize"

definition manifest_entries :: "(string \<Rightarrow> string) \<Rightarrow> files \<Rightarrow> (string \<times> string) list" where
  "manifest_entries sha256 files =
     map (\<lambda>n. (n, hex_encode (sha256 (lookup_default '''' files n)))) (sealed_names files)"

lemma set_sealed_names: "n \<in> set (sealed_names files) \<longleftrightarrow> n \<in> fst ` set files \<and> n \<noteq> ManifestFile \<and> n \<noteq> FileName"
  by (simp add: sealed_names_def)

lemma manifest_read_back:
  assumes sha: "\<And>d. length (sha256 d) = sha256_Size" and d: "distinct (map fst files)"
    and names: "\<And>n. n \<in> set (sealed_names files) \<Longrightarrow> good_name n"
  shows "\<exists>ls. scan_lines (Manifest sha256 files) = (ls, False) \<and> list_manifest ls [] = Inr (manifest_entries sha256 files)"
proof -
  let ?es = "manifest_entries sha256 files"
  have "Manifest sha256 files = concat (map (\<lambda>l. l @ [newline]) (map entry_line ?es))"
    by (simp add: Manifest_def manifest_line_def [abs_def] manifest_entries_def entry_line_def comp_def)
  moreover have "list_all (\<lambda>l. newline \<notin> set l \<and> length l < maxScanTokenSize) (map entry_line ?es)"
    using names hex_encode_clean(1)
    by (fastforce simp: list_all_iff manifest_entries_def entry_line_def good_name_def sha sha256_Size_def newline_def)
  ultimately have "scan_lines (Manifest sha256 files) = (map drop_cr (map entry_line ?es), False)"
    using scan_lines_good by metis
  moreover have "map drop_cr (map entry_line ?es) = map entry_line ?es"
    using names by (auto simp: manifest_entries_def entry_line_def drop_cr_def good_name_def)
  moreover have "list_manifest (map entry_line ?es) [] = Inr ?es"
  proof -
    have "list_all good_entry ?es"
      using names hex_encode_clean(2)
      by (auto simp: list_all_iff manifest_entries_def good_entry_def good_name_def sha)
    moreover have "distinct (map fst ?es)" using d by (simp add: manifest_entries_def comp_def sealed_names_def)
    ultimately show ?thesis using list_manifest_entries [of ?es "[]"] by simp
  qed
  ultimately show ?thesis by metis
qed


section \<open>Tampering\<close>

text \<open>What separates two file maps outside the manifest and its signature, as the verifier words it.\<close>

definition tampering :: "(string \<Rightarrow> string) \<Rightarrow> files \<Rightarrow> files \<Rightarrow> string set" where
  "tampering sha256 fs gs =
     {''missing '' @ n | n. n \<notin> {ManifestFile, FileName} \<and> map_of fs n \<noteq> None \<and> map_of gs n = None} \<union>
     {''altered '' @ n | n a b. n \<notin> {ManifestFile, FileName} \<and> map_of fs n = Some a \<and> map_of gs n = Some b
        \<and> sha256 a \<noteq> sha256 b} \<union>
     {''unlisted '' @ n | n. n \<notin> {ManifestFile, FileName} \<and> map_of fs n = None \<and> map_of gs n \<noteq> None}"

lemma map_of_manifest_entries:
  assumes "distinct (map fst fs)"
  shows "map_of (manifest_entries sha256 fs) n =
    (if n \<in> {ManifestFile, FileName} then None else map_option (\<lambda>d. hex_encode (sha256 d)) (map_of fs n))"
proof -
  have "map_of (map (\<lambda>n. (n, f n)) xs) n = (if n \<in> set xs then Some (f n) else None)" for f :: "string \<Rightarrow> string" and xs
    by (induction xs) auto
  then show ?thesis
    by (auto simp: manifest_entries_def set_sealed_names lookup_default_def map_of_eq_None_iff image_iff
        split: option.split dest: map_of_SomeD)
qed

lemma set_map_filter_Some: "set (List.map_filter f xs) = {y. \<exists>x \<in> set xs. f x = Some y}"
  by (force simp: List.map_filter_def)

lemma entry_problem_Some:
  "entry_problem sha256 gs (n, w) = Some p \<longleftrightarrow>
     map_of gs n = None \<and> p = ''missing '' @ n \<or>
     (\<exists>d. map_of gs n = Some d \<and> hex_encode (sha256 d) \<noteq> w \<and> p = ''altered '' @ n)"
  by (auto simp: entry_problem_def split: option.split)

lemma manifest_entries_iff:
  assumes "distinct (map fst fs)"
  shows "(n, w) \<in> set (manifest_entries sha256 fs) \<longleftrightarrow>
    n \<notin> {ManifestFile, FileName} \<and> (\<exists>a. map_of fs n = Some a \<and> w = hex_encode (sha256 a))"
proof -
  have "distinct (map fst (manifest_entries sha256 fs))"
    using assms by (simp add: manifest_entries_def comp_def sealed_names_def)
  then have "(n, w) \<in> set (manifest_entries sha256 fs) \<longleftrightarrow> map_of (manifest_entries sha256 fs) n = Some w" by simp
  then show ?thesis unfolding map_of_manifest_entries [OF assms] by auto
qed

lemma unlisted_names_iff:
  assumes "distinct (map fst fs)"
  shows "n \<in> set (unlisted_names (manifest_entries sha256 fs) gs) \<longleftrightarrow>
    n \<notin> {ManifestFile, FileName} \<and> map_of fs n = None \<and> map_of gs n \<noteq> None"
proof -
  have "n \<in> set (unlisted_names (manifest_entries sha256 fs) gs) \<longleftrightarrow>
      n \<in> fst ` set gs \<and> map_of (manifest_entries sha256 fs) n = None \<and> n \<notin> {ManifestFile, FileName}"
    by (simp add: unlisted_names_def)
  also have "n \<in> fst ` set gs \<longleftrightarrow> map_of gs n \<noteq> None" by (simp add: map_of_eq_None_iff)
  finally show ?thesis unfolding map_of_manifest_entries [OF assms] by auto
qed

lemma listed_problems:
  assumes "distinct (map fst fs)"
  shows "(\<exists>x \<in> set (manifest_entries sha256 fs). entry_problem sha256 gs x = Some p) \<longleftrightarrow>
    (\<exists>n. p = ''missing '' @ n \<and> n \<notin> {ManifestFile, FileName} \<and> map_of fs n \<noteq> None \<and> map_of gs n = None) \<or>
    (\<exists>n a b. p = ''altered '' @ n \<and> n \<notin> {ManifestFile, FileName} \<and> map_of fs n = Some a \<and> map_of gs n = Some b
       \<and> sha256 a \<noteq> sha256 b)"
proof -
  have hex: "hex_encode x = hex_encode y \<longleftrightarrow> x = y" for x y using hex_encode_inj by blast
  have "(\<exists>x \<in> set (manifest_entries sha256 fs). entry_problem sha256 gs x = Some p) \<longleftrightarrow>
      (\<exists>n w. (n, w) \<in> set (manifest_entries sha256 fs) \<and> entry_problem sha256 gs (n, w) = Some p)" by auto
  also have "\<dots> \<longleftrightarrow> (\<exists>n a. n \<notin> {ManifestFile, FileName} \<and> map_of fs n = Some a \<and>
      entry_problem sha256 gs (n, hex_encode (sha256 a)) = Some p)"
    unfolding manifest_entries_iff [OF assms] by blast
  also have "\<dots> \<longleftrightarrow> (\<exists>n. p = ''missing '' @ n \<and> n \<notin> {ManifestFile, FileName} \<and> map_of fs n \<noteq> None \<and> map_of gs n = None) \<or>
    (\<exists>n a b. p = ''altered '' @ n \<and> n \<notin> {ManifestFile, FileName} \<and> map_of fs n = Some a \<and> map_of gs n = Some b
       \<and> sha256 a \<noteq> sha256 b)"
    unfolding entry_problem_Some hex not_None_eq conj_disj_distribL ex_disj_distrib
    by (intro arg_cong2 [where f = "(\<or>)"]) (metis+)
  finally show ?thesis .
qed

lemma content_problems_set:
  assumes "distinct (map fst fs)"
  shows "set (content_problems sha256 (manifest_entries sha256 fs) gs) = tampering sha256 fs gs"
proof -
  have "{y. \<exists>x \<in> set (manifest_entries sha256 fs). entry_problem sha256 gs x = Some y} =
      {''missing '' @ n | n. n \<notin> {ManifestFile, FileName} \<and> map_of fs n \<noteq> None \<and> map_of gs n = None} \<union>
      {''altered '' @ n | n a b. n \<notin> {ManifestFile, FileName} \<and> map_of fs n = Some a \<and> map_of gs n = Some b \<and> sha256 a \<noteq> sha256 b}"
    unfolding listed_problems [OF assms] by (rule Collect_disj_eq)
  moreover have "set (map (\<lambda>name. ''unlisted '' @ name) (unlisted_names (manifest_entries sha256 fs) gs)) =
      {''unlisted '' @ n | n. n \<notin> {ManifestFile, FileName} \<and> map_of fs n = None \<and> map_of gs n \<noteq> None}"
    unfolding set_map image_def Bex_def unlisted_names_iff [OF assms] by blast
  ultimately show ?thesis unfolding content_problems_def set_sort set_append set_map_filter_Some tampering_def by simp
qed

lemma Bundle_Inr:
  assumes "Bundle sha256 hmac_sha256 fs key = Inr (sig, fs')"
  shows "key \<noteq> ''''" "sig = Prefix @ hex_encode (hmac_sha256 key (Manifest sha256 fs))"
    "map_of fs' ManifestFile = Some (Manifest sha256 fs)" "map_of fs' FileName = Some (sig @ [newline])"
    "n \<notin> {ManifestFile, FileName} \<Longrightarrow> map_of fs' n = map_of fs n"
  using assms by (auto simp: Bundle_def Sign_def Let_def ManifestFile_def FileName_def split: sum.splits if_splits)

lemma verify_sealed:
  assumes sha: "\<And>d. length (sha256 d) = sha256_Size" and mac: "\<And>k d. length (hmac_sha256 k d) = sha256_Size"
    and fs: "distinct (map fst fs)" "\<And>n. n \<in> set (sealed_names fs) \<Longrightarrow> good_name n"
    and seal: "Bundle sha256 hmac_sha256 fs key = Inr (sig, fs')"
    and gs: "map_of gs ManifestFile = map_of fs' ManifestFile" "map_of gs FileName = map_of fs' FileName"
  shows "VerifyBundle sha256 hmac_sha256 gs key =
    (let problems = content_problems sha256 (manifest_entries sha256 fs) gs
     in if problems = [] then None else Some (ErrContents problems))"
proof -
  note b = Bundle_Inr [OF seal]
  have "\<exists>ls. scan_lines (Manifest sha256 fs) = (ls, False) \<and> list_manifest ls [] = Inr (manifest_entries sha256 fs)"
    by (rule manifest_read_back) (use sha fs in auto)
  then obtain ls where "scan_lines (Manifest sha256 fs) = (ls, False)" "list_manifest ls [] = Inr (manifest_entries sha256 fs)"
    by blast
  then have "CheckManifest sha256 (Manifest sha256 fs) gs =
      (let problems = content_problems sha256 (manifest_entries sha256 fs) gs
       in if problems = [] then None else Some (ErrContents problems))"
    by (simp add: CheckManifest_def Let_def)
  moreover have "Verify hmac_sha256 (Manifest sha256 fs) (sig @ [newline]) key = None"
    using b(1) decodeSignature_Sign [OF mac] by (simp add: Verify_def b(2))
  ultimately show ?thesis by (simp add: VerifyBundle_def gs b(3,4))
qed


text \<open>A bundle verifies under the key it was sealed with, for every set of files whose names fit
  on a line of the manifest; without a key sealing fails.\<close>

lemma seal_roundtrip:
  assumes "\<And>d. length (sha256 d) = 32" "\<And>k d. length (hmac_sha256 k d) = 32"
    and "distinct (map fst fs)" "\<And>n. n \<in> set (sealed_names fs) \<Longrightarrow> good_name n"
  shows "case Bundle sha256 hmac_sha256 fs key of
      Inl e \<Rightarrow> key = '''' \<and> e = ErrMissingKey
    | Inr (sig, fs') \<Rightarrow> VerifyBundle sha256 hmac_sha256 fs' key = None"
proof (cases "Bundle sha256 hmac_sha256 fs key")
  case (Inl e)
  then show ?thesis by (auto simp: Bundle_def Sign_def Let_def split: if_splits)
next
  case (Inr p)
  obtain sig fs' where p: "p = (sig, fs')" by fastforce
  note b = Bundle_Inr [OF Inr [unfolded p]]
  have "VerifyBundle sha256 hmac_sha256 fs' key =
      (let problems = content_problems sha256 (manifest_entries sha256 fs) fs'
       in if problems = [] then None else Some (ErrContents problems))"
    by (rule verify_sealed [where sig = sig and fs' = fs']) (use assms Inr p in \<open>simp_all add: sha256_Size_def\<close>)
  moreover have "tampering sha256 fs fs' = {}" using b(5) by (auto simp: tampering_def)
  ultimately show ?thesis
    using Inr p content_problems_set [OF assms(3), of sha256 fs'] by (simp add: Let_def)
qed

definition pad_hash :: "string \<Rightarrow> string" where
  "pad_hash d = take 32 (d @ replicate 32 CHR ''0'')"

definition sample_files :: files where
  "sample_files = [(''report.json'', ''{}''), (''METADATA.txt'', ''scan'')]"

lemma pad_hash_length: "length (pad_hash d) = 32"
  by (simp add: pad_hash_def)

lemma sample_names: "n \<in> set (sealed_names sample_files) \<Longrightarrow> good_name n"
  by (auto simp: set_sealed_names sample_files_def good_name_def newline_def maxScanTokenSize_def)

lemma seal_roundtrip_instance:
  "case Bundle pad_hash (\<lambda>k d. pad_hash (k @ d)) sample_files ''key'' of
     Inl e \<Rightarrow> False | Inr (sig, fs') \<Rightarrow> VerifyBundle pad_hash (\<lambda>k d. pad_hash (k @ d)) fs' ''key'' = None"
  using seal_roundtrip [of pad_hash "\<lambda>k d. pad_hash (k @ d)" sample_files "''key''", OF pad_hash_length pad_hash_length _ sample_names]
  by (auto simp: sample_files_def split: sum.splits)


section \<open>Laws of paths\<close>

lemma split_slash_nonempty [simp]: "split_slash p \<noteq> []"
  by (induction p) (auto split: list.split)

lemma join_split [simp]: "strings_Join (split_slash p) ''/'' = p"
proof (induction p)
  case (Cons c p)
  obtain e es where s: "split_slash p = e # es" by (cases "split_slash p") simp_all
  have "strings_Join ((c # e) # es) ''/'' = c # strings_Join (e # es) ''/''" by (cases es) simp_all
  then show ?case using Cons.IH s by simp
qed simp

lemma split_slash_append: "split_slash (a @ ''/'' @ b) = split_slash a @ split_slash b"
  by (induction a) (auto split: list.split)

lemma split_slash_single: "CHR ''/'' \<notin> set a \<Longrightarrow> split_slash a = [a]"
  by (induction a) auto

lemma split_slash_elements: "e \<in> set (split_slash p) \<Longrightarrow> CHR ''/'' \<notin> set e"
  by (induction p arbitrary: e) (auto split: list.splits if_splits)

lemma split_join:
  "out \<noteq> [] \<Longrightarrow> (\<And>e. e \<in> set out \<Longrightarrow> CHR ''/'' \<notin> set e) \<Longrightarrow> split_slash (strings_Join out ''/'') = out"
proof (induction out "''/''" rule: strings_Join.induct)
  case (3 x y ys)
  have "split_slash (strings_Join (x # y # ys) ''/'') = split_slash x @ split_slash (strings_Join (y # ys) ''/'')"
    using split_slash_append [of x "strings_Join (y # ys) ''/''"] by simp
  then show ?case using 3 by (simp add: split_slash_single)
qed (simp_all add: split_slash_single)

text \<open>A path of proper elements is clean.\<close>

definition proper :: "string \<Rightarrow> bool" where
  "proper p \<longleftrightarrow> list_all (\<lambda>e. e \<noteq> '''' \<and> e \<noteq> ''.'' \<and> e \<noteq> ''..'') (split_slash p)"

lemma push_proper:
  "list_all (\<lambda>e. e \<noteq> '''' \<and> e \<noteq> ''.'' \<and> e \<noteq> ''..'') es \<Longrightarrow> foldl (push_element rooted) out es = out @ es"
  by (induction es arbitrary: out) (simp_all add: push_element_def)

lemma proper_nonempty: "proper p \<Longrightarrow> p \<noteq> [] \<and> \<not> path_IsAbs p"
  by (cases p) (auto simp: proper_def path_IsAbs_def has_prefix_def)

lemma proper_clean: "proper p \<Longrightarrow> path_Clean p = p"
  using proper_nonempty [of p] push_proper [of "split_slash p" False "[]"]
  by (simp add: path_Clean_def proper_def Let_def)

lemma proper_append: "proper (a @ ''/'' @ b) \<longleftrightarrow> proper a \<and> proper b"
  unfolding proper_def split_slash_append by simp

lemma cut_slash: "CHR ''/'' \<notin> set a \<Longrightarrow> strings_Cut ''/'' (a @ ''/'' @ b) = Some (a, b)"
proof (induction a)
  case Nil
  show ?case by (subst strings_Cut.simps) (simp add: has_prefix_def)
next
  case (Cons c a)
  then show ?case by (subst strings_Cut.simps) (auto simp: has_prefix_def)
qed

lemma strings_Cut_Some: "strings_Cut sep s = Some (a, b) \<Longrightarrow> s = a @ sep @ b"
proof (induction s arbitrary: a)
  case Nil
  then show ?case by (subst (asm) strings_Cut.simps) (auto simp: has_prefix_iff split: if_splits)
next
  case (Cons c s)
  show ?case
  proof (cases "has_prefix (c # s) sep")
    case True
    then show ?thesis using Cons.prems by (subst (asm) strings_Cut.simps) (auto simp: has_prefix_iff)
  next
    case False
    then obtain a' where "strings_Cut sep s = Some (a', b)" "a = c # a'"
      using Cons.prems by (subst (asm) strings_Cut.simps) auto
    then show ?thesis using Cons.IH by simp
  qed
qed

lemma proper_safe:
  assumes "proper (a @ ''/'' @ b)"
  shows "\<not> has_prefix (a @ ''/'' @ b) ''../''" "a @ ''/'' @ b \<noteq> ''..''"
proof -
  show "\<not> has_prefix (a @ ''/'' @ b) ''../''"
  proof
    assume "has_prefix (a @ ''/'' @ b) ''../''"
    then obtain t where t: "a @ ''/'' @ b = ''..'' @ ''/'' @ t" by (auto simp: has_prefix_iff)
    have "''..'' \<in> set (split_slash (''..'' @ ''/'' @ t))" unfolding split_slash_append by simp
    then show False using assms unfolding t by (auto simp: proper_def list_all_iff)
  qed
  have "\<not> proper ''..''" by (simp add: proper_def)
  then show "a @ ''/'' @ b \<noteq> ''..''" using assms by metis
qed

definition bundle_entry :: "string \<Rightarrow> files \<Rightarrow> string \<Rightarrow> tar_entry" where
  "bundle_entry rootdir fs name =
     \<lparr>te_Name = path_Join [rootdir, name], te_Type = TypeReg, te_Data = Inr (lookup_default '''' fs name)\<rparr>"

lemma bundle_entry_path:
  assumes "proper rootdir" "CHR ''/'' \<notin> set rootdir" "proper n"
  shows "entry_path (bundle_entry rootdir fs n) = Inr (rootdir, n)"
proof -
  have p: "proper (rootdir @ ''/'' @ n)" using assms(1,3) by (simp only: proper_append)
  then have c: "path_Clean (rootdir @ ''/'' @ n) = rootdir @ ''/'' @ n" by (rule proper_clean)
  then have j: "path_Join [rootdir, n] = rootdir @ ''/'' @ n"
    using proper_nonempty [OF assms(1)] proper_nonempty [OF assms(3)] by (simp add: path_Join_def)
  show ?thesis
    unfolding entry_path_def Let_def bundle_entry_def tar_entry.select_convs j c
    using proper_safe [OF p] proper_nonempty [OF p] cut_slash [OF assms(2), of n] by simp
qed

lemma read_bundle_entries:
  assumes r: "proper rootdir" "CHR ''/'' \<notin> set rootdir"
  shows "distinct (map fst files @ ns) \<Longrightarrow> rt = '''' \<or> rt = rootdir \<Longrightarrow> (\<And>n. n \<in> set ns \<Longrightarrow> proper n) \<Longrightarrow>
    read_entries (map Inr (map (bundle_entry rootdir fs) ns)) rt files =
      (if rt = '''' \<and> ns = [] then Inl (ErrBundle ''no files'')
       else Inr (rootdir, files @ map (\<lambda>n. (n, lookup_default '''' fs n)) ns))"
proof (induction ns arbitrary: rt files)
  case (Cons n ns)
  have new: "n \<notin> fst ` set files" using Cons.prems(1) by auto
  then have "map_of files n = None" by (simp add: map_of_eq_None_iff)
  moreover have "te_Type (bundle_entry rootdir fs n) = TypeReg" "te_Data (bundle_entry rootdir fs n) = Inr (lookup_default '''' fs n)"
    by (simp_all add: bundle_entry_def)
  ultimately have "read_entries (map Inr (map (bundle_entry rootdir fs) (n # ns))) rt files =
      read_entries (map Inr (map (bundle_entry rootdir fs) ns)) rootdir (files @ [(n, lookup_default '''' fs n)])"
    using bundle_entry_path [OF r, of n fs] Cons.prems(2,3) update_new [OF new] by auto
  then show ?case using Cons.IH [of "files @ [(n, lookup_default '''' fs n)]" rootdir] Cons.prems proper_nonempty [OF r(1)] by simp
qed auto

lemma sorted_files:
  assumes "distinct (map fst fs)"
  shows "map (\<lambda>n. (n, lookup_default '''' fs n)) (sort (map fst fs)) = sort_key fst fs"
proof -
  have "sort (map fst fs) = map fst (sort_key fst fs)"
    by (rule properties_for_sort) simp_all
  moreover have "map (\<lambda>n. (n, lookup_default '''' fs n)) (map fst xs) = xs" if "set xs \<subseteq> set fs" for xs
    using that assms by (induction xs) (auto simp: lookup_default_def)
  ultimately show ?thesis by simp
qed

text \<open>An archive survives being written and read back: reading the entries of a bundle returns its
  root directory and its files in path order, for a root that is one path element and names made of
  proper elements.\<close>

lemma archive_roundtrip:
  assumes "fs \<noteq> []" "distinct (map fst fs)" "proper rootdir" "CHR ''/'' \<notin> set rootdir"
    and "\<And>n. n \<in> fst ` set fs \<Longrightarrow> proper n"
  shows "ReadBundle (Inr (map Inr (WriteBundle rootdir fs))) = Inr (rootdir, sort_key fst fs)"
proof -
  have "WriteBundle rootdir fs = map (bundle_entry rootdir fs) (sort (map fst fs))"
    by (simp add: WriteBundle_def bundle_entry_def)
  moreover have "read_entries (map Inr (map (bundle_entry rootdir fs) (sort (map fst fs)))) '''' [] =
      Inr (rootdir, map (\<lambda>n. (n, lookup_default '''' fs n)) (sort (map fst fs)))"
  proof -
    have "sort (map fst fs) \<noteq> []" using assms(1) by (metis list.map_disc_iff set_empty set_sort)
    then show ?thesis using read_bundle_entries [OF assms(3,4), of "[]" "sort (map fst fs)" "''''" fs] assms(2,5) by auto
  qed
  ultimately show ?thesis by (simp add: ReadBundle_def sorted_files [OF assms(2)])
qed

lemma archive_roundtrip_instance:
  "ReadBundle (Inr (map Inr (WriteBundle ''scan-7'' sample_files))) =
     Inr (''scan-7'', [(''METADATA.txt'', ''scan''), (''report.json'', ''{}'')])"
proof -
  have "ReadBundle (Inr (map Inr (WriteBundle ''scan-7'' sample_files))) = Inr (''scan-7'', sort_key fst sample_files)"
    by (rule archive_roundtrip) (auto simp: sample_files_def proper_def)
  moreover have "sort_key fst sample_files = [(''METADATA.txt'', ''scan''), (''report.json'', ''{}'')]" by code_simp
  ultimately show ?thesis by simp
qed

section \<open>Nothing in an archive hides from verification\<close>

text \<open>Cleaning leaves parent elements at the front only.\<close>

definition parents_first :: "string list \<Rightarrow> bool" where
  "parents_first es \<longleftrightarrow> (\<exists>k rest. es = replicate k ''..'' @ rest \<and> ''..'' \<notin> set rest)"

lemma push_parents_first:
  assumes "parents_first out"
  shows "parents_first (push_element False out e)"
proof -
  obtain k rest where out: "out = replicate k ''..'' @ rest" "''..'' \<notin> set rest"
    using assms by (auto simp: parents_first_def)
  show ?thesis
  proof (cases "e = ''..''")
    case False
    then have "push_element False out e = out \<or> push_element False out e = replicate k ''..'' @ (rest @ [e])"
      by (simp add: push_element_def out(1))
    moreover have "parents_first (replicate k ''..'' @ (rest @ [e]))"
      unfolding parents_first_def using out(2) False by (intro exI [of _ k] exI [of _ "rest @ [e]"]) simp
    ultimately show ?thesis using assms by metis
  next
    case True
    show ?thesis
    proof (cases "rest = []")
      case True
      then have "push_element False out e = replicate (Suc k) ''..''"
        using \<open>e = ''..''\<close> out(1) by (cases k) (simp_all add: push_element_def replicate_append_same)
      then show ?thesis unfolding parents_first_def by (intro exI [of _ "Suc k"] exI [of _ "[]"]) simp
    next
      case False
      have "last rest \<noteq> ''..''" using last_in_set [OF False] out(2) by metis
      then have "last out \<noteq> ''..''" "out \<noteq> []" using out(1) False by simp_all
      then have "push_element False out e = replicate k ''..'' @ butlast rest"
        using \<open>e = ''..''\<close> out(1) False by (simp add: push_element_def butlast_append)
      then show ?thesis using out(2) in_set_butlastD by (fastforce simp: parents_first_def)
    qed
  qed
qed

lemma push_elements_sub: "set (foldl (push_element rooted) out es) \<subseteq> set out \<union> set es"
proof (induction es arbitrary: out)
  case (Cons e es)
  have "set (push_element rooted out e) \<subseteq> insert e (set out)"
    by (auto simp: push_element_def dest: in_set_butlastD)
  then show ?case using Cons.IH [of "push_element rooted out e"] by auto
qed simp

lemma safe_no_parent:
  assumes clean: "path_Clean p = p" "\<not> path_IsAbs p" "\<not> has_prefix p ''../''" "p \<noteq> ''..''" and p: "p \<noteq> ''.''"
  shows "''..'' \<notin> set (split_slash p)"
proof -
  define out where "out = foldl (push_element False) [] (split_slash p)"
  have pf: "parents_first out"
  proof -
    have "parents_first (foldl (push_element False) es0 es)" if "parents_first es0" for es0 es
      using that by (induction es arbitrary: es0) (simp_all add: push_parents_first)
    then show ?thesis unfolding out_def by (simp add: parents_first_def)
  qed
  have join: "strings_Join out ''/'' = p"
    using clean(1,2) p by (auto simp: path_Clean_def Let_def out_def split: if_splits)
  have ne: "out \<noteq> []" using join clean p by (auto simp: path_Clean_def Let_def out_def)
  have "CHR ''/'' \<notin> set e" if "e \<in> set out" for e
    using that push_elements_sub [of False "[]" "split_slash p"] split_slash_elements by (auto simp: out_def)
  then have sp: "split_slash p = out" using split_join [OF ne] join by metis
  obtain k rest where k: "out = replicate k ''..'' @ rest" "''..'' \<notin> set rest" using pf by (auto simp: parents_first_def)
  have "k = 0"
  proof (rule ccontr)
    assume "k \<noteq> 0"
    then obtain tl where tl: "out = ''..'' # tl" using k(1) by (cases k) auto
    then show False using join clean(3,4) by (cases tl) (auto simp: has_prefix_def)
  qed
  then show ?thesis using k sp by simp
qed

lemma entry_path_Inr:
  assumes "entry_path e = Inr (t, rel)"
  shows "te_Type e = TypeReg \<and> te_Name e = t @ ''/'' @ rel \<and> t \<noteq> '''' \<and> ''..'' \<notin> set (split_slash (te_Name e))"
proof -
  have c: "te_Type e = TypeReg" "path_Clean (te_Name e) = te_Name e" "\<not> path_IsAbs (te_Name e)"
    "\<not> has_prefix (te_Name e) ''../''" "te_Name e \<noteq> ''..''" "strings_Cut ''/'' (te_Name e) = Some (t, rel)"
    using assms by (auto simp: entry_path_def Let_def split: if_splits option.splits)
  have n: "te_Name e = t @ ''/'' @ rel" using c(6) by (rule strings_Cut_Some)
  moreover have "t \<noteq> ''''" using c(3) n by (auto simp: path_IsAbs_def has_prefix_def)
  moreover have "te_Name e \<noteq> ''.''" using n by (cases t) auto
  ultimately show ?thesis using c(1) safe_no_parent [OF c(2-5)] by simp
qed

text \<open>The regular entries of an archive with their data.\<close>

definition regular :: "(string + tar_entry) list \<Rightarrow> (string \<times> (string + string)) list" where
  "regular es = List.map_filter (\<lambda>x. case x of Inl _ \<Rightarrow> None
     | Inr e \<Rightarrow> if te_Type e = TypeReg then Some (te_Name e, te_Data e) else None) es"

lemma regular_simps [simp]:
  "regular [] = []" "regular (Inl err # es) = regular es"
  "regular (Inr e # es) = (if te_Type e = TypeReg then [(te_Name e, te_Data e)] else []) @ regular es"
  by (simp_all add: regular_def List.map_filter_simps)

lemma read_entries_complete:
  assumes "read_entries es rt files = Inr (rootdir, out)" "distinct (map fst files)"
  shows "rootdir \<noteq> '''' \<and> (rt \<noteq> '''' \<longrightarrow> rootdir = rt) \<and> distinct (map fst out) \<and>
    list_all (\<lambda>x. case x of Inl _ \<Rightarrow> False | Inr e \<Rightarrow> te_Type e = TypeReg \<or> te_Type e = TypeDir) es \<and>
    (\<exists>new. out = files @ new \<and> regular es = map (\<lambda>(rel, d). (rootdir @ ''/'' @ rel, Inr d)) new \<and>
      list_all (\<lambda>(rel, d). ''..'' \<notin> set (split_slash (rootdir @ ''/'' @ rel))) new)"
  using assms
proof (induction es rt files rule: read_entries.induct)
  case (3 e es rt files)
  show ?case
  proof (cases "te_Type e = TypeDir")
    case True
    then show ?thesis using 3 by simp
  next
    case False
    then obtain t rel data where e: "entry_path e = Inr (t, rel)" "rt = '''' \<or> t = rt" "map_of files rel = None" "te_Data e = Inr data"
      and rest: "read_entries es t (AList.update rel data files) = Inr (rootdir, out)"
      using 3(3) by (auto split: sum.splits prod.splits if_splits)
    have new: "AList.update rel data files = files @ [(rel, data)]" using e(3) by (intro update_new) (simp add: map_of_eq_None_iff)
    have d: "distinct (map fst (files @ [(rel, data)]))" using 3(4) e(3) by (simp add: map_of_eq_None_iff)
    note p = entry_path_Inr [OF e(1)]
    have IH: "rootdir \<noteq> '''' \<and> (t \<noteq> '''' \<longrightarrow> rootdir = t) \<and> distinct (map fst out) \<and>
      list_all (\<lambda>x. case x of Inl _ \<Rightarrow> False | Inr e \<Rightarrow> te_Type e = TypeReg \<or> te_Type e = TypeDir) es \<and>
      (\<exists>new. out = (files @ [(rel, data)]) @ new \<and> regular es = map (\<lambda>(rel, d). (rootdir @ ''/'' @ rel, Inr d)) new \<and>
        list_all (\<lambda>(rel, d). ''..'' \<notin> set (split_slash (rootdir @ ''/'' @ rel))) new)"
      using 3(2) [OF False e(1) refl] e rest d new by auto
    then obtain nw where nw: "out = files @ ((rel, data) # nw)" "regular es = map (\<lambda>(rel, d). (rootdir @ ''/'' @ rel, Inr d)) nw"
      "list_all (\<lambda>(rel, d). ''..'' \<notin> set (split_slash (rootdir @ ''/'' @ rel))) nw" by auto
    then show ?thesis using IH p e by (auto intro!: exI [of _ "(rel, data) # nw"])
  qed
qed (auto split: if_splits)

text \<open>Nothing in an archive hides from verification: when an archive is accepted it holds regular
  files and directories only, all files lie under one root and none climbs with a parent element,
  no path appears twice, and the files returned are all the regular entries with their data, in the
  order of the archive.\<close>

lemma ReadBundle_complete:
  assumes "ReadBundle (Inr es) = Inr (rootdir, fs)"
  shows "rootdir \<noteq> '''' \<and> distinct (map fst fs) \<and>
    list_all (\<lambda>x. case x of Inl _ \<Rightarrow> False | Inr e \<Rightarrow> te_Type e = TypeReg \<or> te_Type e = TypeDir) es \<and>
    regular es = map (\<lambda>(rel, d). (rootdir @ ''/'' @ rel, Inr d)) fs \<and>
    list_all (\<lambda>(rel, d). ''..'' \<notin> set (split_slash (rootdir @ ''/'' @ rel))) fs"
  using read_entries_complete [of es "''''" "[]" rootdir fs] assms by (simp add: ReadBundle_def)

lemma ReadBundle_complete_instance:
  "regular (map Inr (WriteBundle ''scan-7'' [(''a/b'', ''1'')])) = [(''scan-7/a/b'', Inr ''1'')]"
proof -
  have "ReadBundle (Inr (map Inr (WriteBundle ''scan-7'' [(''a/b'', ''1'')]))) = Inr (''scan-7'', [(''a/b'', ''1'')])"
    by code_simp
  from ReadBundle_complete [OF this] show ?thesis by simp
qed

end
