(* ===== verification/Order_Laws.thy ===== *)
theory Order_Laws
  imports Build
begin

text \<open>
  Which parts of a report depend on the order in which Go ranges over a map. The majority version does
  not; the clusters a namespace finding names and the group a cluster is compared with do. The last
  section shows what the tag of a cluster outside the scan does to those inside it.
\<close>

section \<open>The majority version\<close>

definition majority_state :: "(string \<times> int) list \<Rightarrow> string \<times> int \<times> bool" where
  "majority_state xs = foldl majority_step ('''', 0, False) xs"

definition at_most :: "int \<Rightarrow> (string \<times> int) list \<Rightarrow> (string \<times> int) list" where
  "at_most n xs = filter (\<lambda>x. snd x = n) xs"

text \<open>The state after a prefix: its largest count, and the first key with it, tied when another has it too.\<close>

definition majority_inv :: "(string \<times> int) list \<Rightarrow> string \<times> int \<times> bool \<Rightarrow> bool" where
  "majority_inv xs st \<longleftrightarrow>
     (case st of (majority, most, tied) \<Rightarrow>
        0 \<le> most \<and> list_all (\<lambda>x. snd x \<le> most) xs \<and> tied = (1 < length (at_most most xs)) \<and>
        (if xs = [] then majority = '''' \<and> most = 0 else at_most most xs \<noteq> [] \<and> majority = fst (hd (at_most most xs))))"

lemma majority_inv_step:
  assumes "majority_inv xs st" "0 < snd x"
  shows "majority_inv (xs @ [x]) (majority_step st x)"
proof -
  obtain majority most tied where st: "st = (majority, most, tied)" by (rule prod_cases3)
  have le: "list_all (\<lambda>x. snd x \<le> most) xs" using assms(1) by (simp add: majority_inv_def st)
  consider (new) "snd x > most" | (tie) "snd x = most" | (less) "snd x < most" by linarith
  then show ?thesis
  proof cases
    case new
    then have "at_most (snd x) xs = []" using le by (auto simp: at_most_def list_all_iff filter_empty_conv)
    then show ?thesis using assms new
      by (auto simp: majority_inv_def st majority_step_def at_most_def list_all_iff split_beta)
  next
    case tie
    then have "xs \<noteq> []" using assms by (auto simp: majority_inv_def st)
    then show ?thesis using assms tie
      by (cases "at_most most xs") (auto simp: majority_inv_def st majority_step_def at_most_def split_beta)
  next
    case less
    then have "xs \<noteq> []" using assms by (auto simp: majority_inv_def st)
    then show ?thesis using assms less by (auto simp: majority_inv_def st majority_step_def at_most_def split_beta)
  qed
qed

lemma majority_state_inv: "list_all (\<lambda>x. 0 < snd x) xs \<Longrightarrow> majority_inv xs (majority_state xs)"
proof (induction xs rule: rev_induct)
  case Nil
  show ?case by (simp add: majority_inv_def majority_state_def at_most_def)
next
  case (snoc x xs)
  then show ?case using majority_inv_step [of xs "majority_state xs" x] by (simp add: majority_state_def)
qed

lemma majority_agrees:
  assumes "majority_inv xs (m, n, t)" "majority_inv ys (m', n', t')" "mset xs = mset ys"
  shows "n' = n \<and> t' = t \<and> (\<not> t \<longrightarrow> m' = m)"
proof -
  have len: "length (at_most k xs) = length (at_most k ys)" for k
    using arg_cong [OF assms(3), of "\<lambda>M. size (filter_mset (\<lambda>x. snd x = k) M)"]
    by (simp add: at_most_def flip: mset_filter)
  have set: "set xs = set ys" using assms(3) by (rule mset_eq_setD)
  have empty: "xs = [] \<longleftrightarrow> ys = []" using set by (metis set_empty)
  have n: "n' = n"
  proof (cases "xs = []")
    case False
    then have "at_most n xs \<noteq> []" "at_most n' ys \<noteq> []" using assms(1,2) empty by (auto simp: majority_inv_def)
    then have "\<exists>x \<in> set xs. snd x = n" "\<exists>y \<in> set ys. snd y = n'" by (auto simp: at_most_def filter_empty_conv)
    then show ?thesis using assms(1,2) set by (fastforce simp: majority_inv_def list_all_iff)
  qed (use assms empty in \<open>simp add: majority_inv_def\<close>)
  have t: "t' = t" using assms(1,2) len n by (simp add: majority_inv_def)
  have "m' = m" if "\<not> t"
  proof (cases "xs = []")
    case False
    then have ne: "at_most n xs \<noteq> []" "at_most n ys \<noteq> []" "ys \<noteq> []" using assms(1,2) empty n by (auto simp: majority_inv_def)
    have one: "length (at_most n xs) = 1" "length (at_most n ys) = 1"
      using that assms(1) len [of n] ne by (auto simp: majority_inv_def Suc_le_eq length_Suc_conv neq_Nil_conv not_less)
    have "hd (at_most n ys) \<in> set (at_most n xs)" using ne(2) set hd_in_set [OF ne(2)] by (auto simp: at_most_def)
    then have "hd (at_most n ys) = hd (at_most n xs)" using one(1) by (auto simp: length_Suc_conv)
    then show ?thesis using assms(1,2) n False ne by (simp add: majority_inv_def)
  qed (use assms empty in \<open>simp add: majority_inv_def\<close>)
  then show ?thesis using n t by simp
qed

lemma map_incr_positive: "list_all (\<lambda>x. 0 < snd x) m \<Longrightarrow> list_all (\<lambda>x. 0 < snd x) (map_incr k m)"
proof -
  have upd: "list_all (\<lambda>x. 0 < snd x) m \<Longrightarrow> 0 < v \<Longrightarrow> list_all (\<lambda>x. 0 < snd x) (AList.update k v m)" for v :: int
    by (induction m) auto
  assume m: "list_all (\<lambda>x. 0 < snd x) m"
  have "0 \<le> lookup_default 0 m k" using m
    by (auto simp: lookup_default_def list_all_iff split: option.splits dest!: map_of_SomeD)
  then show ?thesis using upd [OF m] by (simp add: map_incr_def)
qed

lemma version_counts_positive: "list_all (\<lambda>x. 0 < snd x) (version_counts clusters versions)"
proof -
  have "list_all (\<lambda>x. 0 < snd x) m \<Longrightarrow> list_all (\<lambda>x. 0 < snd x)
      (foldl (\<lambda>counts c. case lookup_default '''' versions c of [] \<Rightarrow> counts | v \<Rightarrow> map_incr v counts) m clusters)" for m
    by (induction clusters arbitrary: m) (auto simp: map_incr_positive split: list.splits)
  then show ?thesis by (simp add: version_counts_def)
qed

lemma version_majority_order:
  assumes "\<And>m. mset (visit m) = mset m"
  shows "version_majority visit (version_counts clusters versions) = version_majority id (version_counts clusters versions)"
proof -
  let ?c = "version_counts clusters versions"
  have p: "list_all (\<lambda>x. 0 < snd x) (visit ?c)"
    using version_counts_positive [of clusters versions] mset_eq_setD [OF assms [of ?c]] by (simp add: list_all_iff)
  obtain m n t m' n' t' where s: "majority_state (visit ?c) = (m, n, t)" "majority_state ?c = (m', n', t')"
    by (metis prod_cases3)
  have "majority_inv (visit ?c) (m, n, t)" "majority_inv ?c (m', n', t')"
    using majority_state_inv [OF p] majority_state_inv [OF version_counts_positive, of clusters versions] by (simp_all add: s)
  then have "n' = n \<and> t' = t \<and> (\<not> t \<longrightarrow> m' = m)" using assms by (rule majority_agrees)
  then show ?thesis using s by (auto simp: version_majority_def majority_state_def)
qed

text \<open>The marks a version finding puts on clusters, and so their health, do not depend on the order in
  which Go ranges over the counts of the versions: a tie is judged the same whichever tied version is met
  first, and without a tie the majority is the only version with the largest count.\<close>

lemma versionFindings_order:
  assumes "\<And>m. mset (visit m) = mset m"
  shows "versionFindings visit r = versionFindings id r"
proof -
  have "versionMarks visit = versionMarks id"
    by (intro ext) (simp only: versionMarks_def version_majority_order [OF assms])
  then show ?thesis by (simp only: versionFindings_def)
qed

lemma versionFindings_order_instance: "versionFindings rev Report0 = versionFindings id Report0"
  by (rule versionFindings_order) simp

section \<open>Tied namespace counts\<close>

text \<open>Two of three clusters hold the smallest count, so which one the finding names is up to the map.\<close>

definition counted_report :: Report where
  "counted_report = Report0\<lparr>
     r_Clusters := [''a'', ''b'', ''c''],
     r_Sections := [(''namespaces'', \<lparr>sec_Uniform = False,
       sec_PerCluster = [(''a'', JObj [(''count'', JNum 1)]), (''b'', JObj [(''count'', JNum 1)]), (''c'', JObj [(''count'', JNum 9)])],
       sec_Divergences = []\<rparr>)]\<rparr>"

lemma namespace_tie:
  "map f_Affected (namespaceFindings id counted_report) = [[''a'', ''c'']]"
  "map f_Affected (namespaceFindings rev counted_report) = [[''b'', ''c'']]"
  by code_simp+

section \<open>Two groups of one cluster\<close>

definition busy_signals :: "float64 \<Rightarrow> clusterSignals" where
  "busy_signals x =
     \<lparr>sg_utilObs = observed, sg_utilGap = '''', sg_cpuPct = x, sg_memPct = x, sg_nodeCount = 3, sg_healthyNodes = 3,
      sg_memPressure = 0, sg_diskPressure = 0, sg_notReady = 0, sg_oomEvents = False, sg_schedFail = False\<rparr>"

text \<open>A cluster in two groups is compared with the group Go ranges over first: it deviates from one and
  not from the other.\<close>

lemma group_order:
  "has_prefix (group_deviation [(''idle'', [''a'', ''b'']), (''busy'', [''a'', ''c''])]
     [(''a'', busy_signals 60), (''b'', busy_signals 10), (''c'', busy_signals 61)] ''a'') ''Within normal range'' = False"
  "has_prefix (group_deviation [(''busy'', [''a'', ''c'']), (''idle'', [''a'', ''b''])]
     [(''a'', busy_signals 60), (''b'', busy_signals 10), (''c'', busy_signals 61)] ''a'') ''Within normal range'' = True"
  by code_simp+

section \<open>Tags of absent clusters\<close>

text \<open>Five clusters carry the tag and only two are in the scan, both in the one cohort the profiles show.
  The three absent ones count for the cohort with the empty name, which becomes the home of the tag, so
  both present clusters are reported as wrongly tagged.\<close>

definition stale_tags :: "(string, string) gomap" where
  "stale_tags = map (\<lambda>c. (c, ''prod'')) [''a'', ''b'', ''gone-1'', ''gone-2'', ''gone-3'']"

definition one_cohort :: "(string, string) gomap" where
  "one_cohort = map (\<lambda>c. (c, ''auto-1'')) [''a'', ''b'', ''c'', ''d'', ''e'', ''f'', ''g'', ''h'']"

lemma absent_clusters_decide:
  "dominant_cohorts one_cohort stale_tags = [(''prod'', '''')]"
  "map mc_Cluster (List.map_filter (mis_cohort one_cohort (dominant_cohorts one_cohort stale_tags)) stale_tags) = [''a'', ''b'']"
  by code_simp+

end
