(* ===== verification/Drift.thy ===== *)
theory Drift
  imports Norm_Detect
begin

text \<open>
  \<open>internal/report/drift.go\<close>: the ledger of the clusters that drifted over a run of scans, from the
  fleet-scope distributions of their reports. The keys of a Go map are visited in any order and the
  result is sorted on them, so they are kept here in the order of first appearance.
\<close>

section \<open>Definitions\<close>

definition maxDriftFields :: nat where "maxDriftFields = 5"

record ScanReport =
  sr_ID :: string
  sr_Report :: "Report option"

record FieldDrift =
  fd_Scanner :: string
  fd_Field :: string
  fd_ZBefore :: float64
  fd_ZAfter :: float64
  fd_Before :: string
  fd_After :: string

record FlagChange =
  fc_Scanner :: string
  fc_Field :: string
  fc_Scan :: string

record ClusterDrift =
  cd_Cluster :: string
  cd_Mass :: "float64 list"
  cd_MassBefore :: float64
  cd_MassAfter :: float64
  cd_MassDelta :: float64
  cd_Fields :: "FieldDrift list"
  cd_Gained :: "FlagChange list"
  cd_Lost :: "FlagChange list"

record Ledger =
  l_Scans :: "string list"
  l_Clusters :: "ClusterDrift list"

type_synonym fieldKey = "string \<times> string"
type_synonym fieldValues = "(fieldKey, (string, ClusterValue) gomap) gomap"

definition value_index :: "Distribution \<Rightarrow> (string, ClusterValue) gomap" where
  "value_index d = fold (\<lambda>v. AList.update (cv_Cluster v) v) (d_Values d) []"

definition fleetValues :: "Report option \<Rightarrow> fieldValues" where
  "fleetValues report =
     (case report of None \<Rightarrow> []
      | Some r \<Rightarrow> fold (\<lambda>d out. if d_Scope d \<noteq> NormScopeFleet then out
                      else AList.update (d_Scanner d, d_Field d) (value_index d) out) (r_Distributions r) [])"

definition value_at :: "fieldValues \<Rightarrow> fieldKey \<Rightarrow> string \<Rightarrow> ClusterValue option" where
  "value_at vals k cluster = map_of (lookup_default [] vals k) cluster"

definition valueText :: "ClusterValue \<Rightarrow> string" where
  "valueText v =
     (case cv_Number v of
        Some n \<Rightarrow> formatNum n
      | None \<Rightarrow> if cv_Text v \<noteq> '''' then cv_Text v
                else if length (cv_Missing v) > 0 then ''missing '' @ Itoa (int (length (cv_Missing v)))
                else Itoa (cv_Size v) @ '' members'')"

definition text_at :: "fieldValues \<Rightarrow> fieldKey \<Rightarrow> string \<Rightarrow> string" where
  "text_at vals k cluster = (case value_at vals k cluster of None \<Rightarrow> '''' | Some v \<Rightarrow> valueText v)"

definition z_at :: "fieldValues \<Rightarrow> fieldKey \<Rightarrow> string \<Rightarrow> float64" where
  "z_at vals k cluster = (case value_at vals k cluster of None \<Rightarrow> 0 | Some v \<Rightarrow> cv_Z v)"

definition flagged_value :: "ClusterValue \<Rightarrow> bool" where
  "flagged_value v \<longleftrightarrow> cv_Outlier v \<and> cv_Explained v = ''''"

definition flagged :: "fieldValues \<Rightarrow> fieldKey \<Rightarrow> string \<Rightarrow> bool" where
  "flagged vals k cluster \<longleftrightarrow> (case value_at vals k cluster of None \<Rightarrow> False | Some v \<Rightarrow> flagged_value v)"

definition moved_key :: "FieldDrift \<Rightarrow> float64 \<times> string \<times> string" where
  "moved_key fd = (- \<bar>fsub \<bar>fd_ZAfter fd\<bar> \<bar>fd_ZBefore fd\<bar>\<bar>, fd_Scanner fd, fd_Field fd)"

definition movedFields :: "fieldValues \<Rightarrow> fieldValues \<Rightarrow> string \<Rightarrow> FieldDrift list" where
  "movedFields before after cluster =
     take maxDriftFields (sort_key moved_key
       (map (\<lambda>k. \<lparr>fd_Scanner = fst k, fd_Field = snd k, fd_ZBefore = z_at before k cluster,
                  fd_ZAfter = z_at after k cluster, fd_Before = text_at before k cluster,
                  fd_After = text_at after k cluster\<rparr>)
         (filter (\<lambda>k. text_at before k cluster \<noteq> text_at after k cluster)
           (remdups (map fst before @ map fst after)))))"

text \<open>The loop that looks for the last scan at which a flag changed, from the newest scan down.\<close>

fun flip_loop :: "(nat \<Rightarrow> bool) \<Rightarrow> nat \<Rightarrow> nat \<Rightarrow> nat" where
  "flip_loop flag newest 0 = newest"
| "flip_loop flag newest (Suc i) = (if flag (Suc i) \<noteq> flag i then Suc i else flip_loop flag newest i)"

definition flag_change :: "ScanReport list \<Rightarrow> fieldValues list \<Rightarrow> string \<Rightarrow> fieldKey \<Rightarrow> FlagChange" where
  "flag_change scans vals cluster k =
     (let newest = length scans - 1
      in \<lparr>fc_Scanner = fst k, fc_Field = snd k,
          fc_Scan = sr_ID (scans ! flip_loop (\<lambda>i. flagged (vals ! i) k cluster) newest newest)\<rparr>)"

definition changed_flags :: "ScanReport list \<Rightarrow> fieldValues list \<Rightarrow> string \<Rightarrow> bool \<Rightarrow> FlagChange list" where
  "changed_flags scans vals cluster up =
     (let newest = length scans - 1; keys = remdups (concat (map (map fst) vals))
      in sort_key (\<lambda>fc. (fc_Scanner fc, fc_Field fc))
           (map (flag_change scans vals cluster)
             (filter (\<lambda>k. flagged (vals ! 0) k cluster \<noteq> flagged (vals ! newest) k cluster
                        \<and> flagged (vals ! newest) k cluster = up) keys)))"

definition flagChanges :: "ScanReport list \<Rightarrow> fieldValues list \<Rightarrow> string \<Rightarrow> FlagChange list \<times> FlagChange list" where
  "flagChanges scans vals cluster = (changed_flags scans vals cluster True, changed_flags scans vals cluster False)"

definition mass_in :: "string \<Rightarrow> ScanReport \<Rightarrow> float64" where
  "mass_in cluster s = (case sr_Report s of None \<Rightarrow> 0 | Some r \<Rightarrow> lookup_default 0 (r_DeviationMass r) cluster)"

definition drift_row :: "ScanReport list \<Rightarrow> fieldValues list \<Rightarrow> string \<Rightarrow> ClusterDrift" where
  "drift_row scans vals cluster =
     (let mass = map (mass_in cluster) scans; newest = length scans - 1;
          (gained, lost) = flagChanges scans vals cluster
      in \<lparr>cd_Cluster = cluster, cd_Mass = mass, cd_MassBefore = mass ! 0, cd_MassAfter = mass ! newest,
          cd_MassDelta = fsub (mass ! newest) (mass ! 0),
          cd_Fields = movedFields (vals ! 0) (vals ! newest) cluster, cd_Gained = gained, cd_Lost = lost\<rparr>)"

definition drifted :: "ClusterDrift \<Rightarrow> bool" where
  "drifted row \<longleftrightarrow> \<not> (cd_Fields row = [] \<and> cd_Gained row = [] \<and> cd_Lost row = [])"

definition drift_key :: "ClusterDrift \<Rightarrow> float64 \<times> int \<times> string" where
  "drift_key row = (- \<bar>cd_MassDelta row\<bar>, - int (length (cd_Gained row) + length (cd_Lost row)), cd_Cluster row)"

definition seen_clusters :: "ScanReport list \<Rightarrow> string list" where
  "seen_clusters scans =
     foldl (\<lambda>cs c. if c \<in> set cs then cs else cs @ [c]) []
       (concat (map (\<lambda>s. case sr_Report s of None \<Rightarrow> [] | Some r \<Rightarrow> r_Clusters r) scans))"

definition DriftLedger :: "ScanReport list \<Rightarrow> Ledger" where
  "DriftLedger scans =
     \<lparr>l_Scans = map sr_ID scans,
      l_Clusters = (if length scans < 2 then []
        else let vals = map (\<lambda>s. fleetValues (sr_Report s)) scans
             in sort_key drift_key (filter drifted (map (drift_row scans vals) (seen_clusters scans))))\<rparr>"

section \<open>Laws\<close>

lemma seen_fold: "set (foldl (\<lambda>cs c. if c \<in> set cs then cs else cs @ [c]) acc xs) = set acc \<union> set xs \<and>
    (distinct acc \<longrightarrow> distinct (foldl (\<lambda>cs c. if c \<in> set cs then cs else cs @ [c]) acc xs))"
  by (induction xs arbitrary: acc) auto

lemma seen_clusters_props:
  "c \<in> set (seen_clusters scans) \<longleftrightarrow> (\<exists>s \<in> set scans. \<exists>r. sr_Report s = Some r \<and> c \<in> set (r_Clusters r))"
  "distinct (seen_clusters scans)"
proof -
  let ?xs = "concat (map (\<lambda>s. case sr_Report s of None \<Rightarrow> [] | Some r \<Rightarrow> r_Clusters r) scans)"
  have "c \<in> set ?xs \<longleftrightarrow> (\<exists>s \<in> set scans. \<exists>r. sr_Report s = Some r \<and> c \<in> set (r_Clusters r))"
    by (auto split: option.splits) (metis+)
  then show "c \<in> set (seen_clusters scans) \<longleftrightarrow> (\<exists>s \<in> set scans. \<exists>r. sr_Report s = Some r \<and> c \<in> set (r_Clusters r))"
    "distinct (seen_clusters scans)"
    using seen_fold [of "[]" ?xs] by (simp_all only: seen_clusters_def) simp_all
qed

lemma flip_loop_last:
  assumes "flag 0 \<noteq> flag n"
  shows "0 < flip_loop flag m n" "flip_loop flag m n \<le> n" "flag (flip_loop flag m n - 1) \<noteq> flag n"
    "\<And>i. flip_loop flag m n \<le> i \<Longrightarrow> i \<le> n \<Longrightarrow> flag i = flag n"
proof -
  have inv: "0 < flip_loop flag m n \<and> flip_loop flag m n \<le> n \<and> flag (flip_loop flag m n - 1) \<noteq> flag n \<and>
      (\<forall>i \<ge> flip_loop flag m n. i \<le> n \<longrightarrow> flag i = flag n)"
    using assms
  proof (induction n)
    case (Suc n)
    show ?case
    proof (cases "flag (Suc n) = flag n")
      case True
      then have "flag 0 \<noteq> flag n" using Suc.prems by simp
      from Suc.IH [OF this] have ih: "0 < flip_loop flag m n" "flip_loop flag m n \<le> n" "flag (flip_loop flag m n - 1) \<noteq> flag n"
        "\<forall>i \<ge> flip_loop flag m n. i \<le> n \<longrightarrow> flag i = flag n" by blast+
      have step: "flip_loop flag m (Suc n) = flip_loop flag m n" using True by simp
      have later: "\<forall>i \<ge> flip_loop flag m n. i \<le> Suc n \<longrightarrow> flag i = flag (Suc n)"
        using ih(4) True le_Suc_eq by metis
      show ?thesis unfolding step True using ih(1-3) later True by (metis le_SucI)
    next
      case False
      then have step: "flip_loop flag m (Suc n) = Suc n" by simp
      have later: "\<forall>i \<ge> Suc n. i \<le> Suc n \<longrightarrow> flag i = flag (Suc n)" using le_antisym by metis
      show ?thesis unfolding step using False later by (metis diff_Suc_1 le_refl zero_less_Suc)
    qed
  qed simp
  show "0 < flip_loop flag m n" using inv by blast
  show "flip_loop flag m n \<le> n" using inv by blast
  show "flag (flip_loop flag m n - 1) \<noteq> flag n" using inv by blast
  show "\<And>i. flip_loop flag m n \<le> i \<Longrightarrow> i \<le> n \<Longrightarrow> flag i = flag n" using inv by blast
qed

lemma sort_key_empty: "sort_key f xs = [] \<longleftrightarrow> xs = []"
  by (metis length_0_conv length_sort)

lemma text_absent: "k \<notin> fst ` set vals \<Longrightarrow> text_at vals k c = ''''"
proof -
  assume "k \<notin> fst ` set vals"
  then have "map_of vals k = None" by (simp add: map_of_eq_None_iff)
  then show ?thesis by (simp add: text_at_def value_at_def lookup_default_def)
qed

lemma flag_absent: "k \<notin> fst ` set vals \<Longrightarrow> \<not> flagged vals k c"
proof -
  assume "k \<notin> fst ` set vals"
  then have "map_of vals k = None" by (simp add: map_of_eq_None_iff)
  then show ?thesis by (simp add: flagged_def value_at_def lookup_default_def)
qed

lemma movedFields_empty: "movedFields before after c = [] \<longleftrightarrow> (\<forall>k. text_at before k c = text_at after k c)"
proof -
  have "movedFields before after c = [] \<longleftrightarrow>
      filter (\<lambda>k. text_at before k c \<noteq> text_at after k c) (remdups (map fst before @ map fst after)) = []"
    by (simp add: movedFields_def maxDriftFields_def take_eq_Nil sort_key_empty)
  also have "\<dots> \<longleftrightarrow> (\<forall>k \<in> fst ` set before \<union> fst ` set after. text_at before k c = text_at after k c)"
    by (auto simp: filter_empty_conv)
  also have "\<dots> \<longleftrightarrow> (\<forall>k. text_at before k c = text_at after k c)"
    using text_absent by (metis UnI1 UnI2)
  finally show ?thesis .
qed

lemma changed_flags_empty:
  assumes "length vals = length scans" "scans \<noteq> []"
  shows "changed_flags scans vals c b = [] \<longleftrightarrow>
    (\<forall>k. flagged (hd vals) k c \<noteq> flagged (last vals) k c \<longrightarrow> flagged (last vals) k c \<noteq> b)"
proof -
  have ne: "vals \<noteq> []" using assms by auto
  have ends: "vals ! 0 = hd vals" "vals ! (length scans - 1) = last vals"
    using ne assms(1) by (simp_all add: hd_conv_nth last_conv_nth)
  have keys: "k \<in> set (concat (map (map fst) vals))" if "flagged (hd vals) k c \<noteq> flagged (last vals) k c" for k
  proof -
    have "k \<in> fst ` set (hd vals) \<or> k \<in> fst ` set (last vals)"
      using that flag_absent [of k "hd vals" c] flag_absent [of k "last vals" c] by blast
    then show ?thesis using hd_in_set [OF ne] last_in_set [OF ne] by auto
  qed
  have "changed_flags scans vals c b = [] \<longleftrightarrow>
      filter (\<lambda>k. flagged (hd vals) k c \<noteq> flagged (last vals) k c \<and> flagged (last vals) k c = b)
        (remdups (concat (map (map fst) vals))) = []"
    unfolding changed_flags_def Let_def ends by (simp add: sort_key_empty)
  also have "\<dots> \<longleftrightarrow> (\<forall>k \<in> set (concat (map (map fst) vals)).
      \<not> (flagged (hd vals) k c \<noteq> flagged (last vals) k c \<and> flagged (last vals) k c = b))"
    unfolding filter_empty_conv set_remdups ..
  finally show ?thesis using keys by blast
qed

definition values_of :: "ScanReport \<Rightarrow> fieldValues" where
  "values_of s = fleetValues (sr_Report s)"

text \<open>The ledger lists each cluster that some scan reported and that drifted, once, and no other: one
  drifted when the text of a value it holds differs between the first and the last scan, or when an
  unexplained outlier flag does. A deviation that moved only because the fleet around the cluster moved
  is not drift.\<close>

lemma DriftLedger_clusters:
  assumes "2 \<le> length scans"
  shows "distinct (map cd_Cluster (l_Clusters (DriftLedger scans))) \<and>
    (c \<in> set (map cd_Cluster (l_Clusters (DriftLedger scans))) \<longleftrightarrow>
      (\<exists>s \<in> set scans. \<exists>r. sr_Report s = Some r \<and> c \<in> set (r_Clusters r)) \<and>
      (\<exists>k. text_at (values_of (hd scans)) k c \<noteq> text_at (values_of (last scans)) k c \<or>
           flagged (values_of (hd scans)) k c \<noteq> flagged (values_of (last scans)) k c))"
proof -
  let ?vals = "map (\<lambda>s. fleetValues (sr_Report s)) scans"
  have ne: "scans \<noteq> []" using assms by auto
  have ends: "hd ?vals = values_of (hd scans)" "last ?vals = values_of (last scans)"
    "?vals ! 0 = values_of (hd scans)" "?vals ! (length scans - 1) = values_of (last scans)"
    using ne by (simp_all add: values_of_def hd_map last_map hd_conv_nth last_conv_nth)
  have row: "cd_Cluster (drift_row scans ?vals c) = c" for c
    by (simp add: drift_row_def Let_def flagChanges_def)
  have drift: "drifted (drift_row scans ?vals c) \<longleftrightarrow>
      (\<exists>k. text_at (values_of (hd scans)) k c \<noteq> text_at (values_of (last scans)) k c \<or>
           flagged (values_of (hd scans)) k c \<noteq> flagged (values_of (last scans)) k c)" for c
  proof -
    have "drifted (drift_row scans ?vals c) \<longleftrightarrow>
        \<not> (movedFields (?vals ! 0) (?vals ! (length scans - 1)) c = [] \<and>
          changed_flags scans ?vals c True = [] \<and> changed_flags scans ?vals c False = [])"
      by (simp only: drifted_def drift_row_def Let_def flagChanges_def prod.case ClusterDrift.simps)
    then show ?thesis
      using changed_flags_empty [of ?vals scans c True] changed_flags_empty [of ?vals scans c False] ne
      by (simp only: movedFields_empty ends length_map simp_thms) blast
  qed
  have m: "mset (map cd_Cluster (l_Clusters (DriftLedger scans))) =
      mset (filter (\<lambda>c. drifted (drift_row scans ?vals c)) (seen_clusters scans))"
    using assms by (simp add: DriftLedger_def Let_def filter_map o_def row multiset.map_comp)
  then have s: "set (map cd_Cluster (l_Clusters (DriftLedger scans))) =
      set (filter (\<lambda>c. drifted (drift_row scans ?vals c)) (seen_clusters scans))" by (rule mset_eq_setD)
  have "distinct (map cd_Cluster (l_Clusters (DriftLedger scans)))"
    using m seen_clusters_props(2) [of scans] by (metis distinct_filter mset_eq_imp_distinct_iff)
  then show ?thesis using s seen_clusters_props(1) [of c scans] drift [of c] by auto
qed

text \<open>A gained flag names the scan that raised it: the flag is set in that scan and in every later one,
  and was not set in the scan before.\<close>

lemma gained_since:
  assumes "length vals = length scans" "scans \<noteq> []" "fc \<in> set (fst (flagChanges scans vals c))"
  shows "\<exists>n < length scans. 0 < n \<and> fc_Scan fc = sr_ID (scans ! n) \<and>
    \<not> flagged (vals ! (n - 1)) (fc_Scanner fc, fc_Field fc) c \<and>
    list_all (\<lambda>v. flagged v (fc_Scanner fc, fc_Field fc) c) (drop n vals)"
proof -
  let ?new = "length scans - 1"
  obtain k where k: "fc = flag_change scans vals c k" "flagged (vals ! 0) k c \<noteq> flagged (vals ! ?new) k c"
    "flagged (vals ! ?new) k c"
    using assms(3) by (auto simp: flagChanges_def changed_flags_def Let_def)
  let ?flag = "\<lambda>i. flagged (vals ! i) k c"
  let ?n = "flip_loop ?flag ?new ?new"
  have ends: "?flag 0 \<noteq> ?flag ?new" using k(2) by simp
  define n where "n = flip_loop ?flag ?new ?new"
  note l = flip_loop_last [where flag = ?flag and m = ?new, OF ends, folded n_def]
  have "flagged (drop n vals ! i) k c" if "i < length (drop n vals)" for i
    using that l(4) [of "n + i"] k(3) assms(1) by simp
  then have "list_all (\<lambda>v. flagged v k c) (drop n vals)" by (simp add: list_all_length)
  moreover have "n < length scans" using l(2) assms(2) by (cases scans) auto
  moreover have "\<not> flagged (vals ! (n - 1)) k c" using l(3) k(3) by simp
  moreover have "fc_Scan fc = sr_ID (scans ! n)" "fc_Scanner fc = fst k" "fc_Field fc = snd k"
    by (simp_all add: k(1) flag_change_def Let_def n_def)
  ultimately show ?thesis using l(1) by auto
qed

section \<open>A flag raised\<close>

definition valued_report :: "float64 \<Rightarrow> bool \<Rightarrow> Report" where
  "valued_report x out = Report0\<lparr>r_Clusters := [''a'', ''b''],
     r_Distributions := [Distribution0\<lparr>d_Scope := NormScopeFleet, d_Scanner := ''services'', d_Field := ''count'',
       d_Values := [ClusterValue0\<lparr>cv_Cluster := ''a'', cv_Number := Some x, cv_Outlier := out\<rparr>,
                    ClusterValue0\<lparr>cv_Cluster := ''b'', cv_Number := Some 1\<rparr>]\<rparr>]\<rparr>"

definition sample_scans :: "ScanReport list" where
  "sample_scans =
     [\<lparr>sr_ID = ''s1'', sr_Report = Some (valued_report 1 False)\<rparr>, \<lparr>sr_ID = ''s2'', sr_Report = None\<rparr>,
      \<lparr>sr_ID = ''s3'', sr_Report = Some (valued_report 9 True)\<rparr>]"

lemma DriftLedger_clusters_instance: "set (map cd_Cluster (l_Clusters (DriftLedger sample_scans))) = {''a''}"
proof -
  have two: "2 \<le> length sample_scans" by (simp add: sample_scans_def)
  have v: "flagged (values_of (hd sample_scans)) k ''a'' = False"
    "flagged (values_of (last sample_scans)) (''services'', ''count'') ''a''"
    "text_at (values_of (hd sample_scans)) k ''b'' = text_at (values_of (last sample_scans)) k ''b''"
    "flagged (values_of (hd sample_scans)) k ''b'' = flagged (values_of (last sample_scans)) k ''b''" for k
    by (simp_all add: sample_scans_def values_of_def fleetValues_def valued_report_def value_index_def flagged_def
        text_at_def value_at_def lookup_default_def Distribution0_def ClusterValue0_def flagged_value_def Report0_def)
  have known: "(\<exists>s \<in> set sample_scans. \<exists>r. sr_Report s = Some r \<and> c \<in> set (r_Clusters r)) \<longleftrightarrow> c = ''a'' \<or> c = ''b''" for c
    by (auto simp: sample_scans_def valued_report_def)
  have "c \<in> set (map cd_Cluster (l_Clusters (DriftLedger sample_scans))) \<longleftrightarrow> c = ''a''" for c
    using DriftLedger_clusters [OF two, of c] known [of c] v by metis
  then show ?thesis by blast
qed

lemma gained_since_instance:
  "list_all (\<lambda>fc. fc_Scan fc = ''s3'' \<and> (\<exists>n < length sample_scans. 0 < n \<and> fc_Scan fc = sr_ID (sample_scans ! n)))
     (fst (flagChanges sample_scans (map values_of sample_scans) ''a''))"
proof -
  have fl: "\<not> flagged (map values_of sample_scans ! 0) k ''a''" "\<not> flagged (map values_of sample_scans ! 1) k ''a''" for k
    by (simp_all add: sample_scans_def values_of_def fleetValues_def valued_report_def value_index_def flagged_def
        value_at_def lookup_default_def Distribution0_def ClusterValue0_def flagged_value_def Report0_def)
  have "fc_Scan fc = ''s3'' \<and> (\<exists>n < length sample_scans. 0 < n \<and> fc_Scan fc = sr_ID (sample_scans ! n))"
    if fc: "fc \<in> set (fst (flagChanges sample_scans (map values_of sample_scans) ''a''))" for fc
  proof -
    have "length (map values_of sample_scans) = length sample_scans" "sample_scans \<noteq> []" by (simp_all add: sample_scans_def)
    from gained_since [OF this fc] obtain n where n: "n < length sample_scans" "0 < n" "fc_Scan fc = sr_ID (sample_scans ! n)"
      "list_all (\<lambda>v. flagged v (fc_Scanner fc, fc_Field fc) ''a'') (drop n (map values_of sample_scans))" by blast
    have "n \<noteq> 1"
    proof
      assume "n = 1"
      then show False using n(4) fl(2) by (auto simp: list_all_length sample_scans_def)
    qed
    then have "n = 2" using n(1,2) by (simp add: sample_scans_def)
    then show ?thesis using n by (auto simp: sample_scans_def)
  qed
  then show ?thesis unfolding list_all_iff by blast
qed

end
