(* ===== verification/Export.thy ===== *)
theory Export
  imports Seal Section_Compare Util Findings
begin

text \<open>
  What the exporters of findings share: the runes of a text, the grouping of findings by cluster
  (\<open>GroupFindingsByCluster\<close> of \<open>internal/report/report.go\<close>) and the loop that writes one file per
  object. A text is its bytes. The directory tree is a map from paths to contents; the YAML encoder and
  the faults of the file system are parameters.
\<close>

section \<open>Runes\<close>

text \<open>The bytes of the rune a text starts with, as UTF-8 is decoded by Go: an invalid byte is a rune of its
  own.\<close>

definition byte_in :: "nat \<Rightarrow> nat \<Rightarrow> char \<Rightarrow> bool" where
  "byte_in lo hi c \<longleftrightarrow> lo \<le> (of_char c :: nat) \<and> of_char c \<le> (hi :: nat)"

definition lead_ranges :: "nat \<Rightarrow> (nat \<times> nat) list option" where
  "lead_ranges b =
     (if b < 0x80 then Some []
      else if 0xC2 \<le> b \<and> b \<le> 0xDF then Some [(0x80, 0xBF)]
      else if b = 0xE0 then Some [(0xA0, 0xBF), (0x80, 0xBF)]
      else if b = 0xED then Some [(0x80, 0x9F), (0x80, 0xBF)]
      else if 0xE1 \<le> b \<and> b \<le> 0xEF then Some [(0x80, 0xBF), (0x80, 0xBF)]
      else if b = 0xF0 then Some [(0x90, 0xBF), (0x80, 0xBF), (0x80, 0xBF)]
      else if 0xF1 \<le> b \<and> b \<le> 0xF3 then Some [(0x80, 0xBF), (0x80, 0xBF), (0x80, 0xBF)]
      else if b = 0xF4 then Some [(0x80, 0x8F), (0x80, 0xBF), (0x80, 0xBF)]
      else None)"

text \<open>The continuation bytes of a rune, or none when it is not valid.\<close>

definition continuation :: "nat \<Rightarrow> string \<Rightarrow> string option" where
  "continuation b rest =
     (case lead_ranges b of None \<Rightarrow> None
      | Some rs \<Rightarrow> if length rs \<le> length rest \<and> list_all2 (\<lambda>(lo, hi). byte_in lo hi) rs (take (length rs) rest)
                  then Some (take (length rs) rest) else None)"

text \<open>\<open>[]rune(s)\<close>, each rune as the bytes \<open>string\<close> gives back for it.\<close>

definition RuneError :: string where "RuneError = [CHR 0xEF, CHR 0xBF, CHR 0xBD]"

function runes :: "string \<Rightarrow> string list" where
  "runes [] = []"
| "runes (c # rest) =
     (case continuation (of_char c) rest of
        None \<Rightarrow> RuneError # runes rest
      | Some t \<Rightarrow> (c # t) # runes (drop (length t) rest))"
  by pat_completeness auto
termination by (relation "measure length") auto

definition Truncate :: "string \<Rightarrow> int \<Rightarrow> string" where
  "Truncate s n =
     (if n \<le> 0 \<or> int (length s) \<le> n then s
      else let r = runes s in if int (length r) \<le> n then s else concat (take (nat n) r) @ ''...'')"

section \<open>Grouping\<close>

definition finding_group :: "Finding \<Rightarrow> string" where
  "finding_group f = (if f_Cluster f = '''' then ''fleet'' else f_Cluster f)"

definition GroupFindingsByCluster :: "Finding list \<Rightarrow> (string, Finding list) gomap" where
  "GroupFindingsByCluster findings = foldl (\<lambda>out f. map_append (finding_group f) f out) [] findings"

text \<open>The findings an exporter puts on a cluster: its own, then the fleet's.\<close>

definition exported :: "Finding list \<Rightarrow> string \<Rightarrow> Finding list" where
  "exported findings cluster =
     (let by = GroupFindingsByCluster findings in lookup_default [] by cluster @ lookup_default [] by ''fleet'')"

section \<open>Writing\<close>

datatype write_error = NoDir | MkdirFailed | MarshalFailed string | WriteFailed string

fun write_files ::
  "('r \<Rightarrow> string) \<Rightarrow> ('r \<Rightarrow> string option) \<Rightarrow> (string \<Rightarrow> bool) \<Rightarrow> string \<Rightarrow> 'r list \<Rightarrow> files \<Rightarrow> files \<times> write_error option" where
  "write_files name marshal fault dir [] fs = (fs, None)"
| "write_files name marshal fault dir (r # rs) fs =
     (let path = path_Join [dir, name r @ ''.yaml'']
      in case marshal r of
           None \<Rightarrow> (fs, Some (MarshalFailed (name r)))
         | Some data \<Rightarrow> if fault path then (fs, Some (WriteFailed path))
                        else write_files name marshal fault dir rs (AList.update path data fs))"

definition write_reports ::
  "('r \<Rightarrow> string) \<Rightarrow> ('r \<Rightarrow> string option) \<Rightarrow> bool \<Rightarrow> (string \<Rightarrow> bool) \<Rightarrow> 'r list \<Rightarrow> string \<Rightarrow> files \<Rightarrow> files \<times> write_error option" where
  "write_reports name marshal mkdirFault fault reports dir fs =
     (if dir = '''' then (fs, Some NoDir)
      else if mkdirFault then (fs, Some MkdirFailed)
      else write_files name marshal fault dir reports fs)"

section \<open>Laws\<close>

lemma runes_ascii: "list_all (\<lambda>c. (of_char c :: nat) < 0x80) s \<Longrightarrow> runes s = map (\<lambda>c. [c]) s"
  by (induction s rule: runes.induct) (auto simp: continuation_def lead_ranges_def)

lemma runes_length: "length (runes s) \<le> length s"
  by (induction s rule: runes.induct) (auto split: option.split intro: le_SucI)

lemma Truncate_short: "int (length s) \<le> n \<Longrightarrow> Truncate s n = s"
  by (simp add: Truncate_def)

lemma GroupFindingsByCluster_at:
  "lookup_default [] (GroupFindingsByCluster findings) k = filter (\<lambda>f. finding_group f = k) findings"
proof -
  have "lookup_default [] (foldl (\<lambda>out f. map_append (finding_group f) f out) m findings) k
      = lookup_default [] m k @ filter (\<lambda>f. finding_group f = k) findings" for m
    by (induction findings arbitrary: m) (auto simp: lookup_default_append)
  then show ?thesis by (simp add: GroupFindingsByCluster_def lookup_default_def)
qed

lemma exported_findings:
  "exported findings cluster =
     filter (\<lambda>f. finding_group f = cluster) findings @ filter (\<lambda>f. finding_group f = ''fleet'') findings"
  by (simp add: exported_def Let_def GroupFindingsByCluster_at)

text \<open>When the writes succeed, the file of each name holds the last object of that name.\<close>

lemma write_files_ok:
  assumes "list_all (\<lambda>r. marshal r \<noteq> None) rs" "list_all (\<lambda>r. \<not> fault (path_Join [dir, name r @ ''.yaml''])) rs"
  shows "snd (write_files name marshal fault dir rs fs) = None \<and>
    map_of (fst (write_files name marshal fault dir rs fs)) =
      map_of fs ++ map_of (rev (map (\<lambda>r. (path_Join [dir, name r @ ''.yaml''], the (marshal r))) rs))"
  using assms
proof (induction rs arbitrary: fs)
  case (Cons r rs)
  then obtain data where "marshal r = Some data" by auto
  with Cons show ?case by (auto simp: Let_def map_add_def fun_eq_iff split: option.split)
qed simp

text \<open>Whatever happens, no other file is touched.\<close>

lemma write_files_frame:
  "p \<notin> (\<lambda>r. path_Join [dir, name r @ ''.yaml'']) ` set rs \<Longrightarrow>
     map_of (fst (write_files name marshal fault dir rs fs)) p = map_of fs p"
  by (induction rs arbitrary: fs) (auto simp: Let_def split: option.split)

end
