(* ===== verification/Policy_Report.thy ===== *)
theory Policy_Report
  imports Export
begin

text \<open>
  \<open>internal/policyreport/policyreport.go\<close>: the findings of a report as PolicyReport objects, one per
  cluster. The parser of the scan's time and the clock are parameters.
\<close>

definition APIVersion :: string where "APIVersion = ''wgpolicyk8s.io/v1alpha2''"
definition Kind :: string where "Kind = ''PolicyReport''"
definition Source :: string where "Source = ''fleetsweeper''"

record Metadata =
  md_Name :: string
  md_Namespace :: string
  md_Labels :: "(string, string) gomap"

record Summary =
  su_Pass :: int
  su_Fail :: int
  su_Warn :: int
  su_Error :: int
  su_Skip :: int

record Timestamp =
  ts_Seconds :: int
  ts_Nanos :: int

record ResourceRef =
  rr_APIVersion :: string
  rr_Kind :: string
  rr_Namespace :: string
  rr_Name :: string

record PolicyResult =
  pr_Source :: string
  pr_Policy :: string
  pr_Rule :: string
  pr_Category :: string
  pr_Severity :: string
  pr_Result :: string
  pr_Message :: string
  pr_Timestamp :: Timestamp
  pr_Resources :: "ResourceRef list"
  pr_Properties :: "(string, string) gomap"

record PolicyReport =
  po_APIVersion :: string
  po_Kind :: string
  po_Metadata :: Metadata
  po_Summary :: Summary
  po_Results :: "PolicyResult list"

definition severityMap :: "string \<Rightarrow> string" where
  "severityMap sev =
     (if sev = SeverityCritical then ''critical'' else if sev = SeverityWarning then ''medium'' else ''info'')"

definition resultMap :: "string \<Rightarrow> string" where
  "resultMap sev = (if sev = SeverityCritical \<or> sev = SeverityWarning then ''fail'' else ''warn'')"

fun cut_at_first :: "string list \<Rightarrow> string \<Rightarrow> string option" where
  "cut_at_first [] title = None"
| "cut_at_first (sep # seps) title =
     (case strings_Cut sep title of
        Some (a, _) \<Rightarrow> if length a > 0 then Some (trim_both is_space a) else cut_at_first seps title
      | None \<Rightarrow> cut_at_first seps title)"

definition ruleFromTitle :: "string \<Rightarrow> string" where
  "ruleFromTitle title =
     (case cut_at_first ['':'', '' -- '', '' has ''] title of
        Some rule \<Rightarrow> rule
      | None \<Rightarrow> let rs = runes title in if length rs > 60 then concat (take 60 rs) else title)"

definition ResourceRef0 :: ResourceRef where
  "ResourceRef0 = \<lparr>rr_APIVersion = '''', rr_Kind = '''', rr_Namespace = '''', rr_Name = ''''\<rparr>"

text \<open>The shape \<open>Kind ns/name\<close>.\<close>

definition kind_ref :: "string \<Rightarrow> ResourceRef option" where
  "kind_ref s =
     (let parts = SplitN s '' '' 2
      in if length parts = 2 \<and> contains_str (parts ! 1) ''/''
         then let nameParts = SplitN (parts ! 1) ''/'' 2
              in if nameParts ! 1 \<noteq> ''''
                 then Some (ResourceRef0\<lparr>rr_Kind := parts ! 0, rr_Namespace := nameParts ! 0, rr_Name := nameParts ! 1\<rparr>)
                 else None
         else None)"

text \<open>The shape \<open>ns/name\<close>.\<close>

definition namespaced_ref :: "string \<Rightarrow> ResourceRef option" where
  "namespaced_ref s =
     (if contains_str s ''/'' \<and> \<not> has_prefix s ''/''
      then let parts = SplitN s ''/'' 2
           in if length parts = 2 \<and> CHR '' '' \<notin> set (parts ! 0) \<and> parts ! 1 \<noteq> ''''
              then Some (ResourceRef0\<lparr>rr_Namespace := parts ! 0, rr_Name := parts ! 1\<rparr>)
              else None
      else None)"

definition parseResourceRef :: "string \<Rightarrow> ResourceRef" where
  "parseResourceRef s0 =
     (let s = trim_both is_space s0
      in if s = '''' then ResourceRef0\<lparr>rr_Name := ''(unknown)''\<rparr>
         else case kind_ref s of Some r \<Rightarrow> r
         | None \<Rightarrow> (case namespaced_ref s of Some r \<Rightarrow> r | None \<Rightarrow> ResourceRef0\<lparr>rr_Name := s\<rparr>))"

definition set_property :: "string \<Rightarrow> string \<Rightarrow> (string, string) gomap \<Rightarrow> (string, string) gomap" where
  "set_property k v m = (if v \<noteq> '''' then AList.update k v m else m)"

definition remediation_properties :: "Remediation option \<Rightarrow> (string, string) gomap" where
  "remediation_properties rem =
     (case rem of None \<Rightarrow> []
      | Some r \<Rightarrow> set_property ''remediation.runbook_url'' (rm_RunbookURL r)
                   (set_property ''remediation.yaml'' (rm_YAML r)
                     (set_property ''remediation.command'' (rm_Command r) [])))"

definition toResult :: "Finding \<Rightarrow> int \<Rightarrow> PolicyResult" where
  "toResult f ts =
     \<lparr>pr_Source = Source, pr_Policy = f_Scanner f,
      pr_Rule = (if f_Rule f = '''' then ruleFromTitle (f_Title f) else f_Rule f),
      pr_Category = CategoryOf (f_Scanner f), pr_Severity = severityMap (f_Severity f),
      pr_Result = resultMap (f_Severity f),
      pr_Message = (if f_Description f \<noteq> '''' then f_Title f @ '' -- '' @ f_Description f else f_Title f),
      pr_Timestamp = \<lparr>ts_Seconds = ts div 1000000000, ts_Nanos = ts mod 1000000000\<rparr>,
      pr_Resources = map parseResourceRef (f_Affected f),
      pr_Properties = (let props = remediation_properties (f_Remediation f)
                       in if f_Cluster f \<noteq> '''' \<and> f_Cluster f \<noteq> ''fleet''
                          then AList.update ''fleetsweeper.cluster'' (f_Cluster f) props else props)\<rparr>"

definition count_result :: "Summary \<Rightarrow> PolicyResult \<Rightarrow> Summary" where
  "count_result s r =
     (let k = pr_Result r
      in if k = ''pass'' then s\<lparr>su_Pass := su_Pass s + 1\<rparr>
         else if k = ''fail'' then s\<lparr>su_Fail := su_Fail s + 1\<rparr>
         else if k = ''warn'' then s\<lparr>su_Warn := su_Warn s + 1\<rparr>
         else if k = ''error'' then s\<lparr>su_Error := su_Error s + 1\<rparr>
         else if k = ''skip'' then s\<lparr>su_Skip := su_Skip s + 1\<rparr> else s)"

definition summarize :: "PolicyResult list \<Rightarrow> Summary" where
  "summarize results = foldl count_result \<lparr>su_Pass = 0, su_Fail = 0, su_Warn = 0, su_Error = 0, su_Skip = 0\<rparr> results"

definition policy_report :: "Finding list \<Rightarrow> int \<Rightarrow> string \<Rightarrow> string \<Rightarrow> string \<Rightarrow> PolicyReport" where
  "policy_report findings scanTime scanID namespace cluster =
     (let results = map (\<lambda>f. toResult f scanTime) (exported findings cluster)
      in \<lparr>po_APIVersion = APIVersion, po_Kind = Kind,
          po_Metadata = \<lparr>md_Name = SanitizeName (''fleetsweeper-'' @ cluster), md_Namespace = namespace,
            md_Labels = [(''fleetsweeper.io/cluster'', cluster), (''fleetsweeper.io/scan-id'', scanID),
              (''app.kubernetes.io/managed-by'', ''fleetsweeper''), (''policy.kubernetes.io/engine'', ''fleetsweeper'')]\<rparr>,
          po_Summary = summarize results, po_Results = results\<rparr>)"

definition ReportsFor :: "(string \<Rightarrow> int option) \<Rightarrow> int \<Rightarrow> Report option \<Rightarrow> string \<Rightarrow> string \<Rightarrow> PolicyReport list" where
  "ReportsFor time_Parse now r scanID namespace =
     (case r of None \<Rightarrow> []
      | Some rep \<Rightarrow>
          let ns = (if namespace = '''' then ''fleetsweeper'' else namespace);
              scanTime = (case time_Parse (r_Timestamp rep) of Some t \<Rightarrow> t | None \<Rightarrow> now)
          in map (policy_report (r_Findings rep) scanTime scanID ns) (r_Clusters rep))"

definition Write :: "(PolicyReport \<Rightarrow> string option) \<Rightarrow> bool \<Rightarrow> (string \<Rightarrow> bool) \<Rightarrow> PolicyReport list \<Rightarrow> string \<Rightarrow> files \<Rightarrow> files \<times> write_error option" where
  "Write = write_reports (\<lambda>r. md_Name (po_Metadata r))"

section \<open>Laws\<close>

lemma toResult_result: "pr_Result (toResult f ts) \<in> {''fail'', ''warn''}"
  by (simp add: toResult_def resultMap_def)

lemma summarize_counts:
  assumes "list_all (\<lambda>r. pr_Result r \<in> {''fail'', ''warn''}) results"
  shows "summarize results = \<lparr>su_Pass = 0, su_Fail = int (length (filter (\<lambda>r. pr_Result r = ''fail'') results)),
    su_Warn = int (length (filter (\<lambda>r. pr_Result r = ''warn'') results)), su_Error = 0, su_Skip = 0\<rparr>"
proof -
  have "foldl count_result \<lparr>su_Pass = 0, su_Fail = a, su_Warn = b, su_Error = 0, su_Skip = 0\<rparr> results =
    \<lparr>su_Pass = 0, su_Fail = a + int (length (filter (\<lambda>r. pr_Result r = ''fail'') results)),
     su_Warn = b + int (length (filter (\<lambda>r. pr_Result r = ''warn'') results)), su_Error = 0, su_Skip = 0\<rparr>" for a b
    using assms by (induction results arbitrary: a b) (auto simp: count_result_def Let_def)
  then show ?thesis by (simp add: summarize_def)
qed

lemma parse_kind_ref:
  assumes "CHR '' '' \<notin> set kind" "CHR ''/'' \<notin> set ns" "CHR '' '' \<notin> set ns" "n \<noteq> ''''"
  shows "kind_ref (kind @ '' '' @ ns @ ''/'' @ n) = Some (ResourceRef0\<lparr>rr_Kind := kind, rr_Namespace := ns, rr_Name := n\<rparr>)"
proof -
  have cut_space: "CHR '' '' \<notin> set a \<Longrightarrow> strings_Cut '' '' (a @ '' '' @ b) = Some (a, b)" for a b
  proof (induction a)
    case Nil
    show ?case by (subst strings_Cut.simps) (simp add: has_prefix_def)
  next
    case (Cons x a)
    then show ?case by (subst strings_Cut.simps) (auto simp: has_prefix_def)
  qed
  have "contains_str (ns @ ''/'' @ n) ''/''"
    unfolding contains_str_def list_ex_iff
    by (rule bexI [of _ "''/'' @ n"]) (auto simp: has_prefix_def suffix_def)
  then show ?thesis
    using assms cut_space [of kind "ns @ ''/'' @ n"] cut_slash [of ns n]
    by (simp add: kind_ref_def numeral_2_eq_2 Let_def)
qed

lemma summarize_total:
  assumes "list_all (\<lambda>r. pr_Result r \<in> {''fail'', ''warn''}) results"
  shows "su_Fail (summarize results) = int (length (filter (\<lambda>r. pr_Result r = ''fail'') results)) \<and>
    su_Fail (summarize results) + su_Warn (summarize results) = int (length results)"
proof -
  have "int (length (filter (\<lambda>x. pr_Result x = ''fail'') results)) + int (length (filter (\<lambda>x. pr_Result x = ''warn'') results))
      = int (length results)"
    using assms by (induction results) auto
  then show ?thesis by (simp add: summarize_counts [OF assms])
qed

lemma policy_report_laws:
  defines "q \<equiv> \<lambda>fs t sid ns c. policy_report fs t sid ns c"
  shows "po_Results (q fs t sid ns c) = map (\<lambda>f. toResult f t) (exported fs c)"
    "su_Fail (po_Summary (q fs t sid ns c)) = int (length (filter (\<lambda>x. pr_Result x = ''fail'') (po_Results (q fs t sid ns c))))"
    "su_Fail (po_Summary (q fs t sid ns c)) + su_Warn (po_Summary (q fs t sid ns c)) = int (length (po_Results (q fs t sid ns c)))"
    "map_of (md_Labels (po_Metadata (q fs t sid ns c))) ''fleetsweeper.io/cluster'' = Some c"
proof -
  have rs: "po_Results (q fs t sid ns c) = map (\<lambda>f. toResult f t) (exported fs c)"
    and su: "po_Summary (q fs t sid ns c) = summarize (po_Results (q fs t sid ns c))"
    and label: "map_of (md_Labels (po_Metadata (q fs t sid ns c))) ''fleetsweeper.io/cluster'' = Some c"
    by (simp_all add: q_def policy_report_def Let_def)
  have "list_all (\<lambda>x. pr_Result x \<in> {''fail'', ''warn''}) (po_Results (q fs t sid ns c))"
    unfolding rs using toResult_result by (simp add: list_all_iff)
  from summarize_total [OF this] rs su label
  show "po_Results (q fs t sid ns c) = map (\<lambda>f. toResult f t) (exported fs c)"
    "su_Fail (po_Summary (q fs t sid ns c)) = int (length (filter (\<lambda>x. pr_Result x = ''fail'') (po_Results (q fs t sid ns c))))"
    "su_Fail (po_Summary (q fs t sid ns c)) + su_Warn (po_Summary (q fs t sid ns c)) = int (length (po_Results (q fs t sid ns c)))"
    "map_of (md_Labels (po_Metadata (q fs t sid ns c))) ''fleetsweeper.io/cluster'' = Some c"
    by simp_all
qed

text \<open>The exported objects follow the fleet in order, and the object of a cluster carries a result for
  every finding on it and on the fleet and for no other, counted as failed exactly when the finding is
  critical or a warning.\<close>

lemma ReportsFor_complete:
  "map (\<lambda>p. map_of (md_Labels (po_Metadata p)) ''fleetsweeper.io/cluster'') (ReportsFor time_Parse now (Some r) scanID namespace)
     = map Some (r_Clusters r) \<and>
   list_all2 (\<lambda>p c.
       po_Results p = map (\<lambda>f. toResult f (case time_Parse (r_Timestamp r) of Some t \<Rightarrow> t | None \<Rightarrow> now))
         (filter (\<lambda>f. finding_group f = c) (r_Findings r) @ filter (\<lambda>f. finding_group f = ''fleet'') (r_Findings r)) \<and>
       su_Fail (po_Summary p) = int (length (filter (\<lambda>x. pr_Result x = ''fail'') (po_Results p))) \<and>
       su_Fail (po_Summary p) + su_Warn (po_Summary p) = int (length (po_Results p)))
     (ReportsFor time_Parse now (Some r) scanID namespace) (r_Clusters r)"
proof -
  define ns where "ns = (if namespace = '''' then ''fleetsweeper'' else namespace)"
  define t where "t = (case time_Parse (r_Timestamp r) of Some t \<Rightarrow> t | None \<Rightarrow> now)"
  have eq: "ReportsFor time_Parse now (Some r) scanID namespace = map (policy_report (r_Findings r) t scanID ns) (r_Clusters r)"
    by (simp add: ReportsFor_def Let_def ns_def t_def)
  show ?thesis
    unfolding eq t_def [symmetric] map_map comp_def list_all2_map1 list_all2_same policy_report_laws(4)
    using policy_report_laws(1) [of "r_Findings r" t scanID ns] policy_report_laws(2,3) [of "r_Findings r" t scanID ns]
    by (simp only: exported_findings simp_thms) simp
qed

end
