(* ===== verification/Fleet_Drift.thy ===== *)
theory Fleet_Drift
  imports Export
begin

text \<open>
  \<open>internal/fleetdrift/fleetdrift.go\<close>: the findings of a report as FleetDriftReport objects, one per
  cluster, and the files they are written to.
\<close>

definition APIVersion :: string where "APIVersion = ''fleetsweeper.io/v1alpha1''"
definition Kind :: string where "Kind = ''FleetDriftReport''"

record Metadata =
  fm_Name :: string
  fm_Namespace :: string
  fm_Labels :: "(string, string) gomap"

record FleetScoreSpec =
  fss_Score :: int
  fss_Grade :: string
  fss_Graded :: bool
  fss_Coverage :: float64

record Spec =
  sp_Cluster :: string
  sp_ScanID :: string
  sp_ScanTime :: int
  sp_FleetScore :: FleetScoreSpec

record Summary =
  fsu_Critical :: int
  fsu_Warning :: int
  fsu_Info :: int

record RemediationSpec =
  rs_Command :: string
  rs_YAML :: string
  rs_RunbookURL :: string

record FindingSpec =
  fi_Severity :: string
  fi_Scanner :: string
  fi_Title :: string
  fi_Description :: string
  fi_Affected :: "string list"
  fi_Remediation :: "RemediationSpec option"

record Status =
  st_ObservedAt :: int
  st_Summary :: Summary
  st_Findings :: "FindingSpec list"

record FleetDriftReport =
  fr_APIVersion :: string
  fr_Kind :: string
  fr_Metadata :: Metadata
  fr_Spec :: Spec
  fr_Status :: Status

definition tally_finding :: "Summary \<Rightarrow> Finding \<Rightarrow> Summary" where
  "tally_finding s f =
     (if f_Severity f = SeverityCritical then s\<lparr>fsu_Critical := fsu_Critical s + 1\<rparr>
      else if f_Severity f = SeverityWarning then s\<lparr>fsu_Warning := fsu_Warning s + 1\<rparr>
      else if f_Severity f = SeverityInfo then s\<lparr>fsu_Info := fsu_Info s + 1\<rparr> else s)"

definition summarize :: "Finding list \<Rightarrow> Summary" where
  "summarize fs = foldl tally_finding \<lparr>fsu_Critical = 0, fsu_Warning = 0, fsu_Info = 0\<rparr> fs"

definition finding_spec :: "Finding \<Rightarrow> FindingSpec" where
  "finding_spec f =
     \<lparr>fi_Severity = f_Severity f, fi_Scanner = f_Scanner f, fi_Title = f_Title f,
      fi_Description = f_Description f, fi_Affected = f_Affected f,
      fi_Remediation = map_option (\<lambda>r. \<lparr>rs_Command = rm_Command r, rs_YAML = rm_YAML r, rs_RunbookURL = rm_RunbookURL r\<rparr>)
        (f_Remediation f)\<rparr>"

definition spec_order :: "FindingSpec \<Rightarrow> int \<times> string" where
  "spec_order s = (- SeverityRank (fi_Severity s), fi_Title s)"

definition toFindingSpecs :: "Finding list \<Rightarrow> FindingSpec list" where
  "toFindingSpecs fs = sort_key spec_order (map finding_spec fs)"

definition drift_report :: "Finding list \<Rightarrow> FleetScoreSpec \<Rightarrow> int \<Rightarrow> string \<Rightarrow> string \<Rightarrow> string \<Rightarrow> FleetDriftReport" where
  "drift_report findings score scanTime scanID namespace cluster =
     (let fs = exported findings cluster
      in \<lparr>fr_APIVersion = APIVersion, fr_Kind = Kind,
          fr_Metadata = \<lparr>fm_Name = SanitizeName cluster, fm_Namespace = namespace,
            fm_Labels = [(''fleetsweeper.io/cluster'', cluster), (''fleetsweeper.io/scan-id'', scanID),
              (''app.kubernetes.io/managed-by'', ''fleetsweeper'')]\<rparr>,
          fr_Spec = \<lparr>sp_Cluster = cluster, sp_ScanID = scanID, sp_ScanTime = scanTime, sp_FleetScore = score\<rparr>,
          fr_Status = \<lparr>st_ObservedAt = scanTime, st_Summary = summarize fs, st_Findings = toFindingSpecs fs\<rparr>\<rparr>)"

definition ReportsFor :: "(string \<Rightarrow> int option) \<Rightarrow> int \<Rightarrow> Report option \<Rightarrow> string \<Rightarrow> string \<Rightarrow> FleetDriftReport list" where
  "ReportsFor time_Parse now r scanID namespace =
     (case r of None \<Rightarrow> []
      | Some rep \<Rightarrow>
          let scanTime = (case time_Parse (r_Timestamp rep) of Some t \<Rightarrow> t | None \<Rightarrow> now);
              score = \<lparr>fss_Score = s_Score (r_FleetScore rep), fss_Grade = s_Grade (r_FleetScore rep),
                       fss_Graded = s_Graded (r_FleetScore rep), fss_Coverage = c_Fraction (s_Coverage (r_FleetScore rep))\<rparr>
          in map (drift_report (r_Findings rep) score scanTime scanID namespace) (r_Clusters rep))"

definition Write :: "(FleetDriftReport \<Rightarrow> string option) \<Rightarrow> bool \<Rightarrow> (string \<Rightarrow> bool) \<Rightarrow> FleetDriftReport list \<Rightarrow> string \<Rightarrow> files \<Rightarrow> files \<times> write_error option" where
  "Write = write_reports (\<lambda>r. fm_Name (fr_Metadata r))"

section \<open>Laws\<close>

lemma summarize_drift_counts:
  "summarize fs = \<lparr>fsu_Critical = int (length (filter (\<lambda>f. f_Severity f = SeverityCritical) fs)),
     fsu_Warning = int (length (filter (\<lambda>f. f_Severity f = SeverityWarning) fs)),
     fsu_Info = int (length (filter (\<lambda>f. f_Severity f = SeverityInfo) fs))\<rparr>"
proof -
  have "foldl tally_finding \<lparr>fsu_Critical = a, fsu_Warning = b, fsu_Info = c\<rparr> fs =
    \<lparr>fsu_Critical = a + int (length (filter (\<lambda>f. f_Severity f = SeverityCritical) fs)),
     fsu_Warning = b + int (length (filter (\<lambda>f. f_Severity f = SeverityWarning) fs)),
     fsu_Info = c + int (length (filter (\<lambda>f. f_Severity f = SeverityInfo) fs))\<rparr>" for a b c
    by (induction fs arbitrary: a b c)
      (auto simp: tally_finding_def SeverityCritical_def SeverityWarning_def SeverityInfo_def)
  then show ?thesis by (simp add: summarize_def)
qed

text \<open>The findings of an object are the cluster's and the fleet's, worst first.\<close>

lemma drift_report_findings:
  "mset (st_Findings (fr_Status (drift_report fs score t sid ns c))) = image_mset finding_spec (mset (exported fs c)) \<and>
   sorted (map spec_order (st_Findings (fr_Status (drift_report fs score t sid ns c))))"
  by (simp add: drift_report_def Let_def toFindingSpecs_def)

text \<open>Which file a cluster's object is written to, when every write succeeds: the last cluster of a
  directory entry owns it.\<close>

definition drift_file :: "string \<Rightarrow> FleetDriftReport \<Rightarrow> string" where
  "drift_file dir r = path_Join [dir, fm_Name (fr_Metadata r) @ ''.yaml'']"

text \<open>When encoding and writing succeed, writing the objects of a fleet succeeds, and the directory then
  holds, under the name of each cluster, exactly the object of that cluster, provided that no two clusters
  have names that sanitize to the same file; no other file changes.\<close>

lemma Write_keeps_every_cluster:
  assumes "rs = ReportsFor time_Parse now (Some r) scanID namespace" "dir \<noteq> ''''"
    "list_all (\<lambda>x. marshal x \<noteq> None) rs" "list_all (\<lambda>x. \<not> fault (drift_file dir x)) rs"
    "distinct (map (drift_file dir) rs)"
  shows "snd (Write marshal False fault rs dir fs) = None \<and>
    map sp_Cluster (map fr_Spec rs) = r_Clusters r \<and>
    list_all (\<lambda>x. map_of (fst (Write marshal False fault rs dir fs)) (drift_file dir x) = marshal x) rs \<and>
    (p \<in> set (map (drift_file dir) rs) \<or> map_of (fst (Write marshal False fault rs dir fs)) p = map_of fs p)"
proof -
  let ?n = "\<lambda>x. fm_Name (fr_Metadata x)"
  let ?w = "write_files ?n marshal fault dir rs fs"
  have w: "Write marshal False fault rs dir fs = ?w" using assms(2) by (simp add: Write_def write_reports_def)
  have clusters: "map sp_Cluster (map fr_Spec rs) = r_Clusters r"
    unfolding assms(1) by (simp add: ReportsFor_def drift_report_def Let_def comp_def)
  have ok: "snd ?w = None" "map_of (fst ?w) = map_of fs ++ map_of (rev (map (\<lambda>x. (drift_file dir x, the (marshal x))) rs))"
    using write_files_ok [of marshal rs fault dir ?n fs] assms(3,4) by (simp_all add: drift_file_def)
  let ?kv = "map (\<lambda>x. (drift_file dir x, the (marshal x))) rs"
  have d: "distinct (map fst (rev ?kv))" using assms(5) by (simp add: comp_def rev_map [symmetric])
  have hit: "map_of (fst ?w) (drift_file dir x) = marshal x" if "x \<in> set rs" for x
  proof -
    have "map_of (rev ?kv) (drift_file dir x) = Some (the (marshal x))"
      using that by (intro map_of_is_SomeI [OF d]) auto
    then show ?thesis using assms(3) that ok(2) by (auto simp: list_all_iff)
  qed
  have frame: "map_of (fst ?w) p = map_of fs p" if "p \<notin> set (map (drift_file dir) rs)"
    using write_files_frame [of p dir ?n rs marshal fault fs] that by (auto simp: drift_file_def)
  show ?thesis unfolding w using ok(1) clusters hit frame by (auto simp: list_all_iff)
qed

definition sample_fleet :: "string list \<Rightarrow> Report" where
  "sample_fleet clusters = Report0\<lparr>r_Clusters := clusters\<rparr>"

definition sample_yaml :: "FleetDriftReport \<Rightarrow> string option" where
  "sample_yaml r = Some (sp_Cluster (fr_Spec r))"

lemma sample_paths: "map (drift_file ''out'') (ReportsFor (\<lambda>_. None) 0 (Some (sample_fleet [''a'', ''b''])) ''s'' '''')
    = [''out/a.yaml'', ''out/b.yaml'']"
  by code_simp

lemma Write_keeps_every_cluster_instance:
  "let rs = ReportsFor (\<lambda>_. None) 0 (Some (sample_fleet [''a'', ''b''])) ''s'' '''';
       w = Write sample_yaml False (\<lambda>_. False) rs ''out'' []
   in snd w = None \<and> list_all (\<lambda>x. map_of (fst w) (drift_file ''out'' x) = sample_yaml x) rs"
proof -
  have d: "distinct (map (drift_file ''out'') (ReportsFor (\<lambda>_. None) 0 (Some (sample_fleet [''a'', ''b''])) ''s'' ''''))"
    unfolding sample_paths by simp
  show ?thesis
    using Write_keeps_every_cluster [OF refl _ _ _ d, of sample_yaml "\<lambda>_. False" "[]"]
    by (simp add: Let_def sample_yaml_def list_all_iff)
qed

text \<open>Two names of a kubeconfig can sanitize to one: the object of the first cluster is lost.\<close>

lemma Write_collision:
  "let rs = ReportsFor (\<lambda>_. None) 0 (Some (sample_fleet [''Prod_A'', ''prod-a''])) ''s'' ''''
   in Write sample_yaml False (\<lambda>_. False) rs ''out'' [] = ([(''out/prod-a.yaml'', ''prod-a'')], None)"
  by code_simp

end
