(* ===== verification/Compare.thy ===== *)
theory Compare
  imports Drift Rules Checks_Health
begin

text \<open>
  \<open>internal/compare/compare.go\<close>: what changed between two reports, and its text and Markdown
  renderings. A nil report is \<open>None\<close>. The findings of a report are indexed by fingerprint in a Go map;
  the orders in which the code ranges over the two indices are parameters, applied to their keys. The
  clusters of the two reports are sorted after they are collected, so the order of their maps is left out.
\<close>

section \<open>Data\<close>

record SetDrift =
  sd_Cluster :: string
  sd_Scanner :: string
  sd_Field :: string
  sd_NewlyMissing :: "string list"
  sd_Restored :: "string list"

record ClusterStatusChange =
  cs_Cluster :: string
  cs_Before :: string
  cs_After :: string

record ScanDiff =
  df_ScoreBefore :: int
  df_ScoreAfter :: int
  df_GradeBefore :: string
  df_GradeAfter :: string
  df_GradedBefore :: bool
  df_GradedAfter :: bool
  df_New :: "Finding list"
  df_Resolved :: "Finding list"
  df_Persisted :: "Finding list"
  df_SetDrift :: "SetDrift list"
  df_Drift :: Ledger
  df_ClusterStatusChanges :: "ClusterStatusChange list"
  df_AddedClusters :: "string list"
  df_RemovedClusters :: "string list"
  df_CriticalBefore :: int
  df_CriticalAfter :: int
  df_WarningBefore :: int
  df_WarningAfter :: int

definition ScanDiff0 :: ScanDiff where
  "ScanDiff0 =
     \<lparr>df_ScoreBefore = 0, df_ScoreAfter = 0, df_GradeBefore = '''', df_GradeAfter = '''', df_GradedBefore = False,
      df_GradedAfter = False, df_New = [], df_Resolved = [], df_Persisted = [], df_SetDrift = [],
      df_Drift = \<lparr>l_Scans = [], l_Clusters = []\<rparr>, df_ClusterStatusChanges = [], df_AddedClusters = [],
      df_RemovedClusters = [], df_CriticalBefore = 0, df_CriticalAfter = 0, df_WarningBefore = 0, df_WarningAfter = 0\<rparr>"

section \<open>The diff\<close>

definition populateScore :: "Report option \<Rightarrow> Report option \<Rightarrow> ScanDiff \<Rightarrow> ScanDiff" where
  "populateScore a b d =
     (let d1 = (case a of None \<Rightarrow> d
                | Some r \<Rightarrow> d\<lparr>df_ScoreBefore := s_Score (r_FleetScore r), df_GradeBefore := s_Grade (r_FleetScore r),
                             df_GradedBefore := s_Graded (r_FleetScore r)\<rparr>)
      in case b of None \<Rightarrow> d1
         | Some r \<Rightarrow> d1\<lparr>df_ScoreAfter := s_Score (r_FleetScore r), df_GradeAfter := s_Grade (r_FleetScore r),
                       df_GradedAfter := s_Graded (r_FleetScore r)\<rparr>)"

definition ScoreComparable :: "ScanDiff \<Rightarrow> bool" where
  "ScoreComparable d \<longleftrightarrow> df_GradedBefore d \<and> df_GradedAfter d"

text \<open>\<open>FindingOrder\<close> compares the severity, worst first, then the cluster, the title and the rule.\<close>

definition FindingOrder :: "Finding \<Rightarrow> int \<times> string \<times> string \<times> string" where
  "FindingOrder f = (- SeverityRank (f_Severity f), f_Cluster f, f_Title f, f_Rule f)"

definition index_by_print :: "(string \<Rightarrow> string) \<Rightarrow> Report option \<Rightarrow> (string, Finding) gomap" where
  "index_by_print h r =
     (case r of None \<Rightarrow> []
      | Some rep \<Rightarrow> fold (\<lambda>f. AList.update (FindingFingerprint h f) f) (r_Findings rep) [])"

definition set_norm :: "Finding \<Rightarrow> NormBasis option" where
  "set_norm f = (case f_Norm f of Some n \<Rightarrow> if nb_Kind n = NormKindSet then Some n else None | None \<Rightarrow> None)"

definition setDrift :: "Finding \<Rightarrow> Finding \<Rightarrow> SetDrift option" where
  "setDrift a b =
     (case (set_norm a, set_norm b) of
        (Some na, Some nb) \<Rightarrow>
          let newly = sort (filter (\<lambda>m. m \<notin> set (nb_Missing na)) (nb_Missing nb));
              restored = sort (filter (\<lambda>m. m \<notin> set (nb_Missing nb)) (nb_Missing na))
          in if newly \<noteq> [] \<or> restored \<noteq> []
             then Some \<lparr>sd_Cluster = f_Cluster b, sd_Scanner = f_Scanner b,
                        sd_Field = (if f_Affected b \<noteq> [] then hd (f_Affected b) else ''''),
                        sd_NewlyMissing = newly, sd_Restored = restored\<rparr>
             else None
      | _ \<Rightarrow> None)"

text \<open>The findings of one index, in the order its keys are visited, that the other index holds or lacks.\<close>

definition held_in :: "(string, Finding) gomap \<Rightarrow> (string, Finding) gomap \<Rightarrow> string list \<Rightarrow> Finding list" where
  "held_in other idx ks = List.map_filter (\<lambda>k. if map_of other k \<noteq> None then map_of idx k else None) ks"

definition absent_from :: "(string, Finding) gomap \<Rightarrow> (string, Finding) gomap \<Rightarrow> string list \<Rightarrow> Finding list" where
  "absent_from other idx ks = List.map_filter (\<lambda>k. if map_of other k = None then map_of idx k else None) ks"

definition set_drifts :: "(string, Finding) gomap \<Rightarrow> (string, Finding) gomap \<Rightarrow> string list \<Rightarrow> SetDrift list" where
  "set_drifts aIdx bIdx ks =
     List.map_filter (\<lambda>k. Option.bind (map_of aIdx k) (\<lambda>a. Option.bind (map_of bIdx k) (setDrift a))) ks"

definition populateFindings ::
  "(string \<Rightarrow> string) \<Rightarrow> (string list \<Rightarrow> string list) \<Rightarrow> (string list \<Rightarrow> string list) \<Rightarrow>
   Report option \<Rightarrow> Report option \<Rightarrow> ScanDiff \<Rightarrow> ScanDiff" where
  "populateFindings h orderA orderB a b d =
     (let aIdx = index_by_print h a; bIdx = index_by_print h b;
          as = orderA (map fst aIdx); bs = orderB (map fst bIdx)
      in d\<lparr>df_New := sort_key FindingOrder (df_New d @ absent_from aIdx bIdx bs),
           df_Resolved := sort_key FindingOrder (df_Resolved d @ absent_from bIdx aIdx as),
           df_Persisted := sort_key FindingOrder (df_Persisted d @ held_in aIdx bIdx bs),
           df_SetDrift := sort_key (\<lambda>s. (sd_Cluster s, sd_Scanner s, sd_Field s)) (df_SetDrift d @ set_drifts aIdx bIdx bs)\<rparr>)"

definition health_index :: "Report option \<Rightarrow> (string, string) gomap" where
  "health_index r =
     (case r of None \<Rightarrow> [] | Some rep \<Rightarrow> fold (\<lambda>x. AList.update (h_Name x) (h_Status x)) (r_ClusterHealths rep) [])"

definition status_changes :: "(string, string) gomap \<Rightarrow> (string, string) gomap \<Rightarrow> ClusterStatusChange list" where
  "status_changes aHealth bHealth =
     List.map_filter (\<lambda>(name, after). case map_of aHealth name of
         Some before \<Rightarrow> if before \<noteq> after then Some \<lparr>cs_Cluster = name, cs_Before = before, cs_After = after\<rparr> else None
       | None \<Rightarrow> None) bHealth"

definition populateClusters :: "Report option \<Rightarrow> Report option \<Rightarrow> ScanDiff \<Rightarrow> ScanDiff" where
  "populateClusters a b d =
     (let aHealth = health_index a; bHealth = health_index b
      in d\<lparr>df_AddedClusters := sort (df_AddedClusters d @ filter (\<lambda>n. map_of aHealth n = None) (map fst bHealth)),
           df_RemovedClusters := sort (df_RemovedClusters d @ filter (\<lambda>n. map_of bHealth n = None) (map fst aHealth)),
           df_ClusterStatusChanges := sort_key cs_Cluster (df_ClusterStatusChanges d @ status_changes aHealth bHealth)\<rparr>)"

definition populateSummary :: "Report option \<Rightarrow> Report option \<Rightarrow> ScanDiff \<Rightarrow> ScanDiff" where
  "populateSummary a b d =
     (let d1 = (case a of None \<Rightarrow> d
                | Some r \<Rightarrow> d\<lparr>df_CriticalBefore := sm_CriticalCount (r_Summary r), df_WarningBefore := sm_WarningCount (r_Summary r)\<rparr>)
      in case b of None \<Rightarrow> d1
         | Some r \<Rightarrow> d1\<lparr>df_CriticalAfter := sm_CriticalCount (r_Summary r), df_WarningAfter := sm_WarningCount (r_Summary r)\<rparr>)"

definition Diff ::
  "(string \<Rightarrow> string) \<Rightarrow> (string list \<Rightarrow> string list) \<Rightarrow> (string list \<Rightarrow> string list) \<Rightarrow> Report option \<Rightarrow> Report option \<Rightarrow> ScanDiff" where
  "Diff h orderA orderB a b =
     (populateSummary a b (populateClusters a b (populateFindings h orderA orderB a b (populateScore a b ScanDiff0))))
       \<lparr>df_Drift := DriftLedger [\<lparr>sr_ID = '''', sr_Report = a\<rparr>, \<lparr>sr_ID = '''', sr_Report = b\<rparr>]\<rparr>"

section \<open>Rendering\<close>

definition newline_text :: string where "newline_text = [CHR 0x0A]"

text \<open>\<open>%+d\<close> and \<open>%+.1f\<close>\<close>

definition fmt_plus :: "int \<Rightarrow> string" where
  "fmt_plus n = (if n < 0 then Itoa n else ''+'' @ Itoa n)"

definition fmt_plus1 :: "float64 \<Rightarrow> string" where
  "fmt_plus1 x = (if x < 0 then fmt_fixed1 x else ''+'' @ fmt_fixed1 x)"

definition wrap :: "string \<Rightarrow> bool \<Rightarrow> string" where
  "wrap code color = (if \<not> color then '''' else [CHR 0x1B] @ ''['' @ code @ ''m'')"

definition scoreCell :: "int \<Rightarrow> string \<Rightarrow> bool \<Rightarrow> string" where
  "scoreCell score letter graded = (if \<not> graded then ''not graded'' else Itoa score @ '' ('' @ letter @ '')'')"

definition ungradedNote :: "ScanDiff \<Rightarrow> string" where
  "ungradedNote d =
     (if \<not> df_GradedBefore d \<and> \<not> df_GradedAfter d then ''neither scan graded''
      else if \<not> df_GradedBefore d then ''before not graded'' else ''after not graded'')"

definition orDash :: "string \<Rightarrow> string" where
  "orDash s = (if s = '''' then ''-'' else s)"

definition flagText :: "FlagChange \<Rightarrow> string" where
  "flagText f =
     (if fc_Scan f = '''' then fc_Scanner f @ ''/'' @ fc_Field f
      else fc_Scanner f @ ''/'' @ fc_Field f @ '' since '' @ fc_Scan f)"

definition setDriftText :: "SetDrift \<Rightarrow> string" where
  "setDriftText s =
     '' '' @ strings_Join
       ((if sd_NewlyMissing s \<noteq> [] then [''now missing '' @ strings_Join (sd_NewlyMissing s) '', ''] else []) @
        (if sd_Restored s \<noteq> [] then [''restored '' @ strings_Join (sd_Restored s) '', ''] else [])) ''; ''"

definition maxDriftLines :: int where "maxDriftLines = 10"

definition drift_line :: "ClusterDrift \<Rightarrow> string" where
  "drift_line c =
     strings_Join
       ([cd_Cluster c @ '' deviation '' @ fmt_fixed1 (cd_MassBefore c) @ '' -> '' @ fmt_fixed1 (cd_MassAfter c)
           @ '' ('' @ fmt_plus1 (cd_MassDelta c) @ '')''] @
        (case cd_Fields c of [] \<Rightarrow> []
         | f # _ \<Rightarrow> [fd_Scanner f @ ''/'' @ fd_Field f @ '' '' @ orDash (fd_Before f) @ '' -> '' @ orDash (fd_After f)
                      @ '' (z '' @ fmt_fixed1 (fd_ZBefore f) @ '' -> '' @ fmt_fixed1 (fd_ZAfter f) @ '')'']) @
        map (\<lambda>g. ''now flagged on '' @ flagText g) (cd_Gained c) @
        map (\<lambda>g. ''no longer flagged on '' @ flagText g) (cd_Lost c)) '', ''"

text \<open>The loop over the rows, with the index it has reached.\<close>

fun drift_lines :: "int \<Rightarrow> int \<Rightarrow> int \<Rightarrow> ClusterDrift list \<Rightarrow> string list" where
  "drift_lines i limit n [] = []"
| "drift_lines i limit n (c # cs) =
     (if i = limit then [''... and '' @ Itoa (n - limit) @ '' more'']
      else drift_line c # drift_lines (i + 1) limit n cs)"

definition DriftLines :: "Ledger \<Rightarrow> int \<Rightarrow> string list" where
  "DriftLines l limit = drift_lines 0 limit (int (length (l_Clusters l))) (l_Clusters l)"

definition renderFindingsSection :: "string \<Rightarrow> Finding list \<Rightarrow> string \<Rightarrow> string \<Rightarrow> string" where
  "renderFindingsSection label fs color reset =
     (if fs = [] then color @ label @ '' findings: (none)'' @ reset @ newline_text @ newline_text
      else color @ label @ '' findings ('' @ Itoa (int (length fs)) @ ''):'' @ reset @ newline_text @
           unlines (map (\<lambda>f. ''  ['' @ f_Severity f @ ''] '' @ f_Cluster f @ '' -- '' @ f_Title f) fs) @ newline_text)"

definition text_section :: "bool \<Rightarrow> string \<Rightarrow> string list \<Rightarrow> string" where
  "text_section shown heading ls = (if shown then heading @ newline_text @ unlines ls @ newline_text else '''')"

definition RenderText :: "ScanDiff \<Rightarrow> bool \<Rightarrow> string" where
  "RenderText d color =
     (let red = wrap ''31'' color; green = wrap ''32'' color; yellow = wrap ''33'' color; dim = wrap ''90'' color;
          reset = (if \<not> color then '''' else [CHR 0x1B] @ ''[0m'');
          delta = df_ScoreAfter d - df_ScoreBefore d;
          deltaStr = (if \<not> ScoreComparable d then dim @ ungradedNote d @ reset
                      else if delta < 0 then red @ fmt_plus delta @ reset
                      else if delta > 0 then green @ fmt_plus delta @ reset
                      else dim @ fmt_plus delta @ reset)
      in ''Fleet Score:  '' @ scoreCell (df_ScoreBefore d) (df_GradeBefore d) (df_GradedBefore d) @ '' -> ''
           @ scoreCell (df_ScoreAfter d) (df_GradeAfter d) (df_GradedAfter d) @ ''  ('' @ deltaStr @ '')'' @ newline_text
         @ ''Critical:     '' @ Itoa (df_CriticalBefore d) @ '' -> '' @ Itoa (df_CriticalAfter d) @ newline_text
         @ ''Warning:      '' @ Itoa (df_WarningBefore d) @ '' -> '' @ Itoa (df_WarningAfter d) @ newline_text
         @ newline_text
         @ text_section (l_Clusters (df_Drift d) \<noteq> [])
             (yellow @ ''Drifted clusters ('' @ Itoa (int (length (l_Clusters (df_Drift d)))) @ ''):'' @ reset)
             (map (\<lambda>l. ''  '' @ l) (DriftLines (df_Drift d) maxDriftLines))
         @ renderFindingsSection ''NEW'' (df_New d) red reset
         @ renderFindingsSection ''RESOLVED'' (df_Resolved d) green reset
         @ text_section (df_SetDrift d \<noteq> []) (yellow @ ''Set drift ('' @ Itoa (int (length (df_SetDrift d))) @ ''):'' @ reset)
             (map (\<lambda>s. ''  '' @ sd_Cluster s @ '' '' @ sd_Scanner s @ ''/'' @ sd_Field s @ '':'' @ setDriftText s) (df_SetDrift d))
         @ text_section (df_ClusterStatusChanges d \<noteq> []) (yellow @ ''Cluster status changes:'' @ reset)
             (map (\<lambda>c. ''  '' @ cs_Cluster c @ '': '' @ cs_Before c @ '' -> '' @ cs_After c) (df_ClusterStatusChanges d))
         @ text_section (df_AddedClusters d \<noteq> []) (''Added clusters ('' @ Itoa (int (length (df_AddedClusters d))) @ ''):'')
             (map (\<lambda>c. ''  + '' @ c) (df_AddedClusters d))
         @ text_section (df_RemovedClusters d \<noteq> []) (''Removed clusters ('' @ Itoa (int (length (df_RemovedClusters d))) @ ''):'')
             (map (\<lambda>c. ''  - '' @ c) (df_RemovedClusters d))
         @ (if df_Persisted d \<noteq> []
            then dim @ Itoa (int (length (df_Persisted d))) @ '' findings persisted across both scans.'' @ reset @ newline_text
            else ''''))"

text \<open>The three arrows, in UTF-8.\<close>

definition arrow :: "int \<Rightarrow> string" where
  "arrow delta =
     (if delta < 0 then [CHR 0xE2, CHR 0xAC, CHR 0x87] else if delta > 0 then [CHR 0xE2, CHR 0xAC, CHR 0x86]
      else [CHR 0xE2, CHR 0x9E, CHR 0xA1]) @ [CHR 0xEF, CHR 0xB8, CHR 0x8F]"

definition md_section :: "bool \<Rightarrow> string \<Rightarrow> string list \<Rightarrow> string" where
  "md_section shown heading ls = (if shown then ''### '' @ heading @ newline_text @ newline_text @ unlines ls @ newline_text else '''')"

definition md_finding :: "Finding \<Rightarrow> string" where
  "md_finding f = ''- **['' @ f_Severity f @ '']** `'' @ f_Cluster f @ ''` -- '' @ f_Title f"

definition md_row :: "string \<Rightarrow> string \<Rightarrow> string \<Rightarrow> string \<Rightarrow> string" where
  "md_row a b c d = ''| '' @ a @ '' | '' @ b @ '' | '' @ c @ '' | '' @ d @ '' |''"

definition RenderMarkdown :: "ScanDiff \<Rightarrow> string" where
  "RenderMarkdown d =
     (let delta = df_ScoreAfter d - df_ScoreBefore d;
          deltaCell = (if \<not> ScoreComparable d then ungradedNote d else arrow delta @ '' '' @ fmt_plus delta)
      in ''## Fleetsweeper scan diff'' @ newline_text @ newline_text
         @ unlines [md_row ''Metric'' ''Before'' ''After'' ''Delta'', md_row ''------'' ''------'' ''-----'' ''-----'',
             md_row ''Fleet Score'' (scoreCell (df_ScoreBefore d) (df_GradeBefore d) (df_GradedBefore d))
               (scoreCell (df_ScoreAfter d) (df_GradeAfter d) (df_GradedAfter d)) deltaCell,
             md_row ''Critical findings'' (Itoa (df_CriticalBefore d)) (Itoa (df_CriticalAfter d))
               (fmt_plus (df_CriticalAfter d - df_CriticalBefore d)),
             md_row ''Warning findings'' (Itoa (df_WarningBefore d)) (Itoa (df_WarningAfter d))
               (fmt_plus (df_WarningAfter d - df_WarningBefore d))] @ newline_text
         @ md_section (l_Clusters (df_Drift d) \<noteq> []) (''Drifted clusters ('' @ Itoa (int (length (l_Clusters (df_Drift d)))) @ '')'')
             (map (\<lambda>l. ''- '' @ l) (DriftLines (df_Drift d) maxDriftLines))
         @ md_section (df_New d \<noteq> []) (''New findings ('' @ Itoa (int (length (df_New d))) @ '')'') (map md_finding (df_New d))
         @ md_section (df_Resolved d \<noteq> []) (''Resolved findings ('' @ Itoa (int (length (df_Resolved d))) @ '')'') (map md_finding (df_Resolved d))
         @ md_section (df_SetDrift d \<noteq> []) (''Set drift ('' @ Itoa (int (length (df_SetDrift d))) @ '')'')
             (map (\<lambda>s. ''- `'' @ sd_Cluster s @ ''` '' @ sd_Scanner s @ ''/'' @ sd_Field s @ '':'' @ setDriftText s) (df_SetDrift d))
         @ md_section (df_ClusterStatusChanges d \<noteq> []) (''Cluster status changes ('' @ Itoa (int (length (df_ClusterStatusChanges d))) @ '')'')
             (map (\<lambda>c. ''- `'' @ cs_Cluster c @ ''`: '' @ cs_Before c @ '' -> '' @ cs_After c) (df_ClusterStatusChanges d))
         @ (if df_AddedClusters d \<noteq> [] \<or> df_RemovedClusters d \<noteq> []
            then ''### Fleet membership'' @ newline_text
              @ (if df_AddedClusters d \<noteq> [] then ''Added: '' @ strings_Join (df_AddedClusters d) '', '' @ newline_text @ newline_text else '''')
              @ (if df_RemovedClusters d \<noteq> [] then ''Removed: '' @ strings_Join (df_RemovedClusters d) '', '' @ newline_text @ newline_text else '''')
            else ''''))"

section \<open>The findings of a diff\<close>

definition prints_of :: "(string \<Rightarrow> string) \<Rightarrow> Report option \<Rightarrow> string set" where
  "prints_of h r = (case r of None \<Rightarrow> {} | Some rep \<Rightarrow> FindingFingerprint h ` set (r_Findings rep))"

definition findings_of :: "Report option \<Rightarrow> Finding set" where
  "findings_of r = (case r of None \<Rightarrow> {} | Some rep \<Rightarrow> set (r_Findings rep))"

definition print_index :: "(Finding \<Rightarrow> string) \<Rightarrow> (string, Finding) gomap \<Rightarrow> bool" where
  "print_index key m \<longleftrightarrow> distinct (map fst m) \<and> (\<forall>k f. map_of m k = Some f \<longrightarrow> key f = k)"

lemma print_index_update: "print_index key m \<Longrightarrow> print_index key (AList.update (key f) f m)"
  by (auto simp: print_index_def distinct_update)

lemma index_fold:
  "print_index key m \<Longrightarrow>
   print_index key (fold (\<lambda>f. AList.update (key f) f) fs m) \<and>
   dom (map_of (fold (\<lambda>f. AList.update (key f) f) fs m)) = dom (map_of m) \<union> key ` set fs \<and>
   ran (map_of (fold (\<lambda>f. AList.update (key f) f) fs m)) \<subseteq> ran (map_of m) \<union> set fs"
proof (induction fs arbitrary: m)
  case (Cons x xs)
  have ran: "ran (map_of (AList.update (key x) x m)) \<subseteq> insert x (ran (map_of m))" by (auto simp: ran_def)
  have dom: "dom (map_of (AList.update (key x) x m)) = insert (key x) (dom (map_of m))" by simp
  have step: "fold (\<lambda>f. AList.update (key f) f) (x # xs) m = fold (\<lambda>f. AList.update (key f) f) xs (AList.update (key x) x m)" by simp
  note ih = Cons.IH [OF print_index_update [OF Cons.prems, of x]]
  show ?case unfolding step
  proof (intro conjI)
    show "ran (map_of (fold (\<lambda>f. AList.update (key f) f) xs (AList.update (key x) x m))) \<subseteq> ran (map_of m) \<union> set (x # xs)"
      using ih ran by (simp del: map_of_update) blast
    show "dom (map_of (fold (\<lambda>f. AList.update (key f) f) xs (AList.update (key x) x m))) = dom (map_of m) \<union> key ` set (x # xs)"
      using ih by (simp add: dom del: map_of_update)
  qed (use ih in blast)
qed simp

lemma index_by_print_ok: "print_index (FindingFingerprint h) (index_by_print h r)"
  and index_dom: "dom (map_of (index_by_print h r)) = prints_of h r"
  and index_ran: "ran (map_of (index_by_print h r)) \<subseteq> findings_of r"
proof -
  have e: "print_index (FindingFingerprint h) []" by (simp add: print_index_def)
  show "print_index (FindingFingerprint h) (index_by_print h r)"
    using index_fold [OF e] by (simp add: index_by_print_def e split: option.split)
  show "dom (map_of (index_by_print h r)) = prints_of h r"
    using index_fold [OF e] by (simp add: index_by_print_def prints_of_def split: option.split)
  show "ran (map_of (index_by_print h r)) \<subseteq> findings_of r"
    using index_fold [OF e] by (fastforce simp: index_by_print_def findings_of_def split: option.splits)
qed

lemma index_distinct: "distinct (map fst (index_by_print h r))"
  using index_by_print_ok [of h r] by (simp add: print_index_def)

lemma index_hit: "map_of (index_by_print h r) k = Some f \<Longrightarrow> FindingFingerprint h f = k"
  using index_by_print_ok [of h r] by (simp add: print_index_def)

lemma index_keys: "set (map fst (index_by_print h r)) = prints_of h r"
  by (simp flip: index_dom add: dom_map_of_conv_image_fst)

lemma map_filter_prints:
  assumes "\<And>k f. map_of idx k = Some f \<Longrightarrow> key f = k" "set ks = dom (map_of idx)" "distinct ks"
  shows "map key (List.map_filter (\<lambda>k. if P k then map_of idx k else None) ks) = filter P ks"
  using assms(2,3)
proof -
  have "set ks \<subseteq> dom (map_of idx) \<Longrightarrow>
      map key (List.map_filter (\<lambda>k. if P k then map_of idx k else None) ks) = filter P ks" for ks
    by (induction ks) (auto simp: List.map_filter_simps dest: assms(1))
  then show ?thesis using assms(2) by blast
qed

lemma map_filter_held: "set (List.map_filter (\<lambda>k. if P k then map_of idx k else None) ks) \<subseteq> ran (map_of idx)"
  by (auto simp: List.map_filter_def ran_def)

lemma Diff_findings:
  "df_New (Diff h orderA orderB a b) =
     sort_key FindingOrder (absent_from (index_by_print h a) (index_by_print h b) (orderB (map fst (index_by_print h b))))"
  "df_Resolved (Diff h orderA orderB a b) =
     sort_key FindingOrder (absent_from (index_by_print h b) (index_by_print h a) (orderA (map fst (index_by_print h a))))"
  "df_Persisted (Diff h orderA orderB a b) =
     sort_key FindingOrder (held_in (index_by_print h a) (index_by_print h b) (orderB (map fst (index_by_print h b))))"
  by (simp_all add: Diff_def populateSummary_def populateClusters_def populateFindings_def populateScore_def
      ScanDiff0_def Let_def split: option.split)

lemma Diff_clusters:
  "df_AddedClusters (Diff h orderA orderB a b) = sort (filter (\<lambda>n. map_of (health_index a) n = None) (map fst (health_index b)))"
  "df_RemovedClusters (Diff h orderA orderB a b) = sort (filter (\<lambda>n. map_of (health_index b) n = None) (map fst (health_index a)))"
  by (simp_all add: Diff_def populateSummary_def populateClusters_def populateFindings_def populateScore_def
      ScanDiff0_def Let_def split: option.split)

lemma picked_findings:
  assumes "mset ks = mset (map fst (index_by_print h r))"
    and fs_def: "fs = List.map_filter (\<lambda>k. if P k then map_of (index_by_print h r) k else None) ks"
  shows "mset (map (FindingFingerprint h) (sort_key FindingOrder fs)) = mset (filter P ks)"
    "set (sort_key FindingOrder fs) \<subseteq> findings_of r"
    "set (filter P ks) = {k \<in> prints_of h r. P k}" "distinct (filter P ks)"
proof -
  have ks: "set ks = prints_of h r" "distinct ks"
    using assms(1) index_keys [of h r] index_distinct [of h r] by (metis mset_eq_setD, metis mset_eq_imp_distinct_iff)
  have "map (FindingFingerprint h) fs = filter P ks"
    unfolding fs_def using ks index_dom index_hit by (intro map_filter_prints) auto
  then show "mset (map (FindingFingerprint h) (sort_key FindingOrder fs)) = mset (filter P ks)"
    by (metis mset_map mset_sort)
  show "set (sort_key FindingOrder fs) \<subseteq> findings_of r"
    using map_filter_held [of P "index_by_print h r" ks] index_ran [of h r] by (simp add: fs_def)
  show "set (filter P ks) = {k \<in> prints_of h r. P k}" using ks(1) by auto
  show "distinct (filter P ks)" using ks(2) by simp
qed

text \<open>C30. A diff sorts every finding into exactly one of three lists by its fingerprint: new when only the newer
  report has it, resolved when only the older one does, persisted when both do. No fingerprint is listed
  twice, new and persisted findings are those of the newer report and resolved ones those of the older, and
  the lists are ordered worst first, whatever the order in which the maps are visited.\<close>

theorem Diff_partition:
  assumes "mset (orderA (map fst (index_by_print h a))) = mset (map fst (index_by_print h a))"
    "mset (orderB (map fst (index_by_print h b))) = mset (map fst (index_by_print h b))"
  shows "let d = Diff h orderA orderB a b; fp = FindingFingerprint h
    in set (map fp (df_New d)) = prints_of h b - prints_of h a \<and>
       set (map fp (df_Resolved d)) = prints_of h a - prints_of h b \<and>
       set (map fp (df_Persisted d)) = prints_of h a \<inter> prints_of h b \<and>
       distinct (map fp (df_New d @ df_Resolved d @ df_Persisted d)) \<and>
       set (df_New d @ df_Persisted d) \<subseteq> findings_of b \<and> set (df_Resolved d) \<subseteq> findings_of a \<and>
       sorted (map FindingOrder (df_New d)) \<and> sorted (map FindingOrder (df_Resolved d)) \<and>
       sorted (map FindingOrder (df_Persisted d))"
proof -
  let ?fp = "FindingFingerprint h" and ?d = "Diff h orderA orderB a b"
  let ?aI = "index_by_print h a" and ?bI = "index_by_print h b"
  note new = picked_findings [OF assms(2) refl, where P = "\<lambda>k. map_of ?aI k = None", folded absent_from_def, folded Diff_findings(1) [of h orderA]]
  note gone = picked_findings [OF assms(1) refl, where P = "\<lambda>k. map_of ?bI k = None", folded absent_from_def, folded Diff_findings(2) [of h _ orderB]]
  note kept = picked_findings [OF assms(2) refl, where P = "\<lambda>k. map_of ?aI k \<noteq> None", folded held_in_def, folded Diff_findings(3) [of h orderA]]
  have none: "map_of ?aI k = None \<longleftrightarrow> k \<notin> prints_of h a" "map_of ?bI k = None \<longleftrightarrow> k \<notin> prints_of h b" for k
    using index_dom [of h a] index_dom [of h b] by auto
  have n: "set (map ?fp (df_New ?d)) = prints_of h b - prints_of h a"
    using mset_eq_setD [OF new(1)] new(3) none by auto
  have g: "set (map ?fp (df_Resolved ?d)) = prints_of h a - prints_of h b"
    using mset_eq_setD [OF gone(1)] gone(3) none by auto
  have k: "set (map ?fp (df_Persisted ?d)) = prints_of h a \<inter> prints_of h b"
    using mset_eq_setD [OF kept(1)] kept(3) none by auto
  have d: "distinct (map ?fp (df_New ?d))" "distinct (map ?fp (df_Resolved ?d))" "distinct (map ?fp (df_Persisted ?d))"
    using mset_eq_imp_distinct_iff [OF new(1)] new(4) mset_eq_imp_distinct_iff [OF gone(1)] gone(4)
      mset_eq_imp_distinct_iff [OF kept(1)] kept(4) by blast+
  have "distinct (map ?fp (df_New ?d @ df_Resolved ?d @ df_Persisted ?d))"
    unfolding map_append distinct_append set_append n g k using d by auto
  moreover have "sorted (map FindingOrder (df_New ?d))" "sorted (map FindingOrder (df_Resolved ?d))"
    "sorted (map FindingOrder (df_Persisted ?d))" by (simp_all add: Diff_findings)
  ultimately show ?thesis using n g k new(2) gone(2) kept(2) by (simp only: Let_def set_append Un_subset_iff simp_thms)
qed

text \<open>Read the other way round, a diff exchanges what is new with what is resolved, and the clusters that
  joined with those that left; a report does not differ from itself.\<close>

lemma Diff_reverse:
  "df_New (Diff h orderB orderA b a) = df_Resolved (Diff h orderA orderB a b) \<and>
   df_AddedClusters (Diff h orderB orderA b a) = df_RemovedClusters (Diff h orderA orderB a b)"
  by (simp add: Diff_findings Diff_clusters)

lemma Diff_same:
  assumes "set (orderA (map fst (index_by_print h a))) = set (map fst (index_by_print h a))"
  shows "df_New (Diff h orderB orderA a a) = [] \<and> df_Resolved (Diff h orderA orderB a a) = [] \<and>
    df_AddedClusters (Diff h orderA orderB a a) = []"
proof -
  have "absent_from (index_by_print h a) (index_by_print h a) ks = []" for ks
    by (induction ks) (auto simp: absent_from_def List.map_filter_simps)
  moreover have "filter (\<lambda>n. map_of m n = None) (map fst m) = []" for m :: "(string, string) gomap"
    by (auto simp: filter_empty_conv map_of_eq_None_iff)
  ultimately show ?thesis by (simp add: Diff_findings Diff_clusters)
qed


definition plain_finding :: "string \<Rightarrow> string \<Rightarrow> Finding" where
  "plain_finding cluster rule = Finding0\<lparr>f_Cluster := cluster, f_Rule := rule, f_Severity := SeverityWarning\<rparr>"

theorem Diff_partition_witness:
  "let a = Some (Report0\<lparr>r_Findings := [plain_finding ''c'' ''x'', plain_finding ''c'' ''y'']\<rparr>);
       b = Some (Report0\<lparr>r_Findings := [plain_finding ''c'' ''y'']\<rparr>);
       d = Diff (\<lambda>s. s) rev (\<lambda>ks. ks) a b
   in distinct (map (FindingFingerprint (\<lambda>s. s)) (df_New d @ df_Resolved d @ df_Persisted d)) \<and>
      set (map (FindingFingerprint (\<lambda>s. s)) (df_New d)) = {}"
  using Diff_partition [of rev "\<lambda>s. s" "Some (Report0\<lparr>r_Findings := [plain_finding ''c'' ''x'', plain_finding ''c'' ''y'']\<rparr>)"
      "\<lambda>ks. ks" "Some (Report0\<lparr>r_Findings := [plain_finding ''c'' ''y'']\<rparr>)"]
  by (simp add: Let_def prints_of_def)

end
