(* ===== verification/Api_Keys.thy ===== *)
theory Api_Keys
  imports RateLimit
begin

text \<open>
  The API key table of \<open>internal/store/apikeys.go\<close>. The table is the list of its rows in insertion
  order; its columns \<open>id\<close> and \<open>token_hash\<close> are unique (\<open>internal/store/migrate.go\<close>). A time is in
  nanoseconds since 1970 and the text of a time column, RFC 3339 without fractions, is the second it
  names. The cluster scope is kept as a list: its JSON text is written and read back by the same
  package. A statement that the database fails to execute is one with the flag \<open>fault\<close>; it changes
  nothing.
\<close>

datatype store_error = ErrNotFound | ErrDuplicate | ErrInvalid | ErrStore | ErrQuery

record APIKeyRecord =
  ak_ID :: string
  ak_TokenHash :: string
  ak_Name :: string
  ak_Role :: string
  ak_ClusterScope :: "string list"
  ak_CreatedAt :: int
  ak_ExpiresAt :: int
  ak_LastUsedAt :: int
  ak_RevokedAt :: int
  ak_CreatedBy :: string

record api_key_row =
  row_id :: string
  row_token_hash :: string
  row_name :: string
  row_role :: string
  row_cluster_scope :: "string list"
  row_created_at :: int
  row_expires_at :: "int option"
  row_last_used_at :: "int option"
  row_revoked_at :: "int option"
  row_created_by :: string

type_synonym api_keys = "api_key_row list"

definition RoleAdmin :: string where "RoleAdmin = ''admin''"
definition RoleOperator :: string where "RoleOperator = ''operator''"
definition RoleViewer :: string where "RoleViewer = ''viewer''"
definition ScopeWildcard :: string where "ScopeWildcard = ''*''"

definition ValidRole :: "string \<Rightarrow> bool" where
  "ValidRole r \<longleftrightarrow> r \<in> set [RoleAdmin, RoleOperator, RoleViewer]"

definition TokensEqual :: "string \<Rightarrow> string \<Rightarrow> bool" where
  "TokensEqual a b \<longleftrightarrow> length a = length b \<and> list_all (\<lambda>(x, y). x = y) (zip a b)"

definition column_time :: "int \<Rightarrow> int" where
  "column_time t = t div 1000000000"

definition nullable_time :: "int \<Rightarrow> int option" where
  "nullable_time t = (if t = zero_time then None else Some (column_time t))"

definition parsed_time :: "int option \<Rightarrow> int" where
  "parsed_time c = (case c of None \<Rightarrow> zero_time | Some s \<Rightarrow> s * 1000000000)"

definition SaveAPIKey :: "bool \<Rightarrow> int \<Rightarrow> APIKeyRecord \<Rightarrow> api_keys \<Rightarrow> api_keys \<times> store_error option" where
  "SaveAPIKey fault now rec rows =
     (if ak_ID rec = '''' \<or> ak_TokenHash rec = '''' then (rows, Some ErrInvalid)
      else if \<not> ValidRole (ak_Role rec) then (rows, Some ErrInvalid)
      else let scope = (if ak_ClusterScope rec = [] then [ScopeWildcard] else ak_ClusterScope rec);
               created = (if ak_CreatedAt rec = zero_time then now else ak_CreatedAt rec)
           in if fault then (rows, Some ErrStore)
              else if list_ex (\<lambda>r. row_id r = ak_ID rec \<or> row_token_hash r = ak_TokenHash rec) rows
                   then (rows, Some ErrDuplicate)
              else (rows @ [\<lparr>row_id = ak_ID rec, row_token_hash = ak_TokenHash rec, row_name = ak_Name rec,
                             row_role = ak_Role rec, row_cluster_scope = scope,
                             row_created_at = column_time created,
                             row_expires_at = nullable_time (ak_ExpiresAt rec),
                             row_last_used_at = nullable_time (ak_LastUsedAt rec),
                             row_revoked_at = nullable_time (ak_RevokedAt rec),
                             row_created_by = ak_CreatedBy rec\<rparr>], None))"

definition finishAPIKey :: "api_key_row \<Rightarrow> APIKeyRecord" where
  "finishAPIKey r =
     \<lparr>ak_ID = row_id r, ak_TokenHash = row_token_hash r, ak_Name = row_name r, ak_Role = row_role r,
      ak_ClusterScope = row_cluster_scope r, ak_CreatedAt = row_created_at r * 1000000000,
      ak_ExpiresAt = parsed_time (row_expires_at r), ak_LastUsedAt = parsed_time (row_last_used_at r),
      ak_RevokedAt = parsed_time (row_revoked_at r), ak_CreatedBy = row_created_by r\<rparr>"

definition get_api_key :: "(api_key_row \<Rightarrow> bool) \<Rightarrow> bool \<Rightarrow> api_keys \<Rightarrow> store_error + APIKeyRecord" where
  "get_api_key sel fault rows =
     (if fault then Inl ErrQuery
      else case find sel rows of None \<Rightarrow> Inl ErrNotFound | Some r \<Rightarrow> Inr (finishAPIKey r))"

definition GetAPIKeyByHash :: "bool \<Rightarrow> string \<Rightarrow> api_keys \<Rightarrow> store_error + APIKeyRecord" where
  "GetAPIKeyByHash fault hash = get_api_key (\<lambda>r. row_token_hash r = hash) fault"

definition GetAPIKey :: "bool \<Rightarrow> string \<Rightarrow> api_keys \<Rightarrow> store_error + APIKeyRecord" where
  "GetAPIKey fault key = get_api_key (\<lambda>r. row_id r = key) fault"

text \<open>SQL leaves the order of rows created in the same second open; here it is the table's.\<close>

definition ListAPIKeys :: "bool \<Rightarrow> api_keys \<Rightarrow> store_error + APIKeyRecord list" where
  "ListAPIKeys fault rows =
     (if fault then Inl ErrQuery else Inr (map finishAPIKey (sort_key (\<lambda>r. - row_created_at r) rows)))"

definition RevokeAPIKey :: "bool \<Rightarrow> int \<Rightarrow> string \<Rightarrow> api_keys \<Rightarrow> api_keys \<times> store_error option" where
  "RevokeAPIKey fault now key rows =
     (if fault then (rows, Some ErrStore)
      else let hit = (\<lambda>r. row_id r = key \<and> row_revoked_at r = None)
           in (map (\<lambda>r. if hit r then r\<lparr>row_revoked_at := Some (column_time now)\<rparr> else r) rows,
               if list_ex hit rows then None else Some ErrNotFound))"

definition TouchAPIKey :: "bool \<Rightarrow> string \<Rightarrow> int \<Rightarrow> api_keys \<Rightarrow> api_keys" where
  "TouchAPIKey fault key used rows =
     (if fault then rows
      else map (\<lambda>r. if row_id r = key then r\<lparr>row_last_used_at := Some (column_time used)\<rparr> else r) rows)"

lemma TokensEqual_iff [simp]: "TokensEqual a b \<longleftrightarrow> a = b"
proof -
  have "TokensEqual a b \<longleftrightarrow> list_all2 (=) a b" by (simp add: TokensEqual_def list_all2_iff list_all_iff)
  then show ?thesis by (simp add: list.rel_eq)
qed

section \<open>The table's invariant\<close>

definition key_wf :: "api_key_row \<Rightarrow> bool" where
  "key_wf r \<longleftrightarrow> row_id r \<noteq> '''' \<and> row_token_hash r \<noteq> '''' \<and> ValidRole (row_role r) \<and> row_cluster_scope r \<noteq> []"

definition keys_wf :: "api_keys \<Rightarrow> bool" where
  "keys_wf rows \<longleftrightarrow> distinct (map row_id rows) \<and> distinct (map row_token_hash rows) \<and> list_all key_wf rows"

lemma Revoke_columns:
  "f \<in> {row_id, row_token_hash} \<Longrightarrow> map f (fst (RevokeAPIKey fault now key rows)) = map f rows"
  by (auto simp: RevokeAPIKey_def Let_def comp_def intro!: map_cong)

lemma Touch_columns:
  "f \<in> {row_id, row_token_hash} \<Longrightarrow> map f (TouchAPIKey fault key used rows) = map f rows"
  by (auto simp: TouchAPIKey_def comp_def intro!: map_cong)

lemma keys_wf_Revoke: "keys_wf rows \<Longrightarrow> keys_wf (fst (RevokeAPIKey fault now key rows))"
  by (simp add: keys_wf_def Revoke_columns)
    (auto simp: RevokeAPIKey_def Let_def list_all_iff key_wf_def)

lemma keys_wf_Touch: "keys_wf rows \<Longrightarrow> keys_wf (TouchAPIKey fault key used rows)"
  by (simp add: keys_wf_def Touch_columns)
    (auto simp: TouchAPIKey_def Let_def list_all_iff key_wf_def)

lemma keys_wf_Save: "keys_wf rows \<Longrightarrow> keys_wf (fst (SaveAPIKey fault now rec rows))"
  by (auto simp: keys_wf_def SaveAPIKey_def Let_def list_all_iff key_wf_def list_ex_iff)

lemma find_unique:
  "distinct (map f rows) \<Longrightarrow> r \<in> set rows \<Longrightarrow> find (\<lambda>x. f x = f r) rows = Some r"
  by (induction rows) (auto simp: image_iff)

lemma GetAPIKeyByHash_row:
  "keys_wf rows \<Longrightarrow> r \<in> set rows \<Longrightarrow> GetAPIKeyByHash False (row_token_hash r) rows = Inr (finishAPIKey r)"
  using find_unique [of row_token_hash rows r]
  by (simp add: keys_wf_def GetAPIKeyByHash_def get_api_key_def)

end
