(* ===== verification/Session.thy ===== *)
theory Session
  imports Prelude
begin

text \<open>
  The signed session cookie and the claim mapping of \<open>internal/server/oidc.go\<close>. The cookie is a
  payload in base64url, a dot, and the HMAC of the encoded payload in base64url. HMAC-SHA256 and the
  JSON codec of the payload are parameters. The exchange with the identity provider is a parameter:
  the callback takes its answers as parameters.
\<close>

section \<open>Base64url without padding\<close>

definition b64_digit :: "nat \<Rightarrow> char" where
  "b64_digit d =
     (if d < 26 then char_of (65 + d) else if d < 52 then char_of (71 + d)
      else if d < 62 then char_of (d - 4) else if d = 62 then CHR ''-'' else CHR ''_'')"

definition b64_value :: "char \<Rightarrow> nat option" where
  "b64_value c =
     (let n = of_char c
      in if 65 \<le> n \<and> n \<le> 90 then Some (n - 65) else if 97 \<le> n \<and> n \<le> 122 then Some (n - 71)
         else if 48 \<le> n \<and> n \<le> 57 then Some (n + 4) else if n = 45 then Some 62
         else if n = 95 then Some 63 else None)"

fun b64_groups :: "nat list \<Rightarrow> nat list" where
  "b64_groups [] = []"
| "b64_groups [a] = [a div 4, a mod 4 * 16]"
| "b64_groups [a, b] = [a div 4, a mod 4 * 16 + b div 16, b mod 16 * 4]"
| "b64_groups (a # b # c # bs) =
     (a div 4) # (a mod 4 * 16 + b div 16) # (b mod 16 * 4 + c div 64) # (c mod 64) # b64_groups bs"

fun b64_bytes :: "nat list \<Rightarrow> nat list option" where
  "b64_bytes [] = Some []"
| "b64_bytes [w] = None"
| "b64_bytes [w, x] = Some [w * 4 + x div 16]"
| "b64_bytes [w, x, y] = Some [w * 4 + x div 16, x mod 16 * 16 + y div 4]"
| "b64_bytes (w # x # y # z # ds) =
     map_option (\<lambda>bs. (w * 4 + x div 16) # (x mod 16 * 16 + y div 4) # (y mod 4 * 64 + z) # bs) (b64_bytes ds)"

definition b64_encode :: "string \<Rightarrow> string" where
  "b64_encode s = map b64_digit (b64_groups (map of_char s))"

text \<open>The decoder of package \<open>base64\<close> skips carriage returns and newlines.\<close>

definition b64_decode :: "string \<Rightarrow> string option" where
  "b64_decode s =
     Option.bind (those (map b64_value (filter (\<lambda>c. c \<noteq> CHR 0x0A \<and> c \<noteq> CHR 0x0D) s)))
       (\<lambda>ds. map_option (map char_of) (b64_bytes ds))"

section \<open>Sessions\<close>

record sessionPayload =
  sp_Subject :: string
  sp_Role :: string
  sp_ExpiresAt :: int

definition session_signature :: "(string \<Rightarrow> string \<Rightarrow> string) \<Rightarrow> string \<Rightarrow> string \<Rightarrow> string" where
  "session_signature hmac secret encoded = b64_encode (hmac secret encoded)"

definition encodeSession ::
  "(string \<Rightarrow> string \<Rightarrow> string) \<Rightarrow> (sessionPayload \<Rightarrow> string) \<Rightarrow> sessionPayload \<Rightarrow> string \<Rightarrow> string" where
  "encodeSession hmac marshal p secret =
     (let encoded = b64_encode (marshal p) in encoded @ ''.'' @ session_signature hmac secret encoded)"

definition decodeSession ::
  "(string \<Rightarrow> string \<Rightarrow> string) \<Rightarrow> (string \<Rightarrow> string + sessionPayload) \<Rightarrow> string \<Rightarrow> string \<Rightarrow> int \<Rightarrow> string + sessionPayload" where
  "decodeSession hmac unmarshal cookie secret now =
     (case strings_Cut ''.'' cookie of
        None \<Rightarrow> Inl ''malformed session cookie''
      | Some (encoded, sig) \<Rightarrow>
          if session_signature hmac secret encoded \<noteq> sig then Inl ''session signature mismatch''
          else case b64_decode encoded of
                 None \<Rightarrow> Inl ''decode payload''
               | Some body \<Rightarrow>
                   (case unmarshal body of
                      Inl err \<Rightarrow> Inl (''unmarshal payload: '' @ err)
                    | Inr p \<Rightarrow> if sp_ExpiresAt p > 0 \<and> now \<ge> sp_ExpiresAt p then Inl ''session expired'' else Inr p))"

section \<open>Claims\<close>

definition claimMatch :: "(string \<times> json) list \<Rightarrow> string \<Rightarrow> bool" where
  "claimMatch claims pattern =
     (if pattern = '''' then False
      else case strings_Cut '':'' pattern of
             None \<Rightarrow> False
           | Some (name, want) \<Rightarrow>
               (case map_of claims name of
                  Some (JStr t) \<Rightarrow> t = want
                | Some (JArr items) \<Rightarrow> list_ex (\<lambda>i. i = JStr want) items
                | _ \<Rightarrow> False))"

definition stringClaim :: "(string \<times> json) list \<Rightarrow> string \<Rightarrow> string" where
  "stringClaim claims name = (case map_of claims name of Some (JStr s) \<Rightarrow> s | _ \<Rightarrow> '''')"

record OIDCConfig =
  oc_IssuerURL :: string
  oc_ClientID :: string
  oc_ClientSecret :: string
  oc_RedirectURL :: string
  oc_Scopes :: "string list"
  oc_SessionSecret :: string
  oc_SessionLifetime :: int
  oc_AdminClaim :: string
  oc_OperatorClaim :: string
  oc_DefaultRole :: string

text \<open>The configuration the server runs with: none when a required field is empty. The discovery of
  the provider can fail.\<close>

definition initOIDC :: "(string \<Rightarrow> string option) \<Rightarrow> OIDCConfig \<Rightarrow> string + OIDCConfig option" where
  "initOIDC discover_error cfg =
     (if oc_IssuerURL cfg = '''' \<or> oc_ClientID cfg = '''' \<or> oc_ClientSecret cfg = '''' \<or>
         oc_RedirectURL cfg = '''' \<or> oc_SessionSecret cfg = '''' then Inr None
      else case discover_error (oc_IssuerURL cfg) of
             Some err \<Rightarrow> Inl err
           | None \<Rightarrow> Inr (Some (cfg\<lparr>
               oc_Scopes := (if oc_Scopes cfg = [] then [''openid'', ''email'', ''profile''] else oc_Scopes cfg),
               oc_SessionLifetime := (if oc_SessionLifetime cfg \<le> 0 then 8 * 3600 * 1000000000 else oc_SessionLifetime cfg),
               oc_DefaultRole := (if oc_DefaultRole cfg = '''' then ''viewer'' else oc_DefaultRole cfg)\<rparr>)))"

text \<open>The session of a user whose token was verified; \<open>now\<close> is in nanoseconds.\<close>

definition callback_session :: "OIDCConfig \<Rightarrow> (string \<times> json) list \<Rightarrow> int \<Rightarrow> sessionPayload" where
  "callback_session cfg claims now =
     (let role = (if claimMatch claims (oc_AdminClaim cfg) then ''admin''
                  else if claimMatch claims (oc_OperatorClaim cfg) then ''operator''
                  else oc_DefaultRole cfg);
          subject = (if stringClaim claims ''email'' = '''' then stringClaim claims ''sub'' else stringClaim claims ''email'')
      in \<lparr>sp_Subject = subject, sp_Role = role,
          sp_ExpiresAt = (now + oc_SessionLifetime cfg) div 1000000000\<rparr>)"

text \<open>The callback ends in an error response or in the session cookie. The provider is a parameter:
  \<open>exchange\<close> gives the ID token of a code (none when the answer has none, an error when it fails),
  \<open>verify\<close> the claims of a token (none when they do not decode, an error when it is not valid).\<close>

definition handleOIDCCallback ::
  "(string \<Rightarrow> string \<Rightarrow> string) \<Rightarrow> (sessionPayload \<Rightarrow> string) \<Rightarrow>
   (string \<Rightarrow> unit + string option) \<Rightarrow> (string \<Rightarrow> unit + (string \<times> json) list option) \<Rightarrow>
   OIDCConfig option \<Rightarrow> string \<Rightarrow> string \<Rightarrow> string \<Rightarrow> int \<Rightarrow> int \<times> string + string" where
  "handleOIDCCallback hmac marshal exchange verify oidc stateCookie state code now =
     (case oidc of
        None \<Rightarrow> Inl (404, ''oidc not configured'')
      | Some cfg \<Rightarrow>
          if stateCookie = '''' then Inl (400, ''missing state cookie'')
          else if state \<noteq> stateCookie then Inl (400, ''state mismatch'')
          else if code = '''' then Inl (400, ''missing authorization code'')
          else case exchange code of
            Inl _ \<Rightarrow> Inl (401, ''token exchange failed'')
          | Inr token \<Rightarrow>
              if token = None \<or> token = Some '''' then Inl (401, ''missing id_token in response'')
              else case verify (the token) of
                Inl _ \<Rightarrow> Inl (401, ''id_token invalid'')
              | Inr None \<Rightarrow> Inl (400, ''decode claims failed'')
              | Inr (Some claims) \<Rightarrow>
                  Inr (encodeSession hmac marshal (callback_session cfg claims now) (oc_SessionSecret cfg)))"

section \<open>Laws\<close>

lemma b64_value_digit: "d < 64 \<Longrightarrow> b64_value (b64_digit d) = Some d"
  by (auto simp: b64_value_def b64_digit_def Let_def)

lemma b64_digit_char: "d < 64 \<Longrightarrow> b64_digit d \<noteq> CHR 0x0A \<and> b64_digit d \<noteq> CHR 0x0D \<and> b64_digit d \<noteq> CHR ''.''"
proof -
  assume "d < 64"
  then have "b64_value (b64_digit d) = Some d" by (rule b64_value_digit)
  moreover have "b64_value (CHR 0x0A) = None" "b64_value (CHR 0x0D) = None" "b64_value (CHR ''.'') = None"
    by (simp_all add: b64_value_def)
  ultimately show ?thesis by auto
qed

lemma b64_groups_small: "list_all (\<lambda>b. b < 256) bs \<Longrightarrow> list_all (\<lambda>d. d < 64) (b64_groups bs)"
  by (induction bs rule: b64_groups.induct) auto

lemma b64_bytes_groups: "list_all (\<lambda>b. b < 256) bs \<Longrightarrow> b64_bytes (b64_groups bs) = Some bs"
proof (induction bs rule: b64_groups.induct)
  case (2 a)
  then show ?case by simp
next
  case (3 a b)
  then have "(a mod 4 * 16 + b div 16) div 16 = a mod 4" "(a mod 4 * 16 + b div 16) mod 16 = b div 16" by auto
  then show ?case by simp
next
  case (4 a b c bs)
  then have "(a mod 4 * 16 + b div 16) div 16 = a mod 4" "(a mod 4 * 16 + b div 16) mod 16 = b div 16"
    "(b mod 16 * 4 + c div 64) div 4 = b mod 16" "(b mod 16 * 4 + c div 64) mod 4 = c div 64" by auto
  then show ?case using 4 by simp
qed simp

lemma those_digits: "list_all (\<lambda>d. d < 64) ds \<Longrightarrow> those (map b64_value (map b64_digit ds)) = Some ds"
  by (induction ds) (auto simp: b64_value_digit)

lemma b64_decode_encode [simp]: "b64_decode (b64_encode s) = Some s"
proof -
  let ?ds = "b64_groups (map of_char s :: nat list)"
  have bytes: "list_all (\<lambda>b. b < 256) (map of_char s :: nat list)" by (simp add: list_all_iff)
  then have small: "list_all (\<lambda>d. d < 64) ?ds" by (rule b64_groups_small)
  then have "filter (\<lambda>c. c \<noteq> CHR 0x0A \<and> c \<noteq> CHR 0x0D) (map b64_digit ?ds) = map b64_digit ?ds"
    by (auto simp: filter_id_conv list_all_iff b64_digit_char)
  then show ?thesis using those_digits [OF small] b64_bytes_groups [OF bytes]
    by (simp add: b64_decode_def b64_encode_def comp_def)
qed

lemma no_dot: "CHR ''.'' \<notin> set (b64_encode s)"
proof -
  have "list_all (\<lambda>d. d < 64) (b64_groups (map of_char s :: nat list))"
    by (rule b64_groups_small) (simp add: list_all_iff)
  then show ?thesis by (auto simp: b64_encode_def list_all_iff dest!: b64_digit_char)
qed

lemma strings_Cut_char: "c \<notin> set a \<Longrightarrow> strings_Cut [c] (a @ c # b) = Some (a, b)"
  by (induction a) (auto simp: strings_Cut.simps has_prefix_def)

lemma strings_Cut_parts: "strings_Cut [c] s = Some (a, b) \<Longrightarrow> s = a @ c # b \<and> c \<notin> set a"
  by (induction s arbitrary: a) (auto simp: strings_Cut.simps [of "[c]"] has_prefix_def split: if_splits)

text \<open>A session cookie is accepted exactly when it carries the signature of its payload under the
  server's secret, and then gives the payload that was signed until it expires; a cookie with any
  other signature is refused, whatever its payload.\<close>

lemma session_cookie:
  assumes "unmarshal (marshal p) = Inr p"
  shows "decodeSession hmac unmarshal (encodeSession hmac marshal p secret) secret now =
      (if sp_ExpiresAt p > 0 \<and> now \<ge> sp_ExpiresAt p then Inl ''session expired'' else Inr p) \<and>
    (decodeSession hmac unmarshal cookie secret now = Inr q \<longrightarrow>
      (\<exists>body raw. cookie = body @ ''.'' @ b64_encode (hmac secret body) \<and> CHR ''.'' \<notin> set body \<and>
        b64_decode body = Some raw \<and> unmarshal raw = Inr q \<and>
        (sp_ExpiresAt q > 0 \<longrightarrow> now < sp_ExpiresAt q)))"
proof
  show "decodeSession hmac unmarshal (encodeSession hmac marshal p secret) secret now =
      (if sp_ExpiresAt p > 0 \<and> now \<ge> sp_ExpiresAt p then Inl ''session expired'' else Inr p)"
    using strings_Cut_char [OF no_dot, of "marshal p"]
    by (simp add: decodeSession_def encodeSession_def Let_def assms)
  show "decodeSession hmac unmarshal cookie secret now = Inr q \<longrightarrow>
      (\<exists>body raw. cookie = body @ ''.'' @ b64_encode (hmac secret body) \<and> CHR ''.'' \<notin> set body \<and>
        b64_decode body = Some raw \<and> unmarshal raw = Inr q \<and>
        (sp_ExpiresAt q > 0 \<longrightarrow> now < sp_ExpiresAt q))"
    using strings_Cut_parts [of "CHR ''.''" cookie]
    by (auto simp: decodeSession_def session_signature_def split: option.splits sum.splits if_splits)
qed

definition example_payload :: sessionPayload where
  "example_payload = \<lparr>sp_Subject = ''ada'', sp_Role = ''viewer'', sp_ExpiresAt = 100\<rparr>"

lemma session_cookie_instance:
  "decodeSession (\<lambda>k m. k @ m) (\<lambda>s. if s = ''p'' then Inr example_payload else Inl ''bad'')
     (encodeSession (\<lambda>k m. k @ m) (\<lambda>_. ''p'') example_payload ''key'') ''key'' 99 = Inr example_payload \<and>
   decodeSession (\<lambda>k m. k @ m) (\<lambda>s. if s = ''p'' then Inr example_payload else Inl ''bad'')
     ''cA.AAAA'' ''key'' 99 = Inl ''session signature mismatch''"
proof -
  let ?un = "\<lambda>s. if s = ''p'' then Inr example_payload else Inl ''bad''"
  have codec: "?un ((\<lambda>_. ''p'') example_payload) = Inr example_payload" by simp
  have "decodeSession (\<lambda>k m. k @ m) ?un ''cA.AAAA'' ''key'' 99 = Inl ''session signature mismatch''"
    by code_simp
  then show ?thesis
    using session_cookie [where unmarshal = ?un and marshal = "\<lambda>_. ''p''" and p = example_payload
        and hmac = "\<lambda>k m. k @ m" and secret = "''key''" and now = 99, OF codec]
    by (simp add: example_payload_def)
qed

end
