(* ===== verification/Auth.thy ===== *)
theory Auth
  imports Api_Keys Session
begin

text \<open>
  Authentication and authorisation of API requests: \<open>internal/server/auth.go\<close>, the session half of
  \<open>oidc.go\<close>, \<open>admin_keys_handler.go\<close> and \<open>audit_middleware.go\<close>. The request that reaches the
  middleware has its path relative to \<open>/api\<close>. SHA-256 and HMAC, the JSON codec of a session and the
  parser of durations are parameters. A request makes at most one call of the store before its
  handler runs; \<open>fault\<close> says whether that call fails.
\<close>

section \<open>Actors\<close>

record Actor =
  ac_ID :: string
  ac_Name :: string
  ac_Role :: string
  ac_ClusterScope :: "string list"

definition HasWildcardScope :: "Actor \<Rightarrow> bool" where
  "HasWildcardScope a \<longleftrightarrow> ScopeWildcard \<in> set (ac_ClusterScope a)"

definition CanManageGroups :: "Actor \<Rightarrow> bool" where
  "CanManageGroups a \<longleftrightarrow> ac_Role a = RoleAdmin"

definition entry_allows :: "(string \<Rightarrow> string list) option \<Rightarrow> string \<Rightarrow> string \<Rightarrow> bool" where
  "entry_allows groups cluster entry \<longleftrightarrow> entry = cluster \<or>
     (case groups of
        None \<Rightarrow> False
      | Some members \<Rightarrow> has_prefix entry ''group:'' \<and> cluster \<in> set (members (trim_prefix entry ''group:'')))"

definition AllowsCluster :: "Actor \<Rightarrow> string \<Rightarrow> (string \<Rightarrow> string list) option \<Rightarrow> bool" where
  "AllowsCluster a cluster groups \<longleftrightarrow> HasWildcardScope a \<or> list_ex (entry_allows groups cluster) (ac_ClusterScope a)"

definition FilterClusters :: "Actor \<Rightarrow> string list \<Rightarrow> (string \<Rightarrow> string list) option \<Rightarrow> string list" where
  "FilterClusters a clusters groups =
     (if HasWildcardScope a then clusters else filter (\<lambda>c. AllowsCluster a c groups) clusters)"

text \<open>The lookup of a group: a failed one, or that of a group the store does not have, has no members.\<close>

definition groupLookup :: "(string \<Rightarrow> store_error + string list option) \<Rightarrow> string \<Rightarrow> string list" where
  "groupLookup get_group name =
     (case get_group name of Inr (Some clusters) \<Rightarrow> clusters | _ \<Rightarrow> [])"

definition actorFromContext :: "Actor option \<Rightarrow> Actor" where
  "actorFromContext ctx =
     (case ctx of Some a \<Rightarrow> a
      | None \<Rightarrow> \<lparr>ac_ID = ''unknown'', ac_Name = '''', ac_Role = RoleViewer, ac_ClusterScope = []\<rparr>)"

definition allowsAckCluster :: "Actor option \<Rightarrow> string \<Rightarrow> (string \<Rightarrow> string list) \<Rightarrow> bool" where
  "allowsAckCluster ctx cluster members =
     (let actor = actorFromContext ctx
      in if cluster = '''' \<or> cluster = ''fleet'' then HasWildcardScope actor
         else AllowsCluster actor cluster (Some members))"

definition roleAllowsWrite :: "string \<Rightarrow> bool" where
  "roleAllowsWrite role \<longleftrightarrow> role = RoleAdmin \<or> role = RoleOperator"

section \<open>Requests and the server\<close>

record request =
  rq_Method :: string
  rq_Path :: string
  rq_Authorization :: string
  rq_Cookie :: string

definition pathIsWebhook :: "string \<Rightarrow> bool" where
  "pathIsWebhook path = has_prefix path ''/webhooks/''"

definition pathIsAdmin :: "string \<Rightarrow> bool" where
  "pathIsAdmin path = has_prefix path ''/admin/''"

definition readOnlyPosts :: "string \<Rightarrow> bool" where
  "readOnlyPosts path \<longleftrightarrow> path = ''/whatif''"

definition mutates :: "request \<Rightarrow> bool" where
  "mutates r \<longleftrightarrow> requiresWrite (rq_Method r) \<and> \<not> (rq_Method r = ''POST'' \<and> readOnlyPosts (rq_Path r))"

definition extractBearer :: "string \<Rightarrow> string" where
  "extractBearer header =
     (let pre = ''Bearer ''
      in if length header \<le> length pre \<or> \<not> EqualFold (take (length pre) header) pre then ''''
         else trim_both is_space (drop (length pre) header))"

text \<open>What does not change while the server runs, and what does: the key table, whether a key has
  been seen, when the server last looked for one, the last time each key was touched, and the
  touches that background tasks have yet to write.\<close>

record auth_config =
  cf_insecure :: bool
  cf_authToken :: string
  cf_oidc :: "OIDCConfig option"

record auth_state =
  as_keys :: api_keys
  as_keysSeen :: bool
  as_keyCheckedAt :: int
  as_keyTouches :: "(string, int) gomap"
  as_touching :: "(string \<times> int) list"

definition new_auth :: "api_keys \<Rightarrow> auth_state" where
  "new_auth keys = \<lparr>as_keys = keys, as_keysSeen = False, as_keyCheckedAt = zero_time, as_keyTouches = [], as_touching = []\<rparr>"

definition keyRecheckInterval :: int where "keyRecheckInterval = 10 * 1000000000"
definition keyTouchInterval :: int where "keyTouchInterval = 60 * 1000000000"

definition holdsCredential :: "auth_config \<Rightarrow> auth_state \<Rightarrow> int \<Rightarrow> bool \<Rightarrow> auth_state \<times> bool" where
  "holdsCredential cfg st now fault =
     (if cf_authToken cfg \<noteq> '''' \<or> cf_oidc cfg \<noteq> None \<or> as_keysSeen st then (st, True)
      else if as_keyCheckedAt st \<noteq> zero_time \<and> time_Sub now (as_keyCheckedAt st) < keyRecheckInterval
           then (st, False)
      else case ListAPIKeys fault (as_keys st) of
             Inl _ \<Rightarrow> (st, True)
           | Inr keys \<Rightarrow>
               if length keys > 0 then (st\<lparr>as_keysSeen := True\<rparr>, True)
               else (st\<lparr>as_keyCheckedAt := now\<rparr>, False))"

definition missingCredential :: "auth_config \<Rightarrow> string" where
  "missingCredential cfg =
     (if cf_oidc cfg \<noteq> None then ''credential required: send a bearer token or sign in at /oidc/login''
      else ''credential required: send a bearer token'')"

definition touchAPIKey :: "auth_state \<Rightarrow> string \<Rightarrow> int \<Rightarrow> auth_state" where
  "touchAPIKey st key now =
     (case map_of (as_keyTouches st) key of
        Some used \<Rightarrow> if time_Sub now used < keyTouchInterval then st
                     else st\<lparr>as_keyTouches := AList.update key now (as_keyTouches st),
                             as_touching := as_touching st @ [(key, now)]\<rparr>
      | None \<Rightarrow> st\<lparr>as_keyTouches := AList.update key now (as_keyTouches st),
                   as_touching := as_touching st @ [(key, now)]\<rparr>)"

text \<open>A background task writes a touch, unless the server is shutting down.\<close>

definition flush_touch :: "bool \<Rightarrow> bool \<Rightarrow> string \<times> int \<Rightarrow> auth_state \<Rightarrow> auth_state" where
  "flush_touch stopped fault touch st =
     st\<lparr>as_touching := remove1 touch (as_touching st),
        as_keys := (if stopped then as_keys st else TouchAPIKey fault (fst touch) (snd touch) (as_keys st))\<rparr>"

section \<open>Authentication\<close>

definition actorFromSessionCookie ::
  "(string \<Rightarrow> string \<Rightarrow> string) \<Rightarrow> (string \<Rightarrow> string + sessionPayload) \<Rightarrow> auth_config \<Rightarrow> request \<Rightarrow> int \<Rightarrow> Actor option" where
  "actorFromSessionCookie hmac unmarshal cfg r now =
     (case cf_oidc cfg of
        None \<Rightarrow> None
      | Some oidc \<Rightarrow>
          if rq_Cookie r = '''' then None
          else case decodeSession hmac unmarshal (rq_Cookie r) (oc_SessionSecret oidc) (now div 1000000000) of
                 Inl _ \<Rightarrow> None
               | Inr session \<Rightarrow> Some
                   \<lparr>ac_ID = ''oidc:'' @ sp_Subject session,
                    ac_Name = (if sp_Subject session = '''' then ''oidc-session'' else sp_Subject session),
                    ac_Role = (if ValidRole (sp_Role session) then sp_Role session else RoleViewer),
                    ac_ClusterScope = [ScopeWildcard]\<rparr>)"

definition insecure_actor :: Actor where
  "insecure_actor = \<lparr>ac_ID = ''anonymous'', ac_Name = ''insecure-mode'', ac_Role = RoleAdmin, ac_ClusterScope = [ScopeWildcard]\<rparr>"

definition bootstrap_actor :: Actor where
  "bootstrap_actor = \<lparr>ac_ID = ''bootstrap'', ac_Name = ''bootstrap-token'', ac_Role = RoleAdmin, ac_ClusterScope = [ScopeWildcard]\<rparr>"

definition anonymous_viewer :: Actor where
  "anonymous_viewer = \<lparr>ac_ID = '''', ac_Name = '''', ac_Role = RoleViewer, ac_ClusterScope = []\<rparr>"

definition key_actor :: "APIKeyRecord \<Rightarrow> Actor" where
  "key_actor rec = \<lparr>ac_ID = ak_ID rec, ac_Name = ak_Name rec, ac_Role = ak_Role rec, ac_ClusterScope = ak_ClusterScope rec\<rparr>"

text \<open>The functions of a server that are not its own: the hash of a token, the MAC and the JSON
  decoder of a session.\<close>

record crypto =
  cr_hash :: "string \<Rightarrow> string"
  cr_hmac :: "string \<Rightarrow> string \<Rightarrow> string"
  cr_unmarshal :: "string \<Rightarrow> string + sessionPayload"

definition resolveActor ::
  "crypto \<Rightarrow> auth_config \<Rightarrow> auth_state \<Rightarrow> request \<Rightarrow> int \<Rightarrow> bool \<Rightarrow> auth_state \<times> (string + Actor)" where
  "resolveActor cr cfg st r now fault =
     (if cf_insecure cfg then (st, Inr insecure_actor)
      else let raw = extractBearer (rq_Authorization r)
           in if raw = '''' then
                (case actorFromSessionCookie (cr_hmac cr) (cr_unmarshal cr) cfg r now of
                   Some actor \<Rightarrow> (st, Inr actor)
                 | None \<Rightarrow>
                     let (st', holds) = holdsCredential cfg st now fault
                     in (st', if holds then Inl (missingCredential cfg) else Inr anonymous_viewer))
              else if cf_authToken cfg \<noteq> '''' \<and> TokensEqual raw (cf_authToken cfg) then (st, Inr bootstrap_actor)
              else case GetAPIKeyByHash fault (cr_hash cr raw) (as_keys st) of
                     Inl ErrNotFound \<Rightarrow> (st, Inl ''invalid bearer token'')
                   | Inl _ \<Rightarrow> (st, Inl ''authentication unavailable'')
                   | Inr rec \<Rightarrow>
                       if ak_RevokedAt rec \<noteq> zero_time then (st, Inl ''token revoked'')
                       else if ak_ExpiresAt rec \<noteq> zero_time \<and> now > ak_ExpiresAt rec then (st, Inl ''token expired'')
                       else (touchAPIKey st (ak_ID rec) now, Inr (key_actor rec)))"

text \<open>The middleware passes a request on, with an actor in its context except on a webhook path, or
  answers it itself.\<close>

datatype passage =
    Admitted "Actor option"
  | Refused int string

definition authMiddleware ::
  "crypto \<Rightarrow> auth_config \<Rightarrow> auth_state \<Rightarrow> request \<Rightarrow> int \<Rightarrow> bool \<Rightarrow> auth_state \<times> passage" where
  "authMiddleware cr cfg st r now fault =
     (if pathIsWebhook (rq_Path r) then (st, Admitted None)
      else let (st', res) = resolveActor cr cfg st r now fault
           in (st', case res of
                      Inl err \<Rightarrow> Refused 401 err
                    | Inr actor \<Rightarrow>
                        if mutates r \<and> ac_ID actor = '''' then Refused 401 ''missing bearer token''
                        else if mutates r \<and> \<not> roleAllowsWrite (ac_Role actor) \<and> \<not> pathIsAdmin (rq_Path r)
                             then Refused 403 ''role does not permit writes''
                        else if pathIsAdmin (rq_Path r) \<and> (ac_ID actor = '''' \<or> ac_Role actor \<noteq> RoleAdmin)
                             then Refused 403 ''admin role required''
                        else Admitted (Some actor)))"

section \<open>Key management\<close>

record createAPIKeyRequest =
  ck_Name :: string
  ck_Role :: string
  ck_ClusterScope :: "string list"
  ck_TTL :: string

definition normalizeScope :: "string list \<Rightarrow> string list" where
  "normalizeScope entries =
     (if entries = [] then [ScopeWildcard]
      else let out = fold (\<lambda>e out. if e = '''' \<or> e \<in> set out then out else out @ [e]) entries []
           in if out = [] then [ScopeWildcard] else out)"

text \<open>The handler after the body is decoded: \<open>token\<close> is the new token, if the random source gave one,
  \<open>key\<close> the new identifier. The answer is a status with an error message, or the record and the
  token.\<close>

definition handleAdminCreateKey ::
  "(string \<Rightarrow> string) \<Rightarrow> (string \<Rightarrow> int option) \<Rightarrow> bool \<Rightarrow> int \<Rightarrow> string option \<Rightarrow> string \<Rightarrow>
   Actor option \<Rightarrow> createAPIKeyRequest \<Rightarrow> api_keys \<Rightarrow> api_keys \<times> (int \<times> string + APIKeyRecord \<times> string)" where
  "handleAdminCreateKey hash parse_duration fault now token key ctx req rows =
     (if ck_Name req = '''' then (rows, Inl (400, ''name is required''))
      else if \<not> ValidRole (ck_Role req) then (rows, Inl (400, ''role must be admin, operator, or viewer''))
      else case token of
        None \<Rightarrow> (rows, Inl (500, ''generate token failed''))
      | Some raw \<Rightarrow>
          let rec = \<lparr>ak_ID = key, ak_TokenHash = hash raw, ak_Name = ck_Name req, ak_Role = ck_Role req,
                     ak_ClusterScope = normalizeScope (ck_ClusterScope req), ak_CreatedAt = now,
                     ak_ExpiresAt = zero_time, ak_LastUsedAt = zero_time, ak_RevokedAt = zero_time,
                     ak_CreatedBy = ac_ID (actorFromContext ctx)\<rparr>;
              save = (\<lambda>rec. case SaveAPIKey fault now rec rows of
                        (rows', None) \<Rightarrow> (rows', Inr (rec, raw))
                      | (rows', Some _) \<Rightarrow> (rows', Inl (500, ''save key failed'')))
          in if ck_TTL req = '''' then save rec
             else case parse_duration (ck_TTL req) of
                    None \<Rightarrow> (rows, Inl (400, ''ttl must be a Go duration (for example 720h)''))
                  | Some d \<Rightarrow> save (rec\<lparr>ak_ExpiresAt := now + d\<rparr>))"

definition handleAdminListKeys :: "bool \<Rightarrow> api_keys \<Rightarrow> int \<times> string + APIKeyRecord list" where
  "handleAdminListKeys fault rows =
     (case ListAPIKeys fault rows of
        Inl _ \<Rightarrow> Inl (500, ''list keys failed'')
      | Inr keys \<Rightarrow> Inr (map (\<lambda>k. k\<lparr>ak_TokenHash := ''''\<rparr>) keys))"

text \<open>A revocation publishes the key and the actor on the event bus.\<close>

definition handleAdminRevokeKey ::
  "bool \<Rightarrow> int \<Rightarrow> Actor option \<Rightarrow> string \<Rightarrow> api_keys \<Rightarrow> api_keys \<times> (int \<times> string + string \<times> string)" where
  "handleAdminRevokeKey fault now ctx key rows =
     (if key = '''' then (rows, Inl (400, ''key id required''))
      else case RevokeAPIKey fault now key rows of
             (rows', None) \<Rightarrow> (rows', Inr (key, ac_ID (actorFromContext ctx)))
           | (rows', Some ErrNotFound) \<Rightarrow> (rows', Inl (404, ''key not found''))
           | (rows', Some _) \<Rightarrow> (rows', Inl (500, ''revoke key failed'')))"

section \<open>The audit log\<close>

record AuditEntry =
  ae_Timestamp :: int
  ae_ActorID :: string
  ae_ActorName :: string
  ae_ActorRole :: string
  ae_Method :: string
  ae_Path :: string
  ae_Status :: int
  ae_DurationMS :: int
  ae_Error :: string

definition auditBodyCap :: nat where "auditBodyCap = 512"

text \<open>The writer that copies what a handler writes, and its answer as the status and the chunks it
  writes.\<close>

definition audit_Write :: "string \<Rightarrow> string \<Rightarrow> string" where
  "audit_Write body p =
     (if length body < auditBodyCap then body @ take (min (auditBodyCap - length body) (length p)) p else body)"

definition extractErrorMessage :: "string \<Rightarrow> string" where
  "extractErrorMessage body =
     (case strings_Cut (CHR 0x22 # ''error'' @ [CHR 0x22, CHR '':'', CHR 0x22]) body of
        None \<Rightarrow> ''''
      | Some (_, rest) \<Rightarrow>
          (case strings_Cut [CHR 0x22] rest of
             None \<Rightarrow> if length rest > 200 then take 200 rest else rest
           | Some (message, _) \<Rightarrow> take (if length message > 200 then 200 else length message) rest))"

definition auditMiddleware ::
  "bool \<Rightarrow> Actor option \<Rightarrow> request \<Rightarrow> int \<Rightarrow> int \<Rightarrow> int \<times> string list \<Rightarrow> AuditEntry list \<Rightarrow> AuditEntry list" where
  "auditMiddleware fault ctx r started finished answer entries =
     (if \<not> mutates r then entries
      else let (status, chunks) = answer; body = fold (\<lambda>p body. audit_Write body p) chunks [];
               actor = actorFromContext ctx;
               entry = \<lparr>ae_Timestamp = started, ae_ActorID = ac_ID actor, ae_ActorName = ac_Name actor,
                        ae_ActorRole = ac_Role actor, ae_Method = rq_Method r, ae_Path = rq_Path r,
                        ae_Status = status, ae_DurationMS = (time_Sub finished started) sdiv 1000000,
                        ae_Error = (if status \<ge> 400 then extractErrorMessage body else '''')\<rparr>
           in if fault then entries else entries @ [entry])"


section \<open>What a request needs\<close>

definition live_key :: "int \<Rightarrow> APIKeyRecord \<Rightarrow> bool" where
  "live_key now rec \<longleftrightarrow> ak_RevokedAt rec = zero_time \<and> (ak_ExpiresAt rec = zero_time \<or> now \<le> ak_ExpiresAt rec)"

text \<open>The credentials that make a request that of an actor.\<close>

inductive vouched :: "crypto \<Rightarrow> auth_config \<Rightarrow> auth_state \<Rightarrow> request \<Rightarrow> int \<Rightarrow> Actor \<Rightarrow> bool"
  for cr cfg st r now where
  vouched_insecure: "cf_insecure cfg \<Longrightarrow> vouched cr cfg st r now insecure_actor"
| vouched_bootstrap: "cf_authToken cfg \<noteq> '''' \<Longrightarrow> extractBearer (rq_Authorization r) = cf_authToken cfg \<Longrightarrow>
    vouched cr cfg st r now bootstrap_actor"
| vouched_key: "extractBearer (rq_Authorization r) \<noteq> '''' \<Longrightarrow> row \<in> set (as_keys st) \<Longrightarrow>
    row_token_hash row = cr_hash cr (extractBearer (rq_Authorization r)) \<Longrightarrow> live_key now (finishAPIKey row) \<Longrightarrow>
    vouched cr cfg st r now (key_actor (finishAPIKey row))"
| vouched_session: "cf_oidc cfg = Some oidc \<Longrightarrow>
    decodeSession (cr_hmac cr) (cr_unmarshal cr) (rq_Cookie r) (oc_SessionSecret oidc) (now div 1000000000) = Inr session \<Longrightarrow>
    actorFromSessionCookie (cr_hmac cr) (cr_unmarshal cr) cfg r now = Some a \<Longrightarrow> vouched cr cfg st r now a"

lemma get_api_key_Inr: "get_api_key sel fault rows = Inr rec \<Longrightarrow> \<exists>row \<in> set rows. sel row \<and> rec = finishAPIKey row"
  by (auto simp: get_api_key_def find_Some_iff split: if_splits option.splits)

lemma resolveActor_vouched:
  assumes "resolveActor cr cfg st r now fault = (st', Inr a)"
  shows "vouched cr cfg st r now a \<or> a = anonymous_viewer \<and> snd (holdsCredential cfg st now fault) = False"
proof (cases "cf_insecure cfg")
  case True
  then show ?thesis using assms by (auto simp: resolveActor_def intro: vouched.intros)
next
  case secure: False
  let ?raw = "extractBearer (rq_Authorization r)"
  show ?thesis
  proof (cases "?raw = ''''")
    case True
    then show ?thesis using assms secure
      by (auto simp: resolveActor_def actorFromSessionCookie_def split: option.splits if_splits sum.splits prod.splits
          intro: vouched_session)
  next
    case raw: False
    show ?thesis
    proof (cases "cf_authToken cfg \<noteq> '''' \<and> ?raw = cf_authToken cfg")
      case True
      then show ?thesis using assms secure raw by (auto simp: resolveActor_def Let_def intro: vouched_bootstrap)
    next
      case False
      then obtain rec where "GetAPIKeyByHash fault (cr_hash cr ?raw) (as_keys st) = Inr rec"
        "live_key now rec" "a = key_actor rec"
        using assms secure raw
        by (auto simp: resolveActor_def Let_def live_key_def not_less split: sum.splits store_error.splits if_splits)
      with raw show ?thesis by (auto simp: GetAPIKeyByHash_def dest!: get_api_key_Inr intro: vouched_key)
    qed
  qed
qed


section \<open>Runs\<close>

datatype auth_event =
    Served request int passage
  | Minted APIKeyRecord int "store_error option"
  | Revoked string int "store_error option"
  | Flushed int

primrec event_time :: "auth_event \<Rightarrow> int" where
  "event_time (Served r now out) = now"
| "event_time (Minted rec now res) = now"
| "event_time (Revoked key now res) = now"
| "event_time (Flushed now) = now"

text \<open>Keys are created and revoked by the handlers, and by the command line on the same store.\<close>

inductive auth_step :: "crypto \<Rightarrow> auth_config \<Rightarrow> auth_state \<Rightarrow> auth_event \<Rightarrow> auth_state \<Rightarrow> bool"
  for cr cfg where
  step_serve: "authMiddleware cr cfg st r now fault = (st', out) \<Longrightarrow> auth_step cr cfg st (Served r now out) st'"
| step_mint: "SaveAPIKey fault now rec (as_keys st) = (keys, res) \<Longrightarrow>
    auth_step cr cfg st (Minted rec now res) (st\<lparr>as_keys := keys\<rparr>)"
| step_revoke: "RevokeAPIKey fault now key (as_keys st) = (keys, res) \<Longrightarrow>
    auth_step cr cfg st (Revoked key now res) (st\<lparr>as_keys := keys\<rparr>)"
| step_flush: "touch \<in> set (as_touching st) \<Longrightarrow>
    auth_step cr cfg st (Flushed now) (flush_touch stopped fault touch st)"

inductive_cases auth_stepE: "auth_step cr cfg st e st'"

inductive_simps auth_step_served: "auth_step cr cfg st (Served r now out) st'"

lemma touchAPIKey_fields [simp]:
  "as_keys (touchAPIKey st key now) = as_keys st"
  "as_keysSeen (touchAPIKey st key now) = as_keysSeen st"
  "as_keyCheckedAt (touchAPIKey st key now) = as_keyCheckedAt st"
  by (auto simp: touchAPIKey_def split: option.splits)

lemma holdsCredential_keys [simp]: "as_keys (fst (holdsCredential cfg st now fault)) = as_keys st"
  by (auto simp: holdsCredential_def split: sum.splits)

text \<open>Serving a request leaves the keys alone, and what the server knows of them changes only in
  \<open>holdsCredential\<close>.\<close>

lemma authMiddleware_state:
  assumes "authMiddleware cr cfg st r now fault = (st', out)"
  obtains "as_keys st' = as_keys st" "as_keysSeen st' = as_keysSeen st" "as_keyCheckedAt st' = as_keyCheckedAt st"
  | "st' = fst (holdsCredential cfg st now fault)"
proof -
  have "as_keys st' = as_keys st \<and> as_keysSeen st' = as_keysSeen st \<and> as_keyCheckedAt st' = as_keyCheckedAt st \<or>
      st' = fst (holdsCredential cfg st now fault)"
    using assms by (auto simp: authMiddleware_def resolveActor_def Let_def
        split: prod.splits sum.splits if_splits option.splits store_error.splits)
  then show thesis using that by blast
qed


text \<open>A table that comes after another has its rows, and what was revoked stays so.\<close>

definition key_kept :: "api_key_row \<Rightarrow> api_key_row \<Rightarrow> bool" where
  "key_kept r r' \<longleftrightarrow> row_id r' = row_id r \<and> row_token_hash r' = row_token_hash r \<and>
     (row_revoked_at r \<noteq> None \<longrightarrow> row_revoked_at r' = row_revoked_at r)"

definition keys_later :: "api_keys \<Rightarrow> api_keys \<Rightarrow> bool" where
  "keys_later rows rows' \<longleftrightarrow> (\<forall>r \<in> set rows. \<exists>r' \<in> set rows'. key_kept r r')"

lemma keys_later_refl [simp]: "keys_later rows rows"
  by (auto simp: keys_later_def key_kept_def)

lemma keys_later_Save: "SaveAPIKey fault now rec rows = (rows', res) \<Longrightarrow> keys_later rows rows'"
  by (auto simp: SaveAPIKey_def Let_def keys_later_def key_kept_def split: if_splits)

lemma keys_later_map: "(\<And>r. key_kept r (f r)) \<Longrightarrow> keys_later rows (map f rows)"
  unfolding keys_later_def set_map by blast

lemma keys_later_Revoke: "RevokeAPIKey fault now key rows = (rows', res) \<Longrightarrow> keys_later rows rows'"
  unfolding RevokeAPIKey_def Let_def
  by (cases fault) (auto simp: key_kept_def simp del: map_map intro!: keys_later_map)

lemma keys_later_Touch: "keys_later rows (TouchAPIKey fault key used rows)"
  unfolding TouchAPIKey_def by (auto simp: key_kept_def intro!: keys_later_map)

lemma saved_row:
  "SaveAPIKey fault now rec rows = (rows', None) \<Longrightarrow>
    \<exists>row \<in> set rows'. row_id row = ak_ID rec \<and> row_token_hash row = ak_TokenHash rec"
  by (auto simp: SaveAPIKey_def Let_def split: if_splits)

lemma revoked_row:
  assumes "RevokeAPIKey fault now key rows = (rows', None)" "0 \<le> now"
  shows "\<exists>row \<in> set rows'. row_id row = key \<and> (\<exists>c \<ge> 0. row_revoked_at row = Some c)"
proof -
  let ?hit = "\<lambda>r. row_id r = key \<and> row_revoked_at r = None"
  let ?f = "\<lambda>r. if ?hit r then r\<lparr>row_revoked_at := Some (column_time now)\<rparr> else r"
  have rows': "rows' = map ?f rows" and "list_ex ?hit rows"
    using assms by (auto simp: RevokeAPIKey_def Let_def split: if_splits)
  then obtain r where "r \<in> set rows" "?hit r" by (auto simp: list_ex_iff)
  then have "?f r \<in> set rows'" "row_id (?f r) = key" "row_revoked_at (?f r) = Some (column_time now)"
    by (simp_all add: rows' del: set_map) (simp add: rev_image_eqI)
  then show ?thesis using assms(2) by (auto simp: column_time_def)
qed

lemma auth_step_keys:
  assumes "auth_step cr cfg st e st'"
  shows "keys_later (as_keys st) (as_keys st') \<and> (keys_wf (as_keys st) \<longrightarrow> keys_wf (as_keys st'))"
  using assms
proof (cases rule: auth_step.cases)
  case (step_serve r now fault out)
  then show ?thesis by (auto elim: authMiddleware_state)
next
  case (step_mint fault now rec keys res)
  then show ?thesis using keys_later_Save keys_wf_Save by (metis auth_state.select_convs(1) auth_state.surjective auth_state.update_convs(1) fst_conv)
next
  case (step_revoke fault now key keys res)
  then show ?thesis using keys_later_Revoke keys_wf_Revoke by (metis auth_state.select_convs(1) auth_state.surjective auth_state.update_convs(1) fst_conv)
next
  case (step_flush touch now stopped fault)
  then show ?thesis by (simp add: flush_touch_def keys_later_Touch keys_wf_Touch)
qed

definition key_facts :: "auth_event \<Rightarrow> api_keys \<Rightarrow> bool" where
  "key_facts e rows =
     (case e of
        Minted rec t None \<Rightarrow> \<exists>row \<in> set rows. row_id row = ak_ID rec \<and> row_token_hash row = ak_TokenHash rec
      | Revoked key t None \<Rightarrow> 0 \<le> t \<longrightarrow>
          (\<exists>row \<in> set rows. row_id row = key \<and> (\<exists>c \<ge> 0. row_revoked_at row = Some c))
      | _ \<Rightarrow> True)"

lemma key_facts_later: "key_facts e rows \<Longrightarrow> keys_later rows rows' \<Longrightarrow> key_facts e rows'"
  by (fastforce simp: key_facts_def keys_later_def key_kept_def split: auth_event.splits option.splits)

lemma key_facts_step: "auth_step cr cfg st e st' \<Longrightarrow> key_facts e (as_keys st')"
  by (cases rule: auth_step.cases, assumption)
    (auto simp: key_facts_def saved_row revoked_row split: option.splits)

definition check_facts :: "auth_event list \<Rightarrow> auth_state \<Rightarrow> bool" where
  "check_facts es st \<longleftrightarrow>
     as_keyCheckedAt st = zero_time \<or>
     as_keyCheckedAt st \<in> event_time ` set es \<and>
     (sorted (map event_time es) \<longrightarrow> (\<forall>rec t. Minted rec t None \<in> set es \<longrightarrow> as_keyCheckedAt st \<le> t))"

definition auth_inv :: "auth_event list \<Rightarrow> auth_state \<Rightarrow> bool" where
  "auth_inv es st \<longleftrightarrow> keys_wf (as_keys st) \<and> (\<forall>e \<in> set es. key_facts e (as_keys st)) \<and> check_facts es st"

lemma check_facts_same:
  assumes "check_facts es st" "as_keyCheckedAt st' = as_keyCheckedAt st"
  shows "check_facts (es @ [e]) st'"
  using assms by (auto simp: check_facts_def sorted_append)

lemma no_keys_not_minted: "key_facts e [] \<Longrightarrow> e \<noteq> Minted rec t None"
  by (auto simp: key_facts_def)

lemma sort_key_Nil [simp]: "sort_key f rows = [] \<longleftrightarrow> rows = []"
  by (metis length_0_conv length_sort)

lemma holdsCredential_checked:
  "as_keyCheckedAt (fst (holdsCredential cfg st now fault)) \<noteq> as_keyCheckedAt st \<Longrightarrow>
    as_keys st = [] \<and> as_keyCheckedAt (fst (holdsCredential cfg st now fault)) = now"
  by (auto simp: holdsCredential_def ListAPIKeys_def split: sum.splits if_splits)

lemma check_facts_step:
  assumes inv: "auth_inv es st" and step: "auth_step cr cfg st e st'"
  shows "check_facts (es @ [e]) st'"
  using step
proof (cases rule: auth_step.cases)
  case (step_serve r now fault out)
  show ?thesis
  proof (cases "as_keyCheckedAt st' = as_keyCheckedAt st")
    case True
    then show ?thesis using inv by (auto simp: auth_inv_def intro: check_facts_same [of es st])
  next
    case False
    then have "as_keys st = []" "as_keyCheckedAt st' = now"
      using step_serve by (auto elim!: authMiddleware_state dest: holdsCredential_checked)
    moreover from this have "Minted rec t None \<notin> set es" for rec t
      using inv no_keys_not_minted by (auto simp: auth_inv_def)
    ultimately show ?thesis using step_serve by (auto simp: check_facts_def)
  qed
qed (use inv in \<open>auto simp: auth_inv_def flush_touch_def intro!: check_facts_same [of es st]\<close>)

interpretation auth: history_invariant "auth_step cr cfg" auth_inv for cr cfg
proof
  fix es st e st' assume inv: "auth_inv es st" and step: "auth_step cr cfg st e st'"
  then show "auth_inv (es @ [e]) st'"
    using auth_step_keys [OF step] key_facts_step [OF step] check_facts_step [OF inv step]
    by (auto simp: auth_inv_def intro: key_facts_later)
qed

lemma auth_start: "keys_wf keys \<Longrightarrow> auth_inv [] (new_auth keys)"
  by (simp add: auth_inv_def check_facts_def new_auth_def)


lemma auth_run:
  "runs (auth_step cr cfg) (new_auth keys) es st \<Longrightarrow> keys_wf keys \<Longrightarrow> auth_inv es st"
  by (rule auth.inv_runs [OF _ auth_start])

lemma revoked_seen:
  assumes "keys_wf rows" "key_facts (Minted rec t None) rows" "key_facts (Revoked (ak_ID rec) u None) rows" "0 \<le> u"
  obtains row c where "row \<in> set rows" "row_token_hash row = ak_TokenHash rec" "row_revoked_at row = Some c" "0 \<le> c"
proof -
  obtain a b where rows: "a \<in> set rows" "row_id a = ak_ID rec" "row_token_hash a = ak_TokenHash rec"
      "b \<in> set rows" "row_id b = ak_ID rec" and revoked: "\<exists>c \<ge> 0. row_revoked_at b = Some c"
    using assms(2-4) by (auto simp: key_facts_def)
  have "a = b" using assms(1) rows by (auto simp: keys_wf_def distinct_map inj_on_def)
  then show ?thesis using rows revoked that by auto
qed

text \<open>C11. A revoked key stays revoked: once a run of the server has revoked a key, no request that
  presents its token is admitted again, whatever is created, revoked, touched or failing in between.\<close>

theorem revoked_refused:
  assumes "keys_wf keys" "runs (auth_step cr cfg) (new_auth keys) es st"
    "Minted rec t None \<in> set es" "Revoked (ak_ID rec) u None \<in> set es" "0 \<le> u"
    "auth_step cr cfg st (Served r now out) st'"
    "\<not> cf_insecure cfg" "\<not> pathIsWebhook (rq_Path r)" "extractBearer (rq_Authorization r) = raw"
    "raw \<noteq> ''''" "raw \<noteq> cf_authToken cfg" "cr_hash cr raw = ak_TokenHash rec"
  shows "out = Refused 401 ''token revoked'' \<or> out = Refused 401 ''authentication unavailable''"
proof -
  have inv: "auth_inv es st" using auth_run assms(1,2) by blast
  with assms(3-5) obtain row c where row: "row \<in> set (as_keys st)" "row_token_hash row = cr_hash cr raw"
      and c: "row_revoked_at row = Some c" "0 \<le> c"
    unfolding auth_inv_def using revoked_seen [of "as_keys st" rec t u] assms(12) by metis
  have get: "GetAPIKeyByHash False (cr_hash cr raw) (as_keys st) = Inr (finishAPIKey row)"
    using GetAPIKeyByHash_row row inv by (metis auth_inv_def)
  have revoked: "ak_RevokedAt (finishAPIKey row) \<noteq> zero_time"
    using c by (simp add: finishAPIKey_def parsed_time_def zero_time_def)
  obtain fault where "authMiddleware cr cfg st r now fault = (st', out)"
    using assms(6) by (auto simp: auth_step_served)
  then show ?thesis using assms(7-11) get revoked
    by (cases fault) (auto simp: authMiddleware_def resolveActor_def Let_def GetAPIKeyByHash_def get_api_key_def
        split: if_splits)
qed

text \<open>C12. Anonymous reads end ten seconds after the first key is created, by this server or by the
  command line on its store: a later request without a bearer token and a session is refused.\<close>

theorem no_anonymous_reads:
  assumes "keys_wf keys" "runs (auth_step cr cfg) (new_auth keys) es st"
    "sorted (map event_time es)" "Minted rec t None \<in> set es" "t + keyRecheckInterval \<le> now"
    "auth_step cr cfg st (Served r now out) st'"
    "\<not> cf_insecure cfg" "\<not> pathIsWebhook (rq_Path r)" "extractBearer (rq_Authorization r) = ''''"
    "actorFromSessionCookie (cr_hmac cr) (cr_unmarshal cr) cfg r now = None"
  shows "out = Refused 401 (missingCredential cfg)"
proof -
  have inv: "auth_inv es st" using auth_run assms(1,2) by blast
  then have "as_keys st \<noteq> []" using assms(4) no_keys_not_minted unfolding auth_inv_def by fastforce
  then have keys: "\<And>fault ks. ListAPIKeys fault (as_keys st) = Inr ks \<Longrightarrow> 0 < length ks"
    by (auto simp: ListAPIKeys_def split: if_splits)
  have "as_keyCheckedAt st = zero_time \<or> as_keyCheckedAt st \<le> t"
    using inv assms(3,4) by (auto simp: auth_inv_def check_facts_def)
  then have check: "\<not> (as_keyCheckedAt st \<noteq> zero_time \<and> time_Sub now (as_keyCheckedAt st) < keyRecheckInterval)"
    using assms(5) by (auto simp: time_Sub_def keyRecheckInterval_def)
  have holds: "snd (holdsCredential cfg st now fault)" for fault
    using check keys [of fault] by (auto simp: holdsCredential_def split: sum.splits)
  obtain fault where "authMiddleware cr cfg st r now fault = (st', out)"
    using assms(6) by (auto simp: auth_step_served)
  then show ?thesis using assms(7-10) holds [of fault]
    by (auto simp: authMiddleware_def resolveActor_def Let_def split: prod.splits)
qed


section \<open>An example server\<close>

definition example_crypto :: crypto where
  "example_crypto = \<lparr>cr_hash = (\<lambda>s. ''h'' @ s), cr_hmac = (\<lambda>k m. k @ m), cr_unmarshal = (\<lambda>s. Inl ''bad'')\<rparr>"

definition example_config :: auth_config where
  "example_config = \<lparr>cf_insecure = False, cf_authToken = '''', cf_oidc = None\<rparr>"

definition example_key :: APIKeyRecord where
  "example_key = \<lparr>ak_ID = ''k1'', ak_TokenHash = ''hfsk'', ak_Name = ''ci'', ak_Role = ''operator'', ak_ClusterScope = [''prod''],
     ak_CreatedAt = 1000000000, ak_ExpiresAt = zero_time, ak_LastUsedAt = zero_time, ak_RevokedAt = zero_time,
     ak_CreatedBy = ''cli''\<rparr>"

definition example_request :: "string \<Rightarrow> string \<Rightarrow> request" where
  "example_request method header =
     \<lparr>rq_Method = method, rq_Path = ''/scans'', rq_Authorization = header, rq_Cookie = ''''\<rparr>"

definition example_keys :: "int option \<Rightarrow> api_keys" where
  "example_keys revoked =
     [\<lparr>row_id = ''k1'', row_token_hash = ''hfsk'', row_name = ''ci'', row_role = ''operator'', row_cluster_scope = [''prod''],
       row_created_at = 1, row_expires_at = None, row_last_used_at = None, row_revoked_at = revoked,
       row_created_by = ''cli''\<rparr>]"

lemmas example_defs = example_crypto_def example_config_def example_key_def example_request_def example_keys_def

lemma example_bearer [simp]:
  "extractBearer (rq_Authorization (example_request m ''Bearer fsk'')) = ''fsk''"
  "extractBearer (rq_Authorization (example_request m '''')) = ''''"
  "rq_Path (example_request m h) = ''/scans''"
  "rq_Method (example_request m h) = m"
  "pathIsWebhook ''/scans'' = False" "pathIsAdmin ''/scans'' = False"
  by (simp_all add: example_request_def) code_simp+

lemma example_save:
  "SaveAPIKey False 1000000000 example_key [] = (example_keys None, None)"
  by (simp add: SaveAPIKey_def example_defs ValidRole_def RoleAdmin_def RoleOperator_def RoleViewer_def
      nullable_time_def column_time_def zero_time_def)

lemma example_mint: "auth_step example_crypto example_config (new_auth [])
    (Minted example_key 1000000000 None) (new_auth (example_keys None))"
  using step_mint [of False 1000000000 example_key "new_auth []" "example_keys None" None] example_save
  by (simp add: new_auth_def)

lemma example_revoke: "auth_step example_crypto example_config (new_auth (example_keys None))
    (Revoked ''k1'' 5000000000 None) (new_auth (example_keys (Some 5)))"
  using step_revoke [of False 5000000000 "''k1''" "new_auth (example_keys None)" "example_keys (Some 5)" None]
  by (simp add: new_auth_def RevokeAPIKey_def example_keys_def column_time_def)

lemma example_runs:
  "runs (auth_step example_crypto example_config) (new_auth []) [Minted example_key 1000000000 None] (new_auth (example_keys None))"
  "runs (auth_step example_crypto example_config) (new_auth [])
     [Minted example_key 1000000000 None, Revoked ''k1'' 5000000000 None] (new_auth (example_keys (Some 5)))"
proof -
  show one: "runs (auth_step example_crypto example_config) (new_auth []) [Minted example_key 1000000000 None] (new_auth (example_keys None))"
    using runs_step [of "auth_step example_crypto example_config", OF runs_start example_mint] by simp
  show "runs (auth_step example_crypto example_config) (new_auth [])
     [Minted example_key 1000000000 None, Revoked ''k1'' 5000000000 None] (new_auth (example_keys (Some 5)))"
    using runs_step [of "auth_step example_crypto example_config", OF one example_revoke] by simp
qed

lemma keys_wf_Nil [simp]: "keys_wf []"
  by (simp add: keys_wf_def)

definition example_actor :: Actor where
  "example_actor = \<lparr>ac_ID = ''k1'', ac_Name = ''ci'', ac_Role = ''operator'', ac_ClusterScope = [''prod'']\<rparr>"

lemma example_lookup:
  "GetAPIKeyByHash False ''hfsk'' (example_keys revoked) = Inr (finishAPIKey (hd (example_keys revoked)))"
  by (simp add: GetAPIKeyByHash_def get_api_key_def example_keys_def)

lemma example_admitted:
  "authMiddleware example_crypto example_config (new_auth (example_keys None)) (example_request ''POST'' ''Bearer fsk'')
      7000000000 False = (touchAPIKey (new_auth (example_keys None)) ''k1'' 7000000000, Admitted (Some example_actor))"
  using example_lookup [of None]
  by (simp add: authMiddleware_def resolveActor_def Let_def new_auth_def example_crypto_def example_config_def
      finishAPIKey_def parsed_time_def example_keys_def example_actor_def key_actor_def roleAllowsWrite_def
      RoleOperator_def mutates_def requiresWrite_def)

lemma example_revoked:
  "authMiddleware example_crypto example_config (new_auth (example_keys (Some 5))) (example_request ''GET'' ''Bearer fsk'')
      7000000000 False = (new_auth (example_keys (Some 5)), Refused 401 ''token revoked'')"
  using example_lookup [of "Some 5"]
  by (simp add: authMiddleware_def resolveActor_def Let_def new_auth_def example_crypto_def example_config_def
      finishAPIKey_def parsed_time_def example_keys_def zero_time_def)


theorem revoked_refused_witness:
  "\<exists>st' out. auth_step example_crypto example_config (new_auth (example_keys (Some 5)))
       (Served (example_request ''GET'' ''Bearer fsk'') 7000000000 out) st' \<and>
     (out = Refused 401 ''token revoked'' \<or> out = Refused 401 ''authentication unavailable'')"
proof -
  have step: "auth_step example_crypto example_config (new_auth (example_keys (Some 5)))
      (Served (example_request ''GET'' ''Bearer fsk'') 7000000000 (Refused 401 ''token revoked'')) (new_auth (example_keys (Some 5)))"
    by (rule step_serve [OF example_revoked])
  have "Refused 401 ''token revoked'' = Refused 401 ''token revoked'' \<or>
      Refused 401 ''token revoked'' = Refused 401 ''authentication unavailable''"
    by (rule revoked_refused [OF keys_wf_Nil example_runs(2) _ _ _ step, where rec = example_key and t = 1000000000
          and u = 5000000000 and raw = "''fsk''"])
      (simp_all add: example_config_def example_crypto_def example_key_def)
  with step show ?thesis by blast
qed

theorem no_anonymous_reads_witness:
  "\<exists>st' out. auth_step example_crypto example_config (new_auth (example_keys None))
       (Served (example_request ''GET'' '''') 12000000000 out) st' \<and>
     out = Refused 401 ''credential required: send a bearer token''"
proof -
  obtain st' out where step: "auth_step example_crypto example_config (new_auth (example_keys None))
      (Served (example_request ''GET'' '''') 12000000000 out) st'"
    using step_serve surj_pair by metis
  have "out = Refused 401 (missingCredential example_config)"
    by (rule no_anonymous_reads [OF keys_wf_Nil example_runs(1) _ _ _ step, where rec = example_key and t = 1000000000])
      (simp_all add: example_config_def actorFromSessionCookie_def keyRecheckInterval_def)
  with step show ?thesis by (auto simp: missingCredential_def example_config_def)
qed

section \<open>Key creation\<close>

lemma normalizeScope_step:
  "set (fold (\<lambda>e out. if e = '''' \<or> e \<in> set out then out else out @ [e]) entries out) =
     set out \<union> {e \<in> set entries. e \<noteq> ''''}"
  by (induction entries arbitrary: out) auto

lemma normalizeScope_set:
  "set (normalizeScope entries) =
     (if list_all (\<lambda>e. e = '''') entries then {ScopeWildcard} else {e \<in> set entries. e \<noteq> ''''})"
  using normalizeScope_step [of entries "[]"]
  by (auto simp: normalizeScope_def Let_def list_all_iff set_empty [symmetric] simp del: set_empty)

lemma normalizeScope_nonempty [simp]: "normalizeScope entries \<noteq> []"
  by (simp add: normalizeScope_def Let_def)

lemma dropWhile_none: "\<forall>c \<in> set s. \<not> P c \<Longrightarrow> dropWhile P s = s"
  by (cases s) auto

text \<open>C13. A token that the server mints authenticates its caller as the key it belongs to, with the
  role and the scope that were asked for, from its creation until it expires, when the random source
  gives a new token without spaces.\<close>

theorem created_key_authenticates:
  assumes "keys_wf (as_keys st)"
    "handleAdminCreateKey (cr_hash cr) parse_duration False now (Some raw) key ctx req (as_keys st) = (rows', Inr (rec, raw))"
    "list_all (\<lambda>c. \<not> is_space c) raw" "raw \<noteq> ''''" "raw \<noteq> cf_authToken cfg" "\<not> cf_insecure cfg"
    "rq_Authorization r = ''Bearer '' @ raw" "ak_ExpiresAt rec = zero_time \<or> 0 \<le> ak_ExpiresAt rec"
  shows "snd (resolveActor cr cfg (st\<lparr>as_keys := rows'\<rparr>) r u False) =
    (if ak_ExpiresAt rec \<noteq> zero_time \<and> u > ak_ExpiresAt rec div 1000000000 * 1000000000 then Inl ''token expired''
     else Inr \<lparr>ac_ID = key, ac_Name = ck_Name req, ac_Role = ck_Role req,
               ac_ClusterScope = normalizeScope (ck_ClusterScope req)\<rparr>)"
proof -
  have save: "SaveAPIKey False now rec (as_keys st) = (rows', None)"
    and rec: "ak_ID rec = key" "ak_Name rec = ck_Name req" "ak_Role rec = ck_Role req"
      "ak_ClusterScope rec = normalizeScope (ck_ClusterScope req)" "ak_TokenHash rec = cr_hash cr raw"
      "ak_RevokedAt rec = zero_time"
    using assms(2) by (auto simp: handleAdminCreateKey_def Let_def split: if_splits option.splits prod.splits)
  define row where "row = last rows'"
  from save rec have row: "row \<in> set rows'" "row_token_hash row = cr_hash cr raw" and
      fields: "row_id row = key" "row_name row = ck_Name req" "row_role row = ck_Role req"
      "row_cluster_scope row = normalizeScope (ck_ClusterScope req)" "row_revoked_at row = None"
      "row_expires_at row = nullable_time (ak_ExpiresAt rec)"
    by (auto simp: row_def SaveAPIKey_def Let_def nullable_time_def split: if_splits)
  have "keys_wf rows'" using keys_wf_Save [OF assms(1)] save by (metis fst_conv)
  then have get: "GetAPIKeyByHash False (cr_hash cr raw) rows' = Inr (finishAPIKey row)"
    using GetAPIKeyByHash_row row by metis
  have "trim_both is_space raw = raw"
    using assms(3) by (simp add: trim_both_def trim_left_def trim_right_def list_all_iff dropWhile_none)
  then have bearer: "extractBearer (rq_Authorization r) = raw"
    using assms(4,7) by (simp add: extractBearer_def Let_def EqualFold_def)
  have expiry: "ak_ExpiresAt (finishAPIKey row) =
      (if ak_ExpiresAt rec = zero_time then zero_time else ak_ExpiresAt rec div 1000000000 * 1000000000)"
    by (simp add: finishAPIKey_def fields parsed_time_def nullable_time_def column_time_def)
  have live: "ak_RevokedAt (finishAPIKey row) = zero_time"
    by (simp add: finishAPIKey_def fields parsed_time_def)
  have actor: "key_actor (finishAPIKey row) = \<lparr>ac_ID = key, ac_Name = ck_Name req, ac_Role = ck_Role req,
      ac_ClusterScope = normalizeScope (ck_ClusterScope req)\<rparr>"
    by (simp add: key_actor_def finishAPIKey_def fields)
  have "ak_ExpiresAt rec \<noteq> zero_time \<Longrightarrow> ak_ExpiresAt rec div 1000000000 * 1000000000 \<noteq> zero_time"
    using assms(8) by (auto simp: zero_time_def)
  then show ?thesis
    using assms(4-6) by (simp add: resolveActor_def Let_def bearer get expiry live actor)
qed

definition example_create_request :: createAPIKeyRequest where
  "example_create_request = \<lparr>ck_Name = ''ci'', ck_Role = ''operator'', ck_ClusterScope = [''prod'', ''prod''], ck_TTL = ''''\<rparr>"

lemma example_create:
  "handleAdminCreateKey (cr_hash example_crypto) (\<lambda>_. None) False 1000000000 (Some ''fsk'') ''k1''
     (Some (example_actor\<lparr>ac_ID := ''cli''\<rparr>)) example_create_request [] = (example_keys None, Inr (example_key, ''fsk''))"
  using example_save
  by (simp add: handleAdminCreateKey_def example_create_request_def example_crypto_def example_key_def Let_def
      ValidRole_def RoleOperator_def actorFromContext_def normalizeScope_def)

theorem created_key_authenticates_witness:
  "snd (resolveActor example_crypto example_config (new_auth (example_keys None)) (example_request ''GET'' ''Bearer fsk'')
      9000000000 False) =
    Inr \<lparr>ac_ID = ''k1'', ac_Name = ''ci'', ac_Role = ''operator'', ac_ClusterScope = [''prod'']\<rparr>"
proof -
  have create: "handleAdminCreateKey (cr_hash example_crypto) (\<lambda>_. None) False 1000000000 (Some ''fsk'') ''k1''
      (Some (example_actor\<lparr>ac_ID := ''cli''\<rparr>)) example_create_request (as_keys (new_auth [])) =
      (example_keys None, Inr (example_key, ''fsk''))"
    using example_create by (simp add: new_auth_def)
  have "snd (resolveActor example_crypto example_config ((new_auth [])\<lparr>as_keys := example_keys None\<rparr>)
      (example_request ''GET'' ''Bearer fsk'') 9000000000 False) =
    (if ak_ExpiresAt example_key \<noteq> zero_time \<and> 9000000000 > ak_ExpiresAt example_key div 1000000000 * 1000000000
     then Inl ''token expired''
     else Inr \<lparr>ac_ID = ''k1'', ac_Name = ck_Name example_create_request, ac_Role = ck_Role example_create_request,
               ac_ClusterScope = normalizeScope (ck_ClusterScope example_create_request)\<rparr>)"
    by (rule created_key_authenticates [OF _ create])
      (simp_all add: new_auth_def example_config_def example_request_def example_key_def is_space_def)
  then show ?thesis
    by (simp add: new_auth_def example_key_def example_create_request_def normalizeScope_def)
qed

section \<open>The audit log\<close>

lemma audit_Write_take: "length body \<le> auditBodyCap \<Longrightarrow> audit_Write body p = take auditBodyCap (body @ p)"
  by (auto simp: audit_Write_def min_def)

lemma take_take_append: "take n (take n xs @ ys) = take n (xs @ ys)"
  by (cases "length xs \<le> n") auto

lemma audit_Write_all:
  "length body \<le> auditBodyCap \<Longrightarrow>
    fold (\<lambda>p body. audit_Write body p) chunks body = take auditBodyCap (body @ concat chunks)"
proof (induction chunks arbitrary: body)
  case (Cons p ps)
  have "fold (\<lambda>p body. audit_Write body p) (p # ps) body =
      take auditBodyCap (take auditBodyCap (body @ p) @ concat ps)"
    using Cons.IH [of "take auditBodyCap (body @ p)"] Cons.prems
    by (simp add: audit_Write_take del: take_append)
  then show ?case by (simp only: take_take_append concat.simps append_assoc)
qed simp

text \<open>The chain behind the limiter: authentication, then the audit log around the handler, which is a
  function of the actor in its context.\<close>

definition serve_api ::
  "crypto \<Rightarrow> auth_config \<Rightarrow> (Actor option \<Rightarrow> int \<times> string list) \<Rightarrow> bool \<times> bool \<Rightarrow> int \<times> int \<Rightarrow> request \<Rightarrow>
   auth_state \<times> AuditEntry list \<Rightarrow> (auth_state \<times> AuditEntry list) \<times> int" where
  "serve_api cr cfg handler faults clock r state =
     (let (st, entries) = state; (started, finished) = clock
      in case authMiddleware cr cfg st r started (fst faults) of
           (st', Refused status _) \<Rightarrow> ((st', entries), status)
         | (st', Admitted ctx) \<Rightarrow>
             ((st', auditMiddleware (snd faults) ctx r started finished (handler ctx) entries), fst (handler ctx)))"

text \<open>While its table accepts rows, the audit log gains exactly one entry for a request that mutates
  and passes authentication, with its actor, its status and the message of an error, and none for a
  read or for a request that authentication refuses.\<close>

lemma audited_iff_admitted:
  "\<exists>audited. snd (fst (serve_api cr cfg handler (fault, False) (started, finished) r (st, entries))) = entries @ audited \<and>
    map (\<lambda>e. (ae_Method e, ae_Path e, ae_ActorID e, ae_Status e, ae_Error e)) audited =
    (case snd (authMiddleware cr cfg st r started fault) of
       Refused status message \<Rightarrow> []
     | Admitted ctx \<Rightarrow>
         if \<not> mutates r then []
         else [(rq_Method r, rq_Path r, ac_ID (actorFromContext ctx), fst (handler ctx),
                if fst (handler ctx) \<ge> 400
                then extractErrorMessage (take auditBodyCap (concat (snd (handler ctx)))) else '''')])"
  by (auto simp: serve_api_def auditMiddleware_def Let_def audit_Write_all split: prod.splits passage.splits)

end
