(* ===== verification/Acks.thy ===== *)
theory Acks
  imports Auth Rules
begin

text \<open>
  Acknowledgements of findings and alerts: the table of \<open>internal/store/acks.go\<close> and the handlers of
  \<open>internal/server/acks_handler.go\<close>. The table is a map from the fingerprint, its primary key, to the
  other columns, in insertion order; the text of a time column is the second it names and sorts as that
  number. A statement the database fails to execute has its fault flag set and changes nothing.
\<close>

section \<open>The table\<close>

record AckRecord =
  ack_Fingerprint :: string
  ack_Cluster :: string
  ack_Scanner :: string
  ack_Title :: string
  ack_AckBy :: string
  ack_Reason :: string
  ack_SnoozeUntil :: int
  ack_CreatedAt :: int

record ack_row =
  arow_cluster :: string
  arow_scanner :: string
  arow_title :: string
  arow_ack_by :: string
  arow_reason :: string
  arow_snooze_until :: "int option"
  arow_created_at :: int

type_synonym acks = "(string, ack_row) gomap"

definition ack_columns :: "int \<Rightarrow> AckRecord \<Rightarrow> ack_row" where
  "ack_columns now rec =
     \<lparr>arow_cluster = ack_Cluster rec, arow_scanner = ack_Scanner rec, arow_title = ack_Title rec,
      arow_ack_by = ack_AckBy rec, arow_reason = ack_Reason rec,
      arow_snooze_until = nullable_time (ack_SnoozeUntil rec),
      arow_created_at = column_time (if ack_CreatedAt rec = zero_time then now else ack_CreatedAt rec)\<rparr>"

definition SaveAck :: "bool \<Rightarrow> int \<Rightarrow> AckRecord \<Rightarrow> acks \<Rightarrow> acks \<times> store_error option" where
  "SaveAck fault now rec rows =
     (if ack_Fingerprint rec = '''' then (rows, Some ErrInvalid)
      else if fault then (rows, Some ErrStore)
      else (AList.update (ack_Fingerprint rec) (ack_columns now rec) rows, None))"

definition DeleteAck :: "bool \<Rightarrow> string \<Rightarrow> acks \<Rightarrow> acks \<times> store_error option" where
  "DeleteAck fault fingerprint rows = (if fault then (rows, Some ErrStore) else (AList.delete fingerprint rows, None))"

definition ack_expired :: "int \<Rightarrow> ack_row \<Rightarrow> bool" where
  "ack_expired now r \<longleftrightarrow> (case arow_snooze_until r of None \<Rightarrow> False | Some s \<Rightarrow> s < column_time now)"

definition pruneExpiredAcks :: "bool \<Rightarrow> int \<Rightarrow> acks \<Rightarrow> acks \<times> store_error option" where
  "pruneExpiredAcks fault now rows =
     (if fault then (rows, Some ErrStore) else (filter (\<lambda>(k, r). \<not> ack_expired now r) rows, None))"

definition scanAckRow :: "string \<Rightarrow> ack_row \<Rightarrow> AckRecord" where
  "scanAckRow fingerprint r =
     \<lparr>ack_Fingerprint = fingerprint, ack_Cluster = arow_cluster r, ack_Scanner = arow_scanner r, ack_Title = arow_title r,
      ack_AckBy = arow_ack_by r, ack_Reason = arow_reason r, ack_SnoozeUntil = parsed_time (arow_snooze_until r),
      ack_CreatedAt = arow_created_at r * 1000000000\<rparr>"

text \<open>The reads prune first. \<open>faults\<close> are the faults of the pruning and of the query.\<close>

definition GetAck :: "bool \<times> bool \<Rightarrow> int \<Rightarrow> string \<Rightarrow> acks \<Rightarrow> acks \<times> (store_error + AckRecord)" where
  "GetAck faults now fingerprint rows =
     (case pruneExpiredAcks (fst faults) now rows of
        (rows', Some e) \<Rightarrow> (rows', Inl e)
      | (rows', None) \<Rightarrow>
          (rows', if snd faults then Inl ErrQuery
                  else case map_of rows' fingerprint of None \<Rightarrow> Inl ErrNotFound | Some r \<Rightarrow> Inr (scanAckRow fingerprint r)))"

definition ListAcks :: "bool \<times> bool \<Rightarrow> int \<Rightarrow> acks \<Rightarrow> acks \<times> (store_error + AckRecord list)" where
  "ListAcks faults now rows =
     (case pruneExpiredAcks (fst faults) now rows of
        (rows', Some e) \<Rightarrow> (rows', Inl e)
      | (rows', None) \<Rightarrow>
          (rows', if snd faults then Inl ErrStore
                  else Inr (map (\<lambda>(k, r). scanAckRow k r) (sort_key (\<lambda>(k, r). - arow_created_at r) rows'))))"

definition IsAcked :: "bool \<times> bool \<Rightarrow> int \<Rightarrow> string \<Rightarrow> acks \<Rightarrow> acks \<times> (store_error + bool)" where
  "IsAcked faults now fingerprint rows =
     (case pruneExpiredAcks (fst faults) now rows of
        (rows', Some e) \<Rightarrow> (rows', Inl e)
      | (rows', None) \<Rightarrow>
          (rows', if snd faults then Inl ErrStore else Inr (0 < length (filter (\<lambda>(k, r). k = fingerprint) rows'))))"

section \<open>The table as a component\<close>

datatype ack_op =
    SaveOp bool AckRecord
  | DeleteOp bool string
  | GetOp "bool \<times> bool" string
  | IsAckedOp "bool \<times> bool" string

datatype ack_answer = Done "store_error option" | Found "store_error + AckRecord" | Active "store_error + bool"

fun ack_step :: "acks \<Rightarrow> ack_op \<times> int \<Rightarrow> acks \<times> ack_answer" where
  "ack_step rows (SaveOp fault rec, now) = map_prod id Done (SaveAck fault now rec rows)"
| "ack_step rows (DeleteOp fault fp, now) = map_prod id Done (DeleteAck fault fp rows)"
| "ack_step rows (GetOp faults fp, now) = map_prod id Found (GetAck faults now fp rows)"
| "ack_step rows (IsAckedOp faults fp, now) = map_prod id Active (IsAcked faults now fp rows)"

text \<open>The contract: every acknowledgement ever saved is remembered until it is deleted, and is in force
  until the second of its snooze has passed.\<close>

type_synonym ack_ideal = "string \<Rightarrow> ack_row option"

definition in_force :: "ack_ideal \<Rightarrow> int \<Rightarrow> string \<Rightarrow> ack_row option" where
  "in_force m now fp = (case m fp of None \<Rightarrow> None | Some r \<Rightarrow> if ack_expired now r then None else Some r)"

fun ideal_ack :: "ack_ideal \<Rightarrow> ack_op \<times> int \<Rightarrow> ack_ideal \<times> ack_answer" where
  "ideal_ack m (SaveOp fault rec, now) =
     (if ack_Fingerprint rec = '''' then (m, Done (Some ErrInvalid))
      else if fault then (m, Done (Some ErrStore))
      else (m(ack_Fingerprint rec \<mapsto> ack_columns now rec), Done None))"
| "ideal_ack m (DeleteOp fault fp, now) = (if fault then (m, Done (Some ErrStore)) else (m(fp := None), Done None))"
| "ideal_ack m (GetOp faults fp, now) =
     (m, Found (if fst faults then Inl ErrStore else if snd faults then Inl ErrQuery
                else case in_force m now fp of None \<Rightarrow> Inl ErrNotFound | Some r \<Rightarrow> Inr (scanAckRow fp r)))"
| "ideal_ack m (IsAckedOp faults fp, now) =
     (m, Active (if fst faults \<or> snd faults then Inl ErrStore else Inr (in_force m now fp \<noteq> None)))"

definition acks_agree :: "int \<Rightarrow> acks \<Rightarrow> ack_ideal \<Rightarrow> bool" where
  "acks_agree t rows m \<longleftrightarrow> distinct (map fst rows) \<and>
     (\<forall>fp. map_of rows fp = m fp \<or> (map_of rows fp = None \<and> in_force m t fp = None))"

lemma ack_expired_mono: "ack_expired t r \<Longrightarrow> t \<le> now \<Longrightarrow> ack_expired now r"
  unfolding ack_expired_def column_time_def
  by (auto split: option.splits intro: less_le_trans zdiv_mono1)

lemma in_force_mono: "in_force m t fp = None \<Longrightarrow> t \<le> now \<Longrightarrow> in_force m now fp = None"
  by (auto simp: in_force_def ack_expired_mono split: option.splits if_splits)

lemma acks_agree_later: "acks_agree t rows m \<Longrightarrow> t \<le> now \<Longrightarrow> acks_agree now rows m"
  by (auto simp: acks_agree_def dest: in_force_mono)

lemma map_of_unexpired:
  assumes "distinct (map fst rows)"
  shows "map_of (filter (\<lambda>(k, r). \<not> ack_expired now r) rows) k =
    (case map_of rows k of None \<Rightarrow> None | Some r \<Rightarrow> if ack_expired now r then None else Some r)"
  by (cases "map_of rows k") (simp_all add: map_of_filter_distinct [OF assms])

lemma pruned_rows:
  assumes "acks_agree now rows m"
  shows "map_of (filter (\<lambda>(k, r). \<not> ack_expired now r) rows) fp = in_force m now fp"
    "acks_agree now (filter (\<lambda>(k, r). \<not> ack_expired now r) rows) m"
proof -
  have d: "distinct (map fst rows)" and ag: "map_of rows fp = m fp \<or> (map_of rows fp = None \<and> in_force m now fp = None)" for fp
    using assms by (simp_all add: acks_agree_def)
  have row: "map_of (filter (\<lambda>(k, r). \<not> ack_expired now r) rows) fp = in_force m now fp" for fp
    using ag [of fp] by (auto simp: map_of_unexpired [OF d] in_force_def)
  then show "map_of (filter (\<lambda>(k, r). \<not> ack_expired now r) rows) fp = in_force m now fp" .
  have "in_force m now fp = m fp \<or> in_force m now fp = None" for fp by (auto simp: in_force_def split: option.split)
  then show "acks_agree now (filter (\<lambda>(k, r). \<not> ack_expired now r) rows) m"
    unfolding acks_agree_def row using d by (simp add: distinct_map_filter)
qed

lemma found_row: "0 < length (filter (\<lambda>(k, r). k = fp) rows) \<longleftrightarrow> map_of rows fp \<noteq> None"
  by (induction rows) auto

lemma ack_step_agree:
  assumes "acks_agree now rows m"
  shows "snd (ack_step rows (opn, now)) = snd (ideal_ack m (opn, now)) \<and>
    acks_agree now (fst (ack_step rows (opn, now))) (fst (ideal_ack m (opn, now)))"
proof (cases opn)
  case (SaveOp fault rec)
  then show ?thesis
    using assms by (auto simp: SaveAck_def acks_agree_def distinct_update in_force_def split: option.splits)
next
  case (DeleteOp fault fp)
  then show ?thesis
    using assms by (auto simp: DeleteAck_def acks_agree_def distinct_delete in_force_def split: option.splits)
next
  case (GetOp faults fp)
  then show ?thesis
    using assms pruned_rows [OF assms] by (auto simp: GetAck_def pruneExpiredAcks_def split: option.splits)
next
  case (IsAckedOp faults fp)
  then show ?thesis
    using assms pruned_rows [OF assms] found_row [of fp "filter (\<lambda>(k, r). \<not> ack_expired now r) rows"]
    by (simp add: IsAcked_def pruneExpiredAcks_def)
qed

interpretation ack_table: clocked_refinement ack_step ideal_ack snd acks_agree
proof
  fix t rows m and i :: "ack_op \<times> int"
  assume "acks_agree t rows m" "t \<le> snd i"
  then have "acks_agree (snd i) rows m" by (rule acks_agree_later)
  from ack_step_agree [OF this, of "fst i"]
  show "snd (ack_step rows i) = snd (ideal_ack m i)"
    "acks_agree (snd i) (fst (ack_step rows i)) (fst (ideal_ack m i))" by simp_all
qed


definition sample_ack :: AckRecord where
  "sample_ack = \<lparr>ack_Fingerprint = ''fp'', ack_Cluster = ''a'', ack_Scanner = ''nodes'', ack_Title = ''t'', ack_AckBy = '''',
     ack_Reason = '''', ack_SnoozeUntil = 5000000000, ack_CreatedAt = 1000000000\<rparr>"


section \<open>The handlers\<close>

record ackRequest =
  aq_AckBy :: string
  aq_Reason :: string
  aq_SnoozeUntil :: string

text \<open>The body of a request: none, one that \<open>decodeJSON\<close> has refused with a status, or a decoded one.\<close>

datatype ack_body = NoBody | BadBody int | AckBody ackRequest

datatype ack_reply = Refused int | NoContent | Listed "AckRecord list" | Created AckRecord

definition store_status :: "store_error \<Rightarrow> int" where
  "store_status e = (if e = ErrNotFound then 404 else 500)"

definition handleListAcks :: "bool \<times> bool \<Rightarrow> int \<Rightarrow> acks \<Rightarrow> acks \<times> ack_reply" where
  "handleListAcks faults now rows =
     map_prod id (\<lambda>r. case r of Inl _ \<Rightarrow> Refused 500 | Inr as \<Rightarrow> Listed as) (ListAcks faults now rows)"

definition currentFinding :: "store_error + Report option \<Rightarrow> string \<Rightarrow> store_error + Finding" where
  "currentFinding latest fp =
     (case latest of
        Inl e \<Rightarrow> Inl e
      | Inr None \<Rightarrow> Inl ErrNotFound
      | Inr (Some rpt) \<Rightarrow> (case find (\<lambda>f. f_Fingerprint f = fp) (r_Findings rpt) of Some f \<Rightarrow> Inr f | None \<Rightarrow> Inl ErrNotFound))"

definition saveAck :: "(string \<Rightarrow> int option) \<Rightarrow> bool \<Rightarrow> int \<Rightarrow> ack_body \<Rightarrow> AckRecord \<Rightarrow> acks \<Rightarrow> acks \<times> ack_reply" where
  "saveAck time_Parse fault now body base0 rows =
     (case body of
        BadBody status \<Rightarrow> (rows, Refused status)
      | _ \<Rightarrow>
        let req = (case body of AckBody q \<Rightarrow> q | _ \<Rightarrow> \<lparr>aq_AckBy = '''', aq_Reason = '''', aq_SnoozeUntil = ''''\<rparr>);
            base1 = base0\<lparr>ack_AckBy := aq_AckBy req, ack_Reason := aq_Reason req, ack_CreatedAt := now\<rparr>;
            save = (\<lambda>b. case SaveAck fault now b rows of
                (rows', Some _) \<Rightarrow> (rows', Refused 500) | (rows', None) \<Rightarrow> (rows', Created b))
        in if aq_SnoozeUntil req \<noteq> ''''
           then (case time_Parse (aq_SnoozeUntil req) of None \<Rightarrow> (rows, Refused 400) | Some t \<Rightarrow> save (base1\<lparr>ack_SnoozeUntil := t\<rparr>))
           else save base1)"

definition ack_base :: "string \<Rightarrow> string \<Rightarrow> string \<Rightarrow> string \<Rightarrow> AckRecord" where
  "ack_base fp cluster scanner title =
     \<lparr>ack_Fingerprint = fp, ack_Cluster = cluster, ack_Scanner = scanner, ack_Title = title, ack_AckBy = '''',
      ack_Reason = '''', ack_SnoozeUntil = zero_time, ack_CreatedAt = zero_time\<rparr>"

definition handleCreateAck ::
  "(string \<Rightarrow> int option) \<Rightarrow> Actor option \<Rightarrow> (string \<Rightarrow> string list) \<Rightarrow> store_error + Report option \<Rightarrow> bool \<Rightarrow> int \<Rightarrow>
   string \<Rightarrow> ack_body \<Rightarrow> acks \<Rightarrow> acks \<times> ack_reply" where
  "handleCreateAck time_Parse ctx members latest fault now fp body rows =
     (if fp = '''' then (rows, Refused 400)
      else case currentFinding latest fp of
        Inl e \<Rightarrow> (rows, Refused (store_status e))
      | Inr f \<Rightarrow> if \<not> allowsAckCluster ctx (f_Cluster f) members then (rows, Refused 403)
                 else saveAck time_Parse fault now body (ack_base fp (f_Cluster f) (f_Scanner f) (f_Title f)) rows)"

text \<open>What the handler reads of an alert: its cluster, its label \<open>source\<close> and its name.\<close>

definition handleAckAlert ::
  "(string \<Rightarrow> int option) \<Rightarrow> Actor option \<Rightarrow> (string \<Rightarrow> string list) \<Rightarrow> store_error + string \<times> string \<times> string \<Rightarrow> bool \<Rightarrow> int \<Rightarrow>
   string \<Rightarrow> ack_body \<Rightarrow> acks \<Rightarrow> acks \<times> ack_reply" where
  "handleAckAlert time_Parse ctx members alert fault now fp body rows =
     (if fp = '''' then (rows, Refused 400)
      else case alert of
        Inl e \<Rightarrow> (rows, Refused (store_status e))
      | Inr (cluster, source, name) \<Rightarrow>
          if \<not> allowsAckCluster ctx cluster members then (rows, Refused 403)
          else saveAck time_Parse fault now body
                 (ack_base fp cluster (''alert:'' @ (if source \<noteq> '''' then source else ''alertmanager'')) name) rows)"

definition handleDeleteAck ::
  "Actor option \<Rightarrow> (string \<Rightarrow> string list) \<Rightarrow> bool \<times> bool \<Rightarrow> bool \<Rightarrow> int \<Rightarrow> string \<Rightarrow> acks \<Rightarrow> acks \<times> ack_reply" where
  "handleDeleteAck ctx members faults fault now fp rows =
     (if fp = '''' then (rows, Refused 400)
      else case GetAck faults now fp rows of
        (rows1, Inl e) \<Rightarrow> (rows1, if e = ErrNotFound then NoContent else Refused 500)
      | (rows1, Inr rec) \<Rightarrow>
          if \<not> allowsAckCluster ctx (ack_Cluster rec) members then (rows1, Refused 403)
          else (case DeleteAck fault fp rows1 of
                  (rows2, Some _) \<Rightarrow> (rows2, Refused 500) | (rows2, None) \<Rightarrow> (rows2, NoContent)))"

lemma ack_columns_cluster [simp]: "arow_cluster (ack_columns now rec) = ack_Cluster rec"
  by (simp add: ack_columns_def)

lemma saveAck_rows:
  "map_of (fst (saveAck time_Parse fault now body b rows)) k = map_of rows k \<or>
   (k = ack_Fingerprint b \<and> map_option arow_cluster (map_of (fst (saveAck time_Parse fault now body b rows)) k) = Some (ack_Cluster b))"
  by (auto simp: saveAck_def SaveAck_def Let_def split: ack_body.split option.split)

text \<open>Every change of the table by a handler: nothing, an expired row pruned, or a row whose cluster the
  actor may acknowledge for.\<close>

definition ack_change_ok :: "Actor option \<Rightarrow> (string \<Rightarrow> string list) \<Rightarrow> int \<Rightarrow> acks \<Rightarrow> acks \<Rightarrow> string \<Rightarrow> bool" where
  "ack_change_ok ctx members now rows rows' k \<longleftrightarrow>
     map_of rows' k = map_of rows k \<or>
     (case map_of rows' k of
        Some r \<Rightarrow> allowsAckCluster ctx (arow_cluster r) members
      | None \<Rightarrow> (case map_of rows k of None \<Rightarrow> True
                 | Some r \<Rightarrow> ack_expired now r \<or> allowsAckCluster ctx (arow_cluster r) members))"

lemma save_change_ok:
  "allowsAckCluster ctx (ack_Cluster b) members \<Longrightarrow>
   ack_change_ok ctx members now rows (fst (saveAck time_Parse fault now body b rows)) k"
  using saveAck_rows [of time_Parse fault now body b rows k]
  by (auto simp: ack_change_ok_def split: option.splits)

lemma prune_change:
  "distinct (map fst rows) \<Longrightarrow> pruneExpiredAcks fault now rows = (rows', e) \<Longrightarrow>
   map_of rows' k = map_of rows k \<or> (map_of rows' k = None \<and> (\<exists>r. map_of rows k = Some r \<and> ack_expired now r))"
  by (cases "map_of rows k") (auto simp: pruneExpiredAcks_def map_of_unexpired simp del: map_of_eq_Some_iff split: if_splits)


definition other_row :: ack_row where
  "other_row = ack_columns 1 (sample_ack\<lparr>ack_Cluster := ''b'', ack_SnoozeUntil := zero_time\<rparr>)"


end
