(* ===== verification/Alerts.thy ===== *)
theory Alerts
  imports Acks Export
begin

text \<open>
  Inbound alerts: the table of \<open>internal/store/alerts.go\<close>, the AlertManager and Falco webhooks and the list
  of alerts (\<open>internal/server/alertmanager_handler.go\<close>, \<open>falco_handler.go\<close>), the filter by cluster tags
  (\<open>tag_filter.go\<close>) and the signature of the inbound scan trigger (\<open>inbound_webhook.go\<close>). The table maps the
  fingerprint, its primary key, to the record; its time columns keep nanoseconds, and the JSON of the label
  maps is written and read back by the same package. SHA-256, HMAC, the JSON encoder and the clock are
  parameters; a body that cannot be read or decoded is a value of \<open>body\<close>.
\<close>

section \<open>The table\<close>

record AlertRecord =
  al_Fingerprint :: string
  al_Cluster :: string
  al_Status :: string
  al_AlertName :: string
  al_Severity :: string
  al_Summary :: string
  al_StartsAt :: int
  al_EndsAt :: int
  al_ReceivedAt :: int
  al_Labels :: "(string, string) gomap"
  al_Annotations :: "(string, string) gomap"
  al_GeneratorURL :: string

record AlertListOptions =
  lo_Limit :: int
  lo_Cluster :: string
  lo_Status :: string
  lo_Severity :: string
  lo_Since :: int

type_synonym alerts = "(string, AlertRecord) gomap"

definition UpsertAlert :: "bool \<Rightarrow> int \<Rightarrow> AlertRecord \<Rightarrow> alerts \<Rightarrow> alerts \<times> store_error option" where
  "UpsertAlert fault now rec rows =
     (if al_Fingerprint rec = '''' then (rows, Some ErrStore)
      else if fault then (rows, Some ErrStore)
      else let r = (if al_ReceivedAt rec = zero_time then rec\<lparr>al_ReceivedAt := now\<rparr> else rec)
           in (AList.update (al_Fingerprint rec) r rows, None))"

definition GetAlert :: "bool \<Rightarrow> string \<Rightarrow> alerts \<Rightarrow> store_error + AlertRecord" where
  "GetAlert fault fingerprint rows =
     (if fault then Inl ErrQuery else case map_of rows fingerprint of None \<Rightarrow> Inl ErrNotFound | Some r \<Rightarrow> Inr r)"

definition alert_clause :: "AlertListOptions \<Rightarrow> AlertRecord \<Rightarrow> bool" where
  "alert_clause opts r \<longleftrightarrow>
     (lo_Cluster opts \<noteq> '''' \<longrightarrow> al_Cluster r = lo_Cluster opts) \<and>
     (lo_Status opts \<noteq> '''' \<longrightarrow> al_Status r = lo_Status opts) \<and>
     (lo_Severity opts \<noteq> '''' \<longrightarrow> al_Severity r = lo_Severity opts) \<and>
     (lo_Since opts \<noteq> zero_time \<longrightarrow> al_ReceivedAt r > lo_Since opts)"

definition ListAlerts :: "bool \<Rightarrow> AlertListOptions \<Rightarrow> alerts \<Rightarrow> store_error + AlertRecord list" where
  "ListAlerts fault opts rows =
     (let limit = (if lo_Limit opts \<le> 0 then 200 else lo_Limit opts)
      in if fault then Inl ErrQuery
         else Inr (take (nat limit) (sort_key (\<lambda>r. - al_ReceivedAt r) (filter (alert_clause opts) (map snd rows)))))"

definition PruneAlerts :: "bool \<Rightarrow> int \<Rightarrow> alerts \<Rightarrow> alerts \<times> (store_error + int)" where
  "PruneAlerts fault cutoff rows =
     (if fault then (rows, Inl ErrStore)
      else (filter (\<lambda>(k, r). \<not> al_ReceivedAt r < cutoff) rows,
            Inr (int (length (filter (\<lambda>(k, r). al_ReceivedAt r < cutoff) rows)))))"

section \<open>AlertManager\<close>

record alertManagerAlert =
  am_Status :: string
  am_Labels :: "(string, string) gomap"
  am_Annotations :: "(string, string) gomap"
  am_StartsAt :: int
  am_EndsAt :: int
  am_GeneratorURL :: string
  am_Fingerprint :: string

record alertManagerPayload =
  ap_Version :: string
  ap_Status :: string
  ap_Receiver :: string
  ap_GroupLabels :: "(string, string) gomap"
  ap_CommonLabels :: "(string, string) gomap"
  ap_CommonAnnotations :: "(string, string) gomap"
  ap_ExternalURL :: string
  ap_Alerts :: "alertManagerAlert list"

record alertEventPayload =
  ep_Fingerprint :: string
  ep_Cluster :: string
  ep_Status :: string
  ep_AlertName :: string
  ep_Severity :: string

datatype 'p body = Unreadable | NotJSON | Decoded 'p

text \<open>The reply of a webhook: a refusal with its status, or the numbers of alerts received and stored.\<close>

datatype webhook_reply = Rejected int | Accepted int int

definition mergeStringMaps :: "(string, string) gomap \<Rightarrow> (string, string) gomap \<Rightarrow> (string, string) gomap" where
  "mergeStringMaps base0 overlay = fold (\<lambda>(k, v). AList.update k v) overlay (fold (\<lambda>(k, v). AList.update k v) base0 [])"

definition firstNonEmpty :: "string list \<Rightarrow> string" where
  "firstNonEmpty vs = (case find (\<lambda>v. v \<noteq> '''') vs of Some v \<Rightarrow> v | None \<Rightarrow> '''')"

definition verifyBearer :: "string \<Rightarrow> string \<Rightarrow> bool" where
  "verifyBearer header want \<longleftrightarrow>
     want \<noteq> '''' \<and> has_prefix header ''Bearer '' \<and>
     (let got = trim_prefix header ''Bearer '' in length got = length want \<and> TokensEqual got want)"

definition buildAlertRecord ::
  "alertManagerAlert \<Rightarrow> (string, string) gomap \<Rightarrow> (string, string) gomap \<Rightarrow> int \<Rightarrow> AlertRecord" where
  "buildAlertRecord a commonLabels commonAnn now =
     (let labels = mergeStringMaps commonLabels (am_Labels a); ann = mergeStringMaps commonAnn (am_Annotations a)
      in \<lparr>al_Fingerprint = am_Fingerprint a, al_Cluster = lookup_default '''' labels ''cluster'',
          al_Status = firstNonEmpty [am_Status a, ''firing''], al_AlertName = lookup_default '''' labels ''alertname'',
          al_Severity = lookup_default '''' labels ''severity'', al_Summary = lookup_default '''' ann ''summary'',
          al_StartsAt = am_StartsAt a, al_EndsAt = am_EndsAt a, al_ReceivedAt = now, al_Labels = labels,
          al_Annotations = ann, al_GeneratorURL = am_GeneratorURL a\<rparr>)"

definition alert_event :: "AlertRecord \<Rightarrow> alertEventPayload" where
  "alert_event r =
     \<lparr>ep_Fingerprint = al_Fingerprint r, ep_Cluster = al_Cluster r, ep_Status = al_Status r,
      ep_AlertName = al_AlertName r, ep_Severity = al_Severity r\<rparr>"

text \<open>The part of the server the webhooks change: the table, the counters and the events published.\<close>

record inbox =
  ib_alerts :: alerts
  ib_receivedAM :: int
  ib_receivedFalco :: int
  ib_events :: "alertEventPayload list"

text \<open>One alert of a notification, with the fault of its statement.\<close>

definition receive_alert ::
  "alertManagerPayload \<Rightarrow> int \<Rightarrow> bool \<times> alertManagerAlert \<Rightarrow> inbox \<times> int \<Rightarrow> inbox \<times> int" where
  "receive_alert payload now = (\<lambda>(fault, a) (s, stored).
     let rec = buildAlertRecord a (ap_CommonLabels payload) (ap_CommonAnnotations payload) now
     in case UpsertAlert fault now rec (ib_alerts s) of
          (rows, Some _) \<Rightarrow> (s\<lparr>ib_alerts := rows\<rparr>, stored)
        | (rows, None) \<Rightarrow> (s\<lparr>ib_alerts := rows, ib_receivedAM := ib_receivedAM s + 1,
                            ib_events := ib_events s @ [alert_event rec]\<rparr>, stored + 1))"

definition handleAlertManagerWebhook ::
  "string \<Rightarrow> string \<Rightarrow> alertManagerPayload body \<Rightarrow> (nat \<Rightarrow> bool) \<Rightarrow> int \<Rightarrow> inbox \<Rightarrow> inbox \<times> webhook_reply" where
  "handleAlertManagerWebhook secret authHeader body faults now s =
     (if secret = '''' then (s, Rejected 404)
      else if \<not> verifyBearer authHeader secret then (s, Rejected 401)
      else case body of
        Unreadable \<Rightarrow> (s, Rejected 400)
      | NotJSON \<Rightarrow> (s, Rejected 400)
      | Decoded payload \<Rightarrow>
          if ap_Version payload \<noteq> '''' \<and> ap_Version payload \<noteq> ''4'' then (s, Rejected 400)
          else let (s', stored) = fold (receive_alert payload now)
                     (zip (map faults [0..<length (ap_Alerts payload)]) (ap_Alerts payload)) (s, 0)
               in (s', Accepted (int (length (ap_Alerts payload))) stored))"

definition errInvalidInt :: string where "errInvalidInt = ''not a positive integer''"

fun positive_loop :: "int \<Rightarrow> int \<Rightarrow> string \<Rightarrow> string + int" where
  "positive_loop most n [] = (if n = 0 then Inl errInvalidInt else Inr n)"
| "positive_loop most n (c # cs) =
     (let d = of_char c :: int
      in if d < 48 \<or> d > 57 then Inl errInvalidInt
         else let n' = n * 10 + (d - 48) in if n' > most then Inr most else positive_loop most n' cs)"

definition parsePositiveInt :: "string \<Rightarrow> int \<Rightarrow> string + int" where
  "parsePositiveInt s most = positive_loop most 0 s"

definition filterAlertsByActor :: "AlertRecord list \<Rightarrow> Actor option \<Rightarrow> (string \<Rightarrow> string list) \<Rightarrow> AlertRecord list" where
  "filterAlertsByActor alerts actor members =
     (case actor of None \<Rightarrow> alerts
      | Some a \<Rightarrow> if ac_Role a = RoleAdmin then alerts
          else filter (\<lambda>r. \<not> (al_Cluster r = '''' \<and> ac_Role a \<noteq> RoleOperator)
                         \<and> \<not> (al_Cluster r \<noteq> '''' \<and> \<not> AllowsCluster a (al_Cluster r) (Some members))) alerts)"

section \<open>Tags\<close>

text \<open>The pairs a request asks for; a later value of a key replaces an earlier one.\<close>

definition wanted_tags :: "string list \<Rightarrow> (string, string) gomap" where
  "wanted_tags raw =
     fold (\<lambda>t wants. case strings_Cut ''='' t of
         Some (k, v) \<Rightarrow> if k = '''' then wants else AList.update k v wants
       | None \<Rightarrow> wants) raw []"

definition parseTagFilter ::
  "string list \<Rightarrow> store_error + (string, (string, string) gomap) gomap \<Rightarrow> store_error + (string \<Rightarrow> bool)" where
  "parseTagFilter raw tags =
     (let wants = wanted_tags raw
      in if raw = [] \<or> wants = [] then Inr (\<lambda>_. True)
         else case tags of
           Inl e \<Rightarrow> Inl e
         | Inr per \<Rightarrow>
             let allowed = map fst (filter (\<lambda>(cluster, ts). list_all (\<lambda>(k, v). lookup_default '''' ts k = v) wants) per)
             in Inr (\<lambda>cluster. cluster \<in> set allowed))"

section \<open>The list of alerts\<close>

record alert_query =
  qu_cluster :: string
  qu_status :: string
  qu_severity :: string
  qu_limit :: string
  qu_since :: string
  qu_tags :: "string list"

record alertView =
  vw_alert :: AlertRecord
  vw_Acked :: bool

definition list_options :: "(string \<Rightarrow> int option) \<Rightarrow> alert_query \<Rightarrow> AlertListOptions" where
  "list_options time_Parse q =
     \<lparr>lo_Limit = (if qu_limit q = '''' then 0 else case parsePositiveInt (qu_limit q) 1000 of Inr n \<Rightarrow> n | Inl _ \<Rightarrow> 0),
      lo_Cluster = qu_cluster q, lo_Status = qu_status q, lo_Severity = qu_severity q,
      lo_Since = (if qu_since q = '''' then zero_time else case time_Parse (qu_since q) of Some t \<Rightarrow> t | None \<Rightarrow> zero_time)\<rparr>"

definition tagged_alerts ::
  "string list \<Rightarrow> store_error + (string, (string, string) gomap) gomap \<Rightarrow> AlertRecord list \<Rightarrow> AlertRecord list" where
  "tagged_alerts raw tags alerts =
     (if raw = [] then alerts
      else case parseTagFilter raw tags of
        Inl _ \<Rightarrow> alerts
      | Inr allows \<Rightarrow> filter (\<lambda>al. al_Cluster al = '''' \<or> allows (al_Cluster al)) alerts)"

definition handleListAlerts ::
  "(string \<Rightarrow> int option) \<Rightarrow> bool \<Rightarrow> alert_query \<Rightarrow> Actor option \<Rightarrow> (string \<Rightarrow> string list) \<Rightarrow>
   store_error + (string, (string, string) gomap) gomap \<Rightarrow> (string \<Rightarrow> bool) \<Rightarrow> alerts \<Rightarrow> int + alertView list" where
  "handleListAlerts time_Parse fault q actor members tags acked rows =
     (case ListAlerts fault (list_options time_Parse q) rows of
        Inl _ \<Rightarrow> Inl 500
      | Inr alerts \<Rightarrow>
          Inr (map (\<lambda>al. \<lparr>vw_alert = al, vw_Acked = acked (al_Fingerprint al)\<rparr>)
            (tagged_alerts (qu_tags q) tags (filterAlertsByActor alerts actor members))))"

section \<open>Falco\<close>

record falcoEvent =
  fe_Output :: string
  fe_Priority :: string
  fe_Rule :: string
  fe_Time :: int
  fe_OutputFields :: "(string, json) gomap"
  fe_Hostname :: string
  fe_Source :: string
  fe_Tags :: "string list"

definition stringifyFalcoFields :: "(json \<Rightarrow> string option) \<Rightarrow> (string, json) gomap \<Rightarrow> (string, string) gomap" where
  "stringifyFalcoFields json_Marshal obj =
     fold (\<lambda>(k, v) out. case v of
         JStr t \<Rightarrow> AList.update k t out
       | JNull \<Rightarrow> out
       | _ \<Rightarrow> (case json_Marshal v of Some b \<Rightarrow> AList.update k b out | None \<Rightarrow> out)) obj []"

definition falco_message :: "string \<Rightarrow> string \<Rightarrow> string \<Rightarrow> string \<Rightarrow> string" where
  "falco_message cluster rule pod container = cluster @ CHR 0x00 # rule @ CHR 0x00 # pod @ CHR 0x00 # container"

definition falcoFingerprint :: "(string \<Rightarrow> string) \<Rightarrow> string \<Rightarrow> string \<Rightarrow> string \<Rightarrow> string \<Rightarrow> string" where
  "falcoFingerprint sha256 cluster rule pod container =
     ''falco-'' @ hex_encode (take 16 (sha256 (falco_message cluster rule pod container)))"

definition falco_labels :: "(json \<Rightarrow> string option) \<Rightarrow> falcoEvent \<Rightarrow> (string, string) gomap" where
  "falco_labels json_Marshal ev =
     (let l1 = AList.update ''source'' ''falco'' (stringifyFalcoFields json_Marshal (fe_OutputFields ev));
          l2 = (if fe_Tags ev \<noteq> [] then AList.update ''tags'' (strings_Join (fe_Tags ev) '','') l1 else l1);
          l3 = (if fe_Source ev \<noteq> '''' then AList.update ''falco_source'' (fe_Source ev) l2 else l2)
      in if fe_Hostname ev \<noteq> '''' then AList.update ''hostname'' (fe_Hostname ev) l3 else l3)"

definition buildFalcoAlert ::
  "(string \<Rightarrow> string) \<Rightarrow> (json \<Rightarrow> string option) \<Rightarrow> falcoEvent \<Rightarrow> string \<Rightarrow> int \<Rightarrow> AlertRecord" where
  "buildFalcoAlert sha256 json_Marshal ev clusterFromHeader now =
     (let l0 = falco_labels json_Marshal ev;
          at0 = lookup_default '''' l0;
          cluster = firstNonEmpty [at0 ''cluster'', at0 ''k8s_cluster_name'', at0 ''k8s.cluster.name'', clusterFromHeader];
          labels = (if cluster \<noteq> '''' then AList.update ''cluster'' cluster l0 else l0);
          pod = firstNonEmpty [lookup_default '''' labels ''k8s.pod.name'', lookup_default '''' labels ''k8s_pod_name''];
          container = firstNonEmpty [lookup_default '''' labels ''container.id'', lookup_default '''' labels ''container_id'']
      in \<lparr>al_Fingerprint = falcoFingerprint sha256 cluster (fe_Rule ev) pod container, al_Cluster = cluster,
          al_Status = ''firing'', al_AlertName = fe_Rule ev, al_Severity = ToLower (fe_Priority ev),
          al_Summary = Truncate (fe_Output ev) 512,
          al_StartsAt = (if fe_Time ev = zero_time then now else fe_Time ev), al_EndsAt = zero_time, al_ReceivedAt = now,
          al_Labels = labels, al_Annotations = [(''output'', fe_Output ev)], al_GeneratorURL = ''''\<rparr>)"

definition handleFalcoWebhook ::
  "(string \<Rightarrow> string) \<Rightarrow> (json \<Rightarrow> string option) \<Rightarrow> string \<Rightarrow> string \<Rightarrow> string \<Rightarrow> falcoEvent body \<Rightarrow> bool \<Rightarrow> int \<Rightarrow> inbox \<Rightarrow> inbox \<times> webhook_reply" where
  "handleFalcoWebhook sha256 json_Marshal secret authHeader clusterHeader body fault now s =
     (if secret = '''' then (s, Rejected 404)
      else if \<not> verifyBearer authHeader secret then (s, Rejected 401)
      else case body of
        Unreadable \<Rightarrow> (s, Rejected 400)
      | NotJSON \<Rightarrow> (s, Rejected 400)
      | Decoded ev \<Rightarrow>
          if fe_Rule ev = '''' then (s, Rejected 400)
          else let rec = buildFalcoAlert sha256 json_Marshal ev clusterHeader now
               in case UpsertAlert fault now rec (ib_alerts s) of
                    (rows, Some _) \<Rightarrow> (s\<lparr>ib_alerts := rows\<rparr>, Rejected 500)
                  | (rows, None) \<Rightarrow> (s\<lparr>ib_alerts := rows, ib_receivedFalco := ib_receivedFalco s + 1,
                                      ib_events := ib_events s @ [alert_event rec]\<rparr>, Accepted 1 1))"

section \<open>The signature of the scan trigger\<close>

definition webhookSignaturePrefix :: string where "webhookSignaturePrefix = ''sha256=''"

definition verifyWebhookSignature :: "(string \<Rightarrow> string \<Rightarrow> string) \<Rightarrow> string \<Rightarrow> string \<Rightarrow> string \<Rightarrow> string option" where
  "verifyWebhookSignature hmac secret header body =
     (if \<not> has_prefix header webhookSignaturePrefix then Some ''missing or malformed signature header''
      else case hex_decode (trim_prefix header webhookSignaturePrefix) of
        None \<Rightarrow> Some ''signature is not valid hex''
      | Some provided \<Rightarrow> if hmac secret body = provided then None else Some ''signature mismatch'')"

definition signWebhookBody :: "(string \<Rightarrow> string \<Rightarrow> string) \<Rightarrow> string \<Rightarrow> string \<Rightarrow> string" where
  "signWebhookBody hmac secret body = webhookSignaturePrefix @ hex_encode (hmac secret body)"

section \<open>Laws\<close>

lemma verifyBearer_iff: "verifyBearer header want \<longleftrightarrow> want \<noteq> '''' \<and> header = ''Bearer '' @ want"
proof (cases "has_prefix header ''Bearer ''")
  case True
  then obtain t where t: "header = ''Bearer '' @ t" by (auto simp: has_prefix_iff)
  have "verifyBearer header want \<longleftrightarrow> want \<noteq> '''' \<and> t = want"
    using True by (auto simp: verifyBearer_def Let_def trim_prefix_def t)
  then show ?thesis by (auto simp: t)
next
  case False
  then show ?thesis using has_prefix_append [of "''Bearer ''" want] by (auto simp: verifyBearer_def)
qed

lemma update_fold: "map_of (fold (\<lambda>(k, v). AList.update k v) kvs m) = map_of m ++ map_of (rev kvs)"
  by (induction kvs arbitrary: m) (auto simp: fun_eq_iff map_add_def split: option.split)

lemma mergeStringMaps_overlay:
  "distinct (map fst overlay) \<Longrightarrow> distinct (map fst base0) \<Longrightarrow>
     map_of (mergeStringMaps base0 overlay) = map_of base0 ++ map_of overlay"
  by (simp add: mergeStringMaps_def update_fold map_of_inject_set [of "rev m" m for m, THEN iffD2] flip: rev_map)

lemma stored_alert:
  "UpsertAlert fault now rec rows = (rows', e) \<Longrightarrow> now \<noteq> zero_time \<Longrightarrow> al_ReceivedAt rec = now \<Longrightarrow>
   (e = None) = (al_Fingerprint rec \<noteq> '''' \<and> \<not> fault) \<and>
   map_of rows' = (if e = None then (map_of rows)(al_Fingerprint rec \<mapsto> rec) else map_of rows)"
  by (auto simp: UpsertAlert_def split: if_splits)

text \<open>What a notification leaves in the table: the last storable alert of each fingerprint, over what was
  there before.\<close>

definition last_alert :: "(bool \<times> alertManagerAlert) list \<Rightarrow> string \<Rightarrow> alertManagerAlert option" where
  "last_alert as fp = map_option snd (find (\<lambda>(fault, a). \<not> fault \<and> am_Fingerprint a = fp \<and> fp \<noteq> '''') (rev as))"

lemma buildAlertRecord_simps [simp]:
  "al_Fingerprint (buildAlertRecord a l n now) = am_Fingerprint a"
  "al_ReceivedAt (buildAlertRecord a l n now) = now"
  by (simp_all add: buildAlertRecord_def Let_def)

lemma find_append: "find P (xs @ ys) = (case find P xs of None \<Rightarrow> find P ys | Some x \<Rightarrow> Some x)"
  by (induction xs) auto

lemma receive_alerts:
  assumes "now \<noteq> zero_time" "fold (receive_alert payload now) as (s, n) = (s', n')"
  shows "map_of (ib_alerts s') fp = (case last_alert as fp of
      None \<Rightarrow> map_of (ib_alerts s) fp
    | Some a \<Rightarrow> Some (buildAlertRecord a (ap_CommonLabels payload) (ap_CommonAnnotations payload) now)) \<and>
    n' - n = int (length (filter (\<lambda>(fault, a). \<not> fault \<and> am_Fingerprint a \<noteq> '''') as)) \<and>
    ib_receivedAM s' - ib_receivedAM s = n' - n \<and> ib_receivedFalco s' = ib_receivedFalco s \<and>
    ib_events s' = ib_events s @ map (\<lambda>(fault, a). alert_event (buildAlertRecord a (ap_CommonLabels payload) (ap_CommonAnnotations payload) now))
      (filter (\<lambda>(fault, a). \<not> fault \<and> am_Fingerprint a \<noteq> '''') as)"
  using assms(2)
proof (induction as arbitrary: s n)
  case Nil
  then show ?case by (simp add: last_alert_def)
next
  case (Cons x as)
  obtain fault a where x: "x = (fault, a)" by (cases x)
  obtain s1 n1 where step: "receive_alert payload now x (s, n) = (s1, n1)" by (cases "receive_alert payload now x (s, n)")
  obtain rows e where up: "UpsertAlert fault now (buildAlertRecord a (ap_CommonLabels payload) (ap_CommonAnnotations payload) now) (ib_alerts s) = (rows, e)"
    by (cases "UpsertAlert fault now (buildAlertRecord a (ap_CommonLabels payload) (ap_CommonAnnotations payload) now) (ib_alerts s)")
  note ih = Cons.IH [of s1 n1] and row = stored_alert [OF up assms(1)]
  have later: "last_alert (x # as) fp = (case last_alert as fp of
      None \<Rightarrow> if \<not> fault \<and> am_Fingerprint a = fp \<and> fp \<noteq> '''' then Some a else None | Some b \<Rightarrow> Some b)"
    by (simp add: last_alert_def find_append x split: option.split)
  have rest: "fold (receive_alert payload now) as (s1, n1) = (s', n')" using Cons.prems step by simp
  show ?case
  proof (cases e)
    case None
    have s1: "s1 = s\<lparr>ib_alerts := rows, ib_receivedAM := ib_receivedAM s + 1,
        ib_events := ib_events s @ [alert_event (buildAlertRecord a (ap_CommonLabels payload) (ap_CommonAnnotations payload) now)]\<rparr>"
      "n1 = n + 1" using step up None by (simp_all add: receive_alert_def x Let_def)
    show ?thesis using ih [OF rest] row None later by (auto simp: s1 x split: option.split)
  next
    case (Some err)
    have s1: "s1 = s\<lparr>ib_alerts := rows\<rparr>" "n1 = n" using step up Some by (simp_all add: receive_alert_def x Let_def)
    show ?thesis using ih [OF rest] row Some later by (auto simp: s1 x split: option.split)
  qed
qed

lemma fold_pair: "\<exists>s' n'. fold f xs (s, n) = (s', n')"
  by (metis surj_pair)

text \<open>C20. The AlertManager webhook changes nothing unless the request carries the configured, non-empty secret
  and a body it can read; an accepted notification leaves, for each fingerprint, the last of its alerts that
  could be stored, publishes one event for each stored alert, and reports how many there were.\<close>

theorem alertmanager_webhook:
  assumes "now \<noteq> zero_time" "handleAlertManagerWebhook secret authHeader body faults now s = (s', reply)"
  shows "(case reply of
      Rejected status \<Rightarrow> s' = s \<and> status \<in> set [400, 401, 404] \<and> (status = 404) = (secret = '''')
    | Accepted received stored \<Rightarrow> secret \<noteq> '''' \<and> authHeader = ''Bearer '' @ secret \<and>
        (case body of Decoded payload \<Rightarrow>
           let as = zip (map faults [0..<length (ap_Alerts payload)]) (ap_Alerts payload)
           in received = int (length (ap_Alerts payload)) \<and>
              stored = int (length (filter (\<lambda>(fault, a). \<not> fault \<and> am_Fingerprint a \<noteq> '''') as)) \<and>
              length (ib_events s') = length (ib_events s) + nat stored \<and>
              map_of (ib_alerts s') fp = (case last_alert as fp of
                  None \<Rightarrow> map_of (ib_alerts s) fp
                | Some a \<Rightarrow> Some (buildAlertRecord a (ap_CommonLabels payload) (ap_CommonAnnotations payload) now))
         | _ \<Rightarrow> False))"
proof (cases "secret = '''' \<or> \<not> verifyBearer authHeader secret")
  case True
  then show ?thesis using assms(2) by (auto simp: handleAlertManagerWebhook_def split: if_splits)
next
  case False
  then have auth: "secret \<noteq> ''''" "authHeader = ''Bearer '' @ secret" by (auto simp: verifyBearer_iff)
  show ?thesis
  proof (cases body)
    case (Decoded payload)
    let ?as = "zip (map faults [0..<length (ap_Alerts payload)]) (ap_Alerts payload)"
    obtain s1 n1 where run: "fold (receive_alert payload now) ?as (s, 0) = (s1, n1)" by (metis surj_pair)
    show ?thesis
      using assms(2) False auth receive_alerts [OF assms(1) run, of fp]
      by (auto simp: handleAlertManagerWebhook_def Decoded run Let_def split: if_splits)
  qed (use assms(2) False auth in \<open>auto simp: handleAlertManagerWebhook_def\<close>)
qed

definition sample_alert :: alertManagerAlert where
  "sample_alert = \<lparr>am_Status = '''', am_Labels = [(''cluster'', ''a'')], am_Annotations = [], am_StartsAt = 0, am_EndsAt = 0,
     am_GeneratorURL = '''', am_Fingerprint = ''x''\<rparr>"

definition sample_payload :: alertManagerPayload where
  "sample_payload = \<lparr>ap_Version = ''4'', ap_Status = '''', ap_Receiver = '''', ap_GroupLabels = [], ap_CommonLabels = [],
     ap_CommonAnnotations = [], ap_ExternalURL = '''', ap_Alerts = [sample_alert]\<rparr>"

definition empty_inbox :: inbox where
  "empty_inbox = \<lparr>ib_alerts = [], ib_receivedAM = 0, ib_receivedFalco = 0, ib_events = []\<rparr>"

theorem alertmanager_webhook_witness:
  "map_of (ib_alerts (fst (handleAlertManagerWebhook ''s'' ''Bearer s'' (Decoded sample_payload) (\<lambda>_. False) 1 empty_inbox))) ''x''
     = Some (buildAlertRecord sample_alert [] [] 1)"
proof -
  obtain s' reply where run: "handleAlertManagerWebhook ''s'' ''Bearer s'' (Decoded sample_payload) (\<lambda>_. False) 1 empty_inbox = (s', reply)"
    by (metis surj_pair)
  have now: "(1::int) \<noteq> zero_time" by (simp add: zero_time_def)
  have "verifyBearer ''Bearer s'' ''s''" by (simp add: verifyBearer_iff)
  then have "reply = Accepted 1 (snd (fold (receive_alert sample_payload 1) [(False, sample_alert)] (empty_inbox, 0)))"
    using run by (auto simp: handleAlertManagerWebhook_def sample_payload_def split: prod.splits)
  then show ?thesis
    using alertmanager_webhook [OF now run, of "''x''"] run
    by (simp add: sample_payload_def sample_alert_def last_alert_def)
qed

text \<open>A parsed number lies in the range asked for. Its comment says that one above the limit is an error; it
  is cut to the limit instead, and what follows the digits that exceed it is not read.\<close>

lemma positive_loop_range: "0 \<le> n \<Longrightarrow> n \<le> most \<Longrightarrow> positive_loop most n s = Inr m \<Longrightarrow> 1 \<le> most \<Longrightarrow> 1 \<le> m \<and> m \<le> most"
  by (induction most n s rule: positive_loop.induct) (auto simp: Let_def split: if_splits)

lemma parsePositiveInt_range: "parsePositiveInt s most = Inr m \<Longrightarrow> 1 \<le> most \<Longrightarrow> 1 \<le> m \<and> m \<le> most"
  using positive_loop_range [of 0 most s m] by (simp add: parsePositiveInt_def)

lemma parsePositiveInt_overflow: "parsePositiveInt ''1001abc'' 1000 = Inr 1000"
  by code_simp

text \<open>A caller who is not an administrator is never shown an alert of a cluster outside their scope, and an
  alert of no cluster only as an operator.\<close>

lemma filterAlertsByActor_scope:
  "r \<in> set (filterAlertsByActor alerts (Some a) members) \<Longrightarrow> ac_Role a \<noteq> RoleAdmin \<Longrightarrow>
     (if al_Cluster r = '''' then ac_Role a = RoleOperator else AllowsCluster a (al_Cluster r) (Some members))"
  by (auto simp: filterAlertsByActor_def)

text \<open>A tag filter keeps the clusters that carry every pair asked for; for an empty value it also keeps the
  tagged clusters that do not carry the key.\<close>

lemma keys_where: "distinct (map fst per) \<Longrightarrow> c \<in> fst ` set (filter (\<lambda>(k, ts). Q ts) per) \<longleftrightarrow> (\<exists>ts. map_of per c = Some ts \<and> Q ts)"
  by (induction per) (auto simp: map_of_eq_None_iff dest: map_of_SomeD)

lemma parseTagFilter_spec:
  assumes "wanted_tags raw \<noteq> []" "distinct (map fst per)" "parseTagFilter raw (Inr per) = Inr allows"
  shows "allows c \<longleftrightarrow> (\<exists>ts. map_of per c = Some ts \<and> list_all (\<lambda>(k, v). lookup_default '''' ts k = v) (wanted_tags raw))"
proof -
  have "raw \<noteq> []" using assms(1) by (auto simp: wanted_tags_def)
  then have "allows = (\<lambda>c. c \<in> fst ` set (filter (\<lambda>(cluster, ts). list_all (\<lambda>(k, v). lookup_default '''' ts k = v) (wanted_tags raw)) per))"
    using assms(1,3) by (simp add: parseTagFilter_def)
  then show ?thesis using keys_where [OF assms(2)] by simp
qed

lemma empty_tag_value:
  "case parseTagFilter [''env=''] (Inr [(''a'', [(''tier'', ''gold'')])]) of Inr allows \<Rightarrow> allows ''a'' | Inl _ \<Rightarrow> False"
  by code_simp

lemma falco_message_inj:
  assumes "CHR 0x00 \<notin> set c \<union> set r \<union> set p" "CHR 0x00 \<notin> set c' \<union> set r' \<union> set p'"
    and "falco_message c r p k = falco_message c' r' p' k'"
  shows "c = c' \<and> r = r' \<and> p = p' \<and> k = k'"
proof -
  have 1: "c = c' \<and> r @ CHR 0x00 # p @ CHR 0x00 # k = r' @ CHR 0x00 # p' @ CHR 0x00 # k'"
    using assms unfolding falco_message_def by (intro append_sep_inj) auto
  then have 2: "r = r' \<and> p @ CHR 0x00 # k = p' @ CHR 0x00 # k'" using assms by (intro append_sep_inj) auto
  then have "p = p' \<and> k = k'" using assms by (intro append_sep_inj) auto
  with 1 2 show ?thesis by blast
qed

text \<open>A signed body verifies, and only the signature of the body itself does.\<close>

lemma webhook_signature:
  "verifyWebhookSignature hmac secret (signWebhookBody hmac secret body) body = None"
  "verifyWebhookSignature hmac secret header body = None \<Longrightarrow>
     hex_decode (trim_prefix header webhookSignaturePrefix) = Some (hmac secret body)"
  by (auto simp: verifyWebhookSignature_def signWebhookBody_def trim_prefix_def split: if_splits option.splits)

end
