(* ===== verification/Notify.thy ===== *)
theory Notify
  imports Acks Export
begin

text \<open>
  Outbound notifications: the webhook dispatcher (\<open>internal/webhooks/webhooks.go\<close>, called by
  \<open>internal/server/webhook_emit.go\<close>) and the Slack notifier (\<open>internal/server/slack.go\<close>). Regular
  expressions, templates, the JSON encoder, the environment and the network are parameters: \<open>http\<close> answers
  the request of a given number, \<open>None\<close> for one that fails and the status otherwise. A time is a number of
  nanoseconds.
\<close>

section \<open>Subscribers\<close>

record 'tmpl Subscriber =
  ws_Name :: string
  ws_URL :: string
  ws_MinSeverity :: string
  ws_ScannerRegex :: string
  ws_ClusterRegex :: string
  ws_Headers :: "(string, string) gomap"
  ws_BodyTemplate :: string
  ws_ContentType :: string
  ws_scannerRE :: "(string \<Rightarrow> bool) option"
  ws_clusterRE :: "(string \<Rightarrow> bool) option"
  ws_tmpl :: "'tmpl option"

datatype config_error = NoURL string | BadScannerRegex string | BadClusterRegex string | BadTemplate string

text \<open>An optional part: nothing when the text is empty, else what the compiler makes of it.\<close>

definition compile_part :: "(string \<Rightarrow> 'a option) \<Rightarrow> 'e \<Rightarrow> string \<Rightarrow> 'e + 'a option" where
  "compile_part compiler err s = (if s = '''' then Inr None else case compiler s of None \<Rightarrow> Inl err | Some x \<Rightarrow> Inr (Some x))"

definition compile_subscriber ::
  "(string \<Rightarrow> (string \<Rightarrow> bool) option) \<Rightarrow> (string \<Rightarrow> 'tmpl option) \<Rightarrow> 'tmpl Subscriber \<Rightarrow> config_error + 'tmpl Subscriber" where
  "compile_subscriber regex template s =
     (if ws_URL s = '''' then Inl (NoURL (ws_Name s))
      else
        let s1 = s\<lparr>ws_MinSeverity := (if ws_MinSeverity s = '''' then SeverityInfo else ws_MinSeverity s),
                   ws_ContentType := (if ws_ContentType s = '''' then ''application/json'' else ws_ContentType s)\<rparr>
        in case compile_part regex (BadScannerRegex (ws_Name s)) (ws_ScannerRegex s) of
             Inl e \<Rightarrow> Inl e
           | Inr re1 \<Rightarrow> (case compile_part regex (BadClusterRegex (ws_Name s)) (ws_ClusterRegex s) of
               Inl e \<Rightarrow> Inl e
             | Inr re2 \<Rightarrow> (case compile_part template (BadTemplate (ws_Name s)) (ws_BodyTemplate s) of
                 Inl e \<Rightarrow> Inl e
               | Inr t \<Rightarrow> Inr (s1\<lparr>ws_scannerRE := re1, ws_clusterRE := re2, ws_tmpl := t\<rparr>))))"

fun compile ::
  "(string \<Rightarrow> (string \<Rightarrow> bool) option) \<Rightarrow> (string \<Rightarrow> 'tmpl option) \<Rightarrow> 'tmpl Subscriber list \<Rightarrow> config_error + 'tmpl Subscriber list" where
  "compile regex template [] = Inr []"
| "compile regex template (s # ss) =
     (case compile_subscriber regex template s of
        Inl e \<Rightarrow> Inl e
      | Inr c \<Rightarrow> (case compile regex template ss of Inl e \<Rightarrow> Inl e | Inr cs \<Rightarrow> Inr (c # cs)))"

definition matches :: "'tmpl Subscriber \<Rightarrow> Finding \<Rightarrow> bool" where
  "matches s f \<longleftrightarrow>
     SeverityAtLeast (f_Severity f) (ws_MinSeverity s) \<and>
     (case ws_scannerRE s of None \<Rightarrow> True | Some re \<Rightarrow> re (f_Scanner f)) \<and>
     (case ws_clusterRE s of None \<Rightarrow> True | Some re \<Rightarrow> re (f_Cluster f))"

section \<open>Sending\<close>

record http_request =
  hr_URL :: string
  hr_Headers :: "(string, string) gomap"
  hr_Body :: string

text \<open>What the code uses of its libraries: the default envelope of a finding in JSON, the execution of a
  template, and the expansion of environment variables.\<close>

record 'tmpl renderer =
  rn_envelope :: "Finding \<Rightarrow> string option"
  rn_execute :: "'tmpl \<Rightarrow> Finding \<Rightarrow> string option"
  rn_expand :: "string \<Rightarrow> string"

definition renderBody :: "'tmpl renderer \<Rightarrow> 'tmpl Subscriber \<Rightarrow> Finding \<Rightarrow> string option" where
  "renderBody rn s f =
     (case ws_tmpl s of
        None \<Rightarrow> rn_envelope rn f
      | Some t \<Rightarrow> map_option (rn_expand rn) (rn_execute rn t f))"

definition webhook_request :: "'tmpl renderer \<Rightarrow> 'tmpl Subscriber \<Rightarrow> string \<Rightarrow> http_request" where
  "webhook_request rn s body =
     \<lparr>hr_URL = ws_URL s,
      hr_Headers = fold (\<lambda>(k, v). AList.update k (rn_expand rn v)) (ws_Headers s) [(''Content-Type'', ws_ContentType s)],
      hr_Body = body\<rparr>"

definition http_ok :: "int option \<Rightarrow> bool" where
  "http_ok reply \<longleftrightarrow> (case reply of None \<Rightarrow> False | Some status \<Rightarrow> status < 300)"

text \<open>The dispatcher: the dedup entries, and the requests it has made.\<close>

record dispatcher =
  di_notified :: "(string, int) gomap"
  di_sent :: "http_request list"

definition webhook_send ::
  "'tmpl renderer \<Rightarrow> (nat \<Rightarrow> http_request \<Rightarrow> int option) \<Rightarrow> 'tmpl Subscriber \<Rightarrow> Finding \<Rightarrow> dispatcher \<Rightarrow> dispatcher \<times> bool" where
  "webhook_send rn http s f d =
     (case renderBody rn s f of
        None \<Rightarrow> (d, False)
      | Some body \<Rightarrow>
          let req = webhook_request rn s body
          in (d\<lparr>di_sent := di_sent d @ [req]\<rparr>, http_ok (http (length (di_sent d)) req)))"

section \<open>Dispatching\<close>

definition dedupTTL :: int where "dedupTTL = 6 * 3600 * 1000000000"

definition dedupKey :: "(string \<Rightarrow> string) \<Rightarrow> string \<Rightarrow> Finding \<Rightarrow> string" where
  "dedupKey sha256 subscriber f = subscriber @ CHR 0x00 # FindingFingerprint sha256 f"

definition gcExpired :: "int \<Rightarrow> (string, int) gomap \<Rightarrow> (string, int) gomap" where
  "gcExpired now m = filter (\<lambda>(k, t). \<not> time_Sub now t > dedupTTL) m"

text \<open>One finding for one subscriber. The second component collects the keys delivered.\<close>

definition dispatch_one ::
  "(string \<Rightarrow> string) \<Rightarrow> 'tmpl renderer \<Rightarrow> (nat \<Rightarrow> http_request \<Rightarrow> int option) \<Rightarrow> int \<Rightarrow>
   'tmpl Subscriber \<times> Finding \<Rightarrow> dispatcher \<times> string list \<Rightarrow> dispatcher \<times> string list" where
  "dispatch_one sha256 rn http now = (\<lambda>(s, f) (d, delivered).
     if \<not> matches s f then (d, delivered)
     else let key = dedupKey sha256 (ws_Name s) f
          in if map_of (di_notified d) key \<noteq> None then (d, delivered)
             else case webhook_send rn http s f (d\<lparr>di_notified := AList.update key now (di_notified d)\<rparr>) of
                    (d1, True) \<Rightarrow> (d1, delivered @ [key])
                  | (d1, False) \<Rightarrow> (d1\<lparr>di_notified := AList.delete key (di_notified d1)\<rparr>, delivered))"

definition Dispatch ::
  "(string \<Rightarrow> string) \<Rightarrow> 'tmpl renderer \<Rightarrow> 'tmpl Subscriber list \<Rightarrow>
   dispatcher \<Rightarrow> (nat \<Rightarrow> http_request \<Rightarrow> int option) \<times> Finding list \<times> int \<Rightarrow> dispatcher \<times> string list" where
  "Dispatch sha256 rn subscribers d call =
     (let (http, findings, now) = call
      in if subscribers = [] then (d, [])
         else fold (dispatch_one sha256 rn http now)
                (concat (map (\<lambda>s. map (Pair s) findings) subscribers))
                (d\<lparr>di_notified := gcExpired now (di_notified d)\<rparr>, []))"

section \<open>Acknowledged findings\<close>

text \<open>Asking the table about each finding may prune it; an error reads as not acknowledged.\<close>

definition keep_unacked ::
  "(string \<Rightarrow> string) \<Rightarrow> (nat \<Rightarrow> bool \<times> bool) \<Rightarrow> int \<Rightarrow> Finding \<Rightarrow> acks \<times> nat \<times> Finding list \<Rightarrow> acks \<times> nat \<times> Finding list" where
  "keep_unacked sha256 faults now f = (\<lambda>(rows, i, out).
     case IsAcked (faults i) now (FindingFingerprint sha256 f) rows of
       (rows', Inr True) \<Rightarrow> (rows', Suc i, out)
     | (rows', _) \<Rightarrow> (rows', Suc i, out @ [f]))"

definition filterAckedFindings ::
  "(string \<Rightarrow> string) \<Rightarrow> (nat \<Rightarrow> bool \<times> bool) \<Rightarrow> int \<Rightarrow> Finding list \<Rightarrow> acks \<Rightarrow> acks \<times> Finding list" where
  "filterAckedFindings sha256 faults now findings rows =
     (let (rows', i, out) = fold (keep_unacked sha256 faults now) findings (rows, 0, []) in (rows', out))"

definition dispatchWebhooksIfConfigured ::
  "(string \<Rightarrow> string) \<Rightarrow> 'tmpl renderer \<Rightarrow> 'tmpl Subscriber list option \<Rightarrow> (nat \<Rightarrow> bool \<times> bool) \<Rightarrow>
   (nat \<Rightarrow> http_request \<Rightarrow> int option) \<Rightarrow> int \<Rightarrow> Report option \<Rightarrow> acks \<times> dispatcher \<Rightarrow> (acks \<times> dispatcher) \<times> string list" where
  "dispatchWebhooksIfConfigured sha256 rn config faults http now r st =
     (case (config, r) of
        (Some subscribers, Some rpt) \<Rightarrow>
          let (rows, findings) = filterAckedFindings sha256 faults now (r_Findings rpt) (fst st);
              (d, delivered) = Dispatch sha256 rn subscribers (snd st) (http, findings, now)
          in ((rows, d), delivered)
      | _ \<Rightarrow> (st, []))"

section \<open>Slack\<close>

definition slackDedupTTL :: int where "slackDedupTTL = 6 * 3600 * 1000000000"
definition slackMaxFindingsPerPost :: nat where "slackMaxFindingsPerPost = 8"

record slackText =
  sx_Type :: string
  sx_Text :: string

record slackBlock =
  sb_Type :: string
  sb_Text :: "slackText option"
  sb_Fields :: "slackText list"

record slackPayload =
  sl_Text :: string
  sl_Blocks :: "slackBlock list"

definition filterCriticals :: "Finding list \<Rightarrow> Finding list" where
  "filterCriticals findings = filter (\<lambda>f. f_Severity f = SeverityCritical) findings"

definition dedup_step :: "(string \<Rightarrow> string) \<Rightarrow> int \<Rightarrow> Finding \<Rightarrow> (string, int) gomap \<times> Finding list \<Rightarrow> (string, int) gomap \<times> Finding list" where
  "dedup_step sha256 now f = (\<lambda>(keys, fresh).
     let key = FindingFingerprint sha256 f
     in if map_of keys key \<noteq> None then (keys, fresh) else (AList.update key now keys, fresh @ [f]))"

definition dedupCriticals :: "(string \<Rightarrow> string) \<Rightarrow> int \<Rightarrow> Finding list \<Rightarrow> (string, int) gomap \<Rightarrow> (string, int) gomap \<times> Finding list" where
  "dedupCriticals sha256 now findings keys =
     fold (dedup_step sha256 now) findings (filter (\<lambda>(k, t). \<not> time_Sub now t > slackDedupTTL) keys, [])"

definition escape_char :: "char \<Rightarrow> string" where
  "escape_char c = (if c = CHR ''&'' then ''&amp;'' else if c = CHR ''<'' then ''&lt;'' else if c = CHR ''>'' then ''&gt;'' else [c])"

definition slackEscape :: "string \<Rightarrow> string" where
  "slackEscape s = concat (map escape_char s)"

definition mrkdwn :: "string \<Rightarrow> slackText" where "mrkdwn t = \<lparr>sx_Type = ''mrkdwn'', sx_Text = t\<rparr>"

definition findingBlock :: "Finding \<Rightarrow> slackBlock" where
  "findingBlock f =
     (let body = ''*'' @ slackEscape (f_Title f) @ ''*'';
          body1 = (if f_Description f \<noteq> '''' then body @ CHR 0x0A # slackEscape (Truncate (f_Description f) 280) else body);
          body2 = (case f_Remediation f of
                     Some rem \<Rightarrow> if rm_Command rem \<noteq> '''' then body1 @ CHR 0x0A # ''```'' @ rm_Command rem @ ''```'' else body1
                   | None \<Rightarrow> body1)
      in \<lparr>sb_Type = ''section'', sb_Text = Some (mrkdwn body2),
          sb_Fields = [mrkdwn (''*Cluster*'' @ CHR 0x0A # slackEscape (finding_group f)),
                       mrkdwn (''*Scanner*'' @ CHR 0x0A # slackEscape (f_Scanner f))]\<rparr>)"

definition slack_score :: "Report \<Rightarrow> string" where
  "slack_score r =
     (let s = r_FleetScore r;
          score = (if s_Graded s
            then ''Fleet Score: '' @ Itoa (s_Score s) @ ''/'' @ s_Grade s @ '' ; scored from '' @ Itoa (s_SampleSize s)
                   @ '' cluster'' @ Plural (s_SampleSize s) @ '' across '' @ Itoa (s_Dimensions s) @ '' dimension''
                   @ Plural (s_Dimensions s) @ ''.''
            else ''Fleet not graded (coverage '' @ Itoa (math_Round (fmul (c_Fraction (s_Coverage s)) 100)) @ ''%).'')
      in if s_Graded s \<and> s_ExcludedClusters s > 0
         then score @ '' '' @ Itoa (s_ExcludedClusters s) @ '' cluster'' @ Plural (s_ExcludedClusters s) @ '' excluded for insufficient data.''
         else score)"

definition buildSlackPayload :: "Finding list \<Rightarrow> Report option \<Rightarrow> slackPayload" where
  "buildSlackPayload fresh r =
     (let n = int (length fresh);
          header = ''Fleetsweeper: '' @ Itoa n @ '' new critical finding'' @ Plural n;
          score = (case r of None \<Rightarrow> '''' | Some rpt \<Rightarrow> slack_score rpt)
      in \<lparr>sl_Text = header,
          sl_Blocks = [\<lparr>sb_Type = ''header'', sb_Text = Some \<lparr>sx_Type = ''plain_text'', sx_Text = header\<rparr>, sb_Fields = []\<rparr>]
            @ (if score \<noteq> '''' then [\<lparr>sb_Type = ''section'', sb_Text = Some (mrkdwn score), sb_Fields = []\<rparr>] else [])
            @ [\<lparr>sb_Type = ''divider'', sb_Text = None, sb_Fields = []\<rparr>]
            @ map findingBlock (take slackMaxFindingsPerPost fresh)
            @ (if length fresh > slackMaxFindingsPerPost
               then [\<lparr>sb_Type = ''section'',
                      sb_Text = Some (mrkdwn (''_+ '' @ Itoa (n - int slackMaxFindingsPerPost) @ '' more not shown_'')), sb_Fields = []\<rparr>]
               else [])\<rparr>)"

record slack_state =
  sk_acks :: acks
  sk_keys :: "(string, int) gomap"
  sk_posts :: "(string \<times> slackPayload) list"

definition notifySlackForReport ::
  "(string \<Rightarrow> string) \<Rightarrow> string \<Rightarrow> (nat \<Rightarrow> bool \<times> bool) \<Rightarrow> (string \<Rightarrow> slackPayload \<Rightarrow> int option) \<Rightarrow> int \<Rightarrow> Report option \<Rightarrow>
   slack_state \<Rightarrow> slack_state \<times> Finding list" where
  "notifySlackForReport sha256 url faults http now r st =
     (case r of
        None \<Rightarrow> (st, [])
      | Some rpt \<Rightarrow>
          if url = '''' then (st, [])
          else
            let (rows, criticals) = filterAckedFindings sha256 faults now (filterCriticals (r_Findings rpt)) (sk_acks st);
                st1 = st\<lparr>sk_acks := rows\<rparr>
            in if criticals = [] then (st1, [])
               else
                 let (keys, fresh) = dedupCriticals sha256 now criticals (sk_keys st1);
                     st2 = st1\<lparr>sk_keys := keys\<rparr>
                 in if fresh = [] then (st2, [])
                    else let payload = buildSlackPayload fresh r
                         in (st2\<lparr>sk_posts := sk_posts st2 @ [(url, payload)]\<rparr>, if http_ok (http url payload) then fresh else []))"

section \<open>No finding is delivered twice within six hours\<close>

definition new_dispatcher :: dispatcher where
  "new_dispatcher = \<lparr>di_notified = [], di_sent = []\<rparr>"

text \<open>The deliveries of a run, each with its time.\<close>

definition delivery_log :: "('h \<times> 'f \<times> int) list \<Rightarrow> string list list \<Rightarrow> (int \<times> string) list" where
  "delivery_log calls kss = concat (map (\<lambda>((http, fs, now), ks). map (Pair now) ks) (zip calls kss))"

definition spaced :: "(int \<times> string) list \<Rightarrow> bool" where
  "spaced evs \<longleftrightarrow> sorted_wrt (\<lambda>(t, k) (t', k'). k = k' \<longrightarrow> dedupTTL < t' - t) evs"

definition logged :: "int \<Rightarrow> (int \<times> string) list \<Rightarrow> (string \<Rightarrow> int option) \<Rightarrow> bool" where
  "logged now evs m \<longleftrightarrow> (\<forall>(t, k) \<in> set evs. (\<exists>u. t \<le> u \<and> m k = Some u) \<or> dedupTTL < now - t)"

definition dedup_inv :: "int \<Rightarrow> (int \<times> string) list \<Rightarrow> dispatcher \<Rightarrow> bool" where
  "dedup_inv now evs d \<longleftrightarrow> distinct (map fst (di_notified d)) \<and> logged now evs (map_of (di_notified d))"

lemma dedup_inv_later: "dedup_inv T evs d \<Longrightarrow> T \<le> now \<Longrightarrow> dedup_inv now evs d"
  unfolding dedup_inv_def logged_def by fastforce

lemma dedup_inv_gc:
  assumes "dedup_inv now evs d"
  shows "dedup_inv now evs (d\<lparr>di_notified := gcExpired now (di_notified d)\<rparr>)"
proof -
  have d: "distinct (map fst (di_notified d))" using assms by (simp add: dedup_inv_def)
  have gone: "dedupTTL < now - u" if "dedupTTL < time_Sub now u" for u
    using time_Sub_gt [OF that] by (simp add: dedupTTL_def)
  show ?thesis
    unfolding dedup_inv_def logged_def
  proof (intro conjI ballI)
    show "distinct (map fst (di_notified (d\<lparr>di_notified := gcExpired now (di_notified d)\<rparr>)))"
      using d by (simp add: gcExpired_def distinct_map_filter)
    fix x assume x: "x \<in> set evs"
    obtain t k where tk: "x = (t, k)" by (cases x)
    consider u where "t \<le> u" "map_of (di_notified d) k = Some u" | "dedupTTL < now - t"
      using assms x tk unfolding dedup_inv_def logged_def by fast
    then show "case x of (t, k) \<Rightarrow> (\<exists>u\<ge>t. map_of (di_notified (d\<lparr>di_notified := gcExpired now (di_notified d)\<rparr>)) k = Some u) \<or> dedupTTL < now - t"
    proof cases
      case 1
      then show ?thesis
        using gone [of u] by (cases "dedupTTL < time_Sub now u") (simp_all add: tk gcExpired_def map_of_filter_distinct [OF d])
    qed (simp add: tk)
  qed
qed

lemma webhook_send_notified: "di_notified (fst (webhook_send rn http s f d)) = di_notified d"
  by (simp add: webhook_send_def Let_def split: option.split)

lemma spaced_snoc: "spaced (evs @ [(now, k)]) \<longleftrightarrow> spaced evs \<and> (\<forall>(t, k') \<in> set evs. k' = k \<longrightarrow> dedupTTL < now - t)"
  by (auto simp: spaced_def sorted_wrt_append)

lemma dispatch_one_inv:
  assumes "dedup_inv now (evs @ map (Pair now) delivered) d" "spaced (evs @ map (Pair now) delivered)"
    and "dispatch_one sha256 rn http now sf (d, delivered) = (d', delivered')"
  shows "dedup_inv now (evs @ map (Pair now) delivered') d' \<and> spaced (evs @ map (Pair now) delivered')"
proof -
  obtain s f where sf: "sf = (s, f)" by (cases sf)
  define key where "key = dedupKey sha256 (ws_Name s) f"
  obtain d1 ok where send: "webhook_send rn http s f (d\<lparr>di_notified := AList.update key now (di_notified d)\<rparr>) = (d1, ok)" by fastforce
  have d1: "di_notified d1 = AList.update key now (di_notified d)" using webhook_send_notified send by (metis dispatcher.simps(1,3) dispatcher.surjective dispatcher.update_convs(1) fst_conv)
  show ?thesis
  proof (cases "matches s f \<and> map_of (di_notified d) key = None")
    case False
    then have "(d', delivered') = (d, delivered)"
      using assms(3) unfolding dispatch_one_def sf Let_def key_def by (cases "matches s f") auto
    then show ?thesis using assms(1,2) by simp
  next
    case absent: True
    then have old: "(t, key) \<in> set (evs @ map (Pair now) delivered) \<Longrightarrow> dedupTTL < now - t" for t
      using assms(1) unfolding dedup_inv_def logged_def by fastforce
    have d: "distinct (map fst (di_notified d))" using assms(1) by (simp add: dedup_inv_def)
    have others: "(t, k) \<in> set (evs @ map (Pair now) delivered) \<Longrightarrow>
        (\<exists>u. t \<le> u \<and> map_of (di_notified d) k = Some u) \<or> dedupTTL < now - t" for t k
      using assms(1) unfolding dedup_inv_def logged_def by fast
    show ?thesis
    proof (cases ok)
      case True
      then have res: "d' = d1" "delivered' = delivered @ [key]"
        using assms(3) absent send by (simp_all add: dispatch_one_def sf Let_def key_def [symmetric])
      have "dedup_inv now (evs @ map (Pair now) delivered') d'"
        unfolding dedup_inv_def logged_def res d1
      proof (intro conjI ballI)
        fix x assume x: "x \<in> set (evs @ map (Pair now) (delivered @ [key]))"
        obtain t k where tk: "x = (t, k)" by (cases x)
        show "case x of (t, k) \<Rightarrow> (\<exists>u\<ge>t. map_of (AList.update key now (di_notified d)) k = Some u) \<or> dedupTTL < now - t"
          using x old [of t] others [of t k] by (cases "k = key") (auto simp: tk)
      qed (use d in \<open>simp add: distinct_update\<close>)
      moreover have "spaced (evs @ map (Pair now) delivered')"
        using assms(2) old spaced_snoc [of "evs @ map (Pair now) delivered" now key] by (auto simp: res)
      ultimately show ?thesis ..
    next
      case False
      then have res: "d' = d1\<lparr>di_notified := AList.delete key (di_notified d1)\<rparr>" "delivered' = delivered"
        using assms(3) absent send by (simp_all add: dispatch_one_def sf Let_def key_def [symmetric])
      have "map_of (di_notified d') = map_of (di_notified d)" using absent by (auto simp: res d1 fun_eq_iff)
      moreover have "distinct (map fst (di_notified d'))" using d by (simp add: res d1 distinct_update distinct_delete)
      ultimately show ?thesis using assms(1,2) by (simp add: dedup_inv_def res(2))
    qed
  qed
qed

lemma dispatch_fold_inv:
  assumes "dedup_inv now (evs @ map (Pair now) delivered) d" "spaced (evs @ map (Pair now) delivered)"
    and "fold (dispatch_one sha256 rn http now) sfs (d, delivered) = (d', delivered')"
  shows "dedup_inv now (evs @ map (Pair now) delivered') d' \<and> spaced (evs @ map (Pair now) delivered')"
  using assms
proof (induction sfs arbitrary: d delivered)
  case (Cons sf sfs)
  obtain d1 delivered1 where step: "dispatch_one sha256 rn http now sf (d, delivered) = (d1, delivered1)" by fastforce
  show ?case using dispatch_one_inv [OF Cons.prems(1,2) step] Cons.IH [of delivered1 d1] Cons.prems(3) step by simp
qed simp

lemma Dispatch_inv:
  assumes "dedup_inv now evs d" "spaced evs" "Dispatch sha256 rn subscribers d (http, findings, now) = (d', delivered)"
  shows "dedup_inv now (evs @ map (Pair now) delivered) d' \<and> spaced (evs @ map (Pair now) delivered)"
proof (cases "subscribers = []")
  case False
  then have "fold (dispatch_one sha256 rn http now) (concat (map (\<lambda>s. map (Pair s) findings) subscribers))
      (d\<lparr>di_notified := gcExpired now (di_notified d)\<rparr>, []) = (d', delivered)"
    using assms(3) by (simp add: Dispatch_def)
  from dispatch_fold_inv [OF _ _ this, of evs] dedup_inv_gc [OF assms(1)] assms(2) show ?thesis by simp
qed (use assms in \<open>simp add: Dispatch_def\<close>)

lemma deliveries_spaced:
  "dedup_inv T evs d \<Longrightarrow> spaced evs \<Longrightarrow> sorted (T # map (\<lambda>(http, fs, now). now) calls) \<Longrightarrow>
   spaced (evs @ delivery_log calls (answers (Dispatch sha256 rn subscribers) d calls))"
proof (induction calls arbitrary: T evs d)
  case Nil
  then show ?case by (simp add: delivery_log_def)
next
  case (Cons c calls)
  obtain http fs now where c: "c = (http, fs, now)" by (cases c)
  obtain d' ks where call: "Dispatch sha256 rn subscribers d c = (d', ks)" by fastforce
  have "dedup_inv now evs d" using Cons.prems dedup_inv_later by (auto simp: c)
  from Dispatch_inv [OF this Cons.prems(2) call [unfolded c]]
  have "dedup_inv now (evs @ map (Pair now) ks) d'" "spaced (evs @ map (Pair now) ks)" by blast+
  from Cons.IH [OF this] Cons.prems(3) call show ?case by (simp add: delivery_log_def c)
qed


text \<open>A failed delivery is tried again at the next call: it leaves no entry behind.\<close>

lemma failed_send_forgotten:
  assumes "distinct (map fst (di_notified d))" "matches s f" "map_of (di_notified d) (dedupKey sha256 (ws_Name s) f) = None"
    and "\<And>n req. \<not> http_ok (http n req)"
  shows "map_of (di_notified (fst (dispatch_one sha256 rn http now (s, f) (d, ks)))) = map_of (di_notified d) \<and>
    snd (dispatch_one sha256 rn http now (s, f) (d, ks)) = ks"
  using assms by (auto simp: dispatch_one_def Let_def webhook_send_def fun_eq_iff split: option.split)

definition any_subscriber :: "unit Subscriber" where
  "any_subscriber = \<lparr>ws_Name = ''w'', ws_URL = ''u'', ws_MinSeverity = '''', ws_ScannerRegex = '''', ws_ClusterRegex = '''',
     ws_Headers = [], ws_BodyTemplate = '''', ws_ContentType = '''', ws_scannerRE = None, ws_clusterRE = None, ws_tmpl = None\<rparr>"

definition plain_renderer :: "unit renderer" where
  "plain_renderer = \<lparr>rn_envelope = \<lambda>f. Some (f_Title f), rn_execute = \<lambda>t f. None, rn_expand = \<lambda>s. s\<rparr>"


section \<open>Acknowledged findings and failed posts\<close>

lemma prune_idem: "filter (\<lambda>(k, r). \<not> ack_expired now r) (filter (\<lambda>(k, r). \<not> ack_expired now r) rows) = filter (\<lambda>(k, r). \<not> ack_expired now r) rows"
  by (simp add: split_def)

lemma keep_unacked_fold:
  assumes "rows = filter (\<lambda>(k, r). \<not> ack_expired now r) rows"
  shows "\<exists>i'. fold (keep_unacked sha256 (\<lambda>_. (False, False)) now) fs (rows, i, out) =
    (rows, i', out @ filter (\<lambda>f. map_of rows (FindingFingerprint sha256 f) = None) fs)"
proof (induction fs arbitrary: i out)
  case (Cons f fs)
  have "IsAcked (False, False) now (FindingFingerprint sha256 f) rows
      = (rows, Inr (map_of rows (FindingFingerprint sha256 f) \<noteq> None))"
    using assms found_row [of "FindingFingerprint sha256 f" rows] by (simp add: IsAcked_def pruneExpiredAcks_def)
  then have "keep_unacked sha256 (\<lambda>_. (False, False)) now f (rows, i, out)
      = (rows, Suc i, out @ (if map_of rows (FindingFingerprint sha256 f) = None then [f] else []))"
    by (simp add: keep_unacked_def)
  then show ?case using Cons.IH [of "Suc i" out] Cons.IH [of "Suc i" "out @ [f]"] by simp
qed simp

text \<open>While the database answers, exactly the findings without an acknowledgement in force are kept, so an
  acknowledged finding reaches no channel.\<close>

lemma filterAckedFindings_spec:
  assumes "distinct (map fst rows)"
  shows "snd (filterAckedFindings sha256 (\<lambda>_. (False, False)) now fs rows) =
    filter (\<lambda>f. in_force (map_of rows) now (FindingFingerprint sha256 f) = None) fs"
proof (cases fs)
  case (Cons f gs)
  let ?p = "filter (\<lambda>(k, r). \<not> ack_expired now r) rows"
  have at: "map_of ?p k = in_force (map_of rows) now k" for k
    by (simp add: map_of_unexpired [OF assms] in_force_def)
  have "IsAcked (False, False) now (FindingFingerprint sha256 f) rows = (?p, Inr (map_of ?p (FindingFingerprint sha256 f) \<noteq> None))"
    using found_row [of "FindingFingerprint sha256 f" ?p] by (simp add: IsAcked_def pruneExpiredAcks_def)
  then have one: "keep_unacked sha256 (\<lambda>_. (False, False)) now f (rows, 0, [])
      = (?p, Suc 0, if map_of ?p (FindingFingerprint sha256 f) = None then [f] else [])"
    by (simp add: keep_unacked_def)
  obtain i' where "fold (keep_unacked sha256 (\<lambda>_. (False, False)) now) gs (?p, Suc 0, if map_of ?p (FindingFingerprint sha256 f) = None then [f] else [])
      = (?p, i', (if map_of ?p (FindingFingerprint sha256 f) = None then [f] else []) @ filter (\<lambda>f. map_of ?p (FindingFingerprint sha256 f) = None) gs)"
    using keep_unacked_fold [of ?p now sha256 gs "Suc 0"] prune_idem by fastforce
  then show ?thesis by (simp add: filterAckedFindings_def Cons one at)
qed (simp add: filterAckedFindings_def)

lemma dedup_fold_keys:
  "fold (dedup_step sha256 now) fs (keys, fresh) = (keys', fresh') \<Longrightarrow>
   (\<forall>f \<in> set fs. map_of keys' (FindingFingerprint sha256 f) \<noteq> None) \<and>
   (\<forall>k. map_of keys' k = (if map_of keys k = None \<and> k \<in> FindingFingerprint sha256 ` set fs then Some now else map_of keys k)) \<and>
   (distinct (map fst keys) \<longrightarrow> distinct (map fst keys'))"
proof (induction fs arbitrary: keys fresh)
  case (Cons f fs)
  show ?case
  proof (cases "map_of keys (FindingFingerprint sha256 f) = None")
    case True
    have "dedup_step sha256 now f (keys, fresh) = (AList.update (FindingFingerprint sha256 f) now keys, fresh @ [f])"
      using True by (simp add: dedup_step_def Let_def)
    then have "fold (dedup_step sha256 now) fs (AList.update (FindingFingerprint sha256 f) now keys, fresh @ [f]) = (keys', fresh')"
      using Cons.prems by simp
    from Cons.IH [OF this] True show ?thesis by (auto simp: distinct_update split: if_splits)
  next
    case False
    have "dedup_step sha256 now f (keys, fresh) = (keys, fresh)" using False by (simp add: dedup_step_def Let_def)
    then have "fold (dedup_step sha256 now) fs (keys, fresh) = (keys', fresh')" using Cons.prems by simp
    from Cons.IH [OF this] False show ?thesis by auto
  qed
qed auto

lemma dedup_again:
  "(\<And>f. f \<in> set fs \<Longrightarrow> map_of keys (FindingFingerprint sha256 f) \<noteq> None) \<Longrightarrow>
   fold (dedup_step sha256 now) fs (keys, []) = (keys, [])"
  by (induction fs) (auto simp: dedup_step_def Let_def)

text \<open>The notifier marks a finding as notified before it posts, and keeps the mark when the post fails: for
  six hours a critical finding whose post was lost is not posted again, whatever the reply was.\<close>

lemma slack_lost_post:
  assumes st: "sk_acks st = []" "sk_keys st = []" and "now \<le> later" "later - now \<le> slackDedupTTL"
    and first: "notifySlackForReport sha256 url (\<lambda>_. (False, False)) http now (Some r) st = (st1, posted)"
  shows "sk_posts (fst (notifySlackForReport sha256 url (\<lambda>_. (False, False)) http' later (Some r) st1)) = sk_posts st1"
proof (cases "url = '''' \<or> filterCriticals (r_Findings r) = []")
  case True
  have none: "filterAckedFindings sha256 (\<lambda>_. (False, False)) t fs [] = ([], fs)" for t fs
    using keep_unacked_fold [of "[]" t sha256 fs 0 "[]"] by (auto simp: filterAckedFindings_def)
  show ?thesis using True first st by (auto simp: notifySlackForReport_def none)
next
  case False
  have none: "filterAckedFindings sha256 (\<lambda>_. (False, False)) t fs [] = ([], fs)" for t fs
    using keep_unacked_fold [of "[]" t sha256 fs 0 "[]"] by (auto simp: filterAckedFindings_def)
  let ?cs = "filterCriticals (r_Findings r)"
  obtain keys fresh where dedup: "fold (dedup_step sha256 now) ?cs ([], []) = (keys, fresh)" by fastforce
  note facts = dedup_fold_keys [OF dedup]
  have st1: "sk_acks st1 = []" "sk_keys st1 = keys"
    using False first st dedup by (auto simp: notifySlackForReport_def none dedupCriticals_def Let_def split: if_splits)
  have recent: "\<not> slackDedupTTL < time_Sub later t" if "(k, t) \<in> set keys" for k t
  proof -
    have d: "distinct (map fst keys)" using facts by simp
    then have "map_of keys k = Some t" using that by (rule map_of_is_SomeI)
    then have "t = now" using facts by (auto split: if_splits)
    then show ?thesis using assms(3,4) by (auto simp: time_Sub_def)
  qed
  then have kept: "filter (\<lambda>(k, t). \<not> slackDedupTTL < time_Sub later t) keys = keys" by (auto simp: filter_id_conv)
  have "fold (dedup_step sha256 later) ?cs (keys, []) = (keys, [])" using facts by (intro dedup_again) blast
  then show ?thesis using False by (simp add: notifySlackForReport_def none st1 dedupCriticals_def kept Let_def)
qed

lemma slackEscape_plain: "list_all (\<lambda>c. c \<notin> set ''&<>'') s \<Longrightarrow> slackEscape s = s"
  by (induction s) (auto simp: slackEscape_def escape_char_def)

lemma slackEscape_safe: "set (slackEscape s) \<inter> set ''<>'' = {}"
  by (auto simp: slackEscape_def escape_char_def split: if_splits)

text \<open>A post shows at most eight findings, and says how many it leaves out.\<close>

lemma slack_blocks:
  "length (sl_Blocks (buildSlackPayload fresh r)) \<le> 4 + slackMaxFindingsPerPost"
  by (simp add: buildSlackPayload_def Let_def slackMaxFindingsPerPost_def)

end
