(* ===== verification/Scan_Store.thy ===== *)
theory Scan_Store
  imports Api_Keys Report_Types Refinement
begin

text \<open>
  The tables of scans, results, clusters, groups, locations and tags: \<open>internal/store/sqlstore.go\<close>,
  \<open>memberships.go\<close> and \<open>tags.go\<close>, on the schema of \<open>migrate.go\<close>. A table is a map from its primary key to
  its other columns, in insertion order; a foreign key is checked on insertion and cascades on deletion. The
  database is SQLite: a negative limit is none. Statements of a transaction are numbered, and \<open>faults\<close> says
  which of them the database fails to execute; a transaction that does not commit leaves the database as it
  was. A column that holds JSON is kept as its value.
\<close>

section \<open>Times\<close>

text \<open>A time with its zone, and the RFC 3339 text of it: the second of the local clock and the zone. Texts sort by
  both, as the fixed-width text of a year up to 9999 does.\<close>

record zoned =
  zt_ns :: int
  zt_offset :: int

definition utc :: "int \<Rightarrow> zoned" where "utc t = \<lparr>zt_ns = t, zt_offset = 0\<rparr>"

type_synonym time_text = "int \<times> string"

definition two_digits :: "int \<Rightarrow> string" where
  "two_digits n = (if n < 10 then CHR ''0'' # Itoa n else Itoa n)"

definition zone_text :: "int \<Rightarrow> string" where
  "zone_text off =
     (if off = 0 then ''Z''
      else (if off < 0 then CHR ''-'' else CHR ''+'') #
           two_digits (\<bar>off\<bar> div 3600) @ '':'' @ two_digits (\<bar>off\<bar> div 60 mod 60))"

definition format_time :: "zoned \<Rightarrow> time_text" where
  "format_time t = (zt_ns t div 1000000000 + zt_offset t, zone_text (zt_offset t))"

definition utc_text :: "int \<Rightarrow> time_text" where "utc_text t = format_time (utc t)"

text \<open>Times are stored in UTC.\<close>

definition parse_utc :: "time_text \<Rightarrow> int" where "parse_utc x = fst x * 1000000000"

section \<open>Tables\<close>

record ScanRecord =
  sn_ID :: string
  sn_Timestamp :: int
  sn_Clusters :: "string list"
  sn_Scanners :: "string list"

record ScanResultRecord =
  sx_ScanID :: string
  sx_Cluster :: string
  sx_Scanner :: string
  sx_DataJSON :: json
  sx_State :: State
  sx_Reason :: string

record ClusterRecord =
  cl_Name :: string
  cl_FirstSeen :: int
  cl_LastSeen :: int
  cl_Groups :: "string list"

record GroupRecord =
  gr_Name :: string
  gr_Clusters :: "string list"

record LocationRecord =
  lc_Cluster :: string
  lc_Lat :: float64
  lc_Lng :: float64
  lc_Site :: string
  lc_Notes :: string
  lc_UpdatedAt :: int

record scan_row =
  sw_timestamp :: time_text
  sw_clusters :: "string list"
  sw_scanners :: "string list"

record result_row =
  rw_data :: json
  rw_state :: State
  rw_reason :: string

record location_row =
  lw_lat :: float64
  lw_lng :: float64
  lw_site :: string
  lw_notes :: string
  lw_updated :: time_text

record scan_db =
  db_scans :: "(string, scan_row) gomap"
  db_results :: "(string \<times> string \<times> string, result_row) gomap"
  db_clusters :: "(string, time_text \<times> time_text) gomap"
  db_groups :: "string list"
  db_members :: "(string \<times> string) list"
  db_locations :: "(string, location_row) gomap"
  db_tags :: "(string \<times> string, string) gomap"

definition empty_db :: scan_db where
  "empty_db = \<lparr>db_scans = [], db_results = [], db_clusters = [], db_groups = [], db_members = [], db_locations = [], db_tags = []\<rparr>"

text \<open>\<open>ORDER BY\<close> descending; rows of equal keys keep their order.\<close>

definition sort_desc :: "('a \<Rightarrow> 'k::linorder) \<Rightarrow> 'a list \<Rightarrow> 'a list" where
  "sort_desc f xs = rev (sort_key f (rev xs))"

definition limit_rows :: "int \<Rightarrow> 'a list \<Rightarrow> 'a list" where
  "limit_rows limit xs = (if limit < 0 then xs else take (nat limit) xs)"

section \<open>Transactions\<close>

text \<open>A statement fails on a violated constraint.\<close>

type_synonym stmt = "scan_db \<Rightarrow> scan_db option"

fun run_stmts :: "(nat \<Rightarrow> bool) \<Rightarrow> nat \<Rightarrow> stmt list \<Rightarrow> scan_db \<Rightarrow> scan_db option" where
  "run_stmts faults n [] db = Some db"
| "run_stmts faults n (s # ss) db =
     (if faults n then None else case s db of None \<Rightarrow> None | Some db' \<Rightarrow> run_stmts faults (Suc n) ss db')"

text \<open>Begin, the statements, commit: the new database, or none when it is rolled back.\<close>

definition in_tx :: "(nat \<Rightarrow> bool) \<Rightarrow> stmt list \<Rightarrow> stmt" where
  "in_tx faults stmts db =
     (if faults 0 then None
      else case run_stmts faults 1 stmts db of
             None \<Rightarrow> None
           | Some db' \<Rightarrow> if faults (Suc (length stmts)) then None else Some db')"

definition tx_result :: "scan_db \<Rightarrow> scan_db option \<Rightarrow> 'a \<Rightarrow> scan_db \<times> (store_error + 'a)" where
  "tx_result db outcome x = (case outcome of None \<Rightarrow> (db, Inl ErrStore) | Some db' \<Rightarrow> (db', Inr x))"

section \<open>Scans\<close>

definition insert_scan :: "string \<Rightarrow> scan_row \<Rightarrow> stmt" where
  "insert_scan sid row db =
     (if sid \<in> fst ` set (db_scans db) then None else Some (db\<lparr>db_scans := db_scans db @ [(sid, row)]\<rparr>))"

definition insert_result :: "string \<times> string \<times> string \<Rightarrow> result_row \<Rightarrow> stmt" where
  "insert_result key row db =
     (if key \<in> fst ` set (db_results db) \<or> fst key \<notin> fst ` set (db_scans db) then None
      else Some (db\<lparr>db_results := db_results db @ [(key, row)]\<rparr>))"

definition upsert_cluster :: "time_text \<Rightarrow> string \<Rightarrow> stmt" where
  "upsert_cluster now name db =
     Some (db\<lparr>db_clusters := AList.update name
       (case map_of (db_clusters db) name of None \<Rightarrow> (now, now) | Some (first, seen) \<Rightarrow> (first, now)) (db_clusters db)\<rparr>)"

text \<open>The statements of a save; the order in which Go ranges over the results is the order of the lists.\<close>

definition result_stmts :: "string \<Rightarrow> results \<Rightarrow> stmt list" where
  "result_stmts sid results =
     concat (map (\<lambda>(cluster, scanners). map (\<lambda>(name, res).
       insert_result (sid, cluster, name) \<lparr>rw_data = res_Data res, rw_state = res_State res, rw_reason = res_Reason res\<rparr>) scanners)
       results)"

definition save_stmts :: "string \<Rightarrow> time_text \<Rightarrow> string list \<Rightarrow> results \<Rightarrow> stmt list" where
  "save_stmts sid now clusters results =
     insert_scan sid \<lparr>sw_timestamp = now, sw_clusters = clusters, sw_scanners = Names results\<rparr> # Some #
     result_stmts sid results @ map (upsert_cluster now) clusters"

definition SaveScanRecord ::
  "(nat \<Rightarrow> bool) \<Rightarrow> string \<Rightarrow> int \<Rightarrow> ScanRecord \<Rightarrow> results \<Rightarrow> scan_db \<Rightarrow> scan_db \<times> (store_error + string)" where
  "SaveScanRecord faults generated clock rec results db =
     (let sid = (if sn_ID rec = '''' then generated else sn_ID rec);
          ts = (if sn_Timestamp rec = zero_time then clock else sn_Timestamp rec)
      in tx_result db (in_tx faults (save_stmts sid (utc_text ts) (sn_Clusters rec) results) db) sid)"

definition SaveScan :: "(nat \<Rightarrow> bool) \<Rightarrow> string \<Rightarrow> int \<Rightarrow> string list \<Rightarrow> results \<Rightarrow> scan_db \<Rightarrow> scan_db \<times> (store_error + string)" where
  "SaveScan faults generated clock clusters results db =
     SaveScanRecord faults generated clock \<lparr>sn_ID = '''', sn_Timestamp = zero_time, sn_Clusters = clusters, sn_Scanners = []\<rparr> results db"

definition scanRecord :: "string \<times> scan_row \<Rightarrow> ScanRecord" where
  "scanRecord row = \<lparr>sn_ID = fst row, sn_Timestamp = parse_utc (sw_timestamp (snd row)),
     sn_Clusters = sw_clusters (snd row), sn_Scanners = sw_scanners (snd row)\<rparr>"

definition GetScan :: "bool \<Rightarrow> string \<Rightarrow> scan_db \<Rightarrow> store_error + ScanRecord" where
  "GetScan fault sid db =
     (if fault then Inl ErrQuery
      else case map_of (db_scans db) sid of None \<Rightarrow> Inl ErrNotFound | Some row \<Rightarrow> Inr (scanRecord (sid, row)))"

definition newest_first :: "(string, scan_row) gomap \<Rightarrow> (string \<times> scan_row) list" where
  "newest_first rows = sort_desc (\<lambda>(sid, row). (sw_timestamp row, sid)) rows"

definition ListScans :: "bool \<Rightarrow> int \<Rightarrow> scan_db \<Rightarrow> store_error + ScanRecord list" where
  "ListScans fault limit db =
     (if fault then Inl ErrQuery else Inr (map scanRecord (limit_rows limit (newest_first (db_scans db)))))"

definition GetScansByTimeRange :: "bool \<Rightarrow> zoned \<Rightarrow> zoned \<Rightarrow> scan_db \<Rightarrow> store_error + ScanRecord list" where
  "GetScansByTimeRange fault start finish db =
     (if fault then Inl ErrQuery
      else Inr (map scanRecord (newest_first (filter (\<lambda>(sid, row).
        format_time start \<le> sw_timestamp row \<and> sw_timestamp row \<le> format_time finish) (db_scans db)))))"

definition result_of_row :: "string \<Rightarrow> result_row \<Rightarrow> Result" where
  "result_of_row name row = \<lparr>res_Scanner = name, res_State = rw_state row, res_Reason = rw_reason row, res_Data = rw_data row\<rparr>"

definition collect_result :: "(string \<times> string \<times> string) \<times> result_row \<Rightarrow> results \<Rightarrow> results" where
  "collect_result kr results =
     (let ((sid, cluster, name), row) = kr
      in AList.update cluster (AList.update name (result_of_row name row) (lookup_default [] results cluster)) results)"

definition GetScanResults :: "bool \<Rightarrow> string \<Rightarrow> scan_db \<Rightarrow> store_error + results" where
  "GetScanResults fault sid db =
     (if fault then Inl ErrQuery
      else Inr (fold collect_result (filter (\<lambda>(key, row). fst key = sid) (db_results db)) []))"

text \<open>The rows of a cluster joined with their scans.\<close>

definition GetClusterHistory :: "bool \<Rightarrow> string \<Rightarrow> int \<Rightarrow> scan_db \<Rightarrow> store_error + ScanResultRecord list" where
  "GetClusterHistory fault cluster limit db =
     (if fault then Inl ErrQuery
      else
        let rows = filter (\<lambda>((sid, c, name), row). c = cluster \<and> sid \<in> fst ` set (db_scans db)) (db_results db);
            key = (\<lambda>((sid, c, name), row). (lookup_default (0, '''') (map (apsnd sw_timestamp) (db_scans db)) sid, sid))
        in Inr (map (\<lambda>((sid, c, name), row).
             \<lparr>sx_ScanID = sid, sx_Cluster = c, sx_Scanner = name, sx_DataJSON = rw_data row, sx_State = rw_state row,
              sx_Reason = rw_reason row\<rparr>) (limit_rows limit (sort_desc key rows))))"

definition Prune :: "bool \<Rightarrow> int \<Rightarrow> scan_db \<Rightarrow> scan_db \<times> (store_error + int)" where
  "Prune fault cutoff db =
     (if fault then (db, Inl ErrStore)
      else
        let old = (\<lambda>row. sw_timestamp row < utc_text cutoff);
            kept = filter (\<lambda>(sid, row). \<not> old row) (db_scans db)
        in (db\<lparr>db_scans := kept,
               db_results := filter (\<lambda>(key, row). fst key \<in> fst ` set kept) (db_results db)\<rparr>,
            Inr (int (length (filter (\<lambda>(sid, row). old row) (db_scans db))))))"

section \<open>Groups and clusters\<close>

definition insert_group :: "string \<Rightarrow> stmt" where
  "insert_group name db = Some (if name \<in> set (db_groups db) then db else db\<lparr>db_groups := db_groups db @ [name]\<rparr>)"

definition clear_group :: "string \<Rightarrow> stmt" where
  "clear_group name db = Some (db\<lparr>db_members := filter (\<lambda>(g, c). g \<noteq> name) (db_members db)\<rparr>)"

definition insert_member :: "string \<Rightarrow> string \<Rightarrow> stmt" where
  "insert_member g c db =
     (if (g, c) \<in> set (db_members db) \<or> g \<notin> set (db_groups db) then None
      else Some (db\<lparr>db_members := db_members db @ [(g, c)]\<rparr>))"

definition SaveGroup :: "(nat \<Rightarrow> bool) \<Rightarrow> string \<Rightarrow> string list \<Rightarrow> scan_db \<Rightarrow> scan_db \<times> (store_error + unit)" where
  "SaveGroup faults name clusters db =
     tx_result db (in_tx faults (insert_group name # clear_group name # map (insert_member name) clusters) db) ()"

definition groupClusters :: "bool \<Rightarrow> string \<Rightarrow> scan_db \<Rightarrow> store_error + string list" where
  "groupClusters fault g db =
     (if fault then Inl ErrQuery else Inr (sort (map snd (filter (\<lambda>(g', c). g' = g) (db_members db)))))"

definition GetGroup :: "bool \<times> bool \<Rightarrow> string \<Rightarrow> scan_db \<Rightarrow> store_error + GroupRecord" where
  "GetGroup faults name db =
     (if fst faults then Inl ErrQuery
      else if name \<notin> set (db_groups db) then Inl ErrNotFound
      else case groupClusters (snd faults) name db of
             Inl e \<Rightarrow> Inl e | Inr clusters \<Rightarrow> Inr \<lparr>gr_Name = name, gr_Clusters = clusters\<rparr>)"

definition scanMemberships :: "(string \<times> string) list \<Rightarrow> (string, string list) gomap \<times> (string, string list) gomap" where
  "scanMemberships rows =
     fold (\<lambda>(g, c) (byGroup, byCluster). (map_append g c byGroup, map_append c g byCluster)) rows ([], [])"

definition memberships :: "bool \<Rightarrow> scan_db \<Rightarrow> store_error + (string, string list) gomap \<times> (string, string list) gomap" where
  "memberships fault db = (if fault then Inl ErrQuery else Inr (scanMemberships (sort (db_members db))))"

definition ListGroups :: "bool \<times> bool \<Rightarrow> scan_db \<Rightarrow> store_error + GroupRecord list" where
  "ListGroups faults db =
     (if fst faults then Inl ErrQuery
      else case memberships (snd faults) db of
             Inl e \<Rightarrow> Inl e
           | Inr (byGroup, byCluster) \<Rightarrow>
               Inr (map (\<lambda>g. \<lparr>gr_Name = g, gr_Clusters = lookup_default [] byGroup g\<rparr>) (sort (db_groups db))))"

definition ListClusters :: "bool \<times> bool \<Rightarrow> scan_db \<Rightarrow> store_error + ClusterRecord list" where
  "ListClusters faults db =
     (if fst faults then Inl ErrQuery
      else case memberships (snd faults) db of
             Inl e \<Rightarrow> Inl e
           | Inr (byGroup, byCluster) \<Rightarrow>
               Inr (map (\<lambda>(name, first, seen). \<lparr>cl_Name = name, cl_FirstSeen = parse_utc first, cl_LastSeen = parse_utc seen,
                       cl_Groups = lookup_default [] byCluster name\<rparr>) (sort_key fst (db_clusters db))))"

definition DeleteGroup :: "bool \<Rightarrow> string \<Rightarrow> scan_db \<Rightarrow> scan_db \<times> (store_error + unit)" where
  "DeleteGroup fault name db =
     (if fault then (db, Inl ErrStore)
      else if name \<notin> set (db_groups db) then (db, Inl ErrNotFound)
      else (db\<lparr>db_groups := removeAll name (db_groups db), db_members := filter (\<lambda>(g, c). g \<noteq> name) (db_members db)\<rparr>, Inr ()))"

definition AddClusterToGroup :: "bool \<Rightarrow> string \<Rightarrow> string \<Rightarrow> scan_db \<Rightarrow> scan_db \<times> (store_error + unit)" where
  "AddClusterToGroup fault g c db =
     (if fault then (db, Inl ErrStore)
      else if (g, c) \<in> set (db_members db) then (db, Inr ())
      else tx_result db (insert_member g c db) ())"

definition RemoveClusterFromGroup :: "bool \<Rightarrow> string \<Rightarrow> string \<Rightarrow> scan_db \<Rightarrow> scan_db \<times> (store_error + unit)" where
  "RemoveClusterFromGroup fault g c db =
     (if fault then (db, Inl ErrStore) else (db\<lparr>db_members := removeAll (g, c) (db_members db)\<rparr>, Inr ()))"

section \<open>Locations\<close>

definition SetLocation :: "bool \<Rightarrow> int \<Rightarrow> LocationRecord \<Rightarrow> scan_db \<Rightarrow> scan_db \<times> (store_error + unit)" where
  "SetLocation fault now loc db =
     (if fault then (db, Inl ErrStore)
      else (db\<lparr>db_locations := AList.update (lc_Cluster loc)
              \<lparr>lw_lat = lc_Lat loc, lw_lng = lc_Lng loc, lw_site = lc_Site loc, lw_notes = lc_Notes loc, lw_updated = utc_text now\<rparr>
              (db_locations db)\<rparr>, Inr ()))"

definition scanLocation :: "string \<times> location_row \<Rightarrow> LocationRecord" where
  "scanLocation row = \<lparr>lc_Cluster = fst row, lc_Lat = lw_lat (snd row), lc_Lng = lw_lng (snd row), lc_Site = lw_site (snd row),
     lc_Notes = lw_notes (snd row), lc_UpdatedAt = parse_utc (lw_updated (snd row))\<rparr>"

definition GetLocation :: "bool \<Rightarrow> string \<Rightarrow> scan_db \<Rightarrow> store_error + LocationRecord option" where
  "GetLocation fault cluster db =
     (if fault then Inl ErrQuery
      else Inr (map_option (\<lambda>row. scanLocation (cluster, row)) (map_of (db_locations db) cluster)))"

definition ListLocations :: "bool \<Rightarrow> scan_db \<Rightarrow> store_error + LocationRecord list" where
  "ListLocations fault db =
     (if fault then Inl ErrQuery else Inr (map scanLocation (sort_key fst (db_locations db))))"

definition DeleteLocation :: "bool \<Rightarrow> string \<Rightarrow> scan_db \<Rightarrow> scan_db \<times> (store_error + unit)" where
  "DeleteLocation fault cluster db =
     (if fault then (db, Inl ErrStore) else (db\<lparr>db_locations := AList.delete cluster (db_locations db)\<rparr>, Inr ()))"

section \<open>Tags\<close>

definition SetClusterTag :: "bool \<Rightarrow> string \<Rightarrow> string \<Rightarrow> string \<Rightarrow> scan_db \<Rightarrow> scan_db \<times> (store_error + unit)" where
  "SetClusterTag fault cluster key v db =
     (if cluster = '''' \<or> key = '''' \<or> fault then (db, Inl ErrStore)
      else (db\<lparr>db_tags := AList.update (cluster, key) v (db_tags db)\<rparr>, Inr ()))"

definition DeleteClusterTag :: "bool \<Rightarrow> string \<Rightarrow> string \<Rightarrow> scan_db \<Rightarrow> scan_db \<times> (store_error + unit)" where
  "DeleteClusterTag fault cluster key db =
     (if fault then (db, Inl ErrStore) else (db\<lparr>db_tags := AList.delete (cluster, key) (db_tags db)\<rparr>, Inr ()))"

definition GetClusterTags :: "bool \<Rightarrow> string \<Rightarrow> scan_db \<Rightarrow> store_error + (string, string) gomap" where
  "GetClusterTags fault cluster db =
     (if fault then Inl ErrQuery
      else Inr (fold (\<lambda>((c, k), v). AList.update k v) (filter (\<lambda>((c, k), v). c = cluster) (db_tags db)) []))"

definition ListClusterTags :: "bool \<Rightarrow> scan_db \<Rightarrow> store_error + (string, (string, string) gomap) gomap" where
  "ListClusterTags fault db =
     (if fault then Inl ErrQuery
      else Inr (fold (\<lambda>((c, k), v) out. AList.update c (AList.update k v (lookup_default [] out c)) out) (db_tags db) []))"

section \<open>Integrity\<close>

definition keys_distinct :: "('k \<times> 'v) list \<Rightarrow> bool" where "keys_distinct m \<longleftrightarrow> distinct (map fst m)"

text \<open>Primary keys are unique, a result and a membership refer to a scan and a group that exist, and the times of
  scans are in UTC.\<close>

definition db_ok :: "scan_db \<Rightarrow> bool" where
  "db_ok db \<longleftrightarrow>
     keys_distinct (db_scans db) \<and> keys_distinct (db_results db) \<and> keys_distinct (db_clusters db) \<and>
     distinct (db_groups db) \<and> distinct (db_members db) \<and> keys_distinct (db_locations db) \<and> keys_distinct (db_tags db) \<and>
     fst ` fst ` set (db_results db) \<subseteq> fst ` set (db_scans db) \<and> fst ` set (db_members db) \<subseteq> set (db_groups db) \<and>
     list_all (\<lambda>(i, row). snd (sw_timestamp row) = ''Z'') (db_scans db)"

lemma keys_distinct_simps [simp]:
  "keys_distinct []" "keys_distinct m \<Longrightarrow> keys_distinct (filter P m)"
  "keys_distinct m \<Longrightarrow> keys_distinct (AList.update k v m)" "keys_distinct m \<Longrightarrow> keys_distinct (AList.delete k m)"
  "keys_distinct (m @ [(k, v)]) \<longleftrightarrow> keys_distinct m \<and> k \<notin> fst ` set m"
  by (auto simp: keys_distinct_def distinct_map_filter distinct_update distinct_delete)

definition keeps_ok :: "stmt \<Rightarrow> bool" where
  "keeps_ok s \<longleftrightarrow> (\<forall>db db'. db_ok db \<longrightarrow> s db = Some db' \<longrightarrow> db_ok db')"

lemma insert_scan_keeps_ok: "snd (sw_timestamp row) = ''Z'' \<Longrightarrow> keeps_ok (insert_scan i row)"
  unfolding keeps_ok_def
proof (intro allI impI)
  fix db db' assume z: "snd (sw_timestamp row) = ''Z''" and ok: "db_ok db" and s: "insert_scan i row db = Some db'"
  then have db': "db' = db\<lparr>db_scans := db_scans db @ [(i, row)]\<rparr>" "i \<notin> fst ` set (db_scans db)"
    by (auto simp: insert_scan_def split: if_splits)
  have "fst ` fst ` set (db_results db) \<subseteq> insert i (fst ` set (db_scans db))"
    using ok unfolding db_ok_def by (meson subset_insertI2)
  then show "db_ok db'" using ok db' z by (simp add: db_ok_def)
qed

lemma insert_keeps_ok:
  "keeps_ok Some" "keeps_ok (insert_result key rrow)" "keeps_ok (upsert_cluster now c)"
  "keeps_ok (insert_group g)" "keeps_ok (clear_group g)" "keeps_ok (insert_member g c)"
  by (auto simp: keeps_ok_def db_ok_def insert_result_def upsert_cluster_def insert_group_def
      clear_group_def insert_member_def split: if_splits)

lemma run_stmts_ok:
  "list_all keeps_ok ss \<Longrightarrow> db_ok db \<Longrightarrow> run_stmts faults n ss db = Some db' \<Longrightarrow> db_ok db'"
  by (induction ss arbitrary: n db) (auto simp: keeps_ok_def split: if_splits option.splits)

lemma in_tx_ok: "list_all keeps_ok ss \<Longrightarrow> db_ok db \<Longrightarrow> in_tx faults ss db = Some db' \<Longrightarrow> db_ok db'"
  by (auto simp: in_tx_def split: if_splits option.splits intro: run_stmts_ok)

lemma tx_result_ok: "db_ok db \<Longrightarrow> (\<And>db'. outcome = Some db' \<Longrightarrow> db_ok db') \<Longrightarrow> db_ok (fst (tx_result db outcome x))"
  by (simp add: tx_result_def split: option.split)

lemma utc_text_eq: "utc_text t = (t div 1000000000, ''Z'')"
  by (simp add: utc_text_def format_time_def utc_def zone_text_def)

lemma save_stmts_ok: "list_all keeps_ok (save_stmts i (utc_text t) clusters results)"
  by (auto simp: utc_text_eq save_stmts_def result_stmts_def list_all_iff insert_keeps_ok insert_scan_keeps_ok split: prod.splits)

lemma group_stmts_ok: "list_all keeps_ok (insert_group g # clear_group g # map (insert_member g) cs)"
  by (auto simp: list_all_iff insert_keeps_ok)

datatype store_op =
    OSave "nat \<Rightarrow> bool" string int ScanRecord results
  | OPrune bool int
  | OSaveGroup "nat \<Rightarrow> bool" string "string list"
  | ODeleteGroup bool string
  | OAdd bool string string
  | ORemove bool string string
  | OSetLocation bool int LocationRecord
  | ODeleteLocation bool string
  | OSetTag bool string string string
  | ODeleteTag bool string string

fun store_step :: "scan_db \<Rightarrow> store_op \<Rightarrow> scan_db \<times> unit" where
  "store_step db (OSave faults generated clock rec results) = (fst (SaveScanRecord faults generated clock rec results db), ())"
| "store_step db (OPrune fault cutoff) = (fst (Prune fault cutoff db), ())"
| "store_step db (OSaveGroup faults g cs) = (fst (SaveGroup faults g cs db), ())"
| "store_step db (ODeleteGroup fault g) = (fst (DeleteGroup fault g db), ())"
| "store_step db (OAdd fault g c) = (fst (AddClusterToGroup fault g c db), ())"
| "store_step db (ORemove fault g c) = (fst (RemoveClusterFromGroup fault g c db), ())"
| "store_step db (OSetLocation fault now loc) = (fst (SetLocation fault now loc db), ())"
| "store_step db (ODeleteLocation fault c) = (fst (DeleteLocation fault c db), ())"
| "store_step db (OSetTag fault c k v) = (fst (SetClusterTag fault c k v db), ())"
| "store_step db (ODeleteTag fault c k) = (fst (DeleteClusterTag fault c k db), ())"

lemma kept_refs: "fst ` fst ` set (filter (\<lambda>(key, row). fst key \<in> S) rs) \<subseteq> S"
  by auto

lemma Prune_ok: "db_ok db \<Longrightarrow> db_ok (fst (Prune fault cutoff db))"
proof -
  assume ok: "db_ok db"
  show ?thesis
  proof (cases fault)
    case False
    let ?kept = "filter (\<lambda>(i, row). \<not> sw_timestamp row < utc_text cutoff) (db_scans db)"
    have "fst ` fst ` set (filter (\<lambda>(key, row). fst key \<in> fst ` set ?kept) (db_results db)) \<subseteq> fst ` set ?kept" by (rule kept_refs)
    moreover have "fst (Prune fault cutoff db) = db\<lparr>db_scans := ?kept,
        db_results := filter (\<lambda>(key, row). fst key \<in> fst ` set ?kept) (db_results db)\<rparr>"
      using False by (simp add: Prune_def Let_def)
    moreover have "list_all (\<lambda>(i, row). snd (sw_timestamp row) = ''Z'') ?kept" using ok by (auto simp: db_ok_def list_all_iff)
    ultimately show ?thesis using ok unfolding db_ok_def by (simp del: set_filter)
  qed (simp add: Prune_def ok)
qed

lemma DeleteGroup_ok: "db_ok db \<Longrightarrow> db_ok (fst (DeleteGroup fault g db))"
  by (auto simp: DeleteGroup_def db_ok_def distinct_removeAll)

lemma store_step_ok: "db_ok db \<Longrightarrow> db_ok (fst (store_step db op))"
proof (cases op)
  case (OSave faults generated clock rec results)
  then show "db_ok db \<Longrightarrow> ?thesis"
    by (simp add: SaveScanRecord_def Let_def) (blast intro: tx_result_ok dest: in_tx_ok [OF save_stmts_ok])
next
  case (OSaveGroup faults g cs)
  then show "db_ok db \<Longrightarrow> ?thesis"
    by (simp add: SaveGroup_def) (blast intro: tx_result_ok dest: in_tx_ok [OF group_stmts_ok])
next
  case (OAdd fault g c)
  then show "db_ok db \<Longrightarrow> ?thesis" using insert_keeps_ok(6) [of g c]
    by (simp add: AddClusterToGroup_def keeps_ok_def) (blast intro: tx_result_ok)
next
  case (ORemove fault g c)
  then show "db_ok db \<Longrightarrow> ?thesis" by (auto simp: RemoveClusterFromGroup_def db_ok_def distinct_removeAll)
qed (simp_all add: Prune_ok DeleteGroup_ok, simp_all add: SetLocation_def DeleteLocation_def SetClusterTag_def
      DeleteClusterTag_def db_ok_def)

lemma db_ok_empty: "db_ok empty_db"
  by (simp add: db_ok_def empty_db_def)


section \<open>A saved scan is read back\<close>

text \<open>A statement that succeeds does so whatever the other faults are.\<close>

lemma run_stmts_append:
  "run_stmts f n (ss @ ts) db = Option.bind (run_stmts f n ss db) (run_stmts f (n + length ss) ts)"
  by (induction ss arbitrary: n db) (auto split: option.split)

lemma run_stmts_clean:
  "run_stmts f n ss db = Some db' \<Longrightarrow> run_stmts (\<lambda>_. False) m ss db = Some db'"
proof (induction ss arbitrary: n m db)
  case (Cons s ss)
  then obtain db1 where "s db = Some db1" "run_stmts f (Suc n) ss db1 = Some db'" by (auto split: if_splits option.splits)
  with Cons.IH [OF this(2)] show ?case by simp
qed simp

lemma in_tx_clean: "in_tx f ss db = Some db' \<Longrightarrow> run_stmts (\<lambda>_. False) 1 ss db = Some db'"
  unfolding in_tx_def by (auto split: if_splits option.splits intro: run_stmts_clean)

definition row_of :: "Result \<Rightarrow> result_row" where
  "row_of r = \<lparr>rw_data = res_Data r, rw_state = res_State r, rw_reason = res_Reason r\<rparr>"

definition result_rows :: "string \<Rightarrow> results \<Rightarrow> ((string \<times> string \<times> string) \<times> result_row) list" where
  "result_rows i results = concat (map (\<lambda>(c, m). map (\<lambda>(n, r). ((i, c, n), row_of r)) m) results)"

lemma result_stmts_rows: "result_stmts i results = map (\<lambda>(key, row). insert_result key row) (result_rows i results)"
  by (simp add: result_stmts_def result_rows_def map_concat o_def split_def row_of_def)

lemma run_results:
  assumes "\<forall>key \<in> fst ` set rows. fst key \<in> fst ` set (db_scans db)"
  shows "run_stmts (\<lambda>_. False) n (map (\<lambda>(key, row). insert_result key row) rows) db =
    (if distinct (map fst rows) \<and> fst ` set rows \<inter> fst ` set (db_results db) = {}
     then Some (db\<lparr>db_results := db_results db @ rows\<rparr>) else None)"
  using assms
proof (induction rows arbitrary: n db)
  case (Cons kr rows)
  obtain key row where kr: "kr = (key, row)" by fastforce
  let ?db = "db\<lparr>db_results := db_results db @ [(key, row)]\<rparr>"
  have "run_stmts (\<lambda>_. False) (Suc n) (map (\<lambda>(key, row). insert_result key row) rows) ?db =
      (if distinct (map fst rows) \<and> fst ` set rows \<inter> fst ` set (db_results ?db) = {}
       then Some (?db\<lparr>db_results := db_results ?db @ rows\<rparr>) else None)"
    using Cons.IH [of ?db "Suc n"] Cons.prems by simp
  moreover have "insert_result key row db = (if key \<in> fst ` set (db_results db) then None else Some ?db)"
    using Cons.prems by (simp add: kr insert_result_def)
  ultimately show ?case by (auto simp: kr)
qed simp

lemma run_upserts:
  "\<exists>cs. run_stmts (\<lambda>_. False) n (map (upsert_cluster now) clusters) db = Some (db\<lparr>db_clusters := cs\<rparr>)"
proof (induction clusters arbitrary: n db)
  case (Cons c clusters)
  obtain cs where s: "upsert_cluster now c db = Some (db\<lparr>db_clusters := cs\<rparr>)" by (simp add: upsert_cluster_def)
  obtain cs' where "run_stmts (\<lambda>_. False) (Suc n) (map (upsert_cluster now) clusters) (db\<lparr>db_clusters := cs\<rparr>) =
      Some (db\<lparr>db_clusters := cs, db_clusters := cs'\<rparr>)" using Cons.IH [of "Suc n" "db\<lparr>db_clusters := cs\<rparr>"] by blast
  then show ?case by (intro exI [of _ cs']) (simp add: s)
next
  case Nil
  show ?case by (rule exI [of _ "db_clusters db"]) simp
qed

lemma save_outcome:
  assumes "in_tx f (save_stmts i now clusters results) db = Some db'"
  shows "i \<notin> fst ` set (db_scans db) \<and> db_results db' = db_results db @ result_rows i results \<and>
    db_scans db' = db_scans db @ [(i, \<lparr>sw_timestamp = now, sw_clusters = clusters, sw_scanners = Names results\<rparr>)] \<and>
    distinct (map fst (result_rows i results)) \<and> fst ` set (result_rows i results) \<inter> fst ` set (db_results db) = {}"
proof -
  let ?row = "\<lparr>sw_timestamp = now, sw_clusters = clusters, sw_scanners = Names results\<rparr>"
  let ?db1 = "db\<lparr>db_scans := db_scans db @ [(i, ?row)]\<rparr>"
  have run: "run_stmts (\<lambda>_. False) 1 (save_stmts i now clusters results) db = Some db'" by (rule in_tx_clean [OF assms])
  then have fresh: "i \<notin> fst ` set (db_scans db)" by (auto simp: save_stmts_def insert_scan_def split: if_splits)
  have refs: "\<forall>key \<in> fst ` set (result_rows i results). fst key \<in> fst ` set (db_scans ?db1)"
    by (auto simp: result_rows_def)
  have "Option.bind (run_stmts (\<lambda>_. False) 3 (result_stmts i results) ?db1)
      (run_stmts (\<lambda>_. False) (3 + length (result_stmts i results)) (map (upsert_cluster now) clusters)) = Some db'"
    using run fresh by (simp add: save_stmts_def insert_scan_def run_stmts_append numeral_3_eq_3)
  then obtain db2 where "run_stmts (\<lambda>_. False) 3 (result_stmts i results) ?db1 = Some db2"
    and up: "run_stmts (\<lambda>_. False) (3 + length (result_stmts i results)) (map (upsert_cluster now) clusters) db2 = Some db'"
    by (auto simp: bind_eq_Some_conv)
  then have "db2 = ?db1\<lparr>db_results := db_results db @ result_rows i results\<rparr> \<and> distinct (map fst (result_rows i results)) \<and>
      fst ` set (result_rows i results) \<inter> fst ` set (db_results db) = {}"
    using run_results [OF refs, of 3] by (simp add: result_stmts_rows split: if_splits)
  moreover obtain cs where "db' = db2\<lparr>db_clusters := cs\<rparr>"
    using run_upserts [of "3 + length (result_stmts i results)" now clusters db2] up by auto
  ultimately show ?thesis using fresh by simp
qed

text \<open>Two maps of results hold the same when they answer the same.\<close>

definition result_at :: "results \<Rightarrow> string \<Rightarrow> string \<Rightarrow> Result option" where
  "result_at rs c n = Option.bind (map_of rs c) (\<lambda>m. map_of m n)"

definition results_ok :: "results \<Rightarrow> bool" where
  "results_ok rs \<longleftrightarrow> keys_distinct rs \<and> list_all (\<lambda>(c, m). keys_distinct m) rs"

lemma result_at_collect:
  "result_at (collect_result ((i, c, n), row) rs) c' n' = (if c' = c \<and> n' = n then Some (result_of_row n row) else result_at rs c' n')"
  by (auto simp: result_at_def collect_result_def Let_def lookup_default_def split: option.split)

lemma result_at_rows:
  "keys_distinct rows \<Longrightarrow> \<forall>key \<in> fst ` set rows. fst key = i \<Longrightarrow>
   result_at (fold collect_result rows rs) c n =
     (case map_of rows (i, c, n) of Some row \<Rightarrow> Some (result_of_row n row) | None \<Rightarrow> result_at rs c n)"
proof (induction rows arbitrary: rs)
  case (Cons kr rows)
  obtain c' n' row where kr: "kr = ((i, c', n'), row)" using Cons.prems(2) by (cases kr) auto
  have "map_of rows (i, c', n') = None" using Cons.prems(1) by (simp add: kr keys_distinct_def map_of_eq_None_iff)
  moreover have "keys_distinct rows" using Cons.prems(1) by (simp add: keys_distinct_def)
  ultimately show ?case using Cons.IH [of "collect_result kr rs"] Cons.prems(2)
    by (auto simp: kr result_at_collect split: option.split)
qed simp

lemma map_of_own: "map_of (filter (\<lambda>(key, row). fst key = i) rows) (i, c, n) = map_of rows (i, c, n)"
  by (induction rows) auto

lemma map_of_block:
  "map_of (map (\<lambda>(n, r). ((i, c', n), row_of r)) m) (i, c, n) = (if c = c' then map_option row_of (map_of m n) else None)"
  by (induction m) auto

lemma map_of_result_rows:
  "keys_distinct results \<Longrightarrow> map_of (result_rows i results) (i, c, n) = map_option row_of (result_at results c n)"
proof (induction results arbitrary: c)
  case (Cons cm results)
  obtain c' m where cm: "cm = (c', m)" by fastforce
  have at: "map_of results c' = None" "keys_distinct results"
    using Cons.prems by (simp_all add: cm keys_distinct_def map_of_eq_None_iff)
  have "map_of (result_rows i results) (i, c', n) = None"
    using Cons.IH [of c'] at by (simp only: result_at_def) simp
  moreover have "result_rows i (cm # results) = map (\<lambda>(n, r). ((i, c', n), row_of r)) m @ result_rows i results"
    by (simp add: cm result_rows_def)
  ultimately show ?case using Cons.IH [of c] at
    by (auto simp: cm map_add_def map_of_block result_at_def split: option.split)
qed (simp add: result_rows_def result_at_def)

definition read_results :: "string \<Rightarrow> scan_db \<Rightarrow> string \<Rightarrow> string \<Rightarrow> Result option" where
  "read_results i db c n = map_option (result_of_row n) (map_of (db_results db) (i, c, n))"

lemma GetScanResults_reads:
  assumes "db_ok db"
  shows "\<exists>rs. GetScanResults False i db = Inr rs \<and> result_at rs = read_results i db"
proof -
  let ?rows = "filter (\<lambda>(key, row). fst key = i) (db_results db)"
  have d: "keys_distinct ?rows" using assms by (simp add: db_ok_def)
  have "result_at (fold collect_result ?rows []) c n = read_results i db c n" for c n
    using result_at_rows [OF d, of i "[]" c n] by (auto simp: map_of_own read_results_def result_at_def split: option.split)
  then show ?thesis by (auto simp: GetScanResults_def)
qed

lemma result_of_row_of: "result_of_row n (row_of r) = r\<lparr>res_Scanner := n\<rparr>"
  by (simp add: result_of_row_def row_of_def)

lemma other_rows: "j \<noteq> i \<Longrightarrow> map_of (result_rows i results) (j, c, n) = None"
  by (auto simp: result_rows_def map_of_eq_None_iff)

lemma SaveScanRecord_reads:
  assumes ok: "db_ok db" "keys_distinct results"
    and saved: "SaveScanRecord faults generated clock rec results db = (db', r)"
  shows "case r of
      Inl e \<Rightarrow> db' = db
    | Inr i \<Rightarrow> GetScan False i db = Inl ErrNotFound \<and> i = (if sn_ID rec = '''' then generated else sn_ID rec) \<and>
        GetScan False i db' = Inr \<lparr>sn_ID = i,
          sn_Timestamp = (if sn_Timestamp rec = zero_time then clock else sn_Timestamp rec) div 1000000000 * 1000000000,
          sn_Clusters = sn_Clusters rec, sn_Scanners = Names results\<rparr> \<and>
        (\<exists>rs. GetScanResults False i db' = Inr rs \<and>
          (\<forall>c n. result_at rs c n = map_option (\<lambda>x. x\<lparr>res_Scanner := n\<rparr>) (result_at results c n))) \<and>
        (\<forall>j. j = i \<or> GetScan False j db' = GetScan False j db \<and> read_results j db' = read_results j db)"
proof (cases r)
  case (Inl e)
  then show ?thesis using saved by (auto simp: SaveScanRecord_def tx_result_def Let_def split: option.splits)
next
  case (Inr i)
  let ?ts = "if sn_Timestamp rec = zero_time then clock else sn_Timestamp rec"
  have tx: "in_tx faults (save_stmts i (utc_text ?ts) (sn_Clusters rec) results) db = Some db'"
    and i: "i = (if sn_ID rec = '''' then generated else sn_ID rec)"
    using saved Inr by (auto simp: SaveScanRecord_def tx_result_def Let_def split: option.splits)
  note out = save_outcome [OF tx]
  have ok': "db_ok db'" by (rule in_tx_ok [OF save_stmts_ok ok(1) tx])
  have new: "map_of (db_scans db) i = None" using out by (simp add: map_of_eq_None_iff)
  have none: "map_of (db_results db) (i, c, n) = None" for c n
  proof -
    have "fst ` fst ` set (db_results db) \<subseteq> fst ` set (db_scans db)" using ok(1) by (simp add: db_ok_def)
    then have "i \<notin> fst ` fst ` set (db_results db)" using out by blast
    then show ?thesis by (force simp: map_of_eq_None_iff)
  qed
  obtain rs where rs: "GetScanResults False i db' = Inr rs" "result_at rs = read_results i db'"
    using GetScanResults_reads [OF ok'] by blast
  have "read_results i db' c n = map_option (\<lambda>x. x\<lparr>res_Scanner := n\<rparr>) (result_at results c n)" for c n
    using out none [of c n]
    by (simp add: read_results_def map_add_def map_of_result_rows [OF ok(2)] option.map_comp o_def result_of_row_of
        split: option.split)
  moreover have "read_results j db' = read_results j db" if "j \<noteq> i" for j
    using out that by (simp add: read_results_def fun_eq_iff map_add_def other_rows split: option.split)
  ultimately show ?thesis using out new rs i
    by (auto simp: Inr GetScan_def scanRecord_def utc_text_def format_time_def utc_def parse_utc_def map_add_def
        split: option.split)
qed

text \<open>C27. Saving a scan is all or nothing. When it fails, at whatever statement, the database is as it was; when
  it succeeds the scan is new, reading it back gives the clusters, the scanners and the results that were
  saved and its time to the second, and every other scan reads as before.\<close>

theorem SaveScanRecord_atomic:
  assumes ok: "db_ok db" "keys_distinct results"
    and saved: "SaveScanRecord faults generated clock rec results db = (db', r)"
  shows "case r of
      Inl e \<Rightarrow> db' = db
    | Inr i \<Rightarrow> GetScan False i db = Inl ErrNotFound \<and> i = (if sn_ID rec = '''' then generated else sn_ID rec) \<and>
        GetScan False i db' = Inr \<lparr>sn_ID = i,
          sn_Timestamp = (if sn_Timestamp rec = zero_time then clock else sn_Timestamp rec) div 1000000000 * 1000000000,
          sn_Clusters = sn_Clusters rec, sn_Scanners = Names results\<rparr> \<and>
        (\<exists>rs. GetScanResults False i db' = Inr rs \<and>
          (\<forall>c n. result_at rs c n = map_option (\<lambda>x. x\<lparr>res_Scanner := n\<rparr>) (result_at results c n))) \<and>
        (\<forall>j. j = i \<or> GetScan False j db' = GetScan False j db \<and> read_results j db' = read_results j db)"
  by (rule SaveScanRecord_reads [OF assms])

section \<open>Listing and pruning\<close>

lemma filter_sort_desc: "filter P (sort_desc f xs) = sort_desc f (filter P xs)"
  by (simp add: sort_desc_def rev_filter [symmetric] filter_sort)

lemma set_sort_desc [simp]: "set (sort_desc f xs) = set xs"
  by (simp add: sort_desc_def)

lemma length_sort_desc [simp]: "length (sort_desc f xs) = length xs"
  by (simp add: sort_desc_def)

lemma sorted_sort_desc: "sorted_wrt (\<lambda>a b. f b \<le> f a) (sort_desc f xs)"
proof -
  have "sorted_wrt (\<lambda>a b. f a \<le> f b) (sort_key f (rev xs))" using sorted_sort_key [of f "rev xs"] by (simp add: sorted_map)
  then show ?thesis by (simp add: sort_desc_def sorted_wrt_rev)
qed

text \<open>A limited list is the start of the full one, newest first, ties by identifier.\<close>

lemma ListScans_sorted:
  "ListScans False (-1) db = Inr ss \<Longrightarrow>
   sorted_wrt (\<lambda>a b. sn_Timestamp b \<le> sn_Timestamp a) ss \<and> (0 \<le> n \<longrightarrow> ListScans False n db = Inr (take (nat n) ss))"
proof -
  assume "ListScans False (-1) db = Inr ss"
  then have ss: "ss = map scanRecord (newest_first (db_scans db))" by (simp add: ListScans_def limit_rows_def)
  have "sorted_wrt (\<lambda>a b. sn_Timestamp (scanRecord b) \<le> sn_Timestamp (scanRecord a)) (newest_first (db_scans db))"
    unfolding newest_first_def
    by (rule sorted_wrt_mono_rel [OF _ sorted_sort_desc]) (auto simp: scanRecord_def parse_utc_def less_eq_prod_def less_prod_def)
  then show ?thesis by (simp add: ss sorted_wrt_map ListScans_def limit_rows_def take_map)
qed

lemma utc_text_less: "snd x = ''Z'' \<Longrightarrow> x < utc_text t \<longleftrightarrow> fst x < t div 1000000000"
  by (cases x) (auto simp: utc_text_eq less_prod_def)

lemma utc_text_le: "snd x = ''Z'' \<Longrightarrow> x \<le> utc_text t \<longleftrightarrow> fst x \<le> t div 1000000000"
  "snd x = ''Z'' \<Longrightarrow> utc_text t \<le> x \<longleftrightarrow> t div 1000000000 \<le> fst x"
  by (cases x, auto simp: utc_text_eq less_eq_prod_def)+

lemma scan_zone: "db_ok db \<Longrightarrow> (i, row) \<in> set (db_scans db) \<Longrightarrow> snd (sw_timestamp row) = ''Z''"
  by (auto simp: db_ok_def list_all_iff)

lemma map_filter_records: "map scanRecord (filter (\<lambda>x. P (scanRecord x)) xs) = filter P (map scanRecord xs)"
  by (induction xs) auto

lemma newest_filter:
  assumes "db_ok db" "\<And>i row. snd (sw_timestamp row) = ''Z'' \<Longrightarrow> Q (i, row) \<longleftrightarrow> P (scanRecord (i, row))"
  shows "map scanRecord (newest_first (filter Q (db_scans db))) = filter P (map scanRecord (newest_first (db_scans db)))"
proof -
  have "filter Q (newest_first (db_scans db)) = filter (\<lambda>x. P (scanRecord x)) (newest_first (db_scans db))"
    by (rule filter_cong) (auto simp: newest_first_def assms(2) dest: scan_zone [OF assms(1)])
  then show ?thesis by (simp add: newest_first_def filter_sort_desc [symmetric] map_filter_records)
qed

text \<open>Pruning removes the scans from before the second of the cutoff and no others, says how many, and
  takes their results with them; the rest, and its order and results, stays.\<close>

lemma Prune_spec:
  assumes ok: "db_ok db" and pruned: "Prune False cutoff db = (db', r)" and listed: "ListScans False (-1) db = Inr ss"
  shows "ListScans False (-1) db' = Inr (filter (\<lambda>s. cutoff div 1000000000 * 1000000000 \<le> sn_Timestamp s) ss) \<and>
    r = Inr (int (length (filter (\<lambda>s. sn_Timestamp s < cutoff div 1000000000 * 1000000000) ss))) \<and>
    (\<forall>i. read_results i db' = (if \<exists>s. GetScan False i db' = Inr s then read_results i db else (\<lambda>c n. None)))"
proof (intro conjI allI)
  let ?sec = "cutoff div 1000000000 * 1000000000"
  have ss: "ss = map scanRecord (newest_first (db_scans db))" using listed by (simp add: ListScans_def limit_rows_def)
  have scans: "db_scans db' = filter (\<lambda>(i, row). \<not> sw_timestamp row < utc_text cutoff) (db_scans db)"
    and results: "db_results db' = filter (\<lambda>(key, row). fst key \<in> fst ` set (db_scans db')) (db_results db)"
    and r: "r = Inr (int (length (filter (\<lambda>(i, row). sw_timestamp row < utc_text cutoff) (db_scans db))))"
    using pruned by (auto simp: Prune_def Let_def)
  have "map scanRecord (newest_first (filter (\<lambda>(i, row). \<not> sw_timestamp row < utc_text cutoff) (db_scans db))) =
      filter (\<lambda>s. ?sec \<le> sn_Timestamp s) ss"
    unfolding ss by (rule newest_filter [OF ok]) (auto simp: utc_text_less scanRecord_def parse_utc_def)
  then show "ListScans False (-1) db' = Inr (filter (\<lambda>s. ?sec \<le> sn_Timestamp s) ss)"
    by (simp add: ListScans_def limit_rows_def scans)
  have "map scanRecord (newest_first (filter (\<lambda>(i, row). sw_timestamp row < utc_text cutoff) (db_scans db))) =
      filter (\<lambda>s. sn_Timestamp s < ?sec) ss"
    unfolding ss by (rule newest_filter [OF ok]) (auto simp: utc_text_less scanRecord_def parse_utc_def)
  from arg_cong [OF this, of length]
  show "r = Inr (int (length (filter (\<lambda>s. sn_Timestamp s < ?sec) ss)))" by (simp add: r newest_first_def)
  show "read_results i db' = (if \<exists>s. GetScan False i db' = Inr s then read_results i db else (\<lambda>c n. None))" for i
  proof -
    have kept: "map_of (filter (\<lambda>(key, row). fst key \<in> S) rows) (i, c, n) = (if i \<in> S then map_of rows (i, c, n) else None)"
      for S rows c n by (induction rows) auto
    have "(\<exists>s. GetScan False i db' = Inr s) \<longleftrightarrow> i \<in> fst ` set (db_scans db')"
      by (auto simp: GetScan_def map_of_eq_None_iff split: option.split dest: map_of_SomeD)
        (metis map_of_eq_None_iff option.distinct(1) image_eqI fst_conv)+
    then show ?thesis by (simp add: read_results_def fun_eq_iff kept results)
  qed
qed

section \<open>Ranges of time\<close>

text \<open>With bounds in UTC a range holds the scans between their seconds.\<close>

lemma time_range_utc:
  assumes "db_ok db" "ListScans False (-1) db = Inr ss"
  shows "GetScansByTimeRange False (utc a) (utc b) db =
    Inr (filter (\<lambda>s. a div 1000000000 * 1000000000 \<le> sn_Timestamp s \<and> sn_Timestamp s \<le> b div 1000000000 * 1000000000) ss)"
proof -
  have ss: "ss = map scanRecord (newest_first (db_scans db))" using assms(2) by (simp add: ListScans_def limit_rows_def)
  show ?thesis unfolding GetScansByTimeRange_def ss
    by (simp add: utc_text_def [symmetric], rule newest_filter [OF assms(1)])
      (auto simp: utc_text_le scanRecord_def parse_utc_def)
qed

text \<open>With bounds in another zone it does not: the bounds are not converted to UTC before their texts are compared.
  A scan of 08:00 UTC is not found between 07:30 and 10:00 UTC when the two are given in the zone +02:00.\<close>

definition one_scan :: scan_db where
  "one_scan = empty_db\<lparr>db_scans := [(''s'', \<lparr>sw_timestamp = utc_text (28800 * 1000000000), sw_clusters = [], sw_scanners = []\<rparr>)]\<rparr>"

lemma time_range_zone:
  "GetScansByTimeRange False \<lparr>zt_ns = 27000 * 1000000000, zt_offset = 7200\<rparr> \<lparr>zt_ns = 36000 * 1000000000, zt_offset = 7200\<rparr> one_scan = Inr []"
  "\<exists>s. GetScansByTimeRange False (utc (27000 * 1000000000)) (utc (36000 * 1000000000)) one_scan = Inr [s]"
  by (simp_all add: GetScansByTimeRange_def one_scan_def utc_text_eq format_time_def utc_def newest_first_def sort_desc_def
      less_eq_prod_def zone_text_def)

section \<open>Groups\<close>

lemma scanMemberships_lookup:
  "lookup_default [] (fst (scanMemberships rows)) g = map snd (filter (\<lambda>(g', c). g' = g) rows)"
  "lookup_default [] (snd (scanMemberships rows)) c = map fst (filter (\<lambda>(g, c'). c' = c) rows)"
proof -
  let ?step = "\<lambda>(g, c) (byGroup, byCluster). (map_append g c byGroup, map_append c g byCluster)"
  have "lookup_default [] (fst (fold ?step rows (a, b))) g = lookup_default [] a g @ map snd (filter (\<lambda>(g', c). g' = g) rows) \<and>
      lookup_default [] (snd (fold ?step rows (a, b))) c = lookup_default [] b c @ map fst (filter (\<lambda>(g, c'). c' = c) rows)"
    for a b :: "(string, string list) gomap"
    by (induction rows arbitrary: a b) (auto simp: lookup_default_append)
  from this [of "[]" "[]"]
  show "lookup_default [] (fst (scanMemberships rows)) g = map snd (filter (\<lambda>(g', c). g' = g) rows)"
    "lookup_default [] (snd (scanMemberships rows)) c = map fst (filter (\<lambda>(g, c'). c' = c) rows)"
    unfolding scanMemberships_def by (simp_all add: lookup_default_def)
qed

lemma sorted_snd: "sorted ys \<Longrightarrow> \<forall>y \<in> set ys. fst y = g \<Longrightarrow> sorted (map snd ys)"
  by (induction ys) (auto simp: less_eq_prod_def)

lemma sort_members:
  fixes xs :: "(string \<times> string) list"
  shows "map snd (filter (\<lambda>(g', c). g' = g) (sort xs)) = sort (map snd (filter (\<lambda>(g', c). g' = g) xs))"
proof (rule properties_for_sort [symmetric])
  show "sorted (map snd (filter (\<lambda>(g', c). g' = g) (sort xs)))"
    by (rule sorted_snd [of _ g]) (auto simp: filter_sort)
  show "mset (map snd (filter (\<lambda>(g', c). g' = g) (sort xs))) = mset (map snd (filter (\<lambda>(g', c). g' = g) xs))"
    by (simp add: mset_filter)
qed

text \<open>The three views of the groups agree: a group read alone and in the list has the same members, and a cluster
  lists exactly the groups it is a member of.\<close>

lemma group_views:
  assumes "g \<in> set (db_groups db)" and c: "ListClusters (False, False) db = Inr cs" and g: "ListGroups (False, False) db = Inr gs"
  shows "\<exists>G. GetGroup (False, False) g db = Inr G \<and> G \<in> set gs \<and>
    list_all (\<lambda>r. cl_Name r \<in> set (gr_Clusters G) \<longleftrightarrow> g \<in> set (cl_Groups r)) cs"
proof -
  obtain byGroup byCluster where m: "scanMemberships (sort (db_members db)) = (byGroup, byCluster)" by fastforce
  have views: "lookup_default [] byGroup x = sort (map snd (filter (\<lambda>(g', c). g' = x) (db_members db)))"
    "lookup_default [] byCluster y = map fst (filter (\<lambda>(g, c'). c' = y) (sort (db_members db)))" for x y
    using scanMemberships_lookup [of "sort (db_members db)"] by (simp_all add: m sort_members)
  show ?thesis using assms
    by (auto simp: ListClusters_def ListGroups_def GetGroup_def groupClusters_def memberships_def list_all_iff m views image_iff)
qed

text \<open>A saved group has the members it was saved with; one with a member named twice is refused and nothing changes.\<close>

lemma run_members:
  "g \<in> set (db_groups db) \<Longrightarrow>
   run_stmts (\<lambda>_. False) n (map (insert_member g) cs) db =
     (if distinct cs \<and> (\<forall>c \<in> set cs. (g, c) \<notin> set (db_members db))
      then Some (db\<lparr>db_members := db_members db @ map (Pair g) cs\<rparr>) else None)"
proof (induction cs arbitrary: n db)
  case (Cons c cs)
  let ?db = "db\<lparr>db_members := db_members db @ [(g, c)]\<rparr>"
  have "insert_member g c db = (if (g, c) \<in> set (db_members db) then None else Some ?db)"
    using Cons.prems by (simp add: insert_member_def)
  then show ?case using Cons.IH [of ?db "Suc n"] Cons.prems by auto
qed simp

lemma SaveGroup_spec:
  "SaveGroup (\<lambda>_. False) g cs db = (db', r) \<Longrightarrow>
   (if distinct cs then r = Inr () \<and> GetGroup (False, False) g db' = Inr \<lparr>gr_Name = g, gr_Clusters = sort cs\<rparr>
    else r = Inl ErrStore \<and> db' = db)"
proof -
  assume s: "SaveGroup (\<lambda>_. False) g cs db = (db', r)"
  obtain db1 where db1: "insert_group g db = Some db1" "g \<in> set (db_groups db1)" by (auto simp: insert_group_def)
  let ?db2 = "db1\<lparr>db_members := filter (\<lambda>(g', c). g' \<noteq> g) (db_members db1)\<rparr>"
  have "in_tx (\<lambda>_. False) (insert_group g # clear_group g # map (insert_member g) cs) db =
      (if distinct cs then Some (?db2\<lparr>db_members := db_members ?db2 @ map (Pair g) cs\<rparr>) else None)"
    using run_members [of g ?db2 3 cs] db1 by (auto simp: in_tx_def clear_group_def numeral_3_eq_3)
  moreover have "map snd (filter (\<lambda>(g', c). g' = g) (filter (\<lambda>(g', c). g' \<noteq> g) ms @ map (Pair g) cs)) = cs" for ms
    by (induction ms) (auto simp: o_def)
  ultimately show ?thesis using s db1
    by (auto simp: SaveGroup_def tx_result_def GetGroup_def groupClusters_def split: if_splits)
qed

section \<open>Examples\<close>

definition sample_results :: results where
  "sample_results = [(''a'', [(''nodes'', \<lparr>res_Scanner = ''nodes'', res_State = StateOK, res_Reason = '''', res_Data = JNum 3\<rparr>)])]"

definition sample_record :: ScanRecord where
  "sample_record = \<lparr>sn_ID = ''s1'', sn_Timestamp = 5000000007, sn_Clusters = [''a''], sn_Scanners = []\<rparr>"

theorem SaveScanRecord_atomic_witness:
  "(\<exists>db'. SaveScanRecord (\<lambda>_. False) ''g'' 0 sample_record sample_results empty_db = (db', Inr ''s1'') \<and>
      GetScan False ''s1'' db' = Inr \<lparr>sn_ID = ''s1'', sn_Timestamp = 5000000000, sn_Clusters = [''a''], sn_Scanners = [''nodes'']\<rparr>) \<and>
   fst (SaveScanRecord (\<lambda>n. n = 4) ''g'' 0 sample_record sample_results empty_db) = empty_db"
proof
  have d: "keys_distinct sample_results" by (simp add: sample_results_def keys_distinct_def)
  obtain db' r where s: "SaveScanRecord (\<lambda>_. False) ''g'' 0 sample_record sample_results empty_db = (db', r)" by fastforce
  have "r = Inr ''s1''" using s
    by (auto simp: SaveScanRecord_def Let_def tx_result_def in_tx_def save_stmts_def result_stmts_def sample_record_def
        sample_results_def insert_scan_def insert_result_def upsert_cluster_def empty_db_def)
  moreover have "Names sample_results = [''nodes'']" by (simp add: Names_def sample_results_def)
  ultimately show "\<exists>db'. SaveScanRecord (\<lambda>_. False) ''g'' 0 sample_record sample_results empty_db = (db', Inr ''s1'') \<and>
      GetScan False ''s1'' db' = Inr \<lparr>sn_ID = ''s1'', sn_Timestamp = 5000000000, sn_Clusters = [''a''], sn_Scanners = [''nodes'']\<rparr>"
    using SaveScanRecord_atomic [OF db_ok_empty d s] s by (auto simp: sample_record_def zero_time_def)
  obtain db2 r2 where s2: "SaveScanRecord (\<lambda>n. n = 4) ''g'' 0 sample_record sample_results empty_db = (db2, r2)" by fastforce
  have "r2 = Inl ErrStore" using s2
    by (auto simp: SaveScanRecord_def Let_def tx_result_def in_tx_def save_stmts_def result_stmts_def sample_record_def
        sample_results_def insert_scan_def insert_result_def upsert_cluster_def empty_db_def)
  then show "fst (SaveScanRecord (\<lambda>n. n = 4) ''g'' 0 sample_record sample_results empty_db) = empty_db"
    using SaveScanRecord_atomic [OF db_ok_empty d s2] s2 by simp
qed

lemma one_scan_ok: "db_ok one_scan"
  by (simp add: db_ok_def one_scan_def empty_db_def utc_text_eq keys_distinct_def)

lemma Prune_spec_instance:
  "ListScans False (-1) (fst (Prune False (28800 * 1000000000 + 5) one_scan)) =
     Inr [\<lparr>sn_ID = ''s'', sn_Timestamp = 28800 * 1000000000, sn_Clusters = [], sn_Scanners = []\<rparr>] \<and>
   Prune False (28801 * 1000000000) one_scan = (empty_db, Inr 1)"
proof -
  let ?s = "\<lparr>sn_ID = ''s'', sn_Timestamp = 28800 * 1000000000, sn_Clusters = [], sn_Scanners = []\<rparr>"
  have l: "ListScans False (-1) one_scan = Inr [?s]"
    by (simp add: ListScans_def limit_rows_def one_scan_def newest_first_def sort_desc_def scanRecord_def parse_utc_def utc_text_eq)
  obtain d1 r1 d2 r2 where p: "Prune False (28800 * 1000000000 + 5) one_scan = (d1, r1)" "Prune False (28801 * 1000000000) one_scan = (d2, r2)"
    by fastforce
  have "d2 = empty_db" using p(2) by (auto simp: Prune_def Let_def one_scan_def empty_db_def utc_text_eq less_prod_def)
  then show ?thesis
    using Prune_spec [OF one_scan_ok p(1) l] Prune_spec [OF one_scan_ok p(2) l] p by simp
qed

end
