(* ===== verification/Scan_Pipeline.thy ===== *)
theory Scan_Pipeline
  imports Scan_Store Build Acks
begin

text \<open>
  How a scan runs and is served: the worker pool that runs every scanner on every cluster, the pipeline that
  saves its results and builds its report (\<open>internal/server/scan_once.go\<close>), and the handlers that trigger
  scans and read them back (\<open>handlers.go\<close>, \<open>distributions_handler.go\<close>, \<open>history_findings.go\<close>,
  \<open>tags_handler.go\<close>). The workers interleave, so a run of the pool is a sequence of steps; the outcome of a
  scanner is arbitrary. A handler answers with a status and a message, or a payload. The kubeconfig, the
  connections and the clock are parameters, and the server is not in demo mode.
\<close>

section \<open>The worker pool\<close>

definition ErroredResult :: "string \<Rightarrow> string option \<Rightarrow> Result" where
  "ErroredResult name err =
     \<lparr>res_Scanner = name, res_State = StateErrored,
      res_Reason = (case err of None \<Rightarrow> ''scan failed'' | Some e \<Rightarrow> e), res_Data = JNull\<rparr>"

text \<open>\<open>RunScanners\<close> visits the clients in order and, for each, the scanners in the order in which Go ranges over
  their map. \<open>pl_checked\<close> says that the visit of the next pair has found its context alive.\<close>

record pool =
  pl_pending :: "(string \<times> string) list"
  pl_checked :: bool
  pl_running :: "(string \<times> string) list"
  pl_results :: results
  pl_ctx :: "string option"

definition put_result :: "string \<Rightarrow> string \<Rightarrow> Result \<Rightarrow> results \<Rightarrow> results" where
  "put_result c n res rs = AList.update c (AList.update n res (lookup_default [] rs c)) rs"

definition new_pool :: "(string \<Rightarrow> string list) \<Rightarrow> string list \<Rightarrow> pool" where
  "new_pool order clients =
     \<lparr>pl_pending = concat (map (\<lambda>c. map (Pair c) (order c)) clients), pl_checked = False, pl_running = [],
      pl_results = fold (\<lambda>c. AList.update c []) clients [], pl_ctx = None\<rparr>"

definition pool_size :: "int \<Rightarrow> nat" where
  "pool_size workers = (if workers \<le> 0 then 1 else nat workers)"

text \<open>What is kept of a run: its result, or that it failed.\<close>

definition run_result :: "string \<Rightarrow> string + Result \<Rightarrow> Result" where
  "run_result name outcome = (case outcome of Inl e \<Rightarrow> ErroredResult name (Some e) | Inr res \<Rightarrow> res)"

datatype pool_event =
    Cancel string
  | Check
  | Launch "string \<times> string"
  | Skip "string \<times> string" string
  | Complete "string \<times> string" "string + Result"

inductive pool_step :: "int \<Rightarrow> pool \<Rightarrow> pool_event \<Rightarrow> pool \<Rightarrow> bool" for workers :: int where
  pool_cancel: "pl_ctx s = None \<Longrightarrow> pool_step workers s (Cancel e) (s\<lparr>pl_ctx := Some e\<rparr>)"
| pool_check: "pl_pending s \<noteq> [] \<Longrightarrow> \<not> pl_checked s \<Longrightarrow> pl_ctx s = None \<Longrightarrow>
    pool_step workers s Check (s\<lparr>pl_checked := True\<rparr>)"
| pool_launch: "pl_pending s = p # ps \<Longrightarrow> pl_checked s \<Longrightarrow> length (pl_running s) < pool_size workers \<Longrightarrow>
    pool_step workers s (Launch p) (s\<lparr>pl_pending := ps, pl_checked := False, pl_running := p # pl_running s\<rparr>)"
| pool_skip: "pl_pending s = (c, n) # ps \<Longrightarrow> pl_ctx s = Some e \<Longrightarrow>
    pool_step workers s (Skip (c, n) e)
      (s\<lparr>pl_pending := ps, pl_checked := False, pl_results := put_result c n (ErroredResult n (Some e)) (pl_results s)\<rparr>)"
| pool_complete: "(c, n) \<in> set (pl_running s) \<Longrightarrow>
    pool_step workers s (Complete (c, n) outcome)
      (s\<lparr>pl_running := remove1 (c, n) (pl_running s), pl_results := put_result c n (run_result n outcome) (pl_results s)\<rparr>)"

text \<open>\<open>wg.Wait\<close> returns when every pair has been visited and every run has ended.\<close>

definition pool_finished :: "pool \<Rightarrow> bool" where
  "pool_finished s \<longleftrightarrow> pl_pending s = [] \<and> pl_running s = []"

section \<open>The pipeline\<close>

definition emitAll :: "bool \<times> bool \<times> bool" where "emitAll = (True, True, True)"

record scanRequest =
  sq_Source :: string
  sq_ScanID :: string
  sq_Contexts :: "string list"
  sq_Scanners :: "string list option"
  sq_Emit :: "bool \<times> bool \<times> bool"

text \<open>What a scan meets: the clients it connects, what the pool returns for them, an ended context, the clock, a
  fresh identifier, and the faults of the database while it saves and while it reads tags and groups.\<close>

record scan_env =
  en_registry :: "string list"
  en_connect :: "string list \<Rightarrow> string list"
  en_results :: "string list \<Rightarrow> string list \<Rightarrow> results"
  en_ctxErr :: "string option"
  en_now :: int
  en_newID :: string
  en_faults :: "nat \<Rightarrow> bool"
  en_tagFault :: bool
  en_groupFaults :: "bool \<times> bool"
  en_time :: "int \<Rightarrow> string"
  en_sha256 :: "string \<Rightarrow> string"
  en_orders :: map_orders

definition cohortTagKey :: string where "cohortTagKey = ''cohort''"

definition projectCohortTags :: "bool \<Rightarrow> string \<Rightarrow> scan_db \<Rightarrow> store_error + (string, string) gomap" where
  "projectCohortTags fault key db =
     (case ListClusterTags fault db of
        Inl e \<Rightarrow> Inl e
      | Inr all \<Rightarrow> Inr (concat (map (\<lambda>(cluster, kv).
          case map_of kv key of None \<Rightarrow> [] | Some v \<Rightarrow> if v = '''' then [] else [(cluster, v)]) all)))"

text \<open>The options hold what could be loaded; a failed lookup leaves its part out.\<close>

definition StoreReportOptions :: "bool \<Rightarrow> bool \<times> bool \<Rightarrow> scan_db \<Rightarrow> BuildOptions \<times> bool" where
  "StoreReportOptions tagFault groupFaults db =
     (let tags = projectCohortTags tagFault cohortTagKey db; groups = ListGroups groupFaults db
      in (\<lparr>bo_OutlierThreshold = 0,
           bo_Groups = (case groups of Inl _ \<Rightarrow> [] | Inr gs \<Rightarrow> map (\<lambda>g. (gr_Name g, gr_Clusters g)) gs),
           bo_ClusterTags = (case tags of Inl _ \<Rightarrow> [] | Inr ts \<Rightarrow> ts), bo_Timestamp = ''''\<rparr>,
          (\<exists>e. tags = Inl e) \<or> (\<exists>e. groups = Inl e)))"

definition reportOptions :: "scan_env \<Rightarrow> scan_db \<Rightarrow> BuildOptions" where
  "reportOptions env db = fst (StoreReportOptions (en_tagFault env) (en_groupFaults env) db)"

definition buildReport :: "scan_env \<Rightarrow> ScanRecord \<Rightarrow> results \<Rightarrow> scan_db \<Rightarrow> Report option" where
  "buildReport env rec rs db =
     Build (en_sha256 env) (en_orders env) ((reportOptions env db)\<lparr>bo_Timestamp := en_time env (sn_Timestamp rec)\<rparr>) (sn_Clusters rec) rs"

definition scanAndSave :: "scan_env \<Rightarrow> string \<Rightarrow> scanRequest \<Rightarrow> string list \<Rightarrow> scan_db \<Rightarrow> scan_db \<times> (string + Report option \<times> int)" where
  "scanAndSave env scanID req scanners db =
     (if sq_Contexts req = [] then (db, Inl ''no contexts to scan'')
      else if scanners = [] then (db, Inl ''no scanners selected'')
      else case en_ctxErr env of
        Some e \<Rightarrow> (db, Inl (''canceled while waiting for the scan lock: '' @ e))
      | None \<Rightarrow>
          let clients = en_connect env (sq_Contexts req); rs = en_results env clients scanners
          in if clients = [] then (db, Inl ''no clusters reachable'')
             else
               let rec = \<lparr>sn_ID = scanID, sn_Timestamp = en_now env, sn_Clusters = clients, sn_Scanners = []\<rparr>
               in case SaveScanRecord (en_faults env) (en_newID env) (en_now env) rec rs db of
                    (db', Inl _) \<Rightarrow> (db', Inl ''save scan: store'')
                  | (db', Inr _) \<Rightarrow> (db', Inr (buildReport env rec rs db', int (length clients))))"

definition safeMessage :: "string \<Rightarrow> string \<Rightarrow> string" where
  "safeMessage msg fallback = (if contains_str msg ''/'' \<or> contains_str msg [CHR 0x5C] then fallback else msg)"

record scan_server =
  sv_db :: scan_db
  sv_scansOK :: int
  sv_scansErr :: int
  sv_events :: "(string \<times> string \<times> string) list"
  sv_busy :: bool

definition executeScan :: "scan_env \<Rightarrow> scanRequest \<Rightarrow> scan_server \<Rightarrow> scan_server \<times> string \<times> (string + Report option)" where
  "executeScan env req sv =
     (let scanID = (if sq_ScanID req = '''' then en_newID env else sq_ScanID req);
          scanners = (case sq_Scanners req of None \<Rightarrow> en_registry env | Some ns \<Rightarrow> ns)
      in case scanAndSave env scanID req scanners (sv_db sv) of
           (db', Inl e) \<Rightarrow>
             (sv\<lparr>sv_db := db', sv_scansErr := sv_scansErr sv + 1,
                 sv_events := sv_events sv @ [(''scan.failed'', scanID, safeMessage e ''scan failed'')]\<rparr>, scanID, Inl e)
         | (db', Inr (rpt, n)) \<Rightarrow>
             (sv\<lparr>sv_db := db', sv_scansOK := sv_scansOK sv + 1,
                 sv_events := sv_events sv @ [(''scan.complete'', scanID, Itoa n)]\<rparr>, scanID, Inr rpt))"

text \<open>The allowlist of a ClusterScan; the registry is the list of the names of its map.\<close>

definition selectScanners :: "string list \<Rightarrow> string list \<Rightarrow> string list" where
  "selectScanners registry wanted = (if wanted = [] then registry else remdups (filter (\<lambda>n. n \<in> set registry) wanted))"

definition countFindings :: "Report option \<Rightarrow> string \<Rightarrow> int" where
  "countFindings rpt sev =
     (case rpt of None \<Rightarrow> 0 | Some r \<Rightarrow> int (length (filter (\<lambda>f. f_Severity f = sev) (r_Findings r))))"

section \<open>Triggering a scan\<close>

type_synonym 'a reply = "int \<times> string + 'a"

text \<open>How \<open>resolveContexts\<close> fails: an unknown group, an empty kubeconfig, or another error.\<close>

datatype resolve_error = UnknownGroup string | NoContexts | ResolveError string

definition resolveContexts ::
  "(string list \<Rightarrow> resolve_error + string list) \<Rightarrow> bool \<times> bool \<Rightarrow> string list \<Rightarrow> string \<Rightarrow> scan_db \<Rightarrow> resolve_error + string list" where
  "resolveContexts kubeconfig faults contexts grp db =
     (if grp \<noteq> '''' then
        (case GetGroup faults grp db of
           Inl ErrNotFound \<Rightarrow> Inl (UnknownGroup (''group '' @ quote grp @ '': not found: group '' @ grp))
         | Inl _ \<Rightarrow> Inl (ResolveError (''group '' @ quote grp))
         | Inr g \<Rightarrow> Inr (gr_Clusters g))
      else kubeconfig contexts)"

definition members_of :: "bool \<times> bool \<Rightarrow> scan_db \<Rightarrow> string \<Rightarrow> string list" where
  "members_of faults db = groupLookup (\<lambda>g. case GetGroup faults g db of Inl e \<Rightarrow> Inl e | Inr r \<Rightarrow> Inr (Some (gr_Clusters r)))"

text \<open>The background scan claims the trigger slot; the reply carries its identifier.\<close>

definition startBackgroundScan :: "string \<Rightarrow> scan_server \<Rightarrow> scan_server \<times> string option" where
  "startBackgroundScan newID sv = (if sv_busy sv then (sv, None) else (sv\<lparr>sv_busy := True\<rparr>, Some newID))"

definition handleTriggerScan ::
  "(string list \<Rightarrow> resolve_error + string list) \<Rightarrow> bool \<times> bool \<Rightarrow> bool \<times> bool \<Rightarrow> string \<Rightarrow> Actor option \<Rightarrow>
   int \<times> string + string list \<times> string \<Rightarrow> scan_server \<Rightarrow> scan_server \<times> (string \<times> string list) reply" where
  "handleTriggerScan kubeconfig faults scopeFaults newID ctx body sv =
     (case body of
        Inl refused \<Rightarrow> (sv, Inl refused)
      | Inr (requested, grp) \<Rightarrow>
          (case resolveContexts kubeconfig faults requested grp (sv_db sv) of
             Inl (UnknownGroup msg) \<Rightarrow> (sv, Inl (400, safeMessage msg ''group not found''))
           | Inl NoContexts \<Rightarrow> (sv, Inl (400, ''no contexts in kubeconfig''))
           | Inl (ResolveError _) \<Rightarrow> (sv, Inl (500, ''resolve contexts failed''))
           | Inr contexts \<Rightarrow>
               if contexts = [] then (sv, Inl (400, ''group has no clusters''))
               else
                 let allowed = FilterClusters (actorFromContext ctx) contexts (Some (members_of scopeFaults (sv_db sv)))
                 in if allowed = [] then (sv, Inl (403, ''no contexts in actor scope''))
                    else (case startBackgroundScan newID sv of
                            (sv', None) \<Rightarrow> (sv', Inl (429, ''scan in progress; retry later''))
                          | (sv', Some sid) \<Rightarrow> (sv', Inr (sid, allowed)))))"

section \<open>Reading scans\<close>

definition writeStoreError :: "store_error \<Rightarrow> string \<Rightarrow> string \<Rightarrow> int \<times> string" where
  "writeStoreError e op notFound = (if e = ErrNotFound then (404, notFound) else (500, op @ '' failed''))"

text \<open>A query parameter is what \<open>strconv.Atoi\<close> makes of it.\<close>

definition queryLimit :: "int option \<Rightarrow> int \<Rightarrow> int \<Rightarrow> int" where
  "queryLimit parsed def most = (case parsed of None \<Rightarrow> def | Some n \<Rightarrow> if n \<le> 0 then def else min n most)"

definition clampScanWindow :: "int option \<Rightarrow> int \<Rightarrow> int \<Rightarrow> int" where
  "clampScanWindow parsed def most = min (case parsed of Some n \<Rightarrow> if 0 < n then n else def | None \<Rightarrow> def) most"

definition maxScanWindow :: int where "maxScanWindow = 100"

definition latestScan :: "bool \<Rightarrow> string \<Rightarrow> string \<Rightarrow> scan_db \<Rightarrow> ScanRecord option reply" where
  "latestScan fault scan op db =
     (if scan \<noteq> '''' then
        (case GetScan fault scan db of Inl e \<Rightarrow> Inl (writeStoreError e op ''scan not found'') | Inr rec \<Rightarrow> Inr (Some rec))
      else case ListScans fault 1 db of
        Inl e \<Rightarrow> Inl (writeStoreError e op ''no scans available'')
      | Inr scans \<Rightarrow> Inr (case scans of [] \<Rightarrow> None | s # _ \<Rightarrow> Some s))"

definition handleListScans :: "bool \<Rightarrow> int option \<Rightarrow> scan_db \<Rightarrow> ScanRecord list reply" where
  "handleListScans fault limit db =
     (case ListScans fault (queryLimit limit 50 maxScanWindow) db of
        Inl e \<Rightarrow> Inl (500, ''list scans failed'') | Inr scans \<Rightarrow> Inr scans)"

definition handleGetScan :: "bool \<Rightarrow> string \<Rightarrow> scan_db \<Rightarrow> ScanRecord reply" where
  "handleGetScan fault scan db =
     (case GetScan fault scan db of Inl e \<Rightarrow> Inl (writeStoreError e ''get scan'' ''scan not found'') | Inr rec \<Rightarrow> Inr rec)"

text \<open>A store error while listing acknowledgements counts as none.\<close>

definition ackedFingerprints :: "bool \<times> bool \<Rightarrow> int \<Rightarrow> acks \<Rightarrow> acks \<times> string set" where
  "ackedFingerprints faults now rows =
     (case ListAcks faults now rows of
        (rows', Inl _) \<Rightarrow> (rows', {}) | (rows', Inr as) \<Rightarrow> (rows', ack_Fingerprint ` set as))"

definition markAcked :: "(string \<Rightarrow> string) \<Rightarrow> bool \<times> bool \<Rightarrow> int \<Rightarrow> Finding list \<Rightarrow> acks \<Rightarrow> acks \<times> Finding list" where
  "markAcked sha256 faults now fs rows =
     (if fs = [] then (rows, fs)
      else let (rows', acked) = ackedFingerprints faults now rows
           in (rows', map (\<lambda>f. f\<lparr>f_Acked := FindingFingerprint sha256 f \<in> acked\<rparr>) fs))"

text \<open>Fleet-wide findings pass every tag filter. \<open>tagAllows\<close> is the filter of the request, absent without one.\<close>

definition tag_filtered :: "(string \<Rightarrow> bool) option \<Rightarrow> Finding list \<Rightarrow> Finding list" where
  "tag_filtered tagAllows fs =
     (case tagAllows of None \<Rightarrow> fs
      | Some allows \<Rightarrow> filter (\<lambda>f. f_Cluster f = '''' \<or> f_Cluster f = ''fleet'' \<or> allows (f_Cluster f)) fs)"

definition handleGetScanReport ::
  "scan_env \<Rightarrow> bool \<times> bool \<Rightarrow> bool + (string \<Rightarrow> bool) option \<Rightarrow> bool \<times> bool \<Rightarrow> string \<Rightarrow> scan_db \<Rightarrow> acks \<Rightarrow> acks \<times> Report option reply" where
  "handleGetScanReport env faults tags ackFaults scan db rows =
     (case GetScan (fst faults) scan db of
        Inl e \<Rightarrow> (rows, Inl (writeStoreError e ''get scan'' ''scan not found''))
      | Inr rec \<Rightarrow>
          (case GetScanResults (snd faults) scan db of
             Inl _ \<Rightarrow> (rows, Inl (500, ''get scan results failed''))
           | Inr rs \<Rightarrow>
               (case (buildReport env rec rs db, tags) of
                  (None, _) \<Rightarrow> (rows, Inr None)
                | (Some rpt, Inl _) \<Rightarrow> (rows, Inl (500, ''load tag filter failed''))
                | (Some rpt, Inr tagAllows) \<Rightarrow>
                    let (rows', fs) = markAcked (en_sha256 env) ackFaults (en_now env) (tag_filtered tagAllows (r_Findings rpt)) rows
                    in (rows', Inr (Some (rpt\<lparr>r_Findings := fs\<rparr>))))))"

record scanInput =
  si_ID :: string
  si_Timestamp :: int
  si_Clusters :: "string list"
  si_Results :: results
  si_Opts :: BuildOptions

text \<open>The cache of reports is transparent; the report of an input is the one it builds.\<close>

definition build_input :: "scan_env \<Rightarrow> scanInput \<Rightarrow> Report option" where
  "build_input env i = Build (en_sha256 env) (en_orders env) (si_Opts i) (si_Clusters i) (si_Results i)"

definition scanInputWith :: "scan_env \<Rightarrow> bool \<Rightarrow> ScanRecord \<Rightarrow> BuildOptions \<Rightarrow> string \<Rightarrow> scan_db \<Rightarrow> scanInput reply" where
  "scanInputWith env fault rec opts op db =
     (case GetScanResults fault (sn_ID rec) db of
        Inl e \<Rightarrow> Inl (writeStoreError e (op @ '': get scan results'') ''scan results not found'')
      | Inr rs \<Rightarrow> Inr \<lparr>si_ID = sn_ID rec, si_Timestamp = sn_Timestamp rec, si_Clusters = sn_Clusters rec, si_Results = rs,
          si_Opts = opts\<lparr>bo_Timestamp := en_time env (sn_Timestamp rec)\<rparr>\<rparr>)"

definition loadScanInput :: "scan_env \<Rightarrow> bool \<times> bool \<Rightarrow> string \<Rightarrow> string \<Rightarrow> scan_db \<Rightarrow> scanInput reply" where
  "loadScanInput env faults scan op db =
     (case latestScan (fst faults) scan op db of
        Inl e \<Rightarrow> Inl e
      | Inr None \<Rightarrow> Inl (404, ''no scans available'')
      | Inr (Some rec) \<Rightarrow> scanInputWith env (snd faults) rec (reportOptions env db) op db)"

fun load_all :: "scan_env \<Rightarrow> (nat \<Rightarrow> bool) \<Rightarrow> nat \<Rightarrow> BuildOptions \<Rightarrow> string \<Rightarrow> scan_db \<Rightarrow> ScanRecord list \<Rightarrow> scanInput list reply" where
  "load_all env faults k opts op db [] = Inr []"
| "load_all env faults k opts op db (rec # recs) =
     (case scanInputWith env (faults k) rec opts op db of
        Inl e \<Rightarrow> Inl e
      | Inr i \<Rightarrow> (case load_all env faults (Suc k) opts op db recs of Inl e \<Rightarrow> Inl e | Inr is \<Rightarrow> Inr (i # is)))"

definition loadScanSeries :: "scan_env \<Rightarrow> bool \<Rightarrow> (nat \<Rightarrow> bool) \<Rightarrow> int \<Rightarrow> string \<Rightarrow> scan_db \<Rightarrow> scanInput list reply" where
  "loadScanSeries env fault faults n op db =
     (case ListScans fault n db of
        Inl e \<Rightarrow> Inl (writeStoreError e (op @ '': list scans'') ''no scans available'')
      | Inr scans \<Rightarrow> load_all env faults 0 (reportOptions env db) op db (rev scans))"

text \<open>The bounds of a range come with the zone the request gives them; a bad one is refused before.\<close>

definition loadScanRange :: "scan_env \<Rightarrow> bool \<Rightarrow> (nat \<Rightarrow> bool) \<Rightarrow> zoned \<Rightarrow> zoned \<Rightarrow> int option \<Rightarrow> scan_db \<Rightarrow> scanInput list reply" where
  "loadScanRange env fault faults since until scansParam db =
     (case GetScansByTimeRange fault since until db of
        Inl _ \<Rightarrow> Inl (500, ''list scans failed'')
      | Inr scans \<Rightarrow> load_all env faults 0 (reportOptions env db) ''drift'' db (rev (take (nat (queryLimit scansParam 50 50)) scans)))"

text \<open>Scans whose results cannot be read are left out of a series.\<close>

definition findingSeries :: "scan_env \<Rightarrow> bool \<Rightarrow> (string \<Rightarrow> bool) \<Rightarrow> int \<Rightarrow> scan_db \<Rightarrow> store_error + (string \<times> int \<times> Finding list) list" where
  "findingSeries env fault faults n db =
     (case ListScans fault n db of
        Inl e \<Rightarrow> Inl e
      | Inr scans \<Rightarrow> Inr (concat (map (\<lambda>rec. case GetScanResults (faults (sn_ID rec)) (sn_ID rec) db of
            Inl _ \<Rightarrow> []
          | Inr rs \<Rightarrow> (case buildReport env rec rs db of None \<Rightarrow> [] | Some r \<Rightarrow> [(sn_ID rec, sn_Timestamp rec, r_Findings r)]))
          (rev scans))))"

section \<open>Clusters, groups and tags\<close>

definition handleListClusters :: "bool \<times> bool \<Rightarrow> bool \<Rightarrow> scan_db \<Rightarrow> (ClusterRecord \<times> (string, string) gomap) list reply" where
  "handleListClusters faults tagFault db =
     (case ListClusters faults db of
        Inl _ \<Rightarrow> Inl (500, ''list clusters failed'')
      | Inr clusters \<Rightarrow>
          (case ListClusterTags tagFault db of
             Inl e \<Rightarrow> Inl (writeStoreError e ''list cluster tags'' ''cluster tags not found'')
           | Inr tags \<Rightarrow> Inr (map (\<lambda>c. (c, lookup_default [] tags (cl_Name c))) clusters)))"

definition handleListGroups :: "bool \<times> bool \<Rightarrow> scan_db \<Rightarrow> GroupRecord list reply" where
  "handleListGroups faults db = (case ListGroups faults db of Inl _ \<Rightarrow> Inl (500, ''list groups failed'') | Inr gs \<Rightarrow> Inr gs)"

text \<open>A decoded body, or the refusal that decoding it wrote.\<close>

definition handleCreateGroup ::
  "(nat \<Rightarrow> bool) \<Rightarrow> Actor option \<Rightarrow> int \<times> string + string \<times> string list \<Rightarrow> scan_db \<Rightarrow> scan_db \<times> string reply" where
  "handleCreateGroup faults ctx body db =
     (if \<not> CanManageGroups (actorFromContext ctx) then (db, Inl (403, ''admin role required''))
      else case body of
        Inl refused \<Rightarrow> (db, Inl refused)
      | Inr (name, clusters) \<Rightarrow>
          if name = '''' then (db, Inl (400, ''name is required''))
          else (case SaveGroup faults name clusters db of
                  (db', Inl _) \<Rightarrow> (db', Inl (500, ''save group failed'')) | (db', Inr _) \<Rightarrow> (db', Inr name)))"

definition handleDeleteGroup :: "bool \<Rightarrow> Actor option \<Rightarrow> string \<Rightarrow> scan_db \<Rightarrow> scan_db \<times> unit reply" where
  "handleDeleteGroup fault ctx name db =
     (if \<not> CanManageGroups (actorFromContext ctx) then (db, Inl (403, ''admin role required''))
      else case DeleteGroup fault name db of
             (db', Inl e) \<Rightarrow> (db', Inl (writeStoreError e ''delete group'' ''group not found'')) | (db', Inr _) \<Rightarrow> (db', Inr ()))"

definition actor_allows :: "Actor option \<Rightarrow> string \<Rightarrow> (string \<Rightarrow> string list) \<Rightarrow> bool" where
  "actor_allows ctx cluster members = (case ctx of None \<Rightarrow> True | Some a \<Rightarrow> AllowsCluster a cluster (Some members))"

definition handleSetClusterTag ::
  "bool \<Rightarrow> bool \<times> bool \<Rightarrow> Actor option \<Rightarrow> string \<Rightarrow> string \<Rightarrow> int \<times> string + string \<Rightarrow> scan_db \<Rightarrow> scan_db \<times> (string \<times> string) reply" where
  "handleSetClusterTag fault groupFaults ctx cluster key body db =
     (if cluster = '''' \<or> key = '''' then (db, Inl (400, ''cluster and key required''))
      else if \<not> actor_allows ctx cluster (members_of groupFaults db) then (db, Inl (403, ''cluster outside actor scope''))
      else case body of
        Inl refused \<Rightarrow> (db, Inl refused)
      | Inr v \<Rightarrow> (case SetClusterTag fault cluster key v db of
            (db', Inl _) \<Rightarrow> (db', Inl (500, ''set tag failed'')) | (db', Inr _) \<Rightarrow> (db', Inr (key, v))))"

definition handleDeleteClusterTag ::
  "bool \<Rightarrow> bool \<times> bool \<Rightarrow> Actor option \<Rightarrow> string \<Rightarrow> string \<Rightarrow> scan_db \<Rightarrow> scan_db \<times> unit reply" where
  "handleDeleteClusterTag fault groupFaults ctx cluster key db =
     (if cluster = '''' \<or> key = '''' then (db, Inl (400, ''cluster and key required''))
      else if \<not> actor_allows ctx cluster (members_of groupFaults db) then (db, Inl (403, ''cluster outside actor scope''))
      else case DeleteClusterTag fault cluster key db of
        (db', Inl _) \<Rightarrow> (db', Inl (500, ''delete tag failed'')) | (db', Inr _) \<Rightarrow> (db', Inr ()))"

definition handleListClusterTags :: "bool \<Rightarrow> bool \<times> bool \<Rightarrow> Actor option \<Rightarrow> string \<Rightarrow> scan_db \<Rightarrow> (string, string) gomap reply" where
  "handleListClusterTags fault groupFaults ctx cluster db =
     (if cluster = '''' then Inl (400, ''cluster required'')
      else if \<not> actor_allows ctx cluster (members_of groupFaults db) then Inl (403, ''cluster outside actor scope'')
      else case GetClusterTags fault cluster db of Inl _ \<Rightarrow> Inl (500, ''get tags failed'') | Inr tags \<Rightarrow> Inr tags)"

definition handleListAllTags :: "bool \<Rightarrow> bool \<times> bool \<Rightarrow> Actor option \<Rightarrow> scan_db \<Rightarrow> (string, (string, string) gomap) gomap reply" where
  "handleListAllTags fault groupFaults ctx db =
     (case ListClusterTags fault db of
        Inl _ \<Rightarrow> Inl (500, ''list tags failed'')
      | Inr tags \<Rightarrow> Inr (filter (\<lambda>(cluster, m). actor_allows ctx cluster (members_of groupFaults db)) tags))"

section \<open>A report does not depend on how its results are stored\<close>

lemma result_of_at: "result_of rs c n = result_at rs c n"
  by (simp add: result_of_def result_at_def lookup_default_def split: option.split)

definition same_results :: "results \<Rightarrow> results \<Rightarrow> bool" where
  "same_results rs rs' \<longleftrightarrow> Names rs = Names rs' \<and>
     (\<forall>c n. map_option row_of (result_at rs c n) = map_option row_of (result_at rs' c n))"

lemma scan_one_same:
  assumes "map_option row_of (result_at rs c n) = map_option row_of (result_at rs' c n)"
  shows "scan_one rs n acc c = scan_one rs' n acc c"
proof -
  have at: "map_of (lookup_default [] r c) n = result_at r c n" for r
    by (simp add: result_at_def lookup_default_def split: option.split)
  show ?thesis using assms
    by (cases "result_at rs c n"; cases "result_at rs' c n")
      (auto simp: scan_one_def at row_of_def Blind_def split: prod.split)
qed

lemma Build_same:
  assumes "same_results rs rs'"
  shows "Build sha256 orders opt clusters rs = Build sha256 orders opt clusters rs'"
proof -
  have "scan_one rs n = scan_one rs' n" for n
    using assms by (intro ext scan_one_same) (simp add: same_results_def)
  then have "build_section clusters rs = build_section clusters rs'" by (simp add: build_section_def)
  moreover have "Names rs = Names rs'" using assms by (simp add: same_results_def)
  ultimately have "scanned_report opt clusters rs = scanned_report opt clusters rs'"
    by (simp add: scanned_report_def buildSections_def)
  then show ?thesis by (simp add: Build_def)
qed

lemma Names_at:
  assumes "results_ok rs"
  shows "n \<in> set (Names rs) \<longleftrightarrow> (\<exists>c. result_at rs c n \<noteq> None)"
proof
  assume "n \<in> set (Names rs)"
  then obtain c m where cm: "(c, m) \<in> set rs" "n \<in> fst ` set m" by (auto simp: Names_def)
  have "map_of rs c = Some m" using cm assms by (auto simp: results_ok_def keys_distinct_def)
  then show "\<exists>c. result_at rs c n \<noteq> None" using cm
    by (intro exI [of _ c]) (auto simp: result_at_def map_of_eq_None_iff)
next
  assume "\<exists>c. result_at rs c n \<noteq> None"
  then show "n \<in> set (Names rs)" using result_of_Names [of rs _ n] by (auto simp: result_of_at)
qed

lemma Names_eq: "set (Names rs) = set (Names rs') \<Longrightarrow> Names rs = Names rs'"
  by (rule sorted_distinct_set_unique) (simp_all add: Names_def)

lemma collect_ok: "results_ok rs \<Longrightarrow> results_ok (collect_result kr rs)"
proof -
  assume ok: "results_ok rs"
  obtain i c n row where kr: "kr = ((i, c, n), row)" by (cases kr) auto
  have "keys_distinct (lookup_default [] rs c)"
    using ok by (auto simp: results_ok_def lookup_default_def list_all_iff split: option.split dest: map_of_SomeD)
  then have m: "keys_distinct (AList.update n (result_of_row n row) (lookup_default [] rs c))" by simp
  have sub: "set (AList.update k v m) \<subseteq> insert (k, v) (set m)" for k :: string and v :: "(string, Result) gomap" and m
    by (induction m) auto
  have "list_all (\<lambda>(c, m). keys_distinct m) (AList.update c (AList.update n (result_of_row n row) (lookup_default [] rs c)) rs)"
    unfolding list_all_iff
  proof
    fix x assume "x \<in> set (AList.update c (AList.update n (result_of_row n row) (lookup_default [] rs c)) rs)"
    then have "x = (c, AList.update n (result_of_row n row) (lookup_default [] rs c)) \<or> x \<in> set rs" using sub by blast
    then show "case x of (c, m) \<Rightarrow> keys_distinct m" using m ok by (auto simp: results_ok_def list_all_iff)
  qed
  then show ?thesis using ok by (simp add: kr collect_result_def Let_def results_ok_def)
qed

lemma collect_all_ok: "results_ok rs \<Longrightarrow> results_ok (fold collect_result rows rs)"
  by (induction rows arbitrary: rs) (auto simp: collect_ok)

lemma GetScanResults_ok: "GetScanResults False i db = Inr rs \<Longrightarrow> results_ok rs"
  by (auto simp: GetScanResults_def intro!: collect_all_ok) (simp add: results_ok_def)

lemma row_of_renamed [simp]: "row_of (r\<lparr>res_Scanner := n\<rparr>) = row_of r"
  by (simp add: row_of_def)

lemma read_same_results:
  assumes "results_ok results" "results_ok rs"
    and "\<And>c n. result_at rs c n = map_option (\<lambda>x. x\<lparr>res_Scanner := n\<rparr>) (result_at results c n)"
  shows "same_results rs results"
proof -
  have "n \<in> set (Names rs) \<longleftrightarrow> n \<in> set (Names results)" for n
    by (simp add: Names_at [OF assms(1)] Names_at [OF assms(2)] assms(3))
  then have "set (Names rs) = set (Names results)" by blast
  then show ?thesis using Names_eq by (simp add: same_results_def assms(3) option.map_comp o_def)
qed

lemma tags_saved: "SaveScanRecord faults g t rec rs db = (db', r) \<Longrightarrow> db_tags db' = db_tags db \<and> db_groups db' = db_groups db \<and> db_members db' = db_members db"
proof -
  have step: "s db1 = Some db2 \<Longrightarrow> db_tags db2 = db_tags db1 \<and> db_groups db2 = db_groups db1 \<and> db_members db2 = db_members db1"
    if "s \<in> set (save_stmts i now cs rs)" for s i now cs db1 db2
    using that by (auto simp: save_stmts_def result_stmts_def insert_scan_def insert_result_def upsert_cluster_def split: if_splits)
  have run: "run_stmts faults n ss db1 = Some db2 \<Longrightarrow> set ss \<subseteq> set (save_stmts i now cs rs) \<Longrightarrow>
      db_tags db2 = db_tags db1 \<and> db_groups db2 = db_groups db1 \<and> db_members db2 = db_members db1" for n ss i now cs db1 db2
    by (induction ss arbitrary: n db1) (auto split: if_splits option.splits dest!: step)
  show "SaveScanRecord faults g t rec rs db = (db', r) \<Longrightarrow> ?thesis"
    by (auto simp: SaveScanRecord_def Let_def tx_result_def in_tx_def split: option.splits if_splits dest!: run)
qed

section \<open>A stored scan rebuilds to the report it was saved with\<close>

lemma saved_input:
  assumes ok: "db_ok db" "results_ok results" and scanID: "scanID \<noteq> ''''"
    and saved: "SaveScanRecord (en_faults env) (en_newID env) (en_now env)
      \<lparr>sn_ID = scanID, sn_Timestamp = en_now env, sn_Clusters = clients, sn_Scanners = []\<rparr> results db = (db', Inr i)"
    and now: "en_now env \<noteq> zero_time"
  shows "i = scanID \<and> (\<exists>rs. GetScanResults False scanID db' = Inr rs \<and> same_results rs results) \<and>
    GetScan False scanID db' = Inr \<lparr>sn_ID = scanID, sn_Timestamp = en_now env div 1000000000 * 1000000000,
      sn_Clusters = clients, sn_Scanners = Names results\<rparr>"
proof -
  have d: "keys_distinct results" using ok(2) by (simp add: results_ok_def)
  from SaveScanRecord_reads [OF ok(1) d saved] scanID now
  obtain rs where rs: "GetScanResults False scanID db' = Inr rs" "i = scanID"
    "\<And>c n. result_at rs c n = map_option (\<lambda>x. x\<lparr>res_Scanner := n\<rparr>) (result_at results c n)"
    "GetScan False scanID db' = Inr \<lparr>sn_ID = scanID, sn_Timestamp = en_now env div 1000000000 * 1000000000,
      sn_Clusters = clients, sn_Scanners = Names results\<rparr>"
    by auto
  have "same_results rs results" by (rule read_same_results [OF ok(2) GetScanResults_ok [OF rs(1)] rs(3)])
  with rs show ?thesis by auto
qed


section \<open>Every scanner of every cluster is accounted for\<close>

lemma result_at_put: "result_at (put_result c n res rs) c' n' = (if c' = c \<and> n' = n then Some res else result_at rs c' n')"
  by (auto simp: result_at_def put_result_def lookup_default_def split: option.split)

definition accounted :: "pool_event list \<Rightarrow> string \<Rightarrow> string \<Rightarrow> Result \<Rightarrow> bool" where
  "accounted es c n r \<longleftrightarrow>
     (\<exists>outcome. Complete (c, n) outcome \<in> set es \<and> r = run_result n outcome) \<or>
     (\<exists>e. Skip (c, n) e \<in> set es \<and> r = ErroredResult n (Some e))"

definition written :: "pool \<Rightarrow> (string \<times> string) set" where
  "written s = {(c, n). result_at (pl_results s) c n \<noteq> None}"

definition potential :: "pool \<Rightarrow> nat" where
  "potential s = (3 * length (pl_pending s) - of_bool (pl_checked s)) + length (pl_running s) + of_bool (pl_ctx s = None)"

definition pool_inv :: "int \<Rightarrow> (string \<times> string) list \<Rightarrow> pool_event list \<Rightarrow> pool \<Rightarrow> bool" where
  "pool_inv workers pairs es s \<longleftrightarrow>
     set (pl_pending s) \<union> set (pl_running s) \<union> written s = set pairs \<and> length (pl_running s) \<le> pool_size workers \<and>
     (\<forall>c n r. result_at (pl_results s) c n = Some r \<longrightarrow> accounted es c n r) \<and>
     (pl_checked s \<longrightarrow> pl_pending s \<noteq> []) \<and> length es + potential s \<le> 3 * length pairs + 1"

lemma accounted_more: "accounted es c n r \<Longrightarrow> accounted (es @ [e]) c n r"
  by (auto simp: accounted_def)

lemma accounted_last: "accounted (es @ [Complete (c, n) outcome]) c n (run_result n outcome)"
  "accounted (es @ [Skip (c, n) e]) c n (ErroredResult n (Some e))"
  by (auto simp: accounted_def)

lemma written_put: "written (s\<lparr>pl_results := put_result c n res (pl_results s)\<rparr>) = insert (c, n) (written s)"
  by (auto simp: written_def result_at_put)

lemma set_remove1_insert: "x \<in> set xs \<Longrightarrow> insert x (set (remove1 x xs)) = set xs"
  by (induction xs) auto

lemma pool_inv_step: "pool_step workers s e t \<Longrightarrow> pool_inv workers pairs es s \<Longrightarrow> pool_inv workers pairs (es @ [e]) t"
proof (induction rule: pool_step.induct)
  case (pool_cancel s e)
  then show ?case by (auto simp: pool_inv_def written_def potential_def accounted_more)
next
  case (pool_check s)
  then obtain p ps where "pl_pending s = p # ps" by (cases "pl_pending s") auto
  with pool_check show ?case by (auto simp: pool_inv_def written_def potential_def accounted_more)
next
  case (pool_launch s p ps)
  then show ?case by (auto simp: pool_inv_def written_def potential_def accounted_more)
next
  case (pool_skip s c n ps e)
  then show ?case
    by (cases "pl_checked s")
      (auto simp: pool_inv_def written_def potential_def result_at_put accounted_more accounted_last split: if_splits)
next
  case (pool_complete c n s outcome)
  have "insert (c, n) (set (remove1 (c, n) (pl_running s))) = set (pl_running s)"
    using pool_complete(1) by (rule set_remove1_insert)
  moreover have "length (pl_running s) = Suc (length (remove1 (c, n) (pl_running s)))"
    using pool_complete(1) length_pos_if_in_set [OF pool_complete(1)] by (simp add: length_remove1)
  moreover have "written (s\<lparr>pl_running := rn, pl_results := put_result c n res (pl_results s)\<rparr>) = insert (c, n) (written s)" for rn res
    by (auto simp: written_def result_at_put)
  ultimately show ?case using pool_complete(2)
    by (auto simp: pool_inv_def potential_def result_at_put accounted_more accounted_last split: if_splits)
qed

interpretation pool: history_invariant "pool_step workers" "pool_inv workers pairs" for workers pairs
  by unfold_locales (rule pool_inv_step)

lemma new_pool_results: "result_at (pl_results (new_pool order clients)) c n = None"
proof -
  have all: "(\<forall>k v. map_of m k = Some v \<longrightarrow> v = []) \<Longrightarrow> map_of (fold (\<lambda>c. AList.update c []) cs m) k = Some v \<Longrightarrow> v = []"
    for cs and m :: results and k v
  proof (induction cs arbitrary: m)
    case (Cons a cs)
    have "\<forall>k v. map_of (AList.update a [] m) k = Some v \<longrightarrow> v = []" using Cons.prems(1) by simp
    from Cons.IH [OF this] Cons.prems(2) show ?case by simp
  qed simp
  show ?thesis
  proof (cases "map_of (pl_results (new_pool order clients)) c")
    case (Some m)
    then have "m = []" using all [of "[]" clients c m] by (simp add: new_pool_def)
    with Some show ?thesis by (simp add: result_at_def)
  qed (simp add: result_at_def)
qed

lemma pool_inv_new: "pool_inv workers (pl_pending (new_pool order clients)) [] (new_pool order clients)"
  using new_pool_results
  by (auto simp: pool_inv_def written_def potential_def) (simp_all add: new_pool_def)

lemma pool_progress: "\<not> pool_finished s \<Longrightarrow> \<exists>e t. pool_step workers s e t"
proof (cases "pl_running s")
  case (Cons p ps)
  then show ?thesis using pool_complete [of "fst p" "snd p" s workers] by auto
next
  case Nil
  assume "\<not> pool_finished s"
  then obtain c n qs where p: "pl_pending s = (c, n) # qs" using Nil by (cases "pl_pending s") (auto simp: pool_finished_def)
  have "length (pl_running s) < pool_size workers" by (simp add: Nil pool_size_def)
  then show ?thesis
    using pool_check [of s workers] pool_launch [OF p] pool_skip [OF p] p by (cases "pl_ctx s"; cases "pl_checked s") auto
qed

text \<open>C26. Under every interleaving of the workers, with or without a cancellation: at most the configured number
  run at once, the pool can always go on until it has finished and does so within three steps per run, and then
  every scanner of every cluster has a result, which is that of its run, or records why there was none.\<close>

theorem RunScanners_complete:
  assumes run: "runs (pool_step workers) (new_pool order clients) es s"
  shows "length (pl_running s) \<le> pool_size workers \<and>
    length es \<le> 3 * length (pl_pending (new_pool order clients)) + 1 \<and>
    (pool_finished s \<or> (\<exists>e t. pool_step workers s e t)) \<and>
    (pool_finished s \<longrightarrow> (\<forall>c n. case result_at (pl_results s) c n of
        None \<Rightarrow> \<not> (c \<in> set clients \<and> n \<in> set (order c))
      | Some r \<Rightarrow> c \<in> set clients \<and> n \<in> set (order c) \<and> accounted es c n r))"
proof -
  have inv: "pool_inv workers (pl_pending (new_pool order clients)) es s"
    by (rule pool.inv_runs [OF run pool_inv_new])
  have pairs: "(c, n) \<in> set (pl_pending (new_pool order clients)) \<longleftrightarrow> c \<in> set clients \<and> n \<in> set (order c)" for c n
    by (auto simp: new_pool_def)
  have "case result_at (pl_results s) c n of
        None \<Rightarrow> \<not> (c \<in> set clients \<and> n \<in> set (order c))
      | Some r \<Rightarrow> c \<in> set clients \<and> n \<in> set (order c) \<and> accounted es c n r" if "pool_finished s" for c n
  proof -
    have "written s = set (pl_pending (new_pool order clients))" using inv that by (simp add: pool_inv_def pool_finished_def)
    then have "(c, n) \<in> written s \<longleftrightarrow> c \<in> set clients \<and> n \<in> set (order c)" using pairs by simp
    then show ?thesis using inv by (auto simp: written_def pool_inv_def split: option.split)
  qed
  then show ?thesis using inv pool_progress [of s workers] by (auto simp: pool_inv_def)
qed

section \<open>Who may change what\<close>

text \<open>A tag is set or withdrawn by an actor whose scope holds its cluster only, and no other tag changes; groups are
  changed by administrators only; a scan is triggered on clusters in the actor's scope only, and one at a time.\<close>

lemma tag_handlers_scoped:
  "fst (handleSetClusterTag fault gf (Some a) cluster key body db) = db \<or>
     AllowsCluster a cluster (Some (members_of gf db)) \<and>
     (\<exists>v. fst (handleSetClusterTag fault gf (Some a) cluster key body db) = db\<lparr>db_tags := AList.update (cluster, key) v (db_tags db)\<rparr>)"
  "fst (handleDeleteClusterTag fault gf (Some a) cluster key db) = db \<or>
     AllowsCluster a cluster (Some (members_of gf db)) \<and>
     fst (handleDeleteClusterTag fault gf (Some a) cluster key db) = db\<lparr>db_tags := AList.delete (cluster, key) (db_tags db)\<rparr>"
  by (auto simp: handleSetClusterTag_def handleDeleteClusterTag_def actor_allows_def SetClusterTag_def DeleteClusterTag_def
      split: sum.split if_splits)

lemma group_handlers_scoped:
  "ac_Role a \<noteq> RoleAdmin \<Longrightarrow> handleCreateGroup faults (Some a) body db = (db, Inl (403, ''admin role required'')) \<and>
   handleDeleteGroup fault (Some a) name db = (db, Inl (403, ''admin role required''))"
  by (simp add: handleCreateGroup_def handleDeleteGroup_def CanManageGroups_def actorFromContext_def)

lemma trigger_scoped:
  assumes "handleTriggerScan kubeconfig faults scopeFaults newID (Some a) body sv = (sv', Inr (sid, cs))"
  shows "\<not> sv_busy sv \<and> sv_busy sv' \<and> sid = newID \<and> cs \<noteq> [] \<and>
    list_all (\<lambda>c. AllowsCluster a c (Some (members_of scopeFaults (sv_db sv)))) cs"
  using assms
  by (auto simp: handleTriggerScan_def startBackgroundScan_def FilterClusters_def actorFromContext_def AllowsCluster_def
      Let_def list_all_iff split: sum.splits resolve_error.splits if_splits)

section \<open>Examples\<close>

definition sample_env :: scan_env where
  "sample_env = \<lparr>en_registry = [''nodes''], en_connect = (\<lambda>cs. cs), en_results = (\<lambda>cs ns. sample_results),
     en_ctxErr = None, en_now = 5000000007, en_newID = ''g'', en_faults = (\<lambda>_. False), en_tagFault = False,
     en_groupFaults = (False, False), en_time = (\<lambda>t. Itoa (t div 1000000000)), en_sha256 = (\<lambda>s. s),
     en_orders = \<lparr>mo_versions = (\<lambda>m. m), mo_namespaces = (\<lambda>m. m), mo_groups = (\<lambda>m. m)\<rparr>\<rparr>"

definition sample_request :: scanRequest where
  "sample_request = \<lparr>sq_Source = ''scheduled'', sq_ScanID = ''s1'', sq_Contexts = [''a''], sq_Scanners = None, sq_Emit = emitAll\<rparr>"


theorem RunScanners_complete_witness:
  "\<exists>s. runs (pool_step 1) (new_pool (\<lambda>c. [''nodes'']) [''a'', ''b''])
     [Check, Launch (''a'', ''nodes''), Cancel ''stop'', Skip (''b'', ''nodes'') ''stop'', Complete (''a'', ''nodes'') (Inl ''boom'')] s \<and>
   pool_finished s \<and> accounted [Check, Launch (''a'', ''nodes''), Cancel ''stop'', Skip (''b'', ''nodes'') ''stop'',
     Complete (''a'', ''nodes'') (Inl ''boom'')] ''b'' ''nodes'' (ErroredResult ''nodes'' (Some ''stop''))"
proof -
  let ?A = "(''a'', ''nodes'')" let ?B = "(''b'', ''nodes'')"
  let ?s0 = "new_pool (\<lambda>c. [''nodes'']) [''a'', ''b'']"
  let ?s1 = "?s0\<lparr>pl_checked := True\<rparr>"
  let ?s2 = "?s1\<lparr>pl_pending := [?B], pl_checked := False, pl_running := ?A # pl_running ?s1\<rparr>"
  let ?s3 = "?s2\<lparr>pl_ctx := Some ''stop''\<rparr>"
  let ?s4 = "?s3\<lparr>pl_pending := [], pl_checked := False,
    pl_results := put_result ''b'' ''nodes'' (ErroredResult ''nodes'' (Some ''stop'')) (pl_results ?s3)\<rparr>"
  let ?s5 = "?s4\<lparr>pl_running := remove1 ?A (pl_running ?s4), pl_results := put_result ''a'' ''nodes'' (run_result ''nodes'' (Inl ''boom'')) (pl_results ?s4)\<rparr>"
  have "runs (pool_step 1) ?s0 ([] @ [Check]) ?s1"
    by (rule runs_step [OF runs_start]) (rule pool_check, simp_all add: new_pool_def)
  then have "runs (pool_step 1) ?s0 (([] @ [Check]) @ [Launch ?A]) ?s2"
    by (rule runs_step) (rule pool_launch, simp_all add: new_pool_def pool_size_def)
  then have "runs (pool_step 1) ?s0 ((([] @ [Check]) @ [Launch ?A]) @ [Cancel ''stop'']) ?s3"
    by (rule runs_step) (rule pool_cancel, simp add: new_pool_def)
  then have "runs (pool_step 1) ?s0 (((([] @ [Check]) @ [Launch ?A]) @ [Cancel ''stop'']) @ [Skip ?B ''stop'']) ?s4"
    by (rule runs_step) (rule pool_skip, simp_all)
  then have "runs (pool_step 1) ?s0 ((((([] @ [Check]) @ [Launch ?A]) @ [Cancel ''stop'']) @ [Skip ?B ''stop'']) @ [Complete ?A (Inl ''boom'')]) ?s5"
    by (rule runs_step) (rule pool_complete, simp)
  then have r: "runs (pool_step 1) ?s0 [Check, Launch ?A, Cancel ''stop'', Skip ?B ''stop'', Complete ?A (Inl ''boom'')] ?s5" by simp
  have fin: "pool_finished ?s5" by (simp add: pool_finished_def new_pool_def)
  have "result_at (pl_results ?s5) ''b'' ''nodes'' = Some (ErroredResult ''nodes'' (Some ''stop''))" by (simp add: result_at_put)
  then obtain t where t: "runs (pool_step 1) ?s0 [Check, Launch ?A, Cancel ''stop'', Skip ?B ''stop'', Complete ?A (Inl ''boom'')] t"
    "pool_finished t" "result_at (pl_results t) ''b'' ''nodes'' = Some (ErroredResult ''nodes'' (Some ''stop''))"
    using r fin by blast
  from RunScanners_complete [OF t(1)] t(2)
  have "case result_at (pl_results t) ''b'' ''nodes'' of
        None \<Rightarrow> \<not> (''b'' \<in> set [''a'', ''b''] \<and> ''nodes'' \<in> set [''nodes''])
      | Some r \<Rightarrow> ''b'' \<in> set [''a'', ''b''] \<and> ''nodes'' \<in> set [''nodes''] \<and>
          accounted [Check, Launch ?A, Cancel ''stop'', Skip ?B ''stop'', Complete ?A (Inl ''boom'')] ''b'' ''nodes'' r" by blast
  then have "accounted [Check, Launch ?A, Cancel ''stop'', Skip ?B ''stop'', Complete ?A (Inl ''boom'')] ''b'' ''nodes''
      (ErroredResult ''nodes'' (Some ''stop''))" unfolding t(3) by simp
  with t(1,2) show ?thesis by blast
qed

end
