(* ===== verification/Controller.thy ===== *)
theory Controller
  imports Rules RateLimit "HOL-Library.Word"
begin

text \<open>
  The ClusterScan operator, \<open>internal/controller\<close>: reading a resource, deciding whether its scan is due,
  running it, and recording the outcome on the resource and in the controller's memory. A reconcile is split
  where the scan runs, because deletions are handled meanwhile. The Kubernetes client, the helper that sets a
  condition, the JSON decoder of a spec and the parsers of durations and times are parameters. A time is a
  number of nanoseconds, a duration an \<open>int64\<close> of them.
\<close>

section \<open>Resources\<close>

record EmitOptions =
  em_FleetDriftReport :: bool
  em_PolicyReport :: bool
  em_Slack :: bool

record ClusterScanSpec =
  sp_Contexts :: "string list"
  sp_Group :: string
  sp_Interval :: string
  sp_Scanners :: "string list"
  sp_Emit :: EmitOptions
  sp_Paused :: bool

record Condition =
  cn_Type :: string
  cn_Status :: string
  cn_ObservedGeneration :: int
  cn_Reason :: string
  cn_Message :: string
  cn_LastTransitionTime :: string

record ClusterScanStatus =
  st_Phase :: string
  st_LastScanID :: string
  st_LastScanTime :: "int option"
  st_NextScanTime :: "int option"
  st_ObservedScore :: int
  st_ObservedGrade :: string
  st_ObservedCritical :: int
  st_ObservedWarning :: int
  st_ObservedClusters :: int
  st_ObservedGeneration :: int
  st_ConsecutiveFailures :: int
  st_Message :: string
  st_Conditions :: "Condition list"

definition empty_status :: ClusterScanStatus where
  "empty_status = \<lparr>st_Phase = '''', st_LastScanID = '''', st_LastScanTime = None, st_NextScanTime = None,
     st_ObservedScore = 0, st_ObservedGrade = '''', st_ObservedCritical = 0, st_ObservedWarning = 0,
     st_ObservedClusters = 0, st_ObservedGeneration = 0, st_ConsecutiveFailures = 0, st_Message = '''',
     st_Conditions = []\<rparr>"

text \<open>What \<open>unstructured.NestedMap\<close> answers for the section of an object.\<close>

datatype nested = NoSection | NotAMap string | Section jobject

record Object =
  ob_Namespace :: string
  ob_Name :: string
  ob_Generation :: int
  ob_ResourceVersion :: string
  ob_spec :: nested
  ob_status :: nested

definition PhasePending :: string where "PhasePending = ''Pending''"
definition PhaseRunning :: string where "PhaseRunning = ''Running''"
definition PhaseSucceeded :: string where "PhaseSucceeded = ''Succeeded''"
definition PhaseFailed :: string where "PhaseFailed = ''Failed''"
definition PhasePaused :: string where "PhasePaused = ''Paused''"

definition ConditionReady :: string where "ConditionReady = ''Ready''"
definition ConditionScanning :: string where "ConditionScanning = ''Scanning''"
definition ConditionFailed :: string where "ConditionFailed = ''Failed''"

definition ReasonScanStarted :: string where "ReasonScanStarted = ''ScanStarted''"
definition ReasonScanSucceeded :: string where "ReasonScanSucceeded = ''ScanSucceeded''"
definition ReasonScanFailed :: string where "ReasonScanFailed = ''ScanFailed''"
definition ReasonInvalidSpec :: string where "ReasonInvalidSpec = ''InvalidSpec''"
definition ReasonPaused :: string where "ReasonPaused = ''Paused''"

text \<open>The status values of \<open>metav1.Condition\<close>, and the types of Kubernetes events.\<close>

definition ConditionTrue :: string where "ConditionTrue = ''True''"
definition ConditionFalse :: string where "ConditionFalse = ''False''"

definition key_of :: "Object \<Rightarrow> string" where
  "key_of obj = ob_Namespace obj @ ''/'' @ ob_Name obj"

section \<open>Libraries\<close>

text \<open>The answer of the API server to a patch: the new resource version, that the object is gone, or an
  error.\<close>

datatype reply = Patched string | PatchNotFound | PatchRefused string

record libs =
  lb_duration :: "string \<Rightarrow> string + int"
  lb_spec :: "jobject \<Rightarrow> string + ClusterScanSpec"
  lb_time :: "int \<Rightarrow> string"
  lb_parse_time :: "string \<Rightarrow> int option"
  lb_conditions :: "Condition list \<Rightarrow> json"
  lb_parse_conditions :: "json \<Rightarrow> Condition list option"
  lb_set :: "Condition list \<Rightarrow> Condition \<Rightarrow> Condition list"
  lb_api :: "nat \<Rightarrow> reply"

section \<open>Reading a resource\<close>

definition readSpec :: "libs \<Rightarrow> Object \<Rightarrow> string + ClusterScanSpec" where
  "readSpec lb obj =
     (case ob_spec obj of
        NotAMap e \<Rightarrow> Inl (''spec: '' @ e)
      | NoSection \<Rightarrow> Inl ''spec missing''
      | Section m \<Rightarrow> (case lb_spec lb m of Inl e \<Rightarrow> Inl (''spec unmarshal: '' @ e) | Inr s \<Rightarrow> Inr s))"

text \<open>Decoding a member into a field: a missing or null member leaves the zero value, one of another type is
  an error.\<close>

definition str_field :: "string \<Rightarrow> jobject \<Rightarrow> string option" where
  "str_field k m = (case map_of m k of None \<Rightarrow> Some '''' | Some JNull \<Rightarrow> Some '''' | Some (JStr s) \<Rightarrow> Some s | _ \<Rightarrow> None)"

definition int_field :: "string \<Rightarrow> jobject \<Rightarrow> int option" where
  "int_field k m =
     (case map_of m k of None \<Rightarrow> Some 0 | Some JNull \<Rightarrow> Some 0
      | Some (JNum x) \<Rightarrow> if x = of_int \<lfloor>x\<rfloor> then Some \<lfloor>x\<rfloor> else None | _ \<Rightarrow> None)"

definition time_field :: "libs \<Rightarrow> string \<Rightarrow> jobject \<Rightarrow> int option option" where
  "time_field lb k m =
     (case map_of m k of None \<Rightarrow> Some None | Some JNull \<Rightarrow> Some None
      | Some (JStr s) \<Rightarrow> map_option Some (lb_parse_time lb s) | _ \<Rightarrow> None)"

definition conditions_field :: "libs \<Rightarrow> jobject \<Rightarrow> Condition list option" where
  "conditions_field lb m =
     (case map_of m ''conditions'' of None \<Rightarrow> Some [] | Some JNull \<Rightarrow> Some []
      | Some v \<Rightarrow> lb_parse_conditions lb v)"

definition decode_status :: "libs \<Rightarrow> jobject \<Rightarrow> ClusterScanStatus option" where
  "decode_status lb m =
     Option.bind (str_field ''phase'' m) (\<lambda>phase.
     Option.bind (str_field ''lastScanID'' m) (\<lambda>scanID.
     Option.bind (time_field lb ''lastScanTime'' m) (\<lambda>lastScan.
     Option.bind (time_field lb ''nextScanTime'' m) (\<lambda>nextScan.
     Option.bind (int_field ''observedScore'' m) (\<lambda>score.
     Option.bind (str_field ''observedGrade'' m) (\<lambda>letter.
     Option.bind (int_field ''observedCritical'' m) (\<lambda>criticals.
     Option.bind (int_field ''observedWarning'' m) (\<lambda>warnings.
     Option.bind (int_field ''observedClusters'' m) (\<lambda>clusters.
     Option.bind (int_field ''observedGeneration'' m) (\<lambda>gen.
     Option.bind (int_field ''consecutiveFailures'' m) (\<lambda>failures.
     Option.bind (str_field ''message'' m) (\<lambda>message.
     Option.bind (conditions_field lb m) (\<lambda>conditions.
       Some \<lparr>st_Phase = phase, st_LastScanID = scanID, st_LastScanTime = lastScan, st_NextScanTime = nextScan,
         st_ObservedScore = score, st_ObservedGrade = letter, st_ObservedCritical = criticals,
         st_ObservedWarning = warnings, st_ObservedClusters = clusters, st_ObservedGeneration = gen,
         st_ConsecutiveFailures = failures, st_Message = message, st_Conditions = conditions\<rparr>)))))))))))))"

definition readStatus :: "libs \<Rightarrow> Object \<Rightarrow> ClusterScanStatus" where
  "readStatus lb obj =
     (case ob_status obj of
        Section m \<Rightarrow> (case decode_status lb m of None \<Rightarrow> empty_status | Some s \<Rightarrow> s)
      | _ \<Rightarrow> empty_status)"

definition specInterval :: "libs \<Rightarrow> Object \<Rightarrow> string + ClusterScanSpec \<times> int" where
  "specInterval lb obj =
     (case readSpec lb obj of
        Inl e \<Rightarrow> Inl e
      | Inr sp \<Rightarrow>
          if sp_Interval sp = '''' then Inl ''spec.interval is required''
          else let refused = (\<lambda>e. Inl (''invalid spec.interval '' @ quote (sp_Interval sp) @ '' (use a Go duration like 15m): '' @ e))
            in case lb_duration lb (sp_Interval sp) of
                 Inl e \<Rightarrow> refused e
               | Inr interval \<Rightarrow> if interval \<le> 0 then refused ''spec.interval must be positive'' else Inr (sp, interval))"

section \<open>Writing the status\<close>

definition nullIfEmpty :: "string \<Rightarrow> json" where
  "nullIfEmpty v = (if v = '''' then JNull else JStr v)"

definition rfc3339OrNull :: "libs \<Rightarrow> int option \<Rightarrow> json" where
  "rfc3339OrNull lb t = (case t of None \<Rightarrow> JNull | Some x \<Rightarrow> JStr (lb_time lb x))"

definition statusToMap :: "libs \<Rightarrow> ClusterScanStatus \<Rightarrow> jobject" where
  "statusToMap lb s =
     [(''phase'', nullIfEmpty (st_Phase s)),
      (''lastScanID'', nullIfEmpty (st_LastScanID s)),
      (''lastScanTime'', rfc3339OrNull lb (st_LastScanTime s)),
      (''nextScanTime'', rfc3339OrNull lb (st_NextScanTime s)),
      (''observedScore'', JNum (of_int64 (st_ObservedScore s))),
      (''observedGrade'', nullIfEmpty (st_ObservedGrade s)),
      (''observedCritical'', JNum (of_int64 (st_ObservedCritical s))),
      (''observedWarning'', JNum (of_int64 (st_ObservedWarning s))),
      (''observedClusters'', JNum (of_int64 (st_ObservedClusters s))),
      (''observedGeneration'', JNum (of_int64 (st_ObservedGeneration s))),
      (''consecutiveFailures'', JNum (of_int64 (st_ConsecutiveFailures s))),
      (''message'', nullIfEmpty (st_Message s)),
      (''conditions'', lb_conditions lb (st_Conditions s))]"

definition buildStatusPatch :: "libs \<Rightarrow> string \<Rightarrow> ClusterScanStatus \<Rightarrow> jobject" where
  "buildStatusPatch lb resourceVersion status =
     (''status'', JObj (statusToMap lb status)) #
     (if resourceVersion = '''' then [] else [(''metadata'', JObj [(''resourceVersion'', JStr resourceVersion)])])"

section \<open>The controller\<close>

record scheduled =
  sc_generation :: int
  sc_at :: int

record metrics =
  mt_reconcileTotal :: int
  mt_reconcileOK :: int
  mt_reconcileFail :: int
  mt_scansTriggered :: int
  mt_scansSucceeded :: int
  mt_scansFailed :: int
  mt_pausedSeen :: int

text \<open>The running scans are kept with whether their context has been cancelled by a deletion; the patches and
  events sent are logged.\<close>

record controller =
  ct_next :: "(string, scheduled) gomap"
  ct_inflight :: "(string, bool) gomap"
  ct_patches :: "(string \<times> ClusterScanStatus \<times> jobject) list"
  ct_events :: "(string \<times> string \<times> string \<times> string) list"
  ct_metrics :: metrics

definition new_controller :: controller where
  "new_controller = \<lparr>ct_next = [], ct_inflight = [], ct_patches = [], ct_events = [],
     ct_metrics = \<lparr>mt_reconcileTotal = 0, mt_reconcileOK = 0, mt_reconcileFail = 0, mt_scansTriggered = 0,
       mt_scansSucceeded = 0, mt_scansFailed = 0, mt_pausedSeen = 0\<rparr>\<rparr>"

record Config =
  cf_Dynamic :: bool
  cf_Runner :: bool
  cf_Log :: bool
  cf_PollInterval :: int

text \<open>\<open>New\<close> panics on a missing part; its result is the poll interval and the empty state.\<close>

definition New :: "Config \<Rightarrow> string + int \<times> controller" where
  "New cfg =
     (if \<not> cf_Dynamic cfg then Inl ''controller: Dynamic required''
      else if \<not> cf_Runner cfg then Inl ''controller: Runner required''
      else if \<not> cf_Log cfg then Inl ''controller: Log required''
      else Inr (if cf_PollInterval cfg \<le> 0 then 15 * 1000000000 else cf_PollInterval cfg, new_controller))"

definition recordReconcile :: "controller \<Rightarrow> controller" where
  "recordReconcile st = st\<lparr>ct_metrics := (ct_metrics st)\<lparr>mt_reconcileTotal := mt_reconcileTotal (ct_metrics st) + 1\<rparr>\<rparr>"

definition recordReconcileOK :: "controller \<Rightarrow> controller" where
  "recordReconcileOK st = st\<lparr>ct_metrics := (ct_metrics st)\<lparr>mt_reconcileOK := mt_reconcileOK (ct_metrics st) + 1\<rparr>\<rparr>"

definition recordReconcileFail :: "controller \<Rightarrow> controller" where
  "recordReconcileFail st = st\<lparr>ct_metrics := (ct_metrics st)\<lparr>mt_reconcileFail := mt_reconcileFail (ct_metrics st) + 1\<rparr>\<rparr>"

definition recordScanTriggered :: "controller \<Rightarrow> controller" where
  "recordScanTriggered st = st\<lparr>ct_metrics := (ct_metrics st)\<lparr>mt_scansTriggered := mt_scansTriggered (ct_metrics st) + 1\<rparr>\<rparr>"

definition recordScanResult :: "bool \<Rightarrow> controller \<Rightarrow> controller" where
  "recordScanResult success st =
     (if success then st\<lparr>ct_metrics := (ct_metrics st)\<lparr>mt_scansSucceeded := mt_scansSucceeded (ct_metrics st) + 1\<rparr>\<rparr>
      else st\<lparr>ct_metrics := (ct_metrics st)\<lparr>mt_scansFailed := mt_scansFailed (ct_metrics st) + 1\<rparr>\<rparr>)"

definition recordPaused :: "controller \<Rightarrow> controller" where
  "recordPaused st = st\<lparr>ct_metrics := (ct_metrics st)\<lparr>mt_pausedSeen := mt_pausedSeen (ct_metrics st) + 1\<rparr>\<rparr>"

definition emit_event :: "Object \<Rightarrow> string \<Rightarrow> string \<Rightarrow> string \<Rightarrow> controller \<Rightarrow> controller" where
  "emit_event obj eventtype reason message st = st\<lparr>ct_events := ct_events st @ [(key_of obj, eventtype, reason, message)]\<rparr>"

text \<open>On success the object takes the new resource version.\<close>

definition patchStatus :: "libs \<Rightarrow> Object \<Rightarrow> ClusterScanStatus \<Rightarrow> controller \<Rightarrow> controller \<times> (string + Object)" where
  "patchStatus lb obj status st =
     (let n = length (ct_patches st);
          st' = st\<lparr>ct_patches := ct_patches st @ [(key_of obj, status, buildStatusPatch lb (ob_ResourceVersion obj) status)]\<rparr>
      in case lb_api lb n of
           PatchNotFound \<Rightarrow> (st', Inr obj)
         | PatchRefused e \<Rightarrow> (st', Inl (''patch status '' @ key_of obj @ '': '' @ e))
         | Patched rv \<Rightarrow> (st', Inr (obj\<lparr>ob_ResourceVersion := rv\<rparr>)))"

definition setConditions :: "libs \<Rightarrow> int \<Rightarrow> string \<Rightarrow> string \<Rightarrow> string \<Rightarrow> string \<Rightarrow> ClusterScanStatus \<Rightarrow> ClusterScanStatus" where
  "setConditions lb gen ready failed reason message status =
     fold (\<lambda>(type, value) s.
        s\<lparr>st_Conditions := lb_set lb (st_Conditions s)
            \<lparr>cn_Type = type, cn_Status = value, cn_ObservedGeneration = gen, cn_Reason = reason, cn_Message = message,
             cn_LastTransitionTime = ''''\<rparr>\<rparr>)
       [(ConditionReady, ready), (ConditionScanning, ConditionFalse), (ConditionFailed, failed)] status"

section \<open>Schedules\<close>

definition minute :: int where "minute = 60 * 1000000000"
definition failureRetryBase :: int where "failureRetryBase = minute"

text \<open>\<open>delay *= 2\<close> on an \<open>int64\<close>; the counter of the loop runs up to the number of failures.\<close>

definition twice :: "int \<Rightarrow> int" where
  "twice d = sint (word_of_int (2 * d) :: 64 word)"

fun retry_loop :: "nat \<Rightarrow> int \<Rightarrow> int \<Rightarrow> int" where
  "retry_loop 0 interval delay = delay"
| "retry_loop (Suc k) interval delay = (if delay < interval then retry_loop k interval (twice delay) else delay)"

definition retryDelay :: "int \<Rightarrow> int \<Rightarrow> int" where
  "retryDelay failures interval = min (retry_loop (nat (failures - 1)) interval failureRetryBase) interval"

definition status_due :: "ClusterScanStatus \<Rightarrow> int \<Rightarrow> int \<Rightarrow> int" where
  "status_due status interval now =
     (let due = (case st_NextScanTime status of
            Some t \<Rightarrow> t
          | None \<Rightarrow> (case st_LastScanTime status of Some t \<Rightarrow> t + interval | None \<Rightarrow> now))
      in case st_LastScanTime status of
           Some t \<Rightarrow> if st_ConsecutiveFailures status = 0 \<and> t + interval < due then t + interval else due
         | None \<Rightarrow> due)"

definition dueTime :: "string \<Rightarrow> int \<Rightarrow> ClusterScanStatus \<Rightarrow> int \<Rightarrow> int \<Rightarrow> controller \<Rightarrow> int \<times> bool" where
  "dueTime key gen status interval now st =
     (let due = status_due status interval now
      in case map_of (ct_next st) key of
           Some mem \<Rightarrow> if sc_generation mem = gen \<and> due < sc_at mem then (sc_at mem, True) else (due, False)
         | None \<Rightarrow> (due, False))"

definition remember :: "string \<Rightarrow> int \<Rightarrow> int \<Rightarrow> controller \<Rightarrow> controller" where
  "remember key gen t st = st\<lparr>ct_next := AList.update key \<lparr>sc_generation = gen, sc_at = t\<rparr> (ct_next st)\<rparr>"

text \<open>Deletion of a resource.\<close>

definition forget :: "string \<Rightarrow> controller \<Rightarrow> controller" where
  "forget key st = st\<lparr>ct_next := AList.delete key (ct_next st),
     ct_inflight := (case map_of (ct_inflight st) key of None \<Rightarrow> ct_inflight st | Some b \<Rightarrow> AList.update key True (ct_inflight st))\<rparr>"

section \<open>Reconciling\<close>

definition markInvalid :: "libs \<Rightarrow> Object \<Rightarrow> ClusterScanStatus \<Rightarrow> int \<Rightarrow> string \<Rightarrow> controller \<Rightarrow> controller \<times> (string + int)" where
  "markInvalid lb obj status gen err st =
     (let st1 = recordReconcileFail st; msg = ''invalid spec: '' @ err
      in if st_Phase status = PhaseFailed \<and> st_Message status = msg then (st1, Inr 0)
         else
           let status' = setConditions lb gen ConditionFalse ConditionTrue ReasonInvalidSpec msg
                           (status\<lparr>st_Phase := PhaseFailed, st_Message := msg\<rparr>);
               (st2, res) = patchStatus lb obj status' (emit_event obj ''Warning'' ReasonInvalidSpec msg st1)
           in (st2, case res of Inl e \<Rightarrow> Inl e | Inr obj' \<Rightarrow> Inr 0))"

definition markPaused :: "libs \<Rightarrow> Object \<Rightarrow> ClusterScanStatus \<Rightarrow> int \<Rightarrow> controller \<Rightarrow> controller \<times> (string + int)" where
  "markPaused lb obj status gen st =
     (let st1 = recordReconcileOK (recordPaused st)
      in if st_Phase status = PhasePaused then (st1, Inr 0)
         else
           let msg = ''paused by spec.paused'';
               status' = setConditions lb gen ConditionFalse ConditionFalse ReasonPaused msg
                           (status\<lparr>st_Phase := PhasePaused, st_Message := msg\<rparr>);
               (st2, res) = patchStatus lb obj status' st1
           in (st2, case res of Inl e \<Rightarrow> Inl e | Inr obj' \<Rightarrow> Inr 0))"

text \<open>A resource that is not due: its next scan time is written unless the cache is behind.\<close>

definition waitForDue :: "libs \<Rightarrow> Object \<Rightarrow> ClusterScanStatus \<Rightarrow> int \<Rightarrow> int \<Rightarrow> bool \<Rightarrow> controller \<Rightarrow> controller \<times> (string + int)" where
  "waitForDue lb obj status now due cacheBehind st =
     (let st1 = recordReconcileOK st
      in if \<not> cacheBehind \<and> st_NextScanTime status \<noteq> Some due then
           let status' = status\<lparr>st_NextScanTime := Some due,
                 st_Phase := (if st_Phase status = '''' then PhasePending else st_Phase status)\<rparr>;
               (st2, res) = patchStatus lb obj status' st1
           in (st2, case res of Inl e \<Rightarrow> Inl e | Inr obj' \<Rightarrow> Inr (time_Sub due now))
         else (st1, Inr (time_Sub due now)))"

text \<open>A scan that has been started: what the rest of the reconcile needs.\<close>

record pending =
  pd_obj :: Object
  pd_status :: ClusterScanStatus
  pd_gen :: int
  pd_interval :: int
  pd_spec :: ClusterScanSpec

record ScanOptions =
  so_Contexts :: "string list"
  so_Group :: string
  so_Scanners :: "string list"
  so_Emit :: EmitOptions
  so_ResourceName :: string

record ScanSummary =
  ss_ScanID :: string
  ss_Score :: int
  ss_Grade :: string
  ss_Critical :: int
  ss_Warning :: int
  ss_Clusters :: int

definition scan_options :: "pending \<Rightarrow> ScanOptions" where
  "scan_options p = \<lparr>so_Contexts = sp_Contexts (pd_spec p), so_Group = sp_Group (pd_spec p),
     so_Scanners = sp_Scanners (pd_spec p), so_Emit = sp_Emit (pd_spec p), so_ResourceName = key_of (pd_obj p)\<rparr>"

text \<open>A due resource is marked as running; when that is written the scan is registered and starts.\<close>

definition startScan ::
  "libs \<Rightarrow> Object \<Rightarrow> ClusterScanStatus \<Rightarrow> int \<Rightarrow> ClusterScanSpec \<Rightarrow> int \<Rightarrow> controller \<Rightarrow> controller \<times> ((string + int) + pending)" where
  "startScan lb obj status gen sp interval st =
     (let msg = ''scan triggered by controller'';
          running = status\<lparr>st_Phase := PhaseRunning, st_Message := msg,
            st_Conditions := lb_set lb (st_Conditions status)
              \<lparr>cn_Type = ConditionScanning, cn_Status = ConditionTrue, cn_ObservedGeneration = gen,
               cn_Reason = ReasonScanStarted, cn_Message = msg, cn_LastTransitionTime = ''''\<rparr>\<rparr>;
          (st1, res) = patchStatus lb obj running st
      in case res of
           Inl e \<Rightarrow> (st1, Inl (Inl e))
         | Inr obj' \<Rightarrow>
             let st2 = emit_event obj' ''Normal'' ReasonScanStarted ''Scan started'' st1;
                 st3 = st2\<lparr>ct_inflight := AList.update (key_of obj') False (ct_inflight st2)\<rparr>
             in (recordScanTriggered st3,
                 Inr \<lparr>pd_obj = obj', pd_status = running, pd_gen = gen, pd_interval = interval, pd_spec = sp\<rparr>))"

definition reconcile_begin :: "libs \<Rightarrow> int \<Rightarrow> Object \<Rightarrow> controller \<Rightarrow> controller \<times> ((string + int) + pending)" where
  "reconcile_begin lb now obj st =
     (let st0 = recordReconcile st;
          gen = ob_Generation obj;
          status = (readStatus lb obj)\<lparr>st_ObservedGeneration := gen\<rparr>
      in case specInterval lb obj of
           Inl e \<Rightarrow> apsnd Inl (markInvalid lb obj status gen e st0)
         | Inr (sp, interval) \<Rightarrow>
             if sp_Paused sp then apsnd Inl (markPaused lb obj status gen st0)
             else
               let (due, cacheBehind) = dueTime (key_of obj) gen status interval now st0
               in if now < due then apsnd Inl (waitForDue lb obj status now due cacheBehind st0)
                  else startScan lb obj status gen sp interval st0)"

text \<open>How a scan ended: \<open>ctxErr\<close> is the error of the context the controller runs in, when that has ended.\<close>

datatype scanRun = Aborted "string option" | ScanErr string | Summary ScanSummary

definition runScan_end :: "string option \<Rightarrow> string + ScanSummary \<Rightarrow> string \<Rightarrow> controller \<Rightarrow> controller \<times> scanRun" where
  "runScan_end ctxErr outcome key st =
     (let deleted = (map_of (ct_inflight st) key = Some True);
          st' = st\<lparr>ct_inflight := AList.delete key (ct_inflight st)\<rparr>
      in if deleted then (recordScanResult False st', Aborted None)
         else case ctxErr of
           Some e \<Rightarrow> (recordScanResult False st', Aborted (Some e))
         | None \<Rightarrow> (st', case outcome of Inl e \<Rightarrow> ScanErr e | Inr s \<Rightarrow> Summary s))"

definition recordFailure ::
  "libs \<Rightarrow> Object \<Rightarrow> ClusterScanStatus \<Rightarrow> int \<Rightarrow> int \<Rightarrow> int \<Rightarrow> string \<Rightarrow> controller \<Rightarrow> controller \<times> (string + int)" where
  "recordFailure lb obj status gen interval completedAt scanErr st =
     (let st1 = recordReconcileFail (recordScanResult False st);
          failures = st_ConsecutiveFailures status + 1;
          nxt = completedAt + retryDelay failures interval;
          msg = ''scan failed: '' @ scanErr;
          status' = setConditions lb gen ConditionFalse ConditionTrue ReasonScanFailed msg
            (status\<lparr>st_ConsecutiveFailures := failures, st_Phase := PhaseFailed, st_Message := msg, st_NextScanTime := Some nxt\<rparr>);
          (st2, res) = patchStatus lb obj status'
            (emit_event obj ''Warning'' ReasonScanFailed msg (remember (key_of obj) gen nxt st1))
      in (st2, Inl (''scan: '' @ scanErr @ (case res of Inl e \<Rightarrow> CHR 0x0A # e | Inr obj' \<Rightarrow> ''''))))"

definition summary_message :: "ScanSummary \<Rightarrow> string" where
  "summary_message s =
     ''scan '' @ ss_ScanID s @ '' completed: score '' @ Itoa (ss_Score s) @ '' ('' @ ss_Grade s @ ''), '' @
     Itoa (ss_Critical s) @ '' critical, '' @ Itoa (ss_Warning s) @ '' warning across '' @ Itoa (ss_Clusters s) @ '' clusters''"

definition recordSuccess ::
  "libs \<Rightarrow> Object \<Rightarrow> ClusterScanStatus \<Rightarrow> int \<Rightarrow> int \<Rightarrow> int \<Rightarrow> ScanSummary \<Rightarrow> controller \<Rightarrow> controller \<times> (string + int)" where
  "recordSuccess lb obj status gen interval completedAt summary st =
     (let st1 = recordReconcileOK (recordScanResult True st);
          nxt = completedAt + interval;
          msg = summary_message summary;
          status' = setConditions lb gen ConditionTrue ConditionFalse ReasonScanSucceeded msg
            (status\<lparr>st_Phase := PhaseSucceeded, st_Message := msg, st_LastScanID := ss_ScanID summary,
               st_LastScanTime := Some completedAt, st_NextScanTime := Some nxt, st_ConsecutiveFailures := 0,
               st_ObservedScore := ss_Score summary, st_ObservedGrade := ss_Grade summary,
               st_ObservedCritical := ss_Critical summary, st_ObservedWarning := ss_Warning summary,
               st_ObservedClusters := ss_Clusters summary\<rparr>);
          (st2, res) = patchStatus lb obj status'
            (emit_event obj ''Normal'' ReasonScanSucceeded msg (remember (key_of obj) gen nxt st1))
      in (st2, case res of Inl e \<Rightarrow> Inl e | Inr obj' \<Rightarrow> Inr interval))"

text \<open>The rest of a reconcile; \<open>Inr 0\<close> is Go's \<open>0, nil\<close>.\<close>

definition reconcile_end :: "libs \<Rightarrow> int \<Rightarrow> string option \<Rightarrow> string + ScanSummary \<Rightarrow> pending \<Rightarrow> controller \<Rightarrow> controller \<times> (string + int)" where
  "reconcile_end lb completedAt ctxErr outcome p st =
     (let (st1, run) = runScan_end ctxErr outcome (key_of (pd_obj p)) st
      in case run of
           Aborted None \<Rightarrow> (st1, Inr 0)
         | Aborted (Some e) \<Rightarrow> (st1, Inl e)
         | ScanErr e \<Rightarrow> recordFailure lb (pd_obj p) (pd_status p) (pd_gen p) (pd_interval p) completedAt e st1
         | Summary s \<Rightarrow> recordSuccess lb (pd_obj p) (pd_status p) (pd_gen p) (pd_interval p) completedAt s st1)"

text \<open>What \<open>processNext\<close> does to the queue with the result of a reconcile.\<close>

datatype queue_op = Forget string | AddRateLimited string | AddAfter string int

definition processNext_end :: "bool \<Rightarrow> string \<Rightarrow> string + int \<Rightarrow> queue_op list" where
  "processNext_end ctxAlive key result =
     (case result of
        Inl e \<Rightarrow> if ctxAlive then [AddRateLimited key] else []
      | Inr delay \<Rightarrow> Forget key # (if 0 < delay then [AddAfter key delay] else []))"

text \<open>\<open>processNext\<close> up to the scan: the object is looked up in the informer's cache.\<close>

definition processNext_begin ::
  "libs \<Rightarrow> int \<Rightarrow> bool \<Rightarrow> string \<Rightarrow> Object option \<Rightarrow> controller \<Rightarrow> controller \<times> (queue_op list + pending)" where
  "processNext_begin lb now ctxAlive key cached st =
     (case cached of
        None \<Rightarrow> (st, Inl [Forget key])
      | Some obj \<Rightarrow>
          let (st', res) = reconcile_begin lb now obj st
          in (st', case res of Inl r \<Rightarrow> Inl (processNext_end ctxAlive key r) | Inr p \<Rightarrow> Inr p))"

section \<open>Metrics\<close>

definition metric_lines :: "metrics \<Rightarrow> string list" where
  "metric_lines m =
     [''# HELP fleetsweeper_controller_reconcile_total Total reconcile passes the ClusterScan controller has performed.'',
      ''# TYPE fleetsweeper_controller_reconcile_total counter'',
      ''fleetsweeper_controller_reconcile_total '' @ Itoa (mt_reconcileTotal m),
      ''# HELP fleetsweeper_controller_reconcile_outcome_total Reconcile passes broken out by outcome.'',
      ''# TYPE fleetsweeper_controller_reconcile_outcome_total counter'',
      ''fleetsweeper_controller_reconcile_outcome_total{outcome='' @ quote ''success'' @ ''} '' @ Itoa (mt_reconcileOK m),
      ''fleetsweeper_controller_reconcile_outcome_total{outcome='' @ quote ''failure'' @ ''} '' @ Itoa (mt_reconcileFail m),
      ''# HELP fleetsweeper_controller_scans_total Scans the controller has triggered.'',
      ''# TYPE fleetsweeper_controller_scans_total counter'',
      ''fleetsweeper_controller_scans_total{result='' @ quote ''triggered'' @ ''} '' @ Itoa (mt_scansTriggered m),
      ''fleetsweeper_controller_scans_total{result='' @ quote ''success'' @ ''} '' @ Itoa (mt_scansSucceeded m),
      ''fleetsweeper_controller_scans_total{result='' @ quote ''failure'' @ ''} '' @ Itoa (mt_scansFailed m),
      ''# HELP fleetsweeper_controller_paused_resources Reconcile passes that found spec.paused=true.'',
      ''# TYPE fleetsweeper_controller_paused_resources counter'',
      ''fleetsweeper_controller_paused_resources '' @ Itoa (mt_pausedSeen m)]"

definition WriteMetrics :: "controller \<Rightarrow> string" where
  "WriteMetrics st = concat (map (\<lambda>line. line @ [CHR 0x0A]) (metric_lines (ct_metrics st)))"

section \<open>Runs of the controller\<close>

text \<open>The queue hands a key to one worker at a time, so a key with a running scan is not reconciled. Steps of
  different keys interleave. The object a reconcile reads from the cache is arbitrary.\<close>

record world =
  w_now :: int
  w_ctl :: controller
  w_running :: "string \<Rightarrow> pending option"

datatype ctl_event =
    Started string int int
  | Finished string int int int int
  | Stopped string
  | Skipped string
  | Deleted string

text \<open>The delay a finished scan is followed by.\<close>

definition scan_delay :: "string + ScanSummary \<Rightarrow> pending \<Rightarrow> int" where
  "scan_delay outcome p =
     (case outcome of Inl e \<Rightarrow> retryDelay (st_ConsecutiveFailures (pd_status p) + 1) (pd_interval p) | Inr s \<Rightarrow> pd_interval p)"

inductive ctl_step :: "libs \<Rightarrow> world \<Rightarrow> ctl_event \<Rightarrow> world \<Rightarrow> bool" for lb :: libs where
  skip: "w_now w \<le> now \<Longrightarrow> w_running w (key_of obj) = None \<Longrightarrow> reconcile_begin lb now obj (w_ctl w) = (st, Inl r) \<Longrightarrow>
    ctl_step lb w (Skipped (key_of obj)) (w\<lparr>w_now := now, w_ctl := st\<rparr>)"
| start: "w_now w \<le> now \<Longrightarrow> w_running w (key_of obj) = None \<Longrightarrow> reconcile_begin lb now obj (w_ctl w) = (st, Inr p) \<Longrightarrow>
    ctl_step lb w (Started (key_of obj) (ob_Generation obj) now)
      (w\<lparr>w_now := now, w_ctl := st, w_running := (w_running w)(key_of obj \<mapsto> p)\<rparr>)"
| finish: "w_now w \<le> now \<Longrightarrow> w_running w key = Some p \<Longrightarrow> reconcile_end lb now None outcome p (w_ctl w) = (st, r) \<Longrightarrow>
    map_of (ct_inflight (w_ctl w)) key \<noteq> Some True \<Longrightarrow>
    ctl_step lb w (Finished key (pd_gen p) now (pd_interval p) (scan_delay outcome p))
      (w\<lparr>w_now := now, w_ctl := st, w_running := (w_running w)(key := None)\<rparr>)"
| stop: "w_now w \<le> now \<Longrightarrow> w_running w key = Some p \<Longrightarrow> reconcile_end lb now ctxErr outcome p (w_ctl w) = (st, r) \<Longrightarrow>
    map_of (ct_inflight (w_ctl w)) key = Some True \<or> ctxErr \<noteq> None \<Longrightarrow>
    ctl_step lb w (Stopped key) (w\<lparr>w_now := now, w_ctl := st, w_running := (w_running w)(key := None)\<rparr>)"
| delete: "ctl_step lb w (Deleted key) (w\<lparr>w_ctl := forget key (w_ctl w)\<rparr>)"

section \<open>Retry delays\<close>

lemma twice_exact: "0 \<le> d \<Longrightarrow> d < 2 ^ 62 \<Longrightarrow> twice d = 2 * d"
  unfolding twice_def sint_sbintrunc' by (rule signed_take_bit_int_eq_self) auto

lemma retry_loop_min:
  "0 < d \<Longrightarrow> interval \<le> 2 ^ 62 \<Longrightarrow> min (retry_loop k interval d) interval = min (d * 2 ^ k) interval"
proof (induction k arbitrary: d)
  case (Suc k)
  show ?case
  proof (cases "d < interval")
    case True
    then have "twice d = 2 * d" using Suc.prems by (intro twice_exact) auto
    with True Suc.IH [of "2 * d"] Suc.prems show ?thesis by (simp add: mult_ac)
  next
    case False
    have "(1::int) \<le> 2 ^ Suc k" by (rule one_le_power) simp
    then have "d * 1 \<le> d * 2 ^ Suc k" using Suc.prems by (intro mult_left_mono) auto
    with False show ?thesis by simp
  qed
qed simp

lemma retryDelay_min:
  "interval \<le> 2 ^ 62 \<Longrightarrow> retryDelay failures interval = min (minute * 2 ^ nat (failures - 1)) interval"
  by (simp add: retryDelay_def failureRetryBase_def minute_def retry_loop_min)

lemma retryDelay_at_least: "interval \<le> 2 ^ 62 \<Longrightarrow> min minute interval \<le> retryDelay failures interval"
proof -
  have "minute * 1 \<le> minute * 2 ^ nat (failures - 1)" by (intro mult_left_mono) (auto simp: minute_def)
  then show "interval \<le> 2 ^ 62 \<Longrightarrow> ?thesis" by (simp add: retryDelay_min)
qed

text \<open>C24. After the n-th consecutive failure a scan is retried after a minute doubled n - 1 times, but never
  later than its interval, for every interval up to 146 years and every number of failures.\<close>

theorem retryDelay_spec:
  assumes "1 \<le> failures" "0 < interval" "interval \<le> 2 ^ 62"
  shows "retryDelay failures interval = min (minute * 2 ^ nat (failures - 1)) interval \<and>
    0 < retryDelay failures interval \<and> retryDelay failures interval \<le> retryDelay (failures + 1) interval"
proof -
  have "minute * 2 ^ nat (failures - 1) \<le> minute * 2 ^ nat (failures + 1 - 1)"
    by (intro mult_left_mono power_increasing) (auto simp: minute_def)
  moreover have "0 < min minute interval" using assms by (simp add: minute_def)
  ultimately show ?thesis
    using retryDelay_at_least [of interval failures] assms by (auto simp: retryDelay_min min_def)
qed

theorem retryDelay_spec_witness:
  "retryDelay 3 (15 * minute) = 4 * minute \<and> retryDelay 9 (15 * minute) = 15 * minute"
  using retryDelay_spec [of 3 "15 * minute"] retryDelay_spec [of 9 "15 * minute"] by (simp add: minute_def)

text \<open>Beyond 255 years the doubling overflows and the delay is gone.\<close>

lemma retryDelay_overflow: "retryDelay 60 (2 ^ 63 - 1) = 0"
  by (simp add: retryDelay_def failureRetryBase_def minute_def twice_def numeral_eq_Suc sint_sbintrunc')

section \<open>What a reconcile does to the schedules\<close>

lemmas counters = recordReconcile_def recordReconcileOK_def recordReconcileFail_def recordScanTriggered_def
  recordScanResult_def recordPaused_def emit_event_def

lemma counters_next [simp]:
  "ct_next (recordReconcile st) = ct_next st" "ct_next (recordReconcileOK st) = ct_next st"
  "ct_next (recordReconcileFail st) = ct_next st" "ct_next (recordScanTriggered st) = ct_next st"
  "ct_next (recordScanResult b st) = ct_next st" "ct_next (recordPaused st) = ct_next st"
  "ct_next (emit_event obj ty reason msg st) = ct_next st"
  by (simp_all add: counters)

lemma dueTime_counters [simp]: "dueTime k g s i now (recordReconcile st) = dueTime k g s i now st"
  by (simp add: dueTime_def)

lemma patchStatus_facts:
  "patchStatus lb obj status st = (st', res) \<Longrightarrow>
   ct_next st' = ct_next st \<and> ct_inflight st' = ct_inflight st \<and> ct_metrics st' = ct_metrics st \<and>
   ct_events st' = ct_events st \<and>
   (\<forall>obj'. res = Inr obj' \<longrightarrow> key_of obj' = key_of obj \<and> ob_Generation obj' = ob_Generation obj)"
  by (auto simp: patchStatus_def Let_def key_of_def split: reply.splits)

lemma markInvalid_next [simp]: "ct_next (fst (markInvalid lb obj status gen e st)) = ct_next st"
  by (auto simp: markInvalid_def Let_def split: prod.split dest: patchStatus_facts)

lemma markPaused_next [simp]: "ct_next (fst (markPaused lb obj status gen st)) = ct_next st"
  by (auto simp: markPaused_def Let_def split: prod.split dest: patchStatus_facts)

lemma waitForDue_next [simp]: "ct_next (fst (waitForDue lb obj status now due b st)) = ct_next st"
  by (auto simp: waitForDue_def Let_def split: prod.split dest: patchStatus_facts)

lemma startScan_next: "startScan lb obj status gen sp interval st = (st', r) \<Longrightarrow> ct_next st' = ct_next st"
  by (auto simp: startScan_def Let_def split: prod.splits sum.splits dest!: patchStatus_facts)

lemma startScan_pending:
  "startScan lb obj status gen sp interval st = (st', Inr p) \<Longrightarrow>
   key_of (pd_obj p) = key_of obj \<and> pd_gen p = gen \<and> pd_interval p = interval \<and> pd_spec p = sp"
  by (auto simp: startScan_def Let_def split: prod.splits sum.splits dest!: patchStatus_facts)

lemma dueTime_remembered:
  "dueTime key gen status interval now st = (due, behind) \<Longrightarrow> map_of (ct_next st) key = Some mem \<Longrightarrow>
   sc_generation mem = gen \<Longrightarrow> sc_at mem \<le> due"
  by (auto simp: dueTime_def Let_def split: if_splits)

lemma specInterval_positive: "specInterval lb obj = Inr (sp, interval) \<Longrightarrow>
   0 < interval \<and> readSpec lb obj = Inr sp \<and> lb_duration lb (sp_Interval sp) = Inr interval"
  by (auto simp: specInterval_def Let_def split: sum.splits if_splits)

lemma apsnd_Inl_Inr [simp]: "apsnd Inl x \<noteq> (st, Inr p)"
  by (cases x) auto

lemma reconcile_begin_next: "reconcile_begin lb now obj st = (st', r) \<Longrightarrow> ct_next st' = ct_next st"
proof -
  have f: "apsnd Inl x = (st', r) \<Longrightarrow> ct_next st' = ct_next (fst x)" for x :: "controller \<times> (string + int)"
    by (cases x) auto
  show "reconcile_begin lb now obj st = (st', r) \<Longrightarrow> ?thesis"
    by (auto simp: reconcile_begin_def Let_def split: sum.splits prod.splits if_splits dest!: f startScan_next)
qed

text \<open>A scan starts only from a valid resource that is not paused and is due, by the controller's memory too.\<close>

lemma reconcile_begin_starts:
  assumes "reconcile_begin lb now obj st = (st', Inr p)"
  shows "\<exists>sp interval due behind. specInterval lb obj = Inr (sp, interval) \<and> \<not> sp_Paused sp \<and>
    dueTime (key_of obj) (ob_Generation obj) ((readStatus lb obj)\<lparr>st_ObservedGeneration := ob_Generation obj\<rparr>) interval now st = (due, behind) \<and>
    due \<le> now \<and> key_of (pd_obj p) = key_of obj \<and> pd_gen p = ob_Generation obj \<and> pd_interval p = interval \<and> pd_spec p = sp"
  using assms
  by (auto simp: reconcile_begin_def Let_def split: sum.splits prod.splits if_splits dest!: startScan_pending)

lemma runScan_end_next: "runScan_end ctxErr outcome key st = (st', run) \<Longrightarrow> ct_next st' = ct_next st"
  by (auto simp: runScan_end_def Let_def split: if_splits option.splits)

lemma recordFailure_next:
  "recordFailure lb obj status gen interval t e st = (st', r) \<Longrightarrow>
   ct_next st' = AList.update (key_of obj)
     \<lparr>sc_generation = gen, sc_at = t + retryDelay (st_ConsecutiveFailures status + 1) interval\<rparr> (ct_next st)"
  by (auto simp: recordFailure_def remember_def Let_def split: prod.splits dest!: patchStatus_facts)

lemma recordSuccess_next:
  "recordSuccess lb obj status gen interval t s st = (st', r) \<Longrightarrow>
   ct_next st' = AList.update (key_of obj) \<lparr>sc_generation = gen, sc_at = t + interval\<rparr> (ct_next st)"
  by (auto simp: recordSuccess_def remember_def Let_def split: prod.splits dest!: patchStatus_facts)

lemma reconcile_end_recorded:
  assumes "reconcile_end lb t None outcome p st = (st', r)" "map_of (ct_inflight st) (key_of (pd_obj p)) \<noteq> Some True"
  shows "ct_next st' = AList.update (key_of (pd_obj p)) \<lparr>sc_generation = pd_gen p, sc_at = t + scan_delay outcome p\<rparr> (ct_next st)"
  using assms
  by (auto simp: reconcile_end_def scan_delay_def runScan_end_def Let_def split: sum.splits
      dest!: recordFailure_next recordSuccess_next)

lemma reconcile_end_aborted:
  assumes "reconcile_end lb t ctxErr outcome p st = (st', r)"
    and "map_of (ct_inflight st) (key_of (pd_obj p)) = Some True \<or> ctxErr \<noteq> None"
  shows "ct_next st' = ct_next st"
  using assms by (auto simp: reconcile_end_def runScan_end_def Let_def split: if_splits option.splits)

lemma forget_next [simp]: "map_of (ct_next (forget key st)) = (map_of (ct_next st))(key := None)"
  by (simp add: forget_def)

section \<open>Scans of one generation are spaced\<close>

text \<open>What the controller remembers of a key, by the events of a run.\<close>

fun recall :: "string \<Rightarrow> ctl_event \<Rightarrow> (int \<times> int) option \<Rightarrow> (int \<times> int) option" where
  "recall k (Finished k' g t i d) mem = (if k' = k then Some (g, t + d) else mem)"
| "recall k (Deleted k') mem = (if k' = k then None else mem)"
| "recall k e mem = mem"

definition memory :: "string \<Rightarrow> ctl_event list \<Rightarrow> (int \<times> int) option" where
  "memory k es = fold (recall k) es None"

lemma memory_simps [simp]: "memory k [] = None" "memory k (es @ [e]) = recall k e (memory k es)"
  by (simp_all add: memory_def)

definition durations_ok :: "libs \<Rightarrow> bool" where
  "durations_ok lb \<longleftrightarrow> (\<forall>s d. lb_duration lb s = Inr d \<longrightarrow> d \<le> 2 ^ 62)"

definition pending_ok :: "libs \<Rightarrow> string \<Rightarrow> pending \<Rightarrow> bool" where
  "pending_ok lb k p \<longleftrightarrow> key_of (pd_obj p) = k \<and> 0 < pd_interval p \<and> (durations_ok lb \<longrightarrow> pd_interval p \<le> 2 ^ 62)"

definition remembered :: "controller \<Rightarrow> string \<Rightarrow> (int \<times> int) option" where
  "remembered st k = map_option (\<lambda>m. (sc_generation m, sc_at m)) (map_of (ct_next st) k)"

definition ctl_inv :: "libs \<Rightarrow> ctl_event list \<Rightarrow> world \<Rightarrow> bool" where
  "ctl_inv lb es w \<longleftrightarrow> (\<forall>k. remembered (w_ctl w) k = memory k es) \<and> (\<forall>k p. w_running w k = Some p \<longrightarrow> pending_ok lb k p)"

lemma remembered_update:
  "ct_next st' = AList.update k \<lparr>sc_generation = g, sc_at = t\<rparr> (ct_next st) \<Longrightarrow>
   remembered st' x = (if x = k then Some (g, t) else remembered st x)"
  by (simp add: remembered_def)

lemma remembered_same: "ct_next st' = ct_next st \<Longrightarrow> remembered st' = remembered st"
  by (simp add: remembered_def fun_eq_iff)

lemma remembered_forget [simp]: "remembered (forget key st) x = (if x = key then None else remembered st x)"
  by (simp add: remembered_def)

lemma pending_ok_started: "reconcile_begin lb now obj st = (st', Inr p) \<Longrightarrow> pending_ok lb (key_of obj) p"
  by (auto simp: pending_ok_def durations_ok_def dest!: reconcile_begin_starts dest: specInterval_positive)

lemma ctl_inv_step: "ctl_step lb w e w' \<Longrightarrow> ctl_inv lb es w \<Longrightarrow> ctl_inv lb (es @ [e]) w'"
proof (induction rule: ctl_step.induct)
  case (skip w now obj st r)
  then show ?case using remembered_same [OF reconcile_begin_next [OF skip(3)]] by (simp add: ctl_inv_def)
next
  case (start w now obj st p)
  then show ?case
    using remembered_same [OF reconcile_begin_next [OF start(3)]] pending_ok_started [OF start(3)]
    by (simp add: ctl_inv_def)
next
  case (finish w now key p outcome st r)
  then have "key_of (pd_obj p) = key" by (simp add: ctl_inv_def pending_ok_def)
  with finish remembered_update [OF reconcile_end_recorded [OF finish(3)]] show ?case by (simp add: ctl_inv_def)
next
  case (stop w now key p ctxErr outcome st r)
  then have "key_of (pd_obj p) = key" by (simp add: ctl_inv_def pending_ok_def)
  with stop remembered_same [OF reconcile_end_aborted [OF stop(3)]] show ?case by (simp add: ctl_inv_def)
next
  case (delete w key)
  then show ?case by (simp add: ctl_inv_def)
qed

interpretation ctl: history_invariant "ctl_step lb" "ctl_inv lb" for lb
  by unfold_locales (rule ctl_inv_step)

definition idle_world :: world where
  "idle_world = \<lparr>w_now = 0, w_ctl = new_controller, w_running = Map.empty\<rparr>"

lemma ctl_inv_idle: "ctl_inv lb [] idle_world"
  by (simp add: ctl_inv_def idle_world_def new_controller_def remembered_def)

lemma runs_snocD: "runs step s0 (es @ [e]) t \<Longrightarrow> \<exists>s. runs step s0 es s \<and> step s e t"
  by (auto elim: runs.cases)

lemma runs_appendD: "runs step s0 (es @ fs) t \<Longrightarrow> \<exists>s. runs step s0 es s"
proof (induction fs arbitrary: t rule: rev_induct)
  case (snoc f fs)
  then show ?case using runs_snocD [of step s0 "es @ fs" f t] by auto
qed auto

inductive_cases startedE: "ctl_step lb w (Started k g u) w'"
inductive_cases finishedE: "ctl_step lb w (Finished k g t i d) w'"

lemma started_after_memory:
  assumes "ctl_step lb w (Started k g u) w'" "remembered (w_ctl w) k = Some (g, t)"
  shows "t \<le> u"
  using assms(1)
proof (rule startedE)
  fix obj st p
  assume k: "k = key_of obj" "g = ob_Generation obj" and b: "reconcile_begin lb u obj (w_ctl w) = (st, Inr p)"
  from reconcile_begin_starts [OF b] assms(2) show ?thesis
    by (auto simp: remembered_def k dest!: dueTime_remembered)
qed

lemma finished_delay:
  assumes "ctl_step lb w (Finished k g t i d) w'" "ctl_inv lb es w" "durations_ok lb"
  shows "0 < i \<and> min minute i \<le> d \<and> d \<le> i"
  using assms(1)
proof (rule finishedE)
  fix p st r outcome
  assume run: "w_running w k = Some p" and i: "i = pd_interval p" and d: "d = scan_delay outcome p"
  have "0 < i" "i \<le> 2 ^ 62" using assms run by (auto simp: ctl_inv_def pending_ok_def i)
  then show ?thesis
    using retryDelay_at_least [of i "st_ConsecutiveFailures (pd_status p) + 1"] retryDelay_min [of i]
    by (auto simp: d scan_delay_def i [symmetric] split: sum.splits)
qed

definition ends_key :: "string \<Rightarrow> ctl_event \<Rightarrow> bool" where
  "ends_key k e \<longleftrightarrow> (case e of Finished k' g t i d \<Rightarrow> k' = k | Deleted k' \<Rightarrow> k' = k | _ \<Rightarrow> False)"

lemma memory_kept: "list_all (\<lambda>e. \<not> ends_key k e) es \<Longrightarrow> fold (recall k) es mem = mem"
proof (induction es arbitrary: mem)
  case (Cons e es)
  then have "recall k e mem = mem" by (cases e) (auto simp: ends_key_def)
  with Cons show ?case by simp
qed simp


section \<open>The status survives being written and read back\<close>

definition second :: int where "second = 1000000000"

definition seconds :: "int option \<Rightarrow> int option" where
  "seconds t = map_option (\<lambda>x. x div second * second) t"

definition whole_seconds :: "ClusterScanStatus \<Rightarrow> ClusterScanStatus" where
  "whole_seconds s = s\<lparr>st_LastScanTime := seconds (st_LastScanTime s), st_NextScanTime := seconds (st_NextScanTime s)\<rparr>"

text \<open>A JSON merge patch: null removes a member, a member that the patch does not name stays, and a value that
  is not an object replaces.\<close>

definition merge_law :: "(jobject \<Rightarrow> jobject \<Rightarrow> jobject) \<Rightarrow> bool" where
  "merge_law merge \<longleftrightarrow> (\<forall>old patch k.
     (map_of patch k = None \<longrightarrow> map_of (merge old patch) k = map_of old k) \<and>
     (map_of patch k = Some JNull \<longrightarrow> map_of (merge old patch) k = None) \<and>
     (\<forall>v. map_of patch k = Some v \<and> v \<noteq> JNull \<and> (\<forall>m. v \<noteq> JObj m) \<longrightarrow> map_of (merge old patch) k = Some v))"

definition time_law :: "libs \<Rightarrow> bool" where
  "time_law lb \<longleftrightarrow> (\<forall>t. lb_parse_time lb (lb_time lb t) = Some (t div second * second))"

definition conditions_law :: "libs \<Rightarrow> bool" where
  "conditions_law lb \<longleftrightarrow> (\<forall>cs. lb_parse_conditions lb (lb_conditions lb cs) = Some cs \<and> (\<exists>xs. lb_conditions lb cs = JArr xs))"

definition counts_exact :: "ClusterScanStatus \<Rightarrow> bool" where
  "counts_exact s \<longleftrightarrow> list_all (\<lambda>n. \<bar>n\<bar> < 2 ^ 53)
     [st_ObservedScore s, st_ObservedCritical s, st_ObservedWarning s, st_ObservedClusters s, st_ObservedGeneration s,
      st_ConsecutiveFailures s]"

lemma merge_null: "merge_law merge \<Longrightarrow> map_of patch k = Some JNull \<Longrightarrow> map_of (merge old patch) k = None"
  by (simp add: merge_law_def)

lemma merge_value: "merge_law merge \<Longrightarrow> map_of patch k = Some v \<Longrightarrow> v \<noteq> JNull \<Longrightarrow> (\<And>m. v \<noteq> JObj m) \<Longrightarrow>
  map_of (merge old patch) k = Some v"
  by (simp add: merge_law_def)

lemma merged_str:
  assumes "merge_law merge" "map_of patch k = Some (nullIfEmpty s)"
  shows "str_field k (merge old patch) = Some s"
proof (cases "s = ''''")
  case True
  then show ?thesis using merge_null [OF assms(1), of patch k old] assms(2) by (simp add: str_field_def nullIfEmpty_def)
next
  case False
  then show ?thesis using merge_value [OF assms(1), of patch k "JStr s" old] assms(2)
    by (simp add: str_field_def nullIfEmpty_def)
qed

lemma merged_int:
  assumes "merge_law merge" "map_of patch k = Some (JNum (of_int64 n))" "\<bar>n\<bar> < 2 ^ 53"
  shows "int_field k (merge old patch) = Some n"
proof -
  have "of_int64 n = of_int n" unfolding of_int64_def using assms(3) by (intro f64_of_int) simp
  then show ?thesis using merge_value [OF assms(1), of patch k "JNum (of_int n)" old] assms(2) by (simp add: int_field_def)
qed

lemma merged_time:
  assumes "merge_law merge" "time_law lb" "map_of patch k = Some (rfc3339OrNull lb t)"
  shows "time_field lb k (merge old patch) = Some (seconds t)"
proof (cases t)
  case None
  then show ?thesis using merge_null [OF assms(1), of patch k old] assms(3)
    by (simp add: time_field_def rfc3339OrNull_def seconds_def)
next
  case (Some x)
  then show ?thesis using merge_value [OF assms(1), of patch k "JStr (lb_time lb x)" old] assms(2,3)
    by (simp add: time_field_def rfc3339OrNull_def seconds_def time_law_def)
qed

lemma merged_conditions:
  assumes "merge_law merge" "conditions_law lb" "map_of patch ''conditions'' = Some (lb_conditions lb cs)"
  shows "conditions_field lb (merge old patch) = Some cs"
proof -
  obtain xs where xs: "lb_conditions lb cs = JArr xs" "lb_parse_conditions lb (JArr xs) = Some cs"
    using assms(2) unfolding conditions_law_def by metis
  then show ?thesis using merge_value [OF assms(1), of patch "''conditions''" "JArr xs" old] assms(3)
    by (simp add: conditions_field_def)
qed

text \<open>C22. The status the controller writes is the status it reads back, whatever the server held before: every
  field is replaced, cleared ones included, and times keep their whole seconds.\<close>

theorem status_roundtrip:
  assumes "merge_law merge" "time_law lb" "conditions_law lb" "counts_exact s"
  shows "readStatus lb (obj\<lparr>ob_status := Section (merge old (statusToMap lb s))\<rparr>) = whole_seconds s"
proof -
  let ?m = "merge old (statusToMap lb s)"
  have strs: "str_field ''phase'' ?m = Some (st_Phase s)" "str_field ''lastScanID'' ?m = Some (st_LastScanID s)"
    "str_field ''observedGrade'' ?m = Some (st_ObservedGrade s)" "str_field ''message'' ?m = Some (st_Message s)"
    by (rule merged_str [OF assms(1)], simp add: statusToMap_def)+
  have times: "time_field lb ''lastScanTime'' ?m = Some (seconds (st_LastScanTime s))"
    "time_field lb ''nextScanTime'' ?m = Some (seconds (st_NextScanTime s))"
    by (rule merged_time [OF assms(1,2)], simp add: statusToMap_def)+
  have ints: "int_field ''observedScore'' ?m = Some (st_ObservedScore s)"
    "int_field ''observedCritical'' ?m = Some (st_ObservedCritical s)"
    "int_field ''observedWarning'' ?m = Some (st_ObservedWarning s)"
    "int_field ''observedClusters'' ?m = Some (st_ObservedClusters s)"
    "int_field ''observedGeneration'' ?m = Some (st_ObservedGeneration s)"
    "int_field ''consecutiveFailures'' ?m = Some (st_ConsecutiveFailures s)"
    by (rule merged_int [OF assms(1)], simp add: statusToMap_def, use assms(4) in \<open>simp add: counts_exact_def\<close>)+
  have conds: "conditions_field lb ?m = Some (st_Conditions s)"
    by (rule merged_conditions [OF assms(1,3)]) (simp add: statusToMap_def)
  show ?thesis by (simp add: readStatus_def decode_status_def strs times ints conds whole_seconds_def)
qed

section \<open>A reconciled resource is due again\<close>

lemma processNext_end_simps [simp]:
  "processNext_end True key (Inl e) = [AddRateLimited key]"
  "0 < d \<Longrightarrow> processNext_end True key (Inr d) = [Forget key, AddAfter key d]"
  by (simp_all add: processNext_end_def)

lemma waitForDue_result:
  "waitForDue lb obj status now due behind st = (st', r) \<Longrightarrow> r = Inr (time_Sub due now) \<or> (\<exists>e. r = Inl e)"
  by (auto simp: waitForDue_def Let_def split: if_splits prod.splits sum.splits)

lemma startScan_result: "startScan lb obj status gen sp interval st = (st', Inl r) \<Longrightarrow> \<exists>e. r = Inl e"
  by (auto simp: startScan_def Let_def split: prod.splits sum.splits)

lemma recordFailure_result: "recordFailure lb obj status gen interval t e st = (st', r) \<Longrightarrow> \<exists>x. r = Inl x"
  by (auto simp: recordFailure_def Let_def split: prod.splits)

lemma recordSuccess_result:
  "recordSuccess lb obj status gen interval t s st = (st', r) \<Longrightarrow> r = Inr interval \<or> (\<exists>x. r = Inl x)"
  by (auto simp: recordSuccess_def Let_def split: prod.splits sum.splits)

definition due_at :: "libs \<Rightarrow> int \<Rightarrow> Object \<Rightarrow> int \<Rightarrow> controller \<Rightarrow> int" where
  "due_at lb now obj interval st =
     fst (dueTime (key_of obj) (ob_Generation obj) ((readStatus lb obj)\<lparr>st_ObservedGeneration := ob_Generation obj\<rparr>) interval now st)"

text \<open>C23. A live resource is never lost from the queue: unless its scan starts, a reconcile of a valid resource
  that is not paused either backs its key off or requeues it for the moment its scan is due, and the end of a
  scan that was not cancelled by a deletion backs it off or requeues it after its interval.\<close>

theorem reconcile_reschedules:
  assumes valid: "specInterval lb obj = Inr (sp, interval)" "\<not> sp_Paused sp"
    and range: "due_at lb now obj interval st - now < 2 ^ 63"
    and begun: "processNext_begin lb now True key (Some obj) st = (st1, r)"
  shows "case r of
      Inl ops \<Rightarrow> ops = [AddRateLimited key] \<or>
        now < due_at lb now obj interval st \<and> ops = [Forget key, AddAfter key (due_at lb now obj interval st - now)]
    | Inr p \<Rightarrow> due_at lb now obj interval st \<le> now \<and>
        (\<forall>t outcome st2 st3 res. map_of (ct_inflight st2) (key_of obj) \<noteq> Some True \<longrightarrow>
           reconcile_end lb t None outcome p st2 = (st3, res) \<longrightarrow>
           processNext_end True key res \<in> {[AddRateLimited key], [Forget key, AddAfter key interval]})"
proof -
  let ?status = "(readStatus lb obj)\<lparr>st_ObservedGeneration := ob_Generation obj\<rparr>"
  obtain due behind where due: "dueTime (key_of obj) (ob_Generation obj) ?status interval now st = (due, behind)" by fastforce
  have at: "due_at lb now obj interval st = due" by (simp add: due_at_def due)
  have pos: "0 < interval" using specInterval_positive [OF valid(1)] by simp
  obtain st' res where rb: "reconcile_begin lb now obj st = (st', res)" by fastforce
  have r: "r = (case res of Inl x \<Rightarrow> Inl (processNext_end True key x) | Inr p \<Rightarrow> Inr p)"
    using begun by (simp add: processNext_begin_def rb)
  show ?thesis
  proof (cases "now < due")
    case True
    then have "apsnd Inl (waitForDue lb obj ?status now due behind (recordReconcile st)) = (st', res)"
      using rb valid due by (simp add: reconcile_begin_def Let_def)
    then obtain x where res: "res = Inl x" and w: "waitForDue lb obj ?status now due behind (recordReconcile st) = (st', x)"
      by (cases "waitForDue lb obj ?status now due behind (recordReconcile st)") auto
    have "time_Sub due now = due - now" using range True by (simp add: at time_Sub_def)
    then show ?thesis using waitForDue_result [OF w] True by (auto simp: r res at)
  next
    case False
    then have s: "startScan lb obj ?status (ob_Generation obj) sp interval (recordReconcile st) = (st', res)"
      using rb valid due by (simp add: reconcile_begin_def Let_def)
    show ?thesis
    proof (cases res)
      case (Inl x)
      with s have "startScan lb obj ?status (ob_Generation obj) sp interval (recordReconcile st) = (st', Inl x)" by simp
      from startScan_result [OF this] Inl show ?thesis by (auto simp: r)
    next
      case (Inr p)
      have p: "key_of (pd_obj p) = key_of obj" "pd_interval p = interval" using startScan_pending s Inr by blast+
      have "processNext_end True key res' \<in> {[AddRateLimited key], [Forget key, AddAfter key interval]}"
        if "map_of (ct_inflight st2) (key_of obj) \<noteq> Some True" "reconcile_end lb t None outcome p st2 = (st3, res')"
        for t outcome st2 st3 res'
        using that pos
        by (auto simp: reconcile_end_def runScan_end_def Let_def p split: sum.splits
            dest!: recordFailure_result recordSuccess_result)
      with False show ?thesis by (simp add: r Inr at)
    qed
  qed
qed

section \<open>Phases and conditions\<close>

definition cond_value :: "Condition list \<Rightarrow> string \<Rightarrow> string option" where
  "cond_value cs ty = map_option cn_Status (find (\<lambda>c. cn_Type c = ty) cs)"

text \<open>Setting a condition replaces the one of its type, or adds it, and leaves the others.\<close>

definition set_law :: "libs \<Rightarrow> bool" where
  "set_law lb \<longleftrightarrow> (\<forall>cs c ty. cond_value (lb_set lb cs c) ty = (if ty = cn_Type c then Some (cn_Status c) else cond_value cs ty))"

definition status_ok :: "ClusterScanStatus \<Rightarrow> bool" where
  "status_ok s \<longleftrightarrow>
     (cond_value (st_Conditions s) ConditionScanning = Some ConditionTrue \<longleftrightarrow> st_Phase s = PhaseRunning) \<and>
     \<not> (cond_value (st_Conditions s) ConditionReady = Some ConditionTrue \<and>
         cond_value (st_Conditions s) ConditionFailed = Some ConditionTrue)"

lemmas condition_names = ConditionReady_def ConditionScanning_def ConditionFailed_def ConditionTrue_def ConditionFalse_def
lemmas phase_names = PhasePending_def PhaseRunning_def PhaseSucceeded_def PhaseFailed_def PhasePaused_def

lemma setConditions_values:
  assumes "set_law lb"
  shows "cond_value (st_Conditions (setConditions lb gen ready failed reason msg s)) ConditionReady = Some ready"
    "cond_value (st_Conditions (setConditions lb gen ready failed reason msg s)) ConditionFailed = Some failed"
    "cond_value (st_Conditions (setConditions lb gen ready failed reason msg s)) ConditionScanning = Some ConditionFalse"
    "st_Phase (setConditions lb gen ready failed reason msg s) = st_Phase s"
  using assms by (simp_all add: setConditions_def set_law_def condition_names)

lemma status_ok_set:
  "set_law lb \<Longrightarrow> st_Phase s \<noteq> PhaseRunning \<Longrightarrow> ready = ConditionFalse \<or> failed = ConditionFalse \<Longrightarrow>
   status_ok (setConditions lb gen ready failed reason msg s)"
  by (auto simp: status_ok_def setConditions_values) (simp_all add: condition_names)

lemma status_ok_empty: "status_ok empty_status"
  by (simp add: status_ok_def empty_status_def cond_value_def phase_names)

definition patches_ok :: "controller \<Rightarrow> bool" where
  "patches_ok st \<longleftrightarrow> list_all (\<lambda>(k, s, body). status_ok s) (ct_patches st)"

lemma counters_patches [simp]:
  "patches_ok (recordReconcile st) = patches_ok st" "patches_ok (recordReconcileOK st) = patches_ok st"
  "patches_ok (recordReconcileFail st) = patches_ok st" "patches_ok (recordScanTriggered st) = patches_ok st"
  "patches_ok (recordScanResult b st) = patches_ok st" "patches_ok (recordPaused st) = patches_ok st"
  "patches_ok (emit_event obj ty reason msg st) = patches_ok st" "patches_ok (remember k g t st) = patches_ok st"
  "patches_ok (st\<lparr>ct_inflight := fl\<rparr>) = patches_ok st"
  by (simp_all add: patches_ok_def counters remember_def)

lemma patchStatus_patches: "patchStatus lb obj s st = (st', r) \<Longrightarrow> patches_ok st' \<longleftrightarrow> patches_ok st \<and> status_ok s"
  by (auto simp: patchStatus_def patches_ok_def Let_def split: reply.splits)

lemma fst_patches: "x = (st', r) \<Longrightarrow> patches_ok (fst x) \<Longrightarrow> patches_ok st'"
  by simp

lemma markInvalid_patches: "set_law lb \<Longrightarrow> patches_ok st \<Longrightarrow> patches_ok (fst (markInvalid lb obj s gen e st))"
  by (auto simp: markInvalid_def Let_def patchStatus_patches split: prod.split intro!: status_ok_set)
    (simp_all add: phase_names)

lemma markPaused_patches: "set_law lb \<Longrightarrow> patches_ok st \<Longrightarrow> patches_ok (fst (markPaused lb obj s gen st))"
  by (auto simp: markPaused_def Let_def patchStatus_patches split: prod.split intro!: status_ok_set)
    (simp_all add: phase_names)

lemma waitForDue_patches: "status_ok s \<Longrightarrow> patches_ok st \<Longrightarrow> patches_ok (fst (waitForDue lb obj s now due b st))"
  by (auto simp: waitForDue_def Let_def patchStatus_patches status_ok_def phase_names split: prod.split)

lemma recordFailure_patches:
  "set_law lb \<Longrightarrow> patches_ok st \<Longrightarrow> recordFailure lb obj s gen i t e st = (st', r) \<Longrightarrow> patches_ok st'"
  by (auto simp: recordFailure_def Let_def patchStatus_patches split: prod.splits intro!: status_ok_set)
    (simp_all add: phase_names)

lemma recordSuccess_patches:
  "set_law lb \<Longrightarrow> patches_ok st \<Longrightarrow> recordSuccess lb obj s gen i t sm st = (st', r) \<Longrightarrow> patches_ok st'"
  by (auto simp: recordSuccess_def Let_def patchStatus_patches split: prod.splits intro!: status_ok_set)
    (simp_all add: phase_names)

lemma startScan_patches:
  assumes "set_law lb" "status_ok s" "patches_ok st" "startScan lb obj s gen sp i st = (st', r)"
  shows "patches_ok st'"
proof -
  have "status_ok (s\<lparr>st_Phase := PhaseRunning, st_Message := msg, st_Conditions := lb_set lb (st_Conditions s)
      \<lparr>cn_Type = ConditionScanning, cn_Status = ConditionTrue, cn_ObservedGeneration = gen,
       cn_Reason = ReasonScanStarted, cn_Message = msg, cn_LastTransitionTime = ''''\<rparr>\<rparr>)" for msg
    using assms(1,2) by (simp add: status_ok_def set_law_def) (simp add: condition_names)
  then show ?thesis using assms(3,4)
    by (auto simp: startScan_def Let_def patchStatus_patches split: prod.splits sum.splits)
qed

text \<open>A reconcile that starts from a consistent status writes consistent ones only: Scanning is true exactly in
  the phase Running, and Ready and Failed are not both true.\<close>

lemma reconcile_begin_patches:
  assumes "set_law lb" "status_ok (readStatus lb obj)" "patches_ok st" "reconcile_begin lb now obj st = (st', r)"
  shows "patches_ok st'"
proof -
  let ?s = "(readStatus lb obj)\<lparr>st_ObservedGeneration := ob_Generation obj\<rparr>"
  have ok: "status_ok ?s" using assms(2) by (simp add: status_ok_def)
  have f: "apsnd Inl x = (st', r) \<Longrightarrow> patches_ok (fst x) \<Longrightarrow> patches_ok st'" for x :: "controller \<times> (string + int)"
    by (cases x) auto
  show ?thesis using assms(4) assms(1,3) ok
    by (auto simp: reconcile_begin_def Let_def split: sum.splits prod.splits if_splits
        elim!: f intro: markInvalid_patches markPaused_patches waitForDue_patches
        dest: startScan_patches [OF assms(1) ok, rotated])
qed

lemma reconcile_end_patches:
  assumes "set_law lb" "patches_ok st" "reconcile_end lb t ctxErr outcome p st = (st', r)"
  shows "patches_ok st'"
proof -
  obtain st1 run where e: "runScan_end ctxErr outcome (key_of (pd_obj p)) st = (st1, run)" by fastforce
  have "patches_ok st1" using e assms(2) by (auto simp: runScan_end_def Let_def split: if_splits option.splits)
  then show ?thesis using assms(1,3) e
    by (auto simp: reconcile_end_def split: scanRun.splits option.splits intro: recordFailure_patches recordSuccess_patches)
qed

section \<open>Stale schedules\<close>

text \<open>A resource whose deletion the server reports still starts its scan, as the missing object is no error.\<close>

lemma deleted_still_scans:
  "lb_api lb (length (ct_patches st)) = PatchNotFound \<Longrightarrow> \<exists>p. snd (startScan lb obj status gen sp interval st) = Inr p"
  by (simp add: startScan_def patchStatus_def Let_def)

text \<open>The controller remembers a next scan to the nanosecond and the status keeps its second, so a cached status
  that holds the controller's own last write still reads as behind it.\<close>

lemma current_cache_reads_behind:
  assumes "st_NextScanTime status = Some (t div second * second)" "t mod second \<noteq> 0"
    and "map_of (ct_next st) key = Some \<lparr>sc_generation = gen, sc_at = t\<rparr>"
  shows "dueTime key gen status interval now st = (t, True)"
proof -
  have "t div second * second \<le> t" "t div second * second \<noteq> t"
    using assms(2) minus_div_mult_eq_mod [of t second] pos_mod_sign [of second t] by (auto simp: second_def simp del: minus_div_mult_eq_mod)
  then have "status_due status interval now < t"
    using assms(1) by (auto simp: status_due_def Let_def split: option.split)
  then show ?thesis using assms(3) by (simp add: dueTime_def Let_def)
qed

text \<open>A resource that is no longer paused keeps the phase Paused until its scan is due: nothing is written.\<close>

lemma unpaused_keeps_phase:
  assumes "specInterval lb obj = Inr (sp, interval)" "\<not> sp_Paused sp" "map_of (ct_next st) (key_of obj) = None"
    and "st_NextScanTime (readStatus lb obj) = Some t" "now < t" "st_LastScanTime (readStatus lb obj) = None"
  shows "ct_patches (fst (reconcile_begin lb now obj st)) = ct_patches st"
  using assms by (simp add: reconcile_begin_def dueTime_def status_due_def waitForDue_def Let_def counters)

section \<open>A run\<close>

definition unary :: "int \<Rightarrow> string" where
  "unary n = (if n < 0 then CHR ''-'' else CHR ''+'') # replicate (nat \<bar>n\<bar>) CHR ''1''"

definition of_unary :: "string \<Rightarrow> int" where
  "of_unary s = (case s of [] \<Rightarrow> 0 | c # cs \<Rightarrow> if c = CHR ''-'' then - int (length cs) else int (length cs))"

lemma of_unary_unary [simp]: "of_unary (unary n) = n"
  by (simp add: of_unary_def unary_def)

definition json_of_condition :: "Condition \<Rightarrow> json" where
  "json_of_condition c = JArr [JStr (cn_Type c), JStr (cn_Status c), JStr (unary (cn_ObservedGeneration c)),
     JStr (cn_Reason c), JStr (cn_Message c), JStr (cn_LastTransitionTime c)]"

fun condition_of_json :: "json \<Rightarrow> Condition" where
  "condition_of_json (JArr [JStr a, JStr b, JStr n, JStr c, JStr d, JStr e]) =
     \<lparr>cn_Type = a, cn_Status = b, cn_ObservedGeneration = of_unary n, cn_Reason = c, cn_Message = d, cn_LastTransitionTime = e\<rparr>"
| "condition_of_json _ = \<lparr>cn_Type = '''', cn_Status = '''', cn_ObservedGeneration = 0, cn_Reason = '''', cn_Message = '''', cn_LastTransitionTime = ''''\<rparr>"

lemma condition_of_json_inverse [simp]: "condition_of_json (json_of_condition c) = c"
  by (cases c) (simp add: json_of_condition_def)

definition replace_condition :: "Condition list \<Rightarrow> Condition \<Rightarrow> Condition list" where
  "replace_condition cs c =
     (if list_ex (\<lambda>x. cn_Type x = cn_Type c) cs then map (\<lambda>x. if cn_Type x = cn_Type c then c else x) cs else cs @ [c])"

definition plain_spec :: ClusterScanSpec where
  "plain_spec = \<lparr>sp_Contexts = [''a''], sp_Group = '''', sp_Interval = ''15m'', sp_Scanners = [],
     sp_Emit = \<lparr>em_FleetDriftReport = False, em_PolicyReport = False, em_Slack = False\<rparr>, sp_Paused = False\<rparr>"

definition plain_libs :: libs where
  "plain_libs = \<lparr>lb_duration = (\<lambda>s. if s = ''15m'' then Inr (15 * minute) else Inl ''time: invalid duration''),
     lb_spec = (\<lambda>m. Inr plain_spec),
     lb_time = (\<lambda>t. unary (t div second)), lb_parse_time = (\<lambda>s. Some (of_unary s * second)),
     lb_conditions = (\<lambda>cs. JArr (map json_of_condition cs)),
     lb_parse_conditions = (\<lambda>v. case v of JArr xs \<Rightarrow> Some (map condition_of_json xs) | _ \<Rightarrow> None),
     lb_set = replace_condition, lb_api = (\<lambda>n. Patched ''2'')\<rparr>"

definition plain_merge :: "jobject \<Rightarrow> jobject \<Rightarrow> jobject" where
  "plain_merge old patch = fold (\<lambda>(k, v) m. if v = JNull then AList.delete k m else AList.update k v m) (rev patch) old"

definition plain_object :: Object where
  "plain_object = \<lparr>ob_Namespace = ''ns'', ob_Name = ''a'', ob_Generation = 1, ob_ResourceVersion = ''1'',
     ob_spec = Section [], ob_status = NoSection\<rparr>"

lemma cond_value_map:
  "cond_value (map (\<lambda>x. if cn_Type x = cn_Type c then c else x) cs) ty =
     (if ty = cn_Type c \<and> list_ex (\<lambda>x. cn_Type x = cn_Type c) cs then Some (cn_Status c) else cond_value cs ty)"
  by (induction cs) (auto simp: cond_value_def)

lemma cond_value_snoc: "cond_value (cs @ [c]) ty =
  (case cond_value cs ty of None \<Rightarrow> if cn_Type c = ty then Some (cn_Status c) else None | Some v \<Rightarrow> Some v)"
  by (induction cs) (auto simp: cond_value_def)

lemma cond_value_absent: "\<not> list_ex (\<lambda>x. cn_Type x = ty) cs \<Longrightarrow> cond_value cs ty = None"
  by (induction cs) (auto simp: cond_value_def)

lemma plain_merge_law: "merge_law plain_merge"
proof -
  have m: "map_of (plain_merge old patch) k =
      (case map_of patch k of None \<Rightarrow> map_of old k | Some v \<Rightarrow> if v = JNull then None else Some v)" for old patch k
    by (induction patch) (auto simp: plain_merge_def split: option.split)
  show ?thesis by (auto simp: merge_law_def m)
qed

lemma plain_laws: "set_law plain_libs" "time_law plain_libs" "conditions_law plain_libs" "durations_ok plain_libs"
proof -
  show "set_law plain_libs"
    by (auto simp: set_law_def plain_libs_def replace_condition_def cond_value_map cond_value_snoc cond_value_absent
        split: option.split)
  show "time_law plain_libs" by (simp add: time_law_def plain_libs_def)
  show "conditions_law plain_libs" by (simp add: conditions_law_def plain_libs_def o_def)
  show "durations_ok plain_libs" by (auto simp: durations_ok_def plain_libs_def minute_def split: if_splits)
qed

theorem status_roundtrip_witness:
  "readStatus plain_libs (plain_object\<lparr>ob_status := Section (plain_merge [(''observedGrade'', JStr ''F'')]
     (statusToMap plain_libs (empty_status\<lparr>st_Phase := PhaseFailed, st_NextScanTime := Some (second + 7)\<rparr>)))\<rparr>) =
   empty_status\<lparr>st_Phase := PhaseFailed, st_NextScanTime := Some second\<rparr>"
  by (subst status_roundtrip [OF plain_merge_law plain_laws(2,3)])
    (simp_all add: counts_exact_def whole_seconds_def seconds_def empty_status_def second_def)

lemma plain_valid: "specInterval plain_libs plain_object = Inr (plain_spec, 15 * minute)" "\<not> sp_Paused plain_spec"
  by (simp_all add: specInterval_def readSpec_def plain_libs_def plain_object_def plain_spec_def minute_def)

lemma plain_api [simp]: "lb_api plain_libs n = Patched ''2''"
  by (simp add: plain_libs_def)

lemma plain_status: "readStatus plain_libs plain_object = empty_status"
  by (simp add: readStatus_def plain_object_def)

definition before_next :: controller where
  "before_next = new_controller\<lparr>ct_next := [(''ns/a'', \<lparr>sc_generation = 1, sc_at = 100\<rparr>)]\<rparr>"

lemma plain_key: "key_of plain_object = ''ns/a''" "ob_Generation plain_object = 1"
  by (simp_all add: key_of_def plain_object_def)

lemma plain_due: "due_at plain_libs 40 plain_object (15 * minute) before_next = 100"
  by (simp add: due_at_def dueTime_def status_due_def plain_status plain_key before_next_def empty_status_def Let_def)

theorem reconcile_reschedules_witness:
  "snd (processNext_begin plain_libs 40 True ''ns/a'' (Some plain_object) before_next) = Inl [Forget ''ns/a'', AddAfter ''ns/a'' 60]"
proof -
  obtain st1 r where b: "processNext_begin plain_libs 40 True ''ns/a'' (Some plain_object) before_next = (st1, r)" by fastforce
  have d: "dueTime ''ns/a'' 1 (empty_status\<lparr>st_ObservedGeneration := 1\<rparr>) (15 * minute) 40 before_next = (100, True)"
    by (simp add: dueTime_def status_due_def before_next_def empty_status_def Let_def)
  have "\<exists>st. reconcile_begin plain_libs 40 plain_object before_next = (st, Inl (Inr 60))"
    by (simp add: reconcile_begin_def plain_valid plain_status plain_key d waitForDue_def Let_def time_Sub_def)
  then have "r \<noteq> Inl [AddRateLimited ''ns/a''] \<and> (\<exists>ops. r = Inl ops)"
    using b by (auto simp: processNext_begin_def processNext_end_def)
  then show ?thesis
    using reconcile_reschedules [OF plain_valid, of 40 before_next "''ns/a''" st1 r] b by (auto simp: plain_due)
qed

lemma plain_startScan:
  "startScan plain_libs plain_object s gen sp interval st = (st', r) \<Longrightarrow>
   (\<exists>p. r = Inr p) \<and> map_of (ct_inflight st') ''ns/a'' = Some False"
  by (auto simp: startScan_def patchStatus_def Let_def counters key_of_def plain_object_def)

lemma plain_starts:
  assumes "dueTime ''ns/a'' 1 (empty_status\<lparr>st_ObservedGeneration := 1\<rparr>) (15 * minute) now st = (due, behind)" "due \<le> now"
  shows "\<exists>st' p. reconcile_begin plain_libs now plain_object st = (st', Inr p) \<and>
    map_of (ct_inflight st') ''ns/a'' = Some False \<and> ct_next st' = ct_next st \<and>
    key_of (pd_obj p) = ''ns/a'' \<and> pd_gen p = 1 \<and> pd_interval p = 15 * minute"
proof -
  obtain st' r where b: "reconcile_begin plain_libs now plain_object st = (st', r)" by fastforce
  then have "startScan plain_libs plain_object (empty_status\<lparr>st_ObservedGeneration := 1\<rparr>) 1 plain_spec (15 * minute)
      (recordReconcile st) = (st', r)"
    using assms by (simp add: reconcile_begin_def plain_valid plain_status plain_key Let_def)
  note plain_startScan [OF this]
  with reconcile_begin_starts [of plain_libs now plain_object st st'] reconcile_begin_next [OF b] b show ?thesis
    by (auto simp: plain_valid plain_key)
qed


end
