(* ===== verification/Report_Cache.thy ===== *)
theory Report_Cache
  imports Refinement Report_Types Go_Fmt
begin

text \<open>
  The cache of rebuilt reports of \<open>internal/server/report_cache.go\<close>. A request takes the lock twice,
  once to look the report up and once to store the one it built, so requests interleave: the steps
  are a hit, a miss, and the end of a build. What the cache holds is polymorphic in the results and
  the report, and building one is a parameter.
\<close>

section \<open>Keys\<close>

definition maxHistoryScans :: nat where "maxHistoryScans = 50"
definition reportCacheSize :: nat where "reportCacheSize = 2 * maxHistoryScans"

definition optionsKey :: "BuildOptions \<Rightarrow> string" where
  "optionsKey opts =
     (let tags = sort (map (\<lambda>(c, t). c @ ''='' @ t) (bo_ClusterTags opts));
          groups = sort (map (\<lambda>(g, members). g @ ''='' @ strings_Join (sort members) ''+'') (bo_Groups opts))
      in ''t='' @ fmt_g (bo_OutlierThreshold opts) @ '';'' @ strings_Join tags '','' @ '';'' @ strings_Join groups '','')"

record 'res request =
  rq_scanID :: string
  rq_clusters :: "string list"
  rq_results :: 'res
  rq_opts :: BuildOptions

definition request_key :: "'res request \<Rightarrow> string" where
  "request_key q = rq_scanID q @ [CHR 0x00] @ optionsKey (rq_opts q)"

section \<open>The cache\<close>

record 'rep reportCache =
  rc_entries :: "(string, 'rep) gomap"
  rc_order :: "string list"

definition empty_cache :: "'rep reportCache" where
  "empty_cache = \<lparr>rc_entries = [], rc_order = []\<rparr>"

fun evict :: "(string, 'rep) gomap \<Rightarrow> string list \<Rightarrow> 'rep reportCache" where
  "evict entries [] = \<lparr>rc_entries = entries, rc_order = []\<rparr>"
| "evict entries (k # ks) =
     (if length (k # ks) > reportCacheSize then evict (AList.delete k entries) ks
      else \<lparr>rc_entries = entries, rc_order = k # ks\<rparr>)"

definition store :: "string \<Rightarrow> 'rep \<Rightarrow> 'rep reportCache \<Rightarrow> 'rep reportCache" where
  "store key r c =
     (case map_of (rc_entries c) key of
        Some _ \<Rightarrow> c
      | None \<Rightarrow> evict (AList.update key r (rc_entries c)) (rc_order c @ [key]))"

text \<open>\<open>get\<close> without interference.\<close>

definition get ::
  "(string list \<Rightarrow> 'res \<Rightarrow> BuildOptions \<Rightarrow> 'rep) \<Rightarrow> 'rep reportCache \<Rightarrow> 'res request \<Rightarrow> 'rep reportCache \<times> 'rep option" where
  "get build c q =
     (let key = request_key q
      in case map_of (rc_entries c) key of
           Some r \<Rightarrow> (c, Some r)
         | None \<Rightarrow> let c' = store key (build (rq_clusters q) (rq_results q) (rq_opts q)) c
                   in (c', map_of (rc_entries c') key))"

section \<open>Interleaved requests\<close>

text \<open>The state is the cache and the requests that are building a report.\<close>

datatype ('res, 'rep) cache_event =
    Answered "'res request" "'rep option"
  | Missed "'res request"

inductive cache_step ::
  "(string list \<Rightarrow> 'res \<Rightarrow> BuildOptions \<Rightarrow> 'rep) \<Rightarrow> 'rep reportCache \<times> 'res request multiset \<Rightarrow>
   ('res, 'rep) cache_event \<Rightarrow> 'rep reportCache \<times> 'res request multiset \<Rightarrow> bool"
  for build where
  hit: "map_of (rc_entries c) (request_key q) = Some r \<Longrightarrow> cache_step build (c, bs) (Answered q (Some r)) (c, bs)"
| miss: "map_of (rc_entries c) (request_key q) = None \<Longrightarrow> cache_step build (c, bs) (Missed q) (c, add_mset q bs)"
| built: "\<lbrakk>q \<in># bs; c' = store (request_key q) (build (rq_clusters q) (rq_results q) (rq_opts q)) c\<rbrakk> \<Longrightarrow>
    cache_step build (c, bs) (Answered q (map_of (rc_entries c') (request_key q))) (c', bs - {#q#})"

section \<open>What the cache holds\<close>

definition cache_ok :: "'rep reportCache \<Rightarrow> bool" where
  "cache_ok c \<longleftrightarrow> distinct (rc_order c) \<and> fst ` set (rc_entries c) = set (rc_order c) \<and>
     distinct (map fst (rc_entries c)) \<and> length (rc_order c) \<le> reportCacheSize"

lemma cache_ok_empty: "cache_ok empty_cache"
  by (simp add: cache_ok_def empty_cache_def)

lemma keys_delete [simp]: "fst ` set (AList.delete k m) = fst ` set m - {k}"
  by (auto simp: dom_map_of_conv_image_fst [symmetric])

lemma keys_update [simp]: "fst ` set (AList.update k v m) = insert k (fst ` set m)"
  by (auto simp: dom_map_of_conv_image_fst [symmetric])

lemma reportCacheSize_pos: "0 < reportCacheSize"
  by (simp add: reportCacheSize_def maxHistoryScans_def)

text \<open>After a store one eviction is enough, and it is the oldest key that goes.\<close>

lemma evict_ok:
  assumes "cache_ok c" "map_of (rc_entries c) key = None"
  shows "cache_ok (evict (AList.update key r (rc_entries c)) (rc_order c @ [key]))"
    and "map_of (rc_entries (evict (AList.update key r (rc_entries c)) (rc_order c @ [key]))) =
      (if length (rc_order c) = reportCacheSize then ((map_of (rc_entries c))(key \<mapsto> r))(hd (rc_order c) := None)
       else (map_of (rc_entries c))(key \<mapsto> r))"
    and "rc_order (evict (AList.update key r (rc_entries c)) (rc_order c @ [key])) =
      (if length (rc_order c) = reportCacheSize then tl (rc_order c) else rc_order c) @ [key]"
proof -
  have fresh: "key \<notin> set (rc_order c)" using assms by (auto simp: cache_ok_def map_of_eq_None_iff)
  have size: "length (rc_order c) \<le> reportCacheSize" using assms(1) by (simp add: cache_ok_def)
  let ?es = "AList.update key r (rc_entries c)"
  have full: "evict ?es (rc_order c @ [key]) =
      (if length (rc_order c) = reportCacheSize
       then \<lparr>rc_entries = AList.delete (hd (rc_order c)) ?es, rc_order = tl (rc_order c) @ [key]\<rparr>
       else \<lparr>rc_entries = ?es, rc_order = rc_order c @ [key]\<rparr>)"
  proof (cases "rc_order c")
    case Nil
    then show ?thesis using reportCacheSize_pos by simp
  next
    case (Cons k ks)
    then show ?thesis using size by (cases ks) auto
  qed
  have ne: "rc_order c \<noteq> []" if "length (rc_order c) = reportCacheSize" using that reportCacheSize_pos by auto
  show "cache_ok (evict ?es (rc_order c @ [key]))"
  proof (cases "length (rc_order c) = reportCacheSize")
    case True
    then obtain k ks where ks: "rc_order c = k # ks" using ne by (cases "rc_order c") auto
    then have "cache_ok \<lparr>rc_entries = AList.delete k ?es, rc_order = ks @ [key]\<rparr>"
      using assms(1) fresh True
      by (auto simp: cache_ok_def distinct_update distinct_delete)
    then show ?thesis using full True ks by simp
  next
    case False
    then show ?thesis using full assms(1) fresh size by (auto simp: cache_ok_def distinct_update)
  qed
  show "map_of (rc_entries (evict ?es (rc_order c @ [key]))) =
      (if length (rc_order c) = reportCacheSize then ((map_of (rc_entries c))(key \<mapsto> r))(hd (rc_order c) := None)
       else (map_of (rc_entries c))(key \<mapsto> r))"
    using full by simp
  show "rc_order (evict ?es (rc_order c @ [key])) =
      (if length (rc_order c) = reportCacheSize then tl (rc_order c) else rc_order c) @ [key]"
    using full by simp
qed


lemma cache_ok_store: "cache_ok c \<Longrightarrow> cache_ok (store key r c)"
  by (auto simp: store_def evict_ok(1) split: option.splits)

lemma store_found:
  assumes "cache_ok c"
  shows "map_of (rc_entries (store key r c)) key =
    (case map_of (rc_entries c) key of Some r' \<Rightarrow> Some r' | None \<Rightarrow> Some r)"
proof (cases "map_of (rc_entries c) key")
  case None
  have "key \<noteq> hd (rc_order c)" if "length (rc_order c) = reportCacheSize"
  proof -
    have "rc_order c \<noteq> []" using that reportCacheSize_pos by auto
    then have "hd (rc_order c) \<in> fst ` set (rc_entries c)" using assms by (simp add: cache_ok_def)
    then show ?thesis using None by (auto simp: map_of_eq_None_iff)
  qed
  then show ?thesis using None evict_ok(2) [OF assms None] by (simp add: store_def)
qed (simp add: store_def)

lemma store_subset:
  assumes "cache_ok c" "map_of (rc_entries (store key r c)) k = Some v"
  shows "map_of (rc_entries c) k = Some v \<or> k = key \<and> v = r"
  using assms evict_ok(2) [OF assms(1)]
  by (cases "map_of (rc_entries c) key") (auto simp: store_def split: if_splits)

section \<open>The cache is transparent\<close>

text \<open>What is relied on: a stored scan never changes, so requests with one key ask for one report.\<close>

definition one_report :: "(string list \<Rightarrow> 'res \<Rightarrow> BuildOptions \<Rightarrow> 'rep) \<Rightarrow> 'res request set \<Rightarrow> bool" where
  "one_report build qs \<longleftrightarrow> (\<forall>q \<in> qs. \<forall>q' \<in> qs. request_key q = request_key q' \<longrightarrow>
     build (rq_clusters q) (rq_results q) (rq_opts q) = build (rq_clusters q') (rq_results q') (rq_opts q'))"

fun request_of :: "('res, 'rep) cache_event \<Rightarrow> 'res request" where
  "request_of (Answered q r) = q"
| "request_of (Missed q) = q"

fun served :: "(string list \<Rightarrow> 'res \<Rightarrow> BuildOptions \<Rightarrow> 'rep) \<Rightarrow> ('res, 'rep) cache_event \<Rightarrow> bool" where
  "served build (Answered q r) = (r = Some (build (rq_clusters q) (rq_results q) (rq_opts q)))"
| "served build (Missed q) = True"

definition cache_inv ::
  "(string list \<Rightarrow> 'res \<Rightarrow> BuildOptions \<Rightarrow> 'rep) \<Rightarrow> ('res, 'rep) cache_event list \<Rightarrow>
   'rep reportCache \<times> 'res request multiset \<Rightarrow> bool" where
  "cache_inv build es s \<longleftrightarrow>
     (case s of (c, bs) \<Rightarrow> cache_ok c \<and> set_mset bs \<subseteq> request_of ` set es \<and>
       (\<forall>k r. map_of (rc_entries c) k = Some r \<longrightarrow>
          (\<exists>q \<in> request_of ` set es. k = request_key q \<and> r = build (rq_clusters q) (rq_results q) (rq_opts q))) \<and>
       (one_report build (request_of ` set es) \<longrightarrow> list_all (served build) es))"

lemma one_reportD:
  "\<lbrakk>one_report build qs; q \<in> qs; q' \<in> qs; request_key q = request_key q'\<rbrakk> \<Longrightarrow>
     build (rq_clusters q) (rq_results q) (rq_opts q) = build (rq_clusters q') (rq_results q') (rq_opts q')"
  unfolding one_report_def by blast

lemma one_report_mono: "one_report build qs \<Longrightarrow> ps \<subseteq> qs \<Longrightarrow> one_report build ps"
  unfolding one_report_def by blast

lemma cache_invD:
  assumes "cache_inv build es (c, bs)"
  shows "cache_ok c" "set_mset bs \<subseteq> request_of ` set es"
    and "map_of (rc_entries c) k = Some r \<Longrightarrow>
      \<exists>q \<in> request_of ` set es. k = request_key q \<and> r = build (rq_clusters q) (rq_results q) (rq_opts q)"
    and "one_report build (request_of ` set es) \<Longrightarrow> list_all (served build) es"
  using assms by (simp_all add: cache_inv_def)

lemma cache_inv_step:
  assumes inv: "cache_inv build es s" and step: "cache_step build s e t"
  shows "cache_inv build (es @ [e]) t"
  using step
proof (cases rule: cache_step.cases)
  case (hit c q r bs)
  note I = cache_invD [OF inv [unfolded hit(1)]]
  from I(3) [OF hit(4)] obtain q' where q': "q' \<in> request_of ` set es" "request_key q = request_key q'"
    "r = build (rq_clusters q') (rq_results q') (rq_opts q')" by blast
  have "served build e" if "one_report build (insert q (request_of ` set es))"
    using one_reportD [OF that, of q q'] q' hit by simp
  moreover have "list_all (served build) es" if "one_report build (insert q (request_of ` set es))"
    using that by (intro I(4) one_report_mono [OF that]) auto
  ultimately show ?thesis using hit I(1,2,3) by (auto simp: cache_inv_def)
next
  case (miss c q bs)
  note I = cache_invD [OF inv [unfolded miss(1)]]
  have "list_all (served build) es" if "one_report build (insert q (request_of ` set es))"
    using that by (intro I(4) one_report_mono [OF that]) auto
  then show ?thesis using miss I(1,2,3) by (auto simp: cache_inv_def)
next
  case (built q bs c' c)
  let ?r = "build (rq_clusters q) (rq_results q) (rq_opts q)"
  note I = cache_invD [OF inv [unfolded built(1)]]
  note c = I(1) and bs = I(2) and held = I(3) and ok = I(4)
  have q: "q \<in> request_of ` set es" using built bs by blast
  then have same: "request_of ` set (es @ [e]) = request_of ` set es" using built by auto
  have held': "\<exists>q \<in> request_of ` set es. k = request_key q \<and> r = build (rq_clusters q) (rq_results q) (rq_opts q)"
    if "map_of (rc_entries c') k = Some r" for k r
    using store_subset [OF c, of "request_key q" ?r k r] that built q held by blast
  have "served build e" if one: "one_report build (request_of ` set es)"
  proof (cases "map_of (rc_entries c) (request_key q)")
    case None
    then show ?thesis using built store_found [OF c, of "request_key q" ?r] by simp
  next
    case (Some r)
    then obtain q' where q': "q' \<in> request_of ` set es" "request_key q = request_key q'"
      "r = build (rq_clusters q') (rq_results q') (rq_opts q')" using held by blast
    then show ?thesis using built store_found [OF c, of "request_key q" ?r] Some one_reportD [OF one q q'(1,2)] by simp
  qed
  then show ?thesis
    unfolding cache_inv_def same using built cache_ok_store [OF c] bs held' ok by (auto dest: in_diffD)
qed

interpretation report_cache: history_invariant "cache_step build" "cache_inv build" for build
  by standard (rule cache_inv_step)


text \<open>Without interference the steps are those of \<open>get\<close>.\<close>

lemma get_runs:
  "\<exists>es. runs (cache_step build) (c, bs) es (fst (get build c q), bs) \<and> last es = Answered q (snd (get build c q))"
proof (cases "map_of (rc_entries c) (request_key q)")
  case None
  let ?c = "store (request_key q) (build (rq_clusters q) (rq_results q) (rq_opts q)) c"
  have 1: "runs (cache_step build) (c, bs) ([] @ [Missed q]) (c, add_mset q bs)"
    by (rule runs_step [of "cache_step build" "(c, bs)" "[]" "(c, bs)", OF runs_start miss [OF None]])
  have "cache_step build (c, add_mset q bs) (Answered q (map_of (rc_entries ?c) (request_key q))) (?c, add_mset q bs - {#q#})"
    by (rule built) simp_all
  from runs_step [of "cache_step build", OF 1 this] show ?thesis using None by (auto simp: get_def Let_def)
next
  case (Some r)
  have "runs (cache_step build) (c, bs) ([] @ [Answered q (Some r)]) (c, bs)"
    by (rule runs_step [of "cache_step build" "(c, bs)" "[]" "(c, bs)", OF runs_start hit [OF Some]])
  then show ?thesis using Some by (auto simp: get_def)
qed

definition sample_request :: "nat request" where
  "sample_request = \<lparr>rq_scanID = ''scan-1'', rq_clusters = [''a'', ''b''], rq_results = 7,
     rq_opts = \<lparr>bo_OutlierThreshold = 0, bo_Groups = [], bo_ClusterTags = [], bo_Timestamp = ''''\<rparr>\<rparr>"


text \<open>The key does not determine the options: a comma and an equals sign in a tag value read like a
  second tag.\<close>

lemma optionsKey_collision:
  "optionsKey \<lparr>bo_OutlierThreshold = 0, bo_Groups = [], bo_ClusterTags = [(''a'', ''x''), (''b'', ''y'')], bo_Timestamp = ''''\<rparr> =
   optionsKey \<lparr>bo_OutlierThreshold = 0, bo_Groups = [], bo_ClusterTags = [(''a'', ''x,b=y'')], bo_Timestamp = ''''\<rparr>"
  by code_simp

end
