(* ===== verification/Event_Bus.thy ===== *)
theory Event_Bus
  imports Refinement
begin

text \<open>
  The event bus of \<open>internal/server/events.go\<close> and the subscribers of \<open>handleEventsStream\<close>. A
  channel is a bounded queue; the bus holds the identifiers of the registered ones, and closing and
  registering are steps of their own because the code takes its lock for the map only. Sending on a
  closed channel panics, which is the result \<open>None\<close> of \<open>publish\<close>. Each subscriber runs through the
  stages of \<open>subscribe\<close>, its loop and the deferred \<open>unsub\<close>.
\<close>

section \<open>Channels and the bus\<close>

record 'e channel =
  ch_buffer :: nat
  ch_queue :: "'e list"
  ch_closed :: bool

definition make_channel :: "nat \<Rightarrow> 'e channel" where
  "make_channel buffer = \<lparr>ch_buffer = buffer, ch_queue = [], ch_closed = False\<rparr>"

text \<open>The \<open>select\<close> of \<open>publish\<close>: send if there is room, otherwise drop.\<close>

definition try_send :: "'e \<Rightarrow> 'e channel \<Rightarrow> 'e channel option" where
  "try_send e ch =
     (if ch_closed ch then None
      else if length (ch_queue ch) < ch_buffer ch then Some (ch\<lparr>ch_queue := ch_queue ch @ [e]\<rparr>)
      else Some ch)"

datatype stage = Allocated | Subscribed | Leaving | Gone

record 'e eventBus =
  eb_nextID :: int
  eb_streams :: "int list"
  eb_channels :: "int \<Rightarrow> 'e channel option"
  eb_stages :: "int \<Rightarrow> stage option"

definition newEventBus :: "'e eventBus" where
  "newEventBus = \<lparr>eb_nextID = 0, eb_streams = [], eb_channels = Map.empty, eb_stages = Map.empty\<rparr>"

definition send_to :: "'e \<Rightarrow> int \<Rightarrow> (int \<Rightarrow> 'e channel option) \<Rightarrow> (int \<Rightarrow> 'e channel option) option" where
  "send_to e i chans =
     (case chans i of
        None \<Rightarrow> None
      | Some ch \<Rightarrow> map_option (\<lambda>ch'. chans(i \<mapsto> ch')) (try_send e ch))"

fun send_all :: "'e \<Rightarrow> int list \<Rightarrow> (int \<Rightarrow> 'e channel option) \<Rightarrow> (int \<Rightarrow> 'e channel option) option" where
  "send_all e [] chans = Some chans"
| "send_all e (i # is) chans = Option.bind (send_to e i chans) (send_all e is)"

definition publish :: "'e \<Rightarrow> 'e eventBus \<Rightarrow> 'e eventBus option" where
  "publish e b = map_option (\<lambda>chans. b\<lparr>eb_channels := chans\<rparr>) (send_all e (eb_streams b) (eb_channels b))"

text \<open>The two halves of \<open>subscribe\<close> and of the function it returns.\<close>

definition allocate :: "nat \<Rightarrow> 'e eventBus \<Rightarrow> int \<times> 'e eventBus" where
  "allocate buffer b =
     (let i = eb_nextID b + 1
      in (i, b\<lparr>eb_nextID := i, eb_channels := (eb_channels b)(i \<mapsto> make_channel buffer),
               eb_stages := (eb_stages b)(i \<mapsto> Allocated)\<rparr>))"

definition register :: "int \<Rightarrow> 'e eventBus \<Rightarrow> 'e eventBus" where
  "register i b = b\<lparr>eb_streams := eb_streams b @ [i], eb_stages := (eb_stages b)(i \<mapsto> Subscribed)\<rparr>"

definition deregister :: "int \<Rightarrow> 'e eventBus \<Rightarrow> 'e eventBus" where
  "deregister i b = b\<lparr>eb_streams := removeAll i (eb_streams b), eb_stages := (eb_stages b)(i \<mapsto> Leaving)\<rparr>"

definition close_channel :: "int \<Rightarrow> 'e eventBus \<Rightarrow> 'e eventBus option" where
  "close_channel i b =
     (case eb_channels b i of
        None \<Rightarrow> None
      | Some ch \<Rightarrow> if ch_closed ch then None
          else Some (b\<lparr>eb_channels := (eb_channels b)(i \<mapsto> ch\<lparr>ch_closed := True\<rparr>),
                       eb_stages := (eb_stages b)(i \<mapsto> Gone)\<rparr>))"

definition receive :: "int \<Rightarrow> 'e eventBus \<Rightarrow> ('e \<times> 'e eventBus) option" where
  "receive i b =
     (case eb_channels b i of
        None \<Rightarrow> None
      | Some ch \<Rightarrow> (case ch_queue ch of
          [] \<Rightarrow> None
        | e # es \<Rightarrow> Some (e, b\<lparr>eb_channels := (eb_channels b)(i \<mapsto> ch\<lparr>ch_queue := es\<rparr>)\<rparr>)))"

section \<open>Steps\<close>

datatype 'e bus_event =
    Allocate int nat
  | Register int
  | Publish 'e
  | Receive int 'e
  | Deregister int
  | Close int
  | Panic

inductive bus_step :: "'e eventBus \<Rightarrow> 'e bus_event \<Rightarrow> 'e eventBus \<Rightarrow> bool" where
  bus_allocate: "allocate n b = (i, b') \<Longrightarrow> bus_step b (Allocate i n) b'"
| bus_register: "eb_stages b i = Some Allocated \<Longrightarrow> bus_step b (Register i) (register i b)"
| bus_publish: "publish e b = Some b' \<Longrightarrow> bus_step b (Publish e) b'"
| bus_publish_panic: "publish e b = None \<Longrightarrow> bus_step b Panic b"
| bus_receive: "\<lbrakk>eb_stages b i = Some Subscribed; receive i b = Some (e, b')\<rbrakk> \<Longrightarrow> bus_step b (Receive i e) b'"
| bus_deregister: "eb_stages b i = Some Subscribed \<Longrightarrow> bus_step b (Deregister i) (deregister i b)"
| bus_close: "\<lbrakk>eb_stages b i = Some Leaving; close_channel i b = Some b'\<rbrakk> \<Longrightarrow> bus_step b (Close i) b'"
| bus_close_panic: "\<lbrakk>eb_stages b i = Some Leaving; close_channel i b = None\<rbrakk> \<Longrightarrow> bus_step b Panic b"

section \<open>What one subscriber sees\<close>

text \<open>The subscriber alone: its buffer, whether it is registered, what waits in its queue, what it has
  received, what was published while it was registered, and how much of that found its queue full. Nothing another subscriber does enters.\<close>

record 'e view =
  vw_buffer :: nat
  vw_on :: bool
  vw_queue :: "'e list"
  vw_received :: "'e list"
  vw_published :: "'e list"
  vw_dropped :: nat

definition view_start :: "'e view" where
  "view_start = \<lparr>vw_buffer = 0, vw_on = False, vw_queue = [], vw_received = [], vw_published = [],
     vw_dropped = 0\<rparr>"

fun view_step :: "int \<Rightarrow> 'e view \<Rightarrow> 'e bus_event \<Rightarrow> 'e view" where
  "view_step i v (Allocate j n) = (if j = i then view_start\<lparr>vw_buffer := n\<rparr> else v)"
| "view_step i v (Register j) = (if j = i then v\<lparr>vw_on := True\<rparr> else v)"
| "view_step i v (Deregister j) = (if j = i then v\<lparr>vw_on := False\<rparr> else v)"
| "view_step i v (Receive j e) =
     (if j = i then v\<lparr>vw_queue := tl (vw_queue v), vw_received := vw_received v @ [e]\<rparr> else v)"
| "view_step i v (Publish e) =
     (if vw_on v
      then v\<lparr>vw_published := vw_published v @ [e],
             vw_queue := (if length (vw_queue v) < vw_buffer v then vw_queue v @ [e] else vw_queue v),
             vw_dropped := (if length (vw_queue v) < vw_buffer v then vw_dropped v else vw_dropped v + 1)\<rparr>
      else v)"
| "view_step i v (Close j) = v"
| "view_step i v Panic = v"

definition view :: "int \<Rightarrow> 'e bus_event list \<Rightarrow> 'e view" where
  "view i es = foldl (view_step i) view_start es"

lemma view_snoc [simp]: "view i (es @ [e]) = view_step i (view i es) e"
  by (simp add: view_def)

lemma view_Nil [simp]: "view i [] = view_start"
  by (simp add: view_def)

section \<open>The wire\<close>

text \<open>One event in the server-sent format; the payload is what \<open>json.Marshal\<close> returns.\<close>

definition writeSSE :: "string \<Rightarrow> string \<Rightarrow> string" where
  "writeSSE typ payload =
     ''event: '' @ typ @ [CHR 0x0A] @ ''data: '' @ payload @ [CHR 0x0A, CHR 0x0A]"

section \<open>The invariant\<close>

definition view_ok :: "'e view \<Rightarrow> bool" where
  "view_ok v \<longleftrightarrow> length (vw_queue v) \<le> vw_buffer v \<and> subseq (vw_received v @ vw_queue v) (vw_published v) \<and>
     length (vw_published v) = length (vw_received v) + length (vw_queue v) + vw_dropped v"

definition subscriber_ok :: "stage option \<Rightarrow> 'e channel option \<Rightarrow> 'e view \<Rightarrow> bool" where
  "subscriber_ok st c v \<longleftrightarrow>
     view_ok v \<and> vw_on v = (st = Some Subscribed) \<and>
     (case (st, c) of
        (None, None) \<Rightarrow> True
      | (Some s, Some ch) \<Rightarrow> ch_closed ch = (s = Gone) \<and> ch_buffer ch = vw_buffer v \<and> ch_queue ch = vw_queue v
      | _ \<Rightarrow> False)"

definition bus_inv :: "'e bus_event list \<Rightarrow> 'e eventBus \<Rightarrow> bool" where
  "bus_inv es b \<longleftrightarrow>
     Panic \<notin> set es \<and> distinct (eb_streams b) \<and>
     (\<forall>i. i \<in> set (eb_streams b) \<longleftrightarrow> eb_stages b i = Some Subscribed) \<and>
     (\<forall>i. eb_stages b i \<noteq> None \<longrightarrow> i \<le> eb_nextID b) \<and>
     (\<forall>i. subscriber_ok (eb_stages b i) (eb_channels b i) (view i es))"

lemma bus_invD:
  assumes "bus_inv es b"
  shows "Panic \<notin> set es" "distinct (eb_streams b)" "i \<in> set (eb_streams b) \<longleftrightarrow> eb_stages b i = Some Subscribed"
    and "eb_stages b i \<noteq> None \<Longrightarrow> i \<le> eb_nextID b" "subscriber_ok (eb_stages b i) (eb_channels b i) (view i es)"
  using assms unfolding bus_inv_def by blast+

lemma bus_invI:
  assumes "Panic \<notin> set es" "distinct (eb_streams b)"
    and "\<And>i. i \<in> set (eb_streams b) \<longleftrightarrow> eb_stages b i = Some Subscribed"
    and "\<And>i. eb_stages b i \<noteq> None \<Longrightarrow> i \<le> eb_nextID b"
    and "\<And>i. subscriber_ok (eb_stages b i) (eb_channels b i) (view i es)"
  shows "bus_inv es b"
  using assms unfolding bus_inv_def by blast

text \<open>Publishing reaches every registered channel once and none of them is closed.\<close>

definition enqueue :: "'e \<Rightarrow> 'e channel \<Rightarrow> 'e channel" where
  "enqueue e ch = (if length (ch_queue ch) < ch_buffer ch then ch\<lparr>ch_queue := ch_queue ch @ [e]\<rparr> else ch)"

lemma send_all_open:
  "\<lbrakk>distinct is; \<And>i. i \<in> set is \<Longrightarrow> \<exists>ch. chans i = Some ch \<and> \<not> ch_closed ch\<rbrakk> \<Longrightarrow>
     send_all e is chans = Some (\<lambda>j. if j \<in> set is then map_option (enqueue e) (chans j) else chans j)"
proof (induction "is" arbitrary: chans)
  case (Cons i "is")
  obtain ch where ch: "chans i = Some ch" "\<not> ch_closed ch" using Cons.prems by auto
  have sent: "send_to e i chans = Some (chans(i \<mapsto> enqueue e ch))"
    using ch by (simp add: send_to_def try_send_def enqueue_def)
  have "send_all e is (chans(i \<mapsto> enqueue e ch)) =
      Some (\<lambda>j. if j \<in> set is then map_option (enqueue e) ((chans(i \<mapsto> enqueue e ch)) j) else (chans(i \<mapsto> enqueue e ch)) j)"
    using Cons.prems by (intro Cons.IH) auto
  then show ?case using Cons.prems(1) ch by (auto simp: sent fun_eq_iff)
qed auto

lemma subscribed_open:
  assumes "subscriber_ok (Some s) c v" "s \<noteq> Gone"
  shows "\<exists>ch. c = Some ch \<and> \<not> ch_closed ch"
  using assms by (auto simp: subscriber_ok_def split: option.splits)

lemma publish_succeeds:
  assumes "bus_inv es b"
  shows "publish e b = Some (b\<lparr>eb_channels := \<lambda>j. if eb_stages b j = Some Subscribed
      then map_option (enqueue e) (eb_channels b j) else eb_channels b j\<rparr>)"
proof -
  have "\<exists>ch. eb_channels b i = Some ch \<and> \<not> ch_closed ch" if "i \<in> set (eb_streams b)" for i
    using bus_invD(3,5) [OF assms, of i] that subscribed_open [of Subscribed] by auto
  from send_all_open [OF bus_invD(2) [OF assms] this] show ?thesis
    by (simp add: publish_def bus_invD(3) [OF assms])
qed

lemma view_ok_publish:
  assumes "view_ok v"
  shows "view_ok (view_step i v (Publish e))"
proof -
  have "subseq ((vw_received v @ vw_queue v) @ [e]) (vw_published v @ [e])"
    using assms by (intro list_emb_append_mono) (simp_all add: view_ok_def)
  moreover have "subseq (vw_received v @ vw_queue v) (vw_published v @ [e])"
    using assms by (simp add: view_ok_def list_emb_prefix)
  ultimately show ?thesis using assms by (auto simp: view_ok_def)
qed

lemma subscriber_publish:
  assumes "subscriber_ok st c v"
  shows "subscriber_ok st (if st = Some Subscribed then map_option (enqueue e) c else c) (view_step i v (Publish e))"
  using assms view_ok_publish [of v i e] by (auto simp: subscriber_ok_def enqueue_def split: option.splits)

lemma bus_inv_start: "bus_inv [] newEventBus"
  by (rule bus_invI) (simp_all add: newEventBus_def subscriber_ok_def view_ok_def view_start_def)

lemma bus_inv_change:
  assumes inv: "bus_inv es b" and i: "eb_stages b i \<noteq> None"
    and b': "eb_nextID b' = eb_nextID b" "eb_stages b' = (eb_stages b)(i \<mapsto> st)" "eb_channels b' = (eb_channels b)(i := c)"
    and reg: "distinct (eb_streams b')"
      "set (eb_streams b') = (if st = Subscribed then insert i (set (eb_streams b)) else set (eb_streams b) - {i})"
    and e: "e \<noteq> Panic" "\<And>j. j \<noteq> i \<Longrightarrow> view_step j (view j es) e = view j es"
    and ok: "subscriber_ok (Some st) c (view_step i (view i es) e)"
  shows "bus_inv (es @ [e]) b'"
proof (rule bus_invI)
  fix j
  show "j \<in> set (eb_streams b') \<longleftrightarrow> eb_stages b' j = Some Subscribed"
    using bus_invD(3) [OF inv, of j] by (auto simp: b' reg)
  show "eb_stages b' j \<noteq> None \<Longrightarrow> j \<le> eb_nextID b'"
    using bus_invD(4) [OF inv, of j] bus_invD(4) [OF inv i] by (auto simp: b' split: if_splits)
  show "subscriber_ok (eb_stages b' j) (eb_channels b' j) (view j (es @ [e]))"
    using bus_invD(5) [OF inv, of j] ok e(2) [of j] by (auto simp: b')
qed (use bus_invD(1) [OF inv] e(1) reg(1) in auto)

lemma bus_inv_step:
  assumes inv: "bus_inv es b" and step: "bus_step b e b'"
  shows "bus_inv (es @ [e]) b'"
  using step
proof (cases rule: bus_step.cases)
  case (bus_allocate n i)
  then have i: "i = eb_nextID b + 1" and b': "b' = b\<lparr>eb_nextID := i, eb_channels := (eb_channels b)(i \<mapsto> make_channel n),
      eb_stages := (eb_stages b)(i \<mapsto> Allocated)\<rparr>" by (auto simp: allocate_def Let_def)
  have fresh: "eb_stages b i = None" using bus_invD(4) [OF inv, of i] i by force
  show ?thesis
  proof (rule bus_invI)
    fix j
    show "eb_stages b' j \<noteq> None \<Longrightarrow> j \<le> eb_nextID b'"
      using bus_invD(4) [OF inv, of j] by (cases "j = i") (auto simp: b' i)
    show "subscriber_ok (eb_stages b' j) (eb_channels b' j) (view j (es @ [e]))"
      using bus_invD(5) [OF inv, of j]
      by (auto simp: b' bus_allocate(1) subscriber_ok_def view_ok_def view_start_def make_channel_def)
    show "j \<in> set (eb_streams b') \<longleftrightarrow> eb_stages b' j = Some Subscribed"
      using bus_invD(3) [OF inv] fresh by (auto simp: b')
  qed (use bus_invD(1,2) [OF inv] bus_allocate(1) in \<open>simp_all add: b'\<close>)
next
  case (bus_register i)
  have "i \<notin> set (eb_streams b)" using bus_invD(3) [OF inv, of i] bus_register by simp
  moreover have "subscriber_ok (Some Subscribed) (eb_channels b i) (view_step i (view i es) (Register i))"
    using bus_invD(5) [OF inv, of i] bus_register(3) by (auto simp: subscriber_ok_def view_ok_def split: option.splits)
  ultimately show ?thesis using bus_invD(2) [OF inv] unfolding bus_register(1,2)
    by (intro bus_inv_change [OF inv, where i = i and st = Subscribed and c = "eb_channels b i"])
      (simp_all add: register_def bus_register(3))
next
  case (bus_publish ev)
  then have b': "b' = b\<lparr>eb_channels := \<lambda>j. if eb_stages b j = Some Subscribed
      then map_option (enqueue ev) (eb_channels b j) else eb_channels b j\<rparr>"
    using publish_succeeds [OF inv, of ev] by simp
  show ?thesis
  proof (rule bus_invI)
    fix j
    show "subscriber_ok (eb_stages b' j) (eb_channels b' j) (view j (es @ [e]))"
      using subscriber_publish [OF bus_invD(5) [OF inv, of j], of ev j]
      by (simp add: b' bus_publish(1) del: view_step.simps)
  qed (use bus_invD(1-4) [OF inv] in \<open>simp_all add: b' bus_publish(1)\<close>)
next
  case (bus_publish_panic ev)
  then show ?thesis using publish_succeeds [OF inv, of ev] by simp
next
  case (bus_receive i ev)
  then obtain ch q where ch: "eb_channels b i = Some ch" "ch_queue ch = ev # q"
    and b': "b' = b\<lparr>eb_channels := (eb_channels b)(i \<mapsto> ch\<lparr>ch_queue := q\<rparr>)\<rparr>"
    by (auto simp: receive_def split: option.splits list.splits)
  have "subscriber_ok (Some Subscribed) (Some (ch\<lparr>ch_queue := q\<rparr>)) (view_step i (view i es) (Receive i ev))"
  proof -
    have "subscriber_ok (Some Subscribed) (Some ch) (view i es)" using bus_invD(5) [OF inv, of i] ch bus_receive(2) by simp
    moreover from this have "vw_queue (view i es) = ev # q" using ch(2) by (simp add: subscriber_ok_def)
    ultimately show ?thesis by (simp add: subscriber_ok_def view_ok_def)
  qed
  then show ?thesis using bus_invD(2,3) [OF inv] bus_receive(2) unfolding bus_receive(1)
    by (intro bus_inv_change [OF inv, where i = i and st = Subscribed and c = "Some (ch\<lparr>ch_queue := q\<rparr>)"])
      (auto simp: b' fun_upd_idem)
next
  case (bus_deregister i)
  have "subscriber_ok (Some Leaving) (eb_channels b i) (view_step i (view i es) (Deregister i))"
    using bus_invD(5) [OF inv, of i] bus_deregister(3) by (auto simp: subscriber_ok_def view_ok_def split: option.splits)
  then show ?thesis using bus_invD(2) [OF inv] unfolding bus_deregister(1,2)
    by (intro bus_inv_change [OF inv, where i = i and st = Leaving and c = "eb_channels b i"])
      (simp_all add: deregister_def bus_deregister(3) distinct_removeAll)
next
  case (bus_close i)
  then obtain ch where ch: "eb_channels b i = Some ch"
    and b': "b' = b\<lparr>eb_channels := (eb_channels b)(i \<mapsto> ch\<lparr>ch_closed := True\<rparr>), eb_stages := (eb_stages b)(i \<mapsto> Gone)\<rparr>"
    by (auto simp: close_channel_def split: option.splits if_splits)
  have "subscriber_ok (Some Gone) (Some (ch\<lparr>ch_closed := True\<rparr>)) (view_step i (view i es) (Close i))"
    using bus_invD(5) [OF inv, of i] ch bus_close(2) by (simp add: subscriber_ok_def)
  moreover have "i \<notin> set (eb_streams b)" using bus_invD(3) [OF inv, of i] bus_close(2) by simp
  ultimately show ?thesis using bus_invD(2) [OF inv] bus_close(2) unfolding bus_close(1)
    by (intro bus_inv_change [OF inv, where i = i and st = Gone and c = "Some (ch\<lparr>ch_closed := True\<rparr>)"])
      (simp_all add: b')
next
  case (bus_close_panic i)
  then show ?thesis
    using subscribed_open [of Leaving "eb_channels b i" "view i es"] bus_invD(5) [OF inv, of i]
    by (auto simp: close_channel_def split: option.splits)
qed

interpretation bus: history_invariant bus_step bus_inv
  by standard (rule bus_inv_step)

lemma bus_runs: "runs bus_step newEventBus es b \<Longrightarrow> bus_inv es b"
  by (rule bus.inv_runs) (assumption, rule bus_inv_start)

text \<open>C39. The bus never panics and never blocks its producer: under every interleaving of subscribers
  coming, receiving and leaving, no event is sent on a closed channel, no channel is closed twice,
  and publishing is always possible.\<close>

theorem bus_never_panics:
  assumes "runs bus_step newEventBus es b"
  shows "Panic \<notin> set es \<and> publish e b \<noteq> None"
  using bus_invD(1) [OF bus_runs [OF assms]] publish_succeeds [OF bus_runs [OF assms]] by simp

text \<open>C40. What a subscriber gets depends on the publishers and itself only, never on how slow the
  others are: in every reachable state its queue is the one of the subscriber run alone, holds no
  more than its buffer, and what it has received and still will receive are the events published
  while it was registered, in order, less those that found its queue full; all of them when none did.\<close>

theorem bus_delivery:
  assumes "runs bus_step newEventBus es b" "eb_channels b i = Some ch"
  shows "ch_queue ch = vw_queue (view i es) \<and> length (ch_queue ch) \<le> ch_buffer ch \<and>
    subseq (vw_received (view i es) @ ch_queue ch) (vw_published (view i es)) \<and>
    (vw_dropped (view i es) = 0 \<longrightarrow> vw_received (view i es) @ ch_queue ch = vw_published (view i es))"
proof -
  have "subscriber_ok (eb_stages b i) (Some ch) (view i es)"
    using bus_invD(5) [OF bus_runs [OF assms(1)], of i] assms(2) by simp
  then have q: "ch_queue ch = vw_queue (view i es)" "ch_buffer ch = vw_buffer (view i es)" "view_ok (view i es)"
    by (auto simp: subscriber_ok_def split: option.splits)
  then show ?thesis using subseq_same_length [of "vw_received (view i es) @ ch_queue ch" "vw_published (view i es)"]
    by (simp add: view_ok_def)
qed

text \<open>Events of other subscribers leave a view alone.\<close>

fun concerns :: "int \<Rightarrow> 'e bus_event \<Rightarrow> bool" where
  "concerns i (Allocate j n) = (j = i)"
| "concerns i (Register j) = (j = i)"
| "concerns i (Deregister j) = (j = i)"
| "concerns i (Receive j e) = (j = i)"
| "concerns i (Publish e) = True"
| "concerns i (Close j) = False"
| "concerns i Panic = False"

lemma view_own: "view i es = view i (filter (concerns i) es)"
proof -
  have skip: "view_step i v e = v" if "\<not> concerns i e" for v :: "'a view" and e
    using that by (cases e) auto
  have "foldl (view_step i) v es = foldl (view_step i) v (filter (concerns i) es)" for v
    by (induction es arbitrary: v) (auto simp: skip)
  then show ?thesis by (simp add: view_def)
qed

text \<open>One subscriber with room for one event, which misses the second of two.\<close>

definition sample_bus :: "nat eventBus" where
  "sample_bus = register 1 (snd (allocate 1 newEventBus))"

lemma sample_run: "runs bus_step newEventBus [Allocate 1 1, Register 1] sample_bus"
proof -
  have "runs bus_step newEventBus ([] @ [Allocate 1 1]) (snd (allocate 1 newEventBus :: int \<times> nat eventBus))"
    by (rule runs_step [OF runs_start], rule bus_allocate) (simp add: allocate_def newEventBus_def Let_def)
  then have "runs bus_step newEventBus (([] @ [Allocate 1 1]) @ [Register 1]) sample_bus"
    unfolding sample_bus_def
    by (rule runs_step, intro bus_register) (simp add: allocate_def newEventBus_def Let_def)
  then show ?thesis by simp
qed

theorem bus_never_panics_witness: "publish (7 :: nat) sample_bus \<noteq> None"
  using bus_never_panics [OF sample_run] by simp

theorem bus_delivery_witness:
  "\<exists>b ch. runs bus_step newEventBus [Allocate 1 1, Register 1, Publish (7 :: nat), Publish 8] b \<and>
     eb_channels b 1 = Some ch \<and> ch_queue ch = [7]"
proof -
  obtain b1 where b1: "publish 7 sample_bus = Some b1" "eb_streams b1 = [1]"
    "eb_channels b1 1 = Some \<lparr>ch_buffer = 1, ch_queue = [7], ch_closed = False\<rparr>"
    by (simp add: sample_bus_def publish_def register_def allocate_def newEventBus_def send_to_def
        try_send_def make_channel_def Let_def)
  obtain b2 where b2: "publish 8 b1 = Some b2" "\<exists>ch. eb_channels b2 1 = Some ch"
    using b1 by (simp add: publish_def send_to_def try_send_def)
  have "runs bus_step newEventBus ([Allocate 1 1, Register 1] @ [Publish 7]) b1"
    by (rule runs_step [OF sample_run]) (rule bus_publish [OF b1(1)])
  then have "runs bus_step newEventBus (([Allocate 1 1, Register 1] @ [Publish 7]) @ [Publish 8]) b2"
    by (rule runs_step) (rule bus_publish [OF b2(1)])
  then have run: "runs bus_step newEventBus [Allocate 1 1, Register 1, Publish 7, Publish 8] b2" by simp
  obtain ch where ch: "eb_channels b2 1 = Some ch" using b2(2) by blast
  have "ch_queue ch = [7]" using bus_delivery [OF run ch] by (simp add: view_def view_start_def)
  then show ?thesis using run ch by blast
qed

end
