(* ===== verification/Admission.thy ===== *)
theory Admission
  imports Workload_Sec Rules
begin

text \<open>
  The validating admission webhook, \<open>internal/admission\<close>: the fleet baseline and how it is derived from
  stored scans (\<open>baseline.go\<close>), the built-in checks (\<open>checks.go\<close>), the decision on a request and the
  HTTP handler (\<open>handler.go\<close>), and the counters (\<open>metrics.go\<close>). Decoding an \<open>AdmissionReview\<close> and a
  pod is the work of the Kubernetes libraries and a parameter; so are the store's replies.
\<close>

section \<open>Baselines\<close>

record Norm =
  nm_SamplePods :: int
  nm_SampleContainers :: int
  nm_DigestPinFraction :: float64
  nm_NonRootFraction :: float64
  nm_NoPrivilegeEscalationFraction :: float64
  nm_NamedServiceAccountFraction :: float64
  nm_ReadOnlyRootFSFraction :: float64
  nm_SourceScanID :: string

record Baseline =
  bl_Norm :: Norm
  bl_Previous :: "Norm list"
  bl_Pinned :: bool

definition Norm0 :: Norm where
  "Norm0 = \<lparr>nm_SamplePods = 0, nm_SampleContainers = 0, nm_DigestPinFraction = 0, nm_NonRootFraction = 0,
     nm_NoPrivilegeEscalationFraction = 0, nm_NamedServiceAccountFraction = 0, nm_ReadOnlyRootFSFraction = 0,
     nm_SourceScanID = ''''\<rparr>"

definition Baseline0 :: Baseline where
  "Baseline0 = \<lparr>bl_Norm = Norm0, bl_Previous = [], bl_Pinned = False\<rparr>"

definition MinSampleContainers :: int where "MinSampleContainers = 30"
definition MinSamplePods :: int where "MinSamplePods = 10"

definition Sufficient :: "Norm \<Rightarrow> bool" where
  "Sufficient b \<longleftrightarrow> nm_SampleContainers b \<ge> MinSampleContainers \<and> nm_SamplePods b \<ge> MinSamplePods"

definition Threshold :: float64 where "Threshold = f64 (70 / 100)"

section \<open>Deriving a baseline\<close>

definition floatRatio :: "int \<Rightarrow> int \<Rightarrow> float64" where
  "floatRatio n d =
     (if d \<le> 0 then 0
      else let r = fdiv (of_int64 n) (of_int64 d) in if r < 0 then 0 else if r > 1 then 1 else r)"

text \<open>\<open>json.Unmarshal\<close> into an \<open>int\<close> field: keys match without regard to case, the last match in key
  order wins, null changes nothing, and a value that is not an integer of 64 bits is an error.\<close>

definition json_int :: "json \<Rightarrow> int option" where
  "json_int v =
     (case v of
        JNum x \<Rightarrow> if x = of_int \<lfloor>x\<rfloor> \<and> - (2 ^ 63) \<le> \<lfloor>x\<rfloor> \<and> \<lfloor>x\<rfloor> < 2 ^ 63 then Some \<lfloor>x\<rfloor> else None
      | _ \<Rightarrow> None)"

definition unmarshal_int :: "(string \<times> json) list \<Rightarrow> string \<Rightarrow> int option" where
  "unmarshal_int m name =
     foldl (\<lambda>acc (k, v). case acc of
         None \<Rightarrow> None
       | Some n \<Rightarrow> if \<not> EqualFold k name \<or> v = JNull then Some n else json_int v) (Some 0) (sort_key fst m)"

definition unmarshal_ints :: "string list \<Rightarrow> json \<Rightarrow> int list option" where
  "unmarshal_ints names data =
     (case data of
        JNull \<Rightarrow> Some (map (\<lambda>_. 0) names)
      | JObj m \<Rightarrow> those (map (unmarshal_int m) names)
      | _ \<Rightarrow> None)"

definition tallyImageAudit :: "json \<Rightarrow> int \<times> int" where
  "tallyImageAudit data =
     (case unmarshal_ints [''total_containers'', ''no_digest''] data of
        Some [containers, noDigest] \<Rightarrow> if containers \<le> 0 then (0, 0) else (containers, containers - noDigest)
      | _ \<Rightarrow> (0, 0))"

record workloadSecTally =
  wt_totalPods :: int
  wt_containers :: int
  wt_nonRoot :: int
  wt_allowPrivEsc :: int
  wt_noReadOnlyRoot :: int
  wt_defaultSA :: int

definition tallyWorkloadSec :: "json \<Rightarrow> workloadSecTally" where
  "tallyWorkloadSec data =
     (case unmarshal_ints [''total_pods'', ''baseline_containers'', ''run_as_non_root_containers'',
             ''allow_privilege_escalation'', ''no_read_only_root'', ''default_service_account_pods''] data of
        Some [pods, containers, nonRoot, allowPE, noRO, defaultSA] \<Rightarrow>
          \<lparr>wt_totalPods = pods, wt_containers = containers, wt_nonRoot = nonRoot, wt_allowPrivEsc = allowPE,
           wt_noReadOnlyRoot = noRO, wt_defaultSA = defaultSA\<rparr>
      | _ \<Rightarrow> \<lparr>wt_totalPods = 0, wt_containers = 0, wt_nonRoot = 0, wt_allowPrivEsc = 0, wt_noReadOnlyRoot = 0,
           wt_defaultSA = 0\<rparr>)"

record scan_sums =
  su_totalContainers :: int
  su_withDigest :: int
  su_wsContainers :: int
  su_nonRoot :: int
  su_noPrivEsc :: int
  su_readRO :: int
  su_totalPods :: int
  su_defaultSAPods :: int

definition scan_sums0 :: scan_sums where
  "scan_sums0 = \<lparr>su_totalContainers = 0, su_withDigest = 0, su_wsContainers = 0, su_nonRoot = 0,
     su_noPrivEsc = 0, su_readRO = 0, su_totalPods = 0, su_defaultSAPods = 0\<rparr>"

definition add_images :: "(string, Result) gomap \<Rightarrow> scan_sums \<Rightarrow> scan_sums" where
  "add_images perScanner s =
     (case map_of perScanner ''image-audit'' of
        Some raw \<Rightarrow> if res_State raw = StateOK
          then let (c, d) = tallyImageAudit (res_Data raw)
               in s\<lparr>su_totalContainers := su_totalContainers s + c, su_withDigest := su_withDigest s + d\<rparr>
          else s
      | None \<Rightarrow> s)"

definition add_workloads :: "(string, Result) gomap \<Rightarrow> scan_sums \<Rightarrow> scan_sums" where
  "add_workloads perScanner s =
     (case map_of perScanner ''workload-security'' of
        None \<Rightarrow> s
      | Some raw \<Rightarrow>
          if res_State raw \<noteq> StateOK then s
          else let t = tallyWorkloadSec (res_Data raw);
                   s = s\<lparr>su_totalPods := su_totalPods s + wt_totalPods t,
                         su_defaultSAPods := su_defaultSAPods s + wt_defaultSA t\<rparr>
               in if wt_containers t \<le> 0 then s
                  else s\<lparr>su_wsContainers := su_wsContainers s + wt_containers t,
                         su_nonRoot := su_nonRoot s + min (max (wt_nonRoot t) 0) (wt_containers t),
                         su_noPrivEsc := su_noPrivEsc s + max (wt_containers t - wt_allowPrivEsc t) 0,
                         su_readRO := su_readRO s + max (wt_containers t - wt_noReadOnlyRoot t) 0\<rparr>)"

definition scanBaseline :: "string \<Rightarrow> results \<Rightarrow> Norm" where
  "scanBaseline scanID results =
     (let s = foldl (\<lambda>s (cluster, perScanner). add_workloads perScanner (add_images perScanner s)) scan_sums0 results
      in \<lparr>nm_SamplePods = su_totalPods s, nm_SampleContainers = su_totalContainers s,
          nm_DigestPinFraction = floatRatio (su_withDigest s) (su_totalContainers s),
          nm_NonRootFraction = floatRatio (su_nonRoot s) (su_wsContainers s),
          nm_NoPrivilegeEscalationFraction = floatRatio (su_noPrivEsc s) (su_wsContainers s),
          nm_NamedServiceAccountFraction = floatRatio (su_totalPods s - su_defaultSAPods s) (su_totalPods s),
          nm_ReadOnlyRootFSFraction = floatRatio (su_readRO s) (su_wsContainers s),
          nm_SourceScanID = scanID\<rparr>)"

text \<open>The store answers \<open>ListScans\<close> and \<open>GetScanResults\<close> with a value or an error.\<close>

record scan_store =
  st_ListScans :: "nat \<Rightarrow> string + string list"
  st_GetScanResults :: "string \<Rightarrow> string + results"

fun scan_norms :: "scan_store \<Rightarrow> string list \<Rightarrow> string + Norm list" where
  "scan_norms st [] = Inr []"
| "scan_norms st (scan # scans) =
     (case st_GetScanResults st scan of
        Inl err \<Rightarrow> Inl (''get scan results '' @ scan @ '': '' @ err)
      | Inr results \<Rightarrow>
          (case scan_norms st scans of
             Inl err \<Rightarrow> Inl err
           | Inr ns \<Rightarrow> Inr (scanBaseline scan results # ns)))"

definition recompute :: "scan_store \<Rightarrow> int \<Rightarrow> string + Baseline" where
  "recompute st depth =
     (case st_ListScans st (nat (max depth 1)) of
        Inl err \<Rightarrow> Inl (''list scans: '' @ err)
      | Inr [] \<Rightarrow> Inr Baseline0
      | Inr scans \<Rightarrow>
          (case scan_norms st scans of
             Inl err \<Rightarrow> Inl err
           | Inr ns \<Rightarrow> Inr \<lparr>bl_Norm = hd ns, bl_Previous = tl ns, bl_Pinned = False\<rparr>))"

section \<open>Providers\<close>

text \<open>The caching provider: \<open>Current\<close> recomputes when the cached baseline is stale, keeps the last good
  one when that fails, and answers a canceled caller with what was cached.\<close>

record provider =
  pv_ttl :: int
  pv_Depth :: int
  pv_cached :: Baseline
  pv_cachedAt :: int

definition NewStoreBaselineProvider :: "int \<Rightarrow> int \<Rightarrow> provider" where
  "NewStoreBaselineProvider ttl zero =
     \<lparr>pv_ttl = (if ttl \<le> 0 then 60 * 1000000000 else ttl), pv_Depth = 3, pv_cached = Baseline0, pv_cachedAt = zero\<rparr>"

definition Current :: "provider \<Rightarrow> scan_store \<Rightarrow> int \<Rightarrow> bool \<Rightarrow> provider \<times> Baseline" where
  "Current p st now canceled =
     (if now - pv_cachedAt p < pv_ttl p then (p, pv_cached p)
      else let p' = (case recompute st (pv_Depth p) of
                       Inl err \<Rightarrow> p\<lparr>pv_cachedAt := now\<rparr>
                     | Inr b \<Rightarrow> p\<lparr>pv_cachedAt := now, pv_cached := b\<rparr>)
           in (p', if canceled then pv_cached p else pv_cached p'))"

definition NewPinnedBaselineProvider :: "Baseline \<Rightarrow> Baseline" where
  "NewPinnedBaselineProvider b = b\<lparr>bl_Pinned := True, bl_Previous := []\<rparr>"

text \<open>The baseline file after the YAML decoder.\<close>

definition LoadBaselineFile :: "string \<Rightarrow> string + Norm \<Rightarrow> string + Norm" where
  "LoadBaselineFile path decoded =
     (case decoded of
        Inl err \<Rightarrow> Inl (''pinned baseline file: '' @ err)
      | Inr b \<Rightarrow>
          if nm_SamplePods b < 0 \<or> nm_SampleContainers b < 0
          then Inl (''pinned baseline file: '' @ path @ '': sample counts must not be negative'')
          else case find (\<lambda>(name, v). \<not> (v \<ge> 0 \<and> v \<le> 1))
                 [(''digest_pin_fraction'', nm_DigestPinFraction b),
                  (''non_root_fraction'', nm_NonRootFraction b),
                  (''no_privilege_escalation_fraction'', nm_NoPrivilegeEscalationFraction b),
                  (''named_service_account_fraction'', nm_NamedServiceAccountFraction b),
                  (''read_only_root_fs_fraction'', nm_ReadOnlyRootFSFraction b)] of
                 Some (name, v) \<Rightarrow> Inl (''pinned baseline file: '' @ path @ '': '' @ name @ '' is '' @ fmt_g v
                     @ '', want a value in [0, 1]'')
               | None \<Rightarrow> Inr b)"

section \<open>Checks\<close>

text \<open>A check has a name and judges a pod against a norm: warnings and, when it fires, the reason to deny.\<close>

record Check =
  ck_Name :: string
  ck_Evaluate :: "Pod \<Rightarrow> Norm \<Rightarrow> string list \<times> string"

definition admittedContainers :: "Pod \<Rightarrow> Container list" where
  "admittedContainers pod = Containers (Some pod) False"

definition percent :: "float64 \<Rightarrow> string" where
  "percent fraction = Itoa (math_Trunc (fmul fraction 100))"

definition container_message :: "string \<Rightarrow> float64 \<Rightarrow> string \<Rightarrow> string list \<Rightarrow> string list \<times> string" where
  "container_message name fraction what offenders =
     (if offenders = [] then ([], '''')
      else let msg = name @ '': '' @ percent fraction @ ''% of fleet containers '' @ what @ ''; ''
             @ Itoa (int (length offenders)) @ '' here do not ('' @ strings_Join offenders '', '' @ '')''
           in ([msg], msg))"

definition digestPinCheck :: Check where
  "digestPinCheck = \<lparr>ck_Name = ''digest-pin'', ck_Evaluate = (\<lambda>pod b.
     if nm_DigestPinFraction b < Threshold then ([], '''')
     else container_message ''digest-pin'' (nm_DigestPinFraction b) ''pin images by digest''
       (map (\<lambda>c. ct_Name c @ ''='' @ ct_Image c)
         (filter (\<lambda>c. \<not> contains_str (ct_Image c) ''@sha256:'') (admittedContainers pod))))\<rparr>"

definition nonRootCheck :: Check where
  "nonRootCheck = \<lparr>ck_Name = ''non-root'', ck_Evaluate = (\<lambda>pod b.
     if nm_NonRootFraction b < Threshold then ([], '''')
     else container_message ''non-root'' (nm_NonRootFraction b) ''run as non-root''
       (map ct_Name (filter (\<lambda>c. RootStatus (Some pod) c \<noteq> NonRoot) (admittedContainers pod))))\<rparr>"

definition noPrivEscCheck :: Check where
  "noPrivEscCheck = \<lparr>ck_Name = ''no-privilege-escalation'', ck_Evaluate = (\<lambda>pod b.
     if nm_NoPrivilegeEscalationFraction b < Threshold then ([], '''')
     else container_message ''no-privilege-escalation'' (nm_NoPrivilegeEscalationFraction b)
       ''set allowPrivilegeEscalation=false''
       (map ct_Name (filter AllowsPrivilegeEscalation (admittedContainers pod))))\<rparr>"

definition namedSACheck :: Check where
  "namedSACheck = \<lparr>ck_Name = ''named-service-account'', ck_Evaluate = (\<lambda>pod b.
     if nm_NamedServiceAccountFraction b < Threshold then ([], '''')
     else if pod_ServiceAccountName pod \<noteq> '''' \<and> pod_ServiceAccountName pod \<noteq> ''default'' then ([], '''')
     else let msg = ''named-service-account: '' @ percent (nm_NamedServiceAccountFraction b)
            @ ''% of fleet pods use a named ServiceAccount; this pod uses the namespace default''
          in ([msg], msg))\<rparr>"

definition readOnlyRootFSCheck :: Check where
  "readOnlyRootFSCheck = \<lparr>ck_Name = ''read-only-root-fs'', ck_Evaluate = (\<lambda>pod b.
     if nm_ReadOnlyRootFSFraction b < Threshold then ([], '''')
     else container_message ''read-only-root-fs'' (nm_ReadOnlyRootFSFraction b) ''run with a read-only root filesystem''
       (map ct_Name (filter (\<lambda>c. \<not> ReadOnlyRootFS c) (admittedContainers pod))))\<rparr>"

definition DefaultChecks :: "Check list" where
  "DefaultChecks = [digestPinCheck, nonRootCheck, noPrivEscCheck, namedSACheck, readOnlyRootFSCheck]"

section \<open>Counters\<close>

definition DecisionAllowed :: string where "DecisionAllowed = ''allowed''"
definition DecisionDenied :: string where "DecisionDenied = ''denied''"
definition DecisionWarned :: string where "DecisionWarned = ''warned''"
definition DecisionSkipped :: string where "DecisionSkipped = ''skipped''"

definition decisionNames :: "string list" where
  "decisionNames = [DecisionAllowed, DecisionDenied, DecisionWarned, DecisionSkipped]"

definition enforcing :: "string \<Rightarrow> bool" where
  "enforcing mode \<longleftrightarrow> mode = ''enforce''"

record Metrics =
  mt_decisions :: "bool \<times> string \<Rightarrow> int"
  mt_failures :: "(string, int) gomap"

definition Metrics0 :: Metrics where
  "Metrics0 = \<lparr>mt_decisions = (\<lambda>_. 0), mt_failures = []\<rparr>"

definition RecordDecision :: "string \<Rightarrow> string \<Rightarrow> Metrics \<Rightarrow> Metrics" where
  "RecordDecision mode decision m =
     (if decision \<in> set decisionNames
      then m\<lparr>mt_decisions := (mt_decisions m)((enforcing mode, decision) := mt_decisions m (enforcing mode, decision) + 1)\<rparr>
      else m)"

definition RecordCheckFailure :: "string \<Rightarrow> Metrics \<Rightarrow> Metrics" where
  "RecordCheckFailure check m = m\<lparr>mt_failures := map_incr check (mt_failures m)\<rparr>"

text \<open>The lines of \<open>WriteTo\<close> to a writer that does not fail.\<close>

definition decision_line :: "Metrics \<Rightarrow> bool \<times> string \<Rightarrow> string" where
  "decision_line m k =
     ''fleetsweeper_admission_decisions_total{mode='' @ quote (if fst k then ''enforce'' else ''advisory'')
     @ '',decision='' @ quote (snd k) @ ''} '' @ Itoa (mt_decisions m k)"

definition WriteTo :: "Metrics \<Rightarrow> string list" where
  "WriteTo m =
     [''# HELP fleetsweeper_admission_decisions_total Admission decisions since startup, by mode and decision.'',
      ''# TYPE fleetsweeper_admission_decisions_total counter''] @
     map (decision_line m) (List.product [False, True] decisionNames) @
     [''# HELP fleetsweeper_admission_check_failures_total Pods that fired a fleet-norm check since startup, by check.'',
      ''# TYPE fleetsweeper_admission_check_failures_total counter''] @
     map (\<lambda>name. ''fleetsweeper_admission_check_failures_total{check='' @ quote name @ ''} ''
            @ Itoa (lookup_default 0 (mt_failures m) name)) (sort (map fst (mt_failures m)))"

section \<open>The decision\<close>

record Handler =
  hd_Checks :: "Check list"
  hd_Mode :: string
  hd_MaxBytes :: int
  hd_StableScans :: int

definition DefaultMaxBytes :: int where "DefaultMaxBytes = 2 ^ 20"
definition DefaultStableScans :: int where "DefaultStableScans = 3"

definition NewHandler :: "Check list \<Rightarrow> string \<Rightarrow> Handler" where
  "NewHandler checks mode =
     \<lparr>hd_Checks = checks, hd_Mode = mode, hd_MaxBytes = DefaultMaxBytes, hd_StableScans = DefaultStableScans\<rparr>"

text \<open>The pod of a request is what the JSON decoder makes of its object.\<close>

record AdmissionRequest =
  ar_UID :: string
  ar_Kind :: string
  ar_Object :: "string + Pod"

record AdmissionResponse =
  rs_UID :: string
  rs_Allowed :: bool
  rs_Warnings :: "string list"
  rs_Message :: "string option"

definition decodePod :: "AdmissionRequest \<Rightarrow> string + Pod" where
  "decodePod req =
     (if ar_Kind req \<noteq> ''Pod'' then Inl (''expected Pod, got '' @ ar_Kind req)
      else case ar_Object req of Inl err \<Rightarrow> Inl (''unmarshal pod: '' @ err) | Inr pod \<Rightarrow> Inr pod)"

fun held_loop :: "(Norm \<Rightarrow> string) \<Rightarrow> Norm list \<Rightarrow> int \<Rightarrow> int \<Rightarrow> int" where
  "held_loop deny [] want held = held"
| "held_loop deny (prev # ps) want held =
     (if held \<ge> want \<or> \<not> Sufficient prev then held
      else if deny prev = '''' then held
      else held_loop deny ps want (held + 1))"

definition heldScans :: "Check \<Rightarrow> Pod \<Rightarrow> Baseline \<Rightarrow> int \<Rightarrow> int" where
  "heldScans chk pod b want =
     (if bl_Pinned b then want else held_loop (\<lambda>n. snd (ck_Evaluate chk pod n)) (bl_Previous b) want 1)"

definition joinDenies :: "string list \<Rightarrow> string" where
  "joinDenies ms = strings_Join ms ''; ''"

text \<open>One turn of the loop over the checks: the warnings, the denials and the checks that fired.\<close>

definition window_of :: "Handler \<Rightarrow> int" where
  "window_of h = (if hd_StableScans h \<le> 0 then DefaultStableScans else hd_StableScans h)"

definition run_check ::
  "Handler \<Rightarrow> Pod \<Rightarrow> Baseline \<Rightarrow> string list \<times> string list \<times> string list \<Rightarrow> Check \<Rightarrow> string list \<times> string list \<times> string list" where
  "run_check h pod b st chk =
     (let (warnings, denies, fired) = st;
          (ws, deny) = ck_Evaluate chk pod (bl_Norm b);
          fired' = (if deny \<noteq> '''' \<or> ws \<noteq> [] then fired @ [ck_Name chk] else fired);
          warnings' = warnings @ map (\<lambda>w. ''fleetsweeper: '' @ w) ws
      in if deny = '''' \<or> \<not> enforcing (hd_Mode h) then (warnings', denies, fired')
         else let window = window_of h; held = heldScans chk pod b window
              in if held < window
                 then (warnings' @ [''fleetsweeper: '' @ ck_Name chk @ '' not enforced: its fleet norm has held for ''
                         @ Itoa held @ '' of the '' @ Itoa window @ '' consecutive scans enforcement needs''],
                       denies, fired')
                 else (warnings', denies @ [deny], fired'))"

definition DryRunAnnotation :: string where
  "DryRunAnnotation = ''fleetsweeper.dev/admission-dry-run''"

text \<open>The response, the decision to count, and the checks that fired.\<close>

definition evaluateDecision ::
  "Handler \<Rightarrow> Baseline \<Rightarrow> AdmissionRequest \<Rightarrow> AdmissionResponse \<times> string \<times> string list" where
  "evaluateDecision h b req =
     (let resp = \<lparr>rs_UID = ar_UID req, rs_Allowed = True, rs_Warnings = [], rs_Message = None\<rparr>
      in case decodePod req of
           Inl err \<Rightarrow> (resp\<lparr>rs_Warnings := [''fleetsweeper: failed to decode pod; allowing'']\<rparr>, DecisionSkipped, [])
         | Inr pod \<Rightarrow>
             if \<not> Sufficient (bl_Norm b)
             then (resp\<lparr>rs_Warnings := [''fleetsweeper: baseline has '' @ Itoa (nm_SamplePods (bl_Norm b)) @ '' pods and ''
                     @ Itoa (nm_SampleContainers (bl_Norm b)) @ '' containers; evaluation starts at ''
                     @ Itoa MinSamplePods @ '' pods and '' @ Itoa MinSampleContainers @ '' containers'']\<rparr>,
                   DecisionSkipped, [])
             else let dryRun = (lookup_default '''' (pod_Annotations pod) DryRunAnnotation = ''true'');
                      (warnings, denies, fired) = foldl (run_check h pod b) ([], [], []) (hd_Checks h)
                  in if dryRun \<and> denies \<noteq> []
                     then (resp\<lparr>rs_Warnings := warnings @ [''fleetsweeper: dry-run: would deny: '' @ joinDenies denies]\<rparr>,
                           DecisionWarned, fired)
                     else if enforcing (hd_Mode h) \<and> denies \<noteq> []
                     then (resp\<lparr>rs_Allowed := False, rs_Warnings := warnings,
                             rs_Message := Some (''fleetsweeper enforce: '' @ joinDenies denies)\<rparr>, DecisionDenied, fired)
                     else if warnings \<noteq> [] then (resp\<lparr>rs_Warnings := warnings\<rparr>, DecisionWarned, fired)
                     else (resp, DecisionAllowed, fired))"

definition evaluate :: "Handler \<Rightarrow> Baseline \<Rightarrow> AdmissionRequest \<Rightarrow> Metrics \<Rightarrow> Metrics \<times> AdmissionResponse" where
  "evaluate h b req m =
     (let (resp, decision, fired) = evaluateDecision h b req
      in (RecordDecision (hd_Mode h) decision (foldl (\<lambda>m c. RecordCheckFailure c m) m fired), resp))"

text \<open>The HTTP handler: a body the limit cuts off is a client error, a review that cannot be decoded or
  holds no request is allowed.\<close>

datatype http_reply =
    BadRequest string
  | Review AdmissionResponse

definition unevaluated :: "string \<Rightarrow> AdmissionResponse" where
  "unevaluated err = \<lparr>rs_UID = '''', rs_Allowed = True,
     rs_Warnings = [''fleetsweeper: could not evaluate request ('' @ err @ ''); allowing''], rs_Message = None\<rparr>"

definition ServeHTTP ::
  "(string \<Rightarrow> string + AdmissionRequest option) \<Rightarrow> Handler \<Rightarrow> Baseline \<Rightarrow> string \<Rightarrow> Metrics \<Rightarrow> Metrics \<times> http_reply" where
  "ServeHTTP decode h b body m =
     (let limit = (if hd_MaxBytes h \<le> 0 then DefaultMaxBytes else hd_MaxBytes h)
      in if int (length body) > limit then (m, BadRequest ''read body: http: request body too large'')
         else case decode body of
                Inl err \<Rightarrow> (RecordDecision (hd_Mode h) DecisionSkipped m, Review (unevaluated (''decode: '' @ err)))
              | Inr None \<Rightarrow> (RecordDecision (hd_Mode h) DecisionSkipped m, Review (unevaluated ''missing request''))
              | Inr (Some req) \<Rightarrow> let (m', resp) = evaluate h b req m in (m', Review resp))"

section \<open>When a pod is denied\<close>

lemma held_loop_reaches:
  "want \<le> held_loop deny ps want held \<longleftrightarrow>
     want \<le> held \<or> want - held \<le> int (length ps) \<and>
       list_all (\<lambda>n. Sufficient n \<and> deny n \<noteq> '''') (take (nat (want - held)) ps)"
proof (induction ps arbitrary: held)
  case (Cons p ps)
  show ?case
  proof (cases "want \<le> held")
    case False
    then have "nat (want - held) = Suc (nat (want - (held + 1)))" by linarith
    then show ?thesis using False Cons.IH [of "held + 1"] by auto
  qed simp
qed simp

text \<open>The shares a norm holds, and what a pod must show to break one.\<close>

definition norm_checks :: "((Norm \<Rightarrow> float64) \<times> (Pod \<Rightarrow> bool)) list" where
  "norm_checks =
     [(nm_DigestPinFraction, \<lambda>pod. list_ex (\<lambda>c. \<not> contains_str (ct_Image c) ''@sha256:'') (admittedContainers pod)),
      (nm_NonRootFraction, \<lambda>pod. list_ex (\<lambda>c. RootStatus (Some pod) c \<noteq> NonRoot) (admittedContainers pod)),
      (nm_NoPrivilegeEscalationFraction, \<lambda>pod. list_ex AllowsPrivilegeEscalation (admittedContainers pod)),
      (nm_NamedServiceAccountFraction, default_account),
      (nm_ReadOnlyRootFSFraction, \<lambda>pod. list_ex (\<lambda>c. \<not> ReadOnlyRootFS c) (admittedContainers pod))]"

definition fires :: "Check \<Rightarrow> Pod \<Rightarrow> Norm \<Rightarrow> bool" where
  "fires chk pod n \<longleftrightarrow> snd (ck_Evaluate chk pod n) \<noteq> ''''"

lemma container_message_fires [simp]: "snd (container_message name f what offenders) = '''' \<longleftrightarrow> offenders = []"
  by (simp add: container_message_def Let_def)

lemma DefaultChecks_fire:
  "list_all2 (\<lambda>chk (share, breaks). \<forall>pod n. fires chk pod n \<longleftrightarrow> Threshold \<le> share n \<and> breaks pod) DefaultChecks norm_checks"
  by (auto simp: DefaultChecks_def norm_checks_def fires_def digestPinCheck_def nonRootCheck_def noPrivEscCheck_def
      namedSACheck_def readOnlyRootFSCheck_def default_account_def list_ex_iff filter_empty_conv not_less Let_def)

definition denies_of :: "Handler \<Rightarrow> Pod \<Rightarrow> Baseline \<Rightarrow> Check list \<Rightarrow> string list" where
  "denies_of h pod b chks =
     map (\<lambda>c. snd (ck_Evaluate c pod (bl_Norm b)))
       (filter (\<lambda>c. fires c pod (bl_Norm b) \<and> enforcing (hd_Mode h) \<and> window_of h \<le> heldScans c pod b (window_of h)) chks)"

lemma run_checks_denies:
  "fst (snd (foldl (run_check h pod b) (ws, ds, fs) chks)) = ds @ denies_of h pod b chks"
  by (induction chks arbitrary: ws ds fs)
    (auto simp: denies_of_def run_check_def fires_def Let_def split_beta not_less)

text \<open>How long a share has held: in the latest scan, and in the ones before it up to the window, each
  with enough data to judge by; always for a pinned baseline.\<close>

definition norm_held :: "int \<Rightarrow> (Norm \<Rightarrow> float64) \<Rightarrow> Baseline \<Rightarrow> bool" where
  "norm_held window share b \<longleftrightarrow>
     Threshold \<le> share (bl_Norm b) \<and>
     (bl_Pinned b \<or> window - 1 \<le> int (length (bl_Previous b)) \<and>
        list_all (\<lambda>n. Sufficient n \<and> Threshold \<le> share n) (take (nat (window - 1)) (bl_Previous b)))"

lemma held_enough:
  assumes "\<And>n. fires c pod n \<longleftrightarrow> Threshold \<le> share n \<and> breaks pod" "0 < window"
  shows "fires c pod (bl_Norm b) \<and> window \<le> heldScans c pod b window \<longleftrightarrow> breaks pod \<and> norm_held window share b"
proof (cases "breaks pod \<and> \<not> bl_Pinned b")
  case True
  then have "snd (ck_Evaluate c pod n) \<noteq> '''' \<longleftrightarrow> Threshold \<le> share n" for n
    using assms(1) [of n] by (simp add: fires_def)
  then show ?thesis
    using True assms by (auto simp: heldScans_def norm_held_def held_loop_reaches)
next
  case False
  then show ?thesis using assms by (auto simp: heldScans_def norm_held_def)
qed

lemma window_pos: "0 < window_of h"
  by (simp add: window_of_def DefaultStableScans_def)

lemma not_allowed_iff:
  "\<not> rs_Allowed (fst (evaluateDecision h b req)) \<longleftrightarrow>
     (\<exists>pod. decodePod req = Inr pod \<and> Sufficient (bl_Norm b) \<and>
        lookup_default '''' (pod_Annotations pod) DryRunAnnotation \<noteq> ''true'' \<and>
        enforcing (hd_Mode h) \<and> denies_of h pod b (hd_Checks h) \<noteq> [])"
proof (cases "decodePod req")
  case (Inr pod)
  obtain ws ds fs where f: "foldl (run_check h pod b) ([], [], []) (hd_Checks h) = (ws, ds, fs)" by (rule prod_cases3)
  then have "ds = denies_of h pod b (hd_Checks h)"
    using run_checks_denies [of h pod b "[]" "[]" "[]" "hd_Checks h"] by simp
  then show ?thesis using f Inr by (simp add: evaluateDecision_def Let_def)
qed (simp add: evaluateDecision_def)

lemma denies_default:
  "denies_of h pod b DefaultChecks \<noteq> [] \<and> enforcing (hd_Mode h) \<longleftrightarrow>
     enforcing (hd_Mode h) \<and>
     list_ex (\<lambda>(share, breaks). breaks pod \<and> norm_held (window_of h) share b) norm_checks"
proof -
  have "list_ex (\<lambda>c. fires c pod (bl_Norm b) \<and> window_of h \<le> heldScans c pod b (window_of h)) chks \<longleftrightarrow>
      list_ex (\<lambda>(share, breaks). breaks pod \<and> norm_held (window_of h) share b) nms"
    if "list_all2 (\<lambda>chk (share, breaks). \<forall>pod n. fires chk pod n \<longleftrightarrow> Threshold \<le> share n \<and> breaks pod) chks nms" for chks nms
    using that
  proof (induction rule: list_all2_induct)
    case (Cons chk chks nm nms)
    obtain share breaks where nm: "nm = (share, breaks)" by (cases nm)
    have "fires chk pod (bl_Norm b) \<and> window_of h \<le> heldScans chk pod b (window_of h) \<longleftrightarrow>
        breaks pod \<and> norm_held (window_of h) share b"
      using Cons.hyps(1) by (intro held_enough [OF _ window_pos]) (simp add: nm)
    then show ?case using Cons.IH by (simp add: nm)
  qed simp
  from this [OF DefaultChecks_fire]
  have "list_ex (\<lambda>c. fires c pod (bl_Norm b) \<and> window_of h \<le> heldScans c pod b (window_of h)) DefaultChecks \<longleftrightarrow>
      list_ex (\<lambda>(share, breaks). breaks pod \<and> norm_held (window_of h) share b) norm_checks" .
  then show ?thesis by (auto simp: denies_of_def list_ex_iff filter_empty_conv)
qed

text \<open>C7. A pod is denied exactly when the webhook enforces, the request holds a pod that does not ask
  for a dry run, the baseline has enough data, and the pod breaks a norm at least seventy percent
  of the fleet keeps, in the latest scan and in each of the scans before it that the stability
  window covers; a pinned norm needs no history.\<close>

theorem denied_iff:
  assumes "hd_Checks h = DefaultChecks"
  shows "\<not> rs_Allowed (fst (evaluateDecision h b req)) \<longleftrightarrow>
    hd_Mode h = ''enforce'' \<and>
    (\<exists>pod. decodePod req = Inr pod \<and> Sufficient (bl_Norm b) \<and>
      lookup_default '''' (pod_Annotations pod) DryRunAnnotation \<noteq> ''true'' \<and>
      list_ex (\<lambda>(share, breaks). breaks pod \<and> norm_held (window_of h) share b) norm_checks)"
  using not_allowed_iff [of h b req] denies_default [of h _ b] assms by (auto simp: enforcing_def)

section \<open>Failing open\<close>

definition decisions_counted :: "Metrics \<Rightarrow> int" where
  "decisions_counted m = (\<Sum>k \<in> UNIV \<times> set decisionNames. mt_decisions m k)"

lemma RecordDecision_counted:
  assumes "decision \<in> set decisionNames"
  shows "decisions_counted (RecordDecision mode decision m) = decisions_counted m + 1"
proof -
  let ?k = "(enforcing mode, decision)"
  have fin: "finite (UNIV \<times> set decisionNames :: (bool \<times> string) set)" by simp
  have k: "?k \<in> UNIV \<times> set decisionNames" using assms by simp
  have "(\<Sum>k \<in> UNIV \<times> set decisionNames. ((mt_decisions m)(?k := mt_decisions m ?k + 1)) k) =
      (mt_decisions m ?k + 1) + (\<Sum>k \<in> UNIV \<times> set decisionNames - {?k}. mt_decisions m k)"
    using sum.remove [OF fin k, of "(mt_decisions m)(?k := mt_decisions m ?k + 1)"] by simp
  also have "\<dots> = (\<Sum>k \<in> UNIV \<times> set decisionNames. mt_decisions m k) + 1"
    using sum.remove [OF fin k, of "mt_decisions m"] by simp
  finally show ?thesis using assms by (simp add: decisions_counted_def RecordDecision_def)
qed

lemma RecordCheckFailure_counted [simp]:
  "decisions_counted (foldl (\<lambda>m c. RecordCheckFailure c m) m fired) = decisions_counted m"
  by (induction fired arbitrary: m) (simp_all add: RecordCheckFailure_def decisions_counted_def)

lemma decision_named: "fst (snd (evaluateDecision h b req)) \<in> set decisionNames"
  by (auto simp: evaluateDecision_def decisionNames_def Let_def split: sum.splits prod.splits)

lemma response_uid: "rs_UID (fst (evaluateDecision h b req)) = ar_UID req"
  by (auto simp: evaluateDecision_def Let_def split: sum.splits prod.splits)




section \<open>From scans to norms\<close>

text \<open>Decoding a payload whose keys are distinct and in lower case finds the value under the name.\<close>

lemma unmarshal_fold:
  "\<lbrakk>distinct (map fst xs); \<And>k. k \<in> fst ` set xs \<Longrightarrow> EqualFold k name \<Longrightarrow> k = name\<rbrakk> \<Longrightarrow>
   foldl (\<lambda>acc (k, v). case acc of
       None \<Rightarrow> None
     | Some n \<Rightarrow> if \<not> EqualFold k name \<or> v = JNull then Some n else json_int v) (Some z) xs =
   (case map_of xs name of None \<Rightarrow> Some z | Some v \<Rightarrow> if v = JNull then Some z else json_int v)"
proof (induction xs arbitrary: z)
  case (Cons x xs)
  obtain k v where x: "x = (k, v)" by (cases x)
  have none: "foldl (\<lambda>acc (k, v). case acc of None \<Rightarrow> None
      | Some n \<Rightarrow> if \<not> EqualFold k name \<or> v = JNull then Some n else json_int v) None ys = None" for ys
    by (induction ys) auto
  show ?case
  proof (cases "k = name")
    case True
    then have "map_of xs name = None" using Cons.prems(1) by (auto simp: x map_of_eq_None_iff)
    moreover have "EqualFold name name" by (simp add: EqualFold_def)
    ultimately show ?thesis using Cons True by (cases "json_int v") (simp_all add: x none)
  next
    case False
    then have "\<not> EqualFold k name" using Cons.prems(2) [of k] by (auto simp: x)
    then show ?thesis using Cons False by (simp add: x)
  qed
qed simp

lemma unmarshal_int_eq:
  assumes "distinct (map fst m)" "list_all (\<lambda>k. ToLower k = k) (map fst m)" "ToLower name = name"
  shows "unmarshal_int m name = (case map_of m name of None \<Rightarrow> Some 0 | Some v \<Rightarrow> if v = JNull then Some 0 else json_int v)"
proof -
  have "mset (map fst (sort_key fst m)) = mset (map fst m)" by simp
  then have d: "distinct (map fst (sort_key fst m))" using assms(1) mset_eq_imp_distinct_iff by metis
  then have m: "map_of (sort_key fst m) = map_of m" using assms(1) by (simp add: map_of_inject_set)
  have "k = name" if "k \<in> fst ` set (sort_key fst m)" "EqualFold k name" for k
    using that assms(2,3) by (auto simp: EqualFold_def list_all_iff)
  from unmarshal_fold [OF d this, of 0] show ?thesis by (simp add: unmarshal_int_def m)
qed

lemma json_int_of_int64: "0 \<le> n \<Longrightarrow> n < 2 ^ 53 \<Longrightarrow> json_int (JNum (of_int64 n)) = Some n"
  by (simp add: json_int_def of_int64_def f64_of_int)

lemma data_keys:
  "data_json d = JObj m \<Longrightarrow> distinct (map fst m) \<and> list_all (\<lambda>k. ToLower k = k) (map fst m)"
proof -
  have "distinct (map fst m) \<and> list_all (\<lambda>k. ToLower k = k) (map fst m)"
    if "map fst m = [''total_pods'', ''privileged_containers'', ''host_network_pods'', ''host_pid_pods'', ''host_ipc_pods'',
      ''host_path_volumes'', ''baseline_containers'', ''run_as_root_containers'', ''run_as_non_root_containers'',
      ''run_as_unknown_containers'', ''capability_additions'', ''missing_capability_drop_all'',
      ''allow_privilege_escalation'', ''missing_seccomp_profile'', ''no_read_only_root'',
      ''default_service_account_pods'', ''high_risk_pods'']"
    unfolding that by code_simp
  then show "data_json d = JObj m \<Longrightarrow> distinct (map fst m) \<and> list_all (\<lambda>k. ToLower k = k) (map fst m)"
    by (auto simp: data_json_def)
qed

text \<open>The tally of a payload the workload-security scanner wrote gives its counts back.\<close>

lemma tally_data:
  assumes "list_all (\<lambda>n. 0 \<le> n \<and> n < 2 ^ 53) [ws_TotalPods d, ws_BaselineContainers d, ws_RunAsNonRootContainers d,
    ws_AllowPrivilegeEscalation d, ws_NoReadOnlyRoot d, ws_DefaultServiceAccountPods d]"
  shows "tallyWorkloadSec (data_json d) =
    \<lparr>wt_totalPods = ws_TotalPods d, wt_containers = ws_BaselineContainers d, wt_nonRoot = ws_RunAsNonRootContainers d,
     wt_allowPrivEsc = ws_AllowPrivilegeEscalation d, wt_noReadOnlyRoot = ws_NoReadOnlyRoot d,
     wt_defaultSA = ws_DefaultServiceAccountPods d\<rparr>"
proof -
  define m where "m = (case data_json d of JObj m \<Rightarrow> m | _ \<Rightarrow> [])"
  have m: "data_json d = JObj m" by (simp add: m_def data_json_def)
  have found: "map_of m ''total_pods'' = Some (JNum (of_int64 (ws_TotalPods d)))"
    "map_of m ''baseline_containers'' = Some (JNum (of_int64 (ws_BaselineContainers d)))"
    "map_of m ''run_as_non_root_containers'' = Some (JNum (of_int64 (ws_RunAsNonRootContainers d)))"
    "map_of m ''allow_privilege_escalation'' = Some (JNum (of_int64 (ws_AllowPrivilegeEscalation d)))"
    "map_of m ''no_read_only_root'' = Some (JNum (of_int64 (ws_NoReadOnlyRoot d)))"
    "map_of m ''default_service_account_pods'' = Some (JNum (of_int64 (ws_DefaultServiceAccountPods d)))"
    by (simp_all add: m_def data_json_def)
  note keys = data_keys [OF m]
  have get: "unmarshal_int m name = Some n" if "map_of m name = Some (JNum (of_int64 n))" "ToLower name = name" "0 \<le> n" "n < 2 ^ 53" for name n
    using unmarshal_int_eq [OF conjunct1 [OF keys] conjunct2 [OF keys] that(2)] that(1) json_int_of_int64 [OF that(3,4)] by simp
  have lower: "ToLower ''total_pods'' = ''total_pods''" "ToLower ''baseline_containers'' = ''baseline_containers''"
    "ToLower ''run_as_non_root_containers'' = ''run_as_non_root_containers''"
    "ToLower ''allow_privilege_escalation'' = ''allow_privilege_escalation''"
    "ToLower ''no_read_only_root'' = ''no_read_only_root''"
    "ToLower ''default_service_account_pods'' = ''default_service_account_pods''" by code_simp+
  have "unmarshal_int m ''total_pods'' = Some (ws_TotalPods d)"
    "unmarshal_int m ''baseline_containers'' = Some (ws_BaselineContainers d)"
    "unmarshal_int m ''run_as_non_root_containers'' = Some (ws_RunAsNonRootContainers d)"
    "unmarshal_int m ''allow_privilege_escalation'' = Some (ws_AllowPrivilegeEscalation d)"
    "unmarshal_int m ''no_read_only_root'' = Some (ws_NoReadOnlyRoot d)"
    "unmarshal_int m ''default_service_account_pods'' = Some (ws_DefaultServiceAccountPods d)"
    using assms by (auto intro: get [OF found(1) lower(1)] get [OF found(2) lower(2)] get [OF found(3) lower(3)]
        get [OF found(4) lower(4)] get [OF found(5) lower(5)] get [OF found(6) lower(6)])
  then show ?thesis by (simp add: tallyWorkloadSec_def unmarshal_ints_def m)
qed

lemma floatRatio_threshold:
  assumes "0 \<le> k" "k \<le> t" "t < 2 ^ 47"
  shows "Threshold \<le> floatRatio k t \<longleftrightarrow> 0 < t \<and> 7 * t \<le> 10 * k"
proof (cases "0 < t")
  case True
  have ex: "of_int64 k = of_int k" "of_int64 t = of_int t" using assms True by (simp_all add: of_int64_def f64_of_int)
  have r: "0 \<le> f64 (of_int k / of_int t)" "f64 (of_int k / of_int t) \<le> f64 1"
    using assms True by (auto intro!: f64_nonneg f64_mono)
  have one: "f64 1 = 1" using f64_of_int [of 1] by simp
  have "floatRatio k t = f64 (of_int k / of_int t)"
    using r True by (auto simp: floatRatio_def Let_def fdiv_def ex one)
  moreover have "f64 (of_int 7 / of_int 10) \<le> f64 (of_int k / of_int t) \<longleftrightarrow> 7 * t \<le> k * 10"
    using assms True by (intro f64_frac_le_iff) simp_all
  ultimately show ?thesis using True by (simp add: Threshold_def mult.commute)
next
  case False
  have "(0::rat) < Threshold"
  proof -
    have "f64 (1 / 2) \<le> Threshold" unfolding Threshold_def by (rule f64_mono) simp
    moreover have "f64 (1 / 2) = 1 / 2" using f64_exact [of 1 "- 1"] by (simp add: power_int_minus emin_def)
    ultimately show ?thesis by simp
  qed
  then show ?thesis using False by (simp add: floatRatio_def)
qed

lemma add_images_keeps [simp]:
  "su_wsContainers (add_images per s) = su_wsContainers s" "su_nonRoot (add_images per s) = su_nonRoot s"
  "su_noPrivEsc (add_images per s) = su_noPrivEsc s" "su_readRO (add_images per s) = su_readRO s"
  "su_totalPods (add_images per s) = su_totalPods s" "su_defaultSAPods (add_images per s) = su_defaultSAPods s"
  by (simp_all add: add_images_def Let_def split_beta split: option.splits)

lemma tally_not: "int (length xs) - tally P xs = tally (\<lambda>x. \<not> P x) xs"
  using sum_length_filter_compl [of P xs] by (simp add: tally_def)

lemma scan_workloads_Inr:
  "fst (scan_workloads (Inr pods)) =
     \<lparr>res_Scanner = ''workload-security'', res_State = StateOK, res_Reason = '''', res_Data = data_json (scan_pods pods)\<rparr>"
  by (simp add: scan_workloads_def Observe_def Finish_def Coverage0_def finish_flags_def Let_def split_beta)

lemma tally_small: "length xs < 2 ^ 53 \<Longrightarrow> tally P xs < 2 ^ 53"
  using tally_nonneg(2) [of P xs] by simp

lemma add_workloads_scanned:
  assumes "map_of per ''workload-security'' = Some (fst (scan_workloads (Inr pods)))"
    and "length pods < 2 ^ 53" "length (baseline_containers pods) < 2 ^ 53"
  shows "su_wsContainers (add_workloads per s) = su_wsContainers s + int (length (baseline_containers pods))"
    and "su_nonRoot (add_workloads per s) = su_nonRoot s + tally (\<lambda>(p, c). RootStatus (Some p) c = NonRoot) (baseline_containers pods)"
    and "su_noPrivEsc (add_workloads per s) = su_noPrivEsc s + tally (\<lambda>(p, c). \<not> AllowsPrivilegeEscalation c) (baseline_containers pods)"
    and "su_readRO (add_workloads per s) = su_readRO s + tally (\<lambda>(p, c). ReadOnlyRootFS c) (baseline_containers pods)"
    and "su_totalPods (add_workloads per s) = su_totalPods s + int (length pods)"
    and "su_defaultSAPods (add_workloads per s) = su_defaultSAPods s + tally default_account pods"
proof -
  let ?base = "baseline_containers pods"
  let ?d = "scan_pods pods"
  have d: "ws_TotalPods ?d = int (length pods)" "ws_BaselineContainers ?d = int (length ?base)"
    "ws_RunAsNonRootContainers ?d = tally (\<lambda>(p, c). RootStatus (Some p) c = NonRoot) ?base"
    "ws_AllowPrivilegeEscalation ?d = tally (\<lambda>(p, c). AllowsPrivilegeEscalation c) ?base"
    "ws_NoReadOnlyRoot ?d = tally (\<lambda>(p, c). \<not> ReadOnlyRootFS c) ?base"
    "ws_DefaultServiceAccountPods ?d = tally default_account pods"
    by (simp_all add: scan_pods_def Let_def count_pods Data0_def)
  have t: "tallyWorkloadSec (data_json ?d) =
    \<lparr>wt_totalPods = ws_TotalPods ?d, wt_containers = ws_BaselineContainers ?d, wt_nonRoot = ws_RunAsNonRootContainers ?d,
     wt_allowPrivEsc = ws_AllowPrivilegeEscalation ?d, wt_noReadOnlyRoot = ws_NoReadOnlyRoot ?d,
     wt_defaultSA = ws_DefaultServiceAccountPods ?d\<rparr>"
    using assms(2,3) by (intro tally_data) (simp add: d tally_nonneg(1) tally_small [simplified])
  note le = tally_nonneg
  have compl: "int (length ?base) - tally (\<lambda>(p, c). AllowsPrivilegeEscalation c) ?base =
      tally (\<lambda>(p, c). \<not> AllowsPrivilegeEscalation c) ?base"
    "int (length ?base) - tally (\<lambda>(p, c). \<not> ReadOnlyRootFS c) ?base = tally (\<lambda>(p, c). ReadOnlyRootFS c) ?base"
    by (simp_all add: tally_not case_prod_unfold)
  have step: "add_workloads per s = (let s = s\<lparr>su_totalPods := su_totalPods s + int (length pods),
       su_defaultSAPods := su_defaultSAPods s + tally default_account pods\<rparr>
     in if int (length ?base) \<le> 0 then s
        else s\<lparr>su_wsContainers := su_wsContainers s + int (length ?base),
           su_nonRoot := su_nonRoot s + tally (\<lambda>(p, c). RootStatus (Some p) c = NonRoot) ?base,
           su_noPrivEsc := su_noPrivEsc s + tally (\<lambda>(p, c). \<not> AllowsPrivilegeEscalation c) ?base,
           su_readRO := su_readRO s + tally (\<lambda>(p, c). ReadOnlyRootFS c) ?base\<rparr>)"
    using assms(1)
    by (simp add: add_workloads_def scan_workloads_Inr t d Let_def compl max_absorb1 [OF le(1)] min_absorb1 [OF le(2)])
  have empty: "?base = [] \<Longrightarrow> tally P ?base = 0" for P by simp
  show "su_wsContainers (add_workloads per s) = su_wsContainers s + int (length ?base)"
    "su_nonRoot (add_workloads per s) = su_nonRoot s + tally (\<lambda>(p, c). RootStatus (Some p) c = NonRoot) ?base"
    "su_noPrivEsc (add_workloads per s) = su_noPrivEsc s + tally (\<lambda>(p, c). \<not> AllowsPrivilegeEscalation c) ?base"
    "su_readRO (add_workloads per s) = su_readRO s + tally (\<lambda>(p, c). ReadOnlyRootFS c) ?base"
    "su_totalPods (add_workloads per s) = su_totalPods s + int (length pods)"
    "su_defaultSAPods (add_workloads per s) = su_defaultSAPods s + tally default_account pods"
    unfolding step using empty by (simp_all add: Let_def)
qed



lemma baseline_append: "baseline_containers (ps @ qs) = baseline_containers ps @ baseline_containers qs"
  by (simp add: baseline_containers_def)

lemma fold_sums:
  assumes "list_all (\<lambda>(cluster, per). map_of per ''workload-security'' =
      Some (fst (scan_workloads (Inr (pods_of cluster))))) results"
    and "length (concat (map (\<lambda>(cluster, per). pods_of cluster) results)) < 2 ^ 53"
    and "length (baseline_containers (concat (map (\<lambda>(cluster, per). pods_of cluster) results))) < 2 ^ 53"
  shows "let t = foldl (\<lambda>s (cluster, per). add_workloads per (add_images per s)) s results;
             fleet = concat (map (\<lambda>(cluster, per). pods_of cluster) results); base = baseline_containers fleet
    in su_wsContainers t = su_wsContainers s + int (length base) \<and>
       su_nonRoot t = su_nonRoot s + tally (\<lambda>(p, c). RootStatus (Some p) c = NonRoot) base \<and>
       su_noPrivEsc t = su_noPrivEsc s + tally (\<lambda>(p, c). \<not> AllowsPrivilegeEscalation c) base \<and>
       su_readRO t = su_readRO s + tally (\<lambda>(p, c). ReadOnlyRootFS c) base \<and>
       su_totalPods t = su_totalPods s + int (length fleet) \<and>
       su_defaultSAPods t = su_defaultSAPods s + tally default_account fleet"
  using assms
proof (induction results arbitrary: s)
  case Nil
  then show ?case by (simp add: baseline_containers_def)
next
  case (Cons r results)
  obtain cluster per where r: "r = (cluster, per)" by (cases r)
  let ?s = "add_workloads per (add_images per s)"
  have small: "length (pods_of cluster) < 2 ^ 53" "length (baseline_containers (pods_of cluster)) < 2 ^ 53"
    using Cons.prems by (simp_all add: r baseline_append)
  note one = add_workloads_scanned [OF _ small, of per "add_images per s"]
  have "map_of per ''workload-security'' = Some (fst (scan_workloads (Inr (pods_of cluster))))"
    using Cons.prems(1) by (simp add: r)
  note one = one [OF this]
  have IH: "list_all (\<lambda>(cluster, per). map_of per ''workload-security'' =
      Some (fst (scan_workloads (Inr (pods_of cluster))))) results"
    "length (concat (map (\<lambda>(cluster, per). pods_of cluster) results)) < 2 ^ 53"
    "length (baseline_containers (concat (map (\<lambda>(cluster, per). pods_of cluster) results))) < 2 ^ 53"
    using Cons.prems by (simp_all add: r baseline_append)
  show ?case using Cons.IH [OF IH, of ?s] one by (simp add: r baseline_append Let_def)
qed

text \<open>A share of the fleet clears the threshold exactly when it is at least seven tenths.\<close>

definition most :: "('a \<Rightarrow> bool) \<Rightarrow> 'a list \<Rightarrow> bool" where
  "most P xs \<longleftrightarrow> xs \<noteq> [] \<and> 7 * length xs \<le> 10 * length (filter P xs)"

lemma most_ratio:
  "length xs < 2 ^ 47 \<Longrightarrow> Threshold \<le> floatRatio (tally P xs) (int (length xs)) \<longleftrightarrow> most P xs"
  using floatRatio_threshold [of "tally P xs" "int (length xs)"] tally_nonneg [of P xs]
  by (simp add: most_def tally_def) (use of_nat_le_iff in fastforce)




section \<open>A concrete fleet\<close>

definition sample_pod :: "string \<Rightarrow> bool option \<Rightarrow> Pod" where
  "sample_pod account nonRoot = \<lparr>pod_Namespace = ''apps'', pod_Name = ''web'', pod_Annotations = [],
     pod_SecurityContext = Some \<lparr>psc_RunAsNonRoot = nonRoot, psc_RunAsUser = None, psc_SeccompProfile = None\<rparr>,
     pod_InitContainers = [], pod_Containers = [\<lparr>ct_Name = ''main'', ct_Image = ''web:1'', ct_SecurityContext = None\<rparr>],
     pod_EphemeralContainers = [], pod_ServiceAccountName = account, pod_HostNetwork = False, pod_HostPID = False,
     pod_HostIPC = False, pod_HostPathVolumes = []\<rparr>"

definition sample_baseline :: Baseline where
  "sample_baseline = \<lparr>bl_Norm = Norm0\<lparr>nm_SamplePods := 20, nm_SampleContainers := 40, nm_NonRootFraction := 1\<rparr>,
     bl_Previous = [Norm0\<lparr>nm_SamplePods := 20, nm_SampleContainers := 40, nm_NonRootFraction := 1\<rparr>,
       Norm0\<lparr>nm_SamplePods := 20, nm_SampleContainers := 40, nm_NonRootFraction := 1\<rparr>], bl_Pinned = False\<rparr>"

lemma Threshold_le_1: "Threshold \<le> 1"
proof -
  have "Threshold \<le> f64 1" unfolding Threshold_def by (rule f64_mono) simp
  then show ?thesis using f64_of_int [of 1] by simp
qed

theorem denied_iff_witness:
  "\<not> rs_Allowed (fst (evaluateDecision (NewHandler DefaultChecks ''enforce'') sample_baseline
     \<lparr>ar_UID = ''7'', ar_Kind = ''Pod'', ar_Object = Inr (sample_pod ''app'' None)\<rparr>))"
proof -
  let ?h = "NewHandler DefaultChecks ''enforce''" and ?pod = "sample_pod ''app'' None"
  have "(\<lambda>pod. list_ex (\<lambda>c. RootStatus (Some pod) c \<noteq> NonRoot) (admittedContainers pod)) ?pod"
    by (simp add: admittedContainers_def Containers_def sample_pod_def RootStatus_def RunAsUser_def RunAsNonRoot_def podContext_def Let_def)
  moreover have "norm_held (window_of ?h) nm_NonRootFraction sample_baseline"
    using Threshold_le_1
    by (simp add: norm_held_def sample_baseline_def window_of_def NewHandler_def DefaultStableScans_def Sufficient_def
        MinSampleContainers_def MinSamplePods_def)
  ultimately have "list_ex (\<lambda>(share, breaks). breaks ?pod \<and> norm_held (window_of ?h) share sample_baseline) norm_checks"
    by (auto simp: norm_checks_def)
  then show ?thesis
    using denied_iff [of ?h sample_baseline "\<lparr>ar_UID = ''7'', ar_Kind = ''Pod'', ar_Object = Inr ?pod\<rparr>"]
    by (simp add: NewHandler_def decodePod_def sample_baseline_def Sufficient_def MinSampleContainers_def MinSamplePods_def
        sample_pod_def lookup_default_def)
qed




end
