(* ===== verification/Spec2Isabelle.thy ===== *)
theory Spec2Isabelle
  imports Scanners Findings Persistence Scanner_Coverage Seal Cohort_Assign RateLimit Build_Laws Order_Laws Drift Whatif Forecast Policy_Report Fleet_Drift Compare Alerts Notify Scan_Pipeline Controller Report_Cache Event_Bus Workload_Sec Admission Auth
begin

text \<open>
  A model of the analysis core and the server of fleetsweeper, with the properties that make it correct.

  \<^bold>\<open>The program.\<close> Fleetsweeper scans many Kubernetes clusters. A scan runs every scanner
  (\<open>internal/scanner\<close>) on every cluster, stores the results (\<open>internal/store\<close>), and builds a report from them
  (\<open>internal/report\<close>): it compares the sections of the clusters, learns norms of the fleet and of cohorts of
  clusters (\<open>internal/cohort\<close>), raises findings, scores the fleet and each cluster, and says how much of the fleet
  it could observe. A report is rebuilt from the stored scan whenever one is read. The server (\<open>internal/server\<close>)
  authenticates its callers, limits their rate, serves reports, takes alerts and acknowledgements, publishes
  events and notifies webhooks; an admission webhook (\<open>internal/admission\<close>) holds pods to the norms of the fleet;
  an operator (\<open>internal/controller\<close>) runs scans as \<open>ClusterScan\<close> resources ask for them; exporters write findings as
  objects (\<open>internal/policyreport\<close>, \<open>internal/fleetdrift\<close>) and as signed bundles (\<open>internal/seal\<close>).

  \<^bold>\<open>Conventions.\<close> A definition bears the name of the function, method or type it models. A struct is a record
  whose fields have a prefix of their own, an enumeration a datatype or its strings, a pointer that may be nil an
  option, an error a value of a sum type. A string is its bytes. A map is an association list with distinct keys;
  where the order in which Go ranges over a map can matter, the order is a parameter, and a theorem holds for every
  one. A \<open>float64\<close> is a rational that the rounding function \<open>f64\<close> leaves alone (\<open>Float64\<close>), and every
  operation rounds where the code's does; infinities, NaN and overflow are outside it save where a type has a case
  for them, and multiplications are not fused. An \<open>int\<close> of Go is an \<open>int\<close>, wrapped where the code can overflow
  (\<open>Controller.twice\<close>, \<open>RateLimit.time_Sub\<close>). A time is a number of nanoseconds. \<open>sort.Slice\<close>, which leaves the
  order of equal elements open, is taken as stable. What a function sends, writes or counts is part of the state it
  returns. Code that interleaves is a step relation, its runs are sequences of labelled steps
  (\<open>Refinement.runs\<close>), and an invariant is proved through the locale \<open>history_invariant\<close>; a component that
  answers requests is compared with an abstract one through the locale \<open>clocked_refinement\<close>.

  \<^bold>\<open>Parameters.\<close> SHA-256, HMAC, the encoders of JSON and YAML, regular expressions and templates, the parsers of
  dates and durations, random identifiers, the clock, the network, the file system, the faults of the database, and
  the Kubernetes libraries are arguments. Where a result needs one of their documented laws, that is a hypothesis
  and the witness of the theorem gives a concrete function that satisfies it. JSON text that one package writes and
  reads back is kept as its value.

  \<^bold>\<open>Foundations.\<close> \<open>Float64\<close> (rounding, bounds, exact integers), \<open>Prelude\<close> (strings, maps), \<open>Go_Fmt\<close> (verbs of
  \<open>fmt\<close>), \<open>Util\<close> (\<open>internal/util\<close>), \<open>Refinement\<close> (runs, refinement).

  \<^bold>\<open>The report.\<close> \<open>Report_Types\<close> holds its data and \<open>Field_Registry\<close> the table of fields (\<open>fields.go\<close>,
  \<open>severity.go\<close>). \<open>Scanner_Coverage\<close> is the accounting of a scanner's reads (\<open>scanner/errors.go\<close>); \<open>Observe\<close> and
  \<open>Flat\<close> are how a report reads a field and how far it trusts it; \<open>Section_Compare\<close> turns results into
  sections. \<open>Norm_Detect\<close> (\<open>outlier.go\<close>, \<open>distribution.go\<close>) and \<open>Majority\<close> (\<open>smallfleet.go\<close>) find outliers, and
  \<open>Norm_Laws\<close> shows which clusters they report. \<open>Cohort_Assign\<close> partitions the fleet (\<open>cohort.go\<close>,
  \<open>agglomerate.go\<close>) and \<open>Cohort_Norms\<close> applies norms within cohorts (\<open>profile.go\<close>, \<open>cohorts.go\<close>, \<open>explain.go\<close>,
  \<open>miscohort.go\<close>). \<open>Checks_Health\<close>, \<open>Checks_Security\<close>, \<open>Checks_Workloads\<close>, \<open>Checks_Cluster\<close> and \<open>Capacity\<close> are the
  domain checks, \<open>Check_Laws\<close> what they promise. \<open>Rules\<close>, \<open>Redundancy\<close> and \<open>Findings\<close> name findings, drop
  redundant ones, and derive health and incidents. \<open>Score_Attribution\<close> and \<open>Fleet_Score\<close> are the ledger and the
  scores, \<open>Brief\<close> the summary. \<open>Build\<close> composes them; \<open>Build_Laws\<close> shows that building returns, what is
  silent about unobserved clusters and what is never silent, that the report is well formed, and that it is settled;
  \<open>Order_Laws\<close> shows what depends on the order of maps. Over several scans: \<open>Persistence\<close>, \<open>Drift\<close>, \<open>Trends\<close>
  (\<open>trend.go\<close>, \<open>changepoint.go\<close>), \<open>Forecast\<close>, \<open>Whatif\<close>, \<open>Compare\<close>.

  \<^bold>\<open>Scans and their store.\<close> \<open>Scan_Store\<close> is the SQL store of scans, groups, locations and tags: every operation,
  transactions that can fail at any statement, integrity, and what reads return after writes. \<open>Scan_Pipeline\<close> is the
  pool of workers, the pipeline from a request to a saved scan and its report, and the handlers that read scans; it
  shows that a stored scan rebuilds to the report it was saved with. \<open>Report_Cache\<close> is the cache of rebuilt reports,
  transparent under every interleaving. \<open>Controller\<close> is the operator: its schedule, its status patches, its queue.
  \<open>Podsec\<close> and \<open>Workload_Sec\<close> are the workload scanner from the listed pods on.

  \<^bold>\<open>The server.\<close> \<open>Api_Keys\<close>, \<open>Session\<close> and \<open>Auth\<close> (keys, cookies, the middleware, key management, audit),
  \<open>RateLimit\<close>, \<open>Event_Bus\<close>, \<open>Acks\<close>, \<open>Alerts\<close>, \<open>Notify\<close> (webhooks and Slack), \<open>Admission\<close>.

  \<^bold>\<open>Exports.\<close> \<open>Export\<close> (what exporters share), \<open>Policy_Report\<close>, \<open>Fleet_Drift\<close>, \<open>Seal\<close>.

  \<^bold>\<open>Bounds.\<close> Loops that a counter bounds recurse on it. The clustering loops of \<open>Cohort_Assign\<close> are partial
  functions, and \<open>Assign_partition\<close> shows that they return; no definition takes fuel. Retry delays are exact up to
  intervals of 2^62 nanoseconds, counts of a status up to 2^53.

  \<^bold>\<open>Not modelled.\<close> The command line (\<open>cmd\<close>) and the client library (\<open>client\<close>) call the parts above and render
  text. The reads that scanners make of the Kubernetes API are parameters, and the scanners other than the workload
  scanner, which turn listed objects into counts, are left out. So are the placement of clusters on a map
  (\<open>mds.go\<close>, \<open>geo\<close>), HTML rendering, schema migrations, TLS, tracing, metrics in other formats, leader election,
  which wraps a Kubernetes library, the synthetic fleet of the demo, and handlers that select a part of a report.
\<close>

end
